(* ===== verification/Prelude.thy ===== *)
theory Prelude
  imports Complex_Main "HOL-Library.Word" "HOL-Library.Multiset"
begin

text \<open>
  Shared material of the development: the JavaScript values and library operations the
  frontend uses (truthiness of strings and numbers, \<^verbatim>\<open>Array.prototype.slice\<close>,
  \<^verbatim>\<open>findIndex\<close>, the stable \<^verbatim>\<open>sort\<close>, \<^verbatim>\<open>startsWith\<close>,
  \<^verbatim>\<open>padStart\<close>, \<^verbatim>\<open>String(n)\<close>), JSON values, the result type of
  fallible code, two generic interfaces (a state machine driven by events, and a
  bounded first-in-first-out memory) and the collections of simplification rules
  that the component theories extend.

  Numbers: timestamps, counts and pixel sizes are \<open>int\<close> or \<open>nat\<close> (the code keeps them
  below 2 to the power 53, where a JavaScript number is an exact integer); fractional
  values are \<open>rat\<close>, so the rounding of floating-point arithmetic is not modelled.
  Strings are lists of bytes (UTF-8); the code compares, concatenates and scans
  them for ASCII delimiters only.
\<close>

named_theorems js_simps \<open>computation rules of the JavaScript library operations\<close>
named_theorems store_simps \<open>field effects of the store operations\<close>
named_theorems inv_intros \<open>an operation keeps its component's invariant\<close>

section \<open>Types\<close>

type_synonym id = string
type_synonym ms = int  \<comment> \<open>milliseconds, usually since the Unix epoch\<close>
type_synonym number = rat

datatype json =
    JNull
  | JBool bool
  | JNum number
  | JStr string
  | JArr "json list"
  | JObj "(string \<times> json) list"

text \<open>An exception: the message of the thrown \<^verbatim>\<open>Error\<close>.\<close>

datatype exn = Error string

type_synonym 'a result = "exn + 'a"

abbreviation throw :: "string \<Rightarrow> 'a result" where
  "throw m \<equiv> Inl (Error m)"

abbreviation return :: "'a \<Rightarrow> 'a result" where
  "return x \<equiv> Inr x"

section \<open>Truthiness\<close>

text \<open>\<^verbatim>\<open>s || d\<close> and \<^verbatim>\<open>x ?? d\<close> on strings, options and numbers.\<close>

definition truthy_str :: "string option \<Rightarrow> bool" where
  "truthy_str s = (case s of None \<Rightarrow> False | Some t \<Rightarrow> t \<noteq> [])"

definition str_or :: "string option \<Rightarrow> string \<Rightarrow> string" where
  "str_or s d = (case s of None \<Rightarrow> d | Some t \<Rightarrow> if t = [] then d else t)"

definition truthy_int :: "int option \<Rightarrow> bool" where
  "truthy_int n = (case n of None \<Rightarrow> False | Some k \<Rightarrow> k \<noteq> 0)"

definition nullish :: "'a option \<Rightarrow> 'a \<Rightarrow> 'a" where
  "nullish x d = (case x of None \<Rightarrow> d | Some y \<Rightarrow> y)"

lemma truthy_str_simps [simp, js_simps]:
  "truthy_str None = False" "truthy_str (Some t) = (t \<noteq> [])"
  by (simp_all add: truthy_str_def)

lemma str_or_simps [simp, js_simps]:
  "str_or None d = d" "str_or (Some t) d = (if t = [] then d else t)"
  by (simp_all add: str_or_def)

lemma truthy_int_simps [simp, js_simps]:
  "truthy_int None = False" "truthy_int (Some k) = (k \<noteq> 0)"
  by (simp_all add: truthy_int_def)

lemma nullish_simps [simp, js_simps]:
  "nullish None d = d" "nullish (Some y) d = y"
  by (simp_all add: nullish_def)

section \<open>Arrays\<close>

text \<open>\<^verbatim>\<open>xs.slice(0, n)\<close> is \<^const>\<open>take\<close>; \<^verbatim>\<open>xs.slice(-n)\<close> keeps the last \<open>n\<close>.\<close>

definition slice_last :: "nat \<Rightarrow> 'a list \<Rightarrow> 'a list" where
  "slice_last n xs = drop (length xs - n) xs"

lemma length_slice_last [simp]: "length (slice_last n xs) = min n (length xs)"
  by (simp add: slice_last_def)

lemma set_slice_last: "set (slice_last n xs) \<subseteq> set xs"
  by (simp add: slice_last_def set_drop_subset)

lemma slice_last_mono: "m \<le> n \<Longrightarrow> set (slice_last m xs) \<subseteq> set (slice_last n xs)"
  by (simp add: slice_last_def set_drop_subset_set_drop)

lemma slice_last_id: "length xs \<le> n \<Longrightarrow> slice_last n xs = xs"
  by (simp add: slice_last_def)

lemma slice_last_append:
  "slice_last n (xs @ ys) =
     (if length ys \<le> n then slice_last (n - length ys) xs @ ys else slice_last n ys)"
  by (simp add: slice_last_def)

lemma distinct_slice_last [simp]: "distinct xs \<Longrightarrow> distinct (slice_last n xs)"
  by (simp add: slice_last_def)

text \<open>\<^verbatim>\<open>xs.findIndex(p)\<close>: \<open>None\<close> stands for the result \<open>-1\<close>.\<close>

fun find_index :: "('a \<Rightarrow> bool) \<Rightarrow> 'a list \<Rightarrow> nat option" where
  "find_index p [] = None"
| "find_index p (x # xs) = (if p x then Some 0 else map_option Suc (find_index p xs))"

lemma find_index_None_iff [simp]: "find_index p xs = None \<longleftrightarrow> (\<forall>x\<in>set xs. \<not> p x)"
  by (induction xs) auto

lemma find_index_SomeD: "find_index p xs = Some i \<Longrightarrow> i < length xs \<and> p (xs ! i)"
  by (induction xs arbitrary: i) (auto split: if_splits)

lemma find_SomeD: "List.find p xs = Some x \<Longrightarrow> x \<in> set xs \<and> p x"
  by (induction xs) (auto split: if_splits)

lemma find_None_iff2: "List.find p xs = None \<longleftrightarrow> (\<forall>x\<in>set xs. \<not> p x)"
  by (auto simp: find_None_iff)

lemma find_distinct_key:
  "distinct (map k xs) \<Longrightarrow> x \<in> set xs \<Longrightarrow> List.find (\<lambda>y. k y = k x) xs = Some x"
  by (induction xs) auto

text \<open>
  \<^verbatim>\<open>Array.prototype.sort(cmp)\<close> is stable. With a comparator that is negative exactly
  when \<open>lt a b\<close> holds, a stable insertion sort computes the specified order.
\<close>

fun sort_insert :: "('a \<Rightarrow> 'a \<Rightarrow> bool) \<Rightarrow> 'a \<Rightarrow> 'a list \<Rightarrow> 'a list" where
  "sort_insert lt x [] = [x]"
| "sort_insert lt x (y # ys) = (if lt y x then y # sort_insert lt x ys else x # y # ys)"

definition js_sort :: "('a \<Rightarrow> 'a \<Rightarrow> bool) \<Rightarrow> 'a list \<Rightarrow> 'a list" where
  "js_sort lt xs = foldr (sort_insert lt) xs []"

lemma mset_sort_insert [simp]: "mset (sort_insert lt x xs) = add_mset x (mset xs)"
  by (induction xs) auto

lemma mset_js_sort [simp]: "mset (js_sort lt xs) = mset xs"
  by (induction xs) (auto simp: js_sort_def)

lemma set_js_sort [simp]: "set (js_sort lt xs) = set xs"
  by (metis mset_js_sort set_mset_mset)

lemma length_js_sort [simp]: "length (js_sort lt xs) = length xs"
  by (metis mset_js_sort size_mset)

lemma distinct_map_js_sort: "distinct (map f (js_sort lt xs)) = distinct (map f xs)"
  by (rule mset_eq_imp_distinct_iff) (simp only: mset_map mset_js_sort)

lemma js_sort_Nil [simp]: "js_sort lt [] = []"
  by (simp add: js_sort_def)

lemma js_sort_Cons [simp]: "js_sort lt (x # xs) = sort_insert lt x (js_sort lt xs)"
  by (simp add: js_sort_def)

lemma sort_insert_cong:
  "(\<And>y. y \<in> set ys \<Longrightarrow> lt y x = lt' y x) \<Longrightarrow> sort_insert lt x ys = sort_insert lt' x ys"
  by (induction ys) auto

lemma js_sort_cong:
  "(\<And>x y. x \<in> set xs \<Longrightarrow> y \<in> set xs \<Longrightarrow> lt y x = lt' y x) \<Longrightarrow> js_sort lt xs = js_sort lt' xs"
  by (induction xs) (auto intro!: sort_insert_cong)

lemma js_sort_eq_sort_key: "js_sort (\<lambda>a b. f a < f b) xs = sort_key f xs"
proof -
  have ins: "sort_insert (\<lambda>a b. f a < f b) x ys = insort_key f x ys" for x ys
    by (induction ys) auto
  show ?thesis
    by (induction xs) (simp_all add: ins)
qed

section \<open>Maps in insertion order\<close>

text \<open>
  \<^verbatim>\<open>Map.set\<close> keeps the position of a key it already holds; the values of
  \<^verbatim>\<open>new Map(entries)\<close> are therefore the last value of each key, at the key's first position.
\<close>

fun map_put :: "'k \<times> 'v \<Rightarrow> ('k \<times> 'v) list \<Rightarrow> ('k \<times> 'v) list" where
  "map_put kv [] = [kv]"
| "map_put kv (x # xs) = (if fst x = fst kv then kv # xs else x # map_put kv xs)"

definition map_values :: "('a \<Rightarrow> 'k) \<Rightarrow> 'a list \<Rightarrow> 'a list" where
  "map_values key xs = map snd (foldl (\<lambda>m x. map_put (key x, x) m) [] xs)"

lemma map_put_vals: "snd ` set (map_put kv m) \<subseteq> insert (snd kv) (snd ` set m)"
  by (induction m) auto

lemma map_put_keyed: "\<forall>kv \<in> set m. fst kv = key (snd kv) \<Longrightarrow> \<forall>kv \<in> set (map_put (key x, x) m). fst kv = key (snd kv)"
  by (induction m) auto

lemma map_put_keys [simp]: "fst ` set (map_put kv m) = insert (fst kv) (fst ` set m)"
  by (induction m) auto

lemma distinct_map_put: "distinct (map fst m) \<Longrightarrow> distinct (map fst (map_put kv m))"
proof (induction m)
  case (Cons x m)
  then have "fst x \<notin> fst ` set m" "distinct (map fst (map_put kv m))" by simp_all
  with Cons.prems show ?case by (cases "fst x = fst kv") auto
qed simp

lemma map_of_map_put: "map_of (map_put (k, x) m) k' = (if k' = k then Some x else map_of m k')"
  by (induction m) auto

lemma map_put_append: "fst kv \<notin> fst ` set m \<Longrightarrow> map_put kv (m @ m') = m @ map_put kv m'"
  by (induction m) auto

lemma foldl_map_put_props:
  fixes key :: "'a \<Rightarrow> 'k"
  shows "let r = foldl (\<lambda>m x. map_put (key x, x) m) [] xs in
    distinct (map fst r) \<and> (\<forall>kv \<in> set r. fst kv = key (snd kv)) \<and> snd ` set r \<subseteq> set xs \<and> fst ` set r = key ` set xs"
proof (induction xs rule: rev_induct)
  case (snoc x xs)
  let ?r = "foldl (\<lambda>m x. map_put (key x, x) m) [] xs"
  have r: "distinct (map fst ?r)" "\<forall>kv \<in> set ?r. fst kv = key (snd kv)" "snd ` set ?r \<subseteq> set xs" "fst ` set ?r = key ` set xs"
    using snoc unfolding Let_def by blast+
  have "snd ` set (map_put (key x, x) ?r) \<subseteq> set (xs @ [x])"
    using map_put_vals [of "(key x, x)" ?r] r(3) by simp blast
  moreover have "fst ` set (map_put (key x, x) ?r) = key ` set (xs @ [x])" using r(4) by simp
  ultimately show ?case
    unfolding Let_def foldl_append foldl.simps
    by (intro conjI distinct_map_put [OF r(1)] map_put_keyed [OF r(2)])
qed simp

lemma map_values_props:
  "set (map_values key xs) \<subseteq> set xs" "key ` set (map_values key xs) = key ` set xs"
  "distinct (map key (map_values key xs))"
proof -
  let ?r = "foldl (\<lambda>m x. map_put (key x, x) m) [] xs"
  have r: "distinct (map fst ?r)" "\<forall>kv \<in> set ?r. fst kv = key (snd kv)"
    "snd ` set ?r \<subseteq> set xs" "fst ` set ?r = key ` set xs"
    using foldl_map_put_props [of key xs] unfolding Let_def by blast+
  have eq: "map key (map_values key xs) = map fst ?r" using r(2) by (simp add: map_values_def)
  show "set (map_values key xs) \<subseteq> set xs" using r(3) by (simp add: map_values_def)
  show "distinct (map key (map_values key xs))" using r(1) by (simp only: eq)
  have "key ` set (map_values key xs) = set (map key (map_values key xs))" by simp
  then show "key ` set (map_values key xs) = key ` set xs" using r(4) by (simp only: eq set_map)
qed

lemma map_values_fresh_append:
  assumes "distinct (map key xs)" "key ` set xs \<inter> key ` set ys = {}"
  shows "map_values key (xs @ ys) = xs @ map_values key ys"
proof -
  let ?f = "\<lambda>m x. map_put (key x, x) m" let ?pre = "map (\<lambda>x. (key x, x)) xs"
  have keys: "fst ` set ?pre = key ` set xs" by force
  have "foldl ?f [] xs = ?pre" using assms(1)
    by (induction xs rule: rev_induct)
       (auto simp: map_put_append [where m' = "[]", simplified] image_iff)
  moreover have "foldl ?f (?pre @ m) ys = ?pre @ foldl ?f m ys" for m
    using assms(2)
  proof (induction ys arbitrary: m)
    case (Cons y ys)
    then have "map_put (key y, y) (?pre @ m) = ?pre @ map_put (key y, y) m"
      by (intro map_put_append) (auto simp: keys)
    with Cons show ?case by simp
  qed simp
  from this [of "[]"] have "foldl ?f ?pre ys = ?pre @ foldl ?f [] ys" by simp
  ultimately show ?thesis by (simp add: map_values_def comp_def)
qed

text \<open>\<^verbatim>\<open>Math.round\<close> rounds halves up.\<close>

definition js_round :: "number \<Rightarrow> int" where
  "js_round x = \<lfloor>x + 1/2\<rfloor>"

lemma js_round_bounds: "x - 1/2 < of_int (js_round x)" "of_int (js_round x) \<le> x + 1/2"
  unfolding js_round_def by linarith+

lemma js_round_mono: "x \<le> y \<Longrightarrow> js_round x \<le> js_round y"
  unfolding js_round_def by (simp add: floor_mono)

lemma js_round_of_int [simp]: "js_round (of_int n) = n"
  unfolding js_round_def by linarith

section \<open>Strings\<close>

text \<open>\<^verbatim>\<open>s.startsWith(p)\<close>.\<close>

fun starts_with :: "string \<Rightarrow> string \<Rightarrow> bool" where
  "starts_with [] s = True"
| "starts_with (c # p) [] = False"
| "starts_with (c # p) (d # s) = (c = d \<and> starts_with p s)"

text \<open>\<^verbatim>\<open>s.includes(t)\<close>.\<close>

fun contains_str :: "string \<Rightarrow> string \<Rightarrow> bool" where
  "contains_str t [] = (t = [])"
| "contains_str t (c # s) = (starts_with t (c # s) \<or> contains_str t s)"

lemma starts_with_iff: "starts_with p s \<longleftrightarrow> (\<exists>t. s = p @ t)"
  by (induction p s rule: starts_with.induct) auto

lemma starts_with_append [simp]: "starts_with p (p @ t)"
  by (auto simp: starts_with_iff)

lemma starts_with_refl [simp]: "starts_with p p"
  by (metis append_Nil2 starts_with_append)

text \<open>\<^verbatim>\<open>String(n)\<close> for integers.\<close>

definition digit_char :: "nat \<Rightarrow> char" where
  "digit_char d = char_of (48 + d)"

fun nat_str :: "nat \<Rightarrow> string" where
  "nat_str n = (if n < 10 then [digit_char n] else nat_str (n div 10) @ [digit_char (n mod 10)])"

declare nat_str.simps [simp del]

definition int_str :: "int \<Rightarrow> string" where
  "int_str n = (if n < 0 then ''-'' @ nat_str (nat (- n)) else nat_str (nat n))"

text \<open>The value a string of decimal digits denotes.\<close>

definition digit_val :: "char \<Rightarrow> nat" where
  "digit_val c = of_char c - 48"

definition dec_val :: "string \<Rightarrow> nat" where
  "dec_val s = foldl (\<lambda>n c. 10 * n + digit_val c) 0 s"

lemma digit_val_char [simp]: "d < 10 \<Longrightarrow> digit_val (digit_char d) = d"
  by (simp add: digit_val_def digit_char_def)

lemma dec_val_snoc [simp]: "dec_val (s @ [c]) = 10 * dec_val s + digit_val c"
  by (simp add: dec_val_def)

lemma dec_val_single [simp]: "dec_val [c] = digit_val c"
  by (simp add: dec_val_def)

lemma dec_val_nat_str [simp]: "dec_val (nat_str n) = n"
proof (induction n rule: nat_str.induct)
  case (1 n)
  then show ?case
    by (cases "n < 10") (simp_all add: nat_str.simps [of n])
qed

lemma nat_str_inj [simp]: "nat_str m = nat_str n \<longleftrightarrow> m = n"
  by (metis dec_val_nat_str)

lemma nat_str_nonempty [simp]: "nat_str n \<noteq> []"
  by (subst nat_str.simps) simp

text \<open>\<^verbatim>\<open>String(n).padStart(w, '0')\<close>.\<close>

definition pad_start :: "nat \<Rightarrow> char \<Rightarrow> string \<Rightarrow> string" where
  "pad_start w c s = replicate (w - length s) c @ s"

lemma length_pad_start [simp]: "length (pad_start w c s) = max w (length s)"
  by (simp add: pad_start_def)

text \<open>\<^verbatim>\<open>xs.join(sep)\<close>.\<close>

fun join :: "string \<Rightarrow> string list \<Rightarrow> string" where
  "join sep [] = []"
| "join sep [x] = x"
| "join sep (x # y # xs) = x @ sep @ join sep (y # xs)"

text \<open>\<^verbatim>\<open>s.split(sep)\<close> for a one-character separator.\<close>

fun split_at_char :: "char \<Rightarrow> string \<Rightarrow> string list" where
  "split_at_char d [] = [[]]"
| "split_at_char d (c # s) =
     (if c = d then [] # split_at_char d s
      else (case split_at_char d s of [] \<Rightarrow> [[c]] | w # ws \<Rightarrow> (c # w) # ws))"

lemma split_at_char_nonempty [simp]: "split_at_char d s \<noteq> []"
  by (induction s) (auto split: list.splits)

lemma split_at_char_no_sep: "d \<notin> set s \<Longrightarrow> split_at_char d s = [s]"
  by (induction s) auto

lemma split_at_char_append:
  "d \<notin> set w \<Longrightarrow> split_at_char d (w @ d # s) = w # split_at_char d s"
  by (induction w) auto

lemma split_join:
  "ws \<noteq> [] \<Longrightarrow> \<forall>w\<in>set ws. d \<notin> set w \<Longrightarrow> split_at_char d (join [d] ws) = ws"
  by (induction "[d]" ws rule: join.induct)
     (auto simp: split_at_char_no_sep split_at_char_append)

text \<open>\<^verbatim>\<open>s.toUpperCase()\<close> and \<^verbatim>\<open>s.toLowerCase()\<close> on ASCII letters.\<close>

definition upper_char :: "char \<Rightarrow> char" where
  "upper_char c = (let n = (of_char c :: nat) in if 97 \<le> n \<and> n \<le> 122 then char_of (n - 32) else c)"

definition lower_char :: "char \<Rightarrow> char" where
  "lower_char c = (let n = (of_char c :: nat) in if 65 \<le> n \<and> n \<le> 90 then char_of (n + 32) else c)"

abbreviation to_upper :: "string \<Rightarrow> string" where
  "to_upper s \<equiv> map upper_char s"

abbreviation to_lower :: "string \<Rightarrow> string" where
  "to_lower s \<equiv> map lower_char s"

text \<open>The em dash and the multiplication sign of the labels, in UTF-8.\<close>

definition emdash :: string where
  "emdash = [CHR 0xE2, CHR 0x80, CHR 0x94]"

definition times_sign :: string where
  "times_sign = [CHR 0xC3, CHR 0x97]"

section \<open>Machines and bounded memories\<close>

text \<open>
  A component driven by events is a step function; a run is a fold over the events. A
  state is reachable when some finite sequence of events leads to it from a start state.
\<close>

inductive reach :: "('e \<Rightarrow> 's \<Rightarrow> 's) \<Rightarrow> ('s \<Rightarrow> bool) \<Rightarrow> 's \<Rightarrow> bool"
  for step :: "'e \<Rightarrow> 's \<Rightarrow> 's" and start :: "'s \<Rightarrow> bool" where
  reach_start: "start s \<Longrightarrow> reach step start s"
| reach_step: "reach step start s \<Longrightarrow> reach step start (step e s)"

lemma reach_fold: "reach step start s \<Longrightarrow> reach step start (fold step es s)"
  by (induction es arbitrary: s) (auto intro: reach_step)

locale machine =
  fixes step :: "'e \<Rightarrow> 's \<Rightarrow> 's"
    and start :: "'s \<Rightarrow> bool"
    and inv :: "'s \<Rightarrow> bool"
  assumes inv_start: "start s \<Longrightarrow> inv s"
    and inv_step: "inv s \<Longrightarrow> inv (step e s)"
begin

lemma inv_run: "inv s \<Longrightarrow> inv (fold step es s)"
  by (induction es arbitrary: s) (auto intro: inv_step)

lemma inv_reach: "reach step start s \<Longrightarrow> inv s"
  by (induction rule: reach.induct) (auto intro: inv_start inv_step)

end

text \<open>
  A draining component has work pending: every callback that runs leaves less of it, and with
  nothing left to do nothing is on the screen.
\<close>

locale draining =
  fixes fire :: "'e \<Rightarrow> 's \<Rightarrow> 's"
    and pending :: "'s \<Rightarrow> nat"
    and inv :: "'s \<Rightarrow> bool"
    and shown :: "'s \<Rightarrow> 'a list"
  assumes fire_inv: "inv s \<Longrightarrow> inv (fire k s)"
    and fire_less: "inv s \<Longrightarrow> 0 < pending s \<Longrightarrow> pending (fire k s) < pending s"
    and fire_idle: "inv s \<Longrightarrow> pending s = 0 \<Longrightarrow> pending (fire k s) = 0"
    and idle_empty: "inv s \<Longrightarrow> pending s = 0 \<Longrightarrow> shown s = []"
begin

lemma inv_fold: "inv s \<Longrightarrow> inv (fold fire ks s)"
  by (induction ks arbitrary: s) (simp_all add: fire_inv)

lemma pending_fold: "inv s \<Longrightarrow> pending (fold fire ks s) \<le> pending s - length ks"
proof (induction ks arbitrary: s)
  case (Cons k ks)
  have "pending (fire k s) \<le> pending s - 1"
    using fire_less [OF Cons.prems, of k] fire_idle [OF Cons.prems, of k] by (cases "pending s = 0") auto
  then show ?case using Cons.IH [OF fire_inv [OF Cons.prems, of k]] by simp
qed simp

lemma drains: "inv s \<Longrightarrow> pending s \<le> length ks \<Longrightarrow> shown (fold fire ks s) = []"
  using pending_fold [of s ks] inv_fold [of s ks] idle_empty by simp

end

text \<open>
  A bounded memory keeps the most recent \<open>cap\<close> entries recorded by the steps of a
  machine (\<open>adds\<close> lists what one step records).
\<close>

fun run_adds :: "('e \<Rightarrow> 's \<Rightarrow> 's) \<Rightarrow> ('e \<Rightarrow> 's \<Rightarrow> 'a list) \<Rightarrow> 'e list \<Rightarrow> 's \<Rightarrow> 'a list" where
  "run_adds step adds [] s = []"
| "run_adds step adds (e # es) s = adds e s @ run_adds step adds es (step e s)"

lemma slice_last_absorb: "slice_last n (slice_last n xs @ ys) = slice_last n (xs @ ys)"
  by (cases "length xs \<le> n") (auto simp: slice_last_def add.commute)

lemma in_slice_last_append:
  "x \<in> set (slice_last (n - length ys) xs) \<Longrightarrow> x \<in> set (slice_last n (xs @ ys))"
  by (cases "length ys \<le> n") (auto simp: slice_last_append slice_last_def)

locale bounded_memory =
  fixes step :: "'e \<Rightarrow> 's \<Rightarrow> 's"
    and recent :: "'s \<Rightarrow> 'a list"
    and adds :: "'e \<Rightarrow> 's \<Rightarrow> 'a list"
    and cap :: nat
  assumes recent_step:
    "length (recent s) \<le> cap \<Longrightarrow> recent (step e s) = slice_last cap (recent s @ adds e s)"
begin

lemma recent_bounded: "length (recent s) \<le> cap \<Longrightarrow> length (recent (step e s)) \<le> cap"
  by (simp add: recent_step)

lemma recent_run:
  "length (recent s) \<le> cap \<Longrightarrow>
     recent (fold step es s) = slice_last cap (recent s @ run_adds step adds es s)"
proof (induction es arbitrary: s)
  case Nil
  then show ?case by (simp add: slice_last_id)
next
  case (Cons e es)
  from Cons.prems have "length (recent (step e s)) \<le> cap" by (rule recent_bounded)
  with Cons show ?case by (simp add: recent_step slice_last_absorb)
qed

text \<open>An entry survives until \<open>cap\<close> further entries have been recorded.\<close>

lemma remembers:
  assumes "length (recent s) \<le> cap"
    and "x \<in> set (slice_last (cap - length (run_adds step adds es s)) (recent s))"
  shows "x \<in> set (recent (fold step es s))"
  using assms by (simp add: recent_run in_slice_last_append)

lemma remembers_newest:
  assumes "length (recent s) \<le> cap" and "x \<in> set (slice_last 1 (recent s))"
    and "length (run_adds step adds es s) < cap"
  shows "x \<in> set (recent (fold step es s))"
proof (rule remembers [OF assms(1)])
  have "1 \<le> cap - length (run_adds step adds es s)" using assms(3) by simp
  from slice_last_mono [OF this, of "recent s"] assms(2)
  show "x \<in> set (slice_last (cap - length (run_adds step adds es s)) (recent s))"
    by blast
qed

end

end
