(* ===== verification/Types.thy ===== *)
theory Types
  imports Prelude
begin

text \<open>
  The data of \<^verbatim>\<open>frontend/src/types/ironsight.ts\<close> that the modelled operations read or
  write, with the source's field names behind a short prefix per interface (\<open>ae_\<close> for
  \<^verbatim>\<open>AlertEvent\<close>, \<open>si_\<close> for \<^verbatim>\<open>SOCIncident\<close>, and so on). A string-literal union is
  a datatype; an optional field (\<^verbatim>\<open>f?: T\<close>) is an \<open>option\<close>.
\<close>

section \<open>Enumerations\<close>

datatype Severity = Sev_critical | Sev_high | Sev_medium | Sev_low

datatype PresenceStatus = On_shift | Off_shift | On_break

datatype SOCIncidentStatus = Inc_active | Inc_acknowledged

section \<open>SOC operators and site locks\<close>

record SOCOperator =
  so_id :: id
  so_name :: string
  so_callsign :: string
  so_avatar_url :: "string option"
  so_status :: PresenceStatus
  so_shift_start :: "string option"

record SiteLock =
  sl_site_id :: id
  sl_operator_id :: id
  sl_operator_callsign :: string
  sl_locked_at :: string

section \<open>Alerts and incidents\<close>

record BBox =
  bb_x1 :: number
  bb_y1 :: number
  bb_x2 :: number
  bb_y2 :: number

record LabelledBox =
  lb_x :: number
  lb_y :: number
  lb_w :: number
  lb_h :: number
  lb_label :: "string option"

record AIObject =
  ao_type :: string
  ao_attributes :: "(string \<times> json) list"

record AIDetection =
  ad_class :: string
  ad_confidence :: number
  ad_missing :: "string option"
  ad_bbox_normalized :: BBox

record AlertEvent =
  ae_id :: id
  ae_incident_id :: "id option"
  ae_site_id :: id
  ae_site_name :: string
  ae_camera_id :: id
  ae_camera_name :: string
  ae_severity :: Severity
  ae_type :: string
  ae_description :: string
  ae_snapshot_url :: string
  ae_clip_url :: string
  ae_ts :: ms
  ae_acknowledged :: bool
  ae_assigned_operator_id :: "id option"
  ae_assigned_operator_callsign :: "string option"
  ae_escalation_level :: int
  ae_escalated_at :: "ms option"
  ae_sla_deadline_ms :: "ms option"
  ae_ai_score :: "number option"
  ae_obj_type :: "string option"
  ae_rule_name :: "string option"
  ae_bounding_boxes :: "LabelledBox list option"
  ae_ai_description :: "string option"
  ae_ai_threat_level :: "string option"
  ae_ai_recommended_action :: "string option"
  ae_ai_false_positive_pct :: "number option"
  ae_ai_objects :: "AIObject list option"
  ae_ai_detections :: "AIDetection list option"
  ae_ai_ppe_violations :: "AIDetection list option"

record SOCIncident =
  si_id :: id
  si_site_id :: id
  si_site_name :: string
  si_severity :: Severity
  si_status :: SOCIncidentStatus
  si_alarm_count :: int
  si_camera_ids :: "id list"
  si_camera_names :: "string list"
  si_types :: "string list"
  si_latest_type :: string
  si_description :: string
  si_snapshot_url :: string
  si_clip_url :: string
  si_first_alarm_ts :: ms
  si_last_alarm_ts :: ms
  si_sla_deadline_ms :: ms


section \<open>Fixtures\<close>

text \<open>Concrete values for the examples that instantiate theorems.\<close>

definition alert_fixture :: "id \<Rightarrow> id option \<Rightarrow> ms \<Rightarrow> ms option \<Rightarrow> AlertEvent" where
  "alert_fixture i inc t d =
    \<lparr> ae_id = i, ae_incident_id = inc, ae_site_id = ''TX-203'', ae_site_name = ''Depot'',
      ae_camera_id = ''cam-1'', ae_camera_name = ''Gate'', ae_severity = Sev_high,
      ae_type = ''intrusion'', ae_description = [], ae_snapshot_url = [], ae_clip_url = [],
      ae_ts = t, ae_acknowledged = False, ae_assigned_operator_id = None,
      ae_assigned_operator_callsign = None, ae_escalation_level = 0, ae_escalated_at = None,
      ae_sla_deadline_ms = d, ae_ai_score = None, ae_obj_type = None, ae_rule_name = None,
      ae_bounding_boxes = None, ae_ai_description = None, ae_ai_threat_level = None,
      ae_ai_recommended_action = None, ae_ai_false_positive_pct = None, ae_ai_objects = None,
      ae_ai_detections = None, ae_ai_ppe_violations = None \<rparr>"

definition operator_fixture :: "id \<Rightarrow> string \<Rightarrow> SOCOperator" where
  "operator_fixture i c =
    \<lparr> so_id = i, so_name = ''Dana'', so_callsign = c, so_avatar_url = None,
      so_status = On_shift, so_shift_start = None \<rparr>"

definition incident_fixture :: "id \<Rightarrow> SOCIncident" where
  "incident_fixture i =
    \<lparr> si_id = i, si_site_id = ''TX-203'', si_site_name = ''Depot'', si_severity = Sev_high,
      si_status = Inc_active, si_alarm_count = 1, si_camera_ids = [''cam-1''],
      si_camera_names = [''Gate''], si_types = [''intrusion''], si_latest_type = ''intrusion'',
      si_description = [], si_snapshot_url = [], si_clip_url = [], si_first_alarm_ts = 0,
      si_last_alarm_ts = 0, si_sla_deadline_ms = 90000 \<rparr>"

lemmas fixture_defs = alert_fixture_def operator_fixture_def incident_fixture_def

end
