(* ===== verification/Js_Date.thy ===== *)
theory Js_Date
  imports Prelude
begin

text \<open>
  The part of the \<^verbatim>\<open>Date\<close> object the stores use: \<^verbatim>\<open>toISOString\<close> of a time value in
  milliseconds (proleptic Gregorian calendar, UTC), for the years 0 to 9999 that the
  four-digit form covers. The calendar arithmetic counts days from 1 March of year 0, so
  that the leap day is the last day of a year.
\<close>

definition days_before_year :: "int \<Rightarrow> int" where
  "days_before_year y = 365 * y + y div 4 - y div 100 + y div 400"

text \<open>Month \<open>0\<close> is March, month \<open>11\<close> is February.\<close>

definition days_before_month :: "int \<Rightarrow> int" where
  "days_before_month m = (153 * m + 2) div 5"

definition days_of_civil :: "int \<Rightarrow> int \<Rightarrow> int \<Rightarrow> int" where
  "days_of_civil y m d =
     (let y' = (if m \<le> 2 then y - 1 else y); m' = (m + 9) mod 12
      in days_before_year y' + days_before_month m' + d - 1 - 719468)"

definition civil_of_days :: "int \<Rightarrow> int \<times> int \<times> int" where
  "civil_of_days z =
     (let z' = z + 719468;
          era = z' div 146097;
          doe = z' mod 146097;
          yoe = (doe - doe div 1460 + doe div 36524 - doe div 146096) div 365;
          doy = doe - (365 * yoe + yoe div 4 - yoe div 100);
          mp = (5 * doy + 2) div 153;
          d = doy - (153 * mp + 2) div 5 + 1;
          m = (if mp < 10 then mp + 3 else mp - 9);
          y = yoe + era * 400
      in (if m \<le> 2 then y + 1 else y, m, d))"

abbreviation pad2 :: "int \<Rightarrow> string" where
  "pad2 n \<equiv> pad_start 2 (CHR ''0'') (int_str n)"

definition toISOString :: "ms \<Rightarrow> string" where
  "toISOString t =
     (let z = t div 86400000; r = t mod 86400000; (y, m, d) = civil_of_days z
      in pad_start 4 (CHR ''0'') (int_str y) @ ''-'' @ pad2 m @ ''-'' @ pad2 d @ ''T'' @
         pad2 (r div 3600000) @ '':'' @ pad2 (r div 60000 mod 60) @ '':'' @
         pad2 (r div 1000 mod 60) @ ''.'' @
         pad_start 3 (CHR ''0'') (int_str (r mod 1000)) @ ''Z'')"

end
