(* ===== verification/Operator_Store.thy ===== *)
theory Operator_Store
  imports Types Js_Date
begin

text \<open>
  The SOC operator console's store, \<^verbatim>\<open>frontend/src/stores/operator-store.ts\<close>. The state is
  a record with one field per data field of \<^verbatim>\<open>OperatorState\<close>; every action of the store
  is a function from state to state. The clock (\<^verbatim>\<open>Date.now()\<close>) is the argument \<open>now\<close>.
  The two actions that start an API call also return it, as a value of \<open>store_effect\<close>.
  The type \<open>operator_action\<close> and the function \<open>operator_step\<close> name the actions, so that
  an execution of the console is a list of them.
\<close>

section \<open>Data\<close>

datatype LayoutMode = L2x3 | L1x1 | L3x3

datatype OperatorStatus = Available | Engaged | Wrap_up | Away | Break

record ActionLogEntry =
  al_ts :: ms
  al_text :: string
  al_auto :: bool

datatype DispositionCode =
    False_positive_animal
  | False_positive_weather
  | False_positive_shadow
  | False_positive_equipment
  | False_positive_other
  | Verified_customer_notified
  | Verified_police_dispatched
  | Verified_guard_responded
  | Verified_no_threat
  | Verified_other

datatype DispositionCategory = Cat_false | Cat_verified

record DispositionOption =
  do_code :: DispositionCode
  do_label :: string
  do_category :: DispositionCategory

definition DISPOSITION_OPTIONS :: "DispositionOption list" where
  "DISPOSITION_OPTIONS =
    [ \<lparr>do_code = False_positive_animal, do_label = ''False Positive '' @ emdash @ '' Animal'', do_category = Cat_false\<rparr>,
      \<lparr>do_code = False_positive_weather, do_label = ''False Positive '' @ emdash @ '' Weather'', do_category = Cat_false\<rparr>,
      \<lparr>do_code = False_positive_shadow, do_label = ''False Positive '' @ emdash @ '' Shadow/Light'', do_category = Cat_false\<rparr>,
      \<lparr>do_code = False_positive_equipment, do_label = ''False Positive '' @ emdash @ '' Equipment'', do_category = Cat_false\<rparr>,
      \<lparr>do_code = False_positive_other, do_label = ''False Positive '' @ emdash @ '' Other'', do_category = Cat_false\<rparr>,
      \<lparr>do_code = Verified_customer_notified, do_label = ''Verified '' @ emdash @ '' Customer Notified'', do_category = Cat_verified\<rparr>,
      \<lparr>do_code = Verified_police_dispatched, do_label = ''Verified '' @ emdash @ '' Police Dispatched'', do_category = Cat_verified\<rparr>,
      \<lparr>do_code = Verified_guard_responded, do_label = ''Verified '' @ emdash @ '' Guard Responded'', do_category = Cat_verified\<rparr>,
      \<lparr>do_code = Verified_no_threat, do_label = ''Verified '' @ emdash @ '' No Active Threat'', do_category = Cat_verified\<rparr>,
      \<lparr>do_code = Verified_other, do_label = ''Verified '' @ emdash @ '' Other'', do_category = Cat_verified\<rparr> ]"

record LastDisposition =
  ld_alarm :: AlertEvent
  ld_dispositionCode :: DispositionCode
  ld_actionLog :: "ActionLogEntry list"
  ld_resolvedAt :: ms
  ld_responseMs :: ms

record ShiftStats =
  ss_alarmsHandled :: int
  ss_slaMissed :: int
  ss_shiftStartMs :: ms

record OperatorState =
  currentOperator :: "SOCOperator option"
  operatorStatus :: OperatorStatus
  selectedSiteId :: "id option"
  siteLocks :: "id \<rightharpoonup> SiteLock"
  incidents :: "SOCIncident list"
  alertFeed :: "AlertEvent list"
  dismissedIds :: "id list"
  activeAlarm :: "AlertEvent option"
  actionLog :: "ActionLogEntry list"
  lastDisposition :: "LastDisposition option"
  shiftStats :: ShiftStats
  queueDepth :: int
  siteFilter :: "string option"
  layoutMode :: LayoutMode
  audioMuted :: bool

text \<open>
  The argument of \<^verbatim>\<open>patchAlertAI\<close> is an object with optional keys. Spreading it over an
  alert overwrites a key that is present, also when its value is \<^verbatim>\<open>undefined\<close>: a field is
  \<open>None\<close> when the key is absent and \<open>Some v\<close> when it is present with value \<open>v\<close>.
\<close>

record AIPatch =
  ap_description :: "string option option"
  ap_threat_level :: "string option option"
  ap_recommended_action :: "string option option"
  ap_false_positive_pct :: "number option option"
  ap_objects :: "AIObject list option option"
  ap_detections :: "AIDetection list option option"
  ap_ppe_violations :: "AIDetection list option option"

text \<open>The API calls the store starts (and does not wait for).\<close>

datatype store_effect =
    Call_updatePresence id string PresenceStatus
  | Call_escalateAlarm id int

definition initialStore :: "ms \<Rightarrow> OperatorState" where
  "initialStore now =
    \<lparr> currentOperator = None, operatorStatus = Available, selectedSiteId = None,
      siteLocks = Map.empty, incidents = [], alertFeed = [], dismissedIds = [],
      activeAlarm = None, actionLog = [], lastDisposition = None,
      shiftStats = \<lparr> ss_alarmsHandled = 0, ss_slaMissed = 0, ss_shiftStartMs = now \<rparr>,
      queueDepth = 0, siteFilter = None, layoutMode = L2x3, audioMuted = False \<rparr>"

section \<open>Identity, status, sites\<close>

definition setCurrentOperator :: "SOCOperator \<Rightarrow> OperatorState \<Rightarrow> OperatorState" where
  "setCurrentOperator oper s = s\<lparr>currentOperator := Some oper\<rparr>"

fun presenceStatus :: "OperatorStatus \<Rightarrow> PresenceStatus" where
  "presenceStatus Break = On_break"
| "presenceStatus Away = Off_shift"
| "presenceStatus _ = On_shift"

definition setOperatorStatus :: "OperatorStatus \<Rightarrow> OperatorState \<Rightarrow> OperatorState \<times> store_effect list" where
  "setOperatorStatus status s =
     (let s' = s\<lparr>operatorStatus := status\<rparr> in
      case currentOperator s' of
        None \<Rightarrow> (s', [])
      | Some oper \<Rightarrow> (s', [Call_updatePresence (so_id oper) (so_callsign oper) (presenceStatus status)]))"

definition selectSite :: "id \<Rightarrow> OperatorState \<Rightarrow> OperatorState" where
  "selectSite i s = s\<lparr>selectedSiteId := Some i\<rparr>"

text \<open>\<open>None\<close> stands for an argument that is not an array.\<close>

definition initLocks :: "SiteLock list option \<Rightarrow> OperatorState \<Rightarrow> OperatorState" where
  "initLocks locks s =
     (case locks of None \<Rightarrow> s
      | Some ls \<Rightarrow> s\<lparr>siteLocks := map_of (rev (map (\<lambda>l. (sl_site_id l, l)) ls))\<rparr>)"

definition lockSite :: "ms \<Rightarrow> id \<Rightarrow> OperatorState \<Rightarrow> OperatorState" where
  "lockSite now siteId s =
     (case currentOperator s of None \<Rightarrow> s
      | Some oper \<Rightarrow> s\<lparr>siteLocks := (siteLocks s)(siteId \<mapsto>
           \<lparr> sl_site_id = siteId, sl_operator_id = so_id oper,
             sl_operator_callsign = so_callsign oper, sl_locked_at = toISOString now \<rparr>)\<rparr>)"

definition unlockSite :: "id \<Rightarrow> OperatorState \<Rightarrow> OperatorState" where
  "unlockSite siteId s = s\<lparr>siteLocks := (siteLocks s)(siteId := None)\<rparr>"

definition getSiteLock :: "id \<Rightarrow> OperatorState \<Rightarrow> SiteLock option" where
  "getSiteLock siteId s = siteLocks s siteId"

definition isMySiteLock :: "id \<Rightarrow> OperatorState \<Rightarrow> bool" where
  "isMySiteLock siteId s =
     (case siteLocks s siteId of None \<Rightarrow> False
      | Some lock \<Rightarrow> (case currentOperator s of None \<Rightarrow> False
         | Some oper \<Rightarrow> sl_operator_id lock = so_id oper))"

section \<open>Incident and alert feeds\<close>

definition upsertIncident :: "SOCIncident \<Rightarrow> OperatorState \<Rightarrow> OperatorState" where
  "upsertIncident inc s =
     (case find_index (\<lambda>i. si_id i = si_id inc) (incidents s) of
        Some idx \<Rightarrow> s\<lparr>incidents := (incidents s)[idx := inc]\<rparr>
      | None \<Rightarrow> s\<lparr>incidents := take 200 (inc # incidents s)\<rparr>)"

definition acknowledgeIncident :: "id \<Rightarrow> OperatorState \<Rightarrow> OperatorState" where
  "acknowledgeIncident i s =
     s\<lparr> incidents := filter (\<lambda>x. si_id x \<noteq> i) (incidents s),
        alertFeed := map (\<lambda>a. if ae_incident_id a = Some i then a\<lparr>ae_acknowledged := True\<rparr> else a) (alertFeed s),
        dismissedIds := slice_last 500 (dismissedIds s @
          map ae_id (filter (\<lambda>a. ae_incident_id a = Some i) (alertFeed s))) \<rparr>"

definition addAlert :: "AlertEvent \<Rightarrow> OperatorState \<Rightarrow> OperatorState" where
  "addAlert alert s =
     (if ae_id alert \<in> set (dismissedIds s) then s
      else s\<lparr>alertFeed := take 200 (alert # alertFeed s)\<rparr>)"

definition dismissId :: "id \<Rightarrow> id list \<Rightarrow> id list" where
  "dismissId i ids = (if i \<in> set ids then ids else slice_last 500 (ids @ [i]))"

definition acknowledgeAlert :: "id \<Rightarrow> OperatorState \<Rightarrow> OperatorState" where
  "acknowledgeAlert i s =
     s\<lparr> alertFeed := map (\<lambda>a. if ae_id a = i then a\<lparr>ae_acknowledged := True\<rparr> else a) (alertFeed s),
        dismissedIds := dismissId i (dismissedIds s) \<rparr>"

definition clearAlerts :: "OperatorState \<Rightarrow> OperatorState" where
  "clearAlerts s = s\<lparr>alertFeed := []\<rparr>"

definition patchAlertSnapshot :: "id \<Rightarrow> string \<Rightarrow> OperatorState \<Rightarrow> OperatorState" where
  "patchAlertSnapshot alarmId snapshotUrl s =
     (let incidentId = Option.bind (List.find (\<lambda>a. ae_id a = alarmId) (alertFeed s)) ae_incident_id in
      s\<lparr> alertFeed := map (\<lambda>a. if ae_id a = alarmId then a\<lparr>ae_snapshot_url := snapshotUrl\<rparr> else a) (alertFeed s),
         incidents := (if truthy_str incidentId
            then map (\<lambda>i. if Some (si_id i) = incidentId then i\<lparr>si_snapshot_url := snapshotUrl\<rparr> else i) (incidents s)
            else incidents s),
         activeAlarm := (case activeAlarm s of None \<Rightarrow> None
            | Some a \<Rightarrow> Some (if ae_id a = alarmId then a\<lparr>ae_snapshot_url := snapshotUrl\<rparr> else a)) \<rparr>)"

definition applyAIPatch :: "AIPatch \<Rightarrow> AlertEvent \<Rightarrow> AlertEvent" where
  "applyAIPatch d a =
     a\<lparr> ae_ai_description := nullish (ap_description d) (ae_ai_description a),
        ae_ai_threat_level := nullish (ap_threat_level d) (ae_ai_threat_level a),
        ae_ai_recommended_action := nullish (ap_recommended_action d) (ae_ai_recommended_action a),
        ae_ai_false_positive_pct := nullish (ap_false_positive_pct d) (ae_ai_false_positive_pct a),
        ae_ai_objects := nullish (ap_objects d) (ae_ai_objects a),
        ae_ai_detections := nullish (ap_detections d) (ae_ai_detections a),
        ae_ai_ppe_violations := nullish (ap_ppe_violations d) (ae_ai_ppe_violations a) \<rparr>"

definition patchAlertAI :: "id \<Rightarrow> AIPatch \<Rightarrow> OperatorState \<Rightarrow> OperatorState" where
  "patchAlertAI alarmId d s =
     s\<lparr> alertFeed := map (\<lambda>a. if ae_id a = alarmId then applyAIPatch d a else a) (alertFeed s),
        activeAlarm := (case activeAlarm s of None \<Rightarrow> None
           | Some a \<Rightarrow> Some (if ae_id a = alarmId then applyAIPatch d a else a)) \<rparr>"

definition dismissAlarm :: "id \<Rightarrow> OperatorState \<Rightarrow> OperatorState" where
  "dismissAlarm i s = s\<lparr>dismissedIds := dismissId i (dismissedIds s)\<rparr>"

definition claimAlert :: "id \<Rightarrow> OperatorState \<Rightarrow> OperatorState" where
  "claimAlert alertId s =
     (case currentOperator s of None \<Rightarrow> s
      | Some oper \<Rightarrow> s\<lparr>alertFeed := map (\<lambda>a. if ae_id a = alertId
            then a\<lparr>ae_assigned_operator_id := Some (so_id oper),
                   ae_assigned_operator_callsign := Some (so_callsign oper)\<rparr>
            else a) (alertFeed s)\<rparr>)"

definition releaseAlert :: "id \<Rightarrow> OperatorState \<Rightarrow> OperatorState" where
  "releaseAlert alertId s =
     s\<lparr>alertFeed := map (\<lambda>a. if ae_id a = alertId
          then a\<lparr>ae_assigned_operator_id := None, ae_assigned_operator_callsign := None\<rparr>
          else a) (alertFeed s)\<rparr>"

section \<open>The active alarm\<close>

definition addActionLogEntry :: "ms \<Rightarrow> string \<Rightarrow> bool \<Rightarrow> OperatorState \<Rightarrow> OperatorState" where
  "addActionLogEntry now t auto s =
     s\<lparr>actionLog := actionLog s @ [\<lparr>al_ts = now, al_text = t, al_auto = auto\<rparr>]\<rparr>"

definition escalateActiveAlarm :: "ms \<Rightarrow> OperatorState \<Rightarrow> OperatorState \<times> store_effect list" where
  "escalateActiveAlarm now s =
     (case activeAlarm s of
        None \<Rightarrow> (s, [])
      | Some alarm \<Rightarrow>
          (let newLevel = ae_escalation_level alarm + 1;
               updatedAlarm = alarm\<lparr>ae_escalation_level := newLevel, ae_escalated_at := Some now\<rparr>;
               s1 = s\<lparr> activeAlarm := Some updatedAlarm,
                       alertFeed := map (\<lambda>a. if ae_id a = ae_id alarm then updatedAlarm else a) (alertFeed s) \<rparr>;
               s2 = addActionLogEntry now (''Escalated to Level '' @ int_str newLevel) False s1
           in (s2, [Call_escalateAlarm (ae_id alarm) newLevel])))"

definition engageAlarm :: "ms \<Rightarrow> AlertEvent \<Rightarrow> OperatorState \<Rightarrow> OperatorState" where
  "engageAlarm now alert s =
     (let oper = currentOperator s;
          s1 = s\<lparr> activeAlarm := Some alert, operatorStatus := Engaged,
                  actionLog := [\<lparr>al_ts = now,
                     al_text = ''Alarm claimed by '' @ str_or (map_option so_callsign oper) ''operator'',
                     al_auto = True\<rparr>] \<rparr>
      in claimAlert (ae_id alert) s1)"

definition slaMissedBy :: "ms \<Rightarrow> AlertEvent \<Rightarrow> bool" where
  "slaMissedBy resolvedAt alarm =
     (if truthy_int (ae_sla_deadline_ms alarm)
      then (case ae_sla_deadline_ms alarm of None \<Rightarrow> False | Some d \<Rightarrow> resolvedAt > d)
      else False)"

definition resolveAlarm :: "ms \<Rightarrow> DispositionCode \<Rightarrow> OperatorState \<Rightarrow> OperatorState" where
  "resolveAlarm now code s =
     (let alog = actionLog s; resolvedAt = now in
      case activeAlarm s of
        Some alarm \<Rightarrow>
          (let s1 = acknowledgeAlert (ae_id alarm) s;
               responseMs = resolvedAt - ae_ts alarm;
               missed = slaMissedBy resolvedAt alarm
           in s1\<lparr> activeAlarm := None, actionLog := [], operatorStatus := Wrap_up,
                  lastDisposition := Some \<lparr> ld_alarm = alarm, ld_dispositionCode = code,
                     ld_actionLog = alog, ld_resolvedAt = resolvedAt, ld_responseMs = responseMs \<rparr>,
                  shiftStats := (shiftStats s1)\<lparr>
                     ss_alarmsHandled := ss_alarmsHandled (shiftStats s1) + 1,
                     ss_slaMissed := ss_slaMissed (shiftStats s1) + (if missed then 1 else 0) \<rparr> \<rparr>)
      | None \<Rightarrow> s\<lparr>activeAlarm := None, actionLog := [], operatorStatus := Wrap_up\<rparr>)"

definition abandonAlarm :: "OperatorState \<Rightarrow> OperatorState" where
  "abandonAlarm s =
     (let s1 = (case activeAlarm s of None \<Rightarrow> s | Some alarm \<Rightarrow> releaseAlert (ae_id alarm) s)
      in s1\<lparr>activeAlarm := None, actionLog := [], operatorStatus := Available\<rparr>)"

definition exitWrapUp :: "OperatorState \<Rightarrow> OperatorState" where
  "exitWrapUp s = s\<lparr>operatorStatus := Available, lastDisposition := None\<rparr>"

definition setQueueDepth :: "int \<Rightarrow> OperatorState \<Rightarrow> OperatorState" where
  "setQueueDepth n s = s\<lparr>queueDepth := n\<rparr>"

definition setSiteFilter :: "string option \<Rightarrow> OperatorState \<Rightarrow> OperatorState" where
  "setSiteFilter f s = s\<lparr>siteFilter := f\<rparr>"

definition setLayoutMode :: "LayoutMode \<Rightarrow> OperatorState \<Rightarrow> OperatorState" where
  "setLayoutMode m s = s\<lparr>layoutMode := m\<rparr>"

definition setAudioMuted :: "bool \<Rightarrow> OperatorState \<Rightarrow> OperatorState" where
  "setAudioMuted v s = s\<lparr>audioMuted := v\<rparr>"

section \<open>Executions\<close>

datatype operator_action =
    SetCurrentOperator SOCOperator
  | SetOperatorStatus OperatorStatus
  | SelectSite id
  | InitLocks "SiteLock list option"
  | LockSite ms id
  | UnlockSite id
  | UpsertIncident SOCIncident
  | AcknowledgeIncident id
  | AddAlert AlertEvent
  | AcknowledgeAlert id
  | ClearAlerts
  | PatchAlertSnapshot id string
  | PatchAlertAI id AIPatch
  | DismissAlarm id
  | ClaimAlert id
  | ReleaseAlert id
  | EscalateActiveAlarm ms
  | EngageAlarm ms AlertEvent
  | AddActionLogEntry ms string bool
  | ResolveAlarm ms DispositionCode
  | AbandonAlarm
  | ExitWrapUp
  | SetQueueDepth int
  | SetSiteFilter "string option"
  | SetLayoutMode LayoutMode
  | SetAudioMuted bool

fun operator_step :: "operator_action \<Rightarrow> OperatorState \<Rightarrow> OperatorState" where
  "operator_step (SetCurrentOperator oper) s = setCurrentOperator oper s"
| "operator_step (SetOperatorStatus st) s = fst (setOperatorStatus st s)"
| "operator_step (SelectSite i) s = selectSite i s"
| "operator_step (InitLocks ls) s = initLocks ls s"
| "operator_step (LockSite now i) s = lockSite now i s"
| "operator_step (UnlockSite i) s = unlockSite i s"
| "operator_step (UpsertIncident inc) s = upsertIncident inc s"
| "operator_step (AcknowledgeIncident i) s = acknowledgeIncident i s"
| "operator_step (AddAlert a) s = addAlert a s"
| "operator_step (AcknowledgeAlert i) s = acknowledgeAlert i s"
| "operator_step ClearAlerts s = clearAlerts s"
| "operator_step (PatchAlertSnapshot i u) s = patchAlertSnapshot i u s"
| "operator_step (PatchAlertAI i d) s = patchAlertAI i d s"
| "operator_step (DismissAlarm i) s = dismissAlarm i s"
| "operator_step (ClaimAlert i) s = claimAlert i s"
| "operator_step (ReleaseAlert i) s = releaseAlert i s"
| "operator_step (EscalateActiveAlarm now) s = fst (escalateActiveAlarm now s)"
| "operator_step (EngageAlarm now a) s = engageAlarm now a s"
| "operator_step (AddActionLogEntry now t b) s = addActionLogEntry now t b s"
| "operator_step (ResolveAlarm now c) s = resolveAlarm now c s"
| "operator_step AbandonAlarm s = abandonAlarm s"
| "operator_step ExitWrapUp s = exitWrapUp s"
| "operator_step (SetQueueDepth n) s = setQueueDepth n s"
| "operator_step (SetSiteFilter f) s = setSiteFilter f s"
| "operator_step (SetLayoutMode m) s = setLayoutMode m s"
| "operator_step (SetAudioMuted v) s = setAudioMuted v s"


lemmas store_defs =
  setCurrentOperator_def setOperatorStatus_def selectSite_def initLocks_def lockSite_def
  unlockSite_def upsertIncident_def acknowledgeIncident_def addAlert_def acknowledgeAlert_def
  clearAlerts_def patchAlertSnapshot_def patchAlertAI_def dismissAlarm_def claimAlert_def
  releaseAlert_def addActionLogEntry_def escalateActiveAlarm_def engageAlarm_def
  resolveAlarm_def abandonAlarm_def exitWrapUp_def setQueueDepth_def setSiteFilter_def
  setLayoutMode_def setAudioMuted_def

section \<open>The dismissal memory\<close>

text \<open>What one action records in \<^const>\<open>dismissedIds\<close>.\<close>

definition newDismissal :: "id \<Rightarrow> OperatorState \<Rightarrow> id list" where
  "newDismissal i s = (if i \<in> set (dismissedIds s) then [] else [i])"

fun dismissals :: "operator_action \<Rightarrow> OperatorState \<Rightarrow> id list" where
  "dismissals (AcknowledgeIncident i) s =
     map ae_id (filter (\<lambda>a. ae_incident_id a = Some i) (alertFeed s))"
| "dismissals (AcknowledgeAlert i) s = newDismissal i s"
| "dismissals (DismissAlarm i) s = newDismissal i s"
| "dismissals (ResolveAlarm now c) s =
     (case activeAlarm s of None \<Rightarrow> [] | Some a \<Rightarrow> newDismissal (ae_id a) s)"
| "dismissals _ s = []"

lemma dismissId_memory:
  "length (dismissedIds s) \<le> 500 \<Longrightarrow>
     dismissId i (dismissedIds s) = slice_last 500 (dismissedIds s @ newDismissal i s)"
  by (simp add: dismissId_def newDismissal_def slice_last_id)

lemma dismissed_step:
  assumes "length (dismissedIds s) \<le> 500"
  shows "dismissedIds (operator_step e s) = slice_last 500 (dismissedIds s @ dismissals e s)"
  using assms
  by (cases e) (auto simp: store_defs Let_def dismissId_memory slice_last_id split: option.splits)

interpretation dismissed: bounded_memory operator_step dismissedIds dismissals 500
  by unfold_locales (rule dismissed_step)

section \<open>Invariant\<close>

definition lock_coherent :: "(id \<rightharpoonup> SiteLock) \<Rightarrow> bool" where
  "lock_coherent m \<longleftrightarrow> (\<forall>k l. m k = Some l \<longrightarrow> sl_site_id l = k)"

definition store_inv :: "OperatorState \<Rightarrow> bool" where
  "store_inv s \<longleftrightarrow>
     length (alertFeed s) \<le> 200 \<and>
     length (incidents s) \<le> 200 \<and> distinct (map si_id (incidents s)) \<and>
     length (dismissedIds s) \<le> 500 \<and>
     lock_coherent (siteLocks s) \<and>
     0 \<le> ss_slaMissed (shiftStats s) \<and>
     ss_slaMissed (shiftStats s) \<le> ss_alarmsHandled (shiftStats s)"

lemma alertFeed_step: "length (alertFeed s) \<le> 200 \<Longrightarrow> length (alertFeed (operator_step e s)) \<le> 200"
  by (cases e) (auto simp: store_defs Let_def split: option.splits)

lemma upsert_distinct:
  assumes "distinct (map si_id xs)" and "find_index (\<lambda>i. si_id i = si_id inc) xs = Some k"
  shows "map si_id (xs[k := inc]) = map si_id xs"
  using find_index_SomeD [OF assms(2)] by (simp add: map_update list_update_same_conv)

lemma distinct_map_take: "distinct (map f xs) \<Longrightarrow> distinct (map f (take n xs))"
  by (simp add: take_map [symmetric])

lemma incidents_step:
  assumes "length (incidents s) \<le> 200" and "distinct (map si_id (incidents s))"
  shows "length (incidents (operator_step e s)) \<le> 200 \<and>
         distinct (map si_id (incidents (operator_step e s)))"
proof (cases e)
  case (UpsertIncident inc)
  show ?thesis
  proof (cases "find_index (\<lambda>i. si_id i = si_id inc) (incidents s)")
    case None
    then have "distinct (map si_id (inc # incidents s))" using assms by auto
    then have "distinct (map si_id (take 200 (inc # incidents s)))" by (rule distinct_map_take)
    with None UpsertIncident show ?thesis
      by (simp add: upsertIncident_def del: find_index_None_iff)
  next
    case (Some k)
    with UpsertIncident assms show ?thesis
      by (simp add: upsertIncident_def upsert_distinct)
  qed
next
  case (AcknowledgeIncident i)
  with assms show ?thesis
    by (auto simp: acknowledgeIncident_def distinct_map_filter intro: le_trans [OF length_filter_le])
next
  case (PatchAlertSnapshot i u)
  then show ?thesis using assms
    by (auto simp: patchAlertSnapshot_def Let_def comp_def if_distrib cong: if_cong)
qed (use assms in \<open>auto simp: store_defs Let_def split: option.splits\<close>)

lemma lock_coherent_step:
  "lock_coherent (siteLocks s) \<Longrightarrow> lock_coherent (siteLocks (operator_step e s))"
proof (cases e)
  case (InitLocks ls)
  assume coh: "lock_coherent (siteLocks s)"
  have "sl_site_id l = k" if "map_of (rev (map (\<lambda>l. (sl_site_id l, l)) xs)) k = Some l" for xs k l
    using map_of_SomeD [OF that] by auto
  with InitLocks coh show ?thesis
    by (auto simp: initLocks_def lock_coherent_def split: option.splits)
qed (auto simp: store_defs lock_coherent_def Let_def split: option.splits)

lemma shiftStats_step:
  "0 \<le> ss_slaMissed (shiftStats s) \<and> ss_slaMissed (shiftStats s) \<le> ss_alarmsHandled (shiftStats s) \<Longrightarrow>
   0 \<le> ss_slaMissed (shiftStats (operator_step e s)) \<and>
   ss_slaMissed (shiftStats (operator_step e s)) \<le> ss_alarmsHandled (shiftStats (operator_step e s))"
  by (cases e) (auto simp: store_defs Let_def split: option.splits)

lemma store_inv_step: "store_inv s \<Longrightarrow> store_inv (operator_step e s)"
  unfolding store_inv_def
  using alertFeed_step [of s e] incidents_step [of s e] dismissed.recent_bounded [of s e]
    lock_coherent_step [of s e] shiftStats_step [of s e]
  by blast

definition is_initialStore :: "OperatorState \<Rightarrow> bool" where
  "is_initialStore s \<longleftrightarrow> s = initialStore (ss_shiftStartMs (shiftStats s))"

lemma store_inv_initial: "is_initialStore s \<Longrightarrow> store_inv s"
  unfolding is_initialStore_def
  by (erule ssubst) (simp add: store_inv_def lock_coherent_def initialStore_def)

interpretation store: machine operator_step is_initialStore store_inv
  by unfold_locales (rule store_inv_initial, assumption, rule store_inv_step)


section \<open>Properties\<close>

text \<open>C4: In every state the console can reach, the alert and incident feeds hold at most 200
  entries, no incident is listed twice, at most 500 dismissals are remembered, every lock is
  filed under its own site, and the number of missed SLAs never exceeds the number of alarms
  handled.\<close>

theorem reachable_store_inv:
  assumes "reach operator_step is_initialStore s"
  shows "store_inv s"
  using assms by (rule store.inv_reach)

theorem reachable_store_inv_witness:
  "store_inv (operator_step (AddAlert (alert_fixture ''a1'' None 0 None)) (initialStore 5))"
  by (rule reachable_store_inv)
     (rule reach_step, rule reach_start, simp add: is_initialStore_def initialStore_def)

lemma resolveAlarm_dismisses:
  assumes "activeAlarm s = Some a" and "ae_id a \<notin> set (dismissedIds s)"
  shows "dismissedIds (resolveAlarm now code s) = slice_last 500 (dismissedIds s @ [ae_id a])"
  using assms by (simp add: resolveAlarm_def acknowledgeAlert_def dismissId_def Let_def)

lemma resolveAlarm_known:
  assumes "activeAlarm s = Some a" and "ae_id a \<in> set (dismissedIds s)"
  shows "dismissedIds (resolveAlarm now code s) = dismissedIds s"
  using assms by (simp add: resolveAlarm_def acknowledgeAlert_def dismissId_def Let_def)

text \<open>C2: Once the operator has resolved an alarm, neither REST polling nor the WebSocket stream
  can bring it back into the feed: in a store that satisfies its invariant, after any further
  actions of the console that record fewer than 500 dismissals, adding an alert with the
  resolved alarm's id leaves the store unchanged. If the id was remembered as dismissed before
  (resolving does not refresh it) this needs it to be among the newest 500 less the number of
  those later dismissals.\<close>

theorem resolved_alarm_not_revived:
  assumes "store_inv s" and "activeAlarm s = Some a"
    and "m = length (run_adds operator_step dismissals acts (resolveAlarm now code s))" and "m < 500"
    and "ae_id a \<in> set (dismissedIds s) \<longrightarrow> ae_id a \<in> set (slice_last (500 - m) (dismissedIds s))"
    and "ae_id b = ae_id a"
  shows "let s' = fold operator_step acts (resolveAlarm now code s) in addAlert b s' = s'"
proof -
  let ?r = "resolveAlarm now code s"
  have "store_inv (operator_step (ResolveAlarm now code) s)"
    using assms(1) by (rule store_inv_step)
  then have len: "length (dismissedIds ?r) \<le> 500" by (simp add: store_inv_def)
  have "ae_id a \<in> set (slice_last (500 - m) (dismissedIds ?r))"
  proof (cases "ae_id a \<in> set (dismissedIds s)")
    case True
    with assms(2,5) show ?thesis by (simp add: resolveAlarm_known)
  next
    case False
    then have "ae_id a \<in> set (slice_last 1 (dismissedIds ?r))"
      using assms(2) by (simp add: resolveAlarm_dismisses slice_last_append)
    moreover have "1 \<le> 500 - m" using assms(4) by simp
    ultimately show ?thesis by (rule subsetD [OF slice_last_mono, rotated])
  qed
  then have "ae_id a \<in> set (dismissedIds (fold operator_step acts ?r))"
    unfolding assms(3) by (rule dismissed.remembers [OF len])
  with assms(6) show ?thesis by (simp add: addAlert_def)
qed

theorem resolved_alarm_not_revived_witness:
  "let a = alert_fixture ''a1'' None 1000 None;
       s = engageAlarm 2000 a (initialStore 0);
       s' = fold operator_step [ClearAlerts, AcknowledgeAlert ''a2''] (resolveAlarm 3000 Verified_no_threat s)
   in addAlert a s' = s'"
proof -
  let ?a = "alert_fixture ''a1'' None 1000 None"
  let ?s = "engageAlarm 2000 ?a (initialStore 0)"
  have inv: "store_inv ?s"
    using store_inv_step [OF store_inv_initial, of "initialStore 0" "EngageAlarm 2000 ?a"]
    by (simp add: is_initialStore_def initialStore_def)
  have act: "activeAlarm ?s = Some ?a" "ae_id ?a \<notin> set (dismissedIds ?s)"
    by (simp_all add: engageAlarm_def claimAlert_def initialStore_def Let_def)
  have few: "length (run_adds operator_step dismissals [ClearAlerts, AcknowledgeAlert ''a2'']
      (resolveAlarm 3000 Verified_no_threat ?s)) < 500"
    by (simp add: newDismissal_def)
  show ?thesis
    unfolding Let_def
    using resolved_alarm_not_revived [OF inv act(1) refl few, of ?a] act(2) by (simp add: Let_def)
qed

text \<open>The condition on ids dismissed before is needed: resolving an alarm whose id is the oldest of 500
  remembered ones does not move it, the next dismissal evicts it, and the alarm can return.\<close>

lemma early_dismissal_evicted:
  assumes "activeAlarm s = Some a" and "dismissedIds s = ae_id a # ids" and "length ids = 499"
    and "ae_id a \<notin> set ids" and "k \<notin> set (ae_id a # ids)" and "ae_id b = ae_id a"
  shows "let s' = dismissAlarm k (resolveAlarm now code s) in
    ae_id a \<notin> set (dismissedIds s') \<and> b \<in> set (alertFeed (addAlert b s'))"
proof -
  have "dismissedIds (resolveAlarm now code s) = ae_id a # ids"
    using assms(1,2) by (simp add: resolveAlarm_known)
  with assms(3,5) have "dismissedIds (dismissAlarm k (resolveAlarm now code s)) = ids @ [k]"
    by (simp add: dismissAlarm_def dismissId_def slice_last_def)
  with assms(4-6) show ?thesis by (auto simp: addAlert_def)
qed


subsection \<open>The disposition record\<close>

text \<open>The actions that start or end the handling of an alarm reset the action log; every other
  action only appends to it, and keeps the identity and the times of the active alarm.\<close>

fun resets_log :: "operator_action \<Rightarrow> bool" where
  "resets_log (EngageAlarm _ _) = True"
| "resets_log (ResolveAlarm _ _) = True"
| "resets_log AbandonAlarm = True"
| "resets_log _ = False"

fun logged :: "operator_action \<Rightarrow> OperatorState \<Rightarrow> ActionLogEntry list" where
  "logged (AddActionLogEntry now t b) s = [\<lparr>al_ts = now, al_text = t, al_auto = b\<rparr>]"
| "logged (EscalateActiveAlarm now) s =
     (case activeAlarm s of None \<Rightarrow> []
      | Some a \<Rightarrow> [\<lparr>al_ts = now,
          al_text = ''Escalated to Level '' @ int_str (ae_escalation_level a + 1), al_auto = False\<rparr>])"
| "logged _ s = []"

definition same_alarm :: "AlertEvent \<Rightarrow> AlertEvent \<Rightarrow> bool" where
  "same_alarm a b \<longleftrightarrow> ae_id b = ae_id a \<and> ae_ts b = ae_ts a \<and>
     ae_sla_deadline_ms b = ae_sla_deadline_ms a"

lemma applyAIPatch_same [simp]: "same_alarm a (applyAIPatch d b) = same_alarm a b"
  by (simp add: same_alarm_def applyAIPatch_def)

lemma handling_step:
  assumes "\<not> resets_log e" and "activeAlarm s = Some b" and "same_alarm a b"
  shows "actionLog (operator_step e s) = actionLog s @ logged e s \<and>
         shiftStats (operator_step e s) = shiftStats s \<and>
         (\<exists>c. activeAlarm (operator_step e s) = Some c \<and> same_alarm a c)"
  using assms
  by (cases e) (auto simp: store_defs Let_def same_alarm_def applyAIPatch_def split: option.splits)

lemma handling_run:
  assumes "\<forall>e\<in>set acts. \<not> resets_log e" and "activeAlarm s = Some b" and "same_alarm a b"
  shows "actionLog (fold operator_step acts s) = actionLog s @ run_adds operator_step logged acts s \<and>
         shiftStats (fold operator_step acts s) = shiftStats s \<and>
         (\<exists>c. activeAlarm (fold operator_step acts s) = Some c \<and> same_alarm a c)"
  using assms
proof (induction acts arbitrary: s b)
  case Nil
  then show ?case by simp
next
  case (Cons e es)
  then have nr: "\<not> resets_log e" by simp
  from handling_step [OF nr Cons.prems(2,3)] obtain c where
    h: "actionLog (operator_step e s) = actionLog s @ logged e s"
       "shiftStats (operator_step e s) = shiftStats s"
       "activeAlarm (operator_step e s) = Some c" "same_alarm a c"
    by blast
  with Cons.IH [of "operator_step e s" c] Cons.prems(1) show ?case by simp
qed

lemma claimAlert_frame [simp]:
  "activeAlarm (claimAlert i s) = activeAlarm s" "actionLog (claimAlert i s) = actionLog s"
  "shiftStats (claimAlert i s) = shiftStats s" "dismissedIds (claimAlert i s) = dismissedIds s"
  "operatorStatus (claimAlert i s) = operatorStatus s"
  by (simp_all add: claimAlert_def split: option.splits)

text \<open>C3: The disposition record an operator leaves is complete. From the moment an alarm is
  engaged until it is resolved, whatever else happens in the console (feed updates, patches,
  status changes, escalations, notes) short of engaging or abandoning an alarm, the record holds
  the engaged alarm, the chosen code, the claim entry followed by every note and escalation in
  order, and the response time; the shift counts one more handled alarm, and one more missed SLA
  exactly when a deadline was set and has passed; and the operator is in wrap-up with no active
  alarm.\<close>

theorem disposition_record_complete:
  assumes "\<forall>e\<in>set acts. \<not> resets_log e"
  shows "let s1 = engageAlarm t0 a s;
             s2 = resolveAlarm t1 code (fold operator_step acts s1)
         in (\<exists>alarm. same_alarm a alarm \<and> lastDisposition s2 = Some
               \<lparr> ld_alarm = alarm, ld_dispositionCode = code,
                 ld_actionLog =
                   \<lparr>al_ts = t0, al_text = ''Alarm claimed by '' @
                      str_or (map_option so_callsign (currentOperator s)) ''operator'', al_auto = True\<rparr>
                   # run_adds operator_step logged acts s1,
                 ld_resolvedAt = t1, ld_responseMs = t1 - ae_ts a \<rparr>) \<and>
            shiftStats s2 = (shiftStats s)\<lparr>
              ss_alarmsHandled := ss_alarmsHandled (shiftStats s) + 1,
              ss_slaMissed := ss_slaMissed (shiftStats s) +
                (case ae_sla_deadline_ms a of None \<Rightarrow> 0
                 | Some d \<Rightarrow> if d \<noteq> 0 \<and> t1 > d then 1 else 0)\<rparr> \<and>
            operatorStatus s2 = Wrap_up \<and> activeAlarm s2 = None"
proof -
  let ?s1 = "engageAlarm t0 a s"
  let ?f = "fold operator_step acts ?s1"
  have act: "activeAlarm ?s1 = Some a" and stats: "shiftStats ?s1 = shiftStats s"
    by (simp_all add: engageAlarm_def Let_def)
  have "same_alarm a a" by (simp add: same_alarm_def)
  from handling_run [OF assms act this] obtain c where
    c: "activeAlarm ?f = Some c" "same_alarm a c" "shiftStats ?f = shiftStats s"
       "actionLog ?f = actionLog ?s1 @ run_adds operator_step logged acts ?s1"
    by (auto simp: stats)
  have log: "actionLog ?s1 = [\<lparr>al_ts = t0, al_text = ''Alarm claimed by '' @
      str_or (map_option so_callsign (currentOperator s)) ''operator'', al_auto = True\<rparr>]"
    by (simp add: engageAlarm_def Let_def)
  show ?thesis
    unfolding Let_def
    using c log
    by (auto simp: resolveAlarm_def acknowledgeAlert_def slaMissedBy_def same_alarm_def Let_def
        split: option.splits)
qed

theorem disposition_record_complete_witness:
  "let a = alert_fixture ''a1'' None 1000 (Some 2500);
       acts = [AddActionLogEntry 2100 ''called site'' False, EscalateActiveAlarm 2200, ClearAlerts];
       s2 = resolveAlarm 3000 Verified_police_dispatched
              (fold operator_step acts (engageAlarm 2000 a (initialStore 0)))
   in ss_alarmsHandled (shiftStats s2) = 1 \<and> ss_slaMissed (shiftStats s2) = 1 \<and>
      map_option ld_responseMs (lastDisposition s2) = Some 2000"
proof -
  let ?acts = "[AddActionLogEntry 2100 ''called site'' False, EscalateActiveAlarm 2200, ClearAlerts]"
  have "\<forall>e\<in>set ?acts. \<not> resets_log e" by simp
  from disposition_record_complete [OF this, of 2000 "alert_fixture ''a1'' None 1000 (Some 2500)"
      "initialStore 0" 3000 Verified_police_dispatched]
  show ?thesis
    unfolding Let_def by (auto simp: alert_fixture_def initialStore_def)
qed

subsection \<open>Ownership\<close>

text \<open>Escalating the alarm one has just engaged removes one's claim from the feed. Engaging
  writes the operator into the feed's copy of the alarm but not into the active copy;
  escalation then overwrites every feed entry with that id by the active copy, so the assigned
  operator is lost.\<close>

theorem escalation_drops_claim:
  assumes "currentOperator s = Some oper" and "ae_assigned_operator_id a = None"
  shows "let s1 = engageAlarm t0 a s; s2 = fst (escalateActiveAlarm t1 s1) in
     (\<forall>b. b \<in> set (alertFeed s1) \<and> ae_id b = ae_id a \<longrightarrow> ae_assigned_operator_id b = Some (so_id oper)) \<and>
     (\<forall>b. b \<in> set (alertFeed s2) \<and> ae_id b = ae_id a \<longrightarrow> ae_assigned_operator_id b = None)"
  using assms
  by (auto simp: engageAlarm_def claimAlert_def escalateActiveAlarm_def addActionLogEntry_def Let_def)

theorem escalation_drops_claim_witness:
  "let a = alert_fixture ''a1'' None 0 None;
       s = addAlert a (setCurrentOperator (operator_fixture ''op'' ''OP-1'') (initialStore 0));
       s1 = engageAlarm 10 a s; s2 = fst (escalateActiveAlarm 20 s1)
   in map ae_assigned_operator_id (alertFeed s1) = [Some ''op''] \<and>
      map ae_assigned_operator_id (alertFeed s2) = [None]"
proof -
  let ?a = "alert_fixture ''a1'' None 0 None"
  let ?s = "addAlert ?a (setCurrentOperator (operator_fixture ''op'' ''OP-1'') (initialStore 0))"
  have "currentOperator ?s = Some (operator_fixture ''op'' ''OP-1'')"
    by (simp add: addAlert_def setCurrentOperator_def initialStore_def)
  moreover have "ae_assigned_operator_id ?a = None" by (simp add: alert_fixture_def)
  ultimately have "let s1 = engageAlarm 10 ?a ?s; s2 = fst (escalateActiveAlarm 20 s1) in
     (\<forall>b. b \<in> set (alertFeed s1) \<and> ae_id b = ae_id ?a \<longrightarrow>
        ae_assigned_operator_id b = Some (so_id (operator_fixture ''op'' ''OP-1''))) \<and>
     (\<forall>b. b \<in> set (alertFeed s2) \<and> ae_id b = ae_id ?a \<longrightarrow> ae_assigned_operator_id b = None)"
    by (rule escalation_drops_claim)
  then show ?thesis
    by (simp add: store_defs fixture_defs initialStore_def Let_def)
qed


text \<open>Site locks behave as a map owned by the operators: after \<^verbatim>\<open>lockSite\<close> the current
  operator holds the site, whoever held it before; after \<^verbatim>\<open>unlockSite\<close> nobody does; no other
  site's lock changes; without a current operator \<^verbatim>\<open>lockSite\<close> does nothing.\<close>

theorem site_lock_laws:
  "(currentOperator s \<noteq> None \<longrightarrow> isMySiteLock site (lockSite now site s)) \<and>
   (currentOperator s = None \<longrightarrow> lockSite now site s = s) \<and>
   getSiteLock site (unlockSite site s) = None \<and> \<not> isMySiteLock site (unlockSite site s) \<and>
   (other \<noteq> site \<longrightarrow>
      getSiteLock other (lockSite now site s) = getSiteLock other s \<and>
      getSiteLock other (unlockSite site s) = getSiteLock other s)"
  by (auto simp: lockSite_def unlockSite_def getSiteLock_def isMySiteLock_def split: option.splits)

theorem site_lock_laws_witness:
  "isMySiteLock ''TX'' (lockSite 0 ''TX''
     (setCurrentOperator (operator_fixture ''op'' ''OP-1'') (initialStore 0)))"
  using site_lock_laws [of "setCurrentOperator (operator_fixture ''op'' ''OP-1'') (initialStore 0)"]
  by (simp add: setCurrentOperator_def)

subsection \<open>Incidents as a bounded keyed collection\<close>

definition incidentById :: "OperatorState \<Rightarrow> id \<rightharpoonup> SOCIncident" where
  "incidentById s k = List.find (\<lambda>i. si_id i = k) (incidents s)"

lemma find_update:
  "find_index (\<lambda>i. f i = f x) xs = Some k \<Longrightarrow> distinct (map f xs) \<Longrightarrow>
   List.find (\<lambda>i. f i = j) (xs[k := x]) =
     (if j = f x then Some x else List.find (\<lambda>i. f i = j) xs)"
proof (induction xs arbitrary: k)
  case Nil
  then show ?case by simp
next
  case (Cons y ys)
  show ?case
  proof (cases "f y = f x")
    case True
    with Cons.prems show ?thesis by auto
  next
    case False
    with Cons.prems(1) obtain k' where "k = Suc k'" "find_index (\<lambda>i. f i = f x) ys = Some k'"
      by auto
    with Cons.IH [of k'] Cons.prems(2) False show ?thesis by auto
  qed
qed

lemma find_filter_ne:
  "List.find (\<lambda>i. f i = j) (filter (\<lambda>i. f i \<noteq> k) xs) =
     (if j = k then None else List.find (\<lambda>i. f i = j) xs)"
  by (induction xs) auto

lemma find_snoc:
  "List.find P (xs @ [x]) = (case List.find P xs of None \<Rightarrow> (if P x then Some x else None) | Some y \<Rightarrow> Some y)"
  by (induction xs) auto

lemma find_butlast:
  assumes "distinct (map f xs)" and "xs \<noteq> []"
  shows "List.find (\<lambda>x. f x = j) (butlast xs) =
    (if j = f (last xs) then None else List.find (\<lambda>x. f x = j) xs)"
proof -
  obtain ys y where xs: "xs = ys @ [y]" using assms(2) by (cases xs rule: rev_cases) auto
  have "List.find (\<lambda>x. f x = f y) ys = None" using assms(1) unfolding xs
    by (simp add: find_None_iff2) (metis image_eqI)
  then show ?thesis unfolding xs by (auto simp: find_snoc split: option.split)
qed

text \<open>C5: The incident list implements a finite map from ids to incidents, bounded to 200 entries. In a
  store that satisfies its invariant \<^verbatim>\<open>upsertIncident\<close> is map update as long as the list has room or
  already holds the id; on a full list a new incident is map update after deletion of the list's
  last, oldest incident. \<^verbatim>\<open>acknowledgeIncident\<close> is deletion.\<close>

theorem incidents_refine_map:
  assumes "store_inv s"
  shows "incidentById (upsertIncident inc s) =
           (if length (incidents s) < 200 \<or> incidentById s (si_id inc) \<noteq> None
            then (incidentById s)(si_id inc \<mapsto> inc)
            else ((incidentById s)(si_id (last (incidents s)) := None))(si_id inc \<mapsto> inc)) \<and>
         incidentById (acknowledgeIncident k s) = (incidentById s)(k := None)"
proof (intro conjI ext)
  fix j
  show "incidentById (acknowledgeIncident k s) j = ((incidentById s)(k := None)) j"
    by (simp add: incidentById_def acknowledgeIncident_def find_filter_ne)
next
  have dist: "distinct (map si_id (incidents s))" and len: "length (incidents s) \<le> 200"
    using assms by (simp_all add: store_inv_def)
  show "incidentById (upsertIncident inc s) j =
      (if length (incidents s) < 200 \<or> incidentById s (si_id inc) \<noteq> None
       then (incidentById s)(si_id inc \<mapsto> inc)
       else ((incidentById s)(si_id (last (incidents s)) := None))(si_id inc \<mapsto> inc)) j" for j
  proof (cases "find_index (\<lambda>i. si_id i = si_id inc) (incidents s)")
    case None
    then have new: "incidentById s (si_id inc) = None" by (auto simp: incidentById_def find_None_iff2)
    have ups: "incidentById (upsertIncident inc s) j = List.find (\<lambda>i. si_id i = j) (take 200 (inc # incidents s))"
      using None by (simp add: incidentById_def upsertIncident_def del: find_index_None_iff take_Cons_numeral)
    show ?thesis
    proof (cases "length (incidents s) < 200")
      case True
      then have "take 200 (inc # incidents s) = inc # incidents s" by simp
      with ups True show ?thesis by (simp add: incidentById_def del: take_Cons_numeral)
    next
      case False
      with len have full: "length (incidents s) = 200" "incidents s \<noteq> []" by auto
      then have "take 200 (inc # incidents s) = inc # butlast (incidents s)"
        by (simp add: butlast_conv_take)
      with ups False new show ?thesis
        by (simp add: incidentById_def find_butlast [OF dist full(2)] del: take_Cons_numeral)
    qed
  next
    case (Some idx)
    then have "incidentById s (si_id inc) \<noteq> None"
      by (auto simp: incidentById_def find_None_iff2 dest!: find_index_SomeD)
    with Some dist show ?thesis by (simp add: incidentById_def upsertIncident_def find_update)
  qed
qed

theorem incidents_refine_map_witness:
  "incidentById (upsertIncident (incident_fixture ''i1'') (initialStore 0)) ''i1'' =
     Some (incident_fixture ''i1'')"
proof -
  have "store_inv (initialStore 0)"
    by (rule store_inv_initial) (simp add: is_initialStore_def initialStore_def)
  from incidents_refine_map [OF this, of "incident_fixture ''i1''"] show ?thesis
    by (simp add: initialStore_def incident_fixture_def)
qed

subsection \<open>Asynchronous patches\<close>

text \<open>A snapshot that arrives after the alarm reaches every place that shows the alarm: each
  feed entry with that id, the active alarm if it is the one, and the incident that owns it; no
  other alert or incident changes, and the order and the ids of the feeds are kept.\<close>

theorem snapshot_patch_delivered:
  shows "let s' = patchAlertSnapshot k url s in
     (\<forall>b. b \<in> set (alertFeed s') \<and> ae_id b = k \<longrightarrow> ae_snapshot_url b = url) \<and>
     (\<forall>b. activeAlarm s' = Some b \<and> ae_id b = k \<longrightarrow> ae_snapshot_url b = url) \<and>
     (\<forall>a i j. List.find (\<lambda>x. ae_id x = k) (alertFeed s) = Some a \<and> ae_incident_id a = Some i \<and> i \<noteq> [] \<and>
        j \<in> set (incidents s') \<and> si_id j = i \<longrightarrow> si_snapshot_url j = url) \<and>
     map ae_id (alertFeed s') = map ae_id (alertFeed s) \<and>
     map si_id (incidents s') = map si_id (incidents s) \<and>
     filter (\<lambda>b. ae_id b \<noteq> k) (alertFeed s') = filter (\<lambda>b. ae_id b \<noteq> k) (alertFeed s)"
proof -
  let ?s' = "patchAlertSnapshot k url s"
  let ?inc = "Option.bind (List.find (\<lambda>a. ae_id a = k) (alertFeed s)) ae_incident_id"
  have feed: "alertFeed ?s' = map (\<lambda>a. if ae_id a = k then a\<lparr>ae_snapshot_url := url\<rparr> else a) (alertFeed s)"
    and act: "activeAlarm ?s' = (case activeAlarm s of None \<Rightarrow> None
       | Some a \<Rightarrow> Some (if ae_id a = k then a\<lparr>ae_snapshot_url := url\<rparr> else a))"
    and inc: "incidents ?s' = (if truthy_str ?inc
       then map (\<lambda>i. if Some (si_id i) = ?inc then i\<lparr>si_snapshot_url := url\<rparr> else i) (incidents s)
       else incidents s)"
    by (simp_all add: patchAlertSnapshot_def Let_def)
  have other: "filter (\<lambda>b. ae_id b \<noteq> k) (map (\<lambda>a. if ae_id a = k then a\<lparr>ae_snapshot_url := url\<rparr> else a) xs)
      = filter (\<lambda>b. ae_id b \<noteq> k) xs" for xs
    by (induction xs) auto
  have ids: "map ae_id (alertFeed ?s') = map ae_id (alertFeed s)"
    unfolding feed by simp
  have iids: "map si_id (incidents ?s') = map si_id (incidents s)"
    unfolding inc by simp
  have "\<forall>b\<in>set (alertFeed ?s'). ae_id b = k \<longrightarrow> ae_snapshot_url b = url"
    unfolding feed by (simp add: ball_Un)
  then have f1: "\<forall>b. b \<in> set (alertFeed ?s') \<and> ae_id b = k \<longrightarrow> ae_snapshot_url b = url"
    by blast
  have a1: "\<forall>b. activeAlarm ?s' = Some b \<and> ae_id b = k \<longrightarrow> ae_snapshot_url b = url"
    by (cases "activeAlarm s") (simp_all add: act)
  have i1: "\<forall>a i j. List.find (\<lambda>x. ae_id x = k) (alertFeed s) = Some a \<and> ae_incident_id a = Some i \<and>
      i \<noteq> [] \<and> j \<in> set (incidents ?s') \<and> si_id j = i \<longrightarrow> si_snapshot_url j = url"
  proof (intro allI impI)
    fix a i j
    assume h: "List.find (\<lambda>x. ae_id x = k) (alertFeed s) = Some a \<and> ae_incident_id a = Some i \<and>
      i \<noteq> [] \<and> j \<in> set (incidents ?s') \<and> si_id j = i"
    then have "?inc = Some i" by simp
    with h have "incidents ?s' =
        map (\<lambda>x. if si_id x = i then x\<lparr>si_snapshot_url := url\<rparr> else x) (incidents s)"
      by (simp add: inc)
    then have "\<forall>x\<in>set (incidents ?s'). si_id x = i \<longrightarrow> si_snapshot_url x = url"
      by (simp add: ball_Un)
    with h show "si_snapshot_url j = url" by blast
  qed
  show ?thesis
    unfolding Let_def
    by (intro conjI f1 a1 i1 ids iids) (simp only: feed other)
qed

theorem snapshot_patch_delivered_witness:
  "map ae_snapshot_url (alertFeed (patchAlertSnapshot ''a1'' ''/s.jpg''
      (addAlert (alert_fixture ''a1'' None 0 None) (initialStore 0)))) = [''/s.jpg'']"
proof -
  let ?s = "addAlert (alert_fixture ''a1'' None 0 None) (initialStore 0)"
  have ids: "map ae_id (alertFeed ?s) = [''a1'']"
    by (simp add: addAlert_def initialStore_def alert_fixture_def)
  have "map ae_id (alertFeed (patchAlertSnapshot ''a1'' ''/s.jpg'' ?s)) = [''a1''] \<and>
    (\<forall>b. b \<in> set (alertFeed (patchAlertSnapshot ''a1'' ''/s.jpg'' ?s)) \<and> ae_id b = ''a1'' \<longrightarrow>
       ae_snapshot_url b = ''/s.jpg'')"
    using snapshot_patch_delivered [of "''a1''" "''/s.jpg''" ?s] ids by (simp add: Let_def)
  then show ?thesis
    by (cases "alertFeed (patchAlertSnapshot ''a1'' ''/s.jpg'' ?s)") auto
qed

section \<open>Persistence across reloads\<close>

record PersistedOperator =
  po_selectedSiteId :: "id option"
  po_siteLocks :: "id \<rightharpoonup> SiteLock"
  po_layoutMode :: LayoutMode
  po_siteFilter :: "string option"
  po_audioMuted :: bool
  po_shiftStats :: ShiftStats
  po_dismissedIds :: "id list"

definition partializeOperator :: "OperatorState \<Rightarrow> PersistedOperator" where
  "partializeOperator s =
    \<lparr> po_selectedSiteId = selectedSiteId s, po_siteLocks = siteLocks s,
      po_layoutMode = layoutMode s, po_siteFilter = siteFilter s,
      po_audioMuted = audioMuted s, po_shiftStats = shiftStats s,
      po_dismissedIds = dismissedIds s \<rparr>"

text \<open>
  The store is wrapped in the third-party \<^verbatim>\<open>persist\<close> middleware, which writes the result of
  \<^verbatim>\<open>partialize\<close> to storage and, on load, merges it over the initial state. The merge is a
  parameter; its documented behaviour (a shallow merge: the persisted keys win, all other
  keys keep the initial value) is the contract below.
\<close>

locale persisted_store =
  fixes partialize :: "'s \<Rightarrow> 'p"
    and merge :: "'p \<Rightarrow> 's \<Rightarrow> 's"
    and volatile :: "'s \<Rightarrow> 'v"
  assumes persisted_wins: "partialize (merge p s) = p"
    and volatile_kept: "volatile (merge p s) = volatile s"
begin

lemma reload_idempotent:
  "partialize (merge (partialize (merge (partialize s) s0)) s1) = partialize s"
  by (simp add: persisted_wins)

lemma reload_persisted: "partialize (merge (partialize s) s0) = partialize s"
  by (rule persisted_wins)

end

text \<open>The fields \<^verbatim>\<open>partialize\<close> leaves out.\<close>

definition volatileOperator ::
  "OperatorState \<Rightarrow> SOCOperator option \<times> OperatorStatus \<times> SOCIncident list \<times> AlertEvent list \<times>
     AlertEvent option \<times> ActionLogEntry list \<times> LastDisposition option \<times> int" where
  "volatileOperator s =
     (currentOperator s, operatorStatus s, incidents s, alertFeed s, activeAlarm s, actionLog s,
      lastDisposition s, queueDepth s)"

text \<open>Reloading the console keeps what must survive (the dismissed ids, the shift statistics,
  the locks and the view settings) and drops what must not (the operator identity, the active
  alarm and both feeds), for every merge that keeps the persist middleware's contract; an alarm
  dismissed before the reload is still refused after it.\<close>

theorem reload_keeps_dismissals:
  assumes "persisted_store partializeOperator merge volatileOperator"
    and "s' = merge (partializeOperator s) (initialStore now)"
  shows "dismissedIds s' = dismissedIds s \<and> shiftStats s' = shiftStats s \<and> siteLocks s' = siteLocks s \<and>
         currentOperator s' = None \<and> activeAlarm s' = None \<and> alertFeed s' = [] \<and> incidents s' = [] \<and>
         (ae_id a \<in> set (dismissedIds s) \<longrightarrow> addAlert a s' = s')"
proof -
  have p: "partializeOperator s' = partializeOperator s"
    using assms persisted_store.reload_persisted by fastforce
  have v: "volatileOperator s' = volatileOperator (initialStore now)"
    using assms persisted_store.volatile_kept by fastforce
  from p v show ?thesis
    by (simp add: partializeOperator_def volatileOperator_def initialStore_def addAlert_def)
qed

definition shallow_merge_operator :: "PersistedOperator \<Rightarrow> OperatorState \<Rightarrow> OperatorState" where
  "shallow_merge_operator p s =
     s\<lparr> selectedSiteId := po_selectedSiteId p, siteLocks := po_siteLocks p,
        layoutMode := po_layoutMode p, siteFilter := po_siteFilter p,
        audioMuted := po_audioMuted p, shiftStats := po_shiftStats p,
        dismissedIds := po_dismissedIds p \<rparr>"

interpretation operator_persist:
  persisted_store partializeOperator shallow_merge_operator volatileOperator
  by unfold_locales
     (simp_all add: partializeOperator_def shallow_merge_operator_def volatileOperator_def)

theorem reload_keeps_dismissals_witness:
  "let s = dismissAlarm ''a1'' (initialStore 0); a = alert_fixture ''a1'' None 0 None;
       s' = shallow_merge_operator (partializeOperator s) (initialStore 9)
   in addAlert a s' = s'"
proof -
  let ?s = "dismissAlarm ''a1'' (initialStore 0)"
  have "ae_id (alert_fixture ''a1'' None 0 None) \<in> set (dismissedIds ?s)"
    by (simp add: dismissAlarm_def dismissId_def initialStore_def alert_fixture_def slice_last_def)
  with reload_keeps_dismissals [OF operator_persist.persisted_store_axioms refl] show ?thesis
    by (simp add: Let_def)
qed

end
