(* ===== verification/Url.thy ===== *)
theory Url
  imports Prelude
begin

text \<open>
  URL building blocks of the browser that the API clients use: \<^verbatim>\<open>encodeURIComponent\<close> and the
  serialisation of \<^verbatim>\<open>URLSearchParams\<close> (\<^verbatim>\<open>set\<close> and \<^verbatim>\<open>toString\<close>), with the decoding
  a server applies. The decoders recover exactly what was put in, which is what the clients'
  request lemmas rest on.
\<close>

section \<open>Percent encoding\<close>

definition is_alnum :: "char \<Rightarrow> bool" where
  "is_alnum c = (let n = (of_char c :: nat) in
     48 \<le> n \<and> n \<le> 57 \<or> 65 \<le> n \<and> n \<le> 90 \<or> 97 \<le> n \<and> n \<le> 122)"

definition hex_digit :: "nat \<Rightarrow> char" where
  "hex_digit d = (if d < 10 then char_of (48 + d) else char_of (55 + d))"

definition hex_val :: "char \<Rightarrow> nat" where
  "hex_val c = (let n = of_char c in if n < 58 then n - 48 else n - 55)"

definition percent :: "char \<Rightarrow> string" where
  "percent c = [CHR ''%'', hex_digit (of_char c div 16), hex_digit (of_char c mod 16)]"

lemma hex_val_digit [simp]: "d < 16 \<Longrightarrow> hex_val (hex_digit d) = d"
  by (simp add: hex_val_def hex_digit_def Let_def)

lemma of_char_less_256: "(of_char c :: nat) < 256"
  by (metis nat_of_char_less_256)

lemma of_char_div_16 [simp]: "(of_char c :: nat) div 16 < 16"
  using of_char_less_256 [of c] by (simp only: div_less_iff_less_mult)

text \<open>The characters \<^verbatim>\<open>encodeURIComponent\<close> leaves alone.\<close>

definition uri_unreserved :: "char \<Rightarrow> bool" where
  "uri_unreserved c = (is_alnum c \<or> c \<in> set ''-_.!~*'' \<or> c = CHR 0x27 \<or> c \<in> set ''()'')"

definition encodeURIComponent :: "string \<Rightarrow> string" where
  "encodeURIComponent s = concat (map (\<lambda>c. if uri_unreserved c then [c] else percent c) s)"

text \<open>The characters the form encoding leaves alone; a space becomes a plus sign.\<close>

definition form_unreserved :: "char \<Rightarrow> bool" where
  "form_unreserved c = (is_alnum c \<or> c \<in> set ''*-._'')"

definition form_char :: "char \<Rightarrow> string" where
  "form_char c = (if form_unreserved c then [c] else if c = CHR '' '' then ''+'' else percent c)"

definition form_encode :: "string \<Rightarrow> string" where
  "form_encode s = concat (map form_char s)"

fun percent_decode :: "string \<Rightarrow> string" where
  "percent_decode [] = []"
| "percent_decode [c] = [c]"
| "percent_decode [c, d] = [c, d]"
| "percent_decode (c # d # e # s) =
     (if c = CHR ''%'' then char_of (16 * hex_val d + hex_val e) # percent_decode s
      else c # percent_decode (d # e # s))"

definition form_decode :: "string \<Rightarrow> string" where
  "form_decode s = percent_decode (map (\<lambda>c. if c = CHR ''+'' then CHR '' '' else c) s)"

lemma percent_decode_plain: "c \<noteq> CHR ''%'' \<Longrightarrow> percent_decode (c # s) = c # percent_decode s"
  by (cases s rule: percent_decode.cases) (auto split: list.splits)

lemma percent_decode_percent [simp]: "percent_decode (percent c @ s) = c # percent_decode s"
  by (simp add: percent_def)

lemma decode_encodeURIComponent: "percent_decode (encodeURIComponent s) = s"
proof (induction s)
  case Nil
  then show ?case by (simp add: encodeURIComponent_def)
next
  case (Cons c s)
  have "uri_unreserved c \<Longrightarrow> c \<noteq> CHR ''%''"
    by (auto simp: uri_unreserved_def is_alnum_def Let_def)
  with Cons show ?case by (auto simp: encodeURIComponent_def percent_decode_plain)
qed

lemma is_alnum_hex [simp]: "d < 16 \<Longrightarrow> is_alnum (hex_digit d)"
  by (auto simp: is_alnum_def hex_digit_def Let_def)

text \<open>The delimiters of a query string and of a path.\<close>

definition url_delimiter :: "char \<Rightarrow> bool" where
  "url_delimiter c = (c \<in> set ''/?#&='')"

lemma alnum_not_special:
  "is_alnum c \<Longrightarrow> \<not> url_delimiter c \<and> c \<noteq> CHR ''+'' \<and> c \<noteq> CHR ''%'' \<and> c \<noteq> CHR '' ''"
  by (auto simp: is_alnum_def url_delimiter_def Let_def)

lemma percent_special:
  "x \<in> set (percent c) \<Longrightarrow> \<not> url_delimiter x \<and> x \<noteq> CHR ''+''"
proof -
  assume "x \<in> set (percent c)"
  then consider "x = CHR ''%''" | "is_alnum x"
    by (auto simp: percent_def)
  then show ?thesis
    by cases (auto simp: url_delimiter_def dest: alnum_not_special)
qed

text \<open>No encoded component contains a delimiter, so it cannot change the structure of the URL
  it is inserted into.\<close>

lemma encodeURIComponent_no_delimiter:
  "x \<in> set (encodeURIComponent s) \<Longrightarrow> \<not> url_delimiter x"
proof -
  assume "x \<in> set (encodeURIComponent s)"
  then obtain c where c: "x \<in> set (if uri_unreserved c then [c] else percent c)"
    unfolding encodeURIComponent_def set_concat set_map by blast
  have "uri_unreserved c \<Longrightarrow> \<not> url_delimiter c"
    by (auto simp: uri_unreserved_def url_delimiter_def dest: alnum_not_special [unfolded url_delimiter_def])
  with c show ?thesis by (auto split: if_splits dest: percent_special)
qed

lemma form_char_no_delimiter: "x \<in> set (form_char c) \<Longrightarrow> \<not> url_delimiter x"
  by (auto simp: form_char_def form_unreserved_def url_delimiter_def split: if_splits
      dest: alnum_not_special [unfolded url_delimiter_def] percent_special [unfolded url_delimiter_def])

lemma form_encode_no_delimiter: "x \<in> set (form_encode s) \<Longrightarrow> \<not> url_delimiter x"
  by (auto simp: form_encode_def dest: form_char_no_delimiter)

lemma form_decode_char [simp]: "form_decode (form_char c @ s) = c # form_decode s"
proof -
  have "map (\<lambda>x. if x = CHR ''+'' then CHR '' '' else x) (percent c) = percent c"
    by (rule map_idI) (auto dest: percent_special)
  moreover have "form_unreserved c \<Longrightarrow> c \<noteq> CHR ''+'' \<and> c \<noteq> CHR ''%''"
    by (auto simp: form_unreserved_def dest: alnum_not_special)
  ultimately show ?thesis
    by (auto simp: form_decode_def form_char_def percent_decode_plain)
qed

lemma form_decode_encode [simp]: "form_decode (form_encode s) = s"
proof (induction s)
  case Nil
  then show ?case by (simp add: form_encode_def form_decode_def)
next
  case (Cons c s)
  then show ?case by (simp add: form_encode_def)
qed

section \<open>URLSearchParams\<close>

type_synonym params = "(string \<times> string) list"

text \<open>\<^verbatim>\<open>qs.set(k, v)\<close>: replaces the first pair with that name, drops the others, or appends.\<close>

fun params_set :: "string \<Rightarrow> string \<Rightarrow> params \<Rightarrow> params" where
  "params_set k v [] = [(k, v)]"
| "params_set k v ((a, b) # ps) =
     (if a = k then (k, v) # filter (\<lambda>p. fst p \<noteq> k) ps else (a, b) # params_set k v ps)"

definition params_set_if :: "bool \<Rightarrow> string \<Rightarrow> string \<Rightarrow> params \<Rightarrow> params" where
  "params_set_if b k v ps = (if b then params_set k v ps else ps)"

definition params_str :: "params \<Rightarrow> string" where
  "params_str ps = join ''&'' (map (\<lambda>(k, v). form_encode k @ ''='' @ form_encode v) ps)"

definition split_pair :: "string \<Rightarrow> string \<times> string" where
  "split_pair s = (takeWhile (\<lambda>c. c \<noteq> CHR ''='') s, tl (dropWhile (\<lambda>c. c \<noteq> CHR ''='') s))"

definition params_parse :: "string \<Rightarrow> params" where
  "params_parse s =
     (if s = [] then []
      else map (\<lambda>p. (form_decode (fst (split_pair p)), form_decode (snd (split_pair p))))
             (split_at_char (CHR ''&'') s))"

lemma split_pair_encoded: "split_pair (form_encode k @ CHR ''='' # v) = (form_encode k, v)"
proof -
  have "\<forall>x\<in>set (form_encode k). x \<noteq> CHR ''=''"
    using form_encode_no_delimiter [of _ k] by (auto simp: url_delimiter_def)
  then show ?thesis
    by (simp add: split_pair_def takeWhile_append2 dropWhile_append2)
qed

lemma join_nonempty: "ws \<noteq> [] \<Longrightarrow> \<forall>w\<in>set ws. w \<noteq> [] \<Longrightarrow> join sep ws \<noteq> []"
  by (induction sep ws rule: join.induct) auto

text \<open>A server that decodes the query string recovers the parameters.\<close>

lemma params_round_trip: "params_parse (params_str ps) = ps"
proof (cases ps)
  case Nil
  then show ?thesis by (simp add: params_parse_def params_str_def)
next
  case (Cons p qs)
  let ?enc = "\<lambda>(k, v). form_encode k @ ''='' @ form_encode v"
  have "\<forall>w\<in>set (map ?enc ps). CHR ''&'' \<notin> set w"
  proof
    fix w assume "w \<in> set (map ?enc ps)"
    then obtain k v where "w = form_encode k @ ''='' @ form_encode v" by auto
    then show "CHR ''&'' \<notin> set w"
      using form_encode_no_delimiter [of "CHR ''&''" k] form_encode_no_delimiter [of "CHR ''&''" v]
      by (auto simp: url_delimiter_def)
  qed
  then have split: "split_at_char (CHR ''&'') (params_str ps) = map ?enc ps"
    using Cons by (simp add: params_str_def split_join)
  have "params_str ps \<noteq> []"
    unfolding params_str_def by (rule join_nonempty) (use Cons in \<open>auto split: prod.splits\<close>)
  then have "params_parse (params_str ps) =
      map ((\<lambda>p. (form_decode (fst (split_pair p)), form_decode (snd (split_pair p)))) \<circ> ?enc) ps"
    by (simp add: params_parse_def split)
  also have "\<dots> = ps"
    by (rule map_idI) (auto simp: split_pair_encoded)
  finally show ?thesis .
qed

lemma map_of_params_set: "map_of (params_set k v ps) = (map_of ps)(k \<mapsto> v)"
proof (induction ps)
  case Nil
  then show ?case by simp
next
  case (Cons p ps)
  obtain a b where p: "p = (a, b)" by (cases p)
  have "map_of (filter (\<lambda>q. fst q \<noteq> k) ps) x = (if x = k then None else map_of ps x)" for x
    by (induction ps) auto
  with Cons p show ?case by (auto simp: fun_eq_iff)
qed

end
