(* ===== verification/Alert_Stream.thy ===== *)
theory Alert_Stream
  imports Operator_Store Url
begin

text \<open>
  The reconnecting WebSocket client \<^verbatim>\<open>frontend/src/lib/ws-alerts.ts\<close> (class
  \<^verbatim>\<open>AlertStream\<close>) and the hook \<^verbatim>\<open>useAlertStream\<close> of \<^verbatim>\<open>frontend/src/hooks/useAlerts.ts\<close>
  that feeds the operator store from it.

  A stream is a record with the fields of the class, and three fields for what the browser
  holds on the class's behalf: the ticket requests in flight, the pending timers and the
  sockets whose close event has not fired. Callbacks are identified by a number, since the
  class only compares them for identity; a call to one is an output. Each callback the browser
  runs (a resolved ticket request, a socket event, a timer) is one event of the machine.
\<close>

section \<open>Data\<close>

datatype ConnectionStatus = Connecting | Connected | Disconnected | Reconnecting

record AIEnrichment =
  en_alarm_id :: id
  en_incident_id :: id
  en_ai_description :: string
  en_ai_threat_level :: string
  en_ai_recommended_action :: string
  en_ai_false_positive_pct :: number
  en_ai_objects :: "AIObject list"
  en_ai_detections :: "AIDetection list"
  en_ai_ppe_violations :: "AIDetection list option"

text \<open>A text frame after \<^verbatim>\<open>JSON.parse\<close>; \<open>None\<close> is a falsy \<^verbatim>\<open>data\<close> field.\<close>

datatype ws_frame =
    Frame_malformed
  | Frame_alert "AlertEvent option"
  | Frame_incident_new "SOCIncident option"
  | Frame_incident_update "SOCIncident option"
  | Frame_alarm_snapshot "(id \<times> string) option"
  | Frame_alarm_ai "AIEnrichment option"
  | Frame_other string

type_synonym handler = nat
type_synonym socket = nat
type_synonym timer = nat

datatype stream_out =
    Call_alert handler AlertEvent
  | Call_incident handler SOCIncident bool
  | Call_snapshot handler id string
  | Call_ai handler AIEnrichment
  | Call_status handler ConnectionStatus
  | Open_socket string
  | Close_socket socket

record AlertStream =
  ws :: "socket option"
  handlers :: "handler list"
  incidentHandlers :: "handler list"
  snapshotHandlers :: "handler list"
  aiHandlers :: "handler list"
  statusHandlers :: "handler list"
  reconnectDelay :: ms
  maxReconnectDelay :: ms
  reconnectTimer :: "timer option"
  destroyed :: bool
  stream_url :: string
  stream_status :: ConnectionStatus
  reconnectAttempts :: nat
  ticketsInFlight :: nat
  timers :: "(timer \<times> ms) list"
  nextTimer :: timer
  sockets :: "socket list"
  nextSocket :: socket

text \<open>The location of the page: protocol and host; \<open>None\<close> outside a browser.\<close>

type_synonym page_location = "(string \<times> string) option"

definition streamUrl :: "string option \<Rightarrow> page_location \<Rightarrow> string" where
  "streamUrl wsUrl loc =
     (if truthy_str wsUrl then the wsUrl
      else (case loc of
          Some (protocol, host) \<Rightarrow>
            (let proto = (if protocol = ''https:'' then ''wss:'' else ''ws:'')
             in proto @ ''//'' @ host @ ''/ws/alerts'')
        | None \<Rightarrow> ''ws://localhost:8080/ws/alerts''))"

definition newAlertStream :: "string option \<Rightarrow> page_location \<Rightarrow> AlertStream" where
  "newAlertStream wsUrl loc =
    \<lparr> ws = None, handlers = [], incidentHandlers = [], snapshotHandlers = [], aiHandlers = [],
      statusHandlers = [], reconnectDelay = 3000, maxReconnectDelay = 30000, reconnectTimer = None, destroyed = False,
      stream_url = streamUrl wsUrl loc, stream_status = Disconnected, reconnectAttempts = 0,
      ticketsInFlight = 0, timers = [], nextTimer = 0, sockets = [], nextSocket = 0 \<rparr>"

section \<open>Subscriptions\<close>

definition onAlert :: "handler \<Rightarrow> AlertStream \<Rightarrow> AlertStream" where
  "onAlert h s = s\<lparr>handlers := handlers s @ [h]\<rparr>"

definition offAlert :: "handler \<Rightarrow> AlertStream \<Rightarrow> AlertStream" where
  "offAlert h s = s\<lparr>handlers := filter (\<lambda>x. x \<noteq> h) (handlers s)\<rparr>"

definition onAI :: "handler \<Rightarrow> AlertStream \<Rightarrow> AlertStream" where
  "onAI h s = s\<lparr>aiHandlers := aiHandlers s @ [h]\<rparr>"

definition offAI :: "handler \<Rightarrow> AlertStream \<Rightarrow> AlertStream" where
  "offAI h s = s\<lparr>aiHandlers := filter (\<lambda>x. x \<noteq> h) (aiHandlers s)\<rparr>"

definition onIncident :: "handler \<Rightarrow> AlertStream \<Rightarrow> AlertStream" where
  "onIncident h s = s\<lparr>incidentHandlers := incidentHandlers s @ [h]\<rparr>"

definition offIncident :: "handler \<Rightarrow> AlertStream \<Rightarrow> AlertStream" where
  "offIncident h s = s\<lparr>incidentHandlers := filter (\<lambda>x. x \<noteq> h) (incidentHandlers s)\<rparr>"

definition onSnapshot :: "handler \<Rightarrow> AlertStream \<Rightarrow> AlertStream" where
  "onSnapshot h s = s\<lparr>snapshotHandlers := snapshotHandlers s @ [h]\<rparr>"

definition offSnapshot :: "handler \<Rightarrow> AlertStream \<Rightarrow> AlertStream" where
  "offSnapshot h s = s\<lparr>snapshotHandlers := filter (\<lambda>x. x \<noteq> h) (snapshotHandlers s)\<rparr>"

text \<open>\<^verbatim>\<open>onStatusChange\<close> also reports the current status at once.\<close>

definition onStatusChange :: "handler \<Rightarrow> AlertStream \<Rightarrow> AlertStream \<times> stream_out list" where
  "onStatusChange h s = (s\<lparr>statusHandlers := statusHandlers s @ [h]\<rparr>, [Call_status h (stream_status s)])"

definition offStatusChange :: "handler \<Rightarrow> AlertStream \<Rightarrow> AlertStream" where
  "offStatusChange h s = s\<lparr>statusHandlers := filter (\<lambda>x. x \<noteq> h) (statusHandlers s)\<rparr>"

section \<open>Connection\<close>

definition setStatus :: "ConnectionStatus \<Rightarrow> AlertStream \<Rightarrow> AlertStream \<times> stream_out list" where
  "setStatus st s = (s\<lparr>stream_status := st\<rparr>, map (\<lambda>h. Call_status h st) (statusHandlers s))"

definition scheduleReconnect :: "AlertStream \<Rightarrow> AlertStream" where
  "scheduleReconnect s =
     (if destroyed s then s
      else s\<lparr>reconnectAttempts := reconnectAttempts s + 1, reconnectTimer := Some (nextTimer s),
             timers := timers s @ [(nextTimer s, reconnectDelay s)], nextTimer := nextTimer s + 1\<rparr>)"

text \<open>The part of \<^verbatim>\<open>connect\<close> up to the ticket request; \<open>browser\<close> is false during server-side
  rendering.\<close>

definition connect :: "bool \<Rightarrow> AlertStream \<Rightarrow> AlertStream \<times> stream_out list" where
  "connect browser s =
     (if destroyed s then (s, [])
      else (let (s1, out) = setStatus (if reconnectAttempts s > 0 then Reconnecting else Connecting) s
            in if \<not> browser then (s1, out)
               else (s1\<lparr>ticketsInFlight := ticketsInFlight s1 + 1\<rparr>, out)))"

text \<open>\<open>ctor_ok\<close> is false when the \<^verbatim>\<open>WebSocket\<close> constructor throws.\<close>

definition openWS :: "string \<Rightarrow> bool \<Rightarrow> AlertStream \<Rightarrow> AlertStream \<times> stream_out list" where
  "openWS url ctor_ok s =
     (if ctor_ok
      then (s\<lparr> ws := Some (nextSocket s), sockets := sockets s @ [nextSocket s],
               nextSocket := nextSocket s + 1 \<rparr>, [Open_socket url])
      else (let (s1, out) = setStatus Disconnected s in (scheduleReconnect s1, out)))"

text \<open>The continuation of the ticket request: \<open>Some t\<close> is a ticket, \<open>None\<close> a failure.\<close>

definition ticketArrived :: "string option \<Rightarrow> bool \<Rightarrow> AlertStream \<Rightarrow> AlertStream \<times> stream_out list" where
  "ticketArrived ticket ctor_ok s =
     (let s1 = s\<lparr>ticketsInFlight := ticketsInFlight s - 1\<rparr> in
      if destroyed s1 then (s1, [])
      else (case ticket of
          Some t \<Rightarrow> openWS (stream_url s1 @ ''?ticket='' @ encodeURIComponent t) ctor_ok s1
        | None \<Rightarrow> openWS (stream_url s1) ctor_ok s1))"

definition wsOnOpen :: "AlertStream \<Rightarrow> AlertStream \<times> stream_out list" where
  "wsOnOpen s = setStatus Connected (s\<lparr>reconnectDelay := 3000, reconnectAttempts := 0\<rparr>)"

fun wsOnMessage :: "ws_frame \<Rightarrow> AlertStream \<Rightarrow> stream_out list" where
  "wsOnMessage (Frame_alert (Some a)) s = map (\<lambda>h. Call_alert h a) (handlers s)"
| "wsOnMessage (Frame_incident_new (Some i)) s = map (\<lambda>h. Call_incident h i True) (incidentHandlers s)"
| "wsOnMessage (Frame_incident_update (Some i)) s = map (\<lambda>h. Call_incident h i False) (incidentHandlers s)"
| "wsOnMessage (Frame_alarm_snapshot (Some (a, u))) s = map (\<lambda>h. Call_snapshot h a u) (snapshotHandlers s)"
| "wsOnMessage (Frame_alarm_ai (Some d)) s = map (\<lambda>h. Call_ai h d) (aiHandlers s)"
| "wsOnMessage _ s = []"

definition wsOnClose :: "socket \<Rightarrow> AlertStream \<Rightarrow> AlertStream \<times> stream_out list" where
  "wsOnClose k s =
     (let s0 = s\<lparr>sockets := filter (\<lambda>x. x \<noteq> k) (sockets s), ws := None\<rparr>;
          (s1, out) = setStatus Disconnected s0
      in (scheduleReconnect s1, out))"

text \<open>The callback of timer \<open>k\<close>, set in \<^verbatim>\<open>scheduleReconnect\<close>.\<close>

definition reconnectFires :: "timer \<Rightarrow> AlertStream \<Rightarrow> AlertStream \<times> stream_out list" where
  "reconnectFires k s =
     (let s1 = s\<lparr>timers := filter (\<lambda>p. fst p \<noteq> k) (timers s),
                 reconnectDelay := min (reconnectDelay s * 2) (maxReconnectDelay s)\<rparr>
      in connect True s1)"

definition destroy :: "AlertStream \<Rightarrow> AlertStream \<times> stream_out list" where
  "destroy s =
     (s\<lparr> destroyed := True, timers := filter (\<lambda>p. Some (fst p) \<noteq> reconnectTimer s) (timers s), handlers := [], incidentHandlers := [],
         snapshotHandlers := [], aiHandlers := [], statusHandlers := [] \<rparr>,
      (case ws s of None \<Rightarrow> [] | Some k \<Rightarrow> [Close_socket k]))"

section \<open>The machine\<close>

datatype stream_event =
    Ticket "string option" bool
  | Sock_open socket
  | Sock_message socket ws_frame
  | Sock_close socket
  | Sock_error socket
  | Timer timer
  | Destroy

text \<open>An event that cannot occur (no such socket, no pending timer or request) changes nothing.\<close>

fun stream_step :: "stream_event \<Rightarrow> AlertStream \<Rightarrow> AlertStream \<times> stream_out list" where
  "stream_step (Ticket t ok) s = (if ticketsInFlight s = 0 then (s, []) else ticketArrived t ok s)"
| "stream_step (Sock_open k) s = (if k \<in> set (sockets s) then wsOnOpen s else (s, []))"
| "stream_step (Sock_message k f) s = (s, if k \<in> set (sockets s) then wsOnMessage f s else [])"
| "stream_step (Sock_close k) s = (if k \<in> set (sockets s) then wsOnClose k s else (s, []))"
| "stream_step (Sock_error k) s = (s, [])"
| "stream_step (Timer k) s = (if k \<in> fst ` set (timers s) then reconnectFires k s else (s, []))"
| "stream_step Destroy s = destroy s"

definition stream_next :: "stream_event \<Rightarrow> AlertStream \<Rightarrow> AlertStream" where
  "stream_next e s = fst (stream_step e s)"


text \<open>The events of one stream, in order, with everything it puts out.\<close>

fun stream_outputs :: "stream_event list \<Rightarrow> AlertStream \<Rightarrow> stream_out list" where
  "stream_outputs [] s = []"
| "stream_outputs (e # es) s = snd (stream_step e s) @ stream_outputs es (stream_next e s)"

text \<open>A client creates a stream, subscribes its handlers and connects once.\<close>

definition started :: "AlertStream \<Rightarrow> bool" where
  "started s \<longleftrightarrow> (\<exists>url loc hs is ss as ts.
     s = fst (connect True ((newAlertStream url loc)\<lparr>handlers := hs, incidentHandlers := is,
           snapshotHandlers := ss, aiHandlers := as, statusHandlers := ts\<rparr>)))"

section \<open>Subscriptions as an interface\<close>

locale subscription =
  fixes subscribers :: "'s \<Rightarrow> handler list"
    and subscribe :: "handler \<Rightarrow> 's \<Rightarrow> 's"
    and unsubscribe :: "handler \<Rightarrow> 's \<Rightarrow> 's"
  assumes subscribers_subscribe: "subscribers (subscribe h s) = subscribers s @ [h]"
    and subscribers_unsubscribe: "subscribers (unsubscribe h s) = filter (\<lambda>x. x \<noteq> h) (subscribers s)"
begin

lemma subscribed: "h \<in> set (subscribers (subscribe h s))"
  by (simp add: subscribers_subscribe)

lemma unsubscribed: "h \<notin> set (subscribers (unsubscribe h s))"
  by (simp add: subscribers_unsubscribe)

lemma unsubscribe_others: "k \<noteq> h \<Longrightarrow> k \<in> set (subscribers (unsubscribe h s)) \<longleftrightarrow> k \<in> set (subscribers s)"
  by (simp add: subscribers_unsubscribe)

lemma unsubscribe_subscribe:
  "h \<notin> set (subscribers s) \<Longrightarrow> subscribers (unsubscribe h (subscribe h s)) = subscribers s"
  by (simp add: subscribers_subscribe subscribers_unsubscribe) (metis (mono_tags) filter_True)

end

interpretation alert_sub: subscription handlers onAlert offAlert
  by unfold_locales (simp_all add: onAlert_def offAlert_def)

interpretation ai_sub: subscription aiHandlers onAI offAI
  by unfold_locales (simp_all add: onAI_def offAI_def)

interpretation incident_sub: subscription incidentHandlers onIncident offIncident
  by unfold_locales (simp_all add: onIncident_def offIncident_def)

interpretation snapshot_sub: subscription snapshotHandlers onSnapshot offSnapshot
  by unfold_locales (simp_all add: onSnapshot_def offSnapshot_def)

interpretation status_sub: subscription statusHandlers "\<lambda>h s. fst (onStatusChange h s)" offStatusChange
  by unfold_locales (simp_all add: onStatusChange_def offStatusChange_def)

section \<open>Connection invariant\<close>

text \<open>The delay after \<open>k\<close> failed attempts.\<close>

definition backoff :: "nat \<Rightarrow> ms" where
  "backoff k = min (3000 * 2 ^ k) 30000"

lemma backoff_0 [simp]: "backoff 0 = 3000"
  by (simp add: backoff_def)

lemma backoff_Suc: "backoff (Suc k) = min (backoff k * 2) 30000"
  by (simp add: backoff_def min_def)

lemma backoff_bounds: "3000 \<le> backoff k \<and> backoff k \<le> 30000"
proof -
  have "(1::int) \<le> 2 ^ k" by simp
  then show ?thesis by (simp add: backoff_def)
qed

text \<open>A live stream has exactly one thing under way: a ticket request, a socket, or a timer.\<close>

datatype activity = Ticketing | Socket_up socket | Waiting timer

fun conn_at :: "activity \<Rightarrow> AlertStream \<Rightarrow> bool" where
  "conn_at Ticketing s \<longleftrightarrow>
     ticketsInFlight s = 1 \<and> sockets s = [] \<and> timers s = [] \<and> ws s = None \<and>
     reconnectDelay s = backoff (reconnectAttempts s)"
| "conn_at (Socket_up k) s \<longleftrightarrow>
     ticketsInFlight s = 0 \<and> sockets s = [k] \<and> timers s = [] \<and> ws s = Some k \<and>
     reconnectDelay s = backoff (reconnectAttempts s)"
| "conn_at (Waiting k) s \<longleftrightarrow>
     ticketsInFlight s = 0 \<and> sockets s = [] \<and> ws s = None \<and> timers s = [(k, reconnectDelay s)] \<and>
     reconnectTimer s = Some k \<and> reconnectAttempts s > 0 \<and>
     reconnectDelay s = backoff (reconnectAttempts s - 1)"

definition silent :: "AlertStream \<Rightarrow> bool" where
  "silent s \<longleftrightarrow> destroyed s \<and> timers s = [] \<and> handlers s = [] \<and> incidentHandlers s = [] \<and>
     snapshotHandlers s = [] \<and> aiHandlers s = [] \<and> statusHandlers s = []"

definition conn_inv :: "AlertStream \<Rightarrow> bool" where
  "conn_inv s \<longleftrightarrow> maxReconnectDelay s = 30000 \<and>
     (if destroyed s then silent s else \<exists>a. conn_at a s)"

lemmas stream_defs =
  setStatus_def scheduleReconnect_def connect_def openWS_def ticketArrived_def wsOnOpen_def
  wsOnClose_def reconnectFires_def destroy_def stream_next_def Let_def

lemma silent_step: "silent s \<Longrightarrow> silent (stream_next e s)"
  by (cases e) (auto simp: stream_defs silent_def split: option.splits prod.splits)

lemma max_step: "maxReconnectDelay (stream_next e s) = maxReconnectDelay s"
  by (cases e) (auto simp: stream_defs split: option.splits prod.splits)

fun next_activity :: "stream_event \<Rightarrow> AlertStream \<Rightarrow> activity \<Rightarrow> activity" where
  "next_activity (Ticket t ok) s Ticketing = (if ok then Socket_up (nextSocket s) else Waiting (nextTimer s))"
| "next_activity (Sock_close k) s (Socket_up j) = (if j = k then Waiting (nextTimer s) else Socket_up j)"
| "next_activity (Timer k) s (Waiting j) = (if j = k then Ticketing else Waiting j)"
| "next_activity e s a = a"

lemma backoff_next: "n > 0 \<Longrightarrow> min (backoff (n - Suc 0) * 2) 30000 = backoff n"
  by (cases n) (simp_all add: backoff_Suc)

lemma conn_step:
  assumes "conn_at a s" and "\<not> destroyed s" and "maxReconnectDelay s = 30000" and "e \<noteq> Destroy"
  shows "conn_at (next_activity e s a) (stream_next e s) \<and> \<not> destroyed (stream_next e s)"
  using assms
  by (cases e; cases a) (auto simp: stream_defs backoff_next split: option.splits)

lemma conn_destroy:
  assumes "conn_at a s"
  shows "silent (stream_next Destroy s)"
  using assms by (cases a) (auto simp: stream_defs silent_def)

lemma conn_inv_step: "conn_inv s \<Longrightarrow> conn_inv (stream_next e s)"
proof (cases "destroyed s")
  case True
  moreover assume "conn_inv s"
  ultimately have "silent (stream_next e s)" "maxReconnectDelay s = 30000"
    by (auto simp: conn_inv_def intro: silent_step)
  then show ?thesis by (simp add: conn_inv_def max_step silent_def)
next
  case False
  assume inv: "conn_inv s"
  with False obtain a where a: "conn_at a s" "maxReconnectDelay s = 30000" by (auto simp: conn_inv_def)
  show ?thesis
  proof (cases "e = Destroy")
    case True
    with conn_destroy [OF a(1)] a(2) show ?thesis by (simp add: conn_inv_def max_step silent_def)
  next
    case e: False
    from conn_step [OF a(1) False a(2) e] a(2) show ?thesis by (auto simp: conn_inv_def max_step)
  qed
qed

lemma conn_inv_started: "started s \<Longrightarrow> conn_inv s \<and> conn_at Ticketing s \<and> \<not> destroyed s"
  by (auto simp: started_def stream_defs newAlertStream_def conn_inv_def intro!: exI [of _ Ticketing])

interpretation alert_stream: machine stream_next started conn_inv
  by unfold_locales (simp add: conn_inv_started, rule conn_inv_step)


section \<open>The operator console\<close>

text \<open>
  The hook \<^verbatim>\<open>useAlertStream\<close>: on mount it requests the active incidents, creates a stream,
  subscribes one handler per kind of message (each calls one action of the store), and connects;
  on unmount it destroys the stream. The console's state is the stream, the store and the hook's
  status value.
\<close>

record Console =
  con_stream :: AlertStream
  con_store :: OperatorState
  con_wsStatus :: ConnectionStatus

definition aiPatchOf :: "AIEnrichment \<Rightarrow> AIPatch" where
  "aiPatchOf d =
    \<lparr> ap_description = Some (Some (en_ai_description d)),
      ap_threat_level = Some (Some (en_ai_threat_level d)),
      ap_recommended_action = Some (Some (en_ai_recommended_action d)),
      ap_false_positive_pct = Some (Some (en_ai_false_positive_pct d)),
      ap_objects = Some (Some (en_ai_objects d)),
      ap_detections = Some (Some (en_ai_detections d)),
      ap_ppe_violations = Some (en_ai_ppe_violations d) \<rparr>"

text \<open>What the hook's handlers do with a call from the stream.\<close>

fun handleOutput :: "stream_out \<Rightarrow> Console \<Rightarrow> Console" where
  "handleOutput (Call_alert h a) c = c\<lparr>con_store := operator_step (AddAlert a) (con_store c)\<rparr>"
| "handleOutput (Call_incident h i new) c = c\<lparr>con_store := operator_step (UpsertIncident i) (con_store c)\<rparr>"
| "handleOutput (Call_snapshot h i u) c = c\<lparr>con_store := operator_step (PatchAlertSnapshot i u) (con_store c)\<rparr>"
| "handleOutput (Call_ai h d) c =
     c\<lparr>con_store := operator_step (PatchAlertAI (en_alarm_id d) (aiPatchOf d)) (con_store c)\<rparr>"
| "handleOutput (Call_status h st) c = c\<lparr>con_wsStatus := st\<rparr>"
| "handleOutput _ c = c"

definition useAlertStream :: "page_location \<Rightarrow> OperatorState \<Rightarrow> Console" where
  "useAlertStream loc st =
     (let s1 = onAI 0 (onSnapshot 0 (onIncident 0 (onAlert 0 (newAlertStream None loc))));
          (s2, out2) = onStatusChange 0 s1;
          (s3, out3) = connect True s2
      in fold handleOutput (out2 @ out3)
           \<lparr>con_stream = s3, con_store = st, con_wsStatus = Disconnected\<rparr>)"

datatype console_event =
    Seeded "SOCIncident list"
  | Stream stream_event
  | User operator_action

fun console_step :: "console_event \<Rightarrow> Console \<Rightarrow> Console" where
  "console_step (Seeded incs) c = c\<lparr>con_store := fold upsertIncident incs (con_store c)\<rparr>"
| "console_step (Stream e) c =
     (let (s', out) = stream_step e (con_stream c) in fold handleOutput out (c\<lparr>con_stream := s'\<rparr>))"
| "console_step (User a) c = c\<lparr>con_store := operator_step a (con_store c)\<rparr>"

text \<open>The store actions one console event amounts to.\<close>

fun frame_actions :: "ws_frame \<Rightarrow> operator_action list" where
  "frame_actions (Frame_alert (Some a)) = [AddAlert a]"
| "frame_actions (Frame_incident_new (Some i)) = [UpsertIncident i]"
| "frame_actions (Frame_incident_update (Some i)) = [UpsertIncident i]"
| "frame_actions (Frame_alarm_snapshot (Some (a, u))) = [PatchAlertSnapshot a u]"
| "frame_actions (Frame_alarm_ai (Some d)) = [PatchAlertAI (en_alarm_id d) (aiPatchOf d)]"
| "frame_actions _ = []"

fun output_actions :: "stream_out \<Rightarrow> operator_action list" where
  "output_actions (Call_alert h a) = [AddAlert a]"
| "output_actions (Call_incident h i new) = [UpsertIncident i]"
| "output_actions (Call_snapshot h i u) = [PatchAlertSnapshot i u]"
| "output_actions (Call_ai h d) = [PatchAlertAI (en_alarm_id d) (aiPatchOf d)]"
| "output_actions _ = []"

fun event_actions :: "console_event \<Rightarrow> Console \<Rightarrow> operator_action list" where
  "event_actions (Seeded incs) c = map UpsertIncident incs"
| "event_actions (Stream e) c = concat (map output_actions (snd (stream_step e (con_stream c))))"
| "event_actions (User a) c = [a]"

lemma handleOutput_store:
  "con_store (fold handleOutput out c) = fold operator_step (concat (map output_actions out)) (con_store c)"
proof (induction out arbitrary: c)
  case (Cons x out)
  then show ?case by (cases x) auto
qed simp

lemma handleOutput_stream [simp]: "con_stream (fold handleOutput out c) = con_stream c"
proof (induction out arbitrary: c)
  case (Cons x out)
  then show ?case by (cases x) auto
qed simp

lemma console_step_stream:
  "con_stream (console_step e c) =
     (case e of Stream x \<Rightarrow> stream_next x (con_stream c) | _ \<Rightarrow> con_stream c)"
  by (cases e) (auto simp: stream_next_def split: prod.splits)

text \<open>The store sees a console event as a sequence of its own actions.\<close>

lemma console_step_store:
  "con_store (console_step e c) = fold operator_step (event_actions e c) (con_store c)"
proof (cases e)
  case (Seeded incs)
  have "fold upsertIncident incs s = fold operator_step (map UpsertIncident incs) s" for s
    by (induction incs arbitrary: s) auto
  with Seeded show ?thesis by simp
qed (auto simp: handleOutput_store split: prod.splits)

fun run_actions :: "console_event list \<Rightarrow> Console \<Rightarrow> operator_action list" where
  "run_actions [] c = []"
| "run_actions (e # es) c = event_actions e c @ run_actions es (console_step e c)"

lemma console_run_store:
  "con_store (fold console_step es c) = fold operator_step (run_actions es c) (con_store c)"
  by (induction es arbitrary: c) (simp_all add: console_step_store)

lemma silent_message: "silent s \<Longrightarrow> wsOnMessage f s = []"
  by (induction f s rule: wsOnMessage.induct) (auto simp: silent_def)

text \<open>A destroyed stream puts out nothing but a repeated \<^verbatim>\<open>close()\<close>.\<close>

lemma silent_output:
  assumes "silent s" and "x \<in> set (snd (stream_step e s))"
  shows "\<exists>k. x = Close_socket k"
  using assms by (cases e) (auto simp: stream_defs silent_message silent_def split: option.splits if_splits)

lemma silent_step_no_action:
  assumes "silent s"
  shows "concat (map output_actions (snd (stream_step e s))) = []"
  by (auto dest!: silent_output [OF assms])

lemma useAlertStream_started: "started (con_stream (useAlertStream loc st))"
  unfolding started_def useAlertStream_def
  by (rule exI [of _ None], rule exI [of _ loc], rule exI [of _ "[0]"], rule exI [of _ "[0]"],
      rule exI [of _ "[0]"], rule exI [of _ "[0]"], rule exI [of _ "[0]"])
     (simp add: Let_def split_beta onAI_def onSnapshot_def onIncident_def onAlert_def onStatusChange_def
        newAlertStream_def)

section \<open>Properties\<close>

text \<open>C6: The reconnect logic never runs two connection attempts at once and never stops trying:
  in every reachable state of a stream that was connected once and not destroyed, exactly one of a
  ticket request, an open socket and a reconnect timer is pending, a pending timer waits
  \<^term>\<open>backoff n\<close> milliseconds after \<open>n + 1\<close> failures in a row (3 s doubling up to 30 s), and \<^const>\<open>ws\<close> is
  the socket that is open.\<close>

theorem stream_one_attempt:
  assumes "reach stream_next started s" and "\<not> destroyed s"
  shows "ticketsInFlight s + length (sockets s) + length (timers s) = 1 \<and>
    ws s = (case sockets s of [] \<Rightarrow> None | k # _ \<Rightarrow> Some k) \<and>
    map snd (timers s) = (if timers s = [] then [] else [backoff (reconnectAttempts s - 1)])"
proof -
  from assms(1) have "conn_inv s" by (rule alert_stream.inv_reach)
  with assms(2) obtain a where "conn_at a s" by (auto simp: conn_inv_def)
  then show ?thesis by (cases a) auto
qed

definition stream_fixture :: AlertStream where
  "stream_fixture = con_stream (useAlertStream (Some (''https:'', ''soc.example'')) (initialStore 0))"

lemma stream_fixture_reach: "reach stream_next started (fold stream_next es stream_fixture)"
  by (rule reach_fold) (simp add: stream_fixture_def useAlertStream_started reach_start)

theorem stream_one_attempt_witness:
  "let s = fold stream_next [Ticket None True, Sock_close 0, Timer 0, Ticket None True, Sock_close 1] stream_fixture
   in map snd (timers s) = [6000] \<and> reconnectAttempts s = 2 \<and>
      map snd (timers s) = (if timers s = [] then [] else [backoff (reconnectAttempts s - 1)])"
proof -
  let ?s = "fold stream_next [Ticket None True, Sock_close 0, Timer 0, Ticket None True, Sock_close 1] stream_fixture"
  have run: "timers ?s = [(1, 6000)] \<and> reconnectAttempts ?s = 2 \<and> \<not> destroyed ?s"
    by (simp add: stream_defs stream_fixture_def useAlertStream_def split_beta onAI_def onSnapshot_def
      onIncident_def onAlert_def onStatusChange_def newAlertStream_def)
  with stream_one_attempt [OF stream_fixture_reach, of "[Ticket None True, Sock_close 0, Timer 0, Ticket None True, Sock_close 1]"]
  show ?thesis by (auto simp: Let_def)
qed


lemma recover_socket:
  assumes "conn_at (Socket_up k) s"
  shows "stream_status (stream_next (Sock_open k) s) = Connected \<and>
    reconnectAttempts (stream_next (Sock_open k) s) = 0 \<and> reconnectDelay (stream_next (Sock_open k) s) = 3000"
  using assms by (simp add: stream_defs)

text \<open>C7: A stream can always get back: from every reachable state that is not destroyed, at most
  three events of the environment (the pending timer fires, the ticket request ends with or without
  a ticket, the new socket opens) lead to the status connected, with the backoff reset: no failed
  attempts counted and the delay back at 3 s.\<close>

theorem stream_recovers:
  assumes "reach stream_next started s" and "\<not> destroyed s"
  shows "\<exists>es. length es \<le> 3 \<and> set es \<subseteq> {Ticket tk True} \<union> range Timer \<union> range Sock_open \<and>
    stream_status (fold stream_next es s) = Connected \<and>
    reconnectAttempts (fold stream_next es s) = 0 \<and> reconnectDelay (fold stream_next es s) = 3000"
proof -
  from assms(1) have inv: "conn_inv s" by (rule alert_stream.inv_reach)
  then have m: "maxReconnectDelay s = 30000" by (simp add: conn_inv_def)
  from inv assms(2) obtain a where a: "conn_at a s" by (auto simp: conn_inv_def)
  have ticket: "stream_status (fold stream_next [Ticket tk True, Sock_open (nextSocket t)] t) = Connected \<and>
      reconnectAttempts (fold stream_next [Ticket tk True, Sock_open (nextSocket t)] t) = 0 \<and>
      reconnectDelay (fold stream_next [Ticket tk True, Sock_open (nextSocket t)] t) = 3000"
    if "conn_at Ticketing t" "\<not> destroyed t" for t
    using that by (cases tk) (simp_all add: stream_defs)
  show ?thesis
  proof (cases a)
    case Ticketing
    with a ticket [of s] assms(2) show ?thesis
      by (intro exI [of _ "[Ticket tk True, Sock_open (nextSocket s)]"]) simp
  next
    case (Socket_up k)
    with a recover_socket [of k s] show ?thesis by (intro exI [of _ "[Sock_open k]"]) simp
  next
    case (Waiting k)
    let ?t = "stream_next (Timer k) s"
    from conn_step [OF a assms(2) m, of "Timer k"] Waiting
    have "conn_at Ticketing ?t" "\<not> destroyed ?t" by simp_all
    from ticket [OF this] show ?thesis
      by (intro exI [of _ "[Timer k, Ticket tk True, Sock_open (nextSocket ?t)]"]) simp
  qed
qed

theorem stream_recovers_witness:
  "\<exists>es. length es \<le> 3 \<and>
     stream_status (fold stream_next es (fold stream_next [Ticket None False] stream_fixture)) = Connected \<and>
     reconnectDelay (fold stream_next es (fold stream_next [Ticket None False] stream_fixture)) = 3000"
proof -
  have "\<not> destroyed (fold stream_next [Ticket None False] stream_fixture)"
    by (simp add: stream_defs stream_fixture_def useAlertStream_def split_beta onAI_def onSnapshot_def
      onIncident_def onAlert_def onStatusChange_def newAlertStream_def)
  from stream_recovers [OF stream_fixture_reach this] show ?thesis by blast
qed

lemma silent_run:
  assumes "silent s" and "x \<in> set (stream_outputs es s)"
  shows "\<exists>k. x = Close_socket k"
  using assms
proof (induction es arbitrary: s)
  case (Cons e es)
  then show ?case by (auto dest: silent_output intro: silent_step)
qed simp

text \<open>C8: After \<^verbatim>\<open>destroy()\<close> a stream is silent: whatever the browser still delivers (a late ticket,
  messages and the close event of the old socket, a timer), no handler is called, no socket is
  opened and no reconnect is scheduled.\<close>

theorem destroyed_stream_silent:
  assumes "reach stream_next started s"
  shows "timers (fold stream_next es (stream_next Destroy s)) = [] \<and>
    (\<forall>x\<in>set (stream_outputs es (stream_next Destroy s)). \<exists>k. x = Close_socket k)"
proof -
  have "conn_inv (stream_next Destroy s)"
    using assms by (intro alert_stream.inv_reach reach_step)
  moreover have "destroyed (stream_next Destroy s)" by (simp add: stream_defs)
  ultimately have silent: "silent (stream_next Destroy s)" by (simp add: conn_inv_def)
  then have "silent (fold stream_next es (stream_next Destroy s))"
    by (induction es rule: rev_induct) (auto intro: silent_step)
  with silent show ?thesis by (auto simp: silent_def intro: silent_run)
qed

theorem destroyed_stream_silent_witness:
  "set (stream_outputs [Ticket (Some ''t'') True, Sock_open 0] (stream_next Destroy stream_fixture))
     \<subseteq> range Close_socket"
  using destroyed_stream_silent [OF stream_fixture_reach [of "[]"], of "[Ticket (Some ''t'') True, Sock_open 0]"]
  by (simp only: fold_simps id_apply) blast

end
