(* ===== verification/Grid_Layout.thy ===== *)
theory Grid_Layout
  imports Prelude
begin

text \<open>
  The camera wall's layout computations, \<^verbatim>\<open>frontend/src/lib/camera-grid-layout.ts\<close>: the default
  freeform layout and the conversions between the static (preset) and the freeform mode; the saved
  layouts' storage is in \<open>Browser_Storage\<close>. A camera is represented by its id, the only field
  the conversions read. An assignment (a \<^verbatim>\<open>Record<number, string>\<close>) is the list of its
  entries; \<^verbatim>\<open>Object.entries\<close> lists integer keys in ascending order, so the list is kept sorted.
\<close>

section \<open>Data\<close>

record LayoutItem =
  li_i :: id
  li_x :: nat
  li_y :: nat
  li_w :: nat
  li_h :: nat
  li_cameraId :: "id option"

record Preset =
  pr_w :: nat
  pr_h :: nat
  pr_label :: string

definition GRID_COLS :: nat where
  "GRID_COLS = 32"

definition preset :: "nat \<Rightarrow> nat \<Rightarrow> Preset" where
  "preset w h = \<lparr>pr_w = w, pr_h = h, pr_label = nat_str w @ times_sign @ nat_str h\<rparr>"

definition STATIC_PRESETS :: "Preset list" where
  "STATIC_PRESETS = [preset 1 1, preset 2 1, preset 2 2, preset 3 2, preset 3 3, preset 4 3,
     preset 4 4, preset 5 3, preset 6 4]"

type_synonym assignments = "(nat \<times> id) list"

text \<open>\<^verbatim>\<open>assignments[slot] = id\<close>.\<close>

fun assign :: "nat \<Rightarrow> id \<Rightarrow> assignments \<Rightarrow> assignments" where
  "assign k v [] = [(k, v)]"
| "assign k v ((j, u) # as) =
     (if k < j then (k, v) # (j, u) # as else if k = j then (k, v) # as else (j, u) # assign k v as)"

section \<open>Layout generation and conversions\<close>

definition generateDefaultLayout :: "id list \<Rightarrow> nat \<Rightarrow> nat \<Rightarrow> LayoutItem list" where
  "generateDefaultLayout cameras viewCols hUnits =
     map (\<lambda>(i, cam). \<lparr> li_i = cam, li_x = (i mod viewCols) * (GRID_COLS div viewCols),
                        li_y = (i div viewCols) * hUnits, li_w = GRID_COLS div viewCols,
                        li_h = hUnits, li_cameraId = Some cam \<rparr>)
       (enumerate 0 cameras)"

definition slotItem :: "Preset \<Rightarrow> nat \<Rightarrow> id \<Rightarrow> LayoutItem" where
  "slotItem p slot camId =
     (let colSpan = GRID_COLS div pr_w p; rowSpan = max 4 (18 div pr_h p);
          col = slot mod pr_w p; row = slot div pr_w p
      in \<lparr> li_i = camId, li_x = col * colSpan, li_y = row * rowSpan, li_w = colSpan,
           li_h = rowSpan, li_cameraId = Some camId \<rparr>)"

definition staticToFreeform :: "assignments \<Rightarrow> Preset \<Rightarrow> LayoutItem list" where
  "staticToFreeform as p = map (\<lambda>(slot, camId). slotItem p slot camId) as"

definition placed :: "id list \<Rightarrow> LayoutItem \<Rightarrow> bool" where
  "placed cameras it = (truthy_str (li_cameraId it) \<and> (\<exists>c\<in>set cameras. Some c = li_cameraId it))"

definition bestPreset :: "nat \<Rightarrow> Preset" where
  "bestPreset n =
     (case List.find (\<lambda>p. pr_w p * pr_h p \<ge> n) STATIC_PRESETS of
        Some p \<Rightarrow> p
      | None \<Rightarrow> STATIC_PRESETS ! (length STATIC_PRESETS - 1))"

definition before :: "LayoutItem \<Rightarrow> LayoutItem \<Rightarrow> bool" where
  "before a b = (if li_y a \<noteq> li_y b then li_y a < li_y b else li_x a < li_x b)"

definition freeformToStatic :: "LayoutItem list \<Rightarrow> id list \<Rightarrow> Preset \<times> assignments" where
  "freeformToStatic items cameras =
     (let cameraItems = filter (placed cameras) items;
          p = bestPreset (length cameraItems);
          sorted = js_sort before cameraItems
      in (p, fold (\<lambda>(i, item) as.
              if i < pr_w p * pr_h p \<and> truthy_str (li_cameraId item)
              then assign i (the (li_cameraId item)) as else as)
            (enumerate 0 sorted) []))"

section \<open>Tilings\<close>

text \<open>Two items share a grid cell.\<close>

definition overlap :: "LayoutItem \<Rightarrow> LayoutItem \<Rightarrow> bool" where
  "overlap a b \<longleftrightarrow> li_x a < li_x b + li_w b \<and> li_x b < li_x a + li_w a \<and>
                 li_y a < li_y b + li_h b \<and> li_y b < li_y a + li_h a"

lemma strips_disjoint:
  fixes i j s :: nat
  assumes "i * s < j * s + s" and "j * s < i * s + s"
  shows "i = j"
proof -
  have "i * s < (j + 1) * s" "j * s < (i + 1) * s" using assms by (simp_all add: algebra_simps)
  then have "i < j + 1" "j < i + 1" by (meson mult_less_cancel2)+
  then show ?thesis by simp
qed

text \<open>An item of a regular grid with \<open>c\<close> columns, at position \<open>k\<close>.\<close>

definition in_cell :: "nat \<Rightarrow> nat \<Rightarrow> LayoutItem \<Rightarrow> bool" where
  "in_cell c k it \<longleftrightarrow> li_x it = (k mod c) * li_w it \<and> li_y it = (k div c) * li_h it"

lemma cells_disjoint:
  assumes "in_cell c k a" and "in_cell c l b" and "li_w a = li_w b" and "li_h a = li_h b"
    and "overlap a b"
  shows "k = l"
proof -
  have "k mod c = l mod c" "k div c = l div c"
    using assms by (auto simp: in_cell_def overlap_def intro: strips_disjoint)
  then show ?thesis by (metis div_mult_mod_eq)
qed

lemma cell_in_columns:
  assumes "in_cell c k it" and "li_w it = n div c" and "0 < c"
  shows "li_x it + li_w it \<le> n"
proof -
  have "k mod c + 1 \<le> c" using assms(3) by (simp add: Suc_leI)
  then have "(k mod c + 1) * (n div c) \<le> c * (n div c)" by (rule mult_le_mono1)
  also have "\<dots> \<le> n" by simp
  finally show ?thesis using assms by (simp add: in_cell_def)
qed

lemma nth_generateDefaultLayout:
  "k < length cameras \<Longrightarrow> generateDefaultLayout cameras c h ! k =
     \<lparr> li_i = cameras ! k, li_x = (k mod c) * (32 div c), li_y = (k div c) * h, li_w = 32 div c,
       li_h = h, li_cameraId = Some (cameras ! k) \<rparr>"
  by (simp add: generateDefaultLayout_def GRID_COLS_def nth_enumerate_eq)

lemma length_generateDefaultLayout [simp]: "length (generateDefaultLayout cameras c h) = length cameras"
  by (simp add: generateDefaultLayout_def)

lemma slotItem_cell: "in_cell (pr_w p) k (slotItem p k v)"
  by (simp add: in_cell_def slotItem_def Let_def)

lemma slotItem_simps [simp]:
  "li_i (slotItem p k v) = v" "li_cameraId (slotItem p k v) = Some v"
  "li_w (slotItem p k v) = 32 div pr_w p" "li_h (slotItem p k v) = max 4 (18 div pr_h p)"
  by (simp_all add: slotItem_def GRID_COLS_def Let_def)

section \<open>Sorting and slots\<close>

lemma sort_insert_front: "\<forall>y\<in>set ys. \<not> lt y x \<Longrightarrow> sort_insert lt x ys = x # ys"
  by (cases ys) auto

lemma js_sort_sorted: "sorted_wrt (\<lambda>a b. \<not> lt b a) xs \<Longrightarrow> js_sort lt xs = xs"
  by (induction xs) (auto simp: sort_insert_front)

lemma slot_order:
  assumes "k < l" and "0 < pr_w p" and "pr_w p \<le> 32"
  shows "\<not> before (slotItem p l v) (slotItem p k u)"
proof -
  let ?c = "pr_w p" and ?r = "max 4 (18 div pr_h p)"
  have pos: "0 < 32 div ?c" "0 < ?r" using assms by (simp_all add: div_greater_zero_iff)
  have le: "k div ?c \<le> l div ?c" using assms(1) by (simp add: div_le_mono)
  have "k mod ?c < l mod ?c" if "k div ?c = l div ?c"
    using assms(1) that by (metis div_mult_mod_eq nat_add_left_cancel_less)
  moreover have "li_y (slotItem p l v) = l div ?c * ?r" "li_y (slotItem p k u) = k div ?c * ?r"
    "li_x (slotItem p l v) = l mod ?c * (32 div ?c)" "li_x (slotItem p k u) = k mod ?c * (32 div ?c)"
    by (simp_all add: slotItem_def GRID_COLS_def Let_def)
  ultimately show ?thesis using pos le by (auto simp: before_def)
qed

lemma assign_snoc:
  "\<forall>j\<in>fst ` set as. j < k \<Longrightarrow> assign k v as = as @ [(k, v)]"
  by (induction k v as rule: assign.induct) auto


definition camera_of :: "LayoutItem \<Rightarrow> id" where
  "camera_of it = the (li_cameraId it)"

definition area :: "Preset \<Rightarrow> nat" where
  "area p = pr_w p * pr_h p"

lemma enumerate_Suc_0: "k \<in> fst ` set (enumerate n xs) \<longleftrightarrow> n \<le> k \<and> k < n + length xs"
  by (metis atLeastLessThan_iff enumerate_simps map_fst_enumerate set_map set_upt)

lemma fold_assign:
  assumes "\<forall>it\<in>set xs. truthy_str (c it)" and "\<forall>j\<in>fst ` set as. j < n"
  shows "fold (\<lambda>(i, item) as. if i < a \<and> truthy_str (c item)
              then assign i (the (c item)) as else as) (enumerate n xs) as =
         as @ enumerate n (map (\<lambda>it. the (c it)) (take (a - n) xs))"
  using assms
proof (induction xs arbitrary: n as)
  case (Cons it xs)
  show ?case
  proof (cases "n < a")
    case True
    then obtain m where m: "a - n = Suc m" "a - Suc n = m" by (metis Suc_diff_Suc)
    have "\<forall>j\<in>fst ` set (as @ [(n, the (c it))]). j < Suc n"
      using Cons.prems(2) by (auto intro: less_SucI)
    from Cons.IH [OF _ this] Cons.prems True m show ?thesis
      by (auto simp: assign_snoc)
  next
    case False
    with Cons.IH [of as "Suc n"] Cons.prems show ?thesis by (auto intro: less_SucI)
  qed
qed simp

text \<open>In closed form: the cameras of the placed items in reading order, as many as fit.\<close>

lemma freeformToStatic_eq:
  "freeformToStatic items cameras =
     (let its = filter (placed cameras) items; p = bestPreset (length its)
      in (p, enumerate 0 (take (area p) (map camera_of (js_sort before its)))))"
proof -
  let ?its = "filter (placed cameras) items"
  have "\<forall>it\<in>set (js_sort before ?its). truthy_str (li_cameraId it)"
    by (simp add: placed_def)
  from fold_assign [OF this, of "[]" 0 "area (bestPreset (length ?its))"]
  show ?thesis by (simp add: freeformToStatic_def Let_def area_def take_map camera_of_def [abs_def])
qed

section \<open>Properties\<close>

text \<open>The default layout is a tiling of the 32-column grid: with between 1 and 32 cameras per
  row every item has positive width and lies within the columns, and no two items overlap; the
  cameras keep their order.\<close>

theorem default_layout_tiles:
  assumes "1 \<le> viewCols" and "viewCols \<le> 32"
  shows "map li_i (generateDefaultLayout cameras viewCols hUnits) = cameras \<and>
    (\<forall>it\<in>set (generateDefaultLayout cameras viewCols hUnits).
       0 < li_w it \<and> li_x it + li_w it \<le> GRID_COLS) \<and>
    (\<forall>k l. k < length cameras \<and> l < length cameras \<and> k \<noteq> l \<longrightarrow>
       \<not> overlap (generateDefaultLayout cameras viewCols hUnits ! k)
                 (generateDefaultLayout cameras viewCols hUnits ! l))"
proof (intro conjI ballI allI impI)
  let ?L = "generateDefaultLayout cameras viewCols hUnits"
  show "map li_i ?L = cameras"
    by (rule nth_equalityI) (simp_all add: nth_generateDefaultLayout)
  have cell: "in_cell viewCols k (?L ! k)" "li_w (?L ! k) = 32 div viewCols" "li_h (?L ! k) = hUnits"
    if "k < length cameras" for k
    using that by (simp_all add: nth_generateDefaultLayout in_cell_def)
  {
    fix it assume "it \<in> set ?L"
    then obtain k where k: "k < length cameras" "it = ?L ! k" by (auto simp: in_set_conv_nth)
    show "0 < li_w it" using cell(2) [OF k(1)] k(2) assms by (simp add: div_greater_zero_iff)
    show "li_x it + li_w it \<le> GRID_COLS"
      using cell_in_columns [OF cell(1,2) [OF k(1)]] k(2) assms(1) by (simp add: GRID_COLS_def)
  }
  fix k l assume kl: "k < length cameras \<and> l < length cameras \<and> k \<noteq> l"
  then show "\<not> overlap (?L ! k) (?L ! l)"
    using cells_disjoint [OF cell(1) cell(1), of k l] cell(2,3) by auto
qed

theorem default_layout_tiles_witness:
  "map li_x (generateDefaultLayout [''a'', ''b'', ''c''] 2 9) = [0, 16, 0] \<and>
   \<not> overlap (generateDefaultLayout [''a'', ''b'', ''c''] 2 9 ! 0) (generateDefaultLayout [''a'', ''b'', ''c''] 2 9 ! 2)"
proof
  show "map li_x (generateDefaultLayout [''a'', ''b'', ''c''] 2 9) = [0, 16, 0]"
    by (simp add: generateDefaultLayout_def GRID_COLS_def)
  show "\<not> overlap (generateDefaultLayout [''a'', ''b'', ''c''] 2 9 ! 0) (generateDefaultLayout [''a'', ''b'', ''c''] 2 9 ! 2)"
    by (rule default_layout_tiles [of 2 "[''a'', ''b'', ''c'']" 9, THEN conjunct2, THEN conjunct2, rule_format]) simp_all
qed

text \<open>C9: Switching a preset layout to freeform and back keeps every camera, in slot order: for an
  assignment of at most 24 known cameras the slots come back compacted to the front of the
  best-fitting preset, so that an assignment without gaps is returned unchanged; in between, no two
  freeform items overlap and all lie within the grid's columns.\<close>

theorem static_freeform_round_trip:
  assumes slots: "sorted_wrt (<) (map fst as)"
    and "1 \<le> pr_w p" and "pr_w p \<le> 32"
    and known: "\<forall>c\<in>set (map snd as). c \<noteq> [] \<and> c \<in> set cameras" and few: "length as \<le> 24"
  shows "freeformToStatic (staticToFreeform as p) cameras =
           (bestPreset (length as), enumerate 0 (map snd as)) \<and>
         (map fst as = [0..<length as] \<longrightarrow>
            snd (freeformToStatic (staticToFreeform as p) cameras) = as) \<and>
         (\<forall>it\<in>set (staticToFreeform as p). li_x it + li_w it \<le> GRID_COLS) \<and>
         sorted_wrt (\<lambda>a b. \<not> overlap a b) (staticToFreeform as p)"
proof -
  let ?its = "staticToFreeform as p"
  have placed: "filter (placed cameras) ?its = ?its"
    using known by (force simp: staticToFreeform_def placed_def filter_id_conv)
  have item: "sorted_wrt (\<lambda>a b. fst a < fst b) as"
    using slots by (simp add: sorted_wrt_map)
  have "sorted_wrt (\<lambda>a b. \<not> before b a) ?its"
    unfolding staticToFreeform_def sorted_wrt_map
    using item by (rule sorted_wrt_mono_rel [rotated]) (use assms(2,3) slot_order [of _ _ p] in \<open>auto simp: Suc_le_eq\<close>)
  then have sorted: "js_sort before ?its = ?its" by (rule js_sort_sorted)
  have cams: "map camera_of ?its = map snd as" and len: "length ?its = length as"
    by (auto simp: staticToFreeform_def camera_of_def)
  have fits: "length as \<le> area (bestPreset (length as))"
    using few by (auto simp: bestPreset_def STATIC_PRESETS_def preset_def area_def)
  have eq: "freeformToStatic ?its cameras = (bestPreset (length as), enumerate 0 (map snd as))"
    using fits by (simp add: freeformToStatic_eq placed sorted cams len)
  have "enumerate 0 (map snd as) = as" if "map fst as = [0..<length as]"
    using that by (metis enumerate_eq_zip length_map add_0 zip_map_fst_snd)
  moreover have "sorted_wrt (\<lambda>a b. \<not> overlap a b) ?its"
    unfolding staticToFreeform_def sorted_wrt_map
    using item by (rule sorted_wrt_mono_rel [rotated])
      (auto dest: cells_disjoint [OF slotItem_cell slotItem_cell, rotated 2])
  moreover have "\<forall>it\<in>set ?its. li_x it + li_w it \<le> GRID_COLS"
    using cell_in_columns [OF slotItem_cell, of _ _ _ 32] assms(2)
    by (fastforce simp: staticToFreeform_def GRID_COLS_def)
  ultimately show ?thesis using eq by simp
qed

theorem static_freeform_round_trip_witness:
  "snd (freeformToStatic (staticToFreeform [(0, ''a''), (1, ''b''), (2, ''c'')] (preset 3 3)) [''c'', ''b'', ''a''])
     = [(0, ''a''), (1, ''b''), (2, ''c'')]"
  using static_freeform_round_trip [of "[(0, ''a''), (1, ''b''), (2, ''c'')]" "preset 3 3" "[''c'', ''b'', ''a'']"]
  by (simp add: preset_def upt_rec)

text \<open>Collecting a freeform layout into slots loses nothing while at most 24 cameras are placed:
  the slots \<open>0, 1, ...\<close> hold exactly the cameras of the placed items, ordered by row and then by
  column; of a larger layout the first 24 in that order are kept.\<close>

theorem freeform_to_static_keeps:
  "let its = filter (placed cameras) items; r = freeformToStatic items cameras in
     map fst (snd r) = [0..<min 24 (length its)] \<and>
     map snd (snd r) = take 24 (map camera_of (js_sort before its)) \<and>
     mset (js_sort before its) = mset its \<and>
     length (snd r) \<le> pr_w (fst r) * pr_h (fst r)"
proof -
  let ?its = "filter (placed cameras) items"
  let ?a = "area (bestPreset (length ?its))"
  have a: "length ?its \<le> 24 \<and> length ?its \<le> ?a \<or> ?a = 24"
    by (auto simp: bestPreset_def STATIC_PRESETS_def preset_def area_def)
  then have t: "take ?a (map camera_of (js_sort before ?its)) = take 24 (map camera_of (js_sort before ?its))"
    by auto
  have "length (take 24 (js_sort before ?its)) \<le> ?a" using a by auto
  then show ?thesis
    by (simp add: freeformToStatic_eq Let_def t area_def [symmetric] min.commute)
qed

text \<open>The preset chosen for \<open>n\<close> cameras (at most 24) has a slot for each, and no preset with
  fewer slots would do, except for 13 to 15 cameras: there the search stops at 4 by 4 although the
  5 by 3 preset listed after it fits with one slot less.\<close>

theorem best_preset_minimal:
  assumes "n \<le> 24"
  shows "n \<le> pr_w (bestPreset n) * pr_h (bestPreset n) \<and>
    (n \<notin> {13, 14, 15} \<longrightarrow> (\<forall>q\<in>set STATIC_PRESETS. n \<le> pr_w q * pr_h q \<longrightarrow>
       pr_w (bestPreset n) * pr_h (bestPreset n) \<le> pr_w q * pr_h q)) \<and>
    (n \<in> {13, 14, 15} \<longrightarrow> bestPreset n = preset 4 4 \<and>
       preset 5 3 \<in> set STATIC_PRESETS \<and> n \<le> pr_w (preset 5 3) * pr_h (preset 5 3))"
  using assms by (auto simp: bestPreset_def STATIC_PRESETS_def preset_def)

theorem best_preset_minimal_witness:
  "bestPreset 14 = preset 4 4 \<and>
   pr_w (bestPreset 10) * pr_h (bestPreset 10) \<le> pr_w (preset 4 4) * pr_h (preset 4 4)"
proof -
  have "preset 4 4 \<in> set STATIC_PRESETS" "10 \<le> pr_w (preset 4 4) * pr_h (preset 4 4)"
    by (simp_all add: STATIC_PRESETS_def preset_def)
  with best_preset_minimal [of 14] best_preset_minimal [of 10] show ?thesis by auto
qed

end
