(* ===== verification/Hvcc_Patch.thy ===== *)
theory Hvcc_Patch
  imports Prelude
begin

text \<open>
  The fix-up of the HEVC configuration box, \<^verbatim>\<open>applyHvccPatch\<close> of
  \<^verbatim>\<open>frontend/src/lib/mse-player.ts\<close>. An \<^verbatim>\<open>ArrayBuffer\<close> is a list of 8-bit words; the two
  nested loops are recursions on their counters, with the early returns of the source as the value
  \<open>None\<close>. The specification is the box as a structure (arrays of NAL units) with its
  serialisation.
\<close>

unbundle bit_operations_syntax

type_synonym byte = "8 word"

section \<open>The code\<close>

definition is_marker :: "byte \<Rightarrow> byte \<Rightarrow> byte \<Rightarrow> byte \<Rightarrow> bool" where
  "is_marker a b c d = (a = 0x68 \<and> b = 0x76 \<and> c = 0x63 \<and> d = 0x43)"

text \<open>The first loop: the index of the marker.\<close>

fun find_marker :: "nat \<Rightarrow> byte list \<Rightarrow> nat option" where
  "find_marker i (a # b # c # d # bs) =
     (if is_marker a b c d then Some i else find_marker (i + 1) (b # c # d # bs))"
| "find_marker i _ = None"

text \<open>\<^verbatim>\<open>(bytes[off] << 8) | bytes[off + 1]\<close>, on JavaScript's 32-bit integers.\<close>

definition be16 :: "byte list \<Rightarrow> nat \<Rightarrow> nat" where
  "be16 bs off = unat (push_bit 8 (ucast (bs ! off) :: 32 word) OR ucast (bs ! (off + 1)))"

fun skip_nalus :: "nat \<Rightarrow> byte list \<Rightarrow> nat \<Rightarrow> nat option" where
  "skip_nalus 0 bs off = Some off"
| "skip_nalus (Suc n) bs off =
     (if off < length bs
      then if off + 2 > length bs then None
           else skip_nalus n bs (off + (2 + be16 bs off))
      else Some off)"

fun patch_arrays :: "nat \<Rightarrow> byte list \<Rightarrow> nat \<Rightarrow> byte list" where
  "patch_arrays 0 bs off = bs"
| "patch_arrays (Suc n) bs off =
     (if off < length bs
      then (let bs1 = bs[off := bs ! off OR 0x80]; off1 = off + 1 in
            if off1 + 2 > length bs1 then bs1
            else (case skip_nalus (be16 bs1 off1) bs1 (off1 + 2) of
                    None \<Rightarrow> bs1
                  | Some off2 \<Rightarrow> patch_arrays n bs1 off2))
      else bs)"

definition applyHvccPatch :: "byte list \<Rightarrow> byte list" where
  "applyHvccPatch buf =
     (case find_marker 0 buf of
        None \<Rightarrow> buf
      | Some start \<Rightarrow>
          (let off = start + 26 in
           if off \<ge> length buf then buf
           else patch_arrays (unat (buf ! off)) buf (off + 1)))"

definition PATCH_INIT_HVCC :: bool where
  "PATCH_INIT_HVCC = True"

definition patchInitSegmentHvcc :: "byte list \<Rightarrow> byte list" where
  "patchInitSegmentHvcc buf = (if PATCH_INIT_HVCC then applyHvccPatch buf else buf)"

section \<open>Bytes and lengths\<close>

lemma be16_eq: "be16 bs off = unat (bs ! off) * 256 + unat (bs ! (off + 1))"
proof -
  let ?a = "bs ! off" and ?b = "bs ! (off + 1)"
  have ab: "unat ?a < 256" "unat ?b < 256" using unsigned_less [where 'a = nat, of ?a] unsigned_less [where 'a = nat, of ?b] by simp_all
  have "(push_bit 8 (ucast ?a :: 32 word)) AND ucast ?b = 0"
    by (rule bit_eqI) (auto simp: bit_simps dest: bit_imp_le_length)
  then have "push_bit 8 (ucast ?a :: 32 word) OR ucast ?b = push_bit 8 (ucast ?a) + ucast ?b"
    by (simp add: disjunctive_add_eq_or)
  also have "\<dots> = of_nat (unat ?a * 256 + unat ?b)"
    by (simp add: push_bit_eq_mult)
  also have "unat (of_nat (unat ?a * 256 + unat ?b) :: 32 word) = unat ?a * 256 + unat ?b"
    using ab by (subst unsigned_of_nat) (simp add: take_bit_nat_eq_self)
  finally show ?thesis by (simp add: be16_def)
qed

lemma or_0x80_idem [simp]: "((b :: byte) OR 0x80) OR 0x80 = b OR 0x80"
  by (simp add: or.assoc)

lemma length_patch_arrays [simp]: "length (patch_arrays n bs off) = length bs"
  by (induction n bs off rule: patch_arrays.induct) (auto simp: Let_def split: option.splits)

lemma skip_nalus_ge: "skip_nalus n bs off = Some off' \<Longrightarrow> off \<le> off'"
  by (induction n bs off rule: skip_nalus.induct) (auto split: if_splits)

text \<open>The patch of the arrays changes nothing before its offset, and no byte except for bit 7.\<close>

lemma patch_arrays_before: "k < off \<Longrightarrow> patch_arrays n bs off ! k = bs ! k"
proof (induction n arbitrary: bs off)
  case (Suc n)
  have "patch_arrays n (bs[off := bs ! off OR 0x80]) x ! k = bs ! k"
    if "skip_nalus m (bs[off := bs ! off OR 0x80]) (off + 3) = Some x" for m x
    using Suc.IH [of x] skip_nalus_ge [OF that] Suc.prems by simp
  with Suc.prems show ?case
    by (auto simp: Let_def numeral_3_eq_3 split: option.splits)
qed simp

lemma update_or_nth: "k < length bs \<Longrightarrow> bs[off := bs ! off OR 0x80] ! k \<in> {bs ! k, bs ! k OR 0x80}"
  by (cases "k = off") auto

lemma patch_arrays_bytes:
  "k < length bs \<Longrightarrow> patch_arrays n bs off ! k \<in> {bs ! k, bs ! k OR 0x80}"
proof (induction n arbitrary: bs off)
  case (Suc n)
  let ?bs1 = "bs[off := bs ! off OR 0x80]"
  have one: "?bs1 ! k \<in> {bs ! k, bs ! k OR 0x80}" using Suc.prems by (rule update_or_nth)
  have "patch_arrays n ?bs1 x ! k \<in> {bs ! k, bs ! k OR 0x80}" for x
    using Suc.IH [of ?bs1 x] Suc.prems one by auto
  with one show ?case by (auto simp: Let_def split: option.splits)
qed simp

text \<open>The walk over the NAL units reads only what lies before its end.\<close>

lemma skip_nalus_agree:
  assumes "skip_nalus n bs off = Some off'" and "length bs' = length bs"
    and "\<And>k. off \<le> k \<Longrightarrow> k < off' \<Longrightarrow> bs' ! k = bs ! k"
  shows "skip_nalus n bs' off = Some off'"
  using assms
proof (induction n bs off rule: skip_nalus.induct)
  case (2 n bs off)
  show ?case
  proof (cases "off < length bs")
    case True
    with 2(2) have two: "off + 2 \<le> length bs" by (auto split: if_splits)
    with 2(2) True have rest: "skip_nalus n bs (off + (2 + be16 bs off)) = Some off'" by simp
    then have "off + (2 + be16 bs off) \<le> off'" by (rule skip_nalus_ge)
    then have "bs' ! off = bs ! off" "bs' ! (off + 1) = bs ! (off + 1)"
      using 2(4) [of off] 2(4) [of "off + 1"] by simp_all
    then have "be16 bs' off = be16 bs off" by (simp add: be16_eq)
    moreover have "skip_nalus n bs' (off + (2 + be16 bs off)) = Some off'"
      using 2(1) [OF True _ rest 2(3)] two 2(4) by simp
    ultimately show ?thesis using True two 2(3) by simp
  qed (use 2 in auto)
qed simp

lemma patch_arrays_idem: "patch_arrays n (patch_arrays n bs off) off = patch_arrays n bs off"
proof (induction n bs off rule: patch_arrays.induct)
  case (2 n bs off)
  let ?bs1 = "bs[off := bs ! off OR 0x80]" and ?p = "patch_arrays (Suc n) bs off"
  show ?case
  proof (cases "off < length bs \<and> \<not> off + 3 > length bs")
    case True
    show ?thesis
    proof (cases "skip_nalus (be16 ?bs1 (off + 1)) ?bs1 (off + 3)")
      case None
      with True have p: "?p = ?bs1" by (simp add: Let_def numeral_3_eq_3)
      have "?bs1[off := ?bs1 ! off OR 0x80] = ?bs1" using True by simp
      with None True show ?thesis unfolding p by (simp add: Let_def numeral_3_eq_3)
    next
      case (Some off2)
      let ?r = "patch_arrays n ?bs1 off2"
      from Some True have p: "?p = ?r" by (simp add: Let_def numeral_3_eq_3)
      have ge: "off + 3 \<le> off2" using Some by (rule skip_nalus_ge)
      have same: "?r ! k = ?bs1 ! k" if "k < off2" for k
        by (rule patch_arrays_before [OF that])
      from same [of off] ge True have flag: "?r[off := ?r ! off OR 0x80] = ?r"
        by (intro nth_equalityI) (auto simp: nth_list_update)
      have "be16 ?r (off + 1) = be16 ?bs1 (off + 1)"
        using same [of "off + 1"] same [of "off + 2"] ge by (simp add: be16_eq)
      moreover have "skip_nalus (be16 ?bs1 (off + 1)) ?r (off + 3) = Some off2"
        using Some by (rule skip_nalus_agree) (auto simp: same)
      ultimately have "patch_arrays (Suc n) ?r off = patch_arrays n ?r off2"
        using True flag by (simp add: Let_def numeral_3_eq_3)
      also have "\<dots> = ?r"
        using 2 True Some by (simp add: Let_def numeral_3_eq_3)
      finally show ?thesis using p by simp
    qed
  next
    case False
    then show ?thesis by (auto simp: Let_def)
  qed
qed simp


section \<open>Specification\<close>

text \<open>The NAL arrays of a configuration box and their serialisation (big-endian lengths).\<close>

record NalArray =
  na_flag :: byte
  na_units :: "byte list list"

definition ser16 :: "nat \<Rightarrow> byte list" where
  "ser16 n = [of_nat (n div 256), of_nat (n mod 256)]"

definition ser_unit :: "byte list \<Rightarrow> byte list" where
  "ser_unit u = ser16 (length u) @ u"

definition ser_array :: "NalArray \<Rightarrow> byte list" where
  "ser_array a = na_flag a # ser16 (length (na_units a)) @ concat (map ser_unit (na_units a))"

definition wf_array :: "NalArray \<Rightarrow> bool" where
  "wf_array a \<longleftrightarrow> length (na_units a) < 65536 \<and> (\<forall>u\<in>set (na_units a). length u < 65536)"

definition hvcc_marker :: "byte list" where
  "hvcc_marker = [0x68, 0x76, 0x63, 0x43]"

definition ser_box :: "byte list \<Rightarrow> NalArray list \<Rightarrow> byte list" where
  "ser_box config arrays =
     hvcc_marker @ config @ [of_nat (length arrays)] @ concat (map ser_array arrays)"

definition mark_complete :: "NalArray \<Rightarrow> NalArray" where
  "mark_complete a = a\<lparr>na_flag := na_flag a OR 0x80\<rparr>"

lemma unat_of_nat_byte: "n < 256 \<Longrightarrow> unat (of_nat n :: byte) = n"
  by (subst unsigned_of_nat) (simp add: take_bit_nat_eq_self)

lemma be16_ser16: "n < 65536 \<Longrightarrow> be16 (p @ ser16 n @ q) (length p) = n"
  by (simp add: be16_eq ser16_def nth_append unat_of_nat_byte less_mult_imp_div_less)

lemma length_ser16 [simp]: "length (ser16 n) = 2"
  by (simp add: ser16_def)

lemma length_ser_unit: "length (ser_unit u) = 2 + length u"
  by (simp add: ser_unit_def)

lemma skip_nalus_units:
  assumes "\<forall>u\<in>set us. length u < 65536"
  shows "skip_nalus (length us) (p @ concat (map ser_unit us) @ q) (length p) =
    Some (length p + length (concat (map ser_unit us)))"
  using assms
proof (induction us arbitrary: p)
  case (Cons u us)
  let ?bs = "p @ concat (map ser_unit (u # us)) @ q"
  have "be16 ?bs (length p) = length u"
    using be16_ser16 [of "length u" p] Cons.prems by (simp add: ser_unit_def)
  moreover have "skip_nalus (length us) ?bs (length (p @ ser_unit u)) =
      Some (length (p @ ser_unit u) + length (concat (map ser_unit us)))"
    using Cons.IH [of "p @ ser_unit u"] Cons.prems by simp
  ultimately show ?case by (simp add: length_ser_unit add.assoc)
qed simp

lemma patch_arrays_ser:
  assumes "\<forall>a\<in>set arrays. wf_array a"
  shows "patch_arrays (length arrays) (p @ concat (map ser_array arrays) @ q) (length p) =
    p @ concat (map (ser_array \<circ> mark_complete) arrays) @ q"
  using assms
proof (induction arrays arbitrary: p)
  case (Cons a arrays)
  let ?units = "concat (map ser_unit (na_units a))" and ?rest = "concat (map ser_array arrays) @ q"
  let ?n = "length (na_units a)" and ?flag = "na_flag a OR 0x80"
  let ?bs1 = "(p @ [?flag]) @ ser16 ?n @ ?units @ ?rest"
  have upd: "(p @ concat (map ser_array (a # arrays)) @ q)[length p := ?flag] = ?bs1"
    by (simp add: ser_array_def list_update_append)
  have n: "be16 ?bs1 (length p + 1) = ?n"
    using be16_ser16 [of ?n "p @ [?flag]"] Cons.prems by (simp add: wf_array_def)
  let ?p2 = "p @ ser_array (mark_complete a)"
  have p2: "?bs1 = ?p2 @ ?rest" "length ?p2 = length p + 3 + length ?units"
    by (simp_all add: ser_array_def mark_complete_def)
  have skip: "skip_nalus ?n ?bs1 (length p + 3) = Some (length ?p2)"
    using skip_nalus_units [of "na_units a" "p @ [?flag] @ ser16 ?n" ?rest] Cons.prems p2(2)
    by (simp add: wf_array_def numeral_3_eq_3)
  have "patch_arrays (length (a # arrays)) (p @ concat (map ser_array (a # arrays)) @ q) (length p) =
      patch_arrays (length arrays) ?bs1 (length ?p2)"
    using upd n skip by (simp add: Let_def nth_append ser_array_def numeral_3_eq_3)
  also have "\<dots> = ?p2 @ concat (map (ser_array \<circ> mark_complete) arrays) @ q"
    unfolding p2(1) using Cons.IH [of ?p2] Cons.prems by (simp add: comp_def)
  finally show ?case by (simp add: comp_def del: patch_arrays.simps)
qed simp

lemma find_marker_bound: "find_marker i bs = Some s \<Longrightarrow> i \<le> s \<and> s + 4 \<le> i + length bs"
  by (induction i bs rule: find_marker.induct) (auto split: if_splits)

text \<open>A change behind the first marker does not move it.\<close>

lemma find_marker_agree:
  assumes "find_marker i bs = Some s" and "length bs' = length bs" and "\<And>k. k < s + 4 - i \<Longrightarrow> bs' ! k = bs ! k"
  shows "find_marker i bs' = Some s"
  using assms
proof (induction i bs arbitrary: bs' rule: find_marker.induct)
  case (1 i a b c d bs)
  have "i \<le> s" using find_marker_bound [OF 1(2)] by simp
  then have "bs' ! 0 = a" "bs' ! 1 = b" "bs' ! 2 = c" "bs' ! 3 = d"
    using 1(4) [of 0] 1(4) [of 1] 1(4) [of 2] 1(4) [of 3] by simp_all
  with 1(3) obtain cs where bs': "bs' = a # b # c # d # cs"
    by (auto simp: length_Suc_conv numeral_2_eq_2 numeral_3_eq_3)
  show ?case
  proof (cases "is_marker a b c d")
    case False
    with 1(2) have f: "find_marker (i + 1) (b # c # d # bs) = Some s" by simp
    have "(b # c # d # cs) ! k = (b # c # d # bs) ! k" if "k < s + 4 - (i + 1)" for k
      using 1(4) [of "Suc k"] that bs' by simp
    from 1(1) [OF False f _ this] 1(3) bs' False show ?thesis by simp
  qed (use 1 bs' in simp)
qed simp_all

section \<open>Properties\<close>

text \<open>C10: On an init segment with a well-formed HEVC configuration box the patch sets the
  array-completeness flag of every NAL array of the (first) box and changes nothing else: the
  22 fixed configuration bytes, the NAL units, and everything before and after the box are kept.\<close>

theorem hvcc_patch_marks_arrays:
  assumes "find_marker 0 (pre @ ser_box config arrays @ post) = Some (length pre)"
    and "length config = 22" and "length arrays < 256" and "\<forall>a\<in>set arrays. wf_array a"
  shows "applyHvccPatch (pre @ ser_box config arrays @ post) =
    pre @ ser_box config (map mark_complete arrays) @ post"
proof -
  let ?p = "pre @ hvcc_marker @ config @ [of_nat (length arrays)]"
  have buf: "pre @ ser_box config arrays @ post = ?p @ concat (map ser_array arrays) @ post"
    by (simp add: ser_box_def)
  have len: "length ?p = length pre + 27" using assms(2) by (simp add: hvcc_marker_def)
  have "(?p @ concat (map ser_array arrays) @ post) ! (length pre + 26) = of_nat (length arrays)"
    using assms(2) by (simp add: nth_append hvcc_marker_def)
  moreover have "\<not> length (?p @ concat (map ser_array arrays) @ post) \<le> length pre + 26"
    using len by simp
  ultimately have "applyHvccPatch (pre @ ser_box config arrays @ post) =
      patch_arrays (length arrays) (?p @ concat (map ser_array arrays) @ post) (length ?p)"
    using assms(1,3) len
    by (simp add: applyHvccPatch_def buf unat_of_nat_byte Let_def add.commute del: append_assoc length_append)
  also have "\<dots> = ?p @ concat (map (ser_array \<circ> mark_complete) arrays) @ post"
    using assms(4) by (rule patch_arrays_ser)
  finally show ?thesis by (simp add: ser_box_def comp_def)
qed

definition hvcc_fixture :: "byte list" where
  "hvcc_fixture = [0, 1] @ ser_box (replicate 22 7)
     [\<lparr>na_flag = 0x20, na_units = [[1, 2], [3]]\<rparr>, \<lparr>na_flag = 0x21, na_units = [[4]]\<rparr>] @ [9]"

theorem hvcc_patch_marks_arrays_witness:
  "applyHvccPatch hvcc_fixture = [0, 1] @ ser_box (replicate 22 7)
     [\<lparr>na_flag = 0xA0, na_units = [[1, 2], [3]]\<rparr>, \<lparr>na_flag = 0xA1, na_units = [[4]]\<rparr>] @ [9]"
proof -
  let ?as = "[\<lparr>na_flag = 0x20, na_units = [[1, 2], [3]]\<rparr>, \<lparr>na_flag = 0x21, na_units = [[4]]\<rparr>]"
  have "find_marker 0 ([0, 1] @ ser_box (replicate 22 7) ?as @ [9]) = Some (length [0, 1])"
    by (simp add: ser_box_def hvcc_marker_def is_marker_def)
  from hvcc_patch_marks_arrays [OF this] show ?thesis
    unfolding hvcc_fixture_def by (simp add: wf_array_def mark_complete_def)
qed

text \<open>C11: On any bytes, however malformed, the patch returns a buffer of the same length in which
  each byte is unchanged or has its top bit set, every byte up to the array count is unchanged,
  and patching twice is patching once; a buffer without the marker is returned as it is.\<close>

theorem hvcc_patch_safe:
  "length (applyHvccPatch buf) = length buf \<and>
   applyHvccPatch (applyHvccPatch buf) = applyHvccPatch buf \<and>
   (\<forall>k<length buf. applyHvccPatch buf ! k \<in> {buf ! k, buf ! k OR 0x80}) \<and>
   (find_marker 0 buf = None \<longrightarrow> applyHvccPatch buf = buf) \<and>
   (\<forall>s k. find_marker 0 buf = Some s \<and> k \<le> s + 26 \<longrightarrow> applyHvccPatch buf ! k = buf ! k)"
proof (cases "\<exists>s. find_marker 0 buf = Some s \<and> s + 26 < length buf")
  case True
  then obtain s where s: "find_marker 0 buf = Some s" "s + 26 < length buf" by blast
  let ?p = "patch_arrays (unat (buf ! (s + 26))) buf (s + 27)"
  have p: "applyHvccPatch buf = ?p" using s by (simp add: applyHvccPatch_def Let_def eval_nat_numeral)
  have same: "?p ! k = buf ! k" if "k \<le> s + 26" for k
    using that by (intro patch_arrays_before) simp
  have "find_marker 0 ?p = Some s"
    using s(1) by (rule find_marker_agree) (auto simp: same)
  then have "applyHvccPatch ?p = patch_arrays (unat (buf ! (s + 26))) ?p (s + 27)"
    using s(2) same [of "s + 26"] by (simp add: applyHvccPatch_def Let_def eval_nat_numeral)
  then have "applyHvccPatch ?p = ?p" by (simp add: patch_arrays_idem)
  with p s(1) same patch_arrays_bytes show ?thesis by auto
next
  case False
  then have "applyHvccPatch buf = buf" by (auto simp: applyHvccPatch_def Let_def split: option.splits)
  then show ?thesis by simp
qed

theorem hvcc_patch_safe_witness:
  "find_marker 0 [1, 2, 3] = None \<and> applyHvccPatch [1, 2, 3] = [1, 2, 3]"
  using hvcc_patch_safe [of "[1, 2, 3]"] by simp

end
