(* ===== verification/Mse_Player.thy ===== *)
theory Mse_Player
  imports Hvcc_Patch
begin

text \<open>
  The MSE-over-WebSocket player, \<^verbatim>\<open>startMsePlayer\<close> of \<^verbatim>\<open>frontend/src/lib/mse-player.ts\<close>. The
  closure's variables are a record; each callback (media source opened, socket events, the
  source buffer's \<^verbatim>\<open>updateend\<close>, the handle's \<^verbatim>\<open>close\<close>) is a function from state to state. The
  browser's decoder is a parameter: \<open>supported\<close> is \<^verbatim>\<open>MediaSource.isTypeSupported\<close>, and the
  flags of the events say whether \<^verbatim>\<open>addSourceBuffer\<close> and \<^verbatim>\<open>appendBuffer\<close> throw. The source buffer
  records what was appended to it, in order; calls to the outside world are collected in
  \<open>mp_out\<close>.
\<close>

section \<open>Data\<close>

datatype player_out =
    Out_error string string
  | Out_playing
  | Out_ws_open string
  | Out_ws_send string
  | Out_ws_close
  | Out_play
  | Out_detach

text \<open>\<open>sb_listening\<close>: the \<^verbatim>\<open>updateend\<close> listener that drains the queue is registered.\<close>

record SourceBuffer =
  sb_mime :: string
  sb_listening :: bool
  sb_updating :: bool
  sb_appended :: "byte list list"

record Video =
  vd_buffered :: "(number \<times> number) list"
  vd_currentTime :: number

record MsePlayer =
  mp_closed :: bool
  mp_ws :: bool
  mp_mediaSource :: bool
  mp_sourceBuffer :: "SourceBuffer option"
  mp_queue :: "byte list list"
  mp_initAppended :: bool
  mp_seekedToLive :: bool
  mp_video :: Video
  mp_wsUrl :: string
  mp_playingOnce :: bool
  mp_out :: "player_out list"

definition emit :: "player_out \<Rightarrow> MsePlayer \<Rightarrow> MsePlayer" where
  "emit x p = p\<lparr>mp_out := mp_out p @ [x]\<rparr>"

text \<open>A text frame after \<^verbatim>\<open>JSON.parse\<close>.\<close>

datatype control_frame = Ctl_malformed | Ctl_mse string | Ctl_other

definition dquote :: string where
  "dquote = [CHR 0x22]"

section \<open>Callbacks\<close>

definition mseUrl :: "string \<Rightarrow> string \<Rightarrow> id \<Rightarrow> string" where
  "mseUrl protocol host cameraId =
     (let proto = (if protocol = ''https:'' then ''wss:'' else ''ws:'')
      in proto @ ''//'' @ host @ ''/api/live2/'' @ cameraId @ ''/ws'')"

definition startMsePlayer :: "string \<Rightarrow> string \<Rightarrow> id \<Rightarrow> Video \<Rightarrow> MsePlayer" where
  "startMsePlayer protocol host cameraId video =
    \<lparr> mp_closed = False, mp_ws = False, mp_mediaSource = True, mp_sourceBuffer = None,
      mp_queue = [], mp_initAppended = False, mp_seekedToLive = False, mp_video = video,
      mp_wsUrl = mseUrl protocol host cameraId, mp_playingOnce = True, mp_out = [] \<rparr>"

definition closePlayer :: "MsePlayer \<Rightarrow> MsePlayer" where
  "closePlayer p =
     (if mp_closed p then p
      else (let p1 = p\<lparr>mp_closed := True\<rparr>;
                p2 = (if mp_ws p1 then emit Out_ws_close (p1\<lparr>mp_ws := False\<rparr>) else p1)
            in emit Out_detach (p2\<lparr>mp_sourceBuffer := None, mp_mediaSource := False, mp_queue := []\<rparr>)))"

definition failPlayer :: "string \<Rightarrow> string \<Rightarrow> MsePlayer \<Rightarrow> MsePlayer" where
  "failPlayer message detail p =
     (if mp_closed p then p else closePlayer (emit (Out_error message detail) p))"

definition seekToLiveEdge :: "MsePlayer \<Rightarrow> MsePlayer" where
  "seekToLiveEdge p =
     (if mp_seekedToLive p \<or> mp_sourceBuffer p = None then p
      else (let b = vd_buffered (mp_video p); t = vd_currentTime (mp_video p) in
            if b = [] then p
            else (let edge = snd (last b) in
                  if edge > 0 \<and> (t < fst (hd b) \<or> t = 0)
                  then emit Out_play (p\<lparr> mp_video := (mp_video p)\<lparr>vd_currentTime := max (fst (hd b)) (edge - 3 / 10)\<rparr>,
                                          mp_seekedToLive := True \<rparr>)
                  else p)))"

text \<open>\<open>ok\<close> is false when \<^verbatim>\<open>appendBuffer\<close> throws.\<close>

definition drainQueue :: "bool \<Rightarrow> MsePlayer \<Rightarrow> MsePlayer" where
  "drainQueue ok p =
     (case mp_sourceBuffer p of
        None \<Rightarrow> seekToLiveEdge p
      | Some sb \<Rightarrow>
          (if sb_updating sb then seekToLiveEdge p
           else (case mp_queue p of
               [] \<Rightarrow> seekToLiveEdge p
             | chunk # rest \<Rightarrow>
                 (if ok
                  then p\<lparr> mp_queue := rest, mp_sourceBuffer :=
                            Some (sb\<lparr>sb_updating := True, sb_appended := sb_appended sb @ [chunk]\<rparr>) \<rparr>
                  else failPlayer ''Playback error in browser'' ''appendBuffer'' (p\<lparr>mp_queue := rest\<rparr>)))))"

text \<open>\<^verbatim>\<open>/codecs\s*=/.test(codecs)\<close>.\<close>

definition is_space :: "char \<Rightarrow> bool" where
  "is_space c = (c = CHR '' '' \<or> (9 \<le> (of_char c :: nat) \<and> (of_char c :: nat) \<le> 13))"

fun has_codecs :: "string \<Rightarrow> bool" where
  "has_codecs [] = False"
| "has_codecs (c # s) =
     (starts_with ''codecs'' (c # s) \<and>
        (case dropWhile is_space (drop 6 (c # s)) of d # _ \<Rightarrow> d = CHR ''='' | [] \<Rightarrow> False)
      \<or> has_codecs s)"

definition codecMime :: "string \<Rightarrow> string" where
  "codecMime codecs =
     (if has_codecs codecs then codecs else ''video/mp4; codecs='' @ dquote @ codecs @ dquote)"

definition setupSourceBuffer :: "(string \<Rightarrow> bool) \<Rightarrow> bool \<Rightarrow> string \<Rightarrow> MsePlayer \<Rightarrow> MsePlayer" where
  "setupSourceBuffer supported ok codecs p =
     (if mp_closed p \<or> \<not> mp_mediaSource p then p
      else (let mime = codecMime codecs in
            if \<not> supported mime
            then failPlayer ''Browser cannot decode this stream (codec unsupported)'' mime p
            else if \<not> ok
            then failPlayer ''Browser cannot decode this stream'' ''addSourceBuffer'' p
            else p\<lparr>mp_sourceBuffer :=
                     Some \<lparr>sb_mime = mime, sb_listening = True, sb_updating = False, sb_appended = []\<rparr>\<rparr>))"

definition onBinary :: "bool \<Rightarrow> byte list \<Rightarrow> MsePlayer \<Rightarrow> MsePlayer" where
  "onBinary ok buf p =
     (if mp_closed p then p
      else (let chunk = (if \<not> mp_initAppended p then patchInitSegmentHvcc buf else buf)
            in drainQueue ok (p\<lparr>mp_initAppended := True, mp_queue := mp_queue p @ [chunk]\<rparr>)))"

definition onControl :: "(string \<Rightarrow> bool) \<Rightarrow> bool \<Rightarrow> control_frame \<Rightarrow> MsePlayer \<Rightarrow> MsePlayer" where
  "onControl supported ok msg p =
     (if mp_closed p then p
      else (case msg of
          Ctl_mse v \<Rightarrow> (if mp_sourceBuffer p = None then setupSourceBuffer supported ok v p else p)
        | _ \<Rightarrow> p))"

definition onSourceOpen :: "MsePlayer \<Rightarrow> MsePlayer" where
  "onSourceOpen p =
     (if mp_closed p then p
      else emit Out_play (emit (Out_ws_open (mp_wsUrl p)) (p\<lparr>mp_ws := True\<rparr>)))"

definition mse_candidates :: "string list" where
  "mse_candidates = [''hvc1.1.6.L153.B0'', ''hvc1.1.6.L120.90'',
     ''avc1.640029'', ''avc1.64002A'', ''avc1.640033'', ''mp4a.40.2'', ''mp4a.40.5'']"

text \<open>\<^verbatim>\<open>JSON.stringify\<close> of the handshake; the codec names contain nothing to escape.\<close>

definition mseHandshake :: "string \<Rightarrow> string" where
  "mseHandshake v = ''{'' @ dquote @ ''type'' @ dquote @ '':'' @ dquote @ ''mse'' @ dquote @ '','' @
     dquote @ ''value'' @ dquote @ '':'' @ dquote @ v @ dquote @ ''}''"

definition mseWsOpen :: "(string \<Rightarrow> bool) \<Rightarrow> MsePlayer \<Rightarrow> MsePlayer" where
  "mseWsOpen supported p =
     (let sup = filter (\<lambda>c. supported (''video/mp4; codecs='' @ dquote @ c @ dquote)) mse_candidates in
      if sup = []
      then failPlayer ''Browser cannot decode this stream (HEVC support missing)'' ''no MSE codecs supported'' p
      else emit (Out_ws_send (mseHandshake (join '','' sup))) p)"

definition mseWsError :: "MsePlayer \<Rightarrow> MsePlayer" where
  "mseWsError p = failPlayer ''Stream unavailable'' ''websocket error'' p"

definition mseWsClose :: "nat \<Rightarrow> MsePlayer \<Rightarrow> MsePlayer" where
  "mseWsClose code p =
     (if \<not> mp_closed p \<and> code \<noteq> 1000 \<and> code \<noteq> 1005
      then failPlayer ''Stream unavailable'' (''websocket closed ('' @ nat_str code @ '')'') p
      else p)"

text \<open>The browser fires \<^verbatim>\<open>updateend\<close> only for an append under way: the buffer is then idle again, and the
  listener, if \<^verbatim>\<open>setupSourceBuffer\<close> registered it, drains the queue.\<close>

definition onUpdateEnd :: "bool \<Rightarrow> MsePlayer \<Rightarrow> MsePlayer" where
  "onUpdateEnd ok p =
     (case mp_sourceBuffer p of
        None \<Rightarrow> p
      | Some sb \<Rightarrow>
          (if \<not> sb_updating sb then p
           else (let idle = p\<lparr>mp_sourceBuffer := Some (sb\<lparr>sb_updating := False\<rparr>)\<rparr>
                 in if sb_listening sb then drainQueue ok idle else idle)))"

definition onPlayingEvent :: "MsePlayer \<Rightarrow> MsePlayer" where
  "onPlayingEvent p = (if mp_playingOnce p then emit Out_playing (p\<lparr>mp_playingOnce := False\<rparr>) else p)"

datatype player_event =
    Source_open
  | Mse_ws_open
  | Mse_text bool control_frame
  | Mse_binary bool "byte list"
  | Mse_ws_error
  | Mse_ws_close nat
  | Update_end bool
  | Playing
  | Play_resolved
  | Video_state Video
  | Close_player

text \<open>Socket events reach the player only while its handlers are attached.\<close>

fun player_step :: "(string \<Rightarrow> bool) \<Rightarrow> player_event \<Rightarrow> MsePlayer \<Rightarrow> MsePlayer" where
  "player_step supported Source_open p = onSourceOpen p"
| "player_step supported Mse_ws_open p = (if mp_ws p then mseWsOpen supported p else p)"
| "player_step supported (Mse_text ok msg) p = (if mp_ws p then onControl supported ok msg p else p)"
| "player_step supported (Mse_binary ok buf) p = (if mp_ws p then onBinary ok buf p else p)"
| "player_step supported Mse_ws_error p = (if mp_ws p then mseWsError p else p)"
| "player_step supported (Mse_ws_close code) p = (if mp_ws p then mseWsClose code p else p)"
| "player_step supported (Update_end ok) p = onUpdateEnd ok p"
| "player_step supported Playing p = onPlayingEvent p"
| "player_step supported Play_resolved p = emit Out_playing p"
| "player_step supported (Video_state v) p = p\<lparr>mp_video := v\<rparr>"
| "player_step supported Close_player p = closePlayer p"


section \<open>Invariant\<close>

text \<open>The binary frames the player accepts in a run, and what they are turned into: only the first,
  the init segment, is patched.\<close>

fun accepted :: "player_event \<Rightarrow> MsePlayer \<Rightarrow> byte list list" where
  "accepted (Mse_binary ok buf) p = (if mp_ws p \<and> \<not> mp_closed p then [buf] else [])"
| "accepted _ p = []"

fun patch_first :: "byte list list \<Rightarrow> byte list list" where
  "patch_first [] = []"
| "patch_first (b # bs) = patchInitSegmentHvcc b # bs"

lemma patch_first_snoc: "patch_first (bs @ [b]) = patch_first bs @ [if bs = [] then patchInitSegmentHvcc b else b]"
  by (cases bs) auto

definition appended :: "MsePlayer \<Rightarrow> byte list list" where
  "appended p = (case mp_sourceBuffer p of None \<Rightarrow> [] | Some sb \<Rightarrow> sb_appended sb)"

definition player_closed :: "MsePlayer \<Rightarrow> bool" where
  "player_closed p \<longleftrightarrow> mp_closed p \<and> \<not> mp_ws p \<and> \<not> mp_mediaSource p \<and> mp_sourceBuffer p = None \<and> mp_queue p = []"

definition player_inv :: "byte list list \<Rightarrow> MsePlayer \<Rightarrow> bool" where
  "player_inv rcv p \<longleftrightarrow>
     (if mp_closed p then player_closed p
      else appended p @ mp_queue p = patch_first rcv \<and> (mp_initAppended p \<longleftrightarrow> rcv \<noteq> []))"

lemma closePlayer_closed: "\<not> mp_closed p \<Longrightarrow> player_closed (closePlayer p)"
  by (simp add: closePlayer_def player_closed_def emit_def Let_def)

lemma failPlayer_closed: "\<not> mp_closed p \<Longrightarrow> player_closed (failPlayer m d p)"
  by (simp add: failPlayer_def closePlayer_closed emit_def)

lemma player_inv_closed: "player_closed p \<Longrightarrow> player_inv rcv p"
  by (simp add: player_inv_def player_closed_def)

lemma player_inv_cong:
  assumes "mp_closed p = mp_closed q" "mp_sourceBuffer p = mp_sourceBuffer q" "mp_queue p = mp_queue q"
    "mp_initAppended p = mp_initAppended q" "mp_ws p = mp_ws q" "mp_mediaSource p = mp_mediaSource q"
  shows "player_inv rcv p = player_inv rcv q"
  using assms by (simp add: player_inv_def player_closed_def appended_def)

lemma seekToLiveEdge_frame [simp]:
  "mp_closed (seekToLiveEdge p) = mp_closed p" "mp_sourceBuffer (seekToLiveEdge p) = mp_sourceBuffer p"
  "mp_queue (seekToLiveEdge p) = mp_queue p" "mp_initAppended (seekToLiveEdge p) = mp_initAppended p"
  "mp_ws (seekToLiveEdge p) = mp_ws p" "mp_mediaSource (seekToLiveEdge p) = mp_mediaSource p"
  by (simp_all add: seekToLiveEdge_def emit_def Let_def)

lemma seekToLiveEdge_inv [simp]: "player_inv rcv (seekToLiveEdge p) = player_inv rcv p"
  by (rule player_inv_cong) simp_all

lemma drainQueue_inv:
  assumes "player_inv rcv p" and "\<not> mp_closed p"
  shows "player_inv rcv (drainQueue ok p)"
proof -
  have "player_inv rcv (failPlayer m d (p\<lparr>mp_queue := rest\<rparr>))" for m d rest
    using assms(2) by (intro player_inv_closed failPlayer_closed) simp
  moreover have "player_inv rcv (p\<lparr>mp_queue := rest, mp_sourceBuffer :=
      Some (sb\<lparr>sb_updating := True, sb_appended := sb_appended sb @ [chunk]\<rparr>)\<rparr>)"
    if "mp_sourceBuffer p = Some sb" "mp_queue p = chunk # rest" for sb chunk rest
    using assms that by (simp add: player_inv_def appended_def)
  ultimately show ?thesis
    using assms(1) by (simp add: drainQueue_def split: option.split list.split)
qed

lemma onBinary_inv:
  assumes "player_inv rcv p" and "\<not> mp_closed p"
  shows "player_inv (rcv @ [buf]) (onBinary ok buf p)"
proof -
  let ?chunk = "if \<not> mp_initAppended p then patchInitSegmentHvcc buf else buf"
  have "player_inv (rcv @ [buf]) (p\<lparr>mp_initAppended := True, mp_queue := mp_queue p @ [?chunk]\<rparr>)"
    using assms by (auto simp: player_inv_def patch_first_snoc appended_def)
  from drainQueue_inv [OF this] assms(2) show ?thesis by (simp add: onBinary_def Let_def)
qed

lemma onControl_inv:
  assumes "player_inv rcv p"
  shows "player_inv rcv (onControl supported ok msg p)"
proof (cases "mp_closed p")
  case False
  then have "player_inv rcv (failPlayer m d p)" for m d
    by (intro player_inv_closed failPlayer_closed)
  moreover have "player_inv rcv (p\<lparr>mp_sourceBuffer :=
      Some \<lparr>sb_mime = m, sb_listening = True, sb_updating = False, sb_appended = []\<rparr>\<rparr>)"
    if "mp_sourceBuffer p = None" for m
    using assms False that by (simp add: player_inv_def appended_def)
  ultimately show ?thesis
    using assms by (simp add: onControl_def setupSourceBuffer_def Let_def split: control_frame.split)
qed (use assms in \<open>simp add: onControl_def\<close>)

lemma emit_inv [simp]: "player_inv rcv (emit x p) = player_inv rcv p"
  by (rule player_inv_cong) (simp_all add: emit_def)

lemma fail_inv: "player_inv rcv p \<Longrightarrow> player_inv rcv (failPlayer m d p)"
  by (cases "mp_closed p") (simp_all add: failPlayer_closed player_inv_closed, simp add: failPlayer_def)

lemma onUpdateEnd_inv:
  assumes "player_inv rcv p"
  shows "player_inv rcv (onUpdateEnd ok p)"
proof (cases "mp_sourceBuffer p")
  case (Some sb)
  let ?q = "p\<lparr>mp_sourceBuffer := Some (sb\<lparr>sb_updating := False\<rparr>)\<rparr>"
  from assms Some have open': "\<not> mp_closed p" by (auto simp: player_inv_def player_closed_def split: if_splits)
  with assms Some have "player_inv rcv ?q" by (simp add: player_inv_def appended_def)
  with drainQueue_inv [OF this] open' Some assms show ?thesis by (simp add: onUpdateEnd_def Let_def)
qed (use assms in \<open>simp add: onUpdateEnd_def\<close>)

lemma player_inv_step:
  assumes "player_inv rcv p"
  shows "player_inv (rcv @ accepted e p) (player_step supported e p)"
proof (cases e)
  case (Mse_binary ok buf)
  with assms show ?thesis by (cases "mp_closed p") (auto simp: onBinary_inv, simp add: onBinary_def)
next
  case Source_open
  with assms show ?thesis by (auto simp: onSourceOpen_def player_inv_def appended_def emit_def)
next
  case Close_player
  with assms show ?thesis
    by (cases "mp_closed p") (simp_all add: closePlayer_closed player_inv_closed, simp add: closePlayer_def)
next
  case (Video_state v)
  with assms show ?thesis by simp (subst player_inv_cong [of _ p], simp_all)
next
  case Playing
  then have "player_inv rcv (player_step supported e p) = player_inv rcv p"
    by (intro player_inv_cong) (simp_all add: onPlayingEvent_def emit_def)
  with assms Playing show ?thesis by simp
qed (use assms in \<open>simp_all add: mseWsOpen_def mseWsError_def mseWsClose_def Let_def onControl_inv fail_inv onUpdateEnd_inv\<close>)

abbreviation player_run :: "(string \<Rightarrow> bool) \<Rightarrow> player_event list \<Rightarrow> MsePlayer \<Rightarrow> MsePlayer" where
  "player_run supported es p \<equiv> fold (player_step supported) es p"

abbreviation received :: "(string \<Rightarrow> bool) \<Rightarrow> player_event list \<Rightarrow> MsePlayer \<Rightarrow> byte list list" where
  "received supported es p \<equiv> run_adds (player_step supported) accepted es p"

lemma player_inv_run:
  "player_inv rcv p \<Longrightarrow> player_inv (rcv @ received supported es p) (player_run supported es p)"
proof (induction es arbitrary: rcv p)
  case (Cons e es)
  from Cons.IH [OF player_inv_step [OF Cons.prems]] show ?case by simp
qed simp

lemma player_inv_start: "player_inv [] (startMsePlayer protocol host cam video)"
  by (simp add: player_inv_def startMsePlayer_def appended_def)

section \<open>Properties\<close>

text \<open>C12: The player hands the stream to the decoder complete and in order: at every moment before it
  is closed, what was appended to the source buffer, followed by what is still queued, is exactly
  the sequence of binary frames received, with the init segment (the first) patched; and once it is
  closed it holds no socket, no buffer and no data.\<close>

theorem mse_frames_in_order:
  "let p0 = startMsePlayer protocol host cam video; p = player_run supported es p0 in
     (\<not> mp_closed p \<longrightarrow> appended p @ mp_queue p = patch_first (received supported es p0)) \<and>
     (mp_closed p \<longrightarrow> \<not> mp_ws p \<and> mp_sourceBuffer p = None \<and> mp_queue p = [])"
  using player_inv_run [OF player_inv_start, of supported es protocol host cam video]
  by (auto simp: Let_def player_inv_def player_closed_def split: if_splits)

definition video_fixture :: Video where
  "video_fixture = \<lparr>vd_buffered = [], vd_currentTime = 0\<rparr>"

definition player_fixture :: MsePlayer where
  "player_fixture = startMsePlayer ''https:'' ''soc.example'' ''cam-1'' video_fixture"

definition player_events_fixture :: "player_event list" where
  "player_events_fixture = [Source_open, Mse_ws_open, Mse_text True (Ctl_mse ''hvc1.1.6.L153.B0''),
     Mse_binary True [1, 2], Mse_binary True [3], Mse_binary True [4]]"

lemmas player_eval = player_fixture_def player_events_fixture_def startMsePlayer_def video_fixture_def
  onSourceOpen_def emit_def mseWsOpen_def mse_candidates_def onControl_def setupSourceBuffer_def
  onBinary_def drainQueue_def appended_def patchInitSegmentHvcc_def PATCH_INIT_HVCC_def
  applyHvccPatch_def seekToLiveEdge_def Let_def

theorem mse_frames_in_order_witness:
  "let p = player_run (\<lambda>_. True) player_events_fixture player_fixture in
     \<not> mp_closed p \<and> appended p @ mp_queue p = [[1, 2], [3], [4]]"
proof -
  have "\<not> mp_closed (player_run (\<lambda>_. True) player_events_fixture player_fixture) \<and>
      received (\<lambda>_. True) player_events_fixture player_fixture = [[1, 2], [3], [4]]"
    by (simp add: player_eval)
  with mse_frames_in_order [of "''https:''" "''soc.example''" "''cam-1''" video_fixture "\<lambda>_. True" player_events_fixture]
  show ?thesis
    by (simp add: Let_def player_fixture_def patchInitSegmentHvcc_def applyHvccPatch_def)
qed

text \<open>What keeps the player going: a source buffer belongs to an open player with its socket and its
  listener; it is busy only with something it was given, and idle only with nothing queued or
  before its first append.\<close>

definition player_live :: "MsePlayer \<Rightarrow> bool" where
  "player_live p \<longleftrightarrow>
     (case mp_sourceBuffer p of
        None \<Rightarrow> True
      | Some sb \<Rightarrow> mp_ws p \<and> \<not> mp_closed p \<and> sb_listening sb \<and>
          (sb_updating sb \<longrightarrow> sb_appended sb \<noteq> []) \<and>
          (sb_updating sb \<or> mp_queue p = [] \<or> sb_appended sb = []))"

lemma player_live_cong:
  assumes "mp_closed p = mp_closed q" "mp_sourceBuffer p = mp_sourceBuffer q" "mp_queue p = mp_queue q"
    "mp_ws p = mp_ws q"
  shows "player_live p = player_live q"
  using assms by (auto simp: player_live_def split: option.split)

lemma player_live_closed: "player_closed p \<Longrightarrow> player_live p"
  by (simp add: player_live_def player_closed_def)

lemma player_live_emit [simp]: "player_live (emit x p) = player_live p"
  by (rule player_live_cong) (simp_all add: emit_def)

lemma player_live_seek [simp]: "player_live (seekToLiveEdge p) = player_live p"
  by (rule player_live_cong) simp_all

lemma player_live_fail: "player_live p \<Longrightarrow> player_live (failPlayer m d p)"
  by (cases "mp_closed p") (simp_all add: failPlayer_closed player_live_closed, simp add: failPlayer_def)

text \<open>Draining needs only an attached buffer: it appends whatever it can.\<close>

definition attached :: "MsePlayer \<Rightarrow> bool" where
  "attached p \<longleftrightarrow> (\<forall>sb. mp_sourceBuffer p = Some sb \<longrightarrow>
     mp_ws p \<and> \<not> mp_closed p \<and> sb_listening sb \<and> (sb_updating sb \<longrightarrow> sb_appended sb \<noteq> []))"

lemma player_live_attached: "player_live p \<Longrightarrow> attached p"
  by (auto simp: player_live_def attached_def)

lemma drainQueue_live:
  assumes "attached p"
  shows "player_live (drainQueue ok p)"
proof (cases "mp_sourceBuffer p")
  case None
  then have "player_live p" by (simp add: player_live_def)
  with None show ?thesis by (simp add: drainQueue_def)
next
  case (Some sb)
  with assms have open': "\<not> mp_closed p" by (simp add: attached_def)
  then have "player_live (failPlayer m d (p\<lparr>mp_queue := rest\<rparr>))" for m d rest
    by (intro player_live_closed failPlayer_closed) simp
  with assms Some show ?thesis
    by (auto simp: drainQueue_def player_live_def [of p] attached_def split: list.split)
       (simp_all add: player_live_def)
qed

lemma player_live_step:
  assumes "player_live p"
  shows "player_live (player_step supported e p)"
proof (cases e)
  case Source_open
  with assms show ?thesis by (auto simp: onSourceOpen_def player_live_def emit_def split: option.splits)
next
  case (Mse_text ok msg)
  have "player_live (failPlayer m d p)" for m d by (rule player_live_fail [OF assms])
  with assms Mse_text show ?thesis
    by (auto simp: onControl_def setupSourceBuffer_def Let_def player_live_def [of "p\<lparr>mp_sourceBuffer := _\<rparr>"]
        split: control_frame.split)
next
  case (Mse_binary ok buf)
  have "attached (p\<lparr>mp_initAppended := True, mp_queue := q\<rparr>)" for q
    using player_live_attached [OF assms] by (simp add: attached_def)
  with assms Mse_binary show ?thesis by (simp add: onBinary_def Let_def drainQueue_live)
next
  case (Update_end ok)
  have "attached (p\<lparr>mp_sourceBuffer := Some (sb\<lparr>sb_updating := False\<rparr>)\<rparr>)" if "mp_sourceBuffer p = Some sb" for sb
    using player_live_attached [OF assms] that by (simp add: attached_def)
  moreover have "sb_listening sb" if "mp_sourceBuffer p = Some sb" for sb
    using player_live_attached [OF assms] that by (simp add: attached_def)
  ultimately show ?thesis
    using assms Update_end by (simp add: onUpdateEnd_def Let_def drainQueue_live split: option.split)
next
  case Close_player
  with assms show ?thesis
    by (cases "mp_closed p") (simp_all add: closePlayer_closed player_live_closed, simp add: closePlayer_def)
next
  case (Video_state v)
  with assms show ?thesis by simp (subst player_live_cong [of _ p], simp_all)
next
  case Playing
  then have "player_live (player_step supported e p) = player_live p"
    by (intro player_live_cong) (simp_all add: onPlayingEvent_def emit_def)
  with assms Playing show ?thesis by simp
qed (use assms in \<open>simp_all add: mseWsOpen_def mseWsError_def mseWsClose_def Let_def player_live_fail\<close>)

lemma player_live_run: "player_live p \<Longrightarrow> player_live (player_run supported es p)"
  by (induction es arbitrary: p) (simp_all add: player_live_step)

lemma player_live_start: "player_live (startMsePlayer protocol host cam video)"
  by (simp add: player_live_def startMsePlayer_def)

text \<open>The decoder finishes, one after the other, the append under way and one for every queued frame.\<close>

definition completions :: "(string \<Rightarrow> bool) \<Rightarrow> MsePlayer \<Rightarrow> MsePlayer" where
  "completions supported p = player_run supported (replicate (Suc (length (mp_queue p))) (Update_end True)) p"

definition drained :: "byte list list \<Rightarrow> MsePlayer \<Rightarrow> bool" where
  "drained frames p \<longleftrightarrow> mp_queue p = [] \<and> appended p = frames \<and> \<not> mp_closed p"

lemma completions_drain:
  assumes "mp_sourceBuffer p = Some sb" and "sb_listening sb" and "sb_updating sb" and "\<not> mp_closed p"
  shows "drained (appended p @ mp_queue p) (completions supported p)"
  using assms
proof (induction "mp_queue p" arbitrary: p sb)
  case Nil
  then show ?case
    by (simp add: completions_def onUpdateEnd_def drainQueue_def drained_def appended_def)
next
  case (Cons c cs)
  let ?q = "onUpdateEnd True p"
  from Cons.prems Cons.hyps(2) [symmetric] have q: "mp_queue ?q = cs" "\<not> mp_closed ?q"
    "mp_sourceBuffer ?q = Some (sb\<lparr>sb_updating := True, sb_appended := sb_appended sb @ [c]\<rparr>)"
    by (simp_all add: onUpdateEnd_def drainQueue_def)
  with Cons.hyps(1) [of ?q] Cons.prems have "drained (appended ?q @ cs) (completions supported ?q)" by simp
  with q Cons.prems Cons.hyps(2) [symmetric] show ?case by (simp add: completions_def appended_def)
qed

lemma appended_buffer: "appended p \<noteq> [] \<Longrightarrow> \<exists>sb. mp_sourceBuffer p = Some sb \<and> sb_appended sb \<noteq> []"
  by (simp add: appended_def split: option.splits)

lemma completions_reached:
  assumes "player_live p" and "player_inv rcv p" and "appended p \<noteq> []"
  shows "drained (patch_first rcv) (completions supported p)"
proof -
  from assms(3) obtain sb where sb: "mp_sourceBuffer p = Some sb" "sb_appended sb \<noteq> []"
    using appended_buffer by blast
  with assms(1) have live: "\<not> mp_closed p" "sb_listening sb" "sb_updating sb \<or> mp_queue p = []"
    by (auto simp: player_live_def)
  from assms(2) live(1) have all: "patch_first rcv = appended p @ mp_queue p" by (simp add: player_inv_def)
  show ?thesis
  proof (cases "sb_updating sb")
    case True
    from completions_drain [OF sb(1) live(2) True live(1)] all show ?thesis by simp
  next
    case False
    with live sb(1) all show ?thesis by (simp add: completions_def onUpdateEnd_def drained_def)
  qed
qed

lemma binary_appends:
  assumes "mp_sourceBuffer p = Some sb" and "player_live p"
  shows "appended (player_step supported (Mse_binary True buf) p) \<noteq> []"
proof -
  from assms have "mp_ws p" "\<not> mp_closed p" "sb_updating sb \<longrightarrow> sb_appended sb \<noteq> []"
    by (auto simp: player_live_def)
  with assms(1) show ?thesis
    by (cases "mp_queue p") (auto simp: onBinary_def Let_def drainQueue_def appended_def)
qed

lemma binary_received:
  "mp_sourceBuffer p = Some sb \<Longrightarrow> player_live p \<Longrightarrow> accepted (Mse_binary ok buf) p = [buf]"
  by (simp add: player_live_def)

text \<open>C13: No frame is left behind. In every state the player can reach with a source buffer: once
  anything has been appended, the \<^verbatim>\<open>updateend\<close> of the append under way and one for each queued frame
  bring every frame received so far into the buffer, in order, and leave the queue empty; and
  whatever waits before the first append (frames that came ahead of the codec announcement) is
  brought in the same way after one more frame.\<close>

theorem mse_queue_drains:
  assumes "p = player_run supported es (startMsePlayer protocol host cam video)"
    and "mp_sourceBuffer p \<noteq> None"
  shows "(appended p \<noteq> [] \<longrightarrow>
      drained (patch_first (received supported es (startMsePlayer protocol host cam video))) (completions supported p)) \<and>
    drained (patch_first (received supported es (startMsePlayer protocol host cam video) @ [buf]))
      (completions supported (player_step supported (Mse_binary True buf) p))"
proof -
  let ?rcv = "received supported es (startMsePlayer protocol host cam video)"
  let ?q = "player_step supported (Mse_binary True buf) p"
  from assms(2) obtain sb where sb: "mp_sourceBuffer p = Some sb" by auto
  from assms(1) have live: "player_live p" by (simp add: player_live_run player_live_start)
  have inv: "player_inv ?rcv p" unfolding assms(1) using player_inv_run [OF player_inv_start] by fastforce
  from player_inv_step [OF this, of "Mse_binary True buf" supported]
  have "player_inv (?rcv @ [buf]) ?q" by (simp only: binary_received [OF sb live])
  with completions_reached [OF player_live_step [OF live]] binary_appends [OF sb live]
    completions_reached [OF live inv] show ?thesis by blast
qed

theorem mse_queue_drains_witness:
  "let p = player_run (\<lambda>_. True) player_events_fixture player_fixture in
     mp_queue p = [[3], [4]] \<and> drained [[1, 2], [3], [4]] (completions (\<lambda>_. True) p) \<and>
     drained [[1, 2], [3], [4], [5]] (completions (\<lambda>_. True) (player_step (\<lambda>_. True) (Mse_binary True [5]) p))"
proof -
  let ?p = "player_run (\<lambda>_. True) player_events_fixture player_fixture"
  have p: "mp_queue ?p = [[3], [4]] \<and> mp_sourceBuffer ?p \<noteq> None \<and> appended ?p \<noteq> []"
    by (simp add: player_eval)
  have "received (\<lambda>_. True) player_events_fixture player_fixture = [[1, 2], [3], [4]]"
    by (simp add: player_eval)
  then have "patch_first (received (\<lambda>_. True) player_events_fixture player_fixture) = [[1, 2], [3], [4]]"
      "patch_first (received (\<lambda>_. True) player_events_fixture player_fixture @ [[5]]) = [[1, 2], [3], [4], [5]]"
    by (simp_all add: patchInitSegmentHvcc_def applyHvccPatch_def)
  with p mse_queue_drains [of ?p "\<lambda>_. True" player_events_fixture "''https:''" "''soc.example''" "''cam-1''"
      video_fixture "[5]"]
  show ?thesis unfolding player_fixture_def [symmetric] Let_def by simp
qed

lemma idle_no_updateend:
  "mp_sourceBuffer p = Some sb \<Longrightarrow> \<not> sb_updating sb \<Longrightarrow> (player_step supported (Update_end ok) ^^ n) p = p"
  by (induction n) (simp_all add: onUpdateEnd_def)

text \<open>Frames that come before the codec announcement do wait: setting the buffer up does not drain the
  queue, and as nothing is being appended no \<^verbatim>\<open>updateend\<close> does; only the next frame does.\<close>

lemma early_frames_wait:
  "let p = player_run (\<lambda>_. True) [Source_open, Mse_ws_open, Mse_binary True [1], Mse_text True (Ctl_mse ''hvc1'')]
             player_fixture in
     mp_sourceBuffer p \<noteq> None \<and> mp_queue p = [[1]] \<and>
     (player_step (\<lambda>_. True) (Update_end True) ^^ n) p = p \<and>
     appended (player_step (\<lambda>_. True) (Mse_binary True [2]) p) = [[1]]"
  by (simp add: player_eval idle_no_updateend del: player_step.simps(7))

end
