(* ===== verification/Vca_Zones.thy ===== *)
theory Vca_Zones
  imports Prelude
begin

text \<open>
  Detection zones: the catalogues and the hit test of \<^verbatim>\<open>frontend/src/lib/vca-zones.ts\<close>. A
  catalogue is an interface (a non-empty list of types with distinct keys and enough points for
  their geometry) that both the camera rules and the PPE zones provide.
\<close>

section \<open>Data\<close>

record CanvasPoint =
  cp_x :: number
  cp_y :: number

record RuleTypeDescriptor =
  rt_key :: string
  rt_label :: string
  rt_color :: string
  rt_fill :: string
  rt_minPoints :: nat

definition rule_type :: "string \<Rightarrow> string \<Rightarrow> string \<Rightarrow> string \<Rightarrow> nat \<Rightarrow> RuleTypeDescriptor" where
  "rule_type k l c f n = \<lparr>rt_key = k, rt_label = l, rt_color = c, rt_fill = f, rt_minPoints = n\<rparr>"

definition PPE_ZONE_TYPES :: "RuleTypeDescriptor list" where
  "PPE_ZONE_TYPES =
    [ rule_type ''work_area'' ''Work Area'' ''#F59E0B'' ''rgba(245,158,11,0.15)'' 3,
      rule_type ''no_go'' ''No-Go Area'' ''#EF4444'' ''rgba(239,68,68,0.18)'' 3,
      rule_type ''ppe_required'' ''PPE Required'' ''#22C55E'' ''rgba(34,197,94,0.15)'' 3,
      rule_type ''ppe_optional'' ''PPE Optional'' ''#6366F1'' ''rgba(99,102,241,0.12)'' 3 ]"

definition RULE_TYPES :: "RuleTypeDescriptor list" where
  "RULE_TYPES =
    [ rule_type ''intrusion'' ''Intrusion Zone'' ''#EF4444'' ''rgba(239,68,68,0.18)'' 3,
      rule_type ''linecross'' ''Line Crossing'' ''#3B82F6'' ''rgba(59,130,246,0.18)'' 2,
      rule_type ''regionentrance'' ''Region Entrance'' ''#22C55E'' ''rgba(34,197,94,0.18)'' 3,
      rule_type ''loitering'' ''Loitering Zone'' ''#EAB308'' ''rgba(234,179,8,0.18)'' 3 ]"

text \<open>\<^verbatim>\<open>types.find(t => t.key === type) || types[0]\<close>.\<close>

definition zoneConfig :: "RuleTypeDescriptor list \<Rightarrow> string \<Rightarrow> RuleTypeDescriptor" where
  "zoneConfig types k = (case List.find (\<lambda>t. rt_key t = k) types of Some t \<Rightarrow> t | None \<Rightarrow> types ! 0)"

definition ppeZoneConfig :: "string \<Rightarrow> RuleTypeDescriptor" where
  "ppeZoneConfig k = zoneConfig PPE_ZONE_TYPES k"

definition ruleConfig :: "string \<Rightarrow> RuleTypeDescriptor" where
  "ruleConfig k = zoneConfig RULE_TYPES k"

section \<open>Catalogues\<close>

locale zone_catalog =
  fixes types :: "RuleTypeDescriptor list"
  assumes types_nonempty: "types \<noteq> []"
    and keys_distinct: "distinct (map rt_key types)"
    and points_enough: "t \<in> set types \<Longrightarrow> rt_minPoints t = (if rt_key t = ''linecross'' then 2 else 3)"
begin

lemma config_listed: "zoneConfig types k \<in> set types"
  using types_nonempty nth_mem [of 0 types]
  by (auto simp: zoneConfig_def split: option.split dest: find_SomeD)

lemma config_of_listed: "t \<in> set types \<Longrightarrow> zoneConfig types (rt_key t) = t"
proof -
  assume t: "t \<in> set types"
  then obtain u where u: "List.find (\<lambda>x. rt_key x = rt_key t) types = Some u"
    by (cases "List.find (\<lambda>x. rt_key x = rt_key t) types") (auto simp: find_None_iff2)
  then have "u \<in> set types" "rt_key u = rt_key t" by (auto dest: find_SomeD)
  with t keys_distinct have "u = t" by (auto simp: distinct_map inj_on_def)
  with u show ?thesis by (simp add: zoneConfig_def)
qed

lemma config_minPoints: "rt_minPoints (zoneConfig types k) \<in> {2, 3}"
  using points_enough [OF config_listed] by simp

end

interpretation vca_rules: zone_catalog RULE_TYPES
  by unfold_locales (auto simp: RULE_TYPES_def rule_type_def)

interpretation ppe_zones: zone_catalog PPE_ZONE_TYPES
  by unfold_locales (auto simp: PPE_ZONE_TYPES_def rule_type_def)

section \<open>The hit test\<close>

text \<open>\<^verbatim>\<open>intersect\<close>: the ray from \<open>(x, y)\<close> to the right crosses the edge between \<open>p1\<close> (the source's index \<open>i\<close>) and \<open>p2\<close> (index \<open>j\<close>).\<close>

definition crosses :: "number \<Rightarrow> number \<Rightarrow> CanvasPoint \<Rightarrow> CanvasPoint \<Rightarrow> bool" where
  "crosses x y p1 p2 =
     (((cp_y p1 > y) \<noteq> (cp_y p2 > y)) \<and>
      x < ((cp_x p2 - cp_x p1) * (y - cp_y p1)) / (cp_y p2 - cp_y p1) + cp_x p1)"

text \<open>The loop variable \<open>j\<close> runs one behind \<open>i\<close> and starts at the last index.\<close>

definition pointInPolygon :: "number \<Rightarrow> number \<Rightarrow> CanvasPoint list \<Rightarrow> bool" where
  "pointInPolygon x y polygon =
     snd (fold (\<lambda>i (j, inside). (i, if crosses x y (polygon ! i) (polygon ! j) then \<not> inside else inside))
            [0..<length polygon] (length polygon - 1, False))"

subsection \<open>Crossing parity\<close>

text \<open>The edges of the closed polygon, each from a vertex to its predecessor.\<close>

fun chain :: "'a \<Rightarrow> 'a list \<Rightarrow> ('a \<times> 'a) list" where
  "chain q [] = []"
| "chain q (p # ps) = (p, q) # chain p ps"

definition edges :: "'a list \<Rightarrow> ('a \<times> 'a) list" where
  "edges ps = (case ps of [] \<Rightarrow> [] | _ \<Rightarrow> chain (last ps) ps)"

definition crossings :: "number \<Rightarrow> number \<Rightarrow> (CanvasPoint \<times> CanvasPoint) list \<Rightarrow> nat" where
  "crossings x y es = length (filter (\<lambda>(p, q). crosses x y p q) es)"

lemma loop_chain:
  assumes "j < length ps" and "n \<le> length ps"
  shows "fold (\<lambda>i (j, inside). (i, if crosses x y (ps ! i) (ps ! j) then \<not> inside else inside))
      [n..<length ps] (j, b) =
    (if n < length ps then length ps - 1 else j, b \<noteq> odd (crossings x y (chain (ps ! j) (drop n ps))))"
  using assms
proof (induction "length ps - n" arbitrary: n j b)
  case 0
  then show ?case by (simp add: crossings_def)
next
  case (Suc d)
  then have n: "n < length ps" by simp
  let ?c = "crosses x y (ps ! n) (ps ! j)"
  from Suc.hyps(1) [of "Suc n" n "if ?c then \<not> b else b"] Suc.hyps(2) n
  show ?case
    by (auto simp: upt_conv_Cons Cons_nth_drop_Suc [symmetric] crossings_def)
qed

lemma pointInPolygon_parity: "pointInPolygon x y ps \<longleftrightarrow> odd (crossings x y (edges ps))"
proof (cases ps)
  case Nil
  then show ?thesis by (simp add: pointInPolygon_def edges_def crossings_def)
next
  case (Cons p qs)
  then have "ps ! (length ps - 1) = last ps" by (simp add: last_conv_nth)
  with Cons loop_chain [of "length ps - 1" ps 0 x y False] show ?thesis
    by (auto simp: pointInPolygon_def edges_def split: list.splits)
qed

lemma crosses_sym: "crosses x y p q = crosses x y q p"
proof (cases "(cp_y p > y) = (cp_y q > y)")
  case True
  then show ?thesis by (simp add: crosses_def)
next
  case False
  then have "cp_y p \<noteq> cp_y q" by auto
  then have "(cp_x q - cp_x p) * (y - cp_y p) / (cp_y q - cp_y p) + cp_x p =
      (cp_x p - cp_x q) * (y - cp_y q) / (cp_y p - cp_y q) + cp_x q"
    by (simp add: field_simps)
  with False show ?thesis by (auto simp: crosses_def)
qed

text \<open>The number of crossings depends only on the multiset of undirected edges.\<close>

lemma crossings_mset: "mset es = mset es' \<Longrightarrow> crossings x y es = crossings x y es'"
  unfolding crossings_def by (metis mset_filter size_mset)

lemma crossings_swap: "crossings x y (map prod.swap es) = crossings x y es"
  by (induction es) (auto simp: crossings_def crosses_sym)

lemma crossings_append: "crossings x y (es @ es') = crossings x y es + crossings x y es'"
  by (simp add: crossings_def)

lemma chain_snoc: "chain q (ps @ [p]) = chain q ps @ [(p, last (q # ps))]"
  by (induction ps arbitrary: q) auto

lemma edges_rotate1: "mset (edges (rotate1 ps)) = mset (edges ps)"
proof (cases ps)
  case (Cons p qs)
  show ?thesis
  proof (cases qs)
    case (Cons q rs)
    have "edges (rotate1 ps) = chain p (q # rs @ [p])"
      using \<open>ps = p # qs\<close> Cons by (simp add: edges_def)
    also have "\<dots> = chain p (q # rs) @ [(p, last (q # rs))]"
      using chain_snoc [of p "q # rs" p] by simp
    finally show ?thesis using \<open>ps = p # qs\<close> Cons by (simp add: edges_def)
  qed (use \<open>ps = p # qs\<close> in \<open>simp add: edges_def\<close>)
qed (simp add: edges_def)

lemma chain_rev: "ps \<noteq> [] \<Longrightarrow> mset (chain (hd ps) (rev ps)) = mset (map prod.swap (chain (last ps) ps))"
proof -
  have gen: "mset (chain r (rev (p # ps))) + {#(z, p)#} =
      mset (map prod.swap (chain p ps)) + {#(last (p # ps), r)#} + {#(z, p)#}" for r p z ps
  proof (induction ps arbitrary: p z)
    case (Cons a as)
    have "chain r (rev (p # a # as)) = chain r (rev (a # as)) @ [(p, last (r # rev (a # as)))]"
      using chain_snoc [of r "rev (a # as)" p] by simp
    moreover have "last (r # rev (a # as)) = a" by simp
    ultimately show ?case using Cons [of a a] by simp
  qed simp
  assume "ps \<noteq> []"
  then obtain p qs where ps: "ps = p # qs" by (cases ps) auto
  show ?thesis using gen [of p p qs p] ps by (simp add: add_mset_commute)
qed

lemma edges_nonempty: "ps \<noteq> [] \<Longrightarrow> edges ps = chain (last ps) ps"
  by (cases ps) (simp_all add: edges_def)

lemma crossings_rev: "crossings x y (edges (rev ps)) = crossings x y (edges ps)"
proof (cases "ps = []")
  case False
  then have "edges (rev ps) = chain (hd ps) (rev ps)" "edges ps = chain (last ps) ps"
    by (simp_all add: edges_nonempty last_rev)
  then show ?thesis using chain_rev [OF False] crossings_mset crossings_swap by metis
qed (simp add: edges_def)


lemma pointInPolygon_rotate: "pointInPolygon x y (rotate n ps) = pointInPolygon x y ps"
proof (induction n)
  case (Suc n)
  have "crossings x y (edges (rotate1 (rotate n ps))) = crossings x y (edges (rotate n ps))"
    by (rule crossings_mset) (rule edges_rotate1)
  with Suc show ?case by (simp add: pointInPolygon_parity)
qed simp

lemma pointInPolygon_line: "\<not> pointInPolygon x y [p, q]"
proof -
  have "crosses x y p q = crosses x y q p" by (rule crosses_sym)
  then show ?thesis by (auto simp: pointInPolygon_parity edges_def crossings_def)
qed

text \<open>The test commutes with scaling to canvas pixels.\<close>

definition scale :: "number \<Rightarrow> number \<Rightarrow> CanvasPoint \<Rightarrow> CanvasPoint" where
  "scale w h p = \<lparr>cp_x = cp_x p * w, cp_y = cp_y p * h\<rparr>"

lemma crosses_scale:
  assumes "0 < w" and "0 < h"
  shows "crosses (x * w) (y * h) (scale w h p) (scale w h q) = crosses x y p q"
proof -
  let ?t = "(cp_x q - cp_x p) * (y - cp_y p) / (cp_y q - cp_y p) + cp_x p"
  have "(cp_x q * w - cp_x p * w) * (y * h - cp_y p * h) / (cp_y q * h - cp_y p * h) =
      (w * h * ((cp_x q - cp_x p) * (y - cp_y p))) / (h * (cp_y q - cp_y p))"
    by (simp add: algebra_simps)
  also have "\<dots> = w * ((cp_x q - cp_x p) * (y - cp_y p) / (cp_y q - cp_y p))"
    using assms(2) by simp
  finally have "(cp_x q * w - cp_x p * w) * (y * h - cp_y p * h) / (cp_y q * h - cp_y p * h) + cp_x p * w =
      ?t * w"
    by (simp add: algebra_simps)
  then show ?thesis using assms by (simp add: crosses_def scale_def)
qed

lemma chain_map: "chain (f q) (map f ps) = map (map_prod f f) (chain q ps)"
  by (induction ps arbitrary: q) auto

lemma edges_map: "edges (map f ps) = map (map_prod f f) (edges ps)"
  by (cases "ps = []") (simp_all add: edges_nonempty last_map chain_map, simp add: edges_def)

lemma pointInPolygon_scale:
  assumes "0 < w" and "0 < h"
  shows "pointInPolygon (x * w) (y * h) (map (scale w h) ps) = pointInPolygon x y ps"
proof -
  have "crossings (x * w) (y * h) (map (map_prod (scale w h) (scale w h)) es) = crossings x y es" for es
    by (induction es) (auto simp: crossings_def crosses_scale [OF assms])
  then show ?thesis by (simp add: pointInPolygon_parity edges_map)
qed

section \<open>Properties\<close>

text \<open>The hit test does not depend on how the polygon is written down: reversing the winding
  order or starting at another vertex gives the same answer.\<close>

theorem hit_test_any_winding:
  "pointInPolygon x y (rev ps) = pointInPolygon x y ps \<and>
   pointInPolygon x y (rotate n ps) = pointInPolygon x y ps"
  by (simp add: pointInPolygon_rotate) (simp add: pointInPolygon_parity crossings_rev)

text \<open>On an axis-parallel rectangle (drawn in either order, from any corner) the hit test
  answers exactly for the points of the half-open rectangle: its left and top edges belong to it,
  its right and bottom edges do not. A line (two points) or a single point contains nothing.\<close>

theorem hit_test_rectangle:
  assumes "l < r" and "t < b"
  shows "(pointInPolygon x y (rotate n [\<lparr>cp_x = l, cp_y = t\<rparr>, \<lparr>cp_x = r, cp_y = t\<rparr>,
                                        \<lparr>cp_x = r, cp_y = b\<rparr>, \<lparr>cp_x = l, cp_y = b\<rparr>])
            \<longleftrightarrow> l \<le> x \<and> x < r \<and> t \<le> y \<and> y < b) \<and>
         \<not> pointInPolygon x y [p, q] \<and> \<not> pointInPolygon x y [p]"
proof (intro conjI)
  show "pointInPolygon x y (rotate n [\<lparr>cp_x = l, cp_y = t\<rparr>, \<lparr>cp_x = r, cp_y = t\<rparr>,
          \<lparr>cp_x = r, cp_y = b\<rparr>, \<lparr>cp_x = l, cp_y = b\<rparr>]) \<longleftrightarrow> l \<le> x \<and> x < r \<and> t \<le> y \<and> y < b"
    unfolding pointInPolygon_rotate
    using assms by (auto simp: pointInPolygon_parity edges_def crossings_def crosses_def)
  show "\<not> pointInPolygon x y [p, q]" by (rule pointInPolygon_line)
  show "\<not> pointInPolygon x y [p]"
    by (simp add: pointInPolygon_parity edges_def crossings_def crosses_def)
qed

theorem hit_test_rectangle_witness:
  "pointInPolygon (1/2) (1/2) [\<lparr>cp_x = 0, cp_y = 0\<rparr>, \<lparr>cp_x = 1, cp_y = 0\<rparr>,
     \<lparr>cp_x = 1, cp_y = 1\<rparr>, \<lparr>cp_x = 0, cp_y = 1\<rparr>]"
  using hit_test_rectangle [of 0 1 0 1 "1/2" "1/2" 0] by simp

end
