(* ===== verification/Vca_Canvas.thy ===== *)
theory Vca_Canvas
  imports Vca_Zones
begin

text \<open>
  The zone editor's canvas, \<^verbatim>\<open>frontend/src/hooks/useVCACanvas.ts\<close>: the draw loop as the list of
  drawing commands it issues, and the mouse handlers. The hook's options and its own state are one
  record; the calls into the parent component are values of \<open>canvas_call\<close>. The small semantics of
  the drawing context (current path, fill style, saved states) at the end says what a list of
  commands paints.

  Numbers are exact rationals, so the angle \<^verbatim>\<open>Math.atan2(dy, dx)\<close> is kept as its argument pair and a
  comparison of \<^verbatim>\<open>Math.sqrt(q)\<close> with a constant is a comparison of squares (lemma \<open>near_sqrt\<close>).
\<close>

section \<open>Data\<close>

record ZoneLike =
  zl_id :: id
  zl_rule_type :: string
  zl_name :: string
  zl_enabled :: bool
  zl_region :: "CanvasPoint list"

datatype DrawMode = Idle | Drawing

record Canvas =
  cv_width :: number
  cv_height :: number
  cv_rect_left :: number
  cv_rect_top :: number
  cv_rect_width :: number
  cv_rect_height :: number

record VCACanvas =
  vc_canvas :: "Canvas option"
  vc_img :: bool
  vc_ruleTypes :: "RuleTypeDescriptor list"
  vc_zones :: "ZoneLike list"
  vc_drawMode :: DrawMode
  vc_activeRuleType :: string
  vc_draftPoints :: "CanvasPoint list"
  vc_selectedZoneId :: "id option"
  vc_hoveredVertex :: "(nat \<times> nat) option"
  vc_draggingVertex :: "(id \<times> nat) option"
  vc_isDragging :: bool

record MouseEvent =
  me_clientX :: number
  me_clientY :: number

datatype canvas_call =
    DraftPointAdd CanvasPoint
  | PolygonComplete "CanvasPoint list"
  | ZoneSelect "id option"
  | VertexMove id nat CanvasPoint
  | VertexDragEnd id

definition toNormalized :: "VCACanvas \<Rightarrow> MouseEvent \<Rightarrow> CanvasPoint" where
  "toNormalized v e =
     (case vc_canvas v of
        None \<Rightarrow> \<lparr>cp_x = 0, cp_y = 0\<rparr>
      | Some c \<Rightarrow>
          \<lparr> cp_x = max 0 (min 1 ((me_clientX e - cv_rect_left c) / cv_rect_width c)),
            cp_y = max 0 (min 1 ((me_clientY e - cv_rect_top c) / cv_rect_height c)) \<rparr>)"

section \<open>The draw loop\<close>

datatype canvas_cmd =
    ClearRect number number number number
  | DrawImage number number number number
  | FillStyle string
  | FillRect number number number number
  | StrokeStyle string
  | LineWidth number
  | BeginPath
  | MoveTo number number
  | LineTo number number
  | Arc number number number
  | RoundRect number number number number number
  | ClosePath
  | Stroke
  | Fill
  | Save
  | Restore
  | GlobalAlpha number
  | Translate number number
  | RotateAtan2 number number
  | SetLineDash "number list"
  | Font string
  | TextAlign string
  | TextBaseline string
  | FillText string number number

text \<open>The coordinates \<^verbatim>\<open>for (let g = 0; g <= w; g += d)\<close> visits; with \<open>d = 0\<close> the loop does not end.\<close>

partial_function (option) gridLoop :: "number \<Rightarrow> number \<Rightarrow> number \<Rightarrow> number list option" where
  "gridLoop g w d =
     (if g \<le> w then Option.bind (gridLoop (g + d) w d) (\<lambda>gs. Some (g # gs)) else Some [])"

definition drawBackground :: "VCACanvas \<Rightarrow> number \<Rightarrow> number \<Rightarrow> canvas_cmd list option" where
  "drawBackground v w h =
     (if vc_img v then Some [ClearRect 0 0 w h, DrawImage 0 0 w h]
      else Option.bind (gridLoop 0 w (w / 8)) (\<lambda>xs.
           Option.bind (gridLoop 0 h (h / 6)) (\<lambda>ys.
           Some ([ClearRect 0 0 w h, FillStyle ''#0c0f14'', FillRect 0 0 w h,
                  StrokeStyle ''rgba(255,255,255,0.06)'', LineWidth (1/2)] @
                 concat (map (\<lambda>gx. [BeginPath, MoveTo gx 0, LineTo gx h, Stroke]) xs) @
                 concat (map (\<lambda>gy. [BeginPath, MoveTo 0 gy, LineTo w gy, Stroke]) ys)))))"

definition tracePath :: "CanvasPoint list \<Rightarrow> canvas_cmd list" where
  "tracePath pts = (case pts of [] \<Rightarrow> [] | p # ps \<Rightarrow>
     MoveTo (cp_x p) (cp_y p) # map (\<lambda>q. LineTo (cp_x q) (cp_y q)) ps)"

definition drawLine :: "RuleTypeDescriptor \<Rightarrow> bool \<Rightarrow> CanvasPoint \<Rightarrow> CanvasPoint \<Rightarrow> canvas_cmd list" where
  "drawLine cfg isSelected p q =
     [BeginPath, MoveTo (cp_x p) (cp_y p), LineTo (cp_x q) (cp_y q), StrokeStyle (rt_color cfg),
      LineWidth (if isSelected then 3 else 2), Stroke,
      Save, Translate ((cp_x p + cp_x q) / 2) ((cp_y p + cp_y q) / 2),
      RotateAtan2 (cp_y q - cp_y p) (cp_x q - cp_x p),
      BeginPath, MoveTo 8 0, LineTo (-4) (-5), LineTo (-4) 5, ClosePath, FillStyle (rt_color cfg), Fill, Restore]"

definition drawPolygon :: "RuleTypeDescriptor \<Rightarrow> bool \<Rightarrow> bool \<Rightarrow> CanvasPoint list \<Rightarrow> canvas_cmd list" where
  "drawPolygon cfg isSelected enabled pts =
     [BeginPath] @ tracePath pts @
     [ClosePath, FillStyle (rt_fill cfg), Fill, StrokeStyle (rt_color cfg),
      LineWidth (if isSelected then 5/2 else 3/2)] @
     (if \<not> enabled then [SetLineDash [4, 4]] else []) @ [Stroke, SetLineDash []]"

definition drawHandles :: "VCACanvas \<Rightarrow> RuleTypeDescriptor \<Rightarrow> nat \<Rightarrow> CanvasPoint list \<Rightarrow> canvas_cmd list" where
  "drawHandles v cfg zoneIdx pts =
     concat (map (\<lambda>(i, p). let isHover = (vc_hoveredVertex v = Some (zoneIdx, i)) in
        [BeginPath, Arc (cp_x p) (cp_y p) (if isHover then 7 else 5), FillStyle ''#fff'', Fill,
         StrokeStyle (rt_color cfg), LineWidth 2, Stroke]) (enumerate 0 pts))"

text \<open>\<open>textWidth\<close> is the context's text measurement.\<close>

definition drawLabel :: "(string \<Rightarrow> number) \<Rightarrow> RuleTypeDescriptor \<Rightarrow> string \<Rightarrow> CanvasPoint list \<Rightarrow> canvas_cmd list" where
  "drawLabel textWidth cfg name pts =
     (let n = of_nat (length pts);
          cx = sum_list (map cp_x pts) / n; cy = sum_list (map cp_y pts) / n;
          label = (if name = [] then rt_label cfg else name);
          tw = textWidth label
      in [Font ''600 10px Inter, sans-serif'', FillStyle ''rgba(0,0,0,0.75)'',
          RoundRect (cx - tw / 2 - 5) (cy - 7) (tw + 10) 14 3, Fill,
          FillStyle (rt_color cfg), TextAlign ''center'', TextBaseline ''middle'', FillText label cx cy])"

definition drawZone :: "(string \<Rightarrow> number) \<Rightarrow> VCACanvas \<Rightarrow> number \<Rightarrow> number \<Rightarrow> nat \<Rightarrow> ZoneLike \<Rightarrow> canvas_cmd list" where
  "drawZone textWidth v w h zoneIdx zone =
     (let cfg = zoneConfig (vc_ruleTypes v) (zl_rule_type zone);
          pts = map (scale w h) (zl_region zone);
          isSelected = (Some (zl_id zone) = vc_selectedZoneId v);
          alpha = (if zl_enabled zone then 1 else 35/100);
          isLineCross = (zl_rule_type zone = ''linecross'')
      in if length pts < 2 then []
         else [Save, GlobalAlpha alpha] @
              (if isLineCross \<and> length pts = 2
               then drawLine cfg isSelected (pts ! 0) (pts ! 1)
               else drawPolygon cfg isSelected (zl_enabled zone) pts) @
              (if isSelected then drawHandles v cfg zoneIdx pts else []) @
              drawLabel textWidth cfg (zl_name zone) pts @ [Restore])"

definition drawDraft :: "VCACanvas \<Rightarrow> number \<Rightarrow> number \<Rightarrow> canvas_cmd list" where
  "drawDraft v w h =
     (if vc_drawMode v = Drawing \<and> length (vc_draftPoints v) > 0
      then (let cfg = zoneConfig (vc_ruleTypes v) (vc_activeRuleType v);
                pts = map (scale w h) (vc_draftPoints v);
                isLineCross = (vc_activeRuleType v = ''linecross'')
            in [BeginPath] @ tracePath pts @
               (if \<not> isLineCross \<and> length pts \<ge> 3 then [ClosePath, FillStyle (rt_fill cfg), Fill] else []) @
               [StrokeStyle (rt_color cfg), LineWidth 2, SetLineDash [5, 5], Stroke, SetLineDash []] @
               concat (map (\<lambda>p. [BeginPath, Arc (cp_x p) (cp_y p) 5, FillStyle ''#fff'', Fill,
                  StrokeStyle (rt_color cfg), LineWidth 2, Stroke]) pts))
      else [])"

text \<open>\<open>zones.indexOf(zone)\<close> is the first index of the zone object; zones are distinct objects.\<close>

definition render :: "(string \<Rightarrow> number) \<Rightarrow> VCACanvas \<Rightarrow> canvas_cmd list option" where
  "render textWidth v =
     (case vc_canvas v of
        None \<Rightarrow> Some []
      | Some c \<Rightarrow>
          (let w = cv_width c; h = cv_height c in
           Option.bind (drawBackground v w h) (\<lambda>bg.
             Some (bg @ concat (map (\<lambda>(i, z). drawZone textWidth v w h i z) (enumerate 0 (vc_zones v))) @
                   drawDraft v w h))))"

section \<open>Mouse handlers\<close>

definition near :: "number \<Rightarrow> CanvasPoint \<Rightarrow> CanvasPoint \<Rightarrow> bool" where
  "near d p q = ((cp_x p - cp_x q)^2 + (cp_y p - cp_y q)^2 < d^2)"

lemma near_sqrt:
  "0 \<le> d \<Longrightarrow> near d p q \<longleftrightarrow>
     sqrt (of_rat ((cp_x p - cp_x q)^2 + (cp_y p - cp_y q)^2)) < of_rat d"
proof -
  assume d: "0 \<le> d"
  let ?q = "(cp_x p - cp_x q)^2 + (cp_y p - cp_y q)^2"
  have "sqrt (of_rat ?q) < of_rat d \<longleftrightarrow> sqrt (of_rat ?q) < sqrt (of_rat (d^2))"
    using d by (simp add: of_rat_power)
  also have "\<dots> \<longleftrightarrow> (of_rat ?q :: real) < of_rat (d^2)" by (rule real_sqrt_less_iff)
  also have "\<dots> \<longleftrightarrow> ?q < d^2" by (rule of_rat_less)
  finally show ?thesis by (simp add: near_def)
qed

definition onClick :: "VCACanvas \<Rightarrow> MouseEvent \<Rightarrow> canvas_call list" where
  "onClick v e =
     (if vc_draggingVertex v \<noteq> None then []
      else (let pt = toNormalized v e in
        case vc_drawMode v of
          Drawing \<Rightarrow>
            (let cfg = zoneConfig (vc_ruleTypes v) (vc_activeRuleType v);
                 isLineCross = (vc_activeRuleType v = ''linecross'') in
             if length (vc_draftPoints v) \<ge> 3 \<and> \<not> isLineCross \<and> near (3/100) pt (vc_draftPoints v ! 0)
             then [PolygonComplete (vc_draftPoints v)]
             else (let newPoints = vc_draftPoints v @ [pt] in
               if isLineCross \<and> length newPoints \<ge> rt_minPoints cfg
               then [PolygonComplete newPoints]
               else [DraftPointAdd pt]))
        | Idle \<Rightarrow>
            (case vc_canvas v of
               None \<Rightarrow> []
             | Some c \<Rightarrow>
                 (let w = cv_width c; h = cv_height c in
                  case List.find (\<lambda>z. pointInPolygon (cp_x pt * w) (cp_y pt * h) (map (scale w h) (zl_region z)))
                         (rev (vc_zones v)) of
                    Some z \<Rightarrow> [ZoneSelect (Some (zl_id z))]
                  | None \<Rightarrow> [ZoneSelect None]))))"

definition onMouseDown :: "VCACanvas \<Rightarrow> MouseEvent \<Rightarrow> VCACanvas" where
  "onMouseDown v e =
     (if vc_drawMode v = Drawing \<or> \<not> truthy_str (vc_selectedZoneId v) then v
      else (let pt = toNormalized v e in
        case List.find (\<lambda>z. Some (zl_id z) = vc_selectedZoneId v) (vc_zones v) of
          None \<Rightarrow> v
        | Some zone \<Rightarrow>
            (case find_index (near (25/1000) pt) (zl_region zone) of
               None \<Rightarrow> v
             | Some i \<Rightarrow> v\<lparr>vc_draggingVertex := Some (zl_id zone, i), vc_isDragging := True\<rparr>)))"

definition onMouseMove :: "VCACanvas \<Rightarrow> MouseEvent \<Rightarrow> canvas_call list" where
  "onMouseMove v e =
     (case vc_draggingVertex v of
        None \<Rightarrow> []
      | Some (zoneId, ptIdx) \<Rightarrow> [VertexMove zoneId ptIdx (toNormalized v e)])"

definition onMouseUp :: "VCACanvas \<Rightarrow> VCACanvas \<times> canvas_call list" where
  "onMouseUp v =
     (case vc_draggingVertex v of
        None \<Rightarrow> (v, [])
      | Some (zoneId, ptIdx) \<Rightarrow> (v\<lparr>vc_draggingVertex := None, vc_isDragging := False\<rparr>, [VertexDragEnd zoneId]))"

definition onDoubleClick :: "VCACanvas \<Rightarrow> canvas_call list" where
  "onDoubleClick v =
     (let isLineCross = (vc_activeRuleType v = ''linecross'') in
      if vc_drawMode v = Drawing \<and> length (vc_draftPoints v) \<ge> 3 \<and> \<not> isLineCross
      then [PolygonComplete (vc_draftPoints v)] else [])"


section \<open>What the commands paint\<close>

text \<open>
  The part of the drawing context that fills depend on. The current path and the effect of
  \<^verbatim>\<open>beginPath\<close> are as the canvas standard has them: path commands add to the current path, only
  \<^verbatim>\<open>beginPath\<close> empties it, and \<^verbatim>\<open>save\<close>/\<^verbatim>\<open>restore\<close> do not affect it.
\<close>

record Context =
  cx_path :: "canvas_cmd list"
  cx_fillStyle :: string
  cx_saved :: "string list"
  cx_fills :: "(string \<times> canvas_cmd list) list"

fun paint :: "canvas_cmd \<Rightarrow> Context \<Rightarrow> Context" where
  "paint BeginPath c = c\<lparr>cx_path := []\<rparr>"
| "paint (MoveTo x y) c = c\<lparr>cx_path := cx_path c @ [MoveTo x y]\<rparr>"
| "paint (LineTo x y) c = c\<lparr>cx_path := cx_path c @ [LineTo x y]\<rparr>"
| "paint (Arc x y r) c = c\<lparr>cx_path := cx_path c @ [Arc x y r]\<rparr>"
| "paint (RoundRect x y w h r) c = c\<lparr>cx_path := cx_path c @ [RoundRect x y w h r]\<rparr>"
| "paint ClosePath c = c\<lparr>cx_path := cx_path c @ [ClosePath]\<rparr>"
| "paint (FillStyle st) c = c\<lparr>cx_fillStyle := st\<rparr>"
| "paint Fill c = c\<lparr>cx_fills := cx_fills c @ [(cx_fillStyle c, cx_path c)]\<rparr>"
| "paint Save c = c\<lparr>cx_saved := cx_fillStyle c # cx_saved c\<rparr>"
| "paint Restore c = (case cx_saved c of [] \<Rightarrow> c | st # sts \<Rightarrow> c\<lparr>cx_fillStyle := st, cx_saved := sts\<rparr>)"
| "paint _ c = c"

text \<open>The nesting depth of saved states after a list of commands; \<open>None\<close> when a \<^verbatim>\<open>restore\<close> has no
  matching \<^verbatim>\<open>save\<close>.\<close>

fun depth :: "canvas_cmd list \<Rightarrow> nat \<Rightarrow> nat option" where
  "depth [] n = Some n"
| "depth (Save # cs) n = depth cs (Suc n)"
| "depth (Restore # cs) n = (case n of 0 \<Rightarrow> None | Suc m \<Rightarrow> depth cs m)"
| "depth (_ # cs) n = depth cs n"

definition is_nesting :: "canvas_cmd \<Rightarrow> bool" where
  "is_nesting c \<longleftrightarrow> c = Save \<or> c = Restore"

lemma depth_flat: "\<forall>c\<in>set cs. \<not> is_nesting c \<Longrightarrow> depth (cs @ ds) n = depth ds n"
proof (induction cs)
  case (Cons c cs)
  then show ?case by (cases c) (auto simp: is_nesting_def)
qed simp

lemma depth_append: "depth (cs @ ds) n = Option.bind (depth cs n) (depth ds)"
  by (induction cs n rule: depth.induct) (auto split: nat.split)

lemma tracePath_flat: "c \<in> set (tracePath pts) \<Longrightarrow> \<not> is_nesting c"
  by (auto simp: tracePath_def is_nesting_def split: list.splits)

lemma drawPolygon_flat: "c \<in> set (drawPolygon cfg sel en pts) \<Longrightarrow> \<not> is_nesting c"
  by (auto simp: drawPolygon_def is_nesting_def dest: tracePath_flat [unfolded is_nesting_def])

lemma drawHandles_flat: "c \<in> set (drawHandles v cfg i pts) \<Longrightarrow> \<not> is_nesting c"
  by (auto simp: drawHandles_def is_nesting_def Let_def)

lemma drawLabel_flat: "c \<in> set (drawLabel tw cfg n pts) \<Longrightarrow> \<not> is_nesting c"
  by (auto simp: drawLabel_def is_nesting_def Let_def)

lemma drawDraft_flat: "c \<in> set (drawDraft v w h) \<Longrightarrow> \<not> is_nesting c"
  by (auto simp: drawDraft_def is_nesting_def Let_def dest: tracePath_flat [unfolded is_nesting_def] split: if_splits)

lemma drawBackground_flat: "drawBackground v w h = Some cs \<Longrightarrow> c \<in> set cs \<Longrightarrow> \<not> is_nesting c"
  by (auto simp: drawBackground_def is_nesting_def split: if_splits bind_splits)

lemma drawZone_balanced: "depth (drawZone tw v w h i z) n = Some n"
proof -
  let ?pts = "map (scale w h) (zl_region z)" and ?cfg = "zoneConfig (vc_ruleTypes v) (zl_rule_type z)"
  let ?sel = "Some (zl_id z) = vc_selectedZoneId v"
  let ?tail = "(if ?sel then drawHandles v ?cfg i ?pts else []) @ drawLabel tw ?cfg (zl_name z) ?pts @ [Restore]"
  have "\<forall>c\<in>set ((if ?sel then drawHandles v ?cfg i ?pts else []) @ drawLabel tw ?cfg (zl_name z) ?pts).
      \<not> is_nesting c"
    by (auto dest: drawHandles_flat drawLabel_flat)
  from depth_flat [OF this, of "[Restore]"] have tail: "depth ?tail (Suc n) = Some n" by simp
  let ?line = "zl_rule_type z = ''linecross'' \<and> length ?pts = 2"
  let ?body = "if ?line then drawLine ?cfg ?sel (?pts ! 0) (?pts ! 1) else drawPolygon ?cfg ?sel (zl_enabled z) ?pts"
  have "depth (?body @ ?tail) (Suc n) = Some n"
  proof (cases ?line)
    case True
    have "depth (drawLine ?cfg ?sel p q @ ?tail) (Suc n) = Some n" for p q
      using tail by (simp add: drawLine_def)
    then show ?thesis unfolding if_P [OF True] .
  next
    case False
    have "\<forall>c\<in>set (drawPolygon ?cfg ?sel (zl_enabled z) ?pts). \<not> is_nesting c"
      by (blast dest: drawPolygon_flat)
    from depth_flat [OF this] tail show ?thesis unfolding if_not_P [OF False] by (simp only:)
  qed
  then show ?thesis by (auto simp only: drawZone_def Let_def append_Cons append_Nil depth.simps split: if_split)
qed

lemma depth_concat: "\<forall>cs\<in>set css. \<forall>n. depth cs n = Some n \<Longrightarrow> depth (concat css) n = Some n"
  by (induction css) (simp_all add: depth_append)

lemma gridLoop_end: "w < g \<Longrightarrow> gridLoop g w d = Some []"
  by (subst gridLoop.simps) simp

lemma gridLoop_steps:
  assumes "0 < d" and "k \<le> n"
  shows "gridLoop (of_nat k * d) (of_nat n * d) d = Some (map (\<lambda>i. of_nat i * d) [k..<Suc n])"
  using assms(2)
proof (induction "n - k" arbitrary: k)
  case 0
  then have "k = n" by simp
  have "gridLoop (of_nat n * d + d) (of_nat n * d) d = Some []"
    using assms(1) by (intro gridLoop_end) simp
  then show ?case unfolding \<open>k = n\<close> by (subst gridLoop.simps) simp
next
  case (Suc m)
  then have k: "k < n" by simp
  have "gridLoop (of_nat (Suc k) * d) (of_nat n * d) d = Some (map (\<lambda>i. of_nat i * d) [Suc k..<Suc n])"
    using Suc k by (intro Suc.hyps(1)) simp_all
  moreover have "of_nat (Suc k) * d = of_nat k * d + d" by (simp add: algebra_simps)
  moreover have "(of_nat k :: number) * d \<le> of_nat n * d" using k assms(1) by simp
  ultimately show ?case using k by (subst gridLoop.simps) (simp add: upt_conv_Cons)
qed

lemma gridLoop_total: "0 < w \<Longrightarrow> 0 < n \<Longrightarrow>
  gridLoop 0 w (w / of_nat n) = Some (map (\<lambda>i. of_nat i * (w / of_nat n)) [0..<Suc n])"
  using gridLoop_steps [of "w / of_nat n" 0 n] by simp

section \<open>Properties\<close>

text \<open>On a canvas of positive size the draw loop finishes, and the states it saves are all
  restored: the transparency of a disabled zone and the rotation of a line's arrow never leak into
  what is drawn next.\<close>

theorem render_balanced:
  assumes "vc_canvas v = Some c" and "0 < cv_width c" and "0 < cv_height c"
  shows "\<exists>cmds. render tw v = Some cmds \<and> depth cmds 0 = Some 0"
proof -
  let ?w = "cv_width c" and ?h = "cv_height c"
  have "drawBackground v ?w ?h \<noteq> None"
    using gridLoop_total [OF assms(2), of 8] gridLoop_total [OF assms(3), of 6]
    by (simp add: drawBackground_def)
  then obtain bg where bg: "drawBackground v ?w ?h = Some bg" by blast
  let ?zs = "concat (map (\<lambda>(i, z). drawZone tw v ?w ?h i z) (enumerate 0 (vc_zones v)))"
  have "depth (?zs @ drawDraft v ?w ?h) 0 = depth (drawDraft v ?w ?h) 0"
    unfolding depth_append by (subst depth_concat) (auto simp: drawZone_balanced)
  also have "\<dots> = Some 0"
    using depth_flat [of "drawDraft v ?w ?h" "[]" 0] drawDraft_flat by auto
  finally have "depth (bg @ ?zs @ drawDraft v ?w ?h) 0 = Some 0"
    using depth_flat [of bg] drawBackground_flat [OF bg] by auto
  then show ?thesis using assms(1) bg by (simp add: render_def Let_def)
qed

definition canvas_fixture :: Canvas where
  "canvas_fixture = \<lparr>cv_width = 640, cv_height = 360, cv_rect_left = 0, cv_rect_top = 0,
     cv_rect_width = 320, cv_rect_height = 180\<rparr>"

definition zone_fixture :: "id \<Rightarrow> ZoneLike" where
  "zone_fixture i = \<lparr>zl_id = i, zl_rule_type = ''intrusion'', zl_name = ''Yard'', zl_enabled = True,
     zl_region = [\<lparr>cp_x = 0, cp_y = 0\<rparr>, \<lparr>cp_x = 1/2, cp_y = 0\<rparr>, \<lparr>cp_x = 1/2, cp_y = 1/2\<rparr>, \<lparr>cp_x = 0, cp_y = 1/2\<rparr>]\<rparr>"

definition editor_fixture :: VCACanvas where
  "editor_fixture = \<lparr>vc_canvas = Some canvas_fixture, vc_img = False, vc_ruleTypes = RULE_TYPES,
     vc_zones = [zone_fixture ''z1'', zone_fixture ''z2''], vc_drawMode = Idle, vc_activeRuleType = ''intrusion'',
     vc_draftPoints = [], vc_selectedZoneId = None, vc_hoveredVertex = None, vc_draggingVertex = None,
     vc_isDragging = False\<rparr>"

theorem render_balanced_witness: "\<exists>cmds. render (\<lambda>s. 40) editor_fixture = Some cmds \<and> depth cmds 0 = Some 0"
  by (rule render_balanced [of editor_fixture canvas_fixture])
     (simp_all add: editor_fixture_def canvas_fixture_def)

lemma toNormalized_unit:
  "0 \<le> cp_x (toNormalized v e) \<and> cp_x (toNormalized v e) \<le> 1 \<and>
   0 \<le> cp_y (toNormalized v e) \<and> cp_y (toNormalized v e) \<le> 1"
  by (simp add: toNormalized_def split: option.split)

lemma onClick_idle:
  assumes "vc_canvas v = Some c" and "0 < cv_width c" and "0 < cv_height c"
    and "vc_drawMode v = Idle" and "vc_draggingVertex v = None"
  shows "onClick v e = [ZoneSelect (map_option zl_id
    (List.find (\<lambda>z. pointInPolygon (cp_x (toNormalized v e)) (cp_y (toNormalized v e)) (zl_region z)) (rev (vc_zones v))))]"
  using assms by (simp add: onClick_def Let_def pointInPolygon_scale split: option.split)

text \<open>A click in idle mode selects the topmost zone (the last in drawing order) that contains
  the clicked point in normalised coordinates, whatever the canvas's pixel size, and deselects
  when there is none. A zone of two points, which is what a line-crossing rule is, is never
  selected.\<close>

theorem click_selects_topmost:
  assumes "vc_canvas v = Some c" and "0 < cv_width c" and "0 < cv_height c"
    and "vc_drawMode v = Idle" and "vc_draggingVertex v = None"
  shows "\<exists>sel. onClick v e = [ZoneSelect (map_option zl_id sel)] \<and>
    (case sel of
       None \<Rightarrow> \<forall>z\<in>set (vc_zones v). \<not> pointInPolygon (cp_x (toNormalized v e)) (cp_y (toNormalized v e)) (zl_region z)
     | Some z \<Rightarrow> pointInPolygon (cp_x (toNormalized v e)) (cp_y (toNormalized v e)) (zl_region z) \<and>
         length (zl_region z) \<noteq> 2 \<and>
         (\<exists>below above. vc_zones v = below @ [z] @ above \<and>
            (\<forall>y\<in>set above. \<not> pointInPolygon (cp_x (toNormalized v e)) (cp_y (toNormalized v e)) (zl_region y))))"
proof -
  let ?hit = "\<lambda>z. pointInPolygon (cp_x (toNormalized v e)) (cp_y (toNormalized v e)) (zl_region z)"
  let ?sel = "List.find ?hit (rev (vc_zones v))"
  have two: "length (zl_region z) \<noteq> 2" if "?hit z" for z
  proof
    assume "length (zl_region z) = 2"
    then obtain p q where "zl_region z = [p, q]" by (auto simp: length_Suc_conv numeral_2_eq_2)
    then show False using that by (simp add: pointInPolygon_line)
  qed
  show ?thesis
  proof (cases ?sel)
    case None
    then show ?thesis using onClick_idle [OF assms, of e] by (intro exI [of _ None]) (simp add: find_None_iff2)
  next
    case (Some z)
    then obtain i where i: "i < length (vc_zones v)" "?hit (rev (vc_zones v) ! i)" "z = rev (vc_zones v) ! i"
      "\<forall>j<i. \<not> ?hit (rev (vc_zones v) ! j)"
      by (auto simp: find_Some_iff)
    let ?r = "rev (vc_zones v)"
    have "?r = take i ?r @ ?r ! i # drop (Suc i) ?r" using i(1) by (simp add: id_take_nth_drop)
    then have "vc_zones v = rev (drop (Suc i) ?r) @ [z] @ rev (take i ?r)"
      unfolding i(3) by (metis append_assoc rev.simps(2) rev_append rev_rev_ident)
    moreover have "\<forall>y\<in>set (rev (take i ?r)). \<not> ?hit y"
      using i(1,4) by (auto simp: in_set_conv_nth)
    ultimately have split: "\<exists>below above. vc_zones v = below @ [z] @ above \<and> (\<forall>y\<in>set above. \<not> ?hit y)"
      by blast
    have "?hit z" using i(2,3) by simp
    with split onClick_idle [OF assms, of e] Some two show ?thesis
      by (intro exI [of _ "Some z"]) simp
  qed
qed


theorem click_selects_topmost_witness:
  "onClick editor_fixture \<lparr>me_clientX = 80, me_clientY = 45\<rparr> = [ZoneSelect (Some ''z2'')]"
proof -
  let ?e = "\<lparr>me_clientX = 80, me_clientY = 45\<rparr> :: MouseEvent"
  have pt: "toNormalized editor_fixture ?e = \<lparr>cp_x = 1/4, cp_y = 1/4\<rparr>"
    by (simp add: toNormalized_def editor_fixture_def canvas_fixture_def)
  have hit: "pointInPolygon (1/4) (1/4) (zl_region (zone_fixture i))" for i
    by (simp add: zone_fixture_def pointInPolygon_def crosses_def upt_rec)
  have zones: "vc_zones editor_fixture = [zone_fixture ''z1'', zone_fixture ''z2'']"
    by (simp add: editor_fixture_def)
  have hyps: "vc_canvas editor_fixture = Some canvas_fixture" "0 < cv_width canvas_fixture"
      "0 < cv_height canvas_fixture" "vc_drawMode editor_fixture = Idle" "vc_draggingVertex editor_fixture = None"
    by (simp_all add: editor_fixture_def canvas_fixture_def)
  from click_selects_topmost [OF hyps, of ?e] obtain sel where
    sel: "onClick editor_fixture ?e = [ZoneSelect (map_option zl_id sel)]"
    "case sel of None \<Rightarrow> \<forall>z\<in>set (vc_zones editor_fixture). \<not> pointInPolygon (1/4) (1/4) (zl_region z)
     | Some z \<Rightarrow> pointInPolygon (1/4) (1/4) (zl_region z) \<and> length (zl_region z) \<noteq> 2 \<and>
         (\<exists>below above. vc_zones editor_fixture = below @ [z] @ above \<and>
           (\<forall>y\<in>set above. \<not> pointInPolygon (1/4) (1/4) (zl_region y)))"
    unfolding pt CanvasPoint.simps by blast
  from sel(2) hit zones have "sel = Some (zone_fixture ''z2'')"
    by (auto simp: append_eq_Cons_conv Cons_eq_append_conv split: option.splits)
  then show ?thesis using sel(1) by (simp add: zone_fixture_def)
qed

definition unit_point :: "CanvasPoint \<Rightarrow> bool" where
  "unit_point p \<longleftrightarrow> 0 \<le> cp_x p \<and> cp_x p \<le> 1 \<and> 0 \<le> cp_y p \<and> cp_y p \<le> 1"

text \<open>Whatever finishes a drawing (a click near the first vertex, the second point of a line, a
  double click), the completed polygon has at least as many points as its type needs, and all of
  them lie in the unit square if the draft's did; the same holds for a point added to the draft and
  for a dragged vertex. This is so for both catalogues of zone types.\<close>

theorem completed_polygon_valid:
  assumes "vc_ruleTypes v \<in> {RULE_TYPES, PPE_ZONE_TYPES}" and "\<forall>p\<in>set (vc_draftPoints v). unit_point p"
    and "call \<in> set (onClick v e) \<union> set (onDoubleClick v) \<union> set (onMouseMove v e)"
  shows "case call of
      PolygonComplete pts \<Rightarrow>
        rt_minPoints (zoneConfig (vc_ruleTypes v) (vc_activeRuleType v)) \<le> length pts \<and>
        2 \<le> length pts \<and> (\<forall>p\<in>set pts. unit_point p)
    | DraftPointAdd p \<Rightarrow> unit_point p
    | VertexMove z i p \<Rightarrow> unit_point p
    | _ \<Rightarrow> True"
proof -
  let ?min = "rt_minPoints (zoneConfig (vc_ruleTypes v) (vc_activeRuleType v))"
  have min: "?min = 2 \<or> ?min = 3"
    using assms(1) vca_rules.config_minPoints [of "vc_activeRuleType v"]
      ppe_zones.config_minPoints [of "vc_activeRuleType v"] by auto
  have pt: "unit_point (toNormalized v e)"
    using toNormalized_unit [of v e] by (simp add: unit_point_def)
  from assms(3) consider "call \<in> set (onClick v e)" | "call \<in> set (onDoubleClick v)" | "call \<in> set (onMouseMove v e)"
    by blast
  then show ?thesis
  proof cases
    case 1
    with assms(2) min pt show ?thesis
      by (auto simp: onClick_def Let_def split: if_splits DrawMode.splits option.splits)
  next
    case 2
    with assms(2) min show ?thesis
      by (auto simp: onDoubleClick_def Let_def split: if_splits)
  next
    case 3
    with pt show ?thesis by (auto simp: onMouseMove_def split: option.splits)
  qed
qed

theorem completed_polygon_valid_witness:
  "let v = editor_fixture\<lparr>vc_drawMode := Drawing, vc_activeRuleType := ''linecross'',
             vc_draftPoints := [\<lparr>cp_x = 0, cp_y = 0\<rparr>]\<rparr>;
       e = \<lparr>me_clientX = 320, me_clientY = 180\<rparr>
   in onClick v e = [PolygonComplete [\<lparr>cp_x = 0, cp_y = 0\<rparr>, \<lparr>cp_x = 1, cp_y = 1\<rparr>]] \<and>
      rt_minPoints (zoneConfig (vc_ruleTypes v) (vc_activeRuleType v)) \<le> 2"
proof -
  let ?v = "editor_fixture\<lparr>vc_drawMode := Drawing, vc_activeRuleType := ''linecross'',
             vc_draftPoints := [\<lparr>cp_x = 0, cp_y = 0\<rparr>]\<rparr>"
  let ?e = "\<lparr>me_clientX = 320, me_clientY = 180\<rparr> :: MouseEvent"
  let ?call = "PolygonComplete [\<lparr>cp_x = 0, cp_y = 0\<rparr>, \<lparr>cp_x = 1, cp_y = 1\<rparr>]"
  have click: "onClick ?v ?e = [?call]"
    by (simp add: onClick_def toNormalized_def editor_fixture_def canvas_fixture_def zoneConfig_def
        RULE_TYPES_def rule_type_def)
  have "vc_ruleTypes ?v \<in> {RULE_TYPES, PPE_ZONE_TYPES}" "\<forall>p\<in>set (vc_draftPoints ?v). unit_point p"
    by (simp_all add: editor_fixture_def unit_point_def)
  from completed_polygon_valid [OF this, of ?call ?e] click
  have "rt_minPoints (zoneConfig (vc_ruleTypes ?v) (vc_activeRuleType ?v)) \<le> 2"
    by (simp add: numeral_2_eq_2)
  with click show ?thesis by (simp add: Let_def)
qed

text \<open>The guard that is to suppress the click after a vertex drag has no effect: a browser
  delivers the click after the mouse-up, whose handler has already cleared the drag, so in idle mode
  every drag ends with a zone being selected or deselected.\<close>

theorem click_after_drag_not_suppressed:
  assumes "vc_drawMode v = Idle" and "vc_canvas v \<noteq> None"
  shows "\<exists>sel. onClick (fst (onMouseUp v)) e = [ZoneSelect sel]"
  using assms by (auto simp: onMouseUp_def onClick_def Let_def split: option.split)

theorem click_after_drag_not_suppressed_witness:
  "\<exists>sel. onClick (fst (onMouseUp (editor_fixture\<lparr>vc_draggingVertex := Some (''z1'', 0)\<rparr>)))
     \<lparr>me_clientX = 300, me_clientY = 170\<rparr> = [ZoneSelect sel]"
  by (rule click_after_drag_not_suppressed) (simp_all add: editor_fixture_def)

lemma paint_path: "fold paint (tracePath pts) c = c\<lparr>cx_path := cx_path c @ tracePath pts\<rparr>"
proof -
  have lines: "fold paint (map (\<lambda>q. LineTo (cp_x q) (cp_y q)) ps) c =
      c\<lparr>cx_path := cx_path c @ map (\<lambda>q. LineTo (cp_x q) (cp_y q)) ps\<rparr>" for ps c
    by (induction ps arbitrary: c) simp_all
  show ?thesis by (cases pts) (simp_all add: tracePath_def lines)
qed

text \<open>The label's background is filled together with the zone: no path is begun before the
  rounded rectangle, so for every unselected polygon zone the fill in 75% black applies to the zone's
  outline as well as to the label box.\<close>

theorem label_fill_covers_zone:
  assumes "zl_rule_type z \<noteq> ''linecross''" and "2 \<le> length (zl_region z)"
    and "Some (zl_id z) \<noteq> vc_selectedZoneId v"
  shows "\<exists>box. (''rgba(0,0,0,0.75)'', tracePath (map (scale w h) (zl_region z)) @ [ClosePath, box])
    \<in> set (cx_fills (fold paint (drawZone tw v w h i z) c))"
  using assms by (auto simp: drawZone_def drawPolygon_def drawLabel_def Let_def paint_path)

theorem label_fill_covers_zone_witness:
  "\<exists>box. (''rgba(0,0,0,0.75)'', tracePath (map (scale 640 360) (zl_region (zone_fixture ''z1''))) @ [ClosePath, box])
     \<in> set (cx_fills (fold paint (drawZone (\<lambda>s. 40) editor_fixture 640 360 0 (zone_fixture ''z1''))
          \<lparr>cx_path = [], cx_fillStyle = [], cx_saved = [], cx_fills = []\<rparr>))"
  by (rule label_fill_covers_zone) (simp_all add: zone_fixture_def editor_fixture_def)

end
