(* ===== verification/Http_Client.thy ===== *)
theory Http_Client
  imports Url
begin

text \<open>
  The authenticated fetch wrapper of \<^verbatim>\<open>frontend/src/lib/api.ts\<close> (\<^verbatim>\<open>getCSRFToken\<close>,
  \<^verbatim>\<open>bootstrapCSRFToken\<close>, \<^verbatim>\<open>authFetch\<close>), and the two parts of the Go server it speaks to when it
  handles CSRF tokens, \<^verbatim>\<open>CSRFMiddleware\<close> and \<^verbatim>\<open>HandleCSRF\<close> of \<^verbatim>\<open>internal/api/auth_handler.go\<close>.

  The world of an API call is the browser (script-readable cookies, location, whether there is a
  document), the server and the log of the requests sent so far. The server is a function from the
  cookies the browser attaches, the log and the request to a reply, so it may keep any state; an API
  function maps a world to a world and a result. A reply without a response is a network failure.
\<close>

section \<open>Requests and worlds\<close>

type_synonym headers = "(string \<times> string) list"

datatype body =
    No_body
  | Json_body json
  | Form_body "(string \<times> string) list"

record Request =
  rq_method :: string
  rq_url :: string
  rq_headers :: headers
  rq_body :: body
  rq_credentials :: bool

record Response =
  rs_status :: nat
  rs_statusText :: string
  rs_text :: string
  rs_json :: "json option"

record Reply =
  rp_response :: "Response option"
  rp_cookies :: "(string \<times> string) list"

type_synonym jar = "(string \<times> string) list"
type_synonym server = "jar \<Rightarrow> Request list \<Rightarrow> Request \<Rightarrow> Reply"

record World =
  wd_server :: server
  wd_jar :: jar
  wd_document :: bool
  wd_location :: string
  wd_log :: "Request list"

type_synonym 'a io = "World \<Rightarrow> World \<times> 'a result"

definition bind_io :: "'a io \<Rightarrow> ('a \<Rightarrow> 'b io) \<Rightarrow> 'b io" where
  "bind_io m f = (\<lambda>w. case m w of (w', Inl e) \<Rightarrow> (w', Inl e) | (w', Inr x) \<Rightarrow> f x w')"

definition return_io :: "'a \<Rightarrow> 'a io" where
  "return_io x = (\<lambda>w. (w, Inr x))"

definition throw_io :: "string \<Rightarrow> 'a io" where
  "throw_io m = (\<lambda>w. (w, throw m))"

text \<open>\<^verbatim>\<open>try { ... } catch { ... }\<close>.\<close>

definition try_io :: "'a io \<Rightarrow> 'a io \<Rightarrow> 'a io" where
  "try_io m h = (\<lambda>w. case m w of (w', Inl e) \<Rightarrow> h w' | r \<Rightarrow> r)"

definition ok :: "Response \<Rightarrow> bool" where
  "ok r \<longleftrightarrow> 200 \<le> rs_status r \<and> rs_status r \<le> 299"

text \<open>\<^verbatim>\<open>res.json()\<close>.\<close>

definition res_json :: "Response \<Rightarrow> json io" where
  "res_json r = (case rs_json r of None \<Rightarrow> throw_io ''Unexpected token in JSON'' | Some j \<Rightarrow> return_io j)"

text \<open>A response may set cookies; a later one replaces an earlier one of the same name.\<close>

fun set_cookie :: "string \<times> string \<Rightarrow> jar \<Rightarrow> jar" where
  "set_cookie (n, v) [] = [(n, v)]"
| "set_cookie (n, v) ((m, u) # js) = (if m = n then (n, v) # js else (m, u) # set_cookie (n, v) js)"

definition send :: "Request \<Rightarrow> Response io" where
  "send req = (\<lambda>w.
     let reply = wd_server w (wd_jar w) (wd_log w) req;
         w' = w\<lparr> wd_log := wd_log w @ [req],
                 wd_jar := fold set_cookie (rp_cookies reply) (wd_jar w) \<rparr>
     in case rp_response reply of
          None \<Rightarrow> (w', throw ''Failed to fetch'')
        | Some r \<Rightarrow> (w', Inr r))"

section \<open>CSRF tokens\<close>

text \<open>\<^verbatim>\<open>document.cookie\<close>, and \<^verbatim>\<open>split\<close> at the two-character separator of its entries.\<close>

definition document_cookie :: "World \<Rightarrow> string" where
  "document_cookie w = join ''; '' (map (\<lambda>(n, v). n @ ''='' @ v) (wd_jar w))"

fun split_entries :: "string \<Rightarrow> string list" where
  "split_entries [] = [[]]"
| "split_entries [c] = [[c]]"
| "split_entries (c # d # s) =
     (if c = CHR '';'' \<and> d = CHR '' '' then [] # split_entries s
      else (case split_entries (d # s) of [] \<Rightarrow> [[c]] | x # xs \<Rightarrow> (c # x) # xs))"

definition csrf_cookie :: string where
  "csrf_cookie = ''ironsight_csrf''"

definition getCSRFToken :: "World \<Rightarrow> string" where
  "getCSRFToken w =
     (if \<not> wd_document w then []
      else (case List.find (starts_with (csrf_cookie @ ''='')) (split_entries (document_cookie w)) of
          None \<Rightarrow> []
        | Some pair \<Rightarrow> split_at_char (CHR ''='') pair ! 1))"

definition csrf_request :: Request where
  "csrf_request = \<lparr> rq_method = ''GET'', rq_url = ''/api/auth/csrf'', rq_headers = [], rq_body = No_body,
     rq_credentials = True \<rparr>"

text \<open>\<^verbatim>\<open>data && typeof data.csrf_token === 'string'\<close>.\<close>

definition json_field :: "string \<Rightarrow> json \<Rightarrow> json option" where
  "json_field k j = (case j of JObj fs \<Rightarrow> map_of fs k | _ \<Rightarrow> None)"

definition bootstrapCSRFToken :: "string io" where
  "bootstrapCSRFToken =
     try_io
       (bind_io (send csrf_request) (\<lambda>res.
          if \<not> ok res then return_io []
          else (\<lambda>w. case Option.bind (rs_json res) (json_field ''csrf_token'') of
                 Some (JStr t) \<Rightarrow> (w, Inr t)
               | _ \<Rightarrow> (w, Inr (getCSRFToken w)))))
       (return_io [])"

section \<open>authFetch\<close>

record RequestInit =
  ri_method :: "string option"
  ri_headers :: headers
  ri_body :: body

text \<open>\<^verbatim>\<open>Headers.set\<close>: names are compared without regard to case.\<close>

definition header_set :: "string \<Rightarrow> string \<Rightarrow> headers \<Rightarrow> headers" where
  "header_set k v hs = filter (\<lambda>h. to_lower (fst h) \<noteq> to_lower k) hs @ [(k, v)]"

definition header_get :: "string \<Rightarrow> headers \<Rightarrow> string" where
  "header_get k hs = (case List.find (\<lambda>h. to_lower (fst h) = to_lower k) hs of None \<Rightarrow> [] | Some h \<Rightarrow> snd h)"

lemma header_get_set: "header_get k (header_set k v hs) = v"
proof -
  have "List.find (\<lambda>h. to_lower (fst h) = to_lower k) (header_set k v hs) = Some (k, v)"
    unfolding header_set_def by (induction hs) auto
  then show ?thesis by (simp add: header_get_def)
qed

definition request_method :: "RequestInit \<Rightarrow> string" where
  "request_method init = to_upper (nullish (ri_method init) ''GET'')"

definition isMutation :: "RequestInit \<Rightarrow> bool" where
  "isMutation init = (request_method init \<noteq> ''GET'' \<and> request_method init \<noteq> ''HEAD'' \<and>
     request_method init \<noteq> ''OPTIONS'')"

definition buildHeaders :: "RequestInit \<Rightarrow> string \<Rightarrow> headers" where
  "buildHeaders init csrf =
     (if isMutation init \<and> csrf \<noteq> [] then header_set ''X-CSRF-Token'' csrf (ri_headers init)
      else ri_headers init)"

definition build_request :: "string \<Rightarrow> RequestInit \<Rightarrow> string \<Rightarrow> Request" where
  "build_request input init csrf = \<lparr> rq_method = nullish (ri_method init) ''GET'', rq_url = input,
     rq_headers = buildHeaders init csrf, rq_body = ri_body init, rq_credentials = True \<rparr>"

text \<open>The last step: a 401 sends the browser to the login page.\<close>

definition redirect_on_401 :: "Response \<Rightarrow> Response io" where
  "redirect_on_401 res = (\<lambda>w.
     (if rs_status res = 401 \<and> wd_document w then w\<lparr>wd_location := ''/login''\<rparr> else w, Inr res))"

definition authFetch :: "string \<Rightarrow> RequestInit \<Rightarrow> Response io" where
  "authFetch input init =
     bind_io (\<lambda>w. if isMutation init \<and> getCSRFToken w = [] then bootstrapCSRFToken w
                  else (w, Inr (getCSRFToken w))) (\<lambda>csrf.
     bind_io (send (build_request input init csrf)) (\<lambda>res.
     bind_io (if isMutation init \<and> rs_status res = 403
              then bind_io bootstrapCSRFToken (\<lambda>fresh.
                     if fresh \<noteq> [] \<and> fresh \<noteq> csrf then send (build_request input init fresh)
                     else return_io res)
              else return_io res)
       redirect_on_401))"

lemmas io_defs = bind_io_def return_io_def throw_io_def try_io_def


subsection \<open>What a call changes\<close>

text \<open>From \<open>w\<close> to \<open>w'\<close> exactly the requests \<open>qs\<close> were sent; only the log and the cookies changed.\<close>

definition sends :: "World \<Rightarrow> Request list \<Rightarrow> World \<Rightarrow> bool" where
  "sends w qs w' \<longleftrightarrow> wd_log w' = wd_log w @ qs \<and> wd_server w' = wd_server w \<and>
     wd_document w' = wd_document w \<and> wd_location w' = wd_location w"

lemma sends_refl [simp]: "sends w [] w"
  by (simp add: sends_def)

lemma sends_trans: "sends w qs w' \<Longrightarrow> sends w' qs' w'' \<Longrightarrow> sends w (qs @ qs') w''"
  by (simp add: sends_def)

lemma send_sends: "send req w = (w', r) \<Longrightarrow> sends w [req] w'"
  by (auto simp: send_def sends_def Let_def split: option.splits)

lemma bootstrap_sends:
  "\<exists>w' t. bootstrapCSRFToken w = (w', Inr t) \<and> sends w [csrf_request] w'"
proof -
  obtain w1 r where r: "send csrf_request w = (w1, r)" by fastforce
  then have "sends w [csrf_request] w1" by (rule send_sends)
  with r show ?thesis
    by (auto simp: bootstrapCSRFToken_def io_defs split: sum.split option.split json.split)
qed

lemma initial_token_sends:
  obtains w1 t qs where
    "(if isMutation init \<and> getCSRFToken w = [] then bootstrapCSRFToken w else (w, Inr (getCSRFToken w))) = (w1, Inr t)"
    "sends w qs w1" "qs = [] \<or> isMutation init \<and> qs = [csrf_request]"
proof (cases "isMutation init \<and> getCSRFToken w = []")
  case True
  obtain w' t where "bootstrapCSRFToken w = (w', Inr t)" "sends w [csrf_request] w'"
    using bootstrap_sends by blast
  with True show thesis by (intro that [of w' t "[csrf_request]"]) simp_all
next
  case False
  then show thesis by (intro that [of w "getCSRFToken w" "[]"]) auto
qed

text \<open>All runs of \<^const>\<open>authFetch\<close>: the request is sent once, or a second time with another token after a
  403 and a fresh bootstrap.\<close>

lemma authFetch_runs:
  obtains w1 t qs where
    "sends w qs w1" "qs = [] \<or> isMutation init \<and> qs = [csrf_request]"
    "authFetch input init w =
       bind_io (send (build_request input init t)) (\<lambda>res.
         bind_io (if isMutation init \<and> rs_status res = 403
                  then bind_io bootstrapCSRFToken (\<lambda>fresh.
                         if fresh \<noteq> [] \<and> fresh \<noteq> t then send (build_request input init fresh)
                         else return_io res)
                  else return_io res) redirect_on_401) w1"
proof -
  obtain w1 t qs where
    "(if isMutation init \<and> getCSRFToken w = [] then bootstrapCSRFToken w else (w, Inr (getCSRFToken w))) = (w1, Inr t)"
    "sends w qs w1" "qs = [] \<or> isMutation init \<and> qs = [csrf_request]"
    by (rule initial_token_sends)
  then show thesis by (intro that [of qs w1 t]) (simp_all add: authFetch_def bind_io_def)
qed

lemma authFetch_sends:
  obtains toks sent w2 r where
    "sends w sent w2" "1 \<le> length toks" "length toks \<le> 2" "distinct toks"
    "filter (\<lambda>q. q \<noteq> csrf_request \<or> \<not> isMutation init) sent = map (build_request input init) toks"
    "isMutation init \<or> length sent = 1" "length sent \<le> 4"
    "authFetch input init w =
      (case r of Inl e \<Rightarrow> (w2, Inl e) | Inr res \<Rightarrow> redirect_on_401 res w2)"
proof -
  obtain w1 t qs where w1: "sends w qs w1" "qs = [] \<or> isMutation init \<and> qs = [csrf_request]"
    and run: "authFetch input init w =
       bind_io (send (build_request input init t)) (\<lambda>res.
         bind_io (if isMutation init \<and> rs_status res = 403
                  then bind_io bootstrapCSRFToken (\<lambda>fresh.
                         if fresh \<noteq> [] \<and> fresh \<noteq> t then send (build_request input init fresh)
                         else return_io res)
                  else return_io res) redirect_on_401) w1"
    by (rule authFetch_runs)
  let ?req = "build_request input init"
  have ne: "isMutation init \<Longrightarrow> ?req x \<noteq> csrf_request" for x
    by (auto simp: build_request_def csrf_request_def isMutation_def request_method_def upper_char_def)
  let ?keep = "\<lambda>q. q \<noteq> csrf_request \<or> \<not> isMutation init"
  have qs: "filter ?keep qs = []" "length qs \<le> 1" "isMutation init \<or> qs = []" using w1(2) by auto
  obtain w2 r where r: "send (?req t) w1 = (w2, r)" by fastforce
  from sends_trans [OF w1(1) send_sends [OF r]] have s2: "sends w (qs @ [?req t]) w2" .
  have one: "filter ?keep (qs @ [?req t]) = map ?req [t]" "length (qs @ [?req t]) \<le> 4"
      "isMutation init \<or> length (qs @ [?req t]) = 1"
    using qs ne by auto
  show thesis
  proof (cases "\<exists>res. r = Inr res \<and> isMutation init \<and> rs_status res = 403")
    case False
    then have "authFetch input init w = (case r of Inl e \<Rightarrow> (w2, Inl e) | Inr res \<Rightarrow> redirect_on_401 res w2)"
      unfolding run by (auto simp: bind_io_def return_io_def r split: sum.split)
    with s2 one show thesis by (intro that [of "qs @ [?req t]" w2 "[t]" r]) simp_all
  next
    case True
    then obtain res where res: "r = Inr res" "isMutation init" "rs_status res = 403" by blast
    obtain w3 f where b: "bootstrapCSRFToken w2 = (w3, Inr f)" "sends w2 [csrf_request] w3"
      using bootstrap_sends by blast
    from sends_trans [OF s2 b(2)] have s3: "sends w ((qs @ [?req t]) @ [csrf_request]) w3" .
    have three: "filter ?keep ((qs @ [?req t]) @ [csrf_request]) = map ?req [t]"
      using one(1) res(2) by (simp only: filter_append) simp
    show thesis
    proof (cases "f \<noteq> [] \<and> f \<noteq> t")
      case False
      then have "authFetch input init w = redirect_on_401 res w3"
        unfolding run using r res b(1) by (auto simp: bind_io_def return_io_def)
      with s3 three one res(2) qs(2) show thesis
        by (intro that [of "(qs @ [?req t]) @ [csrf_request]" w3 "[t]" "Inr res"]) simp_all
    next
      case True
      obtain w4 r' where r': "send (?req f) w3 = (w4, r')" by fastforce
      from sends_trans [OF s3 send_sends [OF r']]
      have s4: "sends w (((qs @ [?req t]) @ [csrf_request]) @ [?req f]) w4" .
      have "authFetch input init w = (case r' of Inl e \<Rightarrow> (w4, Inl e) | Inr res \<Rightarrow> redirect_on_401 res w4)"
        unfolding run using r res b(1) True r' by (simp add: bind_io_def split: sum.split)
      moreover have "filter ?keep (((qs @ [?req t]) @ [csrf_request]) @ [?req f]) = map ?req [t, f]"
        using three ne res(2) by (simp only: filter_append) simp
      ultimately show thesis
        using s4 True res(2) qs(2)
        by (intro that [of "((qs @ [?req t]) @ [csrf_request]) @ [?req f]" w4 "[t, f]" r']) auto
    qed
  qed
qed


text \<open>While the network holds, a call returns a response.\<close>

definition answers :: "server \<Rightarrow> bool" where
  "answers srv \<longleftrightarrow> (\<forall>j lg q. rp_response (srv j lg q) \<noteq> None)"

lemma send_answered: "answers (wd_server w) \<Longrightarrow> \<exists>w' r. send q w = (w', Inr r) \<and> wd_server w' = wd_server w"
  by (auto simp: answers_def send_def Let_def split: option.split)

lemma authFetch_answered:
  assumes "answers (wd_server w)"
  shows "\<exists>w' res. authFetch input init w = (w', Inr res)"
proof -
  let ?req = "build_request input init"
  obtain w1 t qs where w1: "sends w qs w1"
    and run: "authFetch input init w =
       bind_io (send (?req t)) (\<lambda>res.
         bind_io (if isMutation init \<and> rs_status res = 403
                  then bind_io bootstrapCSRFToken (\<lambda>fresh.
                         if fresh \<noteq> [] \<and> fresh \<noteq> t then send (?req fresh) else return_io res)
                  else return_io res) redirect_on_401) w1"
    by (rule authFetch_runs)
  obtain w2 r where r: "send (?req t) w1 = (w2, Inr r)" "wd_server w2 = wd_server w"
    using send_answered [of w1 "?req t"] w1 assms by (auto simp: sends_def)
  obtain w3 f where b: "bootstrapCSRFToken w2 = (w3, Inr f)" "wd_server w3 = wd_server w"
    using bootstrap_sends [of w2] r(2) by (auto simp: sends_def)
  obtain w4 r' where "send (?req f) w3 = (w4, Inr r')"
    using send_answered [of w3 "?req f"] b(2) assms by auto
  with r b show ?thesis unfolding run by (simp add: bind_io_def return_io_def redirect_on_401_def)
qed

section \<open>The server's side of the CSRF protocol\<close>

text \<open>
  What \<^const>\<open>authFetch\<close> relies on: the bootstrap endpoint hands out a non-empty token and leaves it
  in the token cookie, and a mutation that carries the cookie's token in its header is passed on to
  the API (\<open>next\<close>). Cookie values are as the server writes them, without the cookie delimiters.
\<close>

definition jar_get :: "string \<Rightarrow> jar \<Rightarrow> string" where
  "jar_get n j = (case map_of j n of None \<Rightarrow> [] | Some v \<Rightarrow> v)"

definition plain :: "string \<Rightarrow> bool" where
  "plain v \<longleftrightarrow> CHR '';'' \<notin> set v \<and> CHR ''='' \<notin> set v"

definition jar_ok :: "jar \<Rightarrow> bool" where
  "jar_ok j \<longleftrightarrow> (\<forall>(n, v)\<in>set j. plain n \<and> plain v)"

lemma split_entries_Cons:
  "c \<noteq> CHR '';'' \<Longrightarrow> split_entries (c # s) = (case split_entries s of [] \<Rightarrow> [[c]] | x # xs \<Rightarrow> (c # x) # xs)"
  by (cases s) auto

lemma split_entries_single: "CHR '';'' \<notin> set e \<Longrightarrow> split_entries e = [e]"
  by (induction e) (auto simp: split_entries_Cons)

lemma split_entries_append:
  "CHR '';'' \<notin> set e \<Longrightarrow> split_entries (e @ ''; '' @ s) = e # split_entries s"
  by (induction e) (auto simp: split_entries_Cons)

lemma split_entries_join:
  "es \<noteq> [] \<Longrightarrow> \<forall>e\<in>set es. CHR '';'' \<notin> set e \<Longrightarrow> split_entries (join ''; '' es) = es"
proof (induction "''; ''" es rule: join.induct)
  case (3 x y xs)
  then show ?case using split_entries_append [of x "join ''; '' (y # xs)"] by simp
qed (simp_all add: split_entries_single)

lemma first_separator:
  "c \<notin> set xs \<Longrightarrow> c \<notin> set xs' \<Longrightarrow> xs @ c # ys = xs' @ c # ys' \<Longrightarrow> xs = xs'"
proof (induction xs arbitrary: xs')
  case Nil
  then show ?case by (cases xs') auto
next
  case (Cons x xs)
  then show ?case by (cases xs') auto
qed

lemma entry_is_csrf:
  "CHR ''='' \<notin> set n \<Longrightarrow> starts_with (csrf_cookie @ ''='') (n @ CHR ''='' # v) \<longleftrightarrow> n = csrf_cookie"
proof
  assume n: "CHR ''='' \<notin> set n" and "starts_with (csrf_cookie @ ''='') (n @ CHR ''='' # v)"
  then obtain s where "n @ CHR ''='' # v = csrf_cookie @ CHR ''='' # s" by (auto simp: starts_with_iff)
  moreover have "CHR ''='' \<notin> set csrf_cookie" by (simp add: csrf_cookie_def)
  ultimately show "n = csrf_cookie" using n first_separator by metis
qed (simp add: starts_with_iff)

text \<open>With well-formed cookies the script reads the token cookie's value.\<close>

lemma getCSRFToken_jar:
  assumes "jar_ok (wd_jar w)" and "wd_document w"
  shows "getCSRFToken w = jar_get csrf_cookie (wd_jar w)"
proof -
  let ?e = "\<lambda>(n, v). n @ ''='' @ v"
  let ?find = "List.find (starts_with (csrf_cookie @ ''=''))"
  have found: "?find (map ?e j) = map_option (\<lambda>v. ?e (csrf_cookie, v)) (map_of j csrf_cookie)"
    if "jar_ok j" for j
    using that by (induction j) (auto simp: jar_ok_def plain_def entry_is_csrf)
  have entries: "split_entries (document_cookie w) = (if wd_jar w = [] then [[]] else map ?e (wd_jar w))"
  proof (cases "wd_jar w = []")
    case False
    have "\<forall>e\<in>set (map ?e (wd_jar w)). CHR '';'' \<notin> set e"
      using assms(1) by (auto simp: jar_ok_def plain_def)
    with False show ?thesis by (simp add: document_cookie_def split_entries_join)
  qed (simp add: document_cookie_def)
  have second: "split_at_char (CHR ''='') (csrf_cookie @ ''='' @ v) ! 1 = v" if "map_of (wd_jar w) csrf_cookie = Some v" for v
  proof -
    have "CHR ''='' \<notin> set v" using assms(1) map_of_SomeD [OF that] by (auto simp: jar_ok_def plain_def)
    then show ?thesis
      using split_at_char_append [of "CHR ''=''" csrf_cookie v]
      by (simp add: split_at_char_no_sep csrf_cookie_def)
  qed
  show ?thesis
  proof (cases "map_of (wd_jar w) csrf_cookie")
    case None
    then show ?thesis using entries found [OF assms(1)] assms(2)
      by (simp add: getCSRFToken_def jar_get_def csrf_cookie_def)
  next
    case (Some v)
    then have "wd_jar w \<noteq> []" by auto
    with Some entries found [OF assms(1)] assms(2) second [OF Some] show ?thesis
      by (simp add: getCSRFToken_def jar_get_def)
  qed
qed

locale csrf_server =
  fixes server :: server and "next" :: server
  assumes bootstrap_reply: "\<exists>r t. rp_response (server j lg csrf_request) = Some r \<and> ok r \<and>
      Option.bind (rs_json r) (json_field ''csrf_token'') = Some (JStr t) \<and> t \<noteq> [] \<and>
      jar_get csrf_cookie (fold set_cookie (rp_cookies (server j lg csrf_request)) j) = t"
    and token_accepted: "rq_method q \<notin> {''GET'', ''HEAD'', ''OPTIONS''} \<Longrightarrow>
      jar_get csrf_cookie j \<noteq> [] \<Longrightarrow> header_get ''X-CSRF-Token'' (rq_headers q) = jar_get csrf_cookie j \<Longrightarrow>
      server j lg q = next j lg q"
begin

lemma bootstrap_token:
  assumes "wd_server w = server"
  shows "\<exists>w' t. bootstrapCSRFToken w = (w', Inr t) \<and> sends w [csrf_request] w' \<and> t \<noteq> [] \<and>
    jar_get csrf_cookie (wd_jar w') = t"
proof -
  obtain w' t' where b: "bootstrapCSRFToken w = (w', Inr t')" "sends w [csrf_request] w'"
    using bootstrap_sends by blast
  obtain r t where r: "rp_response (server (wd_jar w) (wd_log w) csrf_request) = Some r" "ok r"
      "Option.bind (rs_json r) (json_field ''csrf_token'') = Some (JStr t)" "t \<noteq> []"
      "jar_get csrf_cookie (fold set_cookie (rp_cookies (server (wd_jar w) (wd_log w) csrf_request)) (wd_jar w)) = t"
    using bootstrap_reply by blast
  from b(1) r assms have "t' = t" "jar_get csrf_cookie (wd_jar w') = t"
    by (auto simp: bootstrapCSRFToken_def io_defs send_def Let_def)
  with b r(4) show ?thesis by blast
qed

lemma token_request_passes:
  assumes "wd_server w = server" and "isMutation init" and "t \<noteq> []" and "jar_get csrf_cookie (wd_jar w) = t"
    and "ri_method init = Some m" and "m = to_upper m"
  shows "send (build_request input init t) w =
    (let q = build_request input init t; reply = next (wd_jar w) (wd_log w) q;
         w' = w\<lparr>wd_log := wd_log w @ [q], wd_jar := fold set_cookie (rp_cookies reply) (wd_jar w)\<rparr>
     in case rp_response reply of None \<Rightarrow> (w', throw ''Failed to fetch'') | Some r \<Rightarrow> (w', Inr r))"
proof -
  let ?q = "build_request input init t"
  have "rq_method ?q \<notin> {''GET'', ''HEAD'', ''OPTIONS''}"
    using assms(2,5,6) by (auto simp: build_request_def isMutation_def request_method_def)
  moreover have "header_get ''X-CSRF-Token'' (rq_headers ?q) = t"
    using assms(2,3) by (simp add: build_request_def buildHeaders_def header_get_set)
  ultimately have "server (wd_jar w) (wd_log w) ?q = next (wd_jar w) (wd_log w) ?q"
    using assms(3,4) by (intro token_accepted) simp_all
  then show ?thesis by (simp only: send_def Let_def assms(1))
qed

text \<open>A mutation never fails on CSRF grounds: what the caller gets is the API's own answer to the
  request.\<close>

lemma authFetch_reaches_api:
  assumes "wd_server w = server" and "jar_ok (wd_jar w)" and "wd_document w"
    and "isMutation init" and "ri_method init = Some m" and "m = to_upper m"
    and "authFetch input init w = (w', Inr res)"
  shows "\<exists>j lg t. t \<noteq> [] \<and> rp_response (next j lg (build_request input init t)) = Some res"
proof -
  let ?req = "build_request input init"
  have tok: "\<exists>w1 t. (if isMutation init \<and> getCSRFToken w = [] then bootstrapCSRFToken w
        else (w, Inr (getCSRFToken w))) = (w1, Inr t) \<and> wd_server w1 = server \<and> t \<noteq> [] \<and>
        jar_get csrf_cookie (wd_jar w1) = t"
  proof (cases "getCSRFToken w = []")
    case True
    with bootstrap_token [OF assms(1)] assms(1,4) show ?thesis by (auto simp: sends_def)
  next
    case False
    with assms(1-3) show ?thesis by (auto simp: getCSRFToken_jar)
  qed
  have reply: "\<exists>j lg. rp_response (next j lg (?req t)) = Some x"
    if "send (?req t) v = (v', Inr x)" "wd_server v = server" "t \<noteq> []" "jar_get csrf_cookie (wd_jar v) = t" for v v' t x
    using token_request_passes [OF that(2) assms(4) that(3,4) assms(5,6), of input] that(1)
    by (auto simp: Let_def split: option.splits)
  from tok obtain w1 t where t: "(if isMutation init \<and> getCSRFToken w = [] then bootstrapCSRFToken w
        else (w, Inr (getCSRFToken w))) = (w1, Inr t)" "wd_server w1 = server" "t \<noteq> []"
        "jar_get csrf_cookie (wd_jar w1) = t" by blast
  obtain w2 r where r: "send (?req t) w1 = (w2, r)" by fastforce
  with assms(7) t(1) obtain res1 where res1: "r = Inr res1"
    by (cases r) (auto simp: authFetch_def bind_io_def)
  note first = reply [OF r [unfolded res1] t(2-4)]
  have w2: "wd_server w2 = server" using send_sends [OF r] t(2) by (simp add: sends_def)
  obtain w3 f where b: "bootstrapCSRFToken w2 = (w3, Inr f)" "sends w2 [csrf_request] w3" "f \<noteq> []"
      "jar_get csrf_cookie (wd_jar w3) = f"
    using bootstrap_token [OF w2] by blast
  have w3: "wd_server w3 = server" using b(2) w2 by (simp add: sends_def)
  obtain w4 r2 where r2: "send (?req f) w3 = (w4, r2)" by fastforce
  show ?thesis
  proof (cases "rs_status res1 = 403 \<and> f \<noteq> t")
    case False
    then have "res = res1"
      using assms(4,7) t(1) r res1 b(1)
      by (auto simp: authFetch_def bind_io_def return_io_def redirect_on_401_def split: if_splits)
    with first t(3) show ?thesis by blast
  next
    case True
    then have "r2 = Inr res"
      using assms(4,7) t(1) r res1 b(1,3) r2
      by (cases r2) (auto simp: authFetch_def bind_io_def redirect_on_401_def)
    with reply [of f w3 w4 res] r2 w3 b(3,4) show ?thesis by blast
  qed
qed

end


section \<open>The Go server\<close>

text \<open>
  \<^verbatim>\<open>generateCSRFToken\<close>, \<^verbatim>\<open>HandleCSRF\<close> and \<^verbatim>\<open>CSRFMiddleware\<close> of \<^verbatim>\<open>internal/api/auth_handler.go\<close> for an
  authenticated session. The random source \<open>rnd\<close> and the handlers behind the middleware (\<open>next\<close>) are
  parameters.
\<close>

definition lower_hex :: "nat \<Rightarrow> char" where
  "lower_hex d = (if d < 10 then char_of (48 + d) else char_of (87 + d))"

definition hexEncode :: "8 word list \<Rightarrow> string" where
  "hexEncode bs = concat (map (\<lambda>b. [lower_hex (unat b div 16), lower_hex (unat b mod 16)]) bs)"

text \<open>\<open>entropy\<close> is what \<^verbatim>\<open>rand.Read\<close> fills the 32-byte buffer with, or its error.\<close>

definition generateCSRFToken :: "8 word list option \<Rightarrow> string option" where
  "generateCSRFToken entropy = map_option hexEncode entropy"

definition json_reply :: "json \<Rightarrow> (string \<times> string) list \<Rightarrow> Reply" where
  "json_reply j cookies = \<lparr> rp_response = Some \<lparr> rs_status = 200, rs_statusText = ''OK'', rs_text = [],
     rs_json = Some j \<rparr>, rp_cookies = cookies \<rparr>"

definition error_reply :: "nat \<Rightarrow> string \<Rightarrow> Reply" where
  "error_reply status msg = \<lparr> rp_response = Some \<lparr> rs_status = status, rs_statusText = [], rs_text = msg @ [CHR 0x0A],
     rs_json = None \<rparr>, rp_cookies = [] \<rparr>"

definition HandleCSRF :: "8 word list option \<Rightarrow> jar \<Rightarrow> Reply" where
  "HandleCSRF entropy j =
     (if jar_get csrf_cookie j \<noteq> []
      then json_reply (JObj [(''csrf_token'', JStr (jar_get csrf_cookie j))]) []
      else (case generateCSRFToken entropy of
          None \<Rightarrow> error_reply 500 ''csrf token generation failed''
        | Some token \<Rightarrow> json_reply (JObj [(''csrf_token'', JStr token)]) [(csrf_cookie, token)]))"

definition is_hex :: "char \<Rightarrow> bool" where
  "is_hex c = (let n = (of_char c :: nat) in
     48 \<le> n \<and> n \<le> 57 \<or> 97 \<le> n \<and> n \<le> 102 \<or> 65 \<le> n \<and> n \<le> 70)"

definition url_path :: "string \<Rightarrow> string" where
  "url_path u = takeWhile (\<lambda>c. c \<noteq> CHR ''?'') u"

text \<open>\<^verbatim>\<open>webUIProxyPathRe\<close>: \<^verbatim>\<open>/api/cameras/<uuid>/web-ui\<close> and everything below it.\<close>

definition web_ui_path :: "string \<Rightarrow> bool" where
  "web_ui_path p =
     (starts_with ''/api/cameras/'' p \<and>
      (let r = drop 13 p; groups = split_at_char (CHR ''-'') (take 36 r); rest = drop 36 r in
       map length groups = [8, 4, 4, 4, 12] \<and> (\<forall>g\<in>set groups. \<forall>c\<in>set g. is_hex c) \<and>
       (rest = ''/web-ui'' \<or> starts_with ''/web-ui/'' rest)))"

definition CSRFMiddleware :: "server \<Rightarrow> server" where
  "CSRFMiddleware api j lg q =
     (if rq_method q \<in> {''GET'', ''HEAD'', ''OPTIONS''} then api j lg q
      else if web_ui_path (url_path (rq_url q)) then api j lg q
      else if jar_get csrf_cookie j = [] then error_reply 403 ''csrf cookie missing''
      else (let header = header_get ''X-CSRF-Token'' (rq_headers q) in
            if header = [] \<or> header \<noteq> jar_get csrf_cookie j
            then error_reply 403 ''csrf token mismatch''
            else api j lg q))"

text \<open>The server is built with Go 1.25, whose documentation says that \<^verbatim>\<open>rand.Read\<close> never returns an error:
  the random bytes \<open>rnd\<close> always come.\<close>

definition random_bytes :: "(Request list \<Rightarrow> nat \<Rightarrow> 8 word) \<Rightarrow> Request list \<Rightarrow> 8 word list option" where
  "random_bytes rnd lg = Some (map (rnd lg) [0..<32])"

definition goServer :: "(Request list \<Rightarrow> nat \<Rightarrow> 8 word) \<Rightarrow> server \<Rightarrow> server" where
  "goServer rnd api j lg q =
     (if rq_method q = ''GET'' \<and> url_path (rq_url q) = ''/api/auth/csrf'' then HandleCSRF (random_bytes rnd lg) j
      else CSRFMiddleware api j lg q)"

lemma jar_get_set_cookie: "jar_get n (set_cookie (n, v) j) = v"
  by (induction j) (auto simp: jar_get_def)

lemma generateCSRFToken_nonempty: "\<exists>t. generateCSRFToken (random_bytes rnd lg) = Some t \<and> t \<noteq> []"
  by (simp add: generateCSRFToken_def random_bytes_def hexEncode_def upt_rec)

lemma csrf_request_path: "url_path (rq_url csrf_request) = ''/api/auth/csrf''"
  by (simp add: csrf_request_def url_path_def)

interpretation go: csrf_server "goServer rnd api" api for rnd api
proof
  fix j lg
  show "\<exists>r t. rp_response (goServer rnd api j lg csrf_request) = Some r \<and> ok r \<and>
      Option.bind (rs_json r) (json_field ''csrf_token'') = Some (JStr t) \<and> t \<noteq> [] \<and>
      jar_get csrf_cookie (fold set_cookie (rp_cookies (goServer rnd api j lg csrf_request)) j) = t"
    using generateCSRFToken_nonempty [of rnd lg] csrf_request_path
    by (auto simp: goServer_def HandleCSRF_def json_reply_def ok_def json_field_def jar_get_set_cookie
        Let_def csrf_request_def)
next
  fix q :: Request and j lg
  assume "rq_method q \<notin> {''GET'', ''HEAD'', ''OPTIONS''}" "jar_get csrf_cookie j \<noteq> []"
    "header_get ''X-CSRF-Token'' (rq_headers q) = jar_get csrf_cookie j"
  then show "goServer rnd api j lg q = api j lg q"
    by (auto simp: goServer_def CSRFMiddleware_def Let_def)
qed

section \<open>Properties\<close>

text \<open>\<^verbatim>\<open>authFetch\<close> sends the caller's request once, and a mutation at most one more time, with a
  different token; besides it sends only the token request, at most twice. A request that is not a
  mutation is sent exactly once, without a token header. The browser's location changes only on a
  401, to the login page.\<close>

theorem auth_fetch_bounded:
  assumes "authFetch input init w = (w', r)"
  shows "\<exists>sent toks. wd_log w' = wd_log w @ sent \<and> length sent \<le> 4 \<and>
    1 \<le> length toks \<and> length toks \<le> 2 \<and> distinct toks \<and>
    (isMutation init \<longrightarrow> filter (\<lambda>q. q \<noteq> csrf_request) sent = map (build_request input init) toks) \<and>
    (\<not> isMutation init \<longrightarrow> (\<exists>q. sent = [q] \<and> rq_url q = input \<and> rq_headers q = ri_headers init)) \<and>
    wd_location w' = (if wd_document w \<and> (\<exists>res. r = Inr res \<and> rs_status res = 401) then ''/login'' else wd_location w)"
proof -
  obtain toks sent w2 r2 where s: "sends w sent w2" "1 \<le> length toks" "length toks \<le> 2" "distinct toks"
    "filter (\<lambda>q. q \<noteq> csrf_request \<or> \<not> isMutation init) sent = map (build_request input init) toks"
    "isMutation init \<or> length sent = 1" "length sent \<le> 4"
    "authFetch input init w = (case r2 of Inl e \<Rightarrow> (w2, Inl e) | Inr res \<Rightarrow> redirect_on_401 res w2)"
    by (rule authFetch_sends)
  have loc: "wd_log w' = wd_log w @ sent \<and> wd_location w' =
      (if wd_document w \<and> (\<exists>res. r = Inr res \<and> rs_status res = 401) then ''/login'' else wd_location w)"
    using assms s(1,8) by (cases r2) (auto simp: redirect_on_401_def sends_def)
  have "\<exists>q. sent = [q] \<and> rq_url q = input \<and> rq_headers q = ri_headers init" if "\<not> isMutation init"
  proof -
    from that s(5,6) obtain q t where "sent = [q]" "[q] = map (build_request input init) toks"
      by (auto simp: length_Suc_conv)
    then show ?thesis using that by (auto simp: Cons_eq_map_conv build_request_def buildHeaders_def)
  qed
  with s loc show ?thesis by (intro exI [of _ sent] exI [of _ toks]) auto
qed

definition fixture_init :: RequestInit where
  "fixture_init = \<lparr>ri_method = Some ''POST'', ri_headers = [], ri_body = No_body\<rparr>"

definition fixture_api :: server where
  "fixture_api j lg q = json_reply (JObj []) []"

definition fixture_world :: World where
  "fixture_world = \<lparr>wd_server = goServer (\<lambda>_ _. 0xAB) fixture_api, wd_jar = [], wd_document = True,
     wd_location = ''/'', wd_log = []\<rparr>"

lemma fixture_answers: "answers (wd_server fixture_world)"
  by (simp add: answers_def fixture_world_def goServer_def HandleCSRF_def CSRFMiddleware_def
      json_reply_def error_reply_def fixture_api_def Let_def split: option.split)

theorem auth_fetch_bounded_witness:
  "length (wd_log (fst (authFetch ''/api/speakers/stop'' fixture_init fixture_world))) \<le> 4"
proof -
  have "authFetch ''/api/speakers/stop'' fixture_init fixture_world =
      (fst (authFetch ''/api/speakers/stop'' fixture_init fixture_world),
       snd (authFetch ''/api/speakers/stop'' fixture_init fixture_world))" by simp
  from auth_fetch_bounded [OF this] show ?thesis by (auto simp: fixture_world_def)
qed

text \<open>C14: Client and server agree on the CSRF protocol: for an authenticated page whose cookies are
  well-formed, with or without a token cookie, a mutation sent through \<^verbatim>\<open>authFetch\<close> to the Go
  server is never turned away by the CSRF middleware. Every response the caller sees is the API's own
  answer to the request with a non-empty token.\<close>

theorem csrf_end_to_end:
  assumes "wd_server w = goServer rnd api" and "jar_ok (wd_jar w)" and "wd_document w"
    and "isMutation init" and "ri_method init = Some m" and "m = to_upper m"
    and "authFetch input init w = (w', Inr res)"
  shows "\<exists>j lg t. t \<noteq> [] \<and> rp_response (api j lg (build_request input init t)) = Some res"
  using assms by (rule go.authFetch_reaches_api)

theorem csrf_end_to_end_witness:
  "\<exists>w' res j lg t. authFetch ''/api/speakers/stop'' fixture_init fixture_world = (w', Inr res) \<and>
     rp_response (fixture_api j lg (build_request ''/api/speakers/stop'' fixture_init t)) = Some res"
proof -
  let ?run = "authFetch ''/api/speakers/stop'' fixture_init fixture_world"
  obtain w' res where run: "?run = (w', Inr res)"
    using authFetch_answered [of fixture_world] fixture_answers by blast
  have "jar_ok (wd_jar fixture_world)" by (simp add: fixture_world_def jar_ok_def)
  from csrf_end_to_end [of fixture_world "\<lambda>_ _. 0xAB" fixture_api fixture_init "''POST''", OF _ this _ _ _ _ run]
  show ?thesis using run
    by (auto simp: fixture_world_def fixture_init_def isMutation_def request_method_def upper_char_def)
qed

end
