(* ===== verification/Nvr_Api.thy ===== *)
theory Nvr_Api
  imports Http_Client Js_Date
begin

text \<open>
  The endpoint functions of \<^verbatim>\<open>frontend/src/lib/api.ts\<close>: for each, the request it builds and how it
  treats the answer. The answers' bodies are JSON values, since the code casts them to its interface
  types without looking inside; a request body that the code only passes through
  \<^verbatim>\<open>JSON.stringify\<close> is a JSON value too. Ending a call with \<^verbatim>\<open>res.blob()\<close> and a download link is the value
  of the download. Requests the browser starts and nobody waits for are ordinary calls whose result is
  dropped.
\<close>

section \<open>Request options\<close>

definition get_init :: RequestInit where
  "get_init = \<lparr>ri_method = None, ri_headers = [], ri_body = No_body\<rparr>"

definition bare_init :: "string \<Rightarrow> RequestInit" where
  "bare_init m = \<lparr>ri_method = Some m, ri_headers = [], ri_body = No_body\<rparr>"

definition json_init :: "string \<Rightarrow> json \<Rightarrow> RequestInit" where
  "json_init m j = \<lparr>ri_method = Some m, ri_headers = [(''Content-Type'', ''application/json'')], ri_body = Json_body j\<rparr>"

text \<open>\<^verbatim>\<open>Array.isArray(data) ? data : []\<close>, \<^verbatim>\<open>data ?? []\<close> and \<^verbatim>\<open>data?.key\<close>.\<close>

definition array_or_empty :: "json \<Rightarrow> json" where
  "array_or_empty j = (case j of JArr xs \<Rightarrow> JArr xs | _ \<Rightarrow> JArr [])"

definition null_or_empty :: "json \<Rightarrow> json" where
  "null_or_empty j = (case j of JNull \<Rightarrow> JArr [] | _ \<Rightarrow> j)"

definition falsy :: "json \<Rightarrow> bool" where
  "falsy j = (case j of JNull \<Rightarrow> True | JBool b \<Rightarrow> \<not> b | JNum n \<Rightarrow> n = 0 | JStr s \<Rightarrow> s = [] | _ \<Rightarrow> False)"

definition field_or :: "string \<Rightarrow> json \<Rightarrow> json \<Rightarrow> json" where
  "field_or k d j = (case json_field k j of None \<Rightarrow> d | Some JNull \<Rightarrow> d | Some v \<Rightarrow> v)"

definition field_array :: "string \<Rightarrow> json \<Rightarrow> json" where
  "field_array k j = (case json_field k j of Some v \<Rightarrow> array_or_empty v | None \<Rightarrow> JArr [])"

definition num :: "nat \<Rightarrow> json" where
  "num n = JNum (of_nat n)"

definition throw_text :: "Response \<Rightarrow> 'a io" where
  "throw_text res = throw_io (rs_text res)"

definition status_error :: "string \<Rightarrow> Response \<Rightarrow> 'a io" where
  "status_error what res = throw_io (what @ '': '' @ nat_str (rs_status res))"

text \<open>The two shapes most mutations have: throw unless ok, then nothing, or the parsed body.\<close>

definition unless_ok :: "(Response \<Rightarrow> unit io) \<Rightarrow> Response \<Rightarrow> unit io" where
  "unless_ok fail res = (if \<not> ok res then fail res else return_io ())"

definition json_unless :: "(Response \<Rightarrow> json io) \<Rightarrow> Response \<Rightarrow> json io" where
  "json_unless fail res = (if \<not> ok res then fail res else res_json res)"

section \<open>Events, search and health\<close>

record DeterrenceOpts =
  dt_durationSec :: "int option"
  dt_reason :: "string option"
  dt_alarmID :: "string option"

definition fireDeterrence :: "id \<Rightarrow> string \<Rightarrow> DeterrenceOpts option \<Rightarrow> json io" where
  "fireDeterrence cameraID action opts =
     bind_io (authFetch (''/api/cameras/'' @ cameraID @ ''/deterrence'') (json_init ''POST'' (JObj
       [(''action'', JStr action),
        (''duration_sec'', JNum (of_int (nullish (Option.bind opts dt_durationSec) 10))),
        (''reason'', JStr (nullish (Option.bind opts dt_reason) [])),
        (''alarm_id'', JStr (nullish (Option.bind opts dt_alarmID) []))])))
     (json_unless (\<lambda>res. throw_io (str_or (Some (rs_text res))
        (''fire '' @ action @ '' failed (HTTP '' @ nat_str (rs_status res) @ '')''))))"

record SearchParams =
  sp_start :: "string option"
  sp_end :: "string option"
  sp_camera_id :: "string option"
  sp_types :: "string list option"
  sp_search :: "string option"
  sp_limit :: "int option"
  sp_offset :: "int option"

text \<open>\<^verbatim>\<open>if (v) qs.set(k, v)\<close> and \<^verbatim>\<open>if (n != null) qs.set(k, String(n))\<close>.\<close>

definition set_str :: "string \<Rightarrow> string option \<Rightarrow> params \<Rightarrow> params" where
  "set_str k v ps = (case v of None \<Rightarrow> ps | Some s \<Rightarrow> params_set_if (s \<noteq> []) k s ps)"

definition set_num :: "string \<Rightarrow> int option \<Rightarrow> params \<Rightarrow> params" where
  "set_num k v ps = (case v of None \<Rightarrow> ps | Some n \<Rightarrow> params_set k (int_str n) ps)"

text \<open>\<^verbatim>\<open>if (n) qs.set(k, String(n))\<close>.\<close>

definition set_pos :: "string \<Rightarrow> int option \<Rightarrow> params \<Rightarrow> params" where
  "set_pos k v ps = (case v of None \<Rightarrow> ps | Some n \<Rightarrow> params_set_if (n \<noteq> 0) k (int_str n) ps)"

definition set_list :: "string \<Rightarrow> string list option \<Rightarrow> params \<Rightarrow> params" where
  "set_list k v ps = (case v of None \<Rightarrow> ps | Some xs \<Rightarrow> params_set_if (xs \<noteq> []) k (join '','' xs) ps)"

definition searchEventsQuery :: "SearchParams \<Rightarrow> params" where
  "searchEventsQuery p =
     set_num ''offset'' (sp_offset p) (set_num ''limit'' (sp_limit p) (set_str ''search'' (sp_search p)
       (set_list ''types'' (sp_types p) (set_str ''camera_id'' (sp_camera_id p)
         (set_str ''end'' (sp_end p) (set_str ''start'' (sp_start p) []))))))"

definition empty_search :: json where
  "empty_search = JObj [(''events'', JArr []), (''next_offset'', num 0), (''has_more'', JBool False), (''restricted'', JBool False)]"

definition searchEvents :: "SearchParams \<Rightarrow> json io" where
  "searchEvents p =
     try_io (bind_io (authFetch (''/api/search/events?'' @ params_str (searchEventsQuery p)) get_init)
               (json_unless (\<lambda>res. return_io empty_search)))
            (return_io empty_search)"

definition exportEvidenceURL :: "nat \<Rightarrow> int option \<Rightarrow> int option \<Rightarrow> string" where
  "exportEvidenceURL eventID preSec postSec =
     (let q = params_str (set_num ''post'' postSec (set_num ''pre'' preSec []))
      in ''/api/events/'' @ nat_str eventID @ ''/export'' @ (if q \<noteq> [] then ''?'' @ q else []))"

record SemanticParams =
  sm_q :: string
  sm_start :: "string option"
  sm_end :: "string option"
  sm_camera_id :: "string option"
  sm_activity :: "string option"
  sm_limit :: "int option"
  sm_offset :: "int option"

definition searchSemanticQuery :: "SemanticParams \<Rightarrow> params" where
  "searchSemanticQuery p =
     set_num ''offset'' (sm_offset p) (set_num ''limit'' (sm_limit p) (set_str ''activity'' (sm_activity p)
       (set_str ''camera_id'' (sm_camera_id p) (set_str ''end'' (sm_end p) (set_str ''start'' (sm_start p)
         (params_set ''q'' (sm_q p) []))))))"

definition empty_semantic :: "string \<Rightarrow> json" where
  "empty_semantic q = JObj [(''query'', JStr q), (''results'', JArr []), (''total'', num 0), (''next_offset'', num 0),
     (''has_more'', JBool False), (''restricted'', JBool False)]"

definition searchSemantic :: "SemanticParams \<Rightarrow> json io" where
  "searchSemantic p =
     try_io (bind_io (authFetch (''/api/search/semantic?'' @ params_str (searchSemanticQuery p)) get_init)
               (json_unless (\<lambda>res. return_io (empty_semantic (sm_q p)))))
            (return_io (empty_semantic (sm_q p)))"

definition getRecordingHealth :: "json io" where
  "getRecordingHealth =
     try_io (bind_io (authFetch ''/api/recording/health'' get_init) (\<lambda>res.
               if \<not> ok res then return_io (JArr [])
               else bind_io (res_json res) (\<lambda>data. return_io (array_or_empty data))))
            (return_io (JArr []))"

definition getServicesHealth :: "json io" where
  "getServicesHealth =
     try_io (bind_io (authFetch ''/api/system/services'' get_init) (\<lambda>res.
               if \<not> ok res then return_io (JObj [(''services'', JArr [])])
               else bind_io (res_json res) (\<lambda>data. return_io (JObj
                 ([(''services'', field_array ''services'' data)] @
                  (case json_field ''ai_stats'' data of None \<Rightarrow> [] | Some v \<Rightarrow> [(''ai_stats'', v)]))))))
            (return_io (JObj [(''services'', JArr [])]))"

text \<open>The costs are numbers of the caller; \<open>num_str\<close> is \<^verbatim>\<open>String(n)\<close> on them.\<close>

definition empty_usage :: "int \<Rightarrow> number \<Rightarrow> number \<Rightarrow> json" where
  "empty_usage days yolo qwen = JObj [(''window_days'', JNum (of_int days)), (''cost_per_1k_yolo'', JNum yolo),
     (''cost_per_1k_qwen'', JNum qwen), (''total_cost'', num 0), (''sites'', JArr [])]"

definition getAIUsageBySite :: "(number \<Rightarrow> string) \<Rightarrow> int \<Rightarrow> number \<Rightarrow> number \<Rightarrow> json io" where
  "getAIUsageBySite num_str days yolo qwen =
     try_io (bind_io (authFetch (''/api/system/services/usage?days='' @ int_str days @ ''&cost_per_1k_yolo='' @ num_str yolo @
                 ''&cost_per_1k_qwen='' @ num_str qwen) get_init) (\<lambda>res.
               if \<not> ok res then return_io (empty_usage days yolo qwen)
               else bind_io (res_json res) (\<lambda>data. return_io (JObj
                 [(''window_days'', field_or ''window_days'' (JNum (of_int days)) data),
                  (''cost_per_1k_yolo'', field_or ''cost_per_1k_yolo'' (JNum yolo) data),
                  (''cost_per_1k_qwen'', field_or ''cost_per_1k_qwen'' (JNum qwen) data),
                  (''total_cost'', field_or ''total_cost'' (num 0) data),
                  (''sites'', field_array ''sites'' data)]))))
            (return_io (empty_usage days yolo qwen))"

definition timeseries_json :: "json \<Rightarrow> json \<Rightarrow> json \<Rightarrow> json" where
  "timeseries_json m y q = JObj [(''window_minutes'', m), (''series'', JObj [(''yolo'', y), (''qwen'', q)])]"

definition getAIMetricsTimeseries :: "int \<Rightarrow> json io" where
  "getAIMetricsTimeseries minutes =
     (let empty = timeseries_json (JNum (of_int minutes)) (JArr []) (JArr []) in
      try_io (bind_io (authFetch (''/api/system/services/timeseries?minutes='' @ int_str minutes) get_init) (\<lambda>res.
               if \<not> ok res then return_io empty
               else bind_io (res_json res) (\<lambda>data.
                 let series = nullish (json_field ''series'' data) JNull in
                 return_io (timeseries_json (field_or ''window_minutes'' (JNum (of_int minutes)) data)
                   (field_array ''yolo'' series) (field_array ''qwen'' series)))))
             (return_io empty))"

definition getSDStatus :: "id \<Rightarrow> json io" where
  "getSDStatus cameraID =
     try_io (bind_io (authFetch (''/api/cameras/'' @ cameraID @ ''/sd/status'') get_init)
               (json_unless (\<lambda>res. return_io JNull)))
            (return_io JNull)"

section \<open>Cameras and detection rules\<close>

definition listCameras :: "json io" where
  "listCameras =
     try_io (bind_io (authFetch ''/api/cameras'' get_init) (\<lambda>res.
               bind_io (res_json res) (\<lambda>data. return_io (array_or_empty data))))
            (return_io (JArr []))"

definition createCamera :: "json \<Rightarrow> json io" where
  "createCamera data =
     bind_io (authFetch ''/api/cameras'' (json_init ''POST'' data))
       (json_unless (\<lambda>res. throw_io (str_or (Some (rs_text res))
          (''Failed to add camera (HTTP '' @ nat_str (rs_status res) @ '')''))))"

definition updateCamera :: "id \<Rightarrow> json \<Rightarrow> json io" where
  "updateCamera i data = bind_io (authFetch (''/api/cameras/'' @ i) (json_init ''PATCH'' data)) res_json"

definition deleteCamera :: "id \<Rightarrow> unit io" where
  "deleteCamera i = bind_io (authFetch (''/api/cameras/'' @ i) (bare_init ''DELETE'')) (\<lambda>res. return_io ())"

definition rebootCamera :: "id \<Rightarrow> json io" where
  "rebootCamera i =
     bind_io (authFetch (''/api/cameras/'' @ i @ ''/reboot'') (bare_init ''POST''))
       (json_unless (\<lambda>res. throw_io (str_or (Some (rs_text res)) (''HTTP '' @ nat_str (rs_status res)))))"

definition listVCARules :: "id \<Rightarrow> json io" where
  "listVCARules cameraId =
     bind_io (authFetch (''/api/cameras/'' @ cameraId @ ''/vca/rules'') get_init)
       (json_unless (\<lambda>res. return_io (JArr [])))"

definition createVCARule :: "id \<Rightarrow> json \<Rightarrow> json io" where
  "createVCARule cameraId data =
     bind_io (authFetch (''/api/cameras/'' @ cameraId @ ''/vca/rules'') (json_init ''POST'' data)) (json_unless throw_text)"

definition updateVCARule :: "id \<Rightarrow> id \<Rightarrow> json \<Rightarrow> unit io" where
  "updateVCARule cameraId ruleId data =
     bind_io (authFetch (''/api/cameras/'' @ cameraId @ ''/vca/rules/'' @ ruleId) (json_init ''PUT'' data)) (unless_ok throw_text)"

definition deleteVCARule :: "id \<Rightarrow> id \<Rightarrow> unit io" where
  "deleteVCARule cameraId ruleId =
     bind_io (authFetch (''/api/cameras/'' @ cameraId @ ''/vca/rules/'' @ ruleId) (bare_init ''DELETE'')) (\<lambda>res. return_io ())"

definition getVCASnapshotURL :: "id \<Rightarrow> string" where
  "getVCASnapshotURL cameraId = ''/api/cameras/'' @ cameraId @ ''/vca/snapshot''"

definition syncCameraVCAZones :: "id \<Rightarrow> json io" where
  "syncCameraVCAZones cameraId =
     bind_io (authFetch (''/api/cameras/'' @ cameraId @ ''/sync-zones'') (bare_init ''POST'')) (json_unless throw_text)"

definition discoverCameras :: "json io" where
  "discoverCameras =
     bind_io (authFetch ''/api/discover'' (bare_init ''POST'')) (\<lambda>res.
     if \<not> ok res then throw_io ''Failed to discover cameras''
     else bind_io (res_json res) (\<lambda>data. return_io (if falsy data then JArr [] else data)))"

text \<open>The preview is the object URL of the response's bytes.\<close>

definition getDevicePreview :: "(string \<Rightarrow> string) \<Rightarrow> string \<Rightarrow> string \<Rightarrow> string \<Rightarrow> string io" where
  "getDevicePreview objectURL address username password =
     bind_io (authFetch ''/api/discover/preview'' (json_init ''POST'' (JObj [(''address'', JStr address),
        (''username'', JStr username), (''password'', JStr password)]))) (\<lambda>res.
     if \<not> ok res then throw_io ''Failed to fetch preview'' else return_io (objectURL (rs_text res)))"

record EventParams =
  ep_start :: string
  ep_end :: string
  ep_camera_id :: "string option"
  ep_camera_ids :: "string list option"
  ep_types :: "string option"
  ep_search :: "string option"
  ep_limit :: "int option"

definition eventScope :: "EventParams \<Rightarrow> params \<Rightarrow> params" where
  "eventScope p ps =
     (case ep_camera_ids p of
        Some (a # b # cs) \<Rightarrow> params_set ''camera_ids'' (join '','' (a # b # cs)) ps
      | Some [a] \<Rightarrow> params_set ''camera_id'' a ps
      | _ \<Rightarrow> set_str ''camera_id'' (ep_camera_id p) ps)"

definition queryEventsQuery :: "EventParams \<Rightarrow> params" where
  "queryEventsQuery p =
     set_pos ''limit'' (ep_limit p) (set_str ''search'' (ep_search p) (set_str ''types'' (ep_types p)
       (eventScope p (params_set ''end'' (ep_end p) (params_set ''start'' (ep_start p) [])))))"

definition queryEvents :: "EventParams \<Rightarrow> json io" where
  "queryEvents p =
     try_io (bind_io (authFetch (''/api/events?'' @ params_str (queryEventsQuery p)) get_init) (\<lambda>res.
               bind_io (res_json res) (\<lambda>data. return_io (array_or_empty data))))
            (return_io (JArr []))"

definition timelineQuery :: "string \<Rightarrow> string \<Rightarrow> string list option \<Rightarrow> int option \<Rightarrow> params" where
  "timelineQuery st en cams interval =
     set_pos ''interval'' interval (set_list ''camera_ids'' cams (params_set ''end'' en (params_set ''start'' st [])))"

definition getTimeline :: "string \<Rightarrow> string \<Rightarrow> string list option \<Rightarrow> int option \<Rightarrow> json io" where
  "getTimeline st en cams interval =
     try_io (bind_io (authFetch (''/api/timeline?'' @ params_str (timelineQuery st en cams interval)) get_init) (\<lambda>res.
               bind_io (res_json res) (\<lambda>data. return_io (array_or_empty data))))
            (return_io (JArr []))"

definition createExport :: "json \<Rightarrow> json io" where
  "createExport data = bind_io (authFetch ''/api/exports'' (json_init ''POST'' data)) res_json"

definition listExports :: "json io" where
  "listExports = bind_io (authFetch ''/api/exports'' get_init) res_json"

text \<open>Fire-and-forget calls: the promise's rejection is swallowed.\<close>

definition ptzMove :: "id \<Rightarrow> number \<Rightarrow> number \<Rightarrow> number \<Rightarrow> unit io" where
  "ptzMove i pan tilt zoom =
     try_io (bind_io (authFetch (''/api/cameras/'' @ i @ ''/ptz/move'') (json_init ''POST'' (JObj
        [(''pan'', JNum pan), (''tilt'', JNum tilt), (''zoom'', JNum zoom)]))) (\<lambda>res. return_io ()))
       (return_io ())"

definition ptzStop :: "id \<Rightarrow> unit io" where
  "ptzStop i = try_io (bind_io (authFetch (''/api/cameras/'' @ i @ ''/ptz/stop'') (bare_init ''POST'')) (\<lambda>res. return_io ())) (return_io ())"

definition ptzPrewarm :: "id \<Rightarrow> unit io" where
  "ptzPrewarm i = try_io (bind_io (authFetch (''/api/cameras/'' @ i @ ''/ptz/prewarm'') (bare_init ''POST'')) (\<lambda>res. return_io ())) (return_io ())"

definition fetchCoverage :: "string list \<Rightarrow> ms \<Rightarrow> ms \<Rightarrow> json io" where
  "fetchCoverage cameraIds st en =
     (if cameraIds = [] then return_io (JArr [])
      else bind_io (authFetch (''/api/timeline/coverage?'' @ params_str
              [(''start'', toISOString st), (''end'', toISOString en), (''camera_ids'', join '','' cameraIds)]) get_init)
             (json_unless (\<lambda>res. return_io (JArr []))))"


section \<open>Settings, users, storage\<close>

definition getSystemHealth :: "json io" where
  "getSystemHealth =
     bind_io (authFetch ''/api/system/health'' get_init) (json_unless (\<lambda>res. throw_io ''Failed to load system health''))"

definition getSettings :: "json io" where
  "getSettings =
     bind_io (authFetch ''/api/settings'' get_init) (json_unless (\<lambda>res. throw_io ''Failed to load settings''))"

definition updateSettings :: "json \<Rightarrow> json io" where
  "updateSettings data =
     bind_io (authFetch ''/api/settings'' (json_init ''PUT'' data)) (json_unless throw_text)"

definition listUsers :: "json io" where
  "listUsers =
     bind_io (authFetch ''/api/users'' get_init) (json_unless (\<lambda>res. throw_io ''Failed to load users''))"

definition createUser :: "json \<Rightarrow> json io" where
  "createUser data =
     bind_io (authFetch ''/api/users'' (json_init ''POST'' data)) (json_unless throw_text)"

definition deleteUser :: "id \<Rightarrow> unit io" where
  "deleteUser i =
     bind_io (authFetch (''/api/users/'' @ i) (bare_init ''DELETE'')) (unless_ok throw_text)"

definition updateUserPassword :: "id \<Rightarrow> string \<Rightarrow> unit io" where
  "updateUserPassword i password =
     bind_io (authFetch (''/api/users/'' @ i @ ''/password'') (json_init ''PATCH'' (JObj [(''password'', JStr password)]))) (unless_ok throw_text)"

definition updateUserRole :: "id \<Rightarrow> string \<Rightarrow> unit io" where
  "updateUserRole i role =
     bind_io (authFetch (''/api/users/'' @ i @ ''/role'') (json_init ''PATCH'' (JObj [(''role'', JStr role)]))) (unless_ok throw_text)"

definition updateUserProfile :: "id \<Rightarrow> json \<Rightarrow> json io" where
  "updateUserProfile i data =
     bind_io (authFetch (''/api/users/'' @ i) (json_init ''PATCH'' data)) (json_unless throw_text)"

definition listDrives :: "json io" where
  "listDrives =
     bind_io (authFetch ''/api/storage/drives'' get_init) (\<lambda>res.
     if \<not> ok res then return_io (JArr []) else bind_io (res_json res) (\<lambda>data. return_io (null_or_empty data)))"

definition browsePath :: "string \<Rightarrow> json io" where
  "browsePath path =
     bind_io (authFetch (''/api/storage/browse?path='' @ encodeURIComponent path) get_init) (\<lambda>res.
     if \<not> ok res then return_io (JArr []) else bind_io (res_json res) (\<lambda>data. return_io (null_or_empty data)))"

definition getDiskUsage :: "string \<Rightarrow> json io" where
  "getDiskUsage path =
     bind_io (authFetch (''/api/storage/disk-usage?path='' @ encodeURIComponent path) get_init) (json_unless (\<lambda>res. return_io JNull))"

definition listStorageLocations :: "json io" where
  "listStorageLocations =
     bind_io (authFetch ''/api/storage/locations'' get_init) (\<lambda>res.
     if \<not> ok res then return_io (JArr []) else bind_io (res_json res) (\<lambda>data. return_io (null_or_empty data)))"

definition createStorageLocation :: "json \<Rightarrow> json io" where
  "createStorageLocation data =
     bind_io (authFetch ''/api/storage/locations'' (json_init ''POST'' data)) (json_unless throw_text)"

definition updateStorageLocation :: "id \<Rightarrow> json \<Rightarrow> unit io" where
  "updateStorageLocation i data =
     bind_io (authFetch (''/api/storage/locations/'' @ i) (json_init ''PUT'' data)) (unless_ok throw_text)"

definition deleteStorageLocation :: "id \<Rightarrow> unit io" where
  "deleteStorageLocation i =
     bind_io (authFetch (''/api/storage/locations/'' @ i) (bare_init ''DELETE'')) (unless_ok throw_text)"

section \<open>Speakers\<close>

definition listSpeakers :: "json io" where
  "listSpeakers =
     bind_io (authFetch ''/api/speakers'' get_init) (json_unless (\<lambda>res. throw_io ''Failed to list speakers''))"

definition createSpeaker :: "json \<Rightarrow> json io" where
  "createSpeaker data =
     bind_io (authFetch ''/api/speakers'' (json_init ''POST'' data)) (json_unless throw_text)"

definition deleteSpeaker :: "id \<Rightarrow> unit io" where
  "deleteSpeaker i =
     bind_io (authFetch (''/api/speakers/'' @ i) (bare_init ''DELETE'')) (unless_ok throw_text)"

definition playSpeakerMessage :: "id \<Rightarrow> id \<Rightarrow> json io" where
  "playSpeakerMessage speakerId messageId =
     bind_io (authFetch (''/api/speakers/'' @ speakerId @ ''/play/'' @ messageId) (bare_init ''POST'')) (json_unless throw_text)"

definition stopSpeakerPlayback :: "unit io" where
  "stopSpeakerPlayback =
     bind_io (authFetch ''/api/speakers/stop'' (bare_init ''POST'')) (\<lambda>res. return_io ())"

definition listAudioMessages :: "json io" where
  "listAudioMessages =
     bind_io (authFetch ''/api/audio-messages'' get_init) (json_unless (\<lambda>res. throw_io ''Failed to list audio messages''))"

definition uploadAudioMessage :: "string \<Rightarrow> string \<Rightarrow> string \<Rightarrow> json io" where
  "uploadAudioMessage name category file =
     bind_io (authFetch ''/api/audio-messages'' \<lparr>ri_method = Some ''POST'', ri_headers = [],
        ri_body = Form_body [(''name'', name), (''category'', category), (''file'', file)]\<rparr>)
       (json_unless throw_text)"

definition deleteAudioMessage :: "id \<Rightarrow> unit io" where
  "deleteAudioMessage i =
     bind_io (authFetch (''/api/audio-messages/'' @ i) (bare_init ''DELETE'')) (unless_ok throw_text)"

definition getSpeakerInfo :: "json io" where
  "getSpeakerInfo =
     bind_io (authFetch ''/api/speaker-info'' get_init) (json_unless (\<lambda>res. throw_io ''Failed to load speaker info''))"

section \<open>Audit, playback, review, compliance\<close>

record AuditParams =
  au_username :: "string option"
  au_action :: "string option"
  au_target_type :: "string option"
  au_limit :: "int option"
  au_offset :: "int option"

definition auditQuery :: "AuditParams \<Rightarrow> params" where
  "auditQuery p =
     set_pos ''offset'' (au_offset p) (set_pos ''limit'' (au_limit p) (set_str ''target_type'' (au_target_type p)
       (set_str ''action'' (au_action p) (set_str ''username'' (au_username p) []))))"

definition queryAuditLog :: "AuditParams \<Rightarrow> json io" where
  "queryAuditLog p =
     bind_io (authFetch (''/api/audit?'' @ params_str (auditQuery p)) get_init) (json_unless (\<lambda>res. throw_io ''Failed to query audit log''))"

definition fetchPlaybackSegments :: "id \<Rightarrow> string \<Rightarrow> json io" where
  "fetchPlaybackSegments cameraId time =
     bind_io (authFetch (''/api/playback/'' @ cameraId @ ''?t='' @ time) get_init) (json_unless (\<lambda>res. return_io (JArr [])))"

record PendingReviewFilter =
  pf_status :: "string option"
  pf_camera_id :: "string option"
  pf_limit :: "int option"
  pf_before :: "string option"

definition pendingReviewQuery :: "PendingReviewFilter \<Rightarrow> params" where
  "pendingReviewQuery f =
     set_str ''before'' (pf_before f) (set_pos ''limit'' (pf_limit f) (set_str ''camera_id'' (pf_camera_id f)
       (set_str ''status'' (pf_status f) [])))"

definition getPendingReview :: "PendingReviewFilter \<Rightarrow> json io" where
  "getPendingReview f =
     bind_io (authFetch (''/api/v1/portal/pending-review?'' @ params_str (pendingReviewQuery f)) get_init) (json_unless (status_error ''pending review''))"

definition submitReview :: "id \<Rightarrow> json \<Rightarrow> unit io" where
  "submitReview i data =
     bind_io (authFetch (''/api/v1/portal/pending-review/'' @ i @ ''/review'') (json_init ''POST'' data)) (unless_ok (status_error ''submit review''))"

definition listPPEZones :: "id \<Rightarrow> json io" where
  "listPPEZones cameraId =
     bind_io (authFetch (''/api/cameras/'' @ cameraId @ ''/ppe/zones'') get_init) (json_unless (\<lambda>res. return_io (JArr [])))"

definition createPPEZone :: "id \<Rightarrow> json \<Rightarrow> json io" where
  "createPPEZone cameraId data =
     bind_io (authFetch (''/api/cameras/'' @ cameraId @ ''/ppe/zones'') (json_init ''POST'' data)) (json_unless (status_error ''create PPE zone''))"

definition updatePPEZone :: "id \<Rightarrow> id \<Rightarrow> json \<Rightarrow> unit io" where
  "updatePPEZone cameraId zoneId data =
     bind_io (authFetch (''/api/cameras/'' @ cameraId @ ''/ppe/zones/'' @ zoneId) (json_init ''PUT'' data)) (unless_ok (status_error ''update PPE zone''))"

definition deletePPEZone :: "id \<Rightarrow> id \<Rightarrow> unit io" where
  "deletePPEZone cameraId zoneId =
     bind_io (authFetch (''/api/cameras/'' @ cameraId @ ''/ppe/zones/'' @ zoneId) (bare_init ''DELETE'')) (unless_ok (status_error ''delete PPE zone''))"

definition listComplianceRules :: "id \<Rightarrow> json io" where
  "listComplianceRules cameraId =
     bind_io (authFetch (''/api/cameras/'' @ cameraId @ ''/compliance-rules'') get_init) (json_unless (\<lambda>res. return_io (JArr [])))"

definition createComplianceRule :: "id \<Rightarrow> json \<Rightarrow> json io" where
  "createComplianceRule cameraId data =
     bind_io (authFetch (''/api/cameras/'' @ cameraId @ ''/compliance-rules'') (json_init ''POST'' data)) (json_unless (status_error ''create compliance rule''))"

definition updateComplianceRule :: "id \<Rightarrow> id \<Rightarrow> json \<Rightarrow> unit io" where
  "updateComplianceRule cameraId ruleId data =
     bind_io (authFetch (''/api/cameras/'' @ cameraId @ ''/compliance-rules/'' @ ruleId) (json_init ''PUT'' data)) (unless_ok (status_error ''update compliance rule''))"

definition deleteComplianceRule :: "id \<Rightarrow> id \<Rightarrow> unit io" where
  "deleteComplianceRule cameraId ruleId =
     bind_io (authFetch (''/api/cameras/'' @ cameraId @ ''/compliance-rules/'' @ ruleId) (bare_init ''DELETE'')) (unless_ok (status_error ''delete compliance rule''))"

record ComplianceSummaryParams =
  cs_site_id :: "string option"
  cs_period :: string
  cs_start_date :: "string option"
  cs_end_date :: "string option"
  cs_org :: "string option"

definition complianceQuery :: "ComplianceSummaryParams \<Rightarrow> params" where
  "complianceQuery p =
     set_str ''org'' (cs_org p) (set_str ''end_date'' (cs_end_date p) (set_str ''start_date'' (cs_start_date p)
       (set_str ''site_id'' (cs_site_id p) (params_set ''period'' (cs_period p) []))))"

definition getComplianceSummary :: "ComplianceSummaryParams \<Rightarrow> json io" where
  "getComplianceSummary p =
     bind_io (authFetch (''/api/v1/portal/compliance/summary?'' @ params_str (complianceQuery p)) get_init) (json_unless (status_error ''compliance summary''))"

text \<open>The download: the file name and the bytes.\<close>

definition downloadComplianceReport :: "ComplianceSummaryParams \<Rightarrow> bool option \<Rightarrow> (string \<times> string) io" where
  "downloadComplianceReport p include_findings =
     bind_io (authFetch (''/api/v1/portal/compliance/report.pdf?'' @ params_str
        (params_set_if (include_findings = Some False) ''include_findings'' ''false'' (complianceQuery p))) get_init) (\<lambda>res.
     if \<not> ok res then status_error ''compliance PDF'' res
     else return_io (''ironsight-compliance-'' @ cs_period p @ ''.pdf'', rs_text res))"


section \<open>Library\<close>

lemma get_not_mutation [simp]: "\<not> isMutation get_init"
  by (simp add: isMutation_def request_method_def get_init_def upper_char_def)

lemma try_io_total: "(\<And>w'. \<exists>w'' x. h w' = (w'', Inr x)) \<Longrightarrow> \<exists>w'' x. try_io m h w = (w'', Inr x)"
  by (cases "m w"; cases "snd (m w)") (auto simp: try_io_def)

text \<open>A read goes out as exactly one request for its URL.\<close>

lemma get_sends:
  assumes "authFetch url get_init w = (w', r)"
  shows "\<exists>q. wd_log w' = wd_log w @ [q] \<and> rq_url q = url"
proof -
  obtain toks sent w2 r2 where s: "sends w sent w2" "1 \<le> length toks" "length toks \<le> 2" "distinct toks"
    "filter (\<lambda>q. q \<noteq> csrf_request \<or> \<not> isMutation get_init) sent = map (build_request url get_init) toks"
    "isMutation get_init \<or> length sent = 1" "length sent \<le> 4"
    "authFetch url get_init w = (case r2 of Inl e \<Rightarrow> (w2, Inl e) | Inr res \<Rightarrow> redirect_on_401 res w2)"
    by (rule authFetch_sends)
  then obtain q where q: "sent = [q]" "[q] = map (build_request url get_init) toks"
    by (auto simp: length_Suc_conv)
  then have "rq_url q = url" by (auto simp: Cons_eq_map_conv build_request_def)
  moreover have "wd_log w' = wd_log w @ sent"
    using assms s(1,8) by (cases r2) (auto simp: redirect_on_401_def sends_def)
  ultimately show ?thesis using q(1) by blast
qed

lemma params_set_if_map: "map_of (params_set_if b k v ps) = (if b then (map_of ps)(k \<mapsto> v) else map_of ps)"
  by (simp add: params_set_if_def map_of_params_set)

text \<open>What a parameter setter leaves in the decoded query.\<close>

definition present :: "string option \<Rightarrow> string option" where
  "present v = (if truthy_str v then v else None)"

definition nonempty_list :: "string list option \<Rightarrow> string option" where
  "nonempty_list v = (case v of Some (x # xs) \<Rightarrow> Some (join '','' (x # xs)) | _ \<Rightarrow> None)"

definition nonzero :: "int option \<Rightarrow> string option" where
  "nonzero v = (if truthy_int v then map_option int_str v else None)"

definition orelse :: "'a option \<Rightarrow> 'a option \<Rightarrow> 'a option" where
  "orelse a b = (case a of None \<Rightarrow> b | Some x \<Rightarrow> Some x)"

lemma orelse_None [simp]: "orelse a None = a"
  by (simp add: orelse_def split: option.split)

lemma set_str_at: "map_of (set_str k v ps) x = (if x = k then orelse (present v) (map_of ps x) else map_of ps x)"
  by (auto simp: set_str_def present_def orelse_def params_set_if_map split: option.split)

lemma set_num_at: "map_of (set_num k v ps) x = (if x = k then orelse (map_option int_str v) (map_of ps x) else map_of ps x)"
  by (simp add: set_num_def orelse_def map_of_params_set split: option.split)

lemma set_pos_at: "map_of (set_pos k v ps) x = (if x = k then orelse (nonzero v) (map_of ps x) else map_of ps x)"
  by (auto simp: set_pos_def nonzero_def orelse_def params_set_if_map split: option.split)

lemma set_list_at: "map_of (set_list k v ps) x = (if x = k then orelse (nonempty_list v) (map_of ps x) else map_of ps x)"
  by (auto simp: set_list_def nonempty_list_def orelse_def params_set_if_map split: option.split list.split)

lemma params_set_at: "map_of (params_set k v ps) x = (if x = k then Some v else map_of ps x)"
  by (simp add: map_of_params_set)

lemmas query_at = set_str_at set_num_at set_pos_at set_list_at params_set_at

section \<open>Properties\<close>

text \<open>What reaches the server in an event search is what the caller asked for: one GET is sent,
  and the query string decoded by the server holds exactly the parameters that were given, with
  their values, whatever characters they contain.\<close>

theorem search_query_decodes:
  "\<exists>q. wd_log (fst (searchEvents p w)) = wd_log w @ [q] \<and>
     (\<exists>query. rq_url q = ''/api/search/events?'' @ query \<and>
       map_of (params_parse query) = (\<lambda>k.
         if k = ''start'' then present (sp_start p)
         else if k = ''end'' then present (sp_end p)
         else if k = ''camera_id'' then present (sp_camera_id p)
         else if k = ''types'' then nonempty_list (sp_types p)
         else if k = ''search'' then present (sp_search p)
         else if k = ''limit'' then map_option int_str (sp_limit p)
         else if k = ''offset'' then map_option int_str (sp_offset p)
         else None))"
proof -
  let ?url = "''/api/search/events?'' @ params_str (searchEventsQuery p)"
  obtain w1 r where run: "authFetch ?url get_init w = (w1, r)" by fastforce
  from get_sends [OF run] obtain q where q: "wd_log w1 = wd_log w @ [q]" "rq_url q = ?url" by blast
  have "fst (searchEvents p w) = w1"
    using run by (cases r)
      (auto simp: searchEvents_def try_io_def bind_io_def json_unless_def return_io_def res_json_def
        throw_io_def split: option.splits)
  moreover have "map_of (params_parse (params_str (searchEventsQuery p))) = map_of (searchEventsQuery p)"
    by (simp add: params_round_trip)
  moreover have "map_of (searchEventsQuery p) = (\<lambda>k.
         if k = ''start'' then present (sp_start p)
         else if k = ''end'' then present (sp_end p)
         else if k = ''camera_id'' then present (sp_camera_id p)
         else if k = ''types'' then nonempty_list (sp_types p)
         else if k = ''search'' then present (sp_search p)
         else if k = ''limit'' then map_option int_str (sp_limit p)
         else if k = ''offset'' then map_option int_str (sp_offset p)
         else None)"
    by (rule ext) (simp add: searchEventsQuery_def query_at)
  ultimately show ?thesis using q by auto
qed

text \<open>An event query is scoped to exactly the selected cameras: two or more are sent as the list
  parameter, one as the single-camera parameter, none falls back to the camera argument; the two
  parameters are never sent together.\<close>

theorem event_query_scope:
  "let m = map_of (params_parse (params_str (queryEventsQuery p))) in
     m ''camera_ids'' = (case ep_camera_ids p of Some (a # b # cs) \<Rightarrow> Some (join '','' (a # b # cs)) | _ \<Rightarrow> None) \<and>
     m ''camera_id'' = (case ep_camera_ids p of Some (a # b # cs) \<Rightarrow> None | Some [a] \<Rightarrow> Some a
                        | _ \<Rightarrow> present (ep_camera_id p)) \<and>
     m ''start'' = Some (ep_start p) \<and> m ''end'' = Some (ep_end p) \<and>
     m ''limit'' = nonzero (ep_limit p)"
  by (simp add: Let_def params_round_trip queryEventsQuery_def eventScope_def query_at
      split: option.split list.split)

text \<open>The list reads used for polling never fail: whatever the server or the network does, the
  caller gets a JSON array.\<close>

theorem list_reads_never_fail:
  "(\<exists>w' xs. listCameras w = (w', Inr (JArr xs))) \<and>
   (\<exists>w' xs. queryEvents p w = (w', Inr (JArr xs))) \<and>
   (\<exists>w' xs. getTimeline st en cams interval w = (w', Inr (JArr xs))) \<and>
   (\<exists>w' xs. getRecordingHealth w = (w', Inr (JArr xs)))"
proof -
  have arr: "\<exists>xs. array_or_empty j = JArr xs" for j
    by (cases j) (auto simp: array_or_empty_def)
  have total: "\<exists>w' xs. try_io (bind_io (authFetch url get_init) f) (return_io (JArr [])) v = (w', Inr (JArr xs))"
    if "\<And>res u. \<exists>u' x. f res u = (u', x) \<and> (case x of Inl e \<Rightarrow> True | Inr j \<Rightarrow> \<exists>xs. j = JArr xs)" for url f v
  proof -
    obtain w1 r where run: "authFetch url get_init v = (w1, r)" by fastforce
    show ?thesis
    proof (cases r)
      case (Inr b)
      from that [of b w1] obtain u' x where
        "f b w1 = (u', x)" "case x of Inl e \<Rightarrow> True | Inr j \<Rightarrow> \<exists>xs. j = JArr xs" by blast
      with run Inr show ?thesis by (auto simp: try_io_def bind_io_def return_io_def split: sum.splits)
    qed (use run in \<open>simp add: try_io_def bind_io_def return_io_def\<close>)
  qed
  show ?thesis
    unfolding listCameras_def queryEvents_def getTimeline_def getRecordingHealth_def
    by (intro conjI total)
       (auto simp: bind_io_def res_json_def throw_io_def return_io_def arr split: option.splits)
qed

text \<open>What a mutation does with a refusal.\<close>

definition reports_refusal :: "string \<Rightarrow> RequestInit \<Rightarrow> 'a io \<Rightarrow> bool" where
  "reports_refusal url init call \<longleftrightarrow>
     (\<forall>w w' res. authFetch url init w = (w', Inr res) \<and> \<not> ok res \<longrightarrow> (\<exists>e. call w = (w', Inl e)))"

text \<open>A refused change of a user, a rule, a zone, a storage location or a speaker is reported to the
  caller as an exception. Deleting a camera or a detection rule is not: the call succeeds whatever
  status the server answers.\<close>

theorem refusals_reported:
  "reports_refusal ''/api/users'' (json_init ''POST'' d) (createUser d) \<and>
   reports_refusal (''/api/users/'' @ i) (bare_init ''DELETE'') (deleteUser i) \<and>
   reports_refusal (''/api/users/'' @ i @ ''/role'') (json_init ''PATCH'' (JObj [(''role'', JStr r)])) (updateUserRole i r) \<and>
   reports_refusal (''/api/cameras/'' @ c @ ''/vca/rules/'' @ i) (json_init ''PUT'' d) (updateVCARule c i d) \<and>
   reports_refusal (''/api/cameras/'' @ c @ ''/ppe/zones/'' @ i) (bare_init ''DELETE'') (deletePPEZone c i) \<and>
   reports_refusal (''/api/storage/locations/'' @ i) (bare_init ''DELETE'') (deleteStorageLocation i) \<and>
   reports_refusal (''/api/speakers/'' @ i) (bare_init ''DELETE'') (deleteSpeaker i) \<and>
   (\<forall>w' res. authFetch (''/api/cameras/'' @ i) (bare_init ''DELETE'') w = (w', Inr res) \<longrightarrow> deleteCamera i w = (w', Inr ())) \<and>
   (\<forall>w' res. authFetch (''/api/cameras/'' @ c @ ''/vca/rules/'' @ i) (bare_init ''DELETE'') w = (w', Inr res) \<longrightarrow>
      deleteVCARule c i w = (w', Inr ()))"
  by (simp add: reports_refusal_def createUser_def deleteUser_def updateUserRole_def updateVCARule_def
      deletePPEZone_def deleteStorageLocation_def deleteSpeaker_def deleteCamera_def deleteVCARule_def
      bind_io_def json_unless_def unless_ok_def throw_text_def status_error_def throw_io_def return_io_def)

theorem refusals_reported_witness:
  "\<exists>w' res. authFetch ''/api/cameras/c1'' (bare_init ''DELETE'')
       (fixture_world\<lparr>wd_server := goServer (\<lambda>_ _. 0xAB) (\<lambda>j lg q. error_reply 500 ''down'')\<rparr>) = (w', Inr res) \<and>
     deleteCamera ''c1'' (fixture_world\<lparr>wd_server := goServer (\<lambda>_ _. 0xAB) (\<lambda>j lg q. error_reply 500 ''down'')\<rparr>) = (w', Inr ())"
proof -
  let ?w = "fixture_world\<lparr>wd_server := goServer (\<lambda>_ _. 0xAB) (\<lambda>j lg q. error_reply 500 ''down'')\<rparr>"
  have "answers (wd_server ?w)"
    by (simp add: answers_def goServer_def HandleCSRF_def CSRFMiddleware_def json_reply_def error_reply_def Let_def
        split: option.split)
  from authFetch_answered [OF this, of "''/api/cameras/c1''" "bare_init ''DELETE''"]
  obtain w' res where run: "authFetch (''/api/cameras/'' @ ''c1'') (bare_init ''DELETE'') ?w = (w', Inr res)"
    by auto
  with refusals_reported [of JNull "''c1''" "[]" "[]" ?w] have "deleteCamera ''c1'' ?w = (w', Inr ())" by blast
  with run show ?thesis by auto
qed

end
