(* ===== verification/Platform_Api.thy ===== *)
theory Platform_Api
  imports Nvr_Api
begin

text \<open>
  The platform client \<^verbatim>\<open>frontend/src/lib/ironsight-api.ts\<close>: the helper \<^verbatim>\<open>fetchJSON\<close> and the endpoint
  functions built on it, the preview of the alarm validation score, and the evidence share links. The
  result of a call is \<open>None\<close> for the value \<^verbatim>\<open>undefined\<close> of an empty (204) answer. Functions whose name
  an action of the operator store has carry the prefix \<open>api_\<close>.
\<close>

section \<open>fetchJSON\<close>

definition no_init :: RequestInit where
  "no_init = get_init"

definition body_init :: "string \<Rightarrow> json \<Rightarrow> RequestInit" where
  "body_init m j = \<lparr>ri_method = Some m, ri_headers = [], ri_body = Json_body j\<rparr>"

definition header_has :: "string \<Rightarrow> headers \<Rightarrow> bool" where
  "header_has k hs = (\<exists>h\<in>set hs. to_lower (fst h) = to_lower k)"

definition with_content_type :: "RequestInit \<Rightarrow> RequestInit" where
  "with_content_type init =
     (if \<not> header_has ''Content-Type'' (ri_headers init) \<and> ri_body init \<noteq> No_body
      then init\<lparr>ri_headers := header_set ''Content-Type'' ''application/json'' (ri_headers init)\<rparr>
      else init)"

definition fetchJSON :: "string \<Rightarrow> RequestInit \<Rightarrow> json option io" where
  "fetchJSON url init =
     bind_io (authFetch url (with_content_type init)) (\<lambda>res.
     if \<not> ok res
     then throw_io (str_or (Some (rs_text res)) (''API '' @ nat_str (rs_status res) @ '': '' @ rs_statusText res))
     else if rs_status res = 204 then return_io None
     else bind_io (res_json res) (\<lambda>j. return_io (Some j)))"

section \<open>Sites and incidents\<close>

definition getSites :: "json option io" where
  "getSites = fetchJSON ''/api/v1/sites'' no_init"

definition getSite :: "id \<Rightarrow> json option io" where
  "getSite i = fetchJSON (''/api/v1/sites/'' @ i) no_init"

definition getSiteCameras :: "id \<Rightarrow> json option io" where
  "getSiteCameras i = fetchJSON (''/api/v1/sites/'' @ i @ ''/cameras'') no_init"

definition getSiteCompliance :: "id \<Rightarrow> json option io" where
  "getSiteCompliance i = fetchJSON (''/api/v1/sites/'' @ i @ ''/compliance'') no_init"

record IncidentFilters =
  if_site_id :: "string option"
  if_status :: "string option"
  if_severity :: "string option"
  if_limit :: "int option"

definition incidentsQuery :: "IncidentFilters \<Rightarrow> params" where
  "incidentsQuery f =
     set_pos ''limit'' (if_limit f) (set_str ''severity'' (if_severity f) (set_str ''status'' (if_status f)
       (set_str ''site_id'' (if_site_id f) [])))"

definition getIncidents :: "IncidentFilters \<Rightarrow> json option io" where
  "getIncidents f = fetchJSON (''/api/v1/incidents?'' @ params_str (incidentsQuery f)) no_init"

definition getIncident :: "id \<Rightarrow> json option io" where
  "getIncident i = fetchJSON (''/api/v1/incidents/'' @ i) no_init"

definition getPortalSummary :: "int \<Rightarrow> json option io" where
  "getPortalSummary days = fetchJSON (''/api/v1/portal/summary?days='' @ int_str days) no_init"

record AlertFilters =
  af_site_id :: "string option"
  af_severity :: "string option"
  af_limit :: "int option"

definition alertsQuery :: "AlertFilters \<Rightarrow> params" where
  "alertsQuery f =
     set_pos ''limit'' (af_limit f) (set_str ''severity'' (af_severity f) (set_str ''site_id'' (af_site_id f) []))"

definition getAlerts :: "AlertFilters \<Rightarrow> json option io" where
  "getAlerts f = fetchJSON (''/api/v1/alerts?'' @ params_str (alertsQuery f)) no_init"

definition getActiveIncidents :: "json option io" where
  "getActiveIncidents = fetchJSON ''/api/v1/incidents/active'' no_init"

definition getIncidentDetail :: "id \<Rightarrow> json option io" where
  "getIncidentDetail i = fetchJSON (''/api/v1/incidents/'' @ i) no_init"

section \<open>Search\<close>

definition searchFrames :: "json \<Rightarrow> json option io" where
  "searchFrames filters = fetchJSON ''/api/search/frames'' (body_init ''POST'' filters)"

definition DEFAULT_SEARCH_SUGGESTIONS :: "string list" where
  "DEFAULT_SEARCH_SUGGESTIONS = [''worker without hard hat near crane'', ''person in exclusion zone'',
     ''missing harness at height'', ''vehicle near workers'', ''unsecured scaffolding'']"

definition getSearchSuggestions :: "string \<Rightarrow> json option io" where
  "getSearchSuggestions q =
     try_io (fetchJSON (''/api/v1/search/suggest?q='' @ encodeURIComponent q) no_init)
            (return_io (Some (JArr (map JStr (filter (\<lambda>s. contains_str (to_lower q) (to_lower s)) DEFAULT_SEARCH_SUGGESTIONS)))))"

section \<open>Companies, sites, assignments\<close>

definition getCompanies :: "json option io" where
  "getCompanies = fetchJSON ''/api/v1/companies'' no_init"

definition getCompany :: "id \<Rightarrow> json option io" where
  "getCompany i = fetchJSON (''/api/v1/companies/'' @ i) no_init"

definition createCompany :: "json \<Rightarrow> json option io" where
  "createCompany data = fetchJSON ''/api/v1/companies'' (body_init ''POST'' data)"

definition getCompanyUsers :: "id \<Rightarrow> json option io" where
  "getCompanyUsers i = fetchJSON (''/api/v1/companies/'' @ i @ ''/users'') no_init"

definition createSite :: "json \<Rightarrow> json option io" where
  "createSite data = fetchJSON ''/api/v1/sites'' (body_init ''POST'' data)"

definition updateSite :: "id \<Rightarrow> json \<Rightarrow> json option io" where
  "updateSite i data = fetchJSON (''/api/v1/sites/'' @ i) (body_init ''PUT'' data)"

definition deleteSite :: "id \<Rightarrow> unit io" where
  "deleteSite i = bind_io (fetchJSON (''/api/v1/sites/'' @ i) (bare_init ''DELETE'')) (\<lambda>_. return_io ())"

definition getCameraAssignments :: "id \<Rightarrow> json option io" where
  "getCameraAssignments siteId = fetchJSON (''/api/v1/sites/'' @ siteId @ ''/camera-assignments'') no_init"

definition assignCameraToSite :: "id \<Rightarrow> id \<Rightarrow> string \<Rightarrow> json option io" where
  "assignCameraToSite siteId cameraId label = fetchJSON (''/api/v1/sites/'' @ siteId @ ''/camera-assignments'') (body_init ''POST'' (JObj [(''camera_id'', JStr cameraId), (''location_label'', JStr label)]))"

definition unassignCamera :: "id \<Rightarrow> id \<Rightarrow> unit io" where
  "unassignCamera siteId cameraId = bind_io (fetchJSON (''/api/v1/sites/'' @ siteId @ ''/camera-assignments/'' @ cameraId) (bare_init ''DELETE'')) (\<lambda>_. return_io ())"

definition getAllSpeakers :: "json option io" where
  "getAllSpeakers = fetchJSON ''/api/v1/speakers'' no_init"

definition assignSpeakerToSite :: "id \<Rightarrow> id \<Rightarrow> string \<Rightarrow> unit io" where
  "assignSpeakerToSite siteId speakerId label = bind_io (fetchJSON (''/api/v1/sites/'' @ siteId @ ''/speaker-assignments'') (body_init ''POST'' (JObj [(''speaker_id'', JStr speakerId), (''location_label'', JStr label)]))) (\<lambda>_. return_io ())"

definition unassignSpeaker :: "id \<Rightarrow> id \<Rightarrow> unit io" where
  "unassignSpeaker siteId speakerId = bind_io (fetchJSON (''/api/v1/sites/'' @ siteId @ ''/speaker-assignments/'' @ speakerId) (bare_init ''DELETE'')) (\<lambda>_. return_io ())"

section \<open>Locks, ownership, procedures, maps\<close>

definition getSiteLocks :: "json option io" where
  "getSiteLocks = fetchJSON ''/api/v1/sites/locks'' no_init"

definition api_lockSite :: "id \<Rightarrow> json option io" where
  "api_lockSite siteId = fetchJSON (''/api/v1/sites/'' @ siteId @ ''/lock'') (bare_init ''POST'')"

definition api_unlockSite :: "id \<Rightarrow> unit io" where
  "api_unlockSite siteId = bind_io (fetchJSON (''/api/v1/sites/'' @ siteId @ ''/lock'') (bare_init ''DELETE'')) (\<lambda>_. return_io ())"

definition api_claimAlert :: "id \<Rightarrow> id \<Rightarrow> unit io" where
  "api_claimAlert alertId operatorId = bind_io (fetchJSON (''/api/v1/alerts/'' @ alertId @ ''/claim'') (body_init ''PUT'' (JObj [(''operator_id'', JStr operatorId)]))) (\<lambda>_. return_io ())"

definition api_releaseAlert :: "id \<Rightarrow> unit io" where
  "api_releaseAlert alertId = bind_io (fetchJSON (''/api/v1/alerts/'' @ alertId @ ''/claim'') (bare_init ''DELETE'')) (\<lambda>_. return_io ())"

definition getSiteSOPs :: "id \<Rightarrow> json option io" where
  "getSiteSOPs siteId = fetchJSON (''/api/v1/sites/'' @ siteId @ ''/sops'') no_init"

definition site_id_of :: "json \<Rightarrow> string" where
  "site_id_of data = (case json_field ''site_id'' data of Some (JStr s) \<Rightarrow> s | _ \<Rightarrow> ''undefined'')"

definition createSiteSOP :: "json \<Rightarrow> json option io" where
  "createSiteSOP data = fetchJSON (''/api/v1/sites/'' @ site_id_of data @ ''/sops'') (body_init ''POST'' data)"

definition updateSiteSOP :: "id \<Rightarrow> json \<Rightarrow> json option io" where
  "updateSiteSOP i data = fetchJSON (''/api/v1/sops/'' @ i) (body_init ''PUT'' data)"

definition deleteSiteSOP :: "id \<Rightarrow> unit io" where
  "deleteSiteSOP i = bind_io (fetchJSON (''/api/v1/sops/'' @ i) (bare_init ''DELETE'')) (\<lambda>_. return_io ())"

definition getSiteMap :: "id \<Rightarrow> json option io" where
  "getSiteMap siteId = fetchJSON (''/api/v1/sites/'' @ siteId @ ''/map'') no_init"

definition updateSiteMap :: "id \<Rightarrow> json \<Rightarrow> json option io" where
  "updateSiteMap siteId data = fetchJSON (''/api/v1/sites/'' @ siteId @ ''/map'') (body_init ''PUT'' data)"

section \<open>Operators, reports, rules, integrations\<close>

definition getPendingHandoffs :: "id \<Rightarrow> json option io" where
  "getPendingHandoffs operatorId = fetchJSON (''/api/v1/handoffs?to='' @ operatorId @ ''&status=pending'') no_init"

definition createHandoff :: "json \<Rightarrow> json option io" where
  "createHandoff data = fetchJSON ''/api/v1/handoffs'' (body_init ''POST'' data)"

definition acceptHandoff :: "id \<Rightarrow> unit io" where
  "acceptHandoff i = bind_io (fetchJSON (''/api/v1/handoffs/'' @ i @ ''/accept'') (bare_init ''PUT'')) (\<lambda>_. return_io ())"

definition getOperatorPresence :: "json option io" where
  "getOperatorPresence = fetchJSON ''/api/v1/operators/presence'' no_init"

definition updatePresence :: "json \<Rightarrow> unit io" where
  "updatePresence data = bind_io (fetchJSON ''/api/v1/operators/presence'' (body_init ''PUT'' data)) (\<lambda>_. return_io ())"

definition getOperatorMetrics :: "json option io" where
  "getOperatorMetrics = fetchJSON ''/api/v1/operators/metrics'' no_init"

definition getScheduledReports :: "json option io" where
  "getScheduledReports = fetchJSON ''/api/v1/reports/scheduled'' no_init"

definition toggleScheduledReport :: "id \<Rightarrow> bool \<Rightarrow> unit io" where
  "toggleScheduledReport i enabled = bind_io (fetchJSON (''/api/v1/reports/scheduled/'' @ i) (body_init ''PATCH'' (JObj [(''enabled'', JBool enabled)]))) (\<lambda>_. return_io ())"

definition getNotificationRules :: "id \<Rightarrow> json option io" where
  "getNotificationRules siteId = fetchJSON (''/api/v1/sites/'' @ siteId @ ''/notifications'') no_init"

definition createNotificationRule :: "json \<Rightarrow> json option io" where
  "createNotificationRule data = fetchJSON (''/api/v1/sites/'' @ site_id_of data @ ''/notifications'') (body_init ''POST'' data)"

definition deleteNotificationRule :: "id \<Rightarrow> unit io" where
  "deleteNotificationRule i = bind_io (fetchJSON (''/api/v1/notifications/'' @ i) (bare_init ''DELETE'')) (\<lambda>_. return_io ())"

definition getExclusionZones :: "id \<Rightarrow> json option io" where
  "getExclusionZones siteId = fetchJSON (''/api/v1/sites/'' @ siteId @ ''/zones'') no_init"

definition getIntegrations :: "json option io" where
  "getIntegrations = fetchJSON ''/api/v1/integrations'' no_init"

definition toggleIntegration :: "id \<Rightarrow> bool \<Rightarrow> unit io" where
  "toggleIntegration i active = bind_io (fetchJSON (''/api/v1/integrations/'' @ i) (body_init ''PATCH'' (JObj [(''active'', JBool active)]))) (\<lambda>_. return_io ())"

definition deleteIntegration :: "id \<Rightarrow> unit io" where
  "deleteIntegration i = bind_io (fetchJSON (''/api/v1/integrations/'' @ i) (bare_init ''DELETE'')) (\<lambda>_. return_io ())"

section \<open>Security events\<close>

text \<open>The validation factors; a field absent from the partial object is \<open>None\<close>.\<close>

record AVSFactors =
  video_verified :: "bool option"
  person_detected :: "bool option"
  suspicious_behavior :: "bool option"
  weapon_observed :: "bool option"
  active_crime :: "bool option"
  multi_camera_evidence :: "bool option"
  multi_sensor_evidence :: "bool option"
  audio_verified :: "bool option"
  talkdown_ignored :: "bool option"
  auth_failure :: "bool option"
  ai_corroborated :: "bool option"

definition truthy :: "bool option \<Rightarrow> bool" where
  "truthy b = (b = Some True)"

definition previewAVSScore :: "AVSFactors \<Rightarrow> nat \<times> string \<times> bool" where
  "previewAVSScore f =
     (if \<not> truthy (video_verified f) then (0, ''UNVERIFIED'', False)
      else if truthy (weapon_observed f) \<or> truthy (active_crime f) then (4, ''CRITICAL'', True)
      else (let corroborated = truthy (suspicious_behavior f) \<or> truthy (multi_camera_evidence f) \<or>
                  truthy (multi_sensor_evidence f) \<or> truthy (audio_verified f) \<or>
                  truthy (talkdown_ignored f) \<or> truthy (auth_failure f) in
            if corroborated then (3, ''ELEVATED'', True)
            else if truthy (person_detected f) then (2, ''VERIFIED'', True)
            else (1, ''MINIMAL'', False)))"

definition createSecurityEvent :: "json \<Rightarrow> json option io" where
  "createSecurityEvent payload = fetchJSON ''/api/v1/events'' (body_init ''POST'' payload)"

definition listSecurityEvents :: "id \<Rightarrow> json option io" where
  "listSecurityEvents siteId = fetchJSON (''/api/v1/events?site_id='' @ encodeURIComponent siteId) no_init"

definition escalateAlarm :: "id \<Rightarrow> int \<Rightarrow> unit io" where
  "escalateAlarm alarmId level = bind_io (fetchJSON (''/api/v1/alarms/'' @ alarmId @ ''/escalate'') (body_init ''POST'' (JObj [(''level'', JNum (of_int level))]))) (\<lambda>_. return_io ())"

definition submitAIFeedback :: "id \<Rightarrow> bool \<Rightarrow> unit io" where
  "submitAIFeedback alarmId agreed = bind_io (fetchJSON (''/api/v1/alarms/'' @ alarmId @ ''/ai-feedback'') (body_init ''POST'' (JObj [(''agreed'', JBool agreed)]))) (\<lambda>_. return_io ())"

record SLAParams =
  sla_from :: "string option"
  sla_to :: "string option"
  sla_group :: "string option"

definition slaQuery :: "SLAParams \<Rightarrow> params \<Rightarrow> params" where
  "slaQuery p ps =
     set_str ''group'' (sla_group p) (set_str ''to'' (sla_to p) (set_str ''from'' (sla_from p) ps))"

definition getSLAReport :: "SLAParams \<Rightarrow> json option io" where
  "getSLAReport p = fetchJSON (''/api/reports/sla?'' @ params_str (slaQuery p [])) no_init"

definition slaReportCsvUrl :: "SLAParams \<Rightarrow> string" where
  "slaReportCsvUrl p = ''/api/reports/sla?'' @ params_str (slaQuery p [(''format'', ''csv'')])"

definition downloadAuthenticated :: "string \<Rightarrow> string \<Rightarrow> (string \<times> string) io" where
  "downloadAuthenticated url filename =
     bind_io (authFetch url get_init) (\<lambda>res.
     if \<not> ok res then throw_io (''download failed: '' @ nat_str (rs_status res))
     else return_io (filename, rs_text res))"

definition needs_verification :: "json \<Rightarrow> bool" where
  "needs_verification e =
     ((json_field ''severity'' e = Some (JStr ''critical'') \<or> json_field ''severity'' e = Some (JStr ''high'')) \<and>
      (case json_field ''verified_at'' e of None \<Rightarrow> True | Some v \<Rightarrow> falsy v))"

definition listUnverifiedSecurityEvents :: "json io" where
  "listUnverifiedSecurityEvents =
     bind_io (listSecurityEvents []) (\<lambda>all.
     case all of Some (JArr es) \<Rightarrow> return_io (JArr (filter needs_verification es))
     | _ \<Rightarrow> throw_io ''all.filter is not a function'')"

definition verifySecurityEvent :: "id \<Rightarrow> unit io" where
  "verifySecurityEvent i = bind_io (fetchJSON (''/api/v1/events/'' @ encodeURIComponent i @ ''/verify'') (bare_init ''POST'')) (\<lambda>_. return_io ())"

section \<open>Evidence sharing and feature flags\<close>

definition listIncidentShares :: "id \<Rightarrow> json option io" where
  "listIncidentShares i = fetchJSON (''/api/v1/incidents/'' @ encodeURIComponent i @ ''/shares'') no_init"

datatype ShareExpiry = E1h | E1d | E1w | E1m | Never

fun SHARE_TTL_HOURS :: "ShareExpiry \<Rightarrow> nat" where
  "SHARE_TTL_HOURS E1h = 1"
| "SHARE_TTL_HOURS E1d = 24"
| "SHARE_TTL_HOURS E1w = 24 * 7"
| "SHARE_TTL_HOURS E1m = 24 * 30"
| "SHARE_TTL_HOURS Never = 24 * 90"

definition shareRequest :: "id \<Rightarrow> ShareExpiry \<Rightarrow> json" where
  "shareRequest incident e = JObj [(''incident_id'', JStr incident), (''expires_in_hours'', JNum (of_nat (SHARE_TTL_HOURS e)))]"

definition createEvidenceShareLink :: "id \<Rightarrow> ShareExpiry \<Rightarrow> json io" where
  "createEvidenceShareLink incident e =
     bind_io (fetchJSON (''/api/v1/incidents/'' @ encodeURIComponent incident @ ''/share'') (body_init ''POST'' (shareRequest incident e))) (\<lambda>created.
     case created of
       None \<Rightarrow> throw_io ''Cannot read properties of undefined''
     | Some c \<Rightarrow>
         (let token = nullish (json_field ''token'' c) JNull in
          return_io (JObj [(''token'', token),
            (''url'', JStr (''/share/'' @ (case token of JStr t \<Rightarrow> t | _ \<Rightarrow> ''undefined''))),
            (''expires_at'', nullish (json_field ''expires_at'' c) JNull)])))"

definition revokeEvidenceShareLink :: "string \<Rightarrow> unit io" where
  "revokeEvidenceShareLink token = bind_io (fetchJSON (''/api/v1/shares/'' @ encodeURIComponent token) (bare_init ''DELETE'')) (\<lambda>_. return_io ())"

definition DEFAULT_FEATURE_FLAGS_API :: "(string \<times> bool) list" where
  "DEFAULT_FEATURE_FLAGS_API = [(''vlm_safety'', True), (''semantic_search'', True), (''evidence_sharing'', True), (''global_ai_training'', True)]"

definition getFeatureFlags :: "string option \<Rightarrow> json option io" where
  "getFeatureFlags siteId =
     try_io (fetchJSON (''/api/v1/features'' @ (if truthy_str siteId then ''?site_id='' @ the siteId else [])) no_init)
            (return_io (Some (JObj (map (\<lambda>(k, b). (k, JBool b)) DEFAULT_FEATURE_FLAGS_API))))"


section \<open>The server's score\<close>

text \<open>\<^verbatim>\<open>Factors\<close>, \<^verbatim>\<open>ComputeScore\<close>, \<^verbatim>\<open>ScoreLabel\<close> and \<^verbatim>\<open>DispatchEligible\<close> of \<^verbatim>\<open>internal/avs/scoring.go\<close>. A
  field missing from the JSON decodes to false.\<close>

record Factors =
  VideoVerified :: bool
  PersonDetected :: bool
  SuspiciousBehavior :: bool
  WeaponObserved :: bool
  ActiveCrime :: bool
  MultiCameraEvidence :: bool
  MultiSensorEvidence :: bool
  AudioVerified :: bool
  TalkdownIgnored :: bool
  AuthFailure :: bool
  AICorroborated :: bool

definition decode_factors :: "AVSFactors \<Rightarrow> Factors" where
  "decode_factors f =
    \<lparr> VideoVerified = nullish (video_verified f) False, PersonDetected = nullish (person_detected f) False,
      SuspiciousBehavior = nullish (suspicious_behavior f) False, WeaponObserved = nullish (weapon_observed f) False,
      ActiveCrime = nullish (active_crime f) False, MultiCameraEvidence = nullish (multi_camera_evidence f) False,
      MultiSensorEvidence = nullish (multi_sensor_evidence f) False, AudioVerified = nullish (audio_verified f) False,
      TalkdownIgnored = nullish (talkdown_ignored f) False, AuthFailure = nullish (auth_failure f) False,
      AICorroborated = nullish (ai_corroborated f) False \<rparr>"

definition ComputeScore :: "Factors \<Rightarrow> nat" where
  "ComputeScore f =
     (if \<not> VideoVerified f then 0
      else if WeaponObserved f \<or> ActiveCrime f then 4
      else (let corroborated = SuspiciousBehavior f \<or> MultiCameraEvidence f \<or> MultiSensorEvidence f \<or>
                  AudioVerified f \<or> TalkdownIgnored f \<or> AuthFailure f in
            if corroborated then 3 else if PersonDetected f then 2 else 1))"

definition ScoreLabel :: "nat \<Rightarrow> string" where
  "ScoreLabel s = (if s = 0 then ''UNVERIFIED'' else if s = 1 then ''MINIMAL'' else if s = 2 then ''VERIFIED''
     else if s = 3 then ''ELEVATED'' else if s = 4 then ''CRITICAL'' else ''UNKNOWN'')"

definition DispatchEligible :: "nat \<Rightarrow> bool" where
  "DispatchEligible s = (s \<ge> 2)"

text \<open>The expiry check of \<^verbatim>\<open>HandleCreateEvidenceShare\<close> (\<^verbatim>\<open>internal/api/evidence_share.go\<close>): the lifetime in
  hours, or \<open>None\<close> for a 400.\<close>

definition shareTTL :: "nat \<Rightarrow> int \<Rightarrow> nat option" where
  "shareTTL default_hours requested =
     (if requested > 0
      then if requested > 90 * 24 then None else Some (nat requested)
      else Some default_hours)"

section \<open>Properties\<close>

text \<open>C15: The score the operator sees while filling in the disposition is the score the server will
  record: for every set of answered factors the preview's number, label and dispatch flag are those the
  server computes, and an alarm is shown as dispatchable only if its video was verified.\<close>

theorem avs_preview_matches_server:
  "previewAVSScore f =
     (let s = ComputeScore (decode_factors f) in (s, ScoreLabel s, DispatchEligible s)) \<and>
   (snd (snd (previewAVSScore f)) \<longrightarrow> truthy (video_verified f))"
proof -
  have t: "truthy b = nullish b False" for b
    by (cases b) (simp_all add: truthy_def)
  show ?thesis
    by (simp add: previewAVSScore_def ComputeScore_def decode_factors_def t ScoreLabel_def
        DispatchEligible_def Let_def)
qed

definition factors_fixture :: AVSFactors where
  "factors_fixture = \<lparr> video_verified = Some True, person_detected = Some True, suspicious_behavior = None,
     weapon_observed = None, active_crime = None, multi_camera_evidence = None, multi_sensor_evidence = None,
     audio_verified = None, talkdown_ignored = None, auth_failure = None, ai_corroborated = None \<rparr>"

theorem avs_preview_matches_server_witness:
  "previewAVSScore factors_fixture = (2, ''VERIFIED'', True) \<and> truthy (video_verified factors_fixture)"
  using avs_preview_matches_server [of factors_fixture]
  by (simp add: factors_fixture_def ComputeScore_def decode_factors_def ScoreLabel_def DispatchEligible_def
      Let_def truthy_def)

text \<open>Every expiry the share dialog offers is accepted by the server with exactly the offered
  lifetime; choosing never gives the longest lifetime the server allows.\<close>

theorem share_expiry_accepted:
  "shareTTL d (int (SHARE_TTL_HOURS e)) = Some (SHARE_TTL_HOURS e) \<and>
   SHARE_TTL_HOURS e \<le> SHARE_TTL_HOURS Never \<and>
   shareTTL d (int (SHARE_TTL_HOURS Never) + 1) = None"
  by (cases e) (simp_all add: shareTTL_def)

text \<open>No failure of a platform call is hidden: \<^verbatim>\<open>fetchJSON\<close> returns a value only for a 2xx answer
  (nothing for a 204, the parsed body otherwise); every other status, an unreadable body and a network
  failure reach the caller as an exception, with the server's own text when it sent one.\<close>

theorem fetch_json_reports_failure:
  assumes "authFetch url (with_content_type init) w = (w', r)"
  shows "fetchJSON url init w = (w',
    (case r of
       Inl e \<Rightarrow> Inl e
     | Inr res \<Rightarrow>
         if 200 \<le> rs_status res \<and> rs_status res \<le> 299
         then (if rs_status res = 204 then Inr None
               else (case rs_json res of None \<Rightarrow> throw ''Unexpected token in JSON'' | Some j \<Rightarrow> Inr (Some j)))
         else throw (if rs_text res = [] then ''API '' @ nat_str (rs_status res) @ '': '' @ rs_statusText res else rs_text res)))"
  using assms
  by (auto simp: fetchJSON_def bind_io_def ok_def throw_io_def return_io_def res_json_def split: sum.split option.split)

definition outage_world :: World where
  "outage_world = fixture_world\<lparr>wd_server := \<lambda>j lg q. error_reply 502 ''bad gateway''\<rparr>"

theorem fetch_json_reports_failure_witness:
  "snd (fetchJSON ''/api/v1/sites'' no_init outage_world) = throw (''bad gateway'' @ [CHR 0x0A])"
proof -
  let ?run = "authFetch ''/api/v1/sites'' (with_content_type no_init) outage_world"
  have "snd ?run = Inr \<lparr>rs_status = 502, rs_statusText = [], rs_text = ''bad gateway'' @ [CHR 0x0A], rs_json = None\<rparr>"
    by (simp add: authFetch_def bind_io_def with_content_type_def no_init_def get_init_def isMutation_def
        request_method_def upper_char_def send_def outage_world_def error_reply_def return_io_def
        redirect_on_401_def Let_def)
  then have "?run = (fst ?run, Inr \<lparr>rs_status = 502, rs_statusText = [], rs_text = ''bad gateway'' @ [CHR 0x0A], rs_json = None\<rparr>)"
    by (simp add: prod_eq_iff)
  from fetch_json_reports_failure [OF this] show ?thesis by simp
qed

end
