(* ===== verification/Json.thy ===== *)
theory Json
  imports Prelude
begin

text \<open>
  \<^verbatim>\<open>JSON.stringify\<close> and \<^verbatim>\<open>JSON.parse\<close>, which the code uses to keep structured values in the browser's
  storage. The printer writes integers in decimal; how the browser prints a fraction is the
  parameter \<open>fractx\<close>. The parser accepts the JSON grammar with white space, escapes and the last of
  several equal keys, and returns \<open>None\<close> where \<^verbatim>\<open>JSON.parse\<close> throws. It runs on fuel; twice the length of
  the text is enough (\<open>parse_stringify\<close> gives the value back for every printed text).
\<close>

section \<open>Printing\<close>

abbreviation quote :: char where
  "quote \<equiv> CHR 0x22"

abbreviation backslash :: char where
  "backslash \<equiv> CHR 0x5C"

definition hex_low :: "nat \<Rightarrow> char" where
  "hex_low d = (if d < 10 then char_of (48 + d) else char_of (87 + d))"

definition esc_char :: "char \<Rightarrow> string" where
  "esc_char c =
     (if c = quote then [backslash, quote]
      else if c = backslash then [backslash, backslash]
      else if (of_char c :: nat) < 32
      then (if c = CHR 0x08 then [backslash, CHR ''b''] else if c = CHR 0x09 then [backslash, CHR ''t'']
            else if c = CHR 0x0A then [backslash, CHR ''n''] else if c = CHR 0x0C then [backslash, CHR ''f'']
            else if c = CHR 0x0D then [backslash, CHR ''r'']
            else [backslash, CHR ''u'', CHR ''0'', CHR ''0'', hex_low (of_char c div 16), hex_low (of_char c mod 16)])
      else [c])"

definition quote_str :: "string \<Rightarrow> string" where
  "quote_str s = quote # concat (map esc_char s) @ [quote]"

definition is_int :: "number \<Rightarrow> bool" where
  "is_int n \<longleftrightarrow> snd (quotient_of n) = 1"

definition num_text :: "(number \<Rightarrow> string) \<Rightarrow> number \<Rightarrow> string" where
  "num_text fractx n = (if is_int n then int_str (fst (quotient_of n)) else fractx n)"

fun stringify :: "(number \<Rightarrow> string) \<Rightarrow> json \<Rightarrow> string" where
  "stringify fractx JNull = ''null''"
| "stringify fractx (JBool b) = (if b then ''true'' else ''false'')"
| "stringify fractx (JNum n) = num_text fractx n"
| "stringify fractx (JStr s) = quote_str s"
| "stringify fractx (JArr xs) = ''['' @ join '','' (map (stringify fractx) xs) @ '']''"
| "stringify fractx (JObj fs) = ''{'' @ join '','' (map (\<lambda>f. quote_str (fst f) @ '':'' @ stringify fractx (snd f)) fs) @ ''}''"

section \<open>Parsing\<close>

definition is_ws :: "char \<Rightarrow> bool" where
  "is_ws c = (c = CHR '' '' \<or> c = CHR 0x09 \<or> c = CHR 0x0A \<or> c = CHR 0x0D)"

text \<open>\<^verbatim>\<open>s.trim()\<close>.\<close>

definition js_trim :: "string \<Rightarrow> string" where
  "js_trim s = rev (dropWhile is_ws (rev (dropWhile is_ws s)))"

definition skip_ws :: "string \<Rightarrow> string" where
  "skip_ws s = dropWhile is_ws s"

definition hex_digit_val :: "char \<Rightarrow> nat option" where
  "hex_digit_val c = (let n = of_char c in
     if 48 \<le> n \<and> n \<le> 57 then Some (n - 48) else if 97 \<le> n \<and> n \<le> 102 then Some (n - 87)
     else if 65 \<le> n \<and> n \<le> 70 then Some (n - 55) else None)"

definition hex4 :: "char \<Rightarrow> char \<Rightarrow> char \<Rightarrow> char \<Rightarrow> nat option" where
  "hex4 a b c d = (case (hex_digit_val a, hex_digit_val b, hex_digit_val c, hex_digit_val d) of
     (Some p, Some q, Some r, Some s) \<Rightarrow> Some (((p * 16 + q) * 16 + r) * 16 + s) | _ \<Rightarrow> None)"

text \<open>The UTF-8 bytes of a code unit.\<close>

definition utf8 :: "nat \<Rightarrow> string" where
  "utf8 n = (if n < 128 then [char_of n]
     else if n < 2048 then [char_of (192 + n div 64), char_of (128 + n mod 64)]
     else [char_of (224 + n div 4096), char_of (128 + n div 64 mod 64), char_of (128 + n mod 64)])"

definition unescape :: "char \<Rightarrow> char option" where
  "unescape d = (if d = quote \<or> d = backslash \<or> d = CHR ''/'' then Some d
     else if d = CHR ''b'' then Some (CHR 0x08) else if d = CHR ''t'' then Some (CHR 0x09)
     else if d = CHR ''n'' then Some (CHR 0x0A) else if d = CHR ''f'' then Some (CHR 0x0C)
     else if d = CHR ''r'' then Some (CHR 0x0D) else None)"

definition push :: "string \<Rightarrow> (string \<times> string) option \<Rightarrow> (string \<times> string) option" where
  "push x r = map_option (\<lambda>(s, t). (x @ s, t)) r"

fun parse_chars :: "string \<Rightarrow> (string \<times> string) option" where
  "parse_chars [] = None"
| "parse_chars (c # s) =
     (if c = quote then Some ([], s)
      else if c = backslash
      then (case s of
              [] \<Rightarrow> None
            | d # t \<Rightarrow>
                (if d = CHR ''u''
                 then (case t of
                         x1 # x2 # x3 # x4 # u \<Rightarrow>
                           (case hex4 x1 x2 x3 x4 of None \<Rightarrow> None | Some n \<Rightarrow> push (utf8 n) (parse_chars u))
                       | _ \<Rightarrow> None)
                 else (case unescape d of None \<Rightarrow> None | Some x \<Rightarrow> push [x] (parse_chars t))))
      else if (of_char c :: nat) < 32 then None
      else push [c] (parse_chars s))"

definition is_digit :: "char \<Rightarrow> bool" where
  "is_digit c = (48 \<le> (of_char c :: nat) \<and> (of_char c :: nat) \<le> 57)"

text \<open>The optional fraction and exponent of a number.\<close>

definition parse_frac :: "string \<Rightarrow> (number \<times> string) option" where
  "parse_frac s = (case s of
     c # t \<Rightarrow> if c = CHR ''.''
       then (let ds = takeWhile is_digit t in
             if ds = [] then None else Some (of_nat (dec_val ds) / 10 ^ length ds, dropWhile is_digit t))
       else Some (0, s)
   | [] \<Rightarrow> Some (0, []))"

definition parse_exp :: "string \<Rightarrow> (int \<times> string) option" where
  "parse_exp s = (case s of
     c # t \<Rightarrow> if c = CHR ''e'' \<or> c = CHR ''E''
       then (let (neg, u) = (case t of d # t' \<Rightarrow> if d = CHR ''-'' then (True, t') else if d = CHR ''+'' then (False, t') else (False, t)
                                     | [] \<Rightarrow> (False, []));
                 ds = takeWhile is_digit u in
             if ds = [] then None
             else Some ((if neg then - int (dec_val ds) else int (dec_val ds)), dropWhile is_digit u))
       else Some (0, s)
   | [] \<Rightarrow> Some (0, []))"

definition parse_number :: "string \<Rightarrow> (number \<times> string) option" where
  "parse_number s =
     (let (neg, u) = (case s of c # t \<Rightarrow> if c = CHR ''-'' then (True, t) else (False, s) | [] \<Rightarrow> (False, []));
          ds = takeWhile is_digit u; r1 = dropWhile is_digit u in
      if ds = [] \<or> (hd ds = CHR ''0'' \<and> length ds > 1) then None
      else (case parse_frac r1 of
              None \<Rightarrow> None
            | Some (f, r2) \<Rightarrow>
                (case parse_exp r2 of
                   None \<Rightarrow> None
                 | Some (e, r3) \<Rightarrow>
                     (let v = (of_nat (dec_val ds) + f) * (if e \<ge> 0 then 10 ^ nat e else 1 / 10 ^ nat (- e))
                      in Some ((if neg then - v else v), r3)))))"

text \<open>A repeated key keeps its first position and takes its last value.\<close>

fun obj_set :: "string \<times> json \<Rightarrow> (string \<times> json) list \<Rightarrow> (string \<times> json) list" where
  "obj_set (k, v) [] = [(k, v)]"
| "obj_set (k, v) ((j, u) # fs) = (if j = k then (k, v) # fs else (j, u) # obj_set (k, v) fs)"

text \<open>The own enumerable properties of a value, as object spread copies them.\<close>

fun spread :: "json \<Rightarrow> (string \<times> json) list" where
  "spread (JObj fs) = fs"
| "spread (JArr xs) = zip (map nat_str [0..<length xs]) xs"
| "spread (JStr t) = zip (map nat_str [0..<length t]) (map (\<lambda>c. JStr [c]) t)"
| "spread _ = []"

definition obj_norm :: "(string \<times> json) list \<Rightarrow> (string \<times> json) list" where
  "obj_norm fs = fold obj_set fs []"

fun parse_value :: "nat \<Rightarrow> string \<Rightarrow> (json \<times> string) option"
  and parse_elems :: "nat \<Rightarrow> string \<Rightarrow> (json list \<times> string) option"
  and parse_members :: "nat \<Rightarrow> string \<Rightarrow> ((string \<times> json) list \<times> string) option" where
  "parse_value 0 s = None"
| "parse_value (Suc n) s =
     (case skip_ws s of
        [] \<Rightarrow> None
      | c # t \<Rightarrow>
          (if c = quote then map_option (\<lambda>(x, r). (JStr x, r)) (parse_chars t)
           else if c = CHR ''[''
           then (if skip_ws t \<noteq> [] \<and> hd (skip_ws t) = CHR '']'' then Some (JArr [], tl (skip_ws t))
                 else map_option (\<lambda>(xs, r). (JArr xs, r)) (parse_elems n t))
           else if c = CHR ''{''
           then (if skip_ws t \<noteq> [] \<and> hd (skip_ws t) = CHR ''}'' then Some (JObj [], tl (skip_ws t))
                 else map_option (\<lambda>(fs, r). (JObj (obj_norm fs), r)) (parse_members n t))
           else if starts_with ''null'' (c # t) then Some (JNull, drop 4 (c # t))
           else if starts_with ''true'' (c # t) then Some (JBool True, drop 4 (c # t))
           else if starts_with ''false'' (c # t) then Some (JBool False, drop 5 (c # t))
           else map_option (\<lambda>(v, r). (JNum v, r)) (parse_number (c # t))))"
| "parse_elems 0 s = None"
| "parse_elems (Suc n) s =
     (case parse_value n s of
        None \<Rightarrow> None
      | Some (v, r) \<Rightarrow>
          (case skip_ws r of
             [] \<Rightarrow> None
           | d # r' \<Rightarrow>
               (if d = CHR '','' then map_option (\<lambda>(xs, q). (v # xs, q)) (parse_elems n r')
                else if d = CHR '']'' then Some ([v], r') else None)))"
| "parse_members 0 s = None"
| "parse_members (Suc n) s =
     (case skip_ws s of
        [] \<Rightarrow> None
      | c # t \<Rightarrow>
          (if c \<noteq> quote then None
           else (case parse_chars t of
                   None \<Rightarrow> None
                 | Some (k, r) \<Rightarrow>
                     (if skip_ws r = [] \<or> hd (skip_ws r) \<noteq> CHR '':'' then None
                      else (case parse_value n (tl (skip_ws r)) of
                              None \<Rightarrow> None
                            | Some (v, q) \<Rightarrow>
                                (case skip_ws q of
                                   [] \<Rightarrow> None
                                 | d # q' \<Rightarrow>
                                     (if d = CHR '','' then map_option (\<lambda>(fs, z). ((k, v) # fs, z)) (parse_members n q')
                                      else if d = CHR ''}'' then Some ([(k, v)], q') else None)))))))"

definition json_parse :: "string \<Rightarrow> json option" where
  "json_parse s = (case parse_value (2 * length s + 2) s of
     Some (j, r) \<Rightarrow> if skip_ws r = [] then Some j else None | None \<Rightarrow> None)"


section \<open>Round trip\<close>

lemma hex_low_val: "d < 16 \<Longrightarrow> hex_digit_val (hex_low d) = Some d"
  by (auto simp: hex_digit_val_def hex_low_def Let_def)

lemma of_char_bound: "(of_char c :: nat) < 256"
  by (metis nat_of_char_less_256)

lemma hex4_low:
  assumes "n < 256"
  shows "hex4 (CHR ''0'') (CHR ''0'') (hex_low (n div 16)) (hex_low (n mod 16)) = Some n"
proof -
  have "n div 16 < 16" using assms by simp
  moreover have "hex_digit_val (CHR ''0'') = Some 0" by (simp add: hex_digit_val_def Let_def)
  ultimately show ?thesis by (simp add: hex4_def hex_low_val)
qed

lemma parse_esc_char: "parse_chars (esc_char c @ s) = push [c] (parse_chars s)"
proof (cases "c = quote \<or> c = backslash \<or> \<not> (of_char c :: nat) < 32 \<or> c \<in> {CHR 0x08, CHR 0x09, CHR 0x0A, CHR 0x0C, CHR 0x0D}")
  case True
  then show ?thesis by (auto simp: esc_char_def unescape_def)
next
  case False
  then have esc: "esc_char c = [backslash, CHR ''u'', CHR ''0'', CHR ''0'', hex_low (of_char c div 16), hex_low (of_char c mod 16)]"
    by (simp add: esc_char_def)
  have "utf8 (of_char c) = [c]" using False by (simp add: utf8_def)
  with hex4_low [OF of_char_bound [of c]] show ?thesis unfolding esc by simp
qed

lemma parse_chars_quoted: "parse_chars (concat (map esc_char s) @ quote # rest) = Some (s, rest)"
  by (induction s) (simp_all add: parse_esc_char push_def)

lemma digit_char_is_digit: "d < 10 \<Longrightarrow> is_digit (digit_char d)"
  by (simp add: is_digit_def digit_char_def)

lemma nat_str_digits: "c \<in> set (nat_str n) \<Longrightarrow> is_digit c"
proof (induction n rule: nat_str.induct)
  case (1 n)
  then show ?case by (subst (asm) (2) nat_str.simps) (auto simp: digit_char_is_digit split: if_splits)
qed

lemma digit_char_zero: "digit_char 0 = CHR ''0''"
  by (simp add: digit_char_def char_of_eq_iff)

lemma digit_char_nonzero: "0 < d \<Longrightarrow> d < 10 \<Longrightarrow> digit_char d \<noteq> CHR ''0''"
  by (metis digit_char_zero digit_val_char less_irrefl zero_less_numeral)

lemma nat_str_no_leading_zero: "n > 0 \<Longrightarrow> hd (nat_str n) \<noteq> CHR ''0''"
proof (induction n rule: nat_str.induct)
  case (1 n)
  show ?case
  proof (cases "n < 10")
    case True
    with 1(2) show ?thesis by (subst nat_str.simps) (simp add: digit_char_nonzero)
  next
    case False
    with 1 have "hd (nat_str (n div 10)) \<noteq> CHR ''0''" by simp
    with False show ?thesis by (subst nat_str.simps) (simp add: hd_append)
  qed
qed

lemma nat_str_zero: "nat_str 0 = ''0''"
  by (subst nat_str.simps) (simp add: digit_char_zero)

text \<open>What may follow a number.\<close>

definition num_end :: "string \<Rightarrow> bool" where
  "num_end s \<longleftrightarrow> (case s of [] \<Rightarrow> True | c # _ \<Rightarrow> c = CHR '','' \<or> c = CHR '']'' \<or> c = CHR ''}'')"

lemma take_digits:
  assumes "num_end rest"
  shows "takeWhile is_digit (nat_str n @ rest) = nat_str n" "dropWhile is_digit (nat_str n @ rest) = rest"
proof -
  have "takeWhile is_digit rest = []" "dropWhile is_digit rest = rest"
    using assms by (auto simp: num_end_def is_digit_def split: list.splits)
  then show "takeWhile is_digit (nat_str n @ rest) = nat_str n" "dropWhile is_digit (nat_str n @ rest) = rest"
    using nat_str_digits by (simp_all add: takeWhile_append2 dropWhile_append2)
qed

lemma parse_nat_str:
  assumes "num_end rest"
  shows "parse_number (nat_str n @ rest) = Some (of_nat n, rest)"
    "parse_number (CHR ''-'' # nat_str n @ rest) = Some (- of_nat n, rest)"
proof -
  obtain c cs where c: "nat_str n = c # cs" by (cases "nat_str n") auto
  then have "is_digit c" using nat_str_digits by (metis list.set_intros(1))
  then have minus: "c \<noteq> CHR ''-''" by (auto simp: is_digit_def)
  have lead: "\<not> (hd (nat_str n) = CHR ''0'' \<and> length (nat_str n) > 1)"
    using nat_str_no_leading_zero [of n] nat_str_zero by (cases "n = 0") auto
  have fe: "parse_frac rest = Some (0, rest)" "parse_exp rest = Some (0, rest)"
    using assms by (auto simp: num_end_def parse_frac_def parse_exp_def split: list.splits)
  have "(case nat_str n @ rest of c # t \<Rightarrow> if c = CHR ''-'' then (True, t) else (False, nat_str n @ rest) | [] \<Rightarrow> (False, []))
      = (False, nat_str n @ rest)"
    using c minus by simp
  with take_digits [OF assms, of n] lead fe
  show "parse_number (nat_str n @ rest) = Some (of_nat n, rest)"
    by (simp add: parse_number_def Let_def)
  show "parse_number (CHR ''-'' # nat_str n @ rest) = Some (- of_nat n, rest)"
    using take_digits [OF assms, of n] lead fe by (simp add: parse_number_def Let_def)
qed

lemma parse_int_str: "num_end rest \<Longrightarrow> parse_number (int_str i @ rest) = Some (of_int i, rest)"
  by (simp add: int_str_def parse_nat_str of_nat_nat)

lemma int_text_start: "\<exists>c cs. int_str i = c # cs \<and> (is_digit c \<or> c = CHR ''-'')"
proof (cases "i < 0")
  case False
  obtain c cs where c: "nat_str (nat i) = c # cs" by (cases "nat_str (nat i)") auto
  with nat_str_digits [of c "nat i"] False show ?thesis by (simp add: int_str_def)
qed (simp add: int_str_def)

text \<open>Values with integer numbers and no repeated keys.\<close>

fun wf_json :: "json \<Rightarrow> bool" where
  "wf_json (JNum n) = is_int n"
| "wf_json (JArr xs) = (\<forall>x\<in>set xs. wf_json x)"
| "wf_json (JObj fs) = (distinct (map fst fs) \<and> (\<forall>f\<in>set fs. wf_json (snd f)))"
| "wf_json _ = True"

lemma obj_set_new: "k \<notin> fst ` set fs \<Longrightarrow> obj_set (k, v) fs = fs @ [(k, v)]"
  by (induction fs) auto

lemma obj_norm_distinct: "distinct (map fst fs) \<Longrightarrow> obj_norm fs = fs"
proof -
  have "distinct (map fst (acc @ fs)) \<Longrightarrow> fold obj_set fs acc = acc @ fs" for acc
  proof (induction fs arbitrary: acc)
    case (Cons f fs)
    obtain k v where f: "f = (k, v)" by (cases f)
    have "obj_set (k, v) acc = acc @ [(k, v)]" using Cons.prems f by (intro obj_set_new) auto
    with Cons.IH [of "acc @ [(k, v)]"] Cons.prems f show ?case by simp
  qed simp
  from this [of "[]"] show "distinct (map fst fs) \<Longrightarrow> obj_norm fs = fs" by (simp add: obj_norm_def)
qed


lemma skip_ws_nonws: "\<not> is_ws c \<Longrightarrow> skip_ws (c # s) = c # s"
  by (simp add: skip_ws_def)

lemma join_map_Cons: "xs \<noteq> [] \<Longrightarrow> join '','' (x # xs) = x @ '','' @ join '','' xs"
  by (cases xs) auto

lemma num_text_int: "is_int n \<Longrightarrow> num_text fractx n = int_str (fst (quotient_of n)) \<and> of_int (fst (quotient_of n)) = n"
proof -
  assume n: "is_int n"
  obtain p q where pq: "quotient_of n = (p, q)" by fastforce
  with n have "q = 1" by (simp add: is_int_def)
  with pq quotient_of_div [OF pq] n show ?thesis by (simp add: num_text_def)
qed

lemma parse_number_value:
  assumes "is_int n" and "num_end rest"
  shows "parse_value (Suc m) (num_text fractx n @ rest) = Some (JNum n, rest)"
proof -
  let ?i = "fst (quotient_of n)"
  obtain c cs where c: "int_str ?i = c # cs" "is_digit c \<or> c = CHR ''-''" using int_text_start by blast
  then have "\<not> is_ws c" "c \<noteq> quote" "c \<noteq> CHR ''[''" "c \<noteq> CHR ''{''" "c \<noteq> CHR ''n''" "c \<noteq> CHR ''t''" "c \<noteq> CHR ''f''"
    by (auto simp: is_ws_def is_digit_def)
  with c(1) num_text_int [OF assms(1), of fractx] parse_int_str [OF assms(2), of ?i] show ?thesis
    by (simp add: skip_ws_nonws)
qed

lemma stringify_start:
  assumes "wf_json j"
  shows "\<exists>c cs. stringify fractx j = c # cs \<and> \<not> is_ws c \<and> c \<noteq> CHR '']''"
proof (cases j)
  case (JNum n)
  obtain c cs where "int_str (fst (quotient_of n)) = c # cs" "is_digit c \<or> c = CHR ''-''"
    using int_text_start by blast
  with JNum assms num_text_int [of n fractx] show ?thesis by (auto simp: is_ws_def is_digit_def)
qed (auto simp: is_ws_def quote_str_def)

text \<open>\<open>reads j\<close>: with enough fuel the parser reads back the printed \<open>j\<close> and stops behind it.\<close>

definition reads :: "(number \<Rightarrow> string) \<Rightarrow> json \<Rightarrow> bool" where
  "reads fractx j \<longleftrightarrow> (\<forall>rest n. num_end rest \<and> 2 * length (stringify fractx j) \<le> n \<longrightarrow>
     parse_value n (stringify fractx j @ rest) = Some (j, rest))"

lemma readsD:
  "reads fractx j \<Longrightarrow> num_end rest \<Longrightarrow> 2 * length (stringify fractx j) \<le> n \<Longrightarrow>
     parse_value n (stringify fractx j @ rest) = Some (j, rest)"
  by (simp add: reads_def)

lemma parse_elems_join:
  assumes "ys \<noteq> []" and "\<forall>y\<in>set ys. reads fractx y" and "2 * length (join '','' (map (stringify fractx) ys)) + 1 \<le> k"
  shows "parse_elems k (join '','' (map (stringify fractx) ys) @ CHR '']'' # rest) = Some (ys, rest)"
  using assms
proof (induction ys arbitrary: k)
  case (Cons y ys)
  then obtain m where k: "k = Suc m" by (cases k) auto
  have y: "reads fractx y" using Cons.prems(2) by simp
  show ?case
  proof (cases "ys = []")
    case True
    with Cons.prems(3) k readsD [OF y, of "CHR '']'' # rest" m] show ?thesis
      by (simp add: num_end_def skip_ws_nonws is_ws_def)
  next
    case False
    let ?r = "join '','' (map (stringify fractx) ys)"
    have join: "join '','' (map (stringify fractx) (y # ys)) = stringify fractx y @ CHR '','' # ?r"
      using False by (simp add: join_map_Cons)
    with Cons.prems(3) k have m: "2 * length (stringify fractx y) \<le> m" "2 * length ?r + 1 \<le> m" by simp_all
    have "parse_value m (stringify fractx y @ CHR '','' # ?r @ CHR '']'' # rest) = Some (y, CHR '','' # ?r @ CHR '']'' # rest)"
      using readsD [OF y _ m(1)] by (simp add: num_end_def)
    moreover have "parse_elems m (?r @ CHR '']'' # rest) = Some (ys, rest)"
      using Cons.IH [OF False _ m(2)] Cons.prems(2) by simp
    ultimately show ?thesis using k join by (simp add: skip_ws_nonws is_ws_def)
  qed
qed simp

definition member_text :: "(number \<Rightarrow> string) \<Rightarrow> string \<times> json \<Rightarrow> string" where
  "member_text fractx f = quote_str (fst f) @ '':'' @ stringify fractx (snd f)"

lemma member_first:
  assumes "reads fractx (snd f)" and "num_end r" and "2 * length (stringify fractx (snd f)) \<le> m"
  shows "parse_members (Suc m) (member_text fractx f @ r) =
    (case skip_ws r of
       [] \<Rightarrow> None
     | d # q' \<Rightarrow> (if d = CHR '','' then map_option (\<lambda>(fs, z). ((fst f, snd f) # fs, z)) (parse_members m q')
                 else if d = CHR ''}'' then Some ([(fst f, snd f)], q') else None))"
  using readsD [OF assms]
  by (simp add: member_text_def quote_str_def skip_ws_nonws is_ws_def parse_chars_quoted)

lemma parse_members_join:
  assumes "fs \<noteq> []" and "\<forall>f\<in>set fs. reads fractx (snd f)" and "2 * length (join '','' (map (member_text fractx) fs)) + 1 \<le> k"
  shows "parse_members k (join '','' (map (member_text fractx) fs) @ CHR ''}'' # rest) = Some (fs, rest)"
  using assms
proof (induction fs arbitrary: k)
  case (Cons f fs)
  then obtain m where k: "k = Suc m" by (cases k) auto
  have f: "reads fractx (snd f)" using Cons.prems(2) by simp
  have len: "length (stringify fractx (snd f)) \<le> length (member_text fractx f)" by (simp add: member_text_def)
  show ?case
  proof (cases "fs = []")
    case True
    with Cons.prems(3) k len member_first [OF f, of "CHR ''}'' # rest" m] show ?thesis
      by (simp add: num_end_def skip_ws_nonws is_ws_def)
  next
    case False
    let ?r = "join '','' (map (member_text fractx) fs)"
    have join: "join '','' (map (member_text fractx) (f # fs)) = member_text fractx f @ CHR '','' # ?r"
      using False by (simp add: join_map_Cons)
    with Cons.prems(3) k len have m: "2 * length (stringify fractx (snd f)) \<le> m" "2 * length ?r + 1 \<le> m" by simp_all
    have "parse_members m (?r @ CHR ''}'' # rest) = Some (fs, rest)"
      using Cons.IH [OF False _ m(2)] Cons.prems(2) by simp
    then show ?thesis
      unfolding k join using member_first [OF f _ m(1), of "CHR '','' # ?r @ CHR ''}'' # rest"]
      by (simp add: num_end_def skip_ws_nonws is_ws_def del: parse_members.simps)
  qed
qed simp

lemma reads_arr: "\<forall>x\<in>set xs. wf_json x \<and> reads fractx x \<Longrightarrow> reads fractx (JArr xs)"
  unfolding reads_def
proof (intro allI impI)
  fix rest :: string and n
  assume xs: "\<forall>x\<in>set xs. wf_json x \<and> (\<forall>rest n. num_end rest \<and> 2 * length (stringify fractx x) \<le> n \<longrightarrow>
     parse_value n (stringify fractx x @ rest) = Some (x, rest))"
    and n: "num_end rest \<and> 2 * length (stringify fractx (JArr xs)) \<le> n"
  then obtain m where m: "n = Suc m" by (cases n) auto
  show "parse_value n (stringify fractx (JArr xs) @ rest) = Some (JArr xs, rest)"
  proof (cases xs)
    case Nil
    with m show ?thesis by (simp add: skip_ws_nonws is_ws_def)
  next
    case (Cons y ys)
    let ?t = "join '','' (map (stringify fractx) xs) @ CHR '']'' # rest"
    have "parse_elems m ?t = Some (xs, rest)"
      using n m xs Cons by (intro parse_elems_join) (auto simp: reads_def)
    moreover obtain c cs where "stringify fractx y = c # cs" "\<not> is_ws c" "c \<noteq> CHR '']''"
      using stringify_start [of y fractx] xs Cons by auto
    then have "hd (skip_ws ?t) \<noteq> CHR '']''"
      using Cons by (cases ys) (simp_all add: skip_ws_nonws)
    ultimately show ?thesis using m by (simp add: skip_ws_nonws is_ws_def del: parse_elems.simps)
  qed
qed

lemma reads_obj:
  assumes "\<forall>f\<in>set fs. reads fractx (snd f)" and "distinct (map fst fs)"
  shows "reads fractx (JObj fs)"
  unfolding reads_def
proof (intro allI impI)
  fix rest :: string and n
  assume n: "num_end rest \<and> 2 * length (stringify fractx (JObj fs)) \<le> n"
  then obtain m where m: "n = Suc m" by (cases n) auto
  have printed: "stringify fractx (JObj fs) = ''{'' @ join '','' (map (member_text fractx) fs) @ ''}''"
    by (simp add: member_text_def [abs_def])
  show "parse_value n (stringify fractx (JObj fs) @ rest) = Some (JObj fs, rest)"
  proof (cases fs)
    case Nil
    with m show ?thesis by (simp add: skip_ws_nonws is_ws_def)
  next
    case (Cons f gs)
    let ?t = "join '','' (map (member_text fractx) fs) @ CHR ''}'' # rest"
    have "parse_members m ?t = Some (fs, rest)"
      using n m assms(1) Cons printed by (intro parse_members_join) auto
    moreover have "hd (skip_ws ?t) \<noteq> CHR ''}''"
      using Cons by (cases gs) (simp_all add: member_text_def quote_str_def skip_ws_nonws is_ws_def)
    ultimately show ?thesis
      unfolding printed m using obj_norm_distinct [OF assms(2)]
      by (simp add: skip_ws_nonws is_ws_def del: parse_members.simps)
  qed
qed

lemma stringify_reads: "wf_json j \<Longrightarrow> reads fractx j"
proof (induction j)
  case (JNum x)
  show ?case
    unfolding reads_def
  proof (intro allI impI)
    fix rest n assume n: "num_end rest \<and> 2 * length (stringify fractx (JNum x)) \<le> n"
    obtain c cs where "stringify fractx (JNum x) = c # cs" using stringify_start [OF JNum] by blast
    with n obtain m where m: "n = Suc m" by (cases n) auto
    show "parse_value n (stringify fractx (JNum x) @ rest) = Some (JNum x, rest)"
      using parse_number_value [of x rest m fractx] JNum n unfolding m stringify.simps wf_json.simps by blast
  qed
next
  case (JStr s)
  have "parse_value n (quote_str s @ rest) = Some (JStr s, rest)" if "2 * length (quote_str s) \<le> n" for n rest
    using that by (cases n) (simp_all add: quote_str_def skip_ws_nonws is_ws_def parse_chars_quoted)
  then show ?case by (simp add: reads_def)
next
  case (JBool b)
  have "parse_value n (stringify fractx (JBool b) @ rest) = Some (JBool b, rest)"
    if "2 * length (stringify fractx (JBool b)) \<le> n" for n rest
    using that by (cases n) (auto simp: skip_ws_nonws is_ws_def split: if_splits)
  then show ?case by (simp only: reads_def) blast
next
  case JNull
  have "parse_value n (''null'' @ rest) = Some (JNull, rest)" if "2 * length ''null'' \<le> n" for n rest
    using that by (cases n) (simp_all add: skip_ws_nonws is_ws_def)
  then show ?case by (simp add: reads_def)
next
  case (JArr xs)
  then show ?case by (intro reads_arr) auto
next
  case (JObj fs)
  have "reads fractx (snd f)" if "f \<in> set fs" for f
  proof -
    have "snd f \<in> Basic_BNFs.snds f" by (cases f) (simp add: prod_set_simps)
    with JObj.IH [OF that] JObj.prems that show ?thesis by auto
  qed
  with JObj.prems show ?case by (intro reads_obj) auto
qed

lemma parse_stringify: "wf_json j \<Longrightarrow> json_parse (stringify fractx j) = Some j"
proof -
  assume "wf_json j"
  then have "reads fractx j" by (rule stringify_reads)
  from readsD [OF this, of "[]" "2 * length (stringify fractx j) + 2"]
  show ?thesis by (simp add: json_parse_def num_end_def skip_ws_def del: parse_value.simps)
qed

end
