(* ===== verification/Auth.thy ===== *)
theory Auth
  imports Http_Client Json
begin

text \<open>
  The session context, \<^verbatim>\<open>frontend/src/contexts/AuthContext.tsx\<close>: rehydration, login, logout, demo
  mode and the route permission check. The provider's state is a record with the user object (JSON, as
  the server sent it), the ready flag, the two browser storages and the world of the HTTP client.
\<close>

section \<open>Roles and routes\<close>

datatype UserRole = Admin | Soc_operator | Soc_supervisor | Site_manager | Customer | Viewer

fun role_name :: "UserRole \<Rightarrow> string" where
  "role_name Admin = ''admin''"
| "role_name Soc_operator = ''soc_operator''"
| "role_name Soc_supervisor = ''soc_supervisor''"
| "role_name Site_manager = ''site_manager''"
| "role_name Customer = ''customer''"
| "role_name Viewer = ''viewer''"

definition ROUTE_PERMISSIONS :: "(string \<times> UserRole list) list" where
  "ROUTE_PERMISSIONS =
    [ (''/operator'', [Soc_operator, Soc_supervisor, Admin]),
      (''/analytics'', [Soc_supervisor, Admin, Site_manager]),
      (''/portal'', [Site_manager, Customer, Soc_supervisor, Admin]),
      (''/admin'', [Admin]),
      (''/reports'', [Admin, Soc_supervisor]),
      (''/search'', [Soc_supervisor, Admin]),
      (''/'', [Soc_supervisor, Site_manager, Customer, Admin, Viewer]),
      (''/login'', [Soc_operator, Soc_supervisor, Site_manager, Customer, Admin, Viewer]) ]"

section \<open>State\<close>

type_synonym storage = "string \<rightharpoonup> string"

record AuthState =
  as_token :: "string option"
  as_user :: "json option"
  as_ready :: bool
  as_local :: storage
  as_session :: storage
  as_search :: string
  as_world :: World

definition TOKEN_KEY :: string where
  "TOKEN_KEY = ''ironsight_token''"

definition USER_KEY :: string where
  "USER_KEY = ''ironsight_user''"

definition DEMO_USER :: json where
  "DEMO_USER = JObj [(''id'', JStr ''demo-user''), (''username'', JStr ''spierce''), (''role'', JStr ''customer''),
     (''display_name'', JStr ''Sandra Pierce''), (''email'', JStr ''spierce@apexcg.com''), (''phone'', JStr ''312-555-0198''),
     (''organization_id'', JStr ''co-alpha001''), (''assigned_site_ids'', JArr [JStr ''ACG-301'', JStr ''ACG-302''])]"

text \<open>\<open>env\<close> says whether the build sets \<^verbatim>\<open>NEXT_PUBLIC_DEMO_MODE=1\<close>.\<close>

definition demoModeActive :: "bool \<Rightarrow> AuthState \<Rightarrow> AuthState \<times> bool" where
  "demoModeActive env s =
     (if env then (s, True)
      else if contains_str ''demo=1'' (as_search s)
      then (s\<lparr>as_session := (as_session s)(''ironsight_demo'' \<mapsto> ''1'')\<rparr>, True)
      else (s, as_session s ''ironsight_demo'' = Some ''1''))"

definition me_request :: Request where
  "me_request = \<lparr>rq_method = ''GET'', rq_url = ''/auth/me'', rq_headers = [], rq_body = No_body, rq_credentials = True\<rparr>"

definition hasCSRF :: "World \<Rightarrow> bool" where
  "hasCSRF w = (\<exists>c\<in>set (split_entries (document_cookie w)). starts_with (csrf_cookie @ ''='') c)"

definition clear_keys :: "storage \<Rightarrow> storage" where
  "clear_keys m = (m(TOKEN_KEY := None))(USER_KEY := None)"

text \<open>A JSON value as a condition. A falsy user object is shown as no user.\<close>

fun truthy_json :: "json \<Rightarrow> bool" where
  "truthy_json JNull = False"
| "truthy_json (JBool b) = b"
| "truthy_json (JNum n) = (n \<noteq> 0)"
| "truthy_json (JStr t) = (t \<noteq> [])"
| "truthy_json (JArr xs) = True"
| "truthy_json (JObj fs) = True"

definition user_of :: "json \<Rightarrow> json option" where
  "user_of j = (if truthy_json j then Some j else None)"

text \<open>The mount effect; \<open>to_text\<close> is \<^verbatim>\<open>JSON.stringify\<close>. The storages accept every write.\<close>

definition rehydrate :: "(json \<Rightarrow> string) \<Rightarrow> bool \<Rightarrow> AuthState \<Rightarrow> AuthState" where
  "rehydrate to_text env s0 =
     (let (s, demo) = demoModeActive env s0 in
      if demo then s\<lparr>as_token := None, as_user := Some DEMO_USER, as_ready := True\<rparr>
      else (case bind_io (send me_request) (\<lambda>res. if \<not> ok res then throw_io ''not authenticated'' else res_json res) (as_world s) of
          (w, Inr u) \<Rightarrow>
            (let s1 = s\<lparr>as_token := None, as_user := user_of u, as_local := (as_local s)(USER_KEY \<mapsto> to_text u), as_world := w\<rparr>;
                 s2 = (if hasCSRF w then s1 else s1\<lparr>as_world := fst (send csrf_request w)\<rparr>)
             in s2\<lparr>as_ready := True\<rparr>)
        | (w, Inl e) \<Rightarrow> s\<lparr>as_local := clear_keys (as_local s), as_world := w, as_ready := True\<rparr>))"

definition login_request :: "string \<Rightarrow> string \<Rightarrow> Request" where
  "login_request identifier password = \<lparr>rq_method = ''POST'', rq_url = ''/auth/login'',
     rq_headers = [(''Content-Type'', ''application/json'')],
     rq_body = Json_body (JObj [(''username'', JStr identifier), (''password'', JStr password)]), rq_credentials = True\<rparr>"

definition trim :: "string \<Rightarrow> string" where
  "trim s = rev (dropWhile is_ws (rev (dropWhile is_ws s)))"

definition login :: "(json \<Rightarrow> string) \<Rightarrow> string \<Rightarrow> string \<Rightarrow> AuthState \<Rightarrow> AuthState \<times> unit result" where
  "login to_text identifier password s =
     (case bind_io (send (login_request identifier password)) (\<lambda>res.
             if \<not> ok res then throw_io (str_or (Some (trim (rs_text res))) ''Login failed'') else res_json res) (as_world s) of
        (w, Inl e) \<Rightarrow> (s\<lparr>as_world := w\<rparr>, Inl e)
      | (w, Inr JNull) \<Rightarrow> (s\<lparr>as_world := w\<rparr>, throw ''Cannot read properties of null (reading 'user')'')
      | (w, Inr data) \<Rightarrow>
          (case json_field ''user'' data of
             None \<Rightarrow> (s\<lparr>as_world := w, as_local := (as_local s)(USER_KEY \<mapsto> ''undefined''), as_token := None,
                        as_user := None\<rparr>, Inr ())
           | Some u \<Rightarrow> (s\<lparr>as_world := w, as_local := (as_local s)(USER_KEY \<mapsto> to_text u), as_token := None,
                          as_user := user_of u\<rparr>, Inr ())))"

definition logout_request :: "string \<Rightarrow> Request" where
  "logout_request csrf = \<lparr>rq_method = ''POST'', rq_url = ''/auth/logout'',
     rq_headers = (if csrf \<noteq> [] then [(''X-CSRF-Token'', csrf)] else []), rq_body = No_body, rq_credentials = True\<rparr>"

definition logout :: "AuthState \<Rightarrow> AuthState" where
  "logout s =
     (let w = fst (send (logout_request (getCSRFToken (as_world s))) (as_world s))
      in s\<lparr>as_local := clear_keys (as_local s), as_token := None, as_user := None,
           as_world := w\<lparr>wd_location := ''/oauth2/sign_out?rd=%2Flogin''\<rparr>\<rparr>)"

section \<open>Permissions\<close>

definition user_role :: "json \<Rightarrow> string" where
  "user_role u = (case json_field ''role'' u of Some (JStr r) \<Rightarrow> r | _ \<Rightarrow> [])"

text \<open>The longest matching prefix; \<^verbatim>\<open>sort\<close> is stable.\<close>

definition matchedRoute :: "string \<Rightarrow> string option" where
  "matchedRoute route =
     (case js_sort (\<lambda>a b. length b < length a) (filter (\<lambda>r. starts_with r route) (map fst ROUTE_PERMISSIONS)) of
        [] \<Rightarrow> None | r # _ \<Rightarrow> Some r)"

definition hasPermission :: "AuthState \<Rightarrow> string \<Rightarrow> bool" where
  "hasPermission s route =
     (case as_user s of
        None \<Rightarrow> False
      | Some u \<Rightarrow>
          (case matchedRoute route of
             None \<Rightarrow> True
           | Some r \<Rightarrow> (case map_of ROUTE_PERMISSIONS r of None \<Rightarrow> False
                | Some roles \<Rightarrow> user_role u \<in> set (map role_name roles))))"

definition canAccess :: "AuthState \<Rightarrow> UserRole list \<Rightarrow> bool" where
  "canAccess s roles = (case as_user s of None \<Rightarrow> False | Some u \<Rightarrow> user_role u \<in> set (map role_name roles))"

definition isAuthenticated :: "AuthState \<Rightarrow> bool" where
  "isAuthenticated s = (as_user s \<noteq> None)"

section \<open>Library\<close>

lemma starts_with_hd: "starts_with p r \<Longrightarrow> starts_with q r \<Longrightarrow> length p \<le> length q \<Longrightarrow> starts_with p q"
proof (induction p r arbitrary: q rule: starts_with.induct)
  case (3 c p d s)
  then show ?case by (cases q) auto
qed auto

text \<open>The sections of the site: a route is in the first section it starts with, else under the root.\<close>

definition section_roles :: "string \<Rightarrow> UserRole list" where
  "section_roles r =
     (if starts_with ''/operator'' r then [Soc_operator, Soc_supervisor, Admin]
      else if starts_with ''/analytics'' r then [Soc_supervisor, Admin, Site_manager]
      else if starts_with ''/portal'' r then [Site_manager, Customer, Soc_supervisor, Admin]
      else if starts_with ''/admin'' r then [Admin]
      else if starts_with ''/reports'' r then [Admin, Soc_supervisor]
      else if starts_with ''/search'' r then [Soc_supervisor, Admin]
      else if starts_with ''/login'' r then [Soc_operator, Soc_supervisor, Site_manager, Customer, Admin, Viewer]
      else [Soc_supervisor, Site_manager, Customer, Admin, Viewer])"

lemma section_unique:
  "starts_with p r \<Longrightarrow> starts_with q r \<Longrightarrow> starts_with p q \<or> starts_with q p"
  by (metis nat_le_linear starts_with_hd)

lemma matchedRoute_roles:
  assumes "starts_with ''/'' r"
  shows "\<exists>p. matchedRoute r = Some p \<and> map_of ROUTE_PERMISSIONS p = Some (section_roles r)"
proof (cases "\<exists>p\<in>{''/operator'', ''/analytics'', ''/portal'', ''/admin'', ''/reports'', ''/search'', ''/login''}. starts_with p r")
  case True
  then obtain p where p: "p \<in> {''/operator'', ''/analytics'', ''/portal'', ''/admin'', ''/reports'', ''/search'', ''/login''}"
      "starts_with p r" by blast
  have only: "starts_with q r \<longrightarrow> starts_with p q \<or> starts_with q p" for q
    using p(2) section_unique by blast
  show ?thesis
    using p assms only [of "''/operator''"] only [of "''/analytics''"] only [of "''/portal''"] only [of "''/admin''"]
      only [of "''/reports''"] only [of "''/search''"] only [of "''/login''"]
    by (simp only: insert_iff empty_iff, elim disjE)
      (simp_all add: matchedRoute_def ROUTE_PERMISSIONS_def section_roles_def)
next
  case False
  with assms show ?thesis
    by (simp add: matchedRoute_def ROUTE_PERMISSIONS_def section_roles_def)
qed

section \<open>The session as a machine\<close>

datatype auth_event = Login string string | Logout

fun auth_step :: "(json \<Rightarrow> string) \<Rightarrow> auth_event \<Rightarrow> AuthState \<Rightarrow> AuthState" where
  "auth_step to_text (Login i p) s = fst (login to_text i p s)"
| "auth_step to_text Logout s = logout s"

text \<open>The life of one page: the provider mounts, and shows its children, who log in and out, only once the
  mount effect is done.\<close>

definition page_life :: "(json \<Rightarrow> string) \<Rightarrow> bool \<Rightarrow> auth_event list \<Rightarrow> AuthState \<Rightarrow> AuthState" where
  "page_life to_text env es s = fold (auth_step to_text) es (rehydrate to_text env s)"

text \<open>A page as it is loaded. Local storage may hold anything, a token of an older release included.\<close>

definition fresh_page :: "AuthState \<Rightarrow> bool" where
  "fresh_page s \<longleftrightarrow> as_token s = None \<and> as_user s = None"

definition mounted :: "(json \<Rightarrow> string) \<Rightarrow> bool \<Rightarrow> string option \<Rightarrow> AuthState \<Rightarrow> bool" where
  "mounted to_text demo old s \<longleftrightarrow> (\<exists>env s0. fresh_page s0 \<and> snd (demoModeActive env s0) = demo \<and>
     as_local s0 TOKEN_KEY = old \<and> s = rehydrate to_text env s0)"

text \<open>What a page holds of the session: no token but what an older release left in storage, and a user that
  is the one stored for the login redirect or, on a page in demo mode, the demo user.\<close>

definition session_inv :: "(json \<Rightarrow> string) \<Rightarrow> bool \<Rightarrow> string option \<Rightarrow> AuthState \<Rightarrow> bool" where
  "session_inv to_text demo old s \<longleftrightarrow> as_token s = None \<and> as_local s TOKEN_KEY \<in> {None, old} \<and>
     (\<forall>u. as_user s = Some u \<longrightarrow> demo \<and> u = DEMO_USER \<or> as_local s USER_KEY = Some (to_text u))"

text \<open>The requests the context sends.\<close>

definition session_request :: "Request \<Rightarrow> bool" where
  "session_request q \<longleftrightarrow> q = me_request \<or> q = csrf_request \<or> (\<exists>i p. q = login_request i p) \<or> (\<exists>t. q = logout_request t)"

lemma keys_differ [simp]: "USER_KEY \<noteq> TOKEN_KEY" "TOKEN_KEY \<noteq> USER_KEY"
  by (simp_all add: USER_KEY_def TOKEN_KEY_def)

lemma clear_keys_simps [simp]: "clear_keys m TOKEN_KEY = None" "clear_keys m USER_KEY = None"
  by (simp_all add: clear_keys_def)

lemma demo_fields [simp]:
  "as_token (fst (demoModeActive env s)) = as_token s" "as_user (fst (demoModeActive env s)) = as_user s"
  "as_local (fst (demoModeActive env s)) = as_local s" "as_world (fst (demoModeActive env s)) = as_world s"
  by (simp_all add: demoModeActive_def)

lemma user_of_Some [simp]: "user_of u = Some v \<longleftrightarrow> truthy_json u \<and> v = u"
  by (auto simp: user_of_def)

lemma user_of_None [simp]: "user_of u = None \<longleftrightarrow> \<not> truthy_json u"
  by (auto simp: user_of_def)

text \<open>What the mount effect can leave behind.\<close>

lemma rehydrate_cases:
  obtains (demo) s' where "demoModeActive env s = (s', True)"
      "rehydrate to_text env s = s'\<lparr>as_token := None, as_user := Some DEMO_USER, as_ready := True\<rparr>"
    | (user) s' u w where "demoModeActive env s = (s', False)" "sends (as_world s) [me_request] w \<or> sends (as_world s) [me_request, csrf_request] w"
      "rehydrate to_text env s = s'\<lparr>as_token := None, as_user := user_of u,
         as_local := (as_local s')(USER_KEY \<mapsto> to_text u), as_world := w, as_ready := True\<rparr>"
    | (anonymous) s' w where "demoModeActive env s = (s', False)" "sends (as_world s) [me_request] w"
      "rehydrate to_text env s = s'\<lparr>as_local := clear_keys (as_local s'), as_world := w, as_ready := True\<rparr>"
proof -
  obtain s' d where d: "demoModeActive env s = (s', d)" by fastforce
  then have w: "as_world s' = as_world s" using demo_fields(4) [of env s] by simp
  let ?probe = "bind_io (send me_request) (\<lambda>res. if \<not> ok res then throw_io ''not authenticated'' else res_json res)"
  obtain w1 r where p: "?probe (as_world s') = (w1, r)" by fastforce
  have s1: "sends (as_world s) [me_request] w1"
    using p send_sends [of me_request "as_world s"]
    by (auto simp: w bind_io_def throw_io_def res_json_def return_io_def split: prod.splits sum.splits if_splits option.splits)
  have s2: "sends (as_world s) [me_request, csrf_request] (fst (send csrf_request w1))"
    using sends_trans [OF s1 send_sends [of csrf_request w1]] by (metis append_Cons append_Nil prod.collapse)
  show thesis
  proof (cases d)
    case True
    then show thesis using d by (intro demo) (auto simp: rehydrate_def)
  next
    case False
    show thesis
    proof (cases r)
      case (Inl e)
      then show thesis using False d p s1 by (intro anonymous) (auto simp: rehydrate_def)
    next
      case (Inr u)
      then show thesis using False d p s1 s2
        by (intro user [of s' "if hasCSRF w1 then w1 else fst (send csrf_request w1)" u]) (auto simp: rehydrate_def Let_def)
    qed
  qed
qed

lemma rehydrate_inv:
  assumes "fresh_page s"
  shows "session_inv to_text (snd (demoModeActive env s)) (as_local s TOKEN_KEY) (rehydrate to_text env s)"
proof -
  have f: "as_token s' = as_token s \<and> as_user s' = as_user s \<and> as_local s' = as_local s"
    if "demoModeActive env s = (s', d)" for s' d
    using demo_fields [of env s] that by simp
  show ?thesis
    by (cases rule: rehydrate_cases [of env s to_text])
      (use assms in \<open>auto simp: session_inv_def fresh_page_def dest!: f\<close>)
qed

text \<open>What a login can leave behind.\<close>

lemma login_cases:
  obtains (failed) e w where "login to_text i p s = (s\<lparr>as_world := w\<rparr>, Inl e)" "sends (as_world s) [login_request i p] w"
    | (stored) t u w where "login to_text i p s = (s\<lparr>as_world := w, as_local := (as_local s)(USER_KEY \<mapsto> t), as_token := None,
         as_user := u\<rparr>, Inr ())" "u = None \<or> (\<exists>v. u = Some v \<and> t = to_text v)" "sends (as_world s) [login_request i p] w"
proof -
  let ?call = "bind_io (send (login_request i p)) (\<lambda>res. if \<not> ok res then throw_io (str_or (Some (trim (rs_text res))) ''Login failed'')
     else res_json res)"
  obtain w r where c: "?call (as_world s) = (w, r)" by fastforce
  have w: "sends (as_world s) [login_request i p] w"
    using c send_sends [of "login_request i p" "as_world s"]
    by (auto simp: bind_io_def throw_io_def res_json_def return_io_def split: prod.splits sum.splits if_splits option.splits)
  show thesis
  proof (cases r)
    case (Inl e)
    then show thesis using c w by (intro failed [of w e]) (auto simp: login_def)
  next
    case (Inr data)
    show thesis
    proof (cases "data = JNull")
      case True
      then show thesis using c w Inr by (intro failed [OF _ w]) (auto simp: login_def)
    next
      case False
      let ?t = "case json_field ''user'' data of None \<Rightarrow> ''undefined'' | Some u \<Rightarrow> to_text u"
      let ?u = "Option.bind (json_field ''user'' data) user_of"
      have "login to_text i p s = (s\<lparr>as_world := w, as_local := (as_local s)(USER_KEY \<mapsto> ?t), as_token := None, as_user := ?u\<rparr>, Inr ())"
        using False c Inr by (simp add: login_def split: json.splits option.splits)
      then show thesis by (rule stored) (use w in \<open>auto split: option.splits simp: user_of_def\<close>)
    qed
  qed
qed

lemma login_inv: "session_inv to_text demo old s \<Longrightarrow> session_inv to_text demo old (fst (login to_text i p s))"
  by (cases rule: login_cases [of to_text i p s]) (auto simp: session_inv_def)

lemma logout_inv: "session_inv to_text demo old (logout s)"
  by (simp add: logout_def session_inv_def Let_def)

interpretation session: machine "auth_step to_text" "mounted to_text demo old" "session_inv to_text demo old"
  for to_text demo old
proof
  show "session_inv to_text demo old s" if "mounted to_text demo old s" for s
    using that unfolding mounted_def by (elim exE conjE) (hypsubst, rule rehydrate_inv)
  show "session_inv to_text demo old (auth_step to_text e s)" if "session_inv to_text demo old s" for e s
    using that by (cases e) (simp_all add: login_inv logout_inv)
qed

lemma logged_out_inv:
  assumes "Logout \<in> set es"
  shows "session_inv to_text demo None (fold (auth_step to_text) es s)"
proof -
  from assms obtain xs ys where "es = xs @ Logout # ys" by (meson split_list)
  then show ?thesis by (simp add: session.inv_run logout_inv)
qed

text \<open>The requests of a step.\<close>

lemma rehydrate_requests:
  "\<exists>qs. wd_log (as_world (rehydrate to_text env s)) = wd_log (as_world s) @ qs \<and> list_all session_request qs"
proof -
  have dw: "as_world s' = as_world s" if "demoModeActive env s = (s', d)" for s' d
    using demo_fields(4) [of env s] that by simp
  show ?thesis
    by (cases rule: rehydrate_cases [of env s to_text]) (auto simp: sends_def session_request_def dest!: dw)
qed

lemma auth_step_requests:
  "\<exists>qs. wd_log (as_world (auth_step to_text e s)) = wd_log (as_world s) @ qs \<and> list_all session_request qs"
proof (cases e)
  case (Login i p)
  show ?thesis unfolding Login auth_step.simps
    by (cases rule: login_cases [of to_text i p s]) (auto simp: sends_def session_request_def)
next
  case Logout
  have "sends w [q] (fst (send q w))" for q w
    using send_sends [of q w] by (metis prod.collapse)
  then show ?thesis by (auto simp: Logout logout_def Let_def sends_def session_request_def)
qed

lemma auth_run_requests:
  "\<exists>qs. wd_log (as_world (fold (auth_step to_text) es s)) = wd_log (as_world s) @ qs \<and> list_all session_request qs"
proof (induction es arbitrary: s)
  case (Cons e es)
  from auth_step_requests [of to_text e s] Cons [of "auth_step to_text e s"] show ?case
    by (metis append.assoc fold_simps(2) list_all_append)
qed simp

lemma page_life_requests:
  "\<exists>qs. wd_log (as_world (page_life to_text env es s)) = wd_log (as_world s) @ qs \<and> list_all session_request qs"
  using rehydrate_requests [of to_text env s] auth_run_requests [of to_text es "rehydrate to_text env s"]
  unfolding page_life_def by (metis append.assoc list_all_append)

lemma session_request_plain:
  "session_request q \<Longrightarrow> rq_credentials q \<and> header_get ''Authorization'' (rq_headers q) = []"
  by (auto simp: session_request_def me_request_def csrf_request_def login_request_def logout_request_def
      header_get_def lower_char_def)

section \<open>Properties\<close>

text \<open>The route matrix, as the pages use it: for a signed-in user and any path of the site, access is
  granted exactly to the roles of the section the path lies in (the longest listed prefix, computed by
  filtering and sorting, is the section), and an SOC operator reaches the operator console and the login
  page and nothing else.\<close>

theorem permission_matrix:
  assumes "as_user s = Some u" and "starts_with ''/'' route"
  shows "(hasPermission s route \<longleftrightarrow> user_role u \<in> role_name ` set (section_roles route)) \<and>
    (hasPermission (s\<lparr>as_user := Some (JObj [(''role'', JStr ''soc_operator'')])\<rparr>) route \<longleftrightarrow>
       starts_with ''/operator'' route \<or> starts_with ''/login'' route)"
proof -
  from matchedRoute_roles [OF assms(2)] have
    h: "hasPermission t route \<longleftrightarrow> user_role v \<in> role_name ` set (section_roles route)" if "as_user t = Some v" for t v
    using that by (auto simp: hasPermission_def)
  have "user_role (JObj [(''role'', JStr ''soc_operator'')]) = ''soc_operator''"
    by (simp add: user_role_def json_field_def)
  then have "hasPermission (s\<lparr>as_user := Some (JObj [(''role'', JStr ''soc_operator'')])\<rparr>) route \<longleftrightarrow>
      ''soc_operator'' \<in> role_name ` set (section_roles route)"
    using h by simp
  also have "\<dots> \<longleftrightarrow> starts_with ''/operator'' route \<or> starts_with ''/login'' route"
    by (auto simp: section_roles_def dest: section_unique [of "''/login''"])
  finally show ?thesis using h assms(1) by simp
qed

definition fixture_auth :: AuthState where
  "fixture_auth = \<lparr>as_token = None, as_user = None, as_ready = False, as_local = Map.empty, as_session = Map.empty,
     as_search = [], as_world = fixture_world\<rparr>"

theorem permission_matrix_witness:
  "\<not> hasPermission (fixture_auth\<lparr>as_user := Some DEMO_USER\<rparr>) ''/admin/users'' \<and>
   hasPermission (fixture_auth\<lparr>as_user := Some DEMO_USER\<rparr>) ''/portal/sites''"
  using permission_matrix [of "fixture_auth\<lparr>as_user := Some DEMO_USER\<rparr>" DEMO_USER "''/admin/users''"]
    permission_matrix [of "fixture_auth\<lparr>as_user := Some DEMO_USER\<rparr>" DEMO_USER "''/portal/sites''"]
  by (simp add: section_roles_def DEMO_USER_def user_role_def json_field_def)

text \<open>C16: The session token stays out of reach of scripts. On a page loaded with whatever local storage (a
  token of an older release included), after mounting and any sequence of logins and logouts, whatever
  the server answers: the page holds no token in its state; it never writes the old token entry, which
  is unchanged or gone, and gone once somebody has logged out; every request it sent relied on cookies
  and carried no authorization header; and a user it shows is the one stored for the login redirect,
  except that a page in demo mode may show the fixed demo user.\<close>

theorem session_token_unexposed:
  assumes "fresh_page s" and "s' = page_life to_text env es s"
  shows "as_token s' = None \<and> as_local s' TOKEN_KEY \<in> {None, as_local s TOKEN_KEY} \<and>
    (Logout \<in> set es \<longrightarrow> as_local s' TOKEN_KEY = None) \<and>
    (\<forall>u. as_user s' = Some u \<longrightarrow>
       snd (demoModeActive env s) \<and> u = DEMO_USER \<or> as_local s' USER_KEY = Some (to_text u)) \<and>
    (\<exists>qs. wd_log (as_world s') = wd_log (as_world s) @ qs \<and>
       list_all (\<lambda>q. rq_credentials q \<and> header_get ''Authorization'' (rq_headers q) = []) qs)"
proof -
  have "session_inv to_text (snd (demoModeActive env s)) (as_local s TOKEN_KEY) s'"
    unfolding assms(2) page_life_def by (rule session.inv_run [OF rehydrate_inv [OF assms(1)]])
  moreover have "Logout \<in> set es \<longrightarrow> as_local s' TOKEN_KEY = None"
    using logged_out_inv [of es to_text False "rehydrate to_text env s"]
    unfolding assms(2) page_life_def session_inv_def by blast
  moreover from page_life_requests [of to_text env es s] obtain qs where
    "wd_log (as_world s') = wd_log (as_world s) @ qs" "list_all session_request qs" unfolding assms(2) by blast
  then have "wd_log (as_world s') = wd_log (as_world s) @ qs \<and>
      list_all (\<lambda>q. rq_credentials q \<and> header_get ''Authorization'' (rq_headers q) = []) qs"
    by (auto simp: list_all_iff dest: session_request_plain)
  ultimately show ?thesis unfolding session_inv_def by blast
qed

theorem session_token_unexposed_witness:
  "as_local (page_life (stringify (\<lambda>_. [])) False [Login ''amy'' ''pw'', Logout]
     (fixture_auth\<lparr>as_local := [TOKEN_KEY \<mapsto> ''old'']\<rparr>)) TOKEN_KEY = None"
  using session_token_unexposed [of "fixture_auth\<lparr>as_local := [TOKEN_KEY \<mapsto> ''old'']\<rparr>" _
      "stringify (\<lambda>_. [])" False "[Login ''amy'' ''pw'', Logout]", OF _ refl]
  by (simp add: fixture_auth_def fresh_page_def)

text \<open>Signing out always ends the session on the page, whatever the network and the server do: exactly one
  logout request goes out, with the CSRF token when the page has one, before the browser leaves for the
  single-sign-on logout; user, token and both storage entries are gone and no route is permitted any
  more.\<close>

theorem logout_ends_session:
  "let s' = logout s; t = getCSRFToken (as_world s)
   in as_user s' = None \<and> as_token s' = None \<and> as_local s' TOKEN_KEY = None \<and> as_local s' USER_KEY = None \<and>
      \<not> isAuthenticated s' \<and> \<not> hasPermission s' route \<and> \<not> canAccess s' roles \<and>
      wd_location (as_world s') = ''/oauth2/sign_out?rd=%2Flogin'' \<and>
      wd_log (as_world s') = wd_log (as_world s) @ [logout_request t] \<and>
      header_get ''X-CSRF-Token'' (rq_headers (logout_request t)) = t"
proof -
  have "sends w [q] (fst (send q w))" for q w
    using send_sends [of q w] by (metis prod.collapse)
  then have "wd_log (fst (send q w)) = wd_log w @ [q]" for q w by (simp add: sends_def)
  then show ?thesis
    by (simp add: logout_def Let_def isAuthenticated_def hasPermission_def canAccess_def logout_request_def header_get_def)
qed

end
