(* ===== verification/Feature_Flags.thy ===== *)
theory Feature_Flags
  imports Auth
begin

text \<open>
  Deploy-wide feature flags: \<^verbatim>\<open>frontend/src/lib/feature-flags.ts\<close> with the gate component of
  \<^verbatim>\<open>components/shared/FeatureGate.tsx\<close>, and the server's flag map in \<^verbatim>\<open>internal/api/platform.go\<close>.

  The module keeps a cache and one promise. A component that uses the hook renders first (its initial
  state) and runs its effect later, so the two are separate events; the answer to the one request may
  arrive between them.
\<close>

section \<open>Flags\<close>

definition FeatureFlagName :: "string list" where
  "FeatureFlagName = [''analytics'', ''operator_console'', ''compliance'', ''person_tracking'', ''speakers'', ''semantic_search'',
     ''vlm_safety'', ''evidence_sharing'', ''labeling'', ''support_tickets'', ''integrations'', ''ai_insights'', ''weekly_digest'',
     ''global_ai_training'', ''lowlatency_live'']"

text \<open>A flag map is a JavaScript object.\<close>

type_synonym FeatureFlags = "(string \<times> json) list"

definition DEFAULT_FLAGS :: FeatureFlags where
  "DEFAULT_FLAGS =
    [(''analytics'', JBool False), (''operator_console'', JBool False), (''compliance'', JBool False),
     (''person_tracking'', JBool False), (''speakers'', JBool False), (''semantic_search'', JBool False),
     (''vlm_safety'', JBool False), (''evidence_sharing'', JBool False), (''labeling'', JBool False),
     (''support_tickets'', JBool False), (''integrations'', JBool False), (''ai_insights'', JBool False),
     (''weekly_digest'', JBool False), (''global_ai_training'', JBool False), (''lowlatency_live'', JBool False)]"

definition merge_flags :: "FeatureFlags \<Rightarrow> json \<Rightarrow> FeatureFlags" where
  "merge_flags d data = fold obj_set (spread data) d"

definition flags_request :: Request where
  "flags_request = \<lparr>rq_method = ''GET'', rq_url = ''/api/v1/features'', rq_headers = [], rq_body = No_body, rq_credentials = True\<rparr>"

text \<open>\<^verbatim>\<open>fetchFlags\<close> after its request was answered (or failed).\<close>

definition fetchFlags :: "Response result \<Rightarrow> FeatureFlags" where
  "fetchFlags r =
     (case r of Inl e \<Rightarrow> DEFAULT_FLAGS
      | Inr res \<Rightarrow> if \<not> ok res then DEFAULT_FLAGS
                  else (case rs_json res of None \<Rightarrow> DEFAULT_FLAGS | Some data \<Rightarrow> merge_flags DEFAULT_FLAGS data))"

section \<open>The module and its hooks\<close>

record HookState =
  hk_flags :: FeatureFlags
  hk_loaded :: bool

text \<open>\<open>fm_inflight\<close>: the promise exists. \<open>fm_subs\<close>: the components waiting on it, in order.\<close>

record FlagModule =
  fm_cached :: "FeatureFlags option"
  fm_inflight :: bool
  fm_subs :: "nat list"
  fm_hooks :: "nat \<rightharpoonup> HookState"
  fm_sent :: "Request list"

definition initial_flags :: FlagModule where
  "initial_flags = \<lparr>fm_cached = None, fm_inflight = False, fm_subs = [], fm_hooks = Map.empty, fm_sent = []\<rparr>"

text \<open>\<^verbatim>\<open>getFeatureFlags().then(...)\<close> of component \<open>c\<close> while nothing is cached.\<close>

definition getFeatureFlags_once :: "nat \<Rightarrow> FlagModule \<Rightarrow> FlagModule" where
  "getFeatureFlags_once c m =
     (let m1 = (if fm_inflight m then m else m\<lparr>fm_inflight := True, fm_sent := fm_sent m @ [flags_request]\<rparr>)
      in m1\<lparr>fm_subs := fm_subs m1 @ [c]\<rparr>)"

definition useFeatureFlags_init :: "nat \<Rightarrow> FlagModule \<Rightarrow> FlagModule" where
  "useFeatureFlags_init c m =
     m\<lparr>fm_hooks := (fm_hooks m)(c \<mapsto> \<lparr>hk_flags = nullish (fm_cached m) DEFAULT_FLAGS, hk_loaded = (fm_cached m \<noteq> None)\<rparr>)\<rparr>"

definition useFeatureFlags_effect :: "nat \<Rightarrow> FlagModule \<Rightarrow> FlagModule" where
  "useFeatureFlags_effect c m = (if fm_cached m \<noteq> None then m else getFeatureFlags_once c m)"

text \<open>The effect's cleanup, \<^verbatim>\<open>alive = false\<close>; the component and its state are gone.\<close>

definition useFeatureFlags_cleanup :: "nat \<Rightarrow> FlagModule \<Rightarrow> FlagModule" where
  "useFeatureFlags_cleanup c m = m\<lparr>fm_subs := removeAll c (fm_subs m), fm_hooks := (fm_hooks m)(c := None)\<rparr>"

definition set_hook :: "FeatureFlags \<Rightarrow> nat \<Rightarrow> (nat \<rightharpoonup> HookState) \<Rightarrow> (nat \<rightharpoonup> HookState)" where
  "set_hook f c h = (case h c of None \<Rightarrow> h | Some _ \<Rightarrow> h(c \<mapsto> \<lparr>hk_flags = f, hk_loaded = True\<rparr>))"

text \<open>The promise settles: the cache is set first, then the waiting components are told.\<close>

definition settle :: "Response result \<Rightarrow> FlagModule \<Rightarrow> FlagModule" where
  "settle r m =
     (if fm_inflight m \<and> fm_cached m = None
      then let f = fetchFlags r
           in m\<lparr>fm_cached := Some f, fm_hooks := fold (set_hook f) (fm_subs m) (fm_hooks m), fm_subs := []\<rparr>
      else m)"

datatype flag_event = Render nat | Effect nat | Cleanup nat | Settle "Response result"

text \<open>Effects and cleanups run for rendered components, a component renders its initial state once.\<close>

fun flag_step :: "flag_event \<Rightarrow> FlagModule \<Rightarrow> FlagModule" where
  "flag_step (Render c) m = (if fm_hooks m c = None then useFeatureFlags_init c m else m)"
| "flag_step (Effect c) m = (if fm_hooks m c = None \<or> c \<in> set (fm_subs m) then m else useFeatureFlags_effect c m)"
| "flag_step (Cleanup c) m = useFeatureFlags_cleanup c m"
| "flag_step (Settle r) m = settle r m"

definition flag_value :: "FeatureFlags \<Rightarrow> string \<Rightarrow> json option" where
  "flag_value f n = map_of f n"

definition useFeatureFlag :: "string \<Rightarrow> HookState \<Rightarrow> bool \<times> bool" where
  "useFeatureFlag n h = (case flag_value (hk_flags h) n of None \<Rightarrow> False | Some j \<Rightarrow> truthy_json j, hk_loaded h)"

datatype view = Blank | Not_found | Children

definition FeatureGate :: "string \<Rightarrow> HookState \<Rightarrow> view" where
  "FeatureGate n h = (let (enabled, loaded) = useFeatureFlag n h in if \<not> loaded \<or> \<not> enabled then Blank else Children)"

definition FeaturePageGate :: "string \<Rightarrow> HookState \<Rightarrow> view" where
  "FeaturePageGate n h = (let (enabled, loaded) = useFeatureFlag n h
     in if \<not> loaded then Blank else if \<not> enabled then Not_found else Children)"

section \<open>The server\<close>

definition default_entries :: "(string \<times> bool) list" where
  "default_entries =
    [(''analytics'', False), (''operator_console'', False), (''compliance'', False), (''person_tracking'', False),
     (''speakers'', False), (''semantic_search'', False), (''vlm_safety'', False), (''evidence_sharing'', False),
     (''labeling'', False), (''support_tickets'', False), (''integrations'', False), (''ai_insights'', False),
     (''weekly_digest'', False), (''global_ai_training'', False), (''lowlatency_live'', False)]"

definition DefaultFeatureFlags :: "string \<rightharpoonup> bool" where
  "DefaultFeatureFlags = map_of default_entries"

definition HandleFeatureFlags :: "(string \<rightharpoonup> bool) \<Rightarrow> (string \<rightharpoonup> bool)" where
  "HandleFeatureFlags override = DefaultFeatureFlags ++ override"

section \<open>Library\<close>

lemma map_of_obj_set: "map_of (obj_set (k, v) fs) = (map_of fs)(k \<mapsto> v)"
  by (induction "(k, v)" fs rule: obj_set.induct) (auto simp: fun_eq_iff)

lemma map_of_fold_obj_set: "map_of (fold obj_set gs fs) n = (case map_of (rev gs) n of None \<Rightarrow> map_of fs n | Some v \<Rightarrow> Some v)"
  by (induction gs arbitrary: fs) (auto simp: map_of_obj_set map_add_def split: option.splits)

lemma merge_flags_at:
  "map_of (merge_flags d data) n = (case map_of (rev (spread data)) n of None \<Rightarrow> map_of d n | Some v \<Rightarrow> Some v)"
  by (simp add: merge_flags_def map_of_fold_obj_set)

lemma default_off: "map_of DEFAULT_FLAGS n = Some v \<Longrightarrow> v = JBool False"
  by (auto simp: DEFAULT_FLAGS_def split: if_splits)

text \<open>A flag is on in a flag map only if an accepted answer turned it on.\<close>

definition granted :: "Response result \<Rightarrow> string \<Rightarrow> bool" where
  "granted r n \<longleftrightarrow> (\<exists>res data v. r = Inr res \<and> ok res \<and> rs_json res = Some data \<and> (n, v) \<in> set (spread data) \<and> truthy_json v)"

lemma fetchFlags_granted:
  assumes "map_of (fetchFlags r) n = Some v" and "truthy_json v"
  shows "granted r n"
proof -
  have off: "map_of DEFAULT_FLAGS n = Some v \<Longrightarrow> False"
    using default_off assms(2) by fastforce
  from assms(1) off obtain res data where r: "r = Inr res" "ok res" "rs_json res = Some data"
      "map_of (merge_flags DEFAULT_FLAGS data) n = Some v"
    by (auto simp: fetchFlags_def split: sum.splits if_splits option.splits)
  with off have "map_of (rev (spread data)) n = Some v"
    by (auto simp: merge_flags_at split: option.splits)
  then have "(n, v) \<in> set (spread data)" using map_of_SomeD by fastforce
  with r assms(2) show ?thesis by (auto simp: granted_def)
qed

definition flag_inv :: "Response result set \<Rightarrow> FlagModule \<Rightarrow> bool" where
  "flag_inv R m \<longleftrightarrow>
     fm_sent m = (if fm_inflight m then [flags_request] else []) \<and>
     (case fm_cached m of
        None \<Rightarrow> (\<forall>c h. fm_hooks m c = Some h \<longrightarrow> hk_flags h = DEFAULT_FLAGS \<and> \<not> hk_loaded h)
      | Some f \<Rightarrow> fm_inflight m \<and> f \<in> fetchFlags ` R \<and>
          (\<forall>c h. fm_hooks m c = Some h \<longrightarrow> hk_flags h = (if hk_loaded h then f else DEFAULT_FLAGS)))"

lemma set_hooks_at:
  "fold (set_hook f) cs hs c = (if c \<in> set cs \<and> hs c \<noteq> None then Some \<lparr>hk_flags = f, hk_loaded = True\<rparr> else hs c)"
proof (induction cs arbitrary: hs)
  case (Cons d cs)
  have d: "set_hook f d hs c' = (if c' = d \<and> hs d \<noteq> None then Some \<lparr>hk_flags = f, hk_loaded = True\<rparr> else hs c')" for c'
    by (simp add: set_hook_def split: option.splits)
  show ?case by (auto simp: Cons d)
qed simp

lemma flag_inv_step:
  assumes "flag_inv R m" and "\<And>r. e = Settle r \<Longrightarrow> r \<in> R"
  shows "flag_inv R (flag_step e m)"
proof (cases e)
  case (Settle r)
  with assms show ?thesis
    by (auto simp: flag_inv_def settle_def Let_def set_hooks_at split: option.splits if_splits)
qed (use assms(1) in \<open>auto simp: flag_inv_def useFeatureFlags_init_def useFeatureFlags_effect_def getFeatureFlags_once_def
    useFeatureFlags_cleanup_def Let_def split: option.splits if_splits\<close>)

lemma flag_inv_start: "flag_inv R initial_flags"
  by (simp add: flag_inv_def initial_flags_def)

lemma flag_inv_run: "flag_inv {r. Settle r \<in> set es} (fold flag_step es initial_flags)"
  by (rule fold_invariant [where Q = "\<lambda>e. e \<in> set es"]) (auto intro: flag_inv_step flag_inv_start)

text \<open>A rendered component that missed the answer: the cache is full and nobody will tell it.\<close>

definition stuck :: "nat \<Rightarrow> FlagModule \<Rightarrow> bool" where
  "stuck c m \<longleftrightarrow> fm_cached m \<noteq> None \<and> fm_subs m = [] \<and> (\<exists>h. fm_hooks m c = Some h \<and> \<not> hk_loaded h)"

lemma stuck_step: "stuck c m \<Longrightarrow> e \<noteq> Cleanup c \<Longrightarrow> stuck c (flag_step e m)"
  by (cases e) (auto simp: stuck_def useFeatureFlags_init_def useFeatureFlags_effect_def useFeatureFlags_cleanup_def settle_def)

lemma stuck_run: "stuck c m \<Longrightarrow> Cleanup c \<notin> set es \<Longrightarrow> stuck c (fold flag_step es m)"
proof (induction es arbitrary: m)
  case (Cons e es)
  then have "stuck c (flag_step e m)" by (intro stuck_step) auto
  with Cons show ?case by simp
qed simp

section \<open>Properties\<close>

text \<open>C17: Parked pages fail closed: whatever the order of renders, effects, unmounts and answers, the page
  asks the server for flags at most once, and a gate shows its content only if that answer was a
  success whose body turned this flag on. Components that have loaded all see the same flags.\<close>

theorem flags_fail_closed:
  assumes "m = fold flag_step es initial_flags"
  shows "length (fm_sent m) \<le> 1 \<and>
    (\<forall>c h n. fm_hooks m c = Some h \<and> (FeaturePageGate n h = Children \<or> FeatureGate n h = Children) \<longrightarrow>
       (\<exists>r. Settle r \<in> set es \<and> granted r n)) \<and>
    (\<forall>c d h k. fm_hooks m c = Some h \<and> fm_hooks m d = Some k \<and> hk_loaded h \<and> hk_loaded k \<longrightarrow> hk_flags h = hk_flags k)"
proof (intro conjI allI impI)
  have inv: "flag_inv {r. Settle r \<in> set es} m" unfolding assms by (rule flag_inv_run)
  then show "length (fm_sent m) \<le> 1" by (simp add: flag_inv_def)
  show "\<exists>r. Settle r \<in> set es \<and> granted r n"
    if "fm_hooks m c = Some h \<and> (FeaturePageGate n h = Children \<or> FeatureGate n h = Children)" for c h n
  proof -
    from that obtain v where v: "hk_loaded h" "map_of (hk_flags h) n = Some v" "truthy_json v"
      by (auto simp: FeaturePageGate_def FeatureGate_def useFeatureFlag_def flag_value_def Let_def split: if_splits option.splits)
    with inv that obtain r where "Settle r \<in> set es" "hk_flags h = fetchFlags r"
      by (fastforce simp: flag_inv_def split: option.splits)
    with v fetchFlags_granted show ?thesis by auto
  qed
  show "hk_flags h = hk_flags k"
    if "fm_hooks m c = Some h \<and> fm_hooks m d = Some k \<and> hk_loaded h \<and> hk_loaded k" for c d h k
  proof (cases "fm_cached m")
    case None
    then have "\<not> hk_loaded h" using inv that unfolding flag_inv_def by auto
    then show ?thesis using that by blast
  next
    case (Some f)
    then have "hk_flags h = f" "hk_flags k = f"
      using inv that unfolding flag_inv_def by auto
    then show ?thesis by simp
  qed
qed

definition fixture_flags_reply :: "Response result" where
  "fixture_flags_reply = Inr \<lparr>rs_status = 200, rs_statusText = ''OK'', rs_text = [],
     rs_json = Some (JObj [(''analytics'', JBool True)])\<rparr>"

theorem flags_fail_closed_witness:
  "let m = fold flag_step [Render 0, Effect 0, Render 1, Effect 1, Settle fixture_flags_reply] initial_flags
   in length (fm_sent m) \<le> 1 \<and> (\<exists>h. fm_hooks m 1 = Some h \<and> FeaturePageGate ''analytics'' h = Children) \<and>
      granted fixture_flags_reply ''analytics''"
proof -
  let ?es = "[Render 0, Effect 0, Render 1, Effect 1, Settle fixture_flags_reply]"
  let ?m = "fold flag_step ?es initial_flags"
  have h: "\<exists>h. fm_hooks ?m 1 = Some h \<and> FeaturePageGate ''analytics'' h = Children"
    by (simp add: initial_flags_def useFeatureFlags_init_def useFeatureFlags_effect_def getFeatureFlags_once_def settle_def
        set_hook_def Let_def fixture_flags_reply_def fetchFlags_def ok_def merge_flags_def DEFAULT_FLAGS_def
        FeaturePageGate_def useFeatureFlag_def flag_value_def)
  note t = flags_fail_closed [of ?m ?es, OF refl]
  from h t have "\<exists>r. Settle r \<in> set ?es \<and> granted r ''analytics''" by blast
  then have "granted fixture_flags_reply ''analytics''" by auto
  with h t show ?thesis by (simp only: Let_def simp_thms)
qed

text \<open>The hook can miss the answer. A component that renders before the answer arrives and runs its
  effect after it finds the cache filled, subscribes to nothing, and shows a blank page gate for as long
  as it stays mounted, even though every flag is known.\<close>

theorem flags_hook_can_stick:
  assumes "Cleanup 1 \<notin> set es"
  shows "\<exists>h. fm_hooks (fold flag_step ([Render 0, Effect 0, Render 1, Settle r, Effect 1] @ es) initial_flags) 1 = Some h \<and>
    FeaturePageGate n h = Blank \<and> FeatureGate n h = Blank"
proof -
  let ?m = "fold flag_step [Render 0, Effect 0, Render 1, Settle r, Effect 1] initial_flags"
  have "stuck 1 ?m"
    by (simp add: stuck_def initial_flags_def useFeatureFlags_init_def useFeatureFlags_effect_def getFeatureFlags_once_def
        settle_def set_hook_def Let_def)
  then have "stuck 1 (fold flag_step es ?m)" using assms by (rule stuck_run)
  then obtain h where "fm_hooks (fold flag_step es ?m) 1 = Some h" "\<not> hk_loaded h" by (auto simp: stuck_def)
  then show ?thesis
    by (intro exI [of _ h]) (simp add: FeaturePageGate_def FeatureGate_def useFeatureFlag_def)
qed

theorem flags_hook_can_stick_witness:
  "\<exists>h. fm_hooks (fold flag_step ([Render 0, Effect 0, Render 1, Settle fixture_flags_reply, Effect 1] @ [Effect 1, Render 2, Effect 2])
     initial_flags) 1 = Some h \<and> FeaturePageGate ''analytics'' h = Blank"
proof -
  have "Cleanup 1 \<notin> set [Effect 1, Render 2, Effect 2]" by simp
  from flags_hook_can_stick [OF this, of fixture_flags_reply "''analytics''"] show ?thesis by blast
qed

text \<open>Client and server agree on the flags: before an answer every flag of the page is the server's
  default, and after the server's answer each flag, listed or not, has exactly the server's effective
  value for every environment override.\<close>

theorem flags_match_server:
  assumes "map_of (rev fs) = (\<lambda>n. map_option JBool (HandleFeatureFlags override n))"
    and "ok res" and "rs_json res = Some (JObj fs)"
  shows "map_of DEFAULT_FLAGS n = map_option JBool (DefaultFeatureFlags n) \<and>
    map_of (fetchFlags (Inr res)) n = map_option JBool (HandleFeatureFlags override n)"
proof -
  have "DEFAULT_FLAGS = map (\<lambda>(k, b). (k, JBool b)) default_entries"
    by (simp add: DEFAULT_FLAGS_def default_entries_def)
  then have d: "map_of DEFAULT_FLAGS n = map_option JBool (DefaultFeatureFlags n)"
    by (metis map_of_map DefaultFeatureFlags_def o_apply)
  have "map_of (fetchFlags (Inr res)) n =
      (case map_option JBool (HandleFeatureFlags override n) of None \<Rightarrow> map_of DEFAULT_FLAGS n | Some v \<Rightarrow> Some v)"
    using assms by (simp add: fetchFlags_def merge_flags_at)
  then show ?thesis using d by (auto simp: HandleFeatureFlags_def split: option.splits)
qed

theorem flags_match_server_witness:
  "map_of (fetchFlags (Inr \<lparr>rs_status = 200, rs_statusText = ''OK'', rs_text = [],
     rs_json = Some (JObj (map (\<lambda>(k, b). (k, JBool b)) (rev ((''speakers'', True) # default_entries))))\<rparr>)) ''speakers'' = Some (JBool True)"
proof -
  let ?fs = "map (\<lambda>(k, b). (k, JBool b)) (rev ((''speakers'', True) # default_entries))"
  have r: "rev ?fs = map (\<lambda>(k, b). (k, JBool b)) ((''speakers'', True) # default_entries)"
    by (simp only: rev_map rev_rev_ident)
  have "map_of (rev ?fs) = (\<lambda>n. map_option JBool (HandleFeatureFlags [''speakers'' \<mapsto> True] n))"
    unfolding r by (simp only: map_of_map) (simp add: HandleFeatureFlags_def DefaultFeatureFlags_def fun_eq_iff)
  from flags_match_server [OF this, of "\<lparr>rs_status = 200, rs_statusText = ''OK'', rs_text = [], rs_json = Some (JObj ?fs)\<rparr>" "''speakers''"]
  show ?thesis by (simp add: ok_def HandleFeatureFlags_def)
qed

end
