(* ===== verification/Session_Manager.thy ===== *)
theory Session_Manager
  imports Auth
begin

text \<open>
  The idle and expiry warning of \<^verbatim>\<open>frontend/src/hooks/useSessionManager.tsx\<close>: the hook as a machine whose
  events carry the clock, the countdown of the warning dialog, and the cookies \<^verbatim>\<open>setSessionCookies\<close> of
  \<^verbatim>\<open>internal/api/auth_handler.go\<close> gives the browser. Times are milliseconds.
\<close>

section \<open>The hook\<close>

definition SESSION_WARNING_MS :: ms where "SESSION_WARNING_MS = 5 * 60 * 1000"

definition HEARTBEAT_INTERVAL_MS :: ms where "HEARTBEAT_INTERVAL_MS = 60 * 1000"

definition IDLE_TIMEOUT_MS :: ms where "IDLE_TIMEOUT_MS = 30 * 60 * 1000"

definition ACTIVITY_DEBOUNCE_MS :: ms where "ACTIVITY_DEBOUNCE_MS = 5000"

definition SESSION_DURATION_MS :: ms where "SESSION_DURATION_MS = 8 * 3600 * 1000"

definition isLocalSessionCookie :: "World \<Rightarrow> bool" where
  "isLocalSessionCookie w = (wd_document w \<and> (\<exists>c\<in>set (split_entries (document_cookie w)). starts_with ''ironsight_session='' c))"

text \<open>\<open>sm_debounce\<close> and \<open>sm_rearm\<close> are the pending timers: when the debounced activity is recorded, and when a
  dismissal ends. \<open>sm_logouts\<close> counts the calls of \<^verbatim>\<open>logout\<close>.\<close>

record SessionManager =
  sm_showWarning :: bool
  sm_timeRemaining :: ms
  sm_lastActivity :: ms
  sm_sessionStart :: ms
  sm_warningDismissed :: bool
  sm_listening :: bool
  sm_heartbeat :: bool
  sm_debounce :: "ms option"
  sm_rearm :: "ms list"
  sm_logouts :: nat

definition useSessionManager :: "ms \<Rightarrow> SessionManager" where
  "useSessionManager now = \<lparr>sm_showWarning = False, sm_timeRemaining = 0, sm_lastActivity = now, sm_sessionStart = now,
     sm_warningDismissed = False, sm_listening = False, sm_heartbeat = False, sm_debounce = None, sm_rearm = [], sm_logouts = 0\<rparr>"

definition recordActivity :: "ms \<Rightarrow> SessionManager \<Rightarrow> SessionManager" where
  "recordActivity now m = m\<lparr>sm_lastActivity := now\<rparr>"

definition session_effect :: "bool \<Rightarrow> bool \<Rightarrow> ms \<Rightarrow> SessionManager \<Rightarrow> SessionManager" where
  "session_effect user local_cookie now m =
     (if \<not> user \<or> \<not> local_cookie then m
      else m\<lparr>sm_sessionStart := now, sm_listening := True, sm_debounce := None, sm_heartbeat := True\<rparr>)"

definition activity_handler :: "ms \<Rightarrow> SessionManager \<Rightarrow> SessionManager" where
  "activity_handler now m = (if sm_listening m then m\<lparr>sm_debounce := Some (now + ACTIVITY_DEBOUNCE_MS)\<rparr> else m)"

definition heartbeat :: "ms \<Rightarrow> SessionManager \<Rightarrow> SessionManager" where
  "heartbeat now m =
     (let sessionExpiry = sm_sessionStart m + SESSION_DURATION_MS;
          remaining = sessionExpiry - now;
          idleTime = now - sm_lastActivity m
      in if remaining \<le> 0 then m\<lparr>sm_heartbeat := False, sm_logouts := sm_logouts m + 1\<rparr>
         else if idleTime \<ge> IDLE_TIMEOUT_MS \<and> \<not> sm_warningDismissed m
         then m\<lparr>sm_showWarning := True, sm_timeRemaining := remaining\<rparr>
         else if remaining \<le> SESSION_WARNING_MS \<and> \<not> sm_warningDismissed m
         then m\<lparr>sm_showWarning := True, sm_timeRemaining := remaining\<rparr>
         else m)"

definition effect_cleanup :: "SessionManager \<Rightarrow> SessionManager" where
  "effect_cleanup m = m\<lparr>sm_heartbeat := False, sm_debounce := None, sm_listening := False\<rparr>"

definition extendSession :: "ms \<Rightarrow> SessionManager \<Rightarrow> SessionManager" where
  "extendSession now m = m\<lparr>sm_showWarning := False, sm_warningDismissed := True, sm_lastActivity := now,
     sm_rearm := sm_rearm m @ [now + SESSION_WARNING_MS]\<rparr>"

definition dismissWarning :: "ms \<Rightarrow> SessionManager \<Rightarrow> SessionManager" where
  "dismissWarning now m = m\<lparr>sm_showWarning := False, sm_warningDismissed := True,
     sm_rearm := sm_rearm m @ [now + 5 * 60 * 1000]\<rparr>"

text \<open>An event happens at a time; a timer callback runs only while its timer is pending.\<close>

datatype session_event = User_input | Debounced | Heartbeat | Rearm | Extend | Dismiss

fun session_step :: "ms \<times> session_event \<Rightarrow> SessionManager \<Rightarrow> SessionManager" where
  "session_step (now, User_input) m = activity_handler now m"
| "session_step (now, Debounced) m =
     (case sm_debounce m of None \<Rightarrow> m | Some t \<Rightarrow> if t \<le> now then recordActivity now (m\<lparr>sm_debounce := None\<rparr>) else m)"
| "session_step (now, Heartbeat) m = (if sm_heartbeat m then heartbeat now m else m)"
| "session_step (now, Rearm) m =
     (case sm_rearm m of [] \<Rightarrow> m | t # ts \<Rightarrow> if t \<le> now then m\<lparr>sm_rearm := ts, sm_warningDismissed := False\<rparr> else m)"
| "session_step (now, Extend) m = extendSession now m"
| "session_step (now, Dismiss) m = dismissWarning now m"

section \<open>The warning dialog\<close>

record Countdown =
  cd_countdown :: ms
  cd_timer :: bool
  cd_logouts :: nat

definition modal_start :: "ms \<Rightarrow> Countdown \<Rightarrow> Countdown" where
  "modal_start timeRemaining c = c\<lparr>cd_countdown := timeRemaining, cd_timer := True\<rparr>"

definition modal_tick :: "Countdown \<Rightarrow> Countdown" where
  "modal_tick c =
     (if \<not> cd_timer c then c
      else if cd_countdown c \<le> 1000 then c\<lparr>cd_timer := False, cd_logouts := cd_logouts c + 1, cd_countdown := 0\<rparr>
      else c\<lparr>cd_countdown := cd_countdown c - 1000\<rparr>)"

definition modal_text :: "Countdown \<Rightarrow> string" where
  "modal_text c = int_str (cd_countdown c div 60000) @ '':'' @ pad_start 2 (CHR ''0'') (int_str ((cd_countdown c mod 60000) div 1000))"

section \<open>The cookies of a login\<close>

text \<open>A cookie with its \<^verbatim>\<open>HttpOnly\<close> attribute; scripts see the others only.\<close>

definition setSessionCookies :: "string \<Rightarrow> string \<Rightarrow> (string \<times> string \<times> bool) list" where
  "setSessionCookies token csrfToken = [(''ironsight_session'', token, True), (''ironsight_csrf'', csrfToken, False)]"

definition script_jar :: "(string \<times> string \<times> bool) list \<Rightarrow> jar" where
  "script_jar cs = map (\<lambda>(n, v, _). (n, v)) (filter (\<lambda>(_, _, httpOnly). \<not> httpOnly) cs)"

section \<open>Library\<close>

lemmas session_defs = activity_handler_def recordActivity_def heartbeat_def extendSession_def dismissWarning_def Let_def

text \<open>A manager whose effect did not start anything does nothing.\<close>

definition idle_manager :: "SessionManager \<Rightarrow> bool" where
  "idle_manager m \<longleftrightarrow> \<not> sm_listening m \<and> \<not> sm_heartbeat m \<and> \<not> sm_showWarning m \<and> sm_logouts m = 0 \<and> sm_debounce m = None"

lemma idle_step: "idle_manager m \<Longrightarrow> idle_manager (session_step e m)"
  by (cases e; cases "snd e") (auto simp: idle_manager_def session_defs split: list.splits)

interpretation inert: machine session_step idle_manager idle_manager
  by unfold_locales (auto intro: idle_step)

text \<open>While the session runs, its start is fixed; once over, it stays over.\<close>

definition beats_past :: "ms \<Rightarrow> (ms \<times> session_event) list \<Rightarrow> bool" where
  "beats_past t es \<longleftrightarrow> (\<exists>now\<ge>t. (now, Heartbeat) \<in> set es)"

lemma session_step_start [simp]: "sm_sessionStart (session_step e m) = sm_sessionStart m"
  by (cases e; cases "snd e") (auto simp: session_defs split: list.splits option.splits)

lemma session_step_running:
  "sm_heartbeat m \<Longrightarrow> sm_logouts m = n \<Longrightarrow>
   (if beats_past (sm_sessionStart m + SESSION_DURATION_MS) [e]
    then \<not> sm_heartbeat (session_step e m) \<and> sm_logouts (session_step e m) = n + 1
    else sm_heartbeat (session_step e m) \<and> sm_logouts (session_step e m) = n)"
  by (cases e; cases "snd e") (auto simp: session_defs beats_past_def split: list.splits option.splits)

lemma session_step_over:
  "\<not> sm_heartbeat m \<Longrightarrow> \<not> sm_heartbeat (session_step e m) \<and> sm_logouts (session_step e m) = sm_logouts m"
  by (cases e; cases "snd e") (auto simp: session_defs split: list.splits option.splits)

lemma session_run_over:
  "\<not> sm_heartbeat m \<Longrightarrow> sm_logouts (fold session_step es m) = sm_logouts m"
proof (induction es arbitrary: m)
  case (Cons e es)
  from session_step_over [OF Cons.prems, of e] Cons.IH [of "session_step e m"] show ?case by simp
qed simp

lemma beats_past_Cons: "beats_past t (e # es) \<longleftrightarrow> beats_past t [e] \<or> beats_past t es"
  by (auto simp: beats_past_def)

lemma session_run_logouts:
  "sm_heartbeat m \<Longrightarrow> sm_logouts (fold session_step es m) =
     sm_logouts m + (if beats_past (sm_sessionStart m + SESSION_DURATION_MS) es then 1 else 0)"
proof (induction es arbitrary: m)
  case Nil
  then show ?case by (simp add: beats_past_def)
next
  case (Cons e es)
  let ?t = "sm_sessionStart m + SESSION_DURATION_MS"
  show ?case
  proof (cases "beats_past ?t [e]")
    case True
    then have "\<not> sm_heartbeat (session_step e m)" "sm_logouts (session_step e m) = sm_logouts m + 1"
      using session_step_running [OF Cons.prems refl, of e] by simp_all
    then show ?thesis using True session_run_over beats_past_Cons [of ?t e es] by simp
  next
    case False
    then have "sm_heartbeat (session_step e m)" "sm_logouts (session_step e m) = sm_logouts m"
      using session_step_running [OF Cons.prems refl, of e] by simp_all
    then show ?thesis using False Cons.IH [of "session_step e m"] beats_past_Cons [of ?t e es] by simp
  qed
qed

lemma modal_ticks:
  assumes "cd_timer c"
  shows "cd_logouts ((modal_tick ^^ n) c) = cd_logouts c + (if cd_countdown c \<le> 1000 * int n \<and> 0 < n then 1 else 0) \<and>
    cd_timer ((modal_tick ^^ n) c) = (n = 0 \<or> 1000 * int n < cd_countdown c) \<and>
    (n = 0 \<or> cd_countdown ((modal_tick ^^ n) c) = max 0 (cd_countdown c - 1000 * int n))"
proof (induction n)
  case 0
  then show ?case using assms by simp
next
  case (Suc n)
  then show ?case using assms by (cases "n = 0") (auto simp: modal_tick_def)
qed

lemma lower_hex_no_separator: "d < 16 \<Longrightarrow> lower_hex d \<noteq> CHR '';''"
  by (auto simp: lower_hex_def char_of_eq_iff take_bit_nat_eq_self)

lemma token_no_separator: "generateCSRFToken entropy = Some t \<Longrightarrow> CHR '';'' \<notin> set t"
proof -
  have "unat (b :: 8 word) div 16 < 16" for b
    using unsigned_less [where 'a = nat, of b] by (simp add: less_mult_imp_div_less)
  then have "CHR '';'' \<noteq> lower_hex (unat (b :: 8 word) div 16)" "CHR '';'' \<noteq> lower_hex (unat b mod 16)" for b
    using lower_hex_no_separator by (metis, metis mod_less_divisor zero_less_numeral)
  then have "CHR '';'' \<notin> set (hexEncode bs)" for bs by (auto simp: hexEncode_def)
  then show "generateCSRFToken entropy = Some t \<Longrightarrow> CHR '';'' \<notin> set t" by (auto simp: generateCSRFToken_def)
qed

section \<open>Properties\<close>

text \<open>A local session ends once and on time: the page signs the user out exactly at the first heartbeat
  eight hours or more after the effect started, whatever input, dismissals and extensions come before
  it, and never a second time. In particular extending the session does not postpone the end.\<close>

theorem session_expiry_fixed:
  "sm_logouts (fold session_step es (session_effect True True t0 (useSessionManager t1))) =
     (if beats_past (t0 + 8 * 3600 * 1000) es then 1 else 0)"
  using session_run_logouts [of "session_effect True True t0 (useSessionManager t1)" es]
  by (simp add: session_effect_def useSessionManager_def SESSION_DURATION_MS_def)

text \<open>The warning never appears after a password login: the session cookie the server sets is invisible
  to scripts, so the check for it fails and the hook neither warns nor signs out, whatever happens
  later.\<close>

theorem session_warning_inert:
  assumes "generateCSRFToken entropy = Some csrf"
  shows "let w' = w\<lparr>wd_jar := script_jar (setSessionCookies token csrf)\<rparr>;
       m = fold session_step es (session_effect user (isLocalSessionCookie w') t0 (useSessionManager t1))
   in \<not> sm_showWarning m \<and> sm_logouts m = 0"
proof -
  let ?w = "w\<lparr>wd_jar := script_jar (setSessionCookies token csrf)\<rparr>"
  have "CHR '';'' \<notin> set (''ironsight_csrf='' @ csrf)"
    using token_no_separator [OF assms] by auto
  then have "split_entries (document_cookie ?w) = [''ironsight_csrf='' @ csrf]"
    by (simp add: document_cookie_def script_jar_def setSessionCookies_def split_entries_single del: append_Cons)
  then have "\<not> isLocalSessionCookie ?w" by (simp add: isLocalSessionCookie_def)
  then have "idle_manager (session_effect user (isLocalSessionCookie ?w) t0 (useSessionManager t1))"
    by (simp add: session_effect_def useSessionManager_def idle_manager_def)
  then have "idle_manager (fold session_step es (session_effect user (isLocalSessionCookie ?w) t0 (useSessionManager t1)))"
    by (rule inert.inv_run)
  then show ?thesis by (simp only: Let_def idle_manager_def simp_thms)
qed

text \<open>The dialog counts down to the end: opened with a remaining time it signs out exactly once, at the
  tick at which the time is used up, and shows zero from then on.\<close>

theorem modal_counts_down:
  assumes "c = modal_start r \<lparr>cd_countdown = r0, cd_timer = False, cd_logouts = 0\<rparr>" and "0 < n"
  shows "cd_logouts ((modal_tick ^^ n) c) = (if r \<le> 1000 * int n then 1 else 0) \<and>
    cd_countdown ((modal_tick ^^ n) c) = max 0 (r - 1000 * int n)"
  using modal_ticks [of c n] assms by (simp add: modal_start_def)

theorem modal_counts_down_witness:
  "cd_logouts ((modal_tick ^^ 3) (modal_start 2500 \<lparr>cd_countdown = 0, cd_timer = False, cd_logouts = 0\<rparr>)) = 1"
  using modal_counts_down [of "modal_start 2500 \<lparr>cd_countdown = 0, cd_timer = False, cd_logouts = 0\<rparr>" 2500 0 3] by simp

end
