(* ===== verification/Media.thy ===== *)
theory Media
  imports Http_Client
begin

text \<open>
  Signed media addresses, \<^verbatim>\<open>frontend/src/lib/media.ts\<close>: asking for a token, rewriting stored legacy addresses
  and the refresher that renews a token before it expires. The address in a mint answer is a string or
  missing; a missing one is \<^verbatim>\<open>undefined\<close> for the caller.
\<close>

section \<open>Minting\<close>

datatype MediaKind = Segment | Hls | Snapshot

fun kind_name :: "MediaKind \<Rightarrow> string" where
  "kind_name Segment = ''segment''"
| "kind_name Hls = ''hls''"
| "kind_name Snapshot = ''snapshot''"

record MintRequest =
  mr_camera_id :: string
  mr_kind :: MediaKind
  mr_path :: string
  mr_ttl_seconds :: "int option"

definition mint_json :: "MintRequest \<Rightarrow> json" where
  "mint_json q = JObj ([(''camera_id'', JStr (mr_camera_id q)), (''kind'', JStr (kind_name (mr_kind q))), (''path'', JStr (mr_path q))] @
     (case mr_ttl_seconds q of None \<Rightarrow> [] | Some t \<Rightarrow> [(''ttl_seconds'', JNum (of_int t))]))"

definition mint_init :: "MintRequest \<Rightarrow> RequestInit" where
  "mint_init q = \<lparr>ri_method = Some ''POST'', ri_headers = [(''Content-Type'', ''application/json'')], ri_body = Json_body (mint_json q)\<rparr>"

definition mintMediaToken :: "MintRequest \<Rightarrow> json io" where
  "mintMediaToken q =
     bind_io (authFetch ''/api/media/mint'' (mint_init q)) (\<lambda>res.
     if \<not> ok res then throw_io (''mint failed: '' @ nat_str (rs_status res)) else res_json res)"

text \<open>\<^verbatim>\<open>const { url } = await mintMediaToken(...)\<close>: reading a field of null throws.\<close>

definition minted_url :: "MintRequest \<Rightarrow> string option io" where
  "minted_url q = bind_io (mintMediaToken q) (\<lambda>j.
     if j = JNull then throw_io ''Cannot destructure property 'url' ''
     else return_io (case json_field ''url'' j of Some (JStr u) \<Rightarrow> Some u | _ \<Rightarrow> None))"

section \<open>Legacy addresses\<close>

definition is_line_end :: "char \<Rightarrow> bool" where
  "is_line_end c \<longleftrightarrow> c = CHR 0x0A \<or> c = CHR 0x0D"

definition file_char :: "char \<Rightarrow> bool" where
  "file_char c \<longleftrightarrow> c \<noteq> CHR ''/'' \<and> c \<noteq> CHR ''?'' \<and> c \<noteq> CHR ''#''"

text \<open>The patterns \<^verbatim>\<open>^/<root>/([^/]+)/([^/?#]+)$\<close>, with \<^verbatim>\<open>(#.*)?\<close> at the end when \<open>frag\<close> is set. Each group stops
  at the first character it excludes.\<close>

definition match_legacy :: "string \<Rightarrow> bool \<Rightarrow> string \<Rightarrow> (string \<times> string \<times> string) option" where
  "match_legacy pre frag raw =
     (if \<not> starts_with pre raw then None
      else let rest = drop (length pre) raw;
               cam = takeWhile (\<lambda>c. c \<noteq> CHR ''/'') rest;
               tail = dropWhile (\<lambda>c. c \<noteq> CHR ''/'') rest;
               file = takeWhile file_char (tl tail);
               sfx = dropWhile file_char (tl tail)
           in if cam \<noteq> [] \<and> tail \<noteq> [] \<and> file \<noteq> [] \<and>
                 (sfx = [] \<or> frag \<and> hd sfx = CHR ''#'' \<and> list_all (\<lambda>c. \<not> is_line_end c) (tl sfx))
              then Some (cam, file, sfx) else None)"

definition mint_for :: "string \<Rightarrow> MediaKind \<Rightarrow> string \<Rightarrow> MintRequest" where
  "mint_for cam kind file = \<lparr>mr_camera_id = cam, mr_kind = kind, mr_path = file, mr_ttl_seconds = None\<rparr>"

definition resolve_as :: "MediaKind \<Rightarrow> string \<Rightarrow> string \<Rightarrow> string option io" where
  "resolve_as kind cam file = try_io (minted_url (mint_for cam kind file)) (return_io (Some []))"

definition resolveMediaURL :: "string option \<Rightarrow> string option io" where
  "resolveMediaURL rawURL =
     (if \<not> truthy_str rawURL then return_io (Some [])
      else let raw = the rawURL in
      if starts_with ''/media/v1/'' raw then return_io (Some raw)
      else if starts_with ''http://'' raw \<or> starts_with ''https://'' raw then return_io (Some raw)
      else case match_legacy ''/snapshots/'' False raw of
        Some (cam, file, _) \<Rightarrow> resolve_as Snapshot cam file
      | None \<Rightarrow> (case match_legacy ''/recordings/'' True raw of
          Some (cam, file, frag) \<Rightarrow>
            try_io (bind_io (minted_url (mint_for cam Segment file)) (\<lambda>u. return_io (Some (nullish u ''undefined'' @ frag))))
                   (return_io (Some []))
        | None \<Rightarrow> (case match_legacy ''/hls/'' False raw of
            Some (cam, file, _) \<Rightarrow> resolve_as Hls cam file
          | None \<Rightarrow> return_io (Some raw))))"

section \<open>The refresher\<close>

text \<open>A timer is pending with its delay; \<open>rf_minting\<close> counts the mints in flight. A step returns the calls of
  \<^verbatim>\<open>onRefresh\<close>.\<close>

record Refresher =
  rf_timer :: "ms option"
  rf_disposed :: bool
  rf_minting :: nat

definition createMediaRefresher :: Refresher where
  "createMediaRefresher = \<lparr>rf_timer = None, rf_disposed = False, rf_minting = 0\<rparr>"

definition tick_start :: "Refresher \<Rightarrow> Refresher" where
  "tick_start s = (if rf_disposed s then s else s\<lparr>rf_minting := rf_minting s + 1\<rparr>)"

text \<open>\<open>expires\<close> is \<^verbatim>\<open>Date.parse(r.expires_at)\<close>, none for \<^verbatim>\<open>NaN\<close>, which makes the delay \<^verbatim>\<open>NaN\<close> and the timer immediate.\<close>

definition refresh_delay :: "ms option \<Rightarrow> ms \<Rightarrow> ms" where
  "refresh_delay expires now = (case expires of None \<Rightarrow> 0 | Some t \<Rightarrow> max 30000 (t - now - 60000))"

definition tick_minted :: "string option \<Rightarrow> ms option \<Rightarrow> ms \<Rightarrow> Refresher \<Rightarrow> Refresher \<times> string option list" where
  "tick_minted url expires now s0 =
     (let s = s0\<lparr>rf_minting := rf_minting s0 - 1\<rparr> in
      if rf_disposed s then (s, [])
      else (s\<lparr>rf_timer := Some (refresh_delay expires now)\<rparr>, [url]))"

definition tick_failed :: "Refresher \<Rightarrow> Refresher" where
  "tick_failed s0 =
     (let s = s0\<lparr>rf_minting := rf_minting s0 - 1\<rparr> in if rf_disposed s then s else s\<lparr>rf_timer := Some 10000\<rparr>)"

definition dispose :: "Refresher \<Rightarrow> Refresher" where
  "dispose s = s\<lparr>rf_disposed := True, rf_timer := None\<rparr>"

datatype refresh_event = Minted "string option" "ms option" ms | Mint_failed | Timer_due | Disposed

fun refresh_step :: "refresh_event \<Rightarrow> Refresher \<Rightarrow> Refresher \<times> string option list" where
  "refresh_step (Minted url expires now) s = (if rf_minting s = 0 then (s, []) else tick_minted url expires now s)"
| "refresh_step Mint_failed s = (if rf_minting s = 0 then (s, []) else (tick_failed s, []))"
| "refresh_step Timer_due s = (if rf_timer s = None then (s, []) else (tick_start (s\<lparr>rf_timer := None\<rparr>), []))"
| "refresh_step Disposed s = (dispose s, [])"

fun refresh_run :: "refresh_event list \<Rightarrow> Refresher \<Rightarrow> Refresher \<times> string option list" where
  "refresh_run [] s = (s, [])"
| "refresh_run (e # es) s = (let (s1, o1) = refresh_step e s; (s2, o2) = refresh_run es s1 in (s2, o1 @ o2))"

section \<open>Library\<close>

lemma takeWhile_stop: "list_all P xs \<Longrightarrow> \<not> P c \<Longrightarrow> takeWhile P (xs @ c # ys) = xs \<and> dropWhile P (xs @ c # ys) = c # ys"
  by (induction xs) auto

lemma takeWhile_all: "list_all P xs \<Longrightarrow> takeWhile P xs = xs \<and> dropWhile P xs = []"
  by (induction xs) auto

text \<open>The addresses a pattern accepts, as the server wrote them.\<close>

definition legacy_parts :: "bool \<Rightarrow> string \<Rightarrow> string \<Rightarrow> string \<Rightarrow> bool" where
  "legacy_parts frag cam file sfx \<longleftrightarrow> cam \<noteq> [] \<and> CHR ''/'' \<notin> set cam \<and> file \<noteq> [] \<and> list_all file_char file \<and>
     (sfx = [] \<or> frag \<and> hd sfx = CHR ''#'' \<and> list_all (\<lambda>c. \<not> is_line_end c) (tl sfx))"

lemma match_legacy_iff:
  "match_legacy pre frag raw = Some (cam, file, sfx) \<longleftrightarrow>
     raw = pre @ cam @ ''/'' @ file @ sfx \<and> legacy_parts frag cam file sfx"
proof
  assume m: "match_legacy pre frag raw = Some (cam, file, sfx)"
  then obtain rest where raw: "raw = pre @ rest"
    by (auto simp: match_legacy_def starts_with_iff split: if_splits)
  from m raw have parts: "cam = takeWhile (\<lambda>c. c \<noteq> CHR ''/'') rest" "file = takeWhile file_char (tl (dropWhile (\<lambda>c. c \<noteq> CHR ''/'') rest))"
      "sfx = dropWhile file_char (tl (dropWhile (\<lambda>c. c \<noteq> CHR ''/'') rest))" "dropWhile (\<lambda>c. c \<noteq> CHR ''/'') rest \<noteq> []"
      "cam \<noteq> []" "file \<noteq> []" "sfx = [] \<or> frag \<and> hd sfx = CHR ''#'' \<and> list_all (\<lambda>c. \<not> is_line_end c) (tl sfx)"
    by (auto simp: match_legacy_def Let_def split: if_splits)
  from parts(4) have "hd (dropWhile (\<lambda>c. c \<noteq> CHR ''/'') rest) = CHR ''/''" using hd_dropWhile by blast
  then have tail: "dropWhile (\<lambda>c. c \<noteq> CHR ''/'') rest = CHR ''/'' # (file @ sfx)"
    using parts(2-4) by (metis list.collapse takeWhile_dropWhile_id)
  have "rest = cam @ CHR ''/'' # (file @ sfx)"
    using tail parts(1) by (metis takeWhile_dropWhile_id)
  moreover have "CHR ''/'' \<notin> set cam" "list_all file_char file"
    using set_takeWhileD unfolding parts(1,2) list_all_iff by fastforce+
  ultimately show "raw = pre @ cam @ ''/'' @ file @ sfx \<and> legacy_parts frag cam file sfx"
    using raw parts(5-7) by (simp add: legacy_parts_def)
next
  assume a: "raw = pre @ cam @ ''/'' @ file @ sfx \<and> legacy_parts frag cam file sfx"
  then have cam: "takeWhile (\<lambda>c. c \<noteq> CHR ''/'') (cam @ CHR ''/'' # (file @ sfx)) = cam \<and>
      dropWhile (\<lambda>c. c \<noteq> CHR ''/'') (cam @ CHR ''/'' # (file @ sfx)) = CHR ''/'' # (file @ sfx)"
    by (intro takeWhile_stop) (auto simp: legacy_parts_def list_all_iff)
  have "takeWhile file_char (file @ sfx) = file \<and> dropWhile file_char (file @ sfx) = sfx"
  proof (cases sfx)
    case Nil
    then show ?thesis using a takeWhile_all by (auto simp: legacy_parts_def)
  next
    case (Cons c cs)
    then show ?thesis using a takeWhile_stop [of file_char "file" c cs] by (auto simp: legacy_parts_def file_char_def)
  qed
  then show "match_legacy pre frag raw = Some (cam, file, sfx)"
    using a cam by (auto simp: match_legacy_def legacy_parts_def Let_def list_all_iff)
qed

lemma match_legacy_None_iff:
  "match_legacy pre frag raw = None \<longleftrightarrow> \<not> (\<exists>cam file sfx. raw = pre @ cam @ ''/'' @ file @ sfx \<and> legacy_parts frag cam file sfx)"
  using match_legacy_iff [of pre frag raw] by (metis not_None_eq prod_cases3)

text \<open>The three legacy roots.\<close>

definition legacy_roots :: "(string \<times> MediaKind \<times> bool) list" where
  "legacy_roots = [(''/snapshots/'', Snapshot, False), (''/recordings/'', Segment, True), (''/hls/'', Hls, False)]"

definition is_legacy :: "string \<Rightarrow> bool" where
  "is_legacy raw \<longleftrightarrow> (\<exists>(pre, kind, frag)\<in>set legacy_roots. match_legacy pre frag raw \<noteq> None)"

lemma match_needs_root: "\<not> starts_with pre raw \<Longrightarrow> match_legacy pre frag raw = None"
  by (simp add: match_legacy_def)

lemma resolve_other:
  assumes "\<not> is_legacy raw"
  shows "resolveMediaURL (Some raw) w = (w, Inr (Some raw))"
proof -
  have "match_legacy ''/snapshots/'' False raw = None" "match_legacy ''/recordings/'' True raw = None" "match_legacy ''/hls/'' False raw = None"
    using assms by (simp_all add: is_legacy_def legacy_roots_def del: not_None_eq not_Some_eq)
  then show ?thesis by (cases raw) (simp_all add: resolveMediaURL_def return_io_def Let_def)
qed

definition or_empty :: "(World \<times> string option result) \<Rightarrow> string \<Rightarrow> bool \<Rightarrow> World \<times> string option result" where
  "or_empty p sfx frag = (fst p, case snd p of Inl e \<Rightarrow> Inr (Some []) | Inr u \<Rightarrow> Inr (if frag then Some (nullish u ''undefined'' @ sfx) else u))"

lemma resolve_legacy:
  assumes "(pre, kind, frag) \<in> set legacy_roots" and "legacy_parts frag cam file sfx"
  shows "resolveMediaURL (Some (pre @ cam @ ''/'' @ file @ sfx)) w = or_empty (minted_url (mint_for cam kind file) w) sfx frag"
proof -
  let ?raw = "pre @ cam @ ''/'' @ file @ sfx"
  have m: "match_legacy pre frag ?raw = Some (cam, file, sfx)" using assms(2) match_legacy_iff by blast
  from assms(1) consider "pre = ''/snapshots/''" "kind = Snapshot" "\<not> frag" | "pre = ''/recordings/''" "kind = Segment" "frag"
    | "pre = ''/hls/''" "kind = Hls" "\<not> frag" by (auto simp: legacy_roots_def)
  then show ?thesis
    by cases (use m in \<open>simp_all add: resolveMediaURL_def match_needs_root resolve_as_def or_empty_def try_io_def bind_io_def return_io_def
        split: prod.splits sum.splits\<close>)
qed

subsection \<open>The refresher's invariant\<close>

definition refresher_inv :: "Refresher \<Rightarrow> bool" where
  "refresher_inv s \<longleftrightarrow> (if rf_disposed s then rf_timer s = None \<and> rf_minting s \<le> 1
     else (rf_timer s = None \<and> rf_minting s = 1) \<or> (rf_timer s \<noteq> None \<and> rf_minting s = 0))"

lemma refresher_step_inv: "refresher_inv s \<Longrightarrow> refresher_inv (fst (refresh_step e s))"
  by (cases e) (auto simp: refresher_inv_def tick_minted_def tick_failed_def tick_start_def dispose_def Let_def
      split: if_splits)

interpretation refresher: machine "\<lambda>e s. fst (refresh_step e s)" "\<lambda>s. s = tick_start createMediaRefresher" refresher_inv
  by unfold_locales (auto simp: refresher_step_inv, simp add: refresher_inv_def tick_start_def createMediaRefresher_def)

lemma refresh_run_state: "fst (refresh_run es s) = fold (\<lambda>e s. fst (refresh_step e s)) es s"
  by (induction es arbitrary: s) (simp_all add: Let_def case_prod_beta)

lemma disposed_step: "rf_disposed s \<Longrightarrow> rf_timer s = None \<Longrightarrow>
    rf_disposed (fst (refresh_step e s)) \<and> rf_timer (fst (refresh_step e s)) = None \<and> snd (refresh_step e s) = [] \<and>
    rf_minting (fst (refresh_step e s)) \<le> rf_minting s"
  by (cases e) (auto simp: tick_minted_def tick_failed_def dispose_def Let_def)

lemma disposed_run: "rf_disposed s \<Longrightarrow> rf_timer s = None \<Longrightarrow>
    snd (refresh_run es s) = [] \<and> rf_timer (fst (refresh_run es s)) = None \<and> rf_minting (fst (refresh_run es s)) \<le> rf_minting s"
proof (induction es arbitrary: s)
  case (Cons e es)
  from disposed_step [OF Cons.prems, of e] Cons.IH [of "fst (refresh_step e s)"] show ?case
    by (auto simp: Let_def split: prod.splits)
qed simp

section \<open>Properties\<close>

text \<open>Stored legacy addresses are never fetched unsigned. An address of one of the three legacy forms is
  resolved by asking for a token for exactly its camera, kind and file; the answer's address is
  returned, with the seek fragment of a recording kept, and every failure gives the empty address. All
  other addresses come back untouched and without a request.\<close>

theorem legacy_media_signed:
  assumes "(pre, kind, frag) \<in> set legacy_roots" and "legacy_parts frag cam file sfx" and "\<not> is_legacy other"
  shows "resolveMediaURL (Some (pre @ cam @ ''/'' @ file @ sfx)) w =
      (fst (minted_url (mint_for cam kind file) w),
       case snd (minted_url (mint_for cam kind file) w) of
         Inl e \<Rightarrow> Inr (Some []) | Inr u \<Rightarrow> Inr (if frag then Some (nullish u ''undefined'' @ sfx) else u)) \<and>
    resolveMediaURL (Some other) w = (w, Inr (Some other))"
  using resolve_legacy [OF assms(1,2)] resolve_other [OF assms(3)] by (simp add: or_empty_def)

theorem legacy_media_signed_witness:
  "fst (resolveMediaURL (Some ''/recordings/cam-1/a.mp4#t=12'') fixture_world) =
     fst (minted_url (mint_for ''cam-1'' Segment ''a.mp4'') fixture_world) \<and>
   resolveMediaURL (Some ''/media/v1/abc'') fixture_world = (fixture_world, Inr (Some ''/media/v1/abc''))"
  using legacy_media_signed [of "''/recordings/''" Segment True "''cam-1''" "''a.mp4''" "''#t=12''" "''/media/v1/abc''" fixture_world]
  by (simp add: legacy_roots_def legacy_parts_def file_char_def is_line_end_def is_legacy_def match_needs_root)

text \<open>C18: The refresher renews a token in time and stops when told: a running refresher always has exactly one
  thing pending, a mint or a timer; a token that lives at least ninety seconds is renewed exactly sixty
  seconds before it expires; and once disposed, with a mint in flight or not, it calls back never again,
  sets no timer and starts no mint.\<close>

theorem refresher_renews_in_time:
  assumes "s = fst (refresh_run es (tick_start createMediaRefresher))"
  shows "(rf_disposed s \<or> (rf_timer s = None \<and> rf_minting s = 1) \<or> (rf_timer s \<noteq> None \<and> rf_minting s = 0)) \<and>
    (t - now \<ge> 90000 \<longrightarrow> refresh_delay (Some t) now = t - 60000 - now) \<and>
    (rf_minting s = 1 \<and> \<not> rf_disposed s \<longrightarrow>
       refresh_step (Minted u (Some t) now) s = (s\<lparr>rf_minting := 0, rf_timer := Some (refresh_delay (Some t) now)\<rparr>, [u])) \<and>
    snd (refresh_run es' (dispose s)) = [] \<and> rf_timer (fst (refresh_run es' (dispose s))) = None \<and>
    rf_minting (fst (refresh_run es' (dispose s))) \<le> rf_minting s"
proof -
  have "refresher_inv s"
    unfolding assms refresh_run_state by (rule refresher.inv_run [OF refresher.inv_start [OF refl]])
  moreover have "rf_disposed (dispose s)" "rf_timer (dispose s) = None" "rf_minting (dispose s) = rf_minting s"
    by (simp_all add: dispose_def)
  ultimately show ?thesis using disposed_run [of "dispose s" es']
    by (auto simp: refresher_inv_def refresh_delay_def tick_minted_def split: if_splits)
qed

theorem refresher_renews_in_time_witness:
  "let s = fst (refresh_run [Minted (Some ''/media/v1/x'') (Some 300000) 0, Timer_due] (tick_start createMediaRefresher))
   in rf_minting s = 1 \<and> refresh_step (Minted None (Some 540000) 240000) s = (s\<lparr>rf_minting := 0, rf_timer := Some 240000\<rparr>, [None]) \<and>
      snd (refresh_run [Minted None None 0, Timer_due] (dispose s)) = []"
  using refresher_renews_in_time [of _ "[Minted (Some ''/media/v1/x'') (Some 300000) 0, Timer_due]" 540000 240000 None
      "[Minted None None 0, Timer_due]", OF refl]
  by (simp add: tick_start_def createMediaRefresher_def tick_minted_def Let_def refresh_delay_def)

end
