(* ===== verification/Camera_Registry.thy ===== *)
theory Camera_Registry
  imports Platform_Api Auth
begin

text \<open>
  The device registry hooks, \<^verbatim>\<open>frontend/src/hooks/useCameraAssignment.ts\<close>: the merged camera list and the
  mutations with the query keys they invalidate. Device records are JSON objects as the two services
  send them.
\<close>

section \<open>The merged camera list\<close>

definition authHeaders :: headers where
  "authHeaders = [(''Content-Type'', ''application/json'')]"

definition get_request :: "string \<Rightarrow> Request" where
  "get_request url = \<lparr>rq_method = ''GET'', rq_url = url, rq_headers = authHeaders, rq_body = No_body, rq_credentials = True\<rparr>"

text \<open>A list endpoint whose failures and odd answers count as the empty list.\<close>

definition device_list :: "string \<Rightarrow> json list io" where
  "device_list url =
     try_io (bind_io (send (get_request url)) (\<lambda>res. bind_io (res_json res) (\<lambda>data.
               return_io (case data of JArr xs \<Rightarrow> xs | _ \<Rightarrow> []))))
            (return_io [])"

text \<open>\<^verbatim>\<open>v || d\<close> on a field that may be missing.\<close>

definition json_or :: "json option \<Rightarrow> json \<Rightarrow> json" where
  "json_or v d = (case v of None \<Rightarrow> d | Some j \<Rightarrow> if truthy_json j then j else d)"

definition truthy_field :: "string \<Rightarrow> json \<Rightarrow> json option" where
  "truthy_field k j = (case json_field k j of None \<Rightarrow> None | Some v \<Rightarrow> if truthy_json v then Some v else None)"

definition opt_entry :: "string \<Rightarrow> json option \<Rightarrow> (string \<times> json) list" where
  "opt_entry k v = (case v of None \<Rightarrow> [] | Some j \<Rightarrow> [(k, j)])"

text \<open>The two lookups built from the platform's cameras, in order, a later camera replacing an earlier one.\<close>

type_synonym lookups = "(json \<rightharpoonup> json) \<times> (json option \<rightharpoonup> json)"

definition add_platform :: "json \<Rightarrow> lookups \<Rightarrow> lookups" where
  "add_platform pc m =
     (case truthy_field ''onvif_address'' pc of None \<Rightarrow> fst m | Some a \<Rightarrow> (fst m)(a \<mapsto> pc),
      (snd m)(json_field ''id'' pc \<mapsto> pc))"

definition platform_maps :: "json list \<Rightarrow> lookups" where
  "platform_maps pcs = fold add_platform pcs (Map.empty, Map.empty)"

definition platform_match :: "lookups \<Rightarrow> json \<Rightarrow> json option" where
  "platform_match m nvr =
     (case Option.bind (json_field ''onvif_address'' nvr) (fst m) of
        Some pc \<Rightarrow> Some pc
      | None \<Rightarrow> snd m (json_field ''id'' nvr))"

definition enrich :: "json option \<Rightarrow> json \<Rightarrow> json" where
  "enrich pc nvr = JObj (opt_entry ''id'' (json_field ''id'' nvr) @
     [(''name'', json_or (json_field ''name'' nvr) (JStr ''Camera'')),
      (''onvif_address'', json_or (json_field ''onvif_address'' nvr) (JStr [])),
      (''manufacturer'', json_or (json_field ''manufacturer'' nvr) (JStr [])),
      (''model'', json_or (json_field ''model'' nvr) (JStr [])),
      (''status'', json_or (json_field ''status'' nvr) (JStr ''offline'')),
      (''recording'', case json_field ''recording'' nvr of None \<Rightarrow> JBool False | Some JNull \<Rightarrow> JBool False | Some r \<Rightarrow> r),
      (''site_id'', json_or (Option.bind pc (json_field ''site_id'')) JNull),
      (''location'', json_or (Option.bind pc (json_field ''location'')) (JStr []))])"

definition orphaned :: "json list \<Rightarrow> json \<Rightarrow> bool" where
  "orphaned nvrs pc =
     (json_field ''id'' pc \<notin> set (map (json_field ''id'') nvrs) \<and>
      \<not> (case truthy_field ''onvif_address'' pc of None \<Rightarrow> False
          | Some a \<Rightarrow> a \<in> set (List.map_filter (truthy_field ''onvif_address'') nvrs)))"

definition merge_cameras :: "json list \<Rightarrow> json list \<Rightarrow> json list" where
  "merge_cameras nvrs pcs =
     (let m = platform_maps pcs in
      fold (\<lambda>pc merged. if orphaned nvrs pc then merged @ [pc] else merged) pcs
        (map (\<lambda>nvr. enrich (platform_match m nvr) nvr) nvrs))"

text \<open>Reading a field of a null entry throws.\<close>

definition useMasterCameras :: "json list io" where
  "useMasterCameras =
     bind_io (device_list ''/api/cameras'') (\<lambda>nvrs.
     bind_io (device_list ''/api/v1/cameras'') (\<lambda>pcs.
       if JNull \<in> set nvrs \<union> set pcs then throw_io ''Cannot read properties of null''
       else return_io (merge_cameras nvrs pcs)))"

text \<open>The promise is returned without being awaited, so the surrounding \<^verbatim>\<open>catch\<close> does not see its rejection.\<close>

definition useMasterSpeakers :: "json option io" where
  "useMasterSpeakers = getAllSpeakers"

section \<open>Mutations\<close>

type_synonym query_key = "string list"

text \<open>A mutation and the keys its success invalidates.\<close>

definition mutation :: "'a io \<Rightarrow> query_key list \<Rightarrow> World \<Rightarrow> World \<times> 'a result \<times> query_key list" where
  "mutation f keys w = (case f w of (w', Inl e) \<Rightarrow> (w', Inl e, []) | (w', Inr x) \<Rightarrow> (w', Inr x, keys))"

text \<open>These two requests are plain \<^verbatim>\<open>fetch\<close> calls: on the same origin the browser attaches the cookies without being asked.\<close>

definition create_request :: "json \<Rightarrow> Request" where
  "create_request data = \<lparr>rq_method = ''POST'', rq_url = ''/api/v1/cameras'', rq_headers = [(''Content-Type'', ''application/json'')],
     rq_body = Json_body data, rq_credentials = False\<rparr>"

definition useCreateCamera :: "json \<Rightarrow> World \<Rightarrow> World \<times> json result \<times> query_key list" where
  "useCreateCamera data = mutation (bind_io (send (create_request data)) res_json) [[''master-cameras'']]"

definition delete_request :: "id \<Rightarrow> Request" where
  "delete_request cameraId = \<lparr>rq_method = ''DELETE'', rq_url = ''/api/v1/cameras/'' @ cameraId, rq_headers = [], rq_body = No_body,
     rq_credentials = False\<rparr>"

definition useDeleteCamera :: "id \<Rightarrow> World \<Rightarrow> World \<times> unit result \<times> query_key list" where
  "useDeleteCamera cameraId = mutation (bind_io (send (delete_request cameraId)) (\<lambda>_. return_io ())) [[''master-cameras''], [''sites'']]"

text \<open>The query runs only for a selected site.\<close>

definition useCameraAssignments :: "id option \<Rightarrow> json option io option" where
  "useCameraAssignments siteId = (if truthy_str siteId then Some (getCameraAssignments (the siteId)) else None)"

definition assignment_keys :: "id \<Rightarrow> query_key list" where
  "assignment_keys siteId = [[''camera-assignments'', siteId], [''master-cameras''], [''site'', siteId], [''sites'']]"

definition useAssignCamera :: "id \<Rightarrow> id \<Rightarrow> string \<Rightarrow> World \<Rightarrow> World \<times> json option result \<times> query_key list" where
  "useAssignCamera siteId cameraId locationLabel = mutation (assignCameraToSite siteId cameraId locationLabel) (assignment_keys siteId)"

definition useUnassignCamera :: "id \<Rightarrow> id \<Rightarrow> World \<Rightarrow> World \<times> unit result \<times> query_key list" where
  "useUnassignCamera siteId cameraId = mutation (unassignCamera siteId cameraId) (assignment_keys siteId)"

definition speaker_keys :: "query_key list" where
  "speaker_keys = [[''master-speakers''], [''sites'']]"

definition useAssignSpeaker :: "id \<Rightarrow> id \<Rightarrow> string \<Rightarrow> World \<Rightarrow> World \<times> unit result \<times> query_key list" where
  "useAssignSpeaker siteId speakerId locationLabel = mutation (assignSpeakerToSite siteId speakerId locationLabel) speaker_keys"

definition useUnassignSpeaker :: "id \<Rightarrow> id \<Rightarrow> World \<Rightarrow> World \<times> unit result \<times> query_key list" where
  "useUnassignSpeaker siteId speakerId = mutation (unassignSpeaker siteId speakerId) speaker_keys"

section \<open>Library\<close>

text \<open>The match as a search from the end of the platform's list.\<close>

definition reference_match :: "json list \<Rightarrow> json \<Rightarrow> json option" where
  "reference_match pcs nvr =
     (case List.find (\<lambda>pc. truthy_field ''onvif_address'' pc \<noteq> None \<and> truthy_field ''onvif_address'' pc = json_field ''onvif_address'' nvr) (rev pcs) of
        Some pc \<Rightarrow> Some pc
      | None \<Rightarrow> List.find (\<lambda>pc. json_field ''id'' pc = json_field ''id'' nvr) (rev pcs))"

lemma platform_maps_snoc: "platform_maps (pcs @ [pc]) = add_platform pc (platform_maps pcs)"
  by (simp add: platform_maps_def)

lemma by_address: "fst (platform_maps pcs) a = List.find (\<lambda>pc. truthy_field ''onvif_address'' pc = Some a) (rev pcs)"
  by (induction pcs rule: rev_induct)
    (auto simp: platform_maps_snoc add_platform_def platform_maps_def [of "[]"] split: option.splits)

lemma by_id: "snd (platform_maps pcs) i = List.find (\<lambda>pc. json_field ''id'' pc = i) (rev pcs)"
  by (induction pcs rule: rev_induct) (auto simp: platform_maps_snoc add_platform_def platform_maps_def [of "[]"])

lemma platform_match_reference: "platform_match (platform_maps pcs) nvr = reference_match pcs nvr"
proof (cases "json_field ''onvif_address'' nvr")
  case None
  then have "List.find (\<lambda>pc. truthy_field ''onvif_address'' pc \<noteq> None \<and> truthy_field ''onvif_address'' pc = json_field ''onvif_address'' nvr) (rev pcs) = None"
    by (auto simp: find_None_iff)
  then show ?thesis using None by (simp add: platform_match_def reference_match_def by_id)
next
  case (Some a)
  then have "(\<lambda>pc. truthy_field ''onvif_address'' pc \<noteq> None \<and> truthy_field ''onvif_address'' pc = json_field ''onvif_address'' nvr) =
      (\<lambda>pc. truthy_field ''onvif_address'' pc = Some a)" by auto
  then show ?thesis using Some unfolding platform_match_def reference_match_def by_id by (simp add: by_address)
qed

lemma push_orphans:
  "fold (\<lambda>pc merged. if P pc then merged @ [pc] else merged) pcs acc = acc @ filter P pcs"
  by (induction pcs arbitrary: acc) auto

lemma device_list_total: "\<exists>w' xs. device_list url w = (w', Inr xs)"
  by (auto simp: device_list_def io_defs split: prod.splits sum.splits)

lemma goServer_refuses:
  assumes "rq_method q \<notin> {''GET'', ''HEAD'', ''OPTIONS''}" and "\<not> web_ui_path (url_path (rq_url q))"
    and "header_get ''X-CSRF-Token'' (rq_headers q) = []"
  shows "\<exists>msg. goServer rnd api j lg q = error_reply 403 msg"
  using assms by (auto simp: goServer_def CSRFMiddleware_def Let_def)

lemma registry_path: "\<not> web_ui_path (url_path (''/api/v1/cameras'' @ t))"
  by (simp add: web_ui_path_def url_path_def)

section \<open>Properties\<close>

text \<open>The merged camera list is what it should be: both list requests succeed whatever the services do; every
  recorder camera appears once, in order, with the site of the platform camera that has its address, or
  else its identifier (the last one registered, when several do); after them come exactly the platform
  cameras that no recorder camera stands for. The lookup tables of the code agree with a plain search.\<close>

theorem master_camera_list:
  "(\<exists>w' xs. device_list url w = (w', Inr xs)) \<and>
   merge_cameras nvrs pcs = map (\<lambda>n. enrich (reference_match pcs n) n) nvrs @ filter (orphaned nvrs) pcs"
  using device_list_total by (simp add: merge_cameras_def push_orphans platform_match_reference Let_def)

text \<open>Creating or deleting a registry camera never reaches the server's handlers: the two hooks send plain
  requests without the CSRF token, which the middleware answers with 403 whatever the page's cookies.
  Creating fails while parsing the answer; deleting reports success and refreshes the lists although
  nothing was deleted.\<close>

theorem registry_mutations_refused:
  "let v = w\<lparr>wd_server := goServer rnd api\<rparr> in
   (\<exists>msg. wd_server v (wd_jar v) (wd_log v) (delete_request cameraId) = error_reply 403 msg) \<and>
   snd (useDeleteCamera cameraId v) = (Inr (), [[''master-cameras''], [''sites'']]) \<and>
   (\<exists>msg. wd_server v (wd_jar v) (wd_log v) (create_request data) = error_reply 403 msg) \<and>
   (\<exists>e. snd (useCreateCamera data v) = (Inl e, []))"
proof -
  have d: "\<exists>msg. goServer rnd api j lg (delete_request cameraId) = error_reply 403 msg" for j lg
    using registry_path [of "''/'' @ cameraId"]
    by (intro goServer_refuses) (simp_all add: delete_request_def header_get_def)
  have c: "\<exists>msg. goServer rnd api j lg (create_request data) = error_reply 403 msg" for j lg
    using registry_path [of "[]"]
    by (intro goServer_refuses) (simp_all add: create_request_def header_get_def lower_char_def)
  obtain md where md: "goServer rnd api (wd_jar w) (wd_log w) (delete_request cameraId) = error_reply 403 md" using d by blast
  obtain mc where mc: "goServer rnd api (wd_jar w) (wd_log w) (create_request data) = error_reply 403 mc" using c by blast
  show ?thesis using md mc
    by (simp add: useDeleteCamera_def useCreateCamera_def mutation_def send_def error_reply_def res_json_def io_defs Let_def)
qed

end
