(* ===== verification/Browser_Storage.thy ===== *)
theory Browser_Storage
  imports Platform_Api Auth Js_Date
begin

text \<open>
  What the frontend keeps in local storage as JSON text: the saved camera layouts with the migration of
  their keys and versions (\<^verbatim>\<open>frontend/src/lib/camera-grid-layout.ts\<close>), and the saved searches and the current
  operator of \<^verbatim>\<open>frontend/src/lib/ironsight-api.ts\<close>. Stored values are read as JSON values, since the code does
  not check them. A browser without usable storage (every access throws) is \<open>None\<close>.

  A saved layout's \<^verbatim>\<open>version\<close> is a number when present; the code writes no other kind.
\<close>

section \<open>Saved layouts\<close>

definition STORAGE_KEY :: string where "STORAGE_KEY = ''ironsight-layouts''"

definition ACTIVE_LAYOUT_KEY :: string where "ACTIVE_LAYOUT_KEY = ''ironsight-active-layout''"

definition LEGACY_STORAGE_KEY :: string where "LEGACY_STORAGE_KEY = ''onvif-tool-layouts''"

definition LEGACY_ACTIVE_LAYOUT_KEY :: string where "LEGACY_ACTIVE_LAYOUT_KEY = ''onvif-tool-active-layout''"

definition move_key :: "string \<Rightarrow> string \<Rightarrow> storage \<Rightarrow> storage" where
  "move_key old new st =
     (case st old of
        Some v \<Rightarrow> if st new = None then (st(new \<mapsto> v))(old := None) else st
      | None \<Rightarrow> st)"

definition migrateLegacyLayoutKeys :: "bool \<Rightarrow> storage option \<Rightarrow> storage option" where
  "migrateLegacyLayoutKeys window s =
     (if \<not> window then s
      else map_option (\<lambda>st. move_key LEGACY_ACTIVE_LAYOUT_KEY ACTIVE_LAYOUT_KEY (move_key LEGACY_STORAGE_KEY STORAGE_KEY st)) s)"

definition old_version :: "json option \<Rightarrow> bool" where
  "old_version v = (case v of None \<Rightarrow> True | Some j \<Rightarrow> \<not> truthy_json j \<or> (case j of JNum n \<Rightarrow> n < 3 | _ \<Rightarrow> False))"

definition upgrade_items :: "(string \<times> json) list \<Rightarrow> (string \<times> json) list option" where
  "upgrade_items fs =
     (if old_version (map_of fs ''version'')
      then (case map_of fs ''items'' of
              Some (JArr items) \<Rightarrow>
                Some (obj_set (''version'', JNum 3) (obj_set (''items'', JArr (map (\<lambda>it. JObj (spread it)) items)) fs))
            | _ \<Rightarrow> None)
      else Some fs)"

definition default_mode :: "(string \<times> json) list \<Rightarrow> (string \<times> json) list" where
  "default_mode fs =
     (case map_of fs ''mode'' of
        Some m \<Rightarrow> if truthy_json m then fs else obj_set (''mode'', JStr ''freeform'') fs
      | None \<Rightarrow> obj_set (''mode'', JStr ''freeform'') fs)"

definition upgrade_layout :: "json \<Rightarrow> json option" where
  "upgrade_layout l =
     (case l of JObj fs \<Rightarrow> map_option (\<lambda>gs. JObj (default_mode gs)) (upgrade_items fs) | _ \<Rightarrow> None)"

text \<open>One layout that cannot be read makes the whole list empty, as the exception leaves the \<^verbatim>\<open>map\<close>.\<close>

definition loadSavedLayouts :: "storage option \<Rightarrow> json list" where
  "loadSavedLayouts s =
     (case s of None \<Rightarrow> []
      | Some st \<Rightarrow>
          (if \<not> truthy_str (st STORAGE_KEY) then []
           else case json_parse (the (st STORAGE_KEY)) of
             Some (JArr ls) \<Rightarrow> (case those (map upgrade_layout ls) of Some ls' \<Rightarrow> ls' | None \<Rightarrow> [])
           | _ \<Rightarrow> []))"

definition saveSavedLayouts :: "(number \<Rightarrow> string) \<Rightarrow> json list \<Rightarrow> storage option \<Rightarrow> storage option result" where
  "saveSavedLayouts fractx layouts s =
     (case s of None \<Rightarrow> throw ''storage unavailable''
      | Some st \<Rightarrow> Inr (Some (st(STORAGE_KEY \<mapsto> stringify fractx (JArr layouts)))))"

section \<open>Saved searches\<close>

definition SAVED_SEARCHES_KEY :: string where "SAVED_SEARCHES_KEY = ''ironsight_saved_searches''"

definition readSavedSearches :: "bool \<Rightarrow> storage option \<Rightarrow> json" where
  "readSavedSearches window s =
     (if \<not> window then JArr []
      else case s of None \<Rightarrow> JArr []
      | Some st \<Rightarrow> (case json_parse (nullish (st SAVED_SEARCHES_KEY) ''[]'') of None \<Rightarrow> JArr [] | Some j \<Rightarrow> j))"

definition getSavedSearches :: "bool \<Rightarrow> storage option \<Rightarrow> json" where
  "getSavedSearches window s = readSavedSearches window s"

text \<open>\<open>new_id\<close> is the generated identifier, \<^verbatim>\<open>local-<time>-<random>\<close>.\<close>

definition search_entry :: "(string \<times> json) list \<Rightarrow> string \<Rightarrow> ms \<Rightarrow> json" where
  "search_entry data new_id now =
     JObj (obj_set (''run_count'', JNum 0) (obj_set (''created_at'', JStr (toISOString now)) (obj_set (''id'', JStr new_id) data)))"

definition write_searches :: "(number \<Rightarrow> string) \<Rightarrow> json list \<Rightarrow> storage option \<Rightarrow> storage option result" where
  "write_searches fractx all s =
     (case s of None \<Rightarrow> throw ''storage unavailable''
      | Some st \<Rightarrow> Inr (Some (st(SAVED_SEARCHES_KEY \<mapsto> stringify fractx (JArr all)))))"

text \<open>Spreading into an array needs an iterable, filtering an array; a stored value of another kind throws.\<close>

definition createSavedSearch :: "(number \<Rightarrow> string) \<Rightarrow> bool \<Rightarrow> (string \<times> json) list \<Rightarrow> string \<Rightarrow> ms \<Rightarrow> storage option \<Rightarrow>
    (storage option \<times> json) result" where
  "createSavedSearch fractx window data new_id now s =
     (let entry = search_entry data new_id now;
          add = (\<lambda>old. case write_searches fractx (entry # old) s of Inl e \<Rightarrow> Inl e | Inr s' \<Rightarrow> Inr (s', entry))
      in case readSavedSearches window s of
           JArr xs \<Rightarrow> add xs
         | JStr t \<Rightarrow> add (map (\<lambda>c. JStr [c]) t)
         | _ \<Rightarrow> throw ''object is not iterable'')"

definition deleteSavedSearch :: "(number \<Rightarrow> string) \<Rightarrow> bool \<Rightarrow> string \<Rightarrow> storage option \<Rightarrow> storage option result" where
  "deleteSavedSearch fractx window searchId s =
     (case readSavedSearches window s of
        JArr xs \<Rightarrow> if JNull \<in> set xs then throw ''Cannot read properties of null (reading 'id')''
                  else write_searches fractx (filter (\<lambda>x. json_field ''id'' x \<noteq> Some (JStr searchId)) xs) s
      | _ \<Rightarrow> throw ''filter is not a function'')"

section \<open>The current operator\<close>

text \<open>\<open>stored\<close> is the entry the session context keeps under \<^verbatim>\<open>ironsight_user\<close>.\<close>

definition local_user :: "string option \<Rightarrow> json" where
  "local_user stored = (if truthy_str stored then (case json_parse (the stored) of None \<Rightarrow> JNull | Some j \<Rightarrow> j) else JNull)"

definition truthy_at :: "string \<Rightarrow> json \<Rightarrow> json option" where
  "truthy_at k j = (case json_field k j of Some v \<Rightarrow> if truthy_json v then Some v else None | None \<Rightarrow> None)"

definition spread_opt :: "json option \<Rightarrow> (string \<times> json) list" where
  "spread_opt j = (case j of None \<Rightarrow> [] | Some v \<Rightarrow> obj_norm (spread v))"

definition getCurrentOperator :: "string option \<Rightarrow> json option io" where
  "getCurrentOperator stored =
     (let localUser = local_user stored in
      bind_io (fetchJSON ''/api/v1/operators/current'' no_init) (\<lambda>op.
      if \<not> truthy_json localUser then return_io op
      else case truthy_at ''display_name'' localUser of
        Some n \<Rightarrow> return_io (Some (JObj (obj_set (''name'', n) (spread_opt op))))
      | None \<Rightarrow> (case truthy_at ''username'' localUser of
          Some n \<Rightarrow> return_io (Some (JObj (obj_set (''name'', n) (spread_opt op))))
        | None \<Rightarrow> (if op = None \<or> op = Some JNull then throw_io ''Cannot read properties of undefined (reading 'name')''
                   else return_io (Some (JObj (spread_opt op)))))))"

section \<open>JSON slots\<close>

text \<open>A slot of the storage that holds JSON text: what was written is read back, and it shares nothing with the
  other keys.\<close>

locale json_slot =
  fixes key :: string
    and valid :: "json list \<Rightarrow> bool"
    and put :: "json list \<Rightarrow> storage \<Rightarrow> storage"
    and get :: "storage \<Rightarrow> json list"
  assumes get_put: "valid xs \<Longrightarrow> get (put xs st) = xs"
    and put_frame: "k \<noteq> key \<Longrightarrow> put xs st k = st k"
    and get_local: "st key = st' key \<Longrightarrow> get st = get st'"
begin

lemma last_write: "valid ys \<Longrightarrow> get (put ys (put xs st)) = ys"
  by (rule get_put)

lemma foreign_write: "k \<noteq> key \<Longrightarrow> get (st(k := v)) = get st"
  by (rule get_local) simp

lemma foreign_frame: "(\<And>j. j \<noteq> k \<Longrightarrow> st' j = st j) \<Longrightarrow> k \<noteq> key \<Longrightarrow> get st' = get st"
  by (rule get_local) simp

end

text \<open>A layout of the current version, as loading leaves it.\<close>

definition current_layout :: "json \<Rightarrow> bool" where
  "current_layout l \<longleftrightarrow> (\<exists>fs. l = JObj fs \<and> \<not> old_version (map_of fs ''version'') \<and>
     (\<exists>m. map_of fs ''mode'' = Some m \<and> truthy_json m))"

lemma upgrade_current: "current_layout l \<Longrightarrow> upgrade_layout l = Some l"
  by (auto simp: current_layout_def upgrade_layout_def upgrade_items_def default_mode_def)

lemma map_of_obj_set_at: "map_of (obj_set (k, v) fs) n = (if n = k then Some v else map_of fs n)"
  by (induction "(k, v)" fs rule: obj_set.induct) auto

lemma upgrade_items_current: "upgrade_items fs = Some gs \<Longrightarrow> \<not> old_version (map_of gs ''version'')"
  by (auto simp: upgrade_items_def map_of_obj_set_at old_version_def split: if_splits option.splits json.splits)

lemma default_mode_current:
  "map_of (default_mode fs) ''version'' = map_of fs ''version''" "\<exists>m. map_of (default_mode fs) ''mode'' = Some m \<and> truthy_json m"
  by (auto simp: default_mode_def map_of_obj_set_at split: option.splits)

lemma upgrade_makes_current: "upgrade_layout l = Some l' \<Longrightarrow> current_layout l'"
  unfolding upgrade_layout_def current_layout_def
  using upgrade_items_current default_mode_current by (fastforce split: json.splits)

lemma those_current: "list_all current_layout ls \<Longrightarrow> those (map upgrade_layout ls) = Some ls"
  by (induction ls) (auto simp: upgrade_current)

lemma those_makes_current: "those (map upgrade_layout ls) = Some ls' \<Longrightarrow> list_all current_layout ls'"
  by (induction ls arbitrary: ls') (auto split: option.splits intro: upgrade_makes_current)

lemma stringify_array_nonempty: "stringify fractx (JArr xs) \<noteq> []"
  by simp

definition storable :: "json list \<Rightarrow> bool" where
  "storable xs \<longleftrightarrow> wf_json (JArr xs)"

definition layouts_put :: "(number \<Rightarrow> string) \<Rightarrow> json list \<Rightarrow> storage \<Rightarrow> storage" where
  "layouts_put fractx ls st = st(STORAGE_KEY \<mapsto> stringify fractx (JArr ls))"

interpretation layouts: json_slot STORAGE_KEY "\<lambda>ls. storable ls \<and> list_all current_layout ls" "layouts_put fractx"
  "\<lambda>st. loadSavedLayouts (Some st)" for fractx
proof
  show "loadSavedLayouts (Some (layouts_put fractx xs st)) = xs" if "storable xs \<and> list_all current_layout xs" for xs st
    using that parse_stringify [of "JArr xs" fractx] stringify_array_nonempty [of fractx xs] those_current [of xs]
    by (simp add: loadSavedLayouts_def layouts_put_def storable_def truthy_str_def)
qed (simp_all add: layouts_put_def loadSavedLayouts_def)

definition search_list :: "storage \<Rightarrow> json list" where
  "search_list st = (case readSavedSearches True (Some st) of JArr xs \<Rightarrow> xs | _ \<Rightarrow> [])"

definition searches_put :: "(number \<Rightarrow> string) \<Rightarrow> json list \<Rightarrow> storage \<Rightarrow> storage" where
  "searches_put fractx xs st = st(SAVED_SEARCHES_KEY \<mapsto> stringify fractx (JArr xs))"

lemma read_put: "storable xs \<Longrightarrow> readSavedSearches True (Some (searches_put fractx xs st)) = JArr xs"
  using parse_stringify [of "JArr xs" fractx] by (simp add: readSavedSearches_def searches_put_def storable_def)

interpretation searches: json_slot SAVED_SEARCHES_KEY storable "searches_put fractx" search_list for fractx
  by unfold_locales (simp_all add: search_list_def read_put, simp_all add: searches_put_def readSavedSearches_def)

lemma load_current: "list_all current_layout (loadSavedLayouts s)"
  by (auto simp: loadSavedLayouts_def split: option.splits json.splits intro: those_makes_current)

lemma storage_keys_differ [simp]:
  "STORAGE_KEY \<noteq> SAVED_SEARCHES_KEY" "SAVED_SEARCHES_KEY \<noteq> STORAGE_KEY" "LEGACY_STORAGE_KEY \<noteq> STORAGE_KEY"
  "LEGACY_ACTIVE_LAYOUT_KEY \<noteq> ACTIVE_LAYOUT_KEY" "LEGACY_STORAGE_KEY \<noteq> LEGACY_ACTIVE_LAYOUT_KEY" "LEGACY_STORAGE_KEY \<noteq> ACTIVE_LAYOUT_KEY"
  "STORAGE_KEY \<noteq> ACTIVE_LAYOUT_KEY" "STORAGE_KEY \<noteq> LEGACY_ACTIVE_LAYOUT_KEY" "STORAGE_KEY \<noteq> LEGACY_STORAGE_KEY"
  "ACTIVE_LAYOUT_KEY \<noteq> LEGACY_ACTIVE_LAYOUT_KEY" "ACTIVE_LAYOUT_KEY \<noteq> STORAGE_KEY" "ACTIVE_LAYOUT_KEY \<noteq> LEGACY_STORAGE_KEY"
  "LEGACY_ACTIVE_LAYOUT_KEY \<noteq> STORAGE_KEY" "LEGACY_ACTIVE_LAYOUT_KEY \<noteq> LEGACY_STORAGE_KEY"
  by (simp_all add: STORAGE_KEY_def SAVED_SEARCHES_KEY_def LEGACY_STORAGE_KEY_def LEGACY_ACTIVE_LAYOUT_KEY_def ACTIVE_LAYOUT_KEY_def)

lemma move_key_new: "old \<noteq> new \<Longrightarrow> move_key old new st new = (case st new of Some v \<Rightarrow> Some v | None \<Rightarrow> st old)"
  by (auto simp: move_key_def split: option.splits)

lemma move_key_frame: "k \<noteq> old \<Longrightarrow> k \<noteq> new \<Longrightarrow> move_key old new st k = st k"
  by (auto simp: move_key_def split: option.splits)

lemma move_key_settled: "st old = None \<or> st new \<noteq> None \<Longrightarrow> move_key old new st = st"
  by (auto simp: move_key_def split: option.splits)

lemma move_key_settles: "old \<noteq> new \<Longrightarrow> move_key old new st old = None \<or> move_key old new st new \<noteq> None"
  by (auto simp: move_key_def split: option.splits)

lemma migrate_idem:
  defines "mig \<equiv> \<lambda>st. move_key LEGACY_ACTIVE_LAYOUT_KEY ACTIVE_LAYOUT_KEY (move_key LEGACY_STORAGE_KEY STORAGE_KEY st)"
  shows "mig (mig st) = mig st"
proof -
  have "move_key LEGACY_STORAGE_KEY STORAGE_KEY (mig st) = mig st"
    using move_key_settles [of LEGACY_STORAGE_KEY STORAGE_KEY st] unfolding mig_def
    by (intro move_key_settled) (simp add: move_key_frame)
  moreover have "move_key LEGACY_ACTIVE_LAYOUT_KEY ACTIVE_LAYOUT_KEY (mig st) = mig st"
    unfolding mig_def by (intro move_key_settled move_key_settles) simp
  ultimately show ?thesis by (simp add: mig_def)
qed

section \<open>Properties\<close>

text \<open>Saved camera layouts survive: what is saved is read back unchanged, every layout that is read has the
  current version and a mode, saving layouts leaves the saved searches alone, and the migration of the
  old storage keys keeps the layouts (a current entry wins over an old one), touches nothing but its four
  keys and does nothing when it runs again.\<close>

theorem layouts_survive_storage:
  assumes "storable ls" and "list_all current_layout ls" and "saveSavedLayouts fractx ls (Some st) = Inr (Some st')"
  shows "loadSavedLayouts (Some st') = ls \<and> search_list st' = search_list st \<and>
    list_all current_layout (loadSavedLayouts s) \<and>
    migrateLegacyLayoutKeys b (migrateLegacyLayoutKeys b s) = migrateLegacyLayoutKeys b s \<and>
    loadSavedLayouts (migrateLegacyLayoutKeys True (Some st)) =
      loadSavedLayouts (Some (st(STORAGE_KEY := case st STORAGE_KEY of Some v \<Rightarrow> Some v | None \<Rightarrow> st LEGACY_STORAGE_KEY)))"
proof -
  have st': "st' = layouts_put fractx ls st" using assms(3) by (simp add: saveSavedLayouts_def layouts_put_def)
  have "loadSavedLayouts (Some st') = ls" unfolding st' using assms(1,2) by (intro layouts.get_put) simp
  moreover have "search_list st' = search_list st" unfolding st' layouts_put_def by (rule searches.foreign_write) simp
  moreover have "migrateLegacyLayoutKeys b (migrateLegacyLayoutKeys b s) = migrateLegacyLayoutKeys b s"
    by (simp add: migrateLegacyLayoutKeys_def option.map_comp o_def migrate_idem)
  moreover have "loadSavedLayouts (migrateLegacyLayoutKeys True (Some st)) =
      loadSavedLayouts (Some (st(STORAGE_KEY := case st STORAGE_KEY of Some v \<Rightarrow> Some v | None \<Rightarrow> st LEGACY_STORAGE_KEY)))"
    unfolding migrateLegacyLayoutKeys_def by (simp, rule layouts.get_local) (simp add: move_key_frame move_key_new)
  ultimately show ?thesis using load_current by simp
qed

definition fixture_layout :: json where
  "fixture_layout = JObj [(''name'', JStr ''Gate''), (''items'', JArr []), (''version'', JNum 3), (''mode'', JStr ''static'')]"

theorem layouts_survive_storage_witness:
  "loadSavedLayouts (Some ([STORAGE_KEY \<mapsto> stringify (\<lambda>_. []) (JArr [fixture_layout])])) = [fixture_layout]"
proof -
  have "is_int 3" by (simp add: is_int_def)
  then have "storable [fixture_layout]" by (simp add: storable_def fixture_layout_def)
  moreover have "list_all current_layout [fixture_layout]"
    by (simp add: current_layout_def fixture_layout_def old_version_def)
  moreover have "saveSavedLayouts (\<lambda>_. []) [fixture_layout] (Some Map.empty) =
      Inr (Some [STORAGE_KEY \<mapsto> stringify (\<lambda>_. []) (JArr [fixture_layout])])"
    by (simp add: saveSavedLayouts_def)
  ultimately show ?thesis by (rule layouts_survive_storage [THEN conjunct1])
qed

text \<open>Saved searches behave as a list on storage: a created search is the first of the list from then on, with
  the given fields, its new identifier and a zero run count, deleting it again restores the list before,
  and neither operation disturbs the saved layouts.\<close>

theorem saved_search_round_trip:
  assumes "storable (search_entry data new_id now # xs)" and "readSavedSearches True (Some st) = JArr xs"
    and "JNull \<notin> set xs" and "list_all (\<lambda>x. json_field ''id'' x \<noteq> Some (JStr new_id)) xs"
  shows "\<exists>st1 st2. createSavedSearch fractx True data new_id now (Some st) = Inr (Some st1, search_entry data new_id now) \<and>
    getSavedSearches True (Some st1) = JArr (search_entry data new_id now # xs) \<and>
    json_field ''id'' (search_entry data new_id now) = Some (JStr new_id) \<and>
    json_field ''run_count'' (search_entry data new_id now) = Some (JNum 0) \<and>
    deleteSavedSearch fractx True new_id (Some st1) = Inr (Some st2) \<and>
    getSavedSearches True (Some st2) = JArr xs \<and>
    loadSavedLayouts (Some st2) = loadSavedLayouts (Some st)"
proof -
  let ?e = "search_entry data new_id now"
  let ?st1 = "searches_put fractx (?e # xs) st"
  let ?st2 = "searches_put fractx xs ?st1"
  have id: "json_field ''id'' ?e = Some (JStr new_id)" "json_field ''run_count'' ?e = Some (JNum 0)" "?e \<noteq> JNull"
    by (simp_all add: search_entry_def json_field_def map_of_obj_set_at)
  have create: "createSavedSearch fractx True data new_id now (Some st) = Inr (Some ?st1, ?e)"
    using assms(2) by (simp add: createSavedSearch_def write_searches_def searches_put_def Let_def)
  have read: "readSavedSearches True (Some ?st1) = JArr (?e # xs)" using assms(1) by (rule read_put)
  have "filter (\<lambda>x. json_field ''id'' x \<noteq> Some (JStr new_id)) xs = xs"
    using assms(4) by (intro filter_True) (simp add: list_all_iff)
  then have delete: "deleteSavedSearch fractx True new_id (Some ?st1) = Inr (Some ?st2)"
    using read id assms(3) by (simp add: deleteSavedSearch_def write_searches_def searches_put_def)
  have "storable xs" using assms(1) by (simp add: storable_def)
  then have "readSavedSearches True (Some ?st2) = JArr xs" by (rule read_put)
  moreover have "loadSavedLayouts (Some ?st2) = loadSavedLayouts (Some st)"
    by (rule layouts.get_local) (simp add: searches_put_def)
  ultimately show ?thesis using create read delete id by (auto simp: getSavedSearches_def)
qed

theorem saved_search_round_trip_witness:
  "\<exists>st1 st2. createSavedSearch (\<lambda>_. []) True [(''name'', JStr ''gate'')] ''local-1'' 0 (Some Map.empty) =
     Inr (Some st1, search_entry [(''name'', JStr ''gate'')] ''local-1'' 0) \<and>
     deleteSavedSearch (\<lambda>_. []) True ''local-1'' (Some st1) = Inr (Some st2) \<and> getSavedSearches True (Some st2) = JArr []"
proof -
  have parse: "json_parse ''[]'' = Some (JArr [])"
    using parse_stringify [of "JArr []" "\<lambda>_. []"] by simp
  have "is_int 0" by (simp add: is_int_def)
  then have "storable [search_entry [(''name'', JStr ''gate'')] ''local-1'' 0]"
    by (simp add: storable_def search_entry_def)
  moreover have r: "readSavedSearches True (Some Map.empty) = JArr []" by (simp add: readSavedSearches_def parse)
  ultimately show ?thesis
    using saved_search_round_trip [of "[(''name'', JStr ''gate'')]" "''local-1''" 0 "[]" Map.empty "\<lambda>_. []"]
    by auto
qed

end
