(* ===== verification/Operator_Input.thy ===== *)
theory Operator_Input
  imports Operator_Store Auth
begin

text \<open>
  The small input and feedback hooks of the console and the camera wall under \<^verbatim>\<open>frontend/src/hooks/\<close>: the
  alarm sounds (\<^verbatim>\<open>useAlertAudio\<close>), the disposition chords (\<^verbatim>\<open>useDispositionKeybinds\<close>), the playback shortcuts
  (\<^verbatim>\<open>useKeyboardShortcuts\<close>), the digital zoom (\<^verbatim>\<open>useDigitalZoom\<close>), the two switches shared by all tiles
  (\<^verbatim>\<open>useTimestampOverlayToggle\<close>, \<^verbatim>\<open>useVCAZonesToggle\<close>) and renaming a camera in place (\<^verbatim>\<open>useCameraNameEdit\<close>).
  A hook is its state and one function per handler; the component renders between two events.
\<close>

section \<open>Alarm sounds\<close>

datatype tone = Tone_critical | Tone_high | Tone_sla_breach

text \<open>Frequency in Hertz, start and duration in seconds.\<close>

fun tone_sequence :: "tone \<Rightarrow> (nat \<times> number \<times> number) list" where
  "tone_sequence Tone_critical = [(1047, 0, 12/100), (1047, 16/100, 12/100), (1319, 32/100, 22/100)]"
| "tone_sequence Tone_high = [(880, 0, 15/100), (880, 22/100, 15/100)]"
| "tone_sequence Tone_sla_breach = [(1174, 0, 1/10), (988, 12/100, 1/10), (784, 24/100, 1/10), (1174, 38/100, 1/10),
     (988, 1/2, 1/10), (784, 62/100, 18/100)]"

record AudioRefs =
  prevCritical :: nat
  prevHigh :: nat
  prevSla :: nat
  initialized :: bool

definition unacked :: "Severity \<Rightarrow> AlertEvent \<Rightarrow> bool" where
  "unacked sev a \<longleftrightarrow> \<not> ae_acknowledged a \<and> ae_severity a = sev"

definition breached :: "ms \<Rightarrow> AlertEvent \<Rightarrow> bool" where
  "breached now a \<longleftrightarrow> \<not> ae_acknowledged a \<and> truthy_int (ae_sla_deadline_ms a) \<and> now > the (ae_sla_deadline_ms a)"

definition tally :: "('a \<Rightarrow> bool) \<Rightarrow> 'a list \<Rightarrow> nat" where
  "tally p xs = length (filter p xs)"

definition useAlertAudio :: "AlertEvent list \<Rightarrow> bool \<Rightarrow> ms \<Rightarrow> AudioRefs \<Rightarrow> AudioRefs \<times> tone option" where
  "useAlertAudio alerts muted now refs =
     (let criticalUnacked = tally (unacked Sev_critical) alerts;
          highUnacked = tally (unacked Sev_high) alerts;
          slaBreached = tally (breached now) alerts;
          refs' = refs\<lparr>prevCritical := criticalUnacked, prevHigh := highUnacked, prevSla := slaBreached\<rparr>
      in if \<not> initialized refs then (refs'\<lparr>initialized := True\<rparr>, None)
         else if muted then (refs, None)
         else (refs', if criticalUnacked > prevCritical refs then Some Tone_critical
                      else if highUnacked > prevHigh refs then Some Tone_high
                      else if slaBreached > prevSla refs then Some Tone_sla_breach else None))"

section \<open>Disposition chords\<close>

datatype chord = F_key | V_key

record Keybinds =
  keyPrefix :: "chord option"
  keyPrefixTimer :: bool

definition form_field :: "string \<Rightarrow> bool" where
  "form_field tag \<longleftrightarrow> tag = ''TEXTAREA'' \<or> tag = ''INPUT'' \<or> tag = ''SELECT''"

text \<open>\<^verbatim>\<open>parseInt\<close> of a key name: the digits it starts with.\<close>

definition parse_key :: "string \<Rightarrow> nat option" where
  "parse_key key = (case takeWhile is_digit key of [] \<Rightarrow> None | ds \<Rightarrow> Some (dec_val ds))"

definition chord_codes :: "chord \<Rightarrow> DispositionCode list" where
  "chord_codes p = map do_code (filter (\<lambda>d. do_category d = (case p of F_key \<Rightarrow> Cat_false | V_key \<Rightarrow> Cat_verified)) DISPOSITION_OPTIONS)"

definition disposition_handler :: "string \<Rightarrow> string \<Rightarrow> Keybinds \<Rightarrow> Keybinds \<times> DispositionCode option" where
  "disposition_handler tag key s =
     (if form_field tag then (s, None)
      else if to_lower key = ''f'' \<or> to_lower key = ''v''
      then (\<lparr>keyPrefix = Some (if to_lower key = ''f'' then F_key else V_key), keyPrefixTimer = True\<rparr>, None)
      else (case (keyPrefix s, parse_key key) of
              (Some p, Some digit) \<Rightarrow>
                (if 1 \<le> digit \<and> digit \<le> 5
                 then (\<lparr>keyPrefix = None, keyPrefixTimer = False\<rparr>,
                       if digit - 1 < length (chord_codes p) then Some (chord_codes p ! (digit - 1)) else None)
                 else (s, None))
            | _ \<Rightarrow> (s, None)))"

definition chord_timeout :: "Keybinds \<Rightarrow> Keybinds" where
  "chord_timeout s = (if keyPrefixTimer s then \<lparr>keyPrefix = None, keyPrefixTimer = False\<rparr> else s)"

section \<open>Playback shortcuts\<close>

datatype shortcut_call = GoLive | Seek ms | ClosePeek

record ShortcutView =
  sv_isLive :: bool
  sv_currentTime :: ms
  sv_peekOpen :: bool

definition SEEK_DELTA_MS :: ms where "SEEK_DELTA_MS = 30000"

text \<open>The new state of the help overlay and the call made.\<close>

definition handleKey :: "ms \<Rightarrow> ShortcutView \<Rightarrow> string \<Rightarrow> string \<Rightarrow> bool \<Rightarrow> bool \<times> shortcut_call option" where
  "handleKey now v tag key helpOpen =
     (if form_field tag then (helpOpen, None)
      else if key = ''?'' then (\<not> helpOpen, None)
      else if key = ''Escape'' then (if helpOpen then (False, None) else (helpOpen, if sv_peekOpen v then Some ClosePeek else None))
      else if key = ''l'' \<or> key = ''L'' then (helpOpen, Some GoLive)
      else if key = ''ArrowLeft'' then (helpOpen, if \<not> sv_isLive v then Some (Seek (sv_currentTime v - SEEK_DELTA_MS)) else None)
      else if key = ''ArrowRight'' then
        (helpOpen, if \<not> sv_isLive v
                   then let nxt = sv_currentTime v + SEEK_DELTA_MS in if nxt \<le> now then Some (Seek nxt) else Some GoLive
                   else None)
      else if key = '' '' then (helpOpen, if sv_isLive v then Some (Seek now) else Some GoLive)
      else (helpOpen, None))"

section \<open>Digital zoom\<close>

record DigitalZoom =
  zm_scale :: number
  zm_pan :: "number \<times> number"
  zm_isDragging :: bool
  zm_dragStart :: "number \<times> number"

definition initial_zoom :: DigitalZoom where
  "initial_zoom = \<lparr>zm_scale = 1, zm_pan = (0, 0), zm_isDragging = False, zm_dragStart = (0, 0)\<rparr>"

definition zoom_reset :: "DigitalZoom \<Rightarrow> DigitalZoom" where
  "zoom_reset z = z\<lparr>zm_scale := 1, zm_pan := (0, 0)\<rparr>"

definition handleWheel :: "bool \<Rightarrow> number \<Rightarrow> DigitalZoom \<Rightarrow> DigitalZoom" where
  "handleWheel allowZoom deltaY z =
     (if \<not> allowZoom then z
      else let newScale = min (max 1 (zm_scale z + deltaY * (- 2/1000))) 10
           in z\<lparr>zm_scale := newScale, zm_pan := (if newScale = 1 then (0, 0) else zm_pan z)\<rparr>)"

definition zoom_mouseDown :: "bool \<Rightarrow> number \<times> number \<Rightarrow> DigitalZoom \<Rightarrow> DigitalZoom" where
  "zoom_mouseDown allowZoom client z =
     (if \<not> allowZoom then z
      else if zm_scale z > 1
      then z\<lparr>zm_isDragging := True, zm_dragStart := (fst client - fst (zm_pan z), snd client - snd (zm_pan z))\<rparr> else z)"

definition zoom_mouseMove :: "bool \<Rightarrow> number \<times> number \<Rightarrow> DigitalZoom \<Rightarrow> DigitalZoom" where
  "zoom_mouseMove allowZoom client z =
     (if \<not> allowZoom \<or> \<not> zm_isDragging z then z
      else if zm_scale z > 1 then z\<lparr>zm_pan := (fst client - fst (zm_dragStart z), snd client - snd (zm_dragStart z))\<rparr> else z)"

definition zoom_mouseUp :: "bool \<Rightarrow> DigitalZoom \<Rightarrow> DigitalZoom" where
  "zoom_mouseUp allowZoom z = (if \<not> allowZoom then z else z\<lparr>zm_isDragging := False\<rparr>)"

datatype zoom_event = Zoom_reset | Wheel number | Mouse_down "number \<times> number" | Mouse_move "number \<times> number" | Mouse_up

fun zoom_step :: "bool \<Rightarrow> zoom_event \<Rightarrow> DigitalZoom \<Rightarrow> DigitalZoom" where
  "zoom_step allow Zoom_reset z = zoom_reset z"
| "zoom_step allow (Wheel d) z = handleWheel allow d z"
| "zoom_step allow (Mouse_down p) z = zoom_mouseDown allow p z"
| "zoom_step allow (Mouse_move p) z = zoom_mouseMove allow p z"
| "zoom_step allow Mouse_up z = zoom_mouseUp allow z"

section \<open>Shared tile switches\<close>

text \<open>Every tile keeps its copy of a switch; the copies are listed by tile. A toggle stores the new value and
  broadcasts it to all tiles.\<close>

type_synonym tiles = "(nat \<times> bool) list"

definition switch_value :: "string \<Rightarrow> storage \<Rightarrow> bool" where
  "switch_value key st = (case st key of None \<Rightarrow> True | Some v \<Rightarrow> v = ''on'')"

definition tile_mount :: "string \<Rightarrow> nat \<Rightarrow> storage \<times> tiles \<Rightarrow> storage \<times> tiles" where
  "tile_mount key i s = (fst s, (i, switch_value key (fst s)) # filter (\<lambda>t. fst t \<noteq> i) (snd s))"

definition tile_unmount :: "nat \<Rightarrow> storage \<times> tiles \<Rightarrow> storage \<times> tiles" where
  "tile_unmount i s = (fst s, filter (\<lambda>t. fst t \<noteq> i) (snd s))"

definition tile_toggle :: "string \<Rightarrow> nat \<Rightarrow> storage \<times> tiles \<Rightarrow> storage \<times> tiles" where
  "tile_toggle key i s =
     (case map_of (snd s) i of
        None \<Rightarrow> s
      | Some prev \<Rightarrow> ((fst s)(key \<mapsto> (if \<not> prev then ''on'' else ''off'')), map (\<lambda>(j, _). (j, \<not> prev)) (snd s)))"

datatype switch_event = Tile_mount nat | Tile_unmount nat | Tile_toggle nat

fun switch_step :: "string \<Rightarrow> switch_event \<Rightarrow> storage \<times> tiles \<Rightarrow> storage \<times> tiles" where
  "switch_step key (Tile_mount i) s = tile_mount key i s"
| "switch_step key (Tile_unmount i) s = tile_unmount i s"
| "switch_step key (Tile_toggle i) s = tile_toggle key i s"

definition useTimestampOverlayToggle :: "switch_event \<Rightarrow> storage \<times> tiles \<Rightarrow> storage \<times> tiles" where
  "useTimestampOverlayToggle = switch_step ''ironsight-tile-timestamp-overlay''"

definition useVCAZonesToggle :: "switch_event \<Rightarrow> storage \<times> tiles \<Rightarrow> storage \<times> tiles" where
  "useVCAZonesToggle = switch_step ''ironsight-vca-zones-visible''"

text \<open>A wall of tiles, each with both switches, on one storage.\<close>

record Wall =
  wl_storage :: storage
  wl_overlay :: tiles
  wl_zones :: tiles

datatype wall_event = Overlay switch_event | Zones switch_event

fun wall_step :: "wall_event \<Rightarrow> Wall \<Rightarrow> Wall" where
  "wall_step (Overlay e) w = (let (st, ts) = useTimestampOverlayToggle e (wl_storage w, wl_overlay w) in w\<lparr>wl_storage := st, wl_overlay := ts\<rparr>)"
| "wall_step (Zones e) w = (let (st, ts) = useVCAZonesToggle e (wl_storage w, wl_zones w) in w\<lparr>wl_storage := st, wl_zones := ts\<rparr>)"

section \<open>Renaming in place\<close>

record NameEdit =
  ne_editingName :: bool
  ne_editValue :: string

definition startEditing :: "bool \<Rightarrow> bool \<Rightarrow> string \<Rightarrow> NameEdit \<Rightarrow> NameEdit" where
  "startEditing isAdmin hasRename cameraName s =
     (if \<not> isAdmin \<or> \<not> hasRename then s else s\<lparr>ne_editValue := cameraName, ne_editingName := True\<rparr>)"

text \<open>The call of \<^verbatim>\<open>onRename\<close>, if any.\<close>

definition commitRename :: "id \<Rightarrow> string \<Rightarrow> bool \<Rightarrow> NameEdit \<Rightarrow> NameEdit \<times> (id \<times> string) option" where
  "commitRename cameraId cameraName hasRename s =
     (let trimmed = trim (ne_editValue s)
      in (s\<lparr>ne_editingName := False\<rparr>,
          if trimmed \<noteq> [] \<and> trimmed \<noteq> cameraName \<and> hasRename then Some (cameraId, trimmed) else None))"

definition cancelRename :: "string \<Rightarrow> NameEdit \<Rightarrow> NameEdit" where
  "cancelRename cameraName s = s\<lparr>ne_editingName := False, ne_editValue := cameraName\<rparr>"

section \<open>Library\<close>

lemma tally_Cons: "tally p (x # xs) = (if p x then 1 else 0) + tally p xs"
  by (simp add: tally_def)

lemma tally_butlast: "xs \<noteq> [] \<Longrightarrow> tally p xs = tally p (butlast xs) + (if p (last xs) then 1 else 0)"
proof -
  assume "xs \<noteq> []"
  moreover have "tally p (butlast xs @ [last xs]) = tally p (butlast xs) + (if p (last xs) then 1 else 0)"
    by (simp add: tally_def)
  ultimately show ?thesis by simp
qed

lemma tally_push_bounded:
  assumes "length xs \<le> 200" and "p x"
  shows "tally p (take 200 (x # xs)) > tally p xs \<longleftrightarrow> \<not> (length xs = 200 \<and> p (last xs))"
proof (cases "length xs = 200")
  case True
  then have "take 199 xs = butlast xs" "xs \<noteq> []" by (auto simp: butlast_conv_take)
  then show ?thesis using True assms(2) tally_butlast [of xs p] by (simp add: tally_Cons take_Cons')
next
  case False
  with assms have "take 200 (x # xs) = x # xs" by (simp add: take_Cons')
  then show ?thesis using assms(2) False by (simp add: tally_Cons)
qed

lemma shortcut_seeks_past:
  "sv_currentTime v \<le> now \<Longrightarrow> handleKey now v tag key h = (h', Some (Seek t)) \<Longrightarrow> t \<le> now"
  by (auto simp: handleKey_def SEEK_DELTA_MS_def Let_def split: if_splits)

lemma rename_is_a_change:
  "snd (commitRename c n r s) = Some (c', m) \<Longrightarrow> c' = c \<and> m \<noteq> [] \<and> m \<noteq> n \<and> r"
  by (auto simp: commitRename_def Let_def split: if_splits)

lemma parse_key_nat_str: "parse_key (nat_str d) = Some d"
proof -
  have "takeWhile is_digit (nat_str d) = nat_str d" using nat_str_digits by (simp add: takeWhile_eq_all_conv)
  moreover obtain c cs where "nat_str d = c # cs" using nat_str_nonempty [of d] by (cases "nat_str d") auto
  ultimately show ?thesis using dec_val_nat_str [of d] by (simp only: parse_key_def list.case)
qed

lemma nat_str_no_letter: "to_lower (nat_str d) \<noteq> ''f'' \<and> to_lower (nat_str d) \<noteq> ''v''"
proof -
  have "lower_char c = c" if "c \<in> set (nat_str d)" for c
    using nat_str_digits [OF that] by (auto simp: is_digit_def lower_char_def Let_def)
  then have "map lower_char (nat_str d) = nat_str d" by (simp add: map_idI)
  moreover have "\<not> is_digit (CHR ''f'')" "\<not> is_digit (CHR ''v'')" by (simp_all add: is_digit_def)
  ultimately show ?thesis using nat_str_digits [of _ d] by (metis list.set_intros(1))
qed

lemma armed_digit:
  "\<not> form_field tag \<Longrightarrow> 1 \<le> d \<Longrightarrow> d \<le> 5 \<Longrightarrow> keyPrefix s = Some p \<Longrightarrow> length (chord_codes p) = 5 \<Longrightarrow>
   disposition_handler tag (nat_str d) s = (\<lparr>keyPrefix = None, keyPrefixTimer = False\<rparr>, Some (chord_codes p ! (d - 1)))"
  using nat_str_no_letter [of d] by (simp add: disposition_handler_def parse_key_nat_str)

subsection \<open>Zoom\<close>

definition zoom_inv :: "DigitalZoom \<Rightarrow> bool" where
  "zoom_inv z \<longleftrightarrow> 1 \<le> zm_scale z \<and> zm_scale z \<le> 10 \<and> (zm_scale z = 1 \<longrightarrow> zm_pan z = (0, 0))"

lemma zoom_step_inv: "zoom_inv z \<Longrightarrow> zoom_inv (zoom_step allow e z)"
  by (cases e) (auto simp: zoom_inv_def zoom_reset_def handleWheel_def zoom_mouseDown_def zoom_mouseMove_def zoom_mouseUp_def Let_def)

interpretation zoom: machine "zoom_step allow" "\<lambda>z. z = initial_zoom" zoom_inv for allow
  by unfold_locales (auto intro: zoom_step_inv, simp add: zoom_inv_def initial_zoom_def)

subsection \<open>Switches\<close>

definition in_sync :: "string \<Rightarrow> storage \<Rightarrow> tiles \<Rightarrow> bool" where
  "in_sync key st ts \<longleftrightarrow> list_all (\<lambda>t. snd t = switch_value key st) ts"

lemma switch_step_sync:
  "in_sync key (fst s) (snd s) \<Longrightarrow> in_sync key (fst (switch_step key e s)) (snd (switch_step key e s))"
  by (cases e) (auto simp: in_sync_def tile_mount_def tile_unmount_def tile_toggle_def switch_value_def list_all_iff
      split: option.splits)

lemma switch_step_frame: "k \<noteq> key \<Longrightarrow> fst (switch_step key e s) k = fst s k"
  by (cases e) (auto simp: tile_mount_def tile_unmount_def tile_toggle_def split: option.splits)

lemma in_sync_local: "st key = st' key \<Longrightarrow> in_sync key st ts = in_sync key st' ts"
  by (simp add: in_sync_def switch_value_def)

text \<open>The contract of a switch hook: its tiles follow its own storage entry and it leaves the other entries alone.
  Two hooks on different entries can share a wall.\<close>

locale tile_switch =
  fixes key :: string
    and step :: "switch_event \<Rightarrow> storage \<times> tiles \<Rightarrow> storage \<times> tiles"
  assumes step_sync: "in_sync key (fst s) (snd s) \<Longrightarrow> in_sync key (fst (step e s)) (snd (step e s))"
    and step_frame: "k \<noteq> key \<Longrightarrow> fst (step e s) k = fst s k"
begin

lemma other_unaffected: "k \<noteq> key \<Longrightarrow> in_sync k (fst s) ts \<Longrightarrow> in_sync k (fst (step e s)) ts"
  using step_frame in_sync_local by metis

end

interpretation overlay: tile_switch "''ironsight-tile-timestamp-overlay''" useTimestampOverlayToggle
  by unfold_locales (simp_all add: useTimestampOverlayToggle_def switch_step_sync switch_step_frame)

interpretation zones: tile_switch "''ironsight-vca-zones-visible''" useVCAZonesToggle
  by unfold_locales (simp_all add: useVCAZonesToggle_def switch_step_sync switch_step_frame)

definition wall_sync :: "Wall \<Rightarrow> bool" where
  "wall_sync w \<longleftrightarrow> in_sync ''ironsight-tile-timestamp-overlay'' (wl_storage w) (wl_overlay w) \<and>
     in_sync ''ironsight-vca-zones-visible'' (wl_storage w) (wl_zones w)"

lemma wall_step_sync: "wall_sync w \<Longrightarrow> wall_sync (wall_step e w)"
proof (cases e)
  case (Overlay x)
  assume "wall_sync w"
  with Overlay show ?thesis
    using overlay.step_sync [of "(wl_storage w, wl_overlay w)" x]
      overlay.other_unaffected [of "''ironsight-vca-zones-visible''" "(wl_storage w, wl_overlay w)" "wl_zones w" x]
    by (simp add: wall_sync_def case_prod_beta)
next
  case (Zones x)
  assume "wall_sync w"
  with Zones show ?thesis
    using zones.step_sync [of "(wl_storage w, wl_zones w)" x]
      zones.other_unaffected [of "''ironsight-tile-timestamp-overlay''" "(wl_storage w, wl_zones w)" "wl_overlay w" x]
    by (simp add: wall_sync_def case_prod_beta)
qed

interpretation wall: machine wall_step "\<lambda>w. wl_overlay w = [] \<and> wl_zones w = []" wall_sync
proof
  show "wall_sync w" if "wl_overlay w = [] \<and> wl_zones w = []" for w
    using that by (simp add: wall_sync_def in_sync_def)
qed (rule wall_step_sync)

section \<open>Properties\<close>

text \<open>When the alarm sounds: with the counters in step with the feed and sound on, a new unacknowledged
  critical alert in the store is announced by the critical tone, except when the feed is full and the
  alert it pushes out was itself critical and unacknowledged; then the count stays the same and the
  console is silent about it.\<close>

theorem new_critical_sounds:
  assumes "length (alertFeed s) \<le> 200" and "ae_id alert \<notin> set (dismissedIds s)" and "unacked Sev_critical alert"
    and "initialized refs" and "prevCritical refs = tally (unacked Sev_critical) (alertFeed s)"
  shows "snd (useAlertAudio (alertFeed (addAlert alert s)) False now refs) = Some Tone_critical \<longleftrightarrow>
    \<not> (length (alertFeed s) = 200 \<and> unacked Sev_critical (last (alertFeed s)))"
proof -
  have "alertFeed (addAlert alert s) = take 200 (alert # alertFeed s)" using assms(2) by (simp add: addAlert_def)
  then show ?thesis
    using tally_push_bounded [of "alertFeed s" "unacked Sev_critical" alert] assms(1,3-5)
    by (simp add: useAlertAudio_def Let_def)
qed

theorem new_critical_sounds_witness:
  "snd (useAlertAudio (alertFeed (addAlert ((alert_fixture ''a1'' None 1000 None)\<lparr>ae_severity := Sev_critical\<rparr>) (initialStore 0)))
     False 2000 \<lparr>prevCritical = 0, prevHigh = 0, prevSla = 0, initialized = True\<rparr>) = Some Tone_critical"
  using new_critical_sounds [of "initialStore 0" "(alert_fixture ''a1'' None 1000 None)\<lparr>ae_severity := Sev_critical\<rparr>"
      "\<lparr>prevCritical = 0, prevHigh = 0, prevSla = 0, initialized = True\<rparr>" 2000]
  by (simp add: initialStore_def unacked_def alert_fixture_def tally_def)

text \<open>The disposition chords: outside form fields, F or V followed by a digit from 1 to 5 selects exactly
  the code at that position among the false-positive or the verified codes and disarms the prefix; while
  the prefix is not armed, or after it timed out, no key selects anything.\<close>

theorem disposition_chord_selects:
  assumes "\<not> form_field tag" and "1 \<le> d" and "d \<le> 5" and "key = (case p of F_key \<Rightarrow> ''F'' | V_key \<Rightarrow> ''v'')"
  shows "disposition_handler tag (nat_str d) (fst (disposition_handler tag key s)) =
      (\<lparr>keyPrefix = None, keyPrefixTimer = False\<rparr>, Some (chord_codes p ! (d - 1))) \<and> length (chord_codes p) = 5 \<and>
    snd (disposition_handler tag key' (chord_timeout (fst (disposition_handler tag key s)))) = None"
proof -
  have arm: "fst (disposition_handler tag key s) = \<lparr>keyPrefix = Some p, keyPrefixTimer = True\<rparr>"
    using assms(1,4) by (cases p) (simp_all add: disposition_handler_def lower_char_def char_of_eq_iff)
  have len: "length (chord_codes p) = 5" by (cases p) (simp_all add: chord_codes_def DISPOSITION_OPTIONS_def)
  have "disposition_handler tag (nat_str d) (fst (disposition_handler tag key s)) =
      (\<lparr>keyPrefix = None, keyPrefixTimer = False\<rparr>, Some (chord_codes p ! (d - 1)))"
    unfolding arm using assms(1-3) len by (intro armed_digit) simp_all
  moreover have "snd (disposition_handler tag key' (chord_timeout (fst (disposition_handler tag key s)))) = None"
    unfolding arm by (simp add: chord_timeout_def disposition_handler_def)
  ultimately show ?thesis using len by simp
qed

theorem disposition_chord_selects_witness:
  "snd (disposition_handler ''DIV'' (nat_str 2) (fst (disposition_handler ''DIV'' ''F'' \<lparr>keyPrefix = None, keyPrefixTimer = False\<rparr>))) =
     Some False_positive_weather"
  using disposition_chord_selects [of "''DIV''" 2 "''F''" F_key "\<lparr>keyPrefix = None, keyPrefixTimer = False\<rparr>" "[]"]
  by (simp add: form_field_def chord_codes_def DISPOSITION_OPTIONS_def)

text \<open>The digital zoom stays in range: after any sequence of wheel, drag and reset events, allowed or not, the
  scale is between 1 and 10, and an unscaled picture is never panned.\<close>

theorem zoom_in_range:
  assumes "z = fold (zoom_step allow) es initial_zoom"
  shows "1 \<le> zm_scale z \<and> zm_scale z \<le> 10 \<and> (zm_scale z = 1 \<longrightarrow> zm_pan z = (0, 0))"
  using zoom.inv_run [OF zoom.inv_start [OF refl], of allow es] unfolding assms zoom_inv_def .

theorem zoom_in_range_witness:
  "zm_pan (fold (zoom_step True) [Wheel (- 500), Mouse_down (3, 4), Mouse_move (9, 9), Wheel 1000] initial_zoom) = (0, 0)"
  using zoom_in_range [of _ True "[Wheel (- 500), Mouse_down (3, 4), Mouse_move (9, 9), Wheel 1000]", OF refl]
  by (simp add: handleWheel_def zoom_mouseDown_def zoom_mouseMove_def initial_zoom_def Let_def)

text \<open>The tile switches stay in step: however tiles mount, unmount and toggle either switch, all tiles of a
  wall show the same value of each switch, which is the stored one (on when nothing is stored), and a
  tile that mounts later agrees with them.\<close>

theorem wall_in_step:
  assumes "wl_overlay w0 = [] \<and> wl_zones w0 = []" and "w = fold wall_step es w0"
  shows "list_all (\<lambda>t. snd t = switch_value ''ironsight-tile-timestamp-overlay'' (wl_storage w)) (wl_overlay w) \<and>
    list_all (\<lambda>t. snd t = switch_value ''ironsight-vca-zones-visible'' (wl_storage w)) (wl_zones w) \<and>
    map_of (wl_zones (wall_step (Zones (Tile_mount i)) w)) i = Some (switch_value ''ironsight-vca-zones-visible'' (wl_storage w))"
proof -
  have "wall_sync w" unfolding assms(2) by (rule wall.inv_run [OF wall.inv_start [OF assms(1)]])
  then show ?thesis by (simp add: wall_sync_def in_sync_def useVCAZonesToggle_def tile_mount_def)
qed

theorem wall_in_step_witness:
  "map_of (wl_zones (wall_step (Zones (Tile_mount 2)) (fold wall_step [Zones (Tile_mount 1), Zones (Tile_toggle 1)]
     \<lparr>wl_storage = Map.empty, wl_overlay = [], wl_zones = []\<rparr>))) 2 = Some False"
  using wall_in_step [of "\<lparr>wl_storage = Map.empty, wl_overlay = [], wl_zones = []\<rparr>" _ "[Zones (Tile_mount 1), Zones (Tile_toggle 1)]" 2,
      OF _ refl]
  by (simp add: useVCAZonesToggle_def tile_mount_def tile_toggle_def switch_value_def)

end
