(* ===== verification/Query_Hooks.thy ===== *)
theory Query_Hooks
  imports Camera_Registry Js_Date
begin

text \<open>
  The query and mutation hooks of \<^verbatim>\<open>frontend/src/hooks/\<close> for sites, companies, incidents, alerts and search, and the
  three small interface stores of \<^verbatim>\<open>frontend/src/stores/\<close> (admin, search, portal). The query library is a
  third-party package: a query hook is its key, its function and its options, and a mutation hook is its
  function with the keys its success invalidates (\<open>Camera_Registry\<close>). An invalidated key refreshes every
  query whose key begins with it, as the library documents.
\<close>

section \<open>Queries\<close>

record Query =
  qy_key :: "json list"
  qy_fn :: "json option io"
  qy_enabled :: bool
  qy_refetch :: "ms option"
  qy_stale :: ms

definition json_of_opt :: "string option \<Rightarrow> json" where
  "json_of_opt s = (case s of None \<Rightarrow> JNull | Some t \<Rightarrow> JStr t)"

definition useSites :: Query where
  "useSites = \<lparr>qy_key = [JStr ''sites''], qy_fn = getSites, qy_enabled = True, qy_refetch = Some 30000, qy_stale = 10000\<rparr>"

definition useSite :: "id option \<Rightarrow> Query" where
  "useSite i = \<lparr>qy_key = [JStr ''site'', json_of_opt i], qy_fn = getSite (nullish i []), qy_enabled = truthy_str i,
     qy_refetch = Some 10000, qy_stale = 5000\<rparr>"

definition useSiteCameras :: "id option \<Rightarrow> Query" where
  "useSiteCameras siteId = \<lparr>qy_key = [JStr ''site-cameras'', json_of_opt siteId], qy_fn = getSiteCameras (nullish siteId []),
     qy_enabled = truthy_str siteId, qy_refetch = None, qy_stale = 0\<rparr>"

definition useSiteCompliance :: "id option \<Rightarrow> Query" where
  "useSiteCompliance siteId = \<lparr>qy_key = [JStr ''site-compliance'', json_of_opt siteId], qy_fn = getSiteCompliance (nullish siteId []),
     qy_enabled = truthy_str siteId, qy_refetch = None, qy_stale = 0\<rparr>"

definition useCompanies :: Query where
  "useCompanies = \<lparr>qy_key = [JStr ''companies''], qy_fn = getCompanies, qy_enabled = True, qy_refetch = None, qy_stale = 30000\<rparr>"

definition useCompany :: "id option \<Rightarrow> Query" where
  "useCompany i = \<lparr>qy_key = [JStr ''company'', json_of_opt i], qy_fn = getCompany (nullish i []), qy_enabled = truthy_str i,
     qy_refetch = None, qy_stale = 0\<rparr>"

definition useCompanyUsers :: "id option \<Rightarrow> Query" where
  "useCompanyUsers companyId = \<lparr>qy_key = [JStr ''company-users'', json_of_opt companyId], qy_fn = getCompanyUsers (nullish companyId []),
     qy_enabled = truthy_str companyId, qy_refetch = None, qy_stale = 0\<rparr>"

text \<open>An answer of null or no answer is the empty list.\<close>

definition useIncidents :: "json \<Rightarrow> IncidentFilters \<Rightarrow> Query" where
  "useIncidents filters f = \<lparr>qy_key = [JStr ''incidents'', filters],
     qy_fn = bind_io (getIncidents f) (\<lambda>r. return_io (Some (case r of None \<Rightarrow> JArr [] | Some JNull \<Rightarrow> JArr [] | Some j \<Rightarrow> j))),
     qy_enabled = True, qy_refetch = Some 30000, qy_stale = 10000\<rparr>"

definition useIncident :: "id option \<Rightarrow> Query" where
  "useIncident i = \<lparr>qy_key = [JStr ''incident'', json_of_opt i], qy_fn = getIncident (nullish i []), qy_enabled = truthy_str i,
     qy_refetch = None, qy_stale = 5000\<rparr>"

definition useAlerts :: "json \<Rightarrow> AlertFilters \<Rightarrow> Query" where
  "useAlerts filters f = \<lparr>qy_key = [JStr ''alerts'', filters], qy_fn = getAlerts f, qy_enabled = True, qy_refetch = Some 15000, qy_stale = 5000\<rparr>"

definition useSuggestions :: "string \<Rightarrow> Query" where
  "useSuggestions q = \<lparr>qy_key = [JStr ''search-suggestions'', JStr q], qy_fn = getSearchSuggestions q, qy_enabled = (2 \<le> length q),
     qy_refetch = None, qy_stale = 30000\<rparr>"

section \<open>Mutations\<close>

definition useUpdateSite :: "id \<Rightarrow> json \<Rightarrow> World \<Rightarrow> World \<times> json option result \<times> query_key list" where
  "useUpdateSite i data = mutation (updateSite i data) [[''sites''], [''site'', i]]"

definition schedule_init :: "json list \<Rightarrow> RequestInit" where
  "schedule_init monitoring_schedule = \<lparr>ri_method = Some ''PUT'', ri_headers = [(''Content-Type'', ''application/json'')],
     ri_body = Json_body (JObj [(''monitoring_schedule'', JArr monitoring_schedule)])\<rparr>"

definition useUpdateSiteMonitoringSchedule :: "id \<Rightarrow> json list \<Rightarrow> World \<Rightarrow> World \<times> json result \<times> query_key list" where
  "useUpdateSiteMonitoringSchedule i monitoring_schedule =
     mutation (bind_io (authFetch (''/api/v1/sites/'' @ i @ ''/monitoring-schedule'') (schedule_init monitoring_schedule)) (\<lambda>res.
       if \<not> ok res then throw_io (rs_text res) else res_json res)) [[''sites''], [''site'', i]]"

definition useCreateSite :: "json \<Rightarrow> World \<Rightarrow> World \<times> json option result \<times> query_key list" where
  "useCreateSite data = mutation (createSite data) [[''sites'']]"

definition useDeleteSite :: "id \<Rightarrow> World \<Rightarrow> World \<times> unit result \<times> query_key list" where
  "useDeleteSite i = mutation (deleteSite i) [[''sites'']]"

definition useCreateCompany :: "json \<Rightarrow> World \<Rightarrow> World \<times> json option result \<times> query_key list" where
  "useCreateCompany data = mutation (createCompany data) [[''companies'']]"

section \<open>Interface stores\<close>

record AdminState =
  showCreateSiteModal :: bool
  showAssignCameraModal :: bool
  showCustomerAccessModal :: bool
  showCreateCustomerModal :: bool
  showSOPModal :: bool
  showSiteMapModal :: bool
  showNotificationModal :: bool
  editingSiteId :: "id option"

definition useAdminStore :: AdminState where
  "useAdminStore = \<lparr>showCreateSiteModal = False, showAssignCameraModal = False, showCustomerAccessModal = False,
     showCreateCustomerModal = False, showSOPModal = False, showSiteMapModal = False, showNotificationModal = False, editingSiteId = None\<rparr>"

datatype admin_action = OpenCreateSite | OpenEditSite id | OpenAssignCamera id | OpenCustomerAccess id | OpenCreateCustomer
  | OpenSOPs id | OpenSiteMap id | OpenNotifications id | CloseModals

fun admin_step :: "admin_action \<Rightarrow> AdminState \<Rightarrow> AdminState" where
  "admin_step OpenCreateSite s = s\<lparr>showCreateSiteModal := True, editingSiteId := None\<rparr>"
| "admin_step (OpenEditSite i) s = s\<lparr>showCreateSiteModal := True, editingSiteId := Some i\<rparr>"
| "admin_step (OpenAssignCamera i) s = s\<lparr>showAssignCameraModal := True, editingSiteId := Some i\<rparr>"
| "admin_step (OpenCustomerAccess i) s = s\<lparr>showCustomerAccessModal := True, editingSiteId := Some i\<rparr>"
| "admin_step OpenCreateCustomer s = s\<lparr>showCreateCustomerModal := True\<rparr>"
| "admin_step (OpenSOPs i) s = s\<lparr>showSOPModal := True, editingSiteId := Some i\<rparr>"
| "admin_step (OpenSiteMap i) s = s\<lparr>showSiteMapModal := True, editingSiteId := Some i\<rparr>"
| "admin_step (OpenNotifications i) s = s\<lparr>showNotificationModal := True, editingSiteId := Some i\<rparr>"
| "admin_step CloseModals s = s\<lparr>showCreateSiteModal := False, showAssignCameraModal := False, showCustomerAccessModal := False,
     showCreateCustomerModal := False, showSOPModal := False, showSiteMapModal := False, showNotificationModal := False, editingSiteId := None\<rparr>"

record SearchState =
  st_query :: string
  st_filters :: "(string \<times> json) list"
  st_results :: json
  st_selectedResultId :: "id option"
  st_hasSearched :: bool

definition DEFAULT_FILTERS :: "(string \<times> json) list" where
  "DEFAULT_FILTERS = [(''violation_types'', JArr []), (''site_ids'', JArr []), (''model'', JStr ''hybrid'')]"

definition useSearchStore :: SearchState where
  "useSearchStore = \<lparr>st_query = [], st_filters = DEFAULT_FILTERS, st_results = JArr [], st_selectedResultId = None, st_hasSearched = False\<rparr>"

definition setQuery :: "string \<Rightarrow> SearchState \<Rightarrow> SearchState" where
  "setQuery q s = s\<lparr>st_query := q\<rparr>"

definition updateFilters :: "(string \<times> json) list \<Rightarrow> SearchState \<Rightarrow> SearchState" where
  "updateFilters partial s = s\<lparr>st_filters := fold obj_set partial (st_filters s)\<rparr>"

definition resetFilters :: "SearchState \<Rightarrow> SearchState" where
  "resetFilters s = s\<lparr>st_filters := DEFAULT_FILTERS\<rparr>"

definition setResults :: "json \<Rightarrow> SearchState \<Rightarrow> SearchState" where
  "setResults results s = s\<lparr>st_results := results, st_selectedResultId := None\<rparr>"

definition selectResult :: "id option \<Rightarrow> SearchState \<Rightarrow> SearchState" where
  "selectResult i s = s\<lparr>st_selectedResultId := i\<rparr>"

definition setHasSearched :: "bool \<Rightarrow> SearchState \<Rightarrow> SearchState" where
  "setHasSearched v s = s\<lparr>st_hasSearched := v\<rparr>"

text \<open>A search: the store changes only when it succeeds.\<close>

definition useSearchMutation :: "json \<Rightarrow> World \<times> SearchState \<Rightarrow> (World \<times> SearchState) \<times> json option result" where
  "useSearchMutation filters ws =
     (case searchFrames filters (fst ws) of
        (w', Inl e) \<Rightarrow> ((w', snd ws), Inl e)
      | (w', Inr r) \<Rightarrow> ((w', setHasSearched True (setResults (nullish r JNull) (snd ws))), Inr r))"

record PortalState =
  selectedCustomerId :: "id option"
  activeSiteId :: "id option"
  dateRange :: "string \<times> string"

definition defaultDateRange :: "ms \<Rightarrow> string \<times> string" where
  "defaultDateRange now = (take 10 (toISOString (now - 7 * 86400000)), take 10 (toISOString now))"

definition usePortalStore :: "ms \<Rightarrow> PortalState" where
  "usePortalStore now = \<lparr>selectedCustomerId = None, activeSiteId = None, dateRange = defaultDateRange now\<rparr>"

definition selectCustomer :: "id \<Rightarrow> PortalState \<Rightarrow> PortalState" where
  "selectCustomer i s = s\<lparr>selectedCustomerId := Some i\<rparr>"

definition portal_selectSite :: "id option \<Rightarrow> PortalState \<Rightarrow> PortalState" where
  "portal_selectSite i s = s\<lparr>activeSiteId := i\<rparr>"

definition setDateRange :: "string \<times> string \<Rightarrow> PortalState \<Rightarrow> PortalState" where
  "setDateRange dates s = s\<lparr>dateRange := dates\<rparr>"

text \<open>What the persist middleware stores.\<close>

definition portal_partialize :: "PortalState \<Rightarrow> id option \<times> id option \<times> string \<times> string" where
  "portal_partialize s = (selectedCustomerId s, activeSiteId s, dateRange s)"

section \<open>Library\<close>

text \<open>The queries a key refreshes.\<close>

definition refreshes :: "query_key list \<Rightarrow> Query \<Rightarrow> bool" where
  "refreshes keys q \<longleftrightarrow> (\<exists>k\<in>set keys. map JStr k = take (length k) (qy_key q))"

lemma mutation_keys: "snd (snd (mutation f keys w)) = (case fst (snd (mutation f keys w)) of Inl _ \<Rightarrow> [] | Inr _ \<Rightarrow> keys)"
  by (auto simp: mutation_def split: prod.splits sum.splits)

lemma mutation_success: "fst (snd (mutation f keys w)) = Inr x \<Longrightarrow> snd (snd (mutation f keys w)) = keys"
  by (simp add: mutation_keys)

lemma mutation_failure: "fst (snd (mutation f keys w)) = Inl e \<Longrightarrow> snd (snd (mutation f keys w)) = []"
  by (simp add: mutation_keys)

section \<open>Properties\<close>

text \<open>Which views a change refreshes: updating a site or its schedule refreshes the site list and that
  site's page; assigning or removing a camera refreshes the assignments, the site's page and the site
  list, but not the site's camera list, which the alarm view shows and which has no polling of its own.
  A failed mutation refreshes nothing.\<close>

theorem mutations_refresh_views:
  "(\<forall>w r. fst (snd (useUpdateSite i d w)) = Inr r \<longrightarrow>
      refreshes (snd (snd (useUpdateSite i d w))) useSites \<and> refreshes (snd (snd (useUpdateSite i d w))) (useSite (Some i))) \<and>
   (\<forall>w r. fst (snd (useUpdateSiteMonitoringSchedule i ms w)) = Inr r \<longrightarrow>
      refreshes (snd (snd (useUpdateSiteMonitoringSchedule i ms w))) (useSite (Some i))) \<and>
   (\<forall>w r. fst (snd (useAssignCamera i c l w)) = Inr r \<longrightarrow>
      (let ks = snd (snd (useAssignCamera i c l w))
       in refreshes ks useSites \<and> refreshes ks (useSite (Some i)) \<and> \<not> refreshes ks (useSiteCameras (Some i)))) \<and>
   (\<forall>w e. fst (snd (useAssignCamera i c l w)) = Inl e \<longrightarrow> snd (snd (useAssignCamera i c l w)) = [])"
proof (intro conjI allI impI)
  fix w r assume "fst (snd (useUpdateSite i d w)) = Inr r"
  then have "snd (snd (useUpdateSite i d w)) = [[''sites''], [''site'', i]]"
    unfolding useUpdateSite_def by (rule mutation_success)
  then show "refreshes (snd (snd (useUpdateSite i d w))) useSites" "refreshes (snd (snd (useUpdateSite i d w))) (useSite (Some i))"
    by (simp_all add: refreshes_def useSites_def useSite_def json_of_opt_def)
next
  fix w r assume "fst (snd (useUpdateSiteMonitoringSchedule i ms w)) = Inr r"
  then have "snd (snd (useUpdateSiteMonitoringSchedule i ms w)) = [[''sites''], [''site'', i]]"
    unfolding useUpdateSiteMonitoringSchedule_def by (rule mutation_success)
  then show "refreshes (snd (snd (useUpdateSiteMonitoringSchedule i ms w))) (useSite (Some i))"
    by (simp add: refreshes_def useSite_def json_of_opt_def)
next
  fix w r assume "fst (snd (useAssignCamera i c l w)) = Inr r"
  then have "snd (snd (useAssignCamera i c l w)) = assignment_keys i"
    unfolding useAssignCamera_def by (rule mutation_success)
  then show "let ks = snd (snd (useAssignCamera i c l w))
       in refreshes ks useSites \<and> refreshes ks (useSite (Some i)) \<and> \<not> refreshes ks (useSiteCameras (Some i))"
    by (simp add: refreshes_def useSites_def useSite_def useSiteCameras_def json_of_opt_def assignment_keys_def Let_def)
next
  fix w e assume "fst (snd (useAssignCamera i c l w)) = Inl e"
  then show "snd (snd (useAssignCamera i c l w)) = []" unfolding useAssignCamera_def by (rule mutation_failure)
qed

definition answering_world :: World where
  "answering_world = \<lparr>wd_server = (\<lambda>_ _ _. json_reply (JObj []) []), wd_jar = [], wd_document = False, wd_location = ''/'', wd_log = []\<rparr>"

theorem mutations_refresh_views_witness:
  "refreshes (snd (snd (useUpdateSite ''s1'' (JObj []) answering_world))) (useSite (Some ''s1''))"
proof -
  have "\<exists>r. fst (snd (useUpdateSite ''s1'' (JObj []) answering_world)) = Inr r"
    by (simp add: useUpdateSite_def mutation_def updateSite_def fetchJSON_def authFetch_def bootstrapCSRFToken_def send_def
        answering_world_def json_reply_def getCSRFToken_def ok_def redirect_on_401_def res_json_def json_field_def io_defs Let_def)
  then show ?thesis using mutations_refresh_views [of "''s1''" "JObj []" "[]" "[]" "[]"] by blast
qed

end
