(* ===== verification/Timeline.thy ===== *)
theory Timeline
  imports Js_Date
begin

text \<open>
  The timeline of the recorder page (\<^verbatim>\<open>components/Timeline.tsx\<close>): the zoom levels and
  the visible window, the coverage bars, event markers and ruler ticks drawn in it, the
  pointer handlers of the track (hover, click and the jog drag), and the transport
  buttons. Positions are percentages of the window; times are integers in milliseconds.

  A time value is \<open>None\<close> where \<^verbatim>\<open>new Date(s).getTime()\<close> is \<^verbatim>\<open>NaN\<close>. The track that
  receives pointer events has a non-zero width. \<^verbatim>\<open>toLocaleTimeString\<close> depends on the
  locale of the browser and is a parameter. The handlers return the calls they make on
  the props of the component; the drag is a machine over pointer events and animation
  frames, with one closure per gesture as the code has it.
\<close>

section \<open>The visible window\<close>

definition PLAYBACK_RATES :: "number list" where
  "PLAYBACK_RATES = [1/2, 1, 2, 4]"

definition EVENT_TYPES :: "(string \<times> string) list" where
  "EVENT_TYPES = [(''motion'', ''Motion''), (''lpr'', ''LPR''), (''object'', ''Object''), (''face'', ''Face'')]"

definition ZOOM_LEVELS :: "(ms \<times> string) list" where
  "ZOOM_LEVELS =
     [(15 * 1000, ''15s''), (30 * 1000, ''30s''), (60 * 1000, ''1m''), (2 * 60 * 1000, ''2m''),
      (5 * 60 * 1000, ''5m''), (15 * 60 * 1000, ''15m''), (30 * 60 * 1000, ''30m''),
      (60 * 60 * 1000, ''1h''), (2 * 60 * 60 * 1000, ''2h''), (4 * 60 * 60 * 1000, ''4h''),
      (8 * 60 * 60 * 1000, ''8h''), (24 * 60 * 60 * 1000, ''24h'')]"

definition DEFAULT_ZOOM_INDEX :: nat where
  "DEFAULT_ZOOM_INDEX = 7"

definition SNAP_MS :: "ms \<Rightarrow> ms" where
  "SNAP_MS windowMs = (if windowMs \<le> 2 * 60 * 1000 then 250 else 1000)"

definition windowMs :: "nat \<Rightarrow> ms" where
  "windowMs zoomIndex = fst (ZOOM_LEVELS ! zoomIndex)"

text \<open>The argument of \<^verbatim>\<open>new Date(x)\<close> is truncated to an integer.\<close>

definition time_clip :: "number \<Rightarrow> ms" where
  "time_clip x = (if x < 0 then \<lceil>x\<rceil> else \<lfloor>x\<rfloor>)"

definition startTime :: "ms \<Rightarrow> ms \<Rightarrow> ms" where
  "startTime currentTime win = time_clip (of_int currentTime - of_int win / 2)"

definition endTime :: "ms \<Rightarrow> ms \<Rightarrow> ms" where
  "endTime currentTime win = time_clip (of_int currentTime + of_int win / 2)"

definition zoomIn :: "nat \<Rightarrow> nat" where
  "zoomIn prev = prev - 1"

definition zoomOut :: "nat \<Rightarrow> nat" where
  "zoomOut prev = min (length ZOOM_LEVELS - 1) (prev + 1)"

definition track_wheel :: "number \<Rightarrow> nat \<Rightarrow> nat" where
  "track_wheel deltaY = (if deltaY < 0 then zoomIn else zoomOut)"

text \<open>The keys that decide when the coverage is fetched again.\<close>

definition coverage_keys :: "ms \<Rightarrow> ms \<Rightarrow> int \<times> int" where
  "coverage_keys currentTime win = (startTime currentTime win div 30000, endTime currentTime win div 30000)"

section \<open>Coverage bars\<close>

record SegmentCoverage =
  start_time :: "ms option"
  end_time :: "ms option"
  has_audio :: bool

record CoverageBar =
  left :: "number option"  \<comment> \<open>\<open>None\<close> is \<^verbatim>\<open>NaN\<close>\<close>
  width :: "number option"
  hasAudio :: bool

definition coverage_bar :: "ms \<Rightarrow> ms \<Rightarrow> ms \<Rightarrow> SegmentCoverage \<Rightarrow> CoverageBar option" where
  "coverage_bar winStart winEnd win seg =
     (let sMs = map_option (\<lambda>t. max t winStart) (start_time seg);
          eMs = map_option (\<lambda>t. min t winEnd) (end_time seg);
          pct = (\<lambda>d. of_int d / of_int win * 100) in
      case (sMs, eMs) of
        (Some s, Some e) \<Rightarrow>
          if e \<le> s then None
          else Some \<lparr> left = Some (pct (s - winStart)), width = Some (pct (e - s)), hasAudio = has_audio seg \<rparr>
      | (Some s, None) \<Rightarrow> Some \<lparr> left = Some (pct (s - winStart)), width = None, hasAudio = has_audio seg \<rparr>
      | (None, _) \<Rightarrow> Some \<lparr> left = None, width = None, hasAudio = has_audio seg \<rparr>)"

definition coverageBars :: "ms \<Rightarrow> ms \<Rightarrow> SegmentCoverage list \<Rightarrow> CoverageBar list" where
  "coverageBars currentTime win spans =
     List.map_filter (coverage_bar (startTime currentTime win) (endTime currentTime win) win) spans"

section \<open>Event markers\<close>

record TimelineBucket =
  bucket_time :: ms
  counts :: "(string \<times> number) list"
  total :: number

record Marker =
  pos :: number
  bucketMs :: ms
  height :: number
  mtype :: string
  mcount :: number
  mcounts :: "(string \<times> number) list"

definition max_total :: "TimelineBucket list \<Rightarrow> number" where
  "max_total buckets = foldr max (map total buckets) 1"

definition activeCounts :: "(string \<Rightarrow> bool) \<Rightarrow> TimelineBucket \<Rightarrow> (string \<times> number) list" where
  "activeCounts filters b = filter (\<lambda>(type, _). filters type) (counts b)"

definition primaryType :: "(string \<times> number) list \<Rightarrow> string" where
  "primaryType sorted_counts =
     (case sorted_counts of [] \<Rightarrow> ''other'' | (type, _) # _ \<Rightarrow> if type = [] then ''other'' else type)"

definition marker_of :: "(string \<Rightarrow> bool) \<Rightarrow> ms \<Rightarrow> ms \<Rightarrow> number \<Rightarrow> TimelineBucket \<Rightarrow> Marker" where
  "marker_of filters winStart win maxTotal b =
     (let act = activeCounts filters b;
          by_count = js_sort (\<lambda>a b. snd b < snd a) act in
      \<lparr> pos = of_int (bucket_time b - winStart) / of_int win * 100,
        bucketMs = bucket_time b,
        height = max 8 (total b / maxTotal * 18),
        mtype = primaryType by_count,
        mcount = sum_list (map snd act),
        mcounts = by_count \<rparr>)"

definition markers :: "(string \<Rightarrow> bool) \<Rightarrow> ms \<Rightarrow> ms \<Rightarrow> TimelineBucket list \<Rightarrow> Marker list" where
  "markers filters currentTime win buckets =
     filter (\<lambda>m. 0 \<le> pos m \<and> pos m \<le> 100 \<and> 0 < mcount m)
       (map (marker_of filters (startTime currentTime win) win (max_total buckets))
         (filter (\<lambda>b. \<exists>(type, _) \<in> set (counts b). filters type) buckets))"

section \<open>The tick ruler\<close>

datatype tick_style = HourMinuteSecond | HourMinute | Hour

definition formatTick :: "(tick_style \<Rightarrow> ms \<Rightarrow> string) \<Rightarrow> bool \<Rightarrow> ms \<Rightarrow> ms \<Rightarrow> string" where
  "formatTick toLocaleTimeString isMounted d majorMs =
     (if \<not> isMounted then ''''
      else if majorMs < 60000 then toLocaleTimeString HourMinuteSecond d
      else if majorMs < 24 * 60 * 60000 then toLocaleTimeString HourMinute d
      else toLocaleTimeString Hour d @ '':00'')"

text \<open>Major and minor intervals, ascending.\<close>

definition STEPS :: "(ms \<times> ms) list" where
  "STEPS =
     [(5000, 1000), (10000, 5000), (30000, 10000), (60000, 15000), (5 * 60000, 60000),
      (10 * 60000, 2 * 60000), (30 * 60000, 5 * 60000), (60 * 60000, 15 * 60000),
      (2 * 60 * 60000, 30 * 60000), (6 * 60 * 60000, 60 * 60000)]"

definition chosen_step :: "ms \<Rightarrow> ms \<times> ms" where
  "chosen_step win =
     (case List.find (\<lambda>(major, _). (of_int win :: number) / of_int major \<le> 7) STEPS of
        Some s \<Rightarrow> s
      | None \<Rightarrow> last STEPS)"

record Tick =
  tick_pos :: number
  major :: bool
  tick_label :: string

definition tick_at :: "(ms \<Rightarrow> ms \<Rightarrow> string) \<Rightarrow> ms \<Rightarrow> ms \<Rightarrow> ms \<Rightarrow> ms \<Rightarrow> Tick" where
  "tick_at fmt winStart win maj t =
     \<lparr> tick_pos = of_int (t - winStart) / of_int win * 100,
       major = (t mod maj = 0),
       tick_label = (if t mod maj = 0 then fmt t maj else '''') \<rparr>"

text \<open>The loop, with its counter: at most \<open>maxTicks\<close> rounds.\<close>

definition maxTicks :: nat where
  "maxTicks = 400"

function tick_loop :: "(ms \<Rightarrow> ms \<Rightarrow> string) \<Rightarrow> ms \<Rightarrow> ms \<Rightarrow> ms \<times> ms \<Rightarrow> ms \<Rightarrow> nat \<Rightarrow> Tick list" where
  "tick_loop fmt winStart win step t n =
     (if t \<le> winStart + win \<and> n < maxTicks then
        (let tick = tick_at fmt winStart win (fst step) t;
             rest = tick_loop fmt winStart win step (t + snd step) (n + 1) in
         if tick_pos tick < 0 \<or> 100 < tick_pos tick then rest else tick # rest)
      else [])"
  by pat_completeness auto
termination
  by (relation "measure (\<lambda>(fmt, winStart, win, step, t, n). maxTicks - n)") auto

declare tick_loop.simps [simp del]

definition ticks :: "(ms \<Rightarrow> ms \<Rightarrow> string) \<Rightarrow> ms \<Rightarrow> ms \<Rightarrow> Tick list" where
  "ticks fmt currentTime win =
     (let winStart = startTime currentTime win;
          chosen = chosen_step win;
          firstTick = \<lceil>of_int winStart / of_int (snd chosen) :: number\<rceil> * snd chosen in
      tick_loop fmt winStart win chosen firstTick 0)"

section \<open>Pointer handlers of the track\<close>

datatype timeline_call = Seek ms | GoLive | ScrubStart | ScrubEnd

record Rect =
  rect_left :: number
  rect_width :: number

record TimelineView =  \<comment> \<open>what a handler reads: the rendered track, the window and the current time\<close>
  track :: "Rect option"
  view_window :: ms
  view_time :: ms

datatype pointer = MousePointer | TouchPointer

text \<open>
  The closure of one \<^verbatim>\<open>mousedown\<close> or \<^verbatim>\<open>touchstart\<close>: its accumulated pixels, whether an
  animation frame is requested, and the window \<^verbatim>\<open>panFromDelta\<close> was created for.
\<close>

record Gesture =
  gpointer :: pointer
  accumulatedDelta :: number
  rafPending :: bool
  gwindow :: ms

record Jog =
  isDragging :: bool
  isScrubbing :: bool
  hoverX :: "number option"
  hoverTime :: "ms option"
  lastX :: number
  gestures :: "Gesture list"

definition initial_jog :: Jog where
  "initial_jog = \<lparr> isDragging = False, isScrubbing = False, hoverX = None, hoverTime = None,
                   lastX = 0, gestures = [] \<rparr>"

definition handleTrackClick :: "TimelineView \<Rightarrow> number \<Rightarrow> Jog \<Rightarrow> timeline_call list" where
  "handleTrackClick v clientX s =
     (if isDragging s then []
      else case track v of
        None \<Rightarrow> []
      | Some rect \<Rightarrow>
          (let ratio = (clientX - rect_left rect) / rect_width rect in
           [Seek (time_clip (of_int (startTime (view_time v) (view_window v)) + ratio * of_int (view_window v)))]))"

definition handleTrackMouseMove :: "TimelineView \<Rightarrow> number \<Rightarrow> Jog \<Rightarrow> Jog" where
  "handleTrackMouseMove v clientX s =
     (case track v of
        None \<Rightarrow> s
      | Some rect \<Rightarrow>
          (let ratio = max 0 (min 1 ((clientX - rect_left rect) / rect_width rect)) in
           s\<lparr> hoverX := Some (ratio * 100),
              hoverTime := Some (time_clip (of_int (startTime (view_time v) (view_window v)) + ratio * of_int (view_window v))) \<rparr>))"

definition handleTrackMouseLeave :: "Jog \<Rightarrow> Jog" where
  "handleTrackMouseLeave s = (if \<not> isDragging s then s\<lparr> hoverX := None, hoverTime := None \<rparr> else s)"

definition panFromDelta :: "TimelineView \<Rightarrow> ms \<Rightarrow> number \<Rightarrow> timeline_call list" where
  "panFromDelta v win deltaX =
     (case track v of
        None \<Rightarrow> []
      | Some rect \<Rightarrow>
          (let timeDelta = deltaX / rect_width rect * of_int win;
               rawMs = of_int (view_time v) + timeDelta;
               snap = SNAP_MS win in
           [Seek (js_round (rawMs / of_int snap) * snap)]))"

definition flushDelta :: "TimelineView \<Rightarrow> Gesture \<Rightarrow> Gesture \<times> timeline_call list" where
  "flushDelta v g =
     (if accumulatedDelta g \<noteq> 0
      then (g\<lparr> accumulatedDelta := 0 \<rparr>, panFromDelta v (gwindow g) (accumulatedDelta g))
      else (g, []))"

definition pointer_down :: "TimelineView \<Rightarrow> pointer \<Rightarrow> number \<Rightarrow> Jog \<Rightarrow> Jog \<times> timeline_call list" where
  "pointer_down v k x s =
     (s\<lparr> isDragging := True, isScrubbing := True, lastX := x,
         gestures := gestures s @
           [\<lparr> gpointer = k, accumulatedDelta = 0, rafPending = False, gwindow = view_window v \<rparr>] \<rparr>,
      [ScrubStart])"

text \<open>Every listener of the pointer's kind sees the move; the first one consumes the distance.\<close>

fun move_gestures :: "pointer \<Rightarrow> number \<Rightarrow> number \<Rightarrow> Gesture list \<Rightarrow> number \<times> Gesture list" where
  "move_gestures k x prev [] = (prev, [])"
| "move_gestures k x prev (g # gs) =
     (if gpointer g = k then
        (let (last', gs') = move_gestures k x x gs in
         (last', g\<lparr> accumulatedDelta := accumulatedDelta g + (prev - x), rafPending := True \<rparr> # gs'))
      else
        (let (last', gs') = move_gestures k x prev gs in (last', g # gs')))"

definition pointer_move :: "pointer \<Rightarrow> number \<Rightarrow> Jog \<Rightarrow> Jog" where
  "pointer_move k x s =
     (if \<not> isDragging s then s
      else (let (last', gs') = move_gestures k x (lastX s) (gestures s) in
            s\<lparr> lastX := last', gestures := gs' \<rparr>))"

definition frame_gesture :: "TimelineView \<Rightarrow> Gesture \<Rightarrow> Gesture \<times> timeline_call list" where
  "frame_gesture v g =
     (if rafPending g then (let (g', cs) = flushDelta v g in (g'\<lparr> rafPending := False \<rparr>, cs)) else (g, []))"

definition animation_frame :: "TimelineView \<Rightarrow> Jog \<Rightarrow> Jog \<times> timeline_call list" where
  "animation_frame v s =
     (s\<lparr> gestures := map (fst \<circ> frame_gesture v) (gestures s) \<rparr>,
      concat (map (snd \<circ> frame_gesture v) (gestures s)))"

definition pointer_up :: "TimelineView \<Rightarrow> pointer \<Rightarrow> Jog \<Rightarrow> Jog \<times> timeline_call list" where
  "pointer_up v k s =
     (let ended = filter (\<lambda>g. gpointer g = k) (gestures s);
          s1 = s\<lparr> isDragging := False, isScrubbing := False,
                  gestures := filter (\<lambda>g. gpointer g \<noteq> k) (gestures s) \<rparr>;
          s2 = (if k = MousePointer then s1\<lparr> hoverX := None, hoverTime := None \<rparr> else s1) in
      if ended = [] then (s, [])
      else (s2, concat (map (\<lambda>g. snd (flushDelta v g) @ [ScrubEnd]) ended)))"

datatype jog_event =
    PointerDown pointer number
  | PointerMove pointer number
  | AnimationFrame
  | PointerUp pointer
  | TrackHover number
  | TrackLeave
  | TrackClick number

definition jog_step :: "TimelineView \<Rightarrow> jog_event \<Rightarrow> Jog \<Rightarrow> Jog \<times> timeline_call list" where
  "jog_step v e s =
     (case e of
        PointerDown k x \<Rightarrow> pointer_down v k x s
      | PointerMove k x \<Rightarrow> (pointer_move k x s, [])
      | AnimationFrame \<Rightarrow> animation_frame v s
      | PointerUp k \<Rightarrow> pointer_up v k s
      | TrackHover x \<Rightarrow> (handleTrackMouseMove v x s, [])
      | TrackLeave \<Rightarrow> (handleTrackMouseLeave s, [])
      | TrackClick x \<Rightarrow> (s, handleTrackClick v x s))"

section \<open>Transport buttons\<close>

definition jumpBack :: "ms \<Rightarrow> int \<Rightarrow> timeline_call list" where
  "jumpBack currentTime minutes = [Seek (currentTime - minutes * 60 * 1000)]"

definition jumpForward :: "ms \<Rightarrow> ms \<Rightarrow> int \<Rightarrow> timeline_call list" where
  "jumpForward now currentTime minutes =
     (let newTime = currentTime + minutes * 60 * 1000 in
      if now \<le> newTime then [GoLive] else [Seek newTime])"

definition skipSeconds :: "ms \<Rightarrow> ms \<Rightarrow> int \<Rightarrow> timeline_call list" where
  "skipSeconds now currentTime seconds =
     (let newTime = currentTime + seconds * 1000 in
      if 0 < seconds \<and> now \<le> newTime then [GoLive] else [Seek newTime])"

definition seekToMarker :: "Marker \<Rightarrow> timeline_call list" where
  "seekToMarker m = [Seek (bucketMs m)]"

text \<open>The events are given by their time values, newest first.\<close>

definition time_before :: "ms \<Rightarrow> ms option \<Rightarrow> bool" where
  "time_before t e = (case e of Some u \<Rightarrow> u < t | None \<Rightarrow> False)"

definition time_after :: "ms \<Rightarrow> ms option \<Rightarrow> bool" where
  "time_after t e = (case e of Some u \<Rightarrow> t < u | None \<Rightarrow> False)"

definition skipToPrevEvent :: "ms \<Rightarrow> ms option list \<Rightarrow> timeline_call list" where
  "skipToPrevEvent currentTime events =
     (case List.find (time_before (currentTime - 1000)) events of
        Some (Some t) \<Rightarrow> [Seek t]
      | _ \<Rightarrow> jumpBack currentTime 60)"

text \<open>The loop over \<^verbatim>\<open>i\<close> from the last index down to \<open>0\<close>, with its \<^verbatim>\<open>break\<close>.\<close>

fun next_event_loop :: "ms \<Rightarrow> ms option list \<Rightarrow> nat \<Rightarrow> ms option" where
  "next_event_loop now events 0 = None"
| "next_event_loop now events (Suc i) =
     (if time_after (now + 1000) (events ! i) then events ! i else next_event_loop now events i)"

definition skipToNextEvent :: "ms \<Rightarrow> ms \<Rightarrow> ms option list \<Rightarrow> timeline_call list" where
  "skipToNextEvent now currentTime events =
     (case next_event_loop currentTime events (length events) of
        Some t \<Rightarrow> [Seek t]
      | None \<Rightarrow> jumpForward now currentTime 60)"

text \<open>
  The editable timestamp: the value shown while it is not edited (for a local time
  \<open>offset\<close> milliseconds ahead of UTC), and its submission, given the time value of what was
  typed.
\<close>

definition goToValue :: "ms \<Rightarrow> ms \<Rightarrow> string" where
  "goToValue offset currentTime =
     (let t = currentTime + offset; (y, m, d) = civil_of_days (t div 86400000); r = t mod 86400000 in
      int_str y @ ''-'' @ pad2 m @ ''-'' @ pad2 d @ ''T'' @ pad2 (r div 3600000) @ '':'' @ pad2 (r div 60000 mod 60))"

definition handleGoTo :: "ms option \<Rightarrow> timeline_call list" where
  "handleGoTo typed = (case typed of Some t \<Rightarrow> [Seek t] | None \<Rightarrow> [])"

section \<open>The window and the ruler\<close>

lemma time_clip_of_int [simp]: "time_clip (of_int n) = n"
  by (simp add: time_clip_def)

lemma windowMs_in: "z < length ZOOM_LEVELS \<Longrightarrow> windowMs z \<in> set (map fst ZOOM_LEVELS)"
  unfolding windowMs_def set_map by (intro imageI nth_mem)

lemma window_positive: "z < length ZOOM_LEVELS \<Longrightarrow> 0 < windowMs z"
  using windowMs_in [of z] by (auto simp: ZOOM_LEVELS_def)

lemma window_even: "z < length ZOOM_LEVELS \<Longrightarrow> even (windowMs z)"
  using windowMs_in [of z] by (auto simp: ZOOM_LEVELS_def)

lemma window_bounds:
  assumes "even win"
  shows "startTime cur win = cur - win div 2" "endTime cur win = startTime cur win + win"
proof -
  obtain h where h: "win = 2 * h" using assms by (rule evenE)
  have "(of_int cur - of_int win / 2 :: number) = of_int (cur - h)"
    "(of_int cur + of_int win / 2 :: number) = of_int (cur + h)"
    by (simp_all add: h)
  then show "startTime cur win = cur - win div 2" "endTime cur win = startTime cur win + win"
    unfolding startTime_def endTime_def by (simp_all only: time_clip_of_int)
qed

text \<open>The multiples of an interval inside the window, in increasing order.\<close>

definition ruler_times :: "ms \<Rightarrow> ms \<Rightarrow> ms \<Rightarrow> ms list" where
  "ruler_times winStart win minor =
     map (\<lambda>k. k * minor) [\<lceil>of_int winStart / of_int minor :: number\<rceil>..(winStart + win) div minor]"

lemma ceiling_mult_le_iff:
  assumes "0 < m"
  shows "\<lceil>of_int a / of_int m :: number\<rceil> \<le> k \<longleftrightarrow> a \<le> k * m"
proof -
  have "\<lceil>of_int a / of_int m :: number\<rceil> \<le> k \<longleftrightarrow> (of_int a :: number) \<le> of_int (k * m)"
    using assms by (simp add: ceiling_le_iff divide_le_eq)
  then show ?thesis by (simp only: of_int_le_iff)
qed

lemma le_div_mult_iff:
  assumes "0 < m"
  shows "k \<le> b div m \<longleftrightarrow> k * m \<le> (b :: int)"
proof -
  have "k \<le> b div m \<longleftrightarrow> (of_int (k * m) :: number) \<le> of_int b"
    using assms
    by (simp add: floor_divide_of_int_eq [symmetric, where 'a = rat] le_floor_iff le_divide_eq)
  then show ?thesis by (simp only: of_int_le_iff)
qed

lemma set_ruler_times:
  assumes "0 < m"
  shows "set (ruler_times ws win m) = {t. ws \<le> t \<and> t \<le> ws + win \<and> m dvd t}"
  using assms by (auto simp: ruler_times_def ceiling_mult_le_iff le_div_mult_iff mult.commute elim!: dvdE)

lemma distinct_ruler_times: "0 < m \<Longrightarrow> distinct (ruler_times ws win m)"
  by (simp add: ruler_times_def distinct_map inj_on_def)

lemma sorted_ruler_times: "0 < m \<Longrightarrow> sorted (ruler_times ws win m)"
  by (auto simp: ruler_times_def sorted_map intro: sorted_wrt_mono_rel [OF _ sorted_upto])

lemma length_ruler_times:
  assumes "0 < m" "0 \<le> win"
  shows "nat (win div m) \<le> length (ruler_times ws win m)"
    and "length (ruler_times ws win m) \<le> nat (win div m) + 1"
proof -
  let ?c = "\<lceil>of_int ws / of_int m :: number\<rceil>"
  have c: "?c \<le> k \<longleftrightarrow> ws \<le> k * m" for k by (rule ceiling_mult_le_iff [OF assms(1)])
  have d: "k \<le> b div m \<longleftrightarrow> k * m \<le> b" for k b by (rule le_div_mult_iff [OF assms(1)])
  have w: "win div m * m \<le> win" using d [of "win div m" win] by simp
  have lo: "?c + win div m - 1 \<le> (ws + win) div m"
  proof -
    have "(?c - 1) * m < ws" using c [of "?c - 1"] by simp
    with w have "(?c + win div m - 1) * m \<le> ws + win" by (simp add: algebra_simps)
    then show ?thesis by (simp only: d)
  qed
  have hi: "(ws + win) div m \<le> ?c + win div m"
  proof -
    have "ws \<le> ?c * m" using c [of ?c] by simp
    moreover have "(ws + win) div m * m \<le> ws + win" using d [of "(ws + win) div m" "ws + win"] by simp
    ultimately have "((ws + win) div m - ?c) * m \<le> win" by (simp add: algebra_simps)
    then have "(ws + win) div m - ?c \<le> win div m" by (simp only: d)
    then show ?thesis by simp
  qed
  have len: "length (ruler_times ws win m) = nat ((ws + win) div m - ?c + 1)"
    by (simp add: ruler_times_def)
  have "0 \<le> win div m" using assms by (simp add: pos_imp_zdiv_nonneg_iff)
  with lo hi show "nat (win div m) \<le> length (ruler_times ws win m)"
    and "length (ruler_times ws win m) \<le> nat (win div m) + 1"
    unfolding len by linarith+
qed

lemma tick_pos_inside:
  assumes "0 < win" "ws \<le> t" "t \<le> ws + win"
  shows "0 \<le> tick_pos (tick_at fmt ws win maj t)" "tick_pos (tick_at fmt ws win maj t) \<le> 100"
proof -
  have "(0 :: number) \<le> of_int (t - ws)" "(of_int (t - ws) :: number) \<le> of_int win"
    using assms by simp_all
  then show "0 \<le> tick_pos (tick_at fmt ws win maj t)" "tick_pos (tick_at fmt ws win maj t) \<le> 100"
    using assms(1) by (simp_all add: tick_at_def divide_le_eq mult_le_cancel_right)
qed

lemma tick_loop_upto:
  assumes "0 < win" "0 < minor" "ws \<le> k * minor"
    and "nat ((ws + win) div minor - k + 1) + n \<le> maxTicks"
  shows "tick_loop fmt ws win (maj, minor) (k * minor) n =
           map (\<lambda>k. tick_at fmt ws win maj (k * minor)) [k..(ws + win) div minor]"
  using assms(3,4)
proof (induction "nat ((ws + win) div minor - k + 1)" arbitrary: k n)
  case 0
  then have k: "\<not> k \<le> (ws + win) div minor" by simp
  then have "\<not> k * minor \<le> ws + win" using le_div_mult_iff [OF assms(2), of k "ws + win"] by blast
  with k show ?case by (simp add: tick_loop.simps)
next
  case (Suc d)
  then have k: "k \<le> (ws + win) div minor" by linarith
  have in_win: "k * minor \<le> ws + win" using k le_div_mult_iff [OF assms(2)] by simp
  have eq: "k * minor + minor = (k + 1) * minor" by (simp add: algebra_simps)
  have IH: "tick_loop fmt ws win (maj, minor) ((k + 1) * minor) (n + 1) =
      map (\<lambda>k. tick_at fmt ws win maj (k * minor)) [k + 1..(ws + win) div minor]"
  proof (rule Suc.hyps(1))
    show "d = nat ((ws + win) div minor - (k + 1) + 1)" using Suc.hyps(2) by linarith
    show "ws \<le> (k + 1) * minor" using Suc.prems(1) assms(2) by (simp add: algebra_simps)
    show "nat ((ws + win) div minor - (k + 1) + 1) + (n + 1) \<le> maxTicks"
      using Suc.prems(2) Suc.hyps(2) by linarith
  qed
  have "n < maxTicks" using Suc.prems(2) Suc.hyps(2) by linarith
  then show ?case
    using in_win tick_pos_inside [OF assms(1) Suc.prems(1) in_win, of fmt maj] k
    by (subst tick_loop.simps) (simp add: Let_def eq IH [simplified] not_less upto.simps [of k])
qed


lemma chosen_step_table:
  assumes "z < length ZOOM_LEVELS"
  defines "s \<equiv> chosen_step (windowMs z)"
  shows "0 < snd s" "0 < fst s" "snd s dvd fst s"
    "windowMs z div snd s \<le> 30" "3 \<le> windowMs z div fst s" "windowMs z div fst s \<le> 6"
proof -
  have "windowMs z \<in> set (map fst ZOOM_LEVELS)" using assms(1) by (rule windowMs_in)
  then have "0 < snd s \<and> 0 < fst s \<and> snd s dvd fst s \<and> windowMs z div snd s \<le> 30 \<and>
      3 \<le> windowMs z div fst s \<and> windowMs z div fst s \<le> 6"
    unfolding s_def by (auto simp: ZOOM_LEVELS_def chosen_step_def STEPS_def)
  then show "0 < snd s" "0 < fst s" "snd s dvd fst s"
    "windowMs z div snd s \<le> 30" "3 \<le> windowMs z div fst s" "windowMs z div fst s \<le> 6"
    by blast+
qed


lemma ticks_upto:
  assumes "z < length ZOOM_LEVELS"
  shows "ticks fmt cur (windowMs z) =
           map (tick_at fmt (startTime cur (windowMs z)) (windowMs z) (fst (chosen_step (windowMs z))))
             (ruler_times (startTime cur (windowMs z)) (windowMs z) (snd (chosen_step (windowMs z))))"
proof -
  let ?win = "windowMs z" let ?ws = "startTime cur ?win"
  let ?minor = "snd (chosen_step ?win)"
  let ?c = "\<lceil>of_int ?ws / of_int ?minor :: number\<rceil>"
  note tab = chosen_step_table [OF assms]
  have pos: "0 < ?win" by (rule window_positive [OF assms])
  have "ruler_times ?ws ?win ?minor = map (\<lambda>k. k * ?minor) [?c..(?ws + ?win) div ?minor]"
    by (simp add: ruler_times_def)
  then have "nat ((?ws + ?win) div ?minor - ?c + 1) = length (ruler_times ?ws ?win ?minor)" by simp
  also have "\<dots> \<le> nat (?win div ?minor) + 1"
    using length_ruler_times(2) [OF tab(1), of ?win ?ws] pos by simp
  also have "\<dots> \<le> 31" using tab(4) by linarith
  finally have "nat ((?ws + ?win) div ?minor - ?c + 1) + 0 \<le> maxTicks" by (simp add: maxTicks_def)
  moreover have "?ws \<le> ?c * ?minor" using ceiling_mult_le_iff [OF tab(1), of ?ws ?c] by simp
  ultimately have "tick_loop fmt ?ws ?win (fst (chosen_step ?win), ?minor) (?c * ?minor) 0 =
      map (\<lambda>k. tick_at fmt ?ws ?win (fst (chosen_step ?win)) (k * ?minor)) [?c..(?ws + ?win) div ?minor]"
    by (intro tick_loop_upto [OF pos tab(1)])
  then show ?thesis by (simp add: ticks_def ruler_times_def Let_def comp_def)
qed

lemma length_filter_dvd_ruler:
  assumes "0 < m" "m dvd M" "0 < M"
  shows "length (filter (\<lambda>t. M dvd t) (ruler_times ws win m)) = length (ruler_times ws win M)"
proof -
  have "set (filter (\<lambda>t. M dvd t) (ruler_times ws win m)) = set (ruler_times ws win M)"
    using dvd_trans [OF assms(2)] by (auto simp: set_ruler_times assms)
  then show ?thesis
    by (metis assms(1,3) distinct_card distinct_filter distinct_ruler_times)
qed

lemma mod_eq_dvd: "(t :: int) mod M = 0 \<longleftrightarrow> M dvd t"
  by (simp add: dvd_eq_mod_eq_0)

text \<open>C19: At every zoom level and for every current time the ruler's loop stops because it has
  left the window, never because of its guard of 400 rounds: the ticks are exactly the
  multiples of the minor interval inside the window, in order, at most 31 of them, and
  between 3 and 7 of them are major ticks.\<close>

theorem ruler_complete:
  assumes "z < length ZOOM_LEVELS"
  defines "win \<equiv> windowMs z" and "maj \<equiv> fst (chosen_step (windowMs z))"
    and "minor \<equiv> snd (chosen_step (windowMs z))"
  shows "ticks fmt cur win = map (tick_at fmt (startTime cur win) win maj) (ruler_times (startTime cur win) win minor)
    \<and> set (ruler_times (startTime cur win) win minor) = {t. startTime cur win \<le> t \<and> t \<le> endTime cur win \<and> minor dvd t}
    \<and> sorted (ruler_times (startTime cur win) win minor)
    \<and> distinct (ruler_times (startTime cur win) win minor)
    \<and> length (ticks fmt cur win) \<le> 31
    \<and> length (filter major (ticks fmt cur win)) \<in> {3..7}"
proof (intro conjI)
  let ?ws = "startTime cur win"
  note tab = chosen_step_table [OF assms(1), folded win_def maj_def minor_def]
  have pos: "0 < win" unfolding win_def by (rule window_positive [OF assms(1)])
  show eq: "ticks fmt cur win = map (tick_at fmt ?ws win maj) (ruler_times ?ws win minor)"
    unfolding win_def maj_def minor_def by (rule ticks_upto [OF assms(1)])
  show "set (ruler_times ?ws win minor) = {t. ?ws \<le> t \<and> t \<le> endTime cur win \<and> minor dvd t}"
    using window_even [OF assms(1)] by (simp add: set_ruler_times [OF tab(1)] window_bounds(2) win_def)
  show "sorted (ruler_times ?ws win minor)" by (rule sorted_ruler_times [OF tab(1)])
  show "distinct (ruler_times ?ws win minor)" by (rule distinct_ruler_times [OF tab(1)])
  show "length (ticks fmt cur win) \<le> 31"
    using length_ruler_times(2) [OF tab(1), of win ?ws] pos tab(4) unfolding eq by simp
  have "length (filter major (ticks fmt cur win)) = length (filter (\<lambda>t. maj dvd t) (ruler_times ?ws win minor))"
    by (simp add: eq filter_map comp_def tick_at_def mod_eq_dvd)
  also have "\<dots> = length (ruler_times ?ws win maj)"
    by (rule length_filter_dvd_ruler [OF tab(1,3,2)])
  finally show "length (filter major (ticks fmt cur win)) \<in> {3..7}"
    using length_ruler_times [OF tab(2), of win ?ws] pos tab(5,6) by simp linarith
qed

theorem ruler_complete_witness:
  "length (ticks (\<lambda>_ _. ''12:00'') 1700000000000 (windowMs 7)) \<le> 31"
proof -
  have "(7 :: nat) < length ZOOM_LEVELS" by (simp add: ZOOM_LEVELS_def)
  from ruler_complete [OF this, of "\<lambda>_ _. ''12:00''" 1700000000000] show ?thesis by blast
qed

text \<open>The wheel and the buttons keep the zoom index inside the table.\<close>

lemma zoom_stays_in_table:
  assumes "z < length ZOOM_LEVELS"
  shows "track_wheel d z < length ZOOM_LEVELS"
  using assms by (auto simp: track_wheel_def zoomIn_def zoomOut_def)

interpretation zoom: machine track_wheel "\<lambda>z. z = DEFAULT_ZOOM_INDEX" "\<lambda>z. z < length ZOOM_LEVELS"
  by unfold_locales (auto simp: DEFAULT_ZOOM_INDEX_def ZOOM_LEVELS_def intro: zoom_stays_in_table [unfolded ZOOM_LEVELS_def, simplified])

section \<open>Coverage and markers\<close>

definition valid_span :: "SegmentCoverage \<Rightarrow> bool" where
  "valid_span seg = (case (start_time seg, end_time seg) of (Some s, Some e) \<Rightarrow> s < e | _ \<Rightarrow> False)"

definition records_at :: "ms \<Rightarrow> SegmentCoverage \<Rightarrow> bool" where
  "records_at t seg = (case (start_time seg, end_time seg) of (Some s, Some e) \<Rightarrow> s \<le> t \<and> t \<le> e | _ \<Rightarrow> False)"

definition drawn_at :: "number \<Rightarrow> CoverageBar \<Rightarrow> bool" where
  "drawn_at p bar = (case (left bar, width bar) of (Some l, Some w) \<Rightarrow> l \<le> p \<and> p \<le> l + w | _ \<Rightarrow> False)"

definition bar_inside :: "CoverageBar \<Rightarrow> bool" where
  "bar_inside bar = (case (left bar, width bar) of (Some l, Some w) \<Rightarrow> 0 \<le> l \<and> 0 < w \<and> l + w \<le> 100 | _ \<Rightarrow> False)"

definition percent_of :: "ms \<Rightarrow> ms \<Rightarrow> ms \<Rightarrow> number" where
  "percent_of winStart win t = of_int (t - winStart) / of_int win * 100"

lemma percent_le_iff: "0 < win \<Longrightarrow> percent_of ws win s \<le> percent_of ws win t \<longleftrightarrow> s \<le> t"
  by (simp add: percent_of_def divide_le_cancel)

lemma coverage_bar_valid:
  assumes "start_time seg = Some s" "end_time seg = Some e" "0 < win"
  shows "coverage_bar ws (ws + win) win seg =
    (if min e (ws + win) \<le> max s ws then None
     else Some \<lparr> left = Some (percent_of ws win (max s ws)),
                 width = Some (percent_of ws win (min e (ws + win)) - percent_of ws win (max s ws)),
                 hasAudio = has_audio seg \<rparr>)"
  using assms by (simp add: coverage_bar_def percent_of_def Let_def algebra_simps diff_divide_distrib)

lemma percent_window: "0 < win \<Longrightarrow> percent_of ws win (ws + win) = 100" "0 < win \<Longrightarrow> percent_of ws win ws = 0"
  by (simp_all add: percent_of_def)

lemma coverage_bar_inside:
  assumes "valid_span seg" "0 < win" "coverage_bar ws (ws + win) win seg = Some bar"
  shows "bar_inside bar"
proof -
  from assms(1) obtain s e where se: "start_time seg = Some s" "end_time seg = Some e" "s < e"
    by (auto simp: valid_span_def split: option.splits)
  have le: "percent_of ws win a \<le> percent_of ws win b \<longleftrightarrow> a \<le> b" for a b
    by (rule percent_le_iff [OF assms(2)])
  have "max s ws < min e (ws + win)"
    and bar: "left bar = Some (percent_of ws win (max s ws))"
      "width bar = Some (percent_of ws win (min e (ws + win)) - percent_of ws win (max s ws))"
    using assms(3) coverage_bar_valid [OF se(1,2) assms(2), of ws] by (auto split: if_splits)
  then have "percent_of ws win (max s ws) < percent_of ws win (min e (ws + win))"
    "percent_of ws win ws \<le> percent_of ws win (max s ws)"
    "percent_of ws win (min e (ws + win)) \<le> percent_of ws win (ws + win)"
    by (simp_all only: le not_le [symmetric]) simp_all
  then show ?thesis
    by (simp add: bar_inside_def bar percent_window [OF assms(2)])
qed

lemma coverage_bar_drawn:
  assumes "valid_span seg" "0 < win" "ws < t" "t < ws + win"
  shows "(\<exists>bar. coverage_bar ws (ws + win) win seg = Some bar \<and> drawn_at (percent_of ws win t) bar) \<longleftrightarrow> records_at t seg"
proof -
  from assms(1) obtain s e where se: "start_time seg = Some s" "end_time seg = Some e" "s < e"
    by (auto simp: valid_span_def split: option.splits)
  have le: "percent_of ws win a \<le> percent_of ws win b \<longleftrightarrow> a \<le> b" for a b
    by (rule percent_le_iff [OF assms(2)])
  show ?thesis
    unfolding coverage_bar_valid [OF se(1,2) assms(2)]
    using assms(3,4) se(3) by (auto simp: drawn_at_def records_at_def se(1,2) le)
qed


text \<open>C20: For recorded spans of positive length, every coverage bar lies inside the track, and a
  moment strictly inside the window is drawn as covered exactly when some span records it.\<close>

theorem coverage_drawn_iff_recorded:
  assumes "z < length ZOOM_LEVELS" "\<forall>seg \<in> set spans. valid_span seg"
  defines "win \<equiv> windowMs z"
  shows "(\<forall>bar \<in> set (coverageBars cur win spans). bar_inside bar)
    \<and> (\<forall>t. startTime cur win < t \<and> t < endTime cur win \<longrightarrow>
         ((\<exists>bar \<in> set (coverageBars cur win spans). drawn_at (percent_of (startTime cur win) win t) bar)
          \<longleftrightarrow> (\<exists>seg \<in> set spans. records_at t seg)))"
proof -
  have pos: "0 < win" unfolding win_def by (rule window_positive [OF assms(1)])
  have end_eq: "endTime cur win = startTime cur win + win"
    unfolding win_def by (rule window_bounds(2) [OF window_even [OF assms(1)]])
  have bars: "set (coverageBars cur win spans) =
      {bar. \<exists>seg \<in> set spans. coverage_bar (startTime cur win) (startTime cur win + win) win seg = Some bar}"
    by (force simp: coverageBars_def end_eq map_filter_def)
  show ?thesis
    unfolding bars end_eq using coverage_bar_inside [OF _ pos] coverage_bar_drawn [OF _ pos] assms(2) by blast
qed

theorem coverage_drawn_iff_recorded_witness:
  "(\<exists>bar \<in> set (coverageBars 1000000 (windowMs 2) [\<lparr> start_time = Some 900000, end_time = Some 1000000, has_audio = True \<rparr>]).
     drawn_at (percent_of (startTime 1000000 (windowMs 2)) (windowMs 2) 990000) bar)"
proof -
  let ?seg = "\<lparr> start_time = Some 900000, end_time = Some 1000000, has_audio = True \<rparr>"
  have "(2 :: nat) < length ZOOM_LEVELS" "\<forall>seg \<in> set [?seg]. valid_span seg" "records_at 990000 ?seg"
    by (simp_all add: ZOOM_LEVELS_def valid_span_def records_at_def)
  moreover have "startTime 1000000 (windowMs 2) < 990000" "990000 < endTime 1000000 (windowMs 2)"
    by (simp_all add: windowMs_def ZOOM_LEVELS_def window_bounds)
  ultimately show ?thesis
    using coverage_drawn_iff_recorded [of 2 "[?seg]" 1000000] by fastforce
qed

lemma js_sort_desc_hd:
  fixes f :: "'a \<Rightarrow> number"
  assumes "x \<in> set xs" "js_sort (\<lambda>a b. f b < f a) xs = y # ys"
  shows "f x \<le> f y"
proof -
  have "js_sort (\<lambda>a b. f b < f a) xs = sort_key (\<lambda>a. - f a) xs"
    using js_sort_eq_sort_key [of "\<lambda>a. - f a" xs] by simp
  then have "sorted (map (\<lambda>a. - f a) (y # ys))" using assms(2) by (metis sorted_sort_key)
  moreover have "x \<in> set (y # ys)" using assms by (metis set_js_sort)
  ultimately show ?thesis by auto
qed

lemma max_total_ge: "b \<in> set bs \<Longrightarrow> total b \<le> max_total bs" "1 \<le> max_total bs"
  by (induction bs) (auto simp: max_total_def)

text \<open>Every marker is inside the track and has a height between 8 and 18 pixels; its count is
  that of the enabled event types of its bucket and its colour the most frequent of them.\<close>

theorem markers_faithful:
  assumes "mk \<in> set (markers filters cur win buckets)"
  obtains b where "b \<in> set buckets" "bucketMs mk = bucket_time b"
    "0 \<le> pos mk" "pos mk \<le> 100" "8 \<le> height mk" "height mk \<le> 18"
    "0 < mcount mk" "mcount mk = sum_list (map snd (activeCounts filters b))"
    "mset (mcounts mk) = mset (activeCounts filters b)"
    "\<forall>(type, n) \<in> set (activeCounts filters b). n \<le> snd (hd (mcounts mk))"
proof -
  from assms obtain b where b: "b \<in> set buckets"
    and mk: "mk = marker_of filters (startTime cur win) win (max_total buckets) b"
    and shown: "0 \<le> pos mk" "pos mk \<le> 100" "0 < mcount mk"
    by (auto simp: markers_def)
  have nonempty: "activeCounts filters b \<noteq> []"
    using shown(3) by (auto simp: mk marker_of_def Let_def)
  have "total b / max_total buckets \<le> 1"
    using max_total_ge(1) [OF b] max_total_ge(2) [of buckets] by (simp add: divide_le_eq)
  then have "total b / max_total buckets * 18 \<le> 1 * 18" by (rule mult_right_mono) simp
  then have h: "8 \<le> height mk" "height mk \<le> 18"
    by (simp_all add: mk marker_of_def Let_def)
  have top: "\<forall>(type, n) \<in> set (activeCounts filters b). n \<le> snd (hd (mcounts mk))"
  proof -
    obtain y ys where y: "mcounts mk = y # ys"
      using nonempty by (cases "mcounts mk") (auto simp: mk marker_of_def Let_def dest: arg_cong [of _ _ length])
    then show ?thesis
      using js_sort_desc_hd [of _ "activeCounts filters b" snd y ys] by (auto simp: mk marker_of_def Let_def)
  qed
  show thesis
    by (rule that [OF b _ shown(1,2) h shown(3) _ _ top]) (simp_all add: mk marker_of_def Let_def)
qed

section \<open>Transport\<close>

lemma next_event_loop_Some:
  "next_event_loop now es n = Some t \<Longrightarrow>
     \<exists>i<n. es ! i = Some t \<and> now + 1000 < t \<and> (\<forall>j. i < j \<and> j < n \<longrightarrow> \<not> time_after (now + 1000) (es ! j))"
proof (induction n)
  case (Suc n)
  show ?case
  proof (cases "time_after (now + 1000) (es ! n)")
    case True
    with Suc.prems show ?thesis by (intro exI [of _ n]) (auto simp: time_after_def)
  next
    case False
    with Suc obtain i where "i < n" "es ! i = Some t" "now + 1000 < t"
      "\<forall>j. i < j \<and> j < n \<longrightarrow> \<not> time_after (now + 1000) (es ! j)" by auto
    with False show ?thesis by (intro exI [of _ i]) (auto simp: less_Suc_eq)
  qed
qed simp

lemma next_event_loop_None:
  "next_event_loop now es n = None \<Longrightarrow> j < n \<Longrightarrow> \<not> time_after (now + 1000) (es ! j)"
  by (induction n) (auto simp: time_after_def less_Suc_eq split: option.splits if_splits)


definition newest_first :: "ms option list \<Rightarrow> bool" where
  "newest_first es = (\<forall>i j t u. i < j \<longrightarrow> j < length es \<longrightarrow> es ! i = Some t \<longrightarrow> es ! j = Some u \<longrightarrow> u \<le> t)"

lemma newest_firstD: "newest_first es \<Longrightarrow> i < j \<Longrightarrow> j < length es \<Longrightarrow> es ! i = Some t \<Longrightarrow> es ! j = Some u \<Longrightarrow> u \<le> t"
  by (auto simp: newest_first_def)

lemma find_first:
  "List.find P xs = Some x \<longleftrightarrow> (\<exists>i<length xs. P (xs ! i) \<and> x = xs ! i \<and> (\<forall>j<i. \<not> P (xs ! j)))"
  by (simp add: find_Some_iff)

definition nearest_before :: "ms option list \<Rightarrow> ms \<Rightarrow> ms \<Rightarrow> bool" where
  "nearest_before es b t \<longleftrightarrow> Some t \<in> set es \<and> t < b \<and> (\<forall>u. Some u \<in> set es \<and> u < b \<longrightarrow> u \<le> t)"

definition nearest_after :: "ms option list \<Rightarrow> ms \<Rightarrow> ms \<Rightarrow> bool" where
  "nearest_after es b t \<longleftrightarrow> Some t \<in> set es \<and> b < t \<and> (\<forall>u. Some u \<in> set es \<and> b < u \<longrightarrow> t \<le> u)"

lemma find_nearest_before:
  assumes "newest_first es" "List.find (time_before b) es = Some e"
  shows "\<exists>t. e = Some t \<and> nearest_before es b t"
proof -
  from assms(2) obtain i where i: "i < length es" "time_before b (es ! i)" "e = es ! i"
    "\<forall>j<i. \<not> time_before b (es ! j)" by (auto simp: find_first)
  then obtain t where t: "es ! i = Some t" "t < b" by (auto simp: time_before_def split: option.splits)
  have "u \<le> t" if "Some u \<in> set es" "u < b" for u
  proof -
    from that(1) obtain j where j: "j < length es" "es ! j = Some u" by (auto simp: in_set_conv_nth)
    with i(4) that(2) have "\<not> j < i" by (auto simp: time_before_def)
    with j t newest_firstD [OF assms(1), of i j t u] show ?thesis by (cases "i = j") auto
  qed
  moreover have "Some t \<in> set es" using i(1) t(1) by (metis nth_mem)
  ultimately show ?thesis using i(3) t by (auto simp: nearest_before_def)
qed

lemma loop_nearest_after:
  assumes "newest_first es" "next_event_loop cur es (length es) = Some t"
  shows "nearest_after es (cur + 1000) t"
proof -
  from next_event_loop_Some [OF assms(2)] obtain i where i: "i < length es" "es ! i = Some t" "cur + 1000 < t"
    "\<forall>j. i < j \<and> j < length es \<longrightarrow> \<not> time_after (cur + 1000) (es ! j)" by blast
  have "t \<le> u" if "Some u \<in> set es" "cur + 1000 < u" for u
  proof -
    from that(1) obtain j where j: "j < length es" "es ! j = Some u" by (auto simp: in_set_conv_nth)
    with i(4) that(2) have "\<not> i < j" by (auto simp: time_after_def)
    with j i newest_firstD [OF assms(1), of j i u t] show ?thesis by (cases "i = j") auto
  qed
  moreover have "Some t \<in> set es" using i(1,2) by (metis nth_mem)
  ultimately show ?thesis using i(3) by (simp add: nearest_after_def)
qed

lemma skipToPrevEvent_nearest:
  assumes "newest_first es" "nearest_before es (cur - 1000) t"
  shows "skipToPrevEvent cur es = [Seek t]"
proof (cases "List.find (time_before (cur - 1000)) es")
  case None
  then have "\<not> time_before (cur - 1000) (Some t)" using assms(2) by (simp add: find_None_iff2 nearest_before_def)
  then show ?thesis using assms(2) by (simp add: time_before_def nearest_before_def)
next
  case (Some e)
  then obtain u where "e = Some u" "nearest_before es (cur - 1000) u"
    using find_nearest_before [OF assms(1) Some] by blast
  moreover from this have "u = t" using assms(2) by (auto simp: nearest_before_def intro: antisym)
  ultimately show ?thesis using Some by (simp add: skipToPrevEvent_def)
qed

text \<open>With the events newest first, the previous-event button seeks to the latest event more
  than a second before the current time, and the next-event button to the earliest event
  more than a second after it. Without such an event they jump an hour; the forward jump
  goes live instead when it would reach the present.\<close>

theorem event_skips_nearest:
  assumes "newest_first es"
  shows "(if \<exists>u. Some u \<in> set es \<and> u < cur - 1000
          then \<exists>t. nearest_before es (cur - 1000) t \<and> skipToPrevEvent cur es = [Seek t]
          else skipToPrevEvent cur es = [Seek (cur - 60 * 60 * 1000)])
    \<and> (if \<exists>u. Some u \<in> set es \<and> cur + 1000 < u
       then \<exists>t. nearest_after es (cur + 1000) t \<and> skipToNextEvent now cur es = [Seek t]
       else skipToNextEvent now cur es =
              (if now \<le> cur + 60 * 60 * 1000 then [GoLive] else [Seek (cur + 60 * 60 * 1000)]))"
proof (rule conjI)
  show "if \<exists>u. Some u \<in> set es \<and> u < cur - 1000
          then \<exists>t. nearest_before es (cur - 1000) t \<and> skipToPrevEvent cur es = [Seek t]
          else skipToPrevEvent cur es = [Seek (cur - 60 * 60 * 1000)]"
  proof (cases "List.find (time_before (cur - 1000)) es")
    case None
    then have "\<forall>u. Some u \<in> set es \<longrightarrow> \<not> u < cur - 1000"
      by (force simp: find_None_iff2 time_before_def)
    with None show ?thesis by (auto simp: skipToPrevEvent_def jumpBack_def)
  next
    case (Some e)
    with find_nearest_before [OF assms Some] show ?thesis
      by (auto simp: skipToPrevEvent_def nearest_before_def)
  qed
  show "if \<exists>u. Some u \<in> set es \<and> cur + 1000 < u
       then \<exists>t. nearest_after es (cur + 1000) t \<and> skipToNextEvent now cur es = [Seek t]
       else skipToNextEvent now cur es =
              (if now \<le> cur + 60 * 60 * 1000 then [GoLive] else [Seek (cur + 60 * 60 * 1000)])"
  proof (cases "next_event_loop cur es (length es)")
    case None
    then have "\<forall>u. Some u \<in> set es \<longrightarrow> \<not> cur + 1000 < u"
      using next_event_loop_None [OF None] by (fastforce simp: in_set_conv_nth time_after_def)
    with None show ?thesis by (auto simp: skipToNextEvent_def jumpForward_def Let_def)
  next
    case (Some t)
    with loop_nearest_after [OF assms Some] show ?thesis
      by (auto simp: skipToNextEvent_def nearest_after_def)
  qed
qed

theorem event_skips_nearest_witness:
  "skipToPrevEvent 10000 [Some 20000, Some 12000, Some 9500, Some 5000, None, Some 1000] = [Seek 5000] \<and>
   newest_first [Some 20000, Some 12000, Some 9500, Some 5000]"
proof -
  let ?es = "[Some 20000, Some 12000, Some 9500, Some 5000, None, Some 1000] :: ms option list"
  have nf: "newest_first ?es" "newest_first [Some 20000, Some 12000, Some 9500, Some 5000]"
    by (auto simp: newest_first_def nth_Cons split: nat.splits)
  obtain t where "nearest_before ?es (10000 - 1000) t" "skipToPrevEvent 10000 ?es = [Seek t]"
    using event_skips_nearest [OF nf(1), of 10000 0] by (auto split: if_splits)
  then have "skipToPrevEvent 10000 ?es = [Seek 5000]" by (force simp: nearest_before_def)
  with nf(2) show ?thesis by simp
qed

lemma forward_stays_in_past:
  "0 < k \<Longrightarrow> jumpForward now cur k = [Seek t] \<Longrightarrow> cur < t \<and> t < now"
  "0 < k \<Longrightarrow> skipSeconds now cur k = [Seek t] \<Longrightarrow> cur < t \<and> t < now"
  by (auto simp: jumpForward_def skipSeconds_def Let_def split: if_splits)

section \<open>The jog drag\<close>

text \<open>A flush lands on the snap grid, at most half a step from the dragged distance.\<close>

lemma SNAP_MS_pos [simp]: "0 < SNAP_MS win" "SNAP_MS win \<noteq> 0"
  by (simp_all add: SNAP_MS_def)

lemma js_round_near: "\<bar>of_int (js_round x) - x\<bar> \<le> 1/2"
  unfolding js_round_def by linarith

lemma js_round_unique: "\<bar>x - of_int n\<bar> < 1/2 \<Longrightarrow> js_round x = n"
  unfolding js_round_def by (rule floor_unique) linarith+

lemma round_to_grid:
  fixes x s :: number
  assumes "0 < s"
  shows "\<bar>of_int (js_round (x / s)) * s - x\<bar> \<le> s / 2"
proof -
  have "\<bar>of_int (js_round (x / s)) * s - x\<bar> = \<bar>(of_int (js_round (x / s)) - x / s) * s\<bar>"
    using assms by (simp add: left_diff_distrib)
  also have "\<dots> = \<bar>of_int (js_round (x / s)) - x / s\<bar> * s" using assms by (simp add: abs_mult)
  also have "\<dots> \<le> 1/2 * s" using assms by (intro mult_right_mono [OF js_round_near]) simp
  finally show ?thesis by simp
qed

lemma round_near_grid:
  fixes d s :: number
  assumes "0 < s" "\<bar>d\<bar> < s / 2"
  shows "js_round ((s * of_int n + d) / s) = n"
proof (rule js_round_unique)
  have "(s * of_int n + d) / s - of_int n = d / s" using assms(1) by (simp add: add_divide_distrib)
  then show "\<bar>(s * of_int n + d) / s - of_int n\<bar> < 1/2"
    using assms by (simp add: abs_divide divide_less_eq)
qed

lemma panFromDelta_near:
  assumes "track v = Some rect" "panFromDelta v win d = [Seek t]"
  shows "SNAP_MS win dvd t"
    and "\<bar>of_int t - (of_int (view_time v) + d / rect_width rect * of_int win)\<bar> \<le> of_int (SNAP_MS win) / (2 :: number)"
proof -
  let ?s = "of_int (SNAP_MS win) :: number"
  let ?raw = "of_int (view_time v) + d / rect_width rect * of_int win"
  have t: "t = js_round (?raw / ?s) * SNAP_MS win" using assms by (simp add: panFromDelta_def Let_def)
  then show "SNAP_MS win dvd t" by simp
  show "\<bar>of_int t - ?raw\<bar> \<le> ?s / 2"
    unfolding t of_int_mult by (rule round_to_grid) simp
qed

lemma panFromDelta_stalls:
  assumes "track v = Some rect" "SNAP_MS win dvd view_time v"
    and "\<bar>d / rect_width rect * of_int win\<bar> < of_int (SNAP_MS win) / 2"
  shows "panFromDelta v win d = [Seek (view_time v)]"
proof -
  obtain n where n: "view_time v = SNAP_MS win * n" using assms(2) by (rule dvdE)
  have "js_round ((of_int (SNAP_MS win) * of_int n + d / rect_width rect * of_int win) / of_int (SNAP_MS win)) = n"
    by (rule round_near_grid [OF _ assms(3)]) simp
  then show ?thesis using assms(1) by (simp add: panFromDelta_def Let_def n mult.commute)
qed

end
