(* ===== verification/Recorder_Page.thy ===== *)
theory Recorder_Page
  imports Timeline Nvr_Api Platform_Api Json
begin

text \<open>
  The recorder page \<^verbatim>\<open>app/page.tsx\<close> (component \<^verbatim>\<open>HomeInner\<close>): its state, the event
  socket with its reconnection, the loading of cameras and of the timeline, the isolation
  of the peeked camera, and the handlers it gives to the timeline.

  Events and cameras are the JSON objects the page holds. \<open>date_ms\<close> is the time value
  \<^verbatim>\<open>new Date(s).getTime()\<close> of a string (\<open>None\<close> for \<^verbatim>\<open>NaN\<close>).
\<close>

section \<open>State\<close>

record RecorderPage =
  page :: string
  pageKey :: nat
  cameras :: "json list"
  selectedCamera :: "string option"
  isLive :: bool
  playbackTime :: ms
  events :: "json list"
  timelineBuckets :: "json list"
  eventPanelOpen :: bool
  exportOpen :: bool
  isolatedCamera :: "string option"
  filters :: "(string \<times> bool) list"
  peekCameraId :: "string option"
  previewIsolated :: "string option"
  storageConfigured :: json
  syncPlayback :: bool
  activeLayoutCameraIds :: "string list"
  scrubbing :: bool
  globalPaused :: bool
  playbackRate :: number

definition initial_page :: "ms \<Rightarrow> RecorderPage" where
  "initial_page now =
     \<lparr> page = ''live'', pageKey = 0, cameras = [], selectedCamera = None, isLive = True, playbackTime = now,
       events = [], timelineBuckets = [], eventPanelOpen = False, exportOpen = False, isolatedCamera = None,
       filters = [(''motion'', True), (''lpr'', True), (''object'', True), (''face'', True)],
       peekCameraId = None, previewIsolated = None, storageConfigured = JBool True, syncPlayback = True,
       activeLayoutCameraIds = [], scrubbing = False, globalPaused = False, playbackRate = 1 \<rparr>"

section \<open>Camera identifiers\<close>

definition hex_digit_ci :: "char \<Rightarrow> bool" where
  "hex_digit_ci c = (let n = (of_char c :: nat) in
     (48 \<le> n \<and> n \<le> 57) \<or> (97 \<le> n \<and> n \<le> 102) \<or> (65 \<le> n \<and> n \<le> 70))"

definition UUID_RE :: "string \<Rightarrow> bool" where
  "UUID_RE s = (let gs = split_at_char (CHR ''-'') s in
     map length gs = [8, 4, 4, 4, 12] \<and> (\<forall>g \<in> set gs. \<forall>c \<in> set g. hex_digit_ci c))"

definition isCameraUUID :: "string option \<Rightarrow> bool" where
  "isCameraUUID i = (truthy_str i \<and> UUID_RE (the i))"

section \<open>Navigation, storage, cameras\<close>

definition switchPage :: "string \<Rightarrow> RecorderPage \<Rightarrow> RecorderPage" where
  "switchPage p s = s\<lparr> page := p, pageKey := pageKey s + 1 \<rparr>"

definition soc_redirect :: "string option \<Rightarrow> string option" where
  "soc_redirect role = (if role = Some ''soc_operator'' then Some ''/operator'' else None)"

text \<open>The storage check: the decoded body of a successful answer, if any.\<close>

definition storage_checked :: "json option \<Rightarrow> RecorderPage \<Rightarrow> RecorderPage" where
  "storage_checked reply s =
     (case reply of
        Some data \<Rightarrow>
          if falsy data then s
          else s\<lparr> storageConfigured := (case json_field ''configured'' data of Some b \<Rightarrow> b | None \<Rightarrow> JNull) \<rparr>
      | None \<Rightarrow> s)"

text \<open>\<^verbatim>\<open>String(x)\<close> of an identifier: a string or an integer.\<close>

definition json_text :: "json option \<Rightarrow> string" where
  "json_text j =
     (case j of
        Some (JStr t) \<Rightarrow> t
      | Some (JNum n) \<Rightarrow> int_str \<lfloor>n\<rfloor>
      | Some JNull \<Rightarrow> ''null''
      | _ \<Rightarrow> ''undefined'')"

definition siteCamera :: "id \<Rightarrow> string \<Rightarrow> nat \<Rightarrow> json \<Rightarrow> json" where
  "siteCamera siteId now idx c =
     JObj [(''id'', JStr (json_text (json_field ''id'' c))),
       (''name'', (case json_field ''name'' c of
                     None \<Rightarrow> JStr (''Camera '' @ nat_str (idx + 1))
                   | Some JNull \<Rightarrow> JStr (''Camera '' @ nat_str (idx + 1))
                   | Some n \<Rightarrow> n)),
       (''onvif_address'', JStr ''''), (''username'', JStr ''''), (''rtsp_uri'', JStr ''''),
       (''sub_stream_uri'', JStr ''''), (''retention_days'', JNum 30), (''recording'', JBool True),
       (''recording_mode'', JStr ''continuous''), (''pre_buffer_sec'', JNum 5), (''post_buffer_sec'', JNum 10),
       (''recording_triggers'', JStr ''motion''), (''events_enabled'', JBool True), (''audio_enabled'', JBool False),
       (''camera_group'', JStr siteId), (''schedule'', JStr ''24/7''), (''privacy_mask'', JBool False),
       (''status'', JStr (if json_field ''status'' c = Some (JStr ''online'') then ''connected'' else ''disconnected'')),
       (''profile_token'', JStr ''''), (''has_ptz'', JBool False), (''manufacturer'', JStr ''IRONSight''),
       (''model'', JStr ''Virtual''), (''firmware'', JStr ''1.0''), (''created_at'', JStr now), (''updated_at'', JStr now)]"

definition camera_id :: "json \<Rightarrow> string" where
  "camera_id c = json_text (json_field ''id'' c)"

definition take_cameras :: "json list \<Rightarrow> RecorderPage \<Rightarrow> RecorderPage" where
  "take_cameras cs s =
     (let s1 = s\<lparr> cameras := cs \<rparr> in
      case cs of [] \<Rightarrow> s1
      | c # _ \<Rightarrow> s1\<lparr> selectedCamera := (if truthy_str (selectedCamera s) then selectedCamera s else Some (camera_id c)) \<rparr>)"

text \<open>An answer of the site endpoint that is no array makes \<^verbatim>\<open>map\<close> throw.\<close>

definition loadCameras :: "string option \<Rightarrow> string \<Rightarrow> RecorderPage \<Rightarrow> RecorderPage io" where
  "loadCameras siteIdParam now s =
     try_io
       (if truthy_str siteIdParam then
          bind_io (getSiteCameras (the siteIdParam)) (\<lambda>siteCams.
            case siteCams of
              Some (JArr cs) \<Rightarrow>
                return_io (take_cameras (map (\<lambda>(i, c). siteCamera (the siteIdParam) now i c) (enumerate 0 cs)) s)
            | _ \<Rightarrow> throw_io ''siteCams.map is not a function'')
        else
          bind_io listCameras (\<lambda>data.
            case data of
              JArr cs \<Rightarrow> return_io (take_cameras cs s)
            | _ \<Rightarrow> throw_io ''unreachable''))
       (return_io s)"

definition onlineCameras :: "RecorderPage \<Rightarrow> nat" where
  "onlineCameras s = length (filter (\<lambda>c. json_field ''status'' c = Some (JStr ''online'')) (cameras s))"

definition handleRenameCamera :: "id \<Rightarrow> string \<Rightarrow> RecorderPage \<Rightarrow> RecorderPage io" where
  "handleRenameCamera cameraId newName s =
     try_io
       (bind_io (updateCamera cameraId (JObj [(''name'', JStr newName)])) (\<lambda>_.
          return_io (s\<lparr> cameras := map (\<lambda>c. if json_field ''id'' c = Some (JStr cameraId)
                                            then JObj (obj_set (''name'', JStr newName) (spread c)) else c) (cameras s) \<rparr>)))
       (return_io s)"

section \<open>Peeking\<close>

text \<open>Setting \<^verbatim>\<open>peekCameraId\<close>: the effect runs when the value changes.\<close>

definition peek_effect :: "RecorderPage \<Rightarrow> RecorderPage" where
  "peek_effect s =
     (if truthy_str (peekCameraId s)
      then s\<lparr> previewIsolated := isolatedCamera s, isolatedCamera := peekCameraId s \<rparr>
      else s\<lparr> isolatedCamera := previewIsolated s, previewIsolated := None \<rparr>)"

definition setPeekCameraId :: "string option \<Rightarrow> RecorderPage \<Rightarrow> RecorderPage" where
  "setPeekCameraId p s = (if p = peekCameraId s then s else peek_effect (s\<lparr> peekCameraId := p \<rparr>))"

definition page_keydown :: "string \<Rightarrow> RecorderPage \<Rightarrow> RecorderPage" where
  "page_keydown key s = (if key = ''Escape'' \<and> truthy_str (peekCameraId s) then setPeekCameraId None s else s)"

section \<open>Timeline data\<close>

definition handleVisibleCamerasChange :: "string list \<Rightarrow> RecorderPage \<Rightarrow> RecorderPage" where
  "handleVisibleCamerasChange ids s =
     (let prev = activeLayoutCameraIds s in
      if length prev = length ids \<and> (\<forall>(a, b) \<in> set (zip prev ids). a = b) then s
      else s\<lparr> activeLayoutCameraIds := ids \<rparr>)"

definition activeFilters :: "RecorderPage \<Rightarrow> string list" where
  "activeFilters s = map fst (filter snd (filters s))"

definition timelineCameraIds :: "RecorderPage \<Rightarrow> string list" where
  "timelineCameraIds s =
     (let raw = (if truthy_str (isolatedCamera s) then [the (isolatedCamera s)] else activeLayoutCameraIds s)
      in filter (\<lambda>i. isCameraUUID (Some i)) raw)"

definition eventCamera :: "RecorderPage \<Rightarrow> string option" where
  "eventCamera s = (case List.find isCameraUUID [isolatedCamera s, selectedCamera s] of Some i \<Rightarrow> i | None \<Rightarrow> None)"

definition event_params :: "ms \<Rightarrow> RecorderPage \<Rightarrow> EventParams" where
  "event_params now s =
     (let en = (if isLive s then now else playbackTime s);
          st = en - 60 * 60 * 1000;
          eventsEnd = (if isLive s then en else en + 60 * 60 * 1000) in
      \<lparr> ep_start = toISOString st, ep_end = toISOString eventsEnd, ep_camera_id = eventCamera s,
        ep_camera_ids = None, ep_types = Some (join '','' (activeFilters s)), ep_search = None, ep_limit = Some 200 \<rparr>)"

definition fetch_timeline :: "ms \<Rightarrow> RecorderPage \<Rightarrow> (json \<times> json) io" where
  "fetch_timeline now s =
     (let en = (if isLive s then now else playbackTime s);
          st = en - 60 * 60 * 1000;
          ids = timelineCameraIds s in
      bind_io (getTimeline (toISOString st) (toISOString en) (if ids \<noteq> [] then Some ids else None) (Some 1)) (\<lambda>buckets.
      bind_io (queryEvents (event_params now s)) (\<lambda>eventData.
      return_io (buckets, eventData))))"

definition event_key :: "json \<Rightarrow> json option" where
  "event_key e = (case json_field ''id'' e of
     Some i \<Rightarrow> if falsy i then json_field ''event_time'' e else Some i
   | None \<Rightarrow> json_field ''event_time'' e)"

definition event_ms :: "(string \<Rightarrow> ms option) \<Rightarrow> json \<Rightarrow> ms option" where
  "event_ms date_ms e =
     (case json_field ''event_time'' e of
        Some (JStr t) \<Rightarrow> date_ms t
      | Some (JNum n) \<Rightarrow> Some (time_clip n)
      | Some JNull \<Rightarrow> Some 0
      | Some (JBool b) \<Rightarrow> Some (if b then 1 else 0)
      | _ \<Rightarrow> None)"

text \<open>The comparator \<^verbatim>\<open>time(b) - time(a)\<close> is negative when \<open>a\<close> is newer; with \<^verbatim>\<open>NaN\<close> it counts as 0.\<close>

definition newer :: "(string \<Rightarrow> ms option) \<Rightarrow> json \<Rightarrow> json \<Rightarrow> bool" where
  "newer date_ms a b = (case (event_ms date_ms a, event_ms date_ms b) of (Some x, Some y) \<Rightarrow> y < x | _ \<Rightarrow> False)"

definition merge_events :: "(string \<Rightarrow> ms option) \<Rightarrow> json list \<Rightarrow> json list \<Rightarrow> json list" where
  "merge_events date_ms prev eventData =
     take 200 (js_sort (newer date_ms) (map_values event_key (prev @ eventData)))"

definition json_items :: "json \<Rightarrow> json list" where
  "json_items j = (case j of JArr xs \<Rightarrow> xs | _ \<Rightarrow> [])"

text \<open>Both calls resolve to arrays (\<^verbatim>\<open>Array.isArray\<close> is checked inside them).\<close>

definition loadTimeline :: "(string \<Rightarrow> ms option) \<Rightarrow> ms \<Rightarrow> RecorderPage \<Rightarrow> RecorderPage io" where
  "loadTimeline date_ms now s =
     try_io
       (bind_io (fetch_timeline now s) (\<lambda>(buckets, eventData).
          return_io (s\<lparr> timelineBuckets := json_items buckets,
                        events := merge_events date_ms (events s) (json_items eventData) \<rparr>)))
       (return_io s)"

section \<open>Handlers of the transport bar\<close>

definition handleTimelineSeek :: "ms \<Rightarrow> RecorderPage \<Rightarrow> RecorderPage" where
  "handleTimelineSeek time s = s\<lparr> isLive := False, playbackTime := time \<rparr>"

text \<open>The rate is reset by the effect on \<^verbatim>\<open>isLive\<close>.\<close>

definition handleGoLive :: "ms \<Rightarrow> RecorderPage \<Rightarrow> RecorderPage" where
  "handleGoLive now s =
     (let s1 = s\<lparr> isLive := True, playbackTime := now \<rparr> in
      if isLive s then s1 else s1\<lparr> playbackRate := 1 \<rparr>)"

definition handleScrubStart :: "RecorderPage \<Rightarrow> RecorderPage" where
  "handleScrubStart s = s\<lparr> scrubbing := True \<rparr>"

definition handleScrubEnd :: "RecorderPage \<Rightarrow> RecorderPage" where
  "handleScrubEnd s = s\<lparr> scrubbing := False \<rparr>"

definition handleTogglePause :: "RecorderPage \<Rightarrow> RecorderPage" where
  "handleTogglePause s = s\<lparr> globalPaused := \<not> globalPaused s \<rparr>"

definition handleSetPlaybackRate :: "number \<Rightarrow> RecorderPage \<Rightarrow> RecorderPage" where
  "handleSetPlaybackRate r s = s\<lparr> playbackRate := r \<rparr>"

fun filter_toggle :: "string \<Rightarrow> (string \<times> bool) list \<Rightarrow> (string \<times> bool) list" where
  "filter_toggle k [] = [(k, True)]"
| "filter_toggle k (x # xs) = (if fst x = k then (k, \<not> snd x) # xs else x # filter_toggle k xs)"

definition toggleFilter :: "string \<Rightarrow> RecorderPage \<Rightarrow> RecorderPage" where
  "toggleFilter k s = s\<lparr> filters := filter_toggle k (filters s) \<rparr>"

definition onEventClick :: "ms \<Rightarrow> json \<Rightarrow> RecorderPage \<Rightarrow> RecorderPage" where
  "onEventClick time e s =
     (let s1 = handleTimelineSeek time s in
      case json_field ''camera_id'' e of
        Some c \<Rightarrow> if falsy c then s1 else s1\<lparr> selectedCamera := Some (json_text (Some c)) \<rparr>
      | None \<Rightarrow> s1)"

definition currentTime :: "ms \<Rightarrow> RecorderPage \<Rightarrow> ms" where
  "currentTime now s = (if isLive s then now else playbackTime s)"

text \<open>What the page does with a call of the timeline.\<close>

definition timeline_called :: "ms \<Rightarrow> timeline_call \<Rightarrow> RecorderPage \<Rightarrow> RecorderPage" where
  "timeline_called now c =
     (case c of
        Seek t \<Rightarrow> handleTimelineSeek t
      | GoLive \<Rightarrow> handleGoLive now
      | ScrubStart \<Rightarrow> handleScrubStart
      | ScrubEnd \<Rightarrow> handleScrubEnd)"

section \<open>The event socket\<close>

text \<open>
  The effect that keeps a WebSocket open: its local variables, and what the browser holds
  for it (ticket requests in flight, pending timers, sockets whose close event has not
  fired). \<open>es_opened\<close> lists the addresses of the sockets opened so far.
\<close>

record EventSocket =
  unmounted :: bool
  es_reconnectDelay :: ms
  es_reconnectTimer :: "nat option"
  es_wsRef :: "nat option"
  es_connected :: bool
  es_events :: "json list"
  es_tickets :: nat
  es_timers :: "nat list"
  es_nextTimer :: nat
  es_sockets :: "nat list"
  es_nextSocket :: nat
  es_opened :: "string list"

definition ws_base :: "string \<Rightarrow> string \<Rightarrow> string" where
  "ws_base protocol host = (if protocol = ''https:'' then ''wss:'' else ''ws:'') @ ''//'' @ host @ ''/ws''"

definition es_connect :: "EventSocket \<Rightarrow> EventSocket" where
  "es_connect s = (if unmounted s then s else s\<lparr> es_tickets := es_tickets s + 1 \<rparr>)"

definition mount_socket :: EventSocket where
  "mount_socket = es_connect
     \<lparr> unmounted = False, es_reconnectDelay = 3000, es_reconnectTimer = None, es_wsRef = None,
       es_connected = False, es_events = [], es_tickets = 0, es_timers = [], es_nextTimer = 0, es_sockets = [],
       es_nextSocket = 0, es_opened = [] \<rparr>"

definition open_event_socket :: "string \<Rightarrow> EventSocket \<Rightarrow> EventSocket" where
  "open_event_socket url s =
     s\<lparr> es_wsRef := Some (es_nextSocket s), es_sockets := es_sockets s @ [es_nextSocket s],
        es_nextSocket := es_nextSocket s + 1, es_opened := es_opened s @ [url] \<rparr>"

text \<open>\<^verbatim>\<open>{ ...obj, key: value }\<close> with a value that may be undefined.\<close>

definition with_field :: "string \<Rightarrow> json option \<Rightarrow> json \<Rightarrow> json" where
  "with_field k v obj =
     JObj (case v of Some x \<Rightarrow> obj_set (k, x) (spread obj) | None \<Rightarrow> filter (\<lambda>kv. fst kv \<noteq> k) (spread obj))"

definition nullish_field :: "string \<Rightarrow> string \<Rightarrow> json \<Rightarrow> json option" where
  "nullish_field k k' obj =
     (case json_field k obj of None \<Rightarrow> json_field k' obj | Some JNull \<Rightarrow> json_field k' obj | Some v \<Rightarrow> Some v)"

definition normalized :: "json \<Rightarrow> json" where
  "normalized data =
     with_field ''event_time'' (nullish_field ''event_time'' ''time'' data)
       (with_field ''event_type'' (nullish_field ''event_type'' ''event'' data) data)"

definition es_message :: "json option \<Rightarrow> json list \<Rightarrow> json list" where
  "es_message msg prev =
     (case msg of
        None \<Rightarrow> prev
      | Some data \<Rightarrow>
          if json_field ''type'' data = Some (JStr ''event'') then take 200 (normalized data # prev)
          else if json_field ''type'' data = Some (JStr ''event_thumbnail'') then
            map (\<lambda>e. if json_field ''id'' e = json_field ''event_id'' data
                     then with_field ''thumbnail'' (json_field ''thumbnail'' data) e else e) prev
          else prev)"

datatype socket_event =
    TicketOk string
  | TicketFailed
  | SocketOpened nat
  | SocketMessage nat "json option"
  | SocketClosed nat
  | TimerFired nat
  | Unmounted

definition socket_step :: "string \<Rightarrow> socket_event \<Rightarrow> EventSocket \<Rightarrow> EventSocket" where
  "socket_step baseUrl e s =
     (case e of
        TicketOk ticket \<Rightarrow>
          if es_tickets s = 0 then s
          else (let s1 = s\<lparr> es_tickets := es_tickets s - 1 \<rparr> in
                if \<not> unmounted s then open_event_socket (baseUrl @ ''?ticket='' @ encodeURIComponent ticket) s1 else s1)
      | TicketFailed \<Rightarrow>
          if es_tickets s = 0 then s
          else (let s1 = s\<lparr> es_tickets := es_tickets s - 1 \<rparr> in
                if \<not> unmounted s then open_event_socket baseUrl s1 else s1)
      | SocketOpened i \<Rightarrow>
          if i \<in> set (es_sockets s) then s\<lparr> es_connected := True, es_reconnectDelay := 3000 \<rparr> else s
      | SocketMessage i msg \<Rightarrow>
          if i \<in> set (es_sockets s) then s\<lparr> es_events := es_message msg (es_events s) \<rparr> else s
      | SocketClosed i \<Rightarrow>
          if i \<in> set (es_sockets s) then
            (let s1 = s\<lparr> es_sockets := removeAll i (es_sockets s), es_connected := False, es_wsRef := None \<rparr> in
             if \<not> unmounted s then
               s1\<lparr> es_reconnectTimer := Some (es_nextTimer s), es_timers := es_timers s @ [es_nextTimer s],
                   es_nextTimer := es_nextTimer s + 1 \<rparr>
             else s1)
          else s
      | TimerFired t \<Rightarrow>
          if t \<in> set (es_timers s) then
            es_connect (s\<lparr> es_timers := removeAll t (es_timers s),
                           es_reconnectDelay := min (es_reconnectDelay s * 2) 30000 \<rparr>)
          else s
      | Unmounted \<Rightarrow>
          s\<lparr> unmounted := True,
             es_timers := (case es_reconnectTimer s of Some t \<Rightarrow> removeAll t (es_timers s) | None \<Rightarrow> es_timers s) \<rparr>)"

definition socket_inv :: "EventSocket \<Rightarrow> bool" where
  "socket_inv s \<longleftrightarrow>
     es_tickets s + length (es_timers s) + length (es_sockets s) \<le> 1
     \<and> (\<not> unmounted s \<longrightarrow> es_tickets s + length (es_timers s) + length (es_sockets s) = 1)
     \<and> (unmounted s \<longrightarrow> es_timers s = [])
     \<and> set (es_timers s) \<subseteq> set_option (es_reconnectTimer s)
     \<and> set_option (es_wsRef s) = set (es_sockets s)
     \<and> (es_connected s \<longrightarrow> es_sockets s \<noteq> [])
     \<and> 3000 \<le> es_reconnectDelay s \<and> es_reconnectDelay s \<le> 30000
     \<and> length (es_events s) \<le> 200"

lemma length_es_message: "length prev \<le> 200 \<Longrightarrow> length (es_message msg prev) \<le> 200"
  by (auto simp: es_message_def split: option.splits)

lemma length_one_cases: "length xs \<le> 1 \<Longrightarrow> xs = [] \<or> (\<exists>x. xs = [x])"
  by (cases xs) auto

lemma socket_inv_step:
  assumes "socket_inv s"
  shows "socket_inv (socket_step url e s)"
proof -
  have "length (es_sockets s) \<le> 1" "length (es_timers s) \<le> 1" using assms by (auto simp: socket_inv_def)
  then have "es_sockets s = [] \<or> (\<exists>i. es_sockets s = [i])" "es_timers s = [] \<or> (\<exists>i. es_timers s = [i])"
    by (simp_all only: length_one_cases)
  with assms show ?thesis
    by (cases e)
       (auto simp: socket_inv_def socket_step_def open_event_socket_def es_connect_def Let_def length_es_message
             split: option.splits)
qed

lemma socket_inv_mount: "socket_inv mount_socket"
  by (simp add: socket_inv_def mount_socket_def es_connect_def)

interpretation socket: machine "socket_step url" "\<lambda>s. s = mount_socket" socket_inv for url
  by unfold_locales (simp_all add: socket_inv_step socket_inv_mount)

lemma unmounted_step:
  "unmounted s \<Longrightarrow> unmounted (socket_step url e s) \<and> es_opened (socket_step url e s) = es_opened s"
  by (cases e) (auto simp: socket_step_def es_connect_def Let_def)

lemma unmounted_run: "unmounted s \<Longrightarrow> es_opened (fold (socket_step url) es s) = es_opened s"
  by (induction es arbitrary: s) (simp_all add: unmounted_step)

text \<open>Until the page is left, the event socket is always doing exactly one thing: one ticket
  request, one reconnection timer or one socket, so it neither stalls nor opens two sockets,
  and its next retry is 3 to 30 seconds away. After the page is left no timer is pending and
  whatever callbacks still run, no socket is opened again. The feed holds at most 200 events.\<close>

theorem event_socket_alive:
  assumes "reach (socket_step url) (\<lambda>s. s = mount_socket) s"
  shows "(\<not> unmounted s \<longrightarrow> es_tickets s + length (es_timers s) + length (es_sockets s) = 1)
    \<and> 3000 \<le> es_reconnectDelay s \<and> es_reconnectDelay s \<le> 30000
    \<and> length (es_events s) \<le> 200
    \<and> (unmounted s \<longrightarrow> es_timers s = [] \<and> (\<forall>es. es_opened (fold (socket_step url) es s) = es_opened s))"
  using socket.inv_reach [OF assms] unmounted_run by (auto simp: socket_inv_def)

theorem event_socket_alive_witness:
  "es_opened (fold (socket_step ''wss://h/ws'') [TimerFired 0, TicketOk ''u''] 
      (fold (socket_step ''wss://h/ws'') [TicketOk ''t'', SocketClosed 0, Unmounted] mount_socket)) = [''wss://h/ws?ticket=t'']"
proof -
  let ?s = "fold (socket_step ''wss://h/ws'') [TicketOk ''t'', SocketClosed 0, Unmounted] mount_socket"
  have r: "reach (socket_step ''wss://h/ws'') (\<lambda>s. s = mount_socket) ?s"
    by (rule reach_fold) (simp add: reach_start)
  have s: "unmounted ?s" "es_opened ?s = [''wss://h/ws?ticket=t'']"
    by (simp_all add: socket_step_def mount_socket_def es_connect_def open_event_socket_def encodeURIComponent_def
        uri_unreserved_def is_alnum_def Let_def)
  show ?thesis
    by (rule trans [OF spec [OF conjunct2 [OF mp [OF conjunct2 [OF conjunct2 [OF conjunct2 [OF conjunct2
          [OF event_socket_alive [OF r]]]]] s(1)]]] s(2)])
qed

section \<open>Merging events\<close>

abbreviation valid_times :: "(string \<Rightarrow> ms option) \<Rightarrow> json list \<Rightarrow> bool" where
  "valid_times date_ms es \<equiv> \<forall>e \<in> set es. event_ms date_ms e \<noteq> None"

lemma newer_valid:
  "event_ms date_ms a \<noteq> None \<Longrightarrow> event_ms date_ms b \<noteq> None \<Longrightarrow>
     newer date_ms a b \<longleftrightarrow> - the (event_ms date_ms a) < - the (event_ms date_ms b)"
  by (auto simp: newer_def)

lemma merge_sorted:
  assumes "valid_times date_ms (prev @ new)"
  shows "merge_events date_ms prev new =
    take 200 (sort_key (\<lambda>e. - the (event_ms date_ms e)) (map_values event_key (prev @ new)))"
proof -
  let ?xs = "map_values event_key (prev @ new)"
  have "js_sort (newer date_ms) ?xs = js_sort (\<lambda>a b. - the (event_ms date_ms a) < - the (event_ms date_ms b)) ?xs"
    by (rule js_sort_cong)
       (meson assms map_values_props(1) newer_valid subsetD)
  then show ?thesis unfolding merge_events_def by (simp only: js_sort_eq_sort_key)
qed

lemma set_merge_events: "set (merge_events date_ms prev new) \<subseteq> set (prev @ new)"
  using set_take_subset map_values_props(1) [of event_key "prev @ new"] unfolding merge_events_def
  by (metis set_js_sort subset_trans)

lemma sorted_take_drop:
  assumes "sorted (map f xs)" "x \<in> set (take n xs)" "y \<in> set (drop n xs)"
  shows "f x \<le> f y"
proof -
  have "sorted (map f (take n xs) @ map f (drop n xs))" using assms(1) by (simp flip: map_append)
  with assms(2,3) show ?thesis by (simp only: sorted_append) auto
qed

lemma merge_newest_first:
  assumes "valid_times date_ms (prev @ new)"
  shows "newest_first (map (event_ms date_ms) (merge_events date_ms prev new))"
proof -
  let ?f = "\<lambda>e. - the (event_ms date_ms e)"
  let ?es = "merge_events date_ms prev new"
  have "sorted (map ?f ?es)"
    unfolding merge_sorted [OF assms] by (simp add: take_map [symmetric] sorted_wrt_take)
  then have "?f (?es ! i) \<le> ?f (?es ! j)" if "i < j" "j < length ?es" for i j
    using that sorted_nth_mono [of "map ?f ?es" i j] by simp
  then show ?thesis by (fastforce simp: newest_first_def)
qed

text \<open>Merging the queried events into the held ones keeps the newest 200 of all of them,
  newest first, one per identifier: what is left out is no newer than anything kept, and
  nothing is left out while there is room. The previous- and next-event buttons therefore
  seek to the nearest held event.\<close>

theorem merge_keeps_newest:
  assumes "valid_times date_ms (prev @ new)"
  defines "kept \<equiv> merge_events date_ms prev new"
  shows "newest_first (map (event_ms date_ms) kept)
    \<and> distinct (map event_key kept) \<and> set kept \<subseteq> set (prev @ new) \<and> length kept \<le> 200
    \<and> (\<forall>e \<in> set (map_values event_key (prev @ new)) - set kept.
         length kept = 200 \<and> (\<forall>k \<in> set kept. the (event_ms date_ms e) \<le> the (event_ms date_ms k)))
    \<and> (\<forall>cur t. nearest_before (map (event_ms date_ms) kept) (cur - 1000) t
         \<longrightarrow> skipToPrevEvent cur (map (event_ms date_ms) kept) = [Seek t])"
proof (intro conjI ballI allI impI)
  let ?f = "\<lambda>e. - the (event_ms date_ms e)"
  let ?all = "map_values event_key (prev @ new)"
  have kept: "kept = take 200 (sort_key ?f ?all)" unfolding kept_def by (rule merge_sorted [OF assms(1)])
  show nf: "newest_first (map (event_ms date_ms) kept)" unfolding kept_def by (rule merge_newest_first [OF assms(1)])
  have "distinct (map event_key (js_sort (newer date_ms) ?all))"
    by (simp add: distinct_map_js_sort map_values_props(3))
  then show "distinct (map event_key kept)"
    unfolding kept_def merge_events_def by (simp add: take_map [symmetric])
  show "set kept \<subseteq> set (prev @ new)" unfolding kept_def by (rule set_merge_events)
  show "length kept \<le> 200" by (simp add: kept)
  {
    fix e assume e: "e \<in> set ?all - set kept"
    then have dropped: "e \<in> set (drop 200 (sort_key ?f ?all))"
      by (metis DiffD1 DiffD2 UnE append_take_drop_id kept set_append set_sort)
    then show "length kept = 200" by (cases "200 \<le> length ?all") (simp_all add: kept)
    show "the (event_ms date_ms e) \<le> the (event_ms date_ms k)" if "k \<in> set kept" for k
      using sorted_take_drop [OF sorted_sort_key that [unfolded kept] dropped] by simp
  }
  show "skipToPrevEvent cur (map (event_ms date_ms) kept) = [Seek t]"
    if near: "nearest_before (map (event_ms date_ms) kept) (cur - 1000) t" for cur t
    by (rule skipToPrevEvent_nearest [OF nf near])
qed


theorem merge_keeps_newest_witness:
  "length (merge_events (\<lambda>s. Some (int (length s))) [JObj [(''id'', JStr ''a''), (''event_time'', JStr ''tt'')]]
      [JObj [(''id'', JStr ''b''), (''event_time'', JStr ''ttt'')]]) \<le> 200"
proof -
  let ?d = "\<lambda>s. Some (int (length s))"
  let ?p = "[JObj [(''id'', JStr ''a''), (''event_time'', JStr ''tt'')]]"
  let ?n = "[JObj [(''id'', JStr ''b''), (''event_time'', JStr ''ttt'')]]"
  have "valid_times ?d (?p @ ?n)" by (simp add: event_ms_def json_field_def)
  from merge_keeps_newest [OF this] show ?thesis by blast
qed

lemma sort_key_append_le:
  assumes "\<And>x y. x \<in> set xs \<Longrightarrow> y \<in> set ys \<Longrightarrow> f x \<le> f y"
  shows "sort_key f (xs @ ys) = sort_key f xs @ sort_key f ys"
proof (rule properties_for_sort_key)
  show "filter (\<lambda>x. f k = f x) (sort_key f xs @ sort_key f ys) = filter (\<lambda>x. f k = f x) (xs @ ys)" for k
    unfolding eq_commute [of "f k"] by (simp add: sort_key_stable)
qed (auto simp: sorted_append assms)

text \<open>Events of an older window are lost when the page already holds 200 newer ones.\<close>

lemma older_window_crowded_out:
  assumes "valid_times date_ms (prev @ new)" "length prev = 200" "distinct (map event_key prev)"
    and "event_key ` set prev \<inter> event_key ` set new = {}"
    and "\<forall>e \<in> set new. \<forall>p \<in> set prev. the (event_ms date_ms e) < the (event_ms date_ms p)"
  shows "set (merge_events date_ms prev new) = set prev"
proof -
  let ?f = "\<lambda>e. - the (event_ms date_ms e)"
  let ?new = "map_values event_key new"
  have sub: "set ?new \<subseteq> set new" by (rule map_values_props(1))
  have lt: "?f p \<le> ?f e" if "p \<in> set prev" "e \<in> set ?new" for p e
    using assms(5) sub that by (simp add: less_imp_le subset_eq)
  have "sort_key ?f (prev @ ?new) = sort_key ?f prev @ sort_key ?f ?new"
    by (rule sort_key_append_le [OF lt])
  then have "merge_events date_ms prev new = sort_key ?f prev"
    unfolding merge_sorted [OF assms(1)] map_values_fresh_append [OF assms(3,4)] by (simp add: assms(2))
  then show ?thesis by simp
qed

text \<open>The timeline query names only well-formed camera identifiers: those of the isolated
  camera, or else of the active layout. The event query made with it names the isolated
  camera or else the selected one, whatever the layout; with no event type enabled it
  names no type and so asks for all of them.\<close>

theorem timeline_scope:
  assumes "activeFilters s = []"
  shows "set (timelineCameraIds s) \<subseteq> {i. isCameraUUID (Some i)}
    \<and> set (timelineCameraIds s) \<subseteq>
        (if truthy_str (isolatedCamera s) then set_option (isolatedCamera s) else set (activeLayoutCameraIds s))
    \<and> ep_camera_id (event_params now s) =
        (if isCameraUUID (isolatedCamera s) then isolatedCamera s
         else if isCameraUUID (selectedCamera s) then selectedCamera s else None)
    \<and> ''types'' \<notin> fst ` set (queryEventsQuery (event_params now s))"
proof (intro conjI)
  show "set (timelineCameraIds s) \<subseteq> {i. isCameraUUID (Some i)}"
    by (auto simp: timelineCameraIds_def Let_def)
  show "set (timelineCameraIds s) \<subseteq>
        (if truthy_str (isolatedCamera s) then set_option (isolatedCamera s) else set (activeLayoutCameraIds s))"
    by (cases "isolatedCamera s") (auto simp: timelineCameraIds_def Let_def)
  show "ep_camera_id (event_params now s) =
        (if isCameraUUID (isolatedCamera s) then isolatedCamera s
         else if isCameraUUID (selectedCamera s) then selectedCamera s else None)"
    by (simp add: event_params_def eventCamera_def Let_def)
  show "''types'' \<notin> fst ` set (queryEventsQuery (event_params now s))"
    using assms by (cases "eventCamera s")
      (auto simp: queryEventsQuery_def event_params_def eventScope_def set_pos_def set_str_def params_set_if_def Let_def)
qed

theorem timeline_scope_witness:
  "activeFilters ((initial_page 0)\<lparr> filters := [] \<rparr>) = [] \<and>
   ''types'' \<notin> fst ` set (queryEventsQuery (event_params 0 ((initial_page 0)\<lparr> filters := [] \<rparr>)))"
proof -
  have "activeFilters ((initial_page 0)\<lparr> filters := [] \<rparr>) = []" by (simp add: activeFilters_def)
  with timeline_scope [OF this, of 0] show ?thesis by blast
qed

section \<open>The drag in the page\<close>

definition page_view :: "Rect option \<Rightarrow> nat \<Rightarrow> ms \<Rightarrow> RecorderPage \<Rightarrow> TimelineView" where
  "page_view rect z now p = \<lparr> track = rect, view_window = windowMs z, view_time = currentTime now p \<rparr>"

text \<open>One pointer event at time \<open>now\<close>; the state updates of its calls are rendered before the next.\<close>

definition drag_step :: "Rect option \<Rightarrow> nat \<Rightarrow> ms \<times> jog_event \<Rightarrow> Jog \<times> RecorderPage \<Rightarrow> Jog \<times> RecorderPage" where
  "drag_step rect z ev st =
     (case (ev, st) of ((now, e), (j, p)) \<Rightarrow>
        (let (j', cs) = jog_step (page_view rect z now p) e j in (j', fold (timeline_called now) cs p)))"

lemma timeline_called_scrubbing:
  "scrubbing (timeline_called now c p) = (case c of ScrubStart \<Rightarrow> True | ScrubEnd \<Rightarrow> False | _ \<Rightarrow> scrubbing p)"
  by (cases c) (simp_all add: timeline_called_def handleTimelineSeek_def handleGoLive_def
      handleScrubStart_def handleScrubEnd_def Let_def)

definition only_seeks :: "timeline_call list \<Rightarrow> bool" where
  "only_seeks cs = (\<forall>c \<in> set cs. \<exists>t. c = Seek t)"

lemma fold_only_seeks: "only_seeks cs \<Longrightarrow> scrubbing (fold (timeline_called now) cs p) = scrubbing p"
  by (induction cs arbitrary: p) (auto simp: only_seeks_def timeline_called_scrubbing)

lemma panFromDelta_only_seeks: "only_seeks (panFromDelta v win d)"
  by (auto simp: only_seeks_def panFromDelta_def Let_def split: option.splits)

lemma flushDelta_only_seeks: "only_seeks (snd (flushDelta v g))"
  using panFromDelta_only_seeks by (auto simp: flushDelta_def only_seeks_def)

lemma frame_only_seeks: "only_seeks (snd (animation_frame v s))"
proof -
  have "only_seeks (snd (frame_gesture v g))" for g
    using flushDelta_only_seeks [of v g] by (simp add: frame_gesture_def only_seeks_def split: prod.splits)
  then show ?thesis by (auto simp: animation_frame_def only_seeks_def)
qed

lemma click_only_seeks: "only_seeks (handleTrackClick v x s)"
  by (auto simp: only_seeks_def handleTrackClick_def Let_def split: option.splits)

lemma ended_scrubbing:
  "gs \<noteq> [] \<Longrightarrow> \<not> scrubbing (fold (timeline_called now) (concat (map (\<lambda>g. snd (flushDelta v g) @ [ScrubEnd]) gs)) p)"
  by (induction gs rule: rev_induct) (simp_all add: timeline_called_scrubbing)

definition drag_inv :: "Jog \<times> RecorderPage \<Rightarrow> bool" where
  "drag_inv st = (case st of (j, p) \<Rightarrow>
     isScrubbing j = isDragging j \<and> scrubbing p = isDragging j \<and> (isDragging j \<longrightarrow> gestures j \<noteq> []))"


lemma drag_inv_step:
  assumes "drag_inv (j, p)"
  shows "drag_inv (drag_step rect z (now, e) (j, p))"
proof (cases e)
  case (PointerMove k x)
  have "snd (move_gestures k x l gs) = [] \<longleftrightarrow> gs = []" for l gs
    by (cases gs) (auto split: prod.splits)
  with PointerMove assms show ?thesis
    by (auto simp: drag_inv_def drag_step_def jog_step_def pointer_move_def split: prod.splits)
       (metis snd_conv)
next
  case AnimationFrame
  with assms frame_only_seeks [of "page_view rect z now p" j] show ?thesis
    by (simp add: drag_inv_def drag_step_def jog_step_def animation_frame_def fold_only_seeks split: prod.splits)
next
  case (PointerUp k)
  with assms show ?thesis
    by (auto simp: drag_inv_def drag_step_def jog_step_def pointer_up_def Let_def ended_scrubbing)
next
  case (TrackClick x)
  with assms click_only_seeks show ?thesis
    by (simp add: drag_inv_def drag_step_def jog_step_def fold_only_seeks)
qed (use assms in \<open>auto simp: drag_inv_def drag_step_def jog_step_def pointer_down_def handleTrackMouseMove_def
      handleTrackMouseLeave_def Let_def timeline_called_scrubbing split: option.splits\<close>)

interpretation drag: machine "drag_step rect z" "\<lambda>(j, p). j = initial_jog \<and> \<not> scrubbing p" drag_inv for rect z
proof
  show "drag_inv st" if "case st of (j, p) \<Rightarrow> j = initial_jog \<and> \<not> scrubbing p" for st
    using that by (auto simp: drag_inv_def initial_jog_def)
  show "drag_inv (drag_step rect z ev st)" if "drag_inv st" for st ev
    using that drag_inv_step by (cases ev, cases st) simp
qed

text \<open>Whatever pointer, touch and frame events arrive, the page believes the operator is
  scrubbing exactly while the timeline does, and neither does once every pointer is up.\<close>

theorem scrubbing_ends:
  assumes "reach (drag_step rect z) (\<lambda>(j, p). j = initial_jog \<and> \<not> scrubbing p) (j, p)"
  shows "scrubbing p = isScrubbing j \<and> (gestures j = [] \<longrightarrow> \<not> scrubbing p \<and> \<not> isDragging j)"
  using drag.inv_reach [OF assms] by (auto simp: drag_inv_def)

theorem scrubbing_ends_witness:
  "\<exists>j p. (j, p) = fold (drag_step None 0) [(5, PointerDown MousePointer 3), (6, PointerUp MousePointer)] (initial_jog, initial_page 0)
     \<and> \<not> scrubbing p"
proof -
  let ?st = "fold (drag_step None 0) [(5, PointerDown MousePointer 3), (6, PointerUp MousePointer)] (initial_jog, initial_page 0)"
  obtain j p where jp: "?st = (j, p)" by (cases ?st)
  have "reach (drag_step None 0) (\<lambda>(j, p). j = initial_jog \<and> \<not> scrubbing p) (j, p)"
    unfolding jp [symmetric] by (rule reach_fold) (simp add: reach_start initial_page_def)
  from scrubbing_ends [OF this] jp have "\<not> scrubbing p"
    by (auto simp: drag_step_def jog_step_def pointer_down_def pointer_up_def initial_jog_def Let_def)
  with jp [symmetric] show ?thesis by blast
qed


text \<open>Moves of one pointer, each followed by an animation frame.\<close>

definition slow_drag :: "pointer \<Rightarrow> ms \<Rightarrow> number list \<Rightarrow> (ms \<times> jog_event) list" where
  "slow_drag k now xs = concat (map (\<lambda>x. [(now, PointerMove k x), (now, AnimationFrame)]) xs)"

text \<open>Every move is shorter than half a snap step of the timeline.\<close>

fun short_moves :: "number \<Rightarrow> ms \<Rightarrow> number \<Rightarrow> number list \<Rightarrow> bool" where
  "short_moves w win x [] = True"
| "short_moves w win x (y # ys) =
     (\<bar>(x - y) / w * of_int win\<bar> < of_int (SNAP_MS win) / 2 \<and> short_moves w win y ys)"

definition dragging_at :: "pointer \<Rightarrow> ms \<Rightarrow> number \<Rightarrow> Jog \<Rightarrow> bool" where
  "dragging_at k win x j \<longleftrightarrow> isDragging j \<and> lastX j = x \<and>
     gestures j = [\<lparr> gpointer = k, accumulatedDelta = 0, rafPending = False, gwindow = win \<rparr>]"

lemma fold_seek_same: "\<not> isLive p \<Longrightarrow> timeline_called now (Seek (playbackTime p)) p = p"
  by (simp add: timeline_called_def handleTimelineSeek_def)

lemma short_move_stalls:
  assumes "dragging_at k (windowMs z) x j" "\<not> isLive p" "SNAP_MS (windowMs z) dvd playbackTime p"
    and "\<bar>(x - y) / rect_width r * of_int (windowMs z)\<bar> < of_int (SNAP_MS (windowMs z)) / 2"
  shows "\<exists>j'. fold (drag_step (Some r) z) [(now, PointerMove k y), (now, AnimationFrame)] (j, p) = (j', p)
    \<and> dragging_at k (windowMs z) y j'"
proof -
  let ?v = "page_view (Some r) z now p"
  have v: "track ?v = Some r" "view_time ?v = playbackTime p"
    using assms(2) by (simp_all add: page_view_def currentTime_def)
  have "panFromDelta ?v (windowMs z) (x - y) = [Seek (playbackTime p)]"
    using panFromDelta_stalls [OF v(1) _ assms(4), folded v(2)] assms(3) by (simp add: v(2))
  with assms(1,2) show ?thesis
    by (auto simp: drag_step_def jog_step_def pointer_move_def animation_frame_def frame_gesture_def
        flushDelta_def dragging_at_def Let_def fold_seek_same)
qed

lemma slow_drag_invariant:
  assumes "dragging_at k (windowMs z) x j" "\<not> isLive p" "SNAP_MS (windowMs z) dvd playbackTime p"
    and "short_moves (rect_width r) (windowMs z) x xs"
  shows "\<exists>j'. fold (drag_step (Some r) z) (slow_drag k now xs) (j, p) = (j', p)
    \<and> dragging_at k (windowMs z) (last (x # xs)) j'"
  using assms
proof (induction xs arbitrary: x j)
  case Nil
  then show ?case by (simp add: slow_drag_def)
next
  case (Cons y ys)
  from Cons.prems short_move_stalls [of k z x j p y r now] obtain j' where
    j': "fold (drag_step (Some r) z) [(now, PointerMove k y), (now, AnimationFrame)] (j, p) = (j', p)"
      "dragging_at k (windowMs z) y j'" by auto
  have split: "slow_drag k now (y # ys) = [(now, PointerMove k y), (now, AnimationFrame)] @ slow_drag k now ys"
    by (simp add: slow_drag_def)
  from Cons.IH [OF j'(2) Cons.prems(2,3)] Cons.prems(4) show ?case
    unfolding split fold_append comp_def j'(1) by simp
qed

text \<open>A drag in which every frame moves less than half a snap step does not move playback at
  all, however far the pointer travels: each frame's distance is rounded to the snap grid
  and the remainder is discarded.\<close>

theorem slow_drag_stalls:
  assumes "gestures j = []" "\<not> isLive p" "SNAP_MS (windowMs z) dvd playbackTime p"
    and "short_moves (rect_width r) (windowMs z) x xs"
  shows "playbackTime (snd (fold (drag_step (Some r) z)
           ((now, PointerDown k x) # slow_drag k now xs @ [(now, PointerUp k)]) (j, p))) = playbackTime p"
proof -
  let ?d = "drag_step (Some r) z"
  obtain j1 p1 where 1: "?d (now, PointerDown k x) (j, p) = (j1, p1)" "dragging_at k (windowMs z) x j1"
    "\<not> isLive p1" "playbackTime p1 = playbackTime p"
    using assms(1,2)
    by (auto simp: drag_step_def jog_step_def pointer_down_def dragging_at_def page_view_def
        timeline_called_def handleScrubStart_def)
  from slow_drag_invariant [OF 1(2,3), of r xs now] assms(3,4) 1(4) obtain j2 where
    2: "fold ?d (slow_drag k now xs) (j1, p1) = (j2, p1)" "dragging_at k (windowMs z) (last (x # xs)) j2" by auto
  have "playbackTime (snd (?d (now, PointerUp k) (j2, p1))) = playbackTime p"
    using 2(2) 1(4)
    by (simp add: drag_step_def jog_step_def pointer_up_def dragging_at_def flushDelta_def Let_def
        timeline_called_def handleScrubEnd_def)
  then show ?thesis by (simp add: 1(1) 2(1))
qed

theorem slow_drag_stalls_witness:
  "playbackTime (snd (fold (drag_step (Some \<lparr> rect_left = 0, rect_width = 1000 \<rparr>) 0)
     ((0, PointerDown MousePointer 500) # slow_drag MousePointer 0 (map of_nat [501..<520]) @ [(0, PointerUp MousePointer)])
     (initial_jog, (initial_page 60000)\<lparr> isLive := False \<rparr>))) = 60000"
  using slow_drag_stalls [of initial_jog "(initial_page 60000)\<lparr> isLive := False \<rparr>" 0
      "\<lparr> rect_left = 0, rect_width = 1000 \<rparr>" 500 "map of_nat [501..<520]" 0 MousePointer]
  by (simp add: initial_jog_def initial_page_def windowMs_def ZOOM_LEVELS_def SNAP_MS_def upt_conv_Cons)

text \<open>The click that the browser delivers after a drag on the track is not suppressed: when the
  pointer is released at \<open>x\<close> after any drag, playback ends at the moment drawn at \<open>x\<close>, not
  where the drag had brought it.\<close>

theorem drag_ends_in_click_seek:
  fixes p :: RecorderPage and z :: nat and r :: Rect and now :: ms
  assumes "gestures j = [g]" "gpointer g = MousePointer"
  defines "dragged \<equiv> snd (drag_step (Some r) z (now, PointerUp MousePointer) (j, p))"
  shows "playbackTime (snd (fold (drag_step (Some r) z) [(now, PointerUp MousePointer), (now, TrackClick x)] (j, p)))
    = time_clip (of_int (startTime (currentTime now dragged) (windowMs z)) + (x - rect_left r) / rect_width r * of_int (windowMs z))"
proof -
  obtain j1 where up: "drag_step (Some r) z (now, PointerUp MousePointer) (j, p) = (j1, dragged)" "\<not> isDragging j1"
    using assms(1,2) by (auto simp: dragged_def drag_step_def jog_step_def pointer_up_def Let_def)
  have "playbackTime (snd (drag_step (Some r) z (now, TrackClick x) (j1, dragged)))
    = time_clip (of_int (startTime (currentTime now dragged) (windowMs z)) + (x - rect_left r) / rect_width r * of_int (windowMs z))"
    using up(2) by (simp add: drag_step_def jog_step_def handleTrackClick_def page_view_def Let_def
        timeline_called_def handleTimelineSeek_def)
  then show ?thesis by (simp add: up(1))
qed


theorem drag_ends_in_click_seek_witness:
  "playbackTime (snd (fold (drag_step (Some \<lparr> rect_left = 0, rect_width = 1000 \<rparr>) 2)
     [(0, PointerUp MousePointer), (0, TrackClick 800)]
     (initial_jog\<lparr> isDragging := True, gestures := [\<lparr> gpointer = MousePointer, accumulatedDelta = 0, rafPending = False, gwindow = 60000 \<rparr>] \<rparr>,
      (initial_page 600000)\<lparr> isLive := False \<rparr>))) = 618000"
  using drag_ends_in_click_seek [where j = "initial_jog\<lparr> isDragging := True, gestures := [\<lparr> gpointer = MousePointer,
        accumulatedDelta = 0, rafPending = False, gwindow = 60000 \<rparr>] \<rparr>" and r = "\<lparr> rect_left = 0, rect_width = 1000 \<rparr>"
      and z = 2 and now = 0 and p = "(initial_page 600000)\<lparr> isLive := False \<rparr>" and x = 800]
  by (simp add: initial_jog_def initial_page_def drag_step_def jog_step_def pointer_up_def flushDelta_def Let_def
      timeline_called_def handleScrubEnd_def currentTime_def windowMs_def ZOOM_LEVELS_def window_bounds time_clip_def)

section \<open>Peeking and cameras\<close>

text \<open>Closing the peek view restores the isolation it replaced; peeking from one camera straight
  at another makes the first one the isolation that is restored.\<close>

lemma peek_restores_isolation:
  assumes "peekCameraId s = None" "c \<noteq> []" "d \<noteq> []" "d \<noteq> c"
  shows "isolatedCamera (setPeekCameraId (Some c) s) = Some c"
    and "isolatedCamera (setPeekCameraId None (setPeekCameraId (Some c) s)) = isolatedCamera s"
    and "isolatedCamera (setPeekCameraId None (setPeekCameraId (Some d) (setPeekCameraId (Some c) s))) = Some c"
  using assms by (simp_all add: setPeekCameraId_def peek_effect_def)

lemma siteCamera_status: "json_field ''status'' (siteCamera site now i c) \<noteq> Some (JStr ''online'')"
  by (simp add: siteCamera_def json_field_def)

lemma onlineCameras_zero: "onlineCameras s = 0 \<longleftrightarrow> (\<forall>c \<in> set (cameras s). json_field ''status'' c \<noteq> Some (JStr ''online''))"
  by (simp add: onlineCameras_def filter_empty_conv)

lemma cameras_take_cameras [simp]: "cameras (take_cameras cs s) = cs"
  by (cases cs) (simp_all add: take_cameras_def Let_def)

text \<open>On a site's page no camera ever counts as online, whatever the server reports: loading
  maps the status to connected or disconnected, and the header counts the status online.\<close>

theorem site_cameras_never_online:
  assumes "site \<noteq> []" "onlineCameras s = 0"
  shows "case snd (loadCameras (Some site) now s w) of Inr s' \<Rightarrow> onlineCameras s' = 0 | Inl _ \<Rightarrow> False"
  using assms
  by (auto simp: loadCameras_def try_io_def bind_io_def return_io_def throw_io_def onlineCameras_zero siteCamera_status
      split: prod.splits sum.splits option.splits json.splits)


theorem site_cameras_never_online_witness:
  "case snd (loadCameras (Some ''s1'') ''2024-01-01T00:00:00.000Z'' (initial_page 0) fixture_world) of
     Inr s' \<Rightarrow> onlineCameras s' = 0 | Inl _ \<Rightarrow> False"
  by (rule site_cameras_never_online) (simp_all add: onlineCameras_def initial_page_def)

end
