(* ===== verification/Event_List.thy ===== *)
theory Event_List
  imports Recorder_Page
begin

text \<open>
  The event feed \<^verbatim>\<open>components/EventListPanel.tsx\<close>: the readers that normalise the detection
  details of the different drivers (object class, rule, plate, confidence, bounding boxes),
  the scoped queries, and the filtered, deduplicated, sorted and grouped list it shows.

  Events are JSON objects. \<open>Number_str\<close> and \<open>parse_float\<close> are \<^verbatim>\<open>Number(s)\<close> and
  \<^verbatim>\<open>parseFloat(s)\<close> of strings (\<open>None\<close> for \<^verbatim>\<open>NaN\<close> and the infinities); \<open>localeCompare\<close>
  depends on the locale of the browser.
\<close>

section \<open>Reading details\<close>

definition FEED_TYPES :: "string list" where
  "FEED_TYPES = [''motion'', ''human'', ''vehicle'', ''lpr'', ''object'', ''face'', ''intrusion'', ''linecross'',
     ''loitering'', ''peoplecount'', ''tamper'', ''videoloss'']"

definition details :: "json \<Rightarrow> json" where
  "details e = (case json_field ''details'' e of Some d \<Rightarrow> if falsy d then JObj [] else d | None \<Rightarrow> JObj [])"

definition event_type :: "json \<Rightarrow> string" where
  "event_type e = json_text (json_field ''event_type'' e)"

text \<open>\<^verbatim>\<open>d.a || d.b || ...\<close> and \<^verbatim>\<open>d.a ?? d.b ?? ...\<close>.\<close>

fun first_truthy :: "string list \<Rightarrow> json \<Rightarrow> json option" where
  "first_truthy [] d = None"
| "first_truthy (k # ks) d =
     (case json_field k d of
        Some v \<Rightarrow> if falsy v then first_truthy ks d else Some v
      | None \<Rightarrow> first_truthy ks d)"

fun first_present :: "string list \<Rightarrow> json \<Rightarrow> json option" where
  "first_present [] d = None"
| "first_present (k # ks) d =
     (case json_field k d of
        Some JNull \<Rightarrow> first_present ks d
      | Some v \<Rightarrow> Some v
      | None \<Rightarrow> first_present ks d)"

definition TYPE_TO_CLASS :: "(string \<times> string) list" where
  "TYPE_TO_CLASS =
     [(''human'', ''Person''), (''face'', ''Face''), (''vehicle'', ''Vehicle''), (''lpr'', ''License Plate''),
      (''intrusion'', ''Intrusion''), (''linecross'', ''Line Cross''), (''loitering'', ''Loitering''),
      (''object'', ''Object''), (''motion'', ''Motion''), (''tamper'', ''Tamper''),
      (''peoplecount'', ''People Count''), (''videoloss'', ''Video Loss'')]"

text \<open>A word character at a word boundary is capitalised.\<close>

fun capitalise :: "bool \<Rightarrow> string \<Rightarrow> string" where
  "capitalise in_word [] = []"
| "capitalise in_word (c # s) =
     (if is_alnum c then (if in_word then c else upper_char c) # capitalise True s else c # capitalise False s)"

definition titleCase :: "string \<Rightarrow> string" where
  "titleCase s = js_trim (capitalise False (map (\<lambda>c. if c = CHR ''-'' \<or> c = CHR ''_'' then CHR '' '' else c) s))"

definition classifyFromTopic :: "string \<Rightarrow> string option" where
  "classifyFromTopic topic =
     (if topic = [] then None
      else (let tail = last (split_at_char (CHR ''/'') topic) in
            if tail = [] \<or> to_lower tail = ''state'' then None else Some (titleCase tail)))"

definition text_of :: "json option \<Rightarrow> string option" where
  "text_of raw = (case raw of Some (JStr t) \<Rightarrow> if js_trim t = [] then None else Some t | _ \<Rightarrow> None)"

definition class_of_topic :: "json \<Rightarrow> string option" where
  "class_of_topic d = (case json_field ''topic'' d of Some (JStr t) \<Rightarrow> classifyFromTopic t | _ \<Rightarrow> None)"

definition getObjectClass :: "json \<Rightarrow> string option" where
  "getObjectClass e =
     (let d = details e in
      case text_of (first_truthy [''obj_type'', ''object'', ''objecttype'', ''objectType'', ''class'', ''label''] d) of
        Some t \<Rightarrow> Some (titleCase t)
      | None \<Rightarrow>
          (case class_of_topic d of
             Some t \<Rightarrow> if t = [] then map_of TYPE_TO_CLASS (event_type e) else Some t
           | None \<Rightarrow> map_of TYPE_TO_CLASS (event_type e)))"

definition strip_prefix :: "string \<Rightarrow> string \<Rightarrow> string" where
  "strip_prefix p s = (if starts_with p s then drop (length p) s else s)"

definition strip_suffix :: "string \<Rightarrow> string \<Rightarrow> string" where
  "strip_suffix p s = rev (strip_prefix (rev p) (rev s))"

definition is_lower :: "char \<Rightarrow> bool" where
  "is_lower c = (let n = (of_char c :: nat) in 97 \<le> n \<and> n \<le> 122)"

definition is_upper :: "char \<Rightarrow> bool" where
  "is_upper c = (let n = (of_char c :: nat) in 65 \<le> n \<and> n \<le> 90)"

fun spread_camel :: "string \<Rightarrow> string" where
  "spread_camel (a # b # s) =
     (if is_lower a \<and> is_upper b then a # CHR '' '' # b # spread_camel s else a # spread_camel (b # s))"
| "spread_camel s = s"

definition getRuleName :: "json \<Rightarrow> string option" where
  "getRuleName e =
     (case text_of (first_truthy [''rule_name'', ''rule'', ''ruleName''] (details e)) of
        Some raw \<Rightarrow>
          (let cleaned = js_trim (spread_camel (strip_suffix ''Rule'' (strip_prefix ''My'' raw))) in
           Some (if cleaned = [] then raw else cleaned))
      | None \<Rightarrow> None)"

definition getPlateNumber :: "json \<Rightarrow> string option" where
  "getPlateNumber e =
     map_option (\<lambda>t. to_upper (js_trim t))
       (text_of (first_present [''plate_number'', ''plate'', ''plateNumber'', ''license_plate'', ''licensePlate''] (details e)))"

definition getEventDetail :: "json \<Rightarrow> string option" where
  "getEventDetail e =
     (let d = details e; t = event_type e in
      if t = ''lpr'' then
        Some (case getPlateNumber e of Some plate \<Rightarrow> ''Plate: '' @ plate | None \<Rightarrow> ''License plate detected'')
      else if t = ''motion'' then
        Some (if json_field ''ismotion'' d \<in> {Some (JStr ''true''), Some (JBool True)}
              then ''Motion started'' else ''Motion detected'')
      else if t = ''tamper'' then Some ''Camera tamper detected''
      else if t = ''videoloss'' then Some ''Video signal lost''
      else if t = ''peoplecount'' then
        Some (case first_present [''count'', ''people_count'', ''peopleCount''] d of
                Some n \<Rightarrow> ''People count: '' @ json_text (Some n)
              | None \<Rightarrow> ''People count update'')
      else None)"

definition getConfidencePct :: "(string \<Rightarrow> number option) \<Rightarrow> json \<Rightarrow> int option" where
  "getConfidencePct parse_float e =
     (let raw = first_present [''score'', ''confidence'', ''ai_score''] (details e);
          n = (case raw of Some (JNum x) \<Rightarrow> Some x | Some (JStr t) \<Rightarrow> parse_float t | _ \<Rightarrow> None) in
      map_option (\<lambda>x. js_round (if x \<le> 1 then x * 100 else x)) n)"

section \<open>Bounding boxes\<close>

definition MS_ANALYTICS_W :: number where
  "MS_ANALYTICS_W = 320"

definition MS_ANALYTICS_H :: number where
  "MS_ANALYTICS_H = 180"

record NormBox =
  nx :: number
  ny :: number
  nw :: number
  nh :: number
  nlabel :: "string option"

text \<open>\<^verbatim>\<open>Number(v)\<close>; \<open>None\<close> is not finite.\<close>

definition js_Number :: "(string \<Rightarrow> number option) \<Rightarrow> json option \<Rightarrow> number option" where
  "js_Number Number_str v =
     (case v of
        Some (JNum n) \<Rightarrow> Some n
      | Some (JStr t) \<Rightarrow> Number_str t
      | Some JNull \<Rightarrow> Some 0
      | Some (JBool b) \<Rightarrow> Some (if b then 1 else 0)
      | _ \<Rightarrow> None)"

definition number_or :: "number option \<Rightarrow> number \<Rightarrow> number" where
  "number_or n d = (case n of Some x \<Rightarrow> if x = 0 then d else x | None \<Rightarrow> d)"

definition is_milesight :: "json \<Rightarrow> bool" where
  "is_milesight d = (case json_field ''source'' d of Some (JStr t) \<Rightarrow> js_trim (to_lower t) = ''milesight_ws'' | _ \<Rightarrow> False)"

definition frame_dim :: "(string \<Rightarrow> number option) \<Rightarrow> string list \<Rightarrow> json \<Rightarrow> number \<Rightarrow> number \<Rightarrow> number" where
  "frame_dim Number_str ks d analytics rendered =
     number_or (js_Number Number_str (first_present ks d)) (if is_milesight d then analytics else rendered)"

definition lift2 :: "('a \<Rightarrow> 'a \<Rightarrow> 'b) \<Rightarrow> 'a option \<Rightarrow> 'a option \<Rightarrow> 'b option" where
  "lift2 f a b = (case (a, b) of (Some x, Some y) \<Rightarrow> Some (f x y) | _ \<Rightarrow> None)"

definition raw_box :: "(string \<Rightarrow> number option) \<Rightarrow> json \<Rightarrow> (number \<times> number \<times> number \<times> number) option" where
  "raw_box Number_str b =
     (let num = (\<lambda>k. js_Number Number_str (json_field k b));
          corner = (num ''x'' = None \<and> num ''x1'' \<noteq> None);
          x = (if corner then num ''x1'' else num ''x'');
          y = (if corner then num ''y1'' else num ''y'');
          w = (if corner then lift2 (-) (num ''x2'') (num ''x1'') else num ''w'');
          h = (if corner then lift2 (-) (num ''y2'') (num ''y1'') else num ''h'') in
      case (x, y, w, h) of (Some x, Some y, Some w, Some h) \<Rightarrow> Some (x, y, w, h) | _ \<Rightarrow> None)"

definition norm_box :: "(string \<Rightarrow> number option) \<Rightarrow> bool \<Rightarrow> number \<Rightarrow> number \<Rightarrow> json \<Rightarrow> NormBox option" where
  "norm_box Number_str isMilesight fw fh b =
     (case b of
        JObj _ \<Rightarrow>
          (case raw_box Number_str b of
             None \<Rightarrow> None
           | Some (x, y, w, h) \<Rightarrow>
               (let scaled = (isMilesight \<or> x > 1 \<or> y > 1 \<or> w > 1 \<or> h > 1);
                    label = (case json_field ''label'' b of Some (JStr t) \<Rightarrow> Some t | _ \<Rightarrow> None) in
                if scaled then
                  (if fw \<le> 0 \<or> fh \<le> 0 then None
                   else Some \<lparr> nx = x / fw, ny = y / fh, nw = w / fw, nh = h / fh, nlabel = label \<rparr>)
                else Some \<lparr> nx = x, ny = y, nw = w, nh = h, nlabel = label \<rparr>))
      | _ \<Rightarrow> None)"

definition getNormalizedBoxes :: "(string \<Rightarrow> number option) \<Rightarrow> json \<Rightarrow> number \<Rightarrow> number \<Rightarrow> NormBox list" where
  "getNormalizedBoxes Number_str e frameW frameH =
     (let d = details e in
      case first_present [''bounding_boxes'', ''boundingBoxes'', ''bbox'', ''boxes''] d of
        Some (JArr boxes) \<Rightarrow>
          (let fw = frame_dim Number_str [''frame_w'', ''frameWidth'', ''width''] d MS_ANALYTICS_W frameW;
               fh = frame_dim Number_str [''frame_h'', ''frameHeight'', ''height''] d MS_ANALYTICS_H frameH in
           List.map_filter (norm_box Number_str (is_milesight d) fw fh) boxes)
      | _ \<Rightarrow> [])"

section \<open>The feed\<close>

datatype SortMode = Sort_newest | Sort_oldest | Sort_type | Sort_camera | Sort_confidence

record EventPanel =
  activeTypes :: "string list"
  selectedCameras :: "string list"
  search :: string
  dateFrom :: string
  dateTo :: string
  useCustomRange :: bool
  scopeToLayout :: bool
  sortMode :: SortMode
  groupByCamera :: bool
  remoteEvents :: "json list"
  panel_loading :: bool
  detailEvent :: "json option"

definition isoLocal :: "ms \<Rightarrow> ms \<Rightarrow> string" where
  "isoLocal offset date = goToValue offset date"

definition initial_panel :: "ms \<Rightarrow> ms \<Rightarrow> EventPanel" where
  "initial_panel offset now =
     \<lparr> activeTypes = FEED_TYPES, selectedCameras = [], search = [],
       dateFrom = isoLocal offset (now - 24 * 3600 * 1000), dateTo = isoLocal offset now,
       useCustomRange = False, scopeToLayout = False, sortMode = Sort_newest, groupByCamera = False,
       remoteEvents = [], panel_loading = False, detailEvent = None \<rparr>"

text \<open>Toggling membership in a \<^verbatim>\<open>Set\<close>, which keeps insertion order.\<close>

definition toggle_member :: "'a \<Rightarrow> 'a list \<Rightarrow> 'a list" where
  "toggle_member x xs = (if x \<in> set xs then removeAll x xs else xs @ [x])"

definition toggleType :: "string \<Rightarrow> EventPanel \<Rightarrow> EventPanel" where
  "toggleType t s = s\<lparr> activeTypes := toggle_member t (activeTypes s) \<rparr>"

definition toggleCamera :: "string \<Rightarrow> EventPanel \<Rightarrow> EventPanel" where
  "toggleCamera i s = s\<lparr> selectedCameras := toggle_member i (selectedCameras s) \<rparr>"

definition panel_keydown :: "string \<Rightarrow> EventPanel \<Rightarrow> EventPanel" where
  "panel_keydown key s = (if detailEvent s \<noteq> None \<and> key = ''Escape'' then s\<lparr> detailEvent := None \<rparr> else s)"

definition panel_open_changed :: "bool \<Rightarrow> EventPanel \<Rightarrow> EventPanel" where
  "panel_open_changed opened s = (if \<not> opened then s\<lparr> detailEvent := None \<rparr> else s)"

text \<open>The effect that clears the layout scope when the layout is empty.\<close>

definition clear_scope :: "string list \<Rightarrow> EventPanel \<Rightarrow> EventPanel" where
  "clear_scope layout s = (if scopeToLayout s \<and> layout = [] then s\<lparr> scopeToLayout := False \<rparr> else s)"

definition effectiveCameraIds :: "string list \<Rightarrow> EventPanel \<Rightarrow> string list" where
  "effectiveCameraIds layout s =
     (if selectedCameras s \<noteq> [] then selectedCameras s
      else if scopeToLayout s \<and> layout \<noteq> [] then layout
      else [])"

definition perCam :: "nat \<Rightarrow> int" where
  "perCam n = max 50 \<lceil>200 / of_nat n :: number\<rceil>"

definition feed_params :: "EventPanel \<Rightarrow> ms \<Rightarrow> ms \<Rightarrow> string option \<Rightarrow> int \<Rightarrow> EventParams" where
  "feed_params s st en cam per_query =
     \<lparr> ep_start = toISOString st, ep_end = toISOString en, ep_camera_id = cam, ep_camera_ids = None,
       ep_types = (let types = join '','' (activeTypes s) in if types = [] then None else Some types),
       ep_search = (if search s = [] then None else Some (search s)), ep_limit = Some per_query \<rparr>"

fun map_io :: "('a \<Rightarrow> 'b io) \<Rightarrow> 'a list \<Rightarrow> 'b list io" where
  "map_io f [] = return_io []"
| "map_io f (x # xs) = bind_io (f x) (\<lambda>y. bind_io (map_io f xs) (\<lambda>ys. return_io (y # ys)))"

text \<open>No range results from an invalid typed date: \<^verbatim>\<open>toISOString\<close> throws.\<close>

definition feed_range :: "(string \<Rightarrow> ms option) \<Rightarrow> ms \<Rightarrow> EventPanel \<Rightarrow> (ms \<times> ms) option" where
  "feed_range date_ms now s =
     (if useCustomRange s then lift2 Pair (date_ms (dateFrom s)) (date_ms (dateTo s))
      else Some (now - 24 * 3600 * 1000, now))"

definition query_feed :: "string list \<Rightarrow> EventPanel \<Rightarrow> ms \<Rightarrow> ms \<Rightarrow> json list io" where
  "query_feed layout s st en =
     (let ids = effectiveCameraIds layout s in
      if length ids > 1 then
        bind_io (map_io (\<lambda>i. try_io (queryEvents (feed_params s st en (Some i) (perCam (length ids))))
                               (return_io (JArr []))) ids)
          (\<lambda>results. return_io (concat (map json_items results)))
      else
        bind_io (queryEvents (feed_params s st en (case ids of [] \<Rightarrow> None | i # _ \<Rightarrow> Some i) 200))
          (\<lambda>data. return_io (json_items data)))"

definition fetchEvents :: "(string \<Rightarrow> ms option) \<Rightarrow> ms \<Rightarrow> string list \<Rightarrow> EventPanel \<Rightarrow> EventPanel io" where
  "fetchEvents date_ms now layout s =
     bind_io
       (try_io
          (case feed_range date_ms now s of
             None \<Rightarrow> throw_io ''Invalid time value''
           | Some (st, en) \<Rightarrow> query_feed layout s st en)
          (return_io []))
       (\<lambda>data. return_io (s\<lparr> remoteEvents := data, panel_loading := False \<rparr>))"

definition matchesFilters :: "(number \<Rightarrow> string) \<Rightarrow> string list \<Rightarrow> EventPanel \<Rightarrow> json \<Rightarrow> bool" where
  "matchesFilters fractx layout s e =
     (let ids = effectiveCameraIds layout s in
      event_type e \<in> set (activeTypes s)
      \<and> (ids = [] \<or> json_text (json_field ''camera_id'' e) \<in> set ids)
      \<and> (search s = [] \<or> contains_str (to_lower (search s)) (to_lower (stringify fractx e))))"

definition truthy_id :: "json \<Rightarrow> json option" where
  "truthy_id e = (case json_field ''id'' e of Some i \<Rightarrow> if falsy i then None else Some i | None \<Rightarrow> None)"

fun dedupe :: "json set \<Rightarrow> json list \<Rightarrow> json list" where
  "dedupe seen [] = []"
| "dedupe seen (e # es) =
     (case truthy_id e of
        Some i \<Rightarrow> if i \<in> seen then dedupe seen es else e # dedupe (insert i seen) es
      | None \<Rightarrow> e # dedupe seen es)"

definition getCameraName :: "json list \<Rightarrow> string \<Rightarrow> string" where
  "getCameraName cams i =
     (case List.find (\<lambda>c. json_field ''id'' c = Some (JStr i)) cams of
        Some c \<Rightarrow> (case json_field ''name'' c of Some (JStr n) \<Rightarrow> n | _ \<Rightarrow> take 8 i)
      | None \<Rightarrow> take 8 i)"

definition conf_or :: "(string \<Rightarrow> number option) \<Rightarrow> json \<Rightarrow> int" where
  "conf_or parse_float e = (case getConfidencePct parse_float e of Some n \<Rightarrow> n | None \<Rightarrow> -1)"

text \<open>What the feed takes from the browser.\<close>

record Locale =
  loc_compare :: "string \<Rightarrow> string \<Rightarrow> int"
  loc_date_ms :: "string \<Rightarrow> ms option"
  loc_parse_float :: "string \<Rightarrow> number option"
  loc_fraction :: "number \<Rightarrow> string"

definition by_text :: "Locale \<Rightarrow> (json \<Rightarrow> string) \<Rightarrow> json \<Rightarrow> json \<Rightarrow> bool" where
  "by_text L f a b =
     (let c = loc_compare L (f a) (f b) in c < 0 \<or> c = 0 \<and> newer (loc_date_ms L) a b)"

definition feed_before :: "Locale \<Rightarrow> json list \<Rightarrow> SortMode \<Rightarrow> json \<Rightarrow> json \<Rightarrow> bool" where
  "feed_before L cams mode a b =
     (case mode of
        Sort_oldest \<Rightarrow> newer (loc_date_ms L) b a
      | Sort_type \<Rightarrow> by_text L event_type a b
      | Sort_camera \<Rightarrow> by_text L (\<lambda>e. getCameraName cams (json_text (json_field ''camera_id'' e))) a b
      | Sort_confidence \<Rightarrow>
          (let ca = conf_or (loc_parse_float L) a; cb = conf_or (loc_parse_float L) b in
           cb < ca \<or> ca = cb \<and> newer (loc_date_ms L) a b)
      | Sort_newest \<Rightarrow> newer (loc_date_ms L) a b)"

definition feed_sources :: "Locale \<Rightarrow> string list \<Rightarrow> json list \<Rightarrow> EventPanel \<Rightarrow> json list" where
  "feed_sources L layout live s =
     (let fits = matchesFilters (loc_fraction L) layout s in
      if useCustomRange s then filter fits (remoteEvents s)
      else filter fits live @ filter fits (remoteEvents s))"

definition displayedEvents :: "Locale \<Rightarrow> json list \<Rightarrow> string list \<Rightarrow> json list \<Rightarrow> EventPanel \<Rightarrow> json list" where
  "displayedEvents L cams layout live s =
     take 200 (js_sort (feed_before L cams (sortMode s)) (dedupe {} (feed_sources L layout live s)))"

definition activeDetailEvent :: "json list \<Rightarrow> EventPanel \<Rightarrow> json option" where
  "activeDetailEvent live s =
     (case detailEvent s of
        None \<Rightarrow> None
      | Some e \<Rightarrow>
          (case truthy_id e of
             None \<Rightarrow> Some e
           | Some i \<Rightarrow>
               (case List.find (\<lambda>x. json_field ''id'' x = Some i) (live @ remoteEvents s) of
                  Some fresh \<Rightarrow> Some fresh
                | None \<Rightarrow> Some e)))"

text \<open>Appending to the array a \<^verbatim>\<open>Map\<close> holds for a key, in insertion order of the keys.\<close>

fun group_put :: "'k \<Rightarrow> 'a \<Rightarrow> ('k \<times> 'a list) list \<Rightarrow> ('k \<times> 'a list) list" where
  "group_put k x [] = [(k, [x])]"
| "group_put k x ((k', xs) # gs) = (if k' = k then (k', xs @ [x]) # gs else (k', xs) # group_put k x gs)"

definition group_rows :: "('a \<Rightarrow> 'k) \<Rightarrow> 'a list \<Rightarrow> ('k \<times> 'a list) list" where
  "group_rows key es = foldl (\<lambda>gs e. group_put (key e) e gs) [] es"

definition grouped :: "string list \<Rightarrow> json list \<Rightarrow> EventPanel \<Rightarrow> (string \<times> json list) list option" where
  "grouped layout shown s =
     (if groupByCamera s \<or> (scopeToLayout s \<and> effectiveCameraIds layout s \<noteq> [])
      then Some (group_rows (\<lambda>e. json_text (json_field ''camera_id'' e)) shown)
      else None)"

section \<open>Grouping\<close>

definition groups_of :: "('a \<Rightarrow> 'k) \<Rightarrow> 'a list \<Rightarrow> ('k \<times> 'a list) list \<Rightarrow> bool" where
  "groups_of key es gs \<longleftrightarrow> distinct (map fst gs) \<and> fst ` set gs = key ` set es
     \<and> (\<forall>(k, xs) \<in> set gs. xs = filter (\<lambda>e. key e = k) es)"

lemma group_put_keys [simp]: "fst ` set (group_put k x gs) = insert k (fst ` set gs)"
  by (induction k x gs rule: group_put.induct) auto

lemma group_put_distinct: "distinct (map fst gs) \<Longrightarrow> distinct (map fst (group_put k x gs))"
proof (induction k x gs rule: group_put.induct)
  case (2 k x k' xs gs)
  then show ?case
    by (cases "k' = k") (simp_all flip: set_map [of fst] del: set_map, simp_all)
qed simp

lemma group_put_entries:
  assumes "distinct (map fst gs)" "(k', ys) \<in> set (group_put k x gs)"
  shows "(k' \<noteq> k \<and> (k', ys) \<in> set gs) \<or> (k' = k \<and> k \<notin> fst ` set gs \<and> ys = [x]) \<or> (k' = k \<and> (\<exists>zs. (k, zs) \<in> set gs \<and> ys = zs @ [x]))"
  using assms by (induction k x gs rule: group_put.induct) (force split: if_splits)+

lemma groups_of_rows: "groups_of key es (group_rows key es)"
proof (induction es rule: rev_induct)
  case Nil
  then show ?case by (simp add: groups_of_def group_rows_def)
next
  case (snoc e es)
  let ?gs = "group_rows key es"
  have gs: "distinct (map fst ?gs)" "fst ` set ?gs = key ` set es"
    "\<And>k xs. (k, xs) \<in> set ?gs \<Longrightarrow> xs = filter (\<lambda>e. key e = k) es"
    using snoc unfolding groups_of_def by auto
  have step: "group_rows key (es @ [e]) = group_put (key e) e ?gs" by (simp add: group_rows_def)
  have "xs = filter (\<lambda>e. key e = k) (es @ [e])" if "(k, xs) \<in> set (group_put (key e) e ?gs)" for k xs
    using group_put_entries [OF gs(1) that]
  proof (elim disjE conjE exE)
    assume "k = key e" "key e \<notin> fst ` set ?gs" "xs = [e]"
    moreover from this gs(2) have "filter (\<lambda>x. key x = key e) es = []"
      unfolding filter_empty_conv by (metis imageI)
    ultimately show ?thesis by simp
  qed (auto dest!: gs(3))
  then show ?case
    unfolding step groups_of_def by (auto simp: gs group_put_distinct)
qed

lemma groups_of_mset:
  assumes "groups_of key es gs"
  shows "mset (concat (map snd gs)) = mset es"
proof -
  have "mset (concat (map snd gs)) = mset (filter (\<lambda>e. key e \<in> fst ` set gs) es)"
    if "distinct (map fst gs)" "\<forall>(k, xs) \<in> set gs. xs = filter (\<lambda>e. key e = k) es" for gs
    using that
  proof (induction gs)
    case (Cons g gs)
    obtain k xs where g: "g = (k, xs)" by (cases g)
    have "k \<notin> fst ` set gs" using Cons.prems(1) g by simp
    then have "filter (\<lambda>e. key e \<in> fst ` set (g # gs)) es =
        filter (\<lambda>e. key e = k \<or> key e \<in> fst ` set gs) es" by (simp add: g)
    moreover have "mset (filter (\<lambda>e. key e = k \<or> key e \<in> fst ` set gs) es) =
        mset (filter (\<lambda>e. key e = k) es) + mset (filter (\<lambda>e. key e \<in> fst ` set gs) es)"
      using \<open>k \<notin> fst ` set gs\<close> by (induction es) auto
    moreover have "xs = filter (\<lambda>e. key e = k) es" using Cons.prems(2) g by auto
    ultimately show ?case using Cons by (simp add: g)
  qed simp
  from this [of gs] assms have "mset (concat (map snd gs)) = mset (filter (\<lambda>e. key e \<in> key ` set es) es)"
    unfolding groups_of_def by simp
  also have "filter (\<lambda>e. key e \<in> key ` set es) es = es" by (simp add: filter_id_conv)
  finally show ?thesis .
qed

section \<open>What the feed shows\<close>

lemma set_dedupe: "set (dedupe seen es) \<subseteq> set es"
  by (induction seen es rule: dedupe.induct) (auto split: option.splits if_splits)

lemma dedupe_fresh: "e \<in> set (dedupe seen es) \<Longrightarrow> truthy_id e = Some i \<Longrightarrow> i \<notin> seen"
  by (induction seen es rule: dedupe.induct) (auto split: option.splits if_splits)

definition ids_distinct :: "json list \<Rightarrow> bool" where
  "ids_distinct es = distinct (List.map_filter truthy_id es)"

lemma dedupe_first:
  "e \<in> set (dedupe seen es) \<Longrightarrow> truthy_id e = Some i \<Longrightarrow> List.find (\<lambda>x. truthy_id x = Some i) es = Some e"
  by (induction seen es rule: dedupe.induct)
     (auto split: option.splits if_splits dest: dedupe_fresh)

lemma dedupe_covers:
  "e \<in> set es \<Longrightarrow> e \<in> set (dedupe seen es) \<or> (\<exists>i. truthy_id e = Some i \<and> (i \<in> seen \<or> (\<exists>x \<in> set (dedupe seen es). truthy_id x = Some i)))"
  by (induction seen es rule: dedupe.induct) (fastforce split: option.splits if_splits)+

lemma set_map_filter_ids: "i \<in> set (List.map_filter truthy_id es) \<longleftrightarrow> (\<exists>e \<in> set es. truthy_id e = Some i)"
  by (force simp: map_filter_def)

lemma dedupe_distinct: "ids_distinct (dedupe seen es)"
  by (induction seen es rule: dedupe.induct)
     (auto simp: ids_distinct_def map_filter_simps set_map_filter_ids dest: dedupe_fresh split: option.splits)


lemma ids_distinct_mset: "mset xs = mset ys \<Longrightarrow> ids_distinct xs = ids_distinct ys"
  unfolding ids_distinct_def map_filter_def by (intro mset_eq_imp_distinct_iff) (simp add: mset_filter)

lemma ids_distinct_take: "ids_distinct xs \<Longrightarrow> ids_distinct (take n xs)"
proof -
  assume "ids_distinct xs"
  then have "ids_distinct (take n xs @ drop n xs)" by simp
  then show ?thesis
    unfolding ids_distinct_def map_filter_def by (simp only: filter_append map_append distinct_append)
qed

lemma set_displayed: "set (displayedEvents L cams layout live s) \<subseteq> set (dedupe {} (feed_sources L layout live s))"
  unfolding displayedEvents_def by (metis set_js_sort set_take_subset)

lemma set_feed_sources:
  "set (feed_sources L layout live s) =
     {e \<in> (if useCustomRange s then {} else set live) \<union> set (remoteEvents s). matchesFilters (loc_fraction L) layout s e}"
  by (auto simp: feed_sources_def Let_def)

text \<open>The feed shows at most 200 events, each from the live or the queried events and each
  passing the active filters; no two share an identifier, and of an event held twice the live
  copy is shown. While no more than 200 fit, every fitting event is shown. Grouped by camera,
  the groups hold exactly the shown rows, each under its own camera, in the shown order.\<close>

theorem feed_faithful:
  fixes L :: Locale and cams :: "json list" and layout :: "string list" and live :: "json list" and s :: EventPanel
  defines "shown \<equiv> displayedEvents L cams layout live s"
  assumes "length (dedupe {} (feed_sources L layout live s)) \<le> 200" "grouped layout shown s = Some gs"
  shows "length shown \<le> 200 \<and> ids_distinct shown
    \<and> (\<forall>e \<in> set shown. matchesFilters (loc_fraction L) layout s e \<and> e \<in> set live \<union> set (remoteEvents s))
    \<and> (\<forall>e \<in> set (feed_sources L layout live s).
         e \<in> set shown \<or> (\<exists>x \<in> set shown. truthy_id x = truthy_id e \<and> truthy_id e \<noteq> None))
    \<and> (\<forall>e \<in> set shown. \<forall>i. truthy_id e = Some i \<longrightarrow>
         List.find (\<lambda>x. truthy_id x = Some i) (feed_sources L layout live s) = Some e)
    \<and> groups_of (\<lambda>e. json_text (json_field ''camera_id'' e)) shown gs
    \<and> mset (concat (map snd gs)) = mset shown"
proof (intro conjI ballI allI impI)
  let ?D = "dedupe {} (feed_sources L layout live s)"
  have all: "set shown = set ?D"
    using assms(2) by (simp add: shown_def displayedEvents_def)
  show "length shown \<le> 200" by (simp add: shown_def displayedEvents_def)
  have "ids_distinct (js_sort (feed_before L cams (sortMode s)) ?D)"
    using dedupe_distinct ids_distinct_mset [OF mset_js_sort] by blast
  then show "ids_distinct shown" unfolding shown_def displayedEvents_def by (rule ids_distinct_take)
  have sub: "set shown \<subseteq> set (feed_sources L layout live s)" using all set_dedupe by blast
  then show "matchesFilters (loc_fraction L) layout s e" "e \<in> set live \<union> set (remoteEvents s)" if "e \<in> set shown" for e
    using that by (auto simp: set_feed_sources split: if_splits)
  show "e \<in> set shown \<or> (\<exists>x \<in> set shown. truthy_id x = truthy_id e \<and> truthy_id e \<noteq> None)"
    if "e \<in> set (feed_sources L layout live s)" for e
    using dedupe_covers [OF that, of "{}"] unfolding all by auto
  show "List.find (\<lambda>x. truthy_id x = Some i) (feed_sources L layout live s) = Some e"
    if "e \<in> set shown" "truthy_id e = Some i" for e i
    using that dedupe_first unfolding all by blast
  have gs: "gs = group_rows (\<lambda>e. json_text (json_field ''camera_id'' e)) shown"
    using assms(3) by (auto simp: grouped_def split: if_splits)
  then show groups: "groups_of (\<lambda>e. json_text (json_field ''camera_id'' e)) shown gs" by (simp add: groups_of_rows)
  show "mset (concat (map snd gs)) = mset shown" by (rule groups_of_mset [OF groups])
qed

text \<open>The queries of a scope of several cameras leave room for 200 rows; from the fifth camera on
  they return more rows than are shown.\<close>

lemma perCam_enough: "0 < n \<Longrightarrow> 200 \<le> perCam n * int n"
proof -
  assume n: "0 < n"
  have "(200 :: number) / of_nat n \<le> of_int (perCam n)" unfolding perCam_def by linarith
  then have "(200 :: number) \<le> of_int (perCam n * int n)" using n by (simp add: divide_le_eq)
  then show ?thesis by linarith
qed

lemma perCam_overflows: "4 < n \<Longrightarrow> 200 < perCam n * int n"
proof -
  assume "4 < n"
  then have "50 * 5 \<le> perCam n * int n" by (intro mult_mono) (simp_all add: perCam_def)
  then show ?thesis by simp
qed

lemma sorted_prefix_excludes:
  assumes "sorted (map f ys)" "\<And>a b. a \<in> set ys \<Longrightarrow> b \<in> set ys \<Longrightarrow> \<not> P a \<Longrightarrow> P b \<Longrightarrow> f a < f b"
    and "n \<le> length (filter (\<lambda>y. \<not> P y) ys)"
  shows "filter P (take n ys) = []"
proof (rule ccontr)
  assume "filter P (take n ys) \<noteq> []"
  then obtain i where i: "i < n" "i < length ys" "P (ys ! i)"
    by (auto simp: filter_empty_conv in_set_conv_nth)
  have "P (ys ! j)" if "i \<le> j" "j < length ys" for j
  proof (rule ccontr)
    assume "\<not> P (ys ! j)"
    then have "f (ys ! j) < f (ys ! i)" using assms(2) i that by simp
    moreover have "f (ys ! i) \<le> f (ys ! j)" using sorted_nth_mono [OF assms(1) that(1)] i that by simp
    ultimately show False by simp
  qed
  then have "filter (\<lambda>y. \<not> P y) (drop i ys) = []"
    by (auto simp: filter_empty_conv in_set_conv_nth)
  then have "filter (\<lambda>y. \<not> P y) ys = filter (\<lambda>y. \<not> P y) (take i ys)"
    by (metis append_Nil2 append_take_drop_id filter_append)
  then have "length (filter (\<lambda>y. \<not> P y) ys) \<le> i" by (simp add: le_trans [OF length_filter_le])
  with assms(3) i(1) show False by simp
qed

text \<open>Sorted by time, the feed shows nothing of a camera all of whose events are older than 200
  others in the selection, although every camera of the selection is queried on its own.\<close>

theorem low_volume_camera_starved:
  fixes L :: Locale and cams :: "json list" and layout :: "string list" and live :: "json list" and s :: EventPanel
    and of_cam :: "json \<Rightarrow> bool"
  defines "rows \<equiv> dedupe {} (feed_sources L layout live s)"
  assumes "sortMode s = Sort_newest" "valid_times (loc_date_ms L) rows"
    and "200 \<le> length (filter (\<lambda>e. \<not> of_cam e) rows)"
    and "\<forall>e \<in> set rows. \<forall>r \<in> set rows. of_cam e \<and> \<not> of_cam r \<longrightarrow> newer (loc_date_ms L) r e"
  shows "filter of_cam (displayedEvents L cams layout live s) = []"
proof -
  let ?f = "\<lambda>e. - the (event_ms (loc_date_ms L) e)"
  have newer: "newer (loc_date_ms L) a b \<longleftrightarrow> ?f a < ?f b" if "a \<in> set rows" "b \<in> set rows" for a b
    using assms(3) that by (intro newer_valid) auto
  have "js_sort (feed_before L cams (sortMode s)) rows = js_sort (\<lambda>a b. ?f a < ?f b) rows"
    by (rule js_sort_cong) (simp add: feed_before_def assms(2) newer)
  then have shown: "displayedEvents L cams layout live s = take 200 (sort_key ?f rows)"
    unfolding displayedEvents_def rows_def [symmetric] by (simp only: js_sort_eq_sort_key)
  have "length (filter (\<lambda>e. \<not> of_cam e) (sort_key ?f rows)) = length (filter (\<lambda>e. \<not> of_cam e) rows)"
    by (metis mset_filter mset_sort size_mset)
  then show ?thesis
    unfolding shown using assms(4,5) newer by (intro sorted_prefix_excludes [where f = ?f]) auto
qed


lemma dedupe_no_ids: "\<forall>e \<in> set es. truthy_id e = None \<Longrightarrow> dedupe seen es = es"
  by (induction es) auto

definition plain_locale :: Locale where
  "plain_locale = \<lparr> loc_compare = (\<lambda>_ _. 0), loc_date_ms = (\<lambda>t. Some (int (length t))),
     loc_parse_float = (\<lambda>_. None), loc_fraction = (\<lambda>_. []) \<rparr>"

definition feed_event :: "string \<Rightarrow> string \<Rightarrow> json" where
  "feed_event cam time = JObj [(''event_type'', JStr ''motion''), (''camera_id'', JStr cam), (''event_time'', JStr time)]"

lemma feed_event_simps:
  "truthy_id (feed_event c t) = None" "event_type (feed_event c t) = ''motion''"
  "event_ms (loc_date_ms plain_locale) (feed_event c t) = Some (int (length t))"
  by (simp_all add: feed_event_def truthy_id_def event_type_def event_ms_def plain_locale_def json_field_def json_text_def)

lemma feed_event_fits: "matchesFilters f [] (initial_panel 0 0) (feed_event c t)"
  by (simp add: matchesFilters_def initial_panel_def effectiveCameraIds_def feed_event_simps FEED_TYPES_def)

theorem low_volume_camera_starved_witness:
  "filter (\<lambda>e. e = feed_event ''quiet'' ''t'')
     (displayedEvents plain_locale [] [] (feed_event ''quiet'' ''t'' # replicate 200 (feed_event ''busy'' ''tt''))
       (initial_panel 0 0)) = []"
proof -
  let ?rows = "feed_event ''quiet'' ''t'' # replicate 200 (feed_event ''busy'' ''tt'')"
  have src: "feed_sources plain_locale [] ?rows (initial_panel 0 0) = ?rows"
    by (simp add: feed_sources_def Let_def feed_event_fits) (simp add: initial_panel_def)
  have rows: "dedupe {} (feed_sources plain_locale [] ?rows (initial_panel 0 0)) = ?rows"
    unfolding src by (rule dedupe_no_ids) (auto simp: feed_event_simps)
  have ne: "feed_event ''busy'' ''tt'' \<noteq> feed_event ''quiet'' ''t''" by (simp add: feed_event_def)
  show ?thesis
  proof (rule low_volume_camera_starved)
    show "sortMode (initial_panel 0 0) = Sort_newest" by (simp add: initial_panel_def)
  qed (unfold rows, auto simp: ne feed_event_simps newer_def)
qed

theorem feed_faithful_witness:
  "\<exists>gs. grouped [] (displayedEvents plain_locale [] [] [feed_event ''c'' ''t''] ((initial_panel 0 0)\<lparr> groupByCamera := True \<rparr>))
         ((initial_panel 0 0)\<lparr> groupByCamera := True \<rparr>) = Some gs
     \<and> mset (concat (map snd gs)) = mset (displayedEvents plain_locale [] [] [feed_event ''c'' ''t'']
         ((initial_panel 0 0)\<lparr> groupByCamera := True \<rparr>))"
proof -
  let ?s = "(initial_panel 0 0)\<lparr> groupByCamera := True \<rparr>"
  let ?shown = "displayedEvents plain_locale [] [] [feed_event ''c'' ''t''] ?s"
  obtain gs where gs: "grouped [] ?shown ?s = Some gs" by (simp add: grouped_def)
  have "length (dedupe {} (feed_sources plain_locale [] [feed_event ''c'' ''t''] ?s)) \<le> 200"
    by (simp add: feed_sources_def Let_def initial_panel_def feed_event_simps)
  from feed_faithful [OF this gs] gs show ?thesis by blast
qed

text \<open>Fetching settles: the panel leaves the loading state whatever the server does, and an
  invalid typed date gives an empty list instead of an error.\<close>

lemma map_io_total:
  assumes "\<And>x w. \<exists>w' y. g x w = (w', Inr y)"
  shows "\<exists>w' ys. map_io g xs w = (w', Inr ys)"
proof (induction xs arbitrary: w)
  case (Cons x xs)
  obtain w1 y where 1: "g x w = (w1, Inr y)" using assms by blast
  obtain w2 ys where 2: "map_io g xs w1 = (w2, Inr ys)" using Cons by blast
  show ?case by (simp add: bind_io_def return_io_def 1 2)
qed (simp add: return_io_def)

lemma query_feed_total: "\<exists>w' xs. query_feed layout s st en w = (w', Inr xs)"
proof -
  let ?ids = "effectiveCameraIds layout s"
  have q: "\<exists>w' xs. queryEvents p w = (w', Inr (JArr xs))" for p w
    using list_reads_never_fail by blast
  have t: "\<exists>w' y. try_io (queryEvents p) (return_io (JArr [])) w = (w', Inr y)" for p w
    using q [of p w] by (auto simp: try_io_def)
  show ?thesis
  proof (cases "length ?ids > 1")
    case True
    obtain w' ys where "map_io (\<lambda>i. try_io (queryEvents (feed_params s st en (Some i) (perCam (length ?ids))))
        (return_io (JArr []))) ?ids w = (w', Inr ys)"
      using map_io_total [where g = "\<lambda>i. try_io (queryEvents (feed_params s st en (Some i) (perCam (length ?ids))))
        (return_io (JArr []))"] t by blast
    with True show ?thesis by (simp add: query_feed_def bind_io_def return_io_def Let_def)
  next
    case False
    obtain w' xs where "queryEvents (feed_params s st en (case ?ids of [] \<Rightarrow> None | i # _ \<Rightarrow> Some i) 200) w = (w', Inr (JArr xs))"
      using q by blast
    with False show ?thesis by (simp add: query_feed_def bind_io_def return_io_def Let_def)
  qed
qed

theorem fetch_feed_settles:
  "\<exists>w' s'. fetchEvents date_ms now layout s w = (w', Inr s') \<and> \<not> panel_loading s'
     \<and> (feed_range date_ms now s = None \<longrightarrow> remoteEvents s' = [])"
proof (cases "feed_range date_ms now s")
  case None
  then show ?thesis by (simp add: fetchEvents_def bind_io_def try_io_def throw_io_def return_io_def)
next
  case (Some r)
  obtain st en where r: "r = (st, en)" by (cases r)
  obtain w' xs where "query_feed layout s st en w = (w', Inr xs)" using query_feed_total by blast
  with Some r show ?thesis by (simp add: fetchEvents_def bind_io_def try_io_def return_io_def)
qed

section \<open>Boxes\<close>

definition in_unit_square :: "NormBox \<Rightarrow> bool" where
  "in_unit_square b \<longleftrightarrow> 0 \<le> nx b \<and> 0 \<le> ny b \<and> 0 \<le> nw b \<and> 0 \<le> nh b \<and> nx b + nw b \<le> 1 \<and> ny b + nh b \<le> 1"

definition in_frame :: "number \<Rightarrow> number \<Rightarrow> number \<times> number \<times> number \<times> number \<Rightarrow> bool" where
  "in_frame fw fh = (\<lambda>(x, y, w, h). 0 \<le> x \<and> 0 \<le> y \<and> 0 \<le> w \<and> 0 \<le> h \<and> x + w \<le> fw \<and> y + h \<le> fh)"

text \<open>A box inside the frame it was measured in is drawn inside the picture. Boxes of the
  Milesight track are measured in the analytics frame; the others in the rendered frame when
  a coordinate exceeds 1 and in the unit square otherwise.\<close>

theorem boxes_inside_picture:
  assumes "norm_box Number_str isMilesight fw fh b = Some nb" "raw_box Number_str b = Some (x, y, w, h)"
    and "if isMilesight \<or> x > 1 \<or> y > 1 \<or> w > 1 \<or> h > 1 then in_frame fw fh (x, y, w, h) else in_frame 1 1 (x, y, w, h)"
  shows "in_unit_square nb"
proof (cases "isMilesight \<or> x > 1 \<or> y > 1 \<or> w > 1 \<or> h > 1")
  case True
  with assms(1,2) have pos: "0 < fw" "0 < fh"
    and nb: "nx nb = x / fw" "ny nb = y / fh" "nw nb = w / fw" "nh nb = h / fh"
    by (auto simp: norm_box_def Let_def split: json.splits if_splits)
  from True assms(3) pos show ?thesis
    by (simp add: in_unit_square_def nb in_frame_def flip: add_divide_distrib)
next
  case False
  with assms show ?thesis
    by (auto simp: norm_box_def in_unit_square_def in_frame_def Let_def split: json.splits)
qed

theorem boxes_inside_picture_witness:
  "\<exists>nb. norm_box (\<lambda>_. None) True 320 180 (JObj [(''x'', JNum 32), (''y'', JNum 18), (''w'', JNum 64), (''h'', JNum 36)]) = Some nb
     \<and> in_unit_square nb"
proof -
  let ?b = "JObj [(''x'', JNum 32), (''y'', JNum 18), (''w'', JNum 64), (''h'', JNum 36)]"
  have raw: "raw_box (\<lambda>_. None) ?b = Some (32, 18, 64, 36)"
    by (simp add: raw_box_def js_Number_def json_field_def Let_def)
  obtain nb where nb: "norm_box (\<lambda>_. None) True 320 180 ?b = Some nb"
    by (simp add: norm_box_def raw Let_def)
  have "in_unit_square nb" by (rule boxes_inside_picture [OF nb raw]) (simp add: in_frame_def)
  with nb show ?thesis by blast
qed

end
