(* ===== verification/Toasts.thy ===== *)
theory Toasts
  imports Operator_Store
begin

text \<open>
  Short-lived notices: the alert toasts of the operator console
  (\<^verbatim>\<open>components/operator/AlertToastSystem.tsx\<close>) and the page toasts
  (\<^verbatim>\<open>components/ToastProvider.tsx\<close>). Both hold a list of notices and callbacks the browser
  will run later (timers, animation frames); the order in which it runs them is left open.

  Both are instances of the locale \<open>draining\<close>.
\<close>

text \<open>Removing the \<open>k\<close>-th of the pending callbacks.\<close>

definition remove_nth :: "nat \<Rightarrow> 'a list \<Rightarrow> 'a list" where
  "remove_nth k xs = take k xs @ drop (Suc k) xs"

lemma remove_nth_split: "k < length xs \<Longrightarrow> mset xs = add_mset (xs ! k) (mset (remove_nth k xs))"
  unfolding remove_nth_def by (metis add_mset_add_single append_take_drop_id Cons_nth_drop_Suc mset.simps(2) mset_append union_mset_add_mset_right)

lemma in_remove_nth: "k < length xs \<Longrightarrow> x \<in> set xs \<longleftrightarrow> x = xs ! k \<or> x \<in> set (remove_nth k xs)"
  using remove_nth_split [of k xs] by (metis insert_iff set_mset_add_mset_insert set_mset_mset)

lemma sum_list_remove_nth: "k < length xs \<Longrightarrow> sum_list (map f xs) = f (xs ! k) + sum_list (map f (remove_nth k xs))" for f :: "'a \<Rightarrow> nat"
  using remove_nth_split [of k xs] by (metis sum_mset_sum_list mset_map image_mset_add_mset sum_mset.insert)

section \<open>Alert toasts\<close>

datatype permission = Perm_granted | Perm_denied | Perm_default

record NotifyEnv =
  notifications_supported :: bool
  has_focus :: bool
  notify_permission :: permission

datatype toast_out = Sound Severity | Notify AlertEvent bool | RequestPermission

record AlertToast =
  toast_id :: string
  toast_alert :: AlertEvent
  createdAt :: ms
  exiting :: bool

definition TOAST_DURATION :: ms where
  "TOAST_DURATION = 6000"

definition MAX_TOASTS :: nat where
  "MAX_TOASTS = 4"

datatype toast_timer = ExitTimer string | RemoveTimer string

record AlertToasts =
  toasts :: "AlertToast list"
  toast_timers :: "toast_timer list"

definition sounds :: "Severity \<Rightarrow> bool" where
  "sounds sev = (case sev of Sev_critical \<Rightarrow> True | Sev_high \<Rightarrow> True | Sev_medium \<Rightarrow> False | Sev_low \<Rightarrow> False)"

definition sendBrowserNotification :: "NotifyEnv \<Rightarrow> AlertEvent \<Rightarrow> toast_out list" where
  "sendBrowserNotification env a =
     (if \<not> notifications_supported env \<or> has_focus env then []
      else case notify_permission env of
        Perm_granted \<Rightarrow> [Notify a (ae_severity a = Sev_critical)]
      | Perm_denied \<Rightarrow> []
      | Perm_default \<Rightarrow> [RequestPermission])"

definition pushToast :: "NotifyEnv \<Rightarrow> ms \<Rightarrow> AlertEvent \<Rightarrow> AlertToasts \<Rightarrow> AlertToasts \<times> toast_out list" where
  "pushToast env now a s =
     (let i = ''toast-'' @ ae_id a @ ''-'' @ int_str now;
          toast = \<lparr> toast_id = i, toast_alert = a, createdAt = now, exiting = False \<rparr> in
      (s\<lparr> toasts := take MAX_TOASTS (toast # toasts s), toast_timers := toast_timers s @ [ExitTimer i] \<rparr>,
       (if sounds (ae_severity a) then [Sound (ae_severity a)] else []) @
       (if ae_severity a \<in> {Sev_critical, Sev_high} then sendBrowserNotification env a else [])))"

definition mark_exiting :: "string \<Rightarrow> AlertToast list \<Rightarrow> AlertToast list" where
  "mark_exiting i = map (\<lambda>t. if toast_id t = i then t\<lparr> exiting := True \<rparr> else t)"

definition dismissToast :: "string \<Rightarrow> AlertToasts \<Rightarrow> AlertToasts" where
  "dismissToast i s = s\<lparr> toasts := mark_exiting i (toasts s), toast_timers := toast_timers s @ [RemoveTimer i] \<rparr>"

text \<open>The \<open>k\<close>-th pending timer fires.\<close>

definition fire_toast_timer :: "nat \<Rightarrow> AlertToasts \<Rightarrow> AlertToasts" where
  "fire_toast_timer k s =
     (if k mod length (toast_timers s) < length (toast_timers s) then
        (let j = k mod length (toast_timers s); rest = remove_nth j (toast_timers s) in
         case toast_timers s ! j of
           ExitTimer i \<Rightarrow> s\<lparr> toasts := mark_exiting i (toasts s), toast_timers := rest @ [RemoveTimer i] \<rparr>
         | RemoveTimer i \<Rightarrow> s\<lparr> toasts := filter (\<lambda>t. toast_id t \<noteq> i) (toasts s), toast_timers := rest \<rparr>)
      else s)"

datatype toast_event = PushToast NotifyEnv ms AlertEvent | DismissToast string | ToastTimer nat

definition toast_step :: "toast_event \<Rightarrow> AlertToasts \<Rightarrow> AlertToasts" where
  "toast_step e s =
     (case e of
        PushToast env now a \<Rightarrow> fst (pushToast env now a s)
      | DismissToast i \<Rightarrow> dismissToast i s
      | ToastTimer k \<Rightarrow> fire_toast_timer k s)"

definition toast_inv :: "AlertToasts \<Rightarrow> bool" where
  "toast_inv s \<longleftrightarrow> length (toasts s) \<le> MAX_TOASTS
     \<and> (\<forall>t \<in> set (toasts s). ExitTimer (toast_id t) \<in> set (toast_timers s) \<or> RemoveTimer (toast_id t) \<in> set (toast_timers s))"

definition toast_work :: "toast_timer \<Rightarrow> nat" where
  "toast_work t = (case t of ExitTimer _ \<Rightarrow> 2 | RemoveTimer _ \<Rightarrow> 1)"

definition toasts_pending :: "AlertToasts \<Rightarrow> nat" where
  "toasts_pending s = sum_list (map toast_work (toast_timers s))"

lemma toast_ids_mark_exiting: "t \<in> set (mark_exiting i ts) \<Longrightarrow> toast_id t \<in> toast_id ` set ts"
  by (auto simp: mark_exiting_def)

lemma toast_inv_fire: "toast_inv s \<Longrightarrow> toast_inv (fire_toast_timer k s)"
proof (cases "toast_timers s = []")
  case False
  assume inv: "toast_inv s"
  let ?j = "k mod length (toast_timers s)"
  have j: "?j < length (toast_timers s)" using False by simp
  note mem = in_remove_nth [OF j]
  show ?thesis
  proof (cases "toast_timers s ! ?j")
    case (ExitTimer i)
    with inv j show ?thesis
      by (auto simp: toast_inv_def fire_toast_timer_def mem mark_exiting_def)
  next
    case (RemoveTimer i)
    have "length (filter (\<lambda>t. toast_id t \<noteq> i) (toasts s)) \<le> MAX_TOASTS"
      using inv length_filter_le [of _ "toasts s"] le_trans unfolding toast_inv_def by blast
    with RemoveTimer inv j show ?thesis
      by (auto simp: toast_inv_def fire_toast_timer_def mem)
  qed
qed (simp add: fire_toast_timer_def)

lemma toasts_pending_fire:
  assumes "0 < toasts_pending s"
  shows "toasts_pending (fire_toast_timer k s) < toasts_pending s"
proof -
  let ?j = "k mod length (toast_timers s)"
  have "toast_timers s \<noteq> []" using assms by (auto simp: toasts_pending_def)
  then have j: "?j < length (toast_timers s)" by simp
  show ?thesis
    using sum_list_remove_nth [OF j, of toast_work] j
    by (cases "toast_timers s ! ?j") (simp_all add: toasts_pending_def fire_toast_timer_def toast_work_def Let_def)
qed

lemma toast_work_pos [simp]: "0 < toast_work t"
  by (cases t) (simp_all add: toast_work_def)

lemma toasts_pending_zero: "toasts_pending s = 0 \<longleftrightarrow> toast_timers s = []"
  by (cases "toast_timers s") (simp_all add: toasts_pending_def)

interpretation alert_toasts: draining fire_toast_timer toasts_pending toast_inv toasts
proof
  show "toast_inv (fire_toast_timer k s)" if "toast_inv s" for s k using that by (rule toast_inv_fire)
  show "toasts_pending (fire_toast_timer k s) < toasts_pending s" if "0 < toasts_pending s" for s k
    using that by (rule toasts_pending_fire)
  show "toasts_pending (fire_toast_timer k s) = 0" if "toasts_pending s = 0" for s k
    using that by (simp add: toasts_pending_zero fire_toast_timer_def)
  show "toasts s = []" if "toast_inv s" "toasts_pending s = 0" for s
    using that by (auto simp: toast_inv_def toasts_pending_zero)
qed

lemma toast_inv_step: "toast_inv s \<Longrightarrow> toast_inv (toast_step e s)"
proof (cases e)
  case (PushToast env now a)
  assume inv: "toast_inv s"
  have "t \<in> set (take MAX_TOASTS (x # ts)) \<Longrightarrow> t = x \<or> t \<in> set ts" for t x and ts :: "AlertToast list"
    using in_set_takeD [of t MAX_TOASTS "x # ts"] by auto
  with PushToast inv show ?thesis
    by (fastforce simp: toast_step_def pushToast_def Let_def toast_inv_def)
next
  case (DismissToast i)
  assume "toast_inv s"
  with DismissToast show ?thesis
    by (auto simp: toast_step_def dismissToast_def toast_inv_def mark_exiting_def)
qed (simp add: toast_step_def toast_inv_fire)

lemma toast_inv_empty: "toasts s = [] \<Longrightarrow> toast_inv s"
  by (simp add: toast_inv_def)

interpretation toast_machine: machine toast_step "\<lambda>s. toasts s = [] \<and> toast_timers s = []" toast_inv
  by unfold_locales (auto intro: toast_inv_step toast_inv_empty)

text \<open>After any pushes, dismissals and timers at most four alert toasts are shown, and once the
  pending timers have run, in whatever order the browser runs them, none is left.\<close>

theorem alert_toasts_vanish:
  assumes "reach toast_step (\<lambda>s. toasts s = [] \<and> toast_timers s = []) s"
    and "toasts_pending s \<le> length ks"
  shows "length (toasts s) \<le> 4 \<and> toasts (fold fire_toast_timer ks s) = []"
  using toast_machine.inv_reach [OF assms(1)] alert_toasts.drains [OF _ assms(2)]
  by (simp add: toast_inv_def MAX_TOASTS_def)


theorem alert_toasts_vanish_witness:
  "toasts (fold fire_toast_timer [0, 0]
     (fst (pushToast \<lparr> notifications_supported = False, has_focus = True, notify_permission = Perm_default \<rparr> 5
       (alert_fixture ''a'' None 0 None) \<lparr> toasts = [], toast_timers = [] \<rparr>))) = []"
proof -
  let ?env = "\<lparr> notifications_supported = False, has_focus = True, notify_permission = Perm_default \<rparr>"
  let ?init = "\<lparr> toasts = [], toast_timers = [] \<rparr>"
  let ?s = "fst (pushToast ?env 5 (alert_fixture ''a'' None 0 None) ?init)"
  have step: "?s = toast_step (PushToast ?env 5 (alert_fixture ''a'' None 0 None)) ?init" by (simp add: toast_step_def)
  have "reach toast_step (\<lambda>s. toasts s = [] \<and> toast_timers s = []) ?s"
    unfolding step by (rule reach_step, rule reach_start) simp
  moreover have "toasts_pending ?s \<le> length [0 :: nat, 0]"
    by (simp add: pushToast_def Let_def toasts_pending_def toast_work_def)
  ultimately show ?thesis using alert_toasts_vanish by blast
qed

section \<open>Page toasts\<close>

record PageToast =
  pt_id :: string
  pt_title :: string
  pt_duration :: "ms option"
  pt_visible :: bool

text \<open>
  Callbacks: the frame that shows a notice, the frame of its progress bar (with the time it
  was mounted and its duration) and the timer that removes it. A removed notice unmounts its
  bar, whose frame is cancelled.
\<close>

datatype toast_callback = ShowFrame string | BarFrame string ms ms | RemoveNotice string

record ToastProvider =
  pt_toasts :: "PageToast list"
  pt_callbacks :: "toast_callback list"
  pt_enabled :: bool

definition toasts_mount :: "string option \<Rightarrow> ToastProvider" where
  "toasts_mount stored =
     \<lparr> pt_toasts = [], pt_callbacks = [],
       pt_enabled = (case stored of None \<Rightarrow> True | Some v \<Rightarrow> v \<noteq> ''false'') \<rparr>"

definition setEnabled :: "bool \<Rightarrow> ToastProvider \<Rightarrow> ToastProvider \<times> (string \<times> string)" where
  "setEnabled v s = (s\<lparr> pt_enabled := v \<rparr>, (''onvif_toasts_enabled'', if v then ''true'' else ''false''))"

definition set_visible :: "bool \<Rightarrow> string \<Rightarrow> PageToast list \<Rightarrow> PageToast list" where
  "set_visible v i = map (\<lambda>t. if pt_id t = i then t\<lparr> pt_visible := v \<rparr> else t)"

definition dismiss :: "string \<Rightarrow> ToastProvider \<Rightarrow> ToastProvider" where
  "dismiss i s = s\<lparr> pt_toasts := set_visible False i (pt_toasts s), pt_callbacks := pt_callbacks s @ [RemoveNotice i] \<rparr>"

definition push_toast :: "string \<Rightarrow> ms \<Rightarrow> string \<Rightarrow> ms option \<Rightarrow> ToastProvider \<Rightarrow> ToastProvider" where
  "push_toast i now title duration s =
     (if \<not> pt_enabled s then s
      else s\<lparr> pt_toasts := pt_toasts s @ [\<lparr> pt_id = i, pt_title = title, pt_duration = duration, pt_visible = False \<rparr>],
              pt_callbacks := pt_callbacks s @ [ShowFrame i, BarFrame i now (nullish duration 4000)] \<rparr>)"

text \<open>The width of the bar; a notice of no duration is over at once.\<close>

definition bar_pct :: "ms \<Rightarrow> ms \<Rightarrow> ms \<Rightarrow> number" where
  "bar_pct start duration now =
     (if duration = 0 then 0 else max 0 (100 - of_int (now - start) / of_int duration * 100))"

definition of_toast :: "string \<Rightarrow> toast_callback \<Rightarrow> bool" where
  "of_toast i c = (case c of BarFrame j _ _ \<Rightarrow> j = i | _ \<Rightarrow> False)"

definition run_callback :: "ms \<Rightarrow> toast_callback \<Rightarrow> ToastProvider \<Rightarrow> ToastProvider" where
  "run_callback now c s =
     (case c of
        ShowFrame i \<Rightarrow> s\<lparr> pt_toasts := set_visible True i (pt_toasts s) \<rparr>
      | BarFrame i start duration \<Rightarrow>
          if bar_pct start duration now > 0 then s\<lparr> pt_callbacks := pt_callbacks s @ [c] \<rparr>
          else dismiss i s
      | RemoveNotice i \<Rightarrow>
          s\<lparr> pt_toasts := filter (\<lambda>t. pt_id t \<noteq> i) (pt_toasts s),
             pt_callbacks := filter (\<lambda>c. \<not> of_toast i c) (pt_callbacks s) \<rparr>)"

definition fire_callback :: "ms \<Rightarrow> nat \<Rightarrow> ToastProvider \<Rightarrow> ToastProvider" where
  "fire_callback now k s =
     (let j = k mod length (pt_callbacks s) in
      if j < length (pt_callbacks s)
      then run_callback now (pt_callbacks s ! j) (s\<lparr> pt_callbacks := remove_nth j (pt_callbacks s) \<rparr>)
      else s)"

definition callback_work :: "toast_callback \<Rightarrow> nat" where
  "callback_work c = (case c of BarFrame _ _ _ \<Rightarrow> 2 | _ \<Rightarrow> 1)"

definition notices_pending :: "ToastProvider \<Rightarrow> nat" where
  "notices_pending s = sum_list (map callback_work (pt_callbacks s))"

definition bar_over :: "ms \<Rightarrow> toast_callback \<Rightarrow> bool" where
  "bar_over now c = (case c of BarFrame _ start duration \<Rightarrow> 0 \<le> duration \<and> start + duration \<le> now | _ \<Rightarrow> True)"

definition notice_has_end :: "ToastProvider \<Rightarrow> bool" where
  "notice_has_end s \<longleftrightarrow> (\<forall>t \<in> set (pt_toasts s).
     RemoveNotice (pt_id t) \<in> set (pt_callbacks s) \<or> (\<exists>st d. BarFrame (pt_id t) st d \<in> set (pt_callbacks s)))"

definition notice_inv :: "ms \<Rightarrow> ToastProvider \<Rightarrow> bool" where
  "notice_inv now s \<longleftrightarrow> notice_has_end s \<and> (\<forall>c \<in> set (pt_callbacks s). bar_over now c)"

lemma bar_over_pct: "bar_over now (BarFrame i st d) \<Longrightarrow> bar_pct st d now = 0"
proof -
  assume "bar_over now (BarFrame i st d)"
  then have d: "0 \<le> d" "d \<le> now - st" by (simp_all add: bar_over_def)
  have "(1 :: number) \<le> of_int (now - st) / of_int d" if "d \<noteq> 0"
    using d that by (simp add: le_divide_eq del: of_int_diff)
  then have "(1 :: number) * 100 \<le> of_int (now - st) / of_int d * 100" if "d \<noteq> 0"
    using that by (intro mult_right_mono) simp_all
  then have "100 - of_int (now - st) / of_int d * 100 \<le> (0 :: number)" if "d \<noteq> 0"
    using that by (simp only: diff_le_0_iff_le mult_1 not_False_eq_True)
  then show ?thesis by (auto simp: bar_pct_def simp del: of_int_diff)
qed

lemma set_visible_ids: "t \<in> set (set_visible v i ts) \<Longrightarrow> pt_id t \<in> pt_id ` set ts"
  by (auto simp: set_visible_def)

lemma sum_list_filter_le: "sum_list (map f (filter P xs)) \<le> sum_list (map f xs)" for f :: "'a \<Rightarrow> nat"
  by (induction xs) auto


lemma notice_inv_run:
  assumes inv: "notice_inv now s" and k: "k < length (pt_callbacks s)"
  defines "r \<equiv> s\<lparr> pt_callbacks := remove_nth k (pt_callbacks s) \<rparr>"
  shows "notice_inv now (run_callback now (pt_callbacks s ! k) r)"
    "notices_pending (run_callback now (pt_callbacks s ! k) r) < notices_pending s"
proof -
  note mem = in_remove_nth [OF k]
  have over: "bar_over now (pt_callbacks s ! k)" using inv k by (simp add: notice_inv_def)
  have work: "notices_pending s = callback_work (pt_callbacks s ! k) + notices_pending r"
    by (simp add: notices_pending_def r_def sum_list_remove_nth [OF k])
  show "notice_inv now (run_callback now (pt_callbacks s ! k) r)"
  proof (cases "pt_callbacks s ! k")
    case (ShowFrame i)
    with inv show ?thesis
      by (auto simp: notice_inv_def notice_has_end_def run_callback_def r_def mem set_visible_def)
  next
    case (BarFrame i st d)
    with inv over bar_over_pct [of now i st d] show ?thesis
      by (auto simp: notice_inv_def notice_has_end_def run_callback_def r_def mem set_visible_def dismiss_def bar_over_def)
  next
    case (RemoveNotice i)
    with inv show ?thesis
      by (fastforce simp: notice_inv_def notice_has_end_def run_callback_def r_def mem of_toast_def)
  qed
  show "notices_pending (run_callback now (pt_callbacks s ! k) r) < notices_pending s"
  proof (cases "pt_callbacks s ! k")
    case (BarFrame i st d)
    with work over bar_over_pct [of now i st d] show ?thesis
      by (simp add: run_callback_def dismiss_def notices_pending_def callback_work_def)
  next
    case (RemoveNotice i)
    with work sum_list_filter_le [of callback_work "\<lambda>c. \<not> of_toast i c" "pt_callbacks r"] show ?thesis
      by (simp add: run_callback_def notices_pending_def callback_work_def)
  qed (use work in \<open>simp add: run_callback_def notices_pending_def callback_work_def\<close>)
qed

lemma notices_pending_zero: "notices_pending s = 0 \<longleftrightarrow> pt_callbacks s = []"
  by (cases "pt_callbacks s") (simp_all add: notices_pending_def callback_work_def split: toast_callback.splits)

interpretation page_toasts: draining "fire_callback now" notices_pending "notice_inv now" pt_toasts for now
proof
  show "notice_inv now (fire_callback now k s)" if "notice_inv now s" for s k
    using notice_inv_run(1) [OF that] that by (simp add: fire_callback_def Let_def)
  show "notices_pending (fire_callback now k s) < notices_pending s" if "notice_inv now s" "0 < notices_pending s" for s k
    using notice_inv_run(2) [OF that(1)] that(2) notices_pending_zero [of s] by (simp add: fire_callback_def Let_def)
  show "notices_pending (fire_callback now k s) = 0" if "notices_pending s = 0" for s k
    using that by (simp add: notices_pending_zero fire_callback_def)
  show "pt_toasts s = []" if "notice_inv now s" "notices_pending s = 0" for s
    using that by (auto simp: notice_inv_def notice_has_end_def notices_pending_zero)
qed

text \<open>Once the duration of every page toast is over, the pending frames and timers remove all of
  them, in whatever order they run; and pushing keeps every toast supplied with the callback
  that will end it.\<close>

theorem page_toasts_vanish:
  assumes "notice_has_end s" "\<forall>c \<in> set (pt_callbacks s). bar_over now c"
    and "notices_pending s \<le> length ks"
  shows "pt_toasts (fold (fire_callback now) ks s) = []
    \<and> notice_has_end (push_toast i t title d s) \<and> notice_has_end (dismiss i s)"
proof (intro conjI)
  show "pt_toasts (fold (fire_callback now) ks s) = []"
    using assms by (intro page_toasts.drains) (simp_all add: notice_inv_def)
  show "notice_has_end (push_toast i t title d s)"
    using assms(1) by (auto simp: notice_has_end_def push_toast_def)
  show "notice_has_end (dismiss i s)"
    using assms(1) by (auto simp: notice_has_end_def dismiss_def set_visible_def)
qed

theorem page_toasts_vanish_witness:
  "pt_toasts (fold (fire_callback 5000) [0, 1, 0] (push_toast ''x'' 0 ''Saved'' None (toasts_mount None))) = []"
proof -
  let ?s = "push_toast ''x'' 0 ''Saved'' None (toasts_mount None)"
  have cbs: "pt_callbacks ?s = [ShowFrame ''x'', BarFrame ''x'' 0 4000]"
    by (simp add: push_toast_def toasts_mount_def)
  have "notice_has_end ?s" by (simp add: notice_has_end_def cbs) (simp add: push_toast_def toasts_mount_def)
  moreover have "\<forall>c \<in> set (pt_callbacks ?s). bar_over 5000 c" by (simp add: cbs bar_over_def)
  moreover have "notices_pending ?s \<le> length [0 :: nat, 1, 0]" by (simp add: notices_pending_def cbs callback_work_def)
  ultimately show ?thesis using page_toasts_vanish by blast
qed

end
