(* ===== verification/Alarm_View.thy ===== *)
theory Alarm_View
  imports Operator_Input Nvr_Api Platform_Api Json
begin

text \<open>
  Handling one alarm: the view \<^verbatim>\<open>components/operator/ActiveAlarmView.tsx\<close>, over the
  operator store and the platform API. A submission is split at its awaits: the page is a machine
  whose steps are what the handler does up to the next answer, and everything else on the page
  can happen in between (a request and its answer are one step of the world, taken when the
  answer comes). A handler reads the alarm and the action log of the render it was
  created in.
\<close>

section \<open>State\<close>

datatype view_mode = View_snapshot | View_clip | View_live
datatype workflow_tab = Tab_assess | Tab_respond | Tab_resolve

record AlarmView =
  selectedChildAlarm :: "AlertEvent option"
  viewMode :: view_mode
  showBoxes :: bool
  workflowTab :: workflow_tab
  sops :: "(id \<times> string list) list"  \<comment> \<open>identifier and steps\<close>
  sopChecked :: "(id \<times> bool list) list"
  disposition :: "DispositionCode option"
  operatorNotes :: string
  avsFactors :: AVSFactors
  submitting :: bool
  alarm_keys :: Keybinds
  recentEvents :: "json list"
  showEscalateConfirm :: bool
  showDeterrence :: bool
  deterrenceBusy :: bool
  deterrenceStatus :: "(bool \<times> string) option"

definition initial_factors :: AVSFactors where
  "initial_factors =
     \<lparr> video_verified = Some True, person_detected = Some False, suspicious_behavior = Some False,
       weapon_observed = Some False, active_crime = Some False, multi_camera_evidence = Some False,
       multi_sensor_evidence = Some False, audio_verified = Some False, talkdown_ignored = Some False,
       auth_failure = Some False, ai_corroborated = Some False \<rparr>"

definition initial_alarm_view :: AlarmView where
  "initial_alarm_view =
     \<lparr> selectedChildAlarm = None, viewMode = View_snapshot, showBoxes = True, workflowTab = Tab_assess,
       sops = [], sopChecked = [], disposition = None, operatorNotes = [], avsFactors = initial_factors,
       submitting = False, alarm_keys = \<lparr>keyPrefix = None, keyPrefixTimer = False\<rparr>, recentEvents = [],
       showEscalateConfirm = False, showDeterrence = False, deterrenceBusy = False, deterrenceStatus = None \<rparr>"

datatype avs_factor =
    Video_verified | Person_detected | Suspicious_behavior | Weapon_observed | Active_crime
  | Multi_camera_evidence | Multi_sensor_evidence | Audio_verified | Talkdown_ignored | Auth_failure | Ai_corroborated

definition flip :: "bool option \<Rightarrow> bool option" where
  "flip b = Some (\<not> truthy b)"

fun flip_factor :: "avs_factor \<Rightarrow> AVSFactors \<Rightarrow> AVSFactors" where
  "flip_factor Video_verified f = f\<lparr> video_verified := flip (video_verified f) \<rparr>"
| "flip_factor Person_detected f = f\<lparr> person_detected := flip (person_detected f) \<rparr>"
| "flip_factor Suspicious_behavior f = f\<lparr> suspicious_behavior := flip (suspicious_behavior f) \<rparr>"
| "flip_factor Weapon_observed f = f\<lparr> weapon_observed := flip (weapon_observed f) \<rparr>"
| "flip_factor Active_crime f = f\<lparr> active_crime := flip (active_crime f) \<rparr>"
| "flip_factor Multi_camera_evidence f = f\<lparr> multi_camera_evidence := flip (multi_camera_evidence f) \<rparr>"
| "flip_factor Multi_sensor_evidence f = f\<lparr> multi_sensor_evidence := flip (multi_sensor_evidence f) \<rparr>"
| "flip_factor Audio_verified f = f\<lparr> audio_verified := flip (audio_verified f) \<rparr>"
| "flip_factor Talkdown_ignored f = f\<lparr> talkdown_ignored := flip (talkdown_ignored f) \<rparr>"
| "flip_factor Auth_failure f = f\<lparr> auth_failure := flip (auth_failure f) \<rparr>"
| "flip_factor Ai_corroborated f = f\<lparr> ai_corroborated := flip (ai_corroborated f) \<rparr>"

definition toggleAVS :: "avs_factor \<Rightarrow> AlarmView \<Rightarrow> AlarmView" where
  "toggleAVS k v = v\<lparr> avsFactors := flip_factor k (avsFactors v) \<rparr>"

definition displayAlarm :: "AlertEvent \<Rightarrow> AlarmView \<Rightarrow> AlertEvent" where
  "displayAlarm alarm v = (case selectedChildAlarm v of Some a \<Rightarrow> a | None \<Rightarrow> alarm)"

definition adjacentCameras :: "AlertEvent \<Rightarrow> string list \<Rightarrow> string list" where
  "adjacentCameras alarm cams = take 4 (filter (\<lambda>c. c \<noteq> ae_camera_id alarm) cams)"

definition slaColor :: "ms \<Rightarrow> string" where
  "slaColor elapsedMs = (if elapsedMs < 30000 then ''#22C55E'' else if elapsedMs < 90000 then ''#E89B2A'' else ''#EF4444'')"

section \<open>Procedures and keys\<close>

definition sops_loaded :: "(id \<times> string list) list \<Rightarrow> AlarmView \<Rightarrow> AlarmView" where
  "sops_loaded ss v =
     v\<lparr> sops := ss, sopChecked := foldl (\<lambda>m (i, steps). map_put (i, map (\<lambda>_. False) steps) m) [] ss \<rparr>"

definition events_loaded :: "AlertEvent \<Rightarrow> json list \<Rightarrow> AlarmView \<Rightarrow> AlarmView" where
  "events_loaded alarm es v =
     v\<lparr> recentEvents := take 5 (filter (\<lambda>e. json_field ''alarm_id'' e \<noteq> Some (JStr (ae_id alarm))) es) \<rparr>"

text \<open>Assigning past the end of an array extends it with \<^verbatim>\<open>undefined\<close>, which is falsy.\<close>

definition flip_at :: "nat \<Rightarrow> bool list \<Rightarrow> bool list" where
  "flip_at n bs =
     (if n < length bs then bs[n := \<not> bs ! n] else bs @ replicate (n - length bs) False @ [True])"

definition toggleSopStep :: "id \<Rightarrow> nat \<Rightarrow> AlarmView \<Rightarrow> AlarmView" where
  "toggleSopStep sopId stepIdx v =
     v\<lparr> sopChecked := map_put (sopId, flip_at stepIdx (nullish (map_of (sopChecked v) sopId) [])) (sopChecked v) \<rparr>"

definition alarm_keydown :: "string \<Rightarrow> string \<Rightarrow> AlarmView \<Rightarrow> AlarmView" where
  "alarm_keydown tag key v =
     (case disposition_handler tag key (alarm_keys v) of
        (ks, Some code) \<Rightarrow> v\<lparr> alarm_keys := ks, disposition := Some code \<rparr>
      | (ks, None) \<Rightarrow> v\<lparr> alarm_keys := ks \<rparr>)"

definition quickLog :: "ms \<Rightarrow> string \<Rightarrow> OperatorState \<Rightarrow> OperatorState" where
  "quickLog now t st = addActionLogEntry now t True st"

definition copyPhone :: "ms \<Rightarrow> string \<Rightarrow> string \<Rightarrow> OperatorState \<Rightarrow> OperatorState" where
  "copyPhone now phone contactName st =
     addActionLogEntry now (''Copied phone: '' @ contactName @ '' ('' @ phone @ '')'') True st"

section \<open>Deterrence and escalation\<close>

definition toggle_deterrence :: "AlarmView \<Rightarrow> AlarmView" where
  "toggle_deterrence v =
     (if deterrenceBusy v then v else v\<lparr> showDeterrence := \<not> showDeterrence v, deterrenceStatus := None \<rparr>)"

definition exn_text :: "exn \<Rightarrow> string" where
  "exn_text e = (case e of Error m \<Rightarrow> ''Error: '' @ m)"

text \<open>The menu is hidden by a timer 1.6 s after the answer.\<close>

definition fire_deterrence :: "AlertEvent \<Rightarrow> string \<Rightarrow> AlarmView \<Rightarrow> World \<Rightarrow> World \<times> AlarmView" where
  "fire_deterrence alarm act v w =
     (if deterrenceBusy v then (w, v)
      else case fireDeterrence (ae_camera_id alarm) act
          (Some \<lparr> dt_durationSec = Some 15, dt_reason = Some (''Operator fired from alarm '' @ ae_id alarm),
                  dt_alarmID = Some (ae_id alarm) \<rparr>) w of
        (w', Inr resp) \<Rightarrow>
          (w', v\<lparr> deterrenceBusy := False,
                  deterrenceStatus := Some (True, case json_field ''message'' resp of
                      Some (JStr m) \<Rightarrow> m | _ \<Rightarrow> act @ '' fired'') \<rparr>)
      | (w', Inl e) \<Rightarrow> (w', v\<lparr> deterrenceBusy := False, deterrenceStatus := Some (False, exn_text e) \<rparr>))"

definition confirm_escalate :: "ms \<Rightarrow> AlarmView \<Rightarrow> OperatorState \<Rightarrow> AlarmView \<times> OperatorState \<times> store_effect list" where
  "confirm_escalate now v st =
     (let (st', effects) = escalateActiveAlarm now st in (v\<lparr> showEscalateConfirm := False \<rparr>, st', effects))"

section \<open>Disposition\<close>

fun code_str :: "DispositionCode \<Rightarrow> string" where
  "code_str False_positive_animal = ''false_positive_animal''"
| "code_str False_positive_weather = ''false_positive_weather''"
| "code_str False_positive_shadow = ''false_positive_shadow''"
| "code_str False_positive_equipment = ''false_positive_equipment''"
| "code_str False_positive_other = ''false_positive_other''"
| "code_str Verified_customer_notified = ''verified_customer_notified''"
| "code_str Verified_police_dispatched = ''verified_police_dispatched''"
| "code_str Verified_guard_responded = ''verified_guard_responded''"
| "code_str Verified_no_threat = ''verified_no_threat''"
| "code_str Verified_other = ''verified_other''"

fun sev_str :: "Severity \<Rightarrow> string" where
  "sev_str Sev_critical = ''critical''"
| "sev_str Sev_high = ''high''"
| "sev_str Sev_medium = ''medium''"
| "sev_str Sev_low = ''low''"

definition dispLabel :: "DispositionCode \<Rightarrow> string" where
  "dispLabel code =
     (case List.find (\<lambda>d. do_code d = code) DISPOSITION_OPTIONS of
        Some d \<Rightarrow> if do_label d = [] then code_str code else do_label d
      | None \<Rightarrow> code_str code)"

definition isFalse :: "DispositionCode option \<Rightarrow> bool" where
  "isFalse d = (case d of Some c \<Rightarrow> starts_with ''false'' (code_str c) | None \<Rightarrow> False)"

definition entry_json :: "ActionLogEntry \<Rightarrow> json" where
  "entry_json e = JObj [(''ts'', JNum (of_int (al_ts e))), (''text'', JStr (al_text e)), (''auto'', JBool (al_auto e))]"

definition factor_json :: "string \<Rightarrow> bool option \<Rightarrow> (string \<times> json) list" where
  "factor_json k b = (case b of Some x \<Rightarrow> [(k, JBool x)] | None \<Rightarrow> [])"

definition factors_json :: "AVSFactors \<Rightarrow> json" where
  "factors_json f = JObj (
     factor_json ''video_verified'' (video_verified f) @ factor_json ''person_detected'' (person_detected f) @
     factor_json ''suspicious_behavior'' (suspicious_behavior f) @ factor_json ''weapon_observed'' (weapon_observed f) @
     factor_json ''active_crime'' (active_crime f) @ factor_json ''multi_camera_evidence'' (multi_camera_evidence f) @
     factor_json ''multi_sensor_evidence'' (multi_sensor_evidence f) @ factor_json ''audio_verified'' (audio_verified f) @
     factor_json ''talkdown_ignored'' (talkdown_ignored f) @ factor_json ''auth_failure'' (auth_failure f) @
     factor_json ''ai_corroborated'' (ai_corroborated f))"

definition event_payload :: "AlertEvent \<Rightarrow> DispositionCode \<Rightarrow> AlarmView \<Rightarrow> ActionLogEntry list \<Rightarrow> json" where
  "event_payload alarm code v alog =
     JObj [(''alarm_id'', JStr (ae_id alarm)), (''site_id'', JStr (ae_site_id alarm)),
       (''camera_id'', JStr (ae_camera_id alarm)), (''disposition_code'', JStr (code_str code)),
       (''disposition_label'', JStr (dispLabel code)), (''operator_notes'', JStr (operatorNotes v)),
       (''action_log'', JArr (map entry_json alog)),
       (''escalation_depth'', JNum (of_int (ae_escalation_level alarm))),
       (''severity'', JStr (sev_str (ae_severity alarm))), (''type'', JStr (ae_type alarm)),
       (''description'', JStr (ae_description alarm)), (''avs_factors'', factors_json (avsFactors v))]"

text \<open>The acknowledgement is a plain \<^verbatim>\<open>fetch\<close> whose answer is not looked at.\<close>

definition ack_request :: "SOCIncident \<Rightarrow> World \<Rightarrow> Request" where
  "ack_request inc w =
     \<lparr> rq_method = ''POST'', rq_url = ''/api/v1/incidents/'' @ si_id inc @ ''/acknowledge'',
       rq_headers = (''Content-Type'', ''application/json'') #
         (if getCSRFToken w \<noteq> [] then [(''X-CSRF-Token'', getCSRFToken w)] else []),
       rq_body = No_body, rq_credentials = True \<rparr>"

definition log_disposition :: "ms \<Rightarrow> DispositionCode \<Rightarrow> AlarmView \<Rightarrow> OperatorState \<Rightarrow> OperatorState" where
  "log_disposition now code v st =
     (let st1 = addActionLogEntry now (''Disposition: '' @ dispLabel code) False st in
      if js_trim (operatorNotes v) \<noteq> [] then addActionLogEntry now (''Notes: '' @ js_trim (operatorNotes v)) False st1 else st1)"

text \<open>The submit button is enabled while a disposition is chosen and nothing is in flight.\<close>

definition can_submit :: "AlarmView \<Rightarrow> bool" where
  "can_submit v \<longleftrightarrow> disposition v \<noteq> None \<and> \<not> submitting v"

definition choose_disposition :: "DispositionCode \<Rightarrow> AlarmView \<Rightarrow> AlarmView" where
  "choose_disposition code v = v\<lparr> disposition := if disposition v = Some code then None else Some code \<rparr>"

section \<open>The page\<close>

text \<open>What the handler awaits: the answer to the save, or to the acknowledgement of the incident.\<close>

datatype submission = Saving json DispositionCode | Acknowledging SOCIncident Request DispositionCode

datatype submit_outcome = Rejected exn | Left_page | Resolved

definition isIncidentId :: "id \<Rightarrow> bool" where
  "isIncidentId i = starts_with ''INC-'' i"

text \<open>The alarm of the page opened at \<^verbatim>\<open>/operator/alarm/<i>\<close>.\<close>

definition page_alarm :: "id \<Rightarrow> OperatorState \<Rightarrow> AlertEvent option" where
  "page_alarm i s =
     (if isIncidentId i then activeAlarm s
      else case activeAlarm s of Some a \<Rightarrow> if ae_id a = i then Some a else None | None \<Rightarrow> None)"

text \<open>\<open>ap_id\<close> is the identifier in the page's route;
  \<open>ap_mounted\<close> is \<^verbatim>\<open>mountedRef\<close>; the outcomes of the submissions are collected in order.\<close>

record AlarmPage =
  ap_id :: id
  ap_incident :: "SOCIncident option"
  ap_view :: AlarmView
  ap_store :: OperatorState
  ap_world :: World
  ap_mounted :: bool
  ap_pending :: "submission option"
  ap_outcomes :: "submit_outcome list"

definition open_page :: "id \<Rightarrow> SOCIncident option \<Rightarrow> OperatorState \<Rightarrow> World \<Rightarrow> AlarmPage" where
  "open_page i inc st w =
     \<lparr> ap_id = i, ap_incident = inc, ap_view = initial_alarm_view, ap_store = st, ap_world = w,
       ap_mounted = True, ap_pending = None, ap_outcomes = [] \<rparr>"

text \<open>The page shows the view only while it has an alarm.\<close>

definition shown_alarm :: "AlarmPage \<Rightarrow> AlertEvent option" where
  "shown_alarm p = page_alarm (ap_id p) (ap_store p)"

definition rerender :: "AlarmPage \<Rightarrow> AlarmPage" where
  "rerender p = p\<lparr> ap_mounted := ap_mounted p \<and> shown_alarm p \<noteq> None \<rparr>"

text \<open>The handler up to its first await.\<close>

definition handleSubmit :: "ms \<Rightarrow> AlarmPage \<Rightarrow> AlarmPage" where
  "handleSubmit now p =
     (case (disposition (ap_view p), shown_alarm p) of
        (Some code, Some alarm) \<Rightarrow>
          p\<lparr> ap_view := (ap_view p)\<lparr> submitting := True \<rparr>,
             ap_store := log_disposition now code (ap_view p) (ap_store p),
             ap_pending := Some (Saving (event_payload alarm code (ap_view p) (actionLog (ap_store p))) code) \<rparr>
      | _ \<Rightarrow> p)"

text \<open>Its end, after the last await.\<close>

definition submit_done :: "ms \<Rightarrow> DispositionCode \<Rightarrow> AlarmPage \<Rightarrow> AlarmPage" where
  "submit_done now code p =
     (let p1 = p\<lparr> ap_store := resolveAlarm now code (ap_store p), ap_pending := None \<rparr> in
      if \<not> ap_mounted p then p1\<lparr> ap_outcomes := ap_outcomes p @ [Left_page] \<rparr>
      else p1\<lparr> ap_view := (ap_view p)\<lparr> submitting := False \<rparr>, ap_outcomes := ap_outcomes p @ [Resolved] \<rparr>)"

text \<open>The save is answered. A rejection ends the handler: nothing catches it.\<close>

definition save_ended :: "ms \<Rightarrow> json \<Rightarrow> DispositionCode \<Rightarrow> AlarmPage \<Rightarrow> AlarmPage" where
  "save_ended now payload code p =
     (case createSecurityEvent payload (ap_world p) of
        (w, Inl e) \<Rightarrow> p\<lparr> ap_world := w, ap_pending := None, ap_outcomes := ap_outcomes p @ [Rejected e] \<rparr>
      | (w, Inr _) \<Rightarrow>
          (case ap_incident p of
             None \<Rightarrow> submit_done now code (p\<lparr> ap_world := w \<rparr>)
           | Some inc \<Rightarrow> p\<lparr> ap_world := w, ap_pending := Some (Acknowledging inc (ack_request inc w) code) \<rparr>))"

text \<open>The acknowledgement has ended, answered or not.\<close>

definition ack_ended :: "ms \<Rightarrow> SOCIncident \<Rightarrow> Request \<Rightarrow> DispositionCode \<Rightarrow> AlarmPage \<Rightarrow> AlarmPage" where
  "ack_ended now inc q code p =
     submit_done now code
       (p\<lparr> ap_world := fst (send q (ap_world p)), ap_store := acknowledgeIncident (si_id inc) (ap_store p) \<rparr>)"

definition handleAbandon :: "OperatorState \<Rightarrow> OperatorState" where
  "handleAbandon st = abandonAlarm st"

datatype view_event =
    SopsLoaded "(id \<times> string list) list"
  | ToggleStep id nat
  | ToggleFactor avs_factor
  | KeyDown string string

definition step_exists :: "view_event \<Rightarrow> AlarmView \<Rightarrow> bool" where
  "step_exists e v = (case e of ToggleStep i n \<Rightarrow> (\<exists>steps. (i, steps) \<in> set (sops v) \<and> n < length steps)
     | SopsLoaded ss \<Rightarrow> distinct (map fst ss) | _ \<Rightarrow> True)"

text \<open>The view offers a checkbox for each step of each procedure only.\<close>

definition view_step :: "view_event \<Rightarrow> AlarmView \<Rightarrow> AlarmView" where
  "view_step e v =
     (if \<not> step_exists e v then v
      else case e of
        SopsLoaded ss \<Rightarrow> sops_loaded ss v
      | ToggleStep i n \<Rightarrow> toggleSopStep i n v
      | ToggleFactor k \<Rightarrow> toggleAVS k v
      | KeyDown tag key \<Rightarrow> alarm_keydown tag key v)"

datatype page_event =
    Submit_clicked ms
  | Submission_answered ms
  | Release_clicked
  | Disposition_clicked DispositionCode
  | Notes_typed string
  | View view_event
  | Operate operator_action
  | Leave

text \<open>\<open>Operate\<close> is any other action on the store: the stream, polling, the other components.\<close>

fun page_effect :: "page_event \<Rightarrow> AlarmPage \<Rightarrow> AlarmPage" where
  "page_effect (Submit_clicked now) p =
     (if ap_mounted p \<and> can_submit (ap_view p) then handleSubmit now p else p)"
| "page_effect (Submission_answered now) p =
     (case ap_pending p of
        None \<Rightarrow> p
      | Some (Saving payload code) \<Rightarrow> save_ended now payload code p
      | Some (Acknowledging inc q code) \<Rightarrow> ack_ended now inc q code p)"
| "page_effect Release_clicked p = (if ap_mounted p then p\<lparr> ap_store := handleAbandon (ap_store p) \<rparr> else p)"
| "page_effect (Disposition_clicked code) p = p\<lparr> ap_view := choose_disposition code (ap_view p) \<rparr>"
| "page_effect (Notes_typed t) p = p\<lparr> ap_view := (ap_view p)\<lparr> operatorNotes := t \<rparr> \<rparr>"
| "page_effect (View e) p = p\<lparr> ap_view := view_step e (ap_view p) \<rparr>"
| "page_effect (Operate a) p = p\<lparr> ap_store := operator_step a (ap_store p) \<rparr>"
| "page_effect Leave p = p\<lparr> ap_mounted := False \<rparr>"

definition page_step :: "page_event \<Rightarrow> AlarmPage \<Rightarrow> AlarmPage" where
  "page_step e p = rerender (page_effect e p)"

abbreviation page_run :: "page_event list \<Rightarrow> AlarmPage \<Rightarrow> AlarmPage" where
  "page_run es p \<equiv> fold page_step es p"

section \<open>Submitting\<close>

lemma log_disposition_fields [simp]:
  "activeAlarm (log_disposition now code v st) = activeAlarm st"
  "alertFeed (log_disposition now code v st) = alertFeed st"
  "incidents (log_disposition now code v st) = incidents st"
  "dismissedIds (log_disposition now code v st) = dismissedIds st"
  "operatorStatus (log_disposition now code v st) = operatorStatus st"
  by (simp_all add: log_disposition_def addActionLogEntry_def Let_def)

definition disposition_entries :: "ms \<Rightarrow> DispositionCode \<Rightarrow> AlarmView \<Rightarrow> ActionLogEntry list" where
  "disposition_entries now code v =
     \<lparr>al_ts = now, al_text = ''Disposition: '' @ dispLabel code, al_auto = False\<rparr> #
     (if js_trim (operatorNotes v) \<noteq> []
      then [\<lparr>al_ts = now, al_text = ''Notes: '' @ js_trim (operatorNotes v), al_auto = False\<rparr>] else [])"

lemma log_disposition_log: "actionLog (log_disposition now code v st) = actionLog st @ disposition_entries now code v"
  by (simp add: log_disposition_def addActionLogEntry_def disposition_entries_def Let_def)

lemma acknowledgeIncident_fields [simp]:
  "activeAlarm (acknowledgeIncident i st) = activeAlarm st" "actionLog (acknowledgeIncident i st) = actionLog st"
  by (simp_all add: acknowledgeIncident_def)

lemma resolveAlarm_result:
  "activeAlarm (resolveAlarm now code st) = None \<and> operatorStatus (resolveAlarm now code st) = Wrap_up"
  "activeAlarm st = Some alarm \<Longrightarrow>
     \<exists>ld. lastDisposition (resolveAlarm now code st) = Some ld \<and> ld_actionLog ld = actionLog st \<and> ld_alarm ld = alarm"
  by (auto simp: resolveAlarm_def Let_def split: option.splits)

lemma resolveAlarm_incidents: "incidents (resolveAlarm now code st) = incidents st"
  by (auto simp: resolveAlarm_def acknowledgeAlert_def Let_def split: option.splits)

text \<open>Rendering touches nothing but \<^const>\<open>ap_mounted\<close>.\<close>

lemma rerender_fields [simp]:
  "ap_id (rerender p) = ap_id p" "ap_incident (rerender p) = ap_incident p" "ap_view (rerender p) = ap_view p"
  "ap_store (rerender p) = ap_store p" "ap_world (rerender p) = ap_world p" "ap_pending (rerender p) = ap_pending p"
  "ap_outcomes (rerender p) = ap_outcomes p"
  by (simp_all add: rerender_def)

lemma view_step_submitting [simp]: "submitting (view_step e v) = submitting v"
  by (auto simp: view_step_def sops_loaded_def toggleSopStep_def toggleAVS_def alarm_keydown_def
      split: view_event.split prod.split option.split)

lemma choose_submitting [simp]: "submitting (choose_disposition c v) = submitting v"
  by (simp add: choose_disposition_def)

text \<open>While a submission is under way the view of a mounted page is submitting.\<close>

definition alarm_page_inv :: "AlarmPage \<Rightarrow> bool" where
  "alarm_page_inv p \<longleftrightarrow> (ap_mounted p \<longrightarrow> shown_alarm p \<noteq> None) \<and> (ap_pending p \<noteq> None \<longrightarrow> submitting (ap_view p))"

lemma shown_alarm_rerender [simp]: "shown_alarm (rerender p) = shown_alarm p"
  by (simp add: shown_alarm_def page_alarm_def split: option.split)

lemma alarm_page_inv_rerender: "alarm_page_inv (rerender p) \<longleftrightarrow> (ap_pending p \<noteq> None \<longrightarrow> submitting (ap_view p))"
  unfolding alarm_page_inv_def by (auto simp: rerender_def [of p] shown_alarm_def page_alarm_def split: option.splits)

lemma alarm_page_inv_step: "alarm_page_inv p \<Longrightarrow> alarm_page_inv (page_step e p)"
  unfolding page_step_def alarm_page_inv_rerender
  by (cases e)
    (auto simp: alarm_page_inv_def can_submit_def handleSubmit_def save_ended_def ack_ended_def submit_done_def Let_def
      split: option.splits submission.splits prod.splits sum.splits)

definition alarm_opened :: "AlarmPage \<Rightarrow> bool" where
  "alarm_opened p \<longleftrightarrow> (\<exists>i inc st w. p = rerender (open_page i inc st w))"

interpretation page: machine page_step alarm_opened alarm_page_inv
  by unfold_locales (auto simp: alarm_opened_def open_page_def alarm_page_inv_rerender alarm_page_inv_step)














text \<open>The record that is sent carries the action log as it was at the click: the entries that name the
  disposition and the notes are only in the console's own record of the resolved alarm.\<close>

lemma saved_record_misses_disposition:
  "json_field ''action_log'' (event_payload alarm code v (actionLog st)) = Some (JArr (map entry_json (actionLog st))) \<and>
   length (actionLog st) < length (actionLog (log_disposition now code v st))"
  by (simp add: event_payload_def json_field_def log_disposition_log disposition_entries_def)

text \<open>An acknowledgement the server refuses removes the incident all the same.\<close>

lemma acknowledged_whatever_server_says:
  "inc \<notin> set (incidents (ap_store (ack_ended now inc q code p)))"
  by (simp add: ack_ended_def submit_done_def Let_def resolveAlarm_incidents acknowledgeIncident_def)

text \<open>The handler resolves whatever alarm is active when the save is answered. An operator who releases
  the alarm while it is being saved and takes another has that other alarm resolved, with the
  disposition of the first; without another, the saved disposition is recorded nowhere in the console.\<close>

lemma release_during_save_resolves_other:
  assumes "ap_pending p = Some (Saving payload code)" and "ap_mounted p" and "ap_incident p = None"
    and "createSecurityEvent payload (ap_world p) = (w, Inr r)"
  shows "let q = page_run [Release_clicked, Operate (EngageAlarm now other)] p;
             s = page_step (Submission_answered t) q in
      activeAlarm (ap_store q) = Some other \<and> activeAlarm (ap_store s) = None \<and>
      (\<exists>ld. lastDisposition (ap_store s) = Some ld \<and> ld_alarm ld = other \<and> ld_dispositionCode ld = code)"
    and "let s = page_run [Release_clicked, Submission_answered t] p in
      operatorStatus (ap_store s) = Wrap_up \<and> lastDisposition (ap_store s) = lastDisposition (ap_store p)"
  using assms
  by (auto simp: page_step_def save_ended_def submit_done_def handleAbandon_def abandonAlarm_def engageAlarm_def
      releaseAlert_def claimAlert_def resolveAlarm_def Let_def split: option.splits)

section \<open>Validation factors\<close>

lemma default_score: "previewAVSScore initial_factors = (1, ''MINIMAL'', False)"
  by (simp add: previewAVSScore_def initial_factors_def truthy_def)

section \<open>Checklists\<close>

definition checklist_ok :: "AlarmView \<Rightarrow> bool" where
  "checklist_ok v \<longleftrightarrow> (\<forall>(i, steps) \<in> set (sops v). \<exists>bs. map_of (sopChecked v) i = Some bs \<and> length bs = length steps)"

lemma map_of_foldl_put:
  "map_of (foldl (\<lambda>m (i, steps). map_put (i, f steps) m) m ss) i =
     (case map_of (rev ss) i of Some steps \<Rightarrow> Some (f steps) | None \<Rightarrow> map_of m i)"
proof (induction ss arbitrary: m)
  case (Cons s ss)
  then show ?case by (cases s) (auto simp: map_of_map_put map_add_def split: option.splits)
qed simp

lemma length_flip_at: "n < length bs \<Longrightarrow> length (flip_at n bs) = length bs"
  by (simp add: flip_at_def)

lemma flip_at_twice: "n < length bs \<Longrightarrow> flip_at n (flip_at n bs) = bs"
  by (simp add: flip_at_def)

lemma checklist_ok_cong: "sops v' = sops v \<Longrightarrow> sopChecked v' = sopChecked v \<Longrightarrow> checklist_ok v' = checklist_ok v"
  by (simp add: checklist_ok_def)

lemma checklist_ok_loaded: "distinct (map fst ss) \<Longrightarrow> checklist_ok (sops_loaded ss v)"
proof -
  assume d: "distinct (map fst ss)"
  then have "distinct (map fst (rev ss))" by (simp add: distinct_rev flip: rev_map)
  then have "map_of (rev ss) i = Some steps" if "(i, steps) \<in> set ss" for i steps
    using that by (intro map_of_is_SomeI) simp_all
  then show ?thesis
    by (force simp: checklist_ok_def sops_loaded_def map_of_foldl_put [where f = "map (\<lambda>_. False)"])
qed

lemma checklist_ok_toggle:
  assumes "checklist_ok v" "(i, steps) \<in> set (sops v)" "n < length steps"
  shows "checklist_ok (toggleSopStep i n v)"
proof -
  from assms obtain bs where bs: "map_of (sopChecked v) i = Some bs" "length bs = length steps"
    by (fastforce simp: checklist_ok_def)
  have "\<exists>cs. map_of (sopChecked (toggleSopStep i n v)) j = Some cs \<and> length cs = length ss"
    if js: "(j, ss) \<in> set (sops v)" for j ss
  proof -
    from assms(1) js obtain cs where cs: "map_of (sopChecked v) j = Some cs" "length cs = length ss"
      by (fastforce simp: checklist_ok_def)
    with bs assms(3) show ?thesis
      by (cases "j = i") (simp_all add: toggleSopStep_def map_of_map_put length_flip_at)
  qed
  moreover have "sops (toggleSopStep i n v) = sops v" by (simp add: toggleSopStep_def)
  ultimately show ?thesis by (auto simp: checklist_ok_def)
qed

lemma checklist_ok_step: "checklist_ok v \<Longrightarrow> checklist_ok (view_step e v)"
proof (cases e)
  case (KeyDown tag key)
  assume "checklist_ok v"
  with KeyDown show ?thesis
    by (cases "disposition_handler tag key (alarm_keys v)")
       (auto simp: view_step_def step_exists_def alarm_keydown_def checklist_ok_def split: option.splits)
qed (auto simp: view_step_def step_exists_def checklist_ok_loaded checklist_ok_toggle toggleAVS_def
      intro: checklist_ok_cong [THEN iffD2, rotated 2])

lemma checklist_ok_empty: "sops v = [] \<Longrightarrow> checklist_ok v"
  by (simp add: checklist_ok_def)

interpretation checklist: machine view_step "\<lambda>v. sops v = []" checklist_ok
  by unfold_locales (auto intro: checklist_ok_step checklist_ok_empty)

text \<open>C22: Whatever the operator does, every procedure shown has one checkbox state for each of its
  steps, and ticking a step twice leaves the checklist as it was.\<close>

theorem checklist_well_typed:
  assumes "reach view_step (\<lambda>v. sops v = []) v"
  shows "checklist_ok v \<and> (\<forall>i steps n. (i, steps) \<in> set (sops v) \<and> n < length steps \<longrightarrow>
      map_of (sopChecked (toggleSopStep i n (toggleSopStep i n v))) i = map_of (sopChecked v) i)"
proof (intro conjI allI impI)
  show ok: "checklist_ok v" by (rule checklist.inv_reach [OF assms])
  fix i steps n assume step: "(i, steps) \<in> set (sops v) \<and> n < length steps"
  with ok obtain bs where "map_of (sopChecked v) i = Some bs" "length bs = length steps"
    by (fastforce simp: checklist_ok_def)
  with step show "map_of (sopChecked (toggleSopStep i n (toggleSopStep i n v))) i = map_of (sopChecked v) i"
    by (simp add: toggleSopStep_def map_of_map_put flip_at_twice)
qed


section \<open>Examples\<close>


definition saving_world :: World where
  "saving_world = \<lparr>wd_server = (\<lambda>_ _ _. json_reply (JObj []) []), wd_jar = [], wd_document = False,
     wd_location = ''/'', wd_log = []\<rparr>"

lemmas request_defs = createSecurityEvent_def fetchJSON_def authFetch_def bootstrapCSRFToken_def send_def
  json_reply_def error_reply_def getCSRFToken_def ok_def redirect_on_401_def res_json_def json_field_def


lemma save_accepted: "\<exists>w1 r. createSecurityEvent p saving_world = (w1, Inr r)"
  by (simp add: request_defs saving_world_def io_defs Let_def)



theorem checklist_well_typed_witness:
  "checklist_ok (view_step (ToggleStep ''p'' 1) (view_step (SopsLoaded [(''p'', [''call'', ''log''])]) initial_alarm_view))"
proof -
  have "reach view_step (\<lambda>v. sops v = [])
      (view_step (ToggleStep ''p'' 1) (view_step (SopsLoaded [(''p'', [''call'', ''log''])]) initial_alarm_view))"
    by (intro reach_step reach_start) (simp add: initial_alarm_view_def)
  from checklist_well_typed [OF this] show ?thesis by blast
qed

end
