(* ===== verification/Operator_Console.thy ===== *)
theory Operator_Console
  imports Alarm_View Auth
begin

text \<open>
  The pages of the operator console and the way to them: route guards and login
  (\<^verbatim>\<open>components/shared/RouteGuard.tsx\<close>, the layouts under \<^verbatim>\<open>app/\<close>, \<^verbatim>\<open>app/login/page.tsx\<close>), the
  console (\<^verbatim>\<open>app/operator/page.tsx\<close>) with its alert feed, SLA timers, wrap-up overlay and
  shift handoff (\<^verbatim>\<open>components/operator/\<close>), and the page of one alarm
  (\<^verbatim>\<open>app/operator/alarm/[id]/page.tsx\<close>).
\<close>

section \<open>Routes\<close>


definition roleDestination :: "string \<Rightarrow> string" where
  "roleDestination role =
     (if role = ''soc_operator'' \<or> role = ''soc_supervisor'' then ''/operator''
      else if role = ''site_manager'' \<or> role = ''customer'' then ''/portal''
      else ''/'')"















record LoginForm =
  lf_username :: string
  lf_password :: string
  lf_error :: string
  lf_loading :: bool

definition login_submit :: "(json \<Rightarrow> string) \<Rightarrow> LoginForm \<Rightarrow> AuthState \<Rightarrow> LoginForm \<times> AuthState \<times> string option" where
  "login_submit to_text f s =
     (case login to_text (lf_username f) (lf_password f) s of
        (s', Inr _) \<Rightarrow>
          (case as_local s' USER_KEY of
             None \<Rightarrow> (f\<lparr> lf_error := [], lf_loading := False \<rparr>, s', Some (roleDestination []))
           | Some stored \<Rightarrow>
               if stored = [] then (f\<lparr> lf_error := [], lf_loading := False \<rparr>, s', Some (roleDestination []))
               else (case json_parse stored of
                   Some u \<Rightarrow> (f\<lparr> lf_error := [], lf_loading := False \<rparr>, s', Some (roleDestination (user_role u)))
                 | None \<Rightarrow> (f\<lparr> lf_error := ''Unexpected token in JSON'', lf_loading := False \<rparr>, s', None)))
      | (s', Inl (Error m)) \<Rightarrow> (f\<lparr> lf_error := m, lf_loading := False \<rparr>, s', None))"

section \<open>The console\<close>

definition stale_status_guard :: "OperatorState \<Rightarrow> OperatorState \<times> store_effect list" where
  "stale_status_guard s =
     (let (s1, e1) = (if operatorStatus s = Engaged \<and> activeAlarm s = None then setOperatorStatus Available s else (s, []));
          (s2, e2) = (if operatorStatus s = Wrap_up \<and> lastDisposition s = None then setOperatorStatus Available s1 else (s1, []))
      in (s2, e1 @ e2))"

definition displayAlerts :: "AlertEvent list \<Rightarrow> AlertEvent list \<Rightarrow> id list \<Rightarrow> AlertEvent list" where
  "displayAlerts restAlerts feed dismissed =
     (let byRest = foldl (\<lambda>m a. map_put (ae_id a, a) m) [] restAlerts;
          byId = foldl (\<lambda>m a. if ae_id a \<in> fst ` set m then m else map_put (ae_id a, a) m) byRest feed in
      js_sort (\<lambda>a b. ae_ts b < ae_ts a)
        (filter (\<lambda>a. \<not> ae_acknowledged a \<and> ae_id a \<notin> set dismissed) (map snd byId)))"

record ConsolePage =
  showHandoff :: bool
  showShortcuts :: bool
  showEvidence :: bool
  showStatusPicker :: bool
  pendingHandoffCount :: nat

definition console_keydown :: "bool \<Rightarrow> string \<Rightarrow> bool \<Rightarrow> ConsolePage \<times> OperatorState \<Rightarrow> ConsolePage \<times> OperatorState" where
  "console_keydown in_field key shift st =
     (case st of (p, s) \<Rightarrow>
        if in_field then (p, s)
        else
          (let p1 = (if key = ''?'' \<or> (key = ''/'' \<and> shift) then p\<lparr> showShortcuts := \<not> showShortcuts p \<rparr> else p);
               p2 = (if key = ''h'' \<or> key = ''H'' then p1\<lparr> showHandoff := \<not> showHandoff p1 \<rparr> else p1);
               s1 = (if key = ''m'' \<or> key = ''M'' then setAudioMuted (\<not> audioMuted s) s else s);
               p3 = (if key = ''Escape'' then p2\<lparr> showHandoff := False, showShortcuts := False, showEvidence := False,
                                                  showStatusPicker := False \<rparr> else p2)
           in (p3, s1)))"

text \<open>The status button is locked while the system controls the status.\<close>

definition status_button :: "OperatorState \<Rightarrow> ConsolePage \<Rightarrow> ConsolePage" where
  "status_button s p =
     (if operatorStatus s \<noteq> Engaged \<and> operatorStatus s \<noteq> Wrap_up
      then p\<lparr> showStatusPicker := \<not> showStatusPicker p \<rparr> else p)"

definition pick_status :: "OperatorStatus \<Rightarrow> ConsolePage \<Rightarrow> OperatorState \<Rightarrow> ConsolePage \<times> OperatorState \<times> store_effect list" where
  "pick_status st p s =
     (let (s', es) = setOperatorStatus st s in (p\<lparr> showStatusPicker := False \<rparr>, s', es))"

definition statusLabel :: "OperatorStatus \<Rightarrow> string" where
  "statusLabel st =
     (case st of Available \<Rightarrow> ''AVAILABLE'' | Engaged \<Rightarrow> ''ENGAGED'' | Wrap_up \<Rightarrow> ''WRAP-UP'' | Break \<Rightarrow> ''ON BREAK''
      | _ \<Rightarrow> ''AWAY'')"

definition statusColor :: "OperatorStatus \<Rightarrow> string" where
  "statusColor st =
     (case st of Available \<Rightarrow> ''#22C55E'' | Engaged \<Rightarrow> ''#EF4444'' | Wrap_up \<Rightarrow> ''#E89B2A'' | Break \<Rightarrow> ''#E89B2A''
      | _ \<Rightarrow> ''#4A5268'')"

definition totalOnline :: "(int option \<times> int option) list \<Rightarrow> int" where
  "totalOnline sites = foldl (\<lambda>t (online, _). t + nullish online 0) 0 sites"

definition totalDegraded :: "(int option \<times> int option) list \<Rightarrow> int" where
  "totalDegraded sites = foldl (\<lambda>t (online, all). t + (nullish all 0 - nullish online 0)) 0 sites"

section \<open>The alert feed\<close>

definition severity_fits :: "Severity option \<Rightarrow> Severity \<Rightarrow> bool" where
  "severity_fits f sev = (case f of None \<Rightarrow> True | Some x \<Rightarrow> sev = x)"

definition filteredIncidents :: "Severity option \<Rightarrow> SOCIncident list \<Rightarrow> SOCIncident list" where
  "filteredIncidents f = filter (\<lambda>i. severity_fits f (si_severity i))"

definition orphanAlerts :: "Severity option \<Rightarrow> AlertEvent list \<Rightarrow> AlertEvent list" where
  "orphanAlerts f =
     filter (\<lambda>a. \<not> truthy_str (ae_incident_id a) \<and> \<not> ae_acknowledged a \<and> severity_fits f (ae_severity a))"

definition unackCount :: "SOCIncident list \<Rightarrow> AlertEvent list \<Rightarrow> nat" where
  "unackCount incs alerts =
     length (filter (\<lambda>i. si_status i = Inc_active) incs) +
     length (filter (\<lambda>a. \<not> ae_acknowledged a \<and> \<not> truthy_str (ae_incident_id a)) alerts)"

definition getEscalationLabel :: "int \<Rightarrow> string" where
  "getEscalationLabel level =
     (if level \<le> 0 then ''ESC 0'' else if level = 1 then ''ESC 1'' else if level = 2 then ''ESC 2''
      else ''ESC '' @ int_str level)"

datatype ownership = Unowned | Owned_mine | Owned_other

definition getOwnershipClass :: "SOCOperator option \<Rightarrow> AlertEvent \<Rightarrow> ownership" where
  "getOwnershipClass oper a =
     (if \<not> truthy_str (ae_assigned_operator_id a) then Unowned
      else if ae_assigned_operator_id a = map_option so_id oper then Owned_mine
      else Owned_other)"

definition handleClaim :: "id \<Rightarrow> OperatorState \<Rightarrow> World \<Rightarrow> World \<times> OperatorState" where
  "handleClaim alertId s w =
     (case currentOperator s of
        None \<Rightarrow> (w, s)
      | Some oper \<Rightarrow> (fst (api_claimAlert alertId (so_id oper) w), claimAlert alertId s))"

definition handleRelease :: "id \<Rightarrow> OperatorState \<Rightarrow> World \<Rightarrow> World \<times> OperatorState" where
  "handleRelease alertId s w = (fst (api_releaseAlert alertId w), releaseAlert alertId s)"

definition latestAlarm :: "SOCIncident \<Rightarrow> AlertEvent list \<Rightarrow> AlertEvent option" where
  "latestAlarm inc alerts =
     (case js_sort (\<lambda>a b. ae_ts b < ae_ts a) (filter (\<lambda>a. ae_incident_id a = Some (si_id inc)) alerts) of
        [] \<Rightarrow> None | a # _ \<Rightarrow> Some a)"

section \<open>SLA timer and wrap-up\<close>

datatype sla_colour = Sla_red | Sla_amber | Sla_green

definition sla_display :: "ms \<Rightarrow> string" where
  "sla_display remaining =
     (let absMs = \<bar>remaining\<bar>; mins = absMs div 60000; secs = absMs mod 60000 div 1000;
          shown = int_str mins @ '':'' @ pad_start 2 (CHR ''0'') (int_str secs) in
      if remaining \<le> 0 then ''-'' @ shown else shown)"

definition sla_color :: "ms \<Rightarrow> sla_colour" where
  "sla_color remaining =
     (let breached = remaining \<le> 0; urgent = remaining > 0 \<and> remaining < 15000;
          warning = remaining > 0 \<and> remaining < 60000 in
      if breached then Sla_red else if urgent then Sla_red else if warning then Sla_amber else Sla_green)"

definition WRAPUP_SECONDS :: int where
  "WRAPUP_SECONDS = 60"

definition wrapup_duration :: "ms \<Rightarrow> string" where
  "wrapup_duration ms =
     (let s = ms div 1000; m = s div 60; h = m div 60 in
      if s < 60 then int_str s @ ''s''
      else if m < 60 then int_str m @ ''m '' @ int_str (s mod 60) @ ''s''
      else int_str h @ ''h '' @ int_str (m mod 60) @ ''m'')"

definition formatShiftDuration :: "ms \<Rightarrow> ms \<Rightarrow> string" where
  "formatShiftDuration now startMs =
     (let ms = now - startMs; h = ms div 3600000; m = ms mod 3600000 div 60000 in
      if h = 0 then int_str m @ ''m'' else int_str h @ ''h '' @ int_str m @ ''m'')"

datatype sla_status = Sla_met | Sla_missed | Sla_na

definition slaStatus :: "LastDisposition \<Rightarrow> sla_status" where
  "slaStatus ld =
     (let slaMs = ae_sla_deadline_ms (ld_alarm ld) in
      if truthy_int slaMs then (if ld_resolvedAt ld \<le> the slaMs then Sla_met else Sla_missed) else Sla_na)"

definition slaCompliance :: "ShiftStats \<Rightarrow> int" where
  "slaCompliance st =
     (if ss_alarmsHandled st > 0
      then js_round (of_int (ss_alarmsHandled st - ss_slaMissed st) / of_int (ss_alarmsHandled st) * 100)
      else 100)"

text \<open>The overlay is shown while the operator wraps up; each second it counts down, and at zero it is left.\<close>

record WrapUp =
  countdown :: int
  wrap_store :: OperatorState

definition overlay_shown :: "OperatorState \<Rightarrow> bool" where
  "overlay_shown s \<longleftrightarrow> operatorStatus s = Wrap_up \<and> lastDisposition s \<noteq> None"

definition wrapup_effect :: "WrapUp \<Rightarrow> WrapUp" where
  "wrapup_effect u =
     (if overlay_shown (wrap_store u) \<and> countdown u \<le> 0 then u\<lparr> wrap_store := exitWrapUp (wrap_store u) \<rparr> else u)"

definition wrapup_tick :: "WrapUp \<Rightarrow> WrapUp" where
  "wrapup_tick u =
     (if overlay_shown (wrap_store u) then wrapup_effect (u\<lparr> countdown := countdown u - 1 \<rparr>) else u)"

section \<open>Shift handoff\<close>

record Presence =
  pr_operator_id :: id
  pr_callsign :: string
  pr_on_shift :: bool

definition availableOperators :: "SOCOperator option \<Rightarrow> Presence list \<Rightarrow> Presence list" where
  "availableOperators oper = filter (\<lambda>p. Some (pr_operator_id p) \<noteq> map_option so_id oper \<and> pr_on_shift p)"

definition myActiveAlerts :: "OperatorState \<Rightarrow> id list" where
  "myActiveAlerts s =
     map ae_id (filter (\<lambda>a. ae_assigned_operator_id a = map_option so_id (currentOperator s) \<and> \<not> ae_acknowledged a) (alertFeed s))"

record HandoffForm =
  toOperator :: id
  hf_text :: string
  hf_creating :: bool
  hf_open :: bool

definition handoff_payload :: "SOCOperator \<Rightarrow> Presence \<Rightarrow> id list \<Rightarrow> id list \<Rightarrow> string \<Rightarrow> json" where
  "handoff_payload oper target locked alerts txt =
     JObj [(''from_operator_id'', JStr (so_id oper)), (''from_operator_callsign'', JStr (so_callsign oper)),
       (''to_operator_id'', JStr (pr_operator_id target)), (''to_operator_callsign'', JStr (pr_callsign target)),
       (''locked_site_ids'', JArr (map JStr locked)), (''active_alert_ids'', JArr (map JStr alerts)), (''notes'', JStr txt)]"

text \<open>A rejected request leaves the form in its creating state.\<close>

definition handleCreate :: "id list \<Rightarrow> Presence list \<Rightarrow> OperatorState \<Rightarrow> HandoffForm \<Rightarrow> World \<Rightarrow> World \<times> HandoffForm" where
  "handleCreate locked presence s f w =
     (case currentOperator s of
        None \<Rightarrow> (w, f)
      | Some oper \<Rightarrow>
          if toOperator f = [] then (w, f)
          else (case List.find (\<lambda>p. pr_operator_id p = toOperator f) (availableOperators (Some oper) presence) of
              None \<Rightarrow> (w, f)
            | Some target \<Rightarrow>
                (case createHandoff (handoff_payload oper target locked (myActiveAlerts s) (hf_text f)) w of
                   (w', Inl e) \<Rightarrow> (w', f\<lparr> hf_creating := True \<rparr>)
                 | (w', Inr _) \<Rightarrow> (w', f\<lparr> hf_creating := False, hf_open := False \<rparr>))))"

text \<open>Opening the form loads the pending handoffs and who is on shift; when either request is
  rejected it stays in its loading state.\<close>

record HandoffLists =
  pendingHandoffs :: "json option"
  hl_presence :: "json option"
  hl_loading :: bool

definition load_handoffs :: "OperatorState \<Rightarrow> HandoffLists \<Rightarrow> World \<Rightarrow> World \<times> HandoffLists" where
  "load_handoffs s l w =
     (case currentOperator s of
        None \<Rightarrow> (w, l)
      | Some oper \<Rightarrow>
          (let (w1, h) = getPendingHandoffs (so_id oper) w; (w2, p) = getOperatorPresence w1 in
           case (h, p) of
             (Inr hs, Inr ps) \<Rightarrow> (w2, l\<lparr> pendingHandoffs := hs, hl_presence := ps, hl_loading := False \<rparr>)
           | _ \<Rightarrow> (w2, l)))"

definition handleAccept :: "id \<Rightarrow> HandoffLists \<Rightarrow> World \<Rightarrow> World \<times> HandoffLists" where
  "handleAccept handoffId l w =
     (case acceptHandoff handoffId w of
        (w', Inl e) \<Rightarrow> (w', l)
      | (w', Inr _) \<Rightarrow>
          (case pendingHandoffs l of
             Some (JArr hs) \<Rightarrow>
               (w', l\<lparr> pendingHandoffs := Some (JArr (filter (\<lambda>h. json_field ''id'' h \<noteq> Some (JStr handoffId)) hs)) \<rparr>)
           | _ \<Rightarrow> (w', l)))"

section \<open>The alarm page\<close>

definition pick_alarm :: "id \<Rightarrow> AlertEvent list \<Rightarrow> AlertEvent list \<Rightarrow> AlertEvent option" where
  "pick_alarm i feed rest =
     (let byId = foldl (\<lambda>m a. map_put (ae_id a, a) m) [] (feed @ rest);
          byId' = foldl (\<lambda>m a. map_put (ae_id a, a) m) byId rest in map_of byId' i)"

text \<open>The effect that engages the alarm of the page; it runs when the active alarm or the lists change.\<close>

definition engage_effect :: "ms \<Rightarrow> id \<Rightarrow> AlertEvent list \<Rightarrow> OperatorState \<Rightarrow> OperatorState" where
  "engage_effect now i rest s =
     (if isIncidentId i then s
      else if (case activeAlarm s of Some a \<Rightarrow> ae_id a = i | None \<Rightarrow> False) then s
      else case pick_alarm i (alertFeed s) rest of Some a \<Rightarrow> engageAlarm now a s | None \<Rightarrow> s)"

text \<open>The newest alarm of an incident, the first of equals.\<close>

fun newest_alarm :: "AlertEvent list \<Rightarrow> AlertEvent option" where
  "newest_alarm [] = None"
| "newest_alarm (a # as) = Some (foldl (\<lambda>x y. if ae_ts y > ae_ts x then y else x) a as)"

definition incident_loaded :: "ms \<Rightarrow> AlertEvent list \<Rightarrow> OperatorState \<Rightarrow> OperatorState" where
  "incident_loaded now mapped s =
     (case newest_alarm mapped of
        None \<Rightarrow> s
      | Some latest \<Rightarrow>
          if (case activeAlarm s of None \<Rightarrow> True | Some a \<Rightarrow> ae_id a \<noteq> ae_id latest)
          then engageAlarm now latest s else s)"

section \<open>Redirects\<close>















section \<open>Merging alerts\<close>

lemma foldl_put_map_of:
  "map_of (foldl (\<lambda>m a. map_put (key a, a) m) m xs) i =
     (case List.find (\<lambda>a. key a = i) (rev xs) of Some a \<Rightarrow> Some a | None \<Rightarrow> map_of m i)"
proof (induction xs arbitrary: m)
  case (Cons x xs)
  have "List.find P (xs @ [y]) = (case List.find P xs of Some a \<Rightarrow> Some a | None \<Rightarrow> if P y then Some y else None)"
    for P :: "'a \<Rightarrow> bool" and xs y by (induction xs) auto
  then show ?case using Cons by (simp add: map_of_map_put split: option.splits)
qed simp


definition put_new :: "('a \<Rightarrow> 'k) \<Rightarrow> ('k \<times> 'a) list \<Rightarrow> 'a \<Rightarrow> ('k \<times> 'a) list" where
  "put_new key m a = (if key a \<in> fst ` set m then m else map_put (key a, a) m)"

lemma put_new_old: "map_of m (key a) = Some b \<Longrightarrow> put_new key m a = m"
  unfolding put_new_def by (metis domI dom_map_of_conv_image_fst)

lemma put_new_new: "map_of m (key a) = None \<Longrightarrow> put_new key m a = map_put (key a, a) m"
  unfolding put_new_def by (simp add: map_of_eq_None_iff)

lemma put_new_cases: "put_new key m a = m \<or> put_new key m a = map_put (key a, a) m"
  unfolding put_new_def by simp

lemma put_new_map_of:
  "map_of (foldl (put_new key) m xs) i =
     (case map_of m i of Some a \<Rightarrow> Some a | None \<Rightarrow> List.find (\<lambda>a. key a = i) xs)"
proof (induction xs arbitrary: m)
  case (Cons x xs)
  have "map_of (put_new key m x) i = (case map_of m i of Some a \<Rightarrow> Some a | None \<Rightarrow> if key x = i then Some x else None)"
    by (cases "map_of m (key x)") (auto simp: put_new_old put_new_new map_of_map_put split: option.splits)
  with Cons show ?case by (auto split: option.splits)
qed (simp split: option.splits)

lemma distinct_put_new: "distinct (map fst m) \<Longrightarrow> distinct (map fst (foldl (put_new key) m xs))"
proof (induction xs arbitrary: m)
  case (Cons x xs)
  have "distinct (map fst (put_new key m x))"
    using put_new_cases [of key m x] Cons.prems distinct_map_put by metis
  then show ?case using Cons.IH by simp
qed simp

lemma keyed_put_new:
  assumes "\<forall>kv \<in> set m. fst kv = key (snd kv)"
  shows "\<forall>kv \<in> set (foldl (put_new key) m xs). fst kv = key (snd kv)"
  using assms
proof (induction xs arbitrary: m)
  case (Cons x xs)
  have "\<forall>kv \<in> set (put_new key m x). fst kv = key (snd kv)"
    using put_new_cases [of key m x] Cons.prems map_put_keyed [OF Cons.prems] by metis
  from Cons.IH [OF this] show ?case unfolding foldl.simps .
qed simp

text \<open>The alert the console holds for an identifier: the last the server listed, else the first pushed.\<close>

definition known_alert :: "AlertEvent list \<Rightarrow> AlertEvent list \<Rightarrow> id \<Rightarrow> AlertEvent option" where
  "known_alert rest feed i =
     (case List.find (\<lambda>a. ae_id a = i) (rev rest) of Some a \<Rightarrow> Some a | None \<Rightarrow> List.find (\<lambda>a. ae_id a = i) feed)"

definition merged :: "AlertEvent list \<Rightarrow> AlertEvent list \<Rightarrow> (id \<times> AlertEvent) list" where
  "merged rest feed = foldl (put_new ae_id) (foldl (\<lambda>m a. map_put (ae_id a, a) m) [] rest) feed"

lemma merged_props:
  "map_of (merged rest feed) i = known_alert rest feed i" "distinct (map fst (merged rest feed))"
  "\<forall>kv \<in> set (merged rest feed). fst kv = ae_id (snd kv)"
proof -
  have r: "distinct (map fst (foldl (\<lambda>m a. map_put (ae_id a, a) m) [] rest))"
    "\<forall>kv \<in> set (foldl (\<lambda>m a. map_put (ae_id a, a) m) [] rest). fst kv = ae_id (snd kv)"
    using foldl_map_put_props [of ae_id rest] unfolding Let_def by blast+
  show "map_of (merged rest feed) i = known_alert rest feed i"
    by (simp add: merged_def put_new_map_of foldl_put_map_of known_alert_def split: option.splits)
  show "distinct (map fst (merged rest feed))"
    unfolding merged_def by (rule distinct_put_new [OF r(1)])
  show "\<forall>kv \<in> set (merged rest feed). fst kv = ae_id (snd kv)"
    unfolding merged_def by (rule keyed_put_new [OF r(2)])
qed

lemma displayAlerts_merged:
  "displayAlerts rest feed dismissed =
     js_sort (\<lambda>a b. ae_ts b < ae_ts a)
       (filter (\<lambda>a. \<not> ae_acknowledged a \<and> ae_id a \<notin> set dismissed) (map snd (merged rest feed)))"
  by (simp add: displayAlerts_def merged_def put_new_def [abs_def] Let_def)

lemma in_merged: "a \<in> set (map snd (merged rest feed)) \<longleftrightarrow> known_alert rest feed (ae_id a) = Some a"
proof -
  let ?m = "merged rest feed"
  have "a \<in> set (map snd ?m) \<longleftrightarrow> (ae_id a, a) \<in> set ?m" using merged_props(3) [of rest feed] by force
  also have "\<dots> \<longleftrightarrow> map_of ?m (ae_id a) = Some a"
    using merged_props(2) [of rest feed] by (metis map_of_SomeD map_of_is_SomeI)
  finally show ?thesis by (simp add: merged_props(1))
qed

text \<open>The open alerts: neither acknowledged nor dismissed, each once, newest first; of an alert that both
  the server listed and the stream pushed, the server's version.\<close>

lemma displayAlerts_open:
  "set (displayAlerts rest feed dismissed) =
     {a. known_alert rest feed (ae_id a) = Some a \<and> \<not> ae_acknowledged a \<and> ae_id a \<notin> set dismissed}"
  "distinct (map ae_id (displayAlerts rest feed dismissed))"
  "sorted (map (\<lambda>a. - ae_ts a) (displayAlerts rest feed dismissed))"
proof -
  let ?keep = "\<lambda>a. \<not> ae_acknowledged a \<and> ae_id a \<notin> set dismissed"
  let ?vals = "map snd (merged rest feed)"
  show "set (displayAlerts rest feed dismissed) =
     {a. known_alert rest feed (ae_id a) = Some a \<and> \<not> ae_acknowledged a \<and> ae_id a \<notin> set dismissed}"
    using in_merged [of _ rest feed] unfolding displayAlerts_merged by (auto simp del: set_map)
  have "map ae_id ?vals = map fst (merged rest feed)" using merged_props(3) [of rest feed] by simp
  then have "distinct (map ae_id ?vals)" using merged_props(2) [of rest feed] by (simp only:)
  then have "distinct (map ae_id (filter ?keep ?vals))" by (rule distinct_map_filter)
  then show "distinct (map ae_id (displayAlerts rest feed dismissed))"
    unfolding displayAlerts_merged distinct_map_js_sort .
  have "displayAlerts rest feed dismissed = sort_key (\<lambda>a. - ae_ts a) (filter ?keep ?vals)"
    unfolding displayAlerts_merged using js_sort_eq_sort_key [of "\<lambda>a. - ae_ts a"] by simp
  then show "sorted (map (\<lambda>a. - ae_ts a) (displayAlerts rest feed dismissed))" by simp
qed

text \<open>What the feed lists: the store's incidents and, below them, the alerts that belong to none.\<close>

definition feed_rows ::
  "Severity option \<Rightarrow> AlertEvent list \<Rightarrow> OperatorState \<Rightarrow> (SOCIncident + AlertEvent) list" where
  "feed_rows f restAlerts s =
     map Inl (filteredIncidents f (incidents s)) @
     map Inr (orphanAlerts f (displayAlerts restAlerts (alertFeed s) (dismissedIds s)))"

lemma sorted_map_filter: "sorted (map k xs) \<Longrightarrow> sorted (map k (filter P xs))"
  by (induction xs) auto

text \<open>C23: The console's feed shows exactly the work that is open. With a severity filter or without one, its
  rows are the store's incidents that fit, in the store's order, and below them exactly the alerts that
  are neither acknowledged nor dismissed, belong to no incident and fit, each once, newest first, in
  the server's version if the server listed it. So an open alert is missing from the rows only if the
  filter hides it or it belongs to an incident, and then it is on no row at all when that incident is
  not among the store's.\<close>

theorem console_shows_open_alerts:
  "\<exists>alerts. feed_rows f rest s = map Inl (filter (\<lambda>i. severity_fits f (si_severity i)) (incidents s)) @ map Inr alerts \<and>
     set alerts = {a. known_alert rest (alertFeed s) (ae_id a) = Some a \<and> \<not> ae_acknowledged a \<and>
       ae_id a \<notin> set (dismissedIds s) \<and> \<not> truthy_str (ae_incident_id a) \<and> severity_fits f (ae_severity a)} \<and>
     distinct (map ae_id alerts) \<and> sorted (map (\<lambda>a. - ae_ts a) alerts)"
proof (intro exI conjI)
  let ?open = "displayAlerts rest (alertFeed s) (dismissedIds s)"
  show "feed_rows f rest s =
      map Inl (filter (\<lambda>i. severity_fits f (si_severity i)) (incidents s)) @ map Inr (orphanAlerts f ?open)"
    by (simp add: feed_rows_def filteredIncidents_def)
  show "set (orphanAlerts f ?open) = {a. known_alert rest (alertFeed s) (ae_id a) = Some a \<and> \<not> ae_acknowledged a \<and>
       ae_id a \<notin> set (dismissedIds s) \<and> \<not> truthy_str (ae_incident_id a) \<and> severity_fits f (ae_severity a)}"
    using displayAlerts_open(1) [of rest "alertFeed s" "dismissedIds s"] by (auto simp: orphanAlerts_def)
  show "distinct (map ae_id (orphanAlerts f ?open))"
    unfolding orphanAlerts_def by (intro distinct_map_filter displayAlerts_open(2))
  show "sorted (map (\<lambda>a. - ae_ts a) (orphanAlerts f ?open))"
    unfolding orphanAlerts_def by (intro sorted_map_filter displayAlerts_open(3))
qed

lemma incident_alert_nowhere:
  assumes "truthy_str (ae_incident_id a)" and "ae_incident_id a \<notin> Some ` si_id ` set (incidents s)"
  shows "Inr a \<notin> set (feed_rows f rest s) \<and>
    (\<forall>i. Inl i \<in> set (feed_rows f rest s) \<longrightarrow> Some (si_id i) \<noteq> ae_incident_id a)"
  using assms unfolding feed_rows_def filteredIncidents_def orphanAlerts_def by (auto simp: image_iff)

section \<open>Leaving the alarm page\<close>

lemma find_append:
  "List.find P (xs @ ys) = (case List.find P xs of Some a \<Rightarrow> Some a | None \<Rightarrow> List.find P ys)"
  by (induction xs) auto

lemma pick_alarm_found:
  assumes "a \<in> set feed \<or> a \<in> set rest"
  shows "\<exists>b. pick_alarm (ae_id a) feed rest = Some b \<and> ae_id b = ae_id a"
proof -
  let ?P = "\<lambda>x. ae_id x = ae_id a"
  have eq: "pick_alarm (ae_id a) feed rest = List.find ?P (rev rest @ rev feed)"
    unfolding pick_alarm_def Let_def by (simp add: foldl_put_map_of find_append split: option.splits)
  have "List.find ?P (rev rest @ rev feed) \<noteq> None"
    using assms unfolding find_None_iff by fastforce
  then show ?thesis unfolding eq by (auto simp: find_Some_iff)
qed

lemma engage_effect_engages:
  assumes "\<not> isIncidentId i" "activeAlarm s = None" "i \<in> ae_id ` (set (alertFeed s) \<union> set rest)"
  shows "\<exists>b. activeAlarm (engage_effect now i rest s) = Some b \<and> ae_id b = i
           \<and> operatorStatus (engage_effect now i rest s) = Engaged"
proof -
  obtain a where a: "i = ae_id a" "a \<in> set (alertFeed s) \<or> a \<in> set rest" using assms(3) by blast
  obtain b where "pick_alarm i (alertFeed s) rest = Some b" "ae_id b = i"
    using pick_alarm_found [OF a(2)] unfolding a(1) by blast
  with assms(1,2) show ?thesis
    by (simp add: engage_effect_def engageAlarm_def claimAlert_def Let_def split: option.splits)
qed

lemma leaving_keeps_id_list:
  "map ae_id (alertFeed (resolveAlarm now code s)) = map ae_id (alertFeed s)"
  "map ae_id (alertFeed (abandonAlarm s)) = map ae_id (alertFeed s)"
  by (simp_all add: resolveAlarm_def acknowledgeAlert_def abandonAlarm_def releaseAlert_def Let_def split: option.splits)

lemma leaving_keeps_ids:
  "ae_id ` set (alertFeed (resolveAlarm now code s)) = ae_id ` set (alertFeed s)"
  "ae_id ` set (alertFeed (abandonAlarm s)) = ae_id ` set (alertFeed s)"
  by (simp_all only: set_map [symmetric] leaving_keeps_id_list)

text \<open>An alarm that is resolved or abandoned on its own page comes back: both actions clear the
  active alarm, which makes the page's effect run while the page is still mounted, and the
  effect finds the alarm in the stream's feed or in the server's list and engages it again,
  whether or not it is acknowledged. The operator is back in status Engaged.\<close>

theorem closed_alarm_reopened:
  assumes "\<not> isIncidentId i" and "i \<in> ae_id ` (set (alertFeed s) \<union> set rest)"
    and "s' = resolveAlarm now code s \<or> s' = handleAbandon s"
  shows "\<exists>b. activeAlarm (engage_effect now' i rest s') = Some b \<and> ae_id b = i
           \<and> operatorStatus (engage_effect now' i rest s') = Engaged"
proof (rule engage_effect_engages [OF assms(1)])
  show "activeAlarm s' = None"
    using assms(3) resolveAlarm_result(1) by (auto simp: handleAbandon_def abandonAlarm_def Let_def)
  show "i \<in> ae_id ` (set (alertFeed s') \<union> set rest)"
    using assms(2,3) by (auto simp: handleAbandon_def image_Un leaving_keeps_ids)
qed

theorem closed_alarm_reopened_witness:
  "\<exists>b. activeAlarm (engage_effect 9 ''a'' [alert_fixture ''a'' None 0 None]
       (resolveAlarm 8 Verified_other ((initialStore 0)\<lparr> activeAlarm := Some (alert_fixture ''a'' None 0 None) \<rparr>))) = Some b
     \<and> ae_id b = ''a''"
proof -
  let ?s = "(initialStore 0)\<lparr> activeAlarm := Some (alert_fixture ''a'' None 0 None) \<rparr>"
  have "\<not> isIncidentId ''a''" by (simp add: isIncidentId_def)
  moreover have "''a'' \<in> ae_id ` (set (alertFeed ?s) \<union> set [alert_fixture ''a'' None 0 None])"
    by (simp add: alert_fixture_def)
  ultimately show ?thesis
    using closed_alarm_reopened [of "''a''" ?s "[alert_fixture ''a'' None 0 None]"
      "resolveAlarm 8 Verified_other ?s" 8 Verified_other 9] by blast
qed

section \<open>Wrapping up\<close>

lemma tick_counts:
  "overlay_shown (wrap_store u) \<Longrightarrow> 1 < countdown u \<Longrightarrow> wrapup_tick u = u\<lparr> countdown := countdown u - 1 \<rparr>"
  "overlay_shown (wrap_store u) \<Longrightarrow> countdown u \<le> 1 \<Longrightarrow>
     wrapup_tick u = u\<lparr> countdown := countdown u - 1, wrap_store := exitWrapUp (wrap_store u) \<rparr>"
  by (simp_all add: wrapup_tick_def wrapup_effect_def)

lemma ticks_count:
  "overlay_shown (wrap_store u) \<Longrightarrow> int n < countdown u \<Longrightarrow>
     (wrapup_tick ^^ n) u = u\<lparr> countdown := countdown u - int n \<rparr>"
proof (induction n)
  case (Suc n)
  then have "(wrapup_tick ^^ n) u = u\<lparr> countdown := countdown u - int n \<rparr>" by simp
  with Suc.prems show ?case by (simp add: tick_counts(1))
qed simp

text \<open>A wrap-up ends by itself, and not early: with the overlay open and \<open>n\<close> seconds on its counter,
  after every shorter time the operator is still wrapping up with the disposition on screen,
  and at the \<open>n\<close>th tick the store leaves the wrap-up: the operator is available, the disposition
  is gone, the overlay is closed, and everything else is as it was.\<close>

theorem wrapup_ends:
  assumes "overlay_shown (wrap_store u)" and "countdown u = int (Suc n)"
  shows "(\<forall>k \<le> n. wrap_store ((wrapup_tick ^^ k) u) = wrap_store u)
    \<and> wrap_store ((wrapup_tick ^^ Suc n) u) = exitWrapUp (wrap_store u)
    \<and> \<not> overlay_shown (wrap_store ((wrapup_tick ^^ Suc n) u))"
proof (intro conjI)
  show "\<forall>k \<le> n. wrap_store ((wrapup_tick ^^ k) u) = wrap_store u" using assms by (simp add: ticks_count)
  show left: "wrap_store ((wrapup_tick ^^ Suc n) u) = exitWrapUp (wrap_store u)"
    using assms by (simp add: ticks_count tick_counts(2))
  show "\<not> overlay_shown (wrap_store ((wrapup_tick ^^ Suc n) u))"
    unfolding left overlay_shown_def exitWrapUp_def by simp
qed

definition wrapping_store :: OperatorState where
  "wrapping_store =
     resolveAlarm 8 Verified_other ((initialStore 0)\<lparr> activeAlarm := Some (alert_fixture ''a'' None 0 None) \<rparr>)"

theorem wrapup_ends_witness:
  "wrap_store ((wrapup_tick ^^ 60) \<lparr> countdown = WRAPUP_SECONDS, wrap_store = wrapping_store \<rparr>) = exitWrapUp wrapping_store"
proof -
  let ?u = "\<lparr> countdown = WRAPUP_SECONDS, wrap_store = wrapping_store \<rparr>"
  have "overlay_shown (wrap_store ?u)" "countdown ?u = int (Suc 59)"
    by (simp_all add: wrapping_store_def overlay_shown_def resolveAlarm_def WRAPUP_SECONDS_def Let_def)
  from wrapup_ends [OF this] show ?thesis by simp
qed

lemma js_round_between: "of_int a \<le> x \<Longrightarrow> x \<le> of_int b \<Longrightarrow> a \<le> js_round x \<and> js_round x \<le> b"
  unfolding js_round_def by linarith

text \<open>The overlay tells the same story as the shift statistics: it says that the deadline was missed
  exactly when resolving the alarm counted a miss, and the compliance it shows is a percentage
  in every state the store can reach, full when no deadline was missed.\<close>

theorem overlay_agrees_with_statistics:
  fixes now :: ms and code :: DispositionCode
  assumes "store_inv s" and "activeAlarm s = Some alarm"
  defines "s' \<equiv> resolveAlarm now code s"
  shows "(\<exists>ld. lastDisposition s' = Some ld \<and>
            (slaStatus ld = Sla_missed \<longleftrightarrow> ss_slaMissed (shiftStats s') = ss_slaMissed (shiftStats s) + 1))
    \<and> 0 \<le> slaCompliance (shiftStats s) \<and> slaCompliance (shiftStats s) \<le> 100
    \<and> (ss_slaMissed (shiftStats s) = 0 \<longrightarrow> slaCompliance (shiftStats s) = 100)"
proof (intro conjI)
  show "\<exists>ld. lastDisposition s' = Some ld \<and>
            (slaStatus ld = Sla_missed \<longleftrightarrow> ss_slaMissed (shiftStats s') = ss_slaMissed (shiftStats s) + 1)"
    using assms(2) by (auto simp: s'_def resolveAlarm_def acknowledgeAlert_def slaStatus_def slaMissedBy_def truthy_int_def Let_def
        split: option.splits)
  let ?h = "ss_alarmsHandled (shiftStats s)" and ?m = "ss_slaMissed (shiftStats s)"
  have m: "0 \<le> ?m" "?m \<le> ?h" using assms(1) unfolding store_inv_def by blast+
  let ?q = "of_int (?h - ?m) / of_int ?h * 100 :: number"
  have q: "0 < ?h \<Longrightarrow> 0 \<le> ?q \<and> ?q \<le> 100"
    using m by (simp add: divide_le_eq)
  have b: "0 < ?h \<Longrightarrow> 0 \<le> js_round ?q \<and> js_round ?q \<le> 100"
    using js_round_between [of 0 ?q 100] q by simp
  show "0 \<le> slaCompliance (shiftStats s)" "slaCompliance (shiftStats s) \<le> 100"
    using b by (auto simp: slaCompliance_def)
  show "?m = 0 \<longrightarrow> slaCompliance (shiftStats s) = 100"
  proof
    assume "?m = 0"
    then have "0 < ?h \<Longrightarrow> ?q = of_int 100" by simp
    then have "0 < ?h \<Longrightarrow> js_round ?q = 100" using js_round_between [of 100 ?q 100] by simp
    then show "slaCompliance (shiftStats s) = 100" by (simp add: slaCompliance_def)
  qed
qed

theorem overlay_agrees_with_statistics_witness:
  "slaCompliance (shiftStats ((initialStore 0)\<lparr> activeAlarm := Some (alert_fixture ''a'' None 0 None) \<rparr>)) \<le> 100"
proof -
  let ?s = "(initialStore 0)\<lparr> activeAlarm := Some (alert_fixture ''a'' None 0 None) \<rparr>"
  have "store_inv ?s" by (simp add: store_inv_def initialStore_def lock_coherent_def)
  from overlay_agrees_with_statistics [OF this, of "alert_fixture ''a'' None 0 None" 1 Verified_other] show ?thesis by simp
qed

section \<open>Handing off\<close>

text \<open>A handoff is requested for the chosen colleague only if that colleague is on shift and is not the
  operator; when the request is rejected the form stays in its creating state and open.\<close>

lemma handoff_outcome:
  assumes "currentOperator s = Some oper"
  shows "(\<forall>p \<in> set presence. pr_operator_id p = toOperator f \<longrightarrow> \<not> pr_on_shift p \<or> pr_operator_id p = so_id oper)
         \<Longrightarrow> handleCreate locked presence s f w = (w, f)"
    and "toOperator f \<noteq> [] \<Longrightarrow> List.find (\<lambda>p. pr_operator_id p = toOperator f) (availableOperators (Some oper) presence) = Some target
         \<Longrightarrow> snd (createHandoff (handoff_payload oper target locked (myActiveAlerts s) (hf_text f)) w) = Inl e
         \<Longrightarrow> hf_creating (snd (handleCreate locked presence s f w)) \<and> hf_open (snd (handleCreate locked presence s f w)) = hf_open f"
proof -
  assume off: "\<forall>p \<in> set presence. pr_operator_id p = toOperator f \<longrightarrow> \<not> pr_on_shift p \<or> pr_operator_id p = so_id oper"
  then have "List.find (\<lambda>p. pr_operator_id p = toOperator f) (availableOperators (Some oper) presence) = None"
    by (auto simp: find_None_iff availableOperators_def)
  then show "handleCreate locked presence s f w = (w, f)" using assms by (simp add: handleCreate_def)
next
  assume "toOperator f \<noteq> []" "List.find (\<lambda>p. pr_operator_id p = toOperator f) (availableOperators (Some oper) presence) = Some target"
    "snd (createHandoff (handoff_payload oper target locked (myActiveAlerts s) (hf_text f)) w) = Inl e"
  with assms show "hf_creating (snd (handleCreate locked presence s f w)) \<and> hf_open (snd (handleCreate locked presence s f w)) = hf_open f"
    by (auto simp: handleCreate_def split: prod.splits)
qed

end
