(* ===== verification/Video_Player.thy ===== *)
theory Video_Player
  imports Operator_Input Nvr_Api
begin

text \<open>
  A tile of the camera wall (\<^verbatim>\<open>components/VideoPlayer.tsx\<close>): the choice of the live path, the
  loader of recorded segments, seeking, speed and stepping, and the camera's motors.

  The loader is an asynchronous function that waits for the server (the list of segments) and
  for the video element (a segment loads or fails), at most once at a time: a new call aborts
  the call in flight. Its state between two waits is the field \<open>vp_load\<close>; \<open>respond\<close> continues it with
  the answer. The video element is a record: \<open>video_load\<close> is its load algorithm, a requested
  playback is taken to start. The clock is an argument.
\<close>

section \<open>Segments\<close>

record Segment =
  sg_url :: string
  sg_start :: ms
  sg_end :: ms

definition SEGMENT_TOKEN_TTL_MS :: ms where
  "SEGMENT_TOKEN_TTL_MS = 5 * 60000"

definition SEGMENT_CACHE_MAX_AGE_MS :: ms where
  "SEGMENT_CACHE_MAX_AGE_MS = SEGMENT_TOKEN_TTL_MS - 30000"

definition seg_contains :: "ms \<Rightarrow> Segment \<Rightarrow> bool" where
  "seg_contains t s \<longleftrightarrow> sg_start s \<le> t \<and> t \<le> sg_end s"

text \<open>The search loop: index and best index so far.\<close>

fun best_loop :: "ms \<Rightarrow> nat \<Rightarrow> nat option \<Rightarrow> Segment list \<Rightarrow> nat option" where
  "best_loop t i best [] = best"
| "best_loop t i best (s # ss) =
     (if seg_contains t s then Some i
      else best_loop t (Suc i) (if sg_start s \<le> t then Some i else best) ss)"

definition bestIdx :: "ms \<Rightarrow> Segment list \<Rightarrow> nat" where
  "bestIdx t ss = (case best_loop t 0 None ss of Some i \<Rightarrow> i | None \<Rightarrow> 0)"

section \<open>The tile\<close>

record TileVideo =
  v_src :: string
  v_time :: number  \<comment> \<open>seconds\<close>
  v_duration :: "number option"  \<comment> \<open>once the metadata is loaded\<close>
  v_paused :: bool
  v_rate :: number

definition video_load :: "string \<Rightarrow> TileVideo \<Rightarrow> TileVideo" where
  "video_load url v = v\<lparr> v_src := url, v_time := 0, v_duration := None, v_paused := True, v_rate := 1 \<rparr>"

text \<open>What a load in flight waits for: the segment list, or candidate \<open>i\<close> of the list it walks from \<open>best\<close>.\<close>

datatype load_phase = Fetching | Attempt "Segment list" nat nat

record load =
  lo_target :: ms
  lo_autoPlay :: bool
  lo_suppress :: bool
  lo_retry :: bool
  lo_phase :: load_phase

record Player =
  vp_live :: bool
  vp_loading :: bool
  vp_error :: string
  vp_paused :: bool
  vp_segments :: "Segment list"
  vp_currentUrl :: string
  vp_playlistStart :: ms
  vp_playlistEnd :: ms
  vp_lastSeek :: ms
  vp_windowStart :: ms
  vp_windowEnd :: ms
  vp_fetchedAt :: ms
  vp_rate :: number
  vp_video :: TileVideo
  vp_load :: "load option"
  vp_scrub :: "(ms \<times> bool) option"  \<comment> \<open>the debounced load: target and suppression\<close>

definition initial_player :: "bool \<Rightarrow> number \<Rightarrow> Player" where
  "initial_player isLive playbackRate =
     \<lparr> vp_live = isLive, vp_loading = True, vp_error = [], vp_paused = False, vp_segments = [], vp_currentUrl = [],
       vp_playlistStart = 0, vp_playlistEnd = 0, vp_lastSeek = 0, vp_windowStart = 0, vp_windowEnd = 0, vp_fetchedAt = 0,
       vp_rate = playbackRate,
       vp_video = \<lparr> v_src = [], v_time = 0, v_duration = None, v_paused = True, v_rate = 1 \<rparr>,
       vp_load = None, vp_scrub = None \<rparr>"

abbreviation set_video :: "(TileVideo \<Rightarrow> TileVideo) \<Rightarrow> Player \<Rightarrow> Player" where
  "set_video f p \<equiv> p\<lparr> vp_video := f (vp_video p) \<rparr>"

definition no_recordings :: string where
  "no_recordings = ''No recordings available at this time''"

definition corrupt_recording :: string where
  "corrupt_recording =
     ''Could not play recording '' @ [CHR 0xE2, CHR 0x80, CHR 0x94] @ '' file may be corrupt or still being written''"

section \<open>Loading a segment\<close>

definition cache_holds :: "ms \<Rightarrow> ms \<Rightarrow> Player \<Rightarrow> bool" where
  "cache_holds now t p \<longleftrightarrow>
     now - vp_fetchedAt p < SEGMENT_CACHE_MAX_AGE_MS \<and> vp_segments p \<noteq> [] \<and>
     vp_windowStart p \<le> t \<and> t \<le> vp_windowEnd p"

text \<open>The candidate \<open>seg\<close> is loaded.\<close>

definition land :: "load \<Rightarrow> Segment \<Rightarrow> Player \<Rightarrow> Player" where
  "land l seg p =
     (let t = lo_target l;
          offset = max 0 (of_int (t - sg_start seg) / 1000);
          seek = (\<lambda>v. if seg_contains t seg \<and> (case v_duration v of Some d \<Rightarrow> offset < d | None \<Rightarrow> False)
                      then v\<lparr> v_time := offset \<rparr> else v) in
      (set_video (\<lambda>v. (seek v)\<lparr> v_rate := vp_rate p, v_paused := \<not> lo_autoPlay l \<rparr>) p)
        \<lparr> vp_currentUrl := sg_url seg, vp_playlistStart := sg_start seg, vp_playlistEnd := sg_end seg,
          vp_lastSeek := t, vp_loading := False, vp_paused := \<not> lo_autoPlay l, vp_load := None \<rparr>)"

definition begin_run :: "load \<Rightarrow> Player \<Rightarrow> Player" where
  "begin_run l p = p\<lparr> vp_loading := vp_loading p \<or> \<not> lo_suppress l, vp_error := [], vp_load := None \<rparr>"

definition drop_cache :: "Player \<Rightarrow> Player" where
  "drop_cache p = p\<lparr> vp_segments := [], vp_fetchedAt := 0, vp_windowStart := 0, vp_windowEnd := 0, vp_currentUrl := [] \<rparr>"

text \<open>A failed pass: the first drops the cache and asks again, the second reports. With an empty
  cache the second pass always asks the server.\<close>

definition pass_failed :: "load \<Rightarrow> Player \<Rightarrow> Player" where
  "pass_failed l p =
     (if \<not> lo_retry l
      then (begin_run l (drop_cache p))\<lparr> vp_load := Some (l\<lparr> lo_retry := True, lo_phase := Fetching \<rparr>) \<rparr>
      else p\<lparr> vp_error := (if vp_segments p \<noteq> [] then corrupt_recording else no_recordings),
              vp_loading := False, vp_load := None \<rparr>)"

text \<open>Candidate \<open>i\<close> of the walk that began at \<open>best\<close>: at most five are tried.\<close>

definition attempt :: "load \<Rightarrow> Segment list \<Rightarrow> nat \<Rightarrow> nat \<Rightarrow> Player \<Rightarrow> Player" where
  "attempt l ss best i p =
     (if i < length ss \<and> i < best + 5 then
        (if sg_url (ss ! i) = vp_currentUrl p then land l (ss ! i) p
         else (set_video (\<lambda>v. (video_load (sg_url (ss ! i)) v)\<lparr> v_rate := vp_rate p \<rparr>) p)
                \<lparr> vp_load := Some (l\<lparr> lo_phase := Attempt ss best i \<rparr>) \<rparr>)
      else pass_failed l p)"

definition loadSegmentForTime :: "ms \<Rightarrow> ms \<Rightarrow> bool \<Rightarrow> bool \<Rightarrow> Player \<Rightarrow> Player" where
  "loadSegmentForTime now targetMs autoPlay suppressLoading p =
     (let l = \<lparr> lo_target = targetMs, lo_autoPlay = autoPlay, lo_suppress = suppressLoading, lo_retry = False,
                lo_phase = Fetching \<rparr>;
          p1 = begin_run l p in
      if cache_holds now targetMs p
      then attempt l (vp_segments p) (bestIdx targetMs (vp_segments p)) (bestIdx targetMs (vp_segments p)) p1
      else p1\<lparr> vp_load := Some l \<rparr>)"

text \<open>The answer of the server: \<open>None\<close> when the request fails. A list it refuses comes as empty.\<close>

definition segments_fetched :: "ms \<Rightarrow> Segment list option \<Rightarrow> load \<Rightarrow> Player \<Rightarrow> Player" where
  "segments_fetched now answer l p =
     (case answer of
        None \<Rightarrow> pass_failed l p
      | Some ss \<Rightarrow>
          if ss = [] then p\<lparr> vp_error := no_recordings, vp_loading := False, vp_load := None \<rparr>
          else attempt l ss (bestIdx (lo_target l) ss) (bestIdx (lo_target l) ss)
                 (p\<lparr> vp_segments := ss, vp_fetchedAt := now,
                     vp_windowStart := sg_start (hd ss), vp_windowEnd := sg_end (last ss) \<rparr>))"

text \<open>The answer of the element: the duration of the loaded segment, or \<open>None\<close> for an error.\<close>

definition element_answered :: "number option \<Rightarrow> load \<Rightarrow> Segment list \<Rightarrow> nat \<Rightarrow> nat \<Rightarrow> Player \<Rightarrow> Player" where
  "element_answered answer l ss best i p =
     (case answer of
        Some d \<Rightarrow> land l (ss ! i) (set_video (\<lambda>v. v\<lparr> v_duration := Some d \<rparr>) p)
      | None \<Rightarrow> attempt l ss best (Suc i) p)"

record reply =
  re_now :: ms
  re_segments :: "Segment list option"
  re_duration :: "number option"

definition respond :: "reply \<Rightarrow> Player \<Rightarrow> Player" where
  "respond r p =
     (case vp_load p of
        None \<Rightarrow> p
      | Some l \<Rightarrow>
          (case lo_phase l of
             Fetching \<Rightarrow> segments_fetched (re_now r) (re_segments r) l p
           | Attempt ss best i \<Rightarrow> element_answered (re_duration r) l ss best i p))"

section \<open>Playback\<close>

text \<open>Entering playback; the element loses its source.\<close>

definition enter_playback :: "ms \<Rightarrow> ms option \<Rightarrow> Player \<Rightarrow> Player" where
  "enter_playback now playbackTime p =
     (let p1 = (set_video (video_load []) p)
            \<lparr> vp_live := False, vp_segments := [], vp_currentUrl := [], vp_playlistStart := 0, vp_playlistEnd := 0,
              vp_windowStart := 0, vp_windowEnd := 0, vp_fetchedAt := 0 \<rparr> in
      loadSegmentForTime now (case playbackTime of Some t \<Rightarrow> if t = 0 then now else t | None \<Rightarrow> now) False False p1)"

text \<open>The wall-clock overlay in the zone that is \<open>tz\<close> milliseconds ahead of UTC.\<close>

definition formatWallClock :: "ms \<Rightarrow> ms \<Rightarrow> number \<Rightarrow> string" where
  "formatWallClock tz segStartMs offsetSec =
     (let d = \<lfloor>of_int segStartMs + offsetSec * 1000\<rfloor> + tz; two = (\<lambda>n. pad_start 2 (CHR ''0'') (int_str n)) in
      two (d div 3600000 mod 24) @ '':'' @ two (d div 60000 mod 60) @ '':'' @ two (d div 1000 mod 60) @ ''.'' @
      two (d mod 1000 div 10))"

definition overlay_time :: "ms \<Rightarrow> Player \<Rightarrow> string" where
  "overlay_time tz p =
     (if vp_playlistStart p \<le> 0 then ''--:--:--.--'' else formatWallClock tz (vp_playlistStart p) (v_time (vp_video p)))"

definition onEnded :: "ms \<Rightarrow> Player \<Rightarrow> Player" where
  "onEnded now p =
     (case find_index (\<lambda>s. sg_url s = vp_currentUrl p) (vp_segments p) of
        None \<Rightarrow> p
      | Some i \<Rightarrow>
          if Suc i < length (vp_segments p)
          then loadSegmentForTime now (sg_start (vp_segments p ! Suc i) + 1) True True p
          else p)"

definition playback_time_effect :: "bool \<Rightarrow> bool \<Rightarrow> ms option \<Rightarrow> Player \<Rightarrow> Player" where
  "playback_time_effect scrubbing globalPaused playbackTime p =
     (case playbackTime of
        None \<Rightarrow> p
      | Some t \<Rightarrow>
          if vp_live p \<or> t = vp_lastSeek p then p
          else if 0 < vp_playlistStart p \<and> 0 < vp_playlistEnd p \<and> vp_playlistStart p \<le> t \<and> t \<le> vp_playlistEnd p then
            (let offset = of_int (t - vp_playlistStart p) / 1000 in
             if (case v_duration (vp_video p) of Some d \<Rightarrow> 0 \<le> offset \<and> offset \<le> d | None \<Rightarrow> False)
             then (set_video (\<lambda>v. v\<lparr> v_time := offset, v_paused := v_paused v \<and> globalPaused \<rparr>) p)
                    \<lparr> vp_lastSeek := t, vp_paused := vp_paused p \<and> (globalPaused \<or> \<not> v_paused (vp_video p)) \<rparr>
             else p)
          else p\<lparr> vp_scrub := Some (t, scrubbing) \<rparr>)"

definition scrub_delay :: "bool \<Rightarrow> ms \<Rightarrow> Player \<Rightarrow> ms" where
  "scrub_delay scrubbing t p =
     (if scrubbing then (if vp_windowStart p \<le> t \<and> t \<le> vp_windowEnd p then 50 else 300) else 0)"

definition scrub_fires :: "ms \<Rightarrow> Player \<Rightarrow> Player" where
  "scrub_fires now p =
     (case vp_scrub p of
        None \<Rightarrow> p
      | Some (t, suppress) \<Rightarrow> loadSegmentForTime now t True suppress (p\<lparr> vp_scrub := None \<rparr>))"

definition togglePause :: "Player \<Rightarrow> Player" where
  "togglePause p =
     (let was = v_paused (vp_video p) in (set_video (\<lambda>v. v\<lparr> v_paused := \<not> was \<rparr>) p)\<lparr> vp_paused := \<not> was \<rparr>)"

definition global_pause_effect :: "bool \<Rightarrow> Player \<Rightarrow> Player" where
  "global_pause_effect globalPaused p =
     (if vp_live p then p
      else if globalPaused \<and> \<not> v_paused (vp_video p) then (set_video (\<lambda>v. v\<lparr> v_paused := True \<rparr>) p)\<lparr> vp_paused := True \<rparr>
      else if \<not> globalPaused \<and> v_paused (vp_video p) then (set_video (\<lambda>v. v\<lparr> v_paused := False \<rparr>) p)\<lparr> vp_paused := False \<rparr>
      else p)"

definition stepFrame :: "int \<Rightarrow> Player \<Rightarrow> Player" where
  "stepFrame direction p =
     (set_video (\<lambda>v. v\<lparr> v_paused := True, v_time := max 0 (v_time v + of_int direction * (1 / 30)) \<rparr>) p)\<lparr> vp_paused := True \<rparr>"

definition onStep :: "int \<Rightarrow> Player \<Rightarrow> Player" where
  "onStep dir p = (if vp_live p then p else stepFrame (if dir = -1 then -1 else 1) p)"

definition rate_effect :: "number \<Rightarrow> Player \<Rightarrow> Player" where
  "rate_effect rate p =
     (if vp_live p then p\<lparr> vp_rate := rate \<rparr> else (set_video (\<lambda>v. v\<lparr> v_rate := rate \<rparr>) p)\<lparr> vp_rate := rate \<rparr>)"

section \<open>Live view\<close>

datatype quality = Quality_auto | Quality_high | Quality_low

definition useMainStream :: "quality \<Rightarrow> quality \<Rightarrow> bool" where
  "useMainStream cell prop \<longleftrightarrow> (if cell \<noteq> Quality_auto then cell else prop) = Quality_high"

definition toggleCellQuality :: "quality \<Rightarrow> quality \<times> nat \<Rightarrow> quality \<times> nat" where
  "toggleCellQuality prop q =
     (case q of (prev, key) \<Rightarrow>
        (case prev of
           Quality_auto \<Rightarrow> if useMainStream prev prop then Quality_low else Quality_high
         | Quality_high \<Rightarrow> Quality_low
         | Quality_low \<Rightarrow> Quality_high, key + 1))"

datatype live_path = Live_mse id | Live_hls string | Live_native string | Live_unsupported

record Browser =
  br_mse :: bool
  br_hls :: bool
  br_native_hls :: bool

definition live_connect :: "bool \<Rightarrow> Browser \<Rightarrow> id \<Rightarrow> quality \<times> nat \<Rightarrow> live_path" where
  "live_connect lowLatencyEnabled br cameraId q =
     (let liveURL = ''/api/live/'' @ cameraId @ ''/index.m3u8'' in
      if lowLatencyEnabled \<and> br_mse br then Live_mse cameraId
      else if br_hls br then Live_hls liveURL
      else if br_native_hls br then Live_native liveURL
      else Live_unsupported)"

text \<open>Going live: the playback effect clears the source, then the live effect starts; the MSE and HLS
  players attach sources of their own. Pending playback work is left as it is.\<close>

definition enter_live :: "live_path \<Rightarrow> Player \<Rightarrow> Player" where
  "enter_live path p =
     (let p1 = (set_video (video_load []) p)\<lparr> vp_live := True, vp_loading := True, vp_error := [] \<rparr> in
      case path of
        Live_mse _ \<Rightarrow> p1
      | Live_hls _ \<Rightarrow> p1
      | Live_native url \<Rightarrow> (set_video (\<lambda>v. (video_load url v)\<lparr> v_paused := False \<rparr>) p1)\<lparr> vp_loading := False \<rparr>
      | Live_unsupported \<Rightarrow> p1\<lparr> vp_error := ''Browser does not support HLS live view'', vp_loading := False \<rparr>)"

definition hls_headline :: "string \<Rightarrow> string \<Rightarrow> int option \<Rightarrow> string" where
  "hls_headline type details code =
     (if type = ''networkError'' then
        (if code \<in> {Some 500, Some 502, Some 503, Some 504} then ''Camera offline''
         else if code \<in> {Some 401, Some 403} then ''Not authorized to view this camera''
         else if code = Some 404 then ''Stream not found''
         else ''Network error reaching camera'')
      else if type = ''mediaError'' then
        (if starts_with ''manifestIncompatibleCodecs'' details \<or> starts_with ''bufferIncompatibleCodecs'' details
         then ''Browser cannot decode this stream (HEVC support missing)'' else ''Playback error in browser'')
      else ''Stream unavailable'')"

text \<open>The tile's digital zoom is the one of \<^verbatim>\<open>useDigitalZoom\<close>.\<close>

definition player_zoom :: "bool \<Rightarrow> zoom_event \<Rightarrow> DigitalZoom \<Rightarrow> DigitalZoom" where
  "player_zoom allowZoom e z = zoom_step allowZoom e z"

section \<open>Pan, tilt, zoom\<close>

text \<open>The commands sent to the camera are collected, newest last.\<close>

datatype ptz_command = Ptz_move number number number | Ptz_stop

record Ptz =
  ptz_live :: bool
  ptz_active :: bool
  ptz_timer :: bool
  ptz_sent :: "ptz_command list"

definition handlePTZStart :: "number \<Rightarrow> number \<Rightarrow> number \<Rightarrow> Ptz \<Rightarrow> Ptz" where
  "handlePTZStart pn tilt zm s =
     (if \<not> ptz_live s then s
      else s\<lparr> ptz_timer := False, ptz_active := True, ptz_sent := ptz_sent s @ [Ptz_move pn tilt zm] \<rparr>)"

definition handlePTZStop :: "Ptz \<Rightarrow> Ptz" where
  "handlePTZStop s = (if \<not> ptz_live s \<or> \<not> ptz_active s then s else s\<lparr> ptz_timer := True \<rparr>)"

definition ptz_timer_fires :: "Ptz \<Rightarrow> Ptz" where
  "ptz_timer_fires s =
     (if ptz_timer s then s\<lparr> ptz_active := False, ptz_timer := False, ptz_sent := ptz_sent s @ [Ptz_stop] \<rparr> else s)"

datatype ptz_event = Press number number number | Release | Timer_fires | Set_live bool

definition ptz_step :: "ptz_event \<Rightarrow> Ptz \<Rightarrow> Ptz" where
  "ptz_step e s =
     (case e of
        Press a b c \<Rightarrow> handlePTZStart a b c s
      | Release \<Rightarrow> handlePTZStop s
      | Timer_fires \<Rightarrow> ptz_timer_fires s
      | Set_live b \<Rightarrow> s\<lparr> ptz_live := b \<rparr>)"

section \<open>Choosing a segment\<close>

lemma find_index_snoc:
  "find_index P (xs @ [x]) = (case find_index P xs of Some i \<Rightarrow> Some i | None \<Rightarrow> if P x then Some (length xs) else None)"
  by (induction xs) (auto simp del: find_index_None_iff split: option.splits)

lemma best_loop_spec:
  "best_loop t i best ss =
     (case find_index (seg_contains t) ss of
        Some j \<Rightarrow> Some (i + j)
      | None \<Rightarrow> (case find_index (\<lambda>s. sg_start s \<le> t) (rev ss) of
                 Some j \<Rightarrow> Some (i + (length ss - 1 - j)) | None \<Rightarrow> best))"
proof (induction ss arbitrary: i best)
  case (Cons s ss)
  have bound: "find_index P xs = Some j \<Longrightarrow> j < length xs" for P :: "Segment \<Rightarrow> bool" and xs j
    by (induction xs arbitrary: j) (auto split: if_splits option.splits)
  then have "find_index P (rev ss) = Some j \<Longrightarrow> Suc (i + (length ss - Suc j)) = i + (length ss - j)" for P j
    using bound [of P "rev ss" j] by simp
  then show ?case
    by (cases "find_index (seg_contains t) ss"; cases "find_index (\<lambda>s. sg_start s \<le> t) (rev ss)")
       (simp_all add: Cons.IH find_index_snoc del: find_index_None_iff)
qed simp

text \<open>The loader picks the segment a careful search would: the first that contains the moment, else the
  last in the list that began before it, else the first of all.\<close>

theorem best_segment:
  "bestIdx t ss =
     (case find_index (seg_contains t) ss of
        Some i \<Rightarrow> i
      | None \<Rightarrow> (case find_index (\<lambda>s. sg_start s \<le> t) (rev ss) of Some j \<Rightarrow> length ss - 1 - j | None \<Rightarrow> 0))"
  unfolding bestIdx_def best_loop_spec by (simp del: find_index_None_iff split: option.splits)

lemma best_loop_bound: "best_loop t i best ss = Some j \<Longrightarrow> best = Some j \<or> j < i + length ss"
  by (induction ss arbitrary: i best) (force split: if_splits)+

lemma bestIdx_bound: "ss \<noteq> [] \<Longrightarrow> bestIdx t ss < length ss"
  using best_loop_bound [of t 0 None ss] unfolding bestIdx_def by (auto split: option.splits)

section \<open>A load settles\<close>

text \<open>The element itself holds the segment, loaded, and stands at the moment when the segment contains it
  and is long enough.\<close>

definition element_shows :: "ms \<Rightarrow> Segment \<Rightarrow> TileVideo \<Rightarrow> bool" where
  "element_shows t seg v \<longleftrightarrow>
     v_src v = sg_url seg \<and>
     (\<exists>d. v_duration v = Some d \<and>
        (seg_contains t seg \<and> of_int (t - sg_start seg) / 1000 < d \<longrightarrow> v_time v = of_int (t - sg_start seg) / 1000))"

text \<open>The element holds what the tile takes for current, or the tile takes nothing for current.\<close>

definition coherent :: "Player \<Rightarrow> bool" where
  "coherent p \<longleftrightarrow> vp_currentUrl p = [] \<or> v_src (vp_video p) = vp_currentUrl p \<and> v_duration (vp_video p) \<noteq> None"

text \<open>The tile has taken a segment of its list for current, and the element holds it. There is one way for
  the element not to: the walk went on from a file that failed to the address \<open>c\<close> that was current
  before the load, which it does not load again. (An empty address, which the server does not send,
  is mistaken for the current one when there is none.)\<close>

definition landed :: "ms \<Rightarrow> bool \<Rightarrow> string \<Rightarrow> Player \<Rightarrow> bool" where
  "landed t auto c p \<longleftrightarrow>
     (\<exists>seg \<in> set (vp_segments p).
        vp_currentUrl p = sg_url seg \<and> vp_playlistStart p = sg_start seg \<and> vp_playlistEnd p = sg_end seg \<and>
        vp_lastSeek p = t \<and> v_rate (vp_video p) = vp_rate p \<and> v_paused (vp_video p) = (\<not> auto) \<and> vp_paused p = (\<not> auto) \<and>
        (element_shows t seg (vp_video p) \<or> sg_url seg = c \<and> v_src (vp_video p) \<noteq> c \<or> sg_url seg = []))"

text \<open>While a load is in flight it is for this target and walks the cached list; when none is, the tile no
  longer shows its spinner and has landed or reports.\<close>

definition load_inv :: "ms \<Rightarrow> bool \<Rightarrow> string \<Rightarrow> Player \<Rightarrow> bool" where
  "load_inv t auto c p \<longleftrightarrow>
     (case vp_load p of
        None \<Rightarrow> \<not> vp_loading p \<and> (vp_error p \<in> {no_recordings, corrupt_recording} \<or> vp_error p = [] \<and> landed t auto c p)
      | Some l \<Rightarrow> vp_error p = [] \<and> lo_target l = t \<and> lo_autoPlay l = auto \<and> vp_currentUrl p \<in> {c, []} \<and>
          (case lo_phase l of
             Fetching \<Rightarrow> coherent p
           | Attempt ss best i \<Rightarrow> ss = vp_segments p \<and> i < length ss \<and> best \<le> i \<and> i < best + 5 \<and>
               v_src (vp_video p) = sg_url (ss ! i) \<and> sg_url (ss ! i) \<noteq> vp_currentUrl p))"

definition load_pending :: "Player \<Rightarrow> nat" where
  "load_pending p =
     (case vp_load p of
        None \<Rightarrow> 0
      | Some l \<Rightarrow> (if lo_retry l then 0 else 6) +
          (case lo_phase l of Fetching \<Rightarrow> 6 | Attempt ss best i \<Rightarrow> best + 5 - i))"

text \<open>What the element must be for a landing: it holds the segment, loaded, or the segment is the current
  one and it holds another.\<close>

definition may_land :: "string \<Rightarrow> Segment \<Rightarrow> Player \<Rightarrow> bool" where
  "may_land c seg p \<longleftrightarrow>
     v_src (vp_video p) = sg_url seg \<and> v_duration (vp_video p) \<noteq> None \<or>
     sg_url seg = c \<and> v_src (vp_video p) \<noteq> c \<or> sg_url seg = []"

lemma land_element_shows:
  assumes "v_src (vp_video p) = sg_url seg" and "v_duration (vp_video p) \<noteq> None"
  shows "element_shows (lo_target l) seg (vp_video (land l seg p))"
proof -
  have "0 \<le> (of_int (lo_target l - sg_start seg) / 1000 :: number)" if "seg_contains (lo_target l) seg"
    using that by (simp add: seg_contains_def)
  with assms show ?thesis by (auto simp: element_shows_def land_def Let_def max_def split: if_splits option.splits)
qed

lemma land_inv:
  assumes "seg \<in> set (vp_segments p)" "vp_error p = []" "may_land c seg p"
  shows "load_inv (lo_target l) (lo_autoPlay l) c (land l seg p)" "load_pending (land l seg p) = 0"
proof -
  have "v_src (vp_video (land l seg p)) = v_src (vp_video p)" by (simp add: land_def Let_def)
  with assms(3) land_element_shows [of p seg l]
  have "element_shows (lo_target l) seg (vp_video (land l seg p)) \<or>
      sg_url seg = c \<and> v_src (vp_video (land l seg p)) \<noteq> c \<or> sg_url seg = []"
    unfolding may_land_def by auto
  then have "landed (lo_target l) (lo_autoPlay l) c (land l seg p)"
    using assms(1) unfolding landed_def
    by (intro bexI [of _ seg]) (simp_all add: land_def Let_def)
  then show "load_inv (lo_target l) (lo_autoPlay l) c (land l seg p)"
    using assms(2) by (simp add: load_inv_def land_def Let_def)
  show "load_pending (land l seg p) = 0" by (simp add: load_pending_def land_def Let_def)
qed

lemma pass_failed_inv:
  "load_inv (lo_target l) (lo_autoPlay l) c (pass_failed l p)"
  "load_pending (pass_failed l p) = (if lo_retry l then 0 else 6)"
  by (simp_all add: pass_failed_def load_inv_def load_pending_def begin_run_def drop_cache_def coherent_def)

text \<open>A candidate is tried while the element holds what is current, or a failed file.\<close>

definition may_try :: "string \<Rightarrow> Player \<Rightarrow> bool" where
  "may_try c p \<longleftrightarrow> vp_currentUrl p \<in> {c, []} \<and> (coherent p \<or> v_src (vp_video p) \<noteq> vp_currentUrl p)"

lemma attempt_inv:
  assumes "vp_segments p = ss" "best \<le> i" "vp_error p = []" "may_try c p"
  shows "load_inv (lo_target l) (lo_autoPlay l) c (attempt l ss best i p)"
    and "load_pending (attempt l ss best i p) \<le> (if lo_retry l then 0 else 6) + (best + 5 - i)"
proof -
  have walk: "load_inv (lo_target l) (lo_autoPlay l) c (attempt l ss best i p)
      \<and> load_pending (attempt l ss best i p) \<le> (if lo_retry l then 0 else 6) + (best + 5 - i)"
    if "i < length ss" "i < best + 5"
  proof (cases "sg_url (ss ! i) = vp_currentUrl p")
    case True
    have "ss ! i \<in> set (vp_segments p)" using that assms(1) by simp
    moreover have "may_land c (ss ! i) p"
      using assms(4) True by (auto simp: may_try_def may_land_def coherent_def)
    ultimately show ?thesis using land_inv [of "ss ! i" p c l] assms(3) True that by (simp add: attempt_def)
  next
    case False
    with that assms show ?thesis
      by (simp add: attempt_def load_inv_def load_pending_def video_load_def may_try_def)
  qed
  have "attempt l ss best i p = pass_failed l p" if "\<not> (i < length ss \<and> i < best + 5)"
    using that by (simp only: attempt_def if_False)
  with walk pass_failed_inv(1) [of l c p] pass_failed_inv(2) [of l p]
  show "load_inv (lo_target l) (lo_autoPlay l) c (attempt l ss best i p)"
    "load_pending (attempt l ss best i p) \<le> (if lo_retry l then 0 else 6) + (best + 5 - i)"
    by (cases "i < length ss \<and> i < best + 5"; simp)+
qed

lemma respond_inv:
  assumes "load_inv t auto c p"
  shows "load_inv t auto c (respond r p)"
    and "0 < load_pending p \<Longrightarrow> load_pending (respond r p) < load_pending p"
proof -
  have "load_inv t auto c (respond r p) \<and> (0 < load_pending p \<longrightarrow> load_pending (respond r p) < load_pending p)"
  proof (cases "vp_load p")
    case None
    with assms show ?thesis by (simp add: respond_def load_pending_def)
  next
    case (Some l)
    with assms have l: "lo_target l = t" "lo_autoPlay l = auto" "vp_error p = []" "vp_currentUrl p \<in> {c, []}"
      by (simp_all add: load_inv_def)
    show ?thesis
    proof (cases "lo_phase l")
      case Fetching
      have pend: "load_pending p = (if lo_retry l then 0 else 6) + 6" using Some Fetching by (simp add: load_pending_def)
      have run: "respond r p = segments_fetched (re_now r) (re_segments r) l p" using Some Fetching by (simp add: respond_def)
      show ?thesis
      proof (cases "re_segments r")
        case None
        with pass_failed_inv(1) [of l c p] pass_failed_inv(2) [of l p] show ?thesis unfolding run pend by (simp add: segments_fetched_def l)
      next
        case (Some ss)
        let ?p = "p\<lparr> vp_segments := ss, vp_fetchedAt := re_now r, vp_windowStart := sg_start (hd ss), vp_windowEnd := sg_end (last ss) \<rparr>"
        show ?thesis
        proof (cases "ss = []")
          case True
          with Some show ?thesis unfolding run pend by (simp add: segments_fetched_def load_inv_def load_pending_def)
        next
          case False
          with Some have "respond r p = attempt l ss (bestIdx t ss) (bestIdx t ss) ?p"
            unfolding run by (simp add: segments_fetched_def l)
          moreover have "may_try c ?p"
            using assms l(4) Fetching \<open>vp_load p = Some l\<close> by (simp add: may_try_def load_inv_def coherent_def)
          ultimately show ?thesis
            using attempt_inv [of ?p ss "bestIdx t ss" "bestIdx t ss" c l] unfolding pend by (simp add: l)
        qed
      qed
    next
      case (Attempt ss best i)
      from assms Some Attempt have a: "vp_segments p = ss" "i < length ss" "best \<le> i" "i < best + 5"
          "v_src (vp_video p) = sg_url (ss ! i)" "sg_url (ss ! i) \<noteq> vp_currentUrl p"
        by (auto simp: load_inv_def)
      have pend: "load_pending p = (if lo_retry l then 0 else 6) + (best + 5 - i)" using Some Attempt by (simp add: load_pending_def)
      have run: "respond r p = element_answered (re_duration r) l ss best i p" using Some Attempt by (simp add: respond_def)
      show ?thesis
      proof (cases "re_duration r")
        case None
        moreover have "may_try c p" using a l(4) by (simp add: may_try_def)
        ultimately show ?thesis
          using attempt_inv [of p ss best "Suc i" c l] a unfolding run pend by (simp add: element_answered_def l)
      next
        case (Some d)
        with land_inv [of "ss ! i" "set_video (\<lambda>v. v\<lparr> v_duration := Some d \<rparr>) p" c l] a
        show ?thesis unfolding run pend by (simp add: element_answered_def l may_land_def)
      qed
    qed
  qed
  then show "load_inv t auto c (respond r p)" "0 < load_pending p \<Longrightarrow> load_pending (respond r p) < load_pending p" by blast+
qed

definition busy :: "Player \<Rightarrow> load list" where
  "busy p = (case vp_load p of None \<Rightarrow> [] | Some l \<Rightarrow> [l])"

lemma load_pending_zero: "load_inv t auto c p \<Longrightarrow> load_pending p = 0 \<longleftrightarrow> vp_load p = None"
  by (auto simp: load_pending_def load_inv_def split: option.splits load_phase.splits)

interpretation loader: draining respond load_pending "load_inv t auto c" busy for t auto c
proof
  show "load_inv t auto c (respond r p)" if "load_inv t auto c p" for p r using that by (rule respond_inv)
  show "load_pending (respond r p) < load_pending p" if "load_inv t auto c p" "0 < load_pending p" for p r
    using that by (rule respond_inv)
  show "load_pending (respond r p) = 0" if "load_inv t auto c p" "load_pending p = 0" for p r
    using load_pending_zero [OF that(1)] that(2) by (simp add: respond_def)
  show "busy p = []" if "load_inv t auto c p" "load_pending p = 0" for p
    using load_pending_zero [OF that(1)] that(2) by (simp add: busy_def)
qed

abbreviation fresh_load :: "ms \<Rightarrow> bool \<Rightarrow> bool \<Rightarrow> load" where
  "fresh_load t auto quiet \<equiv>
     \<lparr> lo_target = t, lo_autoPlay = auto, lo_suppress = quiet, lo_retry = False, lo_phase = Fetching \<rparr>"

lemma load_cached:
  "cache_holds now t p \<Longrightarrow> loadSegmentForTime now t auto quiet p =
     attempt (fresh_load t auto quiet) (vp_segments p) (bestIdx t (vp_segments p)) (bestIdx t (vp_segments p))
       (begin_run (fresh_load t auto quiet) p)"
  by (simp add: loadSegmentForTime_def Let_def)

lemma load_uncached:
  "\<not> cache_holds now t p \<Longrightarrow> loadSegmentForTime now t auto quiet p =
     (begin_run (fresh_load t auto quiet) p)\<lparr> vp_load := Some (fresh_load t auto quiet) \<rparr>"
  by (simp add: loadSegmentForTime_def Let_def)

lemma begin_load_inv:
  assumes "coherent p"
  shows "load_inv t auto (vp_currentUrl p) (loadSegmentForTime now t auto quiet p) \<and>
    load_pending (loadSegmentForTime now t auto quiet p) \<le> 12"
proof (cases "cache_holds now t p")
  case True
  let ?l = "fresh_load t auto quiet"
  have p: "vp_segments (begin_run ?l p) = vp_segments p" "vp_error (begin_run ?l p) = []"
    "may_try (vp_currentUrl p) (begin_run ?l p)"
    using assms by (simp_all add: begin_run_def may_try_def coherent_def)
  from attempt_inv [of "begin_run ?l p" "vp_segments p" _ _ _ ?l, OF p(1) order_refl p(2,3), of "bestIdx t (vp_segments p)"]
  show ?thesis unfolding load_cached [OF True] by simp
next
  case False
  with assms show ?thesis
    by (simp add: load_uncached load_inv_def load_pending_def begin_run_def coherent_def)
qed

text \<open>C25: Loading a recording always comes to an end. Begun while the video element holds the segment the
  tile takes for current (or the tile has none), and however the server and the element answer (missing
  lists, corrupt files, failing requests): after at most twelve answers no load is in flight and the
  spinner is gone, and the tile either reports that there is nothing to play or has taken a segment of
  its list for current, with the chosen speed and playing exactly when it was asked to. The element
  then holds that segment, loaded, and stands at the requested moment when the segment contains it
  and is long enough; with the one exception that it keeps another, failed file when the walk skipped
  from that onto the address that was current before the load.\<close>

theorem load_settles:
  fixes now t :: ms and auto quiet :: bool and p :: Player
  assumes "12 \<le> length rs" and "coherent p"
  defines "q \<equiv> fold respond rs (loadSegmentForTime now t auto quiet p)"
  shows "vp_load q = None \<and> \<not> vp_loading q \<and>
    (vp_error q \<in> {no_recordings, corrupt_recording} \<or> vp_error q = [] \<and> landed t auto (vp_currentUrl p) q)"
proof -
  let ?q = "loadSegmentForTime now t auto quiet p"
  note start = begin_load_inv [OF assms(2), of t auto now quiet]
  have "busy q = []"
    unfolding q_def using start assms(1) le_trans by (blast intro: loader.drains)
  moreover have "load_inv t auto (vp_currentUrl p) q" unfolding q_def by (rule loader.inv_fold [OF start [THEN conjunct1]])
  ultimately show ?thesis by (auto simp: busy_def load_inv_def split: option.splits)
qed

theorem load_settles_witness:
  "vp_load (fold respond (replicate 12 \<lparr> re_now = 5, re_segments = None, re_duration = None \<rparr>)
      (loadSegmentForTime 5 7 True False (initial_player False 1))) = None"
proof -
  have "12 \<le> length (replicate 12 \<lparr> re_now = (5 :: ms), re_segments = None, re_duration = None \<rparr>)"
    "coherent (initial_player False 1)" by (simp_all add: coherent_def initial_player_def)
  from load_settles [OF this] show ?thesis by blast
qed

text \<open>The condition at the start matters too: a load that is cut off by the next one leaves its candidate
  in the element. Seeking out of the current segment and at once back into it, before the other has
  loaded, lands on the current address without loading it: the element goes on with the other file.\<close>

lemma cut_off_load_keeps_other_source:
  fixes now t t' :: ms and auto quiet :: bool and p :: Player
  defines "i \<equiv> bestIdx t (vp_segments p)" and "j \<equiv> bestIdx t' (vp_segments p)"
  defines "q \<equiv> loadSegmentForTime now t' auto quiet (loadSegmentForTime now t auto quiet p)"
  assumes "cache_holds now t p" and "cache_holds now t' p" and "sg_url (vp_segments p ! i) \<noteq> vp_currentUrl p"
    and "sg_url (vp_segments p ! j) = vp_currentUrl p"
  shows "vp_load q = None \<and> vp_error q = [] \<and> vp_currentUrl q = sg_url (vp_segments p ! j) \<and>
    v_src (vp_video q) = sg_url (vp_segments p ! i)"
proof -
  let ?l = "fresh_load t auto quiet"
  have ne: "vp_segments p \<noteq> []" using assms(4) by (simp add: cache_holds_def)
  then have ij: "i < length (vp_segments p)" "j < length (vp_segments p)"
    unfolding i_def j_def by (rule bestIdx_bound)+
  have first: "loadSegmentForTime now t auto quiet p =
      (set_video (\<lambda>v. (video_load (sg_url (vp_segments p ! i)) v)\<lparr> v_rate := vp_rate p \<rparr>) (begin_run ?l p))
        \<lparr> vp_load := Some (?l\<lparr> lo_phase := Attempt (vp_segments p) i i \<rparr>) \<rparr>" (is "_ = ?r")
    unfolding load_cached [OF assms(4)] i_def [symmetric] using assms(6) ij by (simp add: attempt_def begin_run_def)
  have c: "cache_holds now t' ?r" using assms(5) by (simp add: cache_holds_def begin_run_def)
  have "q = attempt (fresh_load t' auto quiet) (vp_segments p) j j (begin_run (fresh_load t' auto quiet) ?r)"
    unfolding q_def first load_cached [OF c] j_def by (simp add: begin_run_def)
  then show ?thesis
    using assms(7) ij by (simp add: attempt_def land_def begin_run_def video_load_def Let_def)
qed

text \<open>A corrupt segment before the one on screen blacks the tile out: seeking from segment \<open>i + 1\<close> back
  into segment \<open>i\<close> loads that file into the element; when it fails the loader goes on to segment
  \<open>i + 1\<close>, finds that this is still the current address and does not load it again. The loader
  ends without an error, taking segment \<open>i + 1\<close> for loaded, while the element holds the broken file.\<close>

theorem skipping_onto_current_keeps_broken_source:
  fixes now t :: ms and quiet auto :: bool and p :: Player and r :: reply
  defines "i \<equiv> bestIdx t (vp_segments p)"
  defines "q \<equiv> respond r (loadSegmentForTime now t auto quiet p)"
  assumes "cache_holds now t p" and "Suc i < length (vp_segments p)"
    and "vp_currentUrl p = sg_url (vp_segments p ! Suc i)" and "sg_url (vp_segments p ! i) \<noteq> vp_currentUrl p"
    and "re_duration r = None"
  shows "vp_load q = None \<and> vp_error q = [] \<and> vp_currentUrl q = sg_url (vp_segments p ! Suc i)
    \<and> v_src (vp_video q) = sg_url (vp_segments p ! i)"
proof -
  let ?l = "fresh_load t auto quiet" let ?p = "begin_run ?l p"
  have keep: "vp_currentUrl ?p = vp_currentUrl p" "vp_error ?p = []" "vp_rate ?p = vp_rate p" by (simp_all add: begin_run_def)
  let ?r = "(set_video (\<lambda>v. (video_load (sg_url (vp_segments p ! i)) v)\<lparr> v_rate := vp_rate p \<rparr>) ?p)
    \<lparr> vp_load := Some (?l\<lparr> lo_phase := Attempt (vp_segments p) i i \<rparr>) \<rparr>"
  have "loadSegmentForTime now t auto quiet p = ?r"
    unfolding load_cached [OF assms(3)] i_def [symmetric] using assms(4,6) by (simp add: attempt_def keep)
  then have "q = attempt (?l\<lparr> lo_phase := Attempt (vp_segments p) i i \<rparr>) (vp_segments p) i (Suc i) ?r"
    unfolding q_def using assms(7) by (simp add: respond_def element_answered_def)
  also have "\<dots> = land (?l\<lparr> lo_phase := Attempt (vp_segments p) i i \<rparr>) (vp_segments p ! Suc i) ?r"
    using assms(4,5) by (simp add: attempt_def keep)
  finally show ?thesis by (simp add: land_def keep video_load_def Let_def)
qed

section \<open>Playing on\<close>

text \<open>A list of segments in order, none empty, none overlapping the next.\<close>

definition in_sequence :: "Segment list \<Rightarrow> bool" where
  "in_sequence ss \<longleftrightarrow> sorted_wrt (\<lambda>a b. sg_end a \<le> sg_start b) ss \<and> (\<forall>s \<in> set ss. sg_start s < sg_end s)"

lemma find_index_at:
  "i < length xs \<Longrightarrow> P (xs ! i) \<Longrightarrow> (\<And>j. j < i \<Longrightarrow> \<not> P (xs ! j)) \<Longrightarrow> find_index P xs = Some i"
proof (induction xs arbitrary: i)
  case (Cons x xs)
  show ?case
  proof (cases i)
    case (Suc k)
    have "\<not> P (xs ! j)" if "j < k" for j using Cons.prems(3) [of "Suc j"] that Suc by simp
    then have "find_index P xs = Some k" using Cons.IH [of k] Cons.prems(1,2) Suc by simp
    then show ?thesis using Cons.prems(3) [of 0] Suc by simp
  qed (use Cons.prems in simp)
qed simp

lemma best_of_start:
  assumes "in_sequence ss" "i < length ss"
  shows "bestIdx (sg_start (ss ! i) + 1) ss = i"
proof -
  have "\<not> seg_contains (sg_start (ss ! i) + 1) (ss ! j)" if "j < i" for j
    using assms that by (auto simp: in_sequence_def seg_contains_def dest: sorted_wrt_nth_less)
  moreover have "seg_contains (sg_start (ss ! i) + 1) (ss ! i)"
    using assms by (simp add: in_sequence_def seg_contains_def) (meson add1_zle_eq nth_mem)
  ultimately have "find_index (seg_contains (sg_start (ss ! i) + 1)) ss = Some i"
    using find_index_at [of i ss] assms(2) by blast
  then show ?thesis unfolding bestIdx_def best_loop_spec by simp
qed

lemma current_index:
  "distinct (map sg_url ss) \<Longrightarrow> i < length ss \<Longrightarrow> find_index (\<lambda>s. sg_url s = sg_url (ss ! i)) ss = Some i"
  by (intro find_index_at) (auto simp: distinct_conv_nth)

lemma onEnded_loads:
  assumes "distinct (map sg_url (vp_segments p))" "Suc i < length (vp_segments p)" "vp_currentUrl p = sg_url (vp_segments p ! i)"
  shows "onEnded now p = loadSegmentForTime now (sg_start (vp_segments p ! Suc i) + 1) True True p"
  using assms current_index [OF assms(1), of i] by (simp add: onEnded_def)

lemma begin_run_keeps:
  "vp_currentUrl (begin_run l p) = vp_currentUrl p" "vp_error (begin_run l p) = []" "vp_rate (begin_run l p) = vp_rate p"
  "vp_video (begin_run l p) = vp_video p" "vp_segments (begin_run l p) = vp_segments p"
  by (simp_all add: begin_run_def)

text \<open>Playback runs on across segment boundaries: when a segment ends and the list is in sequence, the
  next segment is loaded into the element and, once it is there, plays with the chosen speed.\<close>

theorem playback_advances:
  assumes "distinct (map sg_url (vp_segments p))" and "in_sequence (vp_segments p)" and "Suc i < length (vp_segments p)"
    and "vp_currentUrl p = sg_url (vp_segments p ! i)"
    and "cache_holds now (sg_start (vp_segments p ! Suc i) + 1) p"
    and "re_duration r = Some d" and "q = respond r (onEnded now p)"
  shows "vp_currentUrl q = sg_url (vp_segments p ! Suc i) \<and> v_src (vp_video q) = sg_url (vp_segments p ! Suc i)
       \<and> \<not> v_paused (vp_video q) \<and> v_rate (vp_video q) = vp_rate p \<and> vp_load q = None \<and> vp_error q = []"
proof -
  let ?ss = "vp_segments p" let ?t = "sg_start (?ss ! Suc i) + 1" let ?l = "fresh_load ?t True True"
  have "sg_url (?ss ! Suc i) \<noteq> vp_currentUrl p" using assms(1,3,4) by (auto simp: distinct_conv_nth)
  then have "onEnded now p = (set_video (\<lambda>v. (video_load (sg_url (?ss ! Suc i)) v)\<lparr> v_rate := vp_rate p \<rparr>) (begin_run ?l p))
        \<lparr> vp_load := Some (?l\<lparr> lo_phase := Attempt ?ss (Suc i) (Suc i) \<rparr>) \<rparr>"
    unfolding onEnded_loads [OF assms(1,3,4)] load_cached [OF assms(5)] best_of_start [OF assms(2,3)]
    using assms(3) by (simp add: attempt_def begin_run_keeps)
  then show ?thesis unfolding assms(7)
    using assms(6) by (simp add: respond_def element_answered_def land_def begin_run_keeps video_load_def Let_def)
qed

text \<open>When the next segment begins before the current one ends, playback does not advance: the loader
  selects the segment that just ended again, and the element jumps back to the beginning of the
  overlap and plays its tail once more.\<close>

theorem overlap_replays_tail:
  assumes "distinct (map sg_url (vp_segments p))" and "Suc i < length (vp_segments p)"
    and "vp_currentUrl p = sg_url (vp_segments p ! i)"
    and "cache_holds now (sg_start (vp_segments p ! Suc i) + 1) p"
    and "\<forall>j < i. sg_end (vp_segments p ! j) \<le> sg_start (vp_segments p ! Suc i)"
    and "sg_start (vp_segments p ! i) \<le> sg_start (vp_segments p ! Suc i)"
    and "sg_start (vp_segments p ! Suc i) < sg_end (vp_segments p ! i)"
    and "v_duration (vp_video p) = Some d"
    and "of_int (sg_start (vp_segments p ! Suc i) + 1 - sg_start (vp_segments p ! i)) / 1000 < d"
  shows "vp_currentUrl (onEnded now p) = vp_currentUrl p \<and> \<not> v_paused (vp_video (onEnded now p)) \<and> vp_load (onEnded now p) = None
    \<and> v_time (vp_video (onEnded now p)) = of_int (sg_start (vp_segments p ! Suc i) + 1 - sg_start (vp_segments p ! i)) / 1000"
proof -
  let ?ss = "vp_segments p" let ?t = "sg_start (?ss ! Suc i) + 1" let ?l = "fresh_load ?t True True"
  have in_i: "seg_contains ?t (?ss ! i)" using assms(6,7) by (simp add: seg_contains_def)
  have "find_index (seg_contains ?t) ?ss = Some i"
    using assms(2,5) in_i by (intro find_index_at) (auto simp: seg_contains_def)
  then have "bestIdx ?t ?ss = i" unfolding bestIdx_def best_loop_spec by simp
  then have "onEnded now p = land ?l (?ss ! i) (begin_run ?l p)"
    unfolding onEnded_loads [OF assms(1-3)] load_cached [OF assms(4)] using assms(2,3) by (simp add: attempt_def begin_run_keeps)
  with assms(6,8,9) in_i show ?thesis by (simp add: land_def begin_run_keeps assms(3) Let_def max_def)
qed

section \<open>Going live\<close>

text \<open>Going live does not call off a recording that is still being looked for: when the list arrives
  after the switch, the live tile's element is given the address of the recorded segment, and
  the spinner of the live connection is taken away when that loads.\<close>

theorem going_live_is_hijacked:
  assumes "vp_load p = Some l" and "lo_phase l = Fetching" and "re_segments r = Some ss" and "ss \<noteq> []"
    and "sg_url (ss ! bestIdx (lo_target l) ss) \<noteq> vp_currentUrl p"
  shows "vp_live (respond r (enter_live path p)) \<and>
    v_src (vp_video (respond r (enter_live path p))) = sg_url (ss ! bestIdx (lo_target l) ss)"
proof -
  have live: "vp_load (enter_live path p) = Some l" "vp_currentUrl (enter_live path p) = vp_currentUrl p" "vp_live (enter_live path p)"
    using assms(1) by (cases path; simp add: enter_live_def Let_def)+
  show ?thesis
    using assms(2-5) live bestIdx_bound [OF assms(4), of "lo_target l"]
    by (simp add: respond_def segments_fetched_def attempt_def video_load_def)
qed

section \<open>Motors\<close>

definition ptz_inv :: "Ptz \<Rightarrow> bool" where
  "ptz_inv s \<longleftrightarrow> (ptz_active s \<longleftrightarrow> ptz_sent s \<noteq> [] \<and> last (ptz_sent s) \<noteq> Ptz_stop) \<and> (ptz_timer s \<longrightarrow> ptz_active s)"

lemma ptz_step_inv: "ptz_inv s \<Longrightarrow> ptz_inv (ptz_step e s)"
  by (cases e) (auto simp: ptz_inv_def ptz_step_def handlePTZStart_def handlePTZStop_def ptz_timer_fires_def)

lemma ptz_inv_start: "ptz_sent s = [] \<Longrightarrow> \<not> ptz_active s \<Longrightarrow> \<not> ptz_timer s \<Longrightarrow> ptz_inv s"
  by (simp add: ptz_inv_def)

interpretation motors: machine ptz_step "\<lambda>s. ptz_sent s = [] \<and> \<not> ptz_active s \<and> \<not> ptz_timer s" ptz_inv
  by unfold_locales (auto intro: ptz_step_inv ptz_inv_start)

text \<open>In live view the camera stops after the button is released: whatever happened before, a release
  and its timer leave the camera without motion. But a tile that leaves live view while a button
  is held never stops the camera: no release and no timer sends the stop.\<close>

theorem motion_stops_in_live_view:
  assumes "reach ptz_step (\<lambda>s. ptz_sent s = [] \<and> \<not> ptz_active s \<and> \<not> ptz_timer s) s"
  shows "(ptz_live s \<longrightarrow> (let q = ptz_step Timer_fires (ptz_step Release s) in ptz_sent q = [] \<or> last (ptz_sent q) = Ptz_stop))
    \<and> (\<not> ptz_timer s \<longrightarrow> set es \<subseteq> {Release, Timer_fires} \<longrightarrow>
         ptz_sent (fold ptz_step es (ptz_step (Set_live False) s)) = ptz_sent s)"
proof (intro conjI impI)
  have inv: "ptz_inv s" by (rule motors.inv_reach [OF assms])
  show "let q = ptz_step Timer_fires (ptz_step Release s) in ptz_sent q = [] \<or> last (ptz_sent q) = Ptz_stop" if "ptz_live s"
    using inv that by (auto simp: ptz_inv_def ptz_step_def handlePTZStop_def ptz_timer_fires_def Let_def)
  assume "\<not> ptz_timer s" and es: "set es \<subseteq> {Release, Timer_fires}"
  have "ptz_step e q = q" if "e \<in> {Release, Timer_fires}" "\<not> ptz_live q" "\<not> ptz_timer q" for e q
    using that by (auto simp: ptz_step_def handlePTZStop_def ptz_timer_fires_def)
  then have "\<not> ptz_live q \<Longrightarrow> \<not> ptz_timer q \<Longrightarrow> fold ptz_step es q = q" for q
    using es by (induction es) auto
  then show "ptz_sent (fold ptz_step es (ptz_step (Set_live False) s)) = ptz_sent s"
    using \<open>\<not> ptz_timer s\<close> by (simp add: ptz_step_def)
qed

lemma quality_button_same_stream: "live_connect ll br c (toggleCellQuality prop q) = live_connect ll br c q"
  by (simp add: live_connect_def)

section \<open>Examples\<close>

definition two_segments :: "ms \<Rightarrow> Segment list" where
  "two_segments e = [\<lparr> sg_url = ''/a'', sg_start = 1000, sg_end = e \<rparr>, \<lparr> sg_url = ''/b'', sg_start = 10000, sg_end = 20000 \<rparr>]"

definition recorded_player :: "ms \<Rightarrow> string \<Rightarrow> Player" where
  "recorded_player e url = (initial_player False 2)
     \<lparr> vp_segments := two_segments e, vp_currentUrl := url, vp_windowStart := 1000, vp_windowEnd := 20000, vp_fetchedAt := 50,
       vp_video := \<lparr> v_src = url, v_time = 0, v_duration = Some 30, v_paused = False, v_rate = 2 \<rparr> \<rparr>"

lemmas recorded_defs = recorded_player_def two_segments_def initial_player_def cache_holds_def SEGMENT_CACHE_MAX_AGE_MS_def
  SEGMENT_TOKEN_TTL_MS_def seg_contains_def bestIdx_def

theorem skipping_onto_current_keeps_broken_source_witness:
  "v_src (vp_video (respond \<lparr> re_now = 61, re_segments = None, re_duration = None \<rparr>
     (loadSegmentForTime 60 2000 True False (recorded_player 9000 ''/b'')))) = ''/a''"
  using skipping_onto_current_keeps_broken_source
    [of 60 2000 "recorded_player 9000 ''/b''" "\<lparr> re_now = 61, re_segments = None, re_duration = None \<rparr>" True False]
  by (simp add: recorded_defs)

theorem playback_advances_witness:
  "v_src (vp_video (respond \<lparr> re_now = 61, re_segments = None, re_duration = Some 10 \<rparr> (onEnded 60 (recorded_player 9000 ''/a'')))) = ''/b''"
  using playback_advances
    [of "recorded_player 9000 ''/a''" 0 60 "\<lparr> re_now = 61, re_segments = None, re_duration = Some 10 \<rparr>" 10, OF _ _ _ _ _ _ refl]
  by (simp add: recorded_defs in_sequence_def)

theorem overlap_replays_tail_witness:
  "vp_currentUrl (onEnded 60 (recorded_player 12000 ''/a'')) = ''/a''"
  using overlap_replays_tail [of "recorded_player 12000 ''/a''" 0 60 30] by (simp add: recorded_defs)

theorem going_live_is_hijacked_witness:
  "v_src (vp_video (respond \<lparr> re_now = 9, re_segments = Some (two_segments 9000), re_duration = None \<rparr>
     (enter_live (Live_hls ''/api/live/c/index.m3u8'') (loadSegmentForTime 5 2000 True False (initial_player False 1))))) = ''/a''"
proof -
  let ?p = "loadSegmentForTime 5 2000 True False (initial_player False 1)"
  have "vp_load ?p = Some (fresh_load 2000 True False)" "vp_currentUrl ?p = []"
    by (simp_all add: loadSegmentForTime_def begin_run_def recorded_defs)
  with going_live_is_hijacked [of ?p _ "\<lparr> re_now = 9, re_segments = Some (two_segments 9000), re_duration = None \<rparr>"
      "two_segments 9000" "Live_hls ''/api/live/c/index.m3u8''"]
  show ?thesis by (simp add: two_segments_def bestIdx_def seg_contains_def)
qed

theorem motion_stops_in_live_view_witness:
  "ptz_sent (fold ptz_step [Release, Timer_fires] (ptz_step (Set_live False)
     (ptz_step (Press 1 0 0) \<lparr> ptz_live = True, ptz_active = False, ptz_timer = False, ptz_sent = [] \<rparr>))) = [Ptz_move 1 0 0]"
proof -
  let ?init = "\<lparr> ptz_live = True, ptz_active = False, ptz_timer = False, ptz_sent = [] \<rparr>"
  have "reach ptz_step (\<lambda>s. ptz_sent s = [] \<and> \<not> ptz_active s \<and> \<not> ptz_timer s) (ptz_step (Press 1 0 0) ?init)"
    by (rule reach_step, rule reach_start) simp
  from motion_stops_in_live_view [OF this, of "[Release, Timer_fires]"]
  show ?thesis by (simp add: ptz_step_def handlePTZStart_def)
qed

end
