(* ===== verification/Camera_Grid.thy ===== *)
theory Camera_Grid
  imports Grid_Layout Json
begin

text \<open>
  The camera wall (\<^verbatim>\<open>components/CameraGrid.tsx\<close>): saved layouts, the static grid of slots and the freeform
  canvas with its drag and resize gestures, auto-save, and the report of visible cameras. Items have
  integer coordinates, since a drag may leave the canvas. The component's own copies of the layout
  computations equal those of \<open>Grid_Layout\<close>, which are used where they apply; a camera is its id and name.
  Storage holds the list of layouts (its JSON form is in \<open>Browser_Storage\<close>) and the active name.
\<close>

section \<open>Data\<close>

record GridItem =
  gi_i :: id
  gi_x :: int
  gi_y :: int
  gi_w :: int
  gi_h :: int
  gi_cameraId :: "id option"

datatype grid_mode = Static | Freeform

record SavedLayout =
  sl_name :: string
  sl_items :: "GridItem list"
  sl_cols :: nat
  sl_mode :: grid_mode
  sl_preset :: "(nat \<times> nat) option"
  sl_assignments :: "assignments option"

record Cam =
  cam_id :: id
  cam_name :: string

definition to_grid :: "LayoutItem \<Rightarrow> GridItem" where
  "to_grid it = \<lparr> gi_i = li_i it, gi_x = int (li_x it), gi_y = int (li_y it), gi_w = int (li_w it), gi_h = int (li_h it),
                  gi_cameraId = li_cameraId it \<rparr>"

record DragStart =
  ds_clientX :: int
  ds_clientY :: int
  ds_gridX :: int
  ds_gridY :: int

record CameraGrid =
  cg_cameras :: "Cam list"
  cg_saved :: "SavedLayout list"
  cg_active :: string
  cg_layout :: "GridItem list"
  cg_cols :: nat
  cg_editing :: bool
  cg_newName :: string
  cg_mode :: grid_mode
  cg_preset :: "nat \<times> nat"
  cg_assignments :: assignments
  cg_picker :: int
  cg_createMode :: grid_mode
  cg_freeformPicker :: bool
  cg_dragging :: "id option"
  cg_resizing :: "id option"
  cg_ghost :: "GridItem option"
  cg_dragStart :: DragStart
  cg_stored :: "SavedLayout list"
  cg_storedActive :: "string option"

definition initial_grid :: "Cam list \<Rightarrow> SavedLayout list \<Rightarrow> string option \<Rightarrow> CameraGrid" where
  "initial_grid cams stored active =
     \<lparr> cg_cameras = cams, cg_saved = [], cg_active = [], cg_layout = [], cg_cols = 2, cg_editing = False, cg_newName = [],
       cg_mode = Static, cg_preset = (2, 2), cg_assignments = [], cg_picker = -1, cg_createMode = Static,
       cg_freeformPicker = False, cg_dragging = None, cg_resizing = None, cg_ghost = None,
       cg_dragStart = \<lparr> ds_clientX = 0, ds_clientY = 0, ds_gridX = 0, ds_gridY = 0 \<rparr>, cg_stored = stored, cg_storedActive = active \<rparr>"

abbreviation cam_ids :: "CameraGrid \<Rightarrow> id list" where
  "cam_ids g \<equiv> map cam_id (cg_cameras g)"

definition named_preset :: "nat \<times> nat \<Rightarrow> Preset" where
  "named_preset p = preset (fst p) (snd p)"

section \<open>Loading and saving\<close>

definition show_layout :: "SavedLayout \<Rightarrow> CameraGrid \<Rightarrow> CameraGrid" where
  "show_layout l g =
     (case (sl_mode l, sl_preset l, sl_assignments l) of
        (Static, Some p, Some as) \<Rightarrow> g\<lparr> cg_mode := Static, cg_preset := p, cg_assignments := as \<rparr>
      | _ \<Rightarrow> g\<lparr> cg_mode := Freeform, cg_layout := sl_items l, cg_cols := sl_cols l \<rparr>)"

definition grid_mount :: "SavedLayout list \<Rightarrow> CameraGrid \<Rightarrow> CameraGrid" where
  "grid_mount layouts g =
     (let g1 = g\<lparr> cg_saved := layouts \<rparr>; name = nullish (cg_storedActive g) [] in
      case List.find (\<lambda>l. sl_name l = name) layouts of
        None \<Rightarrow> g1
      | Some l \<Rightarrow> show_layout l (g1\<lparr> cg_active := sl_name l \<rparr>))"

text \<open>The effect that validates the assignments, when cameras or preset change.\<close>

definition validate :: "CameraGrid \<Rightarrow> CameraGrid" where
  "validate g =
     (if cg_cameras g = [] then g
      else g\<lparr> cg_assignments :=
             filter (\<lambda>(slot, camId). slot < fst (cg_preset g) * snd (cg_preset g) \<and> camId \<in> set (cam_ids g)) (cg_assignments g) \<rparr>)"

definition save_entry :: "CameraGrid \<Rightarrow> SavedLayout \<Rightarrow> SavedLayout" where
  "save_entry g l =
     (if sl_name l \<noteq> cg_active g then l
      else if sl_mode l = Static then l\<lparr> sl_preset := Some (cg_preset g), sl_assignments := Some (cg_assignments g) \<rparr>
      else l\<lparr> sl_items := cg_layout g, sl_cols := cg_cols g \<rparr>)"

definition autosave :: "CameraGrid \<Rightarrow> CameraGrid" where
  "autosave g =
     (if cg_active g = [] then g
      else (let updated = map (save_entry g) (cg_saved g) in g\<lparr> cg_saved := updated, cg_stored := updated \<rparr>))"

text \<open>The cameras of the active layout, each once, as reported to the page.\<close>

definition visible_cameras :: "CameraGrid \<Rightarrow> id list" where
  "visible_cameras g =
     (if cg_active g = [] then []
      else case cg_mode g of
        Static \<Rightarrow> filter (\<lambda>i. i \<noteq> [] \<and> i \<in> set (cam_ids g)) (map_values (\<lambda>i. i) (map snd (cg_assignments g)))
      | Freeform \<Rightarrow> map_values (\<lambda>i. i)
          (filter (\<lambda>i. i \<noteq> [] \<and> i \<in> set (cam_ids g)) (List.map_filter gi_cameraId (cg_layout g))))"

section \<open>Layouts\<close>

definition handleCreateLayout :: "CameraGrid \<Rightarrow> CameraGrid" where
  "handleCreateLayout g =
     (let name = js_trim (cg_newName g) in
      if name = [] then g
      else (let layout = (if cg_createMode g = Static
                  then \<lparr> sl_name = name, sl_items = [], sl_cols = fst (cg_preset g), sl_mode = Static,
                         sl_preset = Some (cg_preset g), sl_assignments = Some [] \<rparr>
                  else \<lparr> sl_name = name, sl_items = [], sl_cols = 2, sl_mode = Freeform, sl_preset = None,
                         sl_assignments = None \<rparr>);
                updated = filter (\<lambda>l. sl_name l \<noteq> name) (cg_saved g) @ [layout];
                g1 = g\<lparr> cg_saved := updated, cg_stored := updated, cg_active := name, cg_mode := cg_createMode g,
                        cg_storedActive := Some name, cg_newName := [] \<rparr>
            in if cg_createMode g = Static then g1\<lparr> cg_assignments := [] \<rparr>
               else g1\<lparr> cg_layout := [], cg_cols := 2, cg_editing := True \<rparr>))"

definition handleLoadLayout :: "SavedLayout \<Rightarrow> CameraGrid \<Rightarrow> CameraGrid" where
  "handleLoadLayout l g =
     (let g1 = (case (sl_mode l, sl_preset l, sl_assignments l) of
             (Static, Some p, Some as) \<Rightarrow> g\<lparr> cg_mode := Static, cg_preset := p, cg_assignments := as \<rparr>
           | _ \<Rightarrow> g\<lparr> cg_mode := Freeform, cg_layout := sl_items l,
                     cg_cols := (if sl_cols l = 0 then 2 else sl_cols l), cg_editing := False \<rparr>)
      in g1\<lparr> cg_active := sl_name l, cg_storedActive := Some (sl_name l) \<rparr>)"

definition handleDeleteLayout :: "bool \<Rightarrow> string \<Rightarrow> CameraGrid \<Rightarrow> CameraGrid" where
  "handleDeleteLayout confirmed name g =
     (if \<not> confirmed then g
      else (let updated = filter (\<lambda>l. sl_name l \<noteq> name) (cg_saved g); g1 = g\<lparr> cg_saved := updated, cg_stored := updated \<rparr> in
            if cg_active g = name then g1\<lparr> cg_active := [], cg_storedActive := None \<rparr> else g1))"

definition newLayout :: "CameraGrid \<Rightarrow> CameraGrid" where
  "newLayout g = g\<lparr> cg_active := [], cg_storedActive := None \<rparr>"

definition grid_before :: "GridItem \<Rightarrow> GridItem \<Rightarrow> bool" where
  "grid_before a b = (if gi_y a \<noteq> gi_y b then gi_y a < gi_y b else gi_x a < gi_x b)"

definition on_wall :: "id list \<Rightarrow> GridItem \<Rightarrow> bool" where
  "on_wall cams it \<longleftrightarrow> (case gi_cameraId it of Some c \<Rightarrow> c \<noteq> [] \<and> c \<in> set cams | None \<Rightarrow> False)"

text \<open>The component's \<^verbatim>\<open>freeformToStatic\<close>.\<close>

definition grid_to_static :: "GridItem list \<Rightarrow> id list \<Rightarrow> (nat \<times> nat) \<times> assignments" where
  "grid_to_static items cams =
     (let cameraItems = filter (on_wall cams) items;
          p = bestPreset (length cameraItems);
          sorted = js_sort grid_before cameraItems
      in ((pr_w p, pr_h p),
          fold (\<lambda>(i, item) as. if i < pr_w p * pr_h p \<and> truthy_str (gi_cameraId item)
                  then assign i (the (gi_cameraId item)) as else as) (enumerate 0 sorted) []))"

definition entry_to_freeform :: "string \<Rightarrow> GridItem list \<Rightarrow> nat \<Rightarrow> SavedLayout \<Rightarrow> SavedLayout" where
  "entry_to_freeform name items cols l =
     (if sl_name l = name then l\<lparr> sl_mode := Freeform, sl_items := items, sl_cols := cols \<rparr> else l)"

definition entry_to_static :: "string \<Rightarrow> nat \<times> nat \<Rightarrow> assignments \<Rightarrow> SavedLayout \<Rightarrow> SavedLayout" where
  "entry_to_static name p as l =
     (if sl_name l = name then l\<lparr> sl_mode := Static, sl_preset := Some p, sl_assignments := Some as \<rparr> else l)"

definition handleConvertLayout :: "CameraGrid \<Rightarrow> CameraGrid" where
  "handleConvertLayout g =
     (if cg_active g = [] then g
      else if cg_mode g = Static then
        (let items = map to_grid (staticToFreeform (cg_assignments g) (named_preset (cg_preset g)));
             updated = map (entry_to_freeform (cg_active g) items (fst (cg_preset g))) (cg_saved g)
         in g\<lparr> cg_mode := Freeform, cg_layout := items, cg_cols := fst (cg_preset g), cg_editing := True,
               cg_saved := updated, cg_stored := updated \<rparr>)
      else
        (let (p, as) = grid_to_static (cg_layout g) (cam_ids g);
             updated = map (entry_to_static (cg_active g) p as) (cg_saved g)
         in g\<lparr> cg_mode := Static, cg_preset := p, cg_assignments := as, cg_editing := False,
               cg_saved := updated, cg_stored := updated \<rparr>))"

section \<open>Cells and tiles\<close>

definition handleAssignCamera :: "nat \<Rightarrow> id option \<Rightarrow> CameraGrid \<Rightarrow> CameraGrid" where
  "handleAssignCamera slot cameraId g =
     g\<lparr> cg_picker := -1, cg_assignments :=
          (case cameraId of
             None \<Rightarrow> filter (\<lambda>kv. fst kv \<noteq> slot) (cg_assignments g)
           | Some c \<Rightarrow> assign slot c (filter (\<lambda>kv. snd kv \<noteq> c) (cg_assignments g))) \<rparr>"

definition handleStaticPresetChange :: "nat \<Rightarrow> nat \<Rightarrow> CameraGrid \<Rightarrow> CameraGrid" where
  "handleStaticPresetChange w h g =
     g\<lparr> cg_preset := (w, h), cg_assignments := filter (\<lambda>kv. fst kv < w * h) (cg_assignments g) \<rparr>"

definition add_item :: "nat \<Rightarrow> id \<Rightarrow> GridItem list \<Rightarrow> GridItem list" where
  "add_item cols cameraId prev =
     (if \<exists>it \<in> set prev. gi_cameraId it = Some cameraId then prev
      else
        (let maxY = (if prev \<noteq> [] then Max ((\<lambda>l. gi_y l + gi_h l) ` set prev) else 0);
             colSpan = int (GRID_COLS div cols);
             col = length prev mod cols;
             y = (if 0 < col \<and> prev \<noteq> [] then gi_y (last prev) else maxY + (if col = 0 then 0 else -12))
         in prev @ [\<lparr> gi_i = cameraId, gi_x = int col * colSpan, gi_y = y, gi_w = colSpan, gi_h = 12,
                      gi_cameraId = Some cameraId \<rparr>]))"

definition handleAddFreeformCamera :: "id \<Rightarrow> CameraGrid \<Rightarrow> CameraGrid" where
  "handleAddFreeformCamera cameraId g =
     g\<lparr> cg_layout := add_item (cg_cols g) cameraId (cg_layout g), cg_freeformPicker := False \<rparr>"

definition handleRemoveFreeformCamera :: "id \<Rightarrow> CameraGrid \<Rightarrow> CameraGrid" where
  "handleRemoveFreeformCamera cameraId g =
     g\<lparr> cg_layout := filter (\<lambda>it. gi_cameraId it \<noteq> Some cameraId) (cg_layout g) \<rparr>"

definition handleQuickLayout :: "nat \<Rightarrow> CameraGrid \<Rightarrow> CameraGrid" where
  "handleQuickLayout columns g =
     g\<lparr> cg_cols := columns,
        cg_layout := map to_grid (generateDefaultLayout (cam_ids g) columns (max 4 (18 div columns))) \<rparr>"

text \<open>The picker offers the cameras whose name contains the search text; those in use are disabled.\<close>

definition picker_options :: "string \<Rightarrow> id list \<Rightarrow> id option \<Rightarrow> Cam list \<Rightarrow> (Cam \<times> bool) list" where
  "picker_options search assigned current cams =
     map (\<lambda>c. (c, \<not> (cam_id c \<in> set assigned \<and> Some (cam_id c) \<noteq> current)))
       (filter (\<lambda>c. contains_str (to_lower search) (to_lower (cam_name c))) cams)"

section \<open>Drag and resize\<close>

definition ROW_HEIGHT_UNIT :: int where
  "ROW_HEIGHT_UNIT = 30"

text \<open>Width of a column with its gap, for a canvas \<open>width\<close> pixels wide; rows have a fixed height.\<close>

definition col_width :: "number \<Rightarrow> number" where
  "col_width width = (width - of_int ((int GRID_COLS - 1) * 6)) / of_int (int GRID_COLS) + 6"

definition row_height :: number where
  "row_height = of_int (ROW_HEIGHT_UNIT + 6)"

definition max_right :: "GridItem list \<Rightarrow> int" where
  "max_right items = foldl (\<lambda>m it. max m (gi_x it + gi_w it)) 0 items"

definition max_bottom :: "GridItem list \<Rightarrow> int" where
  "max_bottom items = foldl (\<lambda>m it. max m (gi_y it + gi_h it)) 0 items"

definition fitToViewport :: "GridItem list \<Rightarrow> GridItem list" where
  "fitToViewport items =
     (if items = [] then items
      else if max_right items = 0 \<or> max_bottom items = 0 then items
      else (let scaleX = (if max_right items > int GRID_COLS then of_int (int GRID_COLS) / of_int (max_right items) else 1 :: number) in
            map (\<lambda>it. it\<lparr> gi_x := js_round (of_int (gi_x it) * scaleX), gi_w := max 2 (js_round (of_int (gi_w it) * scaleX)),
                           gi_h := max 2 (gi_h it) \<rparr>) items))"

definition onDragStart :: "int \<Rightarrow> int \<Rightarrow> GridItem \<Rightarrow> CameraGrid \<Rightarrow> CameraGrid" where
  "onDragStart clientX clientY it g =
     (if \<not> cg_editing g then g
      else g\<lparr> cg_dragging := Some (gi_i it), cg_ghost := Some it,
              cg_dragStart := \<lparr> ds_clientX = clientX, ds_clientY = clientY, ds_gridX = gi_x it, ds_gridY = gi_y it \<rparr> \<rparr>)"

definition onDragMove :: "number \<Rightarrow> int \<Rightarrow> int \<Rightarrow> CameraGrid \<Rightarrow> CameraGrid" where
  "onDragMove width clientX clientY g =
     (case (cg_dragging g, cg_ghost g) of
        (Some _, Some ghost) \<Rightarrow>
          (let s = cg_dragStart g;
               newX = js_round (of_int (ds_gridX s) + of_int (clientX - ds_clientX s) / col_width width);
               newY = js_round (of_int (ds_gridY s) + of_int (clientY - ds_clientY s) / row_height)
           in g\<lparr> cg_ghost := Some (ghost\<lparr> gi_x := newX, gi_y := max 0 newY \<rparr>) \<rparr>)
      | _ \<Rightarrow> g)"

definition onDragEnd :: "CameraGrid \<Rightarrow> CameraGrid" where
  "onDragEnd g =
     (case (cg_dragging g, cg_ghost g) of
        (Some d, Some ghost) \<Rightarrow>
          g\<lparr> cg_layout := fitToViewport (map (\<lambda>it. if gi_i it = d then it\<lparr> gi_x := gi_x ghost, gi_y := gi_y ghost \<rparr> else it) (cg_layout g)),
             cg_dragging := None, cg_ghost := None \<rparr>
      | _ \<Rightarrow> g)"

text \<open>A resize keeps the item's size in the grid fields of the start position.\<close>

definition onResizeStart :: "int \<Rightarrow> int \<Rightarrow> GridItem \<Rightarrow> CameraGrid \<Rightarrow> CameraGrid" where
  "onResizeStart clientX clientY it g =
     (if \<not> cg_editing g then g
      else g\<lparr> cg_resizing := Some (gi_i it), cg_ghost := Some it,
              cg_dragStart := \<lparr> ds_clientX = clientX, ds_clientY = clientY, ds_gridX = gi_w it, ds_gridY = gi_h it \<rparr> \<rparr>)"

definition onResizeMove :: "number \<Rightarrow> int \<Rightarrow> int \<Rightarrow> CameraGrid \<Rightarrow> CameraGrid" where
  "onResizeMove width clientX clientY g =
     (case (cg_resizing g, cg_ghost g) of
        (Some _, Some ghost) \<Rightarrow>
          (let s = cg_dragStart g;
               newW = js_round (of_int (ds_gridX s) + of_int (clientX - ds_clientX s) / col_width width);
               newH = js_round (of_int (ds_gridY s) + of_int (clientY - ds_clientY s) / row_height)
           in g\<lparr> cg_ghost := Some (ghost\<lparr> gi_w := max 2 newW, gi_h := max 2 newH \<rparr>) \<rparr>)
      | _ \<Rightarrow> g)"

definition onResizeEnd :: "CameraGrid \<Rightarrow> CameraGrid" where
  "onResizeEnd g =
     (case (cg_resizing g, cg_ghost g) of
        (Some d, Some ghost) \<Rightarrow>
          g\<lparr> cg_layout := fitToViewport (map (\<lambda>it. if gi_i it = d then it\<lparr> gi_w := gi_w ghost, gi_h := gi_h ghost \<rparr> else it) (cg_layout g)),
             cg_resizing := None, cg_ghost := None \<rparr>
      | _ \<Rightarrow> g)"

definition dynamicRowH :: "int option \<Rightarrow> int \<Rightarrow> int" where
  "dynamicRowH containerHeight maxBottom =
     (case containerHeight of
        Some h \<Rightarrow> if h \<noteq> 0 \<and> maxBottom > 0 then max 8 ((h - (maxBottom - 1) * 6) div maxBottom) else ROW_HEIGHT_UNIT
      | None \<Rightarrow> ROW_HEIGHT_UNIT)"

section \<open>Runs\<close>

datatype grid_event =
    CreateLayout string grid_mode
  | LoadLayout nat
  | DeleteLayout bool string
  | NewLayout
  | ConvertLayout
  | AssignCamera nat "id option"
  | PresetChange nat nat
  | AddCamera id
  | RemoveCamera id
  | DragStart int int GridItem
  | DragMove number int int
  | DragEnd
  | ResizeStart int int GridItem
  | ResizeMove number int int
  | ResizeEnd
  | CamerasChanged "Cam list"
  | ToggleEditing

text \<open>A handler, the validation where cameras or preset changed, then the auto-save. There is a button for
  every saved layout and a cell for every slot of the preset.\<close>

fun handle :: "grid_event \<Rightarrow> CameraGrid \<Rightarrow> CameraGrid" where
  "handle (CreateLayout name mode) g = handleCreateLayout (g\<lparr> cg_newName := name, cg_createMode := mode \<rparr>)"
| "handle (LoadLayout k) g = (if k < length (cg_saved g) then validate (handleLoadLayout (cg_saved g ! k) g) else g)"
| "handle (DeleteLayout c n) g = handleDeleteLayout c n g"
| "handle NewLayout g = newLayout g"
| "handle ConvertLayout g = validate (handleConvertLayout g)"
| "handle (AssignCamera slot c) g = (if slot < fst (cg_preset g) * snd (cg_preset g) then handleAssignCamera slot c g else g)"
| "handle (PresetChange w h) g = validate (handleStaticPresetChange w h g)"
| "handle (AddCamera c) g = handleAddFreeformCamera c g"
| "handle (RemoveCamera c) g = handleRemoveFreeformCamera c g"
| "handle (DragStart x y it) g = onDragStart x y it g"
| "handle (DragMove w x y) g = onDragMove w x y g"
| "handle DragEnd g = onDragEnd g"
| "handle (ResizeStart x y it) g = onResizeStart x y it g"
| "handle (ResizeMove w x y) g = onResizeMove w x y g"
| "handle ResizeEnd g = onResizeEnd g"
| "handle (CamerasChanged cs) g = validate (g\<lparr> cg_cameras := cs \<rparr>)"
| "handle ToggleEditing g = g\<lparr> cg_editing := \<not> cg_editing g \<rparr>"

definition grid_step :: "grid_event \<Rightarrow> CameraGrid \<Rightarrow> CameraGrid" where
  "grid_step e g = autosave (handle e g)"

section \<open>Each camera once\<close>

definition cams_of :: "GridItem list \<Rightarrow> id list" where
  "cams_of items = List.map_filter gi_cameraId items"

lemma cams_of_simps [simp]:
  "cams_of [] = []" "cams_of (it # its) = (case gi_cameraId it of None \<Rightarrow> cams_of its | Some c \<Rightarrow> c # cams_of its)"
  "cams_of (xs @ ys) = cams_of xs @ cams_of ys"
  by (simp_all add: cams_of_def List.map_filter_def split: option.splits)

lemma set_cams_of: "set (cams_of its) = {c. Some c \<in> gi_cameraId ` set its}"
  by (induction its) (auto split: option.splits)

lemma cams_of_map: "(\<And>it. gi_cameraId (f it) = gi_cameraId it) \<Longrightarrow> cams_of (map f its) = cams_of its"
  by (induction its) (auto split: option.splits)

lemma distinct_cams_filter: "distinct (cams_of its) \<Longrightarrow> distinct (cams_of (filter P its))"
  by (induction its) (auto simp: set_cams_of split: option.splits)

lemma mset_cams_of: "mset xs = mset ys \<Longrightarrow> mset (cams_of xs) = mset (cams_of ys)"
proof -
  have eq: "mset (cams_of xs) = image_mset the (filter_mset (\<lambda>c. c \<noteq> None) (image_mset gi_cameraId (mset xs)))" for xs
    by (induction xs) (auto split: option.splits)
  show "mset xs = mset ys \<Longrightarrow> mset (cams_of xs) = mset (cams_of ys)" by (simp only: eq)
qed

definition slots_ok :: "assignments \<Rightarrow> bool" where
  "slots_ok as \<longleftrightarrow> sorted_wrt (<) (map fst as) \<and> distinct (map snd as)"

lemma slots_ok_filter: "slots_ok as \<Longrightarrow> slots_ok (filter P as)"
  by (auto simp: slots_ok_def sorted_wrt_map distinct_map_filter intro: sorted_wrt_filter)

lemma assign_keys: "set (map fst (assign k v as)) = insert k (set (map fst as))"
  by (induction k v as rule: assign.induct) auto

lemma assign_vals: "set (map snd (assign k v as)) \<subseteq> insert v (set (map snd as))"
  by (induction k v as rule: assign.induct) auto

lemma slots_ok_assign: "slots_ok as \<Longrightarrow> v \<notin> set (map snd as) \<Longrightarrow> slots_ok (assign k v as)"
proof (induction k v as rule: assign.induct)
  case (2 k v j u as)
  then have as: "slots_ok as" "u \<notin> snd ` set as" "\<forall>x \<in> fst ` set as. j < x" "v \<notin> set (map snd as)" "v \<noteq> u"
    by (auto simp: slots_ok_def)
  show ?case
  proof (cases "j < k")
    case True
    then have "slots_ok (assign k v as)" using "2.IH" as(1,4) by simp
    moreover have "\<forall>x \<in> set (map fst (assign k v as)). j < x" unfolding assign_keys using True as(3) by simp
    moreover have "u \<notin> set (map snd (assign k v as))" using assign_vals [of k v as] as(2,5) by auto
    ultimately show ?thesis using True by (simp add: slots_ok_def)
  next
    case False
    with "2.prems" show ?thesis by (auto simp: slots_ok_def)
  qed
qed (simp add: slots_ok_def)

lemma slots_ok_enumerate: "distinct cs \<Longrightarrow> slots_ok (enumerate 0 cs)"
  by (simp add: slots_ok_def)

lemma grid_to_static_eq:
  "snd (grid_to_static items cams) =
     (let its = filter (on_wall cams) items; p = bestPreset (length its)
      in enumerate 0 (take (area p) (map (\<lambda>it. the (gi_cameraId it)) (js_sort grid_before its))))"
proof -
  let ?its = "filter (on_wall cams) items"
  have "\<forall>it \<in> set (js_sort grid_before ?its). truthy_str (gi_cameraId it)"
    by (auto simp: on_wall_def truthy_str_def split: option.splits)
  from fold_assign [OF this, of "[]" 0 "area (bestPreset (length ?its))"]
  show ?thesis by (simp add: grid_to_static_def Let_def area_def take_map)
qed

lemma slots_ok_grid_to_static:
  assumes "distinct (cams_of items)"
  shows "slots_ok (snd (grid_to_static items cams))"
proof -
  let ?its = "filter (on_wall cams) items"
  have "map (\<lambda>it. the (gi_cameraId it)) xs = cams_of xs" if "\<forall>it \<in> set xs. on_wall cams it" for xs
    using that by (induction xs) (auto simp: on_wall_def split: option.splits)
  then have "map (\<lambda>it. the (gi_cameraId it)) (js_sort grid_before ?its) = cams_of (js_sort grid_before ?its)" by simp
  moreover have "distinct (cams_of (js_sort grid_before ?its))"
    unfolding mset_eq_imp_distinct_iff [OF mset_cams_of [OF mset_js_sort]] by (rule distinct_cams_filter [OF assms])
  ultimately show ?thesis
    unfolding grid_to_static_eq Let_def by (intro slots_ok_enumerate) (simp add: distinct_take)
qed

section \<open>The wall and its storage\<close>

definition wf_layout :: "SavedLayout \<Rightarrow> bool" where
  "wf_layout l \<longleftrightarrow> sl_name l \<noteq> [] \<and> distinct (cams_of (sl_items l)) \<and>
     (case sl_assignments l of Some as \<Rightarrow> slots_ok as | None \<Rightarrow> True) \<and>
     (sl_mode l = Static \<longrightarrow> sl_preset l \<noteq> None \<and> sl_assignments l \<noteq> None)"

text \<open>What a saved layout and the screen have to agree on.\<close>

definition mirrors :: "SavedLayout \<Rightarrow> CameraGrid \<Rightarrow> bool" where
  "mirrors l g \<longleftrightarrow> sl_name l = cg_active g \<and> sl_mode l = cg_mode g \<and>
     (case sl_mode l of Static \<Rightarrow> sl_preset l = Some (cg_preset g) \<and> sl_assignments l = Some (cg_assignments g)
      | Freeform \<Rightarrow> sl_items l = cg_layout g \<and> sl_cols l = cg_cols g)"

definition wall_ok :: "CameraGrid \<Rightarrow> bool" where
  "wall_ok g \<longleftrightarrow> slots_ok (cg_assignments g) \<and> distinct (cams_of (cg_layout g))"

definition saved_ok :: "CameraGrid \<Rightarrow> bool" where
  "saved_ok g \<longleftrightarrow> cg_stored g = cg_saved g \<and> distinct (map sl_name (cg_saved g)) \<and> (\<forall>l \<in> set (cg_saved g). wf_layout l)"

definition active_ok :: "CameraGrid \<Rightarrow> bool" where
  "active_ok g \<longleftrightarrow> (cg_active g \<noteq> [] \<longrightarrow> cg_storedActive g = Some (cg_active g) \<and>
     (\<exists>l \<in> set (cg_saved g). sl_name l = cg_active g \<and> sl_mode l = cg_mode g))"

definition grid_inv :: "CameraGrid \<Rightarrow> bool" where
  "grid_inv g \<longleftrightarrow> wall_ok g \<and> saved_ok g \<and> active_ok g \<and>
     (cg_active g \<noteq> [] \<longrightarrow> (\<exists>l \<in> set (cg_saved g). mirrors l g))"

lemma save_entry_keeps [simp]:
  "sl_name (save_entry g l) = sl_name l" "sl_mode (save_entry g l) = sl_mode l"
  by (simp_all add: save_entry_def)

lemma wf_save_entry: "wall_ok g \<Longrightarrow> wf_layout l \<Longrightarrow> wf_layout (save_entry g l)"
  by (auto simp: save_entry_def wf_layout_def wall_ok_def)

lemma saved_ok_map:
  assumes "saved_ok g" "\<And>l. wf_layout l \<Longrightarrow> wf_layout (f l)" "\<And>l. sl_name (f l) = sl_name l"
    and "cg_saved g' = map f (cg_saved g)" "cg_stored g' = map f (cg_saved g)"
  shows "saved_ok g'"
  using assms by (simp add: saved_ok_def comp_def)

lemma autosave_restores:
  assumes "wall_ok g" "saved_ok g" "active_ok g"
  shows "grid_inv (autosave g)"
proof (cases "cg_active g = []")
  case True
  with assms show ?thesis by (simp add: autosave_def grid_inv_def)
next
  case False
  have saved: "autosave g = g\<lparr> cg_saved := map (save_entry g) (cg_saved g), cg_stored := map (save_entry g) (cg_saved g) \<rparr>"
    using False by (simp add: autosave_def Let_def)
  have "saved_ok (autosave g)"
    by (rule saved_ok_map [OF assms(2), where f = "save_entry g"]) (simp_all add: saved wf_save_entry assms(1))
  moreover from assms(3) False obtain l where l: "l \<in> set (cg_saved g)" "sl_name l = cg_active g" "sl_mode l = cg_mode g"
    unfolding active_ok_def by blast
  then have "mirrors (save_entry g l) (autosave g)" unfolding mirrors_def saved by (cases "cg_mode g") (simp_all add: save_entry_def)
  moreover have "save_entry g l \<in> set (cg_saved (autosave g))" using l(1) by (simp add: saved)
  moreover have "wall_ok (autosave g)" using assms(1) by (simp add: saved wall_ok_def)
  moreover have "active_ok (autosave g)" using assms(3) by (auto simp: saved active_ok_def)
  ultimately show ?thesis unfolding grid_inv_def by blast
qed

lemma fit_cams: "cams_of (fitToViewport its) = cams_of its"
  by (simp add: fitToViewport_def Let_def cams_of_map)

lemma to_grid_cams: "cams_of (map to_grid (staticToFreeform as p)) = map snd as"
  by (induction as) (auto simp: staticToFreeform_def to_grid_def)

text \<open>Most handlers touch the wall only.\<close>

lemma wall_only:
  assumes "saved_ok g" "active_ok g"
    and "cg_saved g' = cg_saved g" "cg_stored g' = cg_stored g" "cg_active g' = cg_active g"
      "cg_storedActive g' = cg_storedActive g" "cg_mode g' = cg_mode g"
  shows "saved_ok g' \<and> active_ok g'"
  using assms by (simp add: saved_ok_def active_ok_def)

lemma add_item_cams: "distinct (cams_of its) \<Longrightarrow> distinct (cams_of (add_item cols c its))"
  by (auto simp: add_item_def Let_def set_cams_of image_iff)

lemma validate_keeps:
  "saved_ok g \<Longrightarrow> saved_ok (validate g)" "active_ok g \<Longrightarrow> active_ok (validate g)" "wall_ok g \<Longrightarrow> wall_ok (validate g)"
  by (simp_all add: validate_def saved_ok_def active_ok_def wall_ok_def slots_ok_filter)

lemma create_keeps:
  assumes "wall_ok g" "saved_ok g" "active_ok g"
  shows "wall_ok (handleCreateLayout g) \<and> saved_ok (handleCreateLayout g) \<and> active_ok (handleCreateLayout g)"
proof (cases "js_trim (cg_newName g) = []")
  case True
  with assms show ?thesis by (simp add: handleCreateLayout_def)
next
  case False
  with assms show ?thesis
    by (cases "cg_createMode g")
       (auto simp: handleCreateLayout_def wall_ok_def saved_ok_def active_ok_def wf_layout_def slots_ok_def Let_def distinct_map_filter)
qed

lemma load_keeps:
  assumes "wall_ok g" "saved_ok g" "active_ok g" "l \<in> set (cg_saved g)"
  shows "wall_ok (handleLoadLayout l g) \<and> saved_ok (handleLoadLayout l g) \<and> active_ok (handleLoadLayout l g)"
proof -
  have "wf_layout l" using assms(2,4) by (simp add: saved_ok_def)
  with assms show ?thesis
    by (cases "sl_mode l")
       (auto simp: handleLoadLayout_def wall_ok_def saved_ok_def active_ok_def wf_layout_def Let_def split: option.splits)
qed

lemma delete_keeps:
  assumes "wall_ok g" "saved_ok g" "active_ok g"
  shows "wall_ok (handleDeleteLayout c n g) \<and> saved_ok (handleDeleteLayout c n g) \<and> active_ok (handleDeleteLayout c n g)"
  using assms by (auto simp: handleDeleteLayout_def wall_ok_def saved_ok_def active_ok_def distinct_map_filter Let_def)

lemma convert_keeps:
  assumes "wall_ok g" "saved_ok g" "active_ok g"
  shows "wall_ok (handleConvertLayout g) \<and> saved_ok (handleConvertLayout g) \<and> active_ok (handleConvertLayout g)"
proof (cases "cg_active g = []")
  case True
  with assms show ?thesis by (simp add: handleConvertLayout_def)
next
  case False
  then obtain l where l: "l \<in> set (cg_saved g)" "sl_name l = cg_active g" "sl_mode l = cg_mode g"
    using assms(3) unfolding active_ok_def by blast
  have sa: "cg_storedActive g = Some (cg_active g)" using assms(3) False by (simp add: active_ok_def)
  show ?thesis
  proof (cases "cg_mode g")
    case Static
    let ?items = "map to_grid (staticToFreeform (cg_assignments g) (named_preset (cg_preset g)))"
    let ?f = "entry_to_freeform (cg_active g) ?items (fst (cg_preset g))"
    have d: "distinct (cams_of ?items)" using assms(1) by (simp add: to_grid_cams wall_ok_def slots_ok_def)
    have run: "handleConvertLayout g = g\<lparr> cg_mode := Freeform, cg_layout := ?items, cg_cols := fst (cg_preset g),
        cg_editing := True, cg_saved := map ?f (cg_saved g), cg_stored := map ?f (cg_saved g) \<rparr>"
      using False Static by (simp add: handleConvertLayout_def Let_def)
    have "saved_ok (handleConvertLayout g)"
      by (rule saved_ok_map [OF assms(2), where f = ?f])
         (use d in \<open>auto simp: run entry_to_freeform_def wf_layout_def split: option.splits\<close>)
    moreover have "?f l \<in> set (map ?f (cg_saved g))" "sl_name (?f l) = cg_active g" "sl_mode (?f l) = Freeform"
      using l by (simp_all add: entry_to_freeform_def)
    then have "active_ok (handleConvertLayout g)" using sa unfolding run active_ok_def by auto
    ultimately show ?thesis using assms(1) d by (simp add: run wall_ok_def)
  next
    case Freeform
    obtain p as where conv: "grid_to_static (cg_layout g) (cam_ids g) = (p, as)" by fastforce
    let ?f = "entry_to_static (cg_active g) p as"
    have ok: "slots_ok as" using slots_ok_grid_to_static [of "cg_layout g" "cam_ids g"] assms(1) conv by (simp add: wall_ok_def)
    have run: "handleConvertLayout g = g\<lparr> cg_mode := Static, cg_preset := p, cg_assignments := as,
        cg_editing := False, cg_saved := map ?f (cg_saved g), cg_stored := map ?f (cg_saved g) \<rparr>"
      using False Freeform conv by (simp add: handleConvertLayout_def Let_def)
    have "saved_ok (handleConvertLayout g)"
      by (rule saved_ok_map [OF assms(2), where f = ?f])
         (use ok in \<open>auto simp: run entry_to_static_def wf_layout_def\<close>)
    moreover have "?f l \<in> set (map ?f (cg_saved g))" "sl_name (?f l) = cg_active g" "sl_mode (?f l) = Static"
      using l by (simp_all add: entry_to_static_def)
    then have "active_ok (handleConvertLayout g)" using sa unfolding run active_ok_def by auto
    ultimately show ?thesis using assms(1) ok by (simp add: run wall_ok_def)
  qed
qed

lemma drag_keeps:
  "cams_of (cg_layout (onDragStart x y it g)) = cams_of (cg_layout g)" "cg_assignments (onDragStart x y it g) = cg_assignments g"
  "cg_saved (onDragStart x y it g) = cg_saved g" "cg_stored (onDragStart x y it g) = cg_stored g"
  "cg_active (onDragStart x y it g) = cg_active g" "cg_storedActive (onDragStart x y it g) = cg_storedActive g"
  "cg_mode (onDragStart x y it g) = cg_mode g"
  "cams_of (cg_layout (onDragMove w x y g)) = cams_of (cg_layout g)" "cg_assignments (onDragMove w x y g) = cg_assignments g"
  "cg_saved (onDragMove w x y g) = cg_saved g" "cg_stored (onDragMove w x y g) = cg_stored g"
  "cg_active (onDragMove w x y g) = cg_active g" "cg_storedActive (onDragMove w x y g) = cg_storedActive g"
  "cg_mode (onDragMove w x y g) = cg_mode g"
  "cams_of (cg_layout (onDragEnd g)) = cams_of (cg_layout g)" "cg_assignments (onDragEnd g) = cg_assignments g"
  "cg_saved (onDragEnd g) = cg_saved g" "cg_stored (onDragEnd g) = cg_stored g"
  "cg_active (onDragEnd g) = cg_active g" "cg_storedActive (onDragEnd g) = cg_storedActive g" "cg_mode (onDragEnd g) = cg_mode g"
  by (simp_all add: onDragStart_def onDragMove_def onDragEnd_def fit_cams cams_of_map Let_def split: option.splits)

lemma resize_keeps:
  "cams_of (cg_layout (onResizeStart x y it g)) = cams_of (cg_layout g)" "cg_assignments (onResizeStart x y it g) = cg_assignments g"
  "cg_saved (onResizeStart x y it g) = cg_saved g" "cg_stored (onResizeStart x y it g) = cg_stored g"
  "cg_active (onResizeStart x y it g) = cg_active g" "cg_storedActive (onResizeStart x y it g) = cg_storedActive g"
  "cg_mode (onResizeStart x y it g) = cg_mode g"
  "cams_of (cg_layout (onResizeMove w x y g)) = cams_of (cg_layout g)" "cg_assignments (onResizeMove w x y g) = cg_assignments g"
  "cg_saved (onResizeMove w x y g) = cg_saved g" "cg_stored (onResizeMove w x y g) = cg_stored g"
  "cg_active (onResizeMove w x y g) = cg_active g" "cg_storedActive (onResizeMove w x y g) = cg_storedActive g"
  "cg_mode (onResizeMove w x y g) = cg_mode g"
  "cams_of (cg_layout (onResizeEnd g)) = cams_of (cg_layout g)" "cg_assignments (onResizeEnd g) = cg_assignments g"
  "cg_saved (onResizeEnd g) = cg_saved g" "cg_stored (onResizeEnd g) = cg_stored g"
  "cg_active (onResizeEnd g) = cg_active g" "cg_storedActive (onResizeEnd g) = cg_storedActive g" "cg_mode (onResizeEnd g) = cg_mode g"
  by (simp_all add: onResizeStart_def onResizeMove_def onResizeEnd_def fit_cams cams_of_map Let_def split: option.splits)

lemmas pointer_keeps = drag_keeps resize_keeps

lemma handle_keeps:
  assumes "wall_ok g" "saved_ok g" "active_ok g"
  shows "wall_ok (handle e g) \<and> saved_ok (handle e g) \<and> active_ok (handle e g)"
proof -
  have gesture: "wall_ok g' \<and> saved_ok g' \<and> active_ok g'"
    if "slots_ok (cg_assignments g')" "distinct (cams_of (cg_layout g'))" "cg_saved g' = cg_saved g"
      "cg_stored g' = cg_stored g" "cg_active g' = cg_active g" "cg_storedActive g' = cg_storedActive g" "cg_mode g' = cg_mode g" for g'
    using wall_only [OF assms(2,3) that(3-7)] that(1,2) by (simp add: wall_ok_def)
  have ok: "slots_ok (cg_assignments g)" "distinct (cams_of (cg_layout g))" using assms(1) by (simp_all add: wall_ok_def)
  show ?thesis
  proof (cases e)
    case (CreateLayout n m)
    have "wall_ok (g\<lparr> cg_newName := n, cg_createMode := m \<rparr>)" "saved_ok (g\<lparr> cg_newName := n, cg_createMode := m \<rparr>)"
      "active_ok (g\<lparr> cg_newName := n, cg_createMode := m \<rparr>)"
      using assms by (simp_all add: wall_ok_def saved_ok_def active_ok_def)
    from create_keeps [OF this] CreateLayout show ?thesis by simp
  next
    case (LoadLayout k)
    with load_keeps [OF assms, of "cg_saved g ! k"] assms show ?thesis by (simp add: validate_keeps)
  next
    case ConvertLayout
    with convert_keeps [OF assms] show ?thesis by (simp add: validate_keeps)
  next
    case NewLayout
    with assms show ?thesis by (simp add: newLayout_def wall_ok_def saved_ok_def active_ok_def)
  next
    case (AssignCamera slot c)
    show ?thesis unfolding AssignCamera using ok
      by (intro gesture) (auto simp: handleAssignCamera_def slots_ok_filter split: option.splits intro!: slots_ok_assign)
  next
    case (PresetChange w h)
    have "wall_ok (handleStaticPresetChange w h g) \<and> saved_ok (handleStaticPresetChange w h g) \<and> active_ok (handleStaticPresetChange w h g)"
      using ok by (intro gesture) (simp_all add: handleStaticPresetChange_def slots_ok_filter)
    with PresetChange show ?thesis by (simp add: validate_keeps)
  next
    case (CamerasChanged cs)
    have "wall_ok (g\<lparr> cg_cameras := cs \<rparr>) \<and> saved_ok (g\<lparr> cg_cameras := cs \<rparr>) \<and> active_ok (g\<lparr> cg_cameras := cs \<rparr>)"
      using ok by (intro gesture) simp_all
    with CamerasChanged show ?thesis by (simp add: validate_keeps)
  next
    case (DeleteLayout c n)
    with delete_keeps [OF assms] show ?thesis by simp
  next
    case (AddCamera c)
    show ?thesis unfolding AddCamera using ok by (intro gesture) (simp_all add: handleAddFreeformCamera_def add_item_cams)
  next
    case (RemoveCamera c)
    show ?thesis unfolding RemoveCamera using ok by (intro gesture) (simp_all add: handleRemoveFreeformCamera_def distinct_cams_filter)
  next
    case ToggleEditing
    show ?thesis unfolding ToggleEditing using ok by (intro gesture) simp_all
  qed (use ok in \<open>simp only: handle.simps; intro gesture; simp add: pointer_keeps\<close>)+
qed

text \<open>A wall that has just loaded well-formed layouts from the storage.\<close>

definition opened :: "CameraGrid \<Rightarrow> bool" where
  "opened g \<longleftrightarrow> (\<exists>g0. cg_active g0 = [] \<and> cg_assignments g0 = [] \<and> cg_layout g0 = [] \<and>
     distinct (map sl_name (cg_stored g0)) \<and> (\<forall>l \<in> set (cg_stored g0). wf_layout l) \<and> g = grid_mount (cg_stored g0) g0)"

lemma mount_inv: "opened g \<Longrightarrow> grid_inv g"
proof -
  assume "opened g"
  then obtain g0 where g0: "cg_active g0 = []" "cg_assignments g0 = []" "cg_layout g0 = []"
    "distinct (map sl_name (cg_stored g0))" "\<forall>l \<in> set (cg_stored g0). wf_layout l" "g = grid_mount (cg_stored g0) g0"
    unfolding opened_def by blast
  let ?name = "nullish (cg_storedActive g0) []"
  show ?thesis
  proof (cases "List.find (\<lambda>l. sl_name l = ?name) (cg_stored g0)")
    case None
    with g0 show ?thesis
      by (simp add: grid_mount_def grid_inv_def wall_ok_def saved_ok_def active_ok_def slots_ok_def)
  next
    case (Some l)
    then have l: "l \<in> set (cg_stored g0)" "sl_name l = ?name" by (auto simp: find_Some_iff)
    with g0(5) have wf: "wf_layout l" by blast
    then have "cg_storedActive g0 = Some (sl_name l)" using l(2) by (cases "cg_storedActive g0") (auto simp: wf_layout_def)
    with g0 Some l(1) wf show ?thesis
      by (cases "sl_mode l")
         (auto simp: grid_mount_def show_layout_def grid_inv_def wall_ok_def saved_ok_def active_ok_def mirrors_def wf_layout_def
           slots_ok_def Let_def split: option.splits)
  qed
qed

lemma grid_step_inv: "grid_inv g \<Longrightarrow> grid_inv (grid_step e g)"
  unfolding grid_step_def using handle_keeps autosave_restores by (simp add: grid_inv_def)

interpretation wall: machine grid_step opened grid_inv
  by unfold_locales (auto intro: mount_inv grid_step_inv)

text \<open>C26: The wall survives a reload and shows no camera twice: after any layouts created, loaded, deleted,
  converted, any assignments, additions, drags and resizes, and any change of the camera list, the
  storage holds the active layout as it is on screen, so that a fresh mount shows the same mode
  with the same cells or tiles, and no camera is in two cells or in two tiles.\<close>

theorem wall_survives_reload:
  assumes "reach grid_step opened g"
  shows "distinct (map snd (cg_assignments g)) \<and> distinct (cams_of (cg_layout g)) \<and>
    (cg_active g \<noteq> [] \<longrightarrow>
      (let r = grid_mount (cg_stored g) (g0\<lparr> cg_storedActive := cg_storedActive g \<rparr>) in
       cg_active r = cg_active g \<and> cg_mode r = cg_mode g \<and>
       (case cg_mode g of Static \<Rightarrow> cg_preset r = cg_preset g \<and> cg_assignments r = cg_assignments g
        | Freeform \<Rightarrow> cg_layout r = cg_layout g \<and> cg_cols r = cg_cols g)))"
proof (intro conjI impI)
  have inv: "grid_inv g" by (rule wall.inv_reach [OF assms])
  then show "distinct (map snd (cg_assignments g))" "distinct (cams_of (cg_layout g))"
    by (simp_all add: grid_inv_def wall_ok_def slots_ok_def)
  assume active: "cg_active g \<noteq> []"
  with inv obtain l where l: "l \<in> set (cg_saved g)" "mirrors l g" unfolding grid_inv_def by blast
  have saved: "cg_stored g = cg_saved g" "distinct (map sl_name (cg_saved g))" "cg_storedActive g = Some (cg_active g)"
    using inv active by (simp_all add: grid_inv_def saved_ok_def active_ok_def)
  have "List.find (\<lambda>x. sl_name x = cg_active g) (cg_saved g) = Some l"
    using find_distinct_key [OF saved(2) l(1)] l(2) by (simp add: mirrors_def)
  with l(2) saved(1,3) show "let r = grid_mount (cg_stored g) (g0\<lparr> cg_storedActive := cg_storedActive g \<rparr>) in
       cg_active r = cg_active g \<and> cg_mode r = cg_mode g \<and>
       (case cg_mode g of Static \<Rightarrow> cg_preset r = cg_preset g \<and> cg_assignments r = cg_assignments g
        | Freeform \<Rightarrow> cg_layout r = cg_layout g \<and> cg_cols r = cg_cols g)"
    by (cases "cg_mode g") (auto simp: grid_mount_def show_layout_def mirrors_def Let_def)
qed

theorem wall_survives_reload_witness:
  "let g = grid_step (AddCamera ''c'') (grid_step (CreateLayout ''day'' Freeform) (grid_mount [] (initial_grid [] [] None)))
   in cg_active g = ''day'' \<and> cg_layout (grid_mount (cg_stored g) ((initial_grid [] [] None)\<lparr> cg_storedActive := cg_storedActive g \<rparr>)) = cg_layout g"
proof -
  let ?m = "grid_mount [] (initial_grid [] [] None)"
  let ?g = "grid_step (AddCamera ''c'') (grid_step (CreateLayout ''day'' Freeform) ?m)"
  have "opened ?m" unfolding opened_def by (rule exI [of _ "initial_grid [] [] None"]) (simp add: initial_grid_def)
  then have r: "reach grid_step opened ?g" by (intro reach_step reach_start)
  have "cg_active ?g = ''day''" "cg_mode ?g = Freeform"
    by (simp_all add: grid_step_def grid_mount_def initial_grid_def handleCreateLayout_def handleAddFreeformCamera_def autosave_def
        js_trim_def is_ws_def Let_def)
  with wall_survives_reload [OF r, of "initial_grid [] [] None"] show ?thesis by (simp add: Let_def)
qed

section \<open>Placing tiles\<close>

lemma add_item_new:
  assumes "c \<notin> set (cams_of its)"
  shows "add_item cols c its = its @ [\<lparr> gi_i = c, gi_x = int (length its mod cols * (GRID_COLS div cols)),
     gi_y = (if 0 < length its mod cols then gi_y (last its) else if its = [] then 0 else Max ((\<lambda>l. gi_y l + gi_h l) ` set its)),
     gi_w = int (GRID_COLS div cols), gi_h = 12, gi_cameraId = Some c \<rparr>]"
  using assms by (auto simp: add_item_def Let_def set_cams_of image_iff)

lemma default_layout_snoc:
  "map to_grid (generateDefaultLayout (cs @ [c]) n h) = map to_grid (generateDefaultLayout cs n h) @
     [\<lparr> gi_i = c, gi_x = int (length cs mod n * (GRID_COLS div n)), gi_y = int (length cs div n * h),
        gi_w = int (GRID_COLS div n), gi_h = int h, gi_cameraId = Some c \<rparr>]"
  by (simp add: generateDefaultLayout_def enumerate_append_eq to_grid_def)

lemma default_layout_Nil [simp]: "generateDefaultLayout cs n h = [] \<longleftrightarrow> cs = []"
  by (metis length_generateDefaultLayout length_0_conv)

lemma default_layout_cams: "cams_of (map to_grid (generateDefaultLayout cs n h)) = cs"
  by (induction cs rule: rev_induct) (simp_all add: default_layout_snoc, simp add: generateDefaultLayout_def)

lemma Max_bottom:
  assumes "0 < n" "cs \<noteq> []" "length cs mod n = 0"
  shows "Max ((\<lambda>l. gi_y l + gi_h l) ` set (map to_grid (generateDefaultLayout cs n 12))) = int (length cs div n * 12)"
proof -
  have "(\<lambda>l. gi_y l + gi_h l) ` set (map to_grid (generateDefaultLayout cs n 12)) = (\<lambda>k. int ((k div n + 1) * 12)) ` {..<length cs}"
    by (force simp: generateDefaultLayout_def enumerate_eq_zip to_grid_def set_zip image_iff)
  moreover have "Max ((\<lambda>k. int ((k div n + 1) * 12)) ` {..<length cs}) = int (length cs div n * 12)"
  proof (rule Max_eqI)
    fix y assume "y \<in> (\<lambda>k. int ((k div n + 1) * 12)) ` {..<length cs}"
    then obtain k where k: "y = int ((k div n + 1) * 12)" "k < length cs" by auto
    then have "k div n < length cs div n" using assms(1,3)
      by (metis div_less_iff_less_mult div_mult_mod_eq add_0_right)
    then show "y \<le> int (length cs div n * 12)" using k(1) by simp
  next
    have "(length cs - 1) div n + 1 = length cs div n"
      using assms by (cases "length cs") (simp_all add: div_Suc)
    then show "int (length cs div n * 12) \<in> (\<lambda>k. int ((k div n + 1) * 12)) ` {..<length cs}"
      using assms(2) by (intro image_eqI [of _ _ "length cs - 1"]) auto
  qed simp
  ultimately show ?thesis by simp
qed

text \<open>Cameras added one after another to an empty canvas give exactly the default layout with rows of
  height twelve: the incremental placement equals the computed tiling.\<close>

theorem adding_builds_default_layout:
  assumes "distinct cs" and "0 < cols"
  shows "foldl (\<lambda>its c. add_item cols c its) [] cs = map to_grid (generateDefaultLayout cs cols 12)"
  using assms(1)
proof (induction cs rule: rev_induct)
  case (snoc c cs)
  let ?d = "map to_grid (generateDefaultLayout cs cols 12)"
  have ih: "foldl (\<lambda>its c. add_item cols c its) [] cs = ?d" and new: "c \<notin> set (cams_of ?d)"
    using snoc by (simp_all add: default_layout_cams)
  have "gi_y (last ?d) = int (length cs div cols * 12)" if "0 < length cs mod cols"
  proof -
    obtain bs b where cs: "cs = bs @ [b]" using \<open>0 < length cs mod cols\<close> by (cases cs rule: rev_cases) auto
    have "length bs div cols = length cs div cols" using that by (simp add: cs div_Suc mod_Suc split: if_splits)
    then show ?thesis by (simp add: cs default_layout_snoc)
  qed
  moreover have "Max ((\<lambda>l. gi_y l + gi_h l) ` set ?d) = int (length cs div cols * 12)" if "length cs mod cols = 0" "cs \<noteq> []"
    using Max_bottom [OF assms(2) that(2,1)] .
  ultimately show ?case
    using assms(2) by (simp add: ih add_item_new [OF new] default_layout_snoc del: set_map image_set)
qed (simp add: generateDefaultLayout_def)

text \<open>After a removal an added camera can cover another one: the column of a new tile depends on the
  number of tiles and its row on the last tile, so when the last tile already stands in that
  column, the new tile gets exactly its position.\<close>

theorem added_tile_covers_last:
  assumes "its \<noteq> []" and "c \<notin> set (cams_of its)" and "0 < length its mod cols"
    and "gi_x (last its) = int (length its mod cols * (GRID_COLS div cols))"
  shows "gi_x (last (add_item cols c its)) = gi_x (last its) \<and> gi_y (last (add_item cols c its)) = gi_y (last its)"
  using assms by (simp add: add_item_new)

theorem adding_builds_default_layout_witness:
  "length (foldl (\<lambda>its c. add_item 2 c its) [] [''a'', ''b'', ''c'']) = 3"
  using adding_builds_default_layout [of "[''a'', ''b'', ''c'']" 2] by simp

theorem added_tile_covers_last_witness:
  "let its = filter (\<lambda>it. gi_cameraId it \<noteq> Some ''c'') (map to_grid (generateDefaultLayout [''a'', ''b'', ''c'', ''d''] 2 12))
   in gi_x (last (add_item 2 ''e'' its)) = gi_x (last its) \<and> gi_y (last (add_item 2 ''e'' its)) = gi_y (last its)"
proof -
  let ?its = "filter (\<lambda>it. gi_cameraId it \<noteq> Some ''c'') (map to_grid (generateDefaultLayout [''a'', ''b'', ''c'', ''d''] 2 12))"
  have "?its = map to_grid [\<lparr> li_i = ''a'', li_x = 0, li_y = 0, li_w = 16, li_h = 12, li_cameraId = Some ''a'' \<rparr>,
      \<lparr> li_i = ''b'', li_x = 16, li_y = 0, li_w = 16, li_h = 12, li_cameraId = Some ''b'' \<rparr>,
      \<lparr> li_i = ''d'', li_x = 16, li_y = 12, li_w = 16, li_h = 12, li_cameraId = Some ''d'' \<rparr>]"
    by (simp add: generateDefaultLayout_def GRID_COLS_def to_grid_def)
  then show ?thesis
    using added_tile_covers_last [of ?its "''e''" 2] by (simp add: to_grid_def GRID_COLS_def Let_def)
qed

section \<open>Fitting\<close>

lemma foldl_max_ge: "m \<le> foldl (\<lambda>m it. max m (f it)) m its" for f :: "'a \<Rightarrow> int"
  by (induction its arbitrary: m) (auto, meson max.cobounded1 order_trans)

lemma foldl_max_upper: "it \<in> set its \<Longrightarrow> f it \<le> foldl (\<lambda>m it. max m (f it)) m its" for f :: "'a \<Rightarrow> int"
proof (induction its arbitrary: m)
  case (Cons a its)
  then show ?case using foldl_max_ge [of "max m (f a)" f its] by auto
qed simp

lemma scaled_bound:
  fixes s :: number and x w :: int
  assumes "0 \<le> s" "0 \<le> x" "0 \<le> w" "of_int (x + w) * s \<le> 32"
  shows "js_round (of_int x * s) + max 2 (js_round (of_int w * s)) \<le> 34"
proof -
  have "of_int x * s + of_int w * s \<le> 32" using assms(4) by (simp add: algebra_simps)
  moreover have "0 \<le> of_int w * s" using assms(1,3) by simp
  moreover have "of_int (js_round (of_int x * s)) \<le> of_int x * s + 1/2" "of_int (js_round (of_int w * s)) \<le> of_int w * s + 1/2"
    by (rule js_round_bounds)+
  ultimately have "of_int (js_round (of_int x * s)) + of_int (js_round (of_int w * s)) \<le> (33 :: number)"
    "of_int (js_round (of_int x * s)) \<le> (65/2 :: number)" by linarith+
  then have "js_round (of_int x * s) + js_round (of_int w * s) \<le> 33" "js_round (of_int x * s) \<le> 32"
    by linarith+
  then show ?thesis by linarith
qed

text \<open>After a drag or a resize the tiles are fitted to the canvas: a layout within the 32 columns with tiles
  of at least two columns and rows is left alone, and one that sticks out is scaled so that its
  right edge lies at most two columns outside, the loss of rounding each tile on its own.\<close>

theorem fit_bounds:
  assumes "\<forall>it \<in> set its. 0 \<le> gi_x it \<and> 2 \<le> gi_w it \<and> 0 \<le> gi_y it \<and> 2 \<le> gi_h it"
  shows "(max_right its \<le> 32 \<longrightarrow> fitToViewport its = its) \<and>
    (\<forall>it \<in> set (fitToViewport its). gi_x it + gi_w it \<le> 34 \<and> 2 \<le> gi_w it \<and> 2 \<le> gi_h it)"
proof (intro conjI impI)
  have right: "gi_x it + gi_w it \<le> max_right its" if "it \<in> set its" for it
    unfolding max_right_def using foldl_max_upper [OF that, of "\<lambda>it. gi_x it + gi_w it"] .
  have bottom: "gi_y it + gi_h it \<le> max_bottom its" if "it \<in> set its" for it
    unfolding max_bottom_def using foldl_max_upper [OF that, of "\<lambda>it. gi_y it + gi_h it"] .
  let ?s = "if max_right its > int GRID_COLS then of_int (int GRID_COLS) / of_int (max_right its) else 1 :: number"
  let ?f = "\<lambda>it. it\<lparr> gi_x := js_round (of_int (gi_x it) * ?s), gi_w := max 2 (js_round (of_int (gi_w it) * ?s)), gi_h := max 2 (gi_h it) \<rparr>"
  have run: "fitToViewport its = map ?f its" if "its \<noteq> []"
  proof -
    have "0 < max_right its" "0 < max_bottom its"
      using right [OF list.set_sel(1) [OF that]] bottom [OF list.set_sel(1) [OF that]] assms list.set_sel(1) [OF that] by force+
    with that show ?thesis by (simp only: fitToViewport_def Let_def if_False less_irrefl) simp
  qed
  show "fitToViewport its = its" if "max_right its \<le> 32"
  proof (cases "its = []")
    case False
    have "?f it = it" if "it \<in> set its" for it
      using assms that \<open>max_right its \<le> 32\<close> by (simp add: GRID_COLS_def)
    then show ?thesis unfolding run [OF False] by (simp only: map_idI)
  qed (simp add: fitToViewport_def)
  have "gi_x (?f it) + gi_w (?f it) \<le> 34 \<and> 2 \<le> gi_w (?f it) \<and> 2 \<le> gi_h (?f it)" if "it \<in> set its" for it
  proof -
    have "of_int (gi_x it + gi_w it) * ?s \<le> 32"
      using right [OF that] by (auto simp: GRID_COLS_def divide_le_eq simp flip: of_int_add)
    then have "js_round (of_int (gi_x it) * ?s) + max 2 (js_round (of_int (gi_w it) * ?s)) \<le> 34"
      using assms that by (intro scaled_bound) auto
    then show ?thesis by simp
  qed
  then show "\<forall>it \<in> set (fitToViewport its). gi_x it + gi_w it \<le> 34 \<and> 2 \<le> gi_w it \<and> 2 \<le> gi_h it"
    using run by (cases "its = []") (auto simp: fitToViewport_def)
qed

text \<open>A tile may indeed end up outside the canvas.\<close>

lemma fit_overflows:
  "fitToViewport [\<lparr> gi_i = ''a'', gi_x = 1, gi_y = 0, gi_w = 63, gi_h = 4, gi_cameraId = None \<rparr>] =
     [\<lparr> gi_i = ''a'', gi_x = 1, gi_y = 0, gi_w = 32, gi_h = 4, gi_cameraId = None \<rparr>]"
  by (simp add: fitToViewport_def max_right_def max_bottom_def GRID_COLS_def js_round_def Let_def)

theorem fit_bounds_witness:
  "gi_x (hd (fitToViewport [\<lparr> gi_i = ''a'', gi_x = 1, gi_y = 0, gi_w = 63, gi_h = 4, gi_cameraId = None \<rparr>])) \<le> 34"
  using fit_bounds [of "[\<lparr> gi_i = ''a'', gi_x = 1, gi_y = 0, gi_w = 63, gi_h = 4, gi_cameraId = None \<rparr>]"]
  by (simp add: fit_overflows)

end
