(* ===== verification/Site_Schedule.thy ===== *)
theory Site_Schedule
  imports Query_Hooks Browser_Storage
begin

text \<open>
  The schedules of a site: the window editor shared by the monitoring and the recording schedule
  (\<^verbatim>\<open>components/admin/ScheduleWindowsEditor.tsx\<close>), the recording policy of a site
  (\<^verbatim>\<open>SiteRecordingPanel.tsx\<close>), the monitoring schedule (\<^verbatim>\<open>SiteScheduleModal.tsx\<close>), and of the server the parts
  the schedules are written for: the retention tiers, the handler that stores a policy, the columns a
  site is read back with, and the recording engine's reading of a schedule. Shown: the engine records
  exactly when an enabled window of the editor is open, unless there are windows and all are disabled; a saved policy is read back unchanged.
\<close>

section \<open>The window editor\<close>

text \<open>
  A window as it comes out of \<^verbatim>\<open>JSON.parse\<close>: the fields that are taken over unchecked are JSON values.
  A preset's window has no id.
\<close>

record PresetWindow =
  mw_label :: json
  mw_days :: "json list"
  mw_start_time :: json
  mw_end_time :: json
  mw_enabled :: bool

record MonitoringWindow = PresetWindow +
  mw_id :: json

record WindowPreset =
  ps_label :: string
  ps_windows :: "PresetWindow list"

definition DAY_LABELS :: "string list" where
  "DAY_LABELS = [''Sun'', ''Mon'', ''Tue'', ''Wed'', ''Thu'', ''Fri'', ''Sat'']"

definition day_num :: "int \<Rightarrow> json" where
  "day_num d = JNum (of_int d)"

definition preset_window :: "string \<Rightarrow> int list \<Rightarrow> string \<Rightarrow> string \<Rightarrow> PresetWindow" where
  "preset_window l ds st en = \<lparr>mw_label = JStr l, mw_days = map day_num ds, mw_start_time = JStr st,
     mw_end_time = JStr en, mw_enabled = True\<rparr>"

definition with_id :: "PresetWindow \<Rightarrow> json \<Rightarrow> MonitoringWindow" where
  "with_id w i = \<lparr>mw_label = mw_label w, mw_days = mw_days w, mw_start_time = mw_start_time w,
     mw_end_time = mw_end_time w, mw_enabled = mw_enabled w, mw_id = i\<rparr>"

text \<open>The argument is the text of \<^verbatim>\<open>Math.random().toString(36)\<close>.\<close>

definition genId :: "string \<Rightarrow> string" where
  "genId r = ''w-'' @ take 6 (drop 2 r)"

definition addWindow :: "string \<Rightarrow> MonitoringWindow list \<Rightarrow> MonitoringWindow list" where
  "addWindow r windows = windows @ [with_id (preset_window [] [1, 2, 3, 4, 5] ''18:00'' ''06:00'') (JStr (genId r))]"

definition removeWindow :: "json \<Rightarrow> MonitoringWindow list \<Rightarrow> MonitoringWindow list" where
  "removeWindow i windows = filter (\<lambda>w. mw_id w \<noteq> i) windows"

definition updateWindow :: "json \<Rightarrow> (MonitoringWindow \<Rightarrow> MonitoringWindow) \<Rightarrow> MonitoringWindow list \<Rightarrow> MonitoringWindow list" where
  "updateWindow i patch windows = map (\<lambda>w. if mw_id w = i then patch w else w) windows"

text \<open>\<^verbatim>\<open>String(x)\<close>, by which \<^verbatim>\<open>sort()\<close> without a comparator orders, and the order of strings by code.\<close>

fun js_string :: "(number \<Rightarrow> string) \<Rightarrow> json \<Rightarrow> string" where
  "js_string fractx JNull = ''null''"
| "js_string fractx (JBool b) = (if b then ''true'' else ''false'')"
| "js_string fractx (JNum n) = num_text fractx n"
| "js_string fractx (JStr s) = s"
| "js_string fractx (JArr xs) = join '','' (map (\<lambda>x. if x = JNull then [] else js_string fractx x) xs)"
| "js_string fractx (JObj fs) = ''[object Object]''"

fun text_less :: "string \<Rightarrow> string \<Rightarrow> bool" where
  "text_less s [] = False"
| "text_less [] (d # t) = True"
| "text_less (c # s) (d # t) = ((of_char c :: nat) < of_char d \<or> c = d \<and> text_less s t)"

definition toggle_days :: "(number \<Rightarrow> string) \<Rightarrow> int \<Rightarrow> json list \<Rightarrow> json list" where
  "toggle_days fractx day days =
     (if day_num day \<in> set days then filter (\<lambda>d. d \<noteq> day_num day) days
      else js_sort (\<lambda>a b. text_less (js_string fractx a) (js_string fractx b)) (days @ [day_num day]))"

definition toggleDay :: "(number \<Rightarrow> string) \<Rightarrow> json \<Rightarrow> int \<Rightarrow> MonitoringWindow list \<Rightarrow> MonitoringWindow list" where
  "toggleDay fractx i day windows =
     map (\<lambda>w. if mw_id w \<noteq> i then w else w\<lparr>mw_days := toggle_days fractx day (mw_days w)\<rparr>) windows"

definition applyPreset :: "(nat \<Rightarrow> string) \<Rightarrow> WindowPreset \<Rightarrow> MonitoringWindow list" where
  "applyPreset rnd preset = map (\<lambda>(i, w). with_id w (JStr (genId (rnd i)))) (enumerate 0 (ps_windows preset))"

text \<open>
  The controls of one window, the add button and the presets. A time control's value is empty or a
  time in hours and minutes: the browser replaces anything else by the empty string.
\<close>

definition time_value :: "string \<Rightarrow> bool" where
  "time_value s \<longleftrightarrow> s = [] \<or> (case s of
     [a, b, c, d, e] \<Rightarrow> is_digit a \<and> is_digit b \<and> c = CHR '':'' \<and> is_digit d \<and> is_digit e \<and>
       dec_val [a, b] < 24 \<and> dec_val [d, e] < 60
   | _ \<Rightarrow> False)"

definition time_input :: "string \<Rightarrow> string" where
  "time_input s = (if time_value s then s else [])"

datatype editor_action =
    Add_window string
  | Remove_window json
  | Set_label json string
  | Toggle_enabled json
  | Set_start json string
  | Set_end json string
  | Toggle_day json nat
  | Apply_preset "nat \<Rightarrow> string" nat

fun editor_step :: "(number \<Rightarrow> string) \<Rightarrow> WindowPreset list \<Rightarrow> editor_action \<Rightarrow> MonitoringWindow list \<Rightarrow> MonitoringWindow list" where
  "editor_step fractx presets (Add_window r) ws = addWindow r ws"
| "editor_step fractx presets (Remove_window i) ws = removeWindow i ws"
| "editor_step fractx presets (Set_label i s) ws = updateWindow i (\<lambda>w. w\<lparr>mw_label := JStr s\<rparr>) ws"
| "editor_step fractx presets (Toggle_enabled i) ws = updateWindow i (\<lambda>w. w\<lparr>mw_enabled := \<not> mw_enabled w\<rparr>) ws"
| "editor_step fractx presets (Set_start i s) ws = updateWindow i (\<lambda>w. w\<lparr>mw_start_time := JStr (time_input s)\<rparr>) ws"
| "editor_step fractx presets (Set_end i s) ws = updateWindow i (\<lambda>w. w\<lparr>mw_end_time := JStr (time_input s)\<rparr>) ws"
| "editor_step fractx presets (Toggle_day i d) ws =
     (if d < length DAY_LABELS then toggleDay fractx i (int d) ws else ws)"
| "editor_step fractx presets (Apply_preset rnd k) ws =
     (if k < length presets then applyPreset rnd (presets ! k) else ws)"

text \<open>The mark of a window that ends on the next day.\<close>

definition shows_overnight :: "string \<Rightarrow> string \<Rightarrow> bool" where
  "shows_overnight st en = text_less en st"

section \<open>The recording policy of a site\<close>

record RecordingPolicy =
  retention_days :: json
  recording_mode :: json
  pre_buffer_sec :: json
  post_buffer_sec :: json
  recording_triggers :: json
  recording_schedule :: json

definition DEFAULT_POLICY :: RecordingPolicy where
  "DEFAULT_POLICY = \<lparr>retention_days = JNum 3, recording_mode = JStr ''continuous'', pre_buffer_sec = JNum 10,
     post_buffer_sec = JNum 30, recording_triggers = JStr ''motion,object'', recording_schedule = JStr []\<rparr>"

definition RETENTION_TIERS :: "(int \<times> string) list" where
  "RETENTION_TIERS = [(3, ''3 days (included)''), (7, ''7 days (upgrade)''), (14, ''14 days (upgrade)''),
     (30, ''30 days (upgrade)''), (60, ''60 days (upgrade)''), (90, ''90 days (upgrade)'')]"

definition RECORDING_PRESETS :: "WindowPreset list" where
  "RECORDING_PRESETS =
     [\<lparr>ps_label = ''Always (24/7)'', ps_windows = [preset_window ''24/7'' [0, 1, 2, 3, 4, 5, 6] ''00:00'' ''23:59'']\<rparr>,
      \<lparr>ps_label = ''Business hours (weekdays 7am-7pm)'',
       ps_windows = [preset_window ''Weekdays business'' [1, 2, 3, 4, 5] ''07:00'' ''19:00'']\<rparr>,
      \<lparr>ps_label = ''After-hours only (weeknights + weekends 24hr)'',
       ps_windows = [preset_window ''Weeknights'' [1, 2, 3, 4, 5] ''19:00'' ''07:00'',
                     preset_window ''Weekends 24hr'' [0, 6] ''00:00'' ''23:59'']\<rparr>]"

text \<open>
  \<^verbatim>\<open>w.id || d\<close> and \<^verbatim>\<open>w.label ?? d\<close> on a member of a parsed value; reading a member of \<^verbatim>\<open>null\<close> throws, of
  any other value that is no object it gives \<^verbatim>\<open>undefined\<close>.
\<close>

definition member_or :: "json option \<Rightarrow> json \<Rightarrow> json" where
  "member_or v d = (case v of Some j \<Rightarrow> if truthy_json j then j else d | None \<Rightarrow> d)"

definition member_nullish :: "json option \<Rightarrow> json \<Rightarrow> json" where
  "member_nullish v d = (case v of Some j \<Rightarrow> if j = JNull then d else j | None \<Rightarrow> d)"

definition parse_window :: "(nat \<Rightarrow> string) \<Rightarrow> nat \<times> json \<Rightarrow> MonitoringWindow option" where
  "parse_window rnd p = (case p of (i, w) \<Rightarrow>
     (if w = JNull then None
      else Some \<lparr>mw_label = member_nullish (json_field ''label'' w) (JStr []),
                 mw_days = (case json_field ''days'' w of Some (JArr ds) \<Rightarrow> ds | _ \<Rightarrow> []),
                 mw_start_time = member_nullish (json_field ''start_time'' w) (JStr ''00:00''),
                 mw_end_time = member_nullish (json_field ''end_time'' w) (JStr ''23:59''),
                 mw_enabled = (json_field ''enabled'' w \<noteq> Some (JBool False)),
                 mw_id = member_or (json_field ''id'' w) (JStr (''w-'' @ nat_str i @ ''-'' @ take 4 (drop 2 (rnd i))))\<rparr>))"

text \<open>\<open>None\<close>: the text is no string and \<^verbatim>\<open>trim\<close> throws. A throw inside the \<^verbatim>\<open>try\<close> gives the empty list.\<close>

definition parseSchedule :: "(nat \<Rightarrow> string) \<Rightarrow> json \<Rightarrow> MonitoringWindow list option" where
  "parseSchedule rnd raw = (case raw of
     JStr t \<Rightarrow>
       (let s = js_trim t in
        if s = [] then Some []
        else (case json_parse s of
            Some (JArr parsed) \<Rightarrow> Some (nullish (those (map (parse_window rnd) (enumerate 0 parsed))) [])
          | Some (JObj fs) \<Rightarrow>
              (case map_of fs ''days'' of
                 Some (JArr ds) \<Rightarrow>
                   Some [\<lparr>mw_label = JStr ''Imported'', mw_days = ds,
                          mw_start_time = member_nullish (map_of fs ''start'') (JStr ''00:00''),
                          mw_end_time = member_nullish (map_of fs ''end'') (JStr ''23:59''),
                          mw_enabled = True, mw_id = JStr (''legacy-'' @ take 4 (drop 2 (rnd 0)))\<rparr>]
               | _ \<Rightarrow> Some [])
          | _ \<Rightarrow> Some []))
   | JNull \<Rightarrow> Some []
   | _ \<Rightarrow> None)"

text \<open>
  The panel's own \<^verbatim>\<open>apiFetch\<close>: like \<open>authFetch\<close> it sends the token of the cookie with a mutation, but it
  neither fetches a missing token nor tries again, nor does it leave for the login page.
\<close>

definition apiFetch :: "string \<Rightarrow> RequestInit \<Rightarrow> Response io" where
  "apiFetch url opts = (\<lambda>w.
     let csrfToken = getCSRFToken w;
         headers = fold map_put (ri_headers opts) [(''Content-Type'', ''application/json'')];
         headers = (if isMutation opts \<and> csrfToken \<noteq> [] then map_put (''X-CSRF-Token'', csrfToken) headers else headers)
     in send \<lparr>rq_method = nullish (ri_method opts) ''GET'', rq_url = url, rq_headers = headers,
              rq_body = ri_body opts, rq_credentials = True\<rparr> w)"

record RecordingPanel =
  rp_policy :: RecordingPolicy
  rp_windows :: "MonitoringWindow list"
  rp_loading :: bool
  rp_saving :: bool
  rp_status :: "string option"

definition initial_policy_panel :: RecordingPanel where
  "initial_policy_panel = \<lparr>rp_policy = DEFAULT_POLICY, rp_windows = [], rp_loading = True, rp_saving = False, rp_status = None\<rparr>"

text \<open>
  The load effect; \<open>cancelled\<close> says whether the panel was closed or moved to another site before the
  answer. The status of the answer is not looked at.
\<close>

definition site_policy :: "json \<Rightarrow> RecordingPolicy" where
  "site_policy site =
     \<lparr>retention_days = member_nullish (json_field ''retention_days'' site) (JNum 3),
      recording_mode = member_nullish (json_field ''recording_mode'' site) (JStr ''continuous''),
      pre_buffer_sec = member_nullish (json_field ''pre_buffer_sec'' site) (JNum 10),
      post_buffer_sec = member_nullish (json_field ''post_buffer_sec'' site) (JNum 30),
      recording_triggers = member_nullish (json_field ''recording_triggers'' site) (JStr ''motion,object''),
      recording_schedule = member_nullish (json_field ''recording_schedule'' site) (JStr [])\<rparr>"

definition load_failed :: "RecordingPanel \<Rightarrow> RecordingPanel" where
  "load_failed p = p\<lparr>rp_status := Some ''Failed to load current policy'', rp_loading := False\<rparr>"

definition load_answer :: "(nat \<Rightarrow> string) \<Rightarrow> json result \<Rightarrow> RecordingPanel \<Rightarrow> RecordingPanel" where
  "load_answer rnd r p = (case r of
     Inl e \<Rightarrow> load_failed p
   | Inr site \<Rightarrow>
       (if site = JNull then load_failed p
        else let p = p\<lparr>rp_policy := site_policy site\<rparr> in
          (case parseSchedule rnd (recording_schedule (site_policy site)) of
             None \<Rightarrow> load_failed p
           | Some ws \<Rightarrow> p\<lparr>rp_windows := ws, rp_loading := False\<rparr>)))"

definition no_opts :: RequestInit where
  "no_opts = \<lparr>ri_method = None, ri_headers = [], ri_body = No_body\<rparr>"

definition load_policy :: "(nat \<Rightarrow> string) \<Rightarrow> bool \<Rightarrow> id \<Rightarrow> RecordingPanel \<Rightarrow> World \<Rightarrow> World \<times> RecordingPanel" where
  "load_policy rnd cancelled siteId p w =
     (let p = p\<lparr>rp_loading := True\<rparr> in
      (case bind_io (apiFetch (''/api/v1/sites/'' @ siteId) no_opts) res_json w of
         (w', r) \<Rightarrow> (w', if cancelled then p else load_answer rnd r p)))"

definition window_json :: "MonitoringWindow \<Rightarrow> json" where
  "window_json w = JObj [(''id'', mw_id w), (''label'', mw_label w), (''days'', JArr (mw_days w)),
     (''start_time'', mw_start_time w), (''end_time'', mw_end_time w), (''enabled'', JBool (mw_enabled w))]"

definition saved_schedule :: "(number \<Rightarrow> string) \<Rightarrow> MonitoringWindow list \<Rightarrow> string" where
  "saved_schedule fractx ws = (if length ws = 0 then [] else stringify fractx (JArr (map window_json ws)))"

definition policy_body :: "(number \<Rightarrow> string) \<Rightarrow> RecordingPanel \<Rightarrow> json" where
  "policy_body fractx p = JObj
     [(''retention_days'', retention_days (rp_policy p)), (''recording_mode'', recording_mode (rp_policy p)),
      (''pre_buffer_sec'', pre_buffer_sec (rp_policy p)), (''post_buffer_sec'', post_buffer_sec (rp_policy p)),
      (''recording_triggers'', recording_triggers (rp_policy p)),
      (''recording_schedule'', JStr (saved_schedule fractx (rp_windows p)))]"

definition saved_note :: string where
  "saved_note = ''Saved '' @ emdash @ '' cameras pick up the new policy on their next recording restart.''"

definition save_policy :: "(number \<Rightarrow> string) \<Rightarrow> id \<Rightarrow> RecordingPanel \<Rightarrow> World \<Rightarrow> World \<times> RecordingPanel" where
  "save_policy fractx siteId p w =
     (case bind_io (apiFetch (''/api/v1/sites/'' @ siteId @ ''/recording'')
              \<lparr>ri_method = Some ''PATCH'', ri_headers = [], ri_body = Json_body (policy_body fractx p)\<rparr>)
            (\<lambda>res. if \<not> ok res then throw_io (rs_text res) else return_io ()) w of
        (w', Inl (Error m)) \<Rightarrow> (w', p\<lparr>rp_saving := False, rp_status := Some (''Error: '' @ m)\<rparr>)
      | (w', Inr _) \<Rightarrow> (w', p\<lparr>rp_saving := False, rp_status := Some saved_note\<rparr>))"

text \<open>The triggers; a policy whose triggers are no string cannot be rendered.\<close>

definition trigger_tokens :: "string \<Rightarrow> string list" where
  "trigger_tokens s = filter (\<lambda>t. t \<noteq> []) (map js_trim (split_at_char (CHR '','') s))"

definition toggle_trigger :: "string \<Rightarrow> string \<Rightarrow> string" where
  "toggle_trigger t triggers =
     (let tokens = trigger_tokens triggers in
      join '','' (if t \<in> set tokens then filter (\<lambda>x. x \<noteq> t) tokens else tokens @ [t]))"

definition toggleTrigger :: "string \<Rightarrow> RecordingPanel \<Rightarrow> RecordingPanel option" where
  "toggleTrigger t p = (case recording_triggers (rp_policy p) of
     JStr s \<Rightarrow> Some (p\<lparr>rp_policy := (rp_policy p)\<lparr>recording_triggers := JStr (toggle_trigger t s)\<rparr>\<rparr>)
   | _ \<Rightarrow> None)"

definition TRIGGERS :: "string list" where
  "TRIGGERS = [''motion'', ''object'', ''line_cross'', ''intrusion'', ''loitering'', ''audio'']"

section \<open>The server's side of a recording policy\<close>

definition RetentionTiers :: "int list" where
  "RetentionTiers = [3, 7, 14, 30, 60, 90]"

fun ValidateRetentionTier_in :: "int list \<Rightarrow> int \<Rightarrow> bool" where
  "ValidateRetentionTier_in [] days = False"
| "ValidateRetentionTier_in (t # ts) days = (t = days \<or> ValidateRetentionTier_in ts days)"

definition ValidateRetentionTier :: "int \<Rightarrow> bool" where
  "ValidateRetentionTier = ValidateRetentionTier_in RetentionTiers"

text \<open>
  \<^verbatim>\<open>encoding/json\<close> into the fields of a struct: an absent field and \<^verbatim>\<open>null\<close> leave the zero value, a value of
  another type is an error (\<open>None\<close>).
\<close>

definition go_int :: "json option \<Rightarrow> int option" where
  "go_int v = (case v of
     None \<Rightarrow> Some 0 | Some JNull \<Rightarrow> Some 0
   | Some (JNum n) \<Rightarrow> (let i = fst (quotient_of n) in if is_int n \<and> - (2 ^ 63) \<le> i \<and> i < 2 ^ 63 then Some i else None)
   | _ \<Rightarrow> None)"

definition go_string :: "json option \<Rightarrow> string option" where
  "go_string v = (case v of None \<Rightarrow> Some [] | Some JNull \<Rightarrow> Some [] | Some (JStr s) \<Rightarrow> Some s | _ \<Rightarrow> None)"

definition go_bool :: "json option \<Rightarrow> bool option" where
  "go_bool v = (case v of None \<Rightarrow> Some False | Some JNull \<Rightarrow> Some False | Some (JBool b) \<Rightarrow> Some b | _ \<Rightarrow> None)"

definition go_ints :: "json option \<Rightarrow> int list option" where
  "go_ints v = (case v of None \<Rightarrow> Some [] | Some JNull \<Rightarrow> Some []
     | Some (JArr xs) \<Rightarrow> those (map (\<lambda>x. go_int (Some x)) xs) | _ \<Rightarrow> None)"

definition go_object :: "json \<Rightarrow> json option" where
  "go_object j = (case j of JObj fs \<Rightarrow> Some j | JNull \<Rightarrow> Some (JObj []) | _ \<Rightarrow> None)"

record SitePolicy =
  RetentionDays :: int
  RecordingMode :: string
  PreBufferSec :: int
  PostBufferSec :: int
  RecordingTriggers :: string
  RecordingSchedule :: string

definition decode_policy :: "json \<Rightarrow> SitePolicy option" where
  "decode_policy j =
     Option.bind (go_object j) (\<lambda>b.
     Option.bind (go_int (json_field ''retention_days'' b)) (\<lambda>rd.
     Option.bind (go_string (json_field ''recording_mode'' b)) (\<lambda>rm.
     Option.bind (go_int (json_field ''pre_buffer_sec'' b)) (\<lambda>pre.
     Option.bind (go_int (json_field ''post_buffer_sec'' b)) (\<lambda>post.
     Option.bind (go_string (json_field ''recording_triggers'' b)) (\<lambda>tr.
     Option.bind (go_string (json_field ''recording_schedule'' b)) (\<lambda>sc.
       Some \<lparr>RetentionDays = rd, RecordingMode = rm, PreBufferSec = pre, PostBufferSec = post,
             RecordingTriggers = tr, RecordingSchedule = sc\<rparr>)))))))"

text \<open>\<^verbatim>\<open>UpdateSiteRecording\<close>: what is written to the row.\<close>

definition UpdateSiteRecording :: "SitePolicy \<Rightarrow> SitePolicy" where
  "UpdateSiteRecording s = s\<lparr>RecordingMode := (if RecordingMode s = [] then ''continuous'' else RecordingMode s),
     RecordingTriggers := (if RecordingTriggers s = [] then ''motion,object'' else RecordingTriggers s)\<rparr>"

text \<open>\<open>Inl\<close>: the status and the text of the refusal, without the line end \<^verbatim>\<open>http.Error\<close> adds; \<open>Inr\<close>: the policy that is stored. The database accepts the write.\<close>

definition HandleUpdateSiteRecording :: "string option \<Rightarrow> json \<Rightarrow> (nat \<times> string) + SitePolicy" where
  "HandleUpdateSiteRecording role body = (case role of
     None \<Rightarrow> Inl (401, ''unauthorized'')
   | Some r \<Rightarrow>
       if r \<noteq> ''admin'' \<and> r \<noteq> ''soc_supervisor'' then Inl (403, ''forbidden: admin only'')
       else (case decode_policy body of
           None \<Rightarrow> Inl (400, ''Invalid JSON'')
         | Some s \<Rightarrow>
             if \<not> ValidateRetentionTier (RetentionDays s)
             then Inl (400, ''retention_days must be one of the supported tiers (3, 7, 14, 30, 60, 90)'')
             else let s = (if PreBufferSec s < 0 then s\<lparr>PreBufferSec := 0\<rparr> else s);
                      s = (if PostBufferSec s < 0 then s\<lparr>PostBufferSec := 0\<rparr> else s) in
               if RecordingMode s \<noteq> ''continuous'' \<and> RecordingMode s \<noteq> ''event''
               then Inl (400, ''recording_mode must be 'continuous' or 'event'' @ [CHR 0x27])
               else Inr (UpdateSiteRecording s)))"

text \<open>
  A row of the sites table, and the JSON it is served as (\<^verbatim>\<open>GetSite\<close>, \<^verbatim>\<open>type Site\<close>). The query does not select the
  column of the monitoring schedule, whose field is left out when empty.
\<close>

definition site_fields :: "SitePolicy \<Rightarrow> (string \<times> json) list" where
  "site_fields s = [(''retention_days'', JNum (of_int (RetentionDays s))), (''recording_mode'', JStr (RecordingMode s)),
     (''pre_buffer_sec'', JNum (of_int (PreBufferSec s))), (''post_buffer_sec'', JNum (of_int (PostBufferSec s))),
     (''recording_triggers'', JStr (RecordingTriggers s)), (''recording_schedule'', JStr (RecordingSchedule s))]"

record SiteRow =
  row_id :: string
  row_name :: string
  row_address :: string
  row_organization :: string
  row_latitude :: "number option"
  row_longitude :: "number option"
  row_status :: string
  row_monitoring_start :: string
  row_monitoring_end :: string
  row_notes :: "string list"
  row_feature_mode :: string
  row_policy :: SitePolicy
  row_created_at :: string
  row_monitoring_schedule :: json

definition GetSite :: "SiteRow \<Rightarrow> json" where
  "GetSite r = JObj
     ([(''id'', JStr (row_id r)), (''name'', JStr (row_name r)), (''address'', JStr (row_address r)),
       (''company_id'', JStr (row_organization r))] @
      (case row_latitude r of None \<Rightarrow> [] | Some x \<Rightarrow> [(''latitude'', JNum x)]) @
      (case row_longitude r of None \<Rightarrow> [] | Some x \<Rightarrow> [(''longitude'', JNum x)]) @
      [(''status'', JStr (row_status r)), (''monitoring_start'', JStr (row_monitoring_start r)),
       (''monitoring_end'', JStr (row_monitoring_end r)), (''site_notes'', JArr (map JStr (row_notes r))),
       (''feature_mode'', JStr (row_feature_mode r))] @
      site_fields (row_policy r) @
      [(''created_at'', JStr (row_created_at r)), (''cameras_online'', JNum 0), (''cameras_total'', JNum 0),
       (''compliance_score'', JNum 0), (''open_incidents'', JNum 0), (''workers_on_site'', JNum 0),
       (''last_activity'', JStr []), (''trend'', JStr [])])"

section \<open>The recording engine\<close>

record scheduleWindow =
  sw_Enabled :: bool
  sw_Days :: "int list"
  sw_StartTime :: string
  sw_EndTime :: string

definition decode_window :: "json \<Rightarrow> scheduleWindow option" where
  "decode_window j =
     Option.bind (go_object j) (\<lambda>b.
     Option.bind (go_bool (json_field ''enabled'' b)) (\<lambda>e.
     Option.bind (go_ints (json_field ''days'' b)) (\<lambda>ds.
     Option.bind (go_string (json_field ''start_time'' b)) (\<lambda>st.
     Option.bind (go_string (json_field ''end_time'' b)) (\<lambda>en.
       Some \<lparr>sw_Enabled = e, sw_Days = ds, sw_StartTime = st, sw_EndTime = en\<rparr>)))))"

record scheduleConfig =
  sc_Days :: "int list"
  sc_Start :: string
  sc_End :: string

definition decode_config :: "json \<Rightarrow> scheduleConfig option" where
  "decode_config j =
     Option.bind (go_object j) (\<lambda>b.
     Option.bind (go_ints (json_field ''days'' b)) (\<lambda>ds.
     Option.bind (go_string (json_field ''start'' b)) (\<lambda>st.
     Option.bind (go_string (json_field ''end'' b)) (\<lambda>en.
       Some \<lparr>sc_Days = ds, sc_Start = st, sc_End = en\<rparr>))))"

record moment =
  Weekday :: int
  Hour :: int
  Minute :: int

text \<open>\<^verbatim>\<open>strings.SplitN(s, ":", 2)\<close>, and \<^verbatim>\<open>fmt.Sscanf(s, "%d", &n)\<close> on an \<^verbatim>\<open>n\<close> that is 0.\<close>

definition split_colon :: "string \<Rightarrow> (string \<times> string) option" where
  "split_colon s = (if CHR '':'' \<in> set s
     then Some (takeWhile (\<lambda>c. c \<noteq> CHR '':'') s, tl (dropWhile (\<lambda>c. c \<noteq> CHR '':'') s)) else None)"

definition scan_int :: "string \<Rightarrow> int" where
  "scan_int s =
     (let s = dropWhile is_ws s;
          neg = (case s of c # _ \<Rightarrow> c = CHR ''-'' | [] \<Rightarrow> False);
          s = (case s of c # t \<Rightarrow> if c = CHR ''-'' \<or> c = CHR ''+'' then t else s | [] \<Rightarrow> []);
          ds = takeWhile is_digit s;
          v = (if neg then - int (dec_val ds) else int (dec_val ds)) in
      if - (2 ^ 63) \<le> v \<and> v < 2 ^ 63 then v else 0)"

definition nowInWindow :: "moment \<Rightarrow> int list \<Rightarrow> string \<Rightarrow> string \<Rightarrow> bool" where
  "nowInWindow now days st en =
     (if Weekday now \<notin> set days then False
      else (case (split_colon st, split_colon en) of
          (Some (sh, sm), Some (eh, em)) \<Rightarrow>
            (let currentMinutes = Hour now * 60 + Minute now;
                 startMinutes = scan_int sh * 60 + scan_int sm;
                 endMinutes = scan_int eh * 60 + scan_int em in
             if startMinutes \<le> endMinutes then startMinutes \<le> currentMinutes \<and> currentMinutes < endMinutes
             else startMinutes \<le> currentMinutes \<or> currentMinutes < endMinutes)
        | _ \<Rightarrow> True))"

fun any_window :: "moment \<Rightarrow> scheduleWindow list \<Rightarrow> bool" where
  "any_window now [] = False"
| "any_window now (w # ws) =
     (if \<not> sw_Enabled w then any_window now ws
      else nowInWindow now (sw_Days w) (sw_StartTime w) (sw_EndTime w) \<or> any_window now ws)"

definition isWithinSchedule :: "moment \<Rightarrow> string \<Rightarrow> bool" where
  "isWithinSchedule now scheduleJSON =
     (let s = js_trim scheduleJSON in
      if s = [] then True
      else if hd s = CHR ''['' then
        (case json_parse s of
           Some (JArr xs) \<Rightarrow> (case those (map decode_window xs) of
               Some windows \<Rightarrow> if windows = [] then True else any_window now windows
             | None \<Rightarrow> True)
         | _ \<Rightarrow> True)
      else (case Option.bind (json_parse s) decode_config of
          None \<Rightarrow> True
        | Some sched \<Rightarrow>
            if sc_Days sched = [] \<or> sc_Start sched = [] \<or> sc_End sched = [] then True
            else nowInWindow now (sc_Days sched) (sc_Start sched) (sc_End sched)))"

section \<open>The monitoring schedule\<close>

definition MONITORING_PRESETS :: "WindowPreset list" where
  "MONITORING_PRESETS =
     [\<lparr>ps_label = ''After-hours (Weeknights + Weekends)'',
       ps_windows = [preset_window ''Weeknights'' [1, 2, 3, 4, 5] ''18:00'' ''06:00'',
                     preset_window ''Weekends 24hr'' [0, 6] ''00:00'' ''23:59'']\<rparr>,
      \<lparr>ps_label = ''24/7 Monitoring'', ps_windows = [preset_window ''24/7'' [0, 1, 2, 3, 4, 5, 6] ''00:00'' ''23:59'']\<rparr>,
      \<lparr>ps_label = ''Weeknights only'', ps_windows = [preset_window ''Weeknights'' [1, 2, 3, 4, 5] ''18:00'' ''06:00'']\<rparr>]"

record ScheduleModal =
  sm_windows :: "MonitoringWindow list"
  sm_dirty :: bool
  sm_closed :: bool
  sm_error :: bool

definition initial_modal :: ScheduleModal where
  "initial_modal = \<lparr>sm_windows = [], sm_dirty = False, sm_closed = False, sm_error = False\<rparr>"

text \<open>
  The modal's effect runs whenever the query delivers another site object (\<open>None\<close>: the site carries no
  schedule); the save button works on a dirty modal.
\<close>

definition site_delivered :: "MonitoringWindow list option \<Rightarrow> ScheduleModal \<Rightarrow> ScheduleModal" where
  "site_delivered sched m = (case sched of Some ws \<Rightarrow> m\<lparr>sm_windows := ws\<rparr> | None \<Rightarrow> m)"

definition modal_edit :: "(number \<Rightarrow> string) \<Rightarrow> editor_action \<Rightarrow> ScheduleModal \<Rightarrow> ScheduleModal" where
  "modal_edit fractx a m = m\<lparr>sm_windows := editor_step fractx MONITORING_PRESETS a (sm_windows m), sm_dirty := True\<rparr>"

definition schedule_handleSave :: "id \<Rightarrow> ScheduleModal \<Rightarrow> World \<Rightarrow> World \<times> ScheduleModal" where
  "schedule_handleSave siteId m w =
     (if \<not> sm_dirty m then (w, m)
      else (case useUpdateSiteMonitoringSchedule siteId (map window_json (sm_windows m)) w of
          (w', Inl e, _) \<Rightarrow> (w', m\<lparr>sm_error := True\<rparr>)
        | (w', Inr _, _) \<Rightarrow> (w', m\<lparr>sm_closed := True, sm_error := False\<rparr>)))"


section \<open>What the editor produces\<close>

definition week_days :: "json list \<Rightarrow> bool" where
  "week_days days \<longleftrightarrow> (\<exists>ns. days = map day_num ns \<and> sorted_wrt (<) ns \<and> set ns \<subseteq> {0..6})"

definition is_time :: "json \<Rightarrow> bool" where
  "is_time j = (case j of JStr s \<Rightarrow> time_value s | _ \<Rightarrow> False)"

definition is_string :: "json \<Rightarrow> bool" where
  "is_string j = (case j of JStr s \<Rightarrow> True | _ \<Rightarrow> False)"

definition editor_window :: "MonitoringWindow \<Rightarrow> bool" where
  "editor_window w \<longleftrightarrow> is_string (mw_id w) \<and> truthy_json (mw_id w) \<and> is_string (mw_label w) \<and> week_days (mw_days w) \<and>
     is_time (mw_start_time w) \<and> is_time (mw_end_time w)"

definition preset_ok :: "PresetWindow \<Rightarrow> bool" where
  "preset_ok w \<longleftrightarrow> is_string (mw_label w) \<and> week_days (mw_days w) \<and> is_time (mw_start_time w) \<and> is_time (mw_end_time w)"

lemma day_num_inj [simp]: "day_num a = day_num b \<longleftrightarrow> a = b"
  by (simp add: day_num_def)

lemma day_text: "0 \<le> d \<Longrightarrow> d < 10 \<Longrightarrow> js_string fractx (day_num d) = [digit_char (nat d)]"
  by (simp add: day_num_def num_text_def is_int_def int_str_def nat_str.simps)

lemma day_text_less:
  assumes "a \<in> {0..6}" "b \<in> {0..6}"
  shows "text_less (js_string fractx (day_num a)) (js_string fractx (day_num b)) \<longleftrightarrow> a < b"
proof -
  have "(48 + nat a) mod 256 = 48 + nat a" "(48 + nat b) mod 256 = 48 + nat b" using assms by auto
  then show ?thesis using assms by (auto simp: day_text digit_char_def)
qed

lemma sort_days:
  assumes "set ns \<subseteq> {0..6}"
  shows "js_sort (\<lambda>a b. text_less (js_string fractx a) (js_string fractx b)) (map day_num ns) = map day_num (sort ns)"
proof -
  have ins: "sort_insert (\<lambda>a b. text_less (js_string fractx a) (js_string fractx b)) (day_num x) (map day_num ys)
      = map day_num (insort x ys)" if "x \<in> {0..6}" "set ys \<subseteq> {0..6}" for x ys
    using that by (induction ys) (auto simp: day_text_less simp del: atLeastAtMost_iff)
  show ?thesis using assms by (induction ns) (auto simp: ins set_insort_key)
qed

lemma toggle_days_week:
  assumes "week_days days" "d < 7"
  shows "week_days (toggle_days fractx (int d) days)"
proof -
  obtain ns where ns: "days = map day_num ns" "sorted_wrt (<) ns" "set ns \<subseteq> {0..6}"
    using assms(1) unfolding week_days_def by blast
  show ?thesis
  proof (cases "int d \<in> set ns")
    case True
    have "toggle_days fractx (int d) days = map day_num (filter (\<lambda>n. n \<noteq> int d) ns)"
      using True by (auto simp: toggle_days_def ns(1) filter_map comp_def)
    then show ?thesis unfolding week_days_def using ns by (intro exI [of _ "filter (\<lambda>n. n \<noteq> int d) ns"]) (auto simp: sorted_wrt_filter)
  next
    case False
    have "toggle_days fractx (int d) days = map day_num (sort (ns @ [int d]))"
      using False ns assms(2) sort_days [of "ns @ [int d]" fractx] by (auto simp: toggle_days_def)
    moreover have "distinct ns" using ns(2) strict_sorted_iff by blast
    then have "sorted_wrt (<) (sort (ns @ [int d]))" using False by (auto simp: strict_sorted_iff)
    ultimately show ?thesis unfolding week_days_def using ns assms(2) by (intro exI [of _ "sort (ns @ [int d])"]) auto
  qed
qed

lemma preset_windows_ok:
  "\<forall>p\<in>set RECORDING_PRESETS. \<forall>w\<in>set (ps_windows p). preset_ok w"
  "\<forall>p\<in>set MONITORING_PRESETS. \<forall>w\<in>set (ps_windows p). preset_ok w"
proof -
  have days: "week_days (map day_num ds)" if "sorted_wrt (<) ds" "set ds \<subseteq> {0..6}" for ds
    using that unfolding week_days_def by blast
  have pw: "preset_ok (preset_window l ds st en)"
    if "sorted_wrt (<) ds" "set ds \<subseteq> {0..6}" "time_value st" "time_value en" for l ds st en
    using days [OF that(1,2)] that(3,4) by (simp add: preset_ok_def preset_window_def is_string_def is_time_def)
  show "\<forall>p\<in>set RECORDING_PRESETS. \<forall>w\<in>set (ps_windows p). preset_ok w"
    unfolding RECORDING_PRESETS_def
    by (auto intro!: pw simp: time_value_def is_digit_def dec_val_def digit_val_def)
  show "\<forall>p\<in>set MONITORING_PRESETS. \<forall>w\<in>set (ps_windows p). preset_ok w"
    unfolding MONITORING_PRESETS_def
    by (auto intro!: pw simp: time_value_def is_digit_def dec_val_def digit_val_def)
qed

lemma with_id_ok: "preset_ok w \<Longrightarrow> s \<noteq> [] \<Longrightarrow> editor_window (with_id w (JStr s))"
  by (simp add: editor_window_def preset_ok_def with_id_def is_string_def)

lemma genId_nonempty [simp]: "genId r \<noteq> []"
  by (simp add: genId_def)

lemma default_window_ok: "preset_ok (preset_window [] [1, 2, 3, 4, 5] ''18:00'' ''06:00'')"
proof -
  have "week_days (map day_num [1, 2, 3, 4, 5])"
    unfolding week_days_def by (intro exI [of _ "[1, 2, 3, 4, 5]"]) simp
  then show ?thesis
    by (simp add: preset_ok_def preset_window_def is_string_def is_time_def time_value_def is_digit_def dec_val_def digit_val_def)
qed

lemma time_input_value [simp]: "time_value (time_input s)"
  by (simp add: time_input_def time_value_def)

lemma updateWindow_ok:
  "list_all editor_window ws \<Longrightarrow> (\<And>w. editor_window w \<Longrightarrow> editor_window (f w)) \<Longrightarrow> list_all editor_window (updateWindow i f ws)"
  by (auto simp: updateWindow_def list_all_iff)

lemma editor_step_ok:
  assumes presets: "\<forall>p\<in>set presets. \<forall>w\<in>set (ps_windows p). preset_ok w" and ws: "list_all editor_window ws"
  shows "list_all editor_window (editor_step fractx presets a ws)"
proof (cases a)
  case (Add_window r)
  then show ?thesis using ws by (simp add: addWindow_def with_id_ok default_window_ok)
next
  case (Remove_window i)
  then show ?thesis using ws by (auto simp: removeWindow_def list_all_iff)
next
  case (Toggle_day i d)
  have "week_days (toggle_days fractx (int d) (mw_days w))" if "w \<in> set ws" "d < 7" for w
    using ws that toggle_days_week by (auto simp: list_all_iff editor_window_def)
  then show ?thesis using ws Toggle_day by (auto simp: toggleDay_def list_all_iff editor_window_def DAY_LABELS_def)
next
  case (Apply_preset rnd k)
  have "preset_ok (ps_windows (presets ! k) ! j)" if "k < length presets" "j < length (ps_windows (presets ! k))" for j
    using presets that by (meson nth_mem)
  then show ?thesis using ws Apply_preset
    by (auto simp: applyPreset_def list_all_iff in_set_enumerate_eq intro!: with_id_ok)
qed (use ws in \<open>auto intro!: updateWindow_ok simp: editor_window_def is_string_def is_time_def\<close>)

interpretation recording_editor: machine "editor_step fractx RECORDING_PRESETS" "\<lambda>ws. ws = []" "list_all editor_window"
  for fractx
  by unfold_locales (simp_all add: editor_step_ok preset_windows_ok)

interpretation monitoring_editor: machine "editor_step fractx MONITORING_PRESETS" "\<lambda>ws. ws = []" "list_all editor_window"
  for fractx
  by unfold_locales (simp_all add: editor_step_ok preset_windows_ok)

section \<open>Reading a schedule back\<close>

text \<open>The reference: when a window is open, from its days and its two times.\<close>

definition clock_minutes :: "json \<Rightarrow> int option" where
  "clock_minutes j = (case j of JStr s \<Rightarrow> if s = [] then None else Some (int (60 * dec_val (take 2 s) + dec_val (drop 3 s))) | _ \<Rightarrow> None)"

definition window_open :: "moment \<Rightarrow> MonitoringWindow \<Rightarrow> bool" where
  "window_open now w \<longleftrightarrow> day_num (Weekday now) \<in> set (mw_days w) \<and>
     (case (clock_minutes (mw_start_time w), clock_minutes (mw_end_time w)) of
        (Some a, Some b) \<Rightarrow>
          (let t = Hour now * 60 + Minute now in if a \<le> b then a \<le> t \<and> t < b else a \<le> t \<or> t < b)
      | _ \<Rightarrow> True)"

lemma is_digit_plain: "is_digit c \<Longrightarrow> c \<noteq> CHR '':'' \<and> c \<noteq> CHR ''-'' \<and> c \<noteq> CHR ''+'' \<and> \<not> is_ws c"
  by (auto simp: is_digit_def is_ws_def)

lemma scan_two_digits:
  assumes "is_digit a" "is_digit b" "dec_val [a, b] < 60"
  shows "scan_int [a, b] = int (dec_val [a, b])"
  using assms is_digit_plain [of a] by (simp add: scan_int_def Let_def)

lemma time_value_scan:
  assumes "time_value s" "s \<noteq> []"
  obtains sh sm where "split_colon s = Some (sh, sm)" "scan_int sh * 60 + scan_int sm = int (60 * dec_val (take 2 s) + dec_val (drop 3 s))"
proof -
  obtain a b d e where s: "s = [a, b, CHR '':'', d, e]" and dig: "is_digit a" "is_digit b" "is_digit d" "is_digit e"
    and lim: "dec_val [a, b] < 24" "dec_val [d, e] < 60"
    using assms unfolding time_value_def by (auto split: list.splits)
  have "split_colon s = Some ([a, b], [d, e])"
    using dig by (simp add: s split_colon_def is_digit_plain)
  moreover have "scan_int [a, b] * 60 + scan_int [d, e] = int (60 * dec_val (take 2 s) + dec_val (drop 3 s))"
    using lim dig by (simp add: s scan_two_digits)
  ultimately show ?thesis by (rule that)
qed

lemma nowInWindow_open:
  assumes "is_time (mw_start_time w)" "is_time (mw_end_time w)" "mw_days w = map day_num ns"
    and "mw_start_time w = JStr st" "mw_end_time w = JStr en"
  shows "nowInWindow now ns st en = window_open now w"
proof -
  have tv: "time_value st" "time_value en" using assms by (simp_all add: is_time_def)
  have days: "day_num (Weekday now) \<in> set (mw_days w) \<longleftrightarrow> Weekday now \<in> set ns" using assms(3) by auto
  consider "st = []" | "en = []" | "st \<noteq> []" "en \<noteq> []" by blast
  then show ?thesis
  proof cases
    case 3
    obtain sh sm where s: "split_colon st = Some (sh, sm)"
      "scan_int sh * 60 + scan_int sm = int (60 * dec_val (take 2 st) + dec_val (drop 3 st))"
      using time_value_scan [OF tv(1) 3(1)] .
    obtain eh em where e: "split_colon en = Some (eh, em)"
      "scan_int eh * 60 + scan_int em = int (60 * dec_val (take 2 en) + dec_val (drop 3 en))"
      using time_value_scan [OF tv(2) 3(2)] .
    show ?thesis unfolding nowInWindow_def window_open_def days s(1) e(1)
      using 3 s(2) e(2) assms(4,5) by (simp add: clock_minutes_def Let_def)
  qed (use assms(4,5) days in \<open>simp_all add: nowInWindow_def window_open_def clock_minutes_def split_colon_def split: option.splits\<close>)
qed

lemma go_int_num: "- (2 ^ 63) \<le> i \<Longrightarrow> i < 2 ^ 63 \<Longrightarrow> go_int (Some (JNum (of_int i))) = Some i"
  by (simp add: go_int_def is_int_def Let_def)

lemma those_map_Some: "(\<And>x. x \<in> set xs \<Longrightarrow> f x = Some (g x)) \<Longrightarrow> those (map f xs) = Some (map g xs)"
  by (induction xs) auto

lemma go_ints_days: "set ns \<subseteq> {0..6} \<Longrightarrow> go_ints (Some (JArr (map day_num ns))) = Some ns"
  using those_map_Some [of ns "\<lambda>x. go_int (Some (day_num x))" "\<lambda>x. x"]
  by (force simp: go_ints_def comp_def day_num_def go_int_num subset_eq)

lemma decode_editor_window:
  assumes "editor_window w"
  shows "\<exists>sw. decode_window (window_json w) = Some sw \<and> sw_Enabled sw = mw_enabled w \<and>
    nowInWindow now (sw_Days sw) (sw_StartTime sw) (sw_EndTime sw) = window_open now w"
proof -
  obtain ns where ns: "mw_days w = map day_num ns" "set ns \<subseteq> {0..6}"
    using assms unfolding editor_window_def week_days_def by blast
  obtain st en where t: "mw_start_time w = JStr st" "mw_end_time w = JStr en"
    using assms unfolding editor_window_def is_time_def by (auto split: json.splits)
  have "decode_window (window_json w) = Some \<lparr>sw_Enabled = mw_enabled w, sw_Days = ns, sw_StartTime = st, sw_EndTime = en\<rparr>"
    using go_ints_days [OF ns(2)]
    by (simp add: decode_window_def window_json_def go_object_def json_field_def go_bool_def go_string_def ns(1) t)
  then show ?thesis using nowInWindow_open [of w ns st en now] assms ns(1) t by (simp add: editor_window_def)
qed

lemma wf_window: "editor_window w \<Longrightarrow> wf_json (window_json w)"
  by (auto simp: editor_window_def window_json_def week_days_def is_string_def is_time_def day_num_def is_int_def split: json.splits)

lemma trim_array: "js_trim (stringify fractx (JArr xs)) = stringify fractx (JArr xs)"
  by (simp add: js_trim_def is_ws_def)

lemma any_window_iff:
  assumes "list_all2 (\<lambda>w sw. sw_Enabled sw = mw_enabled w \<and>
    nowInWindow now (sw_Days sw) (sw_StartTime sw) (sw_EndTime sw) = window_open now w) ws sws"
  shows "any_window now sws \<longleftrightarrow> (\<exists>w\<in>set ws. mw_enabled w \<and> window_open now w)"
  using assms by (induction rule: list_all2_induct) auto

lemma engine_reads_schedule:
  assumes "list_all editor_window ws"
  shows "isWithinSchedule now (saved_schedule fractx ws) \<longleftrightarrow> ws = [] \<or> (\<exists>w\<in>set ws. mw_enabled w \<and> window_open now w)"
proof (cases "ws = []")
  case False
  have "\<forall>w. \<exists>sw. editor_window w \<longrightarrow> decode_window (window_json w) = Some sw \<and> sw_Enabled sw = mw_enabled w \<and>
      nowInWindow now (sw_Days sw) (sw_StartTime sw) (sw_EndTime sw) = window_open now w"
    using decode_editor_window by blast
  then obtain f where f: "\<And>w. editor_window w \<Longrightarrow> decode_window (window_json w) = Some (f w) \<and> sw_Enabled (f w) = mw_enabled w \<and>
      nowInWindow now (sw_Days (f w)) (sw_StartTime (f w)) (sw_EndTime (f w)) = window_open now w" by metis
  have p: "json_parse (stringify fractx (JArr (map window_json ws))) = Some (JArr (map window_json ws))"
    using assms by (intro parse_stringify) (auto simp: list_all_iff wf_window)
  have d: "those (map (\<lambda>w. decode_window (window_json w)) ws) = Some (map f ws)"
    using assms f by (intro those_map_Some) (auto simp: list_all_iff)
  have "any_window now (map f ws) \<longleftrightarrow> (\<exists>w\<in>set ws. mw_enabled w \<and> window_open now w)"
    using assms f by (intro any_window_iff) (auto simp: list_all2_map2 list_all_iff list_all2_same)
  then show ?thesis using False d
    by (simp add: isWithinSchedule_def saved_schedule_def Let_def trim_array p comp_def del: stringify.simps) (simp add: comp_def)
qed (simp add: isWithinSchedule_def saved_schedule_def js_trim_def)

lemma parse_editor_window:
  assumes "editor_window w"
  shows "parse_window rnd (i, window_json w) = Some w"
  using assms by (cases w) (auto simp: parse_window_def window_json_def json_field_def member_nullish_def member_or_def editor_window_def
      is_string_def is_time_def split: json.splits)

lemma panel_reads_schedule:
  assumes "list_all editor_window ws"
  shows "parseSchedule rnd (JStr (saved_schedule fractx ws)) = Some ws"
proof (cases "ws = []")
  case False
  have p: "json_parse (stringify fractx (JArr (map window_json ws))) = Some (JArr (map window_json ws))"
    using assms by (intro parse_stringify) (auto simp: list_all_iff wf_window)
  have "those (map (parse_window rnd) (enumerate n (map window_json ws))) = Some ws" for n
    using assms by (induction ws arbitrary: n) (auto simp: parse_editor_window)
  then show ?thesis using False
    by (simp add: parseSchedule_def saved_schedule_def Let_def trim_array p nullish_def del: stringify.simps) (simp add: comp_def)
qed (simp add: parseSchedule_def saved_schedule_def js_trim_def)

section \<open>Properties\<close>

text \<open>C27: The recorder follows the schedule: whatever is done in the editor, as long as it leaves no windows at
  all or at least one enabled, the engine's reading of the saved text at any moment is that there are
  no windows, or that an enabled window is open then (its days contain the day; a start before the end
  means from start up to but not at the end, otherwise from start on or before the end of the same day;
  a missing time means the whole day); a disabled window changes nothing. And the panel always reads
  the saved text back as the same windows.\<close>

theorem recording_follows_schedule:
  fixes fractx actions
  defines "ws \<equiv> fold (editor_step fractx RECORDING_PRESETS) actions []"
  shows "(ws = [] \<or> (\<exists>w\<in>set ws. mw_enabled w) \<longrightarrow>
      (isWithinSchedule now (saved_schedule fractx ws) \<longleftrightarrow>
         filter mw_enabled ws = [] \<or> (\<exists>w\<in>set (filter mw_enabled ws). window_open now w))) \<and>
    parseSchedule rnd (JStr (saved_schedule fractx ws)) = Some ws"
proof -
  have "list_all editor_window ws"
    unfolding ws_def by (rule recording_editor.inv_run) simp
  then show ?thesis by (auto simp: engine_reads_schedule panel_reads_schedule filter_empty_conv)
qed

theorem recording_follows_schedule_witness:
  "let ws = fold (editor_step (\<lambda>_. []) RECORDING_PRESETS) [Apply_preset (\<lambda>_. ''0.abcdefgh'') 0] [] in
     isWithinSchedule \<lparr>Weekday = 2, Hour = 12, Minute = 0\<rparr> (saved_schedule (\<lambda>_. []) ws)"
proof -
  let ?ws = "fold (editor_step (\<lambda>_. []) RECORDING_PRESETS) [Apply_preset (\<lambda>_. ''0.abcdefgh'') 0] []"
  have ws: "?ws = [with_id (preset_window ''24/7'' [0, 1, 2, 3, 4, 5, 6] ''00:00'' ''23:59'') (JStr (genId ''0.abcdefgh''))]"
    by (simp add: RECORDING_PRESETS_def applyPreset_def)
  have "\<exists>w\<in>set ?ws. mw_enabled w \<and> window_open \<lparr>Weekday = 2, Hour = 12, Minute = 0\<rparr> w"
    unfolding ws by (simp add: window_open_def with_id_def preset_window_def clock_minutes_def dec_val_def digit_val_def Let_def)
  with recording_follows_schedule [of "\<lambda>_. []" "[Apply_preset (\<lambda>_. ''0.abcdefgh'') 0]" "\<lparr>Weekday = 2, Hour = 12, Minute = 0\<rparr>"]
  show ?thesis unfolding Let_def by auto
qed

text \<open>
  The preset for recording around the clock ends at 23:59, which is not included: the last minute of
  every day is not recorded, and every other minute is.
\<close>

theorem always_preset_misses_last_minute:
  fixes fractx rnd
  defines "ws \<equiv> editor_step fractx RECORDING_PRESETS (Apply_preset rnd 0) []"
  assumes "Weekday now \<in> {0..6}" "Hour now \<in> {0..23}" "Minute now \<in> {0..59}"
  shows "isWithinSchedule now (saved_schedule fractx ws) \<longleftrightarrow> \<not> (Hour now = 23 \<and> Minute now = 59)"
proof -
  have ok: "list_all editor_window ws"
    unfolding ws_def by (rule recording_editor.inv_step) simp
  have days: "Weekday now \<in> {0, 1, 2, 3, 4, 5, 6}" using assms(2) by auto
  have ws: "ws = [with_id (preset_window ''24/7'' [0, 1, 2, 3, 4, 5, 6] ''00:00'' ''23:59'') (JStr (genId (rnd 0)))]"
    by (simp add: ws_def RECORDING_PRESETS_def applyPreset_def)
  have "window_open now (hd ws) \<longleftrightarrow> 0 \<le> Hour now * 60 + Minute now \<and> Hour now * 60 + Minute now < 1439"
    using days by (simp add: ws window_open_def with_id_def preset_window_def clock_minutes_def dec_val_def digit_val_def Let_def)
  then have "isWithinSchedule now (saved_schedule fractx ws) \<longleftrightarrow> 0 \<le> Hour now * 60 + Minute now \<and> Hour now * 60 + Minute now < 1439"
    using engine_reads_schedule [OF ok, of now fractx] by (simp add: ws with_id_def preset_window_def)
  then show ?thesis using assms(3,4) by auto
qed

theorem always_preset_misses_last_minute_witness:
  "\<not> isWithinSchedule \<lparr>Weekday = 2, Hour = 23, Minute = 59\<rparr>
     (saved_schedule (\<lambda>_. []) (editor_step (\<lambda>_. []) RECORDING_PRESETS (Apply_preset (\<lambda>_. ''0.abcdefgh'') 0) []))"
  using always_preset_misses_last_minute [of "\<lparr>Weekday = 2, Hour = 23, Minute = 59\<rparr>" "\<lambda>_. []" "\<lambda>_. ''0.abcdefgh''"] by simp

text \<open>The mark of an overnight window is shown exactly when the engine takes the branch over midnight.\<close>

lemma digits_order:
  assumes "is_digit a" "is_digit b"
  shows "(of_char a :: nat) < of_char b \<longleftrightarrow> digit_val a < digit_val b" "a = b \<longleftrightarrow> digit_val a = digit_val b" "digit_val a < 10"
proof -
  have "48 \<le> (of_char a :: nat)" "(of_char a :: nat) \<le> 57" "48 \<le> (of_char b :: nat)" "(of_char b :: nat) \<le> 57"
    using assms by (simp_all add: is_digit_def)
  moreover have "a = b \<longleftrightarrow> (of_char a :: nat) = of_char b" by simp
  ultimately show "(of_char a :: nat) < of_char b \<longleftrightarrow> digit_val a < digit_val b" "a = b \<longleftrightarrow> digit_val a = digit_val b" "digit_val a < 10"
    unfolding digit_val_def by linarith+
qed

lemma overnight_mark:
  assumes "time_value st" "time_value en" "st \<noteq> []" "en \<noteq> []"
  shows "shows_overnight st en \<longleftrightarrow> the (clock_minutes (JStr en)) < the (clock_minutes (JStr st))"
proof -
  obtain a b d e where s: "st = [a, b, CHR '':'', d, e]" and ds: "is_digit a" "is_digit b" "is_digit d" "is_digit e"
      and ls: "dec_val [d, e] < 60"
    using assms(1,3) unfolding time_value_def by (auto split: list.splits)
  obtain a' b' d' e' where n: "en = [a', b', CHR '':'', d', e']" and dn: "is_digit a'" "is_digit b'" "is_digit d'" "is_digit e'"
      and ln: "dec_val [d', e'] < 60"
    using assms(2,4) unfolding time_value_def by (auto split: list.splits)
  note o = digits_order [OF dn(1) ds(1)] digits_order [OF dn(2) ds(2)] digits_order [OF dn(3) ds(3)] digits_order [OF dn(4) ds(4)]
    digits_order(3) [OF ds(1,1)] digits_order(3) [OF ds(2,2)] digits_order(3) [OF ds(3,3)] digits_order(3) [OF ds(4,4)]
  show ?thesis unfolding shows_overnight_def s n text_less.simps o(1,2,4,5,7,8,10,11)
    using ls ln o(3,6,9,12-16) by (simp add: clock_minutes_def dec_val_def) linarith
qed

text \<open>
  An overnight window belongs to the calendar day, not to the night: the weeknight window from 18:00 to
  06:00 is open in the small hours of Monday and closed in those of Saturday.
\<close>

lemma overnight_window_by_calendar_day:
  assumes "w = with_id (preset_window l [1, 2, 3, 4, 5] ''18:00'' ''06:00'') i" "0 \<le> h" "h < 6" "0 \<le> m" "m < 60"
  shows "window_open \<lparr>Weekday = 1, Hour = h, Minute = m\<rparr> w \<and> \<not> window_open \<lparr>Weekday = 6, Hour = h, Minute = m\<rparr> w"
  using assms by (simp add: window_open_def with_id_def preset_window_def clock_minutes_def dec_val_def digit_val_def Let_def)

lemma all_disabled_stops_recording:
  assumes "list_all editor_window ws" "ws \<noteq> []" "\<forall>w\<in>set ws. \<not> mw_enabled w"
  shows "\<not> isWithinSchedule now (saved_schedule fractx ws)"
  using assms by (simp add: engine_reads_schedule)

text \<open>The tiers of the panel are the tiers the server accepts.\<close>

lemma tiers_in_sync: "map fst RETENTION_TIERS = RetentionTiers"
  by (simp add: RETENTION_TIERS_def RetentionTiers_def)

lemma tier_in_iff: "ValidateRetentionTier_in ts d \<longleftrightarrow> d \<in> set ts"
  by (induction ts) auto

lemma tier_valid_iff: "ValidateRetentionTier d \<longleftrightarrow> d \<in> fst ` set RETENTION_TIERS"
  unfolding ValidateRetentionTier_def tier_in_iff by (simp flip: tiers_in_sync)

lemma GetSite_policy:
  "site_policy (GetSite r) =
     \<lparr>retention_days = JNum (of_int (RetentionDays (row_policy r))), recording_mode = JStr (RecordingMode (row_policy r)),
      pre_buffer_sec = JNum (of_int (PreBufferSec (row_policy r))), post_buffer_sec = JNum (of_int (PostBufferSec (row_policy r))),
      recording_triggers = JStr (RecordingTriggers (row_policy r)), recording_schedule = JStr (RecordingSchedule (row_policy r))\<rparr>"
  by (simp add: site_policy_def GetSite_def site_fields_def json_field_def member_nullish_def map_add_def split: option.splits)

text \<open>A policy survives the server: with a tier and a mode of the panel's controls, buffers that are
  not negative, at least one trigger and any schedule of the editor, the server accepts the saved policy
  from an administrator or a supervisor, and loading the site afterwards gives the panel exactly the
  values that were saved.\<close>

theorem policy_round_trip:
  fixes fractx actions
  defines "ws \<equiv> fold (editor_step fractx RECORDING_PRESETS) actions []"
  assumes "role \<in> {''admin'', ''soc_supervisor''}" "days \<in> fst ` set RETENTION_TIERS" "mode \<in> {''continuous'', ''event''}"
    and "0 \<le> pre" "pre < 2 ^ 63" "0 \<le> post" "post < 2 ^ 63" "triggers \<noteq> []"
    and "rp_policy p = \<lparr>retention_days = JNum (of_int days), recording_mode = JStr mode, pre_buffer_sec = JNum (of_int pre),
           post_buffer_sec = JNum (of_int post), recording_triggers = JStr triggers, recording_schedule = sc\<rparr>"
    and "rp_windows p = ws"
  shows "\<exists>s. HandleUpdateSiteRecording (Some role) (policy_body fractx p) = Inr s \<and>
    load_answer rnd (Inr (GetSite (r\<lparr>row_policy := s\<rparr>))) q =
      q\<lparr>rp_policy := (rp_policy p)\<lparr>recording_schedule := JStr (saved_schedule fractx ws)\<rparr>, rp_windows := ws, rp_loading := False\<rparr>"
proof -
  let ?s = "\<lparr>RetentionDays = days, RecordingMode = mode, PreBufferSec = pre, PostBufferSec = post,
    RecordingTriggers = triggers, RecordingSchedule = saved_schedule fractx ws\<rparr>"
  have big: "days < 2 ^ 63" "- (2 ^ 63) \<le> days" using assms(3) by (auto simp: RETENTION_TIERS_def)
  have "decode_policy (policy_body fractx p) = Some ?s"
    using assms big by (simp add: decode_policy_def policy_body_def go_object_def json_field_def go_int_num go_string_def)
  then have h: "HandleUpdateSiteRecording (Some role) (policy_body fractx p) = Inr ?s"
    using assms tier_valid_iff [of days] by (auto simp: HandleUpdateSiteRecording_def UpdateSiteRecording_def Let_def)
  have "list_all editor_window ws" unfolding ws_def by (rule recording_editor.inv_run) simp
  then have "load_answer rnd (Inr (GetSite (r\<lparr>row_policy := ?s\<rparr>))) q =
      q\<lparr>rp_policy := (rp_policy p)\<lparr>recording_schedule := JStr (saved_schedule fractx ws)\<rparr>, rp_windows := ws, rp_loading := False\<rparr>"
    using assms(10) by (simp add: load_answer_def GetSite_policy panel_reads_schedule) (simp add: GetSite_def)
  then show ?thesis using h by blast
qed

definition fixture_row :: SiteRow where
  "fixture_row = \<lparr>row_id = ''ACG-101'', row_name = ''North yard'', row_address = ''1 Main St'', row_organization = ''co-1'',
     row_latitude = None, row_longitude = None, row_status = ''active'', row_monitoring_start = ''18:00'', row_monitoring_end = ''06:00'',
     row_notes = [], row_feature_mode = ''security_only'', row_policy = \<lparr>RetentionDays = 30, RecordingMode = ''event'',
       PreBufferSec = 5, PostBufferSec = 5, RecordingTriggers = ''motion'', RecordingSchedule = []\<rparr>,
     row_created_at = ''2026-04-01T00:00:00Z'', row_monitoring_schedule = JArr []\<rparr>"

theorem policy_round_trip_witness:
  "\<exists>s. HandleUpdateSiteRecording (Some ''admin'') (policy_body (\<lambda>_. []) (initial_policy_panel\<lparr>rp_windows := fold (editor_step (\<lambda>_. []) RECORDING_PRESETS) [Add_window ''0.q1w2e3r4''] []\<rparr>)) = Inr s \<and>
    load_answer (\<lambda>_. []) (Inr (GetSite (fixture_row\<lparr>row_policy := s\<rparr>))) initial_policy_panel =
      initial_policy_panel\<lparr>rp_policy := DEFAULT_POLICY\<lparr>recording_schedule := JStr (saved_schedule (\<lambda>_. []) (fold (editor_step (\<lambda>_. []) RECORDING_PRESETS) [Add_window ''0.q1w2e3r4''] []))\<rparr>,
        rp_windows := fold (editor_step (\<lambda>_. []) RECORDING_PRESETS) [Add_window ''0.q1w2e3r4''] [], rp_loading := False\<rparr>"
  using policy_round_trip [of "''admin''" 3 "''continuous''" 10 30 "''motion,object''"
      "initial_policy_panel\<lparr>rp_windows := fold (editor_step (\<lambda>_. []) RECORDING_PRESETS) [Add_window ''0.q1w2e3r4''] []\<rparr>" "JStr []" "\<lambda>_. []"
      "[Add_window ''0.q1w2e3r4'']" "\<lambda>_. []" fixture_row initial_policy_panel]
  by (simp add: initial_policy_panel_def DEFAULT_POLICY_def RETENTION_TIERS_def)

text \<open>With every trigger switched off the panel saves the empty list, which the server replaces by the default.\<close>

lemma no_triggers_become_default:
  "RecordingTriggers (UpdateSiteRecording s) \<noteq> []"
  by (simp add: UpdateSiteRecording_def)

text \<open>
  A load that failed leaves the default policy in the panel, ready to be saved: the next save sends
  three days of retention and no schedule, whatever the site had.
\<close>

lemma failed_load_overwrites:
  assumes "snd (bind_io (apiFetch (''/api/v1/sites/'' @ siteId) no_opts) res_json w) = Inl e"
  shows "policy_body fractx (snd (load_policy rnd False siteId initial_policy_panel w)) =
    JObj [(''retention_days'', JNum 3), (''recording_mode'', JStr ''continuous''), (''pre_buffer_sec'', JNum 10),
      (''post_buffer_sec'', JNum 30), (''recording_triggers'', JStr ''motion,object''), (''recording_schedule'', JStr [])]"
  using assms by (auto simp: load_policy_def load_answer_def load_failed_def policy_body_def initial_policy_panel_def DEFAULT_POLICY_def
      saved_schedule_def Let_def split: prod.splits)

text \<open>
  The monitoring schedule is never shown again: the site the server sends carries no schedule, whatever
  the row holds, so the modal opens empty; and a schedule delivered late, with unsaved edits in
  the modal, replaces them while the modal stays dirty.
\<close>

lemma monitoring_schedule_write_only:
  "json_field ''monitoring_schedule'' (GetSite r) = None \<and> site_delivered None initial_modal = initial_modal \<and>
   site_delivered (Some ws) (modal_edit fractx a m) = m\<lparr>sm_windows := ws, sm_dirty := True\<rparr>"
  by (simp add: GetSite_def site_fields_def json_field_def site_delivered_def modal_edit_def map_add_def split: option.splits)

end
