(* ===== verification/Api_Routes.thy ===== *)
theory Api_Routes
  imports Platform_Api
begin

text \<open>
  Which calls of the platform client (\<^verbatim>\<open>lib/ironsight-api.ts\<close>, theory \<open>Platform_Api\<close>) the server has a route for. The
  table is the group \<^verbatim>\<open>/api/v1\<close> of \<^verbatim>\<open>internal/api/router.go\<close>; a request below \<^verbatim>\<open>/api/v1/\<close> that matches none of its
  patterns is answered 404 or 405 by the router. Shown: the calls of the first list reach a route, those of the
  second fail whatever the handlers do.
\<close>

section \<open>The router\<close>

datatype seg = Lit string | Param

fun seg_matches :: "seg \<Rightarrow> string \<Rightarrow> bool" where
  "seg_matches (Lit l) s = (s = l)"
| "seg_matches Param s = True"

fun pattern_matches :: "seg list \<Rightarrow> string list \<Rightarrow> bool" where
  "pattern_matches [] ss = (ss = [])"
| "pattern_matches (p # ps) ss = (case ss of [] \<Rightarrow> False | s # ss' \<Rightarrow> seg_matches p s \<and> pattern_matches ps ss')"

definition v1_routes :: "(string \<times> seg list) list" where
  "v1_routes = [
    (''GET'', [Lit ''companies'']), (''POST'', [Lit ''companies'']), (''PUT'', [Lit ''companies'', Param]),
    (''DELETE'', [Lit ''companies'', Param]), (''GET'', [Lit ''companies'', Param, Lit ''users'']),
    (''POST'', [Lit ''companies'', Param, Lit ''users'']), (''DELETE'', [Lit ''companies'', Param, Lit ''users'', Param]),
    (''GET'', [Lit ''cameras'']), (''GET'', [Lit ''sites'']), (''GET'', [Lit ''sites'', Param]),
    (''POST'', [Lit ''sites'']), (''PUT'', [Lit ''sites'', Param]), (''PATCH'', [Lit ''sites'', Param, Lit ''recording'']),
    (''PUT'', [Lit ''sites'', Param, Lit ''monitoring-schedule'']), (''DELETE'', [Lit ''sites'', Param]),
    (''GET'', [Lit ''sites'', Param, Lit ''contacts'']), (''PUT'', [Lit ''sites'', Param, Lit ''contacts'']),
    (''GET'', [Lit ''sites'', Param, Lit ''cameras'']), (''GET'', [Lit ''sites'', Param, Lit ''sops'']),
    (''POST'', [Lit ''sites'', Param, Lit ''sops'']), (''PUT'', [Lit ''sops'', Param]), (''DELETE'', [Lit ''sops'', Param]),
    (''GET'', [Lit ''sites'', Lit ''locks'']), (''POST'', [Lit ''sites'', Param, Lit ''camera-assignments'']),
    (''DELETE'', [Lit ''sites'', Param, Lit ''camera-assignments'', Param]), (''GET'', [Lit ''speakers'']),
    (''POST'', [Lit ''sites'', Param, Lit ''speaker-assignments'']),
    (''DELETE'', [Lit ''sites'', Param, Lit ''speaker-assignments'', Param]), (''GET'', [Lit ''device-history'']),
    (''GET'', [Lit ''operators'']), (''POST'', [Lit ''operators'']), (''GET'', [Lit ''operators'', Lit ''current'']),
    (''GET'', [Lit ''operators'', Param, Lit ''handoffs'']), (''POST'', [Lit ''events'']), (''GET'', [Lit ''events'']),
    (''POST'', [Lit ''events'', Param, Lit ''verify'']), (''POST'', [Lit ''incidents'', Param, Lit ''share'']),
    (''GET'', [Lit ''incidents'', Param, Lit ''shares'']), (''DELETE'', [Lit ''shares'', Param]),
    (''GET'', [Lit ''incidents'']), (''GET'', [Lit ''incidents'', Param]), (''GET'', [Lit ''portal'', Lit ''summary'']),
    (''GET'', [Lit ''portal'', Lit ''pending-review'']),
    (''POST'', [Lit ''portal'', Lit ''pending-review'', Param, Lit ''review'']),
    (''GET'', [Lit ''portal'', Lit ''pending-review'', Param, Lit ''frame'']),
    (''GET'', [Lit ''portal'', Lit ''person-tracks'']), (''GET'', [Lit ''portal'', Lit ''compliance'', Lit ''summary'']),
    (''GET'', [Lit ''portal'', Lit ''compliance'', Lit ''report.pdf'']), (''GET'', [Lit ''evidence'', Lit ''manifests'']),
    (''GET'', [Lit ''evidence'', Lit ''manifests'', Param]),
    (''GET'', [Lit ''evidence'', Lit ''manifests'', Param, Lit ''verify'']),
    (''POST'', [Lit ''alarms'', Param, Lit ''escalate'']), (''POST'', [Lit ''alarms'', Param, Lit ''ai-feedback'']),
    (''GET'', [Lit ''handoffs'']), (''POST'', [Lit ''handoffs'']), (''GET'', [Lit ''dispatch'', Lit ''queue'']),
    (''GET'', [Lit ''features'']), (''GET'', [Lit ''alerts'']), (''GET'', [Lit ''incidents'', Lit ''active'']),
    (''POST'', [Lit ''incidents'', Param, Lit ''acknowledge'']), (''GET'', [Lit ''detections'']),
    (''GET'', [Lit ''model-versions''])]"

definition v1_segments :: "string \<Rightarrow> string list" where
  "v1_segments url = split_at_char (CHR ''/'') (drop (length ''/api/v1/'') (url_path url))"

definition v1_routed :: "string \<Rightarrow> string \<Rightarrow> bool" where
  "v1_routed m url = list_ex (\<lambda>(m', ps). m' = m \<and> pattern_matches ps (v1_segments url)) v1_routes"

text \<open>The router in front of the handlers: 404 where no pattern matches, 405 where one matches under another method.\<close>

definition v1_router :: "server \<Rightarrow> server" where
  "v1_router handlers j lg q =
     (if starts_with ''/api/v1/'' (rq_url q) \<and> \<not> v1_routed (rq_method q) (rq_url q)
      then (if list_ex (\<lambda>(m, ps). pattern_matches ps (v1_segments (rq_url q))) v1_routes
            then \<lparr>rp_response = Some \<lparr>rs_status = 405, rs_statusText = [], rs_text = [], rs_json = None\<rparr>, rp_cookies = []\<rparr>
            else error_reply 404 ''404 page not found'')
      else handlers j lg q)"

section \<open>Calls a server has no route for\<close>

locale routed_server =
  fixes srv :: server
    and has_route :: "string \<Rightarrow> string \<Rightarrow> bool"
  assumes unrouted: "\<not> has_route (rq_method q) (rq_url q) \<Longrightarrow> rp_response (srv j lg q) = Some r \<Longrightarrow> \<not> ok r"
begin

lemma send_unrouted:
  assumes "wd_server w = srv" "\<not> has_route (rq_method q) (rq_url q)" "send q w = (w', Inr res)"
  shows "\<not> ok res"
  using assms unrouted [of q "wd_jar w" "wd_log w" res] by (auto simp: send_def Let_def split: option.splits)

lemma authFetch_unrouted:
  assumes srv: "wd_server w = srv" and no: "\<not> has_route (nullish (ri_method init) ''GET'') url"
    and res: "authFetch url init w = (w', Inr res)"
  shows "\<not> ok res"
proof -
  let ?req = "build_request url init"
  obtain w1 t qs where w1: "sends w qs w1"
    and run: "authFetch url init w =
       bind_io (send (?req t)) (\<lambda>res.
         bind_io (if isMutation init \<and> rs_status res = 403
                  then bind_io bootstrapCSRFToken (\<lambda>fresh.
                         if fresh \<noteq> [] \<and> fresh \<noteq> t then send (?req fresh)
                         else return_io res)
                  else return_io res) redirect_on_401) w1"
    by (rule authFetch_runs)
  have nr: "\<not> has_route (rq_method (?req x)) (rq_url (?req x))" for x
    using no by (simp add: build_request_def)
  have s1: "wd_server w1 = srv" using w1 srv by (simp add: sends_def)
  obtain w2 r where r: "send (?req t) w1 = (w2, r)" by fastforce
  with res run obtain res1 where res1: "r = Inr res1" by (cases r) (auto simp: bind_io_def)
  have no1: "\<not> ok res1" using send_unrouted [OF s1 nr] r res1 by blast
  have s2: "wd_server w2 = srv" using send_sends [OF r] s1 by (simp add: sends_def)
  obtain w3 f where b: "bootstrapCSRFToken w2 = (w3, Inr f)" "sends w2 [csrf_request] w3"
    using bootstrap_sends by blast
  have s3: "wd_server w3 = srv" using b(2) s2 by (simp add: sends_def)
  obtain w4 r' where r': "send (?req f) w3 = (w4, r')" by fastforce
  have "res = res1 \<or> r' = Inr res"
    using res unfolding run by (auto simp: bind_io_def return_io_def r res1 b r' redirect_on_401_def split: if_splits sum.splits)
  then show ?thesis using no1 send_unrouted [OF s3 nr] r' by blast
qed

lemma fetchJSON_unrouted:
  assumes "wd_server w = srv" "\<not> has_route (nullish (ri_method init) ''GET'') url"
  shows "\<exists>e. snd (fetchJSON url init w) = Inl e"
proof -
  obtain w' r where r: "authFetch url (with_content_type init) w = (w', r)" by fastforce
  have m: "ri_method (with_content_type init) = ri_method init" by (simp add: with_content_type_def)
  have "\<not> ok res" if "r = Inr res" for res
    using authFetch_unrouted [OF assms(1), of "with_content_type init" url w' res] assms(2) r that m by simp
  then show ?thesis by (cases r) (auto simp: fetchJSON_def io_defs r)
qed

lemma fetchJSON_unrouted_void:
  assumes "wd_server w = srv" "\<not> has_route (nullish (ri_method init) ''GET'') url"
  shows "\<exists>e. snd (bind_io (fetchJSON url init) f w) = Inl e"
  using fetchJSON_unrouted [OF assms] by (cases "fetchJSON url init w") (auto simp: bind_io_def)

end

definition has_v1_route :: "string \<Rightarrow> string \<Rightarrow> bool" where
  "has_v1_route m u \<longleftrightarrow> starts_with ''/api/v1/'' u \<longrightarrow> v1_routed m u"

lemma v1_path_not_csrf: "starts_with ''/api/v1/'' u \<Longrightarrow> url_path u \<noteq> ''/api/auth/csrf''"
  by (auto simp: starts_with_iff url_path_def)

interpretation v1: routed_server "goServer rnd (v1_router handlers)" has_v1_route for rnd handlers
proof
  fix q j lg r
  assume no: "\<not> has_v1_route (rq_method q) (rq_url q)"
    and r: "rp_response (goServer rnd (v1_router handlers) j lg q) = Some r"
  have "\<not> ok x" if "rp_response (v1_router handlers j lg q) = Some x" for x
    using no that by (auto simp: has_v1_route_def v1_router_def error_reply_def ok_def split: if_splits)
  then show "\<not> ok r" using r no v1_path_not_csrf [of "rq_url q"]
    by (auto simp: goServer_def CSRFMiddleware_def has_v1_route_def error_reply_def ok_def Let_def split: if_splits)
qed


section \<open>Paths of calls\<close>

definition plain_id :: "string \<Rightarrow> bool" where
  "plain_id i \<longleftrightarrow> CHR ''/'' \<notin> set i \<and> CHR ''?'' \<notin> set i"

lemma plain_path:
  assumes "plain_id i"
  shows "takeWhile (\<lambda>c. c \<noteq> CHR ''?'') (i @ s) = i @ takeWhile (\<lambda>c. c \<noteq> CHR ''?'') s"
    and "takeWhile (\<lambda>c. c \<noteq> CHR ''?'') i = i"
  using assms by (auto simp: plain_id_def takeWhile_append2 intro!: takeWhile_append2 takeWhile_eq_all_conv [THEN iffD2])

lemma plain_split:
  assumes "plain_id i"
  shows "split_at_char (CHR ''/'') (i @ CHR ''/'' # s) = i # split_at_char (CHR ''/'') s"
    and "split_at_char (CHR ''/'') i = [i]"
  using assms by (auto simp: plain_id_def split_at_char_append split_at_char_no_sep)

lemmas route_simps = v1_routed_def v1_segments_def url_path_def plain_path plain_split v1_routes_def has_v1_route_def

lemmas init_simps = no_init_def get_init_def body_init_def bare_init_def nullish_def

text \<open>A call asks for one method and address: it sends such a request, and nothing else but the token request.\<close>

definition asks :: "'a io \<Rightarrow> string \<Rightarrow> string \<Rightarrow> bool" where
  "asks f m u \<longleftrightarrow> (\<forall>w. \<exists>qs. wd_log (fst (f w)) = wd_log w @ qs \<and> (\<exists>q\<in>set qs. rq_method q = m \<and> rq_url q = u) \<and>
     (\<forall>q\<in>set qs. q = csrf_request \<or> rq_method q = m \<and> rq_url q = u))"

lemma authFetch_asks:
  "\<exists>qs. wd_log (fst (authFetch url init w)) = wd_log w @ qs \<and>
     (\<exists>q\<in>set qs. rq_method q = nullish (ri_method init) ''GET'' \<and> rq_url q = url) \<and>
     (\<forall>q\<in>set qs. q = csrf_request \<or> rq_method q = nullish (ri_method init) ''GET'' \<and> rq_url q = url)"
proof -
  obtain toks sent w2 r where s: "sends w sent w2" "1 \<le> length toks"
    "filter (\<lambda>q. q \<noteq> csrf_request \<or> \<not> isMutation init) sent = map (build_request url init) toks"
    "authFetch url init w = (case r of Inl e \<Rightarrow> (w2, Inl e) | Inr res \<Rightarrow> redirect_on_401 res w2)"
    by (rule authFetch_sends)
  have req: "\<exists>t. q = build_request url init t" if "q \<in> set sent" "q \<noteq> csrf_request" for q
  proof -
    have "q \<in> set (map (build_request url init) toks)" using that by (simp flip: s(3))
    then show ?thesis by auto
  qed
  obtain t where "t \<in> set toks" using s(2) by (cases toks) auto
  then have "build_request url init t \<in> set (filter (\<lambda>q. q \<noteq> csrf_request \<or> \<not> isMutation init) sent)" unfolding s(3) by simp
  then have "build_request url init t \<in> set sent" by simp
  moreover have "wd_log (fst (authFetch url init w)) = wd_log w @ sent"
    using s(1,4) by (cases r) (auto simp: sends_def redirect_on_401_def)
  moreover have "rq_method (build_request url init x) = nullish (ri_method init) ''GET''" "rq_url (build_request url init x) = url" for x
    by (simp_all add: build_request_def)
  ultimately show ?thesis using req by (intro exI [of _ sent]) metis
qed

lemma fetchJSON_asks: "asks (fetchJSON url init) (nullish (ri_method init) ''GET'') url"
proof -
  have log: "wd_log (fst (fetchJSON url init w)) = wd_log (fst (authFetch url (with_content_type init) w))" for w
    by (cases "authFetch url (with_content_type init) w")
       (auto simp: fetchJSON_def io_defs res_json_def split: sum.split option.split)
  have m: "ri_method (with_content_type init) = ri_method init" by (simp add: with_content_type_def)
  show ?thesis unfolding asks_def log using authFetch_asks [of url "with_content_type init"] unfolding m by blast
qed

lemma asks_void: "asks f m u \<Longrightarrow> asks (bind_io f (\<lambda>_. return_io ())) m u"
proof -
  have "fst (bind_io f (\<lambda>_. return_io ()) w) = fst (f w)" for w
    by (cases "f w") (auto simp: bind_io_def return_io_def split: sum.split)
  then show "asks f m u \<Longrightarrow> ?thesis" by (simp add: asks_def)
qed

lemma get_asks: "asks (fetchJSON url no_init) ''GET'' url"
  using fetchJSON_asks [of url no_init] by (simp add: init_simps)

lemma bare_asks: "asks (fetchJSON url (bare_init m)) m url"
  using fetchJSON_asks [of url "bare_init m"] by (simp add: init_simps)

lemma body_asks: "asks (fetchJSON url (body_init m j)) m url"
  using fetchJSON_asks [of url "body_init m j"] by (simp add: init_simps)

section \<open>Properties\<close>

definition fails :: "'a io \<Rightarrow> World \<Rightarrow> bool" where
  "fails f w \<longleftrightarrow> (\<exists>e. snd (f w) = Inl e)"

lemma get_unrouted:
  "wd_server w = goServer rnd (v1_router handlers) \<Longrightarrow> \<not> has_v1_route ''GET'' url \<Longrightarrow> fails (fetchJSON url no_init) w"
  using v1.fetchJSON_unrouted [of w rnd handlers no_init url] by (simp add: fails_def init_simps)

lemma mutation_unrouted:
  assumes "wd_server w = goServer rnd (v1_router handlers)" "\<not> has_v1_route m url"
  shows "fails (fetchJSON url (body_init m j)) w" "fails (fetchJSON url (bare_init m)) w"
    "fails (bind_io (fetchJSON url (body_init m j)) f) w" "fails (bind_io (fetchJSON url (bare_init m)) f) w"
  using assms(2) v1.fetchJSON_unrouted [OF assms(1), of "body_init m j" url] v1.fetchJSON_unrouted [OF assms(1), of "bare_init m" url]
    v1.fetchJSON_unrouted_void [OF assms(1), of "body_init m j" url f] v1.fetchJSON_unrouted_void [OF assms(1), of "bare_init m" url f]
  by (simp_all add: fails_def init_simps)

text \<open>Twenty-two calls of the platform client have no route: against the server's router, whatever its handlers
  do, each of them fails. Among them are everything the site map, the notification rules, the
  integrations, the scheduled reports and the operator presence are made of, claiming and releasing an
  alert, locking a site, and accepting a shift handoff.\<close>

theorem unserved_calls_fail:
  assumes "wd_server w = goServer rnd (v1_router handlers)" "plain_id i" "site_id_of rule = i"
  shows "fails (getSiteCompliance i) w \<and> fails (getCompany i) w \<and> fails (getCameraAssignments i) w \<and>
    fails (api_lockSite i) w \<and> fails (api_unlockSite i) w \<and> fails (api_claimAlert i op) w \<and> fails (api_releaseAlert i) w \<and>
    fails (getSiteMap i) w \<and> fails (updateSiteMap i data) w \<and> fails (getExclusionZones i) w \<and>
    fails (acceptHandoff i) w \<and> fails getOperatorPresence w \<and> fails (updatePresence data) w \<and> fails getOperatorMetrics w \<and>
    fails getScheduledReports w \<and> fails (toggleScheduledReport i on_off) w \<and>
    fails (getNotificationRules i) w \<and> fails (createNotificationRule rule) w \<and> fails (deleteNotificationRule i) w \<and>
    fails getIntegrations w \<and> fails (toggleIntegration i on_off) w \<and> fails (deleteIntegration i) w"
  unfolding getSiteCompliance_def getCompany_def getCameraAssignments_def api_lockSite_def api_unlockSite_def api_claimAlert_def
    api_releaseAlert_def getSiteMap_def updateSiteMap_def getExclusionZones_def acceptHandoff_def getOperatorPresence_def
    updatePresence_def getOperatorMetrics_def getScheduledReports_def toggleScheduledReport_def getNotificationRules_def
    createNotificationRule_def deleteNotificationRule_def getIntegrations_def toggleIntegration_def deleteIntegration_def assms(3)
  by (intro conjI get_unrouted [OF assms(1)] mutation_unrouted [OF assms(1)]; simp add: route_simps assms(2))

theorem unserved_calls_fail_witness:
  "fails (getSiteMap ''ACG-101'') (fixture_world\<lparr>wd_server := goServer (\<lambda>_ _. 0xAB) (v1_router fixture_api)\<rparr>) \<and>
   fails (api_claimAlert ''al-1'' ''op-1'') (fixture_world\<lparr>wd_server := goServer (\<lambda>_ _. 0xAB) (v1_router fixture_api)\<rparr>)"
  using unserved_calls_fail [of "fixture_world\<lparr>wd_server := goServer (\<lambda>_ _. 0xAB) (v1_router fixture_api)\<rparr>" "\<lambda>_ _. 0xAB" fixture_api
      "''ACG-101''" "JObj [(''site_id'', JStr ''ACG-101'')]"]
    unserved_calls_fail [of "fixture_world\<lparr>wd_server := goServer (\<lambda>_ _. 0xAB) (v1_router fixture_api)\<rparr>" "\<lambda>_ _. 0xAB" fixture_api
      "''al-1''" "JObj [(''site_id'', JStr ''al-1'')]" "''op-1''"]
  by (simp add: plain_id_def site_id_of_def json_field_def)

definition served :: "'a io \<Rightarrow> bool" where
  "served f \<longleftrightarrow> (\<exists>m u. asks f m u \<and> starts_with ''/api/v1/'' u \<and> v1_routed m u)"

lemma served_get: "starts_with ''/api/v1/'' u \<Longrightarrow> v1_routed ''GET'' u \<Longrightarrow> served (fetchJSON u no_init)"
  using get_asks by (auto simp: served_def)

lemma served_body:
  assumes "starts_with ''/api/v1/'' u" "v1_routed m u"
  shows "served (fetchJSON u (body_init m j))" "served (bind_io (fetchJSON u (body_init m j)) (\<lambda>_. return_io ()))"
  using assms body_asks asks_void [OF body_asks] unfolding served_def by blast+

lemma served_bare:
  assumes "starts_with ''/api/v1/'' u" "v1_routed m u"
  shows "served (bind_io (fetchJSON u (bare_init m)) (\<lambda>_. return_io ()))"
  using assms asks_void [OF bare_asks] unfolding served_def by blast

text \<open>The other calls of the client below \<^verbatim>\<open>/api/v1\<close> reach a route: each of them sends its request, and nothing but the token
  request besides, with a method and an address the router knows.\<close>

theorem served_calls_routed:
  assumes "plain_id i" "plain_id j" "site_id_of sop = i"
  shows "served getSites \<and> served (getSite i) \<and> served (getSiteCameras i) \<and> served (createSite data) \<and> served (updateSite i data) \<and>
    served (deleteSite i) \<and> served getCompanies \<and> served (createCompany data) \<and> served (getCompanyUsers i) \<and>
    served (assignCameraToSite i c l) \<and> served (unassignCamera i j) \<and> served getAllSpeakers \<and>
    served (assignSpeakerToSite i c l) \<and> served (unassignSpeaker i j) \<and> served getSiteLocks \<and>
    served (getSiteSOPs i) \<and> served (createSiteSOP sop) \<and> served (updateSiteSOP i data) \<and> served (deleteSiteSOP i) \<and>
    served (getIncidents f) \<and> served (getIncident i) \<and> served (getIncidentDetail i) \<and> served getActiveIncidents \<and>
    served (getPortalSummary days) \<and> served (getAlerts g) \<and> served (getPendingHandoffs op) \<and> served (createHandoff data) \<and>
    served (createSecurityEvent data) \<and> served (listSecurityEvents op) \<and> served (escalateAlarm i level) \<and> served (submitAIFeedback i agreed)"
  unfolding getSites_def getSite_def getSiteCameras_def createSite_def updateSite_def deleteSite_def getCompanies_def createCompany_def
    getCompanyUsers_def assignCameraToSite_def unassignCamera_def getAllSpeakers_def assignSpeakerToSite_def unassignSpeaker_def
    getSiteLocks_def getSiteSOPs_def createSiteSOP_def updateSiteSOP_def deleteSiteSOP_def getIncidents_def getIncident_def
    getIncidentDetail_def getActiveIncidents_def getPortalSummary_def getAlerts_def getPendingHandoffs_def createHandoff_def
    createSecurityEvent_def listSecurityEvents_def escalateAlarm_def submitAIFeedback_def assms(3)
  by (intro conjI served_get served_body served_bare; simp add: route_simps assms(1,2))

theorem served_calls_routed_witness: "served (updateSite ''ACG-101'' (JObj []))"
  using served_calls_routed [of "''ACG-101''" "''c1''" "JObj [(''site_id'', JStr ''ACG-101'')]" "JObj []"]
  by (simp add: plain_id_def site_id_of_def json_field_def)

text \<open>Search suggestions have no route either; the call falls back to its built-in list.\<close>

lemma suggestions_built_in:
  assumes "wd_server w = goServer rnd (v1_router handlers)"
  shows "fails (fetchJSON (''/api/v1/search/suggest?q='' @ encodeURIComponent q) no_init) w"
  by (rule get_unrouted [OF assms]) (simp add: route_simps)

end
