(* ===== verification/Site_Admin.thy ===== *)
theory Site_Admin
  imports Site_Schedule Camera_Registry
begin

text \<open>
  The other tabs of a site's configuration (\<^verbatim>\<open>components/admin\<close>): procedures (\<^verbatim>\<open>SiteSOPModal.tsx\<close>), user access
  (\<^verbatim>\<open>CustomerAccessModal.tsx\<close>), the site form (\<^verbatim>\<open>CreateSiteModal.tsx\<close>), device assignment (\<^verbatim>\<open>AssignCameraModal.tsx\<close>)
  and the archive and delete tab (\<^verbatim>\<open>SiteConfigModal.tsx\<close>), with the server's handlers for a site and for a user's profile.
  Shown: editing a procedure or a site without changing anything keeps it, toggling access changes
  exactly the one site, and archiving reports success although no site is ever archived.
\<close>

section \<open>Standard procedures\<close>

text \<open>A procedure; the server sends every field, \<open>None\<close> are contacts sent as \<^verbatim>\<open>null\<close>.\<close>

record SiteSOP =
  sop_id :: id
  sop_site_id :: id
  sop_title :: string
  sop_category :: string
  sop_priority :: string
  sop_steps :: "string list"
  sop_contacts :: "json list option"
  sop_updated_at :: string
  sop_updated_by :: string

definition str_field :: "string \<Rightarrow> json \<Rightarrow> string \<Rightarrow> string" where
  "str_field k j d = (case json_field k j of Some (JStr s) \<Rightarrow> s | _ \<Rightarrow> d)"

definition str_items :: "json option \<Rightarrow> string list" where
  "str_items v = (case v of Some (JArr xs) \<Rightarrow> List.map_filter (\<lambda>x. case x of JStr s \<Rightarrow> Some s | _ \<Rightarrow> None) xs | _ \<Rightarrow> [])"

definition sop_of :: "json \<Rightarrow> SiteSOP" where
  "sop_of j = \<lparr>sop_id = str_field ''id'' j [], sop_site_id = str_field ''site_id'' j [], sop_title = str_field ''title'' j [],
     sop_category = str_field ''category'' j [], sop_priority = str_field ''priority'' j [], sop_steps = str_items (json_field ''steps'' j),
     sop_contacts = (case json_field ''contacts'' j of Some (JArr cs) \<Rightarrow> Some cs | _ \<Rightarrow> None),
     sop_updated_at = str_field ''updated_at'' j [], sop_updated_by = str_field ''updated_by'' j []\<rparr>"

definition sops_of :: "json option \<Rightarrow> SiteSOP list" where
  "sops_of r = (case r of Some (JArr xs) \<Rightarrow> map sop_of xs | _ \<Rightarrow> [])"

record SopModal =
  so_sops :: "SiteSOP list"
  so_loading :: bool
  so_expanded :: "id option"
  so_showAdd :: bool
  so_editing :: "id option"
  newTitle :: string
  newCategory :: string
  newPriority :: string
  newSteps :: string
  editTitle :: string
  editCategory :: string
  editPriority :: string
  editSteps :: string

definition initial_sops :: SopModal where
  "initial_sops = \<lparr>so_sops = [], so_loading = True, so_expanded = None, so_showAdd = False, so_editing = None,
     newTitle = [], newCategory = ''safety'', newPriority = ''normal'', newSteps = [],
     editTitle = [], editCategory = ''safety'', editPriority = ''normal'', editSteps = []\<rparr>"

text \<open>The load has no handler for a failure.\<close>

definition load_sops :: "id \<Rightarrow> SopModal \<Rightarrow> World \<Rightarrow> World \<times> SopModal" where
  "load_sops siteId m w = (case getSiteSOPs siteId w of
     (w', Inl e) \<Rightarrow> (w', m)
   | (w', Inr data) \<Rightarrow> (w', m\<lparr>so_sops := sops_of data, so_loading := False\<rparr>))"

abbreviation newline :: char where
  "newline \<equiv> CHR 0x0A"

definition step_lines :: "string \<Rightarrow> string list" where
  "step_lines s = filter (\<lambda>l. js_trim l \<noteq> []) (split_at_char newline s)"

definition add_body :: "id \<Rightarrow> SopModal \<Rightarrow> json" where
  "add_body siteId m = JObj [(''site_id'', JStr siteId), (''title'', JStr (js_trim (newTitle m))), (''category'', JStr (newCategory m)),
     (''priority'', JStr (newPriority m)), (''steps'', JArr (map JStr (step_lines (newSteps m)))), (''contacts'', JArr []),
     (''updated_by'', JStr ''Admin'')]"

definition handleAddSOP :: "id \<Rightarrow> SopModal \<Rightarrow> World \<Rightarrow> World \<times> SopModal" where
  "handleAddSOP siteId m w =
     (if js_trim (newTitle m) = [] then (w, m)
      else (case createSiteSOP (add_body siteId m) w of
          (w', Inl e) \<Rightarrow> (w', m)
        | (w', Inr result) \<Rightarrow>
            (w', m\<lparr>so_sops := so_sops m @ [sop_of (nullish result JNull)], so_showAdd := False, newTitle := [], newSteps := []\<rparr>)))"

definition handleDeleteSOP :: "id \<Rightarrow> SopModal \<Rightarrow> World \<Rightarrow> World \<times> SopModal" where
  "handleDeleteSOP sopId m w = (case deleteSiteSOP sopId w of
     (w', Inl e) \<Rightarrow> (w', m)
   | (w', Inr _) \<Rightarrow> (w', m\<lparr>so_sops := filter (\<lambda>s. sop_id s \<noteq> sopId) (so_sops m)\<rparr>))"

definition startEdit :: "SiteSOP \<Rightarrow> SopModal \<Rightarrow> SopModal" where
  "startEdit sop m = m\<lparr>so_editing := Some (sop_id sop), editTitle := sop_title sop, editCategory := sop_category sop,
     editPriority := sop_priority sop, editSteps := join [newline] (sop_steps sop), so_expanded := Some (sop_id sop)\<rparr>"

definition edit_body :: "id \<Rightarrow> SopModal \<Rightarrow> json" where
  "edit_body sopId m = JObj [(''title'', JStr (editTitle m)), (''category'', JStr (editCategory m)), (''priority'', JStr (editPriority m)),
     (''steps'', JArr (map JStr (step_lines (editSteps m)))),
     (''contacts'', JArr (nullish (Option.bind (List.find (\<lambda>s. sop_id s = sopId) (so_sops m)) sop_contacts) [])),
     (''updated_by'', JStr ''Admin'')]"

definition edited :: "string \<Rightarrow> SopModal \<Rightarrow> SiteSOP \<Rightarrow> SiteSOP" where
  "edited now m s = s\<lparr>sop_title := editTitle m, sop_category := editCategory m, sop_priority := editPriority m,
     sop_steps := step_lines (editSteps m), sop_updated_at := now\<rparr>"

definition handleSaveEdit :: "string \<Rightarrow> id \<Rightarrow> SopModal \<Rightarrow> World \<Rightarrow> World \<times> SopModal" where
  "handleSaveEdit now sopId m w = (case updateSiteSOP sopId (edit_body sopId m) w of
     (w', Inl e) \<Rightarrow> (w', m)
   | (w', Inr _) \<Rightarrow>
       (w', m\<lparr>so_sops := map (\<lambda>s. if sop_id s = sopId then edited now m s else s) (so_sops m), so_editing := None\<rparr>))"

text \<open>The procedures by category, categories in order of their first procedure.\<close>

definition grouped_sops :: "SiteSOP list \<Rightarrow> (string \<times> SiteSOP list) list" where
  "grouped_sops ss = foldl (\<lambda>m s. map_put (sop_category s, nullish (map_of m (sop_category s)) [] @ [s]) m) [] ss"

section \<open>User access\<close>

record UserPublic =
  us_id :: id
  us_username :: string
  us_role :: string
  us_display_name :: string
  us_email :: string
  us_phone :: string
  us_organization_id :: "id option"
  us_assigned_site_ids :: "id list option"

definition assigned_sites :: "UserPublic \<Rightarrow> id list" where
  "assigned_sites u = nullish (us_assigned_site_ids u) []"

record AccessModal =
  am_users :: "UserPublic list"
  am_loading :: bool
  am_loadError :: "string option"
  am_saveError :: "string option"
  am_savingUserId :: "id option"

definition initial_access :: AccessModal where
  "initial_access = \<lparr>am_users = [], am_loading = True, am_loadError = None, am_saveError = None, am_savingUserId = None\<rparr>"

definition user_of_json :: "json \<Rightarrow> UserPublic" where
  "user_of_json j = \<lparr>us_id = str_field ''id'' j [], us_username = str_field ''username'' j [], us_role = str_field ''role'' j [],
     us_display_name = str_field ''display_name'' j [], us_email = str_field ''email'' j [], us_phone = str_field ''phone'' j [],
     us_organization_id = (case json_field ''organization_id'' j of Some (JStr s) \<Rightarrow> Some s | _ \<Rightarrow> None),
     us_assigned_site_ids = (case json_field ''assigned_site_ids'' j of Some (JArr xs) \<Rightarrow> Some (str_items (Some (JArr xs))) | _ \<Rightarrow> None)\<rparr>"

definition load_users :: "bool \<Rightarrow> AccessModal \<Rightarrow> World \<Rightarrow> World \<times> AccessModal" where
  "load_users cancelled m w =
     (let m = m\<lparr>am_loading := True, am_loadError := None\<rparr> in
      (case listUsers w of
         (w', r) \<Rightarrow> (w', if cancelled then m else (case r of
             Inl (Error e) \<Rightarrow> m\<lparr>am_loadError := Some e, am_loading := False\<rparr>
           | Inr j \<Rightarrow> m\<lparr>am_users := (case j of JArr us \<Rightarrow> map user_of_json us | _ \<Rightarrow> []), am_loading := False\<rparr>))))"

definition relevantUsers :: "id option \<Rightarrow> id \<Rightarrow> UserPublic list \<Rightarrow> UserPublic list" where
  "relevantUsers companyId siteId users = filter (\<lambda>u. truthy_str companyId \<and> us_organization_id u = companyId \<or>
     siteId \<in> set (assigned_sites u)) users"

definition assignedUsers :: "id option \<Rightarrow> id \<Rightarrow> UserPublic list \<Rightarrow> UserPublic list" where
  "assignedUsers companyId siteId users = filter (\<lambda>u. siteId \<in> set (assigned_sites u)) (relevantUsers companyId siteId users)"

definition availableUsers :: "id option \<Rightarrow> id \<Rightarrow> UserPublic list \<Rightarrow> UserPublic list" where
  "availableUsers companyId siteId users = filter (\<lambda>u. siteId \<notin> set (assigned_sites u)) (relevantUsers companyId siteId users)"

definition toggled_sites :: "id \<Rightarrow> UserPublic \<Rightarrow> id list" where
  "toggled_sites siteId u = (let current = assigned_sites u in
     if siteId \<in> set current then filter (\<lambda>i. i \<noteq> siteId) current else current @ [siteId])"

definition toggle_body :: "id \<Rightarrow> UserPublic \<Rightarrow> json" where
  "toggle_body siteId u = JObj [(''organization_id'', JStr (nullish (us_organization_id u) [])),
     (''assigned_site_ids'', JArr (map JStr (toggled_sites siteId u)))]"

definition access_handleToggle :: "id \<Rightarrow> UserPublic \<Rightarrow> AccessModal \<Rightarrow> World \<Rightarrow> World \<times> AccessModal" where
  "access_handleToggle siteId user m w =
     (let m = m\<lparr>am_saveError := None\<rparr> in
      (case updateUserProfile (us_id user) (toggle_body siteId user) w of
         (w', Inl (Error e)) \<Rightarrow> (w', m\<lparr>am_saveError := Some e, am_savingUserId := None\<rparr>)
       | (w', Inr j) \<Rightarrow>
           (let updated = user_of_json j in
            (w', m\<lparr>am_users := map (\<lambda>u. if us_id u = us_id updated then updated else u) (am_users m), am_savingUserId := None\<rparr>))))"

text \<open>The server: a user's row, \<open>None\<close> a null organisation. Only an administrator or the user may write.\<close>

definition nullableStr :: "string \<Rightarrow> string option" where
  "nullableStr s = (if s = [] then None else Some s)"

record UserProfileUpdate =
  up_DisplayName :: "string option"
  up_Email :: "string option"
  up_Phone :: "string option"
  up_OrganizationID :: "string option"
  up_AssignedSiteIDs :: "string list"

definition go_ptr_string :: "json option \<Rightarrow> string option option" where
  "go_ptr_string v = (case v of None \<Rightarrow> Some None | Some JNull \<Rightarrow> Some None | Some (JStr s) \<Rightarrow> Some (Some s) | _ \<Rightarrow> None)"

definition go_strings :: "json option \<Rightarrow> string list option" where
  "go_strings v = (case v of None \<Rightarrow> Some [] | Some JNull \<Rightarrow> Some []
     | Some (JArr xs) \<Rightarrow> those (map (\<lambda>x. go_string (Some x)) xs) | _ \<Rightarrow> None)"

definition decode_profile :: "json \<Rightarrow> UserProfileUpdate option" where
  "decode_profile j =
     Option.bind (go_object j) (\<lambda>b.
     Option.bind (go_ptr_string (json_field ''display_name'' b)) (\<lambda>dn.
     Option.bind (go_ptr_string (json_field ''email'' b)) (\<lambda>em.
     Option.bind (go_ptr_string (json_field ''phone'' b)) (\<lambda>ph.
     Option.bind (go_ptr_string (json_field ''organization_id'' b)) (\<lambda>og.
     Option.bind (go_strings (json_field ''assigned_site_ids'' b)) (\<lambda>ss.
       Some \<lparr>up_DisplayName = dn, up_Email = em, up_Phone = ph, up_OrganizationID = og, up_AssignedSiteIDs = ss\<rparr>))))))"

definition UpdateUserProfile :: "UserProfileUpdate \<Rightarrow> UserPublic \<Rightarrow> UserPublic" where
  "UpdateUserProfile u r = r\<lparr>us_display_name := nullish (up_DisplayName u) (us_display_name r), us_email := nullish (up_Email u) (us_email r),
     us_phone := nullish (up_Phone u) (us_phone r), us_organization_id := nullableStr (nullish (up_OrganizationID u) []),
     us_assigned_site_ids := Some (up_AssignedSiteIDs u)\<rparr>"

text \<open>The claims are role and user id; the database accepts the write and the row still exists.\<close>

definition HandleUpdateUserProfile :: "(string \<times> id) option \<Rightarrow> json \<Rightarrow> UserPublic \<Rightarrow> (nat \<times> string) + UserPublic" where
  "HandleUpdateUserProfile claims body row = (case claims of
     None \<Rightarrow> Inl (401, ''unauthorized'')
   | Some (role, uid) \<Rightarrow>
       if role \<noteq> ''admin'' \<and> us_id row \<noteq> uid then Inl (403, ''forbidden'')
       else (case decode_profile body of
           None \<Rightarrow> Inl (400, ''invalid request body'')
         | Some u \<Rightarrow> Inr (UpdateUserProfile u row)))"

section \<open>The site form\<close>

record SiteForm =
  sf_name :: string
  sf_street :: string
  sf_city :: string
  sf_state :: string
  sf_zip :: string
  sf_companyId :: string
  sf_latitude :: string
  sf_longitude :: string
  sf_featureMode :: string
  sf_riskTier :: string
  sf_industry :: string
  sf_hazards :: string
  sf_contactName :: string
  sf_contactPhone :: string
  sf_contactEmail :: string
  sf_slaAckMinutes :: string
  sf_slaResolveMinutes :: string
  sf_escalationContact :: string
  sf_escalationPhone :: string

definition blank_form :: SiteForm where
  "blank_form = \<lparr>sf_name = [], sf_street = [], sf_city = [], sf_state = [], sf_zip = [], sf_companyId = [], sf_latitude = [],
     sf_longitude = [], sf_featureMode = ''security_and_safety'', sf_riskTier = ''medium'', sf_industry = [], sf_hazards = [],
     sf_contactName = [], sf_contactPhone = [], sf_contactEmail = [], sf_slaAckMinutes = ''5'', sf_slaResolveMinutes = ''30'',
     sf_escalationContact = [], sf_escalationPhone = []\<rparr>"

text \<open>The effect that fills the form from the site being edited; text fields are sent as strings, coordinates as numbers.\<close>

definition num_field :: "(number \<Rightarrow> string) \<Rightarrow> string \<Rightarrow> json \<Rightarrow> string \<Rightarrow> string" where
  "num_field fractx k j d = (case json_field k j of Some (JNum n) \<Rightarrow> if n \<noteq> 0 then num_text fractx n else d | _ \<Rightarrow> d)"

definition set_str_field :: "string \<Rightarrow> json \<Rightarrow> string \<Rightarrow> string" where
  "set_str_field k j cur = (let s = str_field k j [] in if s \<noteq> [] then s else cur)"

definition prefill :: "(number \<Rightarrow> string) \<Rightarrow> json \<Rightarrow> SiteForm \<Rightarrow> SiteForm" where
  "prefill fractx site f =
     (let f = f\<lparr>sf_name := str_field ''name'' site [], sf_street := str_field ''address'' site [],
            sf_companyId := str_field ''company_id'' site [],
            sf_latitude := num_field fractx ''latitude'' site (sf_latitude f),
            sf_longitude := num_field fractx ''longitude'' site (sf_longitude f),
            sf_featureMode := str_field ''feature_mode'' site ''security_and_safety'',
            sf_riskTier := set_str_field ''risk_tier'' site (sf_riskTier f),
            sf_industry := set_str_field ''industry'' site (sf_industry f),
            sf_hazards := set_str_field ''hazards'' site (sf_hazards f)\<rparr>;
          f = (case json_field ''site_contact'' site of
              Some sc \<Rightarrow> if truthy_json sc
                then f\<lparr>sf_contactName := str_field ''name'' sc [], sf_contactPhone := str_field ''phone'' sc [],
                       sf_contactEmail := str_field ''email'' sc []\<rparr> else f
            | None \<Rightarrow> f) in
      (case json_field ''escalation_policy'' site of
         Some ep \<Rightarrow> if truthy_json ep
           then f\<lparr>sf_slaAckMinutes := num_field fractx ''sla_ack_minutes'' ep ''5'',
                  sf_slaResolveMinutes := num_field fractx ''sla_resolve_minutes'' ep ''30'',
                  sf_escalationContact := str_field ''escalation_contact'' ep [],
                  sf_escalationPhone := str_field ''escalation_phone'' ep []\<rparr> else f
       | None \<Rightarrow> f))"

definition fullAddress :: "SiteForm \<Rightarrow> string" where
  "fullAddress f = join '', '' (filter (\<lambda>s. s \<noteq> []) [sf_street f, sf_city f, sf_state f, sf_zip f])"

text \<open>\<^verbatim>\<open>parseFloat\<close> and \<^verbatim>\<open>parseInt\<close> on the value of a number control; \<open>None\<close> is NaN.\<close>

definition split_sign :: "string \<Rightarrow> bool \<times> string" where
  "split_sign s = (case dropWhile is_ws s of
     [] \<Rightarrow> (False, []) | c # t \<Rightarrow> if c = CHR ''-'' then (True, t) else if c = CHR ''+'' then (False, t) else (False, c # t))"

definition parseFloat :: "string \<Rightarrow> number option" where
  "parseFloat s =
     (let (neg, u) = split_sign s;
          ds = takeWhile is_digit u; r1 = dropWhile is_digit u;
          fs = (case r1 of c # t \<Rightarrow> if c = CHR ''.'' then takeWhile is_digit t else [] | [] \<Rightarrow> []);
          r2 = (case r1 of c # t \<Rightarrow> if c = CHR ''.'' then dropWhile is_digit t else r1 | [] \<Rightarrow> []);
          e = (case parse_exp r2 of Some (e, _) \<Rightarrow> e | None \<Rightarrow> 0);
          v = (of_nat (dec_val ds) + of_nat (dec_val fs) / 10 ^ length fs) * (if e \<ge> 0 then 10 ^ nat e else 1 / 10 ^ nat (- e)) in
      if ds = [] \<and> fs = [] then None else Some (if neg then - v else v))"

definition parseInt :: "string \<Rightarrow> int option" where
  "parseInt s = (let (neg, u) = split_sign s; ds = takeWhile is_digit u in
     if ds = [] then None else Some (if neg then - int (dec_val ds) else int (dec_val ds)))"

definition int_or :: "int option \<Rightarrow> int \<Rightarrow> json" where
  "int_or v d = JNum (of_int (case v of Some n \<Rightarrow> if n = 0 then d else n | None \<Rightarrow> d))"

text \<open>Members that are \<^verbatim>\<open>undefined\<close> are left out of the JSON text; NaN becomes \<^verbatim>\<open>null\<close>.\<close>

definition opt_str :: "string \<Rightarrow> string \<Rightarrow> (string \<times> json) list" where
  "opt_str k s = (if s = [] then [] else [(k, JStr s)])"

definition opt_num :: "string \<Rightarrow> string \<Rightarrow> (string \<times> json) list" where
  "opt_num k s = (if s = [] then [] else [(k, case parseFloat s of Some x \<Rightarrow> JNum x | None \<Rightarrow> JNull)])"

definition site_payload :: "SiteForm \<Rightarrow> json" where
  "site_payload f = JObj
     ([(''name'', JStr (js_trim (sf_name f))), (''address'', JStr (fullAddress f)), (''company_id'', JStr (sf_companyId f))] @
      opt_num ''latitude'' (sf_latitude f) @ opt_num ''longitude'' (sf_longitude f) @
      [(''feature_mode'', JStr (sf_featureMode f)), (''risk_tier'', JStr (sf_riskTier f))] @
      opt_str ''industry'' (sf_industry f) @ opt_str ''hazards'' (js_trim (sf_hazards f)) @
      (if sf_contactName f \<noteq> [] \<or> sf_contactPhone f \<noteq> [] \<or> sf_contactEmail f \<noteq> []
       then [(''site_contact'', JObj [(''name'', JStr (js_trim (sf_contactName f))), (''phone'', JStr (js_trim (sf_contactPhone f))),
               (''email'', JStr (js_trim (sf_contactEmail f)))])] else []) @
      [(''escalation_policy'', JObj ([(''sla_ack_minutes'', int_or (parseInt (sf_slaAckMinutes f)) 5),
          (''sla_resolve_minutes'', int_or (parseInt (sf_slaResolveMinutes f)) 30)] @
          opt_str ''escalation_contact'' (js_trim (sf_escalationContact f)) @
          opt_str ''escalation_phone'' (js_trim (sf_escalationPhone f))))])"

text \<open>Submitting: \<open>True\<close> when the modal closes.\<close>

definition site_handleSubmit :: "id option \<Rightarrow> SiteForm \<Rightarrow> World \<Rightarrow> World \<times> bool" where
  "site_handleSubmit editSiteId f w =
     (if js_trim (sf_name f) = [] \<or> sf_companyId f = [] then (w, False)
      else if truthy_str editSiteId then
        (case useUpdateSite (the editSiteId) (site_payload f) w of
           (w', Inl e, _) \<Rightarrow> (w', False) | (w', Inr _, _) \<Rightarrow> (w', True))
      else
        (case useCreateSite (site_payload f) w of
           (w', Inl e, _) \<Rightarrow> (w', False) | (w', Inr _, _) \<Rightarrow> (w', True)))"

text \<open>
  The server's update of a site: the fields of \<^verbatim>\<open>SiteCreate\<close> and no others; the organisation must exist
  (\<^verbatim>\<open>REFERENCES organizations(id)\<close>).
\<close>

record SiteCreate =
  sc_Name :: string
  sc_Address :: string
  sc_CompanyID :: string
  sc_Latitude :: "number option"
  sc_Longitude :: "number option"
  sc_FeatureMode :: string

definition go_ptr_float :: "json option \<Rightarrow> number option option" where
  "go_ptr_float v = (case v of None \<Rightarrow> Some None | Some JNull \<Rightarrow> Some None | Some (JNum n) \<Rightarrow> Some (Some n) | _ \<Rightarrow> None)"

definition decode_site :: "json \<Rightarrow> SiteCreate option" where
  "decode_site j =
     Option.bind (go_object j) (\<lambda>b.
     Option.bind (go_string (json_field ''name'' b)) (\<lambda>nm.
     Option.bind (go_string (json_field ''address'' b)) (\<lambda>ad.
     Option.bind (go_string (json_field ''company_id'' b)) (\<lambda>co.
     Option.bind (go_ptr_float (json_field ''latitude'' b)) (\<lambda>la.
     Option.bind (go_ptr_float (json_field ''longitude'' b)) (\<lambda>lo.
     Option.bind (go_string (json_field ''feature_mode'' b)) (\<lambda>fm.
       Some \<lparr>sc_Name = nm, sc_Address = ad, sc_CompanyID = co, sc_Latitude = la, sc_Longitude = lo, sc_FeatureMode = fm\<rparr>)))))))"

definition UpdateSite :: "id list \<Rightarrow> SiteCreate \<Rightarrow> SiteRow \<Rightarrow> SiteRow option" where
  "UpdateSite orgs c r =
     (if sc_CompanyID c \<notin> set orgs then None
      else Some (r\<lparr>row_name := sc_Name c, row_address := sc_Address c, row_organization := sc_CompanyID c,
        row_latitude := sc_Latitude c, row_longitude := sc_Longitude c,
        row_feature_mode := (if sc_FeatureMode c = [] then ''security_and_safety'' else sc_FeatureMode c)\<rparr>))"

definition HandleUpdateSite :: "id list \<Rightarrow> string option \<Rightarrow> json \<Rightarrow> SiteRow \<Rightarrow> nat + SiteRow" where
  "HandleUpdateSite orgs role body r =
     (if role \<noteq> Some ''admin'' \<and> role \<noteq> Some ''soc_supervisor'' then Inl 403
      else (case decode_site body of
          None \<Rightarrow> Inl 400
        | Some c \<Rightarrow> (case UpdateSite orgs c r of None \<Rightarrow> Inl 500 | Some r' \<Rightarrow> Inr r')))"

section \<open>Devices of a site\<close>

text \<open>The three lists of a device tab; a device without a site has no or an empty \<^verbatim>\<open>site_id\<close>.\<close>

definition site_of :: "json \<Rightarrow> json option" where
  "site_of c = json_field ''site_id'' c"

definition has_site :: "json \<Rightarrow> bool" where
  "has_site c = (case site_of c of Some s \<Rightarrow> truthy_json s | None \<Rightarrow> False)"

definition assignedHere :: "id \<Rightarrow> json list \<Rightarrow> json list" where
  "assignedHere siteId cs = filter (\<lambda>c. site_of c = Some (JStr siteId)) cs"

definition unassigned :: "json list \<Rightarrow> json list" where
  "unassigned cs = filter (\<lambda>c. \<not> has_site c) cs"

definition elsewhere :: "id \<Rightarrow> json list \<Rightarrow> json list" where
  "elsewhere siteId cs = filter (\<lambda>c. has_site c \<and> site_of c \<noteq> Some (JStr siteId)) cs"

record DeviceTab =
  dv_labels :: "(id \<times> string) list"
  dv_testing :: "id option"
  dv_results :: "(id \<times> bool \<times> string) list"
  dv_error :: "string option"

definition test_request :: "id \<Rightarrow> Request" where
  "test_request camId = \<lparr>rq_method = ''GET'', rq_url = ''/api/cameras/'' @ camId @ ''/vca/snapshot'', rq_headers = [],
     rq_body = No_body, rq_credentials = True\<rparr>"

definition handleTestCamera :: "id \<Rightarrow> DeviceTab \<Rightarrow> World \<Rightarrow> World \<times> DeviceTab" where
  "handleTestCamera camId d w = (case send (test_request camId) w of
     (w', r) \<Rightarrow> (w', d\<lparr>dv_testing := None, dv_results := map_put (camId,
       (case r of
          Inr res \<Rightarrow> if ok res then (True, ''Stream reachable'')
                     else (False, str_or (Some (take 60 (rs_text res))) (''HTTP '' @ nat_str (rs_status res)))
        | Inl (Error m) \<Rightarrow> (False, str_or (Some m) ''Connection failed''))) (dv_results d)\<rparr>))"

definition device_label :: "id \<Rightarrow> DeviceTab \<Rightarrow> string" where
  "device_label i d = nullish (map_of (dv_labels d) i) []"

definition action_outcome :: "string \<Rightarrow> DeviceTab \<Rightarrow> World \<times> 'a result \<times> query_key list \<Rightarrow> World \<times> DeviceTab" where
  "action_outcome what d r = (case r of
     (w', Inl (Error m), _) \<Rightarrow> (w', d\<lparr>dv_error := Some (what @ '' failed: '' @ str_or (Some m) ''unknown error'')\<rparr>)
   | (w', Inr _, _) \<Rightarrow> (w', d\<lparr>dv_error := None\<rparr>))"

definition camera_handleAssign :: "id \<Rightarrow> id \<Rightarrow> DeviceTab \<Rightarrow> World \<Rightarrow> World \<times> DeviceTab" where
  "camera_handleAssign siteId cameraId d w = action_outcome ''Assign'' d (useAssignCamera siteId cameraId (device_label cameraId d) w)"

definition camera_handleUnassign :: "id \<Rightarrow> id \<Rightarrow> DeviceTab \<Rightarrow> World \<Rightarrow> World \<times> DeviceTab" where
  "camera_handleUnassign siteId cameraId d w = action_outcome ''Unassign'' d (useUnassignCamera siteId cameraId w)"

definition camera_handleMove :: "id \<Rightarrow> id \<Rightarrow> DeviceTab \<Rightarrow> World \<Rightarrow> World \<times> DeviceTab" where
  "camera_handleMove siteId cameraId d w = action_outcome ''Move'' d (useAssignCamera siteId cameraId (device_label cameraId d) w)"

text \<open>A speaker is moved by two requests; a failure of either is reported nowhere.\<close>

definition speaker_handleMove :: "id \<Rightarrow> id \<Rightarrow> id \<Rightarrow> DeviceTab \<Rightarrow> World \<Rightarrow> World \<times> unit result" where
  "speaker_handleMove siteId oldSite speakerId d w =
     (case useUnassignSpeaker oldSite speakerId w of
        (w1, Inl e, _) \<Rightarrow> (w1, Inl e)
      | (w1, Inr _, _) \<Rightarrow>
          (case useAssignSpeaker siteId speakerId (device_label speakerId d) w1 of
             (w2, Inl e, _) \<Rightarrow> (w2, Inl e) | (w2, Inr _, _) \<Rightarrow> (w2, Inr ())))"

section \<open>Navigation, archive and delete\<close>

definition NAV :: "(string \<times> string \<times> string) list" where
  "NAV = [(''details'', ''Site Details'', ''General''), (''cameras'', ''Cameras & Devices'', ''Devices''),
     (''speakers'', ''Speakers'', ''Devices''), (''recording'', ''Recording & Retention'', ''Devices''),
     (''sops'', ''Standard Procedures'', ''Operations''), (''schedule'', ''Monitoring Schedule'', ''Operations''),
     (''notifications'', ''Alert Rules'', ''Operations''), (''users'', ''User Access'', ''Access''),
     (''map'', ''Site Map'', ''Access''), (''danger'', ''Archive & Delete'', ''Danger'')]"

definition nav_sections :: "(string \<times> string \<times> string) list \<Rightarrow> (string \<times> (string \<times> string \<times> string) list) list" where
  "nav_sections items = foldl (\<lambda>secs it. map_put (snd (snd it), nullish (map_of secs (snd (snd it))) [] @ [it]) secs) [] items"

record DangerTab =
  dg_archiving :: bool
  dg_archived :: bool
  dg_confirm :: string
  dg_deleting :: bool
  dg_error :: string
  dg_timer :: bool     \<comment> \<open>\<^verbatim>\<open>onArchived\<close> is scheduled\<close>
  dg_deleted :: bool   \<comment> \<open>\<^verbatim>\<open>onDeleted\<close> was called\<close>

definition initial_danger :: DangerTab where
  "initial_danger = \<lparr>dg_archiving = False, dg_archived = False, dg_confirm = [], dg_deleting = False, dg_error = [],
     dg_timer = False, dg_deleted = False\<rparr>"

definition archive_body :: json where
  "archive_body = JObj [(''status'', JStr ''archived'')]"

definition handleArchive :: "id \<Rightarrow> DangerTab \<Rightarrow> World \<Rightarrow> World \<times> DangerTab" where
  "handleArchive siteId d w =
     (let d = d\<lparr>dg_error := []\<rparr> in
      (case apiFetch (''/api/v1/sites/'' @ siteId) \<lparr>ri_method = Some ''PUT'', ri_headers = [], ri_body = Json_body archive_body\<rparr> w of
         (w', Inl (Error m)) \<Rightarrow> (w', d\<lparr>dg_error := str_or (Some m) ''Failed to archive site'', dg_archiving := False\<rparr>)
       | (w', Inr _) \<Rightarrow> (w', d\<lparr>dg_archived := True, dg_timer := True, dg_archiving := False\<rparr>)))"

definition handleDelete :: "id \<Rightarrow> DangerTab \<Rightarrow> World \<Rightarrow> World \<times> DangerTab" where
  "handleDelete siteId d w =
     (if dg_confirm d \<noteq> ''delete'' then (w, d)
      else let d = d\<lparr>dg_deleting := True, dg_error := []\<rparr> in
        (case apiFetch (''/api/v1/sites/'' @ siteId) \<lparr>ri_method = Some ''DELETE'', ri_headers = [], ri_body = No_body\<rparr> w of
           (w', Inl (Error m)) \<Rightarrow> (w', d\<lparr>dg_error := str_or (Some m) ''Failed to delete site'', dg_deleting := False\<rparr>)
         | (w', Inr _) \<Rightarrow> (w', d\<lparr>dg_deleted := True\<rparr>)))"


section \<open>Helper lemmas\<close>

text \<open>Collecting the items of a list under their keys, in order of first appearance.\<close>

lemma map_of_collect:
  "map_of (foldl (\<lambda>m x. map_put (key x, nullish (map_of m (key x)) [] @ [x]) m) [] xs) k =
     (if \<exists>x\<in>set xs. key x = k then Some (filter (\<lambda>x. key x = k) xs) else None)"
  by (induction xs rule: rev_induct) (auto simp: map_of_map_put nullish_def filter_empty_conv)

lemma go_strings_items: "go_strings (Some (JArr (map JStr ss))) = Some ss"
  using those_map_Some [of ss "\<lambda>x. go_string (Some (JStr x))" "\<lambda>x. x"] by (simp add: go_strings_def comp_def go_string_def)

lemma step_lines_join:
  assumes "\<forall>l\<in>set ls. js_trim l \<noteq> [] \<and> newline \<notin> set l"
  shows "step_lines (join [newline] ls) = ls"
proof (cases "ls = []")
  case False
  then have "split_at_char newline (join [newline] ls) = ls" using assms by (intro split_join) auto
  then show ?thesis using assms by (simp add: step_lines_def filter_id_conv)
qed (simp add: step_lines_def js_trim_def)

section \<open>Properties\<close>

text \<open>Opening a procedure for editing and saving it unchanged sends exactly its title, category, priority, steps and
  contacts, and leaves the list as it is but for the time of the change, provided no step is blank or
  spans lines; the groups of the list hold every procedure of their category, in order.\<close>

theorem sop_edit_round_trip:
  assumes "distinct (map sop_id (so_sops m))" "s \<in> set (so_sops m)"
    and "\<forall>l\<in>set (sop_steps s). js_trim l \<noteq> [] \<and> newline \<notin> set l"
  shows "edit_body (sop_id s) (startEdit s m) =
      JObj [(''title'', JStr (sop_title s)), (''category'', JStr (sop_category s)), (''priority'', JStr (sop_priority s)),
        (''steps'', JArr (map JStr (sop_steps s))), (''contacts'', JArr (nullish (sop_contacts s) [])), (''updated_by'', JStr ''Admin'')] \<and>
    (updateSiteSOP (sop_id s) (edit_body (sop_id s) (startEdit s m)) w = (w', Inr r) \<longrightarrow>
      so_sops (snd (handleSaveEdit now (sop_id s) (startEdit s m) w)) =
        map (\<lambda>t. if t = s then t\<lparr>sop_updated_at := now\<rparr> else t) (so_sops m)) \<and>
    map_of (grouped_sops (so_sops m)) (sop_category s) = Some (filter (\<lambda>t. sop_category t = sop_category s) (so_sops m))"
proof (intro conjI impI)
  have same: "sop_id t = sop_id s \<longleftrightarrow> t = s" if "t \<in> set (so_sops m)" for t
    using assms(1,2) that by (meson distinct_map inj_onD)
  have find: "List.find (\<lambda>t. sop_id t = sop_id s) (so_sops m) = Some s"
    using assms(1,2) by (rule find_distinct_key)
  show "edit_body (sop_id s) (startEdit s m) =
      JObj [(''title'', JStr (sop_title s)), (''category'', JStr (sop_category s)), (''priority'', JStr (sop_priority s)),
        (''steps'', JArr (map JStr (sop_steps s))), (''contacts'', JArr (nullish (sop_contacts s) [])), (''updated_by'', JStr ''Admin'')]"
    using step_lines_join [OF assms(3)] find by (simp add: edit_body_def startEdit_def)
  show "map_of (grouped_sops (so_sops m)) (sop_category s) = Some (filter (\<lambda>t. sop_category t = sop_category s) (so_sops m))"
    unfolding grouped_sops_def map_of_collect using assms(2) by auto
  have "edited now (startEdit s m) s = s\<lparr>sop_updated_at := now\<rparr>"
    using step_lines_join [OF assms(3)] by (simp add: edited_def startEdit_def)
  moreover assume "updateSiteSOP (sop_id s) (edit_body (sop_id s) (startEdit s m)) w = (w', Inr r)"
  ultimately show "so_sops (snd (handleSaveEdit now (sop_id s) (startEdit s m) w)) =
        map (\<lambda>t. if t = s then t\<lparr>sop_updated_at := now\<rparr> else t) (so_sops m)"
    using same by (auto simp: handleSaveEdit_def startEdit_def)
qed

definition fixture_sop :: SiteSOP where
  "fixture_sop = \<lparr>sop_id = ''sop-1'', sop_site_id = ''ACG-101'', sop_title = ''Fire'', sop_category = ''emergency'', sop_priority = ''critical'',
     sop_steps = [''Call 911'', ''Log it''], sop_contacts = None, sop_updated_at = [], sop_updated_by = []\<rparr>"

theorem sop_edit_round_trip_witness:
  "edit_body ''sop-1'' (startEdit fixture_sop (initial_sops\<lparr>so_sops := [fixture_sop]\<rparr>)) =
     JObj [(''title'', JStr ''Fire''), (''category'', JStr ''emergency''), (''priority'', JStr ''critical''),
       (''steps'', JArr [JStr ''Call 911'', JStr ''Log it'']), (''contacts'', JArr []), (''updated_by'', JStr ''Admin'')]"
  using sop_edit_round_trip [of "initial_sops\<lparr>so_sops := [fixture_sop]\<rparr>" fixture_sop]
  by (simp add: fixture_sop_def js_trim_def is_ws_def nullish_def)

text \<open>Toggling a user's access writes exactly the toggled site list: whatever the row holds by then, an
  administrator's toggle keeps every field of it, replaces the assigned sites by those the page had loaded with
  the one site added or removed, and puts the organisation of the loaded copy. Toggling twice gives
  back the same sites, and a relevant user is in exactly one of the two lists.\<close>

theorem access_toggle_exact:
  assumes "us_organization_id u \<noteq> Some []"
  shows "HandleUpdateUserProfile (Some (''admin'', me)) (toggle_body siteId u) row =
      Inr (row\<lparr>us_organization_id := us_organization_id u, us_assigned_site_ids := Some (toggled_sites siteId u)\<rparr>) \<and>
    set (toggled_sites siteId (u\<lparr>us_assigned_site_ids := Some (toggled_sites siteId u)\<rparr>)) = set (assigned_sites u) \<and>
    (siteId \<in> set (toggled_sites siteId u) \<longleftrightarrow> siteId \<notin> set (assigned_sites u)) \<and>
    (u \<in> set (relevantUsers companyId siteId us) \<longrightarrow>
      (u \<in> set (assignedUsers companyId siteId us)) \<noteq> (u \<in> set (availableUsers companyId siteId us)))"
proof (intro conjI impI)
  have d: "decode_profile (toggle_body siteId u) = Some \<lparr>up_DisplayName = None, up_Email = None, up_Phone = None,
      up_OrganizationID = Some (nullish (us_organization_id u) []), up_AssignedSiteIDs = toggled_sites siteId u\<rparr>"
    by (simp add: decode_profile_def toggle_body_def go_object_def json_field_def go_ptr_string_def go_strings_items)
  have o: "nullableStr (nullish (us_organization_id u) []) = us_organization_id u"
    using assms by (cases "us_organization_id u") (auto simp: nullableStr_def nullish_def)
  show "HandleUpdateUserProfile (Some (''admin'', me)) (toggle_body siteId u) row =
      Inr (row\<lparr>us_organization_id := us_organization_id u, us_assigned_site_ids := Some (toggled_sites siteId u)\<rparr>)"
    using o by (simp add: HandleUpdateUserProfile_def d UpdateUserProfile_def nullish_def)
  show "set (toggled_sites siteId (u\<lparr>us_assigned_site_ids := Some (toggled_sites siteId u)\<rparr>)) = set (assigned_sites u)"
    by (auto simp: toggled_sites_def assigned_sites_def nullish_def Let_def)
  show "siteId \<in> set (toggled_sites siteId u) \<longleftrightarrow> siteId \<notin> set (assigned_sites u)"
    by (auto simp: toggled_sites_def Let_def)
  assume "u \<in> set (relevantUsers companyId siteId us)"
  then show "(u \<in> set (assignedUsers companyId siteId us)) \<noteq> (u \<in> set (availableUsers companyId siteId us))"
    by (auto simp: assignedUsers_def availableUsers_def)
qed

definition fixture_user :: UserPublic where
  "fixture_user = \<lparr>us_id = ''u1'', us_username = ''kim'', us_role = ''customer'', us_display_name = ''Kim'', us_email = [], us_phone = [],
     us_organization_id = Some ''co-1'', us_assigned_site_ids = Some [''ACG-101'']\<rparr>"

theorem access_toggle_exact_witness:
  "HandleUpdateUserProfile (Some (''admin'', ''u9'')) (toggle_body ''ACG-102'' fixture_user) fixture_user =
     Inr (fixture_user\<lparr>us_assigned_site_ids := Some [''ACG-101'', ''ACG-102'']\<rparr>)"
  using access_toggle_exact [of fixture_user "''u9''" "''ACG-102''" fixture_user]
  by (simp add: fixture_user_def toggled_sites_def assigned_sites_def nullish_def)

text \<open>Devices: the three lists of a tab divide the devices between them.\<close>

lemma device_lists_partition:
  assumes "siteId \<noteq> []"
  shows "mset cs = mset (assignedHere siteId cs) + mset (unassigned cs) + mset (elsewhere siteId cs)"
  using assms by (induction cs) (auto simp: assignedHere_def unassigned_def elsewhere_def has_site_def)

text \<open>
  Moving a speaker is not atomic: when the second request is refused the speaker has left its old
  site, is on none, and no message says so.
\<close>

lemma speaker_move_torn:
  assumes "useUnassignSpeaker oldSite i w = (w1, Inr x, ks)" "useAssignSpeaker siteId i (device_label i d) w1 = (w2, Inl e, ks')"
  shows "speaker_handleMove siteId oldSite i d w = (w2, Inl e)"
  using assms by (simp add: speaker_handleMove_def)

definition coordinate_ok :: "(number \<Rightarrow> string) \<Rightarrow> number option \<Rightarrow> bool" where
  "coordinate_ok fractx x \<longleftrightarrow> (case x of None \<Rightarrow> True | Some n \<Rightarrow> n \<noteq> 0 \<and> num_text fractx n \<noteq> [] \<and> parseFloat (num_text fractx n) = Some n)"

lemma map_of_opt:
  "map_of (opt_str k s) k' = (if s \<noteq> [] \<and> k' = k then Some (JStr s) else None)"
  "map_of (opt_num k s) k' = (if s \<noteq> [] \<and> k' = k then Some (case parseFloat s of Some x \<Rightarrow> JNum x | None \<Rightarrow> JNull) else None)"
  by (auto simp: opt_str_def opt_num_def)

lemma payload_fields:
  "json_field ''name'' (site_payload f) = Some (JStr (js_trim (sf_name f)))"
  "json_field ''address'' (site_payload f) = Some (JStr (fullAddress f))"
  "json_field ''company_id'' (site_payload f) = Some (JStr (sf_companyId f))"
  "json_field ''latitude'' (site_payload f) = map_of (opt_num ''latitude'' (sf_latitude f)) ''latitude''"
  "json_field ''longitude'' (site_payload f) = map_of (opt_num ''longitude'' (sf_longitude f)) ''longitude''"
  "json_field ''feature_mode'' (site_payload f) = Some (JStr (sf_featureMode f))"
  by (simp_all add: site_payload_def json_field_def map_of_append map_add_def map_of_opt)

lemma go_float_opt:
  "go_ptr_float (map_of (opt_num k s) k) = Some (if s = [] then None else parseFloat s)"
  by (simp add: map_of_opt go_ptr_float_def split: option.split)

lemma decode_payload:
  "decode_site (site_payload f) = Some \<lparr>sc_Name = js_trim (sf_name f), sc_Address = fullAddress f, sc_CompanyID = sf_companyId f,
     sc_Latitude = (if sf_latitude f = [] then None else parseFloat (sf_latitude f)),
     sc_Longitude = (if sf_longitude f = [] then None else parseFloat (sf_longitude f)), sc_FeatureMode = sf_featureMode f\<rparr>"
proof -
  have "go_object (site_payload f) = Some (site_payload f)" by (simp add: go_object_def site_payload_def)
  then show ?thesis by (simp add: decode_site_def payload_fields go_float_opt go_string_def)
qed

lemma GetSite_fields:
  "json_field ''name'' (GetSite r) = Some (JStr (row_name r))"
  "json_field ''address'' (GetSite r) = Some (JStr (row_address r))"
  "json_field ''company_id'' (GetSite r) = Some (JStr (row_organization r))"
  "json_field ''latitude'' (GetSite r) = map_option JNum (row_latitude r)"
  "json_field ''longitude'' (GetSite r) = map_option JNum (row_longitude r)"
  "json_field ''feature_mode'' (GetSite r) = Some (JStr (row_feature_mode r))"
  "json_field ''risk_tier'' (GetSite r) = None" "json_field ''industry'' (GetSite r) = None" "json_field ''hazards'' (GetSite r) = None"
  "json_field ''site_contact'' (GetSite r) = None" "json_field ''escalation_policy'' (GetSite r) = None"
  by (cases "row_latitude r"; cases "row_longitude r"; simp add: GetSite_def site_fields_def json_field_def)+

lemma prefill_GetSite:
  "prefill fractx (GetSite r) blank_form = blank_form\<lparr>sf_name := row_name r, sf_street := row_address r, sf_companyId := row_organization r,
     sf_latitude := (case row_latitude r of Some n \<Rightarrow> if n \<noteq> 0 then num_text fractx n else [] | None \<Rightarrow> []),
     sf_longitude := (case row_longitude r of Some n \<Rightarrow> if n \<noteq> 0 then num_text fractx n else [] | None \<Rightarrow> []),
     sf_featureMode := row_feature_mode r\<rparr>"
  by (cases "row_latitude r"; cases "row_longitude r")
     (simp_all add: prefill_def GetSite_fields str_field_def num_field_def set_str_field_def blank_form_def)

text \<open>Editing a site and saving the form as it was filled in keeps the row: the server accepts it from an
  administrator or a supervisor and writes back the same values, provided the name is not blank and has no
  blanks around it, the coordinates are not zero and read back from their text, and
  the tier is set. The rest of the form (risk profile, contact, escalation) reaches no column: two forms that agree
  on the stored fields give the same answer.\<close>

theorem site_edit_round_trip:
  assumes "role \<in> {''admin'', ''soc_supervisor''}" "row_organization r \<in> set orgs" "js_trim (row_name r) = row_name r"
    and "coordinate_ok fractx (row_latitude r)" "coordinate_ok fractx (row_longitude r)" "row_feature_mode r \<noteq> []"
  shows "HandleUpdateSite orgs (Some role) (site_payload (prefill fractx (GetSite r) blank_form)) r = Inr r \<and>
    (js_trim (sf_name f) = js_trim (sf_name g) \<and> fullAddress f = fullAddress g \<and> sf_companyId f = sf_companyId g \<and>
     sf_latitude f = sf_latitude g \<and> sf_longitude f = sf_longitude g \<and> sf_featureMode f = sf_featureMode g \<longrightarrow>
     HandleUpdateSite orgs (Some role) (site_payload f) r = HandleUpdateSite orgs (Some role) (site_payload g) r)"
proof
  have "fullAddress (prefill fractx (GetSite r) blank_form) = row_address r"
    by (simp add: prefill_GetSite fullAddress_def) (simp add: blank_form_def)
  then show "HandleUpdateSite orgs (Some role) (site_payload (prefill fractx (GetSite r) blank_form)) r = Inr r"
    using assms unfolding HandleUpdateSite_def decode_payload
    by (auto simp: UpdateSite_def prefill_GetSite coordinate_ok_def split: option.splits)
qed (simp add: HandleUpdateSite_def decode_payload)

theorem site_edit_round_trip_witness:
  "HandleUpdateSite [''co-1''] (Some ''admin'') (site_payload (prefill (\<lambda>_. []) (GetSite fixture_row) blank_form)) fixture_row = Inr fixture_row"
  using site_edit_round_trip [of "''admin''" fixture_row "[''co-1'']" "\<lambda>_. []"]
  by (simp add: fixture_row_def coordinate_ok_def js_trim_def is_ws_def)

text \<open>A coordinate of zero is taken for a missing one: saving the form erases it.\<close>

lemma zero_coordinate_erased:
  assumes "row_latitude r = Some 0"
  shows "\<forall>r'. HandleUpdateSite orgs role (site_payload (prefill fractx (GetSite r) blank_form)) r = Inr r' \<longrightarrow> row_latitude r' = None"
  using assms unfolding HandleUpdateSite_def decode_payload
  by (auto simp: UpdateSite_def prefill_GetSite split: if_splits option.splits)

text \<open>The requests of the two buttons.\<close>

definition archive_init :: RequestInit where
  "archive_init = \<lparr>ri_method = Some ''PUT'', ri_headers = [], ri_body = Json_body archive_body\<rparr>"

definition delete_init :: RequestInit where
  "delete_init = \<lparr>ri_method = Some ''DELETE'', ri_headers = [], ri_body = No_body\<rparr>"

text \<open>C28: No site is ever archived, and the page says it was. The archive request carries only a status, for
  which the server's update has no field; where no organisation has the empty identifier the update is
  refused for every caller and every site, with 403 or 500. Yet whenever the request is answered at all,
  with whatever status, the tab shows the site as archived without an error and closes; only a request
  that gets no answer shows an error. A deletion is reported as done in the same way, whatever the
  answer.\<close>

theorem archive_reported_never_done:
  assumes "[] \<notin> set orgs"
  shows "(\<exists>status \<in> {403, 500}. HandleUpdateSite orgs role archive_body r = Inl status) \<and>
    (let d' = snd (handleArchive siteId d w) in
     case snd (apiFetch (''/api/v1/sites/'' @ siteId) archive_init w) of
       Inr answer \<Rightarrow> dg_archived d' \<and> dg_error d' = [] \<and> dg_timer d'
     | Inl e \<Rightarrow> dg_archived d' = dg_archived d \<and> dg_timer d' = dg_timer d \<and> dg_error d' \<noteq> []) \<and>
    (let d' = snd (handleDelete siteId (d\<lparr>dg_confirm := ''delete''\<rparr>) w) in
     case snd (apiFetch (''/api/v1/sites/'' @ siteId) delete_init w) of
       Inr answer \<Rightarrow> dg_deleted d' \<and> dg_error d' = []
     | Inl e \<Rightarrow> dg_deleted d' = dg_deleted d \<and> dg_error d' \<noteq> [])"
proof -
  have "decode_site archive_body = Some \<lparr>sc_Name = [], sc_Address = [], sc_CompanyID = [], sc_Latitude = None, sc_Longitude = None,
      sc_FeatureMode = []\<rparr>"
    by (simp add: decode_site_def archive_body_def go_object_def json_field_def go_string_def go_ptr_float_def)
  then have "\<exists>status \<in> {403, 500}. HandleUpdateSite orgs role archive_body r = Inl status"
    using assms by (simp add: HandleUpdateSite_def UpdateSite_def)
  then show ?thesis
    by (auto simp: handleArchive_def handleDelete_def archive_init_def delete_init_def Let_def str_or_def
        split: prod.split sum.split exn.split option.splits)
qed

theorem archive_reported_never_done_witness:
  "dg_archived (snd (handleArchive ''ACG-101'' initial_danger
     \<lparr>wd_server = (\<lambda>j lg q. error_reply 500 ''refused''), wd_jar = [], wd_document = True, wd_location = ''/admin'', wd_log = []\<rparr>))"
proof -
  let ?w = "\<lparr>wd_server = (\<lambda>j lg q. error_reply 500 ''refused''), wd_jar = [], wd_document = True, wd_location = ''/admin'', wd_log = []\<rparr>"
  have "\<exists>res. snd (apiFetch u opts ?w) = Inr res" for u opts
    by (simp add: apiFetch_def send_def error_reply_def Let_def)
  then obtain res where "snd (apiFetch (''/api/v1/sites/'' @ ''ACG-101'') archive_init ?w) = Inr res" by blast
  then show ?thesis using archive_reported_never_done [of "[''co-1'']" _ _ "''ACG-101''" initial_danger ?w] by (simp add: Let_def)
qed

end
