(* ===== verification/Portal.thy ===== *)
theory Portal
  imports Site_Schedule Api_Routes
begin

text \<open>
  The customer portal: formatting helpers (\<^verbatim>\<open>lib/format.ts\<close>, \<^verbatim>\<open>HandledForYouPanel.tsx\<close>), notification preferences
  (\<^verbatim>\<open>app/portal/notifications/page.tsx\<close>) with the server's store and its choice of recipients, the support widget
  (\<^verbatim>\<open>SupportWidget.tsx\<close>), the review queue (\<^verbatim>\<open>PendingReviewQueue.tsx\<close>) and the dashboard's totals and exports (\<^verbatim>\<open>app/portal/page.tsx\<close>).
  Shown: the preferences implement a map, the queue shows each finding once, an open conversation is the chosen one;
  and that a portal subscriber is notified for every site of every customer.
\<close>

section \<open>Formatting\<close>

definition formatRelativeTime :: "ms \<Rightarrow> ms \<Rightarrow> string" where
  "formatRelativeTime now ts =
     (let diff = now - ts in
      if diff < 60000 then int_str (diff div 1000) @ ''s ago''
      else if diff < 3600000 then int_str (diff div 60000) @ ''m ago''
      else if diff < 86400000 then int_str (diff div 3600000) @ ''h ago''
      else int_str (diff div 86400000) @ ''d ago'')"

text \<open>\<^verbatim>\<open>a % b\<close>: the remainder has the sign of the dividend.\<close>

definition js_rem :: "int \<Rightarrow> int \<Rightarrow> int" where
  "js_rem a b = (if a < 0 then - ((- a) mod b) else a mod b)"

definition two_digits :: "int \<Rightarrow> string" where
  "two_digits n = pad_start 2 (CHR ''0'') (int_str n)"

definition formatDuration :: "ms \<Rightarrow> string" where
  "formatDuration t =
     (let totalSeconds = t div 1000;
          hours = totalSeconds div 3600;
          minutes = js_rem totalSeconds 3600 div 60;
          seconds = js_rem totalSeconds 60 in
      if hours > 0 then int_str hours @ '':'' @ two_digits minutes @ '':'' @ two_digits seconds
      else int_str minutes @ '':'' @ two_digits seconds)"

definition formatConfidence :: "number \<Rightarrow> string" where
  "formatConfidence score = int_str (js_round (score * 100)) @ ''%''"

definition getComplianceLevel :: "number \<Rightarrow> string" where
  "getComplianceLevel score = (if 90 \<le> score then ''green'' else if 75 \<le> score then ''amber'' else ''red'')"

definition fmtSec :: "number \<Rightarrow> string" where
  "fmtSec sec =
     (if sec < 1 then emdash
      else if sec < 60 then int_str (js_round sec) @ ''s''
      else let m = \<lfloor>sec / 60\<rfloor>; s = js_round (sec - of_int m * 60) in
        if s = 0 then int_str m @ ''m'' else int_str m @ ''m '' @ int_str s @ ''s'')"

text \<open>The time of a ticket; \<open>parse_date\<close> is \<^verbatim>\<open>new Date(iso).getTime()\<close>, \<open>None\<close> when it is NaN.\<close>

definition fmtRelative :: "(string \<Rightarrow> ms option) \<Rightarrow> ms \<Rightarrow> string \<Rightarrow> string" where
  "fmtRelative parse_date now stamp = (case parse_date stamp of
     None \<Rightarrow> []
   | Some t \<Rightarrow>
       (let diff = now - t; min = diff div 60000; hr = min div 60 in
        if diff < 60000 then ''just now'' else if min < 60 then int_str min @ ''m ago''
        else if hr < 24 then int_str hr @ ''h ago'' else int_str (hr div 24) @ ''d ago''))"

definition slaPct :: "int \<Rightarrow> int \<Rightarrow> int option" where
  "slaPct within_sla over_sla = (let slaTotal = within_sla + over_sla in
     if slaTotal > 0 then Some (js_round (of_int within_sla / of_int slaTotal * 100)) else None)"

section \<open>Notification preferences\<close>

record Subscription =
  ns_channel :: string
  ns_event_type :: string
  ns_severity_min :: string
  ns_enabled :: bool
  ns_quiet_start :: "string option"
  ns_quiet_end :: "string option"

definition PREF_ROWS :: "(string \<times> string \<times> bool) list" where
  "PREF_ROWS = [(''email'', ''alarm_disposition'', True), (''sms'', ''alarm_disposition'', True), (''email'', ''monthly_summary'', False)]"

definition SEVERITY_OPTIONS :: "string list" where
  "SEVERITY_OPTIONS = [''low'', ''medium'', ''high'', ''critical'']"

definition findSub :: "Subscription list \<Rightarrow> string \<Rightarrow> string \<Rightarrow> Subscription" where
  "findSub subs channel eventType =
     (case List.find (\<lambda>s. ns_channel s = channel \<and> ns_event_type s = eventType) subs of
        Some s \<Rightarrow> s
      | None \<Rightarrow> \<lparr>ns_channel = channel, ns_event_type = eventType, ns_severity_min = ''low'', ns_enabled = False,
          ns_quiet_start = None, ns_quiet_end = None\<rparr>)"

definition sub_body :: "Subscription \<Rightarrow> json" where
  "sub_body s = JObj [(''channel'', JStr (ns_channel s)), (''event_type'', JStr (ns_event_type s)),
     (''severity_min'', JStr (ns_severity_min s)), (''enabled'', JBool (ns_enabled s)), (''site_ids'', JNull),
     (''quiet_start'', JStr (nullish (ns_quiet_start s) [])), (''quiet_end'', JStr (nullish (ns_quiet_end s) []))]"

record PrefsPage =
  pp_subs :: "Subscription list option"
  pp_savingKey :: string
  pp_err :: string
  pp_savedAt :: ms

definition sub_of_json :: "json \<Rightarrow> Subscription" where
  "sub_of_json j =
     (let str = (\<lambda>k. case json_field k j of Some (JStr s) \<Rightarrow> Some s | _ \<Rightarrow> None) in
      \<lparr>ns_channel = nullish (str ''channel'') [], ns_event_type = nullish (str ''event_type'') [],
       ns_severity_min = nullish (str ''severity_min'') [], ns_enabled = (json_field ''enabled'' j = Some (JBool True)),
       ns_quiet_start = str ''quiet_start'', ns_quiet_end = str ''quiet_end''\<rparr>)"

definition load_prefs :: "PrefsPage \<Rightarrow> World \<Rightarrow> World \<times> PrefsPage" where
  "load_prefs p w = (case fetchJSON ''/api/me/notifications'' no_init w of
     (w', Inl (Error m)) \<Rightarrow> (w', p\<lparr>pp_err := m\<rparr>)
   | (w', Inr r) \<Rightarrow> (w', p\<lparr>pp_subs := Some (case r of Some (JArr xs) \<Rightarrow> map sub_of_json xs | _ \<Rightarrow> [])\<rparr>))"

definition saveSub :: "ms \<Rightarrow> Subscription \<Rightarrow> PrefsPage \<Rightarrow> World \<Rightarrow> World \<times> PrefsPage" where
  "saveSub now nxt p w =
     (let p = p\<lparr>pp_err := []\<rparr> in
      (case fetchJSON ''/api/me/notifications'' (body_init ''PUT'' (sub_body nxt)) w of
         (w', Inl (Error m)) \<Rightarrow> (w', p\<lparr>pp_err := m, pp_savingKey := []\<rparr>)
       | (w', Inr _) \<Rightarrow> (case load_prefs (p\<lparr>pp_savedAt := now\<rparr>) w' of (w'', p'') \<Rightarrow> (w'', p''\<lparr>pp_savingKey := []\<rparr>))))"

text \<open>The server's rows; \<open>None\<close> sites is JSON null. A row is unique by user, channel and event type.\<close>

record SubRow =
  sr_user :: id
  sr_channel :: string
  sr_event_type :: string
  sr_severity_min :: string
  sr_site_ids :: "string list option"
  sr_quiet_start :: string
  sr_quiet_end :: string
  sr_enabled :: bool

definition sub_key :: "SubRow \<Rightarrow> id \<times> string \<times> string" where
  "sub_key r = (sr_user r, sr_channel r, sr_event_type r)"

definition UpsertNotificationSubscription :: "SubRow \<Rightarrow> SubRow list \<Rightarrow> SubRow list" where
  "UpsertNotificationSubscription r rows =
     (if sub_key r \<in> set (map sub_key rows) then map (\<lambda>s. if sub_key s = sub_key r then r else s) rows else rows @ [r])"

definition go_opt_strings :: "json option \<Rightarrow> string list option option" where
  "go_opt_strings v = (case v of None \<Rightarrow> Some None | Some JNull \<Rightarrow> Some None
     | Some (JArr xs) \<Rightarrow> map_option Some (those (map (\<lambda>x. go_string (Some x)) xs)) | _ \<Rightarrow> None)"

definition decode_sub :: "id \<Rightarrow> json \<Rightarrow> SubRow option" where
  "decode_sub user j =
     Option.bind (go_object j) (\<lambda>b.
     Option.bind (go_string (json_field ''channel'' b)) (\<lambda>ch.
     Option.bind (go_string (json_field ''event_type'' b)) (\<lambda>ev.
     Option.bind (go_string (json_field ''severity_min'' b)) (\<lambda>sv.
     Option.bind (go_opt_strings (json_field ''site_ids'' b)) (\<lambda>si.
     Option.bind (go_string (json_field ''quiet_start'' b)) (\<lambda>qs.
     Option.bind (go_string (json_field ''quiet_end'' b)) (\<lambda>qe.
     Option.bind (go_bool (json_field ''enabled'' b)) (\<lambda>en.
       Some \<lparr>sr_user = user, sr_channel = ch, sr_event_type = ev, sr_severity_min = sv, sr_site_ids = si,
             sr_quiet_start = qs, sr_quiet_end = qe, sr_enabled = en\<rparr>))))))))"

text \<open>The handler for the user of the session; \<open>Inl\<close> is the status of a refusal.\<close>

definition HandleUpsertMyNotificationSub :: "id \<Rightarrow> json \<Rightarrow> SubRow list \<Rightarrow> nat + SubRow list" where
  "HandleUpsertMyNotificationSub user body rows = (case decode_sub user body of
     None \<Rightarrow> Inl 400
   | Some r \<Rightarrow>
       if sr_channel r \<notin> {''email'', ''sms''} then Inl 400
       else if sr_event_type r \<notin> {''alarm_disposition'', ''monthly_summary''} then Inl 400
       else if sr_severity_min r \<notin> {[], ''low'', ''medium'', ''high'', ''critical''} then Inl 400
       else Inr (UpsertNotificationSubscription
              (r\<lparr>sr_severity_min := (if sr_severity_min r = [] then ''low'' else sr_severity_min r)\<rparr>) rows))"

definition omitempty :: "string \<Rightarrow> string option" where
  "omitempty s = (if s = [] then None else Some s)"

definition sub_of_row :: "SubRow \<Rightarrow> Subscription" where
  "sub_of_row r = \<lparr>ns_channel = sr_channel r, ns_event_type = sr_event_type r, ns_severity_min = sr_severity_min r,
     ns_enabled = sr_enabled r, ns_quiet_start = omitempty (sr_quiet_start r), ns_quiet_end = omitempty (sr_quiet_end r)\<rparr>"

definition ListNotificationSubscriptions :: "id \<Rightarrow> SubRow list \<Rightarrow> Subscription list" where
  "ListNotificationSubscriptions user rows =
     map sub_of_row (js_sort (\<lambda>a b. text_less (sr_event_type a) (sr_event_type b) \<or>
        sr_event_type a = sr_event_type b \<and> text_less (sr_channel a) (sr_channel b)) (filter (\<lambda>r. sr_user r = user) rows))"






section \<open>The support widget\<close>

datatype widget_view = TicketList | ComposeView | ThreadView int

record Ticket =
  tk_id :: int
  tk_subject :: string
  tk_status :: string
  tk_last_message_at :: ms
  tk_last_message_by :: string

record Thread =
  th_ticket :: Ticket
  th_messages :: "(string \<times> string) list"  \<comment> \<open>author and body\<close>

record SupportWidget =
  sw_open :: bool
  sw_view :: widget_view
  sw_tickets :: "Ticket list"
  sw_thread :: "Thread option"
  sw_draft :: string
  sw_subject :: string
  sw_busy :: bool
  sw_err :: string
  sw_seen :: int

definition initial_widget :: SupportWidget where
  "initial_widget = \<lparr>sw_open = False, sw_view = TicketList, sw_tickets = [], sw_thread = None, sw_draft = [], sw_subject = [],
     sw_busy = False, sw_err = [], sw_seen = 0\<rparr>"

definition hideForRole :: "bool \<Rightarrow> string option \<Rightarrow> bool" where
  "hideForRole authed role = (\<not> authed \<or> role = Some ''soc_operator'')"

definition unread :: "SupportWidget \<Rightarrow> nat" where
  "unread s = length (filter (\<lambda>t. tk_last_message_by t = ''soc'' \<and> tk_last_message_at t > sw_seen s) (sw_tickets s))"

definition widget_handleOpen :: "ms \<Rightarrow> SupportWidget \<Rightarrow> SupportWidget" where
  "widget_handleOpen now s = s\<lparr>sw_open := True, sw_seen := now\<rparr>"

definition go_back :: "SupportWidget \<Rightarrow> SupportWidget" where
  "go_back s = s\<lparr>sw_view := TicketList, sw_thread := None, sw_draft := []\<rparr>"

text \<open>
  The requests and what their answers do. A poll of a conversation is dropped when the view has changed since; a
  new message, a reply and a change of status read the state when they start and write when they are
  answered, whatever the view is by then.
\<close>

definition reload_answer :: "Ticket list result \<Rightarrow> SupportWidget \<Rightarrow> SupportWidget" where
  "reload_answer r s = (case r of Inl (Error m) \<Rightarrow> s\<lparr>sw_err := m\<rparr> | Inr ts \<Rightarrow> s\<lparr>sw_tickets := ts\<rparr>)"

definition poll_answer :: "int \<Rightarrow> Thread result \<Rightarrow> SupportWidget \<Rightarrow> SupportWidget" where
  "poll_answer ticketId r s =
     (if sw_view s \<noteq> ThreadView ticketId then s
      else (case r of Inl (Error m) \<Rightarrow> s\<lparr>sw_err := m\<rparr> | Inr d \<Rightarrow> s\<lparr>sw_thread := Some d\<rparr>))"

definition can_send :: "SupportWidget \<Rightarrow> bool" where
  "can_send s = (js_trim (sw_subject s) \<noteq> [] \<and> js_trim (sw_draft s) \<noteq> [])"

definition send_answer :: "(int \<times> Ticket list result) result \<Rightarrow> SupportWidget \<Rightarrow> SupportWidget" where
  "send_answer r s = (case r of
     Inl (Error m) \<Rightarrow> s\<lparr>sw_err := m, sw_busy := False\<rparr>
   | Inr (t, ts) \<Rightarrow> (reload_answer ts (s\<lparr>sw_subject := [], sw_draft := []\<rparr>))\<lparr>sw_view := ThreadView t, sw_busy := False\<rparr>)"

definition can_reply :: "SupportWidget \<Rightarrow> bool" where
  "can_reply s = ((\<exists>i. sw_view s = ThreadView i) \<and> js_trim (sw_draft s) \<noteq> [])"

text \<open>A reply: sending it and reading the conversation again may each fail.\<close>

definition reply_answer :: "(Thread result) result \<Rightarrow> SupportWidget \<Rightarrow> SupportWidget" where
  "reply_answer r s = (case r of
     Inl (Error m) \<Rightarrow> s\<lparr>sw_err := m, sw_busy := False\<rparr>
   | Inr (Inl (Error m)) \<Rightarrow> s\<lparr>sw_draft := [], sw_err := m, sw_busy := False\<rparr>
   | Inr (Inr d) \<Rightarrow> s\<lparr>sw_draft := [], sw_thread := Some d, sw_busy := False\<rparr>)"

definition status_answer :: "Thread result \<Rightarrow> Ticket list result \<Rightarrow> SupportWidget \<Rightarrow> SupportWidget" where
  "status_answer r ts s = (case r of
     Inl (Error m) \<Rightarrow> s\<lparr>sw_err := m, sw_busy := False\<rparr>
   | Inr d \<Rightarrow> (reload_answer ts (s\<lparr>sw_thread := Some d\<rparr>))\<lparr>sw_busy := False\<rparr>)"

datatype widget_event =
    OpenWidget ms
  | CloseWidget
  | PickTicket int
  | StartCompose
  | GoBack
  | TypeDraft string
  | TypeSubject string
  | Reloaded "Ticket list result"
  | Polled int "Thread result"
  | SentNew "(int \<times> Ticket list result) result"
  | Replied "(Thread result) result"
  | StatusSet "Thread result" "Ticket list result"

fun widget_step :: "widget_event \<Rightarrow> SupportWidget \<Rightarrow> SupportWidget" where
  "widget_step (OpenWidget now) s = (if sw_open s then s else widget_handleOpen now s)"
| "widget_step CloseWidget s = s\<lparr>sw_open := False\<rparr>"
| "widget_step (PickTicket i) s = (if sw_view s = TicketList then s\<lparr>sw_view := ThreadView i\<rparr> else s)"
| "widget_step StartCompose s = (if sw_view s = TicketList then s\<lparr>sw_view := ComposeView\<rparr> else s)"
| "widget_step GoBack s = (if sw_view s = TicketList then s else go_back s)"
| "widget_step (TypeDraft d) s = s\<lparr>sw_draft := d\<rparr>"
| "widget_step (TypeSubject d) s = s\<lparr>sw_subject := d\<rparr>"
| "widget_step (Reloaded r) s = reload_answer r s"
| "widget_step (Polled i r) s = poll_answer i r s"
| "widget_step (SentNew r) s = send_answer r s"
| "widget_step (Replied r) s = reply_answer r s"
| "widget_step (StatusSet r ts) s = status_answer r ts s"

section \<open>The review queue\<close>

record PendingEntry =
  pe_id :: id
  pe_camera_id :: id
  pe_camera_name :: string
  pe_detection_class :: string
  pe_missing_label :: string
  pe_confidence :: number
  pe_frame_url :: string
  pe_status :: string
  pe_created_at :: string

definition CORRECTION_OPTIONS :: "string list" where
  "CORRECTION_OPTIONS = [''animal'', ''equipment'', ''shadow'', ''already_resolved'', ''wrong_classification'', ''other'']"

definition confidenceToSeverity :: "number \<Rightarrow> string" where
  "confidenceToSeverity c = (if 85 / 100 \<le> c then ''critical'' else if 70 / 100 \<le> c then ''high''
     else if 55 / 100 \<le> c then ''medium'' else ''low'')"

definition formatRelative :: "ms \<Rightarrow> ms \<Rightarrow> string" where
  "formatRelative now t = (let d = now - t in
     if d < 3600000 then int_str (d div 60000) @ ''m ago'' else if d < 86400000 then int_str (d div 3600000) @ ''h ago''
     else int_str (d div 86400000) @ ''d ago'')"

record ReviewQueue =
  rq_entries :: "PendingEntry list"
  rq_isLoading :: bool
  rq_error :: "string option"
  rq_target :: "id option"
  rq_correction :: string
  rq_toast :: "string option"

definition initial_queue :: ReviewQueue where
  "initial_queue = \<lparr>rq_entries = [], rq_isLoading = True, rq_error = None, rq_target = None, rq_correction = [], rq_toast = None\<rparr>"

definition queue_loaded :: "PendingEntry list result \<Rightarrow> ReviewQueue \<Rightarrow> ReviewQueue" where
  "queue_loaded r q = (case r of
     Inl e \<Rightarrow> q\<lparr>rq_error := Some ''Could not load safety findings'', rq_isLoading := False\<rparr>
   | Inr es \<Rightarrow> q\<lparr>rq_entries := es, rq_isLoading := False, rq_error := None\<rparr>)"

text \<open>A detection message: \<open>None\<close> members are missing; \<open>now\<close> is the time as text.\<close>

definition partial_entry :: "string \<Rightarrow> id option \<Rightarrow> (id option \<times> string option \<times> string option \<times> number option \<times> string option) \<Rightarrow> PendingEntry" where
  "partial_entry now cam d = (case d of (qid, cls, missing, conf, created) \<Rightarrow>
     \<lparr>pe_id = nullish qid [], pe_camera_id = nullish cam [], pe_camera_name = [], pe_detection_class = nullish cls [],
      pe_missing_label = nullish missing [], pe_confidence = nullish conf 0,
      pe_frame_url = (if truthy_str qid then ''/api/v1/portal/pending-review/'' @ the qid @ ''/frame'' else []),
      pe_status = ''pending'', pe_created_at = nullish created now\<rparr>)"

definition ws_handler :: "string \<Rightarrow> string \<Rightarrow> id option \<Rightarrow> (id option \<times> string option \<times> string option \<times> number option \<times> string option) option \<Rightarrow> ReviewQueue \<Rightarrow> ReviewQueue" where
  "ws_handler now typ cam data q =
     (if typ \<noteq> ''ppe_detected'' then q
      else (case data of
          None \<Rightarrow> q
        | Some d \<Rightarrow>
            (let p = partial_entry now cam d in
             if pe_id p = [] then q
             else if pe_id p \<in> set (map pe_id (rq_entries q)) then q
             else q\<lparr>rq_entries := p # rq_entries q\<rparr>)))"

definition pending_entries :: "ReviewQueue \<Rightarrow> PendingEntry list" where
  "pending_entries q = filter (\<lambda>e. pe_status e = ''pending'') (rq_entries q)"

definition drop_entry :: "id \<Rightarrow> ReviewQueue \<Rightarrow> ReviewQueue" where
  "drop_entry i q = q\<lparr>rq_entries := filter (\<lambda>e. pe_id e \<noteq> i) (rq_entries q)\<rparr>"

definition handleValidate :: "id \<Rightarrow> ReviewQueue \<Rightarrow> World \<Rightarrow> World \<times> ReviewQueue" where
  "handleValidate i q w = (case submitReview i (JObj [(''status'', JStr ''reviewed_violation'')]) w of
     (w', Inl e) \<Rightarrow> (w', q\<lparr>rq_toast := Some (''Failed to submit review '' @ emdash @ '' please try again'')\<rparr>)
   | (w', Inr _) \<Rightarrow> (w', (drop_entry i q)\<lparr>rq_toast := Some (''Validated '' @ emdash @ '' added to compliance metrics'')\<rparr>))"

definition handleFalsePositive :: "id \<Rightarrow> ReviewQueue \<Rightarrow> ReviewQueue" where
  "handleFalsePositive i q = q\<lparr>rq_target := Some i\<rparr>"

definition handleSubmitCorrection :: "id \<Rightarrow> ReviewQueue \<Rightarrow> World \<Rightarrow> World \<times> ReviewQueue" where
  "handleSubmitCorrection i q w =
     (case submitReview i (JObj [(''status'', JStr ''dismissed''), (''notes'', JStr (rq_correction q))]) w of
        (w', Inl e) \<Rightarrow> (w', q\<lparr>rq_toast := Some (''Failed to submit correction '' @ emdash @ '' please try again'')\<rparr>)
      | (w', Inr _) \<Rightarrow> (w', (drop_entry i q)\<lparr>rq_target := None, rq_correction := [],
          rq_toast := Some (''False positive recorded '' @ emdash @ '' training data captured'')\<rparr>))"

text \<open>The queue over time; the server sends each finding once.\<close>

datatype queue_event =
    QueueLoaded "PendingEntry list result"
  | DetectionMessage string string "id option" "(id option \<times> string option \<times> string option \<times> number option \<times> string option) option"
  | Validate id World
  | FalsePositive id
  | ChooseCorrection string
  | SubmitCorrection id World

fun queue_step :: "queue_event \<Rightarrow> ReviewQueue \<Rightarrow> ReviewQueue" where
  "queue_step (QueueLoaded r) q =
     (case r of Inr es \<Rightarrow> if distinct (map pe_id es) then queue_loaded r q else q | Inl e \<Rightarrow> queue_loaded r q)"
| "queue_step (DetectionMessage now typ cam d) q = ws_handler now typ cam d q"
| "queue_step (Validate i w) q = snd (handleValidate i q w)"
| "queue_step (FalsePositive i) q = handleFalsePositive i q"
| "queue_step (ChooseCorrection c) q = q\<lparr>rq_correction := c\<rparr>"
| "queue_step (SubmitCorrection i w) q = snd (handleSubmitCorrection i q w)"

text \<open>What the server says of a review, and the address it gives for a finding's picture.\<close>

definition reviewRoles :: "string list" where
  "reviewRoles = [''admin'', ''soc_supervisor'', ''soc_operator'', ''site_manager'']"

definition HandleReviewPendingEntry :: "(string \<times> id) option \<Rightarrow> id list \<Rightarrow> id \<Rightarrow> string \<Rightarrow> string option \<Rightarrow> nat + string" where
  "HandleReviewPendingEntry claims own_entries i status note = (case claims of
     None \<Rightarrow> Inl 401
   | Some (role, org) \<Rightarrow>
       if role \<notin> set reviewRoles then Inl 403
       else if org = [] then Inl 400
       else if status \<notin> {''reviewed_compliant'', ''reviewed_violation'', ''dismissed''} then Inl 422
       else if length (nullish note []) > 2000 then Inl 400
       else if i \<notin> set own_entries then Inl 404
       else Inr status)"

definition server_frame_url :: "id \<Rightarrow> string" where
  "server_frame_url i = ''/api/portal/pending-review/'' @ i @ ''/frame''"

text \<open>The first segments of all routes below \<^verbatim>\<open>/api\<close> outside the group \<^verbatim>\<open>/api/v1\<close>.\<close>

definition api_groups :: "string list" where
  "api_groups = [''health'', ''integrations'', ''status'', ''auth'', ''cameras'', ''discover'', ''events'', ''timeline'', ''search'',
     ''recording'', ''exports'', ''settings'', ''users'', ''storage'', ''system'', ''audit'', ''reports'', ''me'', ''support'', ''admin'',
     ''bookmarks'', ''speakers'', ''audio-messages'', ''speaker-info'', ''playback'', ''live'', ''live2'', ''media'']"

definition may_have_route :: "string \<Rightarrow> string \<Rightarrow> bool" where
  "may_have_route m u =
     (if starts_with ''/api/v1/'' u then v1_routed m u
      else starts_with ''/api/'' u \<longrightarrow> hd (split_at_char (CHR ''/'') (drop 5 (url_path u))) \<in> set api_groups)"

section \<open>The dashboard\<close>

record SiteSummary =
  ss_id :: id
  ss_name :: string
  ss_status :: string
  ss_compliance_score :: number
  ss_cameras_online :: int
  ss_cameras_total :: int
  ss_open_incidents :: int
  ss_workers_on_site :: int
  ss_last_activity :: string
  ss_feature_mode :: "string option"

definition site_mode :: "SiteSummary \<Rightarrow> string" where
  "site_mode s = nullish (ss_feature_mode s) ''security_and_safety''"

definition safetySites :: "SiteSummary list \<Rightarrow> SiteSummary list" where
  "safetySites sites = filter (\<lambda>s. site_mode s \<noteq> ''security_only'') sites"

definition securityOnlySites :: "SiteSummary list \<Rightarrow> SiteSummary list" where
  "securityOnlySites sites = filter (\<lambda>s. ss_feature_mode s = Some ''security_only'') sites"

definition dashboardTitle :: "SiteSummary list \<Rightarrow> string" where
  "dashboardTitle sites =
     (if safetySites sites = [] then ''Security Dashboard''
      else if securityOnlySites sites = [] then ''Safety & Security Dashboard'' else ''Security & Safety Dashboard'')"

definition filteredSites :: "string \<Rightarrow> SiteSummary list \<Rightarrow> SiteSummary list" where
  "filteredSites siteFilter sites = (if siteFilter = ''all'' then sites else filter (\<lambda>s. site_mode s = siteFilter) sites)"

definition avgPPECompliance :: "SiteSummary list \<Rightarrow> int" where
  "avgPPECompliance sites = (let ss = safetySites sites in
     if ss = [] then 0 else js_round (foldl (\<lambda>a s. a + ss_compliance_score s) 0 ss / of_nat (length ss)))"

definition SITE_HEADERS :: "string list" where
  "SITE_HEADERS = [''Site'', ''ID'', ''Tier'', ''Status'', ''Cameras Online'', ''Open Incidents'', ''Workers'', ''Last Activity'']"

definition site_cells :: "SiteSummary \<Rightarrow> string list" where
  "site_cells s = [ss_name s, ss_id s, site_mode s, ss_status s, int_str (ss_cameras_online s), int_str (ss_open_incidents s),
     int_str (ss_workers_on_site s), ss_last_activity s]"

definition sites_csv :: "SiteSummary list \<Rightarrow> string" where
  "sites_csv sites = join [CHR 0x0A] (join '','' SITE_HEADERS # map (\<lambda>s. join '','' (site_cells s)) sites)"

text \<open>How a reader splits a file without quotes: lines, and each line at its commas.\<close>

definition read_csv :: "string \<Rightarrow> string list list" where
  "read_csv t = map (split_at_char (CHR '','')) (split_at_char (CHR 0x0A) t)"


section \<open>Preferences\<close>

lemma find_unique:
  assumes "\<And>x y. x \<in> set xs \<Longrightarrow> y \<in> set xs \<Longrightarrow> P x \<Longrightarrow> P y \<Longrightarrow> x = y" "x \<in> set xs" "P x"
  shows "List.find P xs = Some x"
  using assms by (metis (mono_tags, lifting) find_Some_iff find_None_iff nth_mem option.exhaust)

lemma find_map_comp: "List.find P (map f xs) = map_option f (List.find (\<lambda>x. P (f x)) xs)"
  by (induction xs) auto

lemma findSub_stored:
  assumes "distinct (map sub_key rows)" "r \<in> set rows" "sub_key r = (u, c, e)"
  shows "findSub (ListNotificationSubscriptions u rows) c e = sub_of_row r"
proof -
  let ?rows = "js_sort (\<lambda>a b. text_less (sr_event_type a) (sr_event_type b) \<or>
        sr_event_type a = sr_event_type b \<and> text_less (sr_channel a) (sr_channel b)) (filter (\<lambda>r. sr_user r = u) rows)"
  have "List.find (\<lambda>r. sr_channel r = c \<and> sr_event_type r = e) ?rows = Some r"
  proof (rule find_unique)
    fix x y assume "x \<in> set ?rows" "y \<in> set ?rows" "sr_channel x = c \<and> sr_event_type x = e" "sr_channel y = c \<and> sr_event_type y = e"
    then have "x \<in> set rows" "y \<in> set rows" "sub_key x = sub_key y" by (auto simp: sub_key_def)
    then show "x = y" using assms(1) by (meson distinct_map inj_onD)
  qed (use assms in \<open>auto simp: sub_key_def\<close>)
  then show ?thesis by (simp add: findSub_def ListNotificationSubscriptions_def find_map_comp sub_of_row_def)
qed

lemma findSub_missing:
  assumes "(u, c, e) \<notin> set (map sub_key rows)"
  shows "findSub (ListNotificationSubscriptions u rows) c e = findSub [] c e"
proof -
  have "List.find (\<lambda>s. ns_channel s = c \<and> ns_event_type s = e) (ListNotificationSubscriptions u rows) = None"
    using assms unfolding find_None_iff ListNotificationSubscriptions_def by (force simp: sub_of_row_def sub_key_def)
  then show ?thesis by (simp add: findSub_def)
qed

lemma replaced_keys: "map sub_key (map (\<lambda>s. if sub_key s = sub_key r then r else s) rows) = map sub_key rows"
  by (induction rows) auto

lemma upsert_key_list:
  "map sub_key (UpsertNotificationSubscription r rows) =
     (if sub_key r \<in> set (map sub_key rows) then map sub_key rows else map sub_key rows @ [sub_key r])"
  unfolding UpsertNotificationSubscription_def using replaced_keys [of r rows] by simp

lemma upsert_keys:
  "set (map sub_key (UpsertNotificationSubscription r rows)) = insert (sub_key r) (set (map sub_key rows))"
  unfolding upsert_key_list by auto

lemma upsert_rows_distinct:
  "distinct (map sub_key rows) \<Longrightarrow> distinct (map sub_key (UpsertNotificationSubscription r rows))"
  unfolding upsert_key_list by simp

lemma upsert_member:
  "x \<in> set (UpsertNotificationSubscription r rows) \<longleftrightarrow> x = r \<or> x \<in> set rows \<and> sub_key x \<noteq> sub_key r"
  by (auto simp: UpsertNotificationSubscription_def image_iff)

lemma upsert_other_user:
  "v \<noteq> sr_user r \<Longrightarrow> filter (\<lambda>x. sr_user x = v) (UpsertNotificationSubscription r rows) = filter (\<lambda>x. sr_user x = v) rows"
proof -
  assume v: "v \<noteq> sr_user r"
  have "filter (\<lambda>x. sr_user x = v) (map (\<lambda>s. if sub_key s = sub_key r then r else s) rows) = filter (\<lambda>x. sr_user x = v) rows"
    using v by (induction rows) (auto simp: sub_key_def)
  then show "filter (\<lambda>x. sr_user x = v) (UpsertNotificationSubscription r rows) = filter (\<lambda>x. sr_user x = v) rows"
    using v by (simp add: UpsertNotificationSubscription_def)
qed

definition row_of_sub :: "id \<Rightarrow> Subscription \<Rightarrow> SubRow" where
  "row_of_sub u s = \<lparr>sr_user = u, sr_channel = ns_channel s, sr_event_type = ns_event_type s, sr_severity_min = ns_severity_min s,
     sr_site_ids = None, sr_quiet_start = nullish (ns_quiet_start s) [], sr_quiet_end = nullish (ns_quiet_end s) [], sr_enabled = ns_enabled s\<rparr>"

definition page_sub :: "Subscription \<Rightarrow> bool" where
  "page_sub s \<longleftrightarrow> ns_channel s \<in> {''email'', ''sms''} \<and> ns_event_type s \<in> {''alarm_disposition'', ''monthly_summary''} \<and>
     ns_severity_min s \<in> set SEVERITY_OPTIONS"

lemma upsert_accepted:
  assumes "page_sub s"
  shows "HandleUpsertMyNotificationSub u (sub_body s) rows = Inr (UpsertNotificationSubscription (row_of_sub u s) rows)"
proof -
  have "decode_sub u (sub_body s) = Some (row_of_sub u s)"
    by (simp add: decode_sub_def sub_body_def go_object_def json_field_def go_string_def go_opt_strings_def go_bool_def row_of_sub_def)
  then show ?thesis using assms
    by (auto simp: HandleUpsertMyNotificationSub_def page_sub_def row_of_sub_def SEVERITY_OPTIONS_def)
qed

text \<open>The preferences page implements a map from channel and event type to a preference: saving one is accepted by the
  server, after which reloading shows it as saved, every other preference as it was (a missing one as switched
  off), and nothing of other users has changed.\<close>

theorem prefs_refine_map:
  assumes "distinct (map sub_key rows)" "page_sub nxt"
  shows "\<exists>rows'. HandleUpsertMyNotificationSub u (sub_body nxt) rows = Inr rows' \<and> distinct (map sub_key rows') \<and>
    (\<forall>c e. findSub (ListNotificationSubscriptions u rows') c e =
       (if c = ns_channel nxt \<and> e = ns_event_type nxt
        then nxt\<lparr>ns_quiet_start := omitempty (nullish (ns_quiet_start nxt) []), ns_quiet_end := omitempty (nullish (ns_quiet_end nxt) [])\<rparr>
        else findSub (ListNotificationSubscriptions u rows) c e)) \<and>
    (\<forall>v. v \<noteq> u \<longrightarrow> ListNotificationSubscriptions v rows' = ListNotificationSubscriptions v rows)"
proof (intro exI conjI allI impI)
  let ?r = "row_of_sub u nxt" and ?rows = "UpsertNotificationSubscription (row_of_sub u nxt) rows"
  show "HandleUpsertMyNotificationSub u (sub_body nxt) rows = Inr ?rows" by (rule upsert_accepted [OF assms(2)])
  show d: "distinct (map sub_key ?rows)" by (rule upsert_rows_distinct [OF assms(1)])
  have key: "sub_key ?r = (u, ns_channel nxt, ns_event_type nxt)" by (simp add: sub_key_def row_of_sub_def)
  fix c e
  show "findSub (ListNotificationSubscriptions u ?rows) c e =
       (if c = ns_channel nxt \<and> e = ns_event_type nxt
        then nxt\<lparr>ns_quiet_start := omitempty (nullish (ns_quiet_start nxt) []), ns_quiet_end := omitempty (nullish (ns_quiet_end nxt) [])\<rparr>
        else findSub (ListNotificationSubscriptions u rows) c e)"
  proof (cases "c = ns_channel nxt \<and> e = ns_event_type nxt")
    case True
    then show ?thesis using findSub_stored [OF d, of ?r u c e] key
      by (cases nxt) (simp add: upsert_member sub_of_row_def row_of_sub_def)
  next
    case False
    show ?thesis
    proof (cases "(u, c, e) \<in> set (map sub_key rows)")
      case True
      then obtain x where x: "x \<in> set rows" "sub_key x = (u, c, e)" by auto
      then have "x \<in> set ?rows" using False key by (auto simp: upsert_member)
      then show ?thesis using False findSub_stored [OF d _ x(2)] findSub_stored [OF assms(1) x] by auto
    next
      case no: False
      have "(u, c, e) \<notin> set (map sub_key ?rows)" unfolding upsert_keys key using no False by auto
      then show ?thesis using False findSub_missing [of u c e ?rows] findSub_missing [OF no] by auto
    qed
  qed
next
  fix v assume "v \<noteq> u"
  then show "ListNotificationSubscriptions v (UpsertNotificationSubscription (row_of_sub u nxt) rows) = ListNotificationSubscriptions v rows"
    by (simp add: ListNotificationSubscriptions_def upsert_other_user row_of_sub_def)
qed

definition email_pref :: Subscription where
  "email_pref = \<lparr>ns_channel = ''email'', ns_event_type = ''alarm_disposition'', ns_severity_min = ''low'', ns_enabled = True,
     ns_quiet_start = None, ns_quiet_end = None\<rparr>"

theorem prefs_refine_map_witness:
  "\<exists>rows'. HandleUpsertMyNotificationSub ''u1'' (sub_body email_pref) [] = Inr rows' \<and>
     findSub (ListNotificationSubscriptions ''u1'' rows') ''email'' ''alarm_disposition'' = email_pref"
proof -
  from prefs_refine_map [of "[]" email_pref "''u1''"] obtain rows' where
    "HandleUpsertMyNotificationSub ''u1'' (sub_body email_pref) [] = Inr rows'"
    "\<forall>c e. findSub (ListNotificationSubscriptions ''u1'' rows') c e =
       (if c = ns_channel email_pref \<and> e = ns_event_type email_pref
        then email_pref\<lparr>ns_quiet_start := omitempty (nullish (ns_quiet_start email_pref) []), ns_quiet_end := omitempty (nullish (ns_quiet_end email_pref) [])\<rparr>
        else findSub (ListNotificationSubscriptions ''u1'' []) c e)"
    by (auto simp: page_sub_def email_pref_def SEVERITY_OPTIONS_def)
  then show ?thesis by (intro exI [of _ rows']) (simp add: email_pref_def omitempty_def nullish_def)
qed









section \<open>Conversations\<close>

text \<open>An answer is timely when the view is still the one its request was made from.\<close>

fun timely :: "widget_event \<Rightarrow> SupportWidget \<Rightarrow> bool" where
  "timely (Polled i (Inr d)) s = (tk_id (th_ticket d) = i)"
| "timely (SentNew r) s = (sw_view s = ComposeView)"
| "timely (Replied (Inr (Inr d))) s = (sw_view s = ThreadView (tk_id (th_ticket d)))"
| "timely (StatusSet (Inr d) ts) s = (sw_view s = ThreadView (tk_id (th_ticket d)))"
| "timely e s = True"

definition timely_step :: "widget_event \<Rightarrow> SupportWidget \<Rightarrow> SupportWidget" where
  "timely_step e s = (if timely e s then widget_step e s else s)"

definition thread_of_view :: "SupportWidget \<Rightarrow> bool" where
  "thread_of_view s \<longleftrightarrow> (\<forall>d. sw_thread s = Some d \<longrightarrow> sw_view s = ThreadView (tk_id (th_ticket d)))"

lemma reload_keeps [simp]: "sw_thread (reload_answer r s) = sw_thread s" "sw_view (reload_answer r s) = sw_view s"
  by (auto simp: reload_answer_def split: sum.split exn.split)

lemma timely_step_inv: "thread_of_view s \<Longrightarrow> thread_of_view (timely_step e s)"
  by (cases "(e, s)" rule: timely.cases)
     (auto simp: timely_step_def thread_of_view_def widget_handleOpen_def go_back_def poll_answer_def send_answer_def reply_answer_def
       status_answer_def split: sum.splits exn.splits prod.splits)

lemma initial_thread: "thread_of_view initial_widget"
  by (simp add: thread_of_view_def initial_widget_def)

interpretation conversation: machine timely_step "\<lambda>s. s = initial_widget" thread_of_view
  by unfold_locales (auto intro: timely_step_inv initial_thread)

text \<open>The conversation on the screen is the one that was chosen: as long as every answer to a message, a reply or a
  change of status arrives before the customer leaves the view it was sent from, the thread that is shown belongs to
  the view, so that a reply goes to the conversation it is written under; and opening the widget clears the badge.\<close>

theorem conversation_matches_view:
  assumes "sw_thread (fold timely_step es initial_widget) = Some d"
  shows "sw_view (fold timely_step es initial_widget) = ThreadView (tk_id (th_ticket d)) \<and>
    (list_all (\<lambda>t. tk_last_message_at t \<le> now) (sw_tickets s) \<longrightarrow> unread (widget_handleOpen now s) = 0)"
proof -
  have "thread_of_view (fold timely_step es initial_widget)"
    by (rule conversation.inv_run [OF initial_thread])
  moreover have "unread (widget_handleOpen now s) = 0" if "list_all (\<lambda>t. tk_last_message_at t \<le> now) (sw_tickets s)"
    using that by (auto simp: unread_def widget_handleOpen_def list_all_iff filter_empty_conv)
  ultimately show ?thesis using assms by (auto simp: thread_of_view_def)
qed

definition fixture_thread :: "int \<Rightarrow> Thread" where
  "fixture_thread i = \<lparr>th_ticket = \<lparr>tk_id = i, tk_subject = ''Gate'', tk_status = ''open'', tk_last_message_at = 0, tk_last_message_by = ''soc''\<rparr>,
     th_messages = []\<rparr>"

theorem conversation_matches_view_witness:
  "sw_view (fold timely_step [OpenWidget 1, PickTicket 7, Polled 7 (Inr (fixture_thread 7))] initial_widget) = ThreadView 7"
  using conversation_matches_view [of "[OpenWidget 1, PickTicket 7, Polled 7 (Inr (fixture_thread 7))]" "fixture_thread 7"]
  by (simp add: timely_step_def poll_answer_def widget_handleOpen_def initial_widget_def fixture_thread_def)

text \<open>
  A reply that is answered late puts its conversation under the one the customer has moved to, and
  erases what was typed there meanwhile.
\<close>

lemma late_reply_wrong_conversation:
  assumes "sw_view s = ThreadView i" "js_trim t \<noteq> []"
  shows "fold widget_step [GoBack, PickTicket j, TypeDraft t, Replied (Inr (Inr d))] s =
    s\<lparr>sw_view := ThreadView j, sw_thread := Some d, sw_draft := [], sw_busy := False\<rparr>"
  using assms by (simp add: go_back_def reply_answer_def)

section \<open>The review queue\<close>

definition queue_ok :: "ReviewQueue \<Rightarrow> bool" where
  "queue_ok q \<longleftrightarrow> distinct (map pe_id (rq_entries q))"

lemma distinct_map_filter: "distinct (map f xs) \<Longrightarrow> distinct (map f (filter P xs))"
  by (induction xs) auto

lemma initial_queue_ok: "queue_ok initial_queue"
  by (simp add: queue_ok_def initial_queue_def)

lemma queue_step_ok: "queue_ok q \<Longrightarrow> queue_ok (queue_step e q)"
  by (cases e) (auto simp: queue_ok_def queue_loaded_def ws_handler_def handleValidate_def handleFalsePositive_def handleSubmitCorrection_def
      drop_entry_def Let_def distinct_map_filter split: sum.splits option.splits prod.splits)

interpretation queue: machine queue_step "\<lambda>q. q = initial_queue" queue_ok
  by unfold_locales (auto intro: initial_queue_ok queue_step_ok)

text \<open>The review queue shows each finding once: whatever is loaded, announced, validated or dismissed, no two rows have the
  same identifier; a review that the server accepted removes exactly its finding, and one that it refused
  removes nothing.\<close>

theorem queue_shows_once:
  fixes es
  defines "q \<equiv> fold queue_step es initial_queue"
  shows "distinct (map pe_id (pending_entries q)) \<and>
    (case submitReview i (JObj [(''status'', JStr ''reviewed_violation'')]) w of
       (w', Inr _) \<Rightarrow> rq_entries (queue_step (Validate i w) q) = filter (\<lambda>e. pe_id e \<noteq> i) (rq_entries q)
     | (w', Inl _) \<Rightarrow> rq_entries (queue_step (Validate i w) q) = rq_entries q)"
proof -
  have "queue_ok q" unfolding q_def by (rule queue.inv_run [OF initial_queue_ok])
  then show ?thesis
    by (auto simp: queue_ok_def pending_entries_def distinct_map_filter handleValidate_def drop_entry_def split: sum.split prod.split)
qed

text \<open>
  The picture of a finding is not there: the address the server gives lies outside the group of the
  route that serves it. The placeholder of a fresh detection has the right address.
\<close>

lemma pictures_not_served:
  assumes "plain_id i"
  shows "\<not> may_have_route ''GET'' (server_frame_url i) \<and> may_have_route ''GET'' (''/api/v1/portal/pending-review/'' @ i @ ''/frame'')"
  using assms by (simp add: may_have_route_def server_frame_url_def api_groups_def route_simps)

section \<open>Exports and figures\<close>

definition plain_cell :: "string \<Rightarrow> bool" where
  "plain_cell c \<longleftrightarrow> CHR '','' \<notin> set c \<and> CHR 0x0A \<notin> set c"

lemma join_no_newline: "CHR 0x0A \<notin> set sep \<Longrightarrow> \<forall>c\<in>set cs. CHR 0x0A \<notin> set c \<Longrightarrow> CHR 0x0A \<notin> set (join sep cs)"
  by (induction sep cs rule: join.induct) auto

text \<open>The exported list of sites is readable as long as no cell contains a comma or a line break: splitting the file gives back the header
  and one row of eight cells per site.\<close>

theorem sites_csv_round_trip:
  assumes "\<forall>s\<in>set sites. \<forall>c\<in>set (site_cells s). plain_cell c"
  shows "read_csv (sites_csv sites) = SITE_HEADERS # map site_cells sites"
proof -
  let ?rows = "SITE_HEADERS # map site_cells sites"
  have cells: "\<forall>r\<in>set ?rows. r \<noteq> [] \<and> (\<forall>c\<in>set r. plain_cell c)"
    using assms by (auto simp: SITE_HEADERS_def plain_cell_def site_cells_def)
  have "sites_csv sites = join [CHR 0x0A] (map (join '','') ?rows)" by (simp add: sites_csv_def comp_def)
  moreover have "split_at_char (CHR 0x0A) (join [CHR 0x0A] (map (join '','') ?rows)) = map (join '','') ?rows"
  proof (rule split_join)
    have "CHR 0x0A \<notin> set (join '','' r)" if "r \<in> set ?rows" for r
      using cells that by (intro join_no_newline) (auto simp: plain_cell_def)
    then show "\<forall>l\<in>set (map (join '','') ?rows). CHR 0x0A \<notin> set l" by auto
  qed simp
  moreover have "map (split_at_char (CHR '','')) (map (join '','') ?rows) = ?rows"
  proof -
    have "split_at_char (CHR '','') (join '','' r) = r" if "r \<in> set ?rows" for r
      using cells that by (intro split_join) (auto simp: plain_cell_def)
    then show ?thesis by (simp only: map_map comp_def) (rule map_idI)
  qed
  ultimately show ?thesis by (simp only: read_csv_def)
qed

definition fixture_site :: SiteSummary where
  "fixture_site = \<lparr>ss_id = ''ACG-101'', ss_name = ''North yard'', ss_status = ''active'', ss_compliance_score = 85, ss_cameras_online = 3,
     ss_cameras_total = 4, ss_open_incidents = 0, ss_workers_on_site = 12, ss_last_activity = ''2026-05-01'', ss_feature_mode = None\<rparr>"

theorem sites_csv_round_trip_witness:
  "read_csv (sites_csv [fixture_site]) = [SITE_HEADERS, site_cells fixture_site]"
proof -
  have "\<forall>c\<in>set (site_cells fixture_site). plain_cell c"
    by code_simp
  then show ?thesis using sites_csv_round_trip [of "[fixture_site]"] by simp
qed

text \<open>A comma in a site's name shifts its row by one column.\<close>

lemma comma_shifts_row:
  assumes "\<forall>c\<in>set (tl (site_cells s)). plain_cell c" "ss_name s = a @ '','' @ b" "plain_cell a" "plain_cell b"
  shows "split_at_char (CHR '','') (join '','' (site_cells s)) = a # b # tl (site_cells s)"
proof -
  have "join '','' (site_cells s) = join '','' (a # b # tl (site_cells s))" using assms(2) by (simp add: site_cells_def)
  moreover have "split_at_char (CHR '','') (join '','' (a # b # tl (site_cells s))) = a # b # tl (site_cells s)"
    using assms by (intro split_join) (auto simp: plain_cell_def)
  ultimately show ?thesis by simp
qed

text \<open>Rounding the seconds on their own can give sixty of them.\<close>

lemma fmtSec_sixty: "fmtSec (1197 / 10) = ''1m 60s''" "fmtSec (596 / 10) = ''60s''"
  by code_simp+

text \<open>Every site is on exactly one side of the portfolio.\<close>

lemma portfolio_partition: "mset sites = mset (safetySites sites) + mset (securityOnlySites sites)"
  by (induction sites) (auto simp: safetySites_def securityOnlySites_def site_mode_def nullish_def split: option.splits)

end
