(* ===== verification/Camera_Manager.thy ===== *)
theory Camera_Manager
  imports Site_Admin Event_List
begin

text \<open>
  The camera manager (\<^verbatim>\<open>components/CameraManager.tsx\<close>): adding, discovering, deleting and editing cameras, with the Go
  handler of an update (\<^verbatim>\<open>internal/api/cameras.go\<close>, \<^verbatim>\<open>internal/database/db.go\<close>). An editing session is a machine over typing,
  losing focus, switching tabs, the switches and the two ways to close. Shown: what saving and closing stores for every
  field, that a deletion the server refuses is reported as done, and that a failed bulk registration is not reported.
  Requests of one handler run one after another; the list is reloaded by \<open>refresh\<close>, a parameter.
\<close>

section \<open>State\<close>

record CameraInfo =
  cm_id :: id
  cm_name :: string
  cm_onvif_address :: string
  cm_username :: string
  cm_rtsp_uri :: string
  cm_sub_stream_uri :: string
  cm_recording :: bool
  cm_events_enabled :: bool
  cm_audio_enabled :: bool
  cm_camera_group :: string
  cm_privacy_mask :: bool
  cm_manufacturer :: string
  cm_model :: string

record DiscoveredDevice =
  dd_address :: string
  dd_name :: string

datatype settings_tab = General_tab | Recording_tab | Vca_tab | Milesight_tab

record AddForm =
  af_name :: string
  af_onvif_address :: string
  af_username :: string
  af_password :: string
  af_device_class :: string

definition blank_add :: AddForm where
  "blank_add = \<lparr>af_name = [], af_onvif_address = [], af_username = ''admin'', af_password = [], af_device_class = ''continuous''\<rparr>"

text \<open>A toast is its type, title and body. The sets of the code keep the order of insertion.\<close>

type_synonym manager_toast = "string \<times> string \<times> json"

record CameraManager =
  mg_showAddModal :: bool
  mg_showDiscovery :: bool
  mg_discovering :: bool
  mg_discoveredDevices :: "DiscoveredDevice list"
  mg_selectedDevices :: "string list"
  mg_discoveryAuth :: "string \<times> string"
  mg_addingBulk :: bool
  mg_cameraPreviews :: "string \<rightharpoonup> string"
  mg_loadingPreviews :: "string list"
  mg_editingCamera :: "CameraInfo option"
  mg_settingsTab :: settings_tab
  mg_rebooting :: bool
  mg_savingEdit :: bool
  mg_addForm :: AddForm
  mg_addError :: "string option"
  mg_adding :: bool
  mg_senseSetup :: "(string \<times> json) option"
  mg_confirmDeleteId :: "id option"
  mg_selected :: "id list"
  mg_confirmBulkDelete :: bool
  mg_bulkDeleting :: bool
  mg_toasts :: "manager_toast list"

definition initial_manager :: CameraManager where
  "initial_manager = \<lparr>mg_showAddModal = False, mg_showDiscovery = False, mg_discovering = False, mg_discoveredDevices = [],
     mg_selectedDevices = [], mg_discoveryAuth = (''admin'', []), mg_addingBulk = False, mg_cameraPreviews = Map.empty,
     mg_loadingPreviews = [], mg_editingCamera = None, mg_settingsTab = General_tab, mg_rebooting = False, mg_savingEdit = False,
     mg_addForm = blank_add, mg_addError = None, mg_adding = False, mg_senseSetup = None, mg_confirmDeleteId = None,
     mg_selected = [], mg_confirmBulkDelete = False, mg_bulkDeleting = False, mg_toasts = []\<rparr>"

definition manager_push :: "string \<Rightarrow> string \<Rightarrow> json \<Rightarrow> CameraManager \<Rightarrow> CameraManager" where
  "manager_push kind title body m = m\<lparr>mg_toasts := mg_toasts m @ [(kind, title, body)]\<rparr>"

section \<open>Adding and deleting\<close>

definition add_json :: "AddForm \<Rightarrow> json" where
  "add_json f = JObj [(''name'', JStr (af_name f)), (''onvif_address'', JStr (af_onvif_address f)), (''username'', JStr (af_username f)),
     (''password'', JStr (af_password f)), (''device_class'', JStr (af_device_class f))]"

definition can_add :: "CameraManager \<Rightarrow> bool" where
  "can_add m \<longleftrightarrow> \<not> mg_adding m \<and> js_trim (af_onvif_address (mg_addForm m)) \<noteq> []"

definition add_failed :: string where
  "add_failed = ''Failed to add camera '' @ emdash @ '' check the address, credentials, and that ONVIF is enabled.''"

definition sense_setup :: "string \<Rightarrow> json \<Rightarrow> CameraManager \<Rightarrow> CameraManager" where
  "sense_setup origin created m = (case truthy_at ''sense_webhook_token'' created of
     Some (JStr t) \<Rightarrow>
       if json_field ''device_class'' created = Some (JStr ''sense_pushed'')
       then m\<lparr>mg_senseSetup := Some (origin @ ''/api/integrations/milesight/sense/'' @ t, nullish (json_field ''name'' created) JNull)\<rparr>
       else m
   | _ \<Rightarrow> m)"

definition handleAdd :: "unit io \<Rightarrow> string \<Rightarrow> CameraManager \<Rightarrow> World \<Rightarrow> World \<times> CameraManager" where
  "handleAdd refresh origin m w =
     (let f = mg_addForm m; m = m\<lparr>mg_addError := None, mg_adding := True\<rparr> in
      case bind_io (createCamera (add_json f)) (\<lambda>created. bind_io refresh (\<lambda>_. return_io created)) w of
        (w', Inl (Error e)) \<Rightarrow> (w', m\<lparr>mg_addError := Some (str_or (Some e) add_failed), mg_adding := False\<rparr>)
      | (w', Inr created) \<Rightarrow>
          (w', (sense_setup origin created
                 (manager_push ''success'' ''Camera added'' (member_nullish (json_field ''name'' created) (JStr (af_name f)))
                   (m\<lparr>mg_showAddModal := False, mg_addForm := blank_add\<rparr>)))\<lparr>mg_adding := False\<rparr>))"

definition toggleSelect :: "id \<Rightarrow> CameraManager \<Rightarrow> CameraManager" where
  "toggleSelect i m = m\<lparr>mg_selected := toggle_member i (mg_selected m)\<rparr>"

text \<open>\<^verbatim>\<open>new Set(xs)\<close>.\<close>

definition js_set :: "'a list \<Rightarrow> 'a list" where
  "js_set xs = rev (remdups (rev xs))"

definition toggleSelectAll :: "CameraInfo list \<Rightarrow> CameraManager \<Rightarrow> CameraManager" where
  "toggleSelectAll cams m =
     m\<lparr>mg_selected := if length (mg_selected m) = length cams then [] else js_set (map cm_id cams)\<rparr>"

fun delete_all :: "id list \<Rightarrow> nat \<Rightarrow> World \<Rightarrow> World \<times> nat" where
  "delete_all [] failed w = (w, failed)"
| "delete_all (i # ids) failed w = (case deleteCamera i w of
     (w', Inl e) \<Rightarrow> delete_all ids (Suc failed) w'
   | (w', Inr _) \<Rightarrow> delete_all ids failed w')"

definition cameras_text :: "nat \<Rightarrow> string" where
  "cameras_text n = nat_str n @ '' camera'' @ (if n \<noteq> 1 then ''s'' else [])"

text \<open>No result: the rejection of \<open>refresh\<close> is not handled.\<close>

definition handleBulkDelete :: "unit io \<Rightarrow> CameraManager \<Rightarrow> World \<Rightarrow> World \<times> CameraManager" where
  "handleBulkDelete refresh m w =
     (let ids = mg_selected m;
          (w1, failed) = delete_all ids 0 w;
          m = m\<lparr>mg_selected := [], mg_confirmBulkDelete := False, mg_bulkDeleting := False\<rparr> in
      case refresh w1 of
        (w2, Inl e) \<Rightarrow> (w2, m)
      | (w2, Inr _) \<Rightarrow>
          (w2, if failed > 0 then manager_push ''error'' ''Bulk delete partial'' (JStr (cameras_text failed @ '' could not be removed'')) m
               else manager_push ''success'' ''Cameras removed'' (JStr (cameras_text (length ids) @ '' deleted'')) m))"

definition manager_camera_name :: "CameraInfo list \<Rightarrow> id \<Rightarrow> string" where
  "manager_camera_name cams i = (case List.find (\<lambda>c. cm_id c = i) cams of None \<Rightarrow> i | Some c \<Rightarrow> cm_name c)"

definition manager_handleDelete :: "unit io \<Rightarrow> CameraInfo list \<Rightarrow> id \<Rightarrow> CameraManager \<Rightarrow> World \<Rightarrow> World \<times> CameraManager" where
  "manager_handleDelete refresh cams i m w =
     (case bind_io (deleteCamera i) (\<lambda>_. refresh) w of
        (w', Inl (Error e)) \<Rightarrow> (w', manager_push ''error'' ''Delete failed'' (JStr e) (m\<lparr>mg_confirmDeleteId := None\<rparr>))
      | (w', Inr _) \<Rightarrow>
          (w', manager_push ''success'' ''Camera removed'' (JStr (manager_camera_name cams i)) (m\<lparr>mg_confirmDeleteId := None\<rparr>)))"

section \<open>Discovery\<close>

definition device_of :: "json \<Rightarrow> DiscoveredDevice" where
  "device_of j = \<lparr>dd_address = str_field ''address'' j [], dd_name = str_field ''name'' j []\<rparr>"

definition handleDiscover :: "CameraManager \<Rightarrow> World \<Rightarrow> World \<times> CameraManager" where
  "handleDiscover m w =
     (let m = m\<lparr>mg_showDiscovery := True, mg_selectedDevices := [], mg_discovering := False\<rparr> in
      case discoverCameras w of
        (w', Inl e) \<Rightarrow> (w', m)
      | (w', Inr devices) \<Rightarrow> (w', m\<lparr>mg_discoveredDevices := map device_of (json_items devices)\<rparr>))"

definition toggleDeviceSelection :: "string \<Rightarrow> CameraManager \<Rightarrow> CameraManager" where
  "toggleDeviceSelection a m = m\<lparr>mg_selectedDevices := toggle_member a (mg_selectedDevices m)\<rparr>"

definition toggleAllDevices :: "CameraManager \<Rightarrow> CameraManager" where
  "toggleAllDevices m =
     m\<lparr>mg_selectedDevices := if length (mg_selectedDevices m) = length (mg_discoveredDevices m) then []
         else js_set (map dd_address (mg_discoveredDevices m))\<rparr>"

text \<open>A preview that cannot be loaded leaves no trace.\<close>

definition handleLoadPreview :: "(string \<Rightarrow> string) \<Rightarrow> string \<Rightarrow> CameraManager \<Rightarrow> World \<Rightarrow> World \<times> CameraManager" where
  "handleLoadPreview objectURL a m w =
     (let m = m\<lparr>mg_loadingPreviews := removeAll a (mg_loadingPreviews m)\<rparr> in
      case getDevicePreview objectURL a (fst (mg_discoveryAuth m)) (snd (mg_discoveryAuth m)) w of
        (w', Inl e) \<Rightarrow> (w', m)
      | (w', Inr url) \<Rightarrow> (w', m\<lparr>mg_cameraPreviews := (mg_cameraPreviews m)(a \<mapsto> url)\<rparr>))"

definition device_name :: "DiscoveredDevice \<Rightarrow> string" where
  "device_name d = str_or (Some (dd_name d)) (dd_address d)"

definition bulk_body :: "string \<times> string \<Rightarrow> DiscoveredDevice \<Rightarrow> json" where
  "bulk_body auth d = JObj [(''name'', JStr (device_name d)), (''onvif_address'', JStr (dd_address d)),
     (''username'', JStr (fst auth)), (''password'', JStr (snd auth))]"

definition chosen_devices :: "CameraManager \<Rightarrow> DiscoveredDevice list" where
  "chosen_devices m = concat (map (\<lambda>a. case List.find (\<lambda>d. dd_address d = a) (mg_discoveredDevices m) of None \<Rightarrow> [] | Some d \<Rightarrow> [d])
     (mg_selectedDevices m))"

text \<open>\<^verbatim>\<open>Promise.allSettled\<close>: the outcomes are dropped.\<close>

fun all_settled :: "'a io list \<Rightarrow> World \<Rightarrow> World" where
  "all_settled [] w = w"
| "all_settled (c # cs) w = all_settled cs (fst (c w))"

definition handleBulkAdd :: "unit io \<Rightarrow> CameraManager \<Rightarrow> World \<Rightarrow> World \<times> CameraManager" where
  "handleBulkAdd refresh m w =
     (if mg_selectedDevices m = [] then (w, m)
      else case refresh (all_settled (map (\<lambda>d. createCamera (bulk_body (mg_discoveryAuth m) d)) (chosen_devices m)) w) of
        (w', Inl e) \<Rightarrow> (w', m\<lparr>mg_addingBulk := False\<rparr>)
      | (w', Inr _) \<Rightarrow> (w', m\<lparr>mg_showDiscovery := False, mg_discoveryAuth := (''admin'', []), mg_addingBulk := False\<rparr>))"

definition addDiscoveredDevice :: "DiscoveredDevice \<Rightarrow> CameraManager \<Rightarrow> CameraManager" where
  "addDiscoveredDevice d m = m\<lparr>mg_addForm := \<lparr>af_name = device_name d, af_onvif_address = dd_address d, af_username = ''admin'',
     af_password = [], af_device_class = ''continuous''\<rparr>, mg_showDiscovery := False, mg_showAddModal := True\<rparr>"

section \<open>Updates and the server\<close>

text \<open>A change of the list is reported when it fails; the list is refreshed in the background.\<close>

definition handleUpdate :: "unit io \<Rightarrow> id \<Rightarrow> json \<Rightarrow> CameraManager \<Rightarrow> World \<Rightarrow> World \<times> CameraManager" where
  "handleUpdate refresh i data m w = (case updateCamera i data w of
     (w', Inl (Error e)) \<Rightarrow> (w', manager_push ''error'' ''Update failed'' (JStr e) m)
   | (w', Inr _) \<Rightarrow> (fst (refresh w'), m))"

definition toggle_recording :: "unit io \<Rightarrow> CameraInfo \<Rightarrow> CameraManager \<Rightarrow> World \<Rightarrow> World \<times> CameraManager" where
  "toggle_recording refresh c = handleUpdate refresh (cm_id c) (JObj [(''recording'', JBool (\<not> cm_recording c))])"

text \<open>The answer of the confirmation is an argument; the text is the one of the alert. The list is refreshed in the background.\<close>

definition handleReboot :: "unit io \<Rightarrow> (number \<Rightarrow> string) \<Rightarrow> bool \<Rightarrow> CameraInfo \<Rightarrow> World \<Rightarrow> World \<times> string option" where
  "handleReboot refresh fractx confirmed c w =
     (if \<not> confirmed then (w, None)
      else case rebootCamera (cm_id c) w of
        (w', Inl (Error e)) \<Rightarrow> (w', Some (''Reboot failed: '' @ e))
      | (w', Inr r) \<Rightarrow> (fst (refresh w'), Some (''Reboot requested: '' @
            (case json_field ''message'' r of None \<Rightarrow> ''undefined'' | Some v \<Rightarrow> js_string fractx v))))"

record CameraUpdate =
  cu_Name :: "string option"
  cu_OnvifAddress :: "string option"
  cu_RtspURI :: "string option"
  cu_SubStreamURI :: "string option"
  cu_Username :: "string option"
  cu_Password :: "string option"
  cu_RetentionDays :: "int option"
  cu_Recording :: "bool option"
  cu_RecordingMode :: "string option"
  cu_PreBufferSec :: "int option"
  cu_PostBufferSec :: "int option"
  cu_RecordingTriggers :: "string option"
  cu_EventsEnabled :: "bool option"
  cu_AudioEnabled :: "bool option"
  cu_CameraGroup :: "string option"
  cu_Schedule :: "string option"
  cu_PrivacyMask :: "bool option"

record CameraRow =
  cr_Name :: string
  cr_OnvifAddress :: string
  cr_RtspURI :: string
  cr_SubStreamURI :: string
  cr_Username :: string
  cr_Password :: string
  cr_RetentionDays :: int
  cr_Recording :: bool
  cr_RecordingMode :: string
  cr_PreBufferSec :: int
  cr_PostBufferSec :: int
  cr_RecordingTriggers :: string
  cr_EventsEnabled :: bool
  cr_AudioEnabled :: bool
  cr_CameraGroup :: string
  cr_Schedule :: string
  cr_PrivacyMask :: bool
  cr_Status :: string
  cr_LastStreamError :: string

definition go_ptr_bool :: "json option \<Rightarrow> bool option option" where
  "go_ptr_bool v = (case v of None \<Rightarrow> Some None | Some JNull \<Rightarrow> Some None | Some (JBool b) \<Rightarrow> Some (Some b) | _ \<Rightarrow> None)"

definition go_ptr_int :: "json option \<Rightarrow> int option option" where
  "go_ptr_int v = (case v of None \<Rightarrow> Some None | Some JNull \<Rightarrow> Some None | _ \<Rightarrow> map_option Some (go_int v))"

definition decode_update :: "json \<Rightarrow> CameraUpdate option" where
  "decode_update j =
     Option.bind (go_object j) (\<lambda>b.
     Option.bind (go_ptr_string (json_field ''name'' b)) (\<lambda>nm.
     Option.bind (go_ptr_string (json_field ''onvif_address'' b)) (\<lambda>oa.
     Option.bind (go_ptr_string (json_field ''rtsp_uri'' b)) (\<lambda>ru.
     Option.bind (go_ptr_string (json_field ''sub_stream_uri'' b)) (\<lambda>su.
     Option.bind (go_ptr_string (json_field ''username'' b)) (\<lambda>un.
     Option.bind (go_ptr_string (json_field ''password'' b)) (\<lambda>pw.
     Option.bind (go_ptr_int (json_field ''retention_days'' b)) (\<lambda>rd.
     Option.bind (go_ptr_bool (json_field ''recording'' b)) (\<lambda>rc.
     Option.bind (go_ptr_string (json_field ''recording_mode'' b)) (\<lambda>rm.
     Option.bind (go_ptr_int (json_field ''pre_buffer_sec'' b)) (\<lambda>pr.
     Option.bind (go_ptr_int (json_field ''post_buffer_sec'' b)) (\<lambda>po.
     Option.bind (go_ptr_string (json_field ''recording_triggers'' b)) (\<lambda>rt.
     Option.bind (go_ptr_bool (json_field ''events_enabled'' b)) (\<lambda>ev.
     Option.bind (go_ptr_bool (json_field ''audio_enabled'' b)) (\<lambda>au.
     Option.bind (go_ptr_string (json_field ''camera_group'' b)) (\<lambda>cg.
     Option.bind (go_ptr_string (json_field ''schedule'' b)) (\<lambda>sc.
     Option.bind (go_ptr_bool (json_field ''privacy_mask'' b)) (\<lambda>pm.
       Some \<lparr>cu_Name = nm, cu_OnvifAddress = oa, cu_RtspURI = ru, cu_SubStreamURI = su, cu_Username = un, cu_Password = pw,
         cu_RetentionDays = rd, cu_Recording = rc, cu_RecordingMode = rm, cu_PreBufferSec = pr, cu_PostBufferSec = po,
         cu_RecordingTriggers = rt, cu_EventsEnabled = ev, cu_AudioEnabled = au, cu_CameraGroup = cg, cu_Schedule = sc,
         cu_PrivacyMask = pm\<rparr>))))))))))))))))))"

text \<open>\<open>encrypt\<close> is the encryption of credentials at rest; \<open>None\<close> when it fails. The database accepts the write.\<close>

definition UpdateCamera :: "(string \<Rightarrow> string option) \<Rightarrow> CameraUpdate \<Rightarrow> CameraRow \<Rightarrow> CameraRow option" where
  "UpdateCamera encrypt u r =
     Option.bind (case cu_Password u of None \<Rightarrow> Some (cr_Password r) | Some p \<Rightarrow> encrypt p) (\<lambda>pw.
       Some (r\<lparr>cr_Name := nullish (cu_Name u) (cr_Name r), cr_OnvifAddress := nullish (cu_OnvifAddress u) (cr_OnvifAddress r),
         cr_RtspURI := nullish (cu_RtspURI u) (cr_RtspURI r), cr_SubStreamURI := nullish (cu_SubStreamURI u) (cr_SubStreamURI r),
         cr_Username := nullish (cu_Username u) (cr_Username r), cr_Password := pw,
         cr_RetentionDays := nullish (cu_RetentionDays u) (cr_RetentionDays r), cr_Recording := nullish (cu_Recording u) (cr_Recording r),
         cr_RecordingMode := nullish (cu_RecordingMode u) (cr_RecordingMode r), cr_PreBufferSec := nullish (cu_PreBufferSec u) (cr_PreBufferSec r),
         cr_PostBufferSec := nullish (cu_PostBufferSec u) (cr_PostBufferSec r),
         cr_RecordingTriggers := nullish (cu_RecordingTriggers u) (cr_RecordingTriggers r),
         cr_EventsEnabled := nullish (cu_EventsEnabled u) (cr_EventsEnabled r), cr_AudioEnabled := nullish (cu_AudioEnabled u) (cr_AudioEnabled r),
         cr_CameraGroup := nullish (cu_CameraGroup u) (cr_CameraGroup r), cr_Schedule := nullish (cu_Schedule u) (cr_Schedule r),
         cr_PrivacyMask := nullish (cu_PrivacyMask u) (cr_PrivacyMask r)\<rparr>))"

text \<open>
  After a change of the stream addresses they are tried; \<open>probe\<close> gives the error or the addresses that work, and is
  absent where no ffmpeg is configured.
\<close>

record UpdateEnv =
  ue_claims :: "string option"
  ue_access :: bool
  ue_encrypt :: "string \<Rightarrow> string option"
  ue_probe :: "(string \<Rightarrow> string \<Rightarrow> string \<Rightarrow> string + string \<times> string) option"

definition probe_stored :: "UpdateEnv \<Rightarrow> CameraRow \<Rightarrow> CameraRow \<Rightarrow> CameraRow" where
  "probe_stored env prev r =
     (if cr_RtspURI r = cr_RtspURI prev \<and> cr_SubStreamURI r = cr_SubStreamURI prev then r
      else case ue_probe env of
        None \<Rightarrow> r
      | Some probe \<Rightarrow> (case probe (cr_RtspURI r) (cr_SubStreamURI r) (cr_OnvifAddress r) of
            Inl e \<Rightarrow> r\<lparr>cr_Status := ''offline'', cr_LastStreamError := e\<rparr>
          | Inr (main, sub) \<Rightarrow> r\<lparr>cr_RtspURI := main, cr_SubStreamURI := sub, cr_Status := ''online'', cr_LastStreamError := []\<rparr>))"

definition HandleUpdateCamera :: "UpdateEnv \<Rightarrow> json \<Rightarrow> CameraRow \<Rightarrow> (nat \<times> string) + CameraRow" where
  "HandleUpdateCamera env body row = (case ue_claims env of
     None \<Rightarrow> Inl (401, ''unauthorized'')
   | Some role \<Rightarrow>
       if role \<noteq> ''admin'' \<and> role \<noteq> ''soc_supervisor'' then Inl (403, ''forbidden: admin only'')
       else if \<not> ue_access env then Inl (404, ''camera not found'')
       else (case decode_update body of
           None \<Rightarrow> Inl (400, ''invalid request body'')
         | Some u \<Rightarrow> (case UpdateCamera (ue_encrypt env) u row of
               None \<Rightarrow> Inl (500, ''encryption failed'')
             | Some r \<Rightarrow> Inr (probe_stored env row r))))"

section \<open>Editing a camera\<close>

datatype text_field = Name_field | Group_field | Address_field | Rtsp_field | Sub_field | User_field

fun field_key :: "text_field \<Rightarrow> string" where
  "field_key Name_field = ''name''"
| "field_key Group_field = ''camera_group''"
| "field_key Address_field = ''onvif_address''"
| "field_key Rtsp_field = ''rtsp_uri''"
| "field_key Sub_field = ''sub_stream_uri''"
| "field_key User_field = ''username''"

fun cam_text :: "text_field \<Rightarrow> CameraInfo \<Rightarrow> string" where
  "cam_text Name_field c = cm_name c"
| "cam_text Group_field c = cm_camera_group c"
| "cam_text Address_field c = cm_onvif_address c"
| "cam_text Rtsp_field c = cm_rtsp_uri c"
| "cam_text Sub_field c = cm_sub_stream_uri c"
| "cam_text User_field c = cm_username c"

definition edit_fields :: "text_field list" where
  "edit_fields = [Name_field, Group_field, Address_field, Rtsp_field, Sub_field, User_field]"

text \<open>What leaving an input does to the camera in the dialog: name and group are not taken over.\<close>

fun blurred :: "text_field \<Rightarrow> string \<Rightarrow> CameraInfo \<Rightarrow> CameraInfo" where
  "blurred Name_field v c = c"
| "blurred Group_field v c = c"
| "blurred Address_field v c = c\<lparr>cm_onvif_address := v\<rparr>"
| "blurred Rtsp_field v c = c\<lparr>cm_rtsp_uri := v\<rparr>"
| "blurred Sub_field v c = c\<lparr>cm_sub_stream_uri := v\<rparr>"
| "blurred User_field v c = c\<lparr>cm_username := v\<rparr>"

definition onBlur :: "text_field \<Rightarrow> string \<Rightarrow> CameraInfo \<Rightarrow> (json \<times> CameraInfo) option" where
  "onBlur f v c = (if v \<noteq> cam_text f c then Some (JObj [(field_key f, JStr v)], blurred f v c) else None)"

datatype camera_flag = Audio_flag | Events_flag | Privacy_flag

fun flag_click :: "camera_flag \<Rightarrow> CameraInfo \<Rightarrow> json \<times> CameraInfo" where
  "flag_click Audio_flag c = (let val = \<not> cm_audio_enabled c in (JObj [(''audio_enabled'', JBool val)], c\<lparr>cm_audio_enabled := val\<rparr>))"
| "flag_click Events_flag c = (let val = \<not> cm_events_enabled c in (JObj [(''events_enabled'', JBool val)], c\<lparr>cm_events_enabled := val\<rparr>))"
| "flag_click Privacy_flag c = (let val = \<not> cm_privacy_mask c in (JObj [(''privacy_mask'', JBool val)], c\<lparr>cm_privacy_mask := val\<rparr>))"

text \<open>The values of the inputs are \<open>None\<close> while another tab is shown.\<close>

definition changed_fields :: "(text_field \<Rightarrow> string) option \<Rightarrow> CameraInfo \<Rightarrow> (string \<times> json) list" where
  "changed_fields inputs c = (case inputs of None \<Rightarrow> []
     | Some box \<Rightarrow> map (\<lambda>f. (field_key f, JStr (box f))) (filter (\<lambda>f. box f \<noteq> cam_text f c) edit_fields))"

definition handleSaveAndClose :: "unit io \<Rightarrow> (text_field \<Rightarrow> string) option \<Rightarrow> CameraManager \<Rightarrow> World \<Rightarrow> World \<times> CameraManager" where
  "handleSaveAndClose refresh inputs m w = (case mg_editingCamera m of
     None \<Rightarrow> (w, m)
   | Some cam \<Rightarrow>
       (let data = changed_fields inputs cam in
        if data = [] then (w, m\<lparr>mg_editingCamera := None\<rparr>)
        else (case bind_io (updateCamera (cm_id cam) (JObj data)) (\<lambda>_. refresh) w of
            (w', Inl (Error e)) \<Rightarrow> (w', manager_push ''error'' ''Save failed'' (JStr e) (m\<lparr>mg_savingEdit := False\<rparr>))
          | (w', Inr _) \<Rightarrow> (w', m\<lparr>mg_editingCamera := None, mg_savingEdit := False\<rparr>))))"

text \<open>
  An editing session: the camera in the dialog, the tab, the inputs and the stored row. The inputs are filled when the
  general tab appears. A request is answered before the next event; \<open>srv\<close> gives the row it leaves, \<open>None\<close> when refused.
\<close>

record EditSession =
  ed_camera :: "CameraInfo option"
  ed_tab :: settings_tab
  ed_box :: "text_field \<Rightarrow> string"
  ed_row :: CameraRow

definition isMilesightCam :: "CameraInfo \<Rightarrow> bool" where
  "isMilesightCam c \<longleftrightarrow> contains_str ''milesight'' (to_lower (cm_manufacturer c)) \<or> starts_with ''ms-c'' (to_lower (cm_model c))
     \<or> starts_with ''ms-n'' (to_lower (cm_model c))"

datatype edit_event = Type text_field string | Blur text_field | Flag camera_flag | Tab settings_tab | Save_close | Close_dialog

definition edit_open :: "CameraInfo \<Rightarrow> settings_tab \<Rightarrow> CameraRow \<Rightarrow> EditSession" where
  "edit_open c t row = \<lparr>ed_camera = Some c, ed_tab = t, ed_box = (\<lambda>f. cam_text f c), ed_row = row\<rparr>"

definition stored :: "(json \<Rightarrow> CameraRow \<Rightarrow> CameraRow option) \<Rightarrow> json \<Rightarrow> CameraRow \<Rightarrow> CameraRow" where
  "stored srv body row = nullish (srv body row) row"

fun edit_step :: "(json \<Rightarrow> CameraRow \<Rightarrow> CameraRow option) \<Rightarrow> edit_event \<Rightarrow> EditSession \<Rightarrow> EditSession" where
  "edit_step srv e s = (case ed_camera s of
     None \<Rightarrow> s
   | Some c \<Rightarrow> (case e of
       Type f v \<Rightarrow> if ed_tab s = General_tab then s\<lparr>ed_box := (ed_box s)(f := v)\<rparr> else s
     | Blur f \<Rightarrow>
         if ed_tab s = General_tab
         then (case onBlur f (ed_box s f) c of
             None \<Rightarrow> s
           | Some (body, c') \<Rightarrow> s\<lparr>ed_camera := Some c', ed_row := stored srv body (ed_row s)\<rparr>)
         else s
     | Flag g \<Rightarrow>
         if ed_tab s = Recording_tab
         then (let (body, c') = flag_click g c in s\<lparr>ed_camera := Some c', ed_row := stored srv body (ed_row s)\<rparr>)
         else s
     | Tab t \<Rightarrow> if t \<in> {Vca_tab, Milesight_tab} \<and> \<not> isMilesightCam c then s else s\<lparr>ed_tab := t, ed_box := if t = General_tab \<and> ed_tab s \<noteq> General_tab then (\<lambda>f. cam_text f c) else ed_box s\<rparr>
     | Save_close \<Rightarrow>
         (let data = changed_fields (if ed_tab s = General_tab then Some (ed_box s) else None) c in
          if data = [] then s\<lparr>ed_camera := None\<rparr>
          else (case srv (JObj data) (ed_row s) of
              None \<Rightarrow> s
            | Some row \<Rightarrow> s\<lparr>ed_camera := None, ed_row := row\<rparr>))
     | Close_dialog \<Rightarrow> s\<lparr>ed_camera := None\<rparr>))"

definition go_update :: "UpdateEnv \<Rightarrow> json \<Rightarrow> CameraRow \<Rightarrow> CameraRow option" where
  "go_update env body row = (case HandleUpdateCamera env body row of Inl e \<Rightarrow> None | Inr r \<Rightarrow> Some r)"

fun row_text :: "text_field \<Rightarrow> CameraRow \<Rightarrow> string" where
  "row_text Name_field r = cr_Name r"
| "row_text Group_field r = cr_CameraGroup r"
| "row_text Address_field r = cr_OnvifAddress r"
| "row_text Rtsp_field r = cr_RtspURI r"
| "row_text Sub_field r = cr_SubStreamURI r"
| "row_text User_field r = cr_Username r"

section \<open>An update stores the fields it carries\<close>

lemma field_key_inj [simp]: "field_key f = field_key g \<longleftrightarrow> f = g"
  by (cases f; cases g) simp_all

lemma map_of_fields:
  "map_of (map (\<lambda>f. (field_key f, JStr (box f))) fs) (field_key g) = (if g \<in> set fs then Some (JStr (box g)) else None)"
  by (induction fs) auto

lemma map_of_other: "k \<notin> range field_key \<Longrightarrow> map_of (map (\<lambda>f. (field_key f, JStr (box f))) fs) k = None"
  by (induction fs) auto

lemma range_field_key: "range field_key = {''name'', ''camera_group'', ''onvif_address'', ''rtsp_uri'', ''sub_stream_uri'', ''username''}"
proof -
  have "f \<in> set edit_fields" for f by (cases f) (simp_all add: edit_fields_def)
  then have "UNIV = set edit_fields" by auto
  then have "range field_key = field_key ` set edit_fields" by simp
  then show ?thesis by (simp add: edit_fields_def)
qed

lemma go_ptr_string_simps [simp]:
  "go_ptr_string None = Some None" "go_ptr_string (Some (JStr t)) = Some (Some t)" "go_ptr_bool None = Some None"
  "go_ptr_bool (Some (JBool b)) = Some (Some b)" "go_ptr_int None = Some None"
  by (simp_all add: go_ptr_string_def go_ptr_bool_def go_ptr_int_def)

lemma go_ptr_string_if: "go_ptr_string (if P then Some (JStr t) else None) = Some (if P then Some t else None)"
  by simp

definition no_update :: CameraUpdate where
  "no_update = \<lparr>cu_Name = None, cu_OnvifAddress = None, cu_RtspURI = None, cu_SubStreamURI = None, cu_Username = None,
     cu_Password = None, cu_RetentionDays = None, cu_Recording = None, cu_RecordingMode = None, cu_PreBufferSec = None,
     cu_PostBufferSec = None, cu_RecordingTriggers = None, cu_EventsEnabled = None, cu_AudioEnabled = None, cu_CameraGroup = None,
     cu_Schedule = None, cu_PrivacyMask = None\<rparr>"

lemma decode_fields:
  fixes fs and box
  defines "val \<equiv> \<lambda>f. if f \<in> set fs then Some (box f) else None"
  shows "decode_update (JObj (map (\<lambda>f. (field_key f, JStr (box f))) fs)) =
    Some (no_update\<lparr>cu_Name := val Name_field, cu_CameraGroup := val Group_field, cu_OnvifAddress := val Address_field,
      cu_RtspURI := val Rtsp_field, cu_SubStreamURI := val Sub_field, cu_Username := val User_field\<rparr>)"
proof -
  let ?m = "map_of (map (\<lambda>f. (field_key f, JStr (box f))) fs)"
  note at = map_of_fields [of box fs Name_field, simplified] map_of_fields [of box fs Group_field, simplified]
    map_of_fields [of box fs Address_field, simplified] map_of_fields [of box fs Rtsp_field, simplified]
    map_of_fields [of box fs Sub_field, simplified] map_of_fields [of box fs User_field, simplified]
  have other: "?m ''password'' = None" "?m ''retention_days'' = None" "?m ''recording'' = None" "?m ''recording_mode'' = None"
    "?m ''pre_buffer_sec'' = None" "?m ''post_buffer_sec'' = None" "?m ''recording_triggers'' = None" "?m ''events_enabled'' = None"
    "?m ''audio_enabled'' = None" "?m ''schedule'' = None" "?m ''privacy_mask'' = None"
    by (rule map_of_other, simp add: range_field_key)+
  show ?thesis
    by (simp only: decode_update_def go_object_def json.case json_field_def at other go_ptr_string_if go_ptr_string_simps Option.bind.bind_lunit no_update_def
        val_def CameraUpdate.update_convs)
qed

definition admits :: "UpdateEnv \<Rightarrow> bool" where
  "admits env \<longleftrightarrow> ue_claims env \<in> {Some ''admin'', Some ''soc_supervisor''} \<and> ue_access env"

lemma go_update_admitted:
  "admits env \<Longrightarrow> decode_update body = Some u \<Longrightarrow> cu_Password u = None \<Longrightarrow>
     \<exists>r. UpdateCamera (ue_encrypt env) u row = Some r \<and> go_update env body row = Some (probe_stored env row r)"
  by (auto simp: admits_def go_update_def HandleUpdateCamera_def UpdateCamera_def)

text \<open>The fields stored as they are sent: the stream addresses only where the server does not try them.\<close>

definition stored_as_sent :: "UpdateEnv \<Rightarrow> text_field \<Rightarrow> bool" where
  "stored_as_sent env f \<longleftrightarrow> f \<notin> {Rtsp_field, Sub_field} \<or> ue_probe env = None"

lemma probe_stored_text:
  "stored_as_sent env f \<Longrightarrow> row_text f (probe_stored env row r) = row_text f r"
  by (cases f) (auto simp: stored_as_sent_def probe_stored_def split: option.split sum.split)

lemma update_stores_fields:
  assumes "admits env"
  obtains r where "go_update env (JObj (map (\<lambda>f. (field_key f, JStr (box f))) fs)) row = Some r"
    "\<And>f. stored_as_sent env f \<Longrightarrow> row_text f r = (if f \<in> set fs then box f else row_text f row)"
proof -
  obtain r where r: "UpdateCamera (ue_encrypt env) (no_update\<lparr>cu_Name := if Name_field \<in> set fs then Some (box Name_field) else None,
      cu_CameraGroup := if Group_field \<in> set fs then Some (box Group_field) else None,
      cu_OnvifAddress := if Address_field \<in> set fs then Some (box Address_field) else None,
      cu_RtspURI := if Rtsp_field \<in> set fs then Some (box Rtsp_field) else None,
      cu_SubStreamURI := if Sub_field \<in> set fs then Some (box Sub_field) else None,
      cu_Username := if User_field \<in> set fs then Some (box User_field) else None\<rparr>) row = Some r"
    "go_update env (JObj (map (\<lambda>f. (field_key f, JStr (box f))) fs)) row = Some (probe_stored env row r)"
    using go_update_admitted [OF assms decode_fields [of box fs], where row = row] by (auto simp: no_update_def)
  have "row_text f r = (if f \<in> set fs then box f else row_text f row)" for f
    using r(1) by (cases f) (auto simp: UpdateCamera_def no_update_def)
  with that r(2) show ?thesis by (simp add: probe_stored_text)
qed

lemma decode_flags:
  "decode_update (JObj [(''audio_enabled'', JBool b)]) = Some (no_update\<lparr>cu_AudioEnabled := Some b\<rparr>)"
  "decode_update (JObj [(''events_enabled'', JBool b)]) = Some (no_update\<lparr>cu_EventsEnabled := Some b\<rparr>)"
  "decode_update (JObj [(''privacy_mask'', JBool b)]) = Some (no_update\<lparr>cu_PrivacyMask := Some b\<rparr>)"
  by (simp_all add: decode_update_def go_object_def json_field_def no_update_def)

lemma update_stores_flag:
  assumes "admits env"
  obtains r where "go_update env (fst (flag_click g c)) row = Some r" "\<And>f. row_text f r = row_text f row"
proof -
  obtain u where d: "decode_update (fst (flag_click g c)) = Some u"
    and u: "u\<lparr>cu_AudioEnabled := None, cu_EventsEnabled := None, cu_PrivacyMask := None\<rparr> = no_update"
    by (cases g) (auto simp: Let_def decode_flags no_update_def)
  have n: "cu_Password u = None" "cu_Name u = None" "cu_CameraGroup u = None" "cu_OnvifAddress u = None" "cu_RtspURI u = None"
    "cu_SubStreamURI u = None" "cu_Username u = None"
    using u by (cases u, simp add: no_update_def)+
  obtain r where r: "UpdateCamera (ue_encrypt env) u row = Some r" "go_update env (fst (flag_click g c)) row = Some (probe_stored env row r)"
    using go_update_admitted [OF assms d n(1)] by blast
  have eq: "row_text f r = row_text f row" for f using r(1) n by (cases f) (auto simp: UpdateCamera_def)
  from eq [of Rtsp_field] eq [of Sub_field] have "probe_stored env row r = r" by (simp add: probe_stored_def)
  with that r eq show ?thesis by simp
qed

section \<open>What an editing session stores\<close>

text \<open>The dialog agrees with the row on every field but name and group, which it keeps as they were opened.\<close>

definition edit_inv :: "UpdateEnv \<Rightarrow> CameraInfo \<Rightarrow> EditSession \<Rightarrow> bool" where
  "edit_inv env c0 s \<longleftrightarrow> (\<forall>c f. ed_camera s = Some c \<longrightarrow>
     (f \<in> {Name_field, Group_field} \<longrightarrow> cam_text f c = cam_text f c0) \<and>
     (f \<notin> {Name_field, Group_field} \<and> stored_as_sent env f \<longrightarrow> cam_text f c = row_text f (ed_row s)))"

lemma blurred_text: "cam_text g (blurred f v c) = (if f = g \<and> f \<notin> {Name_field, Group_field} then v else cam_text g c)"
  by (cases f; cases g) simp_all

lemma flag_click_text: "cam_text g (snd (flag_click f c)) = cam_text g c"
  by (cases f; cases g) (simp_all add: Let_def)

lemma edit_inv_open: "(\<And>f. row_text f row = cam_text f c) \<Longrightarrow> edit_inv env c (edit_open c t row)"
  by (simp add: edit_inv_def edit_open_def)

lemma edit_inv_blur:
  assumes "admits env" "edit_inv env c0 s" "ed_camera s = Some c" "v \<noteq> cam_text f c"
  shows "edit_inv env c0 (s\<lparr>ed_camera := Some (blurred f v c), ed_row := stored (go_update env) (JObj [(field_key f, JStr v)]) (ed_row s)\<rparr>)"
proof -
  obtain r where "go_update env (JObj [(field_key f, JStr v)]) (ed_row s) = Some r"
    and r: "\<And>g. stored_as_sent env g \<Longrightarrow> row_text g r = (if g = f then v else row_text g (ed_row s))"
    using update_stores_fields [OF assms(1), of "\<lambda>_. v" "[f]" "ed_row s"] by auto
  then have "stored (go_update env) (JObj [(field_key f, JStr v)]) (ed_row s) = r" by (simp add: stored_def)
  with assms(2,3) r show ?thesis by (auto simp: edit_inv_def blurred_text simp del: cam_text.simps)
qed

lemma edit_inv_flag:
  assumes "admits env" "edit_inv env c0 s" "ed_camera s = Some c"
  shows "edit_inv env c0 (s\<lparr>ed_camera := Some (snd (flag_click g c)), ed_row := stored (go_update env) (fst (flag_click g c)) (ed_row s)\<rparr>)"
proof -
  obtain r where "go_update env (fst (flag_click g c)) (ed_row s) = Some r" and r: "\<And>f. row_text f r = row_text f (ed_row s)"
    using update_stores_flag [OF assms(1)] by blast
  then have "stored (go_update env) (fst (flag_click g c)) (ed_row s) = r" by (simp add: stored_def)
  with assms(2,3) r show ?thesis unfolding edit_inv_def by (simp add: flag_click_text del: cam_text.simps flag_click.simps)
qed

lemma edit_step_inv:
  assumes "admits env" "edit_inv env c0 s"
  shows "edit_inv env c0 (edit_step (go_update env) e s)"
proof (cases "ed_camera s")
  case (Some c)
  have keep: "edit_inv env c0 (s\<lparr>ed_camera := None, ed_row := row\<rparr>)" "edit_inv env c0 (s\<lparr>ed_box := b\<rparr>)"
    "edit_inv env c0 (s\<lparr>ed_tab := t, ed_box := b\<rparr>)" "edit_inv env c0 (s\<lparr>ed_camera := None\<rparr>)" for row b t
    using assms(2) by (auto simp: edit_inv_def)
  show ?thesis
    using Some assms keep edit_inv_blur [OF assms Some] edit_inv_flag [OF assms Some]
    by (cases e) (auto simp: onBlur_def Let_def split_beta split: option.split)
qed (use assms in auto)

definition edit_starts :: "UpdateEnv \<Rightarrow> CameraInfo \<Rightarrow> EditSession \<Rightarrow> bool" where
  "edit_starts env c s \<longleftrightarrow> admits env \<and> (\<exists>t row. s = edit_open c t row \<and> (\<forall>f. row_text f row = cam_text f c))"

interpretation editing: machine "edit_step (go_update env)" "edit_starts env c" "\<lambda>s. admits env \<and> edit_inv env c s" for env c
  by unfold_locales (auto simp: edit_starts_def intro: edit_inv_open edit_step_inv simp del: edit_step.simps)

lemma save_close_stores:
  assumes "admits env" "edit_inv env c0 s" "ed_camera s = Some c" "ed_tab s = General_tab"
    and "stored_as_sent env f"
  shows "ed_camera (edit_step (go_update env) Save_close s) = None \<and>
    row_text f (ed_row (edit_step (go_update env) Save_close s)) =
      (if f \<in> {Name_field, Group_field} \<and> ed_box s f = cam_text f c0 then row_text f (ed_row s) else ed_box s f)"
proof -
  let ?fs = "filter (\<lambda>f. ed_box s f \<noteq> cam_text f c) edit_fields"
  have mem: "f \<in> set edit_fields" by (cases f) (simp_all add: edit_fields_def)
  have agree: "f \<notin> {Name_field, Group_field} \<Longrightarrow> cam_text f c = row_text f (ed_row s)"
    "f \<in> {Name_field, Group_field} \<Longrightarrow> cam_text f c = cam_text f c0"
    using assms(2,3,5) by (auto simp: edit_inv_def)
  obtain r where up: "go_update env (JObj (map (\<lambda>f. (field_key f, JStr (ed_box s f))) ?fs)) (ed_row s) = Some r"
    and r: "row_text f r = (if f \<in> set ?fs then ed_box s f else row_text f (ed_row s))"
    by (rule update_stores_fields [OF assms(1), of "ed_box s" ?fs "ed_row s"]) (use assms(5) in blast)
  show ?thesis
  proof (cases "?fs = []")
    case True
    then have "ed_box s f = cam_text f c" using mem by (auto simp: filter_empty_conv)
    with True assms(3,4) agree show ?thesis by (cases "f \<in> {Name_field, Group_field}") (simp_all add: changed_fields_def Let_def)
  next
    case False
    with up assms(3,4) have "edit_step (go_update env) Save_close s = s\<lparr>ed_camera := None, ed_row := r\<rparr>"
      by (simp add: changed_fields_def Let_def)
    with r mem agree show ?thesis by (cases "f \<in> {Name_field, Group_field}") (simp_all del: edit_step.simps)
  qed
qed

text \<open>C30: However an administrator or supervisor edited a camera in the dialog (typing, leaving fields, switching tabs,
  using the switches), with every save accepted, saving and closing on the general tab closes the dialog and stores
  for each text field what its input shows, with two exceptions. A name or group whose input shows the value the
  dialog was opened with is left as it is stored, even if an earlier change of it has been saved since. And the
  two stream addresses are covered only where the server does not probe the camera: one that does may store
  other addresses than it was sent.\<close>

theorem save_and_close_commits:
  assumes "reach (edit_step (go_update env)) (edit_starts env c0) s"
    and "ed_camera s = Some c" and "ed_tab s = General_tab"
    and "stored_as_sent env f"
  shows "ed_camera (edit_step (go_update env) Save_close s) = None \<and>
    row_text f (ed_row (edit_step (go_update env) Save_close s)) =
      (if f \<in> {Name_field, Group_field} \<and> ed_box s f = cam_text f c0 then row_text f (ed_row s) else ed_box s f)"
  using editing.inv_reach [OF assms(1)] assms(2,3,4) by (intro save_close_stores) auto

definition fixture_cam :: CameraInfo where
  "fixture_cam = \<lparr>cm_id = ''c1'', cm_name = ''Gate'', cm_onvif_address = ''10.0.0.5'', cm_username = ''admin'', cm_rtsp_uri = ''rtsp://a'',
     cm_sub_stream_uri = [], cm_recording = True, cm_events_enabled = True, cm_audio_enabled = False, cm_camera_group = [],
     cm_privacy_mask = False, cm_manufacturer = [], cm_model = []\<rparr>"

definition fixture_camera_row :: CameraRow where
  "fixture_camera_row = \<lparr>cr_Name = ''Gate'', cr_OnvifAddress = ''10.0.0.5'', cr_RtspURI = ''rtsp://a'', cr_SubStreamURI = [], cr_Username = ''admin'',
     cr_Password = ''x'', cr_RetentionDays = 30, cr_Recording = True, cr_RecordingMode = ''continuous'', cr_PreBufferSec = 10, cr_PostBufferSec = 30,
     cr_RecordingTriggers = ''motion'', cr_EventsEnabled = True, cr_AudioEnabled = False, cr_CameraGroup = [], cr_Schedule = [],
     cr_PrivacyMask = False, cr_Status = ''online'', cr_LastStreamError = []\<rparr>"

definition fixture_update_env :: UpdateEnv where
  "fixture_update_env = \<lparr>ue_claims = Some ''admin'', ue_access = True, ue_encrypt = Some, ue_probe = None\<rparr>"

abbreviation "fixture_edit \<equiv> edit_step (go_update fixture_update_env)"
abbreviation "fixture_opened \<equiv> edit_open fixture_cam General_tab fixture_camera_row"

lemma fixture_edit_starts: "edit_starts fixture_update_env fixture_cam fixture_opened"
  unfolding edit_starts_def
proof (intro conjI exI allI)
  show "admits fixture_update_env" by (simp add: admits_def fixture_update_env_def)
  show "row_text f fixture_camera_row = cam_text f fixture_cam" for f
    by (cases f) (simp_all add: fixture_camera_row_def fixture_cam_def)
qed (rule refl)

theorem save_and_close_commits_witness:
  "row_text Address_field (ed_row (fixture_edit Save_close (fixture_edit (Type Address_field ''10.0.0.9'') fixture_opened))) = ''10.0.0.9''"
proof -
  let ?s = "fixture_edit (Type Address_field ''10.0.0.9'') fixture_opened"
  have "reach fixture_edit (edit_starts fixture_update_env fixture_cam) ?s"
    by (intro reach_step reach_start fixture_edit_starts)
  from save_and_close_commits [OF this, of fixture_cam Address_field] show ?thesis
    by (simp add: edit_open_def stored_as_sent_def)
qed

text \<open>Renamed and renamed back: the dialog shows the first name and closes without a request, the row has the second.\<close>

lemma renamed_back_lost:
  assumes "admits env" and "\<And>f. row_text f row = cam_text f c" and "v \<noteq> cm_name c"
  shows "cr_Name (ed_row (fold (edit_step (go_update env)) [Type Name_field v, Blur Name_field, Type Name_field (cm_name c), Blur Name_field, Save_close]
    (edit_open c General_tab row))) = v"
proof -
  obtain r where "go_update env (JObj (map (\<lambda>f. (field_key f, JStr v)) [Name_field])) row = Some r"
    and n: "\<And>f. stored_as_sent env f \<Longrightarrow> row_text f r = (if f \<in> set [Name_field] then v else row_text f row)"
    by (rule update_stores_fields [OF assms(1), of "\<lambda>_. v" "[Name_field]" row]) blast
  moreover have "cr_Name r = v" using n [of Name_field] by (simp add: stored_as_sent_def)
  ultimately have "go_update env (JObj [(''name'', JStr v)]) row = Some r" "cr_Name r = v" by simp_all
  with assms show ?thesis
    by (simp add: edit_open_def onBlur_def stored_def changed_fields_def edit_fields_def)
qed

text \<open>An autosave the server refused is not repeated by saving and closing, but for name and group.\<close>

lemma refused_autosave_lost:
  assumes "srv (JObj [(''onvif_address'', JStr v)]) row = None" and "v \<noteq> cm_onvif_address c"
  shows "fold (edit_step srv) [Type Address_field v, Blur Address_field, Save_close] (edit_open c General_tab row) =
    (edit_open c General_tab row)\<lparr>ed_camera := None, ed_box := (ed_box (edit_open c General_tab row))(Address_field := v)\<rparr>"
  using assms by (simp add: edit_open_def onBlur_def stored_def changed_fields_def edit_fields_def)

section \<open>Deleting and registering several cameras\<close>

lemma authFetch_keeps_server: "authFetch input init w = (w', r) \<Longrightarrow> wd_server w' = wd_server w"
  by (rule authFetch_sends [of w init input]) (auto simp: sends_def redirect_on_401_def split: sum.splits if_splits)

lemma delete_all_answered:
  assumes "answers (wd_server w)"
  shows "\<exists>w'. delete_all ids n w = (w', n) \<and> wd_server w' = wd_server w"
  using assms
proof (induction ids arbitrary: w)
  case (Cons i ids)
  obtain w1 res where run: "authFetch (''/api/cameras/'' @ i) (bare_init ''DELETE'') w = (w1, Inr res)"
    using authFetch_answered [OF Cons.prems] by blast
  have keep: "wd_server w1 = wd_server w" using authFetch_keeps_server [OF run] .
  with Cons obtain w2 where "delete_all ids n w1 = (w2, n)" "wd_server w2 = wd_server w1" by metis
  with run keep show ?case by (simp add: deleteCamera_def bind_io_def return_io_def)
qed simp

text \<open>C31: As long as the server answers at all, deleting several cameras reports every one of them as deleted, whatever the
  answers are: a refusal (no permission, an internal error) of every single request is reported as success.\<close>

theorem refused_deletions_reported_done:
  assumes "answers (wd_server w)" and "\<And>v. \<exists>v'. refresh v = (v', Inr ())"
  shows "\<exists>w'. handleBulkDelete refresh m w = (w', m\<lparr>mg_selected := [], mg_confirmBulkDelete := False, mg_bulkDeleting := False,
    mg_toasts := mg_toasts m @ [(''success'', ''Cameras removed'', JStr (cameras_text (length (mg_selected m)) @ '' deleted''))]\<rparr>)"
proof -
  obtain w1 where "delete_all (mg_selected m) 0 w = (w1, 0)" using delete_all_answered [OF assms(1)] by blast
  moreover obtain w2 where "refresh w1 = (w2, Inr ())" using assms(2) by blast
  ultimately show ?thesis by (simp add: handleBulkDelete_def manager_push_def)
qed

theorem refused_deletions_reported_done_witness:
  "\<exists>w'. handleBulkDelete (return_io ()) (initial_manager\<lparr>mg_selected := [''c1'', ''c2'']\<rparr>)
      (fixture_world\<lparr>wd_server := (\<lambda>_ _ _. error_reply 403 ''forbidden: admin only'')\<rparr>) =
    (w', initial_manager\<lparr>mg_toasts := [(''success'', ''Cameras removed'', JStr (cameras_text 2 @ '' deleted''))]\<rparr>)"
  using refused_deletions_reported_done [of "fixture_world\<lparr>wd_server := (\<lambda>_ _ _. error_reply 403 ''forbidden: admin only'')\<rparr>"
      "return_io ()" "initial_manager\<lparr>mg_selected := [''c1'', ''c2'']\<rparr>"]
  by (simp add: answers_def error_reply_def return_io_def initial_manager_def numeral_2_eq_2)

text \<open>Registering the chosen devices closes the dialog without a message, whatever happened to the requests.\<close>

lemma bulk_add_silent:
  assumes "mg_selectedDevices m \<noteq> []" and "\<And>v. \<exists>v'. refresh v = (v', Inr ())"
  shows "\<exists>w'. handleBulkAdd refresh m w = (w', m\<lparr>mg_showDiscovery := False, mg_discoveryAuth := (''admin'', []), mg_addingBulk := False\<rparr>)"
proof -
  obtain w' where "refresh (all_settled (map (\<lambda>d. createCamera (bulk_body (mg_discoveryAuth m) d)) (chosen_devices m)) w) = (w', Inr ())"
    using assms(2) by blast
  with assms(1) show ?thesis by (simp add: handleBulkAdd_def)
qed

text \<open>A camera deleted by its own button stays selected.\<close>

lemma deleted_stays_selected: "mg_selected (snd (manager_handleDelete refresh cams i m w)) = mg_selected m"
  by (simp add: manager_handleDelete_def manager_push_def split: prod.split sum.split exn.split)

lemma select_all: "mg_selected m = [] \<Longrightarrow> cams \<noteq> [] \<Longrightarrow> set (mg_selected (toggleSelectAll cams m)) = cm_id ` set cams"
  by (simp add: toggleSelectAll_def js_set_def)

end
