(* ===== verification/Settings_Page.thy ===== *)
theory Settings_Page
  imports Camera_Manager
begin

text \<open>
  The settings page (\<^verbatim>\<open>components/SettingsPage.tsx\<close>): storage locations with the folder picker, the settings draft, the
  speakers tab, the audit log and the event log, with the Go handlers of folder browsing, storage locations and the audit
  log. Shown: the pages of an audit search put together are the matching entries, and a search from a later page can get
  stuck; the speakers tab asks again with every empty answer; on a Unix server the picker's breadcrumb and parent
  entries lead nowhere. Audit entries, speakers, messages and drives are passed on as JSON.
\<close>

section \<open>Storage locations\<close>

record StorageLocationCreate =
  sl_label :: string
  sl_path :: string
  sl_purpose :: string
  sl_retention_days :: int
  sl_max_gb :: int
  sl_priority :: int

record StorageLocation = StorageLocationCreate +
  sl_id :: id
  sl_enabled :: bool

definition blank_location :: StorageLocationCreate where
  "blank_location = \<lparr>sl_label = [], sl_path = [], sl_purpose = ''recordings'', sl_retention_days = 30, sl_max_gb = 0, sl_priority = 0\<rparr>"

record FolderEntry =
  fe_name :: string
  fe_path :: string

record StorageTab =
  sg_locations :: "StorageLocation list"
  sg_loading :: bool
  sg_usages :: "id \<rightharpoonup> json"
  sg_showPicker :: bool
  sg_editing :: "StorageLocation option"
  sg_new :: StorageLocationCreate
  sg_drives :: "json list"
  sg_folders :: "FolderEntry list"
  sg_path :: string
  sg_breadcrumb :: "string list"
  sg_adding :: bool

definition initial_storage :: StorageTab where
  "initial_storage = \<lparr>sg_locations = [], sg_loading = False, sg_usages = Map.empty, sg_showPicker = False, sg_editing = None,
     sg_new = blank_location, sg_drives = [], sg_folders = [], sg_path = [], sg_breadcrumb = [], sg_adding = False\<rparr>"

definition int_field :: "string \<Rightarrow> json \<Rightarrow> int" where
  "int_field k j = (case json_field k j of Some (JNum n) \<Rightarrow> \<lfloor>n\<rfloor> | _ \<Rightarrow> 0)"

definition location_of :: "json \<Rightarrow> StorageLocation" where
  "location_of j = \<lparr>sl_label = str_field ''label'' j [], sl_path = str_field ''path'' j [], sl_purpose = str_field ''purpose'' j [],
     sl_retention_days = int_field ''retention_days'' j, sl_max_gb = int_field ''max_gb'' j, sl_priority = int_field ''priority'' j,
     sl_id = str_field ''id'' j [], sl_enabled = (json_field ''enabled'' j = Some (JBool True))\<rparr>"

text \<open>The usages of all locations are asked for together; a location without an answer has none.\<close>

definition usages_of :: "StorageLocation list \<Rightarrow> json list \<Rightarrow> (id \<rightharpoonup> json)" where
  "usages_of locs replies = map_of (rev (filter (\<lambda>p. truthy_json (snd p)) (zip (map sl_id locs) replies)))"

definition loadStorageLocations :: "StorageTab \<Rightarrow> World \<Rightarrow> World \<times> StorageTab" where
  "loadStorageLocations s w = (case listStorageLocations w of
     (w1, Inl e) \<Rightarrow> (w1, s\<lparr>sg_loading := False\<rparr>)
   | (w1, Inr data) \<Rightarrow>
       (let locs = map location_of (json_items data); s = s\<lparr>sg_locations := locs, sg_loading := False\<rparr> in
        case map_io (\<lambda>l. getDiskUsage (sl_path l)) locs w1 of
          (w2, Inl e) \<Rightarrow> (w2, s)
        | (w2, Inr replies) \<Rightarrow> (w2, s\<lparr>sg_usages := usages_of locs replies\<rparr>)))"

definition create_json :: "('a) StorageLocationCreate_scheme \<Rightarrow> json" where
  "create_json l = JObj [(''label'', JStr (sl_label l)), (''path'', JStr (sl_path l)), (''purpose'', JStr (sl_purpose l)),
     (''retention_days'', JNum (of_int (sl_retention_days l))), (''max_gb'', JNum (of_int (sl_max_gb l))),
     (''priority'', JNum (of_int (sl_priority l)))]"

definition handleAddLocation :: "StorageTab \<Rightarrow> World \<Rightarrow> World \<times> StorageTab" where
  "handleAddLocation s w =
     (if sl_label (sg_new s) = [] \<or> sl_path (sg_new s) = [] then (w, s)
      else case createStorageLocation (create_json (sg_new s)) w of
        (w', Inl e) \<Rightarrow> (w', s)
      | (w', Inr _) \<Rightarrow> loadStorageLocations (s\<lparr>sg_new := blank_location, sg_adding := False\<rparr>) w')"

definition handleUpdateLocation :: "StorageTab \<Rightarrow> World \<Rightarrow> World \<times> StorageTab" where
  "handleUpdateLocation s w = (case sg_editing s of
     None \<Rightarrow> (w, s)
   | Some l \<Rightarrow> (case updateStorageLocation (sl_id l) (create_json l) w of
         (w', Inl e) \<Rightarrow> (w', s)
       | (w', Inr _) \<Rightarrow> loadStorageLocations (s\<lparr>sg_editing := None\<rparr>) w'))"

definition handleDeleteLocation :: "bool \<Rightarrow> id \<Rightarrow> StorageTab \<Rightarrow> World \<Rightarrow> World \<times> StorageTab" where
  "handleDeleteLocation confirmed i s w =
     (if \<not> confirmed then (w, s)
      else case deleteStorageLocation i w of (w', Inl e) \<Rightarrow> (w', s) | (w', Inr _) \<Rightarrow> loadStorageLocations s w')"

text \<open>The number inputs of both forms.\<close>

definition number_input :: "int \<Rightarrow> string \<Rightarrow> int" where
  "number_input d t = (case parseInt t of Some n \<Rightarrow> if n = 0 then d else n | None \<Rightarrow> d)"

definition set_retention :: "string \<Rightarrow> 'a StorageLocationCreate_scheme \<Rightarrow> 'a StorageLocationCreate_scheme" where
  "set_retention t l = l\<lparr>sl_retention_days := number_input 30 t\<rparr>"

definition set_max_gb :: "string \<Rightarrow> 'a StorageLocationCreate_scheme \<Rightarrow> 'a StorageLocationCreate_scheme" where
  "set_max_gb t l = l\<lparr>sl_max_gb := number_input 0 t\<rparr>"

text \<open>The colour of a used volume. Without any bytes the share is NaN or, with some used, infinite.\<close>

definition usage_color :: "int \<Rightarrow> int \<Rightarrow> string" where
  "usage_color used volume =
     (if volume = 0 then if used > 0 then ''critical'' else ''ok''
      else let pct = js_round (of_int used / of_int volume * 100) in
        if pct > 95 then ''critical'' else if pct > 80 then ''warn'' else ''ok'')"

section \<open>The folder picker\<close>

definition openFolderPicker :: "StorageTab \<Rightarrow> World \<Rightarrow> World \<times> StorageTab" where
  "openFolderPicker s w = (case listDrives w of
     (w', Inl e) \<Rightarrow> (w', s\<lparr>sg_showPicker := True\<rparr>)
   | (w', Inr drives) \<Rightarrow> (w', s\<lparr>sg_showPicker := True, sg_drives := json_items drives, sg_folders := [], sg_path := [], sg_breadcrumb := []\<rparr>))"

definition breadcrumb_parts :: "string \<Rightarrow> string list" where
  "breadcrumb_parts p = filter (\<lambda>q. q \<noteq> []) (split_at_char (CHR ''/'') (map (\<lambda>c. if c = backslash then CHR ''/'' else c) p))"

definition folder_of :: "json \<Rightarrow> FolderEntry" where
  "folder_of j = \<lparr>fe_name = str_field ''name'' j [], fe_path = str_field ''path'' j []\<rparr>"

definition navigatePicker :: "string \<Rightarrow> StorageTab \<Rightarrow> World \<Rightarrow> World \<times> StorageTab" where
  "navigatePicker p s w = (case browsePath p w of
     (w', Inl e) \<Rightarrow> (w', s\<lparr>sg_path := p\<rparr>)
   | (w', Inr folders) \<Rightarrow> (w', s\<lparr>sg_path := p, sg_folders := map folder_of (json_items folders), sg_breadcrumb := breadcrumb_parts p\<rparr>))"

text \<open>The address behind the i-th entry of the breadcrumb, and behind the parent entry (none when it does nothing).\<close>

definition breadcrumb_target :: "string list \<Rightarrow> nat \<Rightarrow> string" where
  "breadcrumb_target parts i = join [backslash] (take (Suc i) parts) @ [backslash]"

fun cut_last :: "string \<Rightarrow> string" where
  "cut_last [] = []"
| "cut_last (c # s) =
     (if c = backslash \<and> takeWhile (\<lambda>d. d \<noteq> backslash) s \<noteq> [] \<and> dropWhile (\<lambda>d. d \<noteq> backslash) s \<in> {[], [backslash]} then []
      else c # cut_last s)"

definition parent_target :: "string \<Rightarrow> string option" where
  "parent_target p = (let parent = cut_last p in if parent \<noteq> [] \<and> parent \<noteq> p then Some (parent @ [backslash]) else None)"

definition selectPickerPath :: "StorageTab \<Rightarrow> StorageTab" where
  "selectPickerPath s = (case sg_editing s of
     Some l \<Rightarrow> s\<lparr>sg_editing := Some (l\<lparr>sl_path := sg_path s\<rparr>), sg_showPicker := False\<rparr>
   | None \<Rightarrow> s\<lparr>sg_new := (sg_new s)\<lparr>sl_path := sg_path s\<rparr>, sg_showPicker := False\<rparr>)"

text \<open>
  The server on Unix: \<^verbatim>\<open>filepath.Clean\<close>, \<^verbatim>\<open>filepath.IsAbs\<close> and \<^verbatim>\<open>filepath.Join\<close>; \<open>read_dir\<close> lists the directories in a
  directory. Names that differ in case only keep the order of the directory.
\<close>

fun clean_push :: "bool \<Rightarrow> string \<Rightarrow> string list \<Rightarrow> string list" where
  "clean_push rooted q out =
     (if q = [] \<or> q = ''.'' then out
      else if q = ''..''
        then (if out \<noteq> [] \<and> last out \<noteq> ''..'' then butlast out else if rooted then out else out @ [q])
      else out @ [q])"

definition unix_abs :: "string \<Rightarrow> bool" where
  "unix_abs p = starts_with ''/'' p"

definition unix_clean :: "string \<Rightarrow> string" where
  "unix_clean p =
     (let out = fold (clean_push (unix_abs p)) (split_at_char (CHR ''/'') p) [] in
      if unix_abs p then CHR ''/'' # join ''/'' out else if out = [] then ''.'' else join ''/'' out)"

definition HandleBrowsePath :: "(string \<Rightarrow> string list option) \<Rightarrow> string \<Rightarrow> (nat \<times> string) + FolderEntry list" where
  "HandleBrowsePath read_dir target =
     (if target = [] then Inl (400, ''path parameter required'')
      else (let t = unix_clean target in
        if \<not> unix_abs t then Inl (400, ''path must be absolute'')
        else (case read_dir t of
            None \<Rightarrow> Inl (400, ''cannot read directory: '' @ t)
          | Some names \<Rightarrow> Inr (js_sort (\<lambda>f g. text_less (to_lower (fe_name f)) (to_lower (fe_name g))) (map (\<lambda>n. \<lparr>fe_name = n, fe_path = unix_clean (t @ ''/'' @ n)\<rparr>)
              (filter (\<lambda>n. \<not> starts_with ''.'' n \<and> \<not> starts_with ''$'' n) names))))))"

section \<open>Settings\<close>

record SettingsForm =
  st_settings :: "json option"
  st_draft :: "json option"
  st_saving :: bool
  st_msg :: "(bool \<times> string) option"

definition initial_settings :: SettingsForm where
  "initial_settings = \<lparr>st_settings = None, st_draft = None, st_saving = False, st_msg = None\<rparr>"

definition load_settings :: "SettingsForm \<Rightarrow> World \<Rightarrow> World \<times> SettingsForm" where
  "load_settings s w = (case getSettings w of
     (w', Inl e) \<Rightarrow> (w', s) | (w', Inr j) \<Rightarrow> (w', s\<lparr>st_settings := Some j, st_draft := Some j\<rparr>))"

definition patchDraft :: "string \<Rightarrow> json \<Rightarrow> SettingsForm \<Rightarrow> SettingsForm" where
  "patchDraft k v s = s\<lparr>st_draft := map_option (\<lambda>d. JObj (obj_set (k, v) (spread_opt (Some d)))) (st_draft s)\<rparr>"

text \<open>The check mark and the cross in UTF-8.\<close>

definition saved_text :: string where
  "saved_text = [CHR 0xE2, CHR 0x9C, CHR 0x93] @ '' Settings saved. Some changes require a server restart to take effect.''"

definition handleSaveSettings :: "SettingsForm \<Rightarrow> World \<Rightarrow> World \<times> SettingsForm" where
  "handleSaveSettings s w = (case st_draft s of
     None \<Rightarrow> (w, s)
   | Some d \<Rightarrow> (case updateSettings d w of
         (w', Inr updated) \<Rightarrow> (w', s\<lparr>st_settings := Some updated, st_draft := Some updated, st_msg := Some (True, saved_text), st_saving := False\<rparr>)
       | (w', Inl (Error e)) \<Rightarrow> (w', s\<lparr>st_msg := Some (False, [CHR 0xE2, CHR 0x9C, CHR 0x97] @ '' '' @ e), st_saving := False\<rparr>)))"

section \<open>The speakers tab\<close>

record NewSpeaker =
  ns_name :: string
  ns_onvif_address :: string
  ns_username :: string
  ns_password :: string
  ns_zone :: string

definition blank_speaker :: NewSpeaker where
  "blank_speaker = \<lparr>ns_name = [], ns_onvif_address = [], ns_username = [], ns_password = [], ns_zone = []\<rparr>"

text \<open>The open tab: its lists, the form, and how many requests for each list are under way.\<close>

record SpeakerTab =
  sp_speakers :: "json list"
  sp_messages :: "json list"
  sp_new :: NewSpeaker
  sp_adding :: bool
  sp_ask_speakers :: nat
  sp_ask_messages :: nat

text \<open>What the code of the tab does whenever it is rendered.\<close>

definition speakers_render :: "SpeakerTab \<Rightarrow> SpeakerTab" where
  "speakers_render s =
     (if sp_speakers s = [] \<and> sp_messages s = [] \<and> \<not> sp_adding s
      then s\<lparr>sp_ask_speakers := Suc (sp_ask_speakers s), sp_ask_messages := Suc (sp_ask_messages s)\<rparr> else s)"

definition speakers_open :: SpeakerTab where
  "speakers_open = speakers_render \<lparr>sp_speakers = [], sp_messages = [], sp_new = blank_speaker, sp_adding = False,
     sp_ask_speakers = 0, sp_ask_messages = 0\<rparr>"

text \<open>
  An answer (\<open>None\<close>: the request failed, which is ignored) stores a new list, so the tab is rendered again. Adding a speaker
  is begun and later answered; a speaker is removed and the list asked for again.
\<close>

datatype speaker_event =
    Speakers_answer "json list option" | Messages_answer "json list option"
  | Speaker_form NewSpeaker | Add_speaker | Added bool | Removed | Message_uploaded | Message_removed

fun speaker_step :: "speaker_event \<Rightarrow> SpeakerTab \<Rightarrow> SpeakerTab" where
  "speaker_step (Speakers_answer r) s =
     (if sp_ask_speakers s = 0 then s
      else let s = s\<lparr>sp_ask_speakers := sp_ask_speakers s - 1\<rparr> in
        case r of None \<Rightarrow> s | Some xs \<Rightarrow> speakers_render (s\<lparr>sp_speakers := xs\<rparr>))"
| "speaker_step (Messages_answer r) s =
     (if sp_ask_messages s = 0 then s
      else let s = s\<lparr>sp_ask_messages := sp_ask_messages s - 1\<rparr> in
        case r of None \<Rightarrow> s | Some xs \<Rightarrow> speakers_render (s\<lparr>sp_messages := xs\<rparr>))"
| "speaker_step (Speaker_form f) s = speakers_render (s\<lparr>sp_new := f\<rparr>)"
| "speaker_step Add_speaker s =
     (if ns_name (sp_new s) = [] \<or> ns_onvif_address (sp_new s) = [] \<or> sp_adding s then s else speakers_render (s\<lparr>sp_adding := True\<rparr>))"
| "speaker_step (Added good) s =
     (if \<not> sp_adding s then s
      else if good then speakers_render (s\<lparr>sp_new := blank_speaker, sp_ask_speakers := Suc (sp_ask_speakers s), sp_adding := False\<rparr>)
      else speakers_render (s\<lparr>sp_adding := False\<rparr>))"
| "speaker_step Removed s = s\<lparr>sp_ask_speakers := Suc (sp_ask_speakers s)\<rparr>"
| "speaker_step Message_uploaded s = speakers_render (s\<lparr>sp_ask_messages := Suc (sp_ask_messages s)\<rparr>)"
| "speaker_step Message_removed s = s\<lparr>sp_ask_messages := Suc (sp_ask_messages s)\<rparr>"

section \<open>The audit log\<close>

definition AUDIT_PAGE_SIZE :: int where
  "AUDIT_PAGE_SIZE = 25"

record AuditTab =
  ad_entries :: "json list"
  ad_total :: int
  ad_page :: int
  ad_filter :: string

definition initial_audit :: AuditTab where
  "initial_audit = \<lparr>ad_entries = [], ad_total = 0, ad_page = 0, ad_filter = []\<rparr>"

definition audit_params :: "AuditTab \<Rightarrow> AuditParams" where
  "audit_params s = \<lparr>au_username = (if ad_filter s = [] then None else Some (ad_filter s)), au_action = None, au_target_type = None,
     au_limit = Some AUDIT_PAGE_SIZE, au_offset = Some (ad_page s * AUDIT_PAGE_SIZE)\<rparr>"

definition audit_answered :: "json \<Rightarrow> AuditTab \<Rightarrow> AuditTab" where
  "audit_answered data s = s\<lparr>ad_entries := json_items (nullish (json_field ''entries'' data) JNull), ad_total := int_field ''total'' data\<rparr>"

definition audit_search :: "AuditTab \<Rightarrow> World \<Rightarrow> World \<times> AuditTab" where
  "audit_search s w = (case queryAuditLog (audit_params s) w of (w', Inl e) \<Rightarrow> (w', s) | (w', Inr data) \<Rightarrow> (w', audit_answered data s))"

text \<open>
  The server: \<open>like\<close> is the database's match of a user name, the rows come newest first. An absent number decodes as 0.
\<close>

definition QueryAuditLog :: "(string \<Rightarrow> json \<Rightarrow> bool) \<Rightarrow> json list \<Rightarrow> string \<Rightarrow> int \<Rightarrow> int \<Rightarrow> json list \<times> int" where
  "QueryAuditLog like rows username limit offset =
     (let limit = if limit \<le> 0 then 50 else if limit > 10000 then 10000 else limit;
          hits = if username = [] then rows else filter (like username) rows in
      (take (nat limit) (drop (nat offset) hits), int (length hits)))"

definition HandleQueryAuditLog :: "(string \<Rightarrow> json \<Rightarrow> bool) \<Rightarrow> json list \<Rightarrow> AuditParams \<Rightarrow> json" where
  "HandleQueryAuditLog like rows p =
     (let limit = (if nullish (au_limit p) 0 = 0 then 50 else nullish (au_limit p) 0); offset = nullish (au_offset p) 0;
          (entries, total) = QueryAuditLog like rows (nullish (au_username p) []) limit offset in
      JObj [(''entries'', JArr entries), (''total'', JNum (of_int total)), (''limit'', JNum (of_int limit)), (''offset'', JNum (of_int offset))])"

text \<open>The pager is shown for more than one page; its buttons change the number of the page only.\<close>

definition pager_shown :: "AuditTab \<Rightarrow> bool" where
  "pager_shown s \<longleftrightarrow> ad_total s > AUDIT_PAGE_SIZE"

datatype audit_event = Audit_filter string | Audit_search | Audit_prev | Audit_next

fun audit_step :: "(AuditParams \<Rightarrow> json) \<Rightarrow> audit_event \<Rightarrow> AuditTab \<Rightarrow> AuditTab" where
  "audit_step srv (Audit_filter f) s = s\<lparr>ad_filter := f\<rparr>"
| "audit_step srv Audit_search s = audit_answered (srv (audit_params s)) s"
| "audit_step srv Audit_prev s = (if pager_shown s \<and> ad_page s \<noteq> 0 then s\<lparr>ad_page := ad_page s - 1\<rparr> else s)"
| "audit_step srv Audit_next s =
     (if pager_shown s \<and> (ad_page s + 1) * AUDIT_PAGE_SIZE < ad_total s then s\<lparr>ad_page := ad_page s + 1\<rparr> else s)"

section \<open>The event log\<close>

record EventLog =
  el_events :: "json list"
  el_loading :: bool
  el_camera :: string
  el_type :: string
  el_hours :: int
  el_auto :: bool

definition initial_log :: EventLog where
  "initial_log = \<lparr>el_events = [], el_loading = False, el_camera = ''all'', el_type = ''all'', el_hours = 1, el_auto = True\<rparr>"

definition log_params :: "ms \<Rightarrow> EventLog \<Rightarrow> EventParams" where
  "log_params now s = \<lparr>ep_start = toISOString (now - el_hours s * 3600000), ep_end = toISOString now,
     ep_camera_id = (if el_camera s \<noteq> ''all'' then Some (el_camera s) else None), ep_camera_ids = None,
     ep_types = (if el_type s \<noteq> ''all'' then Some (el_type s) else None), ep_search = None, ep_limit = Some 200\<rparr>"

text \<open>The request is for the filters at its start; the answer is shown whatever they are by then.\<close>

definition log_answer :: "json list \<Rightarrow> EventLog \<Rightarrow> EventLog" where
  "log_answer data s = s\<lparr>el_events := data, el_loading := False\<rparr>"

definition loadEvents :: "ms \<Rightarrow> EventLog \<Rightarrow> World \<Rightarrow> World \<times> EventLog" where
  "loadEvents now s w = (case queryEvents (log_params now s) w of
     (w', Inl e) \<Rightarrow> (w', s\<lparr>el_loading := True\<rparr>) | (w', Inr data) \<Rightarrow> (w', log_answer (json_items data) s))"

definition log_types :: "EventLog \<Rightarrow> string list" where
  "log_types s = js_sort text_less (js_set (map (\<lambda>e. str_field ''event_type'' e []) (el_events s)))"

section \<open>The audit log\<close>

definition audit_hits :: "(string \<Rightarrow> json \<Rightarrow> bool) \<Rightarrow> json list \<Rightarrow> string \<Rightarrow> json list" where
  "audit_hits like rows f = (if f = [] then rows else filter (like f) rows)"

abbreviation "go_audit like rows \<equiv> HandleQueryAuditLog like rows"

lemma audit_search_result:
  assumes "0 \<le> ad_page s"
  shows "audit_step (go_audit like rows) Audit_search s =
    s\<lparr>ad_entries := take 25 (drop (nat (ad_page s) * 25) (audit_hits like rows (ad_filter s))),
      ad_total := int (length (audit_hits like rows (ad_filter s)))\<rparr>"
  using assms
  by (simp add: audit_answered_def HandleQueryAuditLog_def QueryAuditLog_def audit_params_def AUDIT_PAGE_SIZE_def audit_hits_def
      json_items_def json_field_def int_field_def Let_def nat_mult_distrib)

lemma concat_pages: "0 < k \<Longrightarrow> concat (map (\<lambda>p. take k (drop (p * k) xs)) [0..<n]) = take (n * k) xs"
proof (induction n)
  case (Suc n)
  have "take (Suc n * k) xs = take (n * k + k) xs" by (simp add: add.commute)
  with Suc show ?case by (simp add: take_add)
qed simp

lemma enough_pages: "length xs \<le> (length xs + 24) div 25 * 25" for xs :: "'a list"
  by presburger

text \<open>The pages of the audit log, searched for one after the other, are together exactly the entries that match the filter,
  newest first: as many pages as the pager counts, without a gap and without a repetition.\<close>

theorem audit_pages_complete:
  "concat (map (\<lambda>p. ad_entries (audit_step (go_audit like rows) Audit_search (s\<lparr>ad_page := int p\<rparr>)))
      [0..<(length (audit_hits like rows (ad_filter s)) + 24) div 25]) = audit_hits like rows (ad_filter s)"
  using enough_pages [of "audit_hits like rows (ad_filter s)"] by (simp add: audit_search_result concat_pages del: audit_step.simps)

lemma stuck_audit_step:
  assumes "1 \<le> ad_page s" "ad_entries s = []" "ad_total s \<le> 25"
    and "\<And>f. e = Audit_filter f \<Longrightarrow> length (audit_hits like rows f) \<le> 25" "length (audit_hits like rows (ad_filter s)) \<le> 25"
  shows "ad_page (audit_step (go_audit like rows) e s) = ad_page s \<and> ad_entries (audit_step (go_audit like rows) e s) = [] \<and>
    ad_total (audit_step (go_audit like rows) e s) \<le> 25 \<and>
    length (audit_hits like rows (ad_filter (audit_step (go_audit like rows) e s))) \<le> 25"
proof (cases e)
  case Audit_search
  have "1 \<le> nat (ad_page s)" using assms(1) by simp
  then have "length (audit_hits like rows (ad_filter s)) \<le> nat (ad_page s) * 25" using assms(5) by linarith
  with Audit_search assms audit_search_result [of s like rows] show ?thesis by simp
qed (use assms in \<open>simp_all add: pager_shown_def AUDIT_PAGE_SIZE_def\<close>)

lemma stuck_audit_run:
  assumes "1 \<le> ad_page s" "ad_entries s = []" "ad_total s \<le> 25" "length (audit_hits like rows (ad_filter s)) \<le> 25"
    and "\<And>f. Audit_filter f \<in> set es \<Longrightarrow> length (audit_hits like rows f) \<le> 25"
  shows "ad_entries (fold (audit_step (go_audit like rows)) es s) = []"
  using assms
proof (induction es arbitrary: s)
  case (Cons e es)
  from stuck_audit_step [OF Cons.prems(1-3) _ Cons.prems(4), of e] Cons.prems(5)
  have "ad_page (audit_step (go_audit like rows) e s) = ad_page s \<and> ad_entries (audit_step (go_audit like rows) e s) = [] \<and>
    ad_total (audit_step (go_audit like rows) e s) \<le> 25 \<and>
    length (audit_hits like rows (ad_filter (audit_step (go_audit like rows) e s))) \<le> 25" by auto
  with Cons show ?case by auto
qed simp

text \<open>
  A search from a later page for a filter with at most one page of matches shows nothing, the pager is gone, and no search
  for such a filter ever shows anything again.
\<close>

theorem audit_search_stuck:
  assumes "1 \<le> ad_page s" and "length (audit_hits like rows (ad_filter s)) \<le> 25"
    and "\<And>f. Audit_filter f \<in> set es \<Longrightarrow> length (audit_hits like rows f) \<le> 25"
  shows "ad_entries (fold (audit_step (go_audit like rows)) (Audit_search # es) s) = []"
proof -
  let ?s = "audit_step (go_audit like rows) Audit_search s"
  have "1 \<le> nat (ad_page s)" using assms(1) by simp
  then have "length (audit_hits like rows (ad_filter s)) \<le> nat (ad_page s) * 25" using assms(2) by linarith
  then have "1 \<le> ad_page ?s" "ad_entries ?s = []" "ad_total ?s \<le> 25" "length (audit_hits like rows (ad_filter ?s)) \<le> 25"
    using assms(1,2) audit_search_result [of s like rows] by simp_all
  from stuck_audit_run [OF this assms(3)] show ?thesis by simp
qed

definition fixture_like :: "string \<Rightarrow> json \<Rightarrow> bool" where
  "fixture_like f j = (j = JStr f)"

definition fixture_audit :: "json list" where
  "fixture_audit = JStr ''amy'' # replicate 26 (JStr ''bob'')"

theorem audit_search_stuck_witness:
  "let s = fold (audit_step (go_audit fixture_like fixture_audit)) [Audit_search, Audit_next, Audit_filter ''amy''] initial_audit in
   audit_hits fixture_like fixture_audit (ad_filter s) = [JStr ''amy''] \<and>
   ad_entries (fold (audit_step (go_audit fixture_like fixture_audit)) [Audit_search, Audit_prev, Audit_search] s) = []"
proof -
  have hits: "length (audit_hits fixture_like fixture_audit []) = 27" "audit_hits fixture_like fixture_audit ''amy'' = [JStr ''amy'']"
    by (simp_all add: audit_hits_def fixture_audit_def fixture_like_def)
  let ?s = "fold (audit_step (go_audit fixture_like fixture_audit)) [Audit_search, Audit_next, Audit_filter ''amy''] initial_audit"
  have s: "ad_page ?s = 1" "ad_filter ?s = ''amy''"
    using hits(1) audit_search_result [of initial_audit fixture_like fixture_audit]
    by (simp_all add: initial_audit_def pager_shown_def AUDIT_PAGE_SIZE_def del: audit_step.simps(2))
  have "ad_entries (fold (audit_step (go_audit fixture_like fixture_audit)) (Audit_search # [Audit_prev, Audit_search]) ?s) = []"
    by (rule audit_search_stuck) (simp_all only: s hits, simp_all)
  with s hits show ?thesis unfolding Let_def by simp
qed

section \<open>The speakers tab\<close>

lemma asking_step:
  assumes "sp_speakers s = [] \<and> sp_messages s = [] \<and> \<not> sp_adding s \<and> 0 < sp_ask_speakers s \<and> 0 < sp_ask_messages s"
    and "e \<in> {Speakers_answer (Some []), Messages_answer (Some [])}"
  shows "sp_speakers (speaker_step e s) = [] \<and> sp_messages (speaker_step e s) = [] \<and> \<not> sp_adding (speaker_step e s) \<and>
    0 < sp_ask_speakers (speaker_step e s) \<and> 0 < sp_ask_messages (speaker_step e s) \<and>
    sp_ask_speakers (speaker_step e s) + sp_ask_messages (speaker_step e s) = Suc (sp_ask_speakers s + sp_ask_messages s)"
  using assms by (auto simp: speakers_render_def Let_def)

lemma asking_run:
  assumes "sp_speakers s = [] \<and> sp_messages s = [] \<and> \<not> sp_adding s \<and> 0 < sp_ask_speakers s \<and> 0 < sp_ask_messages s"
    and "set es \<subseteq> {Speakers_answer (Some []), Messages_answer (Some [])}"
  shows "sp_ask_speakers (fold speaker_step es s) + sp_ask_messages (fold speaker_step es s) =
    sp_ask_speakers s + sp_ask_messages s + length es"
  using assms
proof (induction es arbitrary: s)
  case (Cons e es)
  from asking_step [OF Cons.prems(1), of e] Cons.prems(2) Cons.IH [of "speaker_step e s"] show ?case by simp
qed simp

text \<open>With no speakers and no messages the open speakers tab never comes to rest: every empty answer that arrives sends two
  more requests, so after any number of answers there are two more requests under way than there have been answers.\<close>

theorem speakers_tab_never_rests:
  assumes "set es \<subseteq> {Speakers_answer (Some []), Messages_answer (Some [])}"
  shows "sp_ask_speakers (fold speaker_step es speakers_open) + sp_ask_messages (fold speaker_step es speakers_open) = 2 + length es"
  using asking_run [OF _ assms, of speakers_open] by (simp add: speakers_open_def speakers_render_def)

theorem speakers_tab_never_rests_witness:
  "sp_ask_speakers (fold speaker_step (replicate 100 (Speakers_answer (Some []))) speakers_open) +
   sp_ask_messages (fold speaker_step (replicate 100 (Speakers_answer (Some []))) speakers_open) = 102"
  using speakers_tab_never_rests [of "replicate 100 (Speakers_answer (Some []))"] by simp

text \<open>With a speaker it does: the answers of the first two requests end it.\<close>

lemma speakers_tab_rests:
  assumes "x # xs = ys"
  shows "fold speaker_step [Speakers_answer (Some ys), Messages_answer (Some zs)] speakers_open =
    speakers_open\<lparr>sp_speakers := ys, sp_messages := zs, sp_ask_speakers := 0, sp_ask_messages := 0\<rparr>"
  using assms by (auto simp: speakers_open_def speakers_render_def Let_def)

section \<open>The folder picker\<close>

lemma cut_last_id: "backslash \<notin> set s \<Longrightarrow> cut_last s = s"
  by (induction s) auto

text \<open>On a Unix server the entry of the parent does nothing.\<close>

lemma unix_parent_dead: "backslash \<notin> set p \<Longrightarrow> parent_target p = None"
  by (simp add: parent_target_def cut_last_id)

lemma breadcrumb_no_slash: "q \<in> set (breadcrumb_parts p) \<Longrightarrow> q \<noteq> [] \<and> CHR ''/'' \<notin> set q"
proof -
  have no: "q \<in> set (split_at_char d s) \<Longrightarrow> d \<notin> set q" for d q and s :: string
    by (induction s arbitrary: q) (auto split: list.splits if_splits)
  assume "q \<in> set (breadcrumb_parts p)"
  then show ?thesis using no by (auto simp: breadcrumb_parts_def)
qed

lemma join_set: "set (join sep ws) \<subseteq> set sep \<union> \<Union> (set ` set ws)"
  by (induction sep ws rule: join.induct) auto

text \<open>And every entry of the breadcrumb asks for a relative path, which the server refuses.\<close>

lemma unix_breadcrumb_refused:
  assumes "i < length (breadcrumb_parts p)"
  shows "HandleBrowsePath read_dir (breadcrumb_target (breadcrumb_parts p) i) = Inl (400, ''path must be absolute'')"
proof -
  let ?t = "breadcrumb_target (breadcrumb_parts p) i"
  have "CHR ''/'' \<notin> set ?t"
    using join_set [of "[backslash]" "take (Suc i) (breadcrumb_parts p)"] breadcrumb_no_slash
    by (auto simp: breadcrumb_target_def dest!: in_set_takeD subsetD)
  then have parts: "split_at_char (CHR ''/'') ?t = [?t]" and rel: "\<not> unix_abs ?t"
    by (auto simp: split_at_char_no_sep unix_abs_def starts_with_iff)
  have "?t \<noteq> []" "last ?t = backslash" by (simp_all add: breadcrumb_target_def)
  then have "?t \<notin> {[], ''.'', ''..''}" by auto
  with parts rel have "unix_clean ?t = ?t" by (simp add: unix_clean_def Let_def)
  with rel \<open>?t \<noteq> []\<close> show ?thesis by (simp add: HandleBrowsePath_def Let_def)
qed

text \<open>On Windows the parent of a folder is where it was entered from.\<close>

lemma cut_last_child:
  assumes "n \<noteq> []" "backslash \<notin> set n"
  shows "cut_last (p @ backslash # n) = p"
proof (induction p)
  case Nil
  from assms show ?case by (cases n) (auto simp: dropWhile_eq_Nil_conv)
next
  case (Cons c p)
  have "dropWhile (\<lambda>d. d \<noteq> backslash) (p @ backslash # n) \<notin> {[], [backslash]}"
    using assms by (induction p) auto
  with Cons show ?case by auto
qed

lemma windows_parent: "n \<noteq> [] \<Longrightarrow> backslash \<notin> set n \<Longrightarrow> p \<noteq> [] \<Longrightarrow> parent_target (p @ backslash # n) = Some (p @ [backslash])"
  by (simp add: parent_target_def cut_last_child)

text \<open>A late answer of the event log is shown under the filter chosen since.\<close>

lemma late_log_answer: "el_events (log_answer data (s\<lparr>el_camera := c\<rparr>)) = data \<and> el_camera (log_answer data (s\<lparr>el_camera := c\<rparr>)) = c"
  by (simp add: log_answer_def)

end
