(* ===== verification/Search_Page.thy ===== *)
theory Search_Page
  imports Site_Admin Query_Hooks Browser_Storage Event_List Feature_Flags
begin

text \<open>
  The search page (\<^verbatim>\<open>app/search/page.tsx\<close>) over its store (\<open>Query_Hooks\<close>) and the server's unified search
  (\<^verbatim>\<open>internal/api/search_frames.go\<close>): the filter controls, the request they build, the saved searches, the cleaning of
  captions; decoding, the two sources with their limits, the confidence filter and the exchange sort. Shown: the request
  decodes to what the controls show, an answer is sorted, bounded, satisfies every filter and stays within the caller's
  cameras; and that two of the boxes can never be satisfied. The database's text matching is a parameter, detections
  are their confidences.
\<close>

section \<open>The filter controls\<close>

definition filt :: "string \<Rightarrow> SearchState \<Rightarrow> json option" where
  "filt k s = json_field k (JObj (st_filters s))"

definition VIOLATION_KEYS :: "string list" where
  "VIOLATION_KEYS = [''no_hard_hat'', ''no_harness'', ''zone_breach'', ''no_hi_vis'', ''vehicle_hazard'']"

definition current_violations :: "SearchState \<Rightarrow> string list" where
  "current_violations s = str_items (filt ''violation_types'' s)"

definition violationTypes :: "SearchState \<Rightarrow> (string \<times> bool) list" where
  "violationTypes s = map (\<lambda>k. (k, k \<in> set (current_violations s))) VIOLATION_KEYS"

definition toggleViolation :: "string \<Rightarrow> SearchState \<Rightarrow> SearchState" where
  "toggleViolation t s =
     (let cur = current_violations s in
      updateFilters [(''violation_types'', JArr (map JStr (if t \<in> set cur then filter (\<lambda>x. x \<noteq> t) cur else cur @ [t])))] s)"

definition select_site :: "string \<Rightarrow> SearchState \<Rightarrow> SearchState" where
  "select_site v s = updateFilters [(''site_ids'', JArr (if v = [] then [] else [JStr v]))] s"

text \<open>\<^verbatim>\<open>filters.k?.m || d\<close>.\<close>

definition filter_text :: "string \<Rightarrow> string \<Rightarrow> string \<Rightarrow> SearchState \<Rightarrow> string" where
  "filter_text k m d s = (case filt k s of Some r \<Rightarrow> str_or (Some (str_field m r [])) d | None \<Rightarrow> d)"

definition range_json :: "string \<Rightarrow> string \<Rightarrow> json" where
  "range_json a b = JObj [(''start'', JStr a), (''end'', JStr b)]"

definition set_date_start :: "string \<Rightarrow> SearchState \<Rightarrow> SearchState" where
  "set_date_start v s = updateFilters [(''date_range'', range_json v (filter_text ''date_range'' ''end'' [] s))] s"

definition set_date_end :: "string \<Rightarrow> SearchState \<Rightarrow> SearchState" where
  "set_date_end v s = updateFilters [(''date_range'', range_json (filter_text ''date_range'' ''start'' [] s) v)] s"

definition set_time_start :: "string \<Rightarrow> SearchState \<Rightarrow> SearchState" where
  "set_time_start v s = updateFilters [(''time_of_day'', range_json v (filter_text ''time_of_day'' ''end'' ''23:59'' s))] s"

definition set_time_end :: "string \<Rightarrow> SearchState \<Rightarrow> SearchState" where
  "set_time_end v s = updateFilters [(''time_of_day'', range_json (filter_text ''time_of_day'' ''start'' ''00:00'' s) v)] s"

text \<open>The slider gives a whole number; 0 becomes \<^verbatim>\<open>undefined\<close>, which reads like an absent member.\<close>

definition set_confidence :: "int \<Rightarrow> SearchState \<Rightarrow> SearchState" where
  "set_confidence n s =
     (if n = 0 then s\<lparr>st_filters := filter (\<lambda>p. fst p \<noteq> ''confidence_min'') (st_filters s)\<rparr>
      else updateFilters [(''confidence_min'', JNum (of_int n / 100))] s)"

definition set_model :: "string \<Rightarrow> SearchState \<Rightarrow> SearchState" where
  "set_model m s = updateFilters [(''model'', JStr m)] s"

definition activeViolations :: "SearchState \<Rightarrow> string list" where
  "activeViolations s = map fst (filter snd (violationTypes s))"

definition opt_member :: "bool \<Rightarrow> string \<Rightarrow> SearchState \<Rightarrow> (string \<times> json) list" where
  "opt_member given k s = (case filt k s of Some v \<Rightarrow> if given then [(k, v)] else [] | None \<Rightarrow> [])"

definition search_body :: "SearchState \<Rightarrow> json" where
  "search_body s = JObj ([(''query'', JStr (js_trim (st_query s)))] @
     (if activeViolations s \<noteq> [] then [(''violation_types'', JArr (map JStr (activeViolations s)))] else []) @
     opt_member (str_items (filt ''site_ids'' s) \<noteq> []) ''site_ids'' s @
     opt_member (filter_text ''date_range'' ''start'' [] s \<noteq> [] \<or> filter_text ''date_range'' ''end'' [] s \<noteq> []) ''date_range'' s @
     opt_member True ''confidence_min'' s @
     opt_member (filter_text ''time_of_day'' ''start'' [] s \<noteq> [] \<or> filter_text ''time_of_day'' ''end'' [] s \<noteq> []) ''time_of_day'' s @
     [(''model'', nullish (truthy_at ''model'' (JObj (st_filters s))) (JStr ''hybrid''))])"

definition handleSearch :: "World \<times> SearchState \<Rightarrow> World \<times> SearchState" where
  "handleSearch ws =
     (if js_trim (st_query (snd ws)) = [] \<and> activeViolations (snd ws) = [] then ws
      else fst (useSearchMutation (search_body (snd ws)) ws))"

datatype filter_event =
    Toggle_violation string | Choose_site string | Date_start string | Date_end string | Confidence int
  | Time_start string | Time_end string | Choose_model string | Reset_filters | Typed_query string

fun filter_step :: "filter_event \<Rightarrow> SearchState \<Rightarrow> SearchState" where
  "filter_step (Toggle_violation t) s = toggleViolation t s"
| "filter_step (Choose_site v) s = select_site v s"
| "filter_step (Date_start v) s = set_date_start v s"
| "filter_step (Date_end v) s = set_date_end v s"
| "filter_step (Confidence n) s = set_confidence n s"
| "filter_step (Time_start v) s = set_time_start v s"
| "filter_step (Time_end v) s = set_time_end v s"
| "filter_step (Choose_model m) s = set_model m s"
| "filter_step Reset_filters s = resetFilters s"
| "filter_step (Typed_query q) s = setQuery q s"

section \<open>Saved searches and captions\<close>

text \<open>
  A list entry read from storage has lost the members that were \<^verbatim>\<open>undefined\<close>; one saved on this page still has them, and
  spreading it clears what it leaves undefined.
\<close>

datatype SavedEntry = Stored json | Fresh json

fun saved_json :: "SavedEntry \<Rightarrow> json" where
  "saved_json (Stored e) = e"
| "saved_json (Fresh e) = e"

record SavedPanel =
  sv_searches :: "SavedEntry list"
  sv_show :: bool

definition mount_saved :: "storage option \<Rightarrow> SavedPanel" where
  "mount_saved st = \<lparr>sv_searches = map Stored (json_items (readSavedSearches True st)), sv_show = False\<rparr>"

text \<open>A name is cut to 50 bytes here, to 50 UTF-16 units in the code.\<close>

definition save_data :: "SearchState \<Rightarrow> (string \<times> json) list" where
  "save_data s = [(''name'', JStr (take 50 (js_trim (st_query s)))), (''query'', JStr (js_trim (st_query s))), (''filters'', JObj (st_filters s)),
     (''created_by'', JStr ''Operator''), (''shared'', JBool False)]"

definition handleSaveSearch :: "(number \<Rightarrow> string) \<Rightarrow> string \<Rightarrow> ms \<Rightarrow> SearchState \<Rightarrow> storage option \<times> SavedPanel \<Rightarrow> (storage option \<times> SavedPanel) result" where
  "handleSaveSearch fractx new_id now s sp =
     (if js_trim (st_query s) = [] then Inr sp
      else case createSavedSearch fractx True (save_data s) new_id now (fst sp) of
        Inl e \<Rightarrow> Inl e
      | Inr (st, entry) \<Rightarrow> Inr (st, (snd sp)\<lparr>sv_searches := Fresh entry # sv_searches (snd sp)\<rparr>))"

definition cleared_by :: "SavedEntry \<Rightarrow> SearchState \<Rightarrow> SearchState" where
  "cleared_by e s = (case e of Stored _ \<Rightarrow> s
     | Fresh j \<Rightarrow> s\<lparr>st_filters := filter (\<lambda>p. fst p \<in> fst ` set (spread_opt (json_field ''filters'' j))) (st_filters s)\<rparr>)"

definition handleLoadSaved :: "SavedEntry \<Rightarrow> SearchState \<times> SavedPanel \<Rightarrow> SearchState \<times> SavedPanel" where
  "handleLoadSaved e sp =
     (updateFilters (spread_opt (json_field ''filters'' (saved_json e))) (cleared_by e (setQuery (str_field ''query'' (saved_json e) []) (fst sp))),
      (snd sp)\<lparr>sv_show := False\<rparr>)"

definition handleDeleteSaved :: "(number \<Rightarrow> string) \<Rightarrow> string \<Rightarrow> storage option \<times> SavedPanel \<Rightarrow> (storage option \<times> SavedPanel) result" where
  "handleDeleteSaved fractx i sp = (case deleteSavedSearch fractx True i (fst sp) of
     Inl e \<Rightarrow> Inl e
   | Inr st \<Rightarrow> Inr (st, (snd sp)\<lparr>sv_searches := filter (\<lambda>x. json_field ''id'' (saved_json x) \<noteq> Some (JStr i)) (sv_searches (snd sp))\<rparr>))"

definition selected_result :: "SearchState \<Rightarrow> json option" where
  "selected_result s = List.find (\<lambda>r. json_field ''frame_id'' r = map_option JStr (st_selectedResultId s) \<and> st_selectedResultId s \<noteq> None)
     (json_items (st_results s))"

text \<open>The pattern of \<^verbatim>\<open>cleanCaption\<close>: a quoted string up to its first unescaped quote, and where it starts.\<close>

fun scan_quoted :: "string \<Rightarrow> string option" where
  "scan_quoted [] = None"
| "scan_quoted [c] = (if c = quote then Some [] else None)"
| "scan_quoted (c # d # s) =
     (if c = quote then Some []
      else if c = backslash then (if d = CHR 0x0A \<or> d = CHR 0x0D then None else map_option (\<lambda>t. c # d # t) (scan_quoted s))
      else map_option (Cons c) (scan_quoted (d # s)))"

definition description_here :: "string \<Rightarrow> string option" where
  "description_here s =
     (if \<not> starts_with (quote # ''description'' @ [quote]) s then None
      else (case skip_ws (drop 13 s) of
          c # t \<Rightarrow> if c \<noteq> CHR '':'' then None
                   else (case skip_ws t of q # u \<Rightarrow> if q = quote then scan_quoted u else None | [] \<Rightarrow> None)
        | [] \<Rightarrow> None))"

fun find_description :: "string \<Rightarrow> string option" where
  "find_description [] = None"
| "find_description (c # s) = (case description_here (c # s) of Some t \<Rightarrow> Some t | None \<Rightarrow> find_description s)"

fun unquote :: "string \<Rightarrow> string" where
  "unquote [] = []"
| "unquote [c] = [c]"
| "unquote (c # d # s) = (if c = backslash \<and> d = quote then quote # unquote s else c # unquote (d # s))"

definition cleanCaption :: "string \<Rightarrow> string" where
  "cleanCaption s =
     (if \<not> starts_with ''{'' (js_trim s) then s
      else (case find_description (js_trim s) of Some m \<Rightarrow> if m \<noteq> [] then unquote m else s | None \<Rightarrow> s))"

section \<open>The server\<close>

record SearchFiltersRequest =
  rq_Query :: string
  rq_ViolationTypes :: "string list"
  rq_SiteIDs :: "string list"
  rq_DateRange :: "(string \<times> string) option"
  rq_ConfidenceMin :: number
  rq_TimeOfDay :: "(string \<times> string) option"
  rq_Model :: string

definition go_range :: "json option \<Rightarrow> (string \<times> string) option option" where
  "go_range v = (case v of None \<Rightarrow> Some None | Some JNull \<Rightarrow> Some None
     | Some (JObj fs) \<Rightarrow> Option.bind (go_string (map_of fs ''start'')) (\<lambda>a. Option.bind (go_string (map_of fs ''end'')) (\<lambda>b. Some (Some (a, b))))
     | _ \<Rightarrow> None)"

definition go_float :: "json option \<Rightarrow> number option" where
  "go_float v = (case v of None \<Rightarrow> Some 0 | Some JNull \<Rightarrow> Some 0 | Some (JNum n) \<Rightarrow> Some n | _ \<Rightarrow> None)"

definition decode_search :: "json \<Rightarrow> SearchFiltersRequest option" where
  "decode_search j =
     Option.bind (go_object j) (\<lambda>b.
     Option.bind (go_string (json_field ''query'' b)) (\<lambda>q.
     Option.bind (go_strings (json_field ''violation_types'' b)) (\<lambda>vt.
     Option.bind (go_strings (json_field ''site_ids'' b)) (\<lambda>si.
     Option.bind (go_range (json_field ''date_range'' b)) (\<lambda>dr.
     Option.bind (go_float (json_field ''confidence_min'' b)) (\<lambda>cm.
     Option.bind (go_range (json_field ''time_of_day'' b)) (\<lambda>td.
     Option.bind (go_string (json_field ''model'' b)) (\<lambda>mo.
       Some \<lparr>rq_Query = q, rq_ViolationTypes = vt, rq_SiteIDs = si, rq_DateRange = dr, rq_ConfidenceMin = cm, rq_TimeOfDay = td, rq_Model = mo\<rparr>))))))))"

text \<open>\<^verbatim>\<open>fmt.Sscanf(s, "%d", &h)\<close> with its range check.\<close>

definition scan_hour :: "string \<Rightarrow> int option" where
  "scan_hour s =
     (if length s < 2 then None
      else let (neg, u) = split_sign s; ds = takeWhile is_digit u; h = (if neg then - int (dec_val ds) else int (dec_val ds)) in
        if ds = [] \<or> h < 0 \<or> h > 23 then None else Some h)"

definition parseTimeOfDay :: "(string \<times> string) option \<Rightarrow> (int \<times> int) option" where
  "parseTimeOfDay t = (case t of
     None \<Rightarrow> None
   | Some (a, b) \<Rightarrow> (case (scan_hour a, scan_hour b) of
         (None, None) \<Rightarrow> None
       | (sh, eh) \<Rightarrow> Some (nullish sh 0, nullish eh 23)))"

text \<open>\<open>day\<close> parses a date, \<open>stamp\<close> an RFC 3339 time; a bound that is neither is not applied.\<close>

definition parseDateRange :: "(string \<Rightarrow> ms option) \<Rightarrow> (string \<Rightarrow> ms option) \<Rightarrow> (string \<times> string) option \<Rightarrow> ms option \<times> ms option" where
  "parseDateRange day stamp dr = (case dr of
     None \<Rightarrow> (None, None)
   | Some (a, b) \<Rightarrow>
       (if a = [] then None else case day a of Some t \<Rightarrow> Some t | None \<Rightarrow> stamp a,
        if b = [] then None else case day b of Some t \<Rightarrow> Some (t + 86400000) | None \<Rightarrow> stamp b))"

record SearchDb =
  db_fts :: "string \<Rightarrow> string \<Rightarrow> bool"
  db_rank :: "string \<Rightarrow> string \<Rightarrow> number"
  db_ilike :: "string \<Rightarrow> string \<Rightarrow> bool"
  db_hour :: "ms \<Rightarrow> int"
  db_day :: "string \<Rightarrow> ms option"
  db_stamp :: "string \<Rightarrow> ms option"

record SegmentRow =
  vs_id :: int
  vs_camera :: id
  vs_site :: string
  vs_start :: ms
  vs_end :: ms
  vs_description :: string
  vs_tags :: "string list"
  vs_confidences :: "number list"

record AlarmRow =
  al_id :: string
  al_camera :: id
  al_site :: string
  al_ts :: ms
  al_type :: string
  al_description :: string
  al_ai_description :: string
  al_violations :: "string list"
  al_confidences :: "number list"
  al_fp :: number

record SearchFrameResult =
  fr_FrameID :: string
  fr_SiteID :: string
  fr_CameraID :: id
  fr_Ts :: ms
  fr_Score :: number
  fr_Caption :: string
  fr_Flags :: "string list"
  fr_Confidences :: "number list"
  fr_Source :: string

definition ppeViolationLabelMap :: "(string \<times> string) list" where
  "ppeViolationLabelMap =
     [(''nohat'', ''no_hard_hat''), (''no-hat'', ''no_hard_hat''), (''no_hat'', ''no_hard_hat''),
      (''no-hardhat'', ''no_hard_hat''), (''no_hardhat'', ''no_hard_hat''), (''no-hard-hat'', ''no_hard_hat''),
      (''novest'', ''no_hi_vis''), (''no-vest'', ''no_hi_vis''), (''no_vest'', ''no_hi_vis''),
      (''no-hivis'', ''no_hi_vis''), (''no_hivis'', ''no_hi_vis''), (''no-hi-vis'', ''no_hi_vis''),
      (''noharness'', ''no_harness''), (''no-harness'', ''no_harness''), (''no_harness'', ''no_harness'')]"

definition ppeFromJSON :: "string list \<Rightarrow> string list" where
  "ppeFromJSON classes = remdups (List.map_filter (\<lambda>c. map_of ppeViolationLabelMap (to_lower c)) classes)"

definition tagsToViolationFlags :: "string list \<Rightarrow> string list" where
  "tagsToViolationFlags tags =
     (let lc = to_lower (join '' '' tags) in
      (if list_ex (\<lambda>t. contains_str t lc) [''no hard hat'', ''no hardhat'', ''missing hard hat''] then [''no_hard_hat''] else []) @
      (if list_ex (\<lambda>t. contains_str t lc) [''no vest'', ''no hi-vis'', ''no high-vis'', ''missing vest''] then [''no_hi_vis''] else []) @
      (if list_ex (\<lambda>t. contains_str t lc) [''no harness'', ''missing harness''] then [''no_harness''] else []))"

definition matchesViolationFilter :: "string list \<Rightarrow> string list \<Rightarrow> bool" where
  "matchesViolationFilter flags required \<longleftrightarrow> (\<forall>k \<in> set required. k \<in> set flags)"

definition in_hours :: "(int \<times> int) option \<Rightarrow> int \<Rightarrow> bool" where
  "in_hours hours h = (case hours of None \<Rightarrow> True | Some (a, b) \<Rightarrow> if a \<le> b then a \<le> h \<and> h \<le> b else a \<le> h \<or> h \<le> b)"

text \<open>\<open>allowed\<close> is \<open>None\<close> for a caller without a restriction.\<close>

definition seg_where :: "SearchDb \<Rightarrow> string \<Rightarrow> SearchFiltersRequest \<Rightarrow> id list option \<Rightarrow> SegmentRow \<Rightarrow> bool" where
  "seg_where db q req allowed r \<longleftrightarrow>
     (let fts = db_fts db q (vs_description r); tag = (\<exists>t \<in> set (split_at_char (CHR '' '') (to_lower q)). t \<in> set (vs_tags r));
          (st, en) = parseDateRange (db_day db) (db_stamp db) (rq_DateRange req) in
      (if rq_Model req = ''caption'' then fts else if rq_Model req = ''visual'' then tag else fts \<or> tag) \<and>
      (case st of None \<Rightarrow> True | Some t \<Rightarrow> t \<le> vs_start r) \<and> (case en of None \<Rightarrow> True | Some t \<Rightarrow> vs_end r \<le> t) \<and>
      in_hours (parseTimeOfDay (rq_TimeOfDay req)) (vs_start r div 3600000 mod 24) \<and>
      (rq_SiteIDs req = [] \<or> vs_site r \<in> set (rq_SiteIDs req)) \<and>
      (case allowed of None \<Rightarrow> True | Some ids \<Rightarrow> vs_camera r \<in> set ids))"

definition seg_score :: "number \<Rightarrow> number" where
  "seg_score rank = (let n = rank / (rank + 1 / 2) in if n < 15 / 100 then 15 / 100 else n)"

definition seg_result :: "SearchDb \<Rightarrow> string \<Rightarrow> SegmentRow \<Rightarrow> SearchFrameResult" where
  "seg_result db q r = \<lparr>fr_FrameID = ''seg-'' @ int_str (vs_id r), fr_SiteID = vs_site r, fr_CameraID = vs_camera r,
     fr_Ts = vs_start r + max 0 ((vs_end r - vs_start r) div 2), fr_Score = seg_score (db_rank db q (vs_description r)), fr_Caption = vs_description r,
     fr_Flags = tagsToViolationFlags (vs_tags r), fr_Confidences = vs_confidences r, fr_Source = ''vlm_segment''\<rparr>"

definition searchVLMSegments :: "SearchDb \<Rightarrow> string \<Rightarrow> SearchFiltersRequest \<Rightarrow> id list option \<Rightarrow> SegmentRow list \<Rightarrow> SearchFrameResult list" where
  "searchVLMSegments db q req allowed rows =
     (if q = [] then []
      else filter (\<lambda>r. matchesViolationFilter (fr_Flags r) (rq_ViolationTypes req))
        (map (seg_result db q) (take 50 (js_sort (\<lambda>a b. db_rank db q (vs_description b) < db_rank db q (vs_description a) \<or>
            db_rank db q (vs_description b) = db_rank db q (vs_description a) \<and> vs_start b < vs_start a)
          (filter (seg_where db q req allowed) rows)))))"

definition alarm_where :: "SearchDb \<Rightarrow> string \<Rightarrow> SearchFiltersRequest \<Rightarrow> id list option \<Rightarrow> AlarmRow \<Rightarrow> bool" where
  "alarm_where db q req allowed r \<longleftrightarrow>
     (let (st, en) = parseDateRange (db_day db) (db_stamp db) (rq_DateRange req) in
      (q = [] \<or> db_ilike db q (al_ai_description r) \<or> db_ilike db q (al_description r) \<or> db_ilike db q (al_type r)) \<and>
      (case st of None \<Rightarrow> True | Some t \<Rightarrow> t \<le> al_ts r div 1000 * 1000) \<and> (case en of None \<Rightarrow> True | Some t \<Rightarrow> al_ts r div 1000 * 1000 \<le> t) \<and>
      in_hours (parseTimeOfDay (rq_TimeOfDay req)) (db_hour db (al_ts r)) \<and>
      (rq_SiteIDs req = [] \<or> al_site r \<in> set (rq_SiteIDs req)) \<and>
      (case allowed of None \<Rightarrow> True | Some ids \<Rightarrow> al_camera r \<in> set ids))"

definition alarm_score :: "string \<Rightarrow> number \<Rightarrow> number" where
  "alarm_score q fp = (let rel = max (3 / 10) (1 - fp) in if q \<noteq> [] then rel * 6 / 10 + 4 / 10 else rel)"

definition alarm_result :: "string \<Rightarrow> AlarmRow \<Rightarrow> SearchFrameResult" where
  "alarm_result q r = \<lparr>fr_FrameID = ''alarm-'' @ al_id r, fr_SiteID = al_site r, fr_CameraID = al_camera r, fr_Ts = al_ts r,
     fr_Score = alarm_score q (al_fp r), fr_Caption = str_or (Some (al_ai_description r)) (al_description r),
     fr_Flags = ppeFromJSON (al_violations r), fr_Confidences = al_confidences r,
     fr_Source = (if ppeFromJSON (al_violations r) \<noteq> [] then ''safety_alarm'' else ''security_alarm'')\<rparr>"

definition searchAlarms :: "SearchDb \<Rightarrow> string \<Rightarrow> SearchFiltersRequest \<Rightarrow> id list option \<Rightarrow> AlarmRow list \<Rightarrow> SearchFrameResult list" where
  "searchAlarms db q req allowed rows =
     filter (\<lambda>r. matchesViolationFilter (fr_Flags r) (rq_ViolationTypes req))
       (map (alarm_result q) (take 50 (js_sort (\<lambda>a b. al_ts b < al_ts a) (filter (alarm_where db q req allowed) rows))))"

definition confident :: "number \<Rightarrow> SearchFrameResult \<Rightarrow> bool" where
  "confident m r \<longleftrightarrow> m \<le> 0 \<or> m \<le> fr_Score r \<or> list_ex (\<lambda>c. m \<le> c) (fr_Confidences r)"

text \<open>The nested loops that sort: one pass for a position, exchanging whenever a later score is higher.\<close>

fun exchange_pass :: "('a \<Rightarrow> number) \<Rightarrow> 'a \<Rightarrow> 'a list \<Rightarrow> 'a \<times> 'a list" where
  "exchange_pass f x [] = (x, [])"
| "exchange_pass f x (y # ys) =
     (if f y > f x then (let (m, zs) = exchange_pass f y ys in (m, x # zs))
      else (let (m, zs) = exchange_pass f x ys in (m, y # zs)))"

lemma length_exchange_pass [simp]: "length (snd (exchange_pass f x ys)) = length ys"
  by (induction f x ys rule: exchange_pass.induct) (simp_all add: split_beta Let_def)

function exchange_sort :: "('a \<Rightarrow> number) \<Rightarrow> 'a list \<Rightarrow> 'a list" where
  "exchange_sort f [] = []"
| "exchange_sort f (x # xs) = fst (exchange_pass f x xs) # exchange_sort f (snd (exchange_pass f x xs))"
  by pat_completeness auto
termination by (relation "measure (\<lambda>(f, xs). length xs)") simp_all

definition HandleSearchFrames :: "SearchDb \<Rightarrow> bool \<Rightarrow> id list option \<Rightarrow> SegmentRow list \<Rightarrow> AlarmRow list \<Rightarrow> json \<Rightarrow>
    (nat \<times> string) + SearchFrameResult list" where
  "HandleSearchFrames db signed_in allowed segs alarms body =
     (if \<not> signed_in then Inl (401, ''unauthorized'')
      else case decode_search body of
        None \<Rightarrow> Inl (400, ''invalid request'')
      | Some req \<Rightarrow>
          (let q = js_trim (rq_Query req) in
           if q = [] \<and> rq_ViolationTypes req = [] then Inr []
           else if allowed = Some [] then Inr []
           else Inr (take 100 (exchange_sort fr_Score (filter (confident (rq_ConfidenceMin req))
               (searchVLMSegments db q req allowed segs @ searchAlarms db q req allowed alarms))))))"


section \<open>Helper lemmas\<close>

subsection \<open>The filters\<close>

text \<open>The shape of the filter object, which every control keeps.\<close>

definition range_shape :: "json option \<Rightarrow> bool" where
  "range_shape v \<longleftrightarrow> v = None \<or> (\<exists>a b. v = Some (range_json a b))"

definition filters_ok :: "SearchState \<Rightarrow> bool" where
  "filters_ok s \<longleftrightarrow> (\<exists>xs. filt ''violation_types'' s = Some (JArr (map JStr xs))) \<and> (\<exists>xs. filt ''site_ids'' s = Some (JArr (map JStr xs))) \<and>
     range_shape (filt ''date_range'' s) \<and> range_shape (filt ''time_of_day'' s) \<and>
     (filt ''confidence_min'' s = None \<or> (\<exists>n. filt ''confidence_min'' s = Some (JNum n))) \<and> (\<exists>m. filt ''model'' s = Some (JStr m))"

lemma filt_update: "filt k (updateFilters [(j, v)] s) = (if j = k then Some v else filt k s)"
  by (simp add: filt_def updateFilters_def map_of_obj_set_at json_field_def)

lemma filt_cleared: "filt k (s\<lparr>st_filters := filter (\<lambda>p. fst p \<noteq> j) (st_filters s)\<rparr>) = (if j = k then None else filt k s)"
proof -
  have "map_of (filter (\<lambda>p. fst p \<noteq> j) fs) k = (if j = k then None else map_of fs k)" for fs :: "(string \<times> json) list"
    by (induction fs) auto
  then show ?thesis by (simp add: filt_def json_field_def)
qed

lemma range_shape_json [simp]: "range_shape (Some (range_json a b))" "range_shape None"
  by (auto simp: range_shape_def)

lemma filters_ok_step: "filters_ok s \<Longrightarrow> filters_ok (filter_step e s)"
proof (cases e)
  case Reset_filters
  then show ?thesis
    by (simp add: filters_ok_def filt_def resetFilters_def DEFAULT_FILTERS_def json_field_def)
next
  case (Toggle_violation t)
  moreover have "\<exists>ys. JArr (map JStr zs) = JArr (map JStr ys)" for zs by blast
  ultimately show "filters_ok s \<Longrightarrow> ?thesis" by (simp add: filters_ok_def toggleViolation_def Let_def filt_update)
next
  case (Choose_site v)
  moreover have "\<exists>ys. (if v = [] then [] else [JStr v]) = map JStr ys" by (rule exI [of _ "if v = [] then [] else [v]"]) simp
  ultimately show "filters_ok s \<Longrightarrow> ?thesis" by (simp add: filters_ok_def select_site_def filt_update)
next
  case (Typed_query q)
  then show "filters_ok s \<Longrightarrow> ?thesis" by (simp add: filters_ok_def setQuery_def filt_def)
next
  case (Confidence n)
  moreover have "\<exists>m. JNum (of_int n / 100) = JNum m" by blast
  ultimately show "filters_ok s \<Longrightarrow> ?thesis" by (simp add: filters_ok_def set_confidence_def filt_update filt_cleared)
qed (auto simp: filters_ok_def set_date_start_def set_date_end_def set_time_start_def set_time_end_def set_model_def
      filt_update filt_cleared)

lemma filters_ok_initial: "filters_ok useSearchStore"
  by (simp add: filters_ok_def filt_def useSearchStore_def DEFAULT_FILTERS_def json_field_def)

interpretation controls: machine filter_step "\<lambda>s. s = useSearchStore" filters_ok
  by unfold_locales (auto intro: filters_ok_step filters_ok_initial)

subsection \<open>The request\<close>

definition shown_range :: "string \<Rightarrow> SearchState \<Rightarrow> (string \<times> string) option" where
  "shown_range k s = (let r = (filter_text k ''start'' [] s, filter_text k ''end'' [] s) in if r = ([], []) then None else Some r)"

definition shown_confidence :: "SearchState \<Rightarrow> number" where
  "shown_confidence s = (case filt ''confidence_min'' s of Some (JNum n) \<Rightarrow> n | _ \<Rightarrow> 0)"

definition shown_model :: "SearchState \<Rightarrow> string" where
  "shown_model s = (case filt ''model'' s of Some (JStr m) \<Rightarrow> str_or (Some m) ''hybrid'' | _ \<Rightarrow> ''hybrid'')"

definition shown_request :: "SearchState \<Rightarrow> SearchFiltersRequest" where
  "shown_request s = \<lparr>rq_Query = js_trim (st_query s), rq_ViolationTypes = activeViolations s, rq_SiteIDs = str_items (filt ''site_ids'' s),
     rq_DateRange = shown_range ''date_range'' s, rq_ConfidenceMin = shown_confidence s, rq_TimeOfDay = shown_range ''time_of_day'' s,
     rq_Model = shown_model s\<rparr>"

lemma str_items_strings: "str_items (Some (JArr (map JStr xs))) = xs"
  by (induction xs) (simp_all add: str_items_def List.map_filter_simps)

lemma filter_text_range: "filt k s = Some (range_json a b) \<Longrightarrow> filter_text k ''start'' [] s = a \<and> filter_text k ''end'' [] s = b"
  by (simp add: filter_text_def range_json_def str_field_def json_field_def)

lemma filter_text_absent: "filt k s = None \<Longrightarrow> filter_text k m d s = d"
  by (simp add: filter_text_def)

lemma go_range_shown:
  assumes "range_shape (filt k s)"
  shows "go_range (map_of (opt_member (filter_text k ''start'' [] s \<noteq> [] \<or> filter_text k ''end'' [] s \<noteq> []) k s) k) = Some (shown_range k s)"
  using assms filter_text_range [of k s]
  by (auto simp: range_shape_def opt_member_def filter_text_absent shown_range_def go_range_def range_json_def go_string_def Let_def)

lemma map_of_opt_other: "k \<noteq> j \<Longrightarrow> map_of (opt_member c j s) k = None"
  by (simp add: opt_member_def split: option.split)

lemma map_of_opt_given: "map_of (opt_member True k s) k = filt k s"
  by (simp add: opt_member_def split: option.split)

lemma map_of_opt_strings:
  assumes "filt k s = Some (JArr (map JStr xs))"
  shows "go_strings (map_of (opt_member (xs \<noteq> []) k s) k) = Some xs"
  using assms by (cases "xs = []") (simp_all add: opt_member_def go_strings_items, simp add: go_strings_def)

lemma decode_shown:
  assumes "filters_ok s"
  shows "decode_search (search_body s) = Some (shown_request s)"
proof -
  obtain vs ss m where vs: "filt ''violation_types'' s = Some (JArr (map JStr vs))" and ss: "filt ''site_ids'' s = Some (JArr (map JStr ss))"
    and m: "filt ''model'' s = Some (JStr m)" using assms by (auto simp: filters_ok_def)
  have dr: "range_shape (filt ''date_range'' s)" and td: "range_shape (filt ''time_of_day'' s)"
    and cm: "filt ''confidence_min'' s = None \<or> (\<exists>n. filt ''confidence_min'' s = Some (JNum n))"
    using assms by (simp_all add: filters_ok_def)
  note at = search_body_def json_field_def map_of_append map_add_def map_of_opt_other
  have q: "go_string (json_field ''query'' (search_body s)) = Some (js_trim (st_query s))"
    by (simp add: at go_string_def)
  have v: "go_strings (json_field ''violation_types'' (search_body s)) = Some (activeViolations s)"
    by (auto simp: at go_strings_items) (simp add: go_strings_def)
  have si: "go_strings (json_field ''site_ids'' (search_body s)) = Some ss"
    using map_of_opt_strings [OF ss] ss by (auto simp: at str_items_strings split: option.splits)
  have d: "go_range (json_field ''date_range'' (search_body s)) = Some (shown_range ''date_range'' s)"
    using go_range_shown [OF dr] by (auto simp: at split: option.splits)
  have t: "go_range (json_field ''time_of_day'' (search_body s)) = Some (shown_range ''time_of_day'' s)"
    using go_range_shown [OF td] by (auto simp: at split: option.splits)
  have c: "go_float (json_field ''confidence_min'' (search_body s)) = Some (shown_confidence s)"
    using cm by (auto simp: at map_of_opt_given shown_confidence_def go_float_def)
  have mo: "go_string (json_field ''model'' (search_body s)) = Some (shown_model s)"
    using m by (simp add: at go_string_def truthy_at_def filt_def shown_model_def nullish_def str_or_def)
  have "go_object (search_body s) = Some (search_body s)" by (simp add: go_object_def search_body_def)
  then show ?thesis
    by (simp add: decode_search_def q v si d c t mo shown_request_def ss str_items_strings)
qed


subsection \<open>The sort\<close>

lemma mset_exchange_pass: "add_mset (fst (exchange_pass f x ys)) (mset (snd (exchange_pass f x ys))) = add_mset x (mset ys)"
  by (induction f x ys rule: exchange_pass.induct) (simp_all add: split_beta Let_def)

lemma exchange_pass_max: "y = x \<or> y \<in> set ys \<Longrightarrow> f y \<le> f (fst (exchange_pass f x ys))"
  by (induction f x ys arbitrary: y rule: exchange_pass.induct) (fastforce simp: split_beta Let_def not_less intro: order.trans)+

lemma mset_exchange_sort [simp]: "mset (exchange_sort f xs) = mset xs"
  by (induction f xs rule: exchange_sort.induct) (simp_all add: mset_exchange_pass)

lemma set_exchange_sort [simp]: "set (exchange_sort f xs) = set xs"
  by (metis mset_exchange_sort set_mset_mset)

lemma length_exchange_sort [simp]: "length (exchange_sort f xs) = length xs"
  by (metis mset_exchange_sort size_mset)

lemma exchange_sort_ordered: "sorted_wrt (\<lambda>a b. f b \<le> f a) (exchange_sort f xs)"
proof (induction f xs rule: exchange_sort.induct)
  case (2 f x xs)
  have "f y \<le> f (fst (exchange_pass f x xs))" if "y \<in> set (snd (exchange_pass f x xs))" for y
  proof (rule exchange_pass_max)
    have "y \<in># add_mset (fst (exchange_pass f x xs)) (mset (snd (exchange_pass f x xs)))" using that by simp
    then show "y = x \<or> y \<in> set xs" unfolding mset_exchange_pass by simp
  qed
  then show ?case using 2 by simp
qed simp

text \<open>The scores come out as the library's sort puts them.\<close>

lemma exchange_sort_scores: "map f (exchange_sort f xs) = rev (sort (map f xs))"
proof -
  have "sort (map f xs) = rev (map f (exchange_sort f xs))"
    using exchange_sort_ordered [of f xs]
    by (intro properties_for_sort) (simp_all add: sorted_wrt_rev sorted_wrt_map)
  then show ?thesis by simp
qed


subsection \<open>The answer\<close>

lemma searched_segment:
  assumes "r \<in> set (searchVLMSegments db q req allowed rows)"
  shows "set (rq_ViolationTypes req) \<subseteq> set (fr_Flags r)" "rq_SiteIDs req = [] \<or> fr_SiteID r \<in> set (rq_SiteIDs req)"
    "\<And>ids. allowed = Some ids \<Longrightarrow> fr_CameraID r \<in> set ids"
  using assms by (auto simp: searchVLMSegments_def matchesViolationFilter_def seg_where_def seg_result_def Let_def split_beta
      split: if_splits dest!: in_set_takeD)

lemma searched_alarm:
  assumes "r \<in> set (searchAlarms db q req allowed rows)"
  shows "set (rq_ViolationTypes req) \<subseteq> set (fr_Flags r)" "rq_SiteIDs req = [] \<or> fr_SiteID r \<in> set (rq_SiteIDs req)"
    "\<And>ids. allowed = Some ids \<Longrightarrow> fr_CameraID r \<in> set ids"
  using assms by (auto simp: searchAlarms_def matchesViolationFilter_def alarm_where_def alarm_result_def Let_def split_beta
      dest!: in_set_takeD)

lemma searched_hit:
  assumes "r \<in> set (searchVLMSegments db q req allowed segs @ searchAlarms db q req allowed alarms)"
  shows "set (rq_ViolationTypes req) \<subseteq> set (fr_Flags r) \<and> (rq_SiteIDs req = [] \<or> fr_SiteID r \<in> set (rq_SiteIDs req)) \<and>
    (case allowed of None \<Rightarrow> True | Some ids \<Rightarrow> fr_CameraID r \<in> set ids)"
proof -
  consider "r \<in> set (searchVLMSegments db q req allowed segs)" | "r \<in> set (searchAlarms db q req allowed alarms)" using assms by auto
  then show ?thesis
  proof cases
    case 1
    show ?thesis using searched_segment [OF 1] by (auto split: option.split)
  next
    case 2
    show ?thesis using searched_alarm [OF 2] by (auto split: option.split)
  qed
qed

lemma length_searchVLMSegments: "length (searchVLMSegments db q req allowed rows) \<le> 50"
  unfolding searchVLMSegments_def by (auto intro: order.trans [OF length_filter_le])

lemma length_searchAlarms: "length (searchAlarms db q req allowed rows) \<le> 50"
  unfolding searchAlarms_def by (rule order.trans [OF length_filter_le]) simp

lemma length_hits: "length (filter P (searchVLMSegments db q req al segs @ searchAlarms db q req al alarms)) \<le> 100"
proof (rule order.trans [OF length_filter_le])
  show "length (searchVLMSegments db q req al segs @ searchAlarms db q req al alarms) \<le> 100"
    using length_searchVLMSegments [of db q req al segs] length_searchAlarms [of db q req al alarms] by simp
qed

text \<open>The final cut at 100 never cuts: each source is limited to 50.\<close>

lemma answer_hits:
  assumes "HandleSearchFrames db signed_in allowed segs alarms body = Inr rs"
  obtains "rs = []" | req where "decode_search body = Some req"
    "rs = exchange_sort fr_Score (filter (confident (rq_ConfidenceMin req))
       (searchVLMSegments db (js_trim (rq_Query req)) req allowed segs @ searchAlarms db (js_trim (rq_Query req)) req allowed alarms))"
  using assms length_hits
  by (auto simp: HandleSearchFrames_def Let_def simp del: filter_append split: if_splits option.splits)

lemma in_ppeFromJSON: "k \<in> set (ppeFromJSON cs) \<Longrightarrow> k \<in> {''no_hard_hat'', ''no_hi_vis'', ''no_harness''}"
proof -
  have "k \<in> snd ` set ppeViolationLabelMap" if "map_of ppeViolationLabelMap c = Some k" for c
    using map_of_SomeD [OF that] by force
  moreover assume "k \<in> set (ppeFromJSON cs)"
  ultimately show ?thesis
    by (auto simp: ppeFromJSON_def List.map_filter_def ppeViolationLabelMap_def)
qed

lemma in_tagsToViolationFlags: "k \<in> set (tagsToViolationFlags ts) \<Longrightarrow> k \<in> {''no_hard_hat'', ''no_hi_vis'', ''no_harness''}"
  by (auto simp: tagsToViolationFlags_def Let_def split: if_splits)

lemma hit_flags:
  assumes "r \<in> set (searchVLMSegments db q req allowed segs @ searchAlarms db q req allowed alarms)" and "k \<in> set (fr_Flags r)"
  shows "k \<in> {''no_hard_hat'', ''no_hi_vis'', ''no_harness''}"
proof -
  obtain a where "r = seg_result db q a \<or> (\<exists>b. r = alarm_result q b)"
    using assms(1) by (auto simp: searchVLMSegments_def searchAlarms_def split: if_splits)
  then show ?thesis
    using assms(2) by (auto simp: seg_result_def alarm_result_def dest: in_ppeFromJSON in_tagsToViolationFlags)
qed


section \<open>Properties\<close>

lemma controls_ok: "filters_ok (fold filter_step es useSearchStore)"
  by (rule controls.inv_run) (rule filters_ok_initial)

text \<open>Whatever the controls of the search page were used for, the server decodes the request to what they show: the trimmed
  query, exactly the ticked violations, the chosen site, the two ranges unless both inputs are empty, the confidence, and
  the model (hybrid when none is chosen).\<close>

theorem search_request_decodes:
  "decode_search (search_body (fold filter_step es useSearchStore)) = Some (shown_request (fold filter_step es useSearchStore))"
  by (rule decode_shown) (rule controls_ok)

text \<open>The answer to a search is at most 100 results by descending relevance; each has every ticked violation, is of the chosen
  site, of a camera the caller may see, and reaches the minimum confidence by its relevance or by a detection.\<close>

theorem search_answer_sound:
  assumes "s = fold filter_step es useSearchStore" and "HandleSearchFrames db signed_in allowed segs alarms (search_body s) = Inr rs"
  shows "length rs \<le> 100 \<and> sorted_wrt (\<lambda>a b. fr_Score b \<le> fr_Score a) rs \<and>
    (\<forall>r \<in> set rs. set (activeViolations s) \<subseteq> set (fr_Flags r) \<and> confident (shown_confidence s) r \<and>
       (str_items (filt ''site_ids'' s) = [] \<or> fr_SiteID r \<in> set (str_items (filt ''site_ids'' s))) \<and>
       (case allowed of None \<Rightarrow> True | Some ids \<Rightarrow> fr_CameraID r \<in> set ids))"
proof (rule answer_hits [OF assms(2)])
  fix req
  let ?hits = "filter (confident (rq_ConfidenceMin req))
       (searchVLMSegments db (js_trim (rq_Query req)) req allowed segs @ searchAlarms db (js_trim (rq_Query req)) req allowed alarms)"
  assume "decode_search (search_body s) = Some req" and rs: "rs = exchange_sort fr_Score ?hits"
  then have req: "req = shown_request s" using decode_shown [OF controls_ok, of es] assms(1) by simp
  have "length rs \<le> 100" unfolding rs length_exchange_sort by (rule length_hits)
  moreover have "sorted_wrt (\<lambda>a b. fr_Score b \<le> fr_Score a) rs" unfolding rs by (rule exchange_sort_ordered)
  moreover have "set (activeViolations s) \<subseteq> set (fr_Flags r) \<and> confident (shown_confidence s) r \<and>
      (str_items (filt ''site_ids'' s) = [] \<or> fr_SiteID r \<in> set (str_items (filt ''site_ids'' s))) \<and>
      (case allowed of None \<Rightarrow> True | Some ids \<Rightarrow> fr_CameraID r \<in> set ids)" if "r \<in> set rs" for r
  proof -
    have "r \<in> set ?hits" using that unfolding rs set_exchange_sort .
    then show ?thesis using searched_hit [of r] unfolding req shown_request_def by fastforce
  qed
  ultimately show ?thesis by blast
qed simp

text \<open>Two of the five violation boxes can never be satisfied: with "zone breach" or "vehicle hazard" ticked every search of a
  signed-in user is answered with an empty list, whatever has been recorded.\<close>

theorem dead_violation_boxes:
  assumes "s = fold filter_step es useSearchStore" and "t \<in> set (activeViolations s)" and "t = ''zone_breach'' \<or> t = ''vehicle_hazard''"
  shows "HandleSearchFrames db True allowed segs alarms (search_body s) = Inr []"
proof -
  have "HandleSearchFrames db True allowed segs alarms (search_body s) \<noteq> Inl e" for e
    using decode_shown [OF controls_ok, of es] assms(1) by (simp add: HandleSearchFrames_def Let_def)
  then obtain rs where rs: "HandleSearchFrames db True allowed segs alarms (search_body s) = Inr rs"
    by (cases "HandleSearchFrames db True allowed segs alarms (search_body s)") auto
  have "rs = []"
  proof (rule answer_hits [OF rs])
    fix req
    let ?hits = "filter (confident (rq_ConfidenceMin req))
       (searchVLMSegments db (js_trim (rq_Query req)) req allowed segs @ searchAlarms db (js_trim (rq_Query req)) req allowed alarms)"
    assume "decode_search (search_body s) = Some req" and hits: "rs = exchange_sort fr_Score ?hits"
    then have "req = shown_request s" using decode_shown [OF controls_ok, of es] assms(1) by simp
    then have "t \<in> set (rq_ViolationTypes req)" using assms(2) by (simp add: shown_request_def)
    then have miss: "r \<notin> set ?hits" for r
      using searched_hit [of r] hit_flags [of r _ _ _ _ _ _ t] assms(3) by fastforce
    have "set rs = {}" unfolding hits set_exchange_sort by (rule equals0I, rule notE [OF miss])
    then show "rs = []" by simp
  qed simp
  then show ?thesis using rs by simp
qed


section \<open>What a search misses\<close>

text \<open>The limit is applied before the violation filter: fifty newer alarms without a violation hide an older one that has it.\<close>

lemma sort_insert_after: "(\<And>y. y \<in> set ys \<Longrightarrow> \<not> lt x y \<and> lt y x) \<Longrightarrow> sort_insert lt x ys = ys @ [x]"
  by (induction ys) auto

lemma old_violation_missed:
  assumes "length news = 50" and "\<And>n. n \<in> set news \<Longrightarrow> al_ts old < al_ts n \<and> ppeFromJSON (al_violations n) = []"
    and "\<And>n. n \<in> set (old # news) \<Longrightarrow> alarm_where db q req allowed n" and "rq_ViolationTypes req \<noteq> []"
  shows "searchAlarms db q req allowed (old # news) = []"
proof -
  let ?lt = "\<lambda>a b. al_ts b < al_ts a"
  have "filter (alarm_where db q req allowed) (old # news) = old # news" by (rule filter_True) (use assms(3) in blast)
  moreover have "js_sort ?lt (old # news) = js_sort ?lt news @ [old]"
    unfolding js_sort_Cons by (rule sort_insert_after) (use assms(2) in fastforce)
  moreover have "filter (\<lambda>r. matchesViolationFilter (fr_Flags r) (rq_ViolationTypes req)) (map (alarm_result q) (js_sort ?lt news)) = []"
    using assms(2,4) by (auto simp: filter_empty_conv matchesViolationFilter_def alarm_result_def neq_Nil_conv)
  ultimately show ?thesis using assms(1) by (simp add: searchAlarms_def del: js_sort_Cons)
qed

text \<open>Of a time of day only the hour is used, and the last hour is searched to its end.\<close>

lemma minutes_ignored:
  assumes "is_digit a" "is_digit b"
  shows "scan_hour (a # b # CHR '':'' # t) = scan_hour (a # b # CHR '':'' # u)"
proof -
  have "\<not> is_digit (CHR '':'')" "\<not> is_ws a" using assms(1) by (auto simp: is_digit_def is_ws_def)
  then have "split_sign (a # b # CHR '':'' # t) = (False, a # b # CHR '':'' # t)" for t
    using assms(1) by (auto simp: split_sign_def is_digit_def)
  then show ?thesis using assms \<open>\<not> is_digit (CHR '':'')\<close> by (simp add: scan_hour_def)
qed

lemma last_hour_to_its_end: "in_hours (parseTimeOfDay (Some (''08:30'', ''17:00''))) 17 \<and> in_hours (parseTimeOfDay (Some (''08:30'', ''17:00''))) 8"
  by code_simp

section \<open>Loading a saved search\<close>

lemma filt_map_of: "filt k s = map_of (st_filters s) k"
  by (simp add: filt_def json_field_def)

lemma filt_updates: "filt k (updateFilters fs s) = (case map_of (rev fs) k of None \<Rightarrow> filt k s | Some v \<Rightarrow> Some v)"
  by (simp add: filt_map_of updateFilters_def map_of_fold_obj_set split: option.split)

lemma filt_query [simp]: "filt k (s\<lparr>st_query := q\<rparr>) = filt k s"
  by (simp add: filt_def)

lemma keys_fold_obj_set: "fst ` set (fold obj_set fs gs) = fst ` set fs \<union> fst ` set gs"
proof (induction fs arbitrary: gs)
  case (Cons f fs)
  have "fst ` set (obj_set f gs) = insert (fst f) (fst ` set gs)" by (induction f gs rule: obj_set.induct) auto
  then show ?case using Cons by auto
qed simp

lemma saved_filters: "json_field ''filters'' (search_entry (save_data s) i now) = Some (JObj (st_filters s))"
  by (simp add: search_entry_def save_data_def json_field_def)

text \<open>A filter that was not set when the search was saved: loading the search after a reload keeps whatever the page shows for it,
  loading it on the page that saved it clears the filter.\<close>

lemma loaded_search_keeps_filter:
  assumes "filt k saved = None"
  shows "filt k (fst (handleLoadSaved (Stored (search_entry (save_data saved) i now)) (s, p))) = filt k s"
    and "filt k (fst (handleLoadSaved (Fresh (search_entry (save_data saved) i now)) (s, p))) = None"
proof -
  have new: "k \<notin> fst ` set (obj_norm (st_filters saved))"
    using assms by (simp add: obj_norm_def keys_fold_obj_set filt_def json_field_def map_of_eq_None_iff)
  then have none: "map_of (rev (obj_norm (st_filters saved))) k = None" by (simp add: map_of_eq_None_iff)
  show "filt k (fst (handleLoadSaved (Stored (search_entry (save_data saved) i now)) (s, p))) = filt k s"
    using none by (simp add: handleLoadSaved_def saved_filters spread_opt_def filt_updates cleared_by_def setQuery_def)
  have "map_of (filter (\<lambda>p. fst p \<in> fst ` set (obj_norm (st_filters saved))) fs) k = None" for fs :: "(string \<times> json) list"
    using new by (auto simp: map_of_eq_None_iff)
  then show "filt k (fst (handleLoadSaved (Fresh (search_entry (save_data saved) i now)) (s, p))) = None"
    using none by (simp add: handleLoadSaved_def saved_filters spread_opt_def filt_updates cleared_by_def setQuery_def)
      (simp add: filt_map_of)
qed

section \<open>Captions\<close>

definition plain_text :: "string \<Rightarrow> bool" where
  "plain_text t \<longleftrightarrow> (\<forall>c \<in> set t. c \<noteq> backslash \<and> 32 \<le> (of_char c :: nat))"

lemma esc_plain: "plain_text (c # t) \<Longrightarrow> esc_char c = (if c = quote then [backslash, quote] else [c]) \<and> plain_text t \<and> c \<noteq> backslash"
  by (auto simp: plain_text_def esc_char_def)

lemma quote_backslash: "quote \<noteq> backslash" by simp

lemma scan_plain: "plain_text t \<Longrightarrow> scan_quoted (concat (map esc_char t) @ quote # u) = Some (concat (map esc_char t))"
proof (induction t)
  case Nil
  then show ?case by (cases u) simp_all
next
  case (Cons c t)
  have IH: "scan_quoted (concat (map esc_char t) @ quote # u) = Some (concat (map esc_char t))" using Cons esc_plain by blast
  obtain d r where r: "concat (map esc_char t) @ quote # u = d # r" by (cases "concat (map esc_char t) @ quote # u") auto
  show ?case using IH r esc_plain [OF Cons.prems] quote_backslash by (auto simp:)
qed

lemma unquote_plain: "plain_text t \<Longrightarrow> unquote (concat (map esc_char t)) = t"
proof (induction t)
  case (Cons c t)
  then have IH: "unquote (concat (map esc_char t)) = t" using esc_plain by blast
  show ?case using IH esc_plain [OF Cons.prems] by (cases "concat (map esc_char t)") auto
qed simp

text \<open>A caption that is the model's raw JSON reads as its description: \<^verbatim>\<open>cleanCaption\<close> undoes the encoding of any text without a
  backslash or control character.\<close>

lemma clean_caption_decodes:
  assumes "plain_text t" "t \<noteq> []"
  shows "cleanCaption (stringify fractx (JObj [(''description'', JStr t)])) = t"
proof -
  let ?body = "quote # ''description'' @ [quote] @ '':'' @ quote # concat (map esc_char t) @ quote # ''}''"
  have raw: "stringify fractx (JObj [(''description'', JStr t)]) = CHR ''{'' # ?body"
    by (simp add: quote_str_def esc_char_def)
  have "description_here ?body = Some (concat (map esc_char t))"
    using scan_plain [OF assms(1)] by (simp add: description_here_def skip_ws_def is_ws_def)
  moreover have "description_here (CHR ''{'' # v) = None" for v by (simp add: description_here_def)
  ultimately have found: "find_description (CHR ''{'' # ?body) = Some (concat (map esc_char t))" by simp
  have trim: "js_trim (CHR ''{'' # ?body) = CHR ''{'' # ?body" by (simp add: js_trim_def is_ws_def)
  have "concat (map esc_char t) \<noteq> []" using assms by (cases t) (auto simp: esc_char_def)
  then show ?thesis unfolding raw cleanCaption_def trim found using unquote_plain [OF assms(1)] by simp
qed


section \<open>Witnesses\<close>

definition search_db_fixture :: SearchDb where
  "search_db_fixture = \<lparr>db_fts = (\<lambda>q t. contains_str q t), db_rank = (\<lambda>q t. 1), db_ilike = (\<lambda>q t. contains_str q t),
     db_hour = (\<lambda>t. (t div 3600000 + 19) mod 24), db_day = (\<lambda>_. None), db_stamp = (\<lambda>_. None)\<rparr>"

definition alarm_row_fixture :: AlarmRow where
  "alarm_row_fixture = \<lparr>al_id = ''a1'', al_camera = ''c1'', al_site = ''s1'', al_ts = 7200000, al_type = ''ppe'', al_description = ''worker'',
     al_ai_description = [], al_violations = [''nohat''], al_confidences = [9 / 10], al_fp = 1 / 5\<rparr>"

definition segment_row_fixture :: SegmentRow where
  "segment_row_fixture = \<lparr>vs_id = 1, vs_camera = ''c1'', vs_site = ''s1'', vs_start = 7200000, vs_end = 7260000, vs_description = ''worker'',
     vs_tags = [''no hard hat''], vs_confidences = []\<rparr>"

text \<open>The hour of a segment is read in UTC, that of an alarm in the session's time zone: with a session five hours behind, a search
  for two o'clock finds the recording of a moment and not the alarm raised at it.\<close>

lemma two_clocks:
  "let req = shown_request (fold filter_step [Typed_query ''worker'', Time_start ''02:00'', Time_end ''02:59''] useSearchStore) in
   vs_start segment_row_fixture = al_ts alarm_row_fixture \<and>
   length (searchVLMSegments search_db_fixture ''worker'' req None [segment_row_fixture]) = 1 \<and>
   searchAlarms search_db_fixture ''worker'' req None [alarm_row_fixture] = []"
  by code_simp

lemma fixture_answer:
  "HandleSearchFrames search_db_fixture True (Some [''c1'']) [] [alarm_row_fixture]
     (search_body (fold filter_step [Toggle_violation ''no_hard_hat'', Choose_site ''s1'', Confidence 85] useSearchStore)) =
   Inr [alarm_result [] alarm_row_fixture]"
  by code_simp

theorem search_answer_sound_witness:
  "length [alarm_result [] alarm_row_fixture] \<le> 100 \<and> {''no_hard_hat''} \<subseteq> set (fr_Flags (alarm_result [] alarm_row_fixture)) \<and>
   confident (85 / 100) (alarm_result [] alarm_row_fixture) \<and> fr_SiteID (alarm_result [] alarm_row_fixture) \<in> {''s1''} \<and>
   fr_CameraID (alarm_result [] alarm_row_fixture) \<in> {''c1''}"
proof -
  let ?s = "fold filter_step [Toggle_violation ''no_hard_hat'', Choose_site ''s1'', Confidence 85] useSearchStore"
  have shown: "activeViolations ?s = [''no_hard_hat'']" "str_items (filt ''site_ids'' ?s) = [''s1'']" "shown_confidence ?s = 85 / 100"
    by code_simp+
  show ?thesis using search_answer_sound [OF refl fixture_answer, unfolded shown] by simp
qed

theorem dead_violation_boxes_witness:
  "HandleSearchFrames search_db_fixture True None [segment_row_fixture] [alarm_row_fixture]
     (search_body (fold filter_step [Toggle_violation ''zone_breach'', Typed_query ''worker''] useSearchStore)) = Inr []"
proof (rule dead_violation_boxes [OF refl])
  show "''zone_breach'' \<in> set (activeViolations (fold filter_step [Toggle_violation ''zone_breach'', Typed_query ''worker''] useSearchStore))"
    by code_simp
qed simp

end
