(* ===== verification/Admin_Page.thy ===== *)
theory Admin_Page
  imports Settings_Page Portal
begin

text \<open>
  The administration page (\<^verbatim>\<open>app/admin/page.tsx\<close>): companies, the searchable list of sites, operators, user accounts and the
  device history, with the Go handlers of accounts and operators (\<^verbatim>\<open>internal/api/users.go\<close>, \<^verbatim>\<open>internal/auth/password.go\<close>).
  The form for a new account is a machine with the memoised handler's captured values explicit. Shown: what the form sends
  after every order of edits, who becomes an administrator, what saving a profile does to the stored row, and that the
  site list shows every site once. Dialog answers and unicode character classes are arguments.
\<close>

section \<open>Requests and messages\<close>

definition admin_apiFetch :: "string \<Rightarrow> RequestInit \<Rightarrow> Response io" where
  "admin_apiFetch url init =
     bind_io (authFetch url (with_content_type init)) (\<lambda>res.
     if \<not> ok res
     then throw_io (str_or (Some (rs_text res)) (str_or (ri_method init) ''GET'' @ '' '' @ url @ '' failed ('' @ nat_str (rs_status res) @ '')''))
     else return_io res)"

type_synonym admin_toast = "string \<times> string \<times> string option"

text \<open>The result says whether the action succeeded; the toast is pushed either way.\<close>

definition runApi :: "string \<Rightarrow> 'a io \<Rightarrow> World \<times> admin_toast list \<Rightarrow> (World \<times> admin_toast list) \<times> bool" where
  "runApi label fn wt = (case fn (fst wt) of
     (w', Inr _) \<Rightarrow> ((w', snd wt @ [(''success'', label, None)]), True)
   | (w', Inl (Error e)) \<Rightarrow> ((w', snd wt @ [(''error'', label @ '' failed'', Some e)]), False))"

section \<open>Companies\<close>

record CompanyRow =
  co_id :: id
  co_name :: string
  co_plan :: string
  co_contact_name :: string
  co_contact_email :: "string option"

record CompanyCard =
  cc_editing :: bool
  cc_name :: string
  cc_contact :: string
  cc_email :: string
  cc_plan :: string

definition open_card :: "CompanyRow \<Rightarrow> CompanyCard" where
  "open_card c = \<lparr>cc_editing = False, cc_name = co_name c, cc_contact = co_contact_name c, cc_email = nullish (co_contact_email c) [], cc_plan = co_plan c\<rparr>"

definition company_json :: "CompanyCard \<Rightarrow> json" where
  "company_json k = JObj [(''name'', JStr (cc_name k)), (''plan'', JStr (cc_plan k)), (''contact_name'', JStr (cc_contact k)), (''contact_email'', JStr (cc_email k))]"

text \<open>\<open>refresh\<close> reloads sites and companies in the background.\<close>

definition handleSaveCompany :: "(World \<Rightarrow> World) \<Rightarrow> CompanyRow \<Rightarrow> CompanyCard \<Rightarrow> World \<times> admin_toast list \<Rightarrow> (World \<times> admin_toast list) \<times> CompanyCard" where
  "handleSaveCompany refresh c k wt =
     (case runApi ''Company saved'' (admin_apiFetch (''/api/v1/companies/'' @ co_id c) (body_init ''PUT'' (company_json k))) wt of
        (wt', True) \<Rightarrow> ((refresh (fst wt'), snd wt'), k\<lparr>cc_editing := False\<rparr>)
      | (wt', False) \<Rightarrow> (wt', k))"

definition deleting :: "(World \<Rightarrow> World) \<Rightarrow> bool \<Rightarrow> string \<Rightarrow> string \<Rightarrow> World \<times> admin_toast list \<Rightarrow> World \<times> admin_toast list" where
  "deleting refresh confirmed label url wt =
     (if \<not> confirmed then wt
      else case runApi label (admin_apiFetch url (bare_init ''DELETE'')) wt of
        (wt', True) \<Rightarrow> (refresh (fst wt'), snd wt')
      | (wt', False) \<Rightarrow> wt')"

definition handleDeleteCompany :: "(World \<Rightarrow> World) \<Rightarrow> bool \<Rightarrow> CompanyRow \<Rightarrow> World \<times> admin_toast list \<Rightarrow> World \<times> admin_toast list" where
  "handleDeleteCompany refresh confirmed c = deleting refresh confirmed ''Company deleted'' (''/api/v1/companies/'' @ co_id c)"

definition admin_handleDeleteSite :: "(World \<Rightarrow> World) \<Rightarrow> bool \<Rightarrow> id \<Rightarrow> World \<times> admin_toast list \<Rightarrow> World \<times> admin_toast list" where
  "admin_handleDeleteSite refresh confirmed i = deleting refresh confirmed (''Site '' @ i @ '' deleted'') (''/api/v1/sites/'' @ i)"

record CompanyForm =
  nc_show :: bool
  nc_name :: string
  nc_contact :: string
  nc_email :: string
  nc_plan :: string
  nc_creating :: bool

definition initial_company :: CompanyForm where
  "initial_company = \<lparr>nc_show = False, nc_name = [], nc_contact = [], nc_email = [], nc_plan = ''professional'', nc_creating = False\<rparr>"

definition new_company_json :: "CompanyForm \<Rightarrow> json" where
  "new_company_json f = JObj [(''name'', JStr (js_trim (nc_name f))), (''contact_name'', JStr (js_trim (nc_contact f))),
     (''contact_email'', JStr (js_trim (nc_email f))), (''plan'', JStr (nc_plan f))]"

text \<open>Nothing catches a refused request: the rest of the handler does not run.\<close>

definition handleCreateCompany :: "(World \<Rightarrow> World) \<Rightarrow> CompanyForm \<Rightarrow> World \<Rightarrow> World \<times> CompanyForm" where
  "handleCreateCompany refetch f w =
     (if js_trim (nc_name f) = [] then (w, f)
      else case createCompany (new_company_json f) w of
        (w', Inl _) \<Rightarrow> (w', f\<lparr>nc_creating := True\<rparr>)
      | (w', Inr _) \<Rightarrow> (refetch w', f\<lparr>nc_creating := False, nc_show := False, nc_name := [], nc_contact := [], nc_email := []\<rparr>))"

definition can_create_company :: "CompanyForm \<Rightarrow> bool" where
  "can_create_company f \<longleftrightarrow> \<not> (js_trim (nc_name f) = [] \<or> nc_creating f)"

section \<open>Sites\<close>

record SiteEntry = SiteSummary +
  se_company_id :: "id option"

definition totalCameras :: "SiteEntry list \<Rightarrow> int" where
  "totalCameras sites = foldl (\<lambda>s site. s + ss_cameras_total site) 0 sites"

text \<open>A group for every company and one for the rest; a site of an unknown company belongs to the rest.\<close>

definition sitesByCompany :: "CompanyRow list \<Rightarrow> SiteEntry list \<Rightarrow> (id \<times> SiteEntry list) list" where
  "sitesByCompany companies sites =
     (let empty_groups = map_put (''unassigned'', []) (foldl (\<lambda>m c. map_put (co_id c, []) m) [] companies) in
      foldl (\<lambda>m s. let cid = str_or (se_company_id s) ''unassigned'';
                       k = (if map_of m cid \<noteq> None then cid else ''unassigned'') in
               map_put (k, nullish (map_of m k) [] @ [s]) m) empty_groups sites)"

definition SITES_PAGE_SIZE :: nat where "SITES_PAGE_SIZE = 25"

record SitesTab =
  sx_search :: string
  sx_company :: string
  sx_status :: string
  sx_companies_view :: bool
  sx_page :: nat

definition initial_sites_tab :: SitesTab where
  "initial_sites_tab = \<lparr>sx_search = [], sx_company = ''all'', sx_status = ''all'', sx_companies_view = False, sx_page = 0\<rparr>"

definition company_name_of :: "CompanyRow list \<Rightarrow> SiteEntry \<Rightarrow> string" where
  "company_name_of companies s = (case List.find (\<lambda>c. co_id c = str_or (se_company_id s) []) (rev companies) of None \<Rightarrow> [] | Some c \<Rightarrow> co_name c)"

definition admin_filteredSites :: "CompanyRow list \<Rightarrow> SiteEntry list \<Rightarrow> SitesTab \<Rightarrow> SiteEntry list" where
  "admin_filteredSites companies sites t =
     filter (\<lambda>s. (js_trim (sx_search t) = [] \<or>
           (let q = to_lower (sx_search t) in contains_str q (to_lower (ss_name s)) \<or> contains_str q (to_lower (ss_id s)) \<or>
              contains_str q (to_lower (company_name_of companies s)))) \<and>
        (sx_company t = ''all'' \<or> se_company_id s = Some (sx_company t)) \<and> (sx_status t = ''all'' \<or> ss_status s = sx_status t)) sites"

definition totalPages :: "SiteEntry list \<Rightarrow> nat" where
  "totalPages fs = (length fs + SITES_PAGE_SIZE - 1) div SITES_PAGE_SIZE"

definition pagedSites :: "SiteEntry list \<Rightarrow> nat \<Rightarrow> SiteEntry list" where
  "pagedSites fs p = take SITES_PAGE_SIZE (drop (p * SITES_PAGE_SIZE) fs)"

definition statusCounts :: "SiteEntry list \<Rightarrow> (string \<times> nat) list" where
  "statusCounts sites = foldl (\<lambda>m s. map_put (ss_status s, nullish (map_of m (ss_status s)) 0 + 1) m)
     [(''active'', 0), (''idle'', 0), (''critical'', 0), (''archived'', 0)] sites"

definition shown_companies :: "CompanyRow list \<Rightarrow> SitesTab \<Rightarrow> CompanyRow list" where
  "shown_companies companies t = filter (\<lambda>c. js_trim (sx_search t) = [] \<or>
     (let q = to_lower (sx_search t) in contains_str q (to_lower (co_name c)) \<or>
        (case co_contact_email c of None \<Rightarrow> False | Some e \<Rightarrow> contains_str q (to_lower e)))) companies"

text \<open>
  \<open>n\<close> is the number of pages; the two buttons are drawn only when there is more than one. Changing a filter resets the page.
\<close>

datatype sites_event = Search_sites string | Company_filter string | Status_filter string | Sites_view bool | Previous_page | Next_page

definition reset_page :: "SitesTab \<Rightarrow> SitesTab \<Rightarrow> SitesTab" where
  "reset_page t t' = (if (sx_search t, sx_company t, sx_status t) = (sx_search t', sx_company t', sx_status t') then t' else t'\<lparr>sx_page := 0\<rparr>)"

fun sites_step :: "nat \<Rightarrow> sites_event \<Rightarrow> SitesTab \<Rightarrow> SitesTab" where
  "sites_step n (Search_sites q) t = reset_page t (t\<lparr>sx_search := q\<rparr>)"
| "sites_step n (Company_filter c) t = reset_page t (t\<lparr>sx_company := c\<rparr>)"
| "sites_step n (Status_filter c) t = reset_page t (t\<lparr>sx_status := c\<rparr>)"
| "sites_step n (Sites_view b) t = t\<lparr>sx_companies_view := b\<rparr>"
| "sites_step n Previous_page t = (if sx_page t = 0 \<or> n \<le> 1 then t else t\<lparr>sx_page := sx_page t - 1\<rparr>)"
| "sites_step n Next_page t = (if n \<le> sx_page t + 1 then t else t\<lparr>sx_page := sx_page t + 1\<rparr>)"

section \<open>Operators\<close>

record OperatorRow =
  op_id :: id
  op_name :: string
  op_callsign :: string
  op_status :: string
  op_email :: "string option"

definition SOC_ROLES :: "string list" where
  "SOC_ROLES = [''soc_operator'', ''soc_supervisor'', ''admin'']"

definition userOperators :: "UserPublic list \<Rightarrow> UserPublic list" where
  "userOperators users = filter (\<lambda>u. \<not> truthy_str (us_organization_id u) \<and> us_role u \<in> set SOC_ROLES) users"

definition callsignFor :: "(string \<Rightarrow> string) \<Rightarrow> UserPublic \<Rightarrow> string" where
  "callsignFor upper u = take 8 (upper (us_username u))"

definition standaloneOps :: "UserPublic list \<Rightarrow> OperatorRow list \<Rightarrow> OperatorRow list" where
  "standaloneOps users ops =
     (let linked = filter (\<lambda>e. e \<noteq> []) (map us_email (userOperators users)) in
      filter (\<lambda>op. \<not> truthy_str (op_email op) \<or> the (op_email op) \<notin> set linked) ops)"

record OperatorForm =
  no_show :: bool
  no_name :: string
  no_callsign :: string
  no_email :: string
  no_username :: string
  no_password :: string
  no_creating :: bool
  no_msg :: "(bool \<times> string) option"

definition op_of_json :: "json \<Rightarrow> OperatorRow" where
  "op_of_json j = \<lparr>op_id = str_field ''id'' j [], op_name = str_field ''name'' j [], op_callsign = str_field ''callsign'' j [],
     op_status = str_field ''status'' j [], op_email = (case json_field ''email'' j of Some (JStr e) \<Rightarrow> Some e | _ \<Rightarrow> None)\<rparr>"

definition load_operators :: "OperatorRow list \<Rightarrow> World \<Rightarrow> World \<times> OperatorRow list" where
  "load_operators ops w = (case bind_io (admin_apiFetch ''/api/v1/operators'' no_init) res_json w of
     (w', Inr (JArr js)) \<Rightarrow> (w', map op_of_json js)
   | (w', _) \<Rightarrow> (w', ops))"

text \<open>\<^verbatim>\<open>s.trim() || undefined\<close> as a member of an object.\<close>

definition trimmed_member :: "string \<Rightarrow> string \<Rightarrow> (string \<times> json) list" where
  "trimmed_member k s = (if js_trim s = [] then [] else [(k, JStr (js_trim s))])"

definition operator_json :: "OperatorForm \<Rightarrow> json" where
  "operator_json f = JObj ([(''name'', JStr (js_trim (no_name f))), (''callsign'', JStr (js_trim (no_callsign f))), (''email'', JStr (js_trim (no_email f)))] @
     trimmed_member ''username'' (no_username f) @ trimmed_member ''password'' (no_password f))"

definition handleCreateOperator :: "OperatorForm \<times> OperatorRow list \<Rightarrow> World \<Rightarrow> World \<times> OperatorForm \<times> OperatorRow list" where
  "handleCreateOperator fo w =
     (let f = fst fo in
      if js_trim (no_name f) = [] \<or> js_trim (no_callsign f) = [] then (w, fo)
      else case bind_io (admin_apiFetch ''/api/v1/operators'' (body_init ''POST'' (operator_json f))) res_json w of
        (w', Inl (Error e)) \<Rightarrow> (w', f\<lparr>no_msg := Some (False, e), no_creating := False\<rparr>, snd fo)
      | (w', Inr j) \<Rightarrow> (w', f\<lparr>no_show := False, no_name := [], no_callsign := [], no_email := [], no_username := [], no_password := [],
             no_msg := Some (True, ''Operator '' @ op_callsign (op_of_json j) @ '' created.''), no_creating := False\<rparr>, snd fo @ [op_of_json j]))"

section \<open>New accounts\<close>

record UserForm =
  uf_username :: string
  uf_password :: string
  uf_display_name :: string
  uf_email :: string
  uf_phone :: string
  uf_internal :: bool
  uf_role :: string
  uf_is_admin :: bool
  uf_org :: string

definition blank_user :: UserForm where
  "blank_user = \<lparr>uf_username = [], uf_password = [], uf_display_name = [], uf_email = [], uf_phone = [], uf_internal = True,
     uf_role = ''soc_operator'', uf_is_admin = False, uf_org = []\<rparr>"

definition effectiveRole :: "UserForm \<Rightarrow> string" where
  "effectiveRole f = (if uf_internal f then (if uf_is_admin f then ''admin'' else ''soc_operator'') else uf_role f)"

definition user_body :: "UserForm \<Rightarrow> json" where
  "user_body f = JObj ([(''username'', JStr (js_trim (uf_username f))), (''password'', JStr (js_trim (uf_password f))), (''role'', JStr (effectiveRole f))] @
     trimmed_member ''display_name'' (uf_display_name f) @ trimmed_member ''email'' (uf_email f) @ trimmed_member ''phone'' (uf_phone f) @
     (if \<not> uf_internal f \<and> uf_org f \<noteq> [] then [(''organization_id'', JStr (uf_org f))] else []))"

text \<open>
  The handler is memoised: it is made anew in a render only when one of the listed values differs from the render before,
  and otherwise keeps the values of the render that made it. Kind of account, administrator box and company are not listed.
\<close>

definition user_deps :: "UserForm \<Rightarrow> string list" where
  "user_deps f = [uf_username f, uf_password f, uf_display_name f, uf_email f, uf_phone f, uf_role f]"

record UserCreation =
  un_form :: UserForm
  un_captured :: UserForm

definition initial_creation :: UserCreation where
  "initial_creation = \<lparr>un_form = blank_user, un_captured = blank_user\<rparr>"

definition render_form :: "UserForm \<Rightarrow> UserCreation \<Rightarrow> UserCreation" where
  "render_form f s = (if user_deps f = user_deps (un_captured s) then s\<lparr>un_form := f\<rparr> else \<lparr>un_form = f, un_captured = f\<rparr>)"

datatype user_event =
    User_name string | User_password string | Display_name string | User_email string | User_phone string
  | Account_kind bool | Customer_role string | Admin_box bool | Choose_company string | User_created

fun typed :: "user_event \<Rightarrow> UserForm \<Rightarrow> UserForm" where
  "typed (User_name v) f = f\<lparr>uf_username := v\<rparr>"
| "typed (User_password v) f = f\<lparr>uf_password := v\<rparr>"
| "typed (Display_name v) f = f\<lparr>uf_display_name := v\<rparr>"
| "typed (User_email v) f = f\<lparr>uf_email := v\<rparr>"
| "typed (User_phone v) f = f\<lparr>uf_phone := v\<rparr>"
| "typed (Account_kind internal) f = f\<lparr>uf_internal := internal, uf_role := if internal then ''admin'' else ''viewer'', uf_org := []\<rparr>"
| "typed (Customer_role r) f = f\<lparr>uf_role := r\<rparr>"
| "typed (Admin_box b) f = f\<lparr>uf_is_admin := b\<rparr>"
| "typed (Choose_company c) f = f\<lparr>uf_org := c\<rparr>"
| "typed User_created f = blank_user"

definition creation_step :: "user_event \<Rightarrow> UserCreation \<Rightarrow> UserCreation" where
  "creation_step e s = render_form (typed e (un_form s)) s"

definition can_create_user :: "UserCreation \<Rightarrow> bool" where
  "can_create_user s \<longleftrightarrow> js_trim (uf_username (un_form s)) \<noteq> [] \<and> js_trim (uf_password (un_form s)) \<noteq> [] \<and>
     (uf_internal (un_form s) \<or> uf_org (un_form s) \<noteq> [])"

definition sent_user :: "UserCreation \<Rightarrow> json" where
  "sent_user s = user_body (un_captured s)"

section \<open>Accounts\<close>

record UsersTab =
  ut_users :: "UserPublic list"
  ut_loaded :: bool
  ut_show_create :: bool
  ut_msg :: "(bool \<times> string) option"
  ut_pwd_target :: "id option"
  ut_pwd_value :: string
  ut_pwd_msg :: "(bool \<times> string) option"
  ut_editing :: "id option"
  ut_display :: string
  ut_email :: string
  ut_phone :: string
  ut_org :: string
  ut_edit_msg :: "(bool \<times> string) option"

definition loadPlatformUsers :: "UsersTab \<Rightarrow> World \<Rightarrow> World \<times> UsersTab" where
  "loadPlatformUsers t w = (case listUsers w of
     (w', Inl _) \<Rightarrow> (w', t\<lparr>ut_loaded := True\<rparr>)
   | (w', Inr j) \<Rightarrow> (w', t\<lparr>ut_users := map user_of_json (json_items j), ut_loaded := True\<rparr>))"

definition handleCreateUser :: "UserCreation \<times> UsersTab \<Rightarrow> World \<Rightarrow> World \<times> UserCreation \<times> UsersTab" where
  "handleCreateUser st w =
     (let (s, t) = st; f = un_captured s in
      if js_trim (uf_username f) = [] \<or> js_trim (uf_password f) = []
      then (w, s, t\<lparr>ut_msg := Some (False, ''Username and password are required.'')\<rparr>)
      else case createUser (user_body f) w of
        (w', Inl (Error e)) \<Rightarrow> (w', s, t\<lparr>ut_msg := Some (False, e)\<rparr>)
      | (w', Inr _) \<Rightarrow> (case loadPlatformUsers (t\<lparr>ut_show_create := False, ut_msg := Some (True, ''User created.'')\<rparr>) w' of
           (w'', t') \<Rightarrow> (w'', creation_step User_created s, t')))"

definition admin_handleDeleteUser :: "bool \<Rightarrow> id \<Rightarrow> UsersTab \<Rightarrow> World \<Rightarrow> World \<times> UsersTab \<times> string option" where
  "admin_handleDeleteUser confirmed i t w =
     (if \<not> confirmed then (w, t, None)
      else case deleteUser i w of
        (w', Inl (Error e)) \<Rightarrow> (w', t, Some (''Delete failed: '' @ e))
      | (w', Inr _) \<Rightarrow> (w', t\<lparr>ut_users := filter (\<lambda>u. us_id u \<noteq> i) (ut_users t)\<rparr>, None))"

definition handleRoleChange :: "id \<Rightarrow> string \<Rightarrow> UsersTab \<Rightarrow> World \<Rightarrow> World \<times> UsersTab \<times> string option" where
  "handleRoleChange i role t w = (case updateUserRole i role w of
     (w', Inl (Error e)) \<Rightarrow> (w', t, Some (''Role change failed: '' @ e))
   | (w', Inr _) \<Rightarrow> (w', t\<lparr>ut_users := map (\<lambda>u. if us_id u = i then u\<lparr>us_role := role\<rparr> else u) (ut_users t)\<rparr>, None))"

definition open_password :: "id \<Rightarrow> UsersTab \<Rightarrow> UsersTab" where
  "open_password i t = t\<lparr>ut_pwd_target := Some i, ut_pwd_value := [], ut_pwd_msg := None\<rparr>"

definition handleChangePassword :: "UsersTab \<Rightarrow> World \<Rightarrow> World \<times> UsersTab" where
  "handleChangePassword t w =
     (if \<not> truthy_str (ut_pwd_target t) \<or> js_trim (ut_pwd_value t) = [] then (w, t)
      else case updateUserPassword (the (ut_pwd_target t)) (js_trim (ut_pwd_value t)) w of
        (w', Inl (Error e)) \<Rightarrow> (w', t\<lparr>ut_pwd_msg := Some (False, e)\<rparr>)
      | (w', Inr _) \<Rightarrow> (w', t\<lparr>ut_pwd_target := None, ut_pwd_value := [], ut_pwd_msg := Some (True, ''Password updated.'')\<rparr>))"

definition openEditProfile :: "UserPublic \<Rightarrow> UsersTab \<Rightarrow> UsersTab" where
  "openEditProfile u t = t\<lparr>ut_editing := Some (us_id u), ut_display := us_display_name u, ut_email := us_email u, ut_phone := us_phone u,
     ut_org := nullish (us_organization_id u) [], ut_edit_msg := None\<rparr>"

definition profile_json :: "UsersTab \<Rightarrow> json" where
  "profile_json t = JObj (trimmed_member ''display_name'' (ut_display t) @ trimmed_member ''email'' (ut_email t) @
     trimmed_member ''phone'' (ut_phone t) @ (if ut_org t = [] then [] else [(''organization_id'', JStr (ut_org t))]))"

definition handleSaveProfile :: "UsersTab \<Rightarrow> World \<Rightarrow> World \<times> UsersTab" where
  "handleSaveProfile t w =
     (if \<not> truthy_str (ut_editing t) then (w, t)
      else case updateUserProfile (the (ut_editing t)) (profile_json t) w of
        (w', Inl (Error e)) \<Rightarrow> (w', t\<lparr>ut_edit_msg := Some (False, e)\<rparr>)
      | (w', Inr j) \<Rightarrow> (w', t\<lparr>ut_users := map (\<lambda>u. if Some (us_id u) = ut_editing t then user_of_json j else u) (ut_users t),
             ut_editing := None, ut_edit_msg := Some (True, ''Profile updated.'')\<rparr>))"

definition reset_mfa :: "bool \<Rightarrow> UserPublic \<Rightarrow> UsersTab \<Rightarrow> World \<Rightarrow> World \<times> UsersTab" where
  "reset_mfa confirmed u t w =
     (if \<not> confirmed then (w, t)
      else case admin_apiFetch (''/api/users/'' @ us_id u @ ''/mfa/reset'') (bare_init ''POST'') w of
        (w', Inl (Error e)) \<Rightarrow> (w', t\<lparr>ut_msg := Some (False, e)\<rparr>)
      | (w', Inr _) \<Rightarrow> (w', t\<lparr>ut_msg := Some (True, ''MFA reset for '' @ us_username u @ ''.'')\<rparr>))"

definition PLATFORM_ROLES :: "(string \<times> string) list" where
  "PLATFORM_ROLES = [(''admin'', ''Admin''), (''soc_operator'', ''SOC Operator''), (''soc_supervisor'', ''SOC Supervisor''),
     (''site_manager'', ''Site Manager''), (''customer'', ''Customer''), (''viewer'', ''Viewer'')]"

definition INTERNAL_ROLES :: "(string \<times> string) list" where
  "INTERNAL_ROLES = filter (\<lambda>r. fst r \<in> {''admin'', ''soc_operator'', ''soc_supervisor''}) PLATFORM_ROLES"

definition CUSTOMER_ROLES :: "(string \<times> string) list" where
  "CUSTOMER_ROLES = filter (\<lambda>r. fst r \<in> {''site_manager'', ''customer'', ''viewer''}) PLATFORM_ROLES"

definition roleLabel :: "string \<Rightarrow> string" where
  "roleLabel r = nullish (map_of PLATFORM_ROLES r) r"

definition is_internal :: "UserPublic \<Rightarrow> bool" where
  "is_internal u \<longleftrightarrow> \<not> truthy_str (us_organization_id u)"

definition internalUsers :: "UserPublic list \<Rightarrow> UserPublic list" where
  "internalUsers users = filter is_internal users"

definition customerUsers :: "string \<Rightarrow> UserPublic list \<Rightarrow> UserPublic list" where
  "customerUsers company users = filter (\<lambda>u. \<not> is_internal u \<and> (company = [] \<or> us_organization_id u = Some company)) users"

definition may_reset_or_delete :: "UserPublic option \<Rightarrow> UserPublic \<Rightarrow> bool" where
  "may_reset_or_delete me u \<longleftrightarrow> (case me of None \<Rightarrow> False | Some m \<Rightarrow> us_role m = ''admin'' \<and> us_id u \<noteq> us_id m)"

section \<open>Tabs and the device history\<close>

datatype admin_tab = Sites_tab | Operators_tab | Users_tab | Settings_tab | Health_tab | Audit_tab | Integrations_tab | Labeling_tab

definition ensureCameras :: "json list \<times> bool \<Rightarrow> World \<Rightarrow> World \<times> json list \<times> bool" where
  "ensureCameras cl w =
     (if snd cl then (w, cl)
      else case listCameras w of
        (w', Inl _) \<Rightarrow> (w', fst cl, True)
      | (w', Inr j) \<Rightarrow> (w', json_items j, True))"

definition handleTabChange :: "admin_tab \<Rightarrow> (json list \<times> bool) \<times> UsersTab \<Rightarrow> World \<Rightarrow> World \<times> admin_tab \<times> (json list \<times> bool) \<times> UsersTab" where
  "handleTabChange tab ct w =
     (let (w1, cl) = (if tab \<in> {Settings_tab, Health_tab} then ensureCameras (fst ct) w else (w, fst ct));
          (w2, t) = (if tab \<in> {Users_tab, Operators_tab} \<and> \<not> ut_loaded (snd ct) then loadPlatformUsers (snd ct) w1 else (w1, snd ct)) in
      (w2, tab, cl, t))"

definition admin_tabs :: "bool \<Rightarrow> bool \<Rightarrow> admin_tab list" where
  "admin_tabs integrations labeling = [Sites_tab, Operators_tab, Users_tab, Settings_tab, Health_tab, Audit_tab] @
     (if integrations then [Integrations_tab] else []) @ (if labeling then [Labeling_tab] else [])"

record DeviceHistory =
  dv_rows :: "json list option"
  dv_err :: string
  dv_loading :: bool

definition loadDeviceHistory :: "string \<Rightarrow> string \<Rightarrow> DeviceHistory \<Rightarrow> World \<Rightarrow> World \<times> DeviceHistory" where
  "loadDeviceHistory type i h w =
     (if js_trim i = [] then (w, h)
      else case bind_io (admin_apiFetch (''/api/v1/device-history?type='' @ encodeURIComponent type @ ''&id='' @ encodeURIComponent (js_trim i)) no_init) res_json w of
        (w', Inl (Error e)) \<Rightarrow> (w', \<lparr>dv_rows = None, dv_err = e, dv_loading = False\<rparr>)
      | (w', Inr j) \<Rightarrow> (w', \<lparr>dv_rows = Some (json_items j), dv_err = [], dv_loading = False\<rparr>))"

section \<open>The server\<close>

text \<open>\<open>letter\<close> and \<open>other\<close> say whether a text contains a letter, and a digit, mark or space, by the unicode tables.\<close>

definition MinPasswordLength :: nat where "MinPasswordLength = 12"

definition commonPasswords :: "string list" where
  "commonPasswords = [''password'', ''password1'', ''password123'', ''password1234'', ''password12345'', ''password!'', ''welcome1'',
     ''welcome123'', ''qwerty'', ''qwerty123'', ''qwertyuiop'', ''letmein'', ''letmein1'', ''letmein123'', ''admin'', ''admin123'',
     ''administrator'', ''changeme'', ''changeme123'', ''iloveyou'', ''abc123'', ''abcd1234'', ''123456789012'', ''qwerty1234'',
     ''1qaz2wsx3edc'', ''monkey123'', ''football'', ''superman'', ''ironsight'', ''ironsight1'', ''ironsight123'']"

definition ValidatePassword :: "(string \<Rightarrow> bool) \<Rightarrow> (string \<Rightarrow> bool) \<Rightarrow> string \<Rightarrow> string option" where
  "ValidatePassword letter other pw =
     (if length pw < MinPasswordLength then Some ''password must be at least 12 characters''
      else if \<not> letter pw \<or> \<not> other pw then Some ''password must contain letters and at least one digit or symbol''
      else if to_lower pw \<in> set commonPasswords then Some (''password is too common '' @ [CHR 0xE2, CHR 0x80, CHR 0x94] @ '' try a longer phrase, mix of words, or numbers and symbols'')
      else None)"

definition ValidRoles :: "string list" where
  "ValidRoles = [''admin'', ''soc_operator'', ''soc_supervisor'', ''site_manager'', ''customer'', ''viewer'']"

record UserCreate =
  ur_Username :: string
  ur_Password :: string
  ur_Role :: string
  ur_DisplayName :: string
  ur_Email :: string
  ur_Phone :: string
  ur_OrganizationID :: string
  ur_AssignedSiteIDs :: "string list"

definition decode_user :: "json \<Rightarrow> UserCreate option" where
  "decode_user j =
     Option.bind (go_object j) (\<lambda>b.
     Option.bind (go_string (json_field ''username'' b)) (\<lambda>un.
     Option.bind (go_string (json_field ''password'' b)) (\<lambda>pw.
     Option.bind (go_string (json_field ''role'' b)) (\<lambda>ro.
     Option.bind (go_string (json_field ''display_name'' b)) (\<lambda>dn.
     Option.bind (go_string (json_field ''email'' b)) (\<lambda>em.
     Option.bind (go_string (json_field ''phone'' b)) (\<lambda>ph.
     Option.bind (go_string (json_field ''organization_id'' b)) (\<lambda>og.
     Option.bind (go_strings (json_field ''assigned_site_ids'' b)) (\<lambda>ss.
       Some \<lparr>ur_Username = un, ur_Password = pw, ur_Role = ro, ur_DisplayName = dn, ur_Email = em, ur_Phone = ph,
             ur_OrganizationID = og, ur_AssignedSiteIDs = ss\<rparr>)))))))))"

text \<open>\<open>taken\<close> says whether the unique index of user names refuses the row. A null organisation is \<open>None\<close>. The handlers of
  passwords take \<open>hash\<close>, the hashing of the bcrypt library: \<open>None\<close> is its error, which it documents for more than 72 bytes.\<close>

definition CreateUser :: "(string \<Rightarrow> bool) \<Rightarrow> id \<Rightarrow> UserCreate \<Rightarrow> UserPublic option" where
  "CreateUser taken new_id c = (if taken (ur_Username c) then None
     else Some \<lparr>us_id = new_id, us_username = ur_Username c, us_role = ur_Role c, us_display_name = ur_DisplayName c, us_email = ur_Email c,
         us_phone = ur_Phone c, us_organization_id = nullableStr (ur_OrganizationID c), us_assigned_site_ids = Some (ur_AssignedSiteIDs c)\<rparr>)"

definition HandleCreateUser :: "(string \<Rightarrow> string option) \<Rightarrow> (string \<Rightarrow> string option) \<Rightarrow> (string \<Rightarrow> bool) \<Rightarrow> id \<Rightarrow> string option \<Rightarrow> json \<Rightarrow> (nat \<times> string) + UserPublic" where
  "HandleCreateUser validate hash taken new_id role body =
     (if role \<noteq> Some ''admin'' then Inl (403, ''admin access required'')
      else case decode_user body of
        None \<Rightarrow> Inl (400, ''invalid request body'')
      | Some req \<Rightarrow>
          (if ur_Username req = [] \<or> ur_Password req = [] then Inl (400, ''username and password required'')
           else case validate (ur_Password req) of
             Some e \<Rightarrow> Inl (400, e)
           | None \<Rightarrow>
               (let req = (if ur_Role req = [] then req\<lparr>ur_Role := ''viewer''\<rparr> else req) in
                if ur_Role req \<notin> set ValidRoles then Inl (400, ''role must be one of: admin, soc_operator, soc_supervisor, site_manager, customer, viewer'')
                else (case hash (ur_Password req) of
                    None \<Rightarrow> Inl (500, ''failed to hash password'')
                  | Some _ \<Rightarrow> (case CreateUser taken new_id req of
                        None \<Rightarrow> Inl (409, ''failed to create user'')
                      | Some u \<Rightarrow> Inr u)))))"

text \<open>\<open>parsed\<close> is the identifier of the address, \<open>None\<close> when it is none; the rows not returned are unchanged.\<close>

definition HandleDeleteUser :: "(string \<times> id) option \<Rightarrow> id option \<Rightarrow> UserPublic list \<Rightarrow> (nat \<times> string) + UserPublic list" where
  "HandleDeleteUser claims parsed rows = (case claims of
     Some (role, uid) \<Rightarrow>
       (if role \<noteq> ''admin'' then Inl (403, ''admin access required'')
        else case parsed of
          None \<Rightarrow> Inl (400, ''invalid user id'')
        | Some i \<Rightarrow> if i = uid then Inl (400, ''cannot delete your own account'') else Inr (filter (\<lambda>r. us_id r \<noteq> i) rows))
   | None \<Rightarrow> Inl (403, ''admin access required''))"

definition HandleUpdateUserRole :: "(string \<times> id) option \<Rightarrow> id option \<Rightarrow> json \<Rightarrow> UserPublic list \<Rightarrow> (nat \<times> string) + UserPublic list" where
  "HandleUpdateUserRole claims parsed body rows =
     (if map_option fst claims \<noteq> Some ''admin'' then Inl (403, ''admin access required'')
      else case parsed of
        None \<Rightarrow> Inl (400, ''invalid user id'')
      | Some i \<Rightarrow> (case Option.bind (go_object body) (\<lambda>b. go_string (json_field ''role'' b)) of
            None \<Rightarrow> Inl (400, ''role required'')
          | Some r \<Rightarrow>
              if r = [] then Inl (400, ''role required'')
              else if r \<notin> set ValidRoles then Inl (400, ''role must be one of: admin, soc_operator, soc_supervisor, site_manager, customer, viewer'')
              else Inr (map (\<lambda>u. if us_id u = i then u\<lparr>us_role := r\<rparr> else u) rows)))"

text \<open>On success, whose password is replaced and the hash stored.\<close>

definition HandleUpdateUserPassword :: "(string \<Rightarrow> string option) \<Rightarrow> (string \<Rightarrow> string option) \<Rightarrow> (string \<times> id) option \<Rightarrow> id option \<Rightarrow> json \<Rightarrow> (nat \<times> string) + id \<times> string" where
  "HandleUpdateUserPassword validate hash claims parsed body = (case claims of
     None \<Rightarrow> Inl (401, ''unauthorized'')
   | Some (role, uid) \<Rightarrow> (case parsed of
       None \<Rightarrow> Inl (400, ''invalid user id'')
     | Some i \<Rightarrow>
         (if role \<noteq> ''admin'' \<and> i \<noteq> uid then Inl (403, ''forbidden'')
          else case Option.bind (go_object body) (\<lambda>b. go_string (json_field ''password'' b)) of
            None \<Rightarrow> Inl (400, ''password required'')
          | Some pw \<Rightarrow> if pw = [] then Inl (400, ''password required'')
              else (case validate pw of
                Some e \<Rightarrow> Inl (400, e)
              | None \<Rightarrow> (case hash pw of None \<Rightarrow> Inl (500, ''failed to hash password'') | Some h \<Rightarrow> Inr (i, h))))))"

definition HandleAdminMFAReset :: "string option \<Rightarrow> id option \<Rightarrow> (nat \<times> string) + id" where
  "HandleAdminMFAReset role parsed = (case role of
     None \<Rightarrow> Inl (401, ''unauthorized'')
   | Some r \<Rightarrow> if r \<noteq> ''admin'' \<and> r \<noteq> ''soc_supervisor'' then Inl (403, ''forbidden'')
       else (case parsed of None \<Rightarrow> Inl (400, ''invalid user id'') | Some i \<Rightarrow> Inr i))"

text \<open>The created account, if any, with the stored hash, and the operator's row. A failing account stops the handler; the database
  takes the operator's row.\<close>

definition HandleCreateOperator :: "(string \<Rightarrow> string option) \<Rightarrow> (string \<Rightarrow> bool) \<Rightarrow> id \<Rightarrow> id \<Rightarrow> string option \<Rightarrow> json \<Rightarrow> (nat \<times> string) + (UserPublic \<times> string) option \<times> OperatorRow" where
  "HandleCreateOperator hash taken new_user new_op role body =
     (if role \<noteq> Some ''admin'' then Inl (403, ''admin access required'')
      else case Option.bind (go_object body) (\<lambda>b. those (map (\<lambda>k. go_string (json_field k b)) [''name'', ''callsign'', ''email'', ''username'', ''password''])) of
        Some [nm, cs, em, un, pw] \<Rightarrow>
          (let op = \<lparr>op_id = new_op, op_name = nm, op_callsign = cs, op_status = ''available'', op_email = Some em\<rparr> in
           if nm = [] \<or> cs = [] then Inl (400, ''name and callsign required'')
           else if un \<noteq> [] \<and> pw \<noteq> []
           then (case hash pw of
                None \<Rightarrow> Inl (500, ''failed to hash password'')
              | Some h \<Rightarrow> (case CreateUser taken new_user \<lparr>ur_Username = un, ur_Password = pw, ur_Role = ''soc_operator'', ur_DisplayName = nm, ur_Email = em,
                     ur_Phone = [], ur_OrganizationID = [], ur_AssignedSiteIDs = []\<rparr> of
                    None \<Rightarrow> Inl (409, ''failed to create user account'')
                  | Some u \<Rightarrow> Inr (Some (u, h), op)))
           else Inr (None, op))
      | _ \<Rightarrow> Inl (400, ''invalid request body''))"

section \<open>Helper lemmas\<close>

definition creation_inv :: "UserCreation \<Rightarrow> bool" where
  "creation_inv s \<longleftrightarrow> user_deps (un_form s) = user_deps (un_captured s)"

lemma creation_inv_step: "creation_inv s \<Longrightarrow> creation_inv (creation_step e s)"
  by (simp add: creation_inv_def creation_step_def render_form_def)

lemma creation_inv_initial: "creation_inv initial_creation"
  by (simp add: creation_inv_def initial_creation_def)

interpretation creation: machine creation_step "\<lambda>s. s = initial_creation" creation_inv
  by unfold_locales (auto intro: creation_inv_step creation_inv_initial)

lemma unlisted_input_keeps:
  assumes "creation_inv s" "user_deps (typed e (un_form s)) = user_deps (un_form s)"
  shows "un_captured (creation_step e s) = un_captured s"
  using assms by (simp add: creation_inv_def creation_step_def render_form_def)

lemma run_creation_inv: "creation_inv (fold creation_step es initial_creation)"
  by (rule creation.inv_run) (rule creation_inv_initial)

lemma trimmed_field: "k \<noteq> j \<Longrightarrow> map_of (trimmed_member j v) k = None"
  "map_of (trimmed_member k v) k = (if js_trim v = [] then None else Some (JStr (js_trim v)))"
  by (simp_all add: trimmed_member_def)

lemma js_trim_Nil [simp]: "js_trim [] = []"
  by (simp add: js_trim_def)

text \<open>What the server reads from the body of a new account.\<close>

lemma decode_user_body:
  "decode_user (user_body f) = Some \<lparr>ur_Username = js_trim (uf_username f), ur_Password = js_trim (uf_password f), ur_Role = effectiveRole f,
     ur_DisplayName = js_trim (uf_display_name f), ur_Email = js_trim (uf_email f), ur_Phone = js_trim (uf_phone f),
     ur_OrganizationID = if uf_internal f then [] else uf_org f, ur_AssignedSiteIDs = []\<rparr>"
proof -
  note at = user_body_def json_field_def map_of_append map_add_def trimmed_field go_string_def
  have "go_object (user_body f) = Some (user_body f)" by (simp add: go_object_def user_body_def)
  moreover have "go_string (json_field ''username'' (user_body f)) = Some (js_trim (uf_username f))"
    "go_string (json_field ''password'' (user_body f)) = Some (js_trim (uf_password f))"
    "go_string (json_field ''role'' (user_body f)) = Some (effectiveRole f)"
    "go_string (json_field ''display_name'' (user_body f)) = Some (js_trim (uf_display_name f))"
    "go_string (json_field ''email'' (user_body f)) = Some (js_trim (uf_email f))"
    "go_string (json_field ''phone'' (user_body f)) = Some (js_trim (uf_phone f))"
    "go_string (json_field ''organization_id'' (user_body f)) = Some (if uf_internal f then [] else uf_org f)"
    by (simp_all add: at)
  moreover have "go_strings (json_field ''assigned_site_ids'' (user_body f)) = Some []" by (simp add: at go_strings_def)
  ultimately show ?thesis by (simp add: decode_user_def)
qed

lemma created_user:
  assumes "js_trim (uf_username f) \<noteq> []" "js_trim (uf_password f) \<noteq> []" "validate (js_trim (uf_password f)) = None"
    "hash (js_trim (uf_password f)) = Some h" "\<not> taken (js_trim (uf_username f))" "effectiveRole f \<in> set ValidRoles"
  shows "HandleCreateUser validate hash taken i (Some ''admin'') (user_body f) =
    Inr \<lparr>us_id = i, us_username = js_trim (uf_username f), us_role = effectiveRole f, us_display_name = js_trim (uf_display_name f),
      us_email = js_trim (uf_email f), us_phone = js_trim (uf_phone f),
      us_organization_id = nullableStr (if uf_internal f then [] else uf_org f), us_assigned_site_ids = Some []\<rparr>"
proof -
  have "effectiveRole f \<noteq> []" using assms(6) by (auto simp: ValidRoles_def)
  then show ?thesis using assms by (simp add: HandleCreateUser_def decode_user_body CreateUser_def Let_def)
qed

lemma decode_profile_json:
  "decode_profile (profile_json t) = Some \<lparr>up_DisplayName = if js_trim (ut_display t) = [] then None else Some (js_trim (ut_display t)),
      up_Email = if js_trim (ut_email t) = [] then None else Some (js_trim (ut_email t)),
      up_Phone = if js_trim (ut_phone t) = [] then None else Some (js_trim (ut_phone t)),
      up_OrganizationID = if ut_org t = [] then None else Some (ut_org t), up_AssignedSiteIDs = []\<rparr>"
proof -
  note at = profile_json_def json_field_def map_of_append map_add_def trimmed_field go_ptr_string_def
  have "go_object (profile_json t) = Some (profile_json t)" by (simp add: go_object_def profile_json_def)
  moreover have
    "go_ptr_string (json_field ''display_name'' (profile_json t)) = Some (if js_trim (ut_display t) = [] then None else Some (js_trim (ut_display t)))"
    "go_ptr_string (json_field ''email'' (profile_json t)) = Some (if js_trim (ut_email t) = [] then None else Some (js_trim (ut_email t)))"
    "go_ptr_string (json_field ''phone'' (profile_json t)) = Some (if js_trim (ut_phone t) = [] then None else Some (js_trim (ut_phone t)))"
    "go_ptr_string (json_field ''organization_id'' (profile_json t)) = Some (if ut_org t = [] then None else Some (ut_org t))"
    by (simp_all add: at)
  moreover have "go_strings (json_field ''assigned_site_ids'' (profile_json t)) = Some []" by (simp add: at go_strings_def)
  ultimately show ?thesis by (simp add: decode_profile_def)
qed

section \<open>Properties: accounts\<close>

text \<open>However the form for a new account has been used, ticking or unticking the administrator box and choosing a company
  change nothing in the request that Create sends.\<close>

theorem last_choice_not_sent:
  "sent_user (creation_step (Admin_box b) (fold creation_step es initial_creation)) = sent_user (fold creation_step es initial_creation) \<and>
   sent_user (creation_step (Choose_company c) (fold creation_step es initial_creation)) = sent_user (fold creation_step es initial_creation)"
  by (simp add: sent_user_def unlisted_input_keeps [OF run_creation_inv] user_deps_def)

text \<open>C32: The administrator box taken back: with the box ticked, name and password typed and the box unticked again, the form offers
  an operator account and Create is enabled; when the password passes the policy, bcrypt takes it and the name is free, the server
  stores an administrator.\<close>

theorem unticked_administrator_created:
  assumes "s = fold creation_step [Admin_box True, User_name n, User_password p, Admin_box False] initial_creation"
    and "js_trim n \<noteq> []" "js_trim p \<noteq> []" "validate (js_trim p) = None" "hash (js_trim p) \<noteq> None" "\<not> taken (js_trim n)"
  shows "can_create_user s \<and> effectiveRole (un_form s) = ''soc_operator'' \<and>
    map_sum (\<lambda>e. e) us_role (HandleCreateUser validate hash taken i (Some ''admin'') (sent_user s)) = Inr ''admin''"
proof -
  obtain h where h: "hash (js_trim p) = Some h" using assms(5) by auto
  have "n \<noteq> []" "p \<noteq> []" using assms(2,3) by auto
  then have s: "un_form s = blank_user\<lparr>uf_username := n, uf_password := p\<rparr>" "un_captured s = blank_user\<lparr>uf_username := n, uf_password := p, uf_is_admin := True\<rparr>"
    unfolding assms(1) by (simp_all add: creation_step_def render_form_def user_deps_def initial_creation_def blank_user_def)
  have role: "effectiveRole (un_captured s) = ''admin''" by (simp add: s effectiveRole_def blank_user_def)
  have "HandleCreateUser validate hash taken i (Some ''admin'') (user_body (un_captured s)) \<in> range Inr \<and>
      map_sum (\<lambda>e. e) us_role (HandleCreateUser validate hash taken i (Some ''admin'') (user_body (un_captured s))) = Inr ''admin''"
    using created_user [of "un_captured s" validate hash h taken i] assms(2-4,6) h role by (simp add: s ValidRoles_def)
  then show ?thesis using assms(2,3) by (simp add: sent_user_def s can_create_user_def effectiveRole_def blank_user_def)
qed

theorem unticked_administrator_created_witness:
  "can_create_user (fold creation_step [Admin_box True, User_name ''ann'', User_password ''twelve signs 1'', Admin_box False] initial_creation) \<and>
   map_sum (\<lambda>e. e) us_role (HandleCreateUser (ValidatePassword (\<lambda>_. True) (\<lambda>_. True)) (\<lambda>p. if length p \<le> 72 then Some p else None) (\<lambda>_. False) ''u9'' (Some ''admin'')
     (sent_user (fold creation_step [Admin_box True, User_name ''ann'', User_password ''twelve signs 1'', Admin_box False] initial_creation))) = Inr ''admin''"
proof -
  have v: "js_trim ''ann'' \<noteq> []" "js_trim ''twelve signs 1'' \<noteq> []"
    "ValidatePassword (\<lambda>_. True) (\<lambda>_. True) (js_trim ''twelve signs 1'') = None"
    "(\<lambda>p. if length p \<le> 72 then Some p else None) (js_trim ''twelve signs 1'') \<noteq> None" by code_simp+
  show ?thesis
    using unticked_administrator_created [where n = "''ann''" and p = "''twelve signs 1''" and validate = "ValidatePassword (\<lambda>_. True) (\<lambda>_. True)"
        and hash = "\<lambda>p. if length p \<le> 72 then Some p else None" and taken = "\<lambda>_. False", OF refl v(1) v(2) v(3) v(4)] by blast
qed

text \<open>The company chosen last is missing from the stored account, which the page then lists among the staff.\<close>

lemma company_chosen_last_lost:
  assumes "s = fold creation_step [Account_kind False, User_name n, User_password p, Choose_company c] initial_creation"
    and "js_trim n \<noteq> []" "js_trim p \<noteq> []" "validate (js_trim p) = None" "hash (js_trim p) \<noteq> None" "\<not> taken (js_trim n)" "c \<noteq> []"
  shows "can_create_user s \<and> uf_org (un_form s) = c \<and>
    map_sum (\<lambda>e. e) is_internal (HandleCreateUser validate hash taken i (Some ''admin'') (sent_user s)) = Inr True"
proof -
  obtain h where h: "hash (js_trim p) = Some h" using assms(5) by auto
  have "n \<noteq> []" "p \<noteq> []" using assms(2,3) by auto
  then have s: "un_captured s = blank_user\<lparr>uf_username := n, uf_password := p, uf_internal := False, uf_role := ''viewer''\<rparr>"
    "un_form s = (un_captured s)\<lparr>uf_org := c\<rparr>"
    unfolding assms(1) by (simp_all add: creation_step_def render_form_def user_deps_def initial_creation_def blank_user_def)
  have role: "effectiveRole (un_captured s) = ''viewer''" by (simp add: s effectiveRole_def)
  show ?thesis
    using created_user [of "un_captured s" validate hash h taken i] assms(2-4,6,7) h role
    by (simp add: sent_user_def s can_create_user_def ValidRoles_def is_internal_def nullableStr_def blank_user_def)
qed

text \<open>Saving a profile from the account list stores the trimmed name, mail and phone unless they are empty, which keeps the stored
  ones; it replaces the company by the one in the form, and it takes every site assignment away from the user.\<close>

theorem profile_save_erases_sites:
  "HandleUpdateUserProfile (Some (''admin'', uid)) (profile_json t) row =
    Inr (row\<lparr>us_display_name := str_or (Some (js_trim (ut_display t))) (us_display_name row), us_email := str_or (Some (js_trim (ut_email t))) (us_email row),
      us_phone := str_or (Some (js_trim (ut_phone t))) (us_phone row), us_organization_id := nullableStr (ut_org t), us_assigned_site_ids := Some []\<rparr>)"
  by (simp add: decode_profile_json HandleUpdateUserProfile_def UpdateUserProfile_def nullish_def str_or_def nullableStr_def)

text \<open>An account cannot delete itself; a list that was accepted still has the caller's row.\<close>

lemma own_account_kept:
  "HandleDeleteUser (Some (role, uid)) parsed rows = Inr rows' \<Longrightarrow> r \<in> set rows \<Longrightarrow> us_id r = uid \<Longrightarrow> r \<in> set rows'"
  by (auto simp: HandleDeleteUser_def split: if_splits option.splits)

text \<open>An operator's account is stored with a password the account handlers refuse.\<close>

lemma weak_operator_password:
  assumes "hash ''x'' = Some h"
  shows "(\<exists>e. ValidatePassword letter other ''x'' = Some e) \<and>
   (\<exists>u op. HandleCreateOperator hash (\<lambda>_. False) ''u1'' ''op1'' (Some ''admin'')
      (operator_json \<lparr>no_show = True, no_name = ''Ann'', no_callsign = ''A1'', no_email = [], no_username = ''ann'', no_password = ''x'', no_creating = False, no_msg = None\<rparr>) =
      Inr (Some (u, h), op) \<and> us_role u = ''soc_operator'')"
proof -
  let ?f = "\<lparr>no_show = True, no_name = ''Ann'', no_callsign = ''A1'', no_email = [], no_username = ''ann'', no_password = ''x'', no_creating = False, no_msg = None\<rparr>"
  have "Option.bind (go_object (operator_json ?f)) (\<lambda>b. those (map (\<lambda>k. go_string (json_field k b)) [''name'', ''callsign'', ''email'', ''username'', ''password''])) =
      Some [''Ann'', ''A1'', [], ''ann'', ''x'']"
    by code_simp
  then have "HandleCreateOperator hash (\<lambda>_. False) ''u1'' ''op1'' (Some ''admin'') (operator_json ?f) =
    Inr (Some (\<lparr>us_id = ''u1'', us_username = ''ann'', us_role = ''soc_operator'', us_display_name = ''Ann'', us_email = [], us_phone = [],
      us_organization_id = None, us_assigned_site_ids = Some []\<rparr>, h), \<lparr>op_id = ''op1'', op_name = ''Ann'', op_callsign = ''A1'', op_status = ''available'', op_email = Some []\<rparr>)"
    using assms by (simp add: HandleCreateOperator_def CreateUser_def nullableStr_def del: those.simps)
  moreover have "ValidatePassword letter other ''x'' = Some ''password must be at least 12 characters''"
    by (simp add: ValidatePassword_def MinPasswordLength_def)
  ultimately show ?thesis by auto
qed

text \<open>The account list is asked for once; a failed answer counts as loaded.\<close>

lemma failed_user_load_kept:
  assumes "listUsers w = (w', Inl e)" "tab = Users_tab \<or> tab = Operators_tab" "ut_loaded t = False"
  shows "handleTabChange tab (ct, t) w = (w', tab, ct, t\<lparr>ut_loaded := True\<rparr>)"
    and "tab' = Users_tab \<or> tab' = Operators_tab \<Longrightarrow> handleTabChange tab' (ct, t\<lparr>ut_loaded := True\<rparr>) v = (v, tab', ct, t\<lparr>ut_loaded := True\<rparr>)"
  using assms by (auto simp: handleTabChange_def loadPlatformUsers_def)

text \<open>After a refused creation of a company the button stays disabled whatever is typed.\<close>

lemma refused_company_locks_form:
  assumes "js_trim (nc_name f) \<noteq> []" "createCompany (new_company_json f) w = (w', Inl e)"
  shows "\<exists>f'. handleCreateCompany refetch f w = (w', f') \<and> \<not> can_create_company (f'\<lparr>nc_name := n, nc_contact := c, nc_email := m, nc_plan := pl\<rparr>)"
  using assms by (simp add: handleCreateCompany_def can_create_company_def)

section \<open>Properties: sites\<close>

lemma map_of_empty_groups: "map_of (foldl (\<lambda>m c. map_put (co_id c, []) m) m0 cs) k = (if k \<in> co_id ` set cs then Some [] else map_of m0 k)"
  by (induction cs arbitrary: m0) (auto simp: map_of_map_put)

definition company_group :: "CompanyRow list \<Rightarrow> SiteEntry \<Rightarrow> id" where
  "company_group companies s = (let cid = str_or (se_company_id s) ''unassigned'' in if cid \<in> co_id ` set companies then cid else ''unassigned'')"

lemma sites_grouped:
  "map_of (sitesByCompany companies sites) k =
    (if k = ''unassigned'' \<or> k \<in> co_id ` set companies then Some (filter (\<lambda>s. company_group companies s = k) sites) else None)"
proof (induction sites arbitrary: k rule: rev_induct)
  case Nil
  then show ?case by (simp add: sitesByCompany_def Let_def map_of_map_put map_of_empty_groups)
next
  case (snoc s sites)
  let ?m = "sitesByCompany companies sites" and ?cid = "str_or (se_company_id s) ''unassigned''"
  let ?k = "if map_of ?m ?cid \<noteq> None then ?cid else ''unassigned''"
  have "?k = company_group companies s" by (simp add: snoc.IH company_group_def Let_def)
  moreover have "sitesByCompany companies (sites @ [s]) = map_put (?k, nullish (map_of ?m ?k) [] @ [s]) ?m"
    by (simp only: sitesByCompany_def foldl_append foldl.simps Let_def)
  moreover have "company_group companies s = ''unassigned'' \<or> company_group companies s \<in> co_id ` set companies"
    by (simp add: company_group_def Let_def)
  ultimately show ?case using snoc.IH by (auto simp: map_of_map_put nullish_def)
qed

text \<open>The pages of the site list, put together, are the filtered sites in their order, each page has at most 25 of them and none
  before the last page number is empty.\<close>

theorem site_pages_complete:
  "concat (map (pagedSites (admin_filteredSites companies sites t)) [0..<totalPages (admin_filteredSites companies sites t)]) = admin_filteredSites companies sites t \<and>
   length (pagedSites (admin_filteredSites companies sites t) p) \<le> 25 \<and>
   (pagedSites (admin_filteredSites companies sites t) p = [] \<longleftrightarrow> totalPages (admin_filteredSites companies sites t) \<le> p)"
proof -
  have "n \<le> (n + 25 - 1) div 25 * 25" "((n + 25 - 1) div 25 \<le> q) = (n \<le> q * 25)" for n q :: nat
    by presburger (simp only: less_Suc_eq_le [symmetric] div_less_iff_less_mult, arith)
  then have "length fs \<le> totalPages fs * 25" "(totalPages fs \<le> q) = (length fs \<le> q * 25)" for fs q
    unfolding totalPages_def SITES_PAGE_SIZE_def by blast+
  then show ?thesis by (simp add: pagedSites_def [abs_def] SITES_PAGE_SIZE_def concat_pages)
qed

text \<open>When the list shrinks to one page while a later one is shown, no button is left: the page stays empty until a filter is
  changed.\<close>

lemma stranded_page:
  assumes "totalPages fs \<le> 1" "1 \<le> sx_page t" "\<And>e. e \<in> set es \<Longrightarrow> e \<in> {Previous_page, Next_page} \<or> (\<exists>b. e = Sites_view b)"
  shows "sx_page (fold (sites_step (totalPages fs)) es t) = sx_page t \<and> pagedSites fs (sx_page (fold (sites_step (totalPages fs)) es t)) = []"
proof -
  have "sx_page (fold (sites_step (totalPages fs)) es t) = sx_page t"
    using assms(2,3)
  proof (induction es arbitrary: t)
    case (Cons e es)
    have "e \<in> {Previous_page, Next_page} \<or> (\<exists>b. e = Sites_view b)" using Cons.prems(2) [of e] by simp
    then have "sx_page (sites_step (totalPages fs) e t) = sx_page t" using Cons.prems(1) assms(1) by auto
    then show ?case using Cons by simp
  qed simp
  moreover have "pagedSites fs (sx_page t) = []"
    using assms(1,2) by (simp add: totalPages_def pagedSites_def SITES_PAGE_SIZE_def)
  ultimately show ?thesis by simp
qed

end
