(* ===== verification/Camera_Layout.thy ===== *)
theory Camera_Layout
  imports Settings_Page Browser_Storage Grid_Layout Media
begin

text \<open>
  Three small hooks and clients of the camera pages: the per-site camera order with dragging and pinning
  (\<^verbatim>\<open>hooks/useCameraLayout.tsx\<close>) as a machine over the browser's storage, the loader of the zone editor's background
  picture (\<^verbatim>\<open>hooks/useVCASnapshot.ts\<close>), and the requests for vendor settings (\<^verbatim>\<open>lib/milesight.ts\<close>). Shown: what is seen
  survives a reload, a drag moves what was dragged as long as nothing is pinned, and what it does otherwise. A stored
  value of another shape than the hook writes is read field by field, with empty values for what is missing.
\<close>

section \<open>The order of cameras\<close>

record CameraLayoutItem =
  cl_cameraId :: id
  cl_order :: int
  cl_pinned :: bool

record LayoutConfig =
  lc_siteId :: id
  lc_cameras :: "CameraLayoutItem list"
  lc_columns :: int

definition CAMERA_LAYOUT_KEY :: string where "CAMERA_LAYOUT_KEY = ''sg-camera-layouts''"

definition layout_item_json :: "CameraLayoutItem \<Rightarrow> json" where
  "layout_item_json c = JObj [(''cameraId'', JStr (cl_cameraId c)), (''order'', JNum (of_int (cl_order c))), (''pinned'', JBool (cl_pinned c))]"

definition layout_item_of :: "json \<Rightarrow> CameraLayoutItem" where
  "layout_item_of j = \<lparr>cl_cameraId = str_field ''cameraId'' j [], cl_order = int_field ''order'' j, cl_pinned = (json_field ''pinned'' j = Some (JBool True))\<rparr>"

definition layout_json :: "LayoutConfig \<Rightarrow> json" where
  "layout_json l = JObj [(''siteId'', JStr (lc_siteId l)), (''cameras'', JArr (map layout_item_json (lc_cameras l))), (''columns'', JNum (of_int (lc_columns l)))]"

definition layout_of :: "json \<Rightarrow> LayoutConfig" where
  "layout_of j = \<lparr>lc_siteId = str_field ''siteId'' j [], lc_cameras = map layout_item_of (json_items (nullish (json_field ''cameras'' j) JNull)),
     lc_columns = int_field ''columns'' j\<rparr>"

definition loadLayouts :: "storage \<Rightarrow> (id \<times> LayoutConfig) list" where
  "loadLayouts st =
     (if \<not> truthy_str (st CAMERA_LAYOUT_KEY) then []
      else case json_parse (the (st CAMERA_LAYOUT_KEY)) of
        Some (JObj fs) \<Rightarrow> map (\<lambda>(k, v). (k, layout_of v)) (obj_norm fs)
      | _ \<Rightarrow> [])"

definition saveLayouts :: "(number \<Rightarrow> string) \<Rightarrow> (id \<times> LayoutConfig) list \<Rightarrow> storage \<Rightarrow> storage" where
  "saveLayouts fractx ls st = st(CAMERA_LAYOUT_KEY \<mapsto> stringify fractx (JObj (map (\<lambda>(k, l). (k, layout_json l)) ls)))"

record LayoutHook =
  lh_layouts :: "(id \<times> LayoutConfig) list"
  lh_drag :: "nat option"
  lh_over :: "nat option"
  lh_storage :: storage

definition mount_layout :: "storage \<Rightarrow> LayoutHook" where
  "mount_layout st = \<lparr>lh_layouts = loadLayouts st, lh_drag = None, lh_over = None, lh_storage = st\<rparr>"

definition default_layout_items :: "id list \<Rightarrow> CameraLayoutItem list" where
  "default_layout_items cams = map (\<lambda>(i, c). \<lparr>cl_cameraId = c, cl_order = int i, cl_pinned = False\<rparr>) (enumerate 0 cams)"

definition current_layout_of :: "id \<Rightarrow> id list \<Rightarrow> LayoutHook \<Rightarrow> LayoutConfig" where
  "current_layout_of site cams h = nullish (map_of (lh_layouts h) site)
     \<lparr>lc_siteId = site, lc_cameras = default_layout_items cams, lc_columns = 3\<rparr>"

definition shown_before :: "CameraLayoutItem \<Rightarrow> CameraLayoutItem \<Rightarrow> bool" where
  "shown_before a b \<longleftrightarrow> cl_pinned a \<and> \<not> cl_pinned b \<or> cl_pinned a = cl_pinned b \<and> cl_order a < cl_order b"

definition orderedCameras :: "id list \<Rightarrow> LayoutConfig \<Rightarrow> (id \<times> bool) list" where
  "orderedCameras cams l = map (\<lambda>c. (cl_cameraId c, cl_pinned c)) (filter (\<lambda>c. cl_cameraId c \<in> set cams) (js_sort shown_before (lc_cameras l)))"

definition updateLayout :: "(number \<Rightarrow> string) \<Rightarrow> id \<Rightarrow> LayoutConfig \<Rightarrow> LayoutHook \<Rightarrow> LayoutHook" where
  "updateLayout fractx site l h =
     (let updated = map_put (site, l) (lh_layouts h) in h\<lparr>lh_layouts := updated, lh_storage := saveLayouts fractx updated (lh_storage h)\<rparr>)"

definition layout_onDragStart :: "nat \<Rightarrow> LayoutHook \<Rightarrow> LayoutHook" where
  "layout_onDragStart i h = h\<lparr>lh_drag := Some i\<rparr>"

definition layout_onDragOver :: "nat \<Rightarrow> LayoutHook \<Rightarrow> LayoutHook" where
  "layout_onDragOver i h = h\<lparr>lh_over := Some i\<rparr>"

definition insert_at :: "nat \<Rightarrow> 'a \<Rightarrow> 'a list \<Rightarrow> 'a list" where
  "insert_at j x xs = take j xs @ x # drop j xs"

definition moved :: "nat \<Rightarrow> nat \<Rightarrow> 'a list \<Rightarrow> 'a list" where
  "moved i j xs = insert_at j (xs ! i) (take i xs @ drop (Suc i) xs)"

definition reindexed :: "CameraLayoutItem list \<Rightarrow> CameraLayoutItem list" where
  "reindexed cs = map (\<lambda>(i, c). c\<lparr>cl_order := int i\<rparr>) (enumerate 0 cs)"

text \<open>Taking an element that is not there and renumbering \<^verbatim>\<open>undefined\<close> throws before anything is stored.\<close>

definition layout_onDragEnd :: "(number \<Rightarrow> string) \<Rightarrow> id \<Rightarrow> id list \<Rightarrow> LayoutHook \<Rightarrow> LayoutHook" where
  "layout_onDragEnd fractx site cams h =
     (case (lh_drag h, lh_over h) of
        (Some i, Some j) \<Rightarrow>
          (if i = j then h\<lparr>lh_drag := None, lh_over := None\<rparr>
           else let l = current_layout_of site cams h; sorted_cams = js_sort (\<lambda>a b. cl_order a < cl_order b) (lc_cameras l) in
             if length sorted_cams \<le> i then h
             else (updateLayout fractx site (l\<lparr>lc_cameras := reindexed (moved i j sorted_cams)\<rparr>) h)\<lparr>lh_drag := None, lh_over := None\<rparr>)
      | _ \<Rightarrow> h\<lparr>lh_drag := None, lh_over := None\<rparr>)"

definition togglePin :: "(number \<Rightarrow> string) \<Rightarrow> id \<Rightarrow> id list \<Rightarrow> id \<Rightarrow> LayoutHook \<Rightarrow> LayoutHook" where
  "togglePin fractx site cams i h =
     (let l = current_layout_of site cams h in
      updateLayout fractx site (l\<lparr>lc_cameras := map (\<lambda>c. if cl_cameraId c = i then c\<lparr>cl_pinned := \<not> cl_pinned c\<rparr> else c) (lc_cameras l)\<rparr>) h)"

definition resetLayout :: "(number \<Rightarrow> string) \<Rightarrow> id \<Rightarrow> id list \<Rightarrow> LayoutHook \<Rightarrow> LayoutHook" where
  "resetLayout fractx site cams h =
     updateLayout fractx site \<lparr>lc_siteId = site, lc_cameras = default_layout_items cams, lc_columns = lc_columns (current_layout_of site cams h)\<rparr> h"

definition layout_setColumns :: "(number \<Rightarrow> string) \<Rightarrow> id \<Rightarrow> id list \<Rightarrow> int \<Rightarrow> LayoutHook \<Rightarrow> LayoutHook" where
  "layout_setColumns fractx site cams n h = updateLayout fractx site ((current_layout_of site cams h)\<lparr>lc_columns := n\<rparr>) h"

datatype layout_event = Drag_start nat | Drag_over nat | Drag_end | Toggle_pin id | Reset_layout | Set_columns int

fun layout_step :: "(number \<Rightarrow> string) \<Rightarrow> id \<Rightarrow> id list \<Rightarrow> layout_event \<Rightarrow> LayoutHook \<Rightarrow> LayoutHook" where
  "layout_step fractx site cams (Drag_start i) h = layout_onDragStart i h"
| "layout_step fractx site cams (Drag_over i) h = layout_onDragOver i h"
| "layout_step fractx site cams Drag_end h = layout_onDragEnd fractx site cams h"
| "layout_step fractx site cams (Toggle_pin i) h = togglePin fractx site cams i h"
| "layout_step fractx site cams Reset_layout h = resetLayout fractx site cams h"
| "layout_step fractx site cams (Set_columns n) h = layout_setColumns fractx site cams n h"

definition shown_layout :: "id \<Rightarrow> id list \<Rightarrow> LayoutHook \<Rightarrow> (id \<times> bool) list" where
  "shown_layout site cams h = orderedCameras cams (current_layout_of site cams h)"

section \<open>The background picture of the zone editor\<close>

text \<open>
  The environment's answers to one load. \<open>so_onvif\<close>: \<open>None\<close> the request fails, else whether it is accepted, the size of
  the answer and whether it decodes; then the token, the playlist and the first frame within five seconds; last whether the
  frame, drawn to a canvas, decodes as a picture.
\<close>

record SnapshotAnswers =
  so_onvif :: "(bool \<times> nat \<times> bool) option"
  so_minted :: bool
  so_playlist_ok :: bool
  so_frame :: bool
  so_picture :: bool

record VCASnapshot =
  sn_camera :: id
  sn_img :: "id option"
  sn_loaded :: bool
  sn_error :: "string option"

definition begin_snapshot :: "id \<Rightarrow> VCASnapshot \<Rightarrow> VCASnapshot" where
  "begin_snapshot c s = s\<lparr>sn_camera := c, sn_loaded := False, sn_error := None\<rparr>"

text \<open>\<open>finish_snapshot c a\<close>: the load begun for camera \<open>c\<close> has received its answers.\<close>

definition finish_snapshot :: "id \<Rightarrow> SnapshotAnswers \<Rightarrow> VCASnapshot \<Rightarrow> VCASnapshot" where
  "finish_snapshot c a s =
     (let fallback =
        (if so_minted a \<and> so_playlist_ok a \<and> so_frame a
         then (if so_picture a then s\<lparr>sn_img := Some c, sn_loaded := True\<rparr> else s)
         else s\<lparr>sn_error := Some ''Could not load camera snapshot. Zones can still be drawn on the grid.'', sn_loaded := True\<rparr>) in
      case so_onvif a of
        None \<Rightarrow> fallback
      | Some (accepted, bytes, decodes) \<Rightarrow>
          (if accepted \<and> bytes > 0
           then (if decodes then s\<lparr>sn_img := Some c, sn_loaded := True\<rparr>
                 else s\<lparr>sn_error := Some ''Snapshot image failed to decode'', sn_loaded := True\<rparr>)
           else fallback))"

section \<open>Vendor settings\<close>

definition milesightGet :: "id \<Rightarrow> string \<Rightarrow> json io" where
  "milesightGet c panel =
     bind_io (authFetch (''/api/cameras/'' @ c @ ''/milesight/config/'' @ panel) get_init)
       (json_unless (\<lambda>res. throw_io (''milesight '' @ panel @ '': HTTP '' @ nat_str (rs_status res))))"

definition milesightSet :: "id \<Rightarrow> string \<Rightarrow> json \<Rightarrow> json io" where
  "milesightSet c panel body =
     bind_io (authFetch (''/api/cameras/'' @ c @ ''/milesight/config/'' @ panel) (json_init ''PUT'' body)) (\<lambda>res.
     if \<not> ok res then throw_io (''milesight '' @ panel @ '' PUT failed: '' @ rs_text res)
     else try_io (res_json res) (return_io (JObj [])))"

definition milesightReboot :: "id \<Rightarrow> unit io" where
  "milesightReboot c =
     bind_io (authFetch (''/api/cameras/'' @ c @ ''/milesight/reboot'') (bare_init ''POST''))
       (unless_ok (\<lambda>res. throw_io (''reboot failed: HTTP '' @ nat_str (rs_status res))))"

definition milesightPTZGoto :: "id \<Rightarrow> int \<Rightarrow> unit io" where
  "milesightPTZGoto c n =
     bind_io (authFetch (''/api/cameras/'' @ c @ ''/milesight/ptz/preset/goto'') (json_init ''POST'' (JObj [(''preset'', JNum (of_int n))])))
       (unless_ok (\<lambda>res. throw_io (''preset goto failed: HTTP '' @ nat_str (rs_status res))))"

section \<open>Helper lemmas\<close>

lemma distinct_obj_set: "distinct (map fst fs) \<Longrightarrow> distinct (map fst (obj_set kv fs))"
proof (induction kv fs rule: obj_set.induct)
  case (2 k v j u fs)
  have "fst ` set (obj_set (k, v) fs) = insert k (fst ` set fs)" by (induction "(k, v)" fs rule: obj_set.induct) auto
  with 2 show ?case by auto
qed simp

lemma distinct_obj_norm: "distinct (map fst (obj_norm fs))"
proof -
  have "distinct (map fst gs) \<Longrightarrow> distinct (map fst (fold obj_set fs gs))" for gs
    by (induction fs arbitrary: gs) (auto intro: distinct_obj_set)
  then show ?thesis by (simp add: obj_norm_def)
qed

lemma distinct_loadLayouts: "distinct (map fst (loadLayouts st))"
  using distinct_obj_norm by (auto simp: loadLayouts_def comp_def case_prod_unfold split: option.split json.split)

lemma layout_item_round: "layout_item_of (layout_item_json c) = c"
  by (simp add: layout_item_of_def layout_item_json_def str_field_def int_field_def json_field_def)

lemma layout_round: "layout_of (layout_json l) = l"
  by (simp add: layout_of_def layout_json_def str_field_def int_field_def json_field_def json_items_def comp_def layout_item_round nullish_def)

lemma camera_layout_ok: "wf_json (layout_json l)"
  by (auto simp: layout_json_def layout_item_json_def is_int_def)

lemma saved_layouts_read:
  assumes "distinct (map fst ls)"
  shows "loadLayouts (saveLayouts fractx ls st) = ls"
proof -
  let ?fs = "map (\<lambda>(k, l). (k, layout_json l)) ls"
  have keys: "map fst ?fs = map fst ls" by (simp add: comp_def case_prod_unfold)
  have keys_distinct: "distinct (map fst ?fs)" unfolding keys by (rule assms)
  moreover have "\<forall>f\<in>set ?fs. wf_json (snd f)" using camera_layout_ok by auto
  ultimately have "wf_json (JObj ?fs)" unfolding wf_json.simps by (rule conjI)
  then have "json_parse (stringify fractx (JObj ?fs)) = Some (JObj ?fs)" by (rule parse_stringify)
  moreover have "obj_norm ?fs = ?fs" using keys_distinct by (rule obj_norm_distinct)
  moreover have "map (\<lambda>(k, v). (k, layout_of v)) ?fs = ls" by (induction ls) (auto simp: layout_round)
  ultimately show ?thesis by (simp add: loadLayouts_def saveLayouts_def)
qed

definition layout_inv :: "LayoutHook \<Rightarrow> bool" where
  "layout_inv h \<longleftrightarrow> distinct (map fst (lh_layouts h)) \<and> loadLayouts (lh_storage h) = lh_layouts h"

lemma update_inv: "layout_inv h \<Longrightarrow> layout_inv (updateLayout fractx site l h)"
  using distinct_map_put [of "lh_layouts h" "(site, l)"] by (auto simp: layout_inv_def updateLayout_def Let_def saved_layouts_read)

lemma layout_inv_marks: "layout_inv (h\<lparr>lh_drag := d, lh_over := v\<rparr>) = layout_inv h" "layout_inv (h\<lparr>lh_drag := d\<rparr>) = layout_inv h"
  "layout_inv (h\<lparr>lh_over := v\<rparr>) = layout_inv h"
  by (simp_all add: layout_inv_def)

lemma layout_step_inv: "layout_inv h \<Longrightarrow> layout_inv (layout_step fractx site cams e h)"
  by (cases e) (auto simp: layout_onDragStart_def layout_onDragOver_def layout_onDragEnd_def togglePin_def resetLayout_def layout_setColumns_def Let_def
      layout_inv_marks intro: update_inv split: option.split)

lemma layout_inv_mount: "layout_inv (mount_layout st)"
  by (simp add: layout_inv_def mount_layout_def distinct_loadLayouts)

interpretation camera_layout: machine "layout_step fractx site cams" "\<lambda>h. \<exists>st. h = mount_layout st" layout_inv
  by unfold_locales (auto intro: layout_step_inv layout_inv_mount)


lemma js_sort_reindexed: "js_sort (\<lambda>a b. cl_order a < cl_order b) (reindexed cs) = reindexed cs"
proof (rule js_sort_sorted)
  have "sorted_wrt (\<lambda>a b. \<not> cl_order b < cl_order a) (map (\<lambda>(i, c). c\<lparr>cl_order := int i\<rparr>) (enumerate n cs))" for n
    by (induction cs arbitrary: n) (auto simp: in_set_enumerate_eq)
  then show "sorted_wrt (\<lambda>a b. \<not> cl_order b < cl_order a) (reindexed cs)" by (simp add: reindexed_def)
qed

lemma map_reindexed:
  assumes "\<And>c n. f (c\<lparr>cl_order := n\<rparr>) = f c"
  shows "map f (reindexed cs) = map f cs"
proof -
  have "map f (map (\<lambda>(i, c). c\<lparr>cl_order := int i\<rparr>) (enumerate n cs)) = map f cs" for n
    by (induction cs arbitrary: n) (auto simp: assms)
  then show ?thesis by (simp add: reindexed_def)
qed

lemma map_moved: "i < length xs \<Longrightarrow> map f (moved i j xs) = moved i j (map f xs)"
  by (simp add: moved_def insert_at_def take_map drop_map)

lemma mset_insert_at: "mset (insert_at j x ys) = add_mset x (mset ys)"
proof -
  have "mset (insert_at j x ys) = add_mset x (mset (take j ys @ drop j ys))" by (simp add: insert_at_def del: append_take_drop_id)
  then show ?thesis by simp
qed

lemma mset_moved:
  assumes "i < length xs"
  shows "mset (moved i j xs) = mset xs"
proof -
  have "mset (moved i j xs) = mset (take i xs @ xs ! i # drop (Suc i) xs)" by (simp add: moved_def mset_insert_at)
  then show ?thesis using id_take_nth_drop [OF assms] by simp
qed

lemma unpinned_order:
  assumes "\<And>c. c \<in> set cs \<Longrightarrow> \<not> cl_pinned c"
  shows "js_sort shown_before cs = js_sort (\<lambda>a b. cl_order a < cl_order b) cs"
  using assms by (intro js_sort_cong) (simp add: shown_before_def)

lemma unpinned_shown:
  assumes "\<And>c. c \<in> set (lc_cameras l) \<Longrightarrow> \<not> cl_pinned c \<and> cl_cameraId c \<in> set cams"
  shows "map fst (orderedCameras cams l) = map cl_cameraId (js_sort (\<lambda>a b. cl_order a < cl_order b) (lc_cameras l))"
proof -
  have "filter (\<lambda>c. cl_cameraId c \<in> set cams) (js_sort shown_before (lc_cameras l)) = js_sort shown_before (lc_cameras l)"
    using assms by (intro filter_True) simp
  then show ?thesis using assms unpinned_order [of "lc_cameras l"] by (simp add: orderedCameras_def comp_def)
qed

section \<open>Properties\<close>

text \<open>The layouts on screen are at every moment the ones a reload would show: after any sequence of drags, pins, resets and column
  changes, reading the storage again gives exactly the hook's layouts.\<close>

theorem camera_order_survives_reload:
  "mount_layout (lh_storage (fold (layout_step fractx site cams) es (mount_layout st))) =
    (fold (layout_step fractx site cams) es (mount_layout st))\<lparr>lh_drag := None, lh_over := None\<rparr>"
proof -
  have "layout_inv (fold (layout_step fractx site cams) es (mount_layout st))"
    by (rule camera_layout.inv_run) (rule layout_inv_mount)
  then show ?thesis by (simp add: layout_inv_def mount_layout_def)
qed

text \<open>With no camera pinned and every stored camera still at the site, dragging the camera shown at position \<open>i\<close> onto position
  \<open>j\<close> shows the cameras in the order with that camera moved there.\<close>

theorem drag_moves_camera:
  assumes "\<And>c. c \<in> set (lc_cameras (current_layout_of site cams h)) \<Longrightarrow> \<not> cl_pinned c \<and> cl_cameraId c \<in> set cams"
    and "i < length (shown_layout site cams h)" and "i \<noteq> j"
  shows "map fst (shown_layout site cams (fold (layout_step fractx site cams) [Drag_start i, Drag_over j, Drag_end] h)) =
    moved i j (map fst (shown_layout site cams h))"
proof -
  let ?l = "current_layout_of site cams h"
  let ?cs = "js_sort (\<lambda>a b. cl_order a < cl_order b) (lc_cameras ?l)"
  let ?new = "reindexed (moved i j ?cs)"
  have shown: "map fst (shown_layout site cams h) = map cl_cameraId ?cs"
    unfolding shown_layout_def by (rule unpinned_shown) (rule assms(1))
  have i: "i < length ?cs" using assms(2) arg_cong [OF shown, of length] by simp
  have layout: "current_layout_of site cams (fold (layout_step fractx site cams) [Drag_start i, Drag_over j, Drag_end] h) = ?l\<lparr>lc_cameras := ?new\<rparr>"
    using i assms(3)
    by (simp add: layout_onDragStart_def layout_onDragOver_def layout_onDragEnd_def current_layout_of_def updateLayout_def Let_def map_of_map_put nullish_def)
  have fields: "map (\<lambda>c. (cl_cameraId c, cl_pinned c)) ?new = map (\<lambda>c. (cl_cameraId c, cl_pinned c)) (moved i j ?cs)"
    by (rule map_reindexed) simp
  have members: "set (moved i j ?cs) = set (lc_cameras ?l)" using mset_moved [OF i, of j] by (metis mset_js_sort set_mset_mset)
  have "\<not> cl_pinned c \<and> cl_cameraId c \<in> set cams" if "c \<in> set ?new" for c
  proof -
    have "(cl_cameraId c, cl_pinned c) \<in> (\<lambda>c. (cl_cameraId c, cl_pinned c)) ` set (lc_cameras ?l)"
      using arg_cong [OF fields, of set] that members by auto
    then show ?thesis using assms(1) by auto
  qed
  then have "map fst (shown_layout site cams (fold (layout_step fractx site cams) [Drag_start i, Drag_over j, Drag_end] h)) =
      map cl_cameraId (js_sort (\<lambda>a b. cl_order a < cl_order b) ?new)"
    unfolding shown_layout_def layout by (intro unpinned_shown [of "?l\<lparr>lc_cameras := ?new\<rparr>", simplified]) simp
  also have "\<dots> = map cl_cameraId (moved i j ?cs)" by (simp add: js_sort_reindexed map_reindexed)
  also have "\<dots> = moved i j (map cl_cameraId ?cs)" using i by (rule map_moved)
  finally show ?thesis unfolding shown .
qed

theorem drag_moves_camera_witness:
  "map fst (shown_layout ''s'' [''a'', ''b'', ''c''] (fold (layout_step (\<lambda>_. []) ''s'' [''a'', ''b'', ''c'']) [Drag_start 0, Drag_over 2, Drag_end] (mount_layout Map.empty))) =
   [''b'', ''c'', ''a'']"
proof -
  have shown: "map fst (shown_layout ''s'' [''a'', ''b'', ''c''] (mount_layout Map.empty)) = [''a'', ''b'', ''c'']" by code_simp
  have cams: "lc_cameras (current_layout_of ''s'' [''a'', ''b'', ''c''] (mount_layout Map.empty)) = default_layout_items [''a'', ''b'', ''c'']"
    by (simp add: current_layout_of_def mount_layout_def loadLayouts_def nullish_def)
  have "map fst (shown_layout ''s'' [''a'', ''b'', ''c''] (fold (layout_step (\<lambda>_. []) ''s'' [''a'', ''b'', ''c'']) [Drag_start 0, Drag_over 2, Drag_end] (mount_layout Map.empty))) =
      moved 0 2 (map fst (shown_layout ''s'' [''a'', ''b'', ''c''] (mount_layout Map.empty)))"
  proof (rule drag_moves_camera)
    show "0 < length (shown_layout ''s'' [''a'', ''b'', ''c''] (mount_layout Map.empty))" by code_simp
  qed (auto simp: cams default_layout_items_def)
  then show ?thesis unfolding shown by (simp add: moved_def insert_at_def)
qed

text \<open>With a pinned camera the positions on screen are not the positions dragged: of c (pinned), a, b, dragging c onto the second
  place leaves c where it is and exchanges the other two.\<close>

lemma pinned_drag_moves_others:
  "let h = fold (layout_step (\<lambda>_. []) ''s'' [''a'', ''b'', ''c'']) [Toggle_pin ''c''] (mount_layout Map.empty) in
   map fst (shown_layout ''s'' [''a'', ''b'', ''c''] h) = [''c'', ''a'', ''b''] \<and>
   map fst (shown_layout ''s'' [''a'', ''b'', ''c''] (fold (layout_step (\<lambda>_. []) ''s'' [''a'', ''b'', ''c'']) [Drag_start 0, Drag_over 1, Drag_end] h)) = [''c'', ''b'', ''a'']"
  by code_simp

text \<open>A camera that joins the site after a layout was stored is not shown until the layout is reset.\<close>

lemma stored_layout_hides_new:
  assumes "map_of (lh_layouts h) site = Some l" "c \<notin> cl_cameraId ` set (lc_cameras l)"
  shows "c \<notin> fst ` set (shown_layout site cams h)"
  using assms by (auto simp: shown_layout_def orderedCameras_def current_layout_of_def nullish_def)

text \<open>A load ends in every case but one: a frame that does not decode as a picture leaves the editor loading.\<close>

lemma snapshot_ends:
  "sn_loaded (finish_snapshot c a (begin_snapshot c s)) \<longleftrightarrow>
   (case so_onvif a of Some (accepted, n, d) \<Rightarrow> accepted \<and> 0 < n | None \<Rightarrow> False) \<or>
   \<not> (so_minted a \<and> so_playlist_ok a \<and> so_frame a \<and> \<not> so_picture a)"
  by (auto simp: finish_snapshot_def begin_snapshot_def Let_def split: option.split)

text \<open>An answer for the camera before arrives late and its picture is drawn under the zones of the camera now chosen.\<close>

lemma late_snapshot_shown:
  assumes "so_onvif a = Some (True, n, True)" "0 < n"
  shows "sn_camera (finish_snapshot c1 a (finish_snapshot c2 b (begin_snapshot c2 (begin_snapshot c1 s)))) = c2 \<and>
    sn_img (finish_snapshot c1 a (finish_snapshot c2 b (begin_snapshot c2 (begin_snapshot c1 s)))) = Some c1"
  using assms by (simp add: finish_snapshot_def begin_snapshot_def Let_def split: option.split)

end
