(* ===== verification/Event_History.thy ===== *)
theory Event_History
  imports Settings_Page Nvr_Api Js_Date
begin

text \<open>
  Two lists of recorded events: the portal's history page (\<^verbatim>\<open>app/portal/history/page.tsx\<close>) as a machine whose requests
  can be answered in any order, and the export of the audit trail (\<^verbatim>\<open>components/admin/AuditLogExport.tsx\<close>) with a
  reader for its CSV. Shown: what the history shows once its requests are answered in order, what a late answer does, that
  every field of an entry is read back if its unquoted texts are plain, and which entries an export cannot hold. The conversion of local date inputs is left
  out, the server of the history page is a function of the request, and a list missing from its answer counts as empty.
\<close>

section \<open>The history page\<close>

definition HISTORY_EVENT_TYPES :: "string list" where
  "HISTORY_EVENT_TYPES = [''intrusion'', ''linecross'', ''human'', ''vehicle'', ''face'', ''loitering'', ''lpr'', ''object'', ''motion'']"

definition eventSeverity :: "string \<Rightarrow> string" where
  "eventSeverity t = (if t \<in> {''intrusion'', ''human'', ''face''} then ''HIGH''
     else if t \<in> {''vehicle'', ''linecross'', ''loitering'', ''lpr''} then ''MED'' else ''INFO'')"

record HistoryPage =
  hp_start :: string
  hp_end :: string
  hp_camera :: string
  hp_types :: "string list"
  hp_search :: string
  hp_events :: "json list"
  hp_more :: bool
  hp_authorized :: "string list option"
  hp_loading :: bool
  hp_waiting :: "SearchParams list"
  hp_results :: "json list option"
  hp_event :: "json option"
  hp_segment :: "json option"

definition history_params :: "HistoryPage \<Rightarrow> SearchParams" where
  "history_params s = \<lparr>sp_start = Some (hp_start s), sp_end = Some (hp_end s), sp_camera_id = (if hp_camera s = [] then None else Some (hp_camera s)),
     sp_types = (if hp_types s = [] then None else Some (hp_types s)), sp_search = (if hp_search s = [] then None else Some (hp_search s)),
     sp_limit = Some 100, sp_offset = None\<rparr>"

definition history_load :: "HistoryPage \<Rightarrow> HistoryPage" where
  "history_load s = s\<lparr>hp_loading := True, hp_waiting := hp_waiting s @ [history_params s]\<rparr>"

definition open_history :: "string \<Rightarrow> string \<Rightarrow> HistoryPage" where
  "open_history a b = history_load \<lparr>hp_start = a, hp_end = b, hp_camera = [], hp_types = [], hp_search = [], hp_events = [], hp_more = False,
     hp_authorized = None, hp_loading = False, hp_waiting = [], hp_results = None, hp_event = None, hp_segment = None\<rparr>"

definition events_of :: "json \<Rightarrow> json list" where
  "events_of resp = json_items (nullish (json_field ''events'' resp) JNull)"

definition answered :: "json \<Rightarrow> HistoryPage \<Rightarrow> HistoryPage" where
  "answered resp s = s\<lparr>hp_loading := False, hp_events := events_of resp, hp_more := (json_field ''has_more'' resp = Some (JBool True)),
     hp_authorized := (case json_field ''authorized_cameras'' resp of Some (JArr xs) \<Rightarrow> Some (str_items (Some (JArr xs))) | _ \<Rightarrow> None)\<rparr>"

text \<open>
  Range and types are new objects with every edit and load again; camera and search text only when they change. \<open>Answer n\<close>
  is the answer to the \<open>n\<close>-th request still waiting.
\<close>

datatype history_event = From_input string | To_input string | Camera_input string | Types_input "string list" | Search_input string
  | Answer nat | Semantic_found "json list" | Semantic_cleared | Pick_event json | Close_event | Pick_segment json | Close_segment

fun history_step :: "(SearchParams \<Rightarrow> json) \<Rightarrow> history_event \<Rightarrow> HistoryPage \<Rightarrow> HistoryPage" where
  "history_step srv (From_input v) s = history_load (s\<lparr>hp_start := v\<rparr>)"
| "history_step srv (To_input v) s = history_load (s\<lparr>hp_end := v\<rparr>)"
| "history_step srv (Camera_input v) s = (if hp_camera s = v then s else history_load (s\<lparr>hp_camera := v\<rparr>))"
| "history_step srv (Types_input v) s = history_load (s\<lparr>hp_types := v\<rparr>)"
| "history_step srv (Search_input v) s = (if hp_search s = v then s else history_load (s\<lparr>hp_search := v\<rparr>))"
| "history_step srv (Answer n) s =
     (if n < length (hp_waiting s)
      then answered (srv (hp_waiting s ! n)) (s\<lparr>hp_waiting := take n (hp_waiting s) @ drop (Suc n) (hp_waiting s)\<rparr>) else s)"
| "history_step srv (Semantic_found rs) s = s\<lparr>hp_results := Some rs, hp_event := None\<rparr>"
| "history_step srv Semantic_cleared s = s\<lparr>hp_results := None, hp_segment := None\<rparr>"
| "history_step srv (Pick_event e) s = s\<lparr>hp_event := Some e\<rparr>"
| "history_step srv Close_event s = s\<lparr>hp_event := None\<rparr>"
| "history_step srv Close_segment s = s\<lparr>hp_segment := None\<rparr>"
| "history_step srv (Pick_segment m) s = s\<lparr>hp_segment := Some m, hp_event := None\<rparr>"

definition cameraOptions :: "(id \<times> string) list \<Rightarrow> HistoryPage \<Rightarrow> (id \<times> string) list" where
  "cameraOptions cams s = (case hp_authorized s of None \<Rightarrow> cams | Some ids \<Rightarrow> filter (\<lambda>c. fst c \<in> set ids) cams)"

definition history_cameraName :: "(id \<times> string) list \<Rightarrow> id \<Rightarrow> string" where
  "history_cameraName cams i = nullish (map_of cams i) (take 8 i)"

definition semantic_query :: "string \<Rightarrow> HistoryPage \<Rightarrow> SemanticParams option" where
  "semantic_query q s = (if js_trim q = [] then None
     else Some \<lparr>sm_q = js_trim q, sm_start = Some (hp_start s), sm_end = Some (hp_end s),
       sm_camera_id = (if hp_camera s = [] then None else Some (hp_camera s)), sm_activity = None, sm_limit = Some 50, sm_offset = None\<rparr>)"

definition semantic_submit :: "string \<Rightarrow> HistoryPage \<Rightarrow> World \<Rightarrow> World \<times> HistoryPage" where
  "semantic_submit q s w = (case semantic_query q s of
     None \<Rightarrow> (w, s\<lparr>hp_results := None\<rparr>)
   | Some p \<Rightarrow> (case searchSemantic p w of
        (w', Inl _) \<Rightarrow> (w', s)
      | (w', Inr resp) \<Rightarrow> (w', s\<lparr>hp_results := Some (json_items (nullish (json_field ''results'' resp) JNull)), hp_event := None\<rparr>)))"

section \<open>The export of the audit trail\<close>

record AuditEntry =
  an_id :: nat
  an_user_id :: string
  an_username :: "string option"
  an_action :: string
  an_target_type :: string
  an_target_id :: string
  an_details :: string
  an_ip_address :: string
  an_created :: ms

record AuditExport =
  ax_entries :: "AuditEntry list"
  ax_days :: "int option"
  ax_action :: string
  ax_query :: string

text \<open>\<open>ax_days\<close> is \<open>None\<close> for "all"; the request asks for the newest thousand entries.\<close>

definition export_params :: AuditParams where
  "export_params = \<lparr>au_username = None, au_action = None, au_target_type = None, au_limit = Some 1000, au_offset = None\<rparr>"

definition filteredEntries :: "ms \<Rightarrow> AuditExport \<Rightarrow> AuditEntry list" where
  "filteredEntries now x = filter (\<lambda>e.
     (case ax_days x of None \<Rightarrow> True | Some d \<Rightarrow> now - an_created e < d * 86400000) \<and>
     (ax_action x = ''all'' \<or> an_action e = ax_action x) \<and>
     (ax_query x = [] \<or> (let q = to_lower (ax_query x) in
        list_ex (\<lambda>t. contains_str q (to_lower t)) [an_details e, nullish (an_username e) [], an_action e, an_target_type e, an_target_id e]))) (ax_entries x)"

definition uniqueActions :: "AuditEntry list \<Rightarrow> string list" where
  "uniqueActions es = js_sort text_less (js_set (map an_action es))"

definition csv_esc :: "string \<Rightarrow> string" where
  "csv_esc v = quote # concat (map (\<lambda>c. if c = quote then [quote, quote] else [c]) v) @ [quote]"

definition AUDIT_HEADERS :: "string list" where
  "AUDIT_HEADERS = [''Timestamp'', ''ID'', ''Action'', ''User'', ''TargetType'', ''TargetID'', ''Details'', ''IP'']"

definition audit_row :: "AuditEntry \<Rightarrow> string list" where
  "audit_row e = [toISOString (an_created e), nat_str (an_id e), an_action e, csv_esc (nullish (an_username e) (an_user_id e)), an_target_type e,
     csv_esc (an_target_id e), csv_esc (an_details e), an_ip_address e]"

definition audit_csv :: "AuditEntry list \<Rightarrow> string" where
  "audit_csv es = join [CHR 0x0A] (join '','' AUDIT_HEADERS # map (\<lambda>e. join '','' (audit_row e)) es)"

section \<open>A reader of quoted CSV\<close>

datatype csv_state = Csv_open | Csv_quoted | Csv_closing

text \<open>\<open>c\<close> is the cell read so far, \<open>r\<close> the cells of the row before it; two quotes inside a quoted cell are one.\<close>

fun csv_read :: "csv_state \<Rightarrow> string \<Rightarrow> string list \<Rightarrow> string \<Rightarrow> string list list" where
  "csv_read st c r [] = [r @ [c]]"
| "csv_read st c r (x # xs) =
     (if st = Csv_quoted then (if x = quote then csv_read Csv_closing c r xs else csv_read Csv_quoted (c @ [x]) r xs)
      else if x = quote then csv_read Csv_quoted (if st = Csv_closing then c @ [quote] else c) r xs
      else if x = CHR '','' then csv_read Csv_open [] (r @ [c]) xs
      else if x = CHR 0x0A then (r @ [c]) # csv_read Csv_open [] [] xs
      else csv_read Csv_open (c @ [x]) r xs)"

definition plain_field :: "string \<Rightarrow> bool" where
  "plain_field v \<longleftrightarrow> quote \<notin> set v \<and> CHR '','' \<notin> set v \<and> CHR 0x0A \<notin> set v"

text \<open>A cell as written, and the text it stands for.\<close>

definition csv_written :: "string \<Rightarrow> string \<Rightarrow> bool" where
  "csv_written t v \<longleftrightarrow> t = csv_esc v \<or> t = v \<and> plain_field v"

lemma csv_read_plain: "plain_field v \<Longrightarrow> csv_read Csv_open c r (v @ xs) = csv_read Csv_open (c @ v) r xs"
  by (induction v arbitrary: c) (auto simp: plain_field_def)

lemma csv_read_escaped:
  "csv_read Csv_quoted c r (concat (map (\<lambda>x. if x = quote then [quote, quote] else [x]) v) @ quote # xs) = csv_read Csv_closing (c @ v) r xs"
  by (induction v arbitrary: c) auto

lemma csv_read_written:
  assumes "csv_written t v"
  obtains st where "st \<noteq> Csv_quoted" "\<And>xs. csv_read Csv_open [] r (t @ xs) = csv_read st v r xs"
proof (cases "t = csv_esc v")
  case True
  then show ?thesis using csv_read_escaped [of "[]" r v] by (intro that [of Csv_closing]) (auto simp: csv_esc_def)
next
  case False
  with assms show ?thesis using csv_read_plain [of v "[]" r] by (intro that [of Csv_open]) (auto simp: csv_written_def)
qed

lemma csv_read_row:
  assumes "list_all2 csv_written ts vs" "ts \<noteq> []"
  shows "csv_read Csv_open [] r (join '','' ts) = [r @ vs] \<and>
    csv_read Csv_open [] r (join '','' ts @ CHR 0x0A # xs) = (r @ vs) # csv_read Csv_open [] [] xs"
  using assms
proof (induction ts vs arbitrary: r rule: list_all2_induct)
  case (Cons t ts v vs)
  from \<open>csv_written t v\<close> obtain st where st: "st \<noteq> Csv_quoted" "\<And>xs. csv_read Csv_open [] r (t @ xs) = csv_read st v r xs"
    by (rule csv_read_written) blast
  show ?case
  proof (cases ts)
    case Nil
    then show ?thesis using Cons.hyps st(1) st(2) [of "[]"] st(2) [of "CHR 0x0A # xs"] by simp
  next
    case (Cons t' ts')
    then have "join '','' (t # ts) = t @ CHR '','' # join '','' ts" by simp
    then show ?thesis using Cons Cons.IH [of "r @ [v]"] st(1) by (simp add: st(2))
  qed
qed simp

lemma csv_read_rows:
  assumes "list_all2 (list_all2 csv_written) tss vss" "tss \<noteq> []" "\<forall>ts\<in>set tss. ts \<noteq> []"
  shows "csv_read Csv_open [] [] (join [CHR 0x0A] (map (join '','') tss)) = vss"
  using assms
proof (induction tss vss rule: list_all2_induct)
  case (Cons ts tss vs vss)
  show ?case
  proof (cases tss)
    case Nil
    then show ?thesis using Cons.hyps Cons.prems csv_read_row [of ts vs "[]"] by simp
  next
    case (Cons ts' tss')
    then show ?thesis using Cons.hyps Cons.prems Cons.IH csv_read_row [of ts vs "[]"] by simp
  qed
qed simp

lemma pad_start_chars: "x \<in> set (pad_start n z s) \<Longrightarrow> x = z \<or> x \<in> set s"
  by (auto simp: pad_start_def)

lemma int_str_chars: "x \<in> set (int_str n) \<Longrightarrow> is_digit x \<or> x = CHR ''-''"
  by (auto simp: int_str_def nat_str_digits split: if_splits)

lemma digit_plain: "is_digit x \<Longrightarrow> x \<noteq> quote \<and> x \<noteq> CHR '','' \<and> x \<noteq> CHR 0x0A"
  by (auto simp: is_digit_def)

lemma iso_plain: "plain_field (toISOString t)"
proof -
  have pad: "plain_field (pad_start n (CHR ''0'') (int_str k))" for n k
    using pad_start_chars [of _ n "CHR ''0''" "int_str k"] int_str_chars [of _ k] digit_plain
    by (force simp: plain_field_def)
  have app: "plain_field (a @ b) \<longleftrightarrow> plain_field a \<and> plain_field b" for a b by (auto simp: plain_field_def)
  obtain y m d where ymd: "civil_of_days (t div 86400000) = (y, m, d)" using prod_cases3 by blast
  have seps: "plain_field ''-''" "plain_field ''T''" "plain_field '':''" "plain_field ''.''" "plain_field ''Z''"
    by (simp_all add: plain_field_def)
  show ?thesis unfolding toISOString_def Let_def ymd prod.case by (simp only: app pad seps simp_thms)
qed

lemma nat_str_plain: "plain_field (nat_str n)"
  using nat_str_digits [of _ n] digit_plain by (force simp: plain_field_def)

text \<open>The texts the cells of a row stand for.\<close>

definition audit_values :: "AuditEntry \<Rightarrow> string list" where
  "audit_values e = [toISOString (an_created e), nat_str (an_id e), an_action e, nullish (an_username e) (an_user_id e), an_target_type e,
     an_target_id e, an_details e, an_ip_address e]"

definition plain_entry :: "AuditEntry \<Rightarrow> bool" where
  "plain_entry e \<longleftrightarrow> plain_field (an_action e) \<and> plain_field (an_target_type e) \<and> plain_field (an_ip_address e)"

lemma audit_row_written: "plain_entry e \<Longrightarrow> list_all2 csv_written (audit_row e) (audit_values e)"
  by (simp add: audit_row_def audit_values_def csv_written_def plain_entry_def iso_plain nat_str_plain)

lemma headers_written: "list_all2 csv_written AUDIT_HEADERS AUDIT_HEADERS"
  by (simp add: AUDIT_HEADERS_def csv_written_def plain_field_def)

text \<open>C33: An export of audit entries whose action, target type and address, the three texts written without quotes, hold no comma, quote
  or line break loses nothing: a CSV reader gets back the header and the eight fields of every entry, whatever users, targets and
  details contain.\<close>

theorem audit_export_round_trip:
  assumes "\<forall>e\<in>set es. plain_entry e"
  shows "csv_read Csv_open [] [] (audit_csv es) = AUDIT_HEADERS # map audit_values es"
proof -
  let ?tss = "AUDIT_HEADERS # map audit_row es"
  have written: "list_all2 (list_all2 csv_written) ?tss (AUDIT_HEADERS # map audit_values es)"
    using assms by (simp add: headers_written list_all2_map1 list_all2_map2 audit_row_written list.rel_refl_strong)
  have cells: "\<forall>ts\<in>set ?tss. ts \<noteq> []" by (simp add: AUDIT_HEADERS_def audit_row_def)
  have "audit_csv es = join [CHR 0x0A] (map (join '','') ?tss)" by (simp add: audit_csv_def comp_def)
  then show ?thesis using csv_read_rows [OF written _ cells] by (simp del: join.simps)
qed

definition fixture_entry :: AuditEntry where
  "fixture_entry = \<lparr>an_id = 7, an_user_id = ''u-1'', an_username = Some ''root'', an_action = ''site_create'', an_target_type = ''site'',
     an_target_id = ''ACG-101'', an_details = ''named '' @ [quote] @ ''North, yard'' @ [quote], an_ip_address = ''10.0.0.7'', an_created = 0\<rparr>"

theorem audit_export_round_trip_witness:
  "csv_read Csv_open [] [] (audit_csv [fixture_entry]) = [AUDIT_HEADERS, audit_values fixture_entry]"
proof -
  have "\<forall>e\<in>set [fixture_entry]. plain_entry e" by code_simp
  from audit_export_round_trip [OF this] show ?thesis by simp
qed

text \<open>A comma in an unquoted cell shifts the rest of its row.\<close>

lemma comma_shifts_entry:
  "csv_read Csv_open [] [] (join '','' (audit_row (fixture_entry\<lparr>an_action := ''a,b''\<rparr>)))
     = [[''1970-01-01T00:00:00.000Z'', ''7'', ''a'', ''b'', ''root'', ''site'', ''ACG-101'', an_details fixture_entry, ''10.0.0.7'']]"
  by code_simp

text \<open>
  The export works on the newest thousand entries only, whatever range is chosen: what the server has beyond them is in no
  file, without a notice.
\<close>

lemma export_newest_thousand:
  "json_items (nullish (json_field ''entries'' (HandleQueryAuditLog like rows export_params)) JNull) = take 1000 rows"
  by (simp add: HandleQueryAuditLog_def QueryAuditLog_def export_params_def json_field_def json_items_def)

lemma exported_are_loaded: "set (filteredEntries t x) \<subseteq> set (ax_entries x)"
  by (auto simp: filteredEntries_def)

section \<open>What the history shows\<close>

text \<open>The newest request waiting, if any, is that of the filters on screen; otherwise their answer is shown.\<close>

definition history_settled :: "(SearchParams \<Rightarrow> json) \<Rightarrow> HistoryPage \<Rightarrow> bool" where
  "history_settled srv s \<longleftrightarrow>
     (if hp_waiting s = [] then hp_events s = events_of (srv (history_params s)) else List.last (hp_waiting s) = history_params s)"

fun in_order :: "history_event \<Rightarrow> bool" where
  "in_order (Answer n) \<longleftrightarrow> n = 0"
| "in_order _ \<longleftrightarrow> True"

lemma history_load_settled: "history_settled srv (history_load s)"
  by (simp add: history_settled_def history_load_def history_params_def)

lemma same_history:
  assumes "history_settled srv s" "hp_waiting t = hp_waiting s" "hp_events t = hp_events s" "history_params t = history_params s"
  shows "history_settled srv t"
  using assms by (simp add: history_settled_def)

lemma history_step_settled: "in_order e \<Longrightarrow> history_settled srv s \<Longrightarrow> history_settled srv (history_step srv e s)"
proof (cases e)
  case (Answer n)
  assume "in_order e" "history_settled srv s"
  with Answer show ?thesis
    by (cases "hp_waiting s") (auto simp: history_settled_def answered_def history_params_def)
qed (auto simp: history_load_settled simp: history_params_def intro: same_history)

lemma history_run_settled:
  "\<forall>e\<in>set es. in_order e \<Longrightarrow> history_settled srv s \<Longrightarrow> history_settled srv (fold (history_step srv) es s)"
  by (induction es arbitrary: s) (simp_all add: history_step_settled)

text \<open>After any use of the history page whose requests were answered in the order they were sent, once nothing is outstanding the
  list shows the server's events for the range, camera, types and text on screen.\<close>

theorem history_shows_filters:
  assumes "\<forall>e\<in>set es. in_order e" "hp_waiting (fold (history_step srv) es (open_history a b)) = []"
  shows "hp_events (fold (history_step srv) es (open_history a b))
    = events_of (srv (history_params (fold (history_step srv) es (open_history a b))))"
proof -
  have "history_settled srv (fold (history_step srv) es (open_history a b))"
    by (rule history_run_settled [OF assms(1)]) (simp add: open_history_def history_load_settled)
  with assms(2) show ?thesis by (simp add: history_settled_def)
qed

definition fixture_history :: "SearchParams \<Rightarrow> json" where
  "fixture_history p = JObj [(''events'', JArr [JStr (nullish (sp_camera_id p) ''any'')])]"

abbreviation camera_picked :: "history_event list" where
  "camera_picked \<equiv> [Camera_input ''cam-1'', Answer 0, Answer 0]"

theorem history_shows_filters_witness:
  "hp_events (fold (history_step fixture_history) camera_picked (open_history ''a'' ''b'')) = [JStr ''cam-1'']"
proof -
  have "\<forall>e\<in>set camera_picked. in_order e" by simp
  moreover have "hp_waiting (fold (history_step fixture_history) camera_picked (open_history ''a'' ''b'')) = []"
    by (simp add: open_history_def history_load_def answered_def)
  ultimately have "hp_events (fold (history_step fixture_history) camera_picked (open_history ''a'' ''b''))
      = events_of (fixture_history (history_params (fold (history_step fixture_history) camera_picked (open_history ''a'' ''b''))))"
    by (rule history_shows_filters)
  also have "\<dots> = [JStr ''cam-1'']"
    by (simp add: open_history_def history_load_def answered_def history_params_def fixture_history_def events_of_def json_field_def json_items_def)
  finally show ?thesis .
qed

text \<open>An answer that comes late is shown all the same: here the events of every camera under the choice of one.\<close>

lemma late_history_answer:
  "hp_camera s = ''cam-1'' \<and> hp_waiting s = [] \<and> hp_events s = [JStr ''any'']"
  if "s = fold (history_step fixture_history) [Camera_input ''cam-1'', Answer 1, Answer 0] (open_history ''a'' ''b'')"
  unfolding that by (simp add: open_history_def history_load_def answered_def history_params_def fixture_history_def events_of_def json_field_def json_items_def)

text \<open>The first answer of several takes the page out of its loading state.\<close>

lemma loading_ends_early:
  "\<not> hp_loading s \<and> hp_waiting s \<noteq> []"
  if "s = fold (history_step fixture_history) [Camera_input ''cam-1'', Answer 0] (open_history ''a'' ''b'')"
  unfolding that by (simp add: open_history_def history_load_def answered_def)

text \<open>A free-text search gives up the list of events: its matches stand instead of them until it is cleared, and a changed range
  or camera does not search again.\<close>

lemma semantic_results_kept:
  assumes "e \<in> {From_input v, To_input v, Camera_input v, Types_input ts, Search_input v, Answer n}"
  shows "hp_results (history_step srv e s) = hp_results s"
  using assms by (auto simp: history_load_def answered_def)

end
