(* ===== verification/Requests.thy ===== *)
theory Requests
  imports Prelude
begin

text \<open>
  Requests under way: machines that keep them in a list and let the environment answer any of them. How one ends, and the
  removal of the answered one.
\<close>

text \<open>Served, refused with a text, or lost in the network, with or without its effect on the server.\<close>

datatype task_end = Served | Refused_with string | Lost_request bool

definition drop_nth :: "nat \<Rightarrow> 'a list \<Rightarrow> 'a list" where
  "drop_nth n xs = take n xs @ drop (Suc n) xs"

lemma drop_nth_single [simp]: "drop_nth 0 [x] = []"
  by (simp add: drop_nth_def)

lemma set_drop_nth: "x \<in> set (drop_nth n xs) \<Longrightarrow> x \<in> set xs"
  by (auto simp: drop_nth_def dest: in_set_takeD in_set_dropD)

lemma drop_nth_distinct:
  assumes "distinct (map fst xs)" "n < length xs"
  shows "fst (xs ! n) \<notin> fst ` set (drop_nth n xs)" "distinct (map fst (drop_nth n xs))"
proof -
  have "xs = take n xs @ xs ! n # drop (Suc n) xs" using assms(2) by (simp add: id_take_nth_drop)
  then have "map fst xs = map fst (take n xs) @ fst (xs ! n) # map fst (drop (Suc n) xs)" by (metis list.simps(9) map_append)
  then have d: "distinct (map fst (take n xs) @ fst (xs ! n) # map fst (drop (Suc n) xs))" using assms(1) by simp
  then show "fst (xs ! n) \<notin> fst ` set (drop_nth n xs)"
    unfolding drop_nth_def by (simp only: distinct_append set_map set_append image_Un distinct.simps list.set) blast
  show "distinct (map fst (drop_nth n xs))"
    using d unfolding drop_nth_def by (simp only: map_append distinct_append distinct.simps list.set) blast
qed

end
