(* ===== verification/Labeling.thy ===== *)
theory Labeling
  imports Json Requests
begin

text \<open>
  The labeling queue: the annotator's page (\<^verbatim>\<open>app/admin/labeling/page.tsx\<close>) as a machine whose requests stay under way until the
  environment answers them, over the queue of the server (\<^verbatim>\<open>internal/database/vlm_labels.go\<close>, \<^verbatim>\<open>internal/api/labeling.go\<close>). Shown: no
  job is handed out twice, whoever asks; an annotator who waits for answers, all of which come, leaves no claimed job behind, and what
  leaves one behind; which exported answers are valid JSON. The statistics request that ends a claim changes nothing else
  and is not a step of its own; a list of jobs is answered at once. A request acts on the server when it is answered.
\<close>

section \<open>The queue of the server\<close>

datatype LabelStatus = Lj_pending | Lj_claimed | Lj_labeled | Lj_skipped

record LabelJob =
  lj_id :: nat
  lj_alarm_id :: string
  lj_snapshot_url :: string
  lj_description :: string
  lj_threat :: string
  lj_status :: LabelStatus
  lj_claimed_by :: "id option"

record VLMLabel =
  vl_job_id :: nat
  vl_annotator :: id
  vl_verdict :: string
  vl_description :: string
  vl_threat :: string
  vl_tags :: "string list"
  vl_notes :: string

text \<open>Jobs and labels oldest first; \<open>ld_seq\<close> is the next number of the sequence.\<close>

record LabelDb =
  ld_jobs :: "LabelJob list"
  ld_labels :: "VLMLabel list"
  ld_seq :: nat

definition EnqueueLabelJob :: "string \<Rightarrow> string \<Rightarrow> string \<Rightarrow> string \<Rightarrow> LabelDb \<Rightarrow> LabelDb" where
  "EnqueueLabelJob alarm url desc threat db =
     (if \<exists>j\<in>set (ld_jobs db). lj_alarm_id j = alarm then db\<lparr>ld_seq := Suc (ld_seq db)\<rparr>
      else db\<lparr>ld_jobs := ld_jobs db @ [\<lparr>lj_id = ld_seq db, lj_alarm_id = alarm, lj_snapshot_url = url, lj_description = desc,
          lj_threat = threat, lj_status = Lj_pending, lj_claimed_by = None\<rparr>], ld_seq := Suc (ld_seq db)\<rparr>)"

definition update_jobs :: "(LabelJob \<Rightarrow> bool) \<Rightarrow> (LabelJob \<Rightarrow> LabelJob) \<Rightarrow> LabelDb \<Rightarrow> LabelDb" where
  "update_jobs P f db = db\<lparr>ld_jobs := map (\<lambda>j. if P j then f j else j) (ld_jobs db)\<rparr>"

definition claimed_for :: "id \<Rightarrow> LabelJob \<Rightarrow> LabelJob" where
  "claimed_for u j = j\<lparr>lj_status := Lj_claimed, lj_claimed_by := Some u\<rparr>"

definition ClaimLabelJob :: "nat \<Rightarrow> id \<Rightarrow> LabelDb \<Rightarrow> LabelDb \<times> LabelJob option" where
  "ClaimLabelJob i u db =
     (case List.find (\<lambda>j. lj_id j = i \<and> lj_status j = Lj_pending) (ld_jobs db) of
        None \<Rightarrow> (db, None)
      | Some j \<Rightarrow> (update_jobs (\<lambda>k. lj_id k = i) (claimed_for u) db, Some (claimed_for u j)))"

definition NextPendingLabelJob :: "id \<Rightarrow> LabelDb \<Rightarrow> LabelDb \<times> LabelJob option" where
  "NextPendingLabelJob u db =
     (case List.find (\<lambda>j. lj_status j = Lj_pending) (ld_jobs db) of
        None \<Rightarrow> (db, None)
      | Some j \<Rightarrow> (update_jobs (\<lambda>k. lj_id k = lj_id j) (claimed_for u) db, Some (claimed_for u j)))"

datatype LabelBody = Skip_body | Label_body string string string "string list" string

definition VERDICTS :: "string list" where
  "VERDICTS = [''correct'', ''incorrect'', ''needs_correction'']"

text \<open>The label refers to an existing job; the job is updated only where this annotator has claimed it.\<close>

definition settle_job :: "LabelStatus \<Rightarrow> nat \<Rightarrow> id \<Rightarrow> LabelDb \<Rightarrow> LabelDb" where
  "settle_job st i u db = update_jobs (\<lambda>j. lj_id j = i \<and> lj_claimed_by j = Some u) (\<lambda>j. j\<lparr>lj_status := st\<rparr>) db"

definition SubmitLabel :: "nat \<Rightarrow> id \<Rightarrow> LabelBody \<Rightarrow> LabelDb \<Rightarrow> string + LabelDb" where
  "SubmitLabel i u b db =
     (case b of
        Skip_body \<Rightarrow> Inr (settle_job Lj_skipped i u db)
      | Label_body verdict desc threat tags notes \<Rightarrow>
          (if verdict = [] then Inl ''verdict required''
           else if verdict \<notin> set VERDICTS then Inl (''invalid verdict '' @ quote_str verdict)
           else if i \<notin> lj_id ` set (ld_jobs db) then Inl ''insert label''
           else Inr (settle_job Lj_labeled i u (db\<lparr>ld_labels := ld_labels db @ [\<lparr>vl_job_id = i, vl_annotator = u, vl_verdict = verdict,
             vl_description = desc, vl_threat = threat, vl_tags = tags, vl_notes = notes\<rparr>]\<rparr>))))"

definition ListLabelJobs :: "LabelStatus option \<Rightarrow> int \<Rightarrow> LabelDb \<Rightarrow> LabelJob list" where
  "ListLabelJobs st limit db =
     take (nat (if limit \<le> 0 \<or> 200 < limit then 50 else limit)) (rev (filter (\<lambda>j. st = None \<or> st = Some (lj_status j)) (ld_jobs db)))"

record LabelingStats =
  lt_pending :: nat
  lt_claimed :: nat
  lt_labeled :: nat
  lt_skipped :: nat
  lt_total :: nat
  lt_correct :: nat
  lt_incorrect :: nat
  lt_needs_correction :: nat

definition GetLabelingStats :: "LabelDb \<Rightarrow> LabelingStats" where
  "GetLabelingStats db =
     (let jobs = (\<lambda>st. length (filter (\<lambda>j. lj_status j = st) (ld_jobs db))); labels = (\<lambda>v. length (filter (\<lambda>l. vl_verdict l = v) (ld_labels db))) in
      \<lparr>lt_pending = jobs Lj_pending, lt_claimed = jobs Lj_claimed, lt_labeled = jobs Lj_labeled, lt_skipped = jobs Lj_skipped,
       lt_total = length (ld_jobs db), lt_correct = labels ''correct'', lt_incorrect = labels ''incorrect'', lt_needs_correction = labels ''needs_correction''\<rparr>)"

section \<open>The exported data set\<close>

definition escape_quotes :: "string \<Rightarrow> string" where
  "escape_quotes t = concat (map (\<lambda>c. if c = quote then [backslash, quote] else [c]) t)"

definition assistant_content :: "string \<Rightarrow> string \<Rightarrow> string" where
  "assistant_content desc threat = ''{'' @ quote_str ''description'' @ '':'' @ [quote] @ escape_quotes desc @ [quote] @ '','' @ quote_str ''threat_level'' @ '':'' @
     [quote] @ threat @ [quote] @ '','' @ quote_str ''recommended_action'' @ '':'' @ quote_str ''Monitor and document.'' @ ''}''"

definition user_content :: "string list \<Rightarrow> string" where
  "user_content tags = ''<image>'' @ [CHR 0x0A] @ ''Analyze this security camera frame. Site context: surveillance footage.'' @
     (if tags \<noteq> [] then '' Tags: '' @ join '', '' tags @ ''.'' else [])"

definition final_description :: "LabelJob \<Rightarrow> VLMLabel \<Rightarrow> string" where
  "final_description j l = (if vl_description l \<noteq> [] then vl_description l else lj_description j)"

definition final_threat :: "LabelJob \<Rightarrow> VLMLabel \<Rightarrow> string" where
  "final_threat j l = (if vl_threat l \<noteq> [] then vl_threat l else lj_threat j)"

definition export_entry :: "LabelJob \<Rightarrow> VLMLabel \<Rightarrow> json" where
  "export_entry j l =
     (let message = (\<lambda>role text. JObj [(''content'', JStr text), (''role'', JStr role)]) in
      JObj [(''messages'', JArr
              [message ''system'' ''You are a security camera analyst. Describe what you observe in the image, assess the threat level, and recommend an action.'',
               message ''user'' (user_content (vl_tags l)), message ''assistant'' (assistant_content (final_description j l) (final_threat j l))]),
            (''metadata'', JObj [(''snapshot_url'', JStr (lj_snapshot_url j)), (''verdict'', JStr (vl_verdict l))])])"

text \<open>One line for each label of a labeled job, newest first.\<close>

definition exported :: "string \<Rightarrow> LabelDb \<Rightarrow> (LabelJob \<times> VLMLabel) list" where
  "exported verdict db =
     concat (map (\<lambda>l. map (\<lambda>j. (j, l)) (filter (\<lambda>j. lj_id j = vl_job_id l \<and> lj_status j = Lj_labeled) (ld_jobs db)))
       (rev (filter (\<lambda>l. verdict = [] \<or> verdict = ''all'' \<or> vl_verdict l = verdict) (ld_labels db))))"

definition ExportLabeledDataset :: "string \<Rightarrow> LabelDb \<Rightarrow> json list" where
  "ExportLabeledDataset verdict db = map (\<lambda>(j, l). export_entry j l) (exported verdict db)"

section \<open>The annotator's page\<close>

record LabelForm =
  fm_verdict :: string
  fm_desc :: string
  fm_threat :: string
  fm_tags :: "string list"
  fm_notes :: string
  fm_custom :: string

definition empty_form :: LabelForm where
  "empty_form = \<lparr>fm_verdict = [], fm_desc = [], fm_threat = [], fm_tags = [], fm_notes = [], fm_custom = []\<rparr>"

text \<open>Requests under way: a label sent, or a claim; the claim that follows a label ends the saving state.\<close>

datatype label_task = Submitting nat LabelBody | Claiming bool

record LabelPage =
  lp_job :: "LabelJob option"
  lp_empty :: bool
  lp_loading :: bool
  lp_saving :: bool
  lp_msg :: "string option"
  lp_form :: LabelForm
  lp_showQueue :: bool
  lp_queue :: "LabelJob list"
  lp_queueStatus :: LabelStatus
  lp_tasks :: "label_task list"

record LabelWorld =
  lw_page :: LabelPage
  lw_db :: LabelDb

definition resetForm :: "LabelPage \<Rightarrow> LabelPage" where
  "resetForm p = p\<lparr>lp_form := empty_form, lp_msg := None\<rparr>"

definition claimNext :: "bool \<Rightarrow> LabelPage \<Rightarrow> LabelPage" where
  "claimNext saving p = (resetForm p)\<lparr>lp_loading := True, lp_tasks := lp_tasks p @ [Claiming saving]\<rparr>"

definition open_labeling :: "LabelDb \<Rightarrow> LabelWorld" where
  "open_labeling db = \<lparr>lw_page = claimNext False \<lparr>lp_job = None, lp_empty = False, lp_loading = False, lp_saving = False, lp_msg = None,
     lp_form = empty_form, lp_showQueue = False, lp_queue = [], lp_queueStatus = Lj_pending, lp_tasks = []\<rparr>, lw_db = db\<rparr>"

definition label_body :: "bool \<Rightarrow> LabelForm \<Rightarrow> LabelBody" where
  "label_body skipIt f = (if skipIt then Skip_body else Label_body (fm_verdict f) (fm_desc f) (fm_threat f) (fm_tags f) (fm_notes f))"

definition submitLabel :: "bool \<Rightarrow> LabelPage \<Rightarrow> LabelPage" where
  "submitLabel skipIt p =
     (case lp_job p of
        None \<Rightarrow> p
      | Some j \<Rightarrow>
          (if \<not> skipIt \<and> fm_verdict (lp_form p) = [] then p\<lparr>lp_msg := Some ''Select a verdict before saving.''\<rparr>
           else p\<lparr>lp_saving := True, lp_tasks := lp_tasks p @ [Submitting (lj_id j) (label_body skipIt (lp_form p))]\<rparr>))"

definition edit_form :: "(LabelForm \<Rightarrow> LabelForm) \<Rightarrow> LabelPage \<Rightarrow> LabelPage" where
  "edit_form f p = p\<lparr>lp_form := f (lp_form p)\<rparr>"

definition toggleTag :: "string \<Rightarrow> LabelForm \<Rightarrow> LabelForm" where
  "toggleTag t f = f\<lparr>fm_tags := if t \<in> set (fm_tags f) then filter (\<lambda>x. x \<noteq> t) (fm_tags f) else fm_tags f @ [t]\<rparr>"

text \<open>\<^verbatim>\<open>replace(/\s+/g, '_')\<close>: every run of white space becomes one underscore.\<close>

fun underscores :: "bool \<Rightarrow> string \<Rightarrow> string" where
  "underscores inside [] = []"
| "underscores inside (c # t) =
     (if is_ws c then (if inside then underscores True t else CHR ''_'' # underscores True t) else c # underscores False t)"

definition addCustomTag :: "LabelForm \<Rightarrow> LabelForm" where
  "addCustomTag f =
     (let t = underscores False (to_lower (js_trim (fm_custom f))) in
      f\<lparr>fm_tags := if t \<noteq> [] \<and> t \<notin> set (fm_tags f) then fm_tags f @ [t] else fm_tags f, fm_custom := []\<rparr>)"

definition loadQueue :: "LabelStatus \<Rightarrow> LabelWorld \<Rightarrow> LabelWorld" where
  "loadQueue st w = w\<lparr>lw_page := (lw_page w)\<lparr>lp_queue := ListLabelJobs (Some st) 100 (lw_db w)\<rparr>\<rparr>"

definition without_task :: "nat \<Rightarrow> LabelPage \<Rightarrow> LabelPage" where
  "without_task n p = p\<lparr>lp_tasks := drop_nth n (lp_tasks p)\<rparr>"

definition submit_failed :: "string \<Rightarrow> LabelPage \<Rightarrow> LabelPage" where
  "submit_failed t p = p\<lparr>lp_msg := Some t, lp_saving := False\<rparr>"

definition submit_ended :: "id \<Rightarrow> nat \<Rightarrow> LabelBody \<Rightarrow> task_end \<Rightarrow> LabelWorld \<Rightarrow> LabelWorld" where
  "submit_ended me i b r w =
     (case r of
        Served \<Rightarrow> (case SubmitLabel i me b (lw_db w) of
          Inl e \<Rightarrow> w\<lparr>lw_page := submit_failed (e @ [CHR 0x0A]) (lw_page w)\<rparr>
        | Inr db \<Rightarrow> \<lparr>lw_page = claimNext True (lw_page w), lw_db = db\<rparr>)
      | Refused_with t \<Rightarrow> w\<lparr>lw_page := submit_failed t (lw_page w)\<rparr>
      | Lost_request done_there \<Rightarrow>
          \<lparr>lw_page = submit_failed ''Failed to fetch'' (lw_page w),
           lw_db = (if done_there then (case SubmitLabel i me b (lw_db w) of Inl _ \<Rightarrow> lw_db w | Inr db \<Rightarrow> db) else lw_db w)\<rparr>)"

definition claim_done :: "bool \<Rightarrow> LabelPage \<Rightarrow> LabelPage" where
  "claim_done saving p = p\<lparr>lp_loading := False, lp_saving := (if saving then False else lp_saving p)\<rparr>"

definition claim_ended :: "id \<Rightarrow> bool \<Rightarrow> task_end \<Rightarrow> LabelWorld \<Rightarrow> LabelWorld" where
  "claim_ended me saving r w =
     (let failed = claim_done saving ((lw_page w)\<lparr>lp_msg := Some ''Failed to fetch next job.''\<rparr>) in
      case r of
        Served \<Rightarrow> (case NextPendingLabelJob me (lw_db w) of
          (db, None) \<Rightarrow> \<lparr>lw_page = claim_done saving ((lw_page w)\<lparr>lp_job := None, lp_empty := True\<rparr>), lw_db = db\<rparr>
        | (db, Some j) \<Rightarrow> \<lparr>lw_page = claim_done saving ((lw_page w)\<lparr>lp_job := Some j, lp_empty := False\<rparr>), lw_db = db\<rparr>)
      | Refused_with t \<Rightarrow> w\<lparr>lw_page := failed\<rparr>
      | Lost_request done_there \<Rightarrow> \<lparr>lw_page = failed, lw_db = (if done_there then fst (NextPendingLabelJob me (lw_db w)) else lw_db w)\<rparr>)"

definition task_ended :: "id \<Rightarrow> nat \<Rightarrow> task_end \<Rightarrow> LabelWorld \<Rightarrow> LabelWorld" where
  "task_ended me n r w =
     (if n < length (lp_tasks (lw_page w))
      then let w' = w\<lparr>lw_page := without_task n (lw_page w)\<rparr> in
        (case lp_tasks (lw_page w) ! n of Submitting i b \<Rightarrow> submit_ended me i b r w' | Claiming saving \<Rightarrow> claim_ended me saving r w')
      else w)"

text \<open>
  The form and its buttons are drawn for a job while nothing loads; the keys work always. Enter waits for a save under way,
  S does not. A job picked from the list is shown, without a claim.
\<close>

datatype label_event = Verdict string | Corrected_text string | Corrected_threat string | Tag string | Custom_text string | Add_tag | Notes_text string
  | Key_enter | Key_s | Press_save | Press_skip | Press_start | Press_queue | Queue_of LabelStatus | Pick_job nat | Task_ended nat task_end

definition on_page :: "(LabelPage \<Rightarrow> LabelPage) \<Rightarrow> LabelWorld \<Rightarrow> LabelWorld" where
  "on_page f w = w\<lparr>lw_page := f (lw_page w)\<rparr>"

definition form_shown :: "LabelPage \<Rightarrow> bool" where
  "form_shown p \<longleftrightarrow> lp_job p \<noteq> None \<and> \<not> lp_loading p"

fun label_step :: "id \<Rightarrow> label_event \<Rightarrow> LabelWorld \<Rightarrow> LabelWorld" where
  "label_step me (Verdict v) w = (if v \<in> set VERDICTS then on_page (edit_form (\<lambda>f. f\<lparr>fm_verdict := v\<rparr>)) w else w)"
| "label_step me (Corrected_text t) w = (if form_shown (lw_page w) then on_page (edit_form (\<lambda>f. f\<lparr>fm_desc := t\<rparr>)) w else w)"
| "label_step me (Corrected_threat t) w =
     (if form_shown (lw_page w) then on_page (edit_form (\<lambda>f. f\<lparr>fm_threat := if fm_threat f = t then [] else t\<rparr>)) w else w)"
| "label_step me (Tag t) w = (if form_shown (lw_page w) then on_page (edit_form (toggleTag t)) w else w)"
| "label_step me (Custom_text t) w = (if form_shown (lw_page w) then on_page (edit_form (\<lambda>f. f\<lparr>fm_custom := t\<rparr>)) w else w)"
| "label_step me Add_tag w = (if form_shown (lw_page w) then on_page (edit_form addCustomTag) w else w)"
| "label_step me (Notes_text t) w = (if form_shown (lw_page w) then on_page (edit_form (\<lambda>f. f\<lparr>fm_notes := t\<rparr>)) w else w)"
| "label_step me Key_enter w = (if lp_saving (lw_page w) then w else on_page (submitLabel False) w)"
| "label_step me Key_s w = on_page (submitLabel True) w"
| "label_step me Press_save w =
     (if form_shown (lw_page w) \<and> \<not> lp_saving (lw_page w) \<and> fm_verdict (lp_form (lw_page w)) \<noteq> [] then on_page (submitLabel False) w else w)"
| "label_step me Press_skip w = (if form_shown (lw_page w) \<and> \<not> lp_saving (lw_page w) then on_page (submitLabel True) w else w)"
| "label_step me Press_start w =
     (if lp_job (lw_page w) = None \<and> \<not> lp_loading (lw_page w) \<and> \<not> lp_empty (lw_page w) then on_page (claimNext False) w else w)"
| "label_step me Press_queue w =
     (let w' = on_page (\<lambda>p. p\<lparr>lp_showQueue := \<not> lp_showQueue p\<rparr>) w in
      if lp_showQueue (lw_page w) then w' else loadQueue (lp_queueStatus (lw_page w)) w')"
| "label_step me (Queue_of st) w =
     (if lp_showQueue (lw_page w) \<and> st \<noteq> Lj_claimed then loadQueue st (on_page (\<lambda>p. p\<lparr>lp_queueStatus := st\<rparr>) w) else w)"
| "label_step me (Pick_job n) w =
     (if lp_showQueue (lw_page w) \<and> n < length (lp_queue (lw_page w))
      then on_page (\<lambda>p. (resetForm p)\<lparr>lp_job := Some (lp_queue p ! n), lp_showQueue := False\<rparr>) w else w)"
| "label_step me (Task_ended n r) w = task_ended me n r w"

section \<open>No job is handed out twice\<close>

datatype queue_op = Enqueue string string string string | Claim_next id | Claim_job nat id | Submit_label nat id LabelBody

text \<open>The queue and the numbers of the jobs handed out so far.\<close>

definition handed :: "LabelJob option \<Rightarrow> nat list" where
  "handed r = (case r of None \<Rightarrow> [] | Some j \<Rightarrow> [lj_id j])"

fun queue_op_step :: "queue_op \<Rightarrow> LabelDb \<times> nat list \<Rightarrow> LabelDb \<times> nat list" where
  "queue_op_step (Enqueue alarm url desc threat) (db, out) = (EnqueueLabelJob alarm url desc threat db, out)"
| "queue_op_step (Claim_next u) (db, out) = (case NextPendingLabelJob u db of (db', r) \<Rightarrow> (db', out @ handed r))"
| "queue_op_step (Claim_job i u) (db, out) = (case ClaimLabelJob i u db of (db', r) \<Rightarrow> (db', out @ handed r))"
| "queue_op_step (Submit_label i u b) (db, out) = (case SubmitLabel i u b db of Inl e \<Rightarrow> (db, out) | Inr db' \<Rightarrow> (db', out))"

definition queue_inv :: "LabelDb \<times> nat list \<Rightarrow> bool" where
  "queue_inv s = (case s of (db, out) \<Rightarrow>
     (\<forall>j\<in>set (ld_jobs db). lj_id j < ld_seq db \<and> (lj_status j = Lj_pending \<longrightarrow> lj_id j \<notin> set out)) \<and>
     (\<forall>i\<in>set out. i < ld_seq db) \<and> distinct out)"

lemma claim_inv:
  assumes "queue_inv (db, out)" "List.find P (ld_jobs db) = Some j" "\<And>k. P k \<Longrightarrow> lj_status k = Lj_pending"
  shows "queue_inv (update_jobs (\<lambda>k. lj_id k = lj_id j) (claimed_for u) db, out @ [lj_id j])"
proof -
  have "j \<in> set (ld_jobs db)" "P j" using assms(2) by (auto simp: find_Some_iff)
  then show ?thesis using assms(1,3) by (auto simp: queue_inv_def update_jobs_def claimed_for_def)
qed

lemma settle_queue_inv: "st \<noteq> Lj_pending \<Longrightarrow> queue_inv (db, out) \<Longrightarrow> queue_inv (settle_job st i u db, out)"
  by (auto simp: queue_inv_def settle_job_def update_jobs_def)

lemma labels_queue_inv: "queue_inv (db\<lparr>ld_labels := ls\<rparr>, out) = queue_inv (db, out)"
  by (simp add: queue_inv_def)

lemma submit_queue_inv: "queue_inv (db, out) \<Longrightarrow> SubmitLabel i u b db = Inr db' \<Longrightarrow> queue_inv (db', out)"
  by (auto simp: SubmitLabel_def labels_queue_inv intro!: settle_queue_inv split: LabelBody.splits if_splits)

lemma enqueue_queue_inv: "queue_inv (db, out) \<Longrightarrow> queue_inv (EnqueueLabelJob a url d t db, out)"
  by (auto simp: queue_inv_def EnqueueLabelJob_def less_Suc_eq)

lemma next_queue_inv: "queue_inv (db, out) \<Longrightarrow> NextPendingLabelJob u db = (db', r) \<Longrightarrow> queue_inv (db', out @ handed r)"
  using claim_inv [of db out "\<lambda>j. lj_status j = Lj_pending"]
  by (auto simp: NextPendingLabelJob_def handed_def claimed_for_def split: option.splits)

lemma claim_job_queue_inv:
  assumes "queue_inv (db, out)" "ClaimLabelJob i u db = (db', r)"
  shows "queue_inv (db', out @ handed r)"
proof (cases "List.find (\<lambda>j. lj_id j = i \<and> lj_status j = Lj_pending) (ld_jobs db)")
  case None
  then show ?thesis using assms by (auto simp: ClaimLabelJob_def handed_def)
next
  case (Some j)
  then have "lj_id j = i" by (auto simp: find_Some_iff)
  then show ?thesis using assms Some claim_inv [OF assms(1) Some, of u] by (auto simp: ClaimLabelJob_def handed_def claimed_for_def)
qed

lemma queue_op_inv: "queue_inv s \<Longrightarrow> queue_inv (queue_op_step e s)"
  by (induction e s rule: queue_op_step.induct)
    (auto simp: enqueue_queue_inv intro: next_queue_inv claim_job_queue_inv submit_queue_inv split: prod.split sum.split)

definition empty_queue :: LabelDb where
  "empty_queue = \<lparr>ld_jobs = [], ld_labels = [], ld_seq = 1\<rparr>"

interpretation label_queue: machine queue_op_step "\<lambda>s. s = (empty_queue, [])" queue_inv
  by unfold_locales (simp add: queue_inv_def empty_queue_def, rule queue_op_inv)

text \<open>C34: No job is handed out twice: over any sequence of alarms, claims of the next job, claims of a chosen job, labels and skips by any
  number of annotators, the jobs given to somebody are all different.\<close>

theorem job_handed_out_once:
  "distinct (snd (fold queue_op_step ops (empty_queue, [])))"
proof -
  have "queue_inv (fold queue_op_step ops (empty_queue, []))"
    by (rule label_queue.inv_run) (simp add: queue_inv_def empty_queue_def)
  then show ?thesis by (auto simp: queue_inv_def split: prod.splits)
qed

section \<open>No job is left behind\<close>

text \<open>The jobs an annotator has claimed and not settled.\<close>

definition mine :: "id \<Rightarrow> LabelDb \<Rightarrow> nat set" where
  "mine u db = lj_id ` set (filter (\<lambda>j. lj_status j = Lj_claimed \<and> lj_claimed_by j = Some u) (ld_jobs db))"

definition on_screen :: "LabelPage \<Rightarrow> nat set" where
  "on_screen p = (case lp_job p of None \<Rightarrow> {} | Some j \<Rightarrow> {lj_id j})"

lemma mine_iff: "i \<in> mine u db \<longleftrightarrow> (\<exists>j\<in>set (ld_jobs db). lj_status j = Lj_claimed \<and> lj_claimed_by j = Some u \<and> lj_id j = i)"
  by (auto simp: mine_def)

lemma ex_updated: "(\<exists>j\<in>set (ld_jobs (update_jobs P f db)). Q j) \<longleftrightarrow> (\<exists>j\<in>set (ld_jobs db). Q (if P j then f j else j))"
  by (auto simp: update_jobs_def)

lemma ids_updated:
  assumes "\<And>j. lj_id (f j) = lj_id j"
  shows "lj_id ` set (ld_jobs (update_jobs P f db)) = lj_id ` set (ld_jobs db)"
proof -
  have "map lj_id (ld_jobs (update_jobs P f db)) = map lj_id (ld_jobs db)" by (simp add: update_jobs_def assms)
  then show ?thesis by (metis set_map)
qed

lemma ids_settled: "lj_id ` set (ld_jobs (settle_job st i u db)) = lj_id ` set (ld_jobs db)"
  unfolding settle_job_def by (rule ids_updated) simp

lemma mine_settled: "st \<noteq> Lj_claimed \<Longrightarrow> mine u (settle_job st i u db) = mine u db - {i}"
  by (rule set_eqI) (auto simp: mine_iff settle_job_def ex_updated split: if_splits)

lemma mine_labels: "mine u (db\<lparr>ld_labels := ls\<rparr>) = mine u db"
  by (simp add: mine_def)

lemma mine_next:
  assumes "NextPendingLabelJob u db = (db', Some j)"
  shows "mine u db' = insert (lj_id j) (mine u db)" "lj_id ` set (ld_jobs db') = lj_id ` set (ld_jobs db)"
    "lj_id j \<in> lj_id ` set (ld_jobs db)"
proof -
  from assms obtain k where k: "k \<in> set (ld_jobs db)" "lj_id j = lj_id k" "db' = update_jobs (\<lambda>x. lj_id x = lj_id k) (claimed_for u) db"
    using find_SomeD by (fastforce simp: NextPendingLabelJob_def claimed_for_def split: option.splits)
  have id: "lj_id (claimed_for u x) = lj_id x" for x by (simp add: claimed_for_def)
  show "mine u db' = insert (lj_id j) (mine u db)"
    using k(1) unfolding k(2,3) by (intro set_eqI) (auto simp: mine_iff ex_updated claimed_for_def; metis)
  show "lj_id ` set (ld_jobs db') = lj_id ` set (ld_jobs db)" unfolding k(3) by (rule ids_updated) (rule id)
  show "lj_id j \<in> lj_id ` set (ld_jobs db)" using k by auto
qed

lemma next_none: "NextPendingLabelJob u db = (db', None) \<Longrightarrow> db' = db"
  by (simp add: NextPendingLabelJob_def split: option.splits)

definition body_ok :: "LabelBody \<Rightarrow> bool" where
  "body_ok b = (case b of Skip_body \<Rightarrow> True | Label_body v d t tags n \<Rightarrow> v \<in> set VERDICTS)"

lemma submit_settles:
  assumes "body_ok b" "i \<in> lj_id ` set (ld_jobs db)"
  obtains db' where "SubmitLabel i u b db = Inr db'" "mine u db' = mine u db - {i}" "lj_id ` set (ld_jobs db') = lj_id ` set (ld_jobs db)"
proof (cases b)
  case Skip_body
  show ?thesis unfolding Skip_body
    by (rule that [of "settle_job Lj_skipped i u db"]) (simp_all add: Skip_body SubmitLabel_def mine_settled ids_settled)
next
  case (Label_body v d t tags n)
  then have "v \<noteq> []" "v \<in> set VERDICTS" using assms(1) by (auto simp: body_ok_def VERDICTS_def)
  moreover obtain db1 where "SubmitLabel i u b db = Inr (settle_job Lj_labeled i u db1)" "mine u db1 = mine u db" "ld_jobs db1 = ld_jobs db"
    using Label_body assms(2) calculation by (auto simp: SubmitLabel_def mine_labels)
  ultimately show ?thesis by (intro that [of "settle_job Lj_labeled i u db1"]) (simp_all add: mine_settled ids_settled)
qed

fun tasks_ok :: "label_task list \<Rightarrow> LabelPage \<Rightarrow> nat set \<Rightarrow> bool" where
  "tasks_ok [] p m \<longleftrightarrow> m \<subseteq> on_screen p"
| "tasks_ok [Submitting i b] p m \<longleftrightarrow> lp_saving p \<and> on_screen p = {i} \<and> body_ok b \<and> m \<subseteq> {i}"
| "tasks_ok [Claiming saving] p m \<longleftrightarrow> lp_loading p \<and> (if saving then lp_saving p else lp_job p = None) \<and> m = {}"
| "tasks_ok (t1 # t2 # ts) p m \<longleftrightarrow> False"

definition page_inv :: "id \<Rightarrow> LabelWorld \<Rightarrow> bool" where
  "page_inv me w \<longleftrightarrow>
     (fm_verdict (lp_form (lw_page w)) = [] \<or> fm_verdict (lp_form (lw_page w)) \<in> set VERDICTS) \<and>
     on_screen (lw_page w) \<subseteq> lj_id ` set (ld_jobs (lw_db w)) \<and> tasks_ok (lp_tasks (lw_page w)) (lw_page w) (mine me (lw_db w))"

fun careful_event :: "label_event \<Rightarrow> LabelWorld \<Rightarrow> bool" where
  "careful_event (Pick_job n) w \<longleftrightarrow> False"
| "careful_event Key_s w \<longleftrightarrow> lp_tasks (lw_page w) = []"
| "careful_event (Task_ended n r) w \<longleftrightarrow> r = Served"
| "careful_event _ w \<longleftrightarrow> True"

text \<open>Nothing is picked from the list, S is pressed only while no request is under way, and every request is served.\<close>

fun careful :: "id \<Rightarrow> label_event list \<Rightarrow> LabelWorld \<Rightarrow> bool" where
  "careful me [] w \<longleftrightarrow> True"
| "careful me (e # es) w \<longleftrightarrow> careful_event e w \<and> careful me es (label_step me e w)"

text \<open>How a step changes what the invariant reads.\<close>

lemma tasks_ok_same:
  "lp_job p = lp_job q \<Longrightarrow> lp_saving p = lp_saving q \<Longrightarrow> lp_loading p = lp_loading q \<Longrightarrow> tasks_ok ts p m = tasks_ok ts q m"
  by (induction ts p m rule: tasks_ok.induct) (simp_all add: on_screen_def)

lemma page_inv_edit:
  assumes "page_inv me w" "fm_verdict (lp_form p) = [] \<or> fm_verdict (lp_form p) \<in> set VERDICTS" "lp_job p = lp_job (lw_page w)"
    "lp_tasks p = lp_tasks (lw_page w)" "lp_saving p = lp_saving (lw_page w)" "lp_loading p = lp_loading (lw_page w)"
  shows "page_inv me (w\<lparr>lw_page := p\<rparr>)"
proof -
  have "on_screen p = on_screen (lw_page w)" using assms(3) by (simp add: on_screen_def)
  then show ?thesis using assms tasks_ok_same [of p "lw_page w"] by (simp add: page_inv_def)
qed

lemma page_inv_view:
  assumes "page_inv me w" "lp_form p = lp_form (lw_page w)" "lp_job p = lp_job (lw_page w)"
    "lp_tasks p = lp_tasks (lw_page w)" "lp_saving p = lp_saving (lw_page w)" "lp_loading p = lp_loading (lw_page w)"
  shows "page_inv me (w\<lparr>lw_page := p\<rparr>)"
  by (rule page_inv_edit [OF assms(1) _ assms(3-6)]) (use assms(1,2) in \<open>simp add: page_inv_def\<close>)

lemma page_inv_submit:
  assumes "page_inv me w" "lp_tasks (lw_page w) = []"
  shows "page_inv me (on_page (submitLabel skipIt) w)"
  using assms
  by (auto simp: page_inv_def on_page_def submitLabel_def on_screen_def body_ok_def label_body_def split: option.splits)

lemma page_inv_claim:
  assumes "page_inv me w" "lp_tasks (lw_page w) = []" "lp_job (lw_page w) = None"
  shows "page_inv me (on_page (claimNext False) w)"
  using assms by (auto simp: page_inv_def on_page_def claimNext_def resetForm_def empty_form_def on_screen_def)

lemma submit_ended_inv:
  assumes "page_inv me w" "lp_tasks (lw_page w) = [Submitting i b]"
  shows "page_inv me (submit_ended me i b Served (w\<lparr>lw_page := without_task 0 (lw_page w)\<rparr>))"
proof -
  have b: "body_ok b" "lp_saving (lw_page w)" "on_screen (lw_page w) = {i}" "i \<in> lj_id ` set (ld_jobs (lw_db w))" "mine me (lw_db w) \<subseteq> {i}"
    using assms by (auto simp: page_inv_def)
  from b(1,4) obtain db' where "SubmitLabel i me b (lw_db w) = Inr db'" "mine me db' = mine me (lw_db w) - {i}"
    "lj_id ` set (ld_jobs db') = lj_id ` set (ld_jobs (lw_db w))" by (rule submit_settles)
  then show ?thesis using b assms(2)
    by (auto simp: submit_ended_def page_inv_def claimNext_def resetForm_def empty_form_def without_task_def on_screen_def split: option.splits)
qed

lemma claim_ended_inv:
  assumes "page_inv me w" "lp_tasks (lw_page w) = [Claiming saving]"
  shows "page_inv me (claim_ended me saving Served (w\<lparr>lw_page := without_task 0 (lw_page w)\<rparr>))"
proof -
  have c: "fm_verdict (lp_form (lw_page w)) = [] \<or> fm_verdict (lp_form (lw_page w)) \<in> set VERDICTS" "mine me (lw_db w) = {}"
    using assms by (auto simp: page_inv_def)
  obtain db' r where next_job: "NextPendingLabelJob me (lw_db w) = (db', r)" by fastforce
  show ?thesis
  proof (cases r)
    case None
    then show ?thesis using next_none next_job c assms(2)
      by (auto simp: claim_ended_def claim_done_def page_inv_def without_task_def on_screen_def)
  next
    case (Some j)
    with next_job mine_next [of me "lw_db w" db' j] show ?thesis using c assms(2)
      by (auto simp: claim_ended_def claim_done_def page_inv_def without_task_def on_screen_def)
  qed
qed

lemma page_inv_tasks:
  assumes "page_inv me w"
  obtains (idle) "lp_tasks (lw_page w) = []"
  | (submitting) i b where "lp_tasks (lw_page w) = [Submitting i b]" "lp_saving (lw_page w)" "lp_job (lw_page w) \<noteq> None"
  | (claiming) saving where "lp_tasks (lw_page w) = [Claiming saving]" "lp_loading (lw_page w)" "\<not> lp_saving (lw_page w) \<Longrightarrow> lp_job (lw_page w) = None"
proof -
  have "tasks_ok (lp_tasks (lw_page w)) (lw_page w) (mine me (lw_db w))" using assms by (simp add: page_inv_def)
  then show ?thesis using that by (elim tasks_ok.elims) (auto simp: on_screen_def split: if_splits option.splits)
qed

lemma task_ended_inv: "page_inv me w \<Longrightarrow> page_inv me (task_ended me n Served w)"
  by (rule page_inv_tasks [of me w])
    (auto simp: task_ended_def Let_def intro: submit_ended_inv claim_ended_inv)

lemma label_step_inv:
  assumes "page_inv me w" "careful_event e w"
  shows "page_inv me (label_step me e w)"
proof -
  have edit: "page_inv me (on_page (edit_form f) w)" if "\<And>x. fm_verdict (f x) = fm_verdict x \<or> fm_verdict (f x) \<in> set VERDICTS" for f
    using assms(1) that [of "lp_form (lw_page w)"] unfolding on_page_def
    by (intro page_inv_edit) (auto simp: edit_form_def page_inv_def)
  have queue: "page_inv me (on_page (\<lambda>p. p\<lparr>lp_showQueue := b\<rparr>) w)" "page_inv me v \<Longrightarrow> page_inv me (loadQueue st v)"
    "page_inv me (on_page (\<lambda>p. p\<lparr>lp_queueStatus := st\<rparr>) w)" for b st v
    using page_inv_view [of me w] page_inv_view [of me v] assms(1) by (simp_all add: on_page_def loadQueue_def)
  have idle: "lp_tasks (lw_page w) = []" if "\<not> lp_saving (lw_page w)" "lp_job (lw_page w) \<noteq> None"
    using assms(1) that by (rule_tac page_inv_tasks [of me w]) auto
  have start: "lp_tasks (lw_page w) = []" if "\<not> lp_loading (lw_page w)" "lp_job (lw_page w) = None"
    using assms(1) that by (rule_tac page_inv_tasks [of me w]) auto
  have none: "on_page (submitLabel k) w = w" if "lp_job (lw_page w) = None" for k
    using that by (simp add: on_page_def submitLabel_def)
  have toggle: "page_inv me (on_page (\<lambda>p. p\<lparr>lp_showQueue := \<not> lp_showQueue p\<rparr>) w)"
    using queue(1) [of "\<not> lp_showQueue (lw_page w)"] by (simp add: on_page_def)
  show ?thesis
  proof (cases e)
    case Key_enter
    then show ?thesis using assms(1) idle none by (cases "lp_job (lw_page w)") (auto intro: page_inv_submit)
  next
    case (Task_ended n r)
    then show ?thesis using assms task_ended_inv by simp
  next
    case Press_queue
    then show ?thesis using toggle queue(2) by (simp add: Let_def)
  qed (use assms edit queue idle start in \<open>auto simp: form_shown_def toggleTag_def addCustomTag_def Let_def intro: page_inv_submit page_inv_claim\<close>)
qed

lemma careful_run_inv: "page_inv me w \<Longrightarrow> careful me es w \<Longrightarrow> page_inv me (fold (label_step me) es w)"
  by (induction es arbitrary: w) (simp_all add: label_step_inv)

text \<open>C35: Suppose an annotator holds no claimed job when the page opens, picks nothing from the list, presses S only when no request is
  under way, and every request is served, none refused or lost. Then no claimed job is left behind while the page stays open: at
  every moment the only job claimed and not settled is the one on screen.\<close>

theorem no_job_left_behind:
  assumes "mine me db = {}" and "careful me es (open_labeling db)"
  shows "mine me (lw_db (fold (label_step me) es (open_labeling db))) \<subseteq> on_screen (lw_page (fold (label_step me) es (open_labeling db)))"
proof -
  let ?w = "fold (label_step me) es (open_labeling db)"
  have "page_inv me (open_labeling db)"
    using assms(1) by (simp add: page_inv_def open_labeling_def claimNext_def resetForm_def empty_form_def on_screen_def)
  then have inv: "page_inv me ?w" using assms(2) by (rule careful_run_inv)
  then have "tasks_ok (lp_tasks (lw_page ?w)) (lw_page ?w) (mine me (lw_db ?w))" by (simp add: page_inv_def)
  then show ?thesis by (rule tasks_ok.elims) auto
qed

definition fixture_queue :: LabelDb where
  "fixture_queue = fold (\<lambda>a. EnqueueLabelJob a ''/snapshots/1.jpg'' ''A person at the gate'' ''high'') [''AL-1'', ''AL-2'', ''AL-3''] empty_queue"

abbreviation one_saved :: "label_event list" where
  "one_saved \<equiv> [Task_ended 0 Served, Verdict ''correct'', Key_enter, Task_ended 0 Served, Task_ended 0 Served]"

theorem no_job_left_behind_witness:
  "mine ''u-1'' (lw_db (fold (label_step ''u-1'') one_saved (open_labeling fixture_queue))) \<subseteq> {2}"
proof -
  have "mine ''u-1'' fixture_queue = {}" "careful ''u-1'' one_saved (open_labeling fixture_queue)" by code_simp+
  then have "mine ''u-1'' (lw_db (fold (label_step ''u-1'') one_saved (open_labeling fixture_queue)))
      \<subseteq> on_screen (lw_page (fold (label_step ''u-1'') one_saved (open_labeling fixture_queue)))" by (rule no_job_left_behind)
  also have "\<dots> = {2}" by code_simp
  finally show ?thesis .
qed

text \<open>Pressing S twice skips one job but claims two: the first of them stays claimed and is shown to nobody.\<close>

lemma skipping_twice_strands:
  "let w = fold (label_step ''u-1'') [Task_ended 0 Served, Key_s, Key_s, Task_ended 0 Served, Task_ended 0 Served, Task_ended 0 Served, Task_ended 0 Served] (open_labeling fixture_queue)
   in mine ''u-1'' (lw_db w) = {2, 3} \<and> on_screen (lw_page w) = {3}"
  by code_simp

text \<open>
  A job picked from the list is not claimed: its label is stored, but the job stays pending, is not exported and is offered
  again, and the job shown before stays claimed.
\<close>

lemma picked_label_lost:
  "let w = fold (label_step ''u-1'') [Task_ended 0 Served, Press_queue, Pick_job 1, Verdict ''correct'', Key_enter, Task_ended 0 Served] (open_labeling fixture_queue)
   in map vl_job_id (ld_labels (lw_db w)) = [2] \<and> map lj_status (ld_jobs (lw_db w)) = [Lj_claimed, Lj_pending, Lj_pending] \<and>
      exported ''all'' (lw_db w) = [] \<and> map_option lj_id (snd (NextPendingLabelJob ''u-2'' (lw_db w))) = Some 2"
  by code_simp

text \<open>When the claim after a label fails, the settled job stays on screen with an empty form and can be labeled a second time.\<close>

lemma failed_claim_labels_twice:
  "let w = fold (label_step ''u-1'') [Task_ended 0 Served, Verdict ''correct'', Key_enter, Task_ended 0 Served, Task_ended 0 (Lost_request False),
       Verdict ''incorrect'', Key_enter, Task_ended 0 Served] (open_labeling fixture_queue)
   in map (\<lambda>(j, l). (lj_id j, vl_verdict l)) (exported ''all'' (lw_db w)) = [(1, ''incorrect''), (1, ''correct'')]"
  by code_simp

text \<open>A correction typed before the verdict is changed to correct is hidden but sent, and replaces the description in the export.\<close>

lemma hidden_correction_exported:
  "let w = fold (label_step ''u-1'') [Task_ended 0 Served, Verdict ''incorrect'', Corrected_text ''Nobody'', Verdict ''correct'', Key_enter, Task_ended 0 Served]
       (open_labeling fixture_queue)
   in map (\<lambda>(j, l). (vl_verdict l, final_description j l)) (exported ''all'' (lw_db w)) = [(''correct'', ''Nobody'')]"
  by code_simp

section \<open>The exported answers\<close>

definition printable :: "char \<Rightarrow> bool" where
  "printable c \<longleftrightarrow> c \<noteq> backslash \<and> 32 \<le> (of_char c :: nat)"

lemma escape_quotes_json: "\<forall>c\<in>set t. printable c \<Longrightarrow> escape_quotes t = concat (map esc_char t)"
  by (induction t) (auto simp: escape_quotes_def esc_char_def printable_def)

lemma no_quotes_json: "\<forall>c\<in>set t. printable c \<and> c \<noteq> quote \<Longrightarrow> concat (map esc_char t) = t"
  by (induction t) (auto simp: esc_char_def printable_def)

text \<open>C36: The answer written into the training data is valid JSON with the final description and threat, quotes in the description
  included, as long as neither holds a backslash or a control character and the threat, which is not escaped, no quote.\<close>

theorem assistant_content_parses:
  assumes "\<forall>c\<in>set desc. printable c" and "\<forall>c\<in>set threat. printable c \<and> c \<noteq> quote"
  shows "json_parse (assistant_content desc threat) = Some (JObj [(''description'', JStr desc), (''threat_level'', JStr threat),
    (''recommended_action'', JStr ''Monitor and document.'')])"
proof -
  let ?o = "JObj [(''description'', JStr desc), (''threat_level'', JStr threat), (''recommended_action'', JStr ''Monitor and document.'')]"
  have "assistant_content desc threat = stringify (\<lambda>_. []) ?o"
    using escape_quotes_json [OF assms(1)] no_quotes_json [OF assms(2)] by (simp add: assistant_content_def quote_str_def)
  moreover have "wf_json ?o" by simp
  ultimately show ?thesis by (simp add: parse_stringify del: stringify.simps)
qed

theorem assistant_content_parses_witness:
  "json_parse (assistant_content (''A '' @ [quote] @ ''STOP'' @ [quote] @ '' sign'') ''low'') = Some (JObj [(''description'', JStr (''A '' @ [quote] @ ''STOP'' @ [quote] @ '' sign'')),
    (''threat_level'', JStr ''low''), (''recommended_action'', JStr ''Monitor and document.'')])"
  by (rule assistant_content_parses) code_simp+

text \<open>A line break typed into the correction makes the exported answer unreadable.\<close>

lemma line_break_breaks_answer: "json_parse (assistant_content (''Two lines'' @ [CHR 0x0A] @ ''of text'') ''low'') = None"
  by code_simp

end
