(* ===== verification/Vca_Editor.thy ===== *)
theory Vca_Editor
  imports Vca_Canvas Requests
begin

text \<open>
  The zone editor, \<^verbatim>\<open>components/VCAZoneEditor.tsx\<close>: the parent of the canvas of \<open>Vca_Canvas\<close>, with the rules of one camera and the
  requests that store them, over the Go handlers of \<^verbatim>\<open>internal/api/vca.go\<close> and \<^verbatim>\<open>internal/database/db.go\<close>. A request acts on the
  server when it is answered. Shown: every zone sent is one the server accepts, and a user who waits for answers, all requests
  being served, sees the stored rules; and what other orders of events do. The camera tab is a link. A vertex outside a region that has
  become shorter is ignored, where the page would extend the array.
\<close>

section \<open>The rules of the server\<close>

record VCARule =
  vr_id :: id
  vr_camera_id :: id
  vr_rule_type :: string
  vr_name :: string
  vr_enabled :: bool
  vr_sensitivity :: int
  vr_region :: "CanvasPoint list"
  vr_direction :: string
  vr_threshold_sec :: int
  vr_schedule :: string
  vr_actions :: "string list"
  vr_synced :: bool
  vr_sync_error :: string

record VCARuleCreate =
  vi_rule_type :: string
  vi_name :: string
  vi_enabled :: bool
  vi_sensitivity :: int
  vi_region :: "CanvasPoint list"
  vi_direction :: string
  vi_threshold_sec :: int
  vi_schedule :: string
  vi_actions :: "string list option"

text \<open>Rows in the order of their creation, each with its mark of deletion; \<open>vd_made\<close> numbers the identifiers drawn.\<close>

record VcaDb =
  vd_rows :: "(VCARule \<times> bool) list"
  vd_made :: nat

definition ListVCARules :: "id \<Rightarrow> VcaDb \<Rightarrow> VCARule list" where
  "ListVCARules cam db = filter (\<lambda>r. vr_camera_id r = cam) (map fst (filter (\<lambda>(r, deleted). \<not> deleted) (vd_rows db)))"

definition vcaRuleFromCreate :: "id \<Rightarrow> id \<Rightarrow> VCARuleCreate \<Rightarrow> VCARule" where
  "vcaRuleFromCreate i cam c =
     \<lparr>vr_id = i, vr_camera_id = cam, vr_rule_type = vi_rule_type c, vr_name = vi_name c, vr_enabled = vi_enabled c,
      vr_sensitivity = vi_sensitivity c, vr_region = vi_region c, vr_direction = vi_direction c, vr_threshold_sec = vi_threshold_sec c,
      vr_schedule = (if vi_schedule c = [] then ''always'' else vi_schedule c),
      vr_actions = nullish (vi_actions c) [''record'', ''notify''], vr_synced = False, vr_sync_error = []\<rparr>"

text \<open>The identifier is the primary key of the table.\<close>

definition CreateVCARule :: "(nat \<Rightarrow> id) \<Rightarrow> id \<Rightarrow> VCARuleCreate \<Rightarrow> VcaDb \<Rightarrow> string + VcaDb" where
  "CreateVCARule uuid cam c db =
     (let i = uuid (vd_made db) in
      if i \<in> (vr_id \<circ> fst) ` set (vd_rows db) then Inl ''duplicate key''
      else Inr \<lparr>vd_rows = vd_rows db @ [(vcaRuleFromCreate i cam c, False)], vd_made = Suc (vd_made db)\<rparr>)"

definition HandleCreateVCARule :: "(nat \<Rightarrow> id) \<Rightarrow> id \<Rightarrow> VCARuleCreate \<Rightarrow> VcaDb \<Rightarrow> string + VcaDb" where
  "HandleCreateVCARule uuid cam c db =
     (if vi_rule_type c \<notin> {''intrusion'', ''linecross'', ''regionentrance'', ''loitering''}
      then Inl (''invalid rule_type '' @ [CHR 0xE2, CHR 0x80, CHR 0x94] @ '' must be intrusion, linecross, regionentrance, or loitering'')
      else if length (vi_region c) < 2 then Inl ''region must have at least 2 points''
      else CreateVCARule uuid cam c db)"

definition updated_rule :: "VCARuleCreate \<Rightarrow> VCARule \<Rightarrow> VCARule" where
  "updated_rule c r = r\<lparr>vr_name := vi_name c, vr_enabled := vi_enabled c, vr_sensitivity := vi_sensitivity c, vr_region := vi_region c,
     vr_direction := vi_direction c, vr_threshold_sec := vi_threshold_sec c, vr_schedule := vi_schedule c,
     vr_actions := nullish (vi_actions c) [], vr_synced := False\<rparr>"

definition UpdateVCARule :: "id \<Rightarrow> VCARuleCreate \<Rightarrow> VcaDb \<Rightarrow> VcaDb" where
  "UpdateVCARule i c db = db\<lparr>vd_rows := map (\<lambda>(r, d). if vr_id r = i then (updated_rule c r, d) else (r, d)) (vd_rows db)\<rparr>"

definition SoftDeleteVCARule :: "id \<Rightarrow> VcaDb \<Rightarrow> VcaDb" where
  "SoftDeleteVCARule i db = db\<lparr>vd_rows := map (\<lambda>(r, d). if vr_id r = i then (r, True) else (r, d)) (vd_rows db)\<rparr>"

section \<open>The editor\<close>

datatype load_end = Plain_load | After_create | After_change

datatype editor_task = Creating VCARuleCreate | Updating id VCARuleCreate bool | Deleting id | Loading load_end

record VcaEditor =
  ve_camera :: id
  ve_rules :: "VCARule list"
  ve_selected :: "id option"
  ve_drawMode :: DrawMode
  ve_drawType :: string
  ve_drawPoints :: "CanvasPoint list"
  ve_drawName :: string
  ve_sync :: "string option"
  ve_drag :: "(id \<times> nat) option"
  ve_tasks :: "editor_task list"

definition open_editor :: "id \<Rightarrow> VcaEditor" where
  "open_editor cam = \<lparr>ve_camera = cam, ve_rules = [], ve_selected = None, ve_drawMode = Idle, ve_drawType = ''intrusion'', ve_drawPoints = [],
     ve_drawName = [], ve_sync = None, ve_drag = None, ve_tasks = [Loading Plain_load]\<rparr>"

definition ruleToCreate :: "VCARule \<Rightarrow> VCARuleCreate" where
  "ruleToCreate r = \<lparr>vi_rule_type = vr_rule_type r, vi_name = vr_name r, vi_enabled = vr_enabled r, vi_sensitivity = vr_sensitivity r,
     vi_region = vr_region r, vi_direction = vr_direction r, vi_threshold_sec = vr_threshold_sec r, vi_schedule = vr_schedule r,
     vi_actions = Some (vr_actions r)\<rparr>"

definition autoSync :: "VcaEditor \<Rightarrow> VcaEditor" where
  "autoSync e = e\<lparr>ve_sync := Some ([CHR 0xE2, CHR 0x9C, CHR 0x93] @ '' Zone saved. Configure matching zones on the camera via its web UI for on-device detection.'')\<rparr>"

definition send_task :: "editor_task \<Rightarrow> VcaEditor \<Rightarrow> VcaEditor" where
  "send_task t e = e\<lparr>ve_tasks := ve_tasks e @ [t]\<rparr>"

definition new_zone :: "CanvasPoint list \<Rightarrow> VcaEditor \<Rightarrow> VCARuleCreate" where
  "new_zone pts e = \<lparr>vi_rule_type = ve_drawType e,
     vi_name = (if ve_drawName e \<noteq> [] then ve_drawName e
       else rt_label (ruleConfig (ve_drawType e)) @ '' '' @ nat_str (length (filter (\<lambda>r. vr_rule_type r = ve_drawType e) (ve_rules e)) + 1)),
     vi_enabled = True, vi_sensitivity = 50, vi_region = pts, vi_direction = ''both'',
     vi_threshold_sec = (if ve_drawType e = ''loitering'' then 10 else 0), vi_schedule = ''always'', vi_actions = Some [''record'', ''notify'']\<rparr>"

definition finishDrawing :: "CanvasPoint list \<Rightarrow> VcaEditor \<Rightarrow> VcaEditor" where
  "finishDrawing pts e = (if length pts < rt_minPoints (ruleConfig (ve_drawType e)) then e else send_task (Creating (new_zone pts e)) e)"

definition reset_drawing :: "VcaEditor \<Rightarrow> VcaEditor" where
  "reset_drawing e = e\<lparr>ve_drawMode := Idle, ve_drawPoints := [], ve_drawName := []\<rparr>"

definition save_failed :: "string \<Rightarrow> VcaEditor \<Rightarrow> VcaEditor" where
  "save_failed msg e = reset_drawing (e\<lparr>ve_sync := Some (''Failed to save rule: '' @ msg)\<rparr>)"

definition zone_like :: "VCARule \<Rightarrow> ZoneLike" where
  "zone_like r = \<lparr>zl_id = vr_id r, zl_rule_type = vr_rule_type r, zl_name = vr_name r, zl_enabled = vr_enabled r, zl_region = vr_region r\<rparr>"

definition editor_canvas :: "Canvas \<Rightarrow> VcaEditor \<Rightarrow> VCACanvas" where
  "editor_canvas c e = \<lparr>vc_canvas = Some c, vc_img = True, vc_ruleTypes = RULE_TYPES, vc_zones = map zone_like (ve_rules e),
     vc_drawMode = ve_drawMode e, vc_activeRuleType = ve_drawType e, vc_draftPoints = ve_drawPoints e, vc_selectedZoneId = ve_selected e,
     vc_hoveredVertex = None, vc_draggingVertex = ve_drag e, vc_isDragging = ve_drag e \<noteq> None\<rparr>"

definition move_vertex :: "id \<Rightarrow> nat \<Rightarrow> CanvasPoint \<Rightarrow> VCARule \<Rightarrow> VCARule" where
  "move_vertex i n p r = (if vr_id r = i then r\<lparr>vr_region := (vr_region r)[n := p]\<rparr> else r)"

fun editor_call :: "canvas_call \<Rightarrow> VcaEditor \<Rightarrow> VcaEditor" where
  "editor_call (DraftPointAdd p) e = e\<lparr>ve_drawPoints := ve_drawPoints e @ [p]\<rparr>"
| "editor_call (PolygonComplete pts) e = finishDrawing pts e"
| "editor_call (ZoneSelect i) e = e\<lparr>ve_selected := i\<rparr>"
| "editor_call (VertexMove i n p) e = e\<lparr>ve_rules := map (move_vertex i n p) (ve_rules e)\<rparr>"
| "editor_call (VertexDragEnd i) e =
     (case List.find (\<lambda>r. vr_id r = i) (ve_rules e) of None \<Rightarrow> e | Some r \<Rightarrow> send_task (Updating (vr_id r) (ruleToCreate r) True) e)"

section \<open>How its requests end\<close>

record EditorWorld =
  ew_editor :: VcaEditor
  ew_db :: VcaDb

definition create_ended :: "(nat \<Rightarrow> id) \<Rightarrow> VCARuleCreate \<Rightarrow> task_end \<Rightarrow> EditorWorld \<Rightarrow> EditorWorld" where
  "create_ended uuid c r w =
     (let e = ew_editor w; result = HandleCreateVCARule uuid (ve_camera e) c (ew_db w) in
      case r of
        Served \<Rightarrow> (case result of
          Inl msg \<Rightarrow> w\<lparr>ew_editor := save_failed (msg @ [CHR 0x0A]) e\<rparr>
        | Inr db \<Rightarrow> \<lparr>ew_editor = send_task (Loading After_create) e, ew_db = db\<rparr>)
      | Refused_with t \<Rightarrow> w\<lparr>ew_editor := save_failed t e\<rparr>
      | Lost_request done_there \<Rightarrow>
          \<lparr>ew_editor = save_failed ''Failed to fetch'' e,
           ew_db = (if done_there then (case result of Inl _ \<Rightarrow> ew_db w | Inr db \<Rightarrow> db) else ew_db w)\<rparr>)"

text \<open>A dragged vertex is saved as well as it can be; the switch does not catch, so a refusal ends it without a word.\<close>

definition update_ended :: "id \<Rightarrow> VCARuleCreate \<Rightarrow> bool \<Rightarrow> task_end \<Rightarrow> EditorWorld \<Rightarrow> EditorWorld" where
  "update_ended i c dragged r w =
     (case r of
        Served \<Rightarrow> \<lparr>ew_editor = (if dragged then autoSync (ew_editor w) else send_task (Loading After_change) (ew_editor w)), ew_db = UpdateVCARule i c (ew_db w)\<rparr>
      | Refused_with t \<Rightarrow> w
      | Lost_request done_there \<Rightarrow> w\<lparr>ew_db := (if done_there then UpdateVCARule i c (ew_db w) else ew_db w)\<rparr>)"

text \<open>The status of a deletion is not looked at.\<close>

definition delete_ended :: "id \<Rightarrow> task_end \<Rightarrow> EditorWorld \<Rightarrow> EditorWorld" where
  "delete_ended i r w =
     (let e = send_task (Loading After_change) ((ew_editor w)\<lparr>ve_selected := None\<rparr>) in
      case r of
        Served \<Rightarrow> \<lparr>ew_editor = e, ew_db = SoftDeleteVCARule i (ew_db w)\<rparr>
      | Refused_with t \<Rightarrow> w\<lparr>ew_editor := e\<rparr>
      | Lost_request done_there \<Rightarrow> w\<lparr>ew_db := (if done_there then SoftDeleteVCARule i (ew_db w) else ew_db w)\<rparr>)"

definition loaded :: "load_end \<Rightarrow> VCARule list \<Rightarrow> VcaEditor \<Rightarrow> VcaEditor" where
  "loaded k rs e =
     (let e' = e\<lparr>ve_rules := rs\<rparr> in case k of Plain_load \<Rightarrow> e' | After_create \<Rightarrow> reset_drawing (autoSync e') | After_change \<Rightarrow> autoSync e')"

definition load_ended :: "load_end \<Rightarrow> task_end \<Rightarrow> EditorWorld \<Rightarrow> EditorWorld" where
  "load_ended k r w =
     (let e = ew_editor w in
      case r of
        Served \<Rightarrow> w\<lparr>ew_editor := loaded k (ListVCARules (ve_camera e) (ew_db w)) e\<rparr>
      | Refused_with t \<Rightarrow> w\<lparr>ew_editor := loaded k [] e\<rparr>
      | Lost_request _ \<Rightarrow> (if k = After_create then w\<lparr>ew_editor := save_failed ''Failed to fetch'' e\<rparr> else w))"

definition editor_task_ended :: "(nat \<Rightarrow> id) \<Rightarrow> nat \<Rightarrow> task_end \<Rightarrow> EditorWorld \<Rightarrow> EditorWorld" where
  "editor_task_ended uuid n r w =
     (if n < length (ve_tasks (ew_editor w))
      then let w' = w\<lparr>ew_editor := (ew_editor w)\<lparr>ve_tasks := drop_nth n (ve_tasks (ew_editor w))\<rparr>\<rparr> in
        (case ve_tasks (ew_editor w) ! n of
           Creating c \<Rightarrow> create_ended uuid c r w'
         | Updating i c dragged \<Rightarrow> update_ended i c dragged r w'
         | Deleting i \<Rightarrow> delete_ended i r w'
         | Loading k \<Rightarrow> load_ended k r w')
      else w)"

section \<open>The events\<close>

datatype zone_editor_event = Pick_type string | Zone_name string | Cancel_drawing | Undo_point | Save_zone | Row_click id | Toggle_rule id | Delete_rule id
  | Canvas_click MouseEvent | Canvas_double | Canvas_down MouseEvent | Canvas_move MouseEvent | Canvas_up | Editor_task nat task_end

definition on_editor :: "(VcaEditor \<Rightarrow> VcaEditor) \<Rightarrow> EditorWorld \<Rightarrow> EditorWorld" where
  "on_editor f w = w\<lparr>ew_editor := f (ew_editor w)\<rparr>"

definition pick_type :: "string \<Rightarrow> VcaEditor \<Rightarrow> VcaEditor" where
  "pick_type k e = (if ve_drawMode e = Idle \<and> k \<in> rt_key ` set RULE_TYPES
     then e\<lparr>ve_drawType := k, ve_drawMode := Drawing, ve_drawPoints := [], ve_selected := None\<rparr> else e)"

definition can_save :: "VcaEditor \<Rightarrow> bool" where
  "can_save e \<longleftrightarrow> (if ve_drawType e = ''linecross'' then length (ve_drawPoints e) \<ge> 2 else length (ve_drawPoints e) \<ge> 3)"

definition handleToggle :: "id \<Rightarrow> VcaEditor \<Rightarrow> VcaEditor" where
  "handleToggle i e = (case List.find (\<lambda>r. vr_id r = i) (ve_rules e) of
     None \<Rightarrow> e | Some r \<Rightarrow> send_task (Updating i ((ruleToCreate r)\<lparr>vi_enabled := \<not> vr_enabled r\<rparr>) False) e)"

fun zone_editor_step :: "(nat \<Rightarrow> id) \<Rightarrow> Canvas \<Rightarrow> zone_editor_event \<Rightarrow> EditorWorld \<Rightarrow> EditorWorld" where
  "zone_editor_step uuid c (Pick_type k) w = on_editor (pick_type k) w"
| "zone_editor_step uuid c (Zone_name t) w = on_editor (\<lambda>e. if ve_drawMode e = Drawing then e\<lparr>ve_drawName := t\<rparr> else e) w"
| "zone_editor_step uuid c Cancel_drawing w = on_editor (\<lambda>e. if ve_drawMode e = Drawing then reset_drawing e else e) w"
| "zone_editor_step uuid c Undo_point w = on_editor (\<lambda>e. if ve_drawMode e = Drawing then e\<lparr>ve_drawPoints := butlast (ve_drawPoints e)\<rparr> else e) w"
| "zone_editor_step uuid c Save_zone w = on_editor (\<lambda>e. if ve_drawMode e = Drawing \<and> can_save e then finishDrawing (ve_drawPoints e) e else e) w"
| "zone_editor_step uuid c (Row_click i) w = on_editor (\<lambda>e. if i \<in> vr_id ` set (ve_rules e) then e\<lparr>ve_selected := if ve_selected e = Some i then None else Some i\<rparr> else e) w"
| "zone_editor_step uuid c (Toggle_rule i) w = on_editor (handleToggle i) w"
| "zone_editor_step uuid c (Delete_rule i) w = on_editor (\<lambda>e. if i \<in> vr_id ` set (ve_rules e) then send_task (Deleting i) e else e) w"
| "zone_editor_step uuid c (Canvas_click m) w = on_editor (\<lambda>e. fold editor_call (onClick (editor_canvas c e) m) e) w"
| "zone_editor_step uuid c Canvas_double w = on_editor (\<lambda>e. fold editor_call (onDoubleClick (editor_canvas c e)) e) w"
| "zone_editor_step uuid c (Canvas_down m) w = on_editor (\<lambda>e. e\<lparr>ve_drag := vc_draggingVertex (onMouseDown (editor_canvas c e) m)\<rparr>) w"
| "zone_editor_step uuid c (Canvas_move m) w = on_editor (\<lambda>e. fold editor_call (onMouseMove (editor_canvas c e) m) e) w"
| "zone_editor_step uuid c Canvas_up w = on_editor (\<lambda>e. case onMouseUp (editor_canvas c e) of
     (v, calls) \<Rightarrow> (fold editor_call calls e)\<lparr>ve_drag := vc_draggingVertex v\<rparr>) w"
| "zone_editor_step uuid c (Editor_task n r) w = editor_task_ended uuid n r w"

definition sync_shown_red :: "VcaEditor \<Rightarrow> bool" where
  "sync_shown_red e \<longleftrightarrow> contains_str ''failed'' (nullish (ve_sync e) [])"

section \<open>What the editor sends\<close>

definition zone_sendable :: "VCARuleCreate \<Rightarrow> bool" where
  "zone_sendable c \<longleftrightarrow> vi_rule_type c \<in> rt_key ` set RULE_TYPES \<and> rt_minPoints (ruleConfig (vi_rule_type c)) \<le> length (vi_region c) \<and>
     2 \<le> length (vi_region c) \<and> (\<forall>p\<in>set (vi_region c). unit_point p)"

fun zone_task_ok :: "editor_task \<Rightarrow> bool" where
  "zone_task_ok (Creating c) \<longleftrightarrow> zone_sendable c"
| "zone_task_ok _ \<longleftrightarrow> True"

definition editor_ok :: "VcaEditor \<Rightarrow> bool" where
  "editor_ok e \<longleftrightarrow> ve_drawType e \<in> rt_key ` set RULE_TYPES \<and> (\<forall>p\<in>set (ve_drawPoints e). unit_point p) \<and> list_all zone_task_ok (ve_tasks e)"

lemma min_points: "rt_minPoints (ruleConfig k) = 2 \<or> rt_minPoints (ruleConfig k) = 3"
  using vca_rules.config_minPoints [of k] by (simp add: ruleConfig_def)

lemma finish_ok: "editor_ok e \<Longrightarrow> \<forall>p\<in>set pts. unit_point p \<Longrightarrow> editor_ok (finishDrawing pts e)"
  using min_points [of "ve_drawType e"]
  by (auto simp: editor_ok_def finishDrawing_def send_task_def zone_sendable_def new_zone_def)

definition call_ok :: "canvas_call \<Rightarrow> bool" where
  "call_ok k \<longleftrightarrow> (case k of DraftPointAdd p \<Rightarrow> unit_point p | PolygonComplete pts \<Rightarrow> \<forall>p\<in>set pts. unit_point p | _ \<Rightarrow> True)"

lemma call_editor_ok: "call_ok k \<Longrightarrow> editor_ok e \<Longrightarrow> editor_ok (editor_call k e)"
proof (cases k)
  case (VertexDragEnd i)
  then show "editor_ok e \<Longrightarrow> editor_ok (editor_call k e)" by (auto simp: editor_ok_def send_task_def split: option.split)
next
  case (PolygonComplete pts)
  then show "call_ok k \<Longrightarrow> editor_ok e \<Longrightarrow> editor_ok (editor_call k e)" by (simp add: call_ok_def finish_ok)
qed (auto simp: call_ok_def editor_ok_def)

lemma calls_editor_ok: "\<forall>k\<in>set ks. call_ok k \<Longrightarrow> editor_ok e \<Longrightarrow> editor_ok (fold editor_call ks e)"
  by (induction ks arbitrary: e) (simp_all add: call_editor_ok)

lemma canvas_calls_ok:
  assumes "editor_ok e" "k \<in> set (onClick (editor_canvas c e) m) \<union> set (onDoubleClick (editor_canvas c e)) \<union> set (onMouseMove (editor_canvas c e) m)"
  shows "call_ok k"
  using completed_polygon_valid [of "editor_canvas c e" k m] assms
  by (auto simp: editor_canvas_def editor_ok_def call_ok_def split: canvas_call.splits)

lemma editor_ok_tasks:
  "editor_ok e \<Longrightarrow> zone_task_ok t \<Longrightarrow> editor_ok (send_task t e)" "editor_ok e \<Longrightarrow> editor_ok (reset_drawing e)"
  "editor_ok e \<Longrightarrow> editor_ok (save_failed msg e)" "editor_ok e \<Longrightarrow> editor_ok (autoSync e)" "editor_ok e \<Longrightarrow> editor_ok (loaded k rs e)"
  "editor_ok e \<Longrightarrow> editor_ok (e\<lparr>ve_selected := i\<rparr>)" "editor_ok e \<Longrightarrow> editor_ok (e\<lparr>ve_drag := d\<rparr>)"
  by (auto simp: editor_ok_def send_task_def reset_drawing_def save_failed_def autoSync_def loaded_def Let_def split: load_end.split)

lemma editor_ok_drop: "editor_ok e \<Longrightarrow> editor_ok (e\<lparr>ve_tasks := drop_nth n (ve_tasks e)\<rparr>)"
  by (auto simp: editor_ok_def list_all_iff dest: set_drop_nth)

lemma task_ended_ok: "editor_ok (ew_editor w) \<Longrightarrow> editor_ok (ew_editor (editor_task_ended uuid n r w))"
  using editor_ok_drop [of "ew_editor w" n]
  by (auto simp: editor_task_ended_def create_ended_def update_ended_def delete_ended_def load_ended_def Let_def editor_ok_tasks
      split: editor_task.split task_end.split sum.split)

lemma zone_step_ok:
  assumes ok: "editor_ok (ew_editor w)"
  shows "editor_ok (ew_editor (zone_editor_step uuid c ev w))"
proof -
  note calls = calls_editor_ok [OF _ ok, OF ballI, OF canvas_calls_ok [OF ok, of _ c]]
  have calls: "editor_ok (fold editor_call (onClick (editor_canvas c (ew_editor w)) m) (ew_editor w))"
    "editor_ok (fold editor_call (onDoubleClick (editor_canvas c (ew_editor w))) (ew_editor w))"
    "editor_ok (fold editor_call (onMouseMove (editor_canvas c (ew_editor w)) m) (ew_editor w))" for m
    by (rule calls, blast)+
  show ?thesis
proof (cases ev)
  case (Canvas_click m)
  with calls show ?thesis by (simp add: on_editor_def)
next
  case (Canvas_move m)
  with calls show ?thesis by (simp add: on_editor_def)
next
  case Canvas_double
  with calls show ?thesis by (simp add: on_editor_def)
next
  case Canvas_up
  then show ?thesis using ok call_editor_ok [of "VertexDragEnd _" "ew_editor w"]
    by (auto simp: on_editor_def onMouseUp_def editor_canvas_def call_ok_def editor_ok_tasks split: option.split)
next
  case Save_zone
  then show ?thesis using ok finish_ok [OF ok, of "ve_drawPoints (ew_editor w)"] by (auto simp: on_editor_def editor_ok_def)
next
  case (Editor_task n r)
  then show ?thesis using task_ended_ok [OF ok] by simp
next
  case Undo_point
  then show ?thesis using ok by (auto simp: on_editor_def editor_ok_def dest: in_set_butlastD)
next
  case (Toggle_rule i)
  then show ?thesis using ok by (auto simp: on_editor_def handleToggle_def editor_ok_tasks split: option.split)
next
  case (Canvas_down m)
  then show ?thesis using ok by (simp add: on_editor_def editor_ok_tasks)
next
  case Cancel_drawing
  then show ?thesis using ok by (simp add: on_editor_def editor_ok_tasks)
next
  case (Delete_rule i)
  then show ?thesis using ok by (auto simp: on_editor_def editor_ok_tasks)
qed (use ok in \<open>auto simp: on_editor_def editor_ok_def pick_type_def\<close>)
qed

interpretation zone_editor: machine "zone_editor_step uuid c" "\<lambda>w. \<exists>cam. ew_editor w = open_editor cam" "\<lambda>w. editor_ok (ew_editor w)"
proof unfold_locales
  fix w
  show "\<exists>cam. ew_editor w = open_editor cam \<Longrightarrow> editor_ok (ew_editor w)"
    by (auto simp: editor_ok_def open_editor_def RULE_TYPES_def rule_type_def)
qed (rule zone_step_ok)

text \<open>C37: Every zone the editor sends is one the server accepts: at any moment of any use, with requests answered in any order or lost, a
  new zone under way has a type of the catalogue, as many points as the type needs, and all of them inside the picture.\<close>

theorem zones_sent_valid:
  "list_all zone_task_ok (ve_tasks (ew_editor (fold (zone_editor_step uuid c) es \<lparr>ew_editor = open_editor cam, ew_db = db\<rparr>)))"
proof -
  have "editor_ok (ew_editor (fold (zone_editor_step uuid c) es \<lparr>ew_editor = open_editor cam, ew_db = db\<rparr>))"
    by (rule zone_editor.inv_run) (simp add: editor_ok_def open_editor_def RULE_TYPES_def rule_type_def)
  then show ?thesis by (simp add: editor_ok_def)
qed

text \<open>A sendable zone is refused for nothing but a repeated identifier.\<close>

lemma sendable_accepted: "zone_sendable c \<Longrightarrow> HandleCreateVCARule uuid cam c db = CreateVCARule uuid cam c db"
  by (auto simp: zone_sendable_def HandleCreateVCARule_def RULE_TYPES_def rule_type_def)

section \<open>What the editor shows\<close>

text \<open>A rule but for its mark of synchronisation, and, for the rule whose vertex is being dragged, its region.\<close>

definition blank :: "id option \<Rightarrow> VCARule \<Rightarrow> VCARule" where
  "blank d r = r\<lparr>vr_synced := False, vr_region := if d = Some (vr_id r) then [] else vr_region r\<rparr>"

definition shows_rules :: "id option \<Rightarrow> VCARule list \<Rightarrow> VCARule list \<Rightarrow> bool" where
  "shows_rules d rs srv \<longleftrightarrow> map (blank d) rs = map (blank d) srv"

fun patient_event :: "zone_editor_event \<Rightarrow> VcaEditor \<Rightarrow> bool" where
  "patient_event (Editor_task n r) e \<longleftrightarrow> r = Served"
| "patient_event (Canvas_down m) e \<longleftrightarrow> ve_tasks e = [] \<and> ve_drag e = None"
| "patient_event (Canvas_move m) e \<longleftrightarrow> ve_tasks e = [] \<or> ve_drag e = None"
| "patient_event Canvas_up e \<longleftrightarrow> ve_tasks e = [] \<or> ve_drag e = None"
| "patient_event (Canvas_click m) e \<longleftrightarrow> ve_tasks e = [] \<or> ve_drawMode e = Idle"
| "patient_event (Row_click i) e \<longleftrightarrow> True"
| "patient_event _ e \<longleftrightarrow> ve_tasks e = []"

text \<open>Every request is served, no second vertex is taken while one is dragged, and while a request is under way the user at most moves the
  pointer and selects zones; so the click that follows the release of a dragged vertex is allowed.\<close>

fun patient :: "(nat \<Rightarrow> id) \<Rightarrow> Canvas \<Rightarrow> zone_editor_event list \<Rightarrow> EditorWorld \<Rightarrow> bool" where
  "patient uuid c [] w \<longleftrightarrow> True"
| "patient uuid c (e # es) w \<longleftrightarrow> patient_event e (ew_editor w) \<and> patient uuid c es (zone_editor_step uuid c e w)"

fun shows_stored :: "editor_task list \<Rightarrow> VcaEditor \<Rightarrow> VcaDb \<Rightarrow> bool" where
  "shows_stored [] e db \<longleftrightarrow> shows_rules (map_option fst (ve_drag e)) (ve_rules e) (ListVCARules (ve_camera e) db)"
| "shows_stored [Creating c] e db \<longleftrightarrow> shows_rules (map_option fst (ve_drag e)) (ve_rules e) (ListVCARules (ve_camera e) db)"
| "shows_stored [Updating i c dragged] e db \<longleftrightarrow>
     (dragged \<longrightarrow> ve_drag e = None \<and> shows_rules None (ve_rules e) (ListVCARules (ve_camera e) (UpdateVCARule i c db)))"
| "shows_stored [Deleting i] e db \<longleftrightarrow> True"
| "shows_stored [Loading k] e db \<longleftrightarrow> True"
| "shows_stored (t1 # t2 # ts) e db \<longleftrightarrow> False"

definition rows_distinct :: "VcaDb \<Rightarrow> bool" where
  "rows_distinct db \<longleftrightarrow> distinct (map (vr_id \<circ> fst) (vd_rows db))"

definition mirror_inv :: "EditorWorld \<Rightarrow> bool" where
  "mirror_inv w \<longleftrightarrow> rows_distinct (ew_db w) \<and> shows_stored (ve_tasks (ew_editor w)) (ew_editor w) (ew_db w)"

lemma ids_kept: "rows_distinct (UpdateVCARule i c db) = rows_distinct db" "rows_distinct (SoftDeleteVCARule i db) = rows_distinct db"
proof -
  have "map (vr_id \<circ> fst) (vd_rows (UpdateVCARule i c db)) = map (vr_id \<circ> fst) (vd_rows db)"
    by (auto simp: UpdateVCARule_def updated_rule_def)
  then show "rows_distinct (UpdateVCARule i c db) = rows_distinct db" by (simp only: rows_distinct_def)
  have "map (vr_id \<circ> fst) (vd_rows (SoftDeleteVCARule i db)) = map (vr_id \<circ> fst) (vd_rows db)"
    by (auto simp: SoftDeleteVCARule_def)
  then show "rows_distinct (SoftDeleteVCARule i db) = rows_distinct db" by (simp only: rows_distinct_def)
qed

lemma ids_created: "rows_distinct db \<Longrightarrow> HandleCreateVCARule uuid cam c db = Inr db' \<Longrightarrow> rows_distinct db'"
  by (auto simp: HandleCreateVCARule_def CreateVCARule_def Let_def rows_distinct_def vcaRuleFromCreate_def comp_def split: if_splits)

lemma listed_distinct: "rows_distinct db \<Longrightarrow> distinct (map vr_id (ListVCARules cam db))"
proof -
  assume "rows_distinct db"
  then have "distinct (map (vr_id \<circ> fst) (filter (\<lambda>x. \<not> snd x \<and> vr_camera_id (fst x) = cam) (vd_rows db)))"
    unfolding rows_distinct_def by (rule distinct_map_filter)
  moreover have "ListVCARules cam db = map fst (filter (\<lambda>x. \<not> snd x \<and> vr_camera_id (fst x) = cam) (vd_rows db))"
    by (simp add: ListVCARules_def filter_map comp_def case_prod_unfold conj_commute)
  ultimately show ?thesis by simp
qed

lemma listed_updated: "ListVCARules cam (UpdateVCARule i c db) = map (\<lambda>r. if vr_id r = i then updated_rule c r else r) (ListVCARules cam db)"
proof -
  have "filter (\<lambda>r. vr_camera_id r = cam) (map fst (filter (\<lambda>(r, d). \<not> d) (map (\<lambda>(r, d). if vr_id r = i then (updated_rule c r, d) else (r, d)) rows)))
    = map (\<lambda>r. if vr_id r = i then updated_rule c r else r) (filter (\<lambda>r. vr_camera_id r = cam) (map fst (filter (\<lambda>(r, d). \<not> d) rows)))" for rows
    by (induction rows) (auto simp: updated_rule_def)
  then show ?thesis by (simp add: ListVCARules_def UpdateVCARule_def)
qed

lemma mirrors_weaken: "shows_rules None rs srv \<Longrightarrow> shows_rules d rs srv"
proof -
  have "blank d = blank d \<circ> blank None" by (auto simp: blank_def)
  then show "shows_rules None rs srv \<Longrightarrow> shows_rules d rs srv" unfolding shows_rules_def by (metis map_map)
qed

lemma mirrors_nth:
  "shows_rules d rs srv \<longleftrightarrow> length rs = length srv \<and> (\<forall>i<length rs. blank d (rs ! i) = blank d (srv ! i))"
  by (auto simp: shows_rules_def list_eq_iff_nth_eq)

lemma blank_eqD: "blank d r = blank d s \<Longrightarrow> vr_id r = vr_id s"
  by (drule arg_cong [of _ _ vr_id]) (simp add: blank_def)

lemma mirrors_ids: "shows_rules d rs srv \<Longrightarrow> map vr_id rs = map vr_id srv"
  by (rule nth_equalityI) (auto simp: mirrors_nth intro: blank_eqD)

lemma blank_other: "vr_id r \<noteq> z \<Longrightarrow> blank (Some z) r = blank None r"
  by (simp add: blank_def)

lemma blank_updated:
  "blank (Some z) r = blank (Some z) s \<Longrightarrow> vr_id r = z \<Longrightarrow> blank None r = blank None (updated_rule (ruleToCreate r) s)"
  by (cases r; cases s) (auto simp: blank_def updated_rule_def ruleToCreate_def nullish_def)

lemma mirrors_saved:
  assumes "shows_rules (Some z) rs srv" "distinct (map vr_id srv)" "List.find (\<lambda>r. vr_id r = z) rs = Some r"
  shows "shows_rules None rs (map (\<lambda>s. if vr_id s = z then updated_rule (ruleToCreate r) s else s) srv)"
proof -
  have r: "r \<in> set rs" "vr_id r = z" using find_SomeD [OF assms(3)] by auto
  have "blank None (rs ! i) = blank None (if vr_id (srv ! i) = z then updated_rule (ruleToCreate r) (srv ! i) else srv ! i)"
    if "i < length rs" for i
  proof -
    have eq: "blank (Some z) (rs ! i) = blank (Some z) (srv ! i)" using assms(1) that by (simp add: mirrors_nth)
    note id = blank_eqD [OF eq]
    show ?thesis
    proof (cases "vr_id (rs ! i) = z")
      case True
      have "distinct (map vr_id rs)" using mirrors_ids [OF assms(1)] assms(2) by simp
      then have "rs ! i = r" using r True that by (auto simp: distinct_map inj_on_def)
      then show ?thesis using blank_updated [OF eq True] id True by simp
    next
      case False
      then show ?thesis using eq id by (simp add: blank_other)
    qed
  qed
  moreover have "length rs = length srv" using assms(1) by (simp add: mirrors_nth)
  ultimately show ?thesis by (simp add: mirrors_nth)
qed

lemma mirrors_absent:
  assumes "shows_rules (Some z) rs srv" "List.find (\<lambda>r. vr_id r = z) rs = None"
  shows "shows_rules None rs srv"
proof -
  have "blank None (rs ! i) = blank None (srv ! i)" if "i < length rs" for i
  proof -
    have eq: "blank (Some z) (rs ! i) = blank (Some z) (srv ! i)" using assms(1) that by (simp add: mirrors_nth)
    have "vr_id (rs ! i) \<noteq> z" using assms(2) that by (auto simp: find_None_iff)
    then show ?thesis using eq blank_eqD [OF eq] by (simp add: blank_other)
  qed
  then show ?thesis using assms(1) by (simp add: mirrors_nth)
qed

lemma shows_same:
  "ve_rules e' = ve_rules e \<Longrightarrow> ve_drag e' = ve_drag e \<Longrightarrow> ve_camera e' = ve_camera e \<Longrightarrow> shows_stored ts e' db = shows_stored ts e db"
  by (induction ts e db rule: shows_stored.induct) simp_all

definition draw_call :: "canvas_call \<Rightarrow> bool" where
  "draw_call k \<longleftrightarrow> (case k of VertexMove i n p \<Rightarrow> False | VertexDragEnd i \<Rightarrow> False | _ \<Rightarrow> True)"

lemma few_calls:
  "length (onClick v m) \<le> 1" "length (onDoubleClick v) \<le> 1"
  "k \<in> set (onClick v m) \<union> set (onDoubleClick v) \<Longrightarrow> draw_call k"
  by (auto simp: onClick_def onDoubleClick_def draw_call_def Let_def split: DrawMode.splits option.splits if_splits)

lemma idle_click_selects: "vc_drawMode v = Idle \<Longrightarrow> k \<in> set (onClick v m) \<Longrightarrow> \<exists>i. k = ZoneSelect i"
  by (auto simp: onClick_def Let_def split: option.splits if_splits)

lemma selecting_keeps:
  assumes "\<forall>k\<in>set ks. \<exists>i. k = ZoneSelect i"
  shows "\<exists>s. fold editor_call ks e = e\<lparr>ve_selected := s\<rparr>"
  using assms
proof (induction ks arbitrary: e)
  case Nil
  have "e = e\<lparr>ve_selected := ve_selected e\<rparr>" by simp
  then show ?case by (metis fold_simps(1))
next
  case (Cons k ks)
  then obtain i where "k = ZoneSelect i" by auto
  then show ?case using Cons.IH [of "e\<lparr>ve_selected := i\<rparr>"] Cons.prems by auto
qed

lemma finish_shows: "ve_tasks e = [] \<Longrightarrow> shows_stored [] e db \<Longrightarrow> shows_stored (ve_tasks (finishDrawing pts e)) (finishDrawing pts e) db"
  by (simp add: finishDrawing_def send_task_def)

lemma call_shows:
  assumes "ve_tasks e = []" "shows_stored [] e db" "draw_call k"
  shows "shows_stored (ve_tasks (editor_call k e)) (editor_call k e) db"
  using assms finish_shows [OF assms(1,2)] by (cases k) (simp_all add: draw_call_def)

lemma calls_show:
  assumes "ve_tasks e = []" "shows_stored [] e db" "length ks \<le> 1" "\<forall>k\<in>set ks. draw_call k"
  shows "shows_stored (ve_tasks (fold editor_call ks e)) (fold editor_call ks e) db"
  using assms call_shows [OF assms(1,2)] by (cases ks) auto

lemma drag_shows:
  assumes "rows_distinct db" "ve_tasks e = []" "shows_stored [] e db" "ve_drag e = Some (z, n)"
  shows "shows_stored (ve_tasks (editor_call (VertexDragEnd z) e)) ((editor_call (VertexDragEnd z) e)\<lparr>ve_drag := None\<rparr>) db"
proof (cases "List.find (\<lambda>r. vr_id r = z) (ve_rules e)")
  case None
  then show ?thesis using assms mirrors_absent by simp
next
  case (Some r)
  have "vr_id r = z" using find_SomeD [OF Some] by simp
  moreover have "shows_rules None (ve_rules e) (map (\<lambda>s. if vr_id s = z then updated_rule (ruleToCreate r) s else s) (ListVCARules (ve_camera e) db))"
    using assms listed_distinct Some by (intro mirrors_saved) simp_all
  ultimately show ?thesis using Some assms(2) by (simp add: send_task_def listed_updated)
qed

lemma move_shows: "shows_stored [] e db \<Longrightarrow> ve_drag e = Some (z, n) \<Longrightarrow> shows_stored [] (editor_call (VertexMove z n p) e) db"
proof -
  have "blank (Some z) (move_vertex z n p r) = blank (Some z) r" for r by (simp add: blank_def move_vertex_def)
  then show "shows_stored [] e db \<Longrightarrow> ve_drag e = Some (z, n) \<Longrightarrow> shows_stored [] (editor_call (VertexMove z n p) e) db"
    by (simp add: shows_rules_def comp_def)
qed

lemma create_rules_kept: "ve_rules (save_failed m e) = ve_rules e" "ve_drag (save_failed m e) = ve_drag e" "ve_camera (save_failed m e) = ve_camera e"
    "ve_tasks (save_failed m e) = ve_tasks e"
  by (simp_all add: save_failed_def reset_drawing_def)

lemma loaded_fields: "ve_rules (loaded k rs e) = rs" "ve_drag (loaded k rs e) = ve_drag e" "ve_camera (loaded k rs e) = ve_camera e"
    "ve_tasks (loaded k rs e) = ve_tasks e"
  by (simp_all add: loaded_def Let_def reset_drawing_def autoSync_def split: load_end.split)

lemma served_shows:
  assumes "mirror_inv w"
  shows "mirror_inv (editor_task_ended uuid n Served w)"
proof (cases "n < length (ve_tasks (ew_editor w))")
  case True
  let ?e = "ew_editor w"
  obtain t where t: "ve_tasks ?e = [t]" "n = 0"
    using assms True by (auto simp: mirror_inv_def elim!: shows_stored.elims)
  have ids: "rows_distinct (ew_db w)" using assms by (simp add: mirror_inv_def)
  show ?thesis
  proof (cases t)
    case (Creating c)
    then show ?thesis using assms t ids_created [OF ids]
      by (auto simp: mirror_inv_def editor_task_ended_def create_ended_def Let_def create_rules_kept send_task_def split: sum.split)
  next
    case (Updating i c dragged)
    then show ?thesis using assms t ids
      by (auto simp: mirror_inv_def editor_task_ended_def update_ended_def autoSync_def send_task_def ids_kept Let_def)
  next
    case (Deleting i)
    then show ?thesis using t ids by (simp add: mirror_inv_def editor_task_ended_def delete_ended_def Let_def send_task_def ids_kept)
  next
    case (Loading k)
    then show ?thesis using t ids by (simp add: mirror_inv_def editor_task_ended_def load_ended_def Let_def loaded_fields shows_rules_def)
  qed
qed (use assms in \<open>simp add: editor_task_ended_def\<close>)

lemma patient_step:
  assumes "mirror_inv w" "patient_event ev (ew_editor w)"
  shows "mirror_inv (zone_editor_step uuid c ev w)"
proof -
  let ?e = "ew_editor w"
  have ids: "rows_distinct (ew_db w)" using assms(1) by (simp add: mirror_inv_def)
  have idle: "shows_stored [] ?e (ew_db w)" if "ve_tasks ?e = []" using assms(1) that by (simp add: mirror_inv_def)
  have keep: "mirror_inv (on_editor f w)" if "ve_tasks ?e = [] \<Longrightarrow> shows_stored (ve_tasks (f ?e)) (f ?e) (ew_db w)" "ve_tasks ?e = []" for f
    using that ids by (simp add: mirror_inv_def on_editor_def)
  have same: "mirror_inv (on_editor f w)" if "ve_rules (f ?e) = ve_rules ?e" "ve_drag (f ?e) = ve_drag ?e"
    "ve_camera (f ?e) = ve_camera ?e" "ve_tasks (f ?e) = ve_tasks ?e" for f
    using that assms(1) shows_same [of "f ?e" ?e] by (simp add: mirror_inv_def on_editor_def)
  have draws: "length (onClick v m) \<le> 1" "k \<in> set (onClick v m) \<Longrightarrow> draw_call k" "length (onDoubleClick v) \<le> 1"
    "k \<in> set (onDoubleClick v) \<Longrightarrow> draw_call k" for v m k
    using few_calls(1,2) [of v] few_calls(3) by auto
  show ?thesis
  proof (cases ev)
    case (Editor_task n r)
    then show ?thesis using assms served_shows by simp
  next
    case (Canvas_click m)
    show ?thesis
    proof (cases "ve_drawMode ?e = Idle")
      case True
      then obtain s where "fold editor_call (onClick (editor_canvas c ?e) m) ?e = ?e\<lparr>ve_selected := s\<rparr>"
        using selecting_keeps idle_click_selects [of "editor_canvas c ?e" _ m] by (metis editor_canvas_def VCACanvas.select_convs(5))
      then show ?thesis using Canvas_click by (auto intro!: same)
    next
      case False
      then have "ve_tasks ?e = []" using assms(2) Canvas_click by simp
      with Canvas_click idle show ?thesis using draws(1,2) by (auto intro!: keep calls_show)
    qed
  next
    case Canvas_double
    then have "ve_tasks ?e = []" using assms(2) by simp
    with Canvas_double idle show ?thesis using draws(3,4) by (auto intro!: keep calls_show)
  next
    case (Canvas_move m)
    show ?thesis
    proof (cases "ve_drag ?e")
      case None
      then show ?thesis using Canvas_move by (auto intro!: same simp: onMouseMove_def editor_canvas_def)
    next
      case (Some d)
      then have none: "ve_tasks ?e = []" using assms(2) Canvas_move by simp
      then show ?thesis using Canvas_move Some move_shows [OF idle [OF none]]
        by (auto intro!: keep simp: onMouseMove_def editor_canvas_def split: prod.split)
    qed
  next
    case Canvas_up
    show ?thesis
    proof (cases "ve_drag ?e")
      case None
      then show ?thesis using Canvas_up by (auto intro!: same simp: onMouseUp_def editor_canvas_def)
    next
      case (Some d)
      then have none: "ve_tasks ?e = []" using assms(2) Canvas_up by simp
      then show ?thesis using Canvas_up Some drag_shows [OF ids none idle [OF none]]
        by (auto intro!: keep simp: onMouseUp_def editor_canvas_def split: prod.split)
    qed
  next
    case (Canvas_down m)
    then have none: "ve_tasks ?e = []" "ve_drag ?e = None" using assms(2) by simp_all
    then show ?thesis using Canvas_down idle mirrors_weaken by (auto intro!: keep)
  next
    case Save_zone
    then have none: "ve_tasks ?e = []" using assms(2) by simp
    then show ?thesis using Save_zone finish_shows idle by (auto intro!: keep)
  next
    case (Toggle_rule i)
    then show ?thesis using assms(2) idle by (auto intro!: keep simp: handleToggle_def send_task_def split: option.split)
  next
    case (Delete_rule i)
    then show ?thesis using assms(2) idle by (auto intro!: keep simp: send_task_def)
  qed (use assms(2) in \<open>auto intro!: same simp: pick_type_def reset_drawing_def\<close>)
qed

lemma patient_run: "mirror_inv w \<Longrightarrow> patient uuid c es w \<Longrightarrow> mirror_inv (fold (zone_editor_step uuid c) es w)"
  by (induction es arbitrary: w) (simp_all add: patient_step)

text \<open>C38: As long as every request is served, a user who takes one vertex at a time and, while a request is under way, at most moves the
  pointer and selects zones sees the stored zones: whenever no request is under way and no vertex is held, the editor's rules are
  the server's rules of that camera, in the same order, but for the mark of synchronisation.\<close>

theorem editor_mirrors_server:
  assumes "rows_distinct db" and "patient uuid c es \<lparr>ew_editor = open_editor cam, ew_db = db\<rparr>"
    and "ve_tasks (ew_editor (fold (zone_editor_step uuid c) es \<lparr>ew_editor = open_editor cam, ew_db = db\<rparr>)) = []"
    and "ve_drag (ew_editor (fold (zone_editor_step uuid c) es \<lparr>ew_editor = open_editor cam, ew_db = db\<rparr>)) = None"
  shows "(let w = fold (zone_editor_step uuid c) es \<lparr>ew_editor = open_editor cam, ew_db = db\<rparr> in
    shows_rules None (ve_rules (ew_editor w)) (ListVCARules (ve_camera (ew_editor w)) (ew_db w)))"
proof -
  have "mirror_inv \<lparr>ew_editor = open_editor cam, ew_db = db\<rparr>" using assms(1) by (simp add: mirror_inv_def open_editor_def)
  then have "mirror_inv (fold (zone_editor_step uuid c) es \<lparr>ew_editor = open_editor cam, ew_db = db\<rparr>)" using assms(2) by (rule patient_run)
  then show ?thesis using assms(3,4) by (simp add: mirror_inv_def Let_def)
qed

definition unit_canvas :: Canvas where
  "unit_canvas = \<lparr>cv_width = 1, cv_height = 1, cv_rect_left = 0, cv_rect_top = 0, cv_rect_width = 1, cv_rect_height = 1\<rparr>"

abbreviation no_rules :: VcaDb where "no_rules \<equiv> \<lparr>vd_rows = [], vd_made = 0\<rparr>"

abbreviation mouse :: "number \<Rightarrow> number \<Rightarrow> MouseEvent" where "mouse x y \<equiv> \<lparr>me_clientX = x, me_clientY = y\<rparr>"

abbreviation triangle :: "zone_editor_event list" where
  "triangle \<equiv> [Editor_task 0 Served, Pick_type ''intrusion'', Canvas_click (mouse 0 0), Canvas_click (mouse 1 0), Canvas_click (mouse 1 1)]"

abbreviation triangle_saved :: "zone_editor_event list" where
  "triangle_saved \<equiv> triangle @ [Save_zone, Editor_task 0 Served, Editor_task 0 Served]"

text \<open>The last corner dragged; the browser reports the release as a click, too.\<close>

abbreviation corner_dragged :: "zone_editor_event list" where
  "corner_dragged \<equiv> triangle_saved @ [Row_click ''0'', Canvas_down (mouse 1 1), Canvas_move (mouse 0 1), Canvas_up, Canvas_click (mouse 0 1), Editor_task 0 Served]"

abbreviation drawn :: "zone_editor_event list \<Rightarrow> EditorWorld" where
  "drawn es \<equiv> fold (zone_editor_step nat_str unit_canvas) es \<lparr>ew_editor = open_editor ''cam-1'', ew_db = no_rules\<rparr>"

theorem editor_mirrors_server_witness:
  "shows_rules None (ve_rules (ew_editor (drawn corner_dragged))) (ListVCARules ''cam-1'' (ew_db (drawn corner_dragged))) \<and>
   map (\<lambda>r. (vr_name r, vr_region r)) (ve_rules (ew_editor (drawn corner_dragged))) = [(''Intrusion Zone 1'', map (\<lambda>(x, y). \<lparr>cp_x = x, cp_y = y\<rparr>) [(0, 0), (1, 0), (0, 1)])]"
proof -
  have "rows_distinct no_rules" by code_simp
  moreover have "patient nat_str unit_canvas corner_dragged \<lparr>ew_editor = open_editor ''cam-1'', ew_db = no_rules\<rparr>" by code_simp
  moreover have "ve_tasks (ew_editor (drawn corner_dragged)) = []" by code_simp
  moreover have "ve_drag (ew_editor (drawn corner_dragged)) = None" by code_simp
  ultimately have "let w = drawn corner_dragged in shows_rules None (ve_rules (ew_editor w)) (ListVCARules (ve_camera (ew_editor w)) (ew_db w))"
    by (rule editor_mirrors_server)
  moreover have "ve_camera (ew_editor (drawn corner_dragged)) = ''cam-1''" by code_simp
  moreover have "map (\<lambda>r. (vr_name r, vr_region r)) (ve_rules (ew_editor (drawn corner_dragged))) = [(''Intrusion Zone 1'', map (\<lambda>(x, y). \<lparr>cp_x = x, cp_y = y\<rparr>) [(0, 0), (1, 0), (0, 1)])]" by code_simp
  ultimately show ?thesis by (simp only: Let_def)
qed

text \<open>A double click on the first vertex, which is two clicks and the double click, stores the zone three times.\<close>

lemma double_click_stores_thrice:
  "length (ListVCARules ''cam-1'' (ew_db (drawn (triangle @ [Canvas_click (mouse 0 0), Canvas_click (mouse 0 0), Canvas_double] @
     replicate 6 (Editor_task 0 Served))))) = 3"
  by code_simp

text \<open>A tripwire whose end is double-clicked is stored twice.\<close>

lemma tripwire_stored_twice:
  "length (ListVCARules ''cam-1'' (ew_db (drawn ([Editor_task 0 Served, Pick_type ''linecross'', Canvas_click (mouse 0 0), Canvas_click (mouse 1 1),
     Canvas_click (mouse 1 1), Canvas_double] @ replicate 4 (Editor_task 0 Served))))) = 2"
  by code_simp

text \<open>A new drawing begun after a cancellation, while the zone before is still being stored, is thrown away by its answer.\<close>

lemma late_answer_discards_drawing:
  "let e = ew_editor (drawn (triangle @ [Save_zone, Cancel_drawing, Pick_type ''loitering'', Canvas_click (mouse 0 1), Editor_task 0 Served, Editor_task 0 Served]))
   in ve_drawMode e = Idle \<and> ve_drawPoints e = []"
  by code_simp

text \<open>A refused creation is reported in the colour of success.\<close>

lemma failure_shown_green:
  "let e = ew_editor (drawn (triangle @ [Save_zone, Editor_task 0 (Refused_with ''forbidden'')]))
   in ve_sync e = Some ''Failed to save rule: forbidden'' \<and> \<not> sync_shown_red e"
  by code_simp

text \<open>A vertex whose move is refused stays where it was dropped on screen, without a word.\<close>

lemma refused_move_shown:
  "let w = drawn (triangle_saved @ [Row_click ''0'', Canvas_down (mouse 1 1), Canvas_move (mouse 0 1), Canvas_up, Editor_task 0 (Refused_with ''forbidden'')])
   in map vr_region (ve_rules (ew_editor w)) \<noteq> map vr_region (ListVCARules ''cam-1'' (ew_db w))"
  by code_simp

end
