(* ===== verification/Portal_Site.thy ===== *)
theory Portal_Site
  imports Settings_Page Media Api_Routes Requests
begin

text \<open>
  The portal's page of one site, \<^verbatim>\<open>frontend/src/app/portal/sites/[id]/page.tsx\<close>: snoozing the monitoring with what the
  server makes of it, the picture of the selected event as a machine over the effect that loads it, the figures in the head
  of the page and the texts of the event pane. Shown: the picture on screen is always the selected event's, and every other one was
  released; a snooze never arrives; and the figures are constants, because the server's answer lacks what they are computed from.
\<close>

section \<open>Snoozing\<close>

definition SNOOZE_DURATIONS :: "(string \<times> ms) list" where
  "SNOOZE_DURATIONS = [(''30 min'', 30 * 60000), (''1 hour'', 60 * 60000), (''4 hours'', 4 * 60 * 60000), (''8 hours'', 8 * 60 * 60000),
     (''24 hours'', 24 * 60 * 60000)]"

record SiteSnooze =
  sz_active :: bool
  sz_reason :: string
  sz_snoozed_by :: string
  sz_snoozed_at :: string
  sz_expires_at :: string

definition snooze_json :: "SiteSnooze \<Rightarrow> json" where
  "snooze_json s = JObj [(''active'', JBool (sz_active s)), (''reason'', JStr (sz_reason s)), (''snoozed_by'', JStr (sz_snoozed_by s)),
     (''snoozed_at'', JStr (sz_snoozed_at s)), (''expires_at'', JStr (sz_expires_at s))]"

text \<open>\<open>parse_date\<close> is \<^verbatim>\<open>new Date(iso).getTime()\<close>; a comparison with NaN is false.\<close>

definition isSnoozed :: "(string \<Rightarrow> ms option) \<Rightarrow> ms \<Rightarrow> json \<Rightarrow> bool" where
  "isSnoozed parse_date now site =
     (case json_field ''snooze'' site of
        None \<Rightarrow> False
      | Some s \<Rightarrow> (case json_field ''active'' s of Some a \<Rightarrow> truthy_json a | None \<Rightarrow> False) \<and>
          (case parse_date (str_field ''expires_at'' s []) of Some t \<Rightarrow> now < t | None \<Rightarrow> False))"

record SnoozeMenu =
  sm_open :: bool
  sm_reason :: string

text \<open>The signed-in user's name and mail address, as far as there are any.\<close>

definition new_snooze :: "string option \<Rightarrow> string option \<Rightarrow> ms \<Rightarrow> ms \<Rightarrow> SnoozeMenu \<Rightarrow> SiteSnooze" where
  "new_snooze display_name email now duration m = \<lparr>sz_active = True, sz_reason = str_or (Some (sm_reason m)) ''Customer-initiated snooze'',
     sz_snoozed_by = str_or display_name (str_or email ''Customer''), sz_snoozed_at = toISOString now,
     sz_expires_at = toISOString (now + duration)\<rparr>"

definition snooze_body :: "SiteSnooze \<Rightarrow> json" where
  "snooze_body s = JObj [(''snooze'', snooze_json s)]"

definition rearm_body :: json where
  "rearm_body = JObj [(''snooze'', JNull)]"

definition handleSnooze :: "id \<Rightarrow> json option \<Rightarrow> string option \<Rightarrow> string option \<Rightarrow> ms \<Rightarrow> ms \<Rightarrow> SnoozeMenu \<Rightarrow> World \<Rightarrow> World \<times> SnoozeMenu" where
  "handleSnooze i site display_name email now duration m w =
     (if site = None then (w, m)
      else (case useUpdateSite i (snooze_body (new_snooze display_name email now duration m)) w of
          (w', Inl e, _) \<Rightarrow> (w', m)
        | (w', Inr _, _) \<Rightarrow> (w', m\<lparr>sm_open := False, sm_reason := []\<rparr>)))"

definition handleRearm :: "id \<Rightarrow> SnoozeMenu \<Rightarrow> World \<Rightarrow> World \<times> SnoozeMenu" where
  "handleRearm i m w =
     (case useUpdateSite i rearm_body w of (w', Inl e, _) \<Rightarrow> (w', m) | (w', Inr _, _) \<Rightarrow> (w', m\<lparr>sm_open := False\<rparr>))"

section \<open>The picture of the selected event\<close>

record FullEvent =
  fe_id :: id
  fe_alarm_id :: id
  fe_camera_id :: id

text \<open>
  Each run of the effect that asks for a picture has its own \<^verbatim>\<open>cancelled\<close>: runs are numbered, \<open>zp_cancelled\<close> holds those
  cancelled, \<open>zp_cleanup\<close> the run whose cleanup is registered. Object addresses are numbered in the order of their making, with the camera and the
  alarm of the file behind each. The list of events is \<open>None\<close> when the server answered null.
\<close>

record PicturePane =
  zp_events :: "FullEvent list option"
  zp_selected :: "id option"
  zp_deps :: "(id \<times> id \<times> id) option"
  zp_run :: nat
  zp_cleanup :: "nat option"
  zp_cancelled :: "nat list"
  zp_tasks :: "(nat \<times> id \<times> id) list"
  zp_url :: "nat option"
  zp_objects :: "(id \<times> id) list"
  zp_revoked :: "nat list"
  zp_gone :: bool

definition selectedFullEvent :: "PicturePane \<Rightarrow> FullEvent option" where
  "selectedFullEvent p = (if truthy_str (zp_selected p) then find (\<lambda>e. fe_id e = the (zp_selected p)) (nullish (zp_events p) []) else None)"

definition pane_deps :: "FullEvent option \<Rightarrow> (id \<times> id \<times> id) option" where
  "pane_deps = map_option (\<lambda>e. (fe_id e, fe_alarm_id e, fe_camera_id e))"

definition pane_cleanup :: "PicturePane \<Rightarrow> PicturePane" where
  "pane_cleanup p =
     (case zp_cleanup p of
        None \<Rightarrow> p
      | Some k \<Rightarrow> p\<lparr>zp_cleanup := None, zp_cancelled := k # zp_cancelled p,
          zp_revoked := (case zp_url p of None \<Rightarrow> zp_revoked p | Some u \<Rightarrow> u # zp_revoked p), zp_url := None\<rparr>)"

definition pane_effect :: "PicturePane \<Rightarrow> PicturePane" where
  "pane_effect p =
     (case selectedFullEvent p of
        None \<Rightarrow> p\<lparr>zp_url := None\<rparr>
      | Some e \<Rightarrow>
          if fe_alarm_id e = [] then p\<lparr>zp_url := None\<rparr>
          else p\<lparr>zp_run := Suc (zp_run p), zp_cleanup := Some (zp_run p),
            zp_tasks := zp_tasks p @ [(zp_run p, fe_camera_id e, fe_alarm_id e)]\<rparr>)"

text \<open>Rendering with a selected event while the list is null throws: the page is replaced and its effects are cleaned up.\<close>

definition pane_leave :: "PicturePane \<Rightarrow> PicturePane" where
  "pane_leave p = (pane_cleanup p)\<lparr>zp_gone := True\<rparr>"

definition pane_render :: "PicturePane \<Rightarrow> PicturePane" where
  "pane_render p =
     (if zp_events p = None \<and> truthy_str (zp_selected p) then pane_leave p
      else let d = pane_deps (selectedFullEvent p) in
        if d = zp_deps p then p else pane_effect ((pane_cleanup p)\<lparr>zp_deps := d\<rparr>))"

definition pane_mount :: PicturePane where
  "pane_mount = \<lparr>zp_events = Some [], zp_selected = None, zp_deps = None, zp_run = 0, zp_cleanup = None, zp_cancelled = [], zp_tasks = [],
     zp_url = None, zp_objects = [], zp_revoked = [], zp_gone = False\<rparr>"

text \<open>An answer: no picture, because a request failed, or whether the file has content.\<close>

definition picture_answer :: "nat \<Rightarrow> bool option \<Rightarrow> PicturePane \<Rightarrow> PicturePane" where
  "picture_answer n r p =
     (if length (zp_tasks p) \<le> n then p
      else case zp_tasks p ! n of (k, file) \<Rightarrow>
        let p' = p\<lparr>zp_tasks := drop_nth n (zp_tasks p)\<rparr> in
        if k \<in> set (zp_cancelled p) then p'
        else if r = None then p'\<lparr>zp_url := None\<rparr>
        else if r = Some True then p'\<lparr>zp_url := Some (length (zp_objects p)), zp_objects := zp_objects p @ [file]\<rparr>
        else p')"

datatype pane_event = Events_loaded "FullEvent list option" | Row_clicked id | Pane_closed | Picture_answered nat "bool option" | Page_left

fun pane_step :: "pane_event \<Rightarrow> PicturePane \<Rightarrow> PicturePane" where
  "pane_step (Events_loaded es) p = (if zp_gone p then p else pane_render (p\<lparr>zp_events := es\<rparr>))"
| "pane_step (Row_clicked i) p = (if zp_gone p then p else pane_render (p\<lparr>zp_selected := (if zp_selected p = Some i then None else Some i)\<rparr>))"
| "pane_step Pane_closed p = (if zp_gone p then p else pane_render (p\<lparr>zp_selected := None\<rparr>))"
| "pane_step (Picture_answered n r) p = picture_answer n r p"
| "pane_step Page_left p = (if zp_gone p then p else pane_leave p)"

text \<open>Where an answer comes from: a signed address is asked for, then the file behind it.\<close>

definition picture_request :: "string \<Rightarrow> Request" where
  "picture_request u = \<lparr>rq_method = ''GET'', rq_url = u, rq_headers = [], rq_body = No_body, rq_credentials = True\<rparr>"

definition load_picture :: "id \<Rightarrow> id \<Rightarrow> World \<Rightarrow> World \<times> bool option" where
  "load_picture camera alarm w =
     (case minted_url (mint_for camera Snapshot (alarm @ ''.jpg'')) w of
        (w1, Inl e) \<Rightarrow> (w1, None)
      | (w1, Inr u) \<Rightarrow> (case send (picture_request (nullish u ''undefined'')) w1 of
          (w2, Inl e) \<Rightarrow> (w2, None)
        | (w2, Inr res) \<Rightarrow> (w2, if ok res then Some (rs_text res \<noteq> []) else None)))"

section \<open>Figures and texts\<close>

record SiteCam =
  scam_status :: string
  scam_has_alert :: bool

record SiteDetail =
  sd_feature_mode :: string
  sd_cameras :: "SiteCam list"
  sd_open_incidents :: int
  sd_compliance_score :: number
  sd_workers_on_site :: int

definition num_or_zero :: "json \<Rightarrow> string \<Rightarrow> number" where
  "num_or_zero j k = (case json_field k j of Some (JNum n) \<Rightarrow> n | _ \<Rightarrow> 0)"

text \<open>What the page reads of the site, with its defaults; counts are whole numbers.\<close>

definition site_detail :: "json \<Rightarrow> SiteDetail" where
  "site_detail j = \<lparr>sd_feature_mode = str_field ''feature_mode'' j [],
     sd_cameras = (case json_field ''cameras'' j of
        Some (JArr cs) \<Rightarrow> map (\<lambda>c. \<lparr>scam_status = str_field ''status'' c [], scam_has_alert = (case json_field ''has_alert'' c of Some a \<Rightarrow> truthy_json a | None \<Rightarrow> False)\<rparr>) cs
      | _ \<Rightarrow> []),
     sd_open_incidents = \<lfloor>num_or_zero j ''open_incidents''\<rfloor>, sd_compliance_score = num_or_zero j ''compliance_score'',
     sd_workers_on_site = \<lfloor>num_or_zero j ''workers_on_site''\<rfloor>\<rparr>"

definition onlineCams :: "SiteCam list \<Rightarrow> nat" where
  "onlineCams cs = length (filter (\<lambda>c. scam_status c = ''online'') cs)"

definition camOnlinePct :: "SiteCam list \<Rightarrow> int" where
  "camOnlinePct cs = (if length cs > 0 then js_round (of_nat (onlineCams cs) / of_nat (length cs) * 100) else 100)"

definition site_kpis :: "SiteDetail \<Rightarrow> (string \<times> string \<times> string) list" where
  "site_kpis s =
     (if sd_feature_mode s = ''security_only''
      then [(''Cameras'', nat_str (onlineCams (sd_cameras s)) @ ''/'' @ nat_str (length (sd_cameras s)), ''#3B82F6''),
            (''Incidents'', int_str (sd_open_incidents s), if sd_open_incidents s > 0 then ''#EF4444'' else ''#22C55E''),
            (''Alerts'', nat_str (length (filter scam_has_alert (sd_cameras s))), ''#E89B2A''),
            (''Online'', int_str (camOnlinePct (sd_cameras s)) @ ''%'', ''#22C55E'')]
      else [(''PPE Score'', int_str (js_round (sd_compliance_score s)) @ ''%'',
               if sd_compliance_score s \<ge> 90 then ''#40c080'' else if sd_compliance_score s \<ge> 75 then ''#d4a030'' else ''#e05040''),
            (''Incidents'', int_str (sd_open_incidents s), if sd_open_incidents s > 0 then ''#e07060'' else ''#40c080''),
            (''Violations'', ''7'', ''#d4a030''),
            (''Workers'', int_str (sd_workers_on_site s), ''#E4E8F0'')])"

definition incidents_link :: "id list \<Rightarrow> string" where
  "incidents_link incidents = ''/portal/incidents/'' @ (case incidents of [] \<Rightarrow> ''INC-2026-0847'' | i # _ \<Rightarrow> str_or (Some i) ''INC-2026-0847'')"

definition underscores_spaced :: "string \<Rightarrow> string" where
  "underscores_spaced s = map (\<lambda>c. if c = CHR ''_'' then CHR '' '' else c) s"

text \<open>The disposition: the row's own or the full event's, with its colour and what is written.\<close>

definition pane_disposition :: "string \<Rightarrow> string \<Rightarrow> (string \<times> string) option \<Rightarrow> (string \<times> string \<times> string) option" where
  "pane_disposition row_code row_label full =
     (let code = str_or (Some row_code) (case full of None \<Rightarrow> [] | Some (c, l) \<Rightarrow> c);
          label = str_or (Some row_label) (case full of None \<Rightarrow> [] | Some (c, l) \<Rightarrow> l)
      in if code = [] then None
         else Some (if starts_with ''false'' code then ''#22C55E'' else if starts_with ''verified'' code then ''#EF4444'' else ''#E89B2A'',
           str_or (Some label) (underscores_spaced code), code))"

definition row_disposition :: "string \<Rightarrow> string \<Rightarrow> (string \<times> string) option" where
  "row_disposition code label =
     (if code = [] then None
      else Some (if starts_with ''false'' code then ''#22C55E'' else if starts_with ''verified'' code then ''#EF4444'' else ''#4A5268'',
        str_or (Some label) (underscores_spaced code)))"

definition camera_text :: "string \<Rightarrow> string \<Rightarrow> string" where
  "camera_text cam_name cam_id = str_or (Some cam_name) (take 8 cam_id)"

definition shown_log :: "(ms \<times> string \<times> bool) list \<Rightarrow> (ms \<times> string \<times> bool) list" where
  "shown_log entries = js_sort (\<lambda>a b. fst a < fst b) entries"



section \<open>Properties\<close>

lemma pane_cleanup_simps [simp]:
  "zp_events (pane_cleanup p) = zp_events p" "zp_selected (pane_cleanup p) = zp_selected p" "zp_run (pane_cleanup p) = zp_run p"
  "zp_tasks (pane_cleanup p) = zp_tasks p" "zp_objects (pane_cleanup p) = zp_objects p" "zp_gone (pane_cleanup p) = zp_gone p"
  "zp_deps (pane_cleanup p) = zp_deps p" "zp_cleanup (pane_cleanup p) = None"
  by (auto simp: pane_cleanup_def split: option.splits)

lemma selectedFullEvent_cong:
  "zp_events p = zp_events q \<Longrightarrow> zp_selected p = zp_selected q \<Longrightarrow> selectedFullEvent p = selectedFullEvent q"
  by (simp add: selectedFullEvent_def)

lemma selectedFullEvent_cleanup [simp]: "selectedFullEvent ((pane_cleanup p)\<lparr>zp_deps := d\<rparr>) = selectedFullEvent p"
  by (rule selectedFullEvent_cong) simp_all

text \<open>What holds of the requests under way: all but those of the registered run are cancelled, and a run with a picture has none.\<close>

definition pane_tasks_ok :: "nat \<Rightarrow> nat option \<Rightarrow> nat list \<Rightarrow> nat option \<Rightarrow> (nat \<times> id \<times> id) list \<Rightarrow> bool" where
  "pane_tasks_ok run reg cancelled url tasks \<longleftrightarrow> distinct (map fst tasks) \<and>
     (\<forall>x \<in> set tasks. fst x < run \<and> (fst x \<in> set cancelled \<or> reg = Some (fst x)) \<and> (url \<noteq> None \<longrightarrow> reg \<noteq> Some (fst x)))"

text \<open>What holds of the runs and the pictures: each picture made is shown by the registered run or released.\<close>

definition objects_ok :: "nat \<Rightarrow> nat option \<Rightarrow> nat list \<Rightarrow> nat option \<Rightarrow> nat list \<Rightarrow> nat \<Rightarrow> bool" where
  "objects_ok run reg cancelled url revoked made \<longleftrightarrow>
     (\<forall>k. reg = Some k \<longrightarrow> k < run \<and> k \<notin> set cancelled) \<and>
     (\<forall>k \<in> set cancelled. k < run) \<and>
     (\<forall>u. url = Some u \<longrightarrow> u < made \<and> u \<notin> set revoked \<and> reg \<noteq> None) \<and>
     (\<forall>u \<in> set revoked. u < made) \<and>
     (\<forall>u < made. url = Some u \<or> u \<in> set revoked)"

definition run_inv :: "PicturePane \<Rightarrow> bool" where
  "run_inv p \<longleftrightarrow> pane_tasks_ok (zp_run p) (zp_cleanup p) (zp_cancelled p) (zp_url p) (zp_tasks p) \<and>
     objects_ok (zp_run p) (zp_cleanup p) (zp_cancelled p) (zp_url p) (zp_revoked p) (length (zp_objects p))"

text \<open>The registered run belongs to the event the dependencies name.\<close>

definition files_ok :: "(id \<times> id \<times> id) option \<Rightarrow> nat option \<Rightarrow> (nat \<times> id \<times> id) list \<Rightarrow> nat option \<Rightarrow> (id \<times> id) list \<Rightarrow> bool" where
  "files_ok deps reg tasks url objects \<longleftrightarrow>
     (\<forall>x \<in> set tasks. reg = Some (fst x) \<longrightarrow> (\<exists>i a c. deps = Some (i, a, c) \<and> snd x = (c, a) \<and> a \<noteq> [])) \<and>
     (\<forall>u. url = Some u \<longrightarrow> (\<exists>i a c. deps = Some (i, a, c) \<and> objects ! u = (c, a) \<and> a \<noteq> []))"

definition file_inv :: "PicturePane \<Rightarrow> bool" where
  "file_inv p \<longleftrightarrow> files_ok (zp_deps p) (zp_cleanup p) (zp_tasks p) (zp_url p) (zp_objects p)"

definition pane_inv :: "PicturePane \<Rightarrow> bool" where
  "pane_inv p \<longleftrightarrow> run_inv p \<and> file_inv p \<and>
     (if zp_gone p then zp_cleanup p = None else zp_deps p = pane_deps (selectedFullEvent p))"

lemma pane_tasks_ok_start: "pane_tasks_ok run None cs None ts \<Longrightarrow> objects_ok run None cs None rs n \<Longrightarrow> pane_tasks_ok (Suc run) (Some run) cs None (ts @ [(run, f)])"
  unfolding pane_tasks_ok_def objects_ok_def by fastforce

lemma objects_ok_start: "objects_ok run None cs None rs n \<Longrightarrow> objects_ok (Suc run) (Some run) cs None rs n"
  unfolding objects_ok_def by fastforce

lemma files_ok_start:
  assumes "pane_tasks_ok run None cs None ts" "snd x = (c, a)" "a \<noteq> []" "fst x = run"
  shows "files_ok (Some (i, a, c)) (Some run) (ts @ [x]) None objs"
  using assms by (auto simp: pane_tasks_ok_def files_ok_def)

lemma pane_tasks_ok_cancel: "pane_tasks_ok run (Some k) cs url ts \<Longrightarrow> pane_tasks_ok run None (k # cs) None ts"
  unfolding pane_tasks_ok_def by fastforce

lemma objects_ok_cancel:
  "objects_ok run (Some k) cs None rs n \<Longrightarrow> objects_ok run None (k # cs) None rs n"
  "objects_ok run (Some k) cs (Some u) rs n \<Longrightarrow> objects_ok run None (k # cs) None (u # rs) n"
  unfolding objects_ok_def by fastforce+

lemma objects_ok_unregistered: "objects_ok run None cs url rs n \<Longrightarrow> url = None"
  unfolding objects_ok_def by fastforce

lemma pane_tasks_ok_fewer: "set ts' \<subseteq> set ts \<Longrightarrow> distinct (map fst ts') \<Longrightarrow> pane_tasks_ok run reg cs url ts \<Longrightarrow> pane_tasks_ok run reg cs url ts'"
  unfolding pane_tasks_ok_def by blast

lemma files_ok_fewer: "set ts' \<subseteq> set ts \<Longrightarrow> files_ok d reg ts url objs \<Longrightarrow> files_ok d reg ts' url objs"
  unfolding files_ok_def by (elim conjE) (intro conjI ballI, drule subsetD, assumption, drule bspec, assumption, assumption, assumption)

lemma picture_made:
  assumes "objects_ok run (Some k) cs None rs (length objs)" "k \<notin> fst ` set ts"
  shows "pane_tasks_ok run (Some k) cs None ts \<Longrightarrow> pane_tasks_ok run (Some k) cs (Some (length objs)) ts"
    "objects_ok run (Some k) cs (Some (length objs)) rs (length (objs @ [f]))"
    "f = (c, a) \<Longrightarrow> a \<noteq> [] \<Longrightarrow> files_ok (Some (i, a, c)) (Some k) ts (Some (length objs)) (objs @ [f])"
proof -
  have away: "fst x \<noteq> k" if "x \<in> set ts" for x using assms(2) that by auto
  show "pane_tasks_ok run (Some k) cs None ts \<Longrightarrow> pane_tasks_ok run (Some k) cs (Some (length objs)) ts"
    using away by (auto simp: pane_tasks_ok_def)
  show "objects_ok run (Some k) cs (Some (length objs)) rs (length (objs @ [f]))"
    using assms(1) by (auto simp: objects_ok_def less_Suc_eq)
  show "f = (c, a) \<Longrightarrow> a \<noteq> [] \<Longrightarrow> files_ok (Some (i, a, c)) (Some k) ts (Some (length objs)) (objs @ [f])"
    using away by (auto simp: files_ok_def)
qed

lemma cleanup_run_inv:
  assumes "run_inv p"
  shows "run_inv (pane_cleanup p)" "zp_url (pane_cleanup p) = None"
proof -
  show "run_inv (pane_cleanup p)"
    using assms pane_tasks_ok_cancel objects_ok_cancel unfolding run_inv_def pane_cleanup_def
    by (cases "zp_cleanup p"; cases "zp_url p") auto
  show "zp_url (pane_cleanup p) = None"
    using assms objects_ok_unregistered unfolding run_inv_def pane_cleanup_def by (cases "zp_cleanup p") auto
qed

lemma run_inv_more [simp]: "run_inv (p\<lparr>zp_deps := d\<rparr>) = run_inv p" "run_inv (p\<lparr>zp_gone := g\<rparr>) = run_inv p"
  "run_inv (p\<lparr>zp_events := es\<rparr>) = run_inv p" "run_inv (p\<lparr>zp_selected := s\<rparr>) = run_inv p"
  by (simp_all add: run_inv_def)

lemma file_inv_more [simp]: "file_inv (p\<lparr>zp_gone := g\<rparr>) = file_inv p"
  "file_inv (p\<lparr>zp_events := es\<rparr>) = file_inv p" "file_inv (p\<lparr>zp_selected := s\<rparr>) = file_inv p"
  by (simp_all add: file_inv_def)

lemma effect_inv:
  assumes "run_inv p" "zp_url p = None" "zp_cleanup p = None" "zp_deps p = pane_deps (selectedFullEvent p)" "\<not> zp_gone p"
  shows "pane_inv (pane_effect p)"
proof -
  have sel: "selectedFullEvent (p\<lparr>zp_url := None\<rparr>) = selectedFullEvent p" by (rule selectedFullEvent_cong) simp_all
  have off: "files_ok d None ts None objs" for d ts objs by (simp add: files_ok_def)
  show ?thesis
  proof (cases "selectedFullEvent p")
    case None
    then show ?thesis using assms sel off by (simp add: pane_effect_def pane_inv_def run_inv_def file_inv_def)
  next
    case (Some e)
    show ?thesis
    proof (cases "fe_alarm_id e = []")
      case True
      then show ?thesis using assms Some sel off by (simp add: pane_effect_def pane_inv_def run_inv_def file_inv_def)
    next
      case False
      let ?q = "p\<lparr>zp_run := Suc (zp_run p), zp_cleanup := Some (zp_run p),
          zp_tasks := zp_tasks p @ [(zp_run p, fe_camera_id e, fe_alarm_id e)]\<rparr>"
      have q: "pane_effect p = ?q" using Some False by (simp add: pane_effect_def)
      have selq: "selectedFullEvent ?q = selectedFullEvent p" by (rule selectedFullEvent_cong) simp_all
      have t: "pane_tasks_ok (zp_run p) None (zp_cancelled p) None (zp_tasks p)"
        and o: "objects_ok (zp_run p) None (zp_cancelled p) None (zp_revoked p) (length (zp_objects p))"
        using assms(1-3) by (simp_all add: run_inv_def)
      have "run_inv ?q" using pane_tasks_ok_start [OF t o] objects_ok_start [OF o] assms(2) by (simp add: run_inv_def)
      moreover have "file_inv ?q" using files_ok_start [OF t _ False] assms(2,4) Some by (simp add: file_inv_def pane_deps_def)
      ultimately show ?thesis unfolding q pane_inv_def selq using assms(4,5) by simp
    qed
  qed
qed

lemma leave_inv: "run_inv p \<Longrightarrow> pane_inv (pane_leave p)"
  using cleanup_run_inv [of p] by (simp add: pane_leave_def pane_inv_def file_inv_def files_ok_def)

lemma render_inv:
  assumes "run_inv p" "file_inv p" "\<not> zp_gone p"
  shows "pane_inv (pane_render p)"
proof (cases "zp_events p = None \<and> truthy_str (zp_selected p)")
  case True
  then show ?thesis using leave_inv [OF assms(1)] by (simp add: pane_render_def)
next
  case False
  show ?thesis
  proof (cases "pane_deps (selectedFullEvent p) = zp_deps p")
    case True
    then have "pane_render p = p" using False by (auto simp: pane_render_def)
    then show ?thesis using assms True by (simp add: pane_inv_def)
  next
    case deps: False
    have "pane_render p = pane_effect ((pane_cleanup p)\<lparr>zp_deps := pane_deps (selectedFullEvent p)\<rparr>)"
      using False deps by (auto simp: pane_render_def Let_def)
    then show ?thesis using effect_inv [of "(pane_cleanup p)\<lparr>zp_deps := pane_deps (selectedFullEvent p)\<rparr>"] cleanup_run_inv [OF assms(1)] assms(3)
      by simp
  qed
qed

lemma answer_inv:
  assumes "pane_inv p"
  shows "pane_inv (picture_answer n r p)"
proof (cases "n < length (zp_tasks p)")
  case False
  then show ?thesis using assms by (simp add: picture_answer_def)
next
  case True
  obtain k c a where t: "zp_tasks p ! n = (k, c, a)" by (metis prod_cases3)
  have mem: "(k, c, a) \<in> set (zp_tasks p)" using True t nth_mem by metis
  define ts where "ts = drop_nth n (zp_tasks p)"
  have ri: "run_inv p" and fi: "file_inv p" using assms by (simp_all add: pane_inv_def)
  have d: "distinct (map fst (zp_tasks p))" using ri by (simp add: run_inv_def pane_tasks_ok_def)
  have sub: "set ts \<subseteq> set (zp_tasks p)" and kout: "k \<notin> fst ` set ts" and dist: "distinct (map fst ts)"
    using drop_nth_distinct [OF d True] t unfolding ts_def by (auto dest: set_drop_nth)
  have kept: "run_inv (p\<lparr>zp_tasks := ts\<rparr>)" "file_inv (p\<lparr>zp_tasks := ts\<rparr>)"
    using pane_tasks_ok_fewer [OF sub dist] files_ok_fewer [OF sub] ri fi by (simp_all add: run_inv_def file_inv_def)
  have sel: "selectedFullEvent (p\<lparr>zp_tasks := ts\<rparr>) = selectedFullEvent p" by (rule selectedFullEvent_cong) simp_all
  then have same: "pane_inv (p\<lparr>zp_tasks := ts\<rparr>)" using kept assms by (simp add: pane_inv_def)
  show ?thesis
  proof (cases "k \<in> set (zp_cancelled p)")
    case True
    then show ?thesis using same t \<open>n < length (zp_tasks p)\<close> by (simp add: picture_answer_def ts_def)
  next
    case live: False
    then have cl: "zp_cleanup p = Some k" using ri mem by (force simp: run_inv_def pane_tasks_ok_def)
    have none: "zp_url p = None" using ri cl mem by (force simp: run_inv_def pane_tasks_ok_def)
    obtain i where dp: "zp_deps p = Some (i, a, c)" "a \<noteq> []" using fi cl mem by (force simp: file_inv_def files_ok_def)
    consider "r = None" | "r = Some True" | "r = Some False" by (cases r) auto
    then show ?thesis
    proof cases
      case 1
      have "p\<lparr>zp_tasks := ts, zp_url := None\<rparr> = p\<lparr>zp_tasks := ts\<rparr>" using none by simp
      then show ?thesis using 1 same t live \<open>n < length (zp_tasks p)\<close> by (simp add: picture_answer_def ts_def)
    next
      case 2
      let ?q = "p\<lparr>zp_tasks := ts, zp_url := Some (length (zp_objects p)), zp_objects := zp_objects p @ [(c, a)]\<rparr>"
      have q: "picture_answer n r p = ?q" using 2 t live \<open>n < length (zp_tasks p)\<close> by (simp add: picture_answer_def ts_def)
      have o: "objects_ok (zp_run p) (Some k) (zp_cancelled p) None (zp_revoked p) (length (zp_objects p))"
        and ts: "pane_tasks_ok (zp_run p) (Some k) (zp_cancelled p) None ts" using kept(1) cl none by (simp_all add: run_inv_def)
      have selq: "selectedFullEvent ?q = selectedFullEvent p" by (rule selectedFullEvent_cong) simp_all
      have "run_inv ?q" using picture_made(1,2) [OF o kout] ts cl by (simp add: run_inv_def)
      moreover have "file_inv ?q" using picture_made(3) [OF o kout refl dp(2)] dp(1) cl by (simp add: file_inv_def)
      ultimately show ?thesis using assms selq unfolding q pane_inv_def by simp
    next
      case 3
      then show ?thesis using same t live \<open>n < length (zp_tasks p)\<close> by (simp add: picture_answer_def ts_def)
    qed
  qed
qed

lemma pane_step_inv: "pane_inv p \<Longrightarrow> pane_inv (pane_step e p)"
proof (induction e p rule: pane_step.induct)
  case (4 n r p)
  then show ?case using answer_inv by simp
next
  case (5 p)
  then show ?case using leave_inv by (simp add: pane_inv_def)
next
  case (1 es p)
  then show ?case using render_inv [of "p\<lparr>zp_events := es\<rparr>"] by (cases "zp_gone p") (auto simp: pane_inv_def [of p])
next
  case (2 i p)
  then show ?case using render_inv [of "p\<lparr>zp_selected := (if zp_selected p = Some i then None else Some i)\<rparr>"]
    by (cases "zp_gone p") (auto simp: pane_inv_def [of p])
next
  case (3 p)
  then show ?case using render_inv [of "p\<lparr>zp_selected := None\<rparr>"] by (cases "zp_gone p") (auto simp: pane_inv_def [of p])
qed

lemma pane_mount_inv: "pane_inv pane_mount"
  by (simp add: pane_inv_def run_inv_def pane_tasks_ok_def objects_ok_def files_ok_def file_inv_def pane_mount_def selectedFullEvent_def pane_deps_def)

interpretation picture_pane: machine pane_step "\<lambda>p. p = pane_mount" pane_inv
  by unfold_locales (simp_all add: pane_mount_inv pane_step_inv)

lemmas pane_reachable_inv = picture_pane.inv_run [OF pane_mount_inv]

text \<open>C39: The picture on screen is the selected event's. Whatever is selected and in whatever order the answers come, a picture
  shown is the file of the selected event's alarm and camera and is not released; every other picture ever made is.\<close>

theorem picture_matches_selection:
  assumes "p = fold pane_step es pane_mount" "u < length (zp_objects p)"
  shows "if zp_url p = Some u
    then u \<notin> set (zp_revoked p) \<and> (\<exists>e. selectedFullEvent p = Some e \<and> fe_alarm_id e \<noteq> [] \<and> zp_objects p ! u = (fe_camera_id e, fe_alarm_id e))
    else u \<in> set (zp_revoked p)"
proof -
  have inv: "run_inv p" "file_inv p" "if zp_gone p then zp_cleanup p = None else zp_deps p = pane_deps (selectedFullEvent p)"
    using pane_reachable_inv [of es] assms(1) by (simp_all add: pane_inv_def)
  show ?thesis
  proof (cases "zp_url p = Some u")
    case True
    then have "zp_cleanup p \<noteq> None" "u \<notin> set (zp_revoked p)" using inv(1) by (simp_all add: run_inv_def objects_ok_def)
    moreover obtain i a c where "zp_deps p = Some (i, a, c)" "zp_objects p ! u = (c, a)" "a \<noteq> []"
      using True inv(2) by (auto simp: file_inv_def files_ok_def)
    ultimately show ?thesis using True inv(3) by (auto simp: pane_deps_def split: if_splits)
  next
    case False
    then show ?thesis using inv(1) assms(2) by (auto simp: run_inv_def objects_ok_def)
  qed
qed

definition fixture_pane_events :: "pane_event list" where
  "fixture_pane_events = [Events_loaded (Some [\<lparr>fe_id = ''EVT-1'', fe_alarm_id = ''al-1'', fe_camera_id = ''cam-1''\<rparr>,
     \<lparr>fe_id = ''EVT-2'', fe_alarm_id = ''al-2'', fe_camera_id = ''cam-1''\<rparr>]), Row_clicked ''EVT-1'', Picture_answered 0 (Some True),
     Row_clicked ''EVT-2'', Row_clicked ''EVT-1'', Row_clicked ''EVT-2'', Picture_answered 2 (Some True), Picture_answered 0 (Some True)]"

theorem picture_matches_selection_witness:
  "zp_objects (fold pane_step fixture_pane_events pane_mount) ! 1 = (''cam-1'', ''al-2'') \<and>
   0 \<in> set (zp_revoked (fold pane_step fixture_pane_events pane_mount))"
proof -
  have "1 < length (zp_objects (fold pane_step fixture_pane_events pane_mount))" by code_simp
  moreover have "zp_url (fold pane_step fixture_pane_events pane_mount) = Some 1" by code_simp
  moreover have "selectedFullEvent (fold pane_step fixture_pane_events pane_mount) = Some \<lparr>fe_id = ''EVT-2'', fe_alarm_id = ''al-2'', fe_camera_id = ''cam-1''\<rparr>"
    by code_simp
  moreover have "0 < length (zp_objects (fold pane_step fixture_pane_events pane_mount))" by code_simp
  ultimately show ?thesis
    using picture_matches_selection [OF refl, of 1 fixture_pane_events] picture_matches_selection [OF refl, of 0 fixture_pane_events] by simp
qed

text \<open>The first event of a site: the list loaded before it is null, and selecting the row of the event breaks the page.\<close>

lemma first_event_breaks_page:
  assumes "i \<noteq> []"
  shows "zp_gone (fold pane_step [Events_loaded None, Row_clicked i] pane_mount)"
  using assms by (simp add: pane_mount_def pane_render_def pane_deps_def selectedFullEvent_def pane_leave_def)

text \<open>Selecting an event with an alarm shows its picture once the file has come.\<close>

lemma picture_appears:
  assumes "\<not> zp_gone p" "pane_inv p" "zp_events p = Some es" "find (\<lambda>e. fe_id e = i) es = Some e" "fe_alarm_id e \<noteq> []" "i \<noteq> []"
    "zp_selected p \<noteq> Some i" "zp_deps p \<noteq> Some (fe_id e, fe_alarm_id e, fe_camera_id e)"
  shows "\<exists>u. zp_url (fold pane_step [Row_clicked i, Picture_answered (length (zp_tasks p)) (Some True)] p) = Some u"
proof -
  let ?p = "p\<lparr>zp_selected := Some i\<rparr>"
  have sel: "selectedFullEvent ?p = Some e" using assms(3,4,6) by (simp add: selectedFullEvent_def)
  have fresh: "zp_run p \<notin> set (zp_cancelled (pane_cleanup ?p))"
  proof -
    have "run_inv (pane_cleanup ?p)" using cleanup_run_inv(1) [of ?p] assms(2) by (simp add: pane_inv_def)
    then have "\<forall>k \<in> set (zp_cancelled (pane_cleanup ?p)). k < zp_run (pane_cleanup ?p)" unfolding run_inv_def objects_ok_def by (elim conjE)
    then show ?thesis by (metis less_irrefl pane_cleanup_simps(3) PicturePane.select_convs(4) PicturePane.surjective PicturePane.update_convs(2))
  qed
  have "pane_render ?p = pane_effect ((pane_cleanup ?p)\<lparr>zp_deps := Some (fe_id e, fe_alarm_id e, fe_camera_id e)\<rparr>)"
    using assms(3,8) by (simp add: pane_render_def sel pane_deps_def)
  then have r: "pane_render ?p = (pane_cleanup ?p)\<lparr>zp_deps := Some (fe_id e, fe_alarm_id e, fe_camera_id e), zp_run := Suc (zp_run p),
      zp_cleanup := Some (zp_run p), zp_tasks := zp_tasks p @ [(zp_run p, fe_camera_id e, fe_alarm_id e)]\<rparr>"
    using assms(5) by (simp add: pane_effect_def sel)
  have "pane_step (Row_clicked i) p = pane_render ?p" using assms(1,7) by simp
  then show ?thesis using fresh by (simp add: r picture_answer_def nth_append)
qed

text \<open>
  No snooze ever reaches the site: the body has only the member the server's update knows nothing of, so that the update is
  refused, for everybody below supervisor by the role, for the others because no organisation has the empty id. The
  page then stays as it is, without a message, and the site it reads is not snoozed.
\<close>

lemma snooze_refused:
  assumes "[] \<notin> set orgs"
  shows "HandleUpdateSite orgs role (JObj [(''snooze'', v)]) r = Inl (if role \<noteq> Some ''admin'' \<and> role \<noteq> Some ''soc_supervisor'' then 403 else 500)"
proof -
  have "decode_site (JObj [(''snooze'', v)]) = Some \<lparr>sc_Name = [], sc_Address = [], sc_CompanyID = [], sc_Latitude = None, sc_Longitude = None,
      sc_FeatureMode = []\<rparr>"
    by (simp add: decode_site_def go_object_def json_field_def go_string_def go_ptr_float_def)
  then show ?thesis using assms by (simp add: HandleUpdateSite_def UpdateSite_def)
qed

theorem snooze_never_stored:
  assumes "[] \<notin> set orgs"
    and "authFetch (''/api/v1/sites/'' @ i) (with_content_type (body_init ''PUT'' (snooze_body (new_snooze display_name email now duration m)))) w = (w', Inr res)"
    and "rs_status res = (case HandleUpdateSite orgs role (snooze_body (new_snooze display_name email now duration m)) r of Inl status \<Rightarrow> status | Inr _ \<Rightarrow> 200)"
  shows "handleSnooze i (Some (GetSite r)) display_name email now duration m w = (w', m) \<and> \<not> isSnoozed parse_date later (GetSite r)"
proof -
  have "\<not> ok res" using assms(3) by (simp add: snooze_body_def snooze_refused [OF assms(1)] ok_def)
  then have "handleSnooze i (Some (GetSite r)) display_name email now duration m w = (w', m)"
    using assms(2) by (simp add: handleSnooze_def useUpdateSite_def mutation_def updateSite_def fetchJSON_def bind_io_def throw_io_def)
  moreover have "json_field ''snooze'' (GetSite r) = None"
    by (cases "row_latitude r"; cases "row_longitude r") (simp_all add: GetSite_def json_field_def site_fields_def)
  ultimately show ?thesis by (simp add: isSnoozed_def)
qed

lemma authFetch_always_500:
  assumes "wd_server w = (\<lambda>_ _ _. error_reply 500 m)"
  shows "\<exists>w' res. authFetch url init w = (w', Inr res) \<and> rs_status res = 500"
proof -
  have sent: "\<exists>w' res. send q v = (w', Inr res) \<and> rs_status res = 500 \<and> wd_server w' = wd_server v" if "wd_server v = (\<lambda>_ _ _. error_reply 500 m)" for q v
    using that by (simp add: send_def error_reply_def Let_def)
  have boot: "\<exists>w'. bootstrapCSRFToken w = (w', Inr []) \<and> wd_server w' = wd_server w"
    using sent [OF assms, of csrf_request] by (auto simp: bootstrapCSRFToken_def io_defs ok_def)
  obtain v tok where v: "(if isMutation init \<and> getCSRFToken w = [] then bootstrapCSRFToken w else (w, Inr (getCSRFToken w))) = (v, Inr tok)"
    "wd_server v = wd_server w" using boot by (cases "isMutation init \<and> getCSRFToken w = []") force+
  obtain v' res where "send (build_request url init tok) v = (v', Inr res)" "rs_status res = 500"
    using sent [of v "build_request url init tok"] v(2) assms by auto
  then show ?thesis using v(1) by (simp add: authFetch_def io_defs redirect_on_401_def)
qed

theorem snooze_never_stored_witness:
  "snd (handleSnooze ''ACG-101'' (Some (GetSite fixture_row)) None None 0 1800000 \<lparr>sm_open = True, sm_reason = []\<rparr>
     \<lparr>wd_server = (\<lambda>j lg q. error_reply 500 ''refused''), wd_jar = [], wd_document = True, wd_location = ''/portal'', wd_log = []\<rparr>) =
   \<lparr>sm_open = True, sm_reason = []\<rparr>"
proof -
  let ?w = "\<lparr>wd_server = (\<lambda>j lg q. error_reply 500 ''refused''), wd_jar = [], wd_document = True, wd_location = ''/portal'', wd_log = []\<rparr>"
  let ?m = "\<lparr>sm_open = True, sm_reason = []\<rparr>"
  obtain w' res where r: "authFetch (''/api/v1/sites/'' @ ''ACG-101'') (with_content_type (body_init ''PUT'' (snooze_body (new_snooze None None 0 1800000 ?m)))) ?w =
      (w', Inr res)" "rs_status res = 500"
    using authFetch_always_500 [of ?w "''refused''"] by fastforce
  then show ?thesis using snooze_never_stored [OF _ r(1), of "[''co-1'']" "Some ''admin''" fixture_row "\<lambda>_. None" 0]
    by (simp add: snooze_body_def snooze_refused)
qed

text \<open>The figures in the head of the page do not depend on the site: its cameras are not part of the server's answer, its counters are
  never filled, and the number of violations is written into the page.\<close>

theorem site_figures_constant:
  "map (\<lambda>(name, figure, colour). (name, figure)) (site_kpis (site_detail (GetSite r))) =
     (if row_feature_mode r = ''security_only''
      then [(''Cameras'', ''0/0''), (''Incidents'', ''0''), (''Alerts'', ''0''), (''Online'', ''100%'')]
      else [(''PPE Score'', ''0%''), (''Incidents'', ''0''), (''Violations'', ''7''), (''Workers'', ''0'')])"
proof -
  have "site_detail (GetSite r) = \<lparr>sd_feature_mode = row_feature_mode r, sd_cameras = [], sd_open_incidents = 0, sd_compliance_score = 0, sd_workers_on_site = 0\<rparr>"
    by (cases "row_latitude r"; cases "row_longitude r")
      (simp_all add: GetSite_def site_detail_def json_field_def site_fields_def str_field_def num_or_zero_def)
  moreover have "js_round 0 = 0" using js_round_of_int [of 0] by simp
  moreover have "nat_str 0 = ''0''" "int_str 0 = ''0''" "int_str 100 = ''100''" by code_simp+
  ultimately show ?thesis by (simp add: site_kpis_def camOnlinePct_def onlineCams_def)
qed

text \<open>The share of cameras online is a percentage; it reads 100 with one of two hundred cameras down.\<close>

lemma online_share_bounds: "0 \<le> camOnlinePct cs \<and> camOnlinePct cs \<le> 100"
proof (cases "cs = []")
  case False
  have le: "onlineCams cs \<le> length cs" by (simp add: onlineCams_def)
  then have "of_nat (onlineCams cs) / of_nat (length cs) * 100 \<le> (100 :: number)"
    using False by (simp add: divide_le_eq)
  then have "js_round (of_nat (onlineCams cs) / of_nat (length cs) * 100) \<le> js_round 100" by (rule js_round_mono)
  moreover have "js_round 0 \<le> js_round (of_nat (onlineCams cs) / of_nat (length cs) * 100)" by (rule js_round_mono) simp
  moreover have "js_round 0 = 0" "js_round 100 = 100" using js_round_of_int [of 0] js_round_of_int [of 100] by simp_all
  ultimately show ?thesis using False by (simp add: camOnlinePct_def)
qed (simp add: camOnlinePct_def)

lemma online_share_rounded_up:
  "camOnlinePct (\<lparr>scam_status = ''offline'', scam_has_alert = False\<rparr> # replicate 199 \<lparr>scam_status = ''online'', scam_has_alert = False\<rparr>) = 100"
proof -
  have "onlineCams (\<lparr>scam_status = ''offline'', scam_has_alert = False\<rparr> # replicate 199 \<lparr>scam_status = ''online'', scam_has_alert = False\<rparr>) = 199"
    by (simp add: onlineCams_def)
  then show ?thesis by (simp add: camOnlinePct_def js_round_def)
qed

text \<open>Without events the link in the head leads to an incident of the mock data.\<close>

lemma incidents_link_invented: "incidents_link [] = ''/portal/incidents/INC-2026-0847''"
  by (simp add: incidents_link_def)

end
