(* ===== verification/Site_Contacts.thy ===== *)
theory Site_Contacts
  imports Site_Schedule Requests
begin

text \<open>
  The contacts of a site, \<^verbatim>\<open>frontend/src/app/portal/sites/[id]/contacts/page.tsx\<close>, with the handlers and queries behind them
  (\<^verbatim>\<open>internal/api/site_contacts.go\<close>, \<^verbatim>\<open>internal/database/platform_db.go\<close>): the editor as a machine over its requests under way
  and the site's row. Shown: a saved list is what the page shows when it is opened again, who can change it, and what
  overlapping requests lose.
\<close>

section \<open>The server\<close>

record CustomerContact =
  cc_Name :: string
  cc_Role :: string
  cc_Phone :: string
  cc_Email :: string
  cc_NotifyOnAlarm :: bool
  cc_Notes :: string

definition decode_contact :: "json \<Rightarrow> CustomerContact option" where
  "decode_contact j =
     Option.bind (go_object j) (\<lambda>b.
     Option.bind (go_string (json_field ''name'' b)) (\<lambda>nm.
     Option.bind (go_string (json_field ''role'' b)) (\<lambda>ro.
     Option.bind (go_string (json_field ''phone'' b)) (\<lambda>ph.
     Option.bind (go_string (json_field ''email'' b)) (\<lambda>em.
     Option.bind (go_bool (json_field ''notify_on_alarm'' b)) (\<lambda>no.
     Option.bind (go_string (json_field ''notes'' b)) (\<lambda>nt.
       Some \<lparr>cc_Name = nm, cc_Role = ro, cc_Phone = ph, cc_Email = em, cc_NotifyOnAlarm = no, cc_Notes = nt\<rparr>)))))))"

definition decode_contacts :: "json \<Rightarrow> CustomerContact list option" where
  "decode_contacts j = (case j of JArr xs \<Rightarrow> those (map decode_contact xs) | JNull \<Rightarrow> Some [] | _ \<Rightarrow> None)"

definition marshal_contact :: "CustomerContact \<Rightarrow> json" where
  "marshal_contact c = JObj ([(''name'', JStr (cc_Name c)), (''role'', JStr (cc_Role c)), (''phone'', JStr (cc_Phone c)),
     (''email'', JStr (cc_Email c)), (''notify_on_alarm'', JBool (cc_NotifyOnAlarm c))] @
     (if cc_Notes c = [] then [] else [(''notes'', JStr (cc_Notes c))]))"

record CallerScope =
  cs_Role :: string
  cs_OrganizationID :: string
  cs_AssignedSiteIDs :: "id list"

definition IsUnscoped :: "CallerScope \<Rightarrow> bool" where
  "IsUnscoped c \<longleftrightarrow> cs_Role c \<in> {''admin'', ''soc_supervisor'', ''soc_operator''}"

text \<open>The site's row as far as it matters: its organisation and its contacts; \<open>None\<close> when there is no such site.\<close>

type_synonym contacts_row = "(string \<times> CustomerContact list) option"

definition canAccessSite :: "CallerScope \<Rightarrow> id \<Rightarrow> contacts_row \<Rightarrow> bool" where
  "canAccessSite c siteID row =
     (if siteID \<in> set (cs_AssignedSiteIDs c) then True
      else if cs_OrganizationID c = [] then False
      else (case row of None \<Rightarrow> False | Some (orgID, _) \<Rightarrow> orgID = cs_OrganizationID c))"

definition GetCustomerContacts :: "contacts_row \<Rightarrow> CustomerContact list option" where
  "GetCustomerContacts row = map_option snd row"

definition HandleListSiteContacts :: "CallerScope \<Rightarrow> id \<Rightarrow> contacts_row \<Rightarrow> (nat \<times> string) + json" where
  "HandleListSiteContacts c siteID row =
     (if siteID = [] then Inl (400, ''site id required'')
      else if \<not> IsUnscoped c \<and> \<not> canAccessSite c siteID row then Inl (404, ''404 page not found'')
      else (case GetCustomerContacts row of None \<Rightarrow> Inl (500, ''fetch failed'') | Some cs \<Rightarrow> Inr (JArr (map marshal_contact cs))))"

text \<open>Overwriting the contacts of a site that is not there changes nothing and succeeds.\<close>

definition SetCustomerContacts :: "CustomerContact list \<Rightarrow> contacts_row \<Rightarrow> contacts_row" where
  "SetCustomerContacts cs row = map_option (\<lambda>(orgID, _). (orgID, cs)) row"

definition HandleUpdateSiteContacts :: "CallerScope \<Rightarrow> id \<Rightarrow> json \<Rightarrow> contacts_row \<Rightarrow> (nat \<times> string) + contacts_row" where
  "HandleUpdateSiteContacts c siteID body row =
     (if siteID = [] then Inl (400, ''site id required'')
      else if cs_Role c \<notin> {''admin'', ''soc_supervisor'', ''site_manager''} then Inl (403, ''forbidden'')
      else if \<not> IsUnscoped c \<and> \<not> canAccessSite c siteID row then Inl (404, ''404 page not found'')
      else (case decode_contacts body of None \<Rightarrow> Inl (400, ''invalid body'') | Some cs \<Rightarrow> Inr (SetCustomerContacts cs row)))"

section \<open>The page\<close>

record SiteContact =
  ct_name :: string
  ct_role :: string
  ct_phone :: string
  ct_email :: string
  ct_notify_on_alarm :: bool
  ct_notes :: "string option"

definition EMPTY_CONTACT :: SiteContact where
  "EMPTY_CONTACT = \<lparr>ct_name = [], ct_role = [], ct_phone = [], ct_email = [], ct_notify_on_alarm = True, ct_notes = Some []\<rparr>"

definition contact_json :: "SiteContact \<Rightarrow> json" where
  "contact_json c = JObj ([(''name'', JStr (ct_name c)), (''role'', JStr (ct_role c)), (''phone'', JStr (ct_phone c)),
     (''email'', JStr (ct_email c)), (''notify_on_alarm'', JBool (ct_notify_on_alarm c))] @
     (case ct_notes c of None \<Rightarrow> [] | Some n \<Rightarrow> [(''notes'', JStr n)]))"

definition contact_text :: "json \<Rightarrow> string \<Rightarrow> string" where
  "contact_text j k = (case json_field k j of Some (JStr s) \<Rightarrow> s | _ \<Rightarrow> [])"

definition contact_of :: "json \<Rightarrow> SiteContact" where
  "contact_of j = \<lparr>ct_name = contact_text j ''name'', ct_role = contact_text j ''role'', ct_phone = contact_text j ''phone'',
     ct_email = contact_text j ''email'', ct_notify_on_alarm = (json_field ''notify_on_alarm'' j = Some (JBool True)),
     ct_notes = (case json_field ''notes'' j of Some (JStr s) \<Rightarrow> Some s | _ \<Rightarrow> None)\<rparr>"

text \<open>What a card shows of a contact.\<close>

definition card_shows :: "SiteContact \<Rightarrow> string list \<times> bool" where
  "card_shows c = ([ct_name c, ct_role c, ct_phone c, ct_email c, nullish (ct_notes c) []], ct_notify_on_alarm c)"

datatype contacts_task = Loading_contacts | Saving_contacts "SiteContact list"

record ContactsPage =
  cp_contacts :: "SiteContact list option"
  cp_saving :: bool
  cp_savedAt :: ms
  cp_err :: string
  cp_tasks :: "contacts_task list"

definition open_contacts :: ContactsPage where
  "open_contacts = \<lparr>cp_contacts = None, cp_saving = False, cp_savedAt = 0, cp_err = [], cp_tasks = [Loading_contacts]\<rparr>"

definition contacts_save :: "SiteContact list \<Rightarrow> ContactsPage \<Rightarrow> ContactsPage" where
  "contacts_save next p = p\<lparr>cp_saving := True, cp_err := [], cp_tasks := cp_tasks p @ [Saving_contacts next]\<rparr>"

definition contacts_updateRow :: "nat \<Rightarrow> (SiteContact \<Rightarrow> SiteContact) \<Rightarrow> ContactsPage \<Rightarrow> ContactsPage" where
  "contacts_updateRow idx patch p =
     (case cp_contacts p of None \<Rightarrow> p | Some cs \<Rightarrow> p\<lparr>cp_contacts := Some (if idx < length cs then cs[idx := patch (cs ! idx)] else cs)\<rparr>)"

definition contacts_removeRow :: "nat \<Rightarrow> ContactsPage \<Rightarrow> ContactsPage" where
  "contacts_removeRow idx p = (case cp_contacts p of None \<Rightarrow> p | Some cs \<Rightarrow> contacts_save (drop_nth idx cs) p)"

definition contacts_addRow :: "ContactsPage \<Rightarrow> ContactsPage" where
  "contacts_addRow p = p\<lparr>cp_contacts := Some (nullish (cp_contacts p) [] @ [EMPTY_CONTACT])\<rparr>"

text \<open>The answer to a save, and to the load: the rows, an array or null, or the text of the error.\<close>

definition contacts_saved :: "ms \<Rightarrow> SiteContact list \<Rightarrow> string option \<Rightarrow> ContactsPage \<Rightarrow> ContactsPage" where
  "contacts_saved now next failure p =
     (case failure of None \<Rightarrow> p\<lparr>cp_savedAt := now, cp_contacts := Some next, cp_saving := False\<rparr>
      | Some m \<Rightarrow> p\<lparr>cp_err := m, cp_saving := False\<rparr>)"

definition contacts_loaded :: "string + json \<Rightarrow> ContactsPage \<Rightarrow> ContactsPage" where
  "contacts_loaded r p =
     (case r of Inl m \<Rightarrow> p\<lparr>cp_err := m\<rparr>
      | Inr j \<Rightarrow> p\<lparr>cp_contacts := Some (case j of JArr xs \<Rightarrow> map contact_of xs | _ \<Rightarrow> [])\<rparr>)"

text \<open>A patch changes one input of a card.\<close>

datatype contact_input = Name_input string | Role_input string | Phone_input string | Email_input string | Notes_input string | Notify_input bool

fun contact_patch :: "contact_input \<Rightarrow> SiteContact \<Rightarrow> SiteContact" where
  "contact_patch (Name_input v) c = c\<lparr>ct_name := v\<rparr>"
| "contact_patch (Role_input v) c = c\<lparr>ct_role := v\<rparr>"
| "contact_patch (Phone_input v) c = c\<lparr>ct_phone := v\<rparr>"
| "contact_patch (Email_input v) c = c\<lparr>ct_email := v\<rparr>"
| "contact_patch (Notes_input v) c = c\<lparr>ct_notes := Some v\<rparr>"
| "contact_patch (Notify_input b) c = c\<lparr>ct_notify_on_alarm := b\<rparr>"

text \<open>The server handles the \<open>n\<close>-th request under way, or it is lost before or after that.\<close>

datatype contacts_answer = Delivered ms | Dropped bool

datatype contacts_event = Card_typed nat contact_input | Card_removed nat | Card_added | Save_clicked | Contacts_answered nat contacts_answer

text \<open>A refusal is thrown as its text, which the server ends with a line break.\<close>

definition error_text :: "nat \<times> string \<Rightarrow> string" where
  "error_text e = snd e @ [CHR 0x0A]"

definition serve_load :: "CallerScope \<Rightarrow> id \<Rightarrow> contacts_answer \<Rightarrow> ContactsPage \<times> contacts_row \<Rightarrow> ContactsPage \<times> contacts_row" where
  "serve_load c siteID a s = (case a of
     Delivered now \<Rightarrow> (contacts_loaded (case HandleListSiteContacts c siteID (snd s) of Inl e \<Rightarrow> Inl (error_text e) | Inr j \<Rightarrow> Inr j) (fst s), snd s)
   | Dropped b \<Rightarrow> (contacts_loaded (Inl ''Failed to fetch'') (fst s), snd s))"

definition serve_save :: "CallerScope \<Rightarrow> id \<Rightarrow> SiteContact list \<Rightarrow> contacts_answer \<Rightarrow> ContactsPage \<times> contacts_row \<Rightarrow> ContactsPage \<times> contacts_row" where
  "serve_save c siteID cs a s =
     (let r = HandleUpdateSiteContacts c siteID (JArr (map contact_json cs)) (snd s);
          stored = (case r of Inl e \<Rightarrow> snd s | Inr row \<Rightarrow> row) in
      case a of
        Delivered now \<Rightarrow> (contacts_saved now cs (case r of Inl e \<Rightarrow> Some (error_text e) | Inr row \<Rightarrow> None) (fst s), stored)
      | Dropped b \<Rightarrow> (contacts_saved 0 cs (Some ''Failed to fetch'') (fst s), if b then stored else snd s))"

fun contacts_step :: "CallerScope \<Rightarrow> id \<Rightarrow> contacts_event \<Rightarrow> ContactsPage \<times> contacts_row \<Rightarrow> ContactsPage \<times> contacts_row" where
  "contacts_step c siteID (Card_typed idx i) (p, row) = (contacts_updateRow idx (contact_patch i) p, row)"
| "contacts_step c siteID (Card_removed idx) (p, row) = (contacts_removeRow idx p, row)"
| "contacts_step c siteID Card_added (p, row) = (if cp_contacts p = None then p else contacts_addRow p, row)"
| "contacts_step c siteID Save_clicked (p, row) =
     ((case cp_contacts p of None \<Rightarrow> p | Some cs \<Rightarrow> if cp_saving p then p else contacts_save cs p), row)"
| "contacts_step c siteID (Contacts_answered n a) (p, row) =
     (if length (cp_tasks p) \<le> n then (p, row)
      else let p' = p\<lparr>cp_tasks := drop_nth n (cp_tasks p)\<rparr> in
        case cp_tasks p ! n of
          Loading_contacts \<Rightarrow> serve_load c siteID a (p', row)
        | Saving_contacts cs \<Rightarrow> serve_save c siteID cs a (p', row))"

section \<open>Properties\<close>

definition server_contact :: "SiteContact \<Rightarrow> CustomerContact" where
  "server_contact c = \<lparr>cc_Name = ct_name c, cc_Role = ct_role c, cc_Phone = ct_phone c, cc_Email = ct_email c,
     cc_NotifyOnAlarm = ct_notify_on_alarm c, cc_Notes = nullish (ct_notes c) []\<rparr>"

lemma decode_contact_json: "decode_contact (contact_json c) = Some (server_contact c)"
  by (cases "ct_notes c")
    (simp_all add: decode_contact_def contact_json_def server_contact_def go_object_def json_field_def go_string_def go_bool_def nullish_def)

lemma decode_contacts_json: "decode_contacts (JArr (map contact_json cs)) = Some (map server_contact cs)"
proof -
  have "those (map (\<lambda>c. Some (server_contact c)) cs) = Some (map server_contact cs)" by (induction cs) simp_all
  then show ?thesis by (simp add: decode_contacts_def comp_def decode_contact_json)
qed

lemma card_of_stored: "card_shows (contact_of (marshal_contact (server_contact c))) = card_shows c"
  by (simp add: card_shows_def contact_of_def marshal_contact_def server_contact_def contact_text_def json_field_def nullish_def)

text \<open>Who may edit: the two administrative roles anywhere, a site manager at sites of his organisation or assigned to him.\<close>

definition may_edit :: "CallerScope \<Rightarrow> id \<Rightarrow> contacts_row \<Rightarrow> bool" where
  "may_edit c siteID row \<longleftrightarrow> siteID \<noteq> [] \<and> (cs_Role c \<in> {''admin'', ''soc_supervisor''} \<or> cs_Role c = ''site_manager'' \<and> canAccessSite c siteID row)"

lemma update_iff_may_edit:
  "HandleUpdateSiteContacts c siteID (JArr (map contact_json cs)) row =
     (if may_edit c siteID row then Inr (SetCustomerContacts (map server_contact cs) row)
      else Inl (if siteID = [] then (400, ''site id required'')
        else if cs_Role c \<noteq> ''site_manager'' then (403, ''forbidden'') else (404, ''404 page not found'')))"
  by (auto simp: HandleUpdateSiteContacts_def may_edit_def IsUnscoped_def decode_contacts_json)

lemma no_site_to_edit [simp]: "\<not> may_edit c [] row"
  by (simp add: may_edit_def)

lemma serve_save_granted:
  assumes "may_edit c siteID row"
  shows "serve_save c siteID cs (Delivered now) (p, row) = (contacts_saved now cs None p, SetCustomerContacts (map server_contact cs) row)"
    "serve_save c siteID cs (Dropped b) (p, row) =
      (contacts_saved 0 cs (Some ''Failed to fetch'') p, if b then SetCustomerContacts (map server_contact cs) row else row)"
  using assms by (simp_all add: serve_save_def update_iff_may_edit)

lemma editor_reads: "may_edit c siteID (Some (orgID, cs)) \<Longrightarrow> HandleListSiteContacts c siteID (Some (orgID, cs)) = Inr (JArr (map marshal_contact cs))"
  by (auto simp: HandleListSiteContacts_def may_edit_def IsUnscoped_def GetCustomerContacts_def)

lemma may_edit_row: "may_edit c siteID (Some (orgID, cs)) = may_edit c siteID (Some (orgID, ds))"
  by (simp add: may_edit_def canAccessSite_def)

text \<open>Nothing the page does changes the row without the right to edit, nor the organisation with it.\<close>

lemma step_row:
  "\<not> may_edit c siteID (snd s) \<Longrightarrow> snd (contacts_step c siteID e s) = snd s"
  "may_edit c siteID (snd (contacts_step c siteID e s)) = may_edit c siteID (snd s)"
  "map_option fst (snd (contacts_step c siteID e s)) = map_option fst (snd s)"
proof -
  have set_row: "map_option fst (SetCustomerContacts cs row) = map_option fst row"
    "may_edit c siteID (SetCustomerContacts cs row) = may_edit c siteID row" for cs row
    by (cases row; auto simp: SetCustomerContacts_def may_edit_def canAccessSite_def)+
  show "\<not> may_edit c siteID (snd s) \<Longrightarrow> snd (contacts_step c siteID e s) = snd s"
    by (cases "(c, siteID, e, s)" rule: contacts_step.cases)
      (auto simp: Let_def serve_load_def serve_save_def update_iff_may_edit split: contacts_task.split contacts_answer.split)
  show "may_edit c siteID (snd (contacts_step c siteID e s)) = may_edit c siteID (snd s)"
    by (cases "(c, siteID, e, s)" rule: contacts_step.cases)
      (auto simp: Let_def serve_load_def serve_save_def update_iff_may_edit set_row split: contacts_task.split contacts_answer.split)
  show "map_option fst (snd (contacts_step c siteID e s)) = map_option fst (snd s)"
    by (cases "(c, siteID, e, s)" rule: contacts_step.cases)
      (auto simp: Let_def serve_load_def serve_save_def update_iff_may_edit set_row split: contacts_task.split contacts_answer.split)
qed

interpretation contacts_reader: machine "contacts_step c siteID" "\<lambda>s. snd s = row"
  "\<lambda>s. \<not> may_edit c siteID row \<longrightarrow> snd s = row"
proof unfold_locales
  fix s :: "ContactsPage \<times> contacts_row" and e
  show "snd s = row \<Longrightarrow> \<not> may_edit c siteID row \<longrightarrow> snd s = row" by simp
  show "\<not> may_edit c siteID row \<longrightarrow> snd s = row \<Longrightarrow> \<not> may_edit c siteID row \<longrightarrow> snd (contacts_step c siteID e s) = row"
    using step_row(1) [of c siteID s e] by auto
qed

text \<open>Who may not edit changes nothing, whatever he does on the page and whatever becomes of his requests.\<close>

theorem readers_change_nothing:
  assumes "\<not> may_edit c siteID row"
  shows "snd (fold (contacts_step c siteID) es (p, row)) = row"
  using contacts_reader.inv_run [of c siteID row "(p, row)" es] assms by simp

theorem readers_change_nothing_witness:
  "snd (fold (contacts_step \<lparr>cs_Role = ''customer'', cs_OrganizationID = ''co-1'', cs_AssignedSiteIDs = []\<rparr> ''ACG-101'')
     [Contacts_answered 0 (Delivered 0), Card_added, Save_clicked, Contacts_answered 0 (Delivered 1)] (open_contacts, Some (''co-1'', []))) = Some (''co-1'', [])"
  by (rule readers_change_nothing) (simp add: may_edit_def)

text \<open>C40: Saving works for whoever may edit the site: with the list loaded and no other request under way, one click on save and its
  answer store the list on screen, which stays there without an error; opened again, once its load is answered, the page shows
  the same cards.\<close>

theorem saved_contacts_reload:
  assumes "may_edit c siteID (Some (orgID, old))" "cp_tasks p = []" "\<not> cp_saving p" "cp_contacts p = Some cs"
    and "fold (contacts_step c siteID) [Save_clicked, Contacts_answered 0 (Delivered now)] (p, Some (orgID, old)) = (p', row)"
    and "fold (contacts_step c siteID) [Contacts_answered 0 (Delivered later)] (open_contacts, row) = (q, row')"
  shows "cp_contacts p' = Some cs \<and> cp_err p' = [] \<and> \<not> cp_saving p' \<and> cp_savedAt p' = now \<and> cp_tasks p' = [] \<and>
    row = Some (orgID, map server_contact cs) \<and> map_option (map card_shows) (cp_contacts q) = Some (map card_shows cs)"
proof -
  have first: "p' = p\<lparr>cp_savedAt := now, cp_contacts := Some cs, cp_saving := False, cp_err := [], cp_tasks := []\<rparr> \<and> row = Some (orgID, map server_contact cs)"
    using assms(1-5) by (auto simp: contacts_save_def serve_save_def update_iff_may_edit SetCustomerContacts_def contacts_saved_def)
  have "may_edit c siteID (Some (orgID, map server_contact cs))" using assms(1) may_edit_row by blast
  then have "q = open_contacts\<lparr>cp_tasks := [], cp_contacts := Some (map contact_of (map marshal_contact (map server_contact cs)))\<rparr>"
    using assms(6) first by (auto simp: open_contacts_def serve_load_def editor_reads contacts_loaded_def)
  then show ?thesis using first by (simp add: comp_def card_of_stored)
qed

theorem saved_contacts_reload_witness:
  "let me = \<lparr>cs_Role = ''site_manager'', cs_OrganizationID = ''co-1'', cs_AssignedSiteIDs = []\<rparr>; foreman = EMPTY_CONTACT\<lparr>ct_name := ''Sam'', ct_phone := ''555''\<rparr>;
     (p', row) = fold (contacts_step me ''ACG-101'') [Save_clicked, Contacts_answered 0 (Delivered 5)]
       (open_contacts\<lparr>cp_tasks := [], cp_contacts := Some [foreman]\<rparr>, Some (''co-1'', [])) in
   row = Some (''co-1'', [server_contact foreman])"
  using saved_contacts_reload [of "\<lparr>cs_Role = ''site_manager'', cs_OrganizationID = ''co-1'', cs_AssignedSiteIDs = []\<rparr>" "''ACG-101''" "''co-1''" "[]"
      "open_contacts\<lparr>cp_tasks := [], cp_contacts := Some [EMPTY_CONTACT\<lparr>ct_name := ''Sam'', ct_phone := ''555''\<rparr>]\<rparr>"
      "[EMPTY_CONTACT\<lparr>ct_name := ''Sam'', ct_phone := ''555''\<rparr>]" 5, OF _ _ _ _ surjective_pairing surjective_pairing]
  by (simp add: may_edit_def canAccessSite_def open_contacts_def Let_def case_prod_beta)

text \<open>What is typed while a save is under way is lost when its answer comes.\<close>

lemma typed_during_save_lost:
  assumes "may_edit c siteID (Some (orgID, old))" "cp_tasks p = []" "\<not> cp_saving p" "cp_contacts p = Some cs"
  shows "cp_contacts (fst (fold (contacts_step c siteID) [Save_clicked, Card_typed 0 i, Contacts_answered 0 (Delivered now)] (p, Some (orgID, old)))) = Some cs"
  using assms by (auto simp: contacts_save_def serve_save_def update_iff_may_edit contacts_saved_def contacts_updateRow_def)

text \<open>Two contacts removed in quick succession: the second request still holds the first contact, who comes back.\<close>

lemma overlapping_removals_restore:
  assumes "may_edit c siteID (Some (orgID, old))" "cp_tasks p = []" "cp_contacts p = Some [a, b, d]"
  shows "snd (fold (contacts_step c siteID) [Card_removed 0, Card_removed 1, Contacts_answered 0 (Delivered t), Contacts_answered 0 (Delivered u)] (p, Some (orgID, old))) =
    Some (orgID, map server_contact [a, d])"
proof -
  have "may_edit c siteID (Some (orgID, cs))" for cs using assms(1) may_edit_row by blast
  then show ?thesis using assms(2,3)
    by (simp add: contacts_removeRow_def contacts_save_def serve_save_granted SetCustomerContacts_def contacts_saved_def drop_nth_def)
qed

text \<open>A removal whose request fails leaves the contact and says why; a lost answer leaves the contact on screen that is gone from the row.\<close>

lemma lost_removal_answer:
  assumes "may_edit c siteID (Some (orgID, old))" "cp_tasks p = []" "cp_contacts p = Some [a]"
  shows "fold (contacts_step c siteID) [Card_removed 0, Contacts_answered 0 (Dropped True)] (p, Some (orgID, old)) =
    (p\<lparr>cp_err := ''Failed to fetch'', cp_saving := False\<rparr>, Some (orgID, []))"
  using assms by (simp add: contacts_removeRow_def contacts_save_def serve_save_granted SetCustomerContacts_def contacts_saved_def drop_nth_def)

text \<open>Saving the contacts of a site that does not exist is reported as saved to an administrator.\<close>

lemma missing_site_saved:
  "HandleUpdateSiteContacts \<lparr>cs_Role = ''admin'', cs_OrganizationID = [], cs_AssignedSiteIDs = []\<rparr> ''gone'' (JArr []) None = Inr None"
  by (simp add: HandleUpdateSiteContacts_def IsUnscoped_def decode_contacts_def SetCustomerContacts_def)

end
