(* ===== verification/Spec2Isabelle.thy ===== *)
theory Spec2Isabelle
  imports Operator_Store Alert_Stream Grid_Layout Hvcc_Patch Mse_Player Vca_Zones Vca_Canvas Http_Client Nvr_Api Platform_Api
    Json Auth Feature_Flags Session_Manager Media Camera_Registry Browser_Storage Operator_Input Query_Hooks
    Timeline Recorder_Page Event_List Toasts Alarm_View Operator_Console Video_Player Camera_Grid Site_Schedule Api_Routes Site_Admin Portal Camera_Manager Settings_Page Search_Page Admin_Page Camera_Layout Event_History
    Labeling Vca_Editor Portal_Site Site_Contacts
begin

text \<open>
  \<^bold>\<open>Ironsight frontend: a verification library.\<close> Ironsight is a video surveillance platform: a Go backend (recording,
  alarms, evidence, accounts) and a TypeScript frontend (\<^verbatim>\<open>src/frontend/src\<close>) with a camera wall, an operator console
  for alarms, a customer portal and administration pages. The theories model the frontend's logic: its stores, its
  alert stream, its HTTP clients, its session handling and the computations behind the camera wall and the zone
  editor, and the state of the larger pages: the recorder page with its timeline and player, the alarm view, the site
  administration dialogs and the customer portal. Where a frontend promise is about the server (CSRF tokens, alarm scores,
  feature flags, share expiry, session cookies, routes, recording policies, notification recipients) the few Go functions
  it speaks to are modelled as well.

  \<^bold>\<open>How the parts interact.\<close> The page signs in (\<open>Auth\<close>) and loads feature flags (\<open>Feature_Flags\<close>). The console opens an
  alert stream (\<open>Alert_Stream\<close>), whose frames become actions of the operator store (\<open>Operator_Store\<close>); the store feeds the
  sounds and key chords of \<open>Operator_Input\<close>. All other data moves through \<open>Http_Client\<close>, on which the two API clients
  (\<open>Nvr_Api\<close>, \<open>Platform_Api\<close>), the media tokens (\<open>Media\<close>) and the query hooks (\<open>Camera_Registry\<close>, \<open>Query_Hooks\<close>) are built. The
  camera wall uses \<open>Grid_Layout\<close>, its storage (\<open>Browser_Storage\<close>) and the live player (\<open>Mse_Player\<close>, \<open>Hvcc_Patch\<close>); the zone editor
  \<open>Vca_Editor\<close> holds the \<open>Vca_Canvas\<close> over \<open>Vca_Zones\<close>. The recorder page (\<open>Recorder_Page\<close>) holds the wall (\<open>Camera_Grid\<close>), the \<open>Timeline\<close> that seeks in it,
  the players that follow it (\<open>Video_Player\<close>) and the \<open>Event_List\<close>; the console (\<open>Operator_Console\<close>) opens the \<open>Alarm_View\<close> and shows
  \<open>Toasts\<close>. The dialogs of \<open>Site_Schedule\<close> and \<open>Site_Admin\<close> and the pages of \<open>Portal\<close> call the platform client, and \<open>Api_Routes\<close> says which of
  those calls the server answers at all. This theory holds the properties that span components.

  \<^bold>\<open>Theories, the code they model, and what they show.\<close>

  \<^item> \<open>Prelude\<close>: JavaScript values and library functions as far as used (nullish and truthy tests, slices, stable sort, string
    functions), exceptions as a sum type, the \<open>machine\<close> locale (invariants of event-driven components, with reachability) and
    the \<open>bounded_memory\<close> locale. \<open>Types\<close>: records of \<^verbatim>\<open>types/ironsight.ts\<close>. \<open>Js_Date\<close>, \<open>Url\<close>, \<open>Json\<close>: \<^verbatim>\<open>toISOString\<close>, query strings with
    percent coding, and \<^verbatim>\<open>JSON.stringify\<close> and \<^verbatim>\<open>JSON.parse\<close> with their round trip.
  \<^item> \<open>Operator_Store\<close> (\<^verbatim>\<open>stores/operator-store.ts\<close>): one record, one definition per action, \<open>operator_step\<close> over all actions. Feeds and
    memories are bounded, a resolved alarm does not return while its dismissal is remembered (and a case where an early dismissal
    is forgotten too soon), the disposition record is complete, incidents refine a map with the oldest of a full list evicted,
    late snapshots arrive, and what persistence keeps.
  \<^item> \<open>Alert_Stream\<close> (\<^verbatim>\<open>lib/ws-alerts.ts\<close>, \<^verbatim>\<open>hooks/useAlerts.ts\<close>): the stream class as a machine over browser events with its tickets,
    sockets and timers explicit; the five subscription interfaces are one locale. One attempt at a time with exponential
    backoff, recovery in at most three events, silence after \<^verbatim>\<open>destroy\<close>.
  \<^item> \<open>Grid_Layout\<close> (\<^verbatim>\<open>lib/camera-grid-layout.ts\<close>): layout generation and the conversions between preset and freeform mode.
  \<^item> \<open>Hvcc_Patch\<close>, \<open>Mse_Player\<close> (\<^verbatim>\<open>lib/mse-player.ts\<close>): the byte patch of the HEVC configuration box, as a refinement of setting one flag
    per array, safe on arbitrary bytes; the player's queue keeps every frame in order and, by the \<^verbatim>\<open>updateend\<close> events of its own
    appends, drains.
  \<^item> \<open>Vca_Zones\<close>, \<open>Vca_Canvas\<close> (\<^verbatim>\<open>lib/vca-zones.ts\<close>, \<^verbatim>\<open>hooks/useVCACanvas.ts\<close>): the two zone catalogues as interpretations of one locale, the
    polygon hit test and the canvas handlers over rational coordinates.
  \<^item> \<open>Http_Client\<close> (\<^verbatim>\<open>lib/api.ts\<close>, \<^verbatim>\<open>internal/api/auth_handler.go\<close>): worlds with a server function, cookies, a location and a request
    log; \<^verbatim>\<open>authFetch\<close> against the Go CSRF middleware, through the \<open>csrf_server\<close> locale. The server's random bytes are an argument, and so is
    their failure.
  \<^item> \<open>Nvr_Api\<close>, \<open>Platform_Api\<close> (\<^verbatim>\<open>lib/api.ts\<close>, \<^verbatim>\<open>lib/ironsight-api.ts\<close>): every endpoint function with its address, body, error branches and
    fallbacks; queries decode on the server to what was asked, and the score preview equals the server's score.
  \<^item> \<open>Auth\<close> (\<^verbatim>\<open>contexts/AuthContext.tsx\<close>), \<open>Feature_Flags\<close> (\<^verbatim>\<open>lib/feature-flags.ts\<close>, \<^verbatim>\<open>FeatureGate.tsx\<close>), \<open>Session_Manager\<close>
    (\<^verbatim>\<open>hooks/useSessionManager.tsx\<close>): sign-in, sign-out and reload as the life of a page, and the
    route matrix; flags fail closed under every order of renders, effects
    and answers, and the one order in which a component misses them; the warning timer over timed events.
  \<^item> \<open>Media\<close> (\<^verbatim>\<open>lib/media.ts\<close>): address patterns written out as scanners, and the token refresher as a machine.
  \<^item> \<open>Camera_Registry\<close>, \<open>Query_Hooks\<close> (\<^verbatim>\<open>hooks/useCameraAssignment.ts\<close> and the other query hooks, the admin, search and portal stores): the
    merged camera list equals a plain search; which queries a mutation refreshes.
  \<^item> \<open>Browser_Storage\<close> (saved layouts, saved searches, current operator): JSON slots as a locale, with two interpretations.
  \<^item> \<open>Operator_Input\<close> (\<^verbatim>\<open>hooks/useAlertAudio.ts\<close>, \<^verbatim>\<open>useDispositionKeybinds.ts\<close>, \<^verbatim>\<open>useKeyboardShortcuts.ts\<close>, \<^verbatim>\<open>useDigitalZoom.ts\<close>, the two tile
    switches, \<^verbatim>\<open>useCameraNameEdit.ts\<close>).

  \<^item> \<open>Timeline\<close> (\<^verbatim>\<open>components/Timeline.tsx\<close>), \<open>Recorder_Page\<close> (\<^verbatim>\<open>app/page.tsx\<close>): window, coverage bars, markers, ruler, pointer gestures and
    transport buttons; the page's state, its event socket as a machine, and the merge of queried and live events. The ruler
    ends and marks every multiple in sight, coverage is drawn exactly where something is recorded, the merge keeps the newest
    events, the socket always has one attempt under way.
  \<^item> \<open>Event_List\<close> (\<^verbatim>\<open>components/EventListPanel.tsx\<close>): labels and boxes read from event details, the feed with its filters, sorting and grouping.
    \<open>Toasts\<close>: the two toast lists with their timers.
  \<^item> \<open>Alarm_View\<close> (\<^verbatim>\<open>components/operator/ActiveAlarmView.tsx\<close>): the workflow of one alarm, its submission split at the awaits; an
    uninterrupted submission resolves the alarm exactly when the record was saved, a release in between does not; the checklists stay as long as their procedures. \<open>Operator_Console\<close> (\<^verbatim>\<open>app/operator/page.tsx\<close>, incident queue, handoff, wrap-up
    and the guards of the layouts with the pages nested under them): which alerts the feed shows, and that the redirects between
    pages come to rest.
  \<^item> \<open>Video_Player\<close> (\<^verbatim>\<open>components/VideoPlayer.tsx\<close>): source choice, loading with retries, the playback clock; a source that
    is loaded is the one on the element, but for the case named there. \<open>Camera_Grid\<close> (\<^verbatim>\<open>components/CameraGrid.tsx\<close>): tiles, drags, saved layouts as a machine over the storage of \<open>Browser_Storage\<close>.
  \<^item> \<open>Site_Schedule\<close> (\<^verbatim>\<open>components/SiteRecordingPolicyPanel.tsx\<close>, the monitoring modal, \<^verbatim>\<open>internal/api\<close> and the recording engine): the window
    editors as machines, and that the recorder runs exactly in the windows drawn unless all of them are disabled. \<open>Site_Admin\<close> (procedures, access, site form,
    devices, archive and delete, with their Go handlers): edits round trip, access is toggled for exactly one user, and
    archiving is reported and never done.
  \<^item> \<open>Api_Routes\<close> (\<^verbatim>\<open>internal/api/router.go\<close>): the route table, and the client functions whose calls no route serves.
  \<^item> \<open>Portal\<close> (\<^verbatim>\<open>lib/format.ts\<close>, \<^verbatim>\<open>app/portal\<close>, \<^verbatim>\<open>components/portal\<close>): formatting, notification preferences with the server's choice of recipients, the
    support widget and the review queue as machines, and the site export.
  \<^item> \<open>Camera_Manager\<close> (\<^verbatim>\<open>components/CameraManager.tsx\<close>, \<^verbatim>\<open>internal/api/cameras.go\<close>): selection, bulk actions and the edit form with
    its save on blur; saving commits the fields of the form that its tab sends, and a refused bulk deletion is reported as done.
  \<^item> \<open>Settings_Page\<close> (\<^verbatim>\<open>components/SettingsPage.tsx\<close> and the handlers behind it): tabs, the folder browser with the server's paths, the
    audit log; paging shows every entry once, and the speakers tab reloads forever for some answers.
  \<^item> \<open>Search_Page\<close> (\<^verbatim>\<open>app/search/page.tsx\<close>, \<^verbatim>\<open>internal/api/search_frames.go\<close>): the filter controls as a machine, the server's search and its
    exchange sort; requests decode to what is shown, answers satisfy every filter, and two boxes empty every answer.
  \<^item> \<open>Admin_Page\<close> (\<^verbatim>\<open>app/admin/page.tsx\<close>, \<^verbatim>\<open>internal/api/users.go\<close>): companies, site list, operators and accounts; the form for a new
    account as a machine with the values its memoised handler has captured, which decide who becomes an administrator; bcrypt, which
    may refuse a password, is an argument of the account handlers.
  \<^item> \<open>Camera_Layout\<close> (\<^verbatim>\<open>hooks/useCameraLayout.tsx\<close>, \<^verbatim>\<open>hooks/useVCASnapshot.ts\<close>, \<^verbatim>\<open>lib/milesight.ts\<close>): the stored camera order with dragging and
    pinning, the picture behind the zone editor, and the vendor requests. The order survives a reload; a drag does what it shows
    unless a camera is pinned.
  \<^item> \<open>Event_History\<close> (\<^verbatim>\<open>app/portal/history/page.tsx\<close>, \<^verbatim>\<open>components/admin/AuditLogExport.tsx\<close>): the history page over answers in any order,
    and the CSV of the audit trail with a reader that gets every field back unless an unquoted one holds a comma, quote or line break.
  \<^item> \<open>Requests\<close>: how a request under way ends. \<open>Labeling\<close> (\<^verbatim>\<open>app/admin/labeling/page.tsx\<close>, \<^verbatim>\<open>internal/database/vlm_labels.go\<close>): the annotator's
    page over the server's queue; no job is handed out twice, and who waits for answers, with none lost, leaves none behind.
  \<^item> \<open>Vca_Editor\<close> (\<^verbatim>\<open>components/VCAZoneEditor.tsx\<close>, \<^verbatim>\<open>internal/api/vca.go\<close>): the parent of the canvas with its requests; every zone
    sent is acceptable, and a user who changes nothing while a request is under way, with all served, sees the stored zones.
  \<^item> \<open>Portal_Site\<close> (\<^verbatim>\<open>app/portal/sites/[id]/page.tsx\<close>): the page of one site; the picture on screen is the selected event's
    and all others are released, a snooze never arrives at the server, and the figures are the same for every site.
  \<^item> \<open>Site_Contacts\<close> (\<^verbatim>\<open>app/portal/sites/[id]/contacts/page.tsx\<close>, \<^verbatim>\<open>internal/api/site_contacts.go\<close>): the contact editor over the
    site's row; a saved list is shown again, only editors change it, and overlapping requests lose changes.

  \<^bold>\<open>Conventions.\<close> A store or hook is a record and one function per action or handler; an asynchronous function is split at
  its awaits where another event can come between (the stream, the player, the refresher, the flags, the submission of an alarm, the zone editor, the labeling page), and is otherwise a
  function from world to world and result. Numbers are rationals or integers, without the rounding of doubles; strings are
  lists of bytes (UTF-8). Server behaviour is an arbitrary function of cookies, log and request unless a theorem names the
  Go server. The clock, random identifiers and \<^verbatim>\<open>Date.parse\<close> results are arguments. Browser storage accepts every write,
  except where a model gives the unavailable case.

  \<^bold>\<open>Fuel and bounds.\<close> The JSON parser takes fuel twice the length of its input and one more; each nested call uses at least one
  character, and the round trip is proved with that amount. The draw loop of the canvas and all other recursions are
  structural or have a termination proof. The limits 200 (feeds), 500 (dismissals), 24 (slots) are the code's.

  \<^bold>\<open>Not modelled.\<close> Rendering and styling of pages and components; the query library, the decoder, sockets and the audio device,
  which are the environment; the Go and Python services but for the functions named above; mock data, themes,
  translations; the vendor panels of \<^verbatim>\<open>components/MilesightAdvanced.tsx\<close>, which lay out the settings a camera reports, the
  analytics page, which shows mock data, and the editors of PPE zones and compliance rules, which no page imports and whose routes
  the server does not mount.
\<close>

section \<open>The console as a whole\<close>

lemma console_stream_reach:
  "reach stream_next started (con_stream c) \<Longrightarrow> reach stream_next started (con_stream (console_step e c))"
  unfolding console_step_stream by (cases e) (auto intro: reach_step)

lemma console_run_reach:
  "reach stream_next started (con_stream c) \<Longrightarrow> reach stream_next started (con_stream (fold console_step es c))"
  by (induction es arbitrary: c) (auto intro: console_stream_reach)

lemma opened_store: "con_store (useAlertStream loc st) = st"
  by (simp add: useAlertStream_def Let_def split_beta handleOutput_store onStatusChange_def connect_def setStatus_def
      onAI_def onSnapshot_def onIncident_def onAlert_def newAlertStream_def)

lemma silent_console_run:
  assumes "silent (con_stream c)"
  shows "con_store (fold console_step (map Stream es) c) = con_store c"
  using assms
proof (induction es arbitrary: c)
  case (Cons e es)
  have "con_store (console_step (Stream e) c) = con_store c"
    using silent_step_no_action [OF Cons.prems, of e] by (simp only: console_step_store event_actions.simps fold_simps)
  moreover have "silent (con_stream (console_step (Stream e) c))"
    using silent_step [OF Cons.prems, of e] by (simp add: console_step_stream del: console_step.simps)
  ultimately show ?case using Cons.IH by (simp del: console_step.simps)
qed simp

text \<open>C1: The console holds together from its first render on: after any interleaving of seeded incidents,
  stream events and operator actions the store's invariant holds, and once the page has left (the
  stream is destroyed) nothing the browser still delivers to the old stream changes the store.\<close>

theorem console_end_to_end:
  assumes "c = fold console_step es (useAlertStream loc (initialStore t))"
  shows "store_inv (con_store c) \<and>
    con_store (fold console_step (map Stream late) (console_step (Stream Destroy) c)) = con_store (console_step (Stream Destroy) c)"
proof -
  have "store_inv (initialStore t)" by (rule store_inv_initial) (simp add: is_initialStore_def initialStore_def)
  then have "store_inv (con_store c)"
    unfolding assms console_run_store opened_store by (rule store.inv_run)
  moreover have "reach stream_next started (con_stream c)"
    unfolding assms by (intro console_run_reach reach_start useAlertStream_started)
  then have "conn_inv (stream_next Destroy (con_stream c))" by (intro alert_stream.inv_reach reach_step)
  then have "silent (stream_next Destroy (con_stream c))" by (simp add: conn_inv_def stream_defs)
  then have "silent (con_stream (console_step (Stream Destroy) c))" by (simp only: console_step_stream console_event.case)
  ultimately show ?thesis using silent_console_run by blast
qed

theorem console_end_to_end_witness:
  "store_inv (con_store (fold console_step [Stream (Ticket None True), User (AddAlert (alert_fixture ''a1'' None 0 None)), Stream (Sock_open 0)]
     (useAlertStream (Some (''https:'', ''soc.example'')) (initialStore 0))))"
  using console_end_to_end [OF refl] by blast

section \<open>Signing in and the console's operator\<close>

lemma display_name_object: "truthy_at k u = Some n \<Longrightarrow> \<exists>fs. u = JObj fs"
  by (cases u) (simp_all add: truthy_at_def json_field_def)

lemma stored_user:
  assumes "wf_json u" and "truthy_at k u = Some n"
  shows "local_user (Some (stringify fractx u)) = u"
proof -
  from display_name_object [OF assms(2)] obtain fs where "u = JObj fs" ..
  then have "stringify fractx u \<noteq> []" by simp
  then show ?thesis using parse_stringify [OF assms(1), of fractx] by (simp add: local_user_def truthy_str_def)
qed

text \<open>The console shows who signed in: after a successful login with a user that has a display name, the
  current operator the page loads carries that name, whatever name the operator table has, with all
  other fields as the server sent them.\<close>

theorem operator_follows_login:
  assumes "login (stringify fractx) i p s = (s', Inr ())" and "as_user s' = Some u" and "wf_json u"
    and "truthy_at ''display_name'' u = Some n" and "fetchJSON ''/api/v1/operators/current'' no_init w = (w', Inr op)"
  shows "\<exists>fs. getCurrentOperator (as_local s' USER_KEY) w = (w', Inr (Some (JObj fs))) \<and>
    map_of fs = (map_of (spread_opt op))(''name'' \<mapsto> n)"
proof -
  have stored: "as_local s' USER_KEY = Some (stringify fractx u)"
    by (cases rule: login_cases [of "stringify fractx" i p s]) (use assms(1,2) in auto)
  from display_name_object [OF assms(4)] have t: "truthy_json u" by auto
  have l: "local_user (as_local s' USER_KEY) = u" unfolding stored by (rule stored_user [OF assms(3,4)])
  have "getCurrentOperator (as_local s' USER_KEY) w = (w', Inr (Some (JObj (obj_set (''name'', n) (spread_opt op)))))"
    unfolding getCurrentOperator_def l using t assms(4,5) by (simp add: bind_io_def return_io_def)
  then show ?thesis by (auto simp: fun_eq_iff map_of_obj_set)
qed

definition login_fixture_world :: World where
  "login_fixture_world = \<lparr>wd_server = (\<lambda>_ _ _. json_reply (JObj [(''name'', JStr ''ops''), (''user'', JObj [(''display_name'', JStr ''Amy'')])]) []),
     wd_jar = [], wd_document = False, wd_location = ''/login'', wd_log = []\<rparr>"

theorem operator_follows_login_witness:
  "\<exists>s' w' fs. login (stringify (\<lambda>_. [])) ''amy'' ''pw'' (fixture_auth\<lparr>as_world := login_fixture_world\<rparr>) = (s', Inr ()) \<and>
     getCurrentOperator (as_local s' USER_KEY) login_fixture_world = (w', Inr (Some (JObj fs))) \<and> map_of fs ''name'' = Some (JStr ''Amy'')"
proof -
  let ?s = "fixture_auth\<lparr>as_world := login_fixture_world\<rparr>"
  let ?u = "JObj [(''display_name'', JStr ''Amy'')]"
  obtain s' where l: "login (stringify (\<lambda>_. [])) ''amy'' ''pw'' ?s = (s', Inr ())" "as_user s' = Some ?u"
    by (simp add: login_def login_fixture_world_def send_def json_reply_def bind_io_def ok_def res_json_def return_io_def
        json_field_def user_of_def Let_def)
  obtain w' op where f: "fetchJSON ''/api/v1/operators/current'' no_init login_fixture_world = (w', Inr op)"
    by (simp add: fetchJSON_def authFetch_def send_def login_fixture_world_def json_reply_def getCSRFToken_def ok_def
        redirect_on_401_def res_json_def io_defs isMutation_def request_method_def with_content_type_def no_init_def get_init_def
        upper_char_def Let_def)
  have "wf_json ?u" "truthy_at ''display_name'' ?u = Some (JStr ''Amy'')" by (simp_all add: truthy_at_def json_field_def)
  from operator_follows_login [OF l this f] l(1) show ?thesis by auto
qed

end
